(* ===== verification/AW_Prelude.thy ===== *)
theory AW_Prelude
  imports Complex_Main
begin

text \<open>
  Shared vocabulary of the development: clock readings, the floating-point values whose
  special cases the code tests for, the list operations behind \<open>std::find_if\<close> followed by
  an update or an \<open>erase\<close>, and the theorem collections the component theories fill.

  A clock reading (\<open>rclcpp::Time\<close>) is a number of nanoseconds, kept as an integer; the
  difference of two readings is turned into seconds as \<open>rclcpp::Duration::seconds\<close> does.
  A \<open>double\<close> that the code only compares, adds or clamps is a real number; where the code
  tests for NaN or infinity, or can divide by zero, the value has type \<open>flt\<close>, which has
  these special values.
\<close>

named_theorems handler_defs \<open>unfolding of the handlers of the nodes\<close>
named_theorems frame_simps \<open>fields that an operation leaves alone\<close>
named_theorems inv_intros \<open>operations that keep the invariant of their component\<close>

section \<open>Time\<close>

type_synonym time = int

definition seconds :: "int \<Rightarrow> real" where
  "seconds d = real_of_int d / 1000000000"

lemma seconds_mono: "a \<le> b \<Longrightarrow> seconds a \<le> seconds b"
  by (simp add: seconds_def divide_right_mono)

lemma seconds_0 [simp]: "seconds 0 = 0"
  by (simp add: seconds_def)

lemma seconds_nonneg [simp]: "0 \<le> seconds d \<longleftrightarrow> 0 \<le> d"
  by (simp add: seconds_def)

lemma seconds_add: "seconds (a + b) = seconds a + seconds b"
  by (simp add: seconds_def add_divide_distrib)

lemma seconds_le_iff [simp]: "seconds a \<le> seconds b \<longleftrightarrow> a \<le> b"
  by (simp add: seconds_def divide_le_cancel)

lemma seconds_eq_iff [simp]: "seconds a = seconds b \<longleftrightarrow> a = b"
  by (simp add: seconds_def)

section \<open>Floating-point values with their special cases\<close>

datatype flt = Fin real | PInf | NInf | NaN

fun flt_less :: "flt \<Rightarrow> flt \<Rightarrow> bool" where
  "flt_less NaN _ = False"
| "flt_less _ NaN = False"
| "flt_less (Fin a) (Fin b) = (a < b)"
| "flt_less NInf y = (y \<noteq> NInf)"
| "flt_less _ NInf = False"
| "flt_less PInf _ = False"
| "flt_less _ PInf = True"

fun flt_isfinite :: "flt \<Rightarrow> bool" where
  "flt_isfinite (Fin _) = True"
| "flt_isfinite _ = False"

fun flt_isnan :: "flt \<Rightarrow> bool" where
  "flt_isnan NaN = True"
| "flt_isnan _ = False"

text \<open>Division of two finite doubles, the divisor being a positive zero when it is zero.\<close>

definition flt_div :: "real \<Rightarrow> real \<Rightarrow> flt" where
  "flt_div a b =
     (if b \<noteq> 0 then Fin (a / b)
      else if a = 0 then NaN else if 0 < a then PInf else NInf)"

section \<open>First match in a vector\<close>

text \<open>
  \<open>std::find_if\<close> gives the first element that satisfies a predicate (\<open>List.find\<close>).
  The code then writes through the iterator (\<open>update_first\<close>) or erases the element
  (\<open>remove_first\<close>).
\<close>

fun update_first :: "('a \<Rightarrow> bool) \<Rightarrow> ('a \<Rightarrow> 'a) \<Rightarrow> 'a list \<Rightarrow> 'a list" where
  "update_first P f [] = []"
| "update_first P f (x # xs) = (if P x then f x # xs else x # update_first P f xs)"

fun remove_first :: "('a \<Rightarrow> bool) \<Rightarrow> 'a list \<Rightarrow> 'a list" where
  "remove_first P [] = []"
| "remove_first P (x # xs) = (if P x then xs else x # remove_first P xs)"

lemma length_update_first [simp]: "length (update_first P f xs) = length xs"
  by (induction xs) auto

lemma map_update_first:
  "(\<And>x. g (f x) = g x) \<Longrightarrow> map g (update_first P f xs) = map g xs"
  by (induction xs) auto

lemma set_remove_first: "set (remove_first P xs) \<subseteq> set xs"
  by (induction xs) auto

lemma distinct_remove_first:
  "distinct (map g xs) \<Longrightarrow> distinct (map g (remove_first P xs))"
  using set_remove_first by (induction xs) fastforce+

lemma find_key_None: "find (\<lambda>x. g x = k) xs = None \<longleftrightarrow> k \<notin> g ` set xs"
  by (induction xs) auto

lemma find_remove_first:
  "distinct (map g xs) \<Longrightarrow>
   find (\<lambda>x. g x = k) (remove_first (\<lambda>x. g x = j) xs) =
     (if k = j then None else find (\<lambda>x. g x = k) xs)"
  by (induction xs) (auto simp: find_key_None)

lemma find_update_first:
  "(\<And>x. g (f x) = g x) \<Longrightarrow>
   find (\<lambda>x. g x = k) (update_first (\<lambda>x. g x = j) f xs) =
     (if k = j then map_option f (find (\<lambda>x. g x = k) xs) else find (\<lambda>x. g x = k) xs)"
  by (induction xs) auto

lemma find_append:
  "find P (xs @ ys) = (case find P xs of None \<Rightarrow> find P ys | Some x \<Rightarrow> Some x)"
  by (induction xs) auto

lemma find_key_Some: "find (\<lambda>x. g x = k) xs = Some y \<Longrightarrow> g y = k \<and> y \<in> set xs"
  by (induction xs) (auto split: if_splits)

section \<open>Bounded buffers\<close>

text \<open>
  Appending to a deque and then dropping old elements from the front while it is longer
  than \<open>n\<close>, as the diagnostics buffer and the topic monitor do.
\<close>

definition keep_last :: "nat \<Rightarrow> 'a list \<Rightarrow> 'a list" where
  "keep_last n xs = drop (length xs - n) xs"

lemma length_keep_last [simp]: "length (keep_last n xs) = min n (length xs)"
  by (simp add: keep_last_def)

lemma keep_last_snoc: "0 < n \<Longrightarrow> keep_last n (xs @ [x]) \<noteq> [] \<and> last (keep_last n (xs @ [x])) = x"
  by (simp add: keep_last_def)

lemma keep_last_drop: "k \<le> length xs - n \<Longrightarrow> keep_last n (drop k xs) = keep_last n xs"
proof -
  assume "k \<le> length xs - n"
  then have "length xs - (k + n) + k = length xs - n" by arith
  then show ?thesis by (simp add: keep_last_def)
qed

lemma keep_last_append: "keep_last n (keep_last n xs @ ys) = keep_last n (xs @ ys)"
proof -
  have "keep_last n xs @ ys = drop (length xs - n) (xs @ ys)" by (simp add: keep_last_def)
  moreover have "keep_last n (drop (length xs - n) (xs @ ys)) = keep_last n (xs @ ys)"
    by (rule keep_last_drop) simp
  ultimately show ?thesis by simp
qed

section \<open>Code that may throw\<close>

text \<open>
  A result is \<open>Inl\<close> of the exception or \<open>Inr\<close> of the value; \<open>err_bind\<close> runs a second piece of
  code on the value of the first; \<open>err_fold\<close> and \<open>err_map\<close> are loops whose body may throw.
\<close>

fun err_bind :: "'e + 'a \<Rightarrow> ('a \<Rightarrow> 'e + 'b) \<Rightarrow> 'e + 'b" where
  "err_bind (Inl e) f = Inl e"
| "err_bind (Inr x) f = f x"

fun err_fold :: "('x \<Rightarrow> 's \<Rightarrow> 'e + 's) \<Rightarrow> 'x list \<Rightarrow> 's \<Rightarrow> 'e + 's" where
  "err_fold f [] s = Inr s"
| "err_fold f (x # xs) s = err_bind (f x s) (err_fold f xs)"

fun err_map :: "('a \<Rightarrow> 'e + 'b) \<Rightarrow> 'a list \<Rightarrow> 'e + 'b list" where
  "err_map f [] = Inr []"
| "err_map f (x # xs) = err_bind (f x) (\<lambda>y. err_bind (err_map f xs) (\<lambda>ys. Inr (y # ys)))"

lemma err_bind_Inr_iff [simp]: "err_bind r f = Inr y \<longleftrightarrow> (\<exists>x. r = Inr x \<and> f x = Inr y)"
  by (cases r) simp_all

lemma err_bind_Inl_iff:
  "err_bind r f = Inl e \<longleftrightarrow> r = Inl e \<or> (\<exists>x. r = Inr x \<and> f x = Inl e)"
  by (cases r) simp_all

lemma err_map_ok:
  "(\<And>x. x \<in> set xs \<Longrightarrow> f x = Inr (g x)) \<Longrightarrow> err_map f xs = Inr (map g xs)"
  by (induction xs) auto

lemma err_map_Inr_iff: "err_map f xs = Inr ys \<longleftrightarrow> list_all2 (\<lambda>x y. f x = Inr y) xs ys"
  by (induction xs arbitrary: ys) (auto simp: list_all2_Cons1)

lemma err_fold_append:
  "err_fold f (xs @ ys) s = err_bind (err_fold f xs s) (err_fold f ys)"
proof (induction xs arbitrary: s)
  case (Cons x xs)
  then show ?case by (cases "f x s") simp_all
qed simp

lemma err_fold_total:
  assumes "\<And>x s. x \<in> set xs \<Longrightarrow> I s \<Longrightarrow> \<exists>s'. f x s = Inr s' \<and> I s'" and "I s"
  shows "\<exists>s'. err_fold f xs s = Inr s' \<and> I s'"
  using assms
proof (induction xs arbitrary: s)
  case (Cons x xs)
  from Cons.prems(1) [of x s] Cons.prems(2) obtain s1 where "f x s = Inr s1" "I s1" by auto
  with Cons.IH [of s1] Cons.prems(1) show ?case by simp
qed simp

lemma err_fold_invariant:
  assumes "\<And>x s s'. x \<in> set xs \<Longrightarrow> I s \<Longrightarrow> f x s = Inr s' \<Longrightarrow> I s'"
    and "I s" and "err_fold f xs s = Inr s'"
  shows "I s'"
  using assms
proof (induction xs arbitrary: s)
  case (Cons x xs)
  from Cons.prems(3) obtain s1 where "f x s = Inr s1" "err_fold f xs s1 = Inr s'" by auto
  then show ?case using Cons.prems(1,2) by (intro Cons.IH [of s1]) auto
qed simp

end
