(* ===== verification/AW_Msgs.thy ===== *)
theory AW_Msgs
  imports AW_Prelude
begin

text \<open>
  The ROS messages the modelled nodes exchange.  Their definitions are interface packages
  outside this repository; what is modelled is what the code of the repository uses of
  them: the fields it reads or writes and the constants it names.  A field that carries a
  constant has one constructor per constant the code names and a constructor \<open>.._raw\<close> for
  every other value of the field; \<open>.._raw 0\<close> stands for the zero value a message field is
  created with where the code does not say which constant that is.  Two constants of one
  field are different values; nothing else is assumed about their encoding, except for the
  two severity scales, which the code compares with \<open>\<le>\<close>.
\<close>

section \<open>Severity scales\<close>

text \<open>
  \<open>diagnostic_msgs/DiagnosticStatus\<close> orders its levels OK, WARN, ERROR, STALE, and
  \<open>autoware_auto_system_msgs/HazardStatus\<close> orders its levels NO_FAULT, SAFE_FAULT,
  LATENT_FAULT, SINGLE_POINT_FAULT.
\<close>

datatype diag_level = DL_OK | DL_WARN | DL_ERROR | DL_STALE

fun diag_rank :: "diag_level \<Rightarrow> nat" where
  "diag_rank DL_OK = 0"
| "diag_rank DL_WARN = 1"
| "diag_rank DL_ERROR = 2"
| "diag_rank DL_STALE = 3"

instantiation diag_level :: linorder
begin

definition less_eq_diag_level :: "diag_level \<Rightarrow> diag_level \<Rightarrow> bool" where
  "less_eq_diag_level a b = (diag_rank a \<le> diag_rank b)"

definition less_diag_level :: "diag_level \<Rightarrow> diag_level \<Rightarrow> bool" where
  "less_diag_level a b = (diag_rank a < diag_rank b)"

instance
proof
  fix a b :: diag_level
  show "a = b" if "a \<le> b" and "b \<le> a"
    using that by (cases a; cases b) (simp_all add: less_eq_diag_level_def)
qed (auto simp: less_eq_diag_level_def less_diag_level_def)

end

datatype hazard_level = NO_FAULT | SAFE_FAULT | LATENT_FAULT | SINGLE_POINT_FAULT

fun hazard_rank :: "hazard_level \<Rightarrow> nat" where
  "hazard_rank NO_FAULT = 0"
| "hazard_rank SAFE_FAULT = 1"
| "hazard_rank LATENT_FAULT = 2"
| "hazard_rank SINGLE_POINT_FAULT = 3"

instantiation hazard_level :: linorder
begin

definition less_eq_hazard_level :: "hazard_level \<Rightarrow> hazard_level \<Rightarrow> bool" where
  "less_eq_hazard_level a b = (hazard_rank a \<le> hazard_rank b)"

definition less_hazard_level :: "hazard_level \<Rightarrow> hazard_level \<Rightarrow> bool" where
  "less_hazard_level a b = (hazard_rank a < hazard_rank b)"

instance
proof
  fix a b :: hazard_level
  show "a = b" if "a \<le> b" and "b \<le> a"
    using that by (cases a; cases b) (simp_all add: less_eq_hazard_level_def)
qed (auto simp: less_eq_hazard_level_def less_hazard_level_def)

end

lemmas severity_defs =
  less_eq_diag_level_def less_diag_level_def less_eq_hazard_level_def less_hazard_level_def

lemma NO_FAULT_least [simp]: "NO_FAULT \<le> l"
  by (simp add: less_eq_hazard_level_def)

lemma max_NO_FAULT [simp]: "max NO_FAULT l = l" "max l NO_FAULT = l"
  by (simp_all add: max.absorb2 max.absorb1)

lemma SINGLE_POINT_FAULT_greatest [simp]: "l \<le> SINGLE_POINT_FAULT"
  by (cases l) (simp_all add: less_eq_hazard_level_def)

section \<open>Diagnostics and hazard status\<close>

record diag_status =
  ds_level :: diag_level
  ds_name :: string
  ds_message :: string
  ds_hardware_id :: string

record hazard_status =
  hs_level :: hazard_level
  hs_emergency :: bool
  hs_emergency_holding :: bool
  hs_diag_no_fault :: "diag_status list"
  hs_diag_safe_fault :: "diag_status list"
  hs_diag_latent_fault :: "diag_status list"
  hs_diag_single_point_fault :: "diag_status list"

text \<open>A message as it is created: every field at its zero value.\<close>

definition hazard_status_new :: hazard_status where
  "hazard_status_new =
     \<lparr>hs_level = NO_FAULT, hs_emergency = False, hs_emergency_holding = False,
      hs_diag_no_fault = [], hs_diag_safe_fault = [], hs_diag_latent_fault = [],
      hs_diag_single_point_fault = []\<rparr>"

section \<open>Minimum-risk manoeuvres\<close>

datatype mrm_state_kind =
    MrmState_UNKNOWN | MrmState_NORMAL | MrmState_MRM_OPERATING | MrmState_MRM_SUCCEEDED
  | MrmState_MRM_FAILED | MrmState_state_raw nat

datatype mrm_behavior =
    MrmState_NONE | MrmState_COMFORTABLE_STOP | MrmState_EMERGENCY_STOP
  | MrmState_behavior_raw nat

record mrm_state =
  ms_stamp :: time
  ms_state :: mrm_state_kind
  ms_behavior :: mrm_behavior

datatype mrm_behavior_status =
    MrmBehaviorStatus_NOT_AVAILABLE | MrmBehaviorStatus_AVAILABLE
  | MrmBehaviorStatus_OPERATING | MrmBehaviorStatus_raw nat

section \<open>Vehicle commands and reports\<close>

datatype control_mode =
  ControlMode_NO_COMMAND | ControlMode_AUTONOMOUS | ControlMode_MANUAL | ControlMode_raw nat

datatype gear =
  Gear_NONE | Gear_PARK | Gear_DRIVE | Gear_REVERSE | Gear_raw nat

datatype hazard_lights =
  Hazard_NO_COMMAND | Hazard_ENABLE | Hazard_raw nat

datatype turn_indicators =
  Turn_NO_COMMAND | Turn_raw nat

record longitudinal_command =
  lon_stamp :: time
  lon_speed :: real
  lon_acceleration :: real
  lon_jerk :: real

record lateral_command =
  lat_stamp :: time
  lat_steering_tire_angle :: real
  lat_steering_tire_rotation_rate :: real

record control_command =
  cc_stamp :: time
  cc_lateral :: lateral_command
  cc_longitudinal :: longitudinal_command

definition control_command_new :: control_command where
  "control_command_new =
     \<lparr>cc_stamp = 0,
      cc_lateral =
        \<lparr>lat_stamp = 0, lat_steering_tire_angle = 0, lat_steering_tire_rotation_rate = 0\<rparr>,
      cc_longitudinal =
        \<lparr>lon_stamp = 0, lon_speed = 0, lon_acceleration = 0, lon_jerk = 0\<rparr>\<rparr>"

datatype gate_mode = GateMode_AUTO | GateMode_EXTERNAL | GateMode_raw nat

datatype selector_mode =
  SelectorMode_NONE | SelectorMode_LOCAL | SelectorMode_REMOTE | SelectorMode_raw nat

section \<open>Velocity limits\<close>

text \<open>\<open>tier4_planning_msgs/VelocityLimit\<close> and the command that withdraws one.\<close>

record velocity_limit_constraints =
  vc_min_acceleration :: flt
  vc_min_jerk :: flt
  vc_max_jerk :: flt

record velocity_limit =
  vl_stamp :: time
  vl_max_velocity :: flt
  vl_use_constraints :: bool
  vl_constraints :: velocity_limit_constraints
  vl_sender :: string

definition velocity_limit_new :: velocity_limit where
  "velocity_limit_new =
     \<lparr>vl_stamp = 0, vl_max_velocity = Fin 0, vl_use_constraints = False,
      vl_constraints = \<lparr>vc_min_acceleration = Fin 0, vc_min_jerk = Fin 0, vc_max_jerk = Fin 0\<rparr>,
      vl_sender = []\<rparr>"

record velocity_limit_clear =
  vk_stamp :: time
  vk_command :: bool
  vk_sender :: string

section \<open>Shapes of objects\<close>

datatype shape_type = Shape_BOUNDING_BOX | Shape_CYLINDER | Shape_POLYGON | Shape_raw nat

section \<open>System states\<close>

datatype autoware_state =
    AutowareState_INITIALIZING | AutowareState_WAITING_FOR_ROUTE | AutowareState_PLANNING
  | AutowareState_WAITING_FOR_ENGAGE | AutowareState_DRIVING | AutowareState_ARRIVED_GOAL
  | AutowareState_FINALIZING | AutowareState_raw nat

datatype operation_mode_value =
    OperationMode_UNKNOWN | OperationMode_STOP | OperationMode_AUTONOMOUS
  | OperationMode_LOCAL | OperationMode_REMOTE | OperationMode_raw nat

record operation_mode_state =
  om_stamp :: time
  om_mode :: operation_mode_value
  om_is_autoware_control_enabled :: bool
  om_is_in_transition :: bool
  om_is_stop_mode_available :: bool
  om_is_autonomous_mode_available :: bool
  om_is_local_mode_available :: bool
  om_is_remote_mode_available :: bool

definition operation_mode_state_new :: "operation_mode_value \<Rightarrow> operation_mode_state" where
  "operation_mode_state_new m =
     \<lparr>om_stamp = 0, om_mode = m, om_is_autoware_control_enabled = False,
      om_is_in_transition = False, om_is_stop_mode_available = False,
      om_is_autonomous_mode_available = False, om_is_local_mode_available = False,
      om_is_remote_mode_available = False\<rparr>"

end
