(* ===== verification/Watchdog.thy ===== *)
theory Watchdog
  imports AW_Msgs
begin

text \<open>
  Nodes supervise an input by its age: a callback stores the time of arrival, and a timer
  compares the age of that time stamp with a timeout parameter.  The locale \<open>watchdog\<close> states
  this contract once; the emergency handler (hazard status) and the system error monitor (each
  of its four inputs) interpret it on their own callbacks and checks.
\<close>

locale watchdog =
  fixes refresh :: "'m \<Rightarrow> time \<Rightarrow> 's \<Rightarrow> 's"
    and expired :: "time \<Rightarrow> 's \<Rightarrow> bool"
    and limit :: real
  assumes expired_refresh: "expired t (refresh m t0 s) \<longleftrightarrow> limit < seconds (t - t0)"
begin

lemma alive_within: "seconds (t - t0) \<le> limit \<Longrightarrow> \<not> expired t (refresh m t0 s)"
  by (simp add: expired_refresh)

lemma expires_after: "limit < seconds (t - t0) \<Longrightarrow> expired t (refresh m t0 s)"
  by (simp add: expired_refresh)

lemma stays_expired:
  "expired t (refresh m t0 s) \<Longrightarrow> t \<le> t' \<Longrightarrow> expired t' (refresh m t0 s)"
  by (simp add: expired_refresh) (meson diff_right_mono less_le_trans seconds_le_iff)

text \<open>Of a series of arrivals only the last one counts.\<close>

lemma last_arrival_counts:
  "expired t (fold (\<lambda>(m, u). refresh m u) (ms @ [(m, t0)]) s) \<longleftrightarrow> limit < seconds (t - t0)"
  by (simp add: expired_refresh)

lemma periodic_arrivals_alive:
  assumes "ms \<noteq> []" and "\<forall>(m, u) \<in> set ms. seconds (t - u) \<le> limit"
  shows "\<not> expired t (fold (\<lambda>(m, u). refresh m u) ms s)"
proof -
  obtain xs m u where ms: "ms = xs @ [(m, u)]"
    using assms(1) by (metis rev_exhaust surj_pair)
  with assms(2) have "seconds (t - u) \<le> limit" by auto
  with ms show ?thesis by (simp add: expired_refresh)
qed

end

end
