(* ===== verification/Diagnostics_Filter.thy ===== *)
theory Diagnostics_Filter
  imports AW_Msgs
begin

text \<open>
  \<open>system/system_error_monitor/include/system_error_monitor/diagnostics_filter.hpp\<close>: names of
  diagnostics are paths separated by slashes, and the filter selects the leaf diagnostics
  below a given one.
\<close>

section \<open>The code\<close>

text \<open>\<open>find_last_of("/")\<close> followed by \<open>substr\<close>; the empty string when there is no slash.\<close>

definition splitStringByLastSlash :: "string \<Rightarrow> string" where
  "splitStringByLastSlash str =
     (if CHR ''/'' \<in> set str then rev (tl (dropWhile (\<lambda>c. c \<noteq> CHR ''/'') (rev str))) else [])"

lemma split_shorter: "splitStringByLastSlash str \<noteq> [] \<Longrightarrow> length (splitStringByLastSlash str) < length str"
proof -
  assume "splitStringByLastSlash str \<noteq> []"
  then have slash: "CHR ''/'' \<in> set str" by (auto simp: splitStringByLastSlash_def split: if_splits)
  have "length (dropWhile (\<lambda>c. c \<noteq> CHR ''/'') (rev str)) \<le> length str"
    using length_dropWhile_le [of _ "rev str"] by simp
  moreover have "str \<noteq> []" using slash by auto
  ultimately show ?thesis using slash
    by (simp add: splitStringByLastSlash_def) (cases str; fastforce)
qed

text \<open>The \<open>while\<close> loop of \<open>isChild\<close>, from the current \<open>name\<close>.\<close>

function df_loop :: "string \<Rightarrow> string \<Rightarrow> bool" where
  "df_loop parent name =
     (if name = [] then False
      else if name = parent then True
      else df_loop parent (splitStringByLastSlash name))"
  by pat_completeness auto

termination
proof (relation "measure (\<lambda>(parent, name). length name)")
  fix parent name :: string
  assume "name \<noteq> []" "name \<noteq> parent"
  then show "((parent, splitStringByLastSlash name), (parent, name)) \<in>
      measure (\<lambda>(parent, name). length name)"
    using split_shorter [of name] by (cases "splitStringByLastSlash name = []") simp_all
qed simp

declare df_loop.simps [simp del]

definition isChild :: "diag_status \<Rightarrow> diag_status \<Rightarrow> bool" where
  "isChild child parent = df_loop (ds_name parent) (splitStringByLastSlash (ds_name child))"

definition createDiagNameSet :: "diag_status list \<Rightarrow> string set" where
  "createDiagNameSet diagnostics =
     set (map (\<lambda>diag. splitStringByLastSlash (ds_name diag)) diagnostics)"

definition isLeaf :: "string set \<Rightarrow> diag_status \<Rightarrow> bool" where
  "isLeaf diag_name_set diag \<longleftrightarrow> ds_name diag \<notin> diag_name_set"

definition extractLeafDiagnostics :: "diag_status list \<Rightarrow> diag_status list" where
  "extractLeafDiagnostics diagnostics =
     (let diag_name_set = createDiagNameSet diagnostics
      in filter (isLeaf diag_name_set) diagnostics)"

definition extractLeafChildrenDiagnostics ::
  "diag_status \<Rightarrow> diag_status list \<Rightarrow> diag_status list" where
  "extractLeafChildrenDiagnostics parent diagnostics =
     filter (\<lambda>diag. isChild diag parent) (extractLeafDiagnostics diagnostics)"

section \<open>Paths\<close>

lemma split_snoc:
  assumes "CHR ''/'' \<notin> set b" shows "splitStringByLastSlash (a @ CHR ''/'' # b) = a"
proof -
  have "dropWhile (\<lambda>c. c \<noteq> CHR ''/'') (rev b @ CHR ''/'' # rev a) = CHR ''/'' # rev a"
    using assms by (subst dropWhile_append2) auto
  then show ?thesis by (simp add: splitStringByLastSlash_def)
qed

lemma split_none: "CHR ''/'' \<notin> set a \<Longrightarrow> splitStringByLastSlash a = []"
  by (simp add: splitStringByLastSlash_def)

lemma path_extension:
  assumes "CHR ''/'' \<notin> set b"
  shows "(\<exists>rest. a @ CHR ''/'' # b = p @ CHR ''/'' # rest) \<longleftrightarrow>
    a = p \<or> (\<exists>rest. a = p @ CHR ''/'' # rest)" (is "?L \<longleftrightarrow> ?R")
proof
  assume ?L
  then obtain rest us where
    "a = p @ us \<and> us @ CHR ''/'' # b = CHR ''/'' # rest \<or>
     a @ us = p \<and> CHR ''/'' # b = us @ CHR ''/'' # rest"
    by (auto simp: append_eq_append_conv2)
  then show ?R
    using assms by (cases us) auto
qed auto

lemma df_loop_iff:
  "df_loop parent name \<longleftrightarrow> parent \<noteq> [] \<and> (name = parent \<or> (\<exists>rest. name = parent @ CHR ''/'' # rest))"
proof (induction parent name rule: df_loop.induct)
  case (1 parent name)
  show ?case
  proof (cases "name = [] \<or> name = parent")
    case True
    then show ?thesis by (auto simp: df_loop.simps [of parent name])
  next
    case False
    show ?thesis
    proof (cases "CHR ''/'' \<in> set name")
      case no: False
      then have "\<not> df_loop parent name"
        using False by (simp add: df_loop.simps [of parent name] split_none df_loop.simps [of parent "[]"])
      with no False show ?thesis by auto
    next
      case True
      then obtain a b where ab: "name = a @ CHR ''/'' # b" "CHR ''/'' \<notin> set b"
        by (meson split_list_last)
      then have split: "splitStringByLastSlash name = a" by (simp add: split_snoc)
      have "df_loop parent name = df_loop parent a"
        using False by (simp add: df_loop.simps [of parent name] split)
      also have "\<dots> \<longleftrightarrow> parent \<noteq> [] \<and> (a = parent \<or> (\<exists>rest. a = parent @ CHR ''/'' # rest))"
        using 1 False split by simp
      also have "\<dots> \<longleftrightarrow> parent \<noteq> [] \<and> (\<exists>rest. name = parent @ CHR ''/'' # rest)"
        unfolding ab(1) path_extension [OF ab(2)] ..
      finally show ?thesis using False by simp
    qed
  qed
qed

text \<open>A diagnostic is a child of another one exactly when the name of the parent is not empty
  and the name of the child continues it after a slash, at any depth; the loop that strips one
  path component at a time ends and finds every ancestor.\<close>

theorem df_isChild_iff_path:
  "isChild child parent \<longleftrightarrow>
     ds_name parent \<noteq> [] \<and> (\<exists>rest. ds_name child = ds_name parent @ ''/'' @ rest)"
proof (cases "CHR ''/'' \<in> set (ds_name child)")
  case False
  then show ?thesis by (auto simp: isChild_def split_none df_loop.simps)
next
  case True
  then obtain a b where ab: "ds_name child = a @ CHR ''/'' # b" "CHR ''/'' \<notin> set b"
    by (meson split_list_last)
  then show ?thesis
    using path_extension [OF ab(2)]
    unfolding isChild_def ab(1) split_snoc [OF ab(2)] df_loop_iff by simp
qed

lemma df_leaf_children:
  "set (extractLeafChildrenDiagnostics parent ds) =
     {d \<in> set ds. isChild d parent \<and>
        (\<forall>e \<in> set ds. splitStringByLastSlash (ds_name e) \<noteq> ds_name d)}"
  by (fastforce simp: extractLeafChildrenDiagnostics_def extractLeafDiagnostics_def isLeaf_def
      createDiagNameSet_def Let_def image_iff)

end
