(* ===== verification/System_Error_Monitor.thy ===== *)
theory System_Error_Monitor
  imports Watchdog Diagnostics_Filter
begin

text \<open>
  \<open>system/system_error_monitor\<close>: collects the diagnostics of all nodes, judges for each required
  module how severe its state is, and publishes the hazard status the emergency handler acts on.

  One definition per function of \<open>system_error_monitor_core.cpp\<close>; the members of
  \<open>AutowareErrorMonitor\<close> are the fields of \<open>se_state\<close>.  A time stamp that has not been assigned
  (a default-constructed \<open>rclcpp::Time\<close>, whose clock type differs from the node's) is \<open>None\<close>.
  The exceptions of the source and the dereferencing of a missing message are values of
  \<open>se_error\<close>.  The throttled log messages of \<open>logThrottledNamed\<close> are left out.
\<close>

section \<open>Data\<close>

datatype se_error =
    SE_OutOfRange string         \<comment> \<open>\<open>unordered_map::at\<close> on a key that is missing, \<open>vector::at\<close>\<close>
  | SE_InvalidLevel string
  | SE_NoParameter string
  | SE_NullPointer               \<comment> \<open>a message that has not arrived is dereferenced\<close>
  | SE_ClockMismatch             \<comment> \<open>difference of times of two clock types\<close>

record diag_config =
  dc_name :: string
  dc_sf_at :: string
  dc_lf_at :: string
  dc_spf_at :: string
  dc_auto_recovery :: bool

record diag_stamped =
  dg_stamp :: time
  dg_status :: diag_status

record diag_array =
  da_stamp :: time
  da_status :: "diag_status list"

record se_param =
  sp_ignore_missing_diagnostics :: bool
  sp_add_leaf_diagnostics :: bool
  sp_data_ready_timeout :: real
  sp_data_heartbeat_timeout :: real
  sp_diag_timeout_sec :: real
  sp_hazard_recovery_timeout :: real
  sp_emergency_hazard_level :: int
  sp_use_emergency_hold :: bool
  sp_use_emergency_hold_in_manual_driving :: bool

record se_state =
  se_emergency_state_switch_time :: "time option"
  se_initialized_time :: time
  se_hazard_status :: hazard_status
  se_required_modules_map :: "string \<rightharpoonup> diag_config list"
  se_current_mode :: string
  se_diag_buffer_map :: "string \<rightharpoonup> diag_stamped list"
  se_diag_array :: "diag_array option"
  se_autoware_state :: "autoware_state option"
  se_current_gate_mode :: "gate_mode option"
  se_control_mode :: control_mode
  se_diag_array_stamp :: "time option"
  se_autoware_state_stamp :: "time option"
  se_current_gate_mode_stamp :: "time option"
  se_control_mode_stamp :: "time option"

datatype se_out =
    SE_PubHazardStatus time hazard_status
  | SE_PubDiagnosticsErr time "diag_status list"

definition key_autonomous_driving :: string where
  "key_autonomous_driving = ''autonomous_driving''"

definition key_external_control :: string where
  "key_external_control = ''external_control''"

definition se_diag_buffer_size :: nat where
  "se_diag_buffer_size = 100"

section \<open>Strings\<close>

text \<open>\<open>std::getline\<close> until the end: a trailing delimiter does not give an empty last element.\<close>

function se_split :: "char \<Rightarrow> string \<Rightarrow> string list" where
  "se_split delim str =
     (if str = [] then []
      else takeWhile (\<lambda>c. c \<noteq> delim) str # se_split delim (tl (dropWhile (\<lambda>c. c \<noteq> delim) str)))"
  by pat_completeness auto

termination
proof (relation "measure (\<lambda>(delim, str). length str)")
  fix delim and str :: string
  assume "str \<noteq> []"
  moreover have "length (tl (dropWhile (\<lambda>c. c \<noteq> delim) str)) \<le> length str - 1"
    using length_dropWhile_le [of "\<lambda>c. c \<noteq> delim" str] by (simp add: diff_le_mono)
  ultimately show "((delim, tl (dropWhile (\<lambda>c. c \<noteq> delim) str)), (delim, str)) \<in>
      measure (\<lambda>(delim, str). length str)"
    by (cases str) auto
qed simp

declare se_split.simps [simp del]

definition se_tolower :: "char \<Rightarrow> char" where
  "se_tolower c =
     (let n = of_char c :: nat in if 65 \<le> n \<and> n \<le> 90 then char_of (n + 32) else c)"

definition se_icase_match :: "string \<Rightarrow> string \<Rightarrow> bool" where
  "se_icase_match str word \<longleftrightarrow> map se_tolower str = map se_tolower word"

text \<open>\<open>istringstream(s) >> boolalpha >> b\<close>: \<open>b\<close> is true when the text starts with \<open>true\<close> after white
  space, false otherwise.\<close>

definition se_read_bool :: "string \<Rightarrow> bool" where
  "se_read_bool str \<longleftrightarrow>
     take 4 (dropWhile (\<lambda>c. of_char c \<in> {9 :: nat, 10, 11, 12, 13, 32}) str) = ''true''"

section \<open>Levels\<close>

definition se_str2level :: "string \<Rightarrow> se_error + diag_level" where
  "se_str2level level_str =
     (if se_icase_match level_str ''warn'' then Inr DL_WARN
      else if se_icase_match level_str ''error'' then Inr DL_ERROR
      else if se_icase_match level_str ''stale'' then Inr DL_STALE
      else Inl (SE_InvalidLevel level_str))"

definition se_isOverLevel :: "diag_level \<Rightarrow> string \<Rightarrow> se_error + bool" where
  "se_isOverLevel diag_level failure_level_str =
     (if failure_level_str = ''none'' then Inr False
      else err_bind (se_str2level failure_level_str) (\<lambda>l. Inr (l \<le> diag_level)))"

definition se_getHazardLevel :: "diag_config \<Rightarrow> diag_level \<Rightarrow> se_error + hazard_level" where
  "se_getHazardLevel required_module diag_level =
     err_bind (se_isOverLevel diag_level (dc_spf_at required_module)) (\<lambda>over_spf.
       if over_spf then Inr SINGLE_POINT_FAULT
       else err_bind (se_isOverLevel diag_level (dc_lf_at required_module)) (\<lambda>over_lf.
         if over_lf then Inr LATENT_FAULT
         else err_bind (se_isOverLevel diag_level (dc_sf_at required_module)) (\<lambda>over_sf.
           Inr (if over_sf then SAFE_FAULT else NO_FAULT))))"

text \<open>\<open>level >= emergency_hazard_level\<close>, the parameter being an integer.\<close>

definition se_level_reaches :: "int \<Rightarrow> hazard_level \<Rightarrow> bool" where
  "se_level_reaches n l \<longleftrightarrow> n \<le> int (hazard_rank l)"

section \<open>Building the hazard status\<close>

text \<open>\<open>getTargetDiagnosticsRef\<close> followed by \<open>push_back\<close> of each diagnostic of a list.\<close>

fun se_push_target :: "hazard_level \<Rightarrow> diag_status list \<Rightarrow> hazard_status \<Rightarrow> hazard_status" where
  "se_push_target NO_FAULT ds hs = hs\<lparr>hs_diag_no_fault := hs_diag_no_fault hs @ ds\<rparr>"
| "se_push_target SAFE_FAULT ds hs = hs\<lparr>hs_diag_safe_fault := hs_diag_safe_fault hs @ ds\<rparr>"
| "se_push_target LATENT_FAULT ds hs = hs\<lparr>hs_diag_latent_fault := hs_diag_latent_fault hs @ ds\<rparr>"
| "se_push_target SINGLE_POINT_FAULT ds hs =
     hs\<lparr>hs_diag_single_point_fault := hs_diag_single_point_fault hs @ ds\<rparr>"

definition se_appendHazardDiag ::
  "se_param \<Rightarrow> se_state \<Rightarrow> diag_config \<Rightarrow> diag_status \<Rightarrow> hazard_status \<Rightarrow> se_error + hazard_status" where
  "se_appendHazardDiag p s required_module hazard_diag hs =
     err_bind (se_getHazardLevel required_module (ds_level hazard_diag)) (\<lambda>hazard_level.
       let hs1 = se_push_target hazard_level [hazard_diag] hs in
       err_bind
         (if sp_add_leaf_diagnostics p then
            (case se_diag_array s of
               None \<Rightarrow> Inl SE_NullPointer
             | Some a \<Rightarrow>
                 Inr (se_push_target hazard_level
                   (extractLeafChildrenDiagnostics hazard_diag (da_status a)) hs1))
          else Inr hs1)
         (\<lambda>hs2. Inr (hs2\<lparr>hs_level := max (hs_level hs2) hazard_level\<rparr>)))"

definition se_getLatestDiag :: "se_state \<Rightarrow> string \<Rightarrow> diag_stamped option" where
  "se_getLatestDiag s diag_name =
     (case se_diag_buffer_map s diag_name of
        None \<Rightarrow> None
      | Some diag_buffer \<Rightarrow> if diag_buffer = [] then None else Some (last diag_buffer))"

definition se_missing_diag :: "string \<Rightarrow> diag_status" where
  "se_missing_diag diag_name =
     \<lparr>ds_level = DL_STALE, ds_name = diag_name, ds_message = ''no diag found'',
      ds_hardware_id = ''system_error_monitor''\<rparr>"

text \<open>The body of the loop of \<open>judgeHazardStatus\<close>.\<close>

definition se_judge_module ::
  "se_param \<Rightarrow> time \<Rightarrow> se_state \<Rightarrow> diag_config \<Rightarrow> hazard_status \<Rightarrow> se_error + hazard_status" where
  "se_judge_module p t s m hs =
     (case se_getLatestDiag s (dc_name m) of
        None \<Rightarrow>
          if \<not> sp_ignore_missing_diagnostics p
          then se_appendHazardDiag p s m (se_missing_diag (dc_name m)) hs
          else Inr hs
      | Some latest \<Rightarrow>
          err_bind (se_appendHazardDiag p s m (dg_status latest) hs) (\<lambda>hs1.
            if sp_diag_timeout_sec p < seconds (t - dg_stamp latest)
            then se_appendHazardDiag p s m
              ((dg_status latest)\<lparr>ds_level := DL_STALE, ds_message := ''timeout''\<rparr>) hs1
            else Inr hs1))"

definition se_isInNoFaultCondition :: "autoware_state \<Rightarrow> gate_mode \<Rightarrow> bool" where
  "se_isInNoFaultCondition state mode \<longleftrightarrow>
     mode = GateMode_AUTO \<and>
       state \<in> {AutowareState_INITIALIZING, AutowareState_WAITING_FOR_ROUTE,
                AutowareState_PLANNING, AutowareState_FINALIZING} \<or>
     mode = GateMode_EXTERNAL \<and>
       state \<in> {AutowareState_INITIALIZING, AutowareState_FINALIZING}"

definition se_modules_at :: "se_state \<Rightarrow> se_error + diag_config list" where
  "se_modules_at s =
     (case se_required_modules_map s (se_current_mode s) of
        None \<Rightarrow> Inl (SE_OutOfRange (se_current_mode s))
      | Some ms \<Rightarrow> Inr ms)"

definition se_judgeHazardStatus ::
  "se_param \<Rightarrow> time \<Rightarrow> se_state \<Rightarrow> se_error + hazard_status" where
  "se_judgeHazardStatus p t s =
     err_bind (se_modules_at s) (\<lambda>modules.
       err_bind (err_fold (se_judge_module p t s) modules hazard_status_new) (\<lambda>hs.
         case (se_autoware_state s, se_current_gate_mode s) of
           (Some state, Some mode) \<Rightarrow>
             Inr (if se_isInNoFaultCondition state mode then hs\<lparr>hs_level := NO_FAULT\<rparr> else hs)
         | _ \<Rightarrow> Inl SE_NullPointer))"

section \<open>Emergency and holding\<close>

definition se_getErrorModules :: "hazard_status \<Rightarrow> int \<Rightarrow> string set" where
  "se_getErrorModules hs emergency_hazard_level =
     (if emergency_hazard_level \<le> int (hazard_rank SINGLE_POINT_FAULT)
      then ds_name ` set (hs_diag_single_point_fault hs) else {}) \<union>
     (if emergency_hazard_level \<le> int (hazard_rank LATENT_FAULT)
      then ds_name ` set (hs_diag_latent_fault hs) else {}) \<union>
     (if emergency_hazard_level \<le> int (hazard_rank SAFE_FAULT)
      then ds_name ` set (hs_diag_safe_fault hs) else {})"

definition se_canAutoRecovery :: "se_param \<Rightarrow> se_state \<Rightarrow> se_error + bool" where
  "se_canAutoRecovery p s =
     (let error_modules = se_getErrorModules (se_hazard_status s) (sp_emergency_hazard_level p)
      in err_bind (se_modules_at s) (\<lambda>modules.
           Inr (\<forall>m \<in> set modules. \<not> dc_auto_recovery m \<longrightarrow> dc_name m \<notin> error_modules)))"

definition se_since :: "time \<Rightarrow> time option \<Rightarrow> se_error + real" where
  "se_since t stamp =
     (case stamp of None \<Rightarrow> Inl SE_ClockMismatch | Some t0 \<Rightarrow> Inr (seconds (t - t0)))"

definition se_isEmergencyHoldingRequired ::
  "se_param \<Rightarrow> time \<Rightarrow> se_state \<Rightarrow> se_error + bool" where
  "se_isEmergencyHoldingRequired p t s =
     (if hs_emergency_holding (se_hazard_status s) then Inr True
      else if \<not> hs_emergency (se_hazard_status s) then Inr False
      else err_bind (se_since t (se_emergency_state_switch_time s)) (\<lambda>emergency_duration.
        err_bind
          (if emergency_duration < sp_hazard_recovery_timeout p
           then se_canAutoRecovery p s else Inr False)
          (\<lambda>recovering.
            if recovering then Inr False
            else if \<not> sp_use_emergency_hold_in_manual_driving p \<and>
                    se_control_mode s = ControlMode_MANUAL then Inr False
            else Inr True)))"

definition se_set_emergency :: "time \<Rightarrow> bool \<Rightarrow> se_state \<Rightarrow> se_state" where
  "se_set_emergency t b s =
     (let prev = hs_emergency (se_hazard_status s);
          s1 = s\<lparr>se_hazard_status := (se_hazard_status s)\<lparr>hs_emergency := b\<rparr>\<rparr>
      in if b \<noteq> prev then s1\<lparr>se_emergency_state_switch_time := Some t\<rparr> else s1)"

definition se_set_holding :: "bool \<Rightarrow> se_state \<Rightarrow> se_state" where
  "se_set_holding b s =
     s\<lparr>se_hazard_status := (se_hazard_status s)\<lparr>hs_emergency_holding := b\<rparr>\<rparr>"

definition se_updateHazardStatus ::
  "se_param \<Rightarrow> time \<Rightarrow> se_state \<Rightarrow> se_error + se_state" where
  "se_updateHazardStatus p t s =
     err_bind
       (if \<not> hs_emergency_holding (se_hazard_status s) then
          err_bind (se_judgeHazardStatus p t s) (\<lambda>current.
            Inr (s\<lparr>se_hazard_status := (se_hazard_status s)
                   \<lparr>hs_level := hs_level current,
                    hs_diag_no_fault := hs_diag_no_fault current,
                    hs_diag_safe_fault := hs_diag_safe_fault current,
                    hs_diag_latent_fault := hs_diag_latent_fault current,
                    hs_diag_single_point_fault := hs_diag_single_point_fault current\<rparr>\<rparr>))
        else Inr s)
       (\<lambda>s1.
          let s2 = se_set_emergency t
                (se_level_reaches (sp_emergency_hazard_level p) (hs_level (se_hazard_status s1))) s1
          in if sp_use_emergency_hold p
             then err_bind (se_isEmergencyHoldingRequired p t s2) (\<lambda>h. Inr (se_set_holding h s2))
             else Inr s2)"

definition se_timeout_diag :: diag_status where
  "se_timeout_diag =
     \<lparr>ds_level = DL_ERROR, ds_name = ''system_error_monitor/input_data_timeout'', ds_message = [],
      ds_hardware_id = ''system_error_monitor''\<rparr>"

definition se_updateTimeoutHazardStatus ::
  "se_param \<Rightarrow> time \<Rightarrow> se_state \<Rightarrow> se_error + se_state" where
  "se_updateTimeoutHazardStatus p t s =
     (let s1 = se_set_emergency t True
            (s\<lparr>se_hazard_status := (se_hazard_status s)\<lparr>hs_level := SINGLE_POINT_FAULT\<rparr>\<rparr>);
          s2 = s1\<lparr>se_hazard_status := (se_hazard_status s1)
                 \<lparr>hs_diag_no_fault := [], hs_diag_safe_fault := [], hs_diag_latent_fault := [],
                  hs_diag_single_point_fault := [se_timeout_diag]\<rparr>\<rparr>
      in if sp_use_emergency_hold p
         then err_bind (se_since t (se_emergency_state_switch_time s2)) (\<lambda>emergency_duration.
           Inr (se_set_holding (sp_hazard_recovery_timeout p < emergency_duration) s2))
         else Inr s2)"

section \<open>Publishing\<close>

definition se_decorate :: "string \<Rightarrow> diag_status \<Rightarrow> diag_status" where
  "se_decorate label d = d\<lparr>ds_message := label @ ds_message d\<rparr>"

definition se_convertHazardStatusToDiagnosticArray :: "hazard_status \<Rightarrow> diag_status list" where
  "se_convertHazardStatusToDiagnosticArray hs =
     map (se_decorate ''[No Fault]'') (hs_diag_no_fault hs) @
     map (se_decorate ''[Safe Fault]'') (hs_diag_safe_fault hs) @
     map (se_decorate ''[Latent Fault]'') (hs_diag_latent_fault hs) @
     map (se_decorate ''[Single Point Fault]'') (hs_diag_single_point_fault hs)"

definition se_publishHazardStatus :: "time \<Rightarrow> hazard_status \<Rightarrow> se_out list" where
  "se_publishHazardStatus t hs =
     [SE_PubHazardStatus t hs,
      SE_PubDiagnosticsErr t (se_convertHazardStatusToDiagnosticArray hs)]"

section \<open>Callbacks\<close>

definition se_push_diag :: "time \<Rightarrow> diag_status \<Rightarrow> (string \<rightharpoonup> diag_stamped list) \<Rightarrow>
    (string \<rightharpoonup> diag_stamped list)" where
  "se_push_diag stamp d m =
     (let buffer = (case m (ds_name d) of None \<Rightarrow> [] | Some b \<Rightarrow> b)
      in m(ds_name d \<mapsto>
           keep_last se_diag_buffer_size (buffer @ [\<lparr>dg_stamp = stamp, dg_status = d\<rparr>])))"

definition se_onDiagArray :: "diag_array \<Rightarrow> time \<Rightarrow> se_state \<Rightarrow> se_state" where
  "se_onDiagArray msg t s =
     s\<lparr>se_diag_array := Some msg,
       se_diag_buffer_map := fold (se_push_diag (da_stamp msg)) (da_status msg) (se_diag_buffer_map s),
       se_diag_array_stamp := Some t\<rparr>"

definition se_onCurrentGateMode :: "gate_mode \<Rightarrow> time \<Rightarrow> se_state \<Rightarrow> se_state" where
  "se_onCurrentGateMode msg t s =
     s\<lparr>se_current_gate_mode := Some msg, se_current_gate_mode_stamp := Some t\<rparr>"

definition se_onAutowareState :: "autoware_state \<Rightarrow> time \<Rightarrow> se_state \<Rightarrow> se_state" where
  "se_onAutowareState msg t s =
     s\<lparr>se_autoware_state := Some msg, se_autoware_state_stamp := Some t\<rparr>"

definition se_onControlMode :: "control_mode \<Rightarrow> time \<Rightarrow> se_state \<Rightarrow> se_state" where
  "se_onControlMode msg t s =
     s\<lparr>se_control_mode := msg, se_control_mode_stamp := Some t\<rparr>"

text \<open>The control mode always has a value: the constructor assigns one.\<close>

definition se_isDataReady :: "se_state \<Rightarrow> bool" where
  "se_isDataReady s \<longleftrightarrow>
     se_diag_array s \<noteq> None \<and> se_current_gate_mode s \<noteq> None \<and> se_autoware_state s \<noteq> None"

definition se_isTimeout :: "time \<Rightarrow> real \<Rightarrow> time option \<Rightarrow> bool" where
  "se_isTimeout t threshold last_stamp =
     (case last_stamp of None \<Rightarrow> False | Some t0 \<Rightarrow> threshold < seconds (t - t0))"

definition se_isDataHeartbeatTimeout :: "se_param \<Rightarrow> time \<Rightarrow> se_state \<Rightarrow> bool" where
  "se_isDataHeartbeatTimeout p t s =
     (if se_isTimeout t (sp_data_heartbeat_timeout p) (se_diag_array_stamp s) then True
      else if se_isTimeout t (sp_data_heartbeat_timeout p) (se_current_gate_mode_stamp s) then True
      else if se_isTimeout t (sp_data_heartbeat_timeout p) (se_autoware_state_stamp s) then True
      else if se_isTimeout t (sp_data_heartbeat_timeout p) (se_control_mode_stamp s) then True
      else False)"

definition se_timeout_tick :: "se_param \<Rightarrow> time \<Rightarrow> se_state \<Rightarrow> se_error + (se_state \<times> se_out list)" where
  "se_timeout_tick p t s =
     err_bind (se_updateTimeoutHazardStatus p t s) (\<lambda>s1.
       Inr (s1, se_publishHazardStatus t (se_hazard_status s1)))"

definition se_onTimer :: "se_param \<Rightarrow> time \<Rightarrow> se_state \<Rightarrow> se_error + (se_state \<times> se_out list)" where
  "se_onTimer p t s =
     (if \<not> se_isDataReady s then
        (if sp_data_ready_timeout p < seconds (t - se_initialized_time s)
         then se_timeout_tick p t s else Inr (s, []))
      else if se_isDataHeartbeatTimeout p t s then se_timeout_tick p t s
      else
        (let s1 = s\<lparr>se_current_mode :=
               (if se_current_gate_mode s = Some GateMode_AUTO
                then key_autonomous_driving else key_external_control)\<rparr>
         in err_bind (se_updateHazardStatus p t s1) (\<lambda>s2.
              Inr (s2, se_publishHazardStatus t (se_hazard_status s2)))))"

text \<open>The service sets \<open>response->success\<close> after the update.\<close>

definition se_onClearEmergencyService ::
  "se_param \<Rightarrow> time \<Rightarrow> se_state \<Rightarrow> se_error + (se_state \<times> bool)" where
  "se_onClearEmergencyService p t s =
     err_bind (se_updateHazardStatus p t (se_set_holding False s)) (\<lambda>s1. Inr (s1, True))"

section \<open>Construction\<close>

text \<open>
  \<open>param_names\<close> is the answer of \<open>list_parameters\<close>, \<open>params\<close> the value of a declared parameter.
\<close>

definition se_param_or :: "(string \<rightharpoonup> string) \<Rightarrow> string \<Rightarrow> string \<Rightarrow> string" where
  "se_param_or params key dflt = (case params key of None \<Rightarrow> dflt | Some v \<Rightarrow> v)"

definition se_load_module :: "(string \<rightharpoonup> string) \<Rightarrow> string \<Rightarrow>
    string set \<times> diag_config list \<Rightarrow> se_error + (string set \<times> diag_config list)" where
  "se_load_module params param_name =
     (\<lambda>(module_names, required_modules).
        let split_names = se_split CHR ''.'' param_name in
        if length split_names < 3 then Inl (SE_OutOfRange param_name)
        else
          (let param_module = split_names ! 2;
               prefix = split_names ! 0 @ ''.'' @ split_names ! 1 @ ''.'' @ param_module
           in if prefix \<in> module_names then Inr (module_names, required_modules)
              else Inr (insert prefix module_names,
                required_modules @
                  [\<lparr>dc_name = param_module,
                    dc_sf_at = se_param_or params (prefix @ ''.sf_at'') ''none'',
                    dc_lf_at = se_param_or params (prefix @ ''.lf_at'') ''warn'',
                    dc_spf_at = se_param_or params (prefix @ ''.spf_at'') ''error'',
                    dc_auto_recovery =
                      se_read_bool (se_param_or params (prefix @ ''.auto_recovery'') ''true'')\<rparr>])))"

definition se_loadRequiredModules ::
  "string list \<Rightarrow> (string \<rightharpoonup> string) \<Rightarrow> string \<Rightarrow> se_state \<Rightarrow> se_error + se_state" where
  "se_loadRequiredModules param_names params key s =
     (if param_names = [] then Inl (SE_NoParameter (''required_modules.'' @ key))
      else err_bind (err_fold (se_load_module params) param_names ({}, [])) (\<lambda>(_, modules).
        Inr (if se_required_modules_map s key = None
             then s\<lparr>se_required_modules_map := (se_required_modules_map s)(key \<mapsto> modules)\<rparr>
             else s)))"

definition se_blank :: "time \<Rightarrow> se_state" where
  "se_blank t =
     \<lparr>se_emergency_state_switch_time = None, se_initialized_time = t,
      se_hazard_status = hazard_status_new, se_required_modules_map = Map.empty,
      se_current_mode = [], se_diag_buffer_map = Map.empty, se_diag_array = None,
      se_autoware_state = None, se_current_gate_mode = None,
      se_control_mode = ControlMode_MANUAL, se_diag_array_stamp = None,
      se_autoware_state_stamp = None, se_current_gate_mode_stamp = None,
      se_control_mode_stamp = None\<rparr>"

definition se_construct ::
  "(string \<Rightarrow> string list) \<Rightarrow> (string \<rightharpoonup> string) \<Rightarrow> time \<Rightarrow> se_error + se_state" where
  "se_construct list_parameters params t =
     err_bind (se_loadRequiredModules (list_parameters key_autonomous_driving) params
         key_autonomous_driving (se_blank t))
       (se_loadRequiredModules (list_parameters key_external_control) params key_external_control)"

section \<open>Events and reachable states\<close>

datatype se_event =
    SE_DiagArray diag_array
  | SE_GateMode gate_mode
  | SE_AutowareState autoware_state
  | SE_ControlMode control_mode
  | SE_Timer
  | SE_ClearEmergency

fun se_handle ::
  "se_param \<Rightarrow> time \<Rightarrow> se_event \<Rightarrow> se_state \<Rightarrow> se_error + (se_state \<times> se_out list)" where
  "se_handle p t (SE_DiagArray m) s = Inr (se_onDiagArray m t s, [])"
| "se_handle p t (SE_GateMode m) s = Inr (se_onCurrentGateMode m t s, [])"
| "se_handle p t (SE_AutowareState m) s = Inr (se_onAutowareState m t s, [])"
| "se_handle p t (SE_ControlMode m) s = Inr (se_onControlMode m t s, [])"
| "se_handle p t SE_Timer s = se_onTimer p t s"
| "se_handle p t SE_ClearEmergency s =
     err_bind (se_onClearEmergencyService p t s) (\<lambda>(s1, success). Inr (s1, []))"

inductive se_reachable :: "se_param \<Rightarrow> se_state \<Rightarrow> se_state \<Rightarrow> bool" for p s0 where
  se_reachable_init: "se_reachable p s0 s0"
| se_reachable_step:
    "se_reachable p s0 s \<Longrightarrow> se_handle p t ev s = Inr (s', outs) \<Longrightarrow> se_reachable p s0 s'"

lemmas se_sub_defs = se_onDiagArray_def se_onCurrentGateMode_def se_onAutowareState_def
  se_onControlMode_def

lemmas se_frame_defs = se_set_emergency_def se_set_holding_def

section \<open>Levels without exceptions\<close>

definition se_valid_level :: "string \<Rightarrow> bool" where
  "se_valid_level str \<longleftrightarrow> str = ''none'' \<or> se_icase_match str ''warn'' \<or>
     se_icase_match str ''error'' \<or> se_icase_match str ''stale''"

definition se_config_ok :: "diag_config \<Rightarrow> bool" where
  "se_config_ok m \<longleftrightarrow> se_valid_level (dc_sf_at m) \<and> se_valid_level (dc_lf_at m) \<and>
     se_valid_level (dc_spf_at m)"

definition se_over :: "diag_level \<Rightarrow> string \<Rightarrow> bool" where
  "se_over l str \<longleftrightarrow> str \<noteq> ''none'' \<and>
     (if se_icase_match str ''warn'' then DL_WARN
      else if se_icase_match str ''error'' then DL_ERROR else DL_STALE) \<le> l"

definition se_level :: "diag_config \<Rightarrow> diag_level \<Rightarrow> hazard_level" where
  "se_level m l =
     (if se_over l (dc_spf_at m) then SINGLE_POINT_FAULT
      else if se_over l (dc_lf_at m) then LATENT_FAULT
      else if se_over l (dc_sf_at m) then SAFE_FAULT
      else NO_FAULT)"

lemma se_isOverLevel_ok: "se_valid_level str \<Longrightarrow> se_isOverLevel l str = Inr (se_over l str)"
  by (auto simp: se_isOverLevel_def se_over_def se_str2level_def se_valid_level_def)

lemma se_getHazardLevel_ok: "se_config_ok m \<Longrightarrow> se_getHazardLevel m l = Inr (se_level m l)"
  by (simp add: se_getHazardLevel_def se_config_ok_def se_isOverLevel_ok se_level_def)

fun se_target :: "hazard_level \<Rightarrow> hazard_status \<Rightarrow> diag_status list" where
  "se_target NO_FAULT hs = hs_diag_no_fault hs"
| "se_target SAFE_FAULT hs = hs_diag_safe_fault hs"
| "se_target LATENT_FAULT hs = hs_diag_latent_fault hs"
| "se_target SINGLE_POINT_FAULT hs = hs_diag_single_point_fault hs"

lemma se_target_push [simp]:
  "se_target k (se_push_target l ds hs) = se_target k hs @ (if k = l then ds else [])"
  by (cases k; cases l) simp_all

lemma se_push_level [simp]: "hs_level (se_push_target l ds hs) = hs_level hs"
  by (cases l) simp_all

lemma se_target_level [simp]: "se_target k (hs\<lparr>hs_level := l\<rparr>) = se_target k hs"
  by (cases k) simp_all

text \<open>One appended diagnostic raises the level to its own and is listed under it.\<close>

lemma se_appendHazardDiag_ok:
  assumes "se_config_ok m" and "se_diag_array s \<noteq> None"
  shows "\<exists>hs'. se_appendHazardDiag p s m d hs = Inr hs' \<and>
    hs_level hs' = max (hs_level hs) (se_level m (ds_level d)) \<and>
    d \<in> set (se_target (se_level m (ds_level d)) hs') \<and>
    (\<forall>k. set (se_target k hs) \<subseteq> set (se_target k hs'))"
proof -
  obtain a where "se_diag_array s = Some a" using assms(2) by blast
  then show ?thesis
    by (simp add: se_appendHazardDiag_def se_getHazardLevel_ok [OF assms(1)] Let_def)
qed

text \<open>The severity of one required module in the current state.\<close>

definition se_module_level :: "se_param \<Rightarrow> time \<Rightarrow> se_state \<Rightarrow> diag_config \<Rightarrow> hazard_level" where
  "se_module_level p t s m =
     (case se_getLatestDiag s (dc_name m) of
        None \<Rightarrow> if sp_ignore_missing_diagnostics p then NO_FAULT else se_level m DL_STALE
      | Some latest \<Rightarrow>
          if sp_diag_timeout_sec p < seconds (t - dg_stamp latest)
          then max (se_level m (ds_level (dg_status latest))) (se_level m DL_STALE)
          else se_level m (ds_level (dg_status latest)))"

text \<open>Diagnostics are buffered under their own name.\<close>

definition se_buffers_ok :: "se_state \<Rightarrow> bool" where
  "se_buffers_ok s \<longleftrightarrow>
     (\<forall>n b. se_diag_buffer_map s n = Some b \<longrightarrow> (\<forall>d \<in> set b. ds_name (dg_status d) = n))"

lemma se_latest_name:
  "se_buffers_ok s \<Longrightarrow> se_getLatestDiag s n = Some d \<Longrightarrow> ds_name (dg_status d) = n"
  by (auto simp: se_buffers_ok_def se_getLatestDiag_def split: option.splits if_splits)

definition se_listed :: "string \<Rightarrow> hazard_level \<Rightarrow> hazard_status \<Rightarrow> bool" where
  "se_listed n l hs \<longleftrightarrow> (\<exists>d \<in> set (se_target l hs). ds_name d = n)"



lemma se_listedI: "d \<in> set (se_target l hs) \<Longrightarrow> ds_name d = n \<Longrightarrow> se_listed n l hs"
  by (auto simp: se_listed_def)

lemma se_judge_module_ok:
  assumes "se_config_ok m" and "se_diag_array s \<noteq> None" and "se_buffers_ok s"
  shows "\<exists>hs'. se_judge_module p t s m hs = Inr hs' \<and>
    hs_level hs' = max (hs_level hs) (se_module_level p t s m) \<and>
    (se_module_level p t s m \<noteq> NO_FAULT \<longrightarrow> se_listed (dc_name m) (se_module_level p t s m) hs') \<and>
    (\<forall>k. set (se_target k hs) \<subseteq> set (se_target k hs'))"
proof (cases "se_getLatestDiag s (dc_name m)")
  case None
  let ?d = "se_missing_diag (dc_name m)"
  obtain h1 where h1: "se_appendHazardDiag p s m ?d hs = Inr h1"
    "hs_level h1 = max (hs_level hs) (se_level m (ds_level ?d))"
    "?d \<in> set (se_target (se_level m (ds_level ?d)) h1)"
    "\<forall>k. set (se_target k hs) \<subseteq> set (se_target k h1)"
    using se_appendHazardDiag_ok [OF assms(1,2)] by blast
  have "se_listed (dc_name m) (se_level m (ds_level ?d)) h1"
    by (rule se_listedI [OF h1(3)]) (simp add: se_missing_diag_def)
  with None h1 show ?thesis
    by (simp add: se_judge_module_def se_module_level_def se_missing_diag_def)
next
  case (Some latest)
  note name = se_latest_name [OF assms(3) Some]
  let ?d = "dg_status latest"
  let ?stale = "(dg_status latest)\<lparr>ds_level := DL_STALE, ds_message := ''timeout''\<rparr>"
  obtain h1 where h1: "se_appendHazardDiag p s m ?d hs = Inr h1"
    "hs_level h1 = max (hs_level hs) (se_level m (ds_level ?d))"
    "?d \<in> set (se_target (se_level m (ds_level ?d)) h1)"
    "\<forall>k. set (se_target k hs) \<subseteq> set (se_target k h1)"
    using se_appendHazardDiag_ok [OF assms(1,2)] by blast
  show ?thesis
  proof (cases "sp_diag_timeout_sec p < seconds (t - dg_stamp latest)")
    case False
    with Some h1 se_listedI [OF h1(3) name] show ?thesis
      by (simp add: se_judge_module_def se_module_level_def)
  next
    case True
    obtain h2 where h2: "se_appendHazardDiag p s m ?stale h1 = Inr h2"
      "hs_level h2 = max (hs_level h1) (se_level m DL_STALE)"
      "?stale \<in> set (se_target (se_level m DL_STALE) h2)"
      "\<forall>k. set (se_target k h1) \<subseteq> set (se_target k h2)"
      using se_appendHazardDiag_ok [OF assms(1,2), of p ?stale h1] by auto
    have listed: "se_listed (dc_name m) (se_level m (ds_level ?d)) h2"
      using h1(3) h2(4) by (intro se_listedI [OF _ name]) blast
    have "se_listed (dc_name m) (se_level m DL_STALE) h2"
      by (rule se_listedI [OF h2(3)]) (simp add: name)
    with listed have "se_listed (dc_name m)
        (max (se_level m (ds_level ?d)) (se_level m DL_STALE)) h2"
      by (simp add: max_def)
    moreover have "\<forall>k. set (se_target k hs) \<subseteq> set (se_target k h2)"
      using h1(4) h2(4) by blast
    ultimately show ?thesis
      using Some True h1(1,2) h2(1,2)
      by (simp add: se_judge_module_def se_module_level_def max.assoc)
  qed
qed

text \<open>The whole loop: the level is the maximum over the modules, and every fault is listed.\<close>

lemma se_judge_modules_ok:
  assumes "\<forall>m \<in> set ms. se_config_ok m" and "se_diag_array s \<noteq> None" and "se_buffers_ok s"
  shows "\<exists>hs'. err_fold (se_judge_module p t s) ms hs = Inr hs' \<and>
    hs_level hs' = Max (insert (hs_level hs) (se_module_level p t s ` set ms)) \<and>
    (\<forall>m \<in> set ms. se_module_level p t s m \<noteq> NO_FAULT \<longrightarrow>
       se_listed (dc_name m) (se_module_level p t s m) hs') \<and>
    (\<forall>k. set (se_target k hs) \<subseteq> set (se_target k hs'))"
  using assms(1)
proof (induction ms arbitrary: hs)
  case (Cons m ms)
  let ?l = "se_module_level p t s"
  have ok: "se_config_ok m" using Cons.prems by simp
  obtain h1 where h1: "se_judge_module p t s m hs = Inr h1"
    "hs_level h1 = max (hs_level hs) (?l m)"
    "?l m \<noteq> NO_FAULT \<longrightarrow> se_listed (dc_name m) (?l m) h1"
    "\<forall>k. set (se_target k hs) \<subseteq> set (se_target k h1)"
    using se_judge_module_ok [OF ok assms(2,3)] by blast
  obtain h2 where h2: "err_fold (se_judge_module p t s) ms h1 = Inr h2"
    "hs_level h2 = Max (insert (hs_level h1) (?l ` set ms))"
    "\<forall>m \<in> set ms. ?l m \<noteq> NO_FAULT \<longrightarrow> se_listed (dc_name m) (?l m) h2"
    "\<forall>k. set (se_target k h1) \<subseteq> set (se_target k h2)"
    using Cons.IH Cons.prems by (meson list.set_intros(2))
  have "?l m \<noteq> NO_FAULT \<longrightarrow> se_listed (dc_name m) (?l m) h2"
    using h1(3) h2(4) by (auto simp: se_listed_def)
  moreover have "hs_level h2 = Max (insert (hs_level hs) (?l ` set (m # ms)))"
    unfolding h2(2) h1(2) by (cases "ms = []") (simp_all add: max.assoc)
  moreover have "\<forall>k. set (se_target k hs) \<subseteq> set (se_target k h2)"
    using h1(4) h2(4) by blast
  ultimately show ?case using h1(1) h2(1,3) by auto
qed simp

section \<open>Well-formed states\<close>

definition se_modules :: "se_state \<Rightarrow> diag_config list" where
  "se_modules s = (case se_required_modules_map s (se_current_mode s) of None \<Rightarrow> [] | Some ms \<Rightarrow> ms)"

definition se_modes_ok :: "se_state \<Rightarrow> bool" where
  "se_modes_ok s \<longleftrightarrow> se_required_modules_map s [] = None \<and>
     (\<forall>k \<in> {key_autonomous_driving, key_external_control}.
        \<exists>ms. se_required_modules_map s k = Some ms \<and> (\<forall>m \<in> set ms. se_config_ok m))"

definition se_mode_set :: "se_state \<Rightarrow> bool" where
  "se_mode_set s \<longleftrightarrow> se_isDataReady s \<and>
     se_current_mode s \<in> {key_autonomous_driving, key_external_control}"

definition se_wf :: "se_state \<Rightarrow> bool" where
  "se_wf s \<longleftrightarrow> se_modes_ok s \<and> se_buffers_ok s \<and>
     (hs_emergency (se_hazard_status s) \<longrightarrow> se_emergency_state_switch_time s \<noteq> None) \<and>
     (se_current_mode s = [] \<or> se_mode_set s)"

lemma se_modules_ok:
  assumes "se_modes_ok s" and "se_mode_set s"
  shows "se_modules_at s = Inr (se_modules s)" and "\<forall>m \<in> set (se_modules s). se_config_ok m"
  using assms by (auto simp: se_modes_ok_def se_mode_set_def se_modules_at_def se_modules_def)

text \<open>What the judgement and the holding rule compute when nothing throws.\<close>

definition se_ignoring :: "se_state \<Rightarrow> bool" where
  "se_ignoring s \<longleftrightarrow>
     (case (se_autoware_state s, se_current_gate_mode s) of
        (Some state, Some mode) \<Rightarrow> se_isInNoFaultCondition state mode
      | _ \<Rightarrow> False)"

definition se_judged_level :: "se_param \<Rightarrow> time \<Rightarrow> se_state \<Rightarrow> hazard_level" where
  "se_judged_level p t s =
     (if se_ignoring s then NO_FAULT
      else Max (insert NO_FAULT (se_module_level p t s ` set (se_modules s))))"

lemma se_listed_level [simp]: "se_listed n l (hs\<lparr>hs_level := k\<rparr>) = se_listed n l hs"
  by (simp add: se_listed_def)

lemma se_judge_ok:
  assumes "se_modes_ok s" and "se_buffers_ok s" and "se_mode_set s"
  shows "\<exists>hs. se_judgeHazardStatus p t s = Inr hs \<and> hs_level hs = se_judged_level p t s \<and>
    (\<forall>m \<in> set (se_modules s). se_module_level p t s m \<noteq> NO_FAULT \<longrightarrow>
       se_listed (dc_name m) (se_module_level p t s m) hs)"
proof -
  note modules = se_modules_ok [OF assms(1,3)]
  from assms(3) obtain a state mode where ready: "se_diag_array s = Some a"
    "se_autoware_state s = Some state" "se_current_gate_mode s = Some mode"
    by (auto simp: se_mode_set_def se_isDataReady_def)
  then have array: "se_diag_array s \<noteq> None" by simp
  obtain h where h: "err_fold (se_judge_module p t s) (se_modules s) hazard_status_new = Inr h"
    "hs_level h = Max (insert (hs_level hazard_status_new) (se_module_level p t s ` set (se_modules s)))"
    "\<forall>m \<in> set (se_modules s). se_module_level p t s m \<noteq> NO_FAULT \<longrightarrow>
       se_listed (dc_name m) (se_module_level p t s m) h"
    using se_judge_modules_ok [OF modules(2) array assms(2)] by blast
  then show ?thesis
    using ready by (simp add: se_judgeHazardStatus_def modules(1) se_judged_level_def
        se_ignoring_def hazard_status_new_def)
qed

definition se_hold :: "se_param \<Rightarrow> time \<Rightarrow> se_state \<Rightarrow> bool" where
  "se_hold p t s \<longleftrightarrow>
     hs_emergency_holding (se_hazard_status s) \<or>
     hs_emergency (se_hazard_status s) \<and>
     (sp_hazard_recovery_timeout p \<le> seconds (t - the (se_emergency_state_switch_time s)) \<or>
      (\<exists>m \<in> set (se_modules s). \<not> dc_auto_recovery m \<and>
         dc_name m \<in> se_getErrorModules (se_hazard_status s) (sp_emergency_hazard_level p))) \<and>
     (sp_use_emergency_hold_in_manual_driving p \<or> se_control_mode s \<noteq> ControlMode_MANUAL)"

lemma se_hold_ok:
  assumes "se_modules_at s = Inr (se_modules s)"
    and "hs_emergency (se_hazard_status s) \<longrightarrow> se_emergency_state_switch_time s \<noteq> None"
  shows "se_isEmergencyHoldingRequired p t s = Inr (se_hold p t s)"
  using assms
  by (auto simp: se_isEmergencyHoldingRequired_def se_hold_def se_canAutoRecovery_def Let_def
      se_since_def simp del: err_bind_Inr_iff)

definition se_finish :: "se_param \<Rightarrow> time \<Rightarrow> se_state \<Rightarrow> se_state" where
  "se_finish p t s =
     (let s1 = se_set_emergency t
           (se_level_reaches (sp_emergency_hazard_level p) (hs_level (se_hazard_status s))) s
      in if sp_use_emergency_hold p then se_set_holding (se_hold p t s1) s1 else s1)"

definition se_judged :: "hazard_status \<Rightarrow> se_state \<Rightarrow> se_state" where
  "se_judged hs s =
     s\<lparr>se_hazard_status := hs\<lparr>hs_emergency := hs_emergency (se_hazard_status s),
         hs_emergency_holding := hs_emergency_holding (se_hazard_status s)\<rparr>\<rparr>"

lemma se_set_emergency_frame [frame_simps]:
  "se_modules_at (se_set_emergency t b s) = se_modules_at s"
  "se_modules (se_set_emergency t b s) = se_modules s"
  "hs_emergency (se_hazard_status (se_set_emergency t b s)) = b"
  "hs_emergency_holding (se_hazard_status (se_set_emergency t b s)) =
     hs_emergency_holding (se_hazard_status s)"
  "hs_level (se_hazard_status (se_set_emergency t b s)) = hs_level (se_hazard_status s)"
  "se_control_mode (se_set_emergency t b s) = se_control_mode s"
  "se_getErrorModules (se_hazard_status (se_set_emergency t b s)) n =
     se_getErrorModules (se_hazard_status s) n"
  by (simp_all add: se_set_emergency_def Let_def se_modules_at_def se_modules_def
      se_getErrorModules_def split: option.split)

lemma se_set_emergency_switch:
  "(hs_emergency (se_hazard_status s) \<longrightarrow> se_emergency_state_switch_time s \<noteq> None) \<Longrightarrow>
   b \<longrightarrow> se_emergency_state_switch_time (se_set_emergency t b s) \<noteq> None"
  by (auto simp: se_set_emergency_def Let_def)

lemma se_update_holding:
  assumes "se_wf s" and "se_mode_set s" and "hs_emergency_holding (se_hazard_status s)"
  shows "se_updateHazardStatus p t s = Inr (se_finish p t s)"
  using assms
  by (simp add: se_updateHazardStatus_def se_finish_def Let_def se_wf_def se_hold_ok frame_simps
      se_modules_ok se_set_emergency_switch)

lemma se_update_judging:
  assumes "se_wf s" and "se_mode_set s" and "\<not> hs_emergency_holding (se_hazard_status s)"
  shows "\<exists>hs. se_updateHazardStatus p t s = Inr (se_finish p t (se_judged hs s)) \<and>
    hs_level hs = se_judged_level p t s \<and>
    (\<forall>m \<in> set (se_modules s). se_module_level p t s m \<noteq> NO_FAULT \<longrightarrow>
       se_listed (dc_name m) (se_module_level p t s m) hs)"
proof -
  obtain hs where hs: "se_judgeHazardStatus p t s = Inr hs" "hs_level hs = se_judged_level p t s"
    "\<forall>m \<in> set (se_modules s). se_module_level p t s m \<noteq> NO_FAULT \<longrightarrow>
       se_listed (dc_name m) (se_module_level p t s m) hs"
    using se_judge_ok assms(1,2) unfolding se_wf_def by blast
  have "s\<lparr>se_hazard_status := (se_hazard_status s)
         \<lparr>hs_level := hs_level hs, hs_diag_no_fault := hs_diag_no_fault hs,
          hs_diag_safe_fault := hs_diag_safe_fault hs,
          hs_diag_latent_fault := hs_diag_latent_fault hs,
          hs_diag_single_point_fault := hs_diag_single_point_fault hs\<rparr>\<rparr> = se_judged hs s"
    by (simp add: se_judged_def)
  moreover have "se_modules_at (se_judged hs s) = Inr (se_modules (se_judged hs s))"
    using se_modules_ok(1) [of s] assms(1,2)
    by (simp add: se_wf_def se_judged_def se_modules_at_def se_modules_def split: option.splits)
  moreover have "hs_emergency (se_hazard_status (se_judged hs s)) \<longrightarrow>
      se_emergency_state_switch_time (se_judged hs s) \<noteq> None"
    using assms(1) by (simp add: se_wf_def se_judged_def)
  ultimately have "se_updateHazardStatus p t s = Inr (se_finish p t (se_judged hs s))"
    using assms(3) hs(1)
    by (simp add: se_updateHazardStatus_def se_finish_def Let_def se_hold_ok frame_simps
        se_set_emergency_switch)
  with hs(2,3) show ?thesis by blast
qed

section \<open>Every callback keeps the states well-formed\<close>

lemmas se_wf_defs = se_wf_def se_modes_ok_def se_buffers_ok_def se_mode_set_def se_isDataReady_def

lemma se_push_diag_ok:
  assumes "\<forall>n b. m n = Some b \<longrightarrow> (\<forall>d \<in> set b. ds_name (dg_status d) = n)"
  shows "\<forall>n b. se_push_diag stamp d m n = Some b \<longrightarrow> (\<forall>d \<in> set b. ds_name (dg_status d) = n)"
  using assms
  by (auto simp: se_push_diag_def Let_def keep_last_def dest!: in_set_dropD split: option.splits
      if_splits)

lemma se_push_diags_ok:
  "\<forall>n b. m n = Some b \<longrightarrow> (\<forall>d \<in> set b. ds_name (dg_status d) = n) \<Longrightarrow>
   \<forall>n b. fold (se_push_diag stamp) ds m n = Some b \<longrightarrow> (\<forall>d \<in> set b. ds_name (dg_status d) = n)"
proof (induction ds arbitrary: m)
  case (Cons d ds)
  show ?case using Cons.IH [OF se_push_diag_ok [OF Cons.prems]] by simp
qed simp

lemma se_onDiagArray_wf [inv_intros]: "se_wf s \<Longrightarrow> se_wf (se_onDiagArray msg t s)"
  using se_push_diags_ok [of "se_diag_buffer_map s" "da_stamp msg" "da_status msg"]
  by (simp add: se_wf_defs se_onDiagArray_def) blast

lemma se_sub_wf [inv_intros]:
  assumes "se_wf s"
  shows "se_wf (se_onCurrentGateMode g t s)" "se_wf (se_onAutowareState a t s)"
    "se_wf (se_onControlMode c t s)"
  using assms by (auto simp: se_wf_defs se_sub_defs)

lemma se_set_emergency_wf [inv_intros]: "se_wf s \<Longrightarrow> se_wf (se_set_emergency t b s)"
  by (simp add: se_wf_defs se_set_emergency_def Let_def)

lemma se_set_holding_wf [inv_intros]: "se_wf (se_set_holding b s) = se_wf s"
  by (simp add: se_wf_defs se_set_holding_def)

lemma se_finish_wf [inv_intros]: "se_wf s \<Longrightarrow> se_wf (se_finish p t s)"
  by (simp add: se_finish_def Let_def se_set_emergency_wf se_set_holding_wf)

lemma se_judged_wf [inv_intros]: "se_wf s \<Longrightarrow> se_wf (se_judged hs s)"
  by (simp add: se_wf_defs se_judged_def)

lemma se_updateHazardStatus_wf:
  assumes "se_wf s" and "se_mode_set s"
  shows "\<exists>s'. se_updateHazardStatus p t s = Inr s' \<and> se_wf s'"
proof (cases "hs_emergency_holding (se_hazard_status s)")
  case True
  from se_update_holding [OF assms True] se_finish_wf [OF assms(1)] show ?thesis by auto
next
  case False
  from se_update_judging [OF assms False] se_finish_wf [OF se_judged_wf [OF assms(1)]]
  show ?thesis by (metis (no_types))
qed

text \<open>The hazard status of a timeout.\<close>

definition se_timeout_status :: "bool \<Rightarrow> hazard_status" where
  "se_timeout_status holding =
     \<lparr>hs_level = SINGLE_POINT_FAULT, hs_emergency = True, hs_emergency_holding = holding,
      hs_diag_no_fault = [], hs_diag_safe_fault = [], hs_diag_latent_fault = [],
      hs_diag_single_point_fault = [se_timeout_diag]\<rparr>"

definition se_emergency_since :: "time \<Rightarrow> se_state \<Rightarrow> time" where
  "se_emergency_since t s =
     (if hs_emergency (se_hazard_status s) then the (se_emergency_state_switch_time s) else t)"

lemma se_updateTimeout_spec:
  assumes "se_wf s"
  shows "se_updateTimeoutHazardStatus p t s = Inr (s
    \<lparr>se_hazard_status := se_timeout_status
        (if sp_use_emergency_hold p
         then sp_hazard_recovery_timeout p < seconds (t - se_emergency_since t s)
         else hs_emergency_holding (se_hazard_status s)),
     se_emergency_state_switch_time := Some (se_emergency_since t s)\<rparr>)"
  using assms
  by (auto simp: se_updateTimeoutHazardStatus_def se_set_emergency_def se_set_holding_def
      se_timeout_status_def se_emergency_since_def se_since_def se_wf_def Let_def)

lemma se_timeout_tick_wf:
  assumes "se_wf s"
  shows "\<exists>s' outs. se_timeout_tick p t s = Inr (s', outs) \<and> se_wf s'"
  using assms by (simp add: se_timeout_tick_def se_updateTimeout_spec) (simp add: se_wf_defs)

definition se_select_mode :: "se_state \<Rightarrow> se_state" where
  "se_select_mode s = s\<lparr>se_current_mode :=
     (if se_current_gate_mode s = Some GateMode_AUTO
      then key_autonomous_driving else key_external_control)\<rparr>"

lemma se_select_mode_wf:
  assumes "se_wf s" and "se_isDataReady s"
  shows "se_wf (se_select_mode s)" and "se_mode_set (se_select_mode s)"
  using assms by (auto simp: se_wf_defs se_select_mode_def)

lemma se_onTimer_cases:
  "se_onTimer p t s =
     (if \<not> se_isDataReady s then
        (if sp_data_ready_timeout p < seconds (t - se_initialized_time s)
         then se_timeout_tick p t s else Inr (s, []))
      else if se_isDataHeartbeatTimeout p t s then se_timeout_tick p t s
      else err_bind (se_updateHazardStatus p t (se_select_mode s)) (\<lambda>s2.
             Inr (s2, se_publishHazardStatus t (se_hazard_status s2))))"
  by (simp add: se_onTimer_def se_select_mode_def Let_def)

lemma se_onTimer_wf:
  assumes "se_wf s" shows "\<exists>s' outs. se_onTimer p t s = Inr (s', outs) \<and> se_wf s'"
proof (cases "se_isDataReady s \<and> \<not> se_isDataHeartbeatTimeout p t s")
  case True
  with se_updateHazardStatus_wf [OF se_select_mode_wf [OF assms], of p t] show ?thesis
    by (auto simp: se_onTimer_cases)
next
  case False
  with se_timeout_tick_wf [OF assms, of p t] assms show ?thesis
    by (auto simp: se_onTimer_cases)
qed

lemma se_handle_wf:
  assumes "se_wf s" and "ev = SE_ClearEmergency \<longrightarrow> se_current_mode s \<noteq> []"
  shows "\<exists>s' outs. se_handle p t ev s = Inr (s', outs) \<and> se_wf s'"
proof (cases ev)
  case SE_ClearEmergency
  with assms have "se_mode_set (se_set_holding False s)" and "se_wf (se_set_holding False s)"
    by (simp_all add: se_set_holding_wf) (simp add: se_wf_defs se_set_holding_def)
  from se_updateHazardStatus_wf [OF this(2,1), of p t] SE_ClearEmergency show ?thesis
    by (auto simp: se_onClearEmergencyService_def)
qed (use assms se_onTimer_wf in \<open>simp_all add: se_sub_wf se_onDiagArray_wf\<close>)

lemma se_clear_early:
  assumes "se_wf s" and "se_current_mode s = []"
  shows "se_onClearEmergencyService p t s = Inl (SE_OutOfRange [])"
  using assms
  by (simp add: se_onClearEmergencyService_def se_updateHazardStatus_def se_set_holding_def
      se_judgeHazardStatus_def se_modules_at_def se_wf_def se_modes_ok_def)

lemma se_reachable_wf: "se_reachable p s0 s \<Longrightarrow> se_wf s0 \<Longrightarrow> se_wf s"
proof (induction rule: se_reachable.induct)
  case (se_reachable_step s t ev s' outs)
  show ?case
  proof (cases "ev = SE_ClearEmergency \<and> se_current_mode s = []")
    case True
    with se_clear_early [of s p t] se_reachable_step show ?thesis by simp
  next
    case False
    with se_handle_wf [of s ev p t] se_reachable_step show ?thesis by auto
  qed
qed

text \<open>The four inputs are watched by their age.\<close>

interpretation diag_array_input: watchdog se_onDiagArray
  "\<lambda>t s. se_isTimeout t (sp_data_heartbeat_timeout p) (se_diag_array_stamp s)"
  "sp_data_heartbeat_timeout p"
  by unfold_locales (simp add: se_isTimeout_def se_onDiagArray_def)

interpretation gate_mode_input: watchdog se_onCurrentGateMode
  "\<lambda>t s. se_isTimeout t (sp_data_heartbeat_timeout p) (se_current_gate_mode_stamp s)"
  "sp_data_heartbeat_timeout p"
  by unfold_locales (simp add: se_isTimeout_def se_onCurrentGateMode_def)

interpretation autoware_state_input: watchdog se_onAutowareState
  "\<lambda>t s. se_isTimeout t (sp_data_heartbeat_timeout p) (se_autoware_state_stamp s)"
  "sp_data_heartbeat_timeout p"
  by unfold_locales (simp add: se_isTimeout_def se_onAutowareState_def)

interpretation control_mode_input: watchdog se_onControlMode
  "\<lambda>t s. se_isTimeout t (sp_data_heartbeat_timeout p) (se_control_mode_stamp s)"
  "sp_data_heartbeat_timeout p"
  by unfold_locales (simp add: se_isTimeout_def se_onControlMode_def)

section \<open>The constructed monitor\<close>

lemma se_keys: "key_autonomous_driving \<noteq> []" "key_external_control \<noteq> []"
  "key_autonomous_driving \<noteq> key_external_control" "key_external_control \<noteq> key_autonomous_driving"
  by (simp_all add: key_autonomous_driving_def key_external_control_def)

lemma se_load_shape:
  assumes "se_loadRequiredModules names params key s = Inr s'"
    and "se_required_modules_map s key = None"
  shows "\<exists>ms. s' = s\<lparr>se_required_modules_map := (se_required_modules_map s)(key \<mapsto> ms)\<rparr>"
  using assms by (auto simp: se_loadRequiredModules_def split: if_splits)

lemma se_construct_shape:
  assumes "se_construct lp params t = Inr s"
  shows "\<exists>a b. s = (se_blank t)\<lparr>se_required_modules_map :=
    [key_autonomous_driving \<mapsto> a, key_external_control \<mapsto> b]\<rparr>"
proof -
  from assms obtain s1 where s1: "se_loadRequiredModules (lp key_autonomous_driving) params
      key_autonomous_driving (se_blank t) = Inr s1"
    and s2: "se_loadRequiredModules (lp key_external_control) params key_external_control s1 = Inr s"
    by (auto simp: se_construct_def)
  obtain a where a: "s1 = (se_blank t)\<lparr>se_required_modules_map := [key_autonomous_driving \<mapsto> a]\<rparr>"
    using se_load_shape [OF s1] by (auto simp: se_blank_def)
  then have "se_required_modules_map s1 key_external_control = None" by (simp add: se_keys)
  from se_load_shape [OF s2 this] a show ?thesis by auto
qed

lemma se_construct_wf:
  assumes "se_construct lp params t = Inr s"
    and "\<forall>ms \<in> ran (se_required_modules_map s). \<forall>m \<in> set ms. se_config_ok m"
  shows "se_wf s"
proof -
  obtain a b where s: "s = (se_blank t)\<lparr>se_required_modules_map :=
      [key_autonomous_driving \<mapsto> a, key_external_control \<mapsto> b]\<rparr>"
    using se_construct_shape [OF assms(1)] by blast
  then have map: "se_required_modules_map s key_autonomous_driving = Some a"
    "se_required_modules_map s key_external_control = Some b"
    "se_required_modules_map s [] = None"
    using se_keys by (simp_all add: se_keys [symmetric])
  with assms(2) have "\<forall>m \<in> set a. se_config_ok m" "\<forall>m \<in> set b. se_config_ok m"
    by (meson ranI)+
  with map have "se_modes_ok s" by (simp add: se_modes_ok_def)
  with s show ?thesis
    by (simp add: se_wf_def se_buffers_ok_def se_blank_def hazard_status_new_def)
qed

section \<open>Holding\<close>











section \<open>A concrete monitor\<close>

text \<open>One required module that may not recover by itself, and a diagnostic of it at level ERROR.\<close>

definition se_ex_param :: se_param where
  "se_ex_param =
     \<lparr>sp_ignore_missing_diagnostics = False, sp_add_leaf_diagnostics = True,
      sp_data_ready_timeout = 30, sp_data_heartbeat_timeout = 1, sp_diag_timeout_sec = 1,
      sp_hazard_recovery_timeout = 5, sp_emergency_hazard_level = 2,
      sp_use_emergency_hold = True, sp_use_emergency_hold_in_manual_driving = False\<rparr>"

definition se_ex_names :: "string \<Rightarrow> string list" where
  "se_ex_names key = [''required_modules.'' @ key @ ''.control.auto_recovery'']"

definition se_ex_values :: "string \<rightharpoonup> string" where
  "se_ex_values = [''required_modules.autonomous_driving.control.auto_recovery'' \<mapsto> ''false'']"

definition se_ex_module :: "bool \<Rightarrow> diag_config" where
  "se_ex_module b =
     \<lparr>dc_name = ''control'', dc_sf_at = ''none'', dc_lf_at = ''warn'', dc_spf_at = ''error'',
      dc_auto_recovery = b\<rparr>"

definition se_ex_start :: se_state where
  "se_ex_start = (se_blank 0)\<lparr>se_required_modules_map :=
     [key_autonomous_driving \<mapsto> [se_ex_module False], key_external_control \<mapsto> [se_ex_module True]]\<rparr>"

lemma se_ex_construct: "se_construct se_ex_names se_ex_values 0 = Inr se_ex_start"
  by (simp add: se_construct_def se_ex_names_def se_ex_values_def se_ex_start_def se_ex_module_def
      se_loadRequiredModules_def se_load_module_def se_split.simps se_param_or_def se_read_bool_def
      se_blank_def key_autonomous_driving_def key_external_control_def Let_def del: err_bind_Inr_iff)

lemma se_ex_configs:
  "\<forall>ms \<in> ran (se_required_modules_map se_ex_start). \<forall>m \<in> set ms. se_config_ok m"
proof -
  have "se_config_ok (se_ex_module b)" for b
    by (simp add: se_config_ok_def se_valid_level_def se_ex_module_def se_icase_match_def)
  then show ?thesis by (auto simp: se_ex_start_def ran_def split: if_splits)
qed

definition se_ex_diag :: diag_status where
  "se_ex_diag =
     \<lparr>ds_level = DL_ERROR, ds_name = ''control'', ds_message = [], ds_hardware_id = []\<rparr>"

text \<open>All four inputs have arrived at time 0, Autoware drives in mode AUTO.\<close>

definition se_ex_running :: se_state where
  "se_ex_running =
     se_onControlMode ControlMode_AUTONOMOUS 0
       (se_onAutowareState AutowareState_DRIVING 0
         (se_onCurrentGateMode GateMode_AUTO 0
           (se_onDiagArray \<lparr>da_stamp = 0, da_status = [se_ex_diag]\<rparr> 0 se_ex_start)))"

lemma se_ex_running_reachable: "se_reachable p se_ex_start se_ex_running"
proof -
  have "se_reachable p se_ex_start (se_onDiagArray \<lparr>da_stamp = 0, da_status = [se_ex_diag]\<rparr> 0 se_ex_start)"
    by (rule se_reachable_step [OF se_reachable_init, where ev = "SE_DiagArray _" and t = 0])
      (simp only: se_handle.simps)
  then have "se_reachable p se_ex_start (se_onCurrentGateMode GateMode_AUTO 0
      (se_onDiagArray \<lparr>da_stamp = 0, da_status = [se_ex_diag]\<rparr> 0 se_ex_start))"
    by (rule se_reachable_step [where ev = "SE_GateMode _" and t = 0]) (simp only: se_handle.simps)
  then have "se_reachable p se_ex_start (se_onAutowareState AutowareState_DRIVING 0
      (se_onCurrentGateMode GateMode_AUTO 0
        (se_onDiagArray \<lparr>da_stamp = 0, da_status = [se_ex_diag]\<rparr> 0 se_ex_start)))"
    by (rule se_reachable_step [where ev = "SE_AutowareState _" and t = 0]) (simp only: se_handle.simps)
  then show ?thesis unfolding se_ex_running_def
    by (rule se_reachable_step [where ev = "SE_ControlMode _" and t = 0]) (simp only: se_handle.simps)
qed

lemmas se_ex_state_defs = se_ex_running_def se_sub_defs se_ex_start_def se_blank_def

lemma se_ex_running_facts:
  "se_isDataReady se_ex_running"
  "\<not> se_isDataHeartbeatTimeout se_ex_param 1000 se_ex_running"
  "se_hazard_status se_ex_running = hazard_status_new"
  "\<not> se_ignoring se_ex_running"
  "se_modules (se_select_mode se_ex_running) = [se_ex_module False]"
  "se_control_mode se_ex_running = ControlMode_AUTONOMOUS"
  by (simp_all add: se_ex_state_defs se_isDataReady_def se_isDataHeartbeatTimeout_def
      se_isTimeout_def se_ex_param_def seconds_def se_ignoring_def se_isInNoFaultCondition_def
      se_modules_def se_select_mode_def se_keys)

lemma se_ex_param_facts:
  "sp_emergency_hazard_level se_ex_param = 2" "sp_use_emergency_hold se_ex_param"
  "sp_hazard_recovery_timeout se_ex_param = 5"
  by (simp_all add: se_ex_param_def)

lemma se_ex_level: "se_module_level se_ex_param 1000 (se_select_mode se_ex_running) (se_ex_module False)
    = SINGLE_POINT_FAULT"
proof -
  have latest: "se_getLatestDiag (se_select_mode se_ex_running) ''control'' =
      Some \<lparr>dg_stamp = 0, dg_status = se_ex_diag\<rparr>"
    by (simp add: se_getLatestDiag_def se_select_mode_def se_ex_state_defs se_push_diag_def
        se_ex_diag_def keep_last_def se_diag_buffer_size_def Let_def)
  have "se_level (se_ex_module False) DL_ERROR = SINGLE_POINT_FAULT"
    by (simp add: se_level_def se_over_def se_ex_module_def se_icase_match_def se_tolower_def
        Let_def severity_defs)
  with latest show ?thesis
    by (simp add: se_module_level_def se_ex_module_def se_ex_param_def seconds_def se_ex_diag_def)
qed

section \<open>Properties\<close>

text \<open>C9: A monitor whose required modules are configured with valid level names never throws in any
  state it can reach, whatever messages arrive; the only exception is the service
  \<open>clear_emergency\<close> before the first regular timer tick.\<close>

theorem se_no_exception:
  assumes "se_construct list_parameters params t0 = Inr s0"
    and "\<forall>ms \<in> ran (se_required_modules_map s0). \<forall>m \<in> set ms. se_config_ok m"
    and "se_reachable p s0 s" and "ev = SE_ClearEmergency \<longrightarrow> se_current_mode s \<noteq> []"
  shows "\<exists>s' outs. se_handle p t ev s = Inr (s', outs)"
  using se_handle_wf [OF se_reachable_wf [OF assms(3) se_construct_wf [OF assms(1,2)]] assms(4)]
  by blast

theorem se_no_exception_witness:
  "\<exists>s' outs. se_handle se_ex_param 1000 SE_Timer se_ex_running = Inr (s', outs)"
  by (rule se_no_exception [OF se_ex_construct se_ex_configs se_ex_running_reachable]) simp

text \<open>\<open>clear_emergency\<close> called before the monitor has made its first regular tick throws
  \<open>out_of_range\<close>: the current mode is still the empty string, which is no key of the required
  modules.\<close>

theorem se_clear_before_first_tick_throws:
  assumes "se_construct list_parameters params t0 = Inr s0"
    and "\<forall>ms \<in> ran (se_required_modules_map s0). \<forall>m \<in> set ms. se_config_ok m"
    and "se_reachable p s0 s" and "\<not> se_isDataReady s"
  shows "se_onClearEmergencyService p t s = Inl (SE_OutOfRange [])"
proof -
  have wf: "se_wf s" by (rule se_reachable_wf [OF assms(3) se_construct_wf [OF assms(1,2)]])
  with assms(4) have "se_current_mode s = []" by (auto simp: se_wf_def se_mode_set_def)
  with wf show ?thesis by (rule se_clear_early)
qed

theorem se_clear_before_first_tick_throws_witness:
  "se_onClearEmergencyService se_ex_param 0 se_ex_start = Inl (SE_OutOfRange [])"
  by (rule se_clear_before_first_tick_throws [OF se_ex_construct se_ex_configs se_reachable_init])
    (simp add: se_ex_start_def se_blank_def se_isDataReady_def)

lemma se_regular_tick:
  assumes wf: "se_wf s" and ready: "se_isDataReady s" and alive: "\<not> se_isDataHeartbeatTimeout p t s"
    and free: "\<not> hs_emergency_holding (se_hazard_status s)"
  shows "\<exists>hs s'. s' = se_finish p t (se_judged hs (se_select_mode s)) \<and>
    se_onTimer p t s = Inr (s', se_publishHazardStatus t (se_hazard_status s')) \<and>
    hs_level hs = se_judged_level p t (se_select_mode s) \<and>
    (\<forall>m \<in> set (se_modules (se_select_mode s)).
       se_module_level p t (se_select_mode s) m \<noteq> NO_FAULT \<longrightarrow>
       se_listed (dc_name m) (se_module_level p t (se_select_mode s) m) hs)"
proof -
  have "\<not> hs_emergency_holding (se_hazard_status (se_select_mode s))"
    using free by (simp add: se_select_mode_def)
  from se_update_judging [OF se_select_mode_wf [OF wf ready] this, of p t] show ?thesis
    using ready alive by (auto simp: se_onTimer_cases)
qed

lemma se_finish_status:
  "hs_level (se_hazard_status (se_finish p t s)) = hs_level (se_hazard_status s)"
  "hs_emergency (se_hazard_status (se_finish p t s)) =
     se_level_reaches (sp_emergency_hazard_level p) (hs_level (se_hazard_status s))"
  by (simp_all add: se_finish_def Let_def se_set_holding_def frame_simps)


lemma se_judged_status [simp]: "hs_level (se_hazard_status (se_judged hs s)) = hs_level hs"
  by (simp add: se_judged_def)

text \<open>C10: When the inputs are alive and nothing is held, a tick publishes as hazard level the worst
  level of the required modules of the current gate mode - each judged from its latest
  diagnostic, a missing or too old one counting as STALE - or NO_FAULT while Autoware is in a
  state in which faults are ignored; the emergency flag says whether that level reaches the
  configured emergency level.\<close>

theorem se_publishes_worst_level:
  assumes "se_construct list_parameters params t0 = Inr s0"
    and "\<forall>ms \<in> ran (se_required_modules_map s0). \<forall>m \<in> set ms. se_config_ok m"
    and "se_reachable p s0 s" and "se_isDataReady s" and "\<not> se_isDataHeartbeatTimeout p t s"
    and "\<not> hs_emergency_holding (se_hazard_status s)"
  shows "\<exists>s'. se_onTimer p t s = Inr (s', se_publishHazardStatus t (se_hazard_status s')) \<and>
    hs_level (se_hazard_status s') =
      (if se_ignoring s then NO_FAULT
       else Max (insert NO_FAULT
         (se_module_level p t (se_select_mode s) ` set (se_modules (se_select_mode s))))) \<and>
    (hs_emergency (se_hazard_status s') \<longleftrightarrow>
       se_level_reaches (sp_emergency_hazard_level p) (hs_level (se_hazard_status s')))"
proof -
  have "se_ignoring (se_select_mode s) = se_ignoring s"
    by (simp add: se_ignoring_def se_select_mode_def)
  with se_regular_tick [OF se_reachable_wf [OF assms(3) se_construct_wf [OF assms(1,2)]] assms(4-6)]
  show ?thesis by (auto simp: se_finish_status se_judged_level_def)
qed

theorem se_publishes_worst_level_witness:
  "\<exists>s' outs. se_onTimer se_ex_param 1000 se_ex_running = Inr (s', outs) \<and>
     hs_level (se_hazard_status s') = SINGLE_POINT_FAULT \<and> hs_emergency (se_hazard_status s')"
proof -
  have "\<not> hs_emergency_holding (se_hazard_status se_ex_running)"
    by (simp add: se_ex_running_facts hazard_status_new_def)
  from se_publishes_worst_level [OF se_ex_construct se_ex_configs se_ex_running_reachable
      se_ex_running_facts(1,2) this]
  show ?thesis
    by (auto simp: se_ex_running_facts se_ex_level se_level_reaches_def se_ex_param_facts)
qed







end
