(* ===== verification/Emergency_Handler.thy ===== *)
theory Emergency_Handler
  imports Watchdog
begin

text \<open>
  \<open>system/emergency_handler\<close>: decides from the hazard status whether the vehicle is in an
  emergency, keeps the MRM state machine (NORMAL, MRM_OPERATING, MRM_SUCCEEDED, MRM_FAILED),
  chooses the MRM behaviour and calls the MRM operators.

  One definition per member function of \<open>EmergencyHandler\<close>.  The members of the class are
  the fields of \<open>eh_state\<close>, the parameters those of \<open>eh_param\<close>.  A callback takes the clock
  reading \<open>t\<close> (every \<open>now()\<close> of one callback gives that reading) and returns the new state
  and what it publishes or calls, in order.  An exception of the source is an \<open>Inl\<close> value.
  The results of the two service calls are only logged by the source and do not appear.
\<close>

section \<open>Data\<close>

record eh_param =
  ep_timeout_hazard_status :: real
  ep_timeout_takeover_request :: real
  ep_use_takeover_request :: bool
  ep_use_parking_after_stopped :: bool
  ep_use_comfortable_stop :: bool
  ep_turning_hazard_on_emergency :: bool

record eh_state =
  eh_hazard_status :: "hazard_status option"
  eh_stamp_hazard_status :: time
  eh_prev_control_command :: control_command
  eh_odom_vx :: real
  eh_control_mode :: control_mode
  eh_comfortable_stop_status :: mrm_behavior_status
  eh_emergency_stop_status :: mrm_behavior_status
  eh_mrm_state :: mrm_state
  eh_takeover_requested_time :: time
  eh_is_takeover_request :: bool

datatype eh_out =
    EH_PubHazardLights hazard_lights
  | EH_PubGear time gear
  | EH_PubMrmState mrm_state
  | EH_OperateComfortableStop bool
  | EH_OperateEmergencyStop bool

datatype eh_error = EH_InvalidState mrm_state_kind

text \<open>
  The constructor creates empty messages for the inputs that have not arrived; the zero
  values of their constant fields are arguments.
\<close>

definition eh_init ::
  "control_mode \<Rightarrow> mrm_behavior_status \<Rightarrow> mrm_behavior_status \<Rightarrow> time \<Rightarrow> eh_state" where
  "eh_init mode comfortable emergency t =
     \<lparr>eh_hazard_status = None, eh_stamp_hazard_status = 0,
      eh_prev_control_command = control_command_new, eh_odom_vx = 0, eh_control_mode = mode,
      eh_comfortable_stop_status = comfortable, eh_emergency_stop_status = emergency,
      eh_mrm_state =
        \<lparr>ms_stamp = t, ms_state = MrmState_NORMAL, ms_behavior = MrmState_NONE\<rparr>,
      eh_takeover_requested_time = 0, eh_is_takeover_request = False\<rparr>"

section \<open>Subscriptions\<close>

definition eh_onHazardStatusStamped :: "hazard_status \<Rightarrow> time \<Rightarrow> eh_state \<Rightarrow> eh_state" where
  "eh_onHazardStatusStamped msg t s =
     s\<lparr>eh_hazard_status := Some msg, eh_stamp_hazard_status := t\<rparr>"

definition eh_onPrevControlCommand :: "control_command \<Rightarrow> eh_state \<Rightarrow> eh_state" where
  "eh_onPrevControlCommand msg s = s\<lparr>eh_prev_control_command := msg\<rparr>"

definition eh_onOdometry :: "real \<Rightarrow> eh_state \<Rightarrow> eh_state" where
  "eh_onOdometry vx s = s\<lparr>eh_odom_vx := vx\<rparr>"

definition eh_onControlMode :: "control_mode \<Rightarrow> eh_state \<Rightarrow> eh_state" where
  "eh_onControlMode m s = s\<lparr>eh_control_mode := m\<rparr>"

definition eh_onMrmComfortableStopStatus :: "mrm_behavior_status \<Rightarrow> eh_state \<Rightarrow> eh_state" where
  "eh_onMrmComfortableStopStatus m s = s\<lparr>eh_comfortable_stop_status := m\<rparr>"

definition eh_onMrmEmergencyStopStatus :: "mrm_behavior_status \<Rightarrow> eh_state \<Rightarrow> eh_state" where
  "eh_onMrmEmergencyStopStatus m s = s\<lparr>eh_emergency_stop_status := m\<rparr>"

section \<open>Checks\<close>

definition eh_isEmergency :: "hazard_status \<Rightarrow> bool" where
  "eh_isEmergency hs \<longleftrightarrow> hs_emergency hs \<or> hs_emergency_holding hs"

definition eh_isStopped :: "eh_state \<Rightarrow> bool" where
  "eh_isStopped s \<longleftrightarrow> eh_odom_vx s < 1 / 1000"

definition eh_isDataReady :: "eh_param \<Rightarrow> eh_state \<Rightarrow> bool" where
  "eh_isDataReady p s =
     (if eh_hazard_status s = None then False
      else if ep_use_comfortable_stop p \<and>
              eh_comfortable_stop_status s = MrmBehaviorStatus_NOT_AVAILABLE then False
      else if eh_emergency_stop_status s = MrmBehaviorStatus_NOT_AVAILABLE then False
      else True)"

definition eh_isHazardStatusTimeout :: "eh_param \<Rightarrow> time \<Rightarrow> eh_state \<Rightarrow> bool" where
  "eh_isHazardStatusTimeout p t s \<longleftrightarrow>
     ep_timeout_hazard_status p < seconds (t - eh_stamp_hazard_status s)"

section \<open>Publishing\<close>

definition eh_createHazardCmdMsg :: "eh_param \<Rightarrow> hazard_status \<Rightarrow> hazard_lights" where
  "eh_createHazardCmdMsg p hs =
     (let is_emergency = eh_isEmergency hs in
      if hs_emergency_holding hs then Hazard_ENABLE
      else if is_emergency \<and> ep_turning_hazard_on_emergency p then Hazard_ENABLE
      else Hazard_NO_COMMAND)"

definition eh_publishControlCommands ::
  "eh_param \<Rightarrow> time \<Rightarrow> hazard_status \<Rightarrow> eh_state \<Rightarrow> eh_out list" where
  "eh_publishControlCommands p t hs s =
     [EH_PubHazardLights (eh_createHazardCmdMsg p hs),
      EH_PubGear t
        (if ep_use_parking_after_stopped p \<and> eh_isStopped s then Gear_PARK else Gear_DRIVE)]"

definition eh_publishMrmState :: "time \<Rightarrow> eh_state \<Rightarrow> eh_state \<times> eh_out list" where
  "eh_publishMrmState t s =
     (let m = (eh_mrm_state s)\<lparr>ms_stamp := t\<rparr>
      in (s\<lparr>eh_mrm_state := m\<rparr>, [EH_PubMrmState m]))"

section \<open>Operating the MRM behaviours\<close>

definition eh_callMrmBehavior :: "mrm_behavior \<Rightarrow> eh_out list" where
  "eh_callMrmBehavior b =
     (if b = MrmState_NONE then []
      else if b = MrmState_COMFORTABLE_STOP then [EH_OperateComfortableStop True]
      else if b = MrmState_EMERGENCY_STOP then [EH_OperateEmergencyStop True]
      else [])"

definition eh_cancelMrmBehavior :: "mrm_behavior \<Rightarrow> eh_out list" where
  "eh_cancelMrmBehavior b =
     (if b = MrmState_NONE then []
      else if b = MrmState_COMFORTABLE_STOP then [EH_OperateComfortableStop False]
      else if b = MrmState_EMERGENCY_STOP then [EH_OperateEmergencyStop False]
      else [])"

definition eh_getCurrentMrmBehavior ::
  "eh_param \<Rightarrow> hazard_status \<Rightarrow> eh_state \<Rightarrow> mrm_behavior" where
  "eh_getCurrentMrmBehavior p hs s =
     (let level = hs_level hs; behavior = ms_behavior (eh_mrm_state s) in
      if behavior = MrmState_NONE \<and> level = LATENT_FAULT then
        (if ep_use_comfortable_stop p then MrmState_COMFORTABLE_STOP else MrmState_EMERGENCY_STOP)
      else if behavior = MrmState_NONE \<and> level = SINGLE_POINT_FAULT then MrmState_EMERGENCY_STOP
      else if behavior = MrmState_COMFORTABLE_STOP \<and> level = SINGLE_POINT_FAULT then
        MrmState_EMERGENCY_STOP
      else behavior)"

definition eh_set_behavior :: "mrm_behavior \<Rightarrow> eh_state \<Rightarrow> eh_state" where
  "eh_set_behavior b s = s\<lparr>eh_mrm_state := (eh_mrm_state s)\<lparr>ms_behavior := b\<rparr>\<rparr>"

definition eh_set_state :: "mrm_state_kind \<Rightarrow> eh_state \<Rightarrow> eh_state" where
  "eh_set_state k s = s\<lparr>eh_mrm_state := (eh_mrm_state s)\<lparr>ms_state := k\<rparr>\<rparr>"

definition eh_operateMrm ::
  "eh_param \<Rightarrow> hazard_status \<Rightarrow> eh_state \<Rightarrow> eh_state \<times> eh_out list" where
  "eh_operateMrm p hs s =
     (let state = ms_state (eh_mrm_state s); behavior = ms_behavior (eh_mrm_state s) in
      if state = MrmState_NORMAL then
        (if MrmState_NONE \<noteq> behavior
         then (eh_set_behavior MrmState_NONE s, eh_cancelMrmBehavior behavior)
         else (s, []))
      else if state = MrmState_MRM_OPERATING then
        (let current = eh_getCurrentMrmBehavior p hs s in
         if current \<noteq> behavior
         then (eh_set_behavior current s,
               eh_cancelMrmBehavior behavior @ eh_callMrmBehavior current)
         else (s, []))
      else (s, []))"

section \<open>State machine\<close>

definition eh_state2string :: "mrm_state_kind \<Rightarrow> eh_error + string" where
  "eh_state2string k =
     (case k of
        MrmState_NORMAL \<Rightarrow> Inr ''NORMAL''
      | MrmState_MRM_OPERATING \<Rightarrow> Inr ''MRM_OPERATING''
      | MrmState_MRM_SUCCEEDED \<Rightarrow> Inr ''MRM_SUCCEEDED''
      | MrmState_MRM_FAILED \<Rightarrow> Inr ''MRM_FAILED''
      | _ \<Rightarrow> Inl (EH_InvalidState k))"

definition eh_transitionTo :: "mrm_state_kind \<Rightarrow> eh_state \<Rightarrow> eh_error + eh_state" where
  "eh_transitionTo new s =
     (case eh_state2string (ms_state (eh_mrm_state s)) of
        Inl e \<Rightarrow> Inl e
      | Inr _ \<Rightarrow>
          (case eh_state2string new of Inl e \<Rightarrow> Inl e | Inr _ \<Rightarrow> Inr (eh_set_state new s)))"

definition eh_updateMrmState ::
  "eh_param \<Rightarrow> time \<Rightarrow> hazard_status \<Rightarrow> eh_state \<Rightarrow> eh_error + eh_state" where
  "eh_updateMrmState p t hs s =
     (let is_emergency = eh_isEmergency hs;
          is_auto_mode = (eh_control_mode s = ControlMode_AUTONOMOUS);
          is_takeover_done = (eh_control_mode s = ControlMode_MANUAL);
          state = ms_state (eh_mrm_state s)
      in
      if state = MrmState_NORMAL then
        (if is_auto_mode \<and> is_emergency then
           (if ep_use_takeover_request p
            then Inr (s\<lparr>eh_takeover_requested_time := t, eh_is_takeover_request := True\<rparr>)
            else eh_transitionTo MrmState_MRM_OPERATING s)
         else Inr s)
      else if \<not> is_emergency then eh_transitionTo MrmState_NORMAL s
      else if is_takeover_done then eh_transitionTo MrmState_NORMAL s
      else if eh_is_takeover_request s then
        (if ep_timeout_takeover_request p < seconds (t - eh_takeover_requested_time s)
         then eh_transitionTo MrmState_MRM_OPERATING s
         else Inr s)
      else if state = MrmState_MRM_OPERATING then
        (if eh_isStopped s then eh_transitionTo MrmState_MRM_SUCCEEDED s else Inr s)
      else if state = MrmState_MRM_SUCCEEDED then Inr s
      else if state = MrmState_MRM_FAILED then Inr s
      else Inl (EH_InvalidState state))"

definition eh_onTimer ::
  "eh_param \<Rightarrow> time \<Rightarrow> eh_state \<Rightarrow> eh_error + (eh_state \<times> eh_out list)" where
  "eh_onTimer p t s =
     (case eh_hazard_status s of
        None \<Rightarrow> Inr (s, [])
      | Some hs \<Rightarrow>
          if \<not> eh_isDataReady p s then Inr (s, [])
          else if eh_isHazardStatusTimeout p t s then
            (let s1 = eh_set_state MrmState_MRM_OPERATING s
             in Inr (s1, eh_publishControlCommands p t hs s1))
          else
            (case eh_updateMrmState p t hs s of
               Inl e \<Rightarrow> Inl e
             | Inr s1 \<Rightarrow>
                 (let outs1 = eh_publishControlCommands p t hs s1;
                      (s2, outs2) = eh_operateMrm p hs s1;
                      (s3, outs3) = eh_publishMrmState t s2
                  in Inr (s3, outs1 @ outs2 @ outs3))))"

section \<open>Events and runs\<close>

text \<open>
  The callbacks of the node as one step function, and the states the node can reach when the
  executor runs them in any order at any times.
\<close>

datatype eh_event =
    EH_HazardStatus hazard_status
  | EH_PrevControlCommand control_command
  | EH_Odometry real
  | EH_ControlMode control_mode
  | EH_ComfortableStopStatus mrm_behavior_status
  | EH_EmergencyStopStatus mrm_behavior_status
  | EH_Timer

fun eh_handle ::
  "eh_param \<Rightarrow> time \<Rightarrow> eh_event \<Rightarrow> eh_state \<Rightarrow> eh_error + (eh_state \<times> eh_out list)" where
  "eh_handle p t (EH_HazardStatus m) s = Inr (eh_onHazardStatusStamped m t s, [])"
| "eh_handle p t (EH_PrevControlCommand m) s = Inr (eh_onPrevControlCommand m s, [])"
| "eh_handle p t (EH_Odometry v) s = Inr (eh_onOdometry v s, [])"
| "eh_handle p t (EH_ControlMode m) s = Inr (eh_onControlMode m s, [])"
| "eh_handle p t (EH_ComfortableStopStatus m) s = Inr (eh_onMrmComfortableStopStatus m s, [])"
| "eh_handle p t (EH_EmergencyStopStatus m) s = Inr (eh_onMrmEmergencyStopStatus m s, [])"
| "eh_handle p t EH_Timer s = eh_onTimer p t s"

inductive eh_reachable :: "eh_param \<Rightarrow> eh_state \<Rightarrow> bool" for p where
  eh_reachable_init: "eh_reachable p (eh_init mode c e t)"
| eh_reachable_step:
    "eh_reachable p s \<Longrightarrow> eh_handle p t ev s = Inr (s', outs) \<Longrightarrow> eh_reachable p s'"

lemmas eh_sub_defs = eh_onHazardStatusStamped_def eh_onPrevControlCommand_def
  eh_onOdometry_def eh_onControlMode_def eh_onMrmComfortableStopStatus_def
  eh_onMrmEmergencyStopStatus_def

lemmas eh_mrm_defs = eh_operateMrm_def eh_publishMrmState_def eh_set_behavior_def
  eh_getCurrentMrmBehavior_def

declare eh_onTimer_def [handler_defs] eh_updateMrmState_def [handler_defs]
  eh_operateMrm_def [handler_defs] eh_publishMrmState_def [handler_defs]


section \<open>Well-formedness of the reachable states\<close>

text \<open>
  The node itself never enters MRM_FAILED, and holds only the behaviours it can operate.
\<close>

definition eh_wf :: "eh_param \<Rightarrow> eh_state \<Rightarrow> bool" where
  "eh_wf p s \<longleftrightarrow>
     ms_state (eh_mrm_state s) \<in>
       {MrmState_NORMAL, MrmState_MRM_OPERATING, MrmState_MRM_SUCCEEDED} \<and>
     ms_behavior (eh_mrm_state s) \<in>
       {MrmState_NONE, MrmState_EMERGENCY_STOP} \<union>
       (if ep_use_comfortable_stop p then {MrmState_COMFORTABLE_STOP} else {})"

lemma eh_wf_init: "eh_wf p (eh_init mode c e t)"
  by (simp add: eh_wf_def eh_init_def)

lemma eh_handle_frame:
  assumes "ev \<noteq> EH_Timer" and "eh_handle p t ev s = Inr (s', outs)"
  shows "eh_mrm_state s' = eh_mrm_state s \<and> outs = [] \<and>
    eh_is_takeover_request s' = eh_is_takeover_request s"
  using assms by (cases ev) (auto simp: eh_sub_defs)

lemma eh_wf_sub [inv_intros]:
  assumes "eh_wf p s" and "ev \<noteq> EH_Timer" and "eh_handle p t ev s = Inr (s', outs)"
  shows "eh_wf p s'"
  using assms(1) eh_handle_frame [OF assms(2,3)] by (simp add: eh_wf_def)

lemma eh_set_state_simps [simp]:
  "ms_state (eh_mrm_state (eh_set_state k s)) = k"
  "ms_behavior (eh_mrm_state (eh_set_state k s)) = ms_behavior (eh_mrm_state s)"
  "eh_hazard_status (eh_set_state k s) = eh_hazard_status s"
  by (simp_all add: eh_set_state_def)

lemma eh_transitionTo_valid:
  assumes "eh_wf p s" and "k \<in> {MrmState_NORMAL, MrmState_MRM_OPERATING, MrmState_MRM_SUCCEEDED}"
  shows "eh_transitionTo k s = Inr (eh_set_state k s)"
  using assms by (auto simp: eh_transitionTo_def eh_state2string_def eh_wf_def)

text \<open>
  The state machine in one equation: on a well-formed state \<open>updateMrmState\<close> does not throw,
  and this is the state it moves to.
\<close>

definition eh_next_state ::
  "eh_param \<Rightarrow> time \<Rightarrow> hazard_status \<Rightarrow> eh_state \<Rightarrow> mrm_state_kind" where
  "eh_next_state p t hs s =
     (let state = ms_state (eh_mrm_state s) in
      if state = MrmState_NORMAL then
        (if eh_control_mode s = ControlMode_AUTONOMOUS \<and> eh_isEmergency hs \<and>
            \<not> ep_use_takeover_request p
         then MrmState_MRM_OPERATING else MrmState_NORMAL)
      else if \<not> eh_isEmergency hs \<or> eh_control_mode s = ControlMode_MANUAL then MrmState_NORMAL
      else if eh_is_takeover_request s then
        (if ep_timeout_takeover_request p < seconds (t - eh_takeover_requested_time s)
         then MrmState_MRM_OPERATING else state)
      else if state = MrmState_MRM_OPERATING \<and> eh_isStopped s then MrmState_MRM_SUCCEEDED
      else state)"

lemma eh_set_state_same [simp]: "ms_state (eh_mrm_state s) = k \<Longrightarrow> eh_set_state k s = s"
  by (simp add: eh_set_state_def)

lemma eh_updateMrmState_ok:
  assumes "eh_wf p s"
  shows "\<exists>s1. eh_updateMrmState p t hs s = Inr s1 \<and>
    eh_mrm_state s1 = (eh_mrm_state s)\<lparr>ms_state := eh_next_state p t hs s\<rparr> \<and>
    eh_hazard_status s1 = eh_hazard_status s \<and> eh_odom_vx s1 = eh_odom_vx s \<and>
    eh_control_mode s1 = eh_control_mode s"
proof -
  note T = eh_transitionTo_valid [OF assms]
  show ?thesis
    using assms
    by (auto simp: eh_updateMrmState_def eh_next_state_def Let_def T eh_wf_def eh_set_state_def)
qed

lemma eh_next_state_wf:
  "eh_wf p s \<Longrightarrow> eh_next_state p t hs s \<in>
     {MrmState_NORMAL, MrmState_MRM_OPERATING, MrmState_MRM_SUCCEEDED}"
  by (auto simp: eh_next_state_def eh_wf_def Let_def)

section \<open>One timer tick\<close>

text \<open>
  The choice of the behaviour as a function of the severity and the behaviour in force, and
  the service calls that switch from one behaviour to another.
\<close>

definition eh_escalate :: "eh_param \<Rightarrow> hazard_level \<Rightarrow> mrm_behavior \<Rightarrow> mrm_behavior" where
  "eh_escalate p level b =
     (if b = MrmState_NONE \<and> level = LATENT_FAULT \<and> ep_use_comfortable_stop p
      then MrmState_COMFORTABLE_STOP
      else if b = MrmState_NONE \<and> LATENT_FAULT \<le> level then MrmState_EMERGENCY_STOP
      else if b = MrmState_COMFORTABLE_STOP \<and> level = SINGLE_POINT_FAULT
      then MrmState_EMERGENCY_STOP
      else b)"

definition eh_next_behavior ::
  "eh_param \<Rightarrow> hazard_status \<Rightarrow> mrm_state_kind \<Rightarrow> mrm_behavior \<Rightarrow> mrm_behavior" where
  "eh_next_behavior p hs k b =
     (if k = MrmState_NORMAL then MrmState_NONE
      else if k = MrmState_MRM_OPERATING then eh_escalate p (hs_level hs) b
      else b)"

definition eh_switch :: "mrm_behavior \<Rightarrow> mrm_behavior \<Rightarrow> eh_out list" where
  "eh_switch b b' = (if b = b' then [] else eh_cancelMrmBehavior b @ eh_callMrmBehavior b')"

lemma eh_getCurrentMrmBehavior_escalate:
  "eh_getCurrentMrmBehavior p hs s = eh_escalate p (hs_level hs) (ms_behavior (eh_mrm_state s))"
  by (cases "hs_level hs")
    (simp_all add: eh_getCurrentMrmBehavior_def eh_escalate_def Let_def less_eq_hazard_level_def)

lemma eh_operateMrm_spec:
  assumes "ms_state (eh_mrm_state s) \<in>
    {MrmState_NORMAL, MrmState_MRM_OPERATING, MrmState_MRM_SUCCEEDED}"
  shows "eh_operateMrm p hs s =
    (let b = ms_behavior (eh_mrm_state s);
         b' = eh_next_behavior p hs (ms_state (eh_mrm_state s)) b
     in (eh_set_behavior b' s, eh_switch b b'))"
  using assms
  by (auto simp: eh_operateMrm_def eh_next_behavior_def eh_getCurrentMrmBehavior_escalate
      eh_switch_def Let_def eh_set_behavior_def eh_callMrmBehavior_def)

lemma eh_wf_of_state:
  "eh_wf p s \<Longrightarrow> ms_state (eh_mrm_state s) \<in>
     {MrmState_NORMAL, MrmState_MRM_OPERATING, MrmState_MRM_SUCCEEDED}"
  by (simp add: eh_wf_def)

definition eh_waiting :: "eh_param \<Rightarrow> eh_state \<Rightarrow> bool" where
  "eh_waiting p s \<longleftrightarrow> eh_hazard_status s = None \<or> \<not> eh_isDataReady p s"

lemma eh_onTimer_waiting: "eh_waiting p s \<Longrightarrow> eh_onTimer p t s = Inr (s, [])"
  by (auto simp: eh_onTimer_def eh_waiting_def split: option.splits)

lemma eh_onTimer_timeout:
  assumes "eh_hazard_status s = Some hs" "eh_isDataReady p s" "eh_isHazardStatusTimeout p t s"
  shows "eh_onTimer p t s =
    Inr (eh_set_state MrmState_MRM_OPERATING s,
         eh_publishControlCommands p t hs (eh_set_state MrmState_MRM_OPERATING s))"
  using assms by (simp add: eh_onTimer_def Let_def)

lemma eh_onTimer_alive:
  assumes wf: "eh_wf p s" and hs: "eh_hazard_status s = Some hs" and ready: "eh_isDataReady p s"
    and alive: "\<not> eh_isHazardStatusTimeout p t s"
  shows "\<exists>s'. eh_onTimer p t s =
      Inr (s', eh_publishControlCommands p t hs s @
               eh_switch (ms_behavior (eh_mrm_state s)) (ms_behavior (eh_mrm_state s')) @
               [EH_PubMrmState (eh_mrm_state s')]) \<and>
    ms_stamp (eh_mrm_state s') = t \<and>
    ms_state (eh_mrm_state s') = eh_next_state p t hs s \<and>
    ms_behavior (eh_mrm_state s') =
      eh_next_behavior p hs (eh_next_state p t hs s) (ms_behavior (eh_mrm_state s)) \<and>
    eh_hazard_status s' = Some hs \<and> eh_control_mode s' = eh_control_mode s"
proof -
  obtain s1 where s1: "eh_updateMrmState p t hs s = Inr s1"
    "eh_mrm_state s1 = (eh_mrm_state s)\<lparr>ms_state := eh_next_state p t hs s\<rparr>"
    "eh_hazard_status s1 = eh_hazard_status s" "eh_odom_vx s1 = eh_odom_vx s"
    "eh_control_mode s1 = eh_control_mode s"
    using eh_updateMrmState_ok [OF wf] by blast
  have k: "ms_state (eh_mrm_state s1) \<in>
      {MrmState_NORMAL, MrmState_MRM_OPERATING, MrmState_MRM_SUCCEEDED}"
    using eh_next_state_wf [OF wf] s1 by simp
  have pub: "eh_publishControlCommands p t hs s1 = eh_publishControlCommands p t hs s"
    using s1 by (simp add: eh_publishControlCommands_def eh_isStopped_def)
  show ?thesis
    using hs ready alive s1
    by (simp add: eh_onTimer_def eh_operateMrm_spec [OF k] pub eh_publishMrmState_def
        eh_set_behavior_def Let_def)
qed

lemma eh_next_behavior_wf:
  assumes "eh_wf p s"
  shows "eh_next_behavior p hs k (ms_behavior (eh_mrm_state s)) \<in>
    {MrmState_NONE, MrmState_EMERGENCY_STOP} \<union>
    (if ep_use_comfortable_stop p then {MrmState_COMFORTABLE_STOP} else {})"
  using assms by (auto simp: eh_wf_def eh_next_behavior_def eh_escalate_def)

lemma eh_onTimer_wf [inv_intros]:
  assumes "eh_wf p s" shows "\<exists>s' outs. eh_onTimer p t s = Inr (s', outs) \<and> eh_wf p s'"
proof (cases "eh_hazard_status s")
  case None
  with assms show ?thesis by (simp add: eh_onTimer_def)
next
  case (Some hs)
  consider "\<not> eh_isDataReady p s"
    | "eh_isDataReady p s" "eh_isHazardStatusTimeout p t s"
    | "eh_isDataReady p s" "\<not> eh_isHazardStatusTimeout p t s" by blast
  then show ?thesis
  proof cases
    case 1
    with assms show ?thesis by (simp add: eh_onTimer_waiting eh_waiting_def)
  next
    case 2
    with assms show ?thesis by (simp add: eh_onTimer_timeout [OF Some] eh_wf_def)
  next
    case 3
    from eh_onTimer_alive [OF assms Some 3] show ?thesis
      using eh_next_state_wf [OF assms] eh_next_behavior_wf [OF assms]
      unfolding eh_wf_def by (metis (no_types, lifting))
  qed
qed

lemma eh_handle_wf:
  assumes "eh_wf p s" shows "\<exists>s' outs. eh_handle p t ev s = Inr (s', outs) \<and> eh_wf p s'"
proof (cases "ev = EH_Timer")
  case True
  with eh_onTimer_wf [OF assms] show ?thesis by simp
next
  case False
  then obtain s' outs where "eh_handle p t ev s = Inr (s', outs)" by (cases ev) simp_all
  with eh_wf_sub [OF assms False] show ?thesis by blast
qed

lemma eh_reachable_wf: "eh_reachable p s \<Longrightarrow> eh_wf p s"
proof (induction rule: eh_reachable.induct)
  case (eh_reachable_init mode c e t)
  show ?case by (rule eh_wf_init)
next
  case (eh_reachable_step s t ev s' outs)
  from eh_handle_wf [OF eh_reachable_step.IH, of t ev] eh_reachable_step.hyps show ?case by simp
qed

interpretation hazard_status_input: watchdog eh_onHazardStatusStamped
  "eh_isHazardStatusTimeout p" "ep_timeout_hazard_status p"
  by unfold_locales (simp add: eh_isHazardStatusTimeout_def eh_onHazardStatusStamped_def)

section \<open>Invariants of the reachable states\<close>

definition eh_inv :: "eh_param \<Rightarrow> eh_state \<Rightarrow> bool" where
  "eh_inv p s \<longleftrightarrow> eh_wf p s \<and>
     (ms_state (eh_mrm_state s) = MrmState_NORMAL \<longrightarrow>
        ms_behavior (eh_mrm_state s) = MrmState_NONE) \<and>
     (eh_is_takeover_request s \<longrightarrow> ep_use_takeover_request p)"

lemma eh_updateMrmState_request:
  assumes "eh_updateMrmState p t hs s = Inr s1"
  shows "eh_is_takeover_request s1 \<longrightarrow> eh_is_takeover_request s \<or> ep_use_takeover_request p"
  using assms
  by (auto simp: eh_updateMrmState_def eh_transitionTo_def eh_set_state_def Let_def
      split: if_splits sum.splits)

lemma eh_onTimer_request:
  assumes "eh_onTimer p t s = Inr (s', outs)"
  shows "eh_is_takeover_request s' \<longrightarrow> eh_is_takeover_request s \<or> ep_use_takeover_request p"
  using assms
  by (auto simp: eh_onTimer_def eh_operateMrm_def eh_publishMrmState_def eh_set_behavior_def
      eh_set_state_def Let_def dest!: eh_updateMrmState_request
      split: option.splits if_splits sum.splits)

lemma eh_onTimer_normal_none:
  assumes inv: "eh_inv p s" and step: "eh_onTimer p t s = Inr (s', outs)"
    and normal: "ms_state (eh_mrm_state s') = MrmState_NORMAL"
  shows "ms_behavior (eh_mrm_state s') = MrmState_NONE"
proof (cases "eh_waiting p s")
  case True
  with inv step normal show ?thesis by (auto simp: eh_onTimer_waiting eh_inv_def)
next
  case False
  then obtain hs where hs: "eh_hazard_status s = Some hs" "eh_isDataReady p s"
    by (auto simp: eh_waiting_def)
  show ?thesis
  proof (cases "eh_isHazardStatusTimeout p t s")
    case True
    with step normal show ?thesis by (auto simp: eh_onTimer_timeout [OF hs True])
  next
    case alive: False
    from eh_onTimer_alive [OF _ hs alive] inv step normal show ?thesis
      by (auto simp: eh_inv_def eh_next_behavior_def)
  qed
qed

lemma eh_handle_inv: "eh_inv p s \<Longrightarrow> eh_handle p t ev s = Inr (s', outs) \<Longrightarrow> eh_inv p s'"
proof (cases "ev = EH_Timer")
  case True
  assume inv: "eh_inv p s" and "eh_handle p t ev s = Inr (s', outs)"
  with True have step: "eh_onTimer p t s = Inr (s', outs)" by simp
  from inv eh_onTimer_wf [of p s t] step have "eh_wf p s'" by (auto simp: eh_inv_def)
  moreover have "eh_is_takeover_request s' \<longrightarrow> ep_use_takeover_request p"
    using eh_onTimer_request [OF step] inv unfolding eh_inv_def by blast
  ultimately show ?thesis
    using eh_onTimer_normal_none [OF inv step] unfolding eh_inv_def by blast
next
  case False
  assume "eh_inv p s" and "eh_handle p t ev s = Inr (s', outs)"
  then show ?thesis using eh_handle_frame [OF False] by (simp add: eh_inv_def eh_wf_def)
qed

lemma eh_reachable_inv: "eh_reachable p s \<Longrightarrow> eh_inv p s"
proof (induction rule: eh_reachable.induct)
  case (eh_reachable_init mode c e t)
  show ?case using eh_wf_init [of p mode c e t] by (simp add: eh_inv_def eh_init_def)
next
  case (eh_reachable_step s t ev s' outs)
  then show ?case by (blast intro: eh_handle_inv)
qed

lemma eh_invD:
  "eh_inv p s \<Longrightarrow> eh_wf p s"
  "eh_inv p s \<Longrightarrow> ms_state (eh_mrm_state s) = MrmState_NORMAL \<Longrightarrow>
     ms_behavior (eh_mrm_state s) = MrmState_NONE"
  "eh_inv p s \<Longrightarrow> eh_is_takeover_request s \<Longrightarrow> ep_use_takeover_request p"
  by (simp_all add: eh_inv_def)

section \<open>A concrete run\<close>

text \<open>
  A configuration with comfortable stop enabled, a vehicle driven autonomously, both
  operators available, and a latent fault received: the states below are reachable and serve
  as the instances of the theorems.
\<close>

definition eh_ex_param :: eh_param where
  "eh_ex_param =
     \<lparr>ep_timeout_hazard_status = 1 / 2, ep_timeout_takeover_request = 10,
      ep_use_takeover_request = False, ep_use_parking_after_stopped = False,
      ep_use_comfortable_stop = True, ep_turning_hazard_on_emergency = True\<rparr>"

definition eh_ex_hazard :: "hazard_level \<Rightarrow> hazard_status" where
  "eh_ex_hazard l = hazard_status_new\<lparr>hs_level := l, hs_emergency := True\<rparr>"

definition eh_ex_state :: "hazard_level \<Rightarrow> eh_state" where
  "eh_ex_state l =
     (eh_init ControlMode_AUTONOMOUS MrmBehaviorStatus_AVAILABLE MrmBehaviorStatus_AVAILABLE 0)
       \<lparr>eh_hazard_status := Some (eh_ex_hazard l), eh_stamp_hazard_status := 0, eh_odom_vx := 5\<rparr>"

lemma eh_ex_state_reachable: "eh_reachable p (eh_ex_state l)"
proof -
  let ?s = "eh_init ControlMode_AUTONOMOUS MrmBehaviorStatus_AVAILABLE
    MrmBehaviorStatus_AVAILABLE 0"
  have "eh_reachable p (eh_onHazardStatusStamped (eh_ex_hazard l) 0 ?s)"
    by (rule eh_reachable_step [OF eh_reachable_init, where ev = "EH_HazardStatus _"])
      (simp only: eh_handle.simps)
  then have "eh_reachable p (eh_onOdometry 5 (eh_onHazardStatusStamped (eh_ex_hazard l) 0 ?s))"
    by (rule eh_reachable_step [where ev = "EH_Odometry 5"]) (simp only: eh_handle.simps)
  then show ?thesis by (simp add: eh_ex_state_def eh_sub_defs eh_init_def)
qed

lemmas eh_ex_defs = eh_ex_state_def eh_ex_hazard_def eh_ex_param_def eh_init_def

lemma eh_ex_state_facts:
  "eh_hazard_status (eh_ex_state l) = Some (eh_ex_hazard l)"
  "eh_isDataReady eh_ex_param (eh_ex_state l)"
  "\<not> eh_isHazardStatusTimeout eh_ex_param 1000 (eh_ex_state l)"
  "eh_isEmergency (eh_ex_hazard l)"
  "hs_level (eh_ex_hazard l) = l"
  "eh_control_mode (eh_ex_state l) = ControlMode_AUTONOMOUS"
  "ms_state (eh_mrm_state (eh_ex_state l)) = MrmState_NORMAL"
  by (simp_all add: eh_ex_defs eh_isDataReady_def eh_isHazardStatusTimeout_def
      eh_isEmergency_def seconds_def)

lemma eh_ex_next: "eh_next_state eh_ex_param t (eh_ex_hazard l) (eh_ex_state l) = MrmState_MRM_OPERATING"
  by (simp add: eh_next_state_def eh_ex_state_facts) (simp add: eh_ex_param_def)

lemma eh_ex_step:
  "\<exists>s' outs. eh_onTimer eh_ex_param 1000 (eh_ex_state l) = Inr (s', outs) \<and>
     ms_state (eh_mrm_state s') = MrmState_MRM_OPERATING"
  using eh_onTimer_alive [OF eh_reachable_wf [OF eh_ex_state_reachable]
      eh_ex_state_facts(1) [of l] eh_ex_state_facts(2) [of l] eh_ex_state_facts(3) [of l]]
  by (auto simp: eh_ex_next)

section \<open>Properties\<close>

text \<open>C2: In every state the emergency handler can reach, no callback throws (the
  \<open>invalid state\<close> exceptions of \<open>transitionTo\<close> and \<open>updateMrmState\<close> are unreachable), the
  state after it is NORMAL, MRM_OPERATING or MRM_SUCCEEDED, and a NORMAL state has no MRM
  behaviour in force.\<close>

theorem eh_no_exception:
  assumes "eh_reachable p s"
  shows "\<exists>s' outs. eh_handle p t ev s = Inr (s', outs) \<and>
    ms_state (eh_mrm_state s') \<in>
      {MrmState_NORMAL, MrmState_MRM_OPERATING, MrmState_MRM_SUCCEEDED} \<and>
    (ms_state (eh_mrm_state s') = MrmState_NORMAL \<longrightarrow>
       ms_behavior (eh_mrm_state s') = MrmState_NONE)"
proof -
  from eh_reachable_wf [OF assms] obtain s' outs where
    step: "eh_handle p t ev s = Inr (s', outs)" and "eh_wf p s'"
    using eh_handle_wf by blast
  moreover have "eh_inv p s'" by (rule eh_handle_inv [OF eh_reachable_inv [OF assms] step])
  ultimately show ?thesis by (auto dest: eh_wf_of_state eh_invD)
qed

theorem eh_no_exception_witness:
  "\<exists>s' outs. eh_handle eh_ex_param 1000 EH_Timer (eh_ex_state LATENT_FAULT) = Inr (s', outs)"
  using eh_no_exception [OF eh_ex_state_reachable [of eh_ex_param LATENT_FAULT],
      of 1000 EH_Timer] by blast

text \<open>C3: How the handler answers an emergency at the first timer tick. Suppose the handler is in a state it can
  reach, the MRM state is NORMAL, Autoware controls the vehicle, no takeover request is configured, and the
  hazard status received last reports an emergency (or holds one) of at least LATENT severity. If an operator
  it needs (the emergency stop operator, and with \<open>use_comfortable_stop\<close> also the other) is NOT_AVAILABLE,
  the tick does nothing at all. If all are available but the hazard status is older than its timeout, the state
  becomes MRM_OPERATING and only gear and hazard lights are published: no operator is called. Otherwise the
  state becomes MRM_OPERATING, comfortable stop is chosen exactly for a LATENT fault with
  \<open>use_comfortable_stop\<close> and emergency stop in every other case, the chosen operator is called once, and
  the MRM state is published last.\<close>

theorem eh_emergency_response:
  assumes reach: "eh_reachable p s"
    and normal: "ms_state (eh_mrm_state s) = MrmState_NORMAL"
    and driving: "eh_control_mode s = ControlMode_AUTONOMOUS"
    and hs: "eh_hazard_status s = Some hs" and emergency: "eh_isEmergency hs"
    and severe: "LATENT_FAULT \<le> hs_level hs"
    and direct: "\<not> ep_use_takeover_request p"
  shows "(\<not> eh_isDataReady p s \<longrightarrow> eh_onTimer p t s = Inr (s, [])) \<and>
    (eh_isDataReady p s \<and> eh_isHazardStatusTimeout p t s \<longrightarrow>
       eh_onTimer p t s = Inr (eh_set_state MrmState_MRM_OPERATING s,
         eh_publishControlCommands p t hs (eh_set_state MrmState_MRM_OPERATING s))) \<and>
    (eh_isDataReady p s \<and> \<not> eh_isHazardStatusTimeout p t s \<longrightarrow>
     (\<exists>s'. eh_onTimer p t s = Inr (s',
        eh_publishControlCommands p t hs s @
        (if hs_level hs = LATENT_FAULT \<and> ep_use_comfortable_stop p
         then [EH_OperateComfortableStop True] else [EH_OperateEmergencyStop True]) @
        [EH_PubMrmState (eh_mrm_state s')]) \<and>
      eh_mrm_state s' =
        \<lparr>ms_stamp = t, ms_state = MrmState_MRM_OPERATING,
         ms_behavior =
           (if hs_level hs = LATENT_FAULT \<and> ep_use_comfortable_stop p
            then MrmState_COMFORTABLE_STOP else MrmState_EMERGENCY_STOP)\<rparr>))"
proof -
  note inv = eh_reachable_inv [OF reach]
  have none: "ms_behavior (eh_mrm_state s) = MrmState_NONE"
    by (rule eh_invD(2) [OF inv normal])
  have nxt: "eh_next_state p t hs s = MrmState_MRM_OPERATING"
    using normal driving emergency direct by (simp add: eh_next_state_def)
  have "\<exists>s'. eh_onTimer p t s = Inr (s',
        eh_publishControlCommands p t hs s @
        (if hs_level hs = LATENT_FAULT \<and> ep_use_comfortable_stop p
         then [EH_OperateComfortableStop True] else [EH_OperateEmergencyStop True]) @
        [EH_PubMrmState (eh_mrm_state s')]) \<and>
      eh_mrm_state s' =
        \<lparr>ms_stamp = t, ms_state = MrmState_MRM_OPERATING,
         ms_behavior =
           (if hs_level hs = LATENT_FAULT \<and> ep_use_comfortable_stop p
            then MrmState_COMFORTABLE_STOP else MrmState_EMERGENCY_STOP)\<rparr>"
    if ready: "eh_isDataReady p s" and alive: "\<not> eh_isHazardStatusTimeout p t s"
    using eh_onTimer_alive [OF eh_invD(1) [OF inv] hs ready alive] severe
    by (auto simp: nxt none eh_next_behavior_def eh_escalate_def eh_switch_def
        eh_cancelMrmBehavior_def eh_callMrmBehavior_def intro!: mrm_state.equality)
  moreover have "eh_onTimer p t s = Inr (s, [])" if "\<not> eh_isDataReady p s"
    by (rule eh_onTimer_waiting) (simp add: eh_waiting_def that)
  moreover note eh_onTimer_timeout [OF hs, of p t]
  ultimately show ?thesis by blast
qed

theorem eh_emergency_response_witness:
  "\<exists>s'. ms_behavior (eh_mrm_state s') = MrmState_COMFORTABLE_STOP \<and>
     (\<exists>outs. eh_onTimer eh_ex_param 1000 (eh_ex_state LATENT_FAULT) = Inr (s', outs))"
  using eh_emergency_response [OF eh_ex_state_reachable eh_ex_state_facts(7,6,1,4) _, of LATENT_FAULT eh_ex_param 1000]
    eh_ex_state_facts(2,3) [of LATENT_FAULT]
  by (simp add: eh_ex_param_def eh_ex_state_facts(5)) force

fun eh_severity :: "mrm_behavior \<Rightarrow> nat" where
  "eh_severity MrmState_NONE = 0"
| "eh_severity MrmState_COMFORTABLE_STOP = 1"
| "eh_severity MrmState_EMERGENCY_STOP = 2"
| "eh_severity (MrmState_behavior_raw n) = 3"

lemma eh_escalate_mono: "eh_severity b \<le> eh_severity (eh_escalate p l b)"
  by (simp add: eh_escalate_def)

text \<open>C4: The MRM behaviour only escalates (no behaviour, comfortable stop, emergency stop) for
  as long as the handler does not return to NORMAL: a timer tick never replaces an emergency stop
  by a comfortable stop, and never drops a behaviour in force.\<close>

theorem eh_behavior_escalates:
  assumes "eh_reachable p s" and "eh_onTimer p t s = Inr (s', outs)"
    and "ms_state (eh_mrm_state s') \<noteq> MrmState_NORMAL"
  shows "eh_severity (ms_behavior (eh_mrm_state s)) \<le> eh_severity (ms_behavior (eh_mrm_state s'))"
proof (cases "eh_waiting p s")
  case True
  with assms(2) show ?thesis by (auto simp: eh_onTimer_waiting)
next
  case False
  then obtain hs where hs: "eh_hazard_status s = Some hs" "eh_isDataReady p s"
    by (auto simp: eh_waiting_def)
  show ?thesis
  proof (cases "eh_isHazardStatusTimeout p t s")
    case True
    with assms(2) show ?thesis by (auto simp: eh_onTimer_timeout [OF hs True])
  next
    case alive: False
    from eh_onTimer_alive [OF eh_reachable_wf [OF assms(1)] hs alive] assms(2,3)
    show ?thesis by (auto simp: eh_next_behavior_def eh_escalate_mono)
  qed
qed

theorem eh_behavior_escalates_witness:
  "\<exists>s' outs. eh_onTimer eh_ex_param 1000 (eh_ex_state SINGLE_POINT_FAULT) = Inr (s', outs) \<and>
     eh_severity MrmState_NONE \<le> eh_severity (ms_behavior (eh_mrm_state s'))"
proof -
  obtain s' outs where step:
    "eh_onTimer eh_ex_param 1000 (eh_ex_state SINGLE_POINT_FAULT) = Inr (s', outs)"
    and st: "ms_state (eh_mrm_state s') = MrmState_MRM_OPERATING"
    using eh_ex_step by blast
  from eh_behavior_escalates [OF eh_ex_state_reachable step] st step show ?thesis by simp
qed

text \<open>
  Runs of the node in which the hazard status is never older than its timeout when the timer
  fires.
\<close>

inductive eh_alive_trace ::
  "eh_param \<Rightarrow> eh_state \<Rightarrow> (time \<times> eh_event) list \<Rightarrow> eh_out list \<Rightarrow> eh_state \<Rightarrow> bool" for p where
  eh_alive_nil: "eh_alive_trace p s [] [] s"
| eh_alive_cons:
    "\<lbrakk>ev = EH_Timer \<longrightarrow> \<not> eh_isHazardStatusTimeout p t s;
      eh_handle p t ev s = Inr (s1, outs1); eh_alive_trace p s1 evs outs2 s2\<rbrakk>
     \<Longrightarrow> eh_alive_trace p s ((t, ev) # evs) (outs1 @ outs2) s2"

inductive_cases eh_alive_nilE: "eh_alive_trace p s [] outs s'"
inductive_simps eh_alive_cons_iff: "eh_alive_trace p s ((t, ev) # evs) outs s'"

lemma eh_takeover_step:
  assumes inv: "eh_inv p s" and takeover: "ep_use_takeover_request p"
    and normal: "ms_state (eh_mrm_state s) = MrmState_NORMAL"
    and alive: "ev = EH_Timer \<longrightarrow> \<not> eh_isHazardStatusTimeout p t s"
    and step: "eh_handle p t ev s = Inr (s', outs)"
  shows "ms_state (eh_mrm_state s') = MrmState_NORMAL \<and>
    EH_OperateComfortableStop b \<notin> set outs \<and> EH_OperateEmergencyStop b \<notin> set outs"
proof (cases "ev = EH_Timer \<and> \<not> eh_waiting p s")
  case False
  then show ?thesis
    using step normal eh_handle_frame [of ev p t s s' outs] by (cases "ev = EH_Timer") (auto simp: eh_onTimer_waiting)
next
  case True
  then obtain hs where hs: "eh_hazard_status s = Some hs" "eh_isDataReady p s"
    by (auto simp: eh_waiting_def)
  have "eh_next_state p t hs s = MrmState_NORMAL"
    using takeover normal by (simp add: eh_next_state_def)
  with eh_onTimer_alive [OF eh_invD(1) [OF inv] hs, of t] True alive step
    eh_invD(2) [OF inv normal]
  show ?thesis
    by (auto simp: eh_publishControlCommands_def eh_next_behavior_def eh_switch_def)
qed

lemma eh_takeover_trace:
  "\<lbrakk>eh_alive_trace p s evs outs s'; eh_inv p s; ep_use_takeover_request p;
    ms_state (eh_mrm_state s) = MrmState_NORMAL\<rbrakk>
   \<Longrightarrow> ms_state (eh_mrm_state s') = MrmState_NORMAL \<and>
     EH_OperateComfortableStop b \<notin> set outs \<and> EH_OperateEmergencyStop b \<notin> set outs"
proof (induction rule: eh_alive_trace.induct)
  case (eh_alive_cons ev t s s1 outs1 evs outs2 s2)
  note step = eh_alive_cons.hyps(2)
  from eh_takeover_step [OF eh_alive_cons.prems eh_alive_cons.hyps(1) step, of b]
  show ?case
    using eh_alive_cons.IH eh_handle_inv [OF eh_alive_cons.prems(1) step] eh_alive_cons.prems(2)
    by simp
qed simp

text \<open>C5: With \<open>use_takeover_request\<close> the handler never reacts to a reported emergency: as long
  as hazard status messages keep arriving, whatever they say and however long the driver does not
  react, the state stays NORMAL and no MRM operator is called.  The timeout of the takeover
  request is only examined outside NORMAL, which the request does not leave.\<close>

theorem eh_takeover_request_never_stops:
  assumes "eh_alive_trace p (eh_init mode c e t0) evs outs s'" and "ep_use_takeover_request p"
  shows "ms_state (eh_mrm_state s') = MrmState_NORMAL \<and>
    (\<forall>b. EH_OperateComfortableStop b \<notin> set outs \<and> EH_OperateEmergencyStop b \<notin> set outs)"
proof -
  have "eh_inv p (eh_init mode c e t0)"
    by (rule eh_reachable_inv [OF eh_reachable_init])
  with assms show ?thesis
    by (auto dest!: eh_takeover_trace simp: eh_init_def)
qed

definition eh_ex_takeover :: eh_param where
  "eh_ex_takeover = eh_ex_param\<lparr>ep_use_takeover_request := True\<rparr>"

theorem eh_takeover_request_never_stops_witness:
  "\<exists>outs s'. eh_alive_trace eh_ex_takeover
      (eh_init ControlMode_AUTONOMOUS MrmBehaviorStatus_AVAILABLE MrmBehaviorStatus_AVAILABLE 0)
      [(0, EH_HazardStatus (eh_ex_hazard SINGLE_POINT_FAULT)), (0, EH_Timer),
       (60000000000, EH_HazardStatus (eh_ex_hazard SINGLE_POINT_FAULT)),
       (60000000000, EH_Timer)] outs s' \<and>
    ms_state (eh_mrm_state s') = MrmState_NORMAL"
proof -
  let ?s0 = "eh_init ControlMode_AUTONOMOUS MrmBehaviorStatus_AVAILABLE
    MrmBehaviorStatus_AVAILABLE 0"
  have "\<exists>outs s'. eh_alive_trace eh_ex_takeover ?s0
      [(0, EH_HazardStatus (eh_ex_hazard SINGLE_POINT_FAULT)), (0, EH_Timer),
       (60000000000, EH_HazardStatus (eh_ex_hazard SINGLE_POINT_FAULT)),
       (60000000000, EH_Timer)] outs s'"
    by (simp add: eh_alive_cons_iff eh_ex_takeover_def eh_ex_defs eh_onTimer_def
        eh_onHazardStatusStamped_def eh_isDataReady_def eh_isHazardStatusTimeout_def
        eh_updateMrmState_def eh_isEmergency_def eh_operateMrm_def eh_publishMrmState_def Let_def)
      (auto intro: eh_alive_nil)
  then show ?thesis
    using eh_takeover_request_never_stops by (fastforce simp: eh_ex_takeover_def)
qed

text \<open>When the hazard status times out, the handler enters MRM_OPERATING but calls no MRM
  operator, leaves the behaviour it holds unchanged and does not publish the MRM state: all it
  emits are the hazard lights and the gear command.  (The README promises an emergency stop.)\<close>

theorem eh_timeout_operates_nothing:
  assumes "eh_hazard_status s = Some hs" and "eh_isDataReady p s"
    and "ep_timeout_hazard_status p < seconds (t - eh_stamp_hazard_status s)"
  shows "\<exists>s'. eh_onTimer p t s = Inr (s',
      [EH_PubHazardLights (eh_createHazardCmdMsg p hs),
       EH_PubGear t (if ep_use_parking_after_stopped p \<and> eh_isStopped s
                     then Gear_PARK else Gear_DRIVE)]) \<and>
    ms_state (eh_mrm_state s') = MrmState_MRM_OPERATING \<and>
    ms_behavior (eh_mrm_state s') = ms_behavior (eh_mrm_state s)"
  using assms
  by (simp add: eh_onTimer_timeout eh_isHazardStatusTimeout_def eh_publishControlCommands_def
      eh_isStopped_def eh_set_state_def)

theorem eh_timeout_operates_nothing_witness:
  "\<exists>s' outs. eh_onTimer eh_ex_param 2000000000 (eh_ex_state NO_FAULT) = Inr (s', outs) \<and>
     ms_state (eh_mrm_state s') = MrmState_MRM_OPERATING \<and>
     ms_behavior (eh_mrm_state s') = MrmState_NONE"
  using eh_timeout_operates_nothing [OF eh_ex_state_facts(1) [of NO_FAULT]
      eh_ex_state_facts(2) [of NO_FAULT], of 2000000000]
  by (auto simp: eh_ex_defs seconds_def)

section \<open>Refinement of the documented state diagram\<close>

text \<open>
  The diagram of the README (\<open>image/fail-safe-state.drawio.svg\<close>): its states and arcs.  The
  node has no state of its own for \<open>OverrideRequesting\<close>.
\<close>

datatype fail_safe_state =
  FS_Normal | FS_OverrideRequesting | FS_MrmOperating | FS_MrmSucceeded | FS_MrmFailed

inductive fail_safe_arc :: "fail_safe_state \<Rightarrow> fail_safe_state \<Rightarrow> bool" where
  fs_warning: "fail_safe_arc FS_Normal FS_OverrideRequesting"
| fs_emergency: "fail_safe_arc FS_Normal FS_MrmOperating"
| fs_no_reaction: "fail_safe_arc FS_OverrideRequesting FS_MrmOperating"
| fs_success: "fail_safe_arc FS_MrmOperating FS_MrmSucceeded"
| fs_failure: "fail_safe_arc FS_MrmOperating FS_MrmFailed"
| fs_recovery: "x \<noteq> FS_Normal \<Longrightarrow> fail_safe_arc x FS_Normal"

inductive_simps fail_safe_arc_normal: "fail_safe_arc FS_Normal y"
inductive_cases fail_safe_arcE: "fail_safe_arc x y"

fun eh_abs :: "mrm_state_kind \<Rightarrow> fail_safe_state" where
  "eh_abs MrmState_MRM_OPERATING = FS_MrmOperating"
| "eh_abs MrmState_MRM_SUCCEEDED = FS_MrmSucceeded"
| "eh_abs MrmState_MRM_FAILED = FS_MrmFailed"
| "eh_abs _ = FS_Normal"

lemma eh_next_state_arc:
  assumes "eh_inv p s" and "\<not> ep_use_takeover_request p"
  shows "eh_next_state p t hs s = ms_state (eh_mrm_state s) \<or>
    fail_safe_arc (eh_abs (ms_state (eh_mrm_state s))) (eh_abs (eh_next_state p t hs s))"
proof -
  from assms have no_request: "\<not> eh_is_takeover_request s" using eh_invD(3) by blast
  show ?thesis
    using eh_wf_of_state [OF eh_invD(1) [OF assms(1)]]
    by (auto simp: eh_next_state_def no_request Let_def intro: fail_safe_arc.intros)
qed

text \<open>C6: Without takeover requests and with a fresh hazard status, a timer tick of the node
  either keeps the MRM state or follows an arc of the documented state diagram.\<close>

theorem eh_refines_diagram:
  assumes reach: "eh_reachable p s" and direct: "\<not> ep_use_takeover_request p"
    and alive: "\<not> eh_isHazardStatusTimeout p t s"
    and step: "eh_onTimer p t s = Inr (s', outs)"
  shows "ms_state (eh_mrm_state s') = ms_state (eh_mrm_state s) \<or>
    fail_safe_arc (eh_abs (ms_state (eh_mrm_state s))) (eh_abs (ms_state (eh_mrm_state s')))"
proof (cases "eh_waiting p s")
  case True
  with step show ?thesis by (simp add: eh_onTimer_waiting)
next
  case False
  then obtain hs where hs: "eh_hazard_status s = Some hs" "eh_isDataReady p s"
    by (auto simp: eh_waiting_def)
  note inv = eh_reachable_inv [OF reach]
  show ?thesis
    using eh_onTimer_alive [OF eh_invD(1) [OF inv] hs alive] step
      eh_next_state_arc [OF inv direct, of t hs] by auto
qed

theorem eh_refines_diagram_witness:
  "\<exists>s' outs. eh_onTimer eh_ex_param 1000 (eh_ex_state LATENT_FAULT) = Inr (s', outs) \<and>
     fail_safe_arc FS_Normal (eh_abs (ms_state (eh_mrm_state s')))"
proof -
  obtain s' outs where step:
    "eh_onTimer eh_ex_param 1000 (eh_ex_state LATENT_FAULT) = Inr (s', outs)"
    and st: "ms_state (eh_mrm_state s') = MrmState_MRM_OPERATING"
    using eh_ex_step by blast
  have "\<not> ep_use_takeover_request eh_ex_param" by (simp add: eh_ex_param_def)
  from eh_refines_diagram [OF eh_ex_state_reachable this eh_ex_state_facts(3) step] st step
  show ?thesis by (auto simp: eh_ex_state_facts(7))
qed

text \<open>Recovery takes one tick: when the hazard status no longer reports an emergency, or the
  driver has taken over, the handler returns to NORMAL with no behaviour in force, and the
  operator of the behaviour that was in force is told to stop operating.\<close>

theorem eh_recovery:
  assumes "eh_reachable p s" and "eh_hazard_status s = Some hs" and "eh_isDataReady p s"
    and "\<not> eh_isHazardStatusTimeout p t s"
    and "ms_state (eh_mrm_state s) \<noteq> MrmState_NORMAL"
    and "\<not> eh_isEmergency hs \<or> eh_control_mode s = ControlMode_MANUAL"
  shows "\<exists>s' outs. eh_onTimer p t s = Inr (s', outs) \<and>
    eh_mrm_state s' = \<lparr>ms_stamp = t, ms_state = MrmState_NORMAL, ms_behavior = MrmState_NONE\<rparr> \<and>
    outs = eh_publishControlCommands p t hs s @
      eh_cancelMrmBehavior (ms_behavior (eh_mrm_state s)) @ [EH_PubMrmState (eh_mrm_state s')]"
proof -
  have "eh_next_state p t hs s = MrmState_NORMAL"
    using assms(5,6) by (simp add: eh_next_state_def)
  with eh_onTimer_alive [OF eh_reachable_wf [OF assms(1)] assms(2-4)] show ?thesis
    by (auto simp: eh_next_behavior_def eh_switch_def eh_cancelMrmBehavior_def
        eh_callMrmBehavior_def intro!: mrm_state.equality)
qed

theorem eh_recovery_witness:
  "\<exists>s s' outs. ms_state (eh_mrm_state s) = MrmState_MRM_OPERATING \<and>
     eh_onTimer eh_ex_param 2000 s = Inr (s', outs) \<and>
     ms_state (eh_mrm_state s') = MrmState_NORMAL"
proof -
  obtain s1 outs1 where step:
    "eh_onTimer eh_ex_param 1000 (eh_ex_state LATENT_FAULT) = Inr (s1, outs1)"
    and st: "ms_state (eh_mrm_state s1) = MrmState_MRM_OPERATING"
    using eh_ex_step by blast
  have r1: "eh_reachable eh_ex_param s1"
    using step
    by (auto intro: eh_reachable_step [OF eh_ex_state_reachable, where ev = EH_Timer and t = 1000])
  let ?s = "eh_onMrmEmergencyStopStatus MrmBehaviorStatus_AVAILABLE
    (eh_onMrmComfortableStopStatus MrmBehaviorStatus_AVAILABLE
      (eh_onHazardStatusStamped hazard_status_new 2000 s1))"
  have r2: "eh_reachable eh_ex_param (eh_onHazardStatusStamped hazard_status_new 2000 s1)"
    by (rule eh_reachable_step [OF r1, where ev = "EH_HazardStatus hazard_status_new"])
      (simp only: eh_handle.simps)
  have r3: "eh_reachable eh_ex_param (eh_onMrmComfortableStopStatus MrmBehaviorStatus_AVAILABLE
      (eh_onHazardStatusStamped hazard_status_new 2000 s1))"
    by (rule eh_reachable_step [OF r2, where ev = "EH_ComfortableStopStatus _"])
      (simp only: eh_handle.simps)
  have r4: "eh_reachable eh_ex_param ?s"
    by (rule eh_reachable_step [OF r3, where ev = "EH_EmergencyStopStatus _"])
      (simp only: eh_handle.simps)
  have "eh_hazard_status ?s = Some hazard_status_new"
    and "eh_isDataReady eh_ex_param ?s"
    and "\<not> eh_isHazardStatusTimeout eh_ex_param 2000 ?s"
    and "ms_state (eh_mrm_state ?s) \<noteq> MrmState_NORMAL"
    and "\<not> eh_isEmergency hazard_status_new \<or> eh_control_mode ?s = ControlMode_MANUAL"
    using st by (simp_all add: eh_sub_defs eh_isDataReady_def eh_isHazardStatusTimeout_def
        eh_isEmergency_def hazard_status_new_def eh_ex_param_def)
  from eh_recovery [OF r4 this] obtain s' outs where
    "eh_onTimer eh_ex_param 2000 ?s = Inr (s', outs)"
    "ms_state (eh_mrm_state s') = MrmState_NORMAL"
    by (metis mrm_state.select_convs(2))
  moreover have "ms_state (eh_mrm_state ?s) = MrmState_MRM_OPERATING"
    using st by (simp add: eh_sub_defs)
  ultimately show ?thesis by blast
qed

end
