(* ===== verification/Mrm_Operators.thy ===== *)
theory Mrm_Operators
  imports AW_Msgs
begin

text \<open>
  The two operators that carry out a minimum-risk manoeuvre (MRM):
  \<open>system/mrm_comfortable_stop_operator\<close> asks planning for a zero velocity limit, and
  \<open>system/mrm_emergency_stop_operator\<close> publishes its own decelerating control command.
  The emergency handler knows both through one service, \<open>OperateMrm\<close>; the locale
  \<open>mrm_operator\<close> states what that service promises, and both operators interpret it.

  The argument \<open>fl\<close> is the conversion of a double to a 32-bit float where the code assigns
  to a float field; \<open>float_cast\<close> collects what is used of it.
\<close>

section \<open>Conversion to float32\<close>

definition float_cast :: "(real \<Rightarrow> real) \<Rightarrow> bool" where
  "float_cast fl \<longleftrightarrow>
     mono fl \<and> fl 0 = 0 \<and> (\<forall>x. fl (- x) = - fl x) \<and> (\<forall>x. fl (fl x) = fl x)"

lemma float_cast_le: "float_cast fl \<Longrightarrow> a \<le> b \<Longrightarrow> fl a \<le> fl b"
  by (simp add: float_cast_def mono_def)

lemma float_cast_nonneg: "float_cast fl \<Longrightarrow> 0 \<le> x \<Longrightarrow> 0 \<le> fl x"
  using float_cast_le [of fl 0 x] by (simp add: float_cast_def)

lemma float_cast_uminus: "float_cast fl \<Longrightarrow> fl (- x) = - fl x"
  by (simp add: float_cast_def)

lemma float_cast_idem: "float_cast fl \<Longrightarrow> fl (fl x) = fl x"
  by (simp add: float_cast_def)

lemma float_cast_id: "float_cast (\<lambda>x. x)"
  by (simp add: float_cast_def mono_def)

section \<open>The service an MRM operator offers\<close>

text \<open>
  \<open>operate t b s\<close> is the service call with \<open>request->operate = b\<close> at time \<open>t\<close>: the
  new state, what it publishes, and \<open>response.success\<close>.  \<open>other\<close> relates the states before
  and after any other callback of the operator.
\<close>

locale mrm_operator =
  fixes operate :: "time \<Rightarrow> bool \<Rightarrow> 's \<Rightarrow> 's \<times> 'o list \<times> bool"
    and status :: "'s \<Rightarrow> mrm_behavior_status"
    and other :: "'s \<Rightarrow> 's \<Rightarrow> bool"
  assumes operate_on: "status (fst (operate t True s)) = MrmBehaviorStatus_OPERATING"
    and operate_off: "status (fst (operate t False s)) = MrmBehaviorStatus_AVAILABLE"
    and operate_success: "snd (snd (operate t b s))"
    and other_status: "other s s' \<Longrightarrow> status s' = status s"
begin

lemma operating_iff:
  "(status (fst (operate t b s)) = MrmBehaviorStatus_OPERATING) = b"
  by (cases b) (simp_all add: operate_on operate_off)

lemma operate_last_wins:
  "status (fst (operate t b (fst (operate u c s)))) = status (fst (operate t b s))"
  by (cases b) (simp_all add: operate_on operate_off)

lemma others_status: "other\<^sup>*\<^sup>* s s' \<Longrightarrow> status s' = status s"
  by (induction rule: rtranclp_induct) (simp_all add: other_status)

end

section \<open>Comfortable stop\<close>

record mcs_param =
  cp_min_acceleration :: real
  cp_max_jerk :: real
  cp_min_jerk :: real

record mcs_state =
  cs_status :: mrm_behavior_status

datatype mcs_out =
    MCS_PubStatus time mrm_behavior_status
  | MCS_PubVelocityLimit velocity_limit
  | MCS_PubVelocityLimitClear velocity_limit_clear

definition mcs_init :: mcs_state where
  "mcs_init = \<lparr>cs_status = MrmBehaviorStatus_AVAILABLE\<rparr>"

definition mcs_sender :: string where
  "mcs_sender = ''mrm_comfortable_stop_operator''"

definition mcs_publishVelocityLimit :: "(real \<Rightarrow> real) \<Rightarrow> mcs_param \<Rightarrow> time \<Rightarrow> mcs_out" where
  "mcs_publishVelocityLimit fl p t =
     MCS_PubVelocityLimit (velocity_limit_new
       \<lparr>vl_stamp := t, vl_max_velocity := Fin 0, vl_use_constraints := True,
        vl_constraints :=
          \<lparr>vc_min_acceleration = Fin (fl (cp_min_acceleration p)),
           vc_min_jerk = Fin (fl (cp_min_jerk p)), vc_max_jerk = Fin (fl (cp_max_jerk p))\<rparr>,
        vl_sender := mcs_sender\<rparr>)"

definition mcs_publishVelocityLimitClearCommand :: "time \<Rightarrow> mcs_out" where
  "mcs_publishVelocityLimitClearCommand t =
     MCS_PubVelocityLimitClear
       \<lparr>vk_stamp = t, vk_command = True, vk_sender = mcs_sender\<rparr>"

definition mcs_operateComfortableStop ::
  "(real \<Rightarrow> real) \<Rightarrow> mcs_param \<Rightarrow> time \<Rightarrow> bool \<Rightarrow> mcs_state \<Rightarrow> mcs_state \<times> mcs_out list \<times> bool" where
  "mcs_operateComfortableStop fl p t operate s =
     (if operate then
        (s\<lparr>cs_status := MrmBehaviorStatus_OPERATING\<rparr>, [mcs_publishVelocityLimit fl p t], True)
      else
        (s\<lparr>cs_status := MrmBehaviorStatus_AVAILABLE\<rparr>,
         [mcs_publishVelocityLimitClearCommand t], True))"

definition mcs_publishStatus :: "time \<Rightarrow> mcs_state \<Rightarrow> mcs_out" where
  "mcs_publishStatus t s = MCS_PubStatus t (cs_status s)"

definition mcs_onTimer :: "time \<Rightarrow> mcs_state \<Rightarrow> mcs_state \<times> mcs_out list" where
  "mcs_onTimer t s = (s, [mcs_publishStatus t s])"

inductive mcs_other :: "mcs_state \<Rightarrow> mcs_state \<Rightarrow> bool" where
  mcs_other_timer: "mcs_onTimer t s = (s', outs) \<Longrightarrow> mcs_other s s'"

interpretation comfortable: mrm_operator "mcs_operateComfortableStop fl p" cs_status mcs_other
  by unfold_locales
    (auto simp: mcs_operateComfortableStop_def mcs_onTimer_def elim!: mcs_other.cases)

section \<open>Emergency stop\<close>

record mes_param =
  xp_target_acceleration :: real
  xp_target_jerk :: real

record mes_state =
  es_status :: mrm_behavior_status
  es_prev_control_cmd :: control_command
  es_is_prev_control_cmd_subscribed :: bool

datatype mes_out =
    MES_PubStatus time mrm_behavior_status
  | MES_PubControlCommand control_command

definition mes_init :: mes_state where
  "mes_init =
     \<lparr>es_status = MrmBehaviorStatus_AVAILABLE, es_prev_control_cmd = control_command_new,
      es_is_prev_control_cmd_subscribed = False\<rparr>"

definition mes_onControlCommand :: "control_command \<Rightarrow> mes_state \<Rightarrow> mes_state" where
  "mes_onControlCommand msg s =
     (if es_status s \<noteq> MrmBehaviorStatus_OPERATING
      then s\<lparr>es_prev_control_cmd := msg, es_is_prev_control_cmd_subscribed := True\<rparr>
      else s)"

definition mes_operateEmergencyStop ::
  "time \<Rightarrow> bool \<Rightarrow> mes_state \<Rightarrow> mes_state \<times> mes_out list \<times> bool" where
  "mes_operateEmergencyStop t operate s =
     (if operate then (s\<lparr>es_status := MrmBehaviorStatus_OPERATING\<rparr>, [], True)
      else (s\<lparr>es_status := MrmBehaviorStatus_AVAILABLE\<rparr>, [], True))"

definition mes_calcTargetAcceleration ::
  "(real \<Rightarrow> real) \<Rightarrow> mes_param \<Rightarrow> time \<Rightarrow> mes_state \<Rightarrow> control_command \<Rightarrow> control_command" where
  "mes_calcTargetAcceleration fl p t s prev =
     (if \<not> es_is_prev_control_cmd_subscribed s then
        \<lparr>cc_stamp = t,
         cc_lateral =
           \<lparr>lat_stamp = t, lat_steering_tire_angle = 0, lat_steering_tire_rotation_rate = 0\<rparr>,
         cc_longitudinal =
           \<lparr>lon_stamp = t, lon_speed = 0, lon_acceleration = fl (xp_target_acceleration p),
            lon_jerk = 0\<rparr>\<rparr>
      else
        (let dt = seconds (t - cc_stamp prev);
             lon = cc_longitudinal prev
         in prev
           \<lparr>cc_stamp := t,
            cc_longitudinal :=
              \<lparr>lon_stamp = t,
               lon_speed = fl (max (lon_speed lon + lon_acceleration lon * dt) 0),
               lon_acceleration =
                 fl (max (lon_acceleration lon + xp_target_jerk p * dt) (xp_target_acceleration p)),
               lon_jerk =
                 (if lon_acceleration lon = xp_target_acceleration p then 0
                  else fl (xp_target_jerk p))\<rparr>\<rparr>))"

definition mes_onTimer ::
  "(real \<Rightarrow> real) \<Rightarrow> mes_param \<Rightarrow> time \<Rightarrow> mes_state \<Rightarrow> mes_state \<times> mes_out list" where
  "mes_onTimer fl p t s =
     (if es_status s = MrmBehaviorStatus_OPERATING then
        (let cmd = mes_calcTargetAcceleration fl p t s (es_prev_control_cmd s)
         in (s\<lparr>es_prev_control_cmd := cmd\<rparr>,
             [MES_PubControlCommand cmd, MES_PubStatus t (es_status s)]))
      else (s, [MES_PubControlCommand (es_prev_control_cmd s), MES_PubStatus t (es_status s)]))"

inductive mes_other :: "(real \<Rightarrow> real) \<Rightarrow> mes_param \<Rightarrow> mes_state \<Rightarrow> mes_state \<Rightarrow> bool"
  for fl p where
  mes_other_cmd: "mes_other fl p s (mes_onControlCommand msg s)"
| mes_other_timer: "mes_onTimer fl p t s = (s', outs) \<Longrightarrow> mes_other fl p s s'"

lemma mes_onTimer_status [frame_simps]: "es_status (fst (mes_onTimer fl p t s)) = es_status s"
  by (simp add: mes_onTimer_def Let_def)

lemma mes_onControlCommand_status [frame_simps]:
  "es_status (mes_onControlCommand msg s) = es_status s"
  by (simp add: mes_onControlCommand_def)

lemma mes_other_status: "mes_other fl p s s' \<Longrightarrow> es_status s' = es_status s"
proof (induction rule: mes_other.induct)
  case (mes_other_timer t s s' outs)
  then show ?case using mes_onTimer_status [of fl p t s] by simp
qed (simp add: frame_simps)

interpretation emergency: mrm_operator mes_operateEmergencyStop es_status "mes_other fl p"
  by unfold_locales (auto simp: mes_operateEmergencyStop_def mes_other_status)

section \<open>The emergency stop command\<close>

text \<open>
  What one timer tick does to the speed and the acceleration of the command while the operator
  is operating on a command it has received.
\<close>

definition mes_active :: "mes_state \<Rightarrow> bool" where
  "mes_active s \<longleftrightarrow> es_status s = MrmBehaviorStatus_OPERATING \<and> es_is_prev_control_cmd_subscribed s"

definition mes_speed :: "mes_state \<Rightarrow> real" where
  "mes_speed s = lon_speed (cc_longitudinal (es_prev_control_cmd s))"

definition mes_acc :: "mes_state \<Rightarrow> real" where
  "mes_acc s = lon_acceleration (cc_longitudinal (es_prev_control_cmd s))"

definition mes_stamp :: "mes_state \<Rightarrow> time" where
  "mes_stamp s = cc_stamp (es_prev_control_cmd s)"

lemmas mes_view_defs = mes_active_def mes_speed_def mes_acc_def mes_stamp_def

lemma mes_tick:
  assumes "mes_active s"
  shows "mes_active (fst (mes_onTimer fl p t s))"
    and "mes_stamp (fst (mes_onTimer fl p t s)) = t"
    and "mes_speed (fst (mes_onTimer fl p t s)) =
      fl (max (mes_speed s + mes_acc s * seconds (t - mes_stamp s)) 0)"
    and "mes_acc (fst (mes_onTimer fl p t s)) =
      fl (max (mes_acc s + xp_target_jerk p * seconds (t - mes_stamp s)) (xp_target_acceleration p))"
  using assms by (simp_all add: mes_onTimer_def mes_calcTargetAcceleration_def mes_view_defs Let_def)

text \<open>While the emergency stop operator operates on a received command, every tick publishes a
  command whose speed is not negative and does not grow once the acceleration is not positive,
  whose acceleration does not grow and is never below the target deceleration (rounded to a
  32-bit float), and whose steering is the one of the last received command.\<close>

theorem mes_command_bounds:
  assumes "float_cast fl" and "mes_active s" and "mes_stamp s \<le> t"
    and "fl (mes_speed s) = mes_speed s" and "fl (mes_acc s) = mes_acc s"
    and "0 \<le> mes_speed s" and "xp_target_jerk p \<le> 0" and "xp_target_acceleration p \<le> mes_acc s"
  shows "\<exists>s' cmd. mes_onTimer fl p t s =
      (s', [MES_PubControlCommand cmd, MES_PubStatus t MrmBehaviorStatus_OPERATING]) \<and>
    es_prev_control_cmd s' = cmd \<and>
    0 \<le> lon_speed (cc_longitudinal cmd) \<and>
    (mes_acc s \<le> 0 \<longrightarrow> lon_speed (cc_longitudinal cmd) \<le> mes_speed s) \<and>
    lon_acceleration (cc_longitudinal cmd) \<le> mes_acc s \<and>
    fl (xp_target_acceleration p) \<le> lon_acceleration (cc_longitudinal cmd) \<and>
    cc_lateral cmd = cc_lateral (es_prev_control_cmd s)"
proof -
  let ?s' = "fst (mes_onTimer fl p t s)"
  let ?dt = "seconds (t - mes_stamp s)"
  have dt: "0 \<le> ?dt" using assms(3) by simp
  note tick = mes_tick [OF assms(2), of fl p t]
  have "0 \<le> mes_speed ?s'"
    unfolding tick(3) using float_cast_nonneg [OF assms(1)] by simp
  moreover have "mes_speed ?s' \<le> mes_speed s" if "mes_acc s \<le> 0"
  proof -
    have "max (mes_speed s + mes_acc s * ?dt) 0 \<le> mes_speed s"
      using that dt assms(6) by (simp add: mult_nonpos_nonneg)
    from float_cast_le [OF assms(1) this] show ?thesis by (simp add: tick(3) assms(4))
  qed
  moreover have "mes_acc ?s' \<le> mes_acc s"
  proof -
    have "max (mes_acc s + xp_target_jerk p * ?dt) (xp_target_acceleration p) \<le> mes_acc s"
      using dt assms(7,8) by (simp add: mult_nonpos_nonneg)
    from float_cast_le [OF assms(1) this] show ?thesis by (simp add: tick(4) assms(5))
  qed
  moreover have "fl (xp_target_acceleration p) \<le> mes_acc ?s'"
    unfolding tick(4) using float_cast_le [OF assms(1)] by simp
  ultimately show ?thesis
    using assms(2)
    by (simp add: mes_onTimer_def mes_calcTargetAcceleration_def mes_view_defs Let_def)
qed

definition mes_ex_param :: mes_param where
  "mes_ex_param = \<lparr>xp_target_acceleration = - 5 / 2, xp_target_jerk = - 3 / 2\<rparr>"

definition mes_ex_state :: mes_state where
  "mes_ex_state =
     fst (mes_operateEmergencyStop 0 True
       (mes_onControlCommand
         (control_command_new\<lparr>cc_longitudinal :=
            \<lparr>lon_stamp = 0, lon_speed = 10, lon_acceleration = 1, lon_jerk = 0\<rparr>\<rparr>) mes_init))"

lemma mes_ex_state_facts:
  "mes_active mes_ex_state" "mes_stamp mes_ex_state = 0" "mes_speed mes_ex_state = 10"
  "mes_acc mes_ex_state = 1"
  by (simp_all add: mes_ex_state_def mes_operateEmergencyStop_def mes_onControlCommand_def
      mes_init_def control_command_new_def mes_view_defs)

theorem mes_command_bounds_witness:
  "\<exists>s' cmd outs. mes_onTimer (\<lambda>x. x) mes_ex_param 1000000000 mes_ex_state =
      (s', MES_PubControlCommand cmd # outs) \<and> 0 \<le> lon_speed (cc_longitudinal cmd) \<and>
    - 5 / 2 \<le> lon_acceleration (cc_longitudinal cmd)"
  using mes_command_bounds [OF float_cast_id mes_ex_state_facts(1), of 1000000000 mes_ex_param]
  by (auto simp: mes_ex_state_facts mes_ex_param_def)

section \<open>The vehicle is brought to a stop\<close>

primrec mes_run ::
  "(real \<Rightarrow> real) \<Rightarrow> mes_param \<Rightarrow> (nat \<Rightarrow> time) \<Rightarrow> nat \<Rightarrow> mes_state \<Rightarrow> mes_state" where
  "mes_run fl p ts 0 s = s"
| "mes_run fl p ts (Suc n) s = fst (mes_onTimer fl p (ts n) (mes_run fl p ts n s))"

text \<open>
  Ticks that are at least \<open>d\<close> nanoseconds apart, the first one counted from the stamp of the
  command in hand.
\<close>

definition mes_paced :: "int \<Rightarrow> (nat \<Rightarrow> time) \<Rightarrow> mes_state \<Rightarrow> bool" where
  "mes_paced d ts s \<longleftrightarrow> mes_stamp s + d \<le> ts 0 \<and> (\<forall>n. ts n + d \<le> ts (Suc n))"

lemma mes_run_active: "mes_active s \<Longrightarrow> mes_active (mes_run fl p ts n s)"
  by (induction n) (simp_all add: mes_tick(1))

lemma mes_run_dt:
  assumes "mes_active s" and "mes_paced d ts s"
  shows "seconds d \<le> seconds (ts n - mes_stamp (mes_run fl p ts n s))"
proof (cases n)
  case (Suc m)
  with assms show ?thesis
    by (simp add: mes_tick(2) [OF mes_run_active] mes_paced_def algebra_simps)
qed (use assms in \<open>simp add: mes_paced_def algebra_simps\<close>)

lemma mes_run_acc:
  assumes "mes_active s" and "mes_paced d ts s" and "xp_target_jerk p \<le> 0" and "0 \<le> d"
  shows "mes_acc (mes_run (\<lambda>x. x) p ts n s) \<le>
    max (mes_acc s + real n * (xp_target_jerk p * seconds d)) (xp_target_acceleration p)"
proof (induction n)
  case (Suc n)
  let ?r = "mes_run (\<lambda>x. x) p ts n s"
  have "xp_target_jerk p * seconds (ts n - mes_stamp ?r) \<le> xp_target_jerk p * seconds d"
    using mes_run_dt [OF assms(1,2)] assms(3) by (rule mult_left_mono_neg)
  moreover have "xp_target_jerk p * seconds d \<le> 0"
    using assms(3,4) by (simp add: mult_nonpos_nonneg)
  ultimately show ?case
    using Suc mes_tick(4) [OF mes_run_active [OF assms(1)], of "\<lambda>x. x" p "ts n" "\<lambda>x. x" p ts n]
    by (simp add: algebra_simps max_def split: if_splits)
qed simp

lemma mes_run_speed:
  assumes "mes_active s" and "mes_paced d ts s" and "0 \<le> d"
    and "xp_target_acceleration p \<le> 0"
    and acc: "\<And>n. N \<le> n \<Longrightarrow> mes_acc (mes_run (\<lambda>x. x) p ts n s) \<le> xp_target_acceleration p"
  shows "mes_speed (mes_run (\<lambda>x. x) p ts (N + k) s) \<le>
    max (mes_speed (mes_run (\<lambda>x. x) p ts N s) +
         real k * (xp_target_acceleration p * seconds d)) 0"
proof (induction k)
  case (Suc k)
  let ?r = "mes_run (\<lambda>x. x) p ts (N + k) s"
  let ?dt = "seconds (ts (N + k) - mes_stamp ?r)"
  have dt: "seconds d \<le> ?dt" using mes_run_dt [OF assms(1,2)] .
  have "mes_acc ?r * ?dt \<le> xp_target_acceleration p * ?dt"
  proof (rule mult_right_mono)
    show "mes_acc ?r \<le> xp_target_acceleration p" by (rule acc) simp
    show "0 \<le> ?dt" using dt assms(3) by (meson order_trans seconds_nonneg)
  qed
  also have "\<dots> \<le> xp_target_acceleration p * seconds d"
    using dt assms(4) by (rule mult_left_mono_neg)
  finally have step: "mes_acc ?r * ?dt \<le> xp_target_acceleration p * seconds d" .
  moreover have "xp_target_acceleration p * seconds d \<le> 0"
    using assms(3,4) by (simp add: mult_nonpos_nonneg)
  ultimately show ?case
    using Suc mes_tick(3) [OF mes_run_active [OF assms(1)], of "\<lambda>x. x" p "ts (N + k)"
        "\<lambda>x. x" p ts "N + k"]
    by (simp add: algebra_simps max_def split: if_splits)
qed simp

lemma mes_run_speed_nonneg:
  "mes_active s \<Longrightarrow> 0 < n \<Longrightarrow> 0 \<le> mes_speed (mes_run (\<lambda>x. x) p ts n s)"
  by (cases n) (simp_all add: mes_tick(3) [OF mes_run_active])

lemma decreasing_bound: "c < 0 \<Longrightarrow> \<exists>n. \<forall>k \<ge> n. a + real k * c \<le> (b :: real)"
proof -
  assume c: "c < 0"
  obtain n where n: "a - b < real n * - c" using ex_less_of_nat_mult [of "- c" "a - b"] c by auto
  have "a + real k * c \<le> b" if "n \<le> k" for k
  proof -
    have "real k * c \<le> real n * c" using that c by (intro mult_right_mono_neg) simp_all
    with n show ?thesis by simp
  qed
  then show ?thesis by blast
qed

text \<open>C7: Once an emergency stop is operated on a received command, with negative target
  acceleration and jerk and ticks at least some fixed time apart, the commanded speed reaches zero
  after finitely many ticks, whatever the speed and acceleration were, and stays zero (computed
  without the rounding to 32-bit floats).\<close>

theorem mes_reaches_standstill:
  assumes act: "mes_active s" and paced: "mes_paced d ts s" and d: "0 < d"
    and jerk: "xp_target_jerk p < 0" and target: "xp_target_acceleration p < 0"
  shows "\<exists>m. \<forall>n \<ge> m. mes_speed (mes_run (\<lambda>x. x) p ts n s) = 0"
proof -
  let ?r = "\<lambda>n. mes_run (\<lambda>x. x) p ts n s"
  let ?D = "seconds d" and ?A = "xp_target_acceleration p"
  have D: "0 < ?D" using d by (simp add: seconds_def)
  from decreasing_bound [OF mult_neg_pos [OF jerk D], of "mes_acc s" ?A] obtain N
    where N: "\<forall>n \<ge> N. mes_acc s + real n * (xp_target_jerk p * ?D) \<le> ?A" by blast
  have acc: "mes_acc (?r n) \<le> ?A" if "N \<le> n" for n
    using mes_run_acc [OF act paced, of p n] N that jerk d by force
  from decreasing_bound [OF mult_neg_pos [OF target D], of "mes_speed (?r N)" 0] obtain K
    where K: "\<forall>k \<ge> K. mes_speed (?r N) + real k * (?A * ?D) \<le> 0" by blast
  have "mes_speed (?r n) = 0" if n: "Suc (N + K) \<le> n" for n
  proof -
    from n obtain k where k: "n = N + k" "K \<le> k" by (metis Suc_leD add_leD1 le_Suc_ex nat_add_left_cancel_le)
    have "mes_speed (?r (N + k)) \<le> max (mes_speed (?r N) + real k * (?A * ?D)) 0"
      using d target by (intro mes_run_speed [OF act paced _ _ acc]) simp_all
    moreover have "0 \<le> mes_speed (?r n)" using mes_run_speed_nonneg [OF act] n by simp
    ultimately show ?thesis using k K by force
  qed
  then show ?thesis by blast
qed

theorem mes_reaches_standstill_witness:
  "\<exists>m. \<forall>n \<ge> m.
     mes_speed (mes_run (\<lambda>x. x) mes_ex_param (\<lambda>n. 33000000 * (int n + 1)) n mes_ex_state) = 0"
  by (rule mes_reaches_standstill [where d = 33000000])
    (simp_all add: mes_ex_state_facts mes_ex_param_def mes_paced_def)

end
