(* ===== verification/Mrm_System.thy ===== *)
theory Mrm_System
  imports Emergency_Handler Mrm_Operators
begin

text \<open>
  The emergency handler together with the two MRM operators it calls.  A request to an operator
  is synchronous: \<open>callMrmBehavior\<close> and \<open>cancelMrmBehavior\<close> wait for the response
  (\<open>async_send_request(request).get()\<close>).  The requests of the callback in progress are the
  field \<open>ys_pending\<close>: they are served one after the other, the timers and subscriptions of the
  operators may run in between, and the next callback of the handler runs when none is left.
  The field \<open>ys_handler\<close> is the state of the handler at the end of the callback in progress.
  What is used of the operators is the locale \<open>mrm_operator\<close>, through its interpretations.
\<close>

record mrm_system =
  ys_handler :: eh_state
  ys_comfortable :: mcs_state
  ys_emergency :: mes_state
  ys_pending :: "eh_out list"

fun ys_is_request :: "eh_out \<Rightarrow> bool" where
  "ys_is_request (EH_OperateComfortableStop b) = True"
| "ys_is_request (EH_OperateEmergencyStop b) = True"
| "ys_is_request _ = False"

fun ys_serve ::
  "(real \<Rightarrow> real) \<Rightarrow> mcs_param \<Rightarrow> time \<Rightarrow> eh_out \<Rightarrow> mrm_system \<Rightarrow> mrm_system" where
  "ys_serve fl cp t (EH_OperateComfortableStop b) y =
     y\<lparr>ys_comfortable := fst (mcs_operateComfortableStop fl cp t b (ys_comfortable y))\<rparr>"
| "ys_serve fl cp t (EH_OperateEmergencyStop b) y =
     y\<lparr>ys_emergency := fst (mes_operateEmergencyStop t b (ys_emergency y))\<rparr>"
| "ys_serve fl cp t _ y = y"

inductive ys_step :: "eh_param \<Rightarrow> mcs_param \<Rightarrow> mes_param \<Rightarrow> (real \<Rightarrow> real) \<Rightarrow>
    mrm_system \<Rightarrow> mrm_system \<Rightarrow> bool" for p cp xp fl where
  ys_callback:
    "\<lbrakk>ys_pending y = []; eh_handle p t ev (ys_handler y) = Inr (h, outs)\<rbrakk> \<Longrightarrow>
     ys_step p cp xp fl y (y\<lparr>ys_handler := h, ys_pending := filter ys_is_request outs\<rparr>)"
| ys_request:
    "ys_pending y = r # rs \<Longrightarrow>
     ys_step p cp xp fl y (ys_serve fl cp t r (y\<lparr>ys_pending := rs\<rparr>))"
| ys_comfortable_other:
    "mcs_other (ys_comfortable y) c \<Longrightarrow> ys_step p cp xp fl y (y\<lparr>ys_comfortable := c\<rparr>)"
| ys_emergency_other:
    "mes_other fl xp (ys_emergency y) e \<Longrightarrow> ys_step p cp xp fl y (y\<lparr>ys_emergency := e\<rparr>)"

definition ys_init :: "eh_state \<Rightarrow> mrm_system" where
  "ys_init h =
     \<lparr>ys_handler = h, ys_comfortable = mcs_init, ys_emergency = mes_init, ys_pending = []\<rparr>"

inductive ys_reachable :: "eh_param \<Rightarrow> mcs_param \<Rightarrow> mes_param \<Rightarrow> (real \<Rightarrow> real) \<Rightarrow>
    mrm_system \<Rightarrow> bool" for p cp xp fl where
  ys_reachable_init: "ys_reachable p cp xp fl (ys_init (eh_init mode c e t))"
| ys_reachable_step:
    "ys_reachable p cp xp fl y \<Longrightarrow> ys_step p cp xp fl y y' \<Longrightarrow> ys_reachable p cp xp fl y'"

section \<open>What the handler sends\<close>

lemma ys_requests_switch: "filter ys_is_request (eh_switch b b') = eh_switch b b'"
  by (simp add: eh_switch_def eh_cancelMrmBehavior_def eh_callMrmBehavior_def)

lemma ys_requests_publish: "filter ys_is_request (eh_publishControlCommands p t hs z) = []"
  by (simp add: eh_publishControlCommands_def)

lemma eh_switch_same [simp]: "eh_switch b b = []"
  by (simp add: eh_switch_def)

lemma eh_onTimer_requests:
  assumes "eh_wf p s" and "eh_onTimer p t s = Inr (s', outs)"
  shows "filter ys_is_request outs =
    eh_switch (ms_behavior (eh_mrm_state s)) (ms_behavior (eh_mrm_state s'))"
proof (cases "eh_waiting p s")
  case True
  with assms(2) show ?thesis by (auto simp: eh_onTimer_waiting)
next
  case False
  then obtain hs where hs: "eh_hazard_status s = Some hs" "eh_isDataReady p s"
    by (auto simp: eh_waiting_def)
  show ?thesis
  proof (cases "eh_isHazardStatusTimeout p t s")
    case True
    with assms(2) show ?thesis
      by (auto simp: eh_onTimer_timeout [OF hs True] ys_requests_publish eh_switch_def)
  next
    case False
    from eh_onTimer_alive [OF assms(1) hs False] assms(2) show ?thesis
      by (auto simp: ys_requests_publish ys_requests_switch)
  qed
qed

lemma eh_handle_requests:
  assumes "eh_wf p s" and "eh_handle p t ev s = Inr (s', outs)"
  shows "filter ys_is_request outs =
    eh_switch (ms_behavior (eh_mrm_state s)) (ms_behavior (eh_mrm_state s'))"
proof (cases "ev = EH_Timer")
  case True
  with assms eh_onTimer_requests [OF assms(1)] show ?thesis by simp
next
  case False
  from eh_handle_frame [OF this assms(2)] show ?thesis by simp
qed

section \<open>The operator in force is the one that operates\<close>

text \<open>\<open>ys_shows y b\<close>: the operators are in the states that the behaviour \<open>b\<close> calls for.\<close>

definition ys_shows :: "mrm_system \<Rightarrow> mrm_behavior \<Rightarrow> bool" where
  "ys_shows y b \<longleftrightarrow>
     (cs_status (ys_comfortable y) = MrmBehaviorStatus_OPERATING) = (b = MrmState_COMFORTABLE_STOP) \<and>
     (es_status (ys_emergency y) = MrmBehaviorStatus_OPERATING) = (b = MrmState_EMERGENCY_STOP)"

definition ys_behaviors :: "mrm_behavior set" where
  "ys_behaviors = {MrmState_NONE, MrmState_COMFORTABLE_STOP, MrmState_EMERGENCY_STOP}"

text \<open>
  The operators show some behaviour \<open>c\<close>, and the pending requests lead from \<open>c\<close> to the behaviour
  the handler holds.
\<close>

definition ys_inv :: "eh_param \<Rightarrow> mrm_system \<Rightarrow> bool" where
  "ys_inv p y \<longleftrightarrow> eh_reachable p (ys_handler y) \<and>
     (\<exists>c \<in> ys_behaviors. ys_shows y c \<and>
        ys_pending y = eh_switch c (ms_behavior (eh_mrm_state (ys_handler y))))"

lemma eh_behavior_known: "eh_reachable p s \<Longrightarrow> ms_behavior (eh_mrm_state s) \<in> ys_behaviors"
  using eh_reachable_wf [of p s] by (auto simp: eh_wf_def ys_behaviors_def split: if_splits)

lemma eh_switch_nil:
  "c \<in> ys_behaviors \<Longrightarrow> b \<in> ys_behaviors \<Longrightarrow> eh_switch c b = [] \<longleftrightarrow> c = b"
  by (auto simp: ys_behaviors_def eh_switch_def eh_cancelMrmBehavior_def eh_callMrmBehavior_def)

text \<open>Serving the next request of \<open>eh_switch c b\<close> leads to a behaviour from which the rest leads to \<open>b\<close>.\<close>

lemma ys_serve_switch:
  assumes c: "c \<in> ys_behaviors" and b: "b \<in> ys_behaviors" and shows_c: "ys_shows y c"
    and rs: "eh_switch c b = r # rs"
  shows "\<exists>c' \<in> ys_behaviors. ys_shows (ys_serve fl cp t r (y\<lparr>ys_pending := rs\<rparr>)) c' \<and>
    rs = eh_switch c' b"
proof -
  define c' where "c' = (if c = MrmState_NONE then b else MrmState_NONE)"
  have "c' \<in> ys_behaviors" using b by (simp add: c'_def ys_behaviors_def)
  moreover have "ys_shows (ys_serve fl cp t r (y\<lparr>ys_pending := rs\<rparr>)) c'"
    using c b shows_c rs
    by (auto simp: ys_behaviors_def ys_shows_def c'_def eh_switch_def eh_cancelMrmBehavior_def
        eh_callMrmBehavior_def comfortable.operating_iff emergency.operating_iff split: if_splits)
  moreover have "rs = eh_switch c' b"
    using c b rs
    by (auto simp: ys_behaviors_def c'_def eh_switch_def eh_cancelMrmBehavior_def
        eh_callMrmBehavior_def split: if_splits)
  ultimately show ?thesis by blast
qed

lemma ys_serve_frame [simp]:
  "ys_handler (ys_serve fl cp t r y) = ys_handler y"
  "ys_pending (ys_serve fl cp t r y) = ys_pending y"
  by (cases r; simp)+

lemma ys_step_inv: "ys_step p cp xp fl y y' \<Longrightarrow> ys_inv p y \<Longrightarrow> ys_inv p y'"
proof (induction rule: ys_step.induct)
  case (ys_callback y t ev h outs)
  let ?b = "ms_behavior (eh_mrm_state (ys_handler y))"
  from ys_callback.prems ys_callback.hyps(1) obtain c where r: "eh_reachable p (ys_handler y)"
    and c: "c \<in> ys_behaviors" "ys_shows y c" "eh_switch c ?b = []"
    by (auto simp: ys_inv_def)
  then have "ys_shows y ?b" using eh_switch_nil [OF c(1) eh_behavior_known [OF r]] by simp
  moreover note eh_handle_requests [OF eh_reachable_wf [OF r] ys_callback.hyps(2)]
  moreover have "eh_reachable p h" by (rule eh_reachable_step [OF r ys_callback.hyps(2)])
  ultimately show ?case
    using eh_behavior_known [OF r] by (auto simp: ys_inv_def ys_shows_def)
next
  case (ys_request y r rs t)
  from ys_request.prems obtain c where c: "c \<in> ys_behaviors" "ys_shows y c"
    "ys_pending y = eh_switch c (ms_behavior (eh_mrm_state (ys_handler y)))"
    and reach: "eh_reachable p (ys_handler y)" by (auto simp: ys_inv_def)
  from ys_serve_switch [OF c(1) eh_behavior_known [OF reach] c(2)] c(3) ys_request.hyps reach
  show ?case by (simp add: ys_inv_def)
next
  case (ys_comfortable_other y c)
  then show ?case
    using comfortable.other_status [OF ys_comfortable_other.hyps]
    by (simp add: ys_inv_def ys_shows_def)
next
  case (ys_emergency_other y e)
  then show ?case
    using mes_other_status [OF ys_emergency_other.hyps] by (simp add: ys_inv_def ys_shows_def)
qed

lemma ys_init_inv: "ys_inv p (ys_init (eh_init mode c e t))"
proof -
  have "eh_reachable p (eh_init mode c e t)" by (rule eh_reachable_init)
  then show ?thesis
    by (simp add: ys_inv_def ys_init_def ys_shows_def ys_behaviors_def mcs_init_def mes_init_def
        eh_init_def eh_switch_def)
qed

lemma ys_reachable_inv: "ys_reachable p cp xp fl y \<Longrightarrow> ys_inv p y"
  by (induction rule: ys_reachable.induct) (auto intro: ys_init_inv ys_step_inv)

section \<open>Properties\<close>

text \<open>C8: However the callbacks of the emergency handler and of the two MRM operators interleave, the
  two operators are never operating at the same time, and whenever no request is under way the
  comfortable (emergency) stop operator is operating exactly when the handler holds the behaviour
  COMFORTABLE_STOP (EMERGENCY_STOP).\<close>

theorem ys_one_operator:
  assumes "ys_reachable p cp xp fl y"
  shows "\<not> (cs_status (ys_comfortable y) = MrmBehaviorStatus_OPERATING \<and>
            es_status (ys_emergency y) = MrmBehaviorStatus_OPERATING) \<and>
    (ys_pending y = [] \<longrightarrow>
       (cs_status (ys_comfortable y) = MrmBehaviorStatus_OPERATING \<longleftrightarrow>
          ms_behavior (eh_mrm_state (ys_handler y)) = MrmState_COMFORTABLE_STOP) \<and>
       (es_status (ys_emergency y) = MrmBehaviorStatus_OPERATING \<longleftrightarrow>
          ms_behavior (eh_mrm_state (ys_handler y)) = MrmState_EMERGENCY_STOP))"
proof -
  from ys_reachable_inv [OF assms] obtain c where
    reach: "eh_reachable p (ys_handler y)" and c: "c \<in> ys_behaviors" "ys_shows y c"
    and pending: "ys_pending y = eh_switch c (ms_behavior (eh_mrm_state (ys_handler y)))"
    by (auto simp: ys_inv_def)
  show ?thesis
    using c pending eh_switch_nil [OF c(1) eh_behavior_known [OF reach]]
    by (auto simp: ys_shows_def)
qed

text \<open>A run of the system into an emergency stop, from the configuration of \<open>eh_ex_state\<close>.\<close>

lemma ys_run_quiet:
  assumes "ys_reachable p cp xp fl (ys_init s)"
    and "eh_handle p t ev s = Inr (s', [])"
  shows "ys_reachable p cp xp fl (ys_init s')"
  using ys_reachable_step [OF assms(1) ys_callback [OF _ , where ev = ev and t = t and h = s'
        and outs = "[]"]] assms(2)
  by (simp add: ys_init_def)

lemma ys_ex_reachable: "ys_reachable p cp xp fl (ys_init (eh_ex_state l))"
proof -
  let ?s = "eh_init ControlMode_AUTONOMOUS MrmBehaviorStatus_AVAILABLE
    MrmBehaviorStatus_AVAILABLE 0"
  have "ys_reachable p cp xp fl (ys_init (eh_onHazardStatusStamped (eh_ex_hazard l) 0 ?s))"
    by (rule ys_run_quiet [OF ys_reachable_init, where ev = "EH_HazardStatus _"])
      (simp only: eh_handle.simps)
  then have "ys_reachable p cp xp fl
      (ys_init (eh_onOdometry 5 (eh_onHazardStatusStamped (eh_ex_hazard l) 0 ?s)))"
    by (rule ys_run_quiet [where ev = "EH_Odometry 5"]) (simp only: eh_handle.simps)
  then show ?thesis by (simp add: eh_ex_state_def eh_sub_defs eh_init_def)
qed

lemma ys_ex_emergency:
  "\<exists>y. ys_reachable eh_ex_param cp xp fl y \<and> ys_pending y = [] \<and>
     ms_behavior (eh_mrm_state (ys_handler y)) = MrmState_EMERGENCY_STOP"
proof -
  let ?s = "eh_ex_state SINGLE_POINT_FAULT"
  have direct: "\<not> ep_use_takeover_request eh_ex_param" by (simp add: eh_ex_param_def)
  have wf: "eh_wf eh_ex_param ?s" by (rule eh_reachable_wf [OF eh_ex_state_reachable])
  from eh_onTimer_alive [OF wf eh_ex_state_facts(1-3)] obtain h outs where
    h: "eh_onTimer eh_ex_param 1000 ?s = Inr (h, outs)"
    and b: "ms_behavior (eh_mrm_state h) = MrmState_EMERGENCY_STOP"
    by (auto simp: eh_ex_next eh_next_behavior_def eh_escalate_def eh_ex_state_facts(5)
        less_eq_hazard_level_def) (simp add: eh_ex_defs)
  let ?y1 = "(ys_init ?s)\<lparr>ys_handler := h, ys_pending := filter ys_is_request outs\<rparr>"
  have r1: "ys_reachable eh_ex_param cp xp fl ?y1"
    by (rule ys_reachable_step [OF ys_ex_reachable [of eh_ex_param cp xp fl SINGLE_POINT_FAULT]],
        rule ys_callback [where ev = EH_Timer]) (use h in \<open>simp_all add: ys_init_def\<close>)
  have "filter ys_is_request outs = [EH_OperateEmergencyStop True]"
    unfolding eh_onTimer_requests [OF wf h] b
    by (simp add: eh_ex_defs eh_switch_def eh_cancelMrmBehavior_def eh_callMrmBehavior_def)
  then have "ys_pending ?y1 = EH_OperateEmergencyStop True # []" by simp
  from ys_reachable_step [OF r1 ys_request [OF this]] b show ?thesis by fastforce
qed

theorem ys_one_operator_witness:
  "\<exists>y. ys_reachable eh_ex_param
       \<lparr>cp_min_acceleration = - 1, cp_max_jerk = 3 / 10, cp_min_jerk = - 3 / 10\<rparr>
       mes_ex_param (\<lambda>x. x) y \<and>
     es_status (ys_emergency y) = MrmBehaviorStatus_OPERATING \<and>
     cs_status (ys_comfortable y) \<noteq> MrmBehaviorStatus_OPERATING"
  using ys_ex_emergency [of _ mes_ex_param "\<lambda>x. x"] ys_one_operator by blast

end
