(* ===== verification/Vehicle_Cmd_Filter.thy ===== *)
theory Vehicle_Cmd_Filter
  imports Mrm_Operators
begin

text \<open>
  \<open>control/vehicle_cmd_gate/src/vehicle_cmd_filter.cpp\<close>: the limiter every control command of
  Autoware passes through before it leaves for the vehicle.

  Speed, acceleration and steering angle are 32-bit fields of the message and the limits are
  doubles; \<open>fl\<close> is the rounding where a double is assigned to a field, where two floats are
  multiplied, and where \<open>std::tan\<close> is called on a float.  The wheel base is assumed to be
  positive wherever the lateral acceleration matters.
\<close>

section \<open>The code\<close>

record vcf_param =
  fp_wheel_base :: real
  fp_vel_lim :: real
  fp_lon_acc_lim :: real
  fp_lon_jerk_lim :: real
  fp_lat_acc_lim :: real
  fp_lat_jerk_lim :: real
  fp_actual_steer_diff_lim :: real

record vcf_state =
  fs_param :: vcf_param
  fs_prev_cmd :: control_command

definition vcf_setPrevCmd :: "control_command \<Rightarrow> vcf_state \<Rightarrow> vcf_state" where
  "vcf_setPrevCmd v f = f\<lparr>fs_prev_cmd := v\<rparr>"

abbreviation cc_speed :: "control_command \<Rightarrow> real" where
  "cc_speed c \<equiv> lon_speed (cc_longitudinal c)"

abbreviation cc_acc :: "control_command \<Rightarrow> real" where
  "cc_acc c \<equiv> lon_acceleration (cc_longitudinal c)"

abbreviation cc_steer :: "control_command \<Rightarrow> real" where
  "cc_steer c \<equiv> lat_steering_tire_angle (cc_lateral c)"

definition cc_set_speed :: "real \<Rightarrow> control_command \<Rightarrow> control_command" where
  "cc_set_speed v c = c\<lparr>cc_longitudinal := (cc_longitudinal c)\<lparr>lon_speed := v\<rparr>\<rparr>"

definition cc_set_acc :: "real \<Rightarrow> control_command \<Rightarrow> control_command" where
  "cc_set_acc a c = c\<lparr>cc_longitudinal := (cc_longitudinal c)\<lparr>lon_acceleration := a\<rparr>\<rparr>"

definition cc_set_steer :: "real \<Rightarrow> control_command \<Rightarrow> control_command" where
  "cc_set_steer d c = c\<lparr>cc_lateral := (cc_lateral c)\<lparr>lat_steering_tire_angle := d\<rparr>\<rparr>"

definition vcf_limitDiff :: "real \<Rightarrow> real \<Rightarrow> real \<Rightarrow> real" where
  "vcf_limitDiff cur prev diff_lim =
     (let diff = max (min (cur - prev) diff_lim) (- diff_lim) in prev + diff)"

definition vcf_calcLatAcc :: "(real \<Rightarrow> real) \<Rightarrow> vcf_state \<Rightarrow> control_command \<Rightarrow> real" where
  "vcf_calcLatAcc fl f cmd =
     (let v = cc_speed cmd in v * v * fl (tan (cc_steer cmd)) / fp_wheel_base (fs_param f))"

definition vcf_calcSteerFromLatacc :: "vcf_state \<Rightarrow> real \<Rightarrow> real \<Rightarrow> real" where
  "vcf_calcSteerFromLatacc f v latacc =
     (let v_sq = max (v * v) (1 / 1000) in arctan (latacc * fp_wheel_base (fs_param f) / v_sq))"

definition vcf_limitLongitudinalWithVel ::
  "(real \<Rightarrow> real) \<Rightarrow> vcf_state \<Rightarrow> control_command \<Rightarrow> control_command" where
  "vcf_limitLongitudinalWithVel fl f input =
     cc_set_speed
       (fl (max (min (cc_speed input) (fp_vel_lim (fs_param f))) (- fp_vel_lim (fs_param f)))) input"

definition vcf_limitLongitudinalWithAcc ::
  "(real \<Rightarrow> real) \<Rightarrow> vcf_state \<Rightarrow> real \<Rightarrow> control_command \<Rightarrow> control_command" where
  "vcf_limitLongitudinalWithAcc fl f dt input =
     (let bound = fp_lon_acc_lim (fs_param f);
          c1 = cc_set_acc (fl (max (min (cc_acc input) bound) (- bound))) input
      in cc_set_speed (fl (vcf_limitDiff (cc_speed c1) (cc_speed (fs_prev_cmd f)) (bound * dt))) c1)"

definition vcf_limitLongitudinalWithJerk ::
  "(real \<Rightarrow> real) \<Rightarrow> vcf_state \<Rightarrow> real \<Rightarrow> control_command \<Rightarrow> control_command" where
  "vcf_limitLongitudinalWithJerk fl f dt input =
     cc_set_acc (fl (vcf_limitDiff (cc_acc input) (cc_acc (fs_prev_cmd f))
       (fp_lon_jerk_lim (fs_param f) * dt))) input"

definition vcf_limitLateralWithLatAcc ::
  "(real \<Rightarrow> real) \<Rightarrow> vcf_state \<Rightarrow> real \<Rightarrow> control_command \<Rightarrow> control_command" where
  "vcf_limitLateralWithLatAcc fl f dt input =
     (let latacc = vcf_calcLatAcc fl f input; p = fs_param f in
      if fp_lat_acc_lim p < \<bar>latacc\<bar> then
        (let v_sq = max (fl (cc_speed input * cc_speed input)) (1 / 1000);
             steer_lim = arctan (fp_lat_acc_lim p * fp_wheel_base p / v_sq)
         in cc_set_steer (fl (if 0 < latacc then steer_lim else - steer_lim)) input)
      else input)"

definition vcf_limitLateralWithLatJerk ::
  "(real \<Rightarrow> real) \<Rightarrow> vcf_state \<Rightarrow> real \<Rightarrow> control_command \<Rightarrow> control_command" where
  "vcf_limitLateralWithLatJerk fl f dt input =
     (let curr_latacc = vcf_calcLatAcc fl f input;
          prev_latacc = vcf_calcLatAcc fl f (fs_prev_cmd f);
          latacc_max = prev_latacc + fp_lat_jerk_lim (fs_param f) * dt;
          latacc_min = prev_latacc - fp_lat_jerk_lim (fs_param f) * dt
      in
      if latacc_max < curr_latacc then
        cc_set_steer (fl (vcf_calcSteerFromLatacc f (cc_speed input) latacc_max)) input
      else if curr_latacc < latacc_min then
        cc_set_steer (fl (vcf_calcSteerFromLatacc f (cc_speed input) latacc_min)) input
      else input)"

text \<open>\<open>std::clamp\<close>, whose bounds must be in order.\<close>

definition clamp :: "real \<Rightarrow> real \<Rightarrow> real \<Rightarrow> real" where
  "clamp v lo hi = (if v < lo then lo else if hi < v then hi else v)"

definition vcf_limitActualSteerDiff ::
  "(real \<Rightarrow> real) \<Rightarrow> vcf_state \<Rightarrow> real \<Rightarrow> control_command \<Rightarrow> control_command" where
  "vcf_limitActualSteerDiff fl f current_steer_angle input =
     (let bound = fp_actual_steer_diff_lim (fs_param f);
          ds = clamp (cc_steer input - current_steer_angle) (- bound) bound
      in cc_set_steer (fl (current_steer_angle + ds)) input)"

definition vcf_filterAll ::
  "(real \<Rightarrow> real) \<Rightarrow> vcf_state \<Rightarrow> real \<Rightarrow> real \<Rightarrow> control_command \<Rightarrow> control_command" where
  "vcf_filterAll fl f dt current_steer_angle cmd =
     (let c1 = vcf_limitLongitudinalWithJerk fl f dt cmd;
          c2 = vcf_limitLongitudinalWithAcc fl f dt c1;
          c3 = vcf_limitLongitudinalWithVel fl f c2;
          c4 = vcf_limitLateralWithLatJerk fl f dt c3;
          c5 = vcf_limitLateralWithLatAcc fl f dt c4
      in vcf_limitActualSteerDiff fl f current_steer_angle c5)"

section \<open>Fields each stage changes\<close>

lemma cc_set_simps [simp]:
  "cc_longitudinal (cc_set_steer d c) = cc_longitudinal c"
  "cc_lateral (cc_set_speed v c) = cc_lateral c"
  "cc_lateral (cc_set_acc a c) = cc_lateral c"
  "lon_speed (cc_longitudinal (cc_set_speed v c)) = v"
  "lon_acceleration (cc_longitudinal (cc_set_speed v c)) = lon_acceleration (cc_longitudinal c)"
  "lon_acceleration (cc_longitudinal (cc_set_acc a c)) = a"
  "lon_speed (cc_longitudinal (cc_set_acc a c)) = lon_speed (cc_longitudinal c)"
  "lat_steering_tire_angle (cc_lateral (cc_set_steer d c)) = d"
  by (simp_all add: cc_set_steer_def cc_set_speed_def cc_set_acc_def)

lemma cc_set_same [simp]:
  "cc_set_speed (cc_speed c) c = c" "cc_set_acc (cc_acc c) c = c" "cc_set_steer (cc_steer c) c = c"
  by (simp_all add: cc_set_steer_def cc_set_speed_def cc_set_acc_def)

lemma vcf_lateral_keeps_longitudinal [frame_simps]:
  "cc_longitudinal (vcf_limitLateralWithLatJerk fl f dt c) = cc_longitudinal c"
  "cc_longitudinal (vcf_limitLateralWithLatAcc fl f dt c) = cc_longitudinal c"
  "cc_longitudinal (vcf_limitActualSteerDiff fl f x c) = cc_longitudinal c"
  by (simp_all add: vcf_limitLateralWithLatJerk_def vcf_limitLateralWithLatAcc_def
      vcf_limitActualSteerDiff_def Let_def)

lemma vcf_longitudinal_keeps_lateral [frame_simps]:
  "cc_lateral (vcf_limitLongitudinalWithJerk fl f dt c) = cc_lateral c"
  "cc_lateral (vcf_limitLongitudinalWithAcc fl f dt c) = cc_lateral c"
  "cc_lateral (vcf_limitLongitudinalWithVel fl f c) = cc_lateral c"
  by (simp_all add: vcf_limitLongitudinalWithJerk_def vcf_limitLongitudinalWithAcc_def
      vcf_limitLongitudinalWithVel_def Let_def)

lemma vcf_limitDiff_bounds:
  "0 \<le> bound \<Longrightarrow> prev - bound \<le> vcf_limitDiff cur prev bound"
  "0 \<le> bound \<Longrightarrow> vcf_limitDiff cur prev bound \<le> prev + bound"
  by (auto simp: vcf_limitDiff_def Let_def)

lemma vcf_limitDiff_id: "\<bar>cur - prev\<bar> \<le> bound \<Longrightarrow> vcf_limitDiff cur prev bound = cur"
  by (auto simp: vcf_limitDiff_def Let_def abs_le_iff)

lemma clamp_bounds: "0 \<le> bound \<Longrightarrow> - bound \<le> clamp v (- bound) bound \<and> clamp v (- bound) bound \<le> bound"
  by (auto simp: clamp_def)

lemma clamp_id: "lo \<le> v \<Longrightarrow> v \<le> hi \<Longrightarrow> clamp v lo hi = v"
  by (simp add: clamp_def)

lemma sat_bounds:
  "0 \<le> bound \<Longrightarrow> max (min x bound) (- bound) \<le> (bound :: real)"
  "0 \<le> bound \<Longrightarrow> - bound \<le> max (min x bound) (- bound :: real)"
  by auto

lemma sat_id: "\<bar>x\<bar> \<le> bound \<Longrightarrow> max (min x bound) (- bound) = (x :: real)"
  by (auto simp: abs_le_iff)

lemma cast_sat_abs:
  assumes "float_cast fl" and "0 \<le> bound"
  shows "\<bar>fl (max (min x bound) (- bound))\<bar> \<le> fl bound"
proof -
  from float_cast_le [OF assms(1) sat_bounds(1) [OF assms(2)], of x]
  have "fl (max (min x bound) (- bound)) \<le> fl bound" .
  moreover from float_cast_le [OF assms(1) sat_bounds(2) [OF assms(2)], of x]
  have "- fl bound \<le> fl (max (min x bound) (- bound))" by (simp add: float_cast_uminus [OF assms(1)])
  ultimately show ?thesis by linarith
qed

definition vcf_param_ok :: "vcf_param \<Rightarrow> bool" where
  "vcf_param_ok p \<longleftrightarrow> 0 \<le> fp_vel_lim p \<and> 0 \<le> fp_lon_acc_lim p \<and> 0 \<le> fp_lon_jerk_lim p \<and>
     0 \<le> fp_actual_steer_diff_lim p"

lemma vcf_out_acc:
  "cc_acc (vcf_filterAll fl f dt steer cmd) =
     fl (max (min (fl (vcf_limitDiff (cc_acc cmd) (cc_acc (fs_prev_cmd f))
       (fp_lon_jerk_lim (fs_param f) * dt))) (fp_lon_acc_lim (fs_param f)))
       (- fp_lon_acc_lim (fs_param f)))"
  by (simp add: vcf_filterAll_def frame_simps Let_def vcf_limitLongitudinalWithVel_def
      vcf_limitLongitudinalWithAcc_def vcf_limitLongitudinalWithJerk_def)

lemma vcf_speed_acc_bounds:
  assumes "float_cast fl" and "vcf_param_ok (fs_param f)"
  shows "\<bar>cc_speed (vcf_filterAll fl f dt steer cmd)\<bar> \<le> fl (fp_vel_lim (fs_param f))"
    and "\<bar>cc_acc (vcf_filterAll fl f dt steer cmd)\<bar> \<le> fl (fp_lon_acc_lim (fs_param f))"
  using assms(2) unfolding vcf_out_acc
  by (simp_all add: cast_sat_abs [OF assms(1)] vcf_param_ok_def vcf_filterAll_def frame_simps Let_def
      vcf_limitLongitudinalWithVel_def)

section \<open>Properties\<close>

text \<open>C12: The filtered command respects the limits, up to the rounding of the limits to 32-bit
  floats: the speed the velocity limit, the acceleration the acceleration limit and (when the
  previous command did) the jerk limit over \<open>dt\<close>, and the steering angle stays within the allowed
  distance of the measured one.\<close>

theorem vcf_limits:
  fixes cmd :: control_command and steer :: real
  assumes "float_cast fl" and "vcf_param_ok (fs_param f)" and "0 \<le> dt"
    and "\<bar>cc_acc (fs_prev_cmd f)\<bar> \<le> fp_lon_acc_lim (fs_param f)"
  defines "p \<equiv> fs_param f" and "out \<equiv> vcf_filterAll fl f dt steer cmd"
  shows "\<bar>cc_speed out\<bar> \<le> fl (fp_vel_lim p) \<and>
    \<bar>cc_acc out\<bar> \<le> fl (fp_lon_acc_lim p) \<and>
    cc_acc out \<in> {fl (cc_acc (fs_prev_cmd f) - fp_lon_jerk_lim p * dt) ..
                  fl (cc_acc (fs_prev_cmd f) + fp_lon_jerk_lim p * dt)} \<and>
    cc_steer out \<in> {fl (steer - fp_actual_steer_diff_lim p) ..
                    fl (steer + fp_actual_steer_diff_lim p)}"
proof -
  note cast = float_cast_le [OF assms(1)]
  have p: "0 \<le> fp_vel_lim p" "0 \<le> fp_lon_acc_lim p" "0 \<le> fp_lon_jerk_lim p * dt"
    "0 \<le> fp_actual_steer_diff_lim p"
    using assms(2,3) by (simp_all add: vcf_param_ok_def p_def)
  define prev where "prev = cc_acc (fs_prev_cmd f)"
  define a where "a = fl (vcf_limitDiff (cc_acc cmd) prev (fp_lon_jerk_lim p * dt))"
  have acc: "cc_acc out = fl (max (min a (fp_lon_acc_lim p)) (- fp_lon_acc_lim p))"
    by (simp add: out_def vcf_out_acc a_def prev_def p_def)
  have steering: "\<exists>x. cc_steer out = fl (steer + clamp x (- fp_actual_steer_diff_lim p)
      (fp_actual_steer_diff_lim p))"
    by (simp add: out_def vcf_filterAll_def Let_def vcf_limitActualSteerDiff_def p_def) blast
  note vcf_speed_acc_bounds [OF assms(1,2), of dt steer cmd, folded p_def out_def]
  moreover have "cc_acc out \<le> fl (prev + fp_lon_jerk_lim p * dt)"
  proof (cases "- fp_lon_acc_lim p \<le> a")
    case True
    then have "cc_acc out \<le> fl a" unfolding acc by (intro cast) simp
    also have "\<dots> = a" by (simp add: a_def float_cast_idem [OF assms(1)])
    also have "\<dots> \<le> fl (prev + fp_lon_jerk_lim p * dt)"
      unfolding a_def by (intro cast vcf_limitDiff_bounds(2) p(3))
    finally show ?thesis .
  next
    case False
    then show ?thesis unfolding acc
      using assms(4) p(2,3) by (intro cast) (auto simp: p_def prev_def abs_le_iff)
  qed
  moreover have "fl (prev - fp_lon_jerk_lim p * dt) \<le> cc_acc out"
  proof (cases "a \<le> fp_lon_acc_lim p")
    case True
    have "fl (prev - fp_lon_jerk_lim p * dt) \<le> a"
      unfolding a_def by (intro cast vcf_limitDiff_bounds(1) p(3))
    also have "\<dots> = fl a" by (simp add: a_def float_cast_idem [OF assms(1)])
    also have "\<dots> \<le> cc_acc out" unfolding acc using True by (intro cast) simp
    finally show ?thesis .
  next
    case False
    then show ?thesis unfolding acc
      using assms(4) p(2,3) by (intro cast) (auto simp: p_def prev_def abs_le_iff)
  qed
  moreover have "cc_steer out \<in> {fl (steer - fp_actual_steer_diff_lim p) ..
      fl (steer + fp_actual_steer_diff_lim p)}"
  proof -
    obtain x where x: "cc_steer out = fl (steer + clamp x (- fp_actual_steer_diff_lim p)
        (fp_actual_steer_diff_lim p))" using steering by blast
    from clamp_bounds [OF p(4), of x] show ?thesis
      unfolding x by (auto intro!: cast)
  qed
  ultimately show ?thesis by (simp add: prev_def)
qed

definition vcf_ex :: vcf_state where
  "vcf_ex =
     \<lparr>fs_param = \<lparr>fp_wheel_base = 3, fp_vel_lim = 25, fp_lon_acc_lim = 5, fp_lon_jerk_lim = 5,
        fp_lat_acc_lim = 5, fp_lat_jerk_lim = 5, fp_actual_steer_diff_lim = 1\<rparr>,
      fs_prev_cmd = control_command_new\<rparr>"

lemma vcf_ex_ok: "vcf_param_ok (fs_param vcf_ex)"
  "\<bar>cc_acc (fs_prev_cmd vcf_ex)\<bar> \<le> fp_lon_acc_lim (fs_param vcf_ex)"
  by (simp_all add: vcf_param_ok_def vcf_ex_def control_command_new_def)

theorem vcf_limits_witness:
  "\<bar>cc_speed (vcf_filterAll (\<lambda>x. x) vcf_ex (1 / 10) 0
      (cc_set_speed 100 (cc_set_acc 9 control_command_new)))\<bar> \<le> 25 \<and>
   cc_acc (vcf_filterAll (\<lambda>x. x) vcf_ex (1 / 10) 0
      (cc_set_speed 100 (cc_set_acc 9 control_command_new))) \<le> 1 / 2"
  using vcf_limits [OF float_cast_id vcf_ex_ok(1) _ vcf_ex_ok(2), of "1 / 10" 0
      "cc_set_speed 100 (cc_set_acc 9 control_command_new)"]
  by (simp add: vcf_ex_def control_command_new_def)

lemma vcf_longitudinal_id:
  assumes "fl (cc_acc cmd) = cc_acc cmd" "fl (cc_speed cmd) = cc_speed cmd"
    and "\<bar>cc_acc cmd - cc_acc (fs_prev_cmd f)\<bar> \<le> fp_lon_jerk_lim (fs_param f) * dt"
    and "\<bar>cc_acc cmd\<bar> \<le> fp_lon_acc_lim (fs_param f)"
    and "\<bar>cc_speed cmd - cc_speed (fs_prev_cmd f)\<bar> \<le> fp_lon_acc_lim (fs_param f) * dt"
    and "\<bar>cc_speed cmd\<bar> \<le> fp_vel_lim (fs_param f)"
  shows "vcf_limitLongitudinalWithVel fl f
    (vcf_limitLongitudinalWithAcc fl f dt (vcf_limitLongitudinalWithJerk fl f dt cmd)) = cmd"
proof -
  have "vcf_limitLongitudinalWithJerk fl f dt cmd = cmd"
    using assms(1,3) by (simp add: vcf_limitLongitudinalWithJerk_def vcf_limitDiff_id)
  moreover have "vcf_limitLongitudinalWithAcc fl f dt cmd = cmd"
    using assms(1,2,4,5)
    by (simp add: vcf_limitLongitudinalWithAcc_def vcf_limitDiff_id sat_id Let_def)
  moreover have "vcf_limitLongitudinalWithVel fl f cmd = cmd"
    using assms(2,6) by (simp add: vcf_limitLongitudinalWithVel_def sat_id)
  ultimately show ?thesis by simp
qed

lemma vcf_lateral_id:
  assumes "\<bar>vcf_calcLatAcc fl f cmd - vcf_calcLatAcc fl f (fs_prev_cmd f)\<bar> \<le>
      fp_lat_jerk_lim (fs_param f) * dt"
    and "\<bar>vcf_calcLatAcc fl f cmd\<bar> \<le> fp_lat_acc_lim (fs_param f)"
    and "\<bar>cc_steer cmd - steer\<bar> \<le> fp_actual_steer_diff_lim (fs_param f)"
    and "fl (cc_steer cmd) = cc_steer cmd"
  shows "vcf_limitActualSteerDiff fl f steer
    (vcf_limitLateralWithLatAcc fl f dt (vcf_limitLateralWithLatJerk fl f dt cmd)) = cmd"
proof -
  have "vcf_limitLateralWithLatJerk fl f dt cmd = cmd"
    using assms(1) by (simp add: vcf_limitLateralWithLatJerk_def Let_def abs_le_iff)
  moreover have "vcf_limitLateralWithLatAcc fl f dt cmd = cmd"
    using assms(2) by (simp add: vcf_limitLateralWithLatAcc_def Let_def)
  moreover have "vcf_limitActualSteerDiff fl f steer cmd = cmd"
    using assms(3,4) by (simp add: vcf_limitActualSteerDiff_def Let_def clamp_id abs_le_iff)
  ultimately show ?thesis by simp
qed

text \<open>The filter is transparent: a command that already respects the limits (velocity,
  acceleration, jerk, lateral acceleration and jerk, distance to the measured steering angle)
  passes through unchanged.\<close>

theorem vcf_transparent:
  assumes "fl (cc_acc cmd) = cc_acc cmd" "fl (cc_speed cmd) = cc_speed cmd"
    "fl (cc_steer cmd) = cc_steer cmd"
    and "\<bar>cc_acc cmd - cc_acc (fs_prev_cmd f)\<bar> \<le> fp_lon_jerk_lim (fs_param f) * dt"
    and "\<bar>cc_acc cmd\<bar> \<le> fp_lon_acc_lim (fs_param f)"
    and "\<bar>cc_speed cmd - cc_speed (fs_prev_cmd f)\<bar> \<le> fp_lon_acc_lim (fs_param f) * dt"
    and "\<bar>cc_speed cmd\<bar> \<le> fp_vel_lim (fs_param f)"
    and "\<bar>vcf_calcLatAcc fl f cmd - vcf_calcLatAcc fl f (fs_prev_cmd f)\<bar> \<le>
      fp_lat_jerk_lim (fs_param f) * dt"
    and "\<bar>vcf_calcLatAcc fl f cmd\<bar> \<le> fp_lat_acc_lim (fs_param f)"
    and "\<bar>cc_steer cmd - steer\<bar> \<le> fp_actual_steer_diff_lim (fs_param f)"
  shows "vcf_filterAll fl f dt steer cmd = cmd"
  using vcf_longitudinal_id [OF assms(1,2,4-7)] vcf_lateral_id [OF assms(8-10,3)]
  by (simp add: vcf_filterAll_def Let_def)

theorem vcf_transparent_witness:
  "vcf_filterAll (\<lambda>x. x) vcf_ex (1 / 10) 0 (cc_set_speed (1 / 2) control_command_new) =
     cc_set_speed (1 / 2) control_command_new"
  by (rule vcf_transparent)
    (simp_all add: vcf_ex_def control_command_new_def vcf_calcLatAcc_def cc_set_speed_def)

lemma vcf_lat_stage:
  assumes "0 < fp_wheel_base (fs_param f)" and "0 \<le> fp_lat_acc_lim (fs_param f)"
  shows "\<bar>vcf_calcLatAcc (\<lambda>x. x) f (vcf_limitLateralWithLatAcc (\<lambda>x. x) f dt cmd)\<bar>
    \<le> fp_lat_acc_lim (fs_param f)"
proof (cases "fp_lat_acc_lim (fs_param f) < \<bar>vcf_calcLatAcc (\<lambda>x. x) f cmd\<bar>")
  case False
  then show ?thesis by (simp add: vcf_limitLateralWithLatAcc_def Let_def)
next
  case True
  let ?L = "fp_lat_acc_lim (fs_param f)" and ?W = "fp_wheel_base (fs_param f)"
  let ?v = "cc_speed cmd"
  define q where "q = max (?v * ?v) (1 / 1000 :: real)"
  have q: "0 < q" "?v * ?v \<le> q" by (simp_all add: q_def)
  have "\<bar>vcf_calcLatAcc (\<lambda>x. x) f (vcf_limitLateralWithLatAcc (\<lambda>x. x) f dt cmd)\<bar> =
      ?v * ?v * (?L * ?W / q) / ?W"
    using True assms q(1)
    by (simp add: vcf_limitLateralWithLatAcc_def Let_def vcf_calcLatAcc_def [of _ _ "cc_set_steer _ _"]
        q_def [symmetric] tan_arctan abs_mult)
  also have "\<dots> = ?L * (?v * ?v / q)" using assms(1) q(1) by (simp add: field_simps)
  also have "\<dots> \<le> ?L * 1" using assms(2) q by (intro mult_left_mono) simp_all
  finally show ?thesis by simp
qed

text \<open>After the lateral-acceleration stage of the filter the lateral acceleration
  \<open>v * v * tan(steer) / wheel_base\<close> of the command is within the limit, whatever the speed
  (computed without rounding to 32-bit floats); the stage leaves the longitudinal command alone.\<close>

theorem vcf_lateral_acceleration_limited:
  assumes "0 < fp_wheel_base (fs_param f)" and "0 \<le> fp_lat_acc_lim (fs_param f)"
  shows "\<bar>vcf_calcLatAcc (\<lambda>x. x) f (vcf_limitLateralWithLatAcc (\<lambda>x. x) f dt cmd)\<bar>
      \<le> fp_lat_acc_lim (fs_param f) \<and>
    cc_longitudinal (vcf_limitLateralWithLatAcc (\<lambda>x. x) f dt cmd) = cc_longitudinal cmd"
  using vcf_lat_stage [OF assms] by (simp add: frame_simps)

theorem vcf_lateral_acceleration_limited_witness:
  "\<bar>vcf_calcLatAcc (\<lambda>x. x) vcf_ex (vcf_limitLateralWithLatAcc (\<lambda>x. x) vcf_ex (1 / 10)
     (cc_set_steer (arctan 1) (cc_set_speed 20 control_command_new)))\<bar> \<le> 5"
  using vcf_lateral_acceleration_limited [of vcf_ex "1 / 10"
      "cc_set_steer (arctan 1) (cc_set_speed 20 control_command_new)"]
  by (simp add: vcf_ex_def)

end
