(* ===== verification/Vehicle_Cmd_Gate.thy ===== *)
theory Vehicle_Cmd_Gate
  imports Vehicle_Cmd_Filter Watchdog
begin

text \<open>
  \<open>control/vehicle_cmd_gate\<close>: the last node before the vehicle.  It chooses between the commands
  of Autoware, of a remote operator and of the emergency stop operator, watches two heartbeats,
  replaces everything by an emergency stop command when one of them fails, and limits what
  it lets through.

  One definition per member function of \<open>VehicleCmdGate\<close> and \<open>PauseInterface\<close>.  Of the turn
  indicator, hazard light and gear messages the command is modelled and the time stamp is not.
  The argument \<open>fl\<close> rounds to the 32-bit fields of the control command.
\<close>

section \<open>Pause interface\<close>

record pause_state =
  pi_is_paused :: bool
  pi_is_start_requested :: bool
  pi_prev_is_paused :: "bool option"
  pi_prev_is_start_requested :: "bool option"

datatype pause_out =
    PI_PubIsPaused time bool
  | PI_PubIsStartRequested time bool

definition pi_publish :: "time \<Rightarrow> pause_state \<Rightarrow> pause_state \<times> pause_out list" where
  "pi_publish t s =
     (let (s1, o1) =
            (if pi_prev_is_paused s \<noteq> Some (pi_is_paused s)
             then (s\<lparr>pi_prev_is_paused := Some (pi_is_paused s)\<rparr>, [PI_PubIsPaused t (pi_is_paused s)])
             else (s, []));
          (s2, o2) =
            (if pi_prev_is_start_requested s1 \<noteq> Some (pi_is_start_requested s1)
             then (s1\<lparr>pi_prev_is_start_requested := Some (pi_is_start_requested s1)\<rparr>,
                   [PI_PubIsStartRequested t (pi_is_start_requested s1)])
             else (s1, []))
      in (s2, o1 @ o2))"

definition pi_update :: "control_command \<Rightarrow> pause_state \<Rightarrow> pause_state" where
  "pi_update control s = s\<lparr>pi_is_start_requested := 1 / 1000 < \<bar>cc_speed control\<bar>\<rparr>"

definition pi_on_pause :: "bool \<Rightarrow> pause_state \<Rightarrow> pause_state \<times> bool" where
  "pi_on_pause pause s = (s\<lparr>pi_is_paused := pause\<rparr>, True)"

definition pi_init :: "time \<Rightarrow> pause_state \<times> pause_out list" where
  "pi_init t =
     pi_publish t \<lparr>pi_is_paused = False, pi_is_start_requested = False, pi_prev_is_paused = None,
       pi_prev_is_start_requested = None\<rparr>"

section \<open>State of the gate\<close>

record commands =
  cm_control :: control_command
  cm_turn_indicator :: turn_indicators
  cm_hazard_light :: hazard_lights
  cm_gear :: gear

definition commands_new :: commands where
  "commands_new =
     \<lparr>cm_control = control_command_new, cm_turn_indicator = Turn_raw 0, cm_hazard_light = Hazard_raw 0,
      cm_gear = Gear_PARK\<rparr>"

record vg_param =
  vp_use_emergency_handling :: bool
  vp_check_external_emergency_heartbeat :: bool
  vp_system_emergency_heartbeat_timeout :: real
  vp_external_emergency_stop_heartbeat_timeout :: real
  vp_stop_hold_acceleration :: real
  vp_emergency_acceleration :: real

record vg_state =
  vg_is_engaged :: bool
  vg_is_system_emergency :: bool
  vg_is_external_emergency_stop :: bool
  vg_is_gate_mode_changed :: bool
  vg_current_steer :: real
  vg_current_gate_mode :: gate_mode
  vg_current_gear :: "gear option"
  vg_current_velocity :: real
  vg_current_acceleration :: real
  vg_emergency_state_heartbeat_received_time :: "time option"
  vg_is_emergency_state_heartbeat_timeout :: bool
  vg_external_emergency_stop_heartbeat_received_time :: "time option"
  vg_is_external_emergency_stop_heartbeat_timeout :: bool
  vg_auto_commands :: commands
  vg_remote_commands :: commands
  vg_emergency_commands :: commands
  vg_prev_control_cmd :: control_command
  vg_prev_time :: "time option"
  vg_filter :: vcf_state
  vg_filter_on_transition :: vcf_state
  vg_current_operation_mode :: operation_mode_state
  vg_pause :: pause_state

datatype vg_out =
    VG_PubVehicleCmdEmergency time bool
  | VG_PubControlCmd control_command
  | VG_PubGear gear
  | VG_PubTurnIndicators turn_indicators
  | VG_PubHazardLights hazard_lights
  | VG_PubGateMode gate_mode
  | VG_PubEngage time bool
  | VG_PubExternalEmergency time bool
  | VG_PubOperationMode operation_mode_state
  | VG_Pause pause_out
  | VG_Diagnostics diag_level string
  | VG_Response bool string

datatype vg_error = VG_InvalidMode

definition vg_init :: "vcf_param \<Rightarrow> vcf_param \<Rightarrow> time \<Rightarrow> vg_state" where
  "vg_init nominal on_transition t =
     \<lparr>vg_is_engaged = False, vg_is_system_emergency = False,
      vg_is_external_emergency_stop = False, vg_is_gate_mode_changed = False,
      vg_current_steer = 0, vg_current_gate_mode = GateMode_AUTO, vg_current_gear = None,
      vg_current_velocity = 0, vg_current_acceleration = 0,
      vg_emergency_state_heartbeat_received_time = None,
      vg_is_emergency_state_heartbeat_timeout = False,
      vg_external_emergency_stop_heartbeat_received_time = None,
      vg_is_external_emergency_stop_heartbeat_timeout = False,
      vg_auto_commands = commands_new, vg_remote_commands = commands_new,
      vg_emergency_commands = commands_new, vg_prev_control_cmd = control_command_new,
      vg_prev_time = None,
      vg_filter = \<lparr>fs_param = nominal, fs_prev_cmd = control_command_new\<rparr>,
      vg_filter_on_transition = \<lparr>fs_param = on_transition, fs_prev_cmd = control_command_new\<rparr>,
      vg_current_operation_mode = operation_mode_state_new OperationMode_STOP,
      vg_pause = fst (pi_init t)\<rparr>"

section \<open>Checks\<close>

definition vg_isHeartbeatTimeout :: "time \<Rightarrow> time option \<Rightarrow> real \<Rightarrow> bool" where
  "vg_isHeartbeatTimeout t heartbeat_received_time timeout =
     (if timeout = 0 then False
      else (case heartbeat_received_time of
              None \<Rightarrow> True
            | Some t0 \<Rightarrow> timeout < seconds (t - t0)))"

definition vg_isDataReady :: "vg_param \<Rightarrow> vg_state \<Rightarrow> bool" where
  "vg_isDataReady p s =
     (if vp_use_emergency_handling p \<and> vg_emergency_state_heartbeat_received_time s = None then False
      else if vp_check_external_emergency_heartbeat p \<and>
              vg_external_emergency_stop_heartbeat_received_time s = None then False
      else True)"

definition vg_emergency_mode :: "vg_param \<Rightarrow> vg_state \<Rightarrow> bool" where
  "vg_emergency_mode p s \<longleftrightarrow> vp_use_emergency_handling p \<and> vg_is_system_emergency s"

section \<open>Commands the gate creates itself\<close>

definition vg_own_cmd :: "time \<Rightarrow> real \<Rightarrow> real \<Rightarrow> real \<Rightarrow> real \<Rightarrow> control_command" where
  "vg_own_cmd t steer rate v a =
     \<lparr>cc_stamp = t,
      cc_lateral =
        \<lparr>lat_stamp = t, lat_steering_tire_angle = steer, lat_steering_tire_rotation_rate = rate\<rparr>,
      cc_longitudinal = \<lparr>lon_stamp = t, lon_speed = v, lon_acceleration = a, lon_jerk = 0\<rparr>\<rparr>"

definition vg_createStopControlCmd ::
  "(real \<Rightarrow> real) \<Rightarrow> vg_param \<Rightarrow> time \<Rightarrow> vg_state \<Rightarrow> control_command" where
  "vg_createStopControlCmd fl p t s =
     vg_own_cmd t (fl (vg_current_steer s)) 0 0 (fl (vp_stop_hold_acceleration p))"

definition vg_createEmergencyStopControlCmd ::
  "(real \<Rightarrow> real) \<Rightarrow> vg_param \<Rightarrow> time \<Rightarrow> vg_state \<Rightarrow> control_command" where
  "vg_createEmergencyStopControlCmd fl p t s =
     (let prev = cc_lateral (vg_prev_control_cmd s)
      in vg_own_cmd t (lat_steering_tire_angle prev) (lat_steering_tire_rotation_rate prev) 0
           (fl (vp_emergency_acceleration p)))"

definition vg_getActualStatusAsCommand ::
  "(real \<Rightarrow> real) \<Rightarrow> time \<Rightarrow> vg_state \<Rightarrow> control_command" where
  "vg_getActualStatusAsCommand fl t s =
     vg_own_cmd t (fl (vg_current_steer s)) 0 (fl (vg_current_velocity s))
       (fl (vg_current_acceleration s))"

section \<open>Filtering and publishing\<close>

definition vg_getDt :: "time \<Rightarrow> vg_state \<Rightarrow> vg_state \<times> real" where
  "vg_getDt t s =
     (case vg_prev_time s of
        None \<Rightarrow> (s\<lparr>vg_prev_time := Some t\<rparr>, 0)
      | Some t0 \<Rightarrow> (s\<lparr>vg_prev_time := Some t\<rparr>, seconds (t - t0)))"

definition vg_filterControlCommand ::
  "(real \<Rightarrow> real) \<Rightarrow> time \<Rightarrow> vg_state \<Rightarrow> control_command \<Rightarrow> vg_state \<times> control_command" where
  "vg_filterControlCommand fl t s input =
     (let (s1, dt) = vg_getDt t s;
          mode = vg_current_operation_mode s1;
          out = vcf_filterAll fl
            (if om_is_in_transition mode then vg_filter_on_transition s1 else vg_filter s1)
            dt (vg_current_steer s1) input;
          prev_values =
            (if om_mode mode = OperationMode_AUTONOMOUS then out
             else vg_getActualStatusAsCommand fl t s1)\<lparr>cc_longitudinal := cc_longitudinal out\<rparr>
      in (s1\<lparr>vg_filter := vcf_setPrevCmd prev_values (vg_filter s1),
             vg_filter_on_transition := vcf_setPrevCmd prev_values (vg_filter_on_transition s1)\<rparr>,
          out))"

definition vg_publishControlCommands ::
  "(real \<Rightarrow> real) \<Rightarrow> vg_param \<Rightarrow> time \<Rightarrow> commands \<Rightarrow> vg_state \<Rightarrow> vg_state \<times> vg_out list" where
  "vg_publishControlCommands fl p t cmds s =
     (if vp_use_emergency_handling p \<and> vg_is_emergency_state_heartbeat_timeout s then (s, [])
      else if vg_is_external_emergency_stop s then (s, [])
      else if \<not> vg_isDataReady p s then (s, [])
      else
        (let c0 = (if vg_emergency_mode p s then cm_control (vg_emergency_commands s)
                   else cm_control cmds);
             c1 = (if \<not> vg_is_engaged s then vg_createStopControlCmd fl p t s else c0);
             s1 = s\<lparr>vg_pause := pi_update c1 (vg_pause s)\<rparr>;
             c2 = (if pi_is_paused (vg_pause s1)
                   then cc_set_acc (fl (vp_stop_hold_acceleration p)) (cc_set_speed 0 c1) else c1);
             (s2, c3) = vg_filterControlCommand fl t s1 c2
         in (s2\<lparr>vg_prev_control_cmd := c3\<rparr>,
             [VG_PubVehicleCmdEmergency (cc_stamp c3) (vg_emergency_mode p s), VG_PubControlCmd c3])))"

definition vg_publishEmergencyStopControlCommands ::
  "(real \<Rightarrow> real) \<Rightarrow> vg_param \<Rightarrow> time \<Rightarrow> vg_state \<Rightarrow> vg_state \<times> vg_out list" where
  "vg_publishEmergencyStopControlCommands fl p t s =
     (let control_cmd = vg_createEmergencyStopControlCmd fl p t s
      in (s\<lparr>vg_pause := pi_update control_cmd (vg_pause s)\<rparr>,
          [VG_PubVehicleCmdEmergency t True, VG_PubControlCmd control_cmd,
           VG_PubTurnIndicators Turn_NO_COMMAND, VG_PubHazardLights Hazard_ENABLE,
           VG_PubGear (Gear_raw 0)]))"

definition vg_publishStatus :: "time \<Rightarrow> vg_state \<Rightarrow> vg_state \<times> vg_out list" where
  "vg_publishStatus t s =
     (let (pause, outs) = pi_publish t (vg_pause s)
      in (s\<lparr>vg_pause := pause\<rparr>,
          [VG_PubGateMode (vg_current_gate_mode s), VG_PubEngage t (vg_is_engaged s),
           VG_PubExternalEmergency t (vg_is_external_emergency_stop s),
           VG_PubOperationMode (vg_current_operation_mode s)] @ map VG_Pause outs))"

section \<open>Control commands\<close>

definition vg_onAutoCtrlCmd ::
  "(real \<Rightarrow> real) \<Rightarrow> vg_param \<Rightarrow> time \<Rightarrow> control_command \<Rightarrow> vg_state \<Rightarrow> vg_state \<times> vg_out list" where
  "vg_onAutoCtrlCmd fl p t msg s =
     (let s1 = s\<lparr>vg_auto_commands := (vg_auto_commands s)\<lparr>cm_control := msg\<rparr>\<rparr>
      in if vg_current_gate_mode s1 = GateMode_AUTO
         then vg_publishControlCommands fl p t (vg_auto_commands s1) s1 else (s1, []))"

definition vg_onRemoteCtrlCmd ::
  "(real \<Rightarrow> real) \<Rightarrow> vg_param \<Rightarrow> time \<Rightarrow> control_command \<Rightarrow> vg_state \<Rightarrow> vg_state \<times> vg_out list" where
  "vg_onRemoteCtrlCmd fl p t msg s =
     (let s1 = s\<lparr>vg_remote_commands := (vg_remote_commands s)\<lparr>cm_control := msg\<rparr>\<rparr>
      in if vg_current_gate_mode s1 = GateMode_EXTERNAL
         then vg_publishControlCommands fl p t (vg_remote_commands s1) s1 else (s1, []))"

definition vg_onEmergencyCtrlCmd ::
  "(real \<Rightarrow> real) \<Rightarrow> vg_param \<Rightarrow> time \<Rightarrow> control_command \<Rightarrow> vg_state \<Rightarrow> vg_state \<times> vg_out list" where
  "vg_onEmergencyCtrlCmd fl p t msg s =
     (let s1 = s\<lparr>vg_emergency_commands := (vg_emergency_commands s)\<lparr>cm_control := msg\<rparr>\<rparr>
      in if vg_emergency_mode p s1
         then vg_publishControlCommands fl p t (vg_emergency_commands s1) s1 else (s1, []))"

section \<open>Timer\<close>

definition vg_checkExternalEmergencyStop :: "vg_state \<Rightarrow> vg_out" where
  "vg_checkExternalEmergencyStop s =
     (if vg_is_external_emergency_stop_heartbeat_timeout s
      then VG_Diagnostics DL_ERROR ''external_emergency_stop heartbeat is timeout.''
      else if vg_is_external_emergency_stop s
      then VG_Diagnostics DL_ERROR (''external_emergency_stop is required. '' @
        ''Please call `clear_external_emergency_stop` service to clear state.'')
      else VG_Diagnostics DL_OK [])"

definition vg_select_commands :: "vg_param \<Rightarrow> vg_state \<Rightarrow> vg_error + commands" where
  "vg_select_commands p s =
     (if vg_emergency_mode p s then Inr (vg_emergency_commands s)
      else if vg_current_gate_mode s = GateMode_AUTO then
        Inr (if \<not> vg_is_engaged s
             then (vg_auto_commands s)
               \<lparr>cm_gear := (case vg_current_gear s of None \<Rightarrow> Gear_NONE | Some g \<Rightarrow> g),
                cm_turn_indicator := Turn_NO_COMMAND, cm_hazard_light := Hazard_NO_COMMAND\<rparr>
             else vg_auto_commands s)
      else if vg_current_gate_mode s = GateMode_EXTERNAL then Inr (vg_remote_commands s)
      else Inl VG_InvalidMode)"

text \<open>
  The part of \<open>onTimer\<close> after the heartbeat of the system emergency has been found alive.
\<close>

definition vg_timer_alive ::
  "(real \<Rightarrow> real) \<Rightarrow> vg_param \<Rightarrow> time \<Rightarrow> vg_state \<Rightarrow> vg_error + (vg_state \<times> vg_out list)" where
  "vg_timer_alive fl p t s =
     (let s1 =
            (if vp_check_external_emergency_heartbeat p then
               (let timeout = vg_isHeartbeatTimeout t
                      (vg_external_emergency_stop_heartbeat_received_time s)
                      (vp_external_emergency_stop_heartbeat_timeout p);
                    s' = s\<lparr>vg_is_external_emergency_stop_heartbeat_timeout := timeout\<rparr>
                in if timeout then s'\<lparr>vg_is_external_emergency_stop := True\<rparr> else s')
             else s)
      in
      if vg_is_external_emergency_stop s1 then
        Inr (vg_publishEmergencyStopControlCommands fl p t s1)
      else if vg_is_gate_mode_changed s1 then Inr (s1\<lparr>vg_is_gate_mode_changed := False\<rparr>, [])
      else
        err_bind (vg_select_commands p s1) (\<lambda>c.
          Inr (s1, [VG_PubTurnIndicators (cm_turn_indicator c),
            VG_PubHazardLights (cm_hazard_light c), VG_PubGear (cm_gear c)])))"

definition vg_onTimer ::
  "(real \<Rightarrow> real) \<Rightarrow> vg_param \<Rightarrow> time \<Rightarrow> vg_state \<Rightarrow> vg_error + (vg_state \<times> vg_out list)" where
  "vg_onTimer fl p t s =
     err_bind
       (if \<not> vg_isDataReady p s then Inr (s, [])
        else if vp_use_emergency_handling p then
          (let timeout = vg_isHeartbeatTimeout t (vg_emergency_state_heartbeat_received_time s)
                 (vp_system_emergency_heartbeat_timeout p);
               s1 = s\<lparr>vg_is_emergency_state_heartbeat_timeout := timeout\<rparr>
           in if timeout then Inr (vg_publishEmergencyStopControlCommands fl p t s1)
              else vg_timer_alive fl p t s1)
        else vg_timer_alive fl p t s)
       (\<lambda>(s1, outs). Inr (s1, vg_checkExternalEmergencyStop s # outs))"

section \<open>Other subscriptions and services\<close>

definition vg_onExternalEmergencyStopHeartbeat :: "time \<Rightarrow> vg_state \<Rightarrow> vg_state" where
  "vg_onExternalEmergencyStopHeartbeat t s =
     s\<lparr>vg_external_emergency_stop_heartbeat_received_time := Some t\<rparr>"

definition vg_onGateMode :: "gate_mode \<Rightarrow> vg_state \<Rightarrow> vg_state" where
  "vg_onGateMode msg s = s\<lparr>vg_current_gate_mode := msg, vg_is_gate_mode_changed := True\<rparr>"

definition vg_onEngage :: "bool \<Rightarrow> vg_state \<Rightarrow> vg_state" where
  "vg_onEngage engage s = s\<lparr>vg_is_engaged := engage\<rparr>"

definition vg_onEngageService :: "bool \<Rightarrow> vg_state \<Rightarrow> vg_state \<times> vg_out list" where
  "vg_onEngageService engage s = (s\<lparr>vg_is_engaged := engage\<rparr>, [VG_Response True []])"

definition vg_onMrmState :: "mrm_state \<Rightarrow> time \<Rightarrow> vg_state \<Rightarrow> vg_state" where
  "vg_onMrmState msg t s =
     s\<lparr>vg_is_system_emergency :=
         (ms_state msg = MrmState_MRM_OPERATING \<or> ms_state msg = MrmState_MRM_SUCCEEDED \<or>
          ms_state msg = MrmState_MRM_FAILED) \<and> ms_behavior msg = MrmState_EMERGENCY_STOP,
       vg_emergency_state_heartbeat_received_time := Some t\<rparr>"

definition vg_onSetExternalEmergencyStopService :: "vg_state \<Rightarrow> vg_state \<times> vg_out list" where
  "vg_onSetExternalEmergencyStopService s =
     (s\<lparr>vg_is_external_emergency_stop := True\<rparr>,
      [VG_Response True ''external_emergency_stop requested was accepted.''])"

definition vg_onClearExternalEmergencyStopService :: "vg_state \<Rightarrow> vg_state \<times> vg_out list" where
  "vg_onClearExternalEmergencyStopService s =
     (if vg_is_external_emergency_stop s then
        (if \<not> vg_is_external_emergency_stop_heartbeat_timeout s then
           (s\<lparr>vg_is_external_emergency_stop := False\<rparr>,
            [VG_Response True ''external_emergency_stop state was cleared.''])
         else (s, [VG_Response False
           (''Couldn't clear external_emergency_stop state because heartbeat is timeout.'')]))
      else (s, [VG_Response False ''Not in external_emergency_stop state.'']))"

definition vg_onExternalEmergencyStopService :: "bool \<Rightarrow> vg_state \<Rightarrow> vg_state \<times> vg_out list" where
  "vg_onExternalEmergencyStopService emergency s =
     (if emergency then vg_onSetExternalEmergencyStopService s
      else vg_onClearExternalEmergencyStopService s)"

section \<open>Events and reachable states\<close>

datatype command_source = Src_Auto | Src_Remote | Src_Emergency

datatype vg_event =
    VG_ControlCmd command_source control_command
  | VG_TurnIndicators command_source turn_indicators
  | VG_HazardLights command_source hazard_lights
  | VG_Gear command_source gear
  | VG_Heartbeat
  | VG_GateMode gate_mode
  | VG_Engage bool
  | VG_EngageService bool
  | VG_Velocity real
  | VG_Acceleration real
  | VG_Steer real
  | VG_OperationMode operation_mode_state
  | VG_MrmState mrm_state
  | VG_GearReport gear
  | VG_ExternalEmergency bool
  | VG_SetExternalEmergencyStop
  | VG_ClearExternalEmergencyStop
  | VG_SetPause bool
  | VG_Timer
  | VG_TimerPubStatus

fun vg_map_commands :: "command_source \<Rightarrow> (commands \<Rightarrow> commands) \<Rightarrow> vg_state \<Rightarrow> vg_state" where
  "vg_map_commands Src_Auto f s = s\<lparr>vg_auto_commands := f (vg_auto_commands s)\<rparr>"
| "vg_map_commands Src_Remote f s = s\<lparr>vg_remote_commands := f (vg_remote_commands s)\<rparr>"
| "vg_map_commands Src_Emergency f s = s\<lparr>vg_emergency_commands := f (vg_emergency_commands s)\<rparr>"

text \<open>The turn indicator topic of the emergency source has no subscription: the event changes nothing.\<close>

fun vg_handle :: "(real \<Rightarrow> real) \<Rightarrow> vg_param \<Rightarrow> time \<Rightarrow> vg_event \<Rightarrow> vg_state \<Rightarrow>
    vg_error + (vg_state \<times> vg_out list)" where
  "vg_handle fl p t (VG_ControlCmd Src_Auto c) s = Inr (vg_onAutoCtrlCmd fl p t c s)"
| "vg_handle fl p t (VG_ControlCmd Src_Remote c) s = Inr (vg_onRemoteCtrlCmd fl p t c s)"
| "vg_handle fl p t (VG_ControlCmd Src_Emergency c) s = Inr (vg_onEmergencyCtrlCmd fl p t c s)"
| "vg_handle fl p t (VG_TurnIndicators src x) s =
     Inr (if src = Src_Emergency then s else vg_map_commands src (cm_turn_indicator_update (\<lambda>_. x)) s, [])"
| "vg_handle fl p t (VG_HazardLights src x) s =
     Inr (vg_map_commands src (cm_hazard_light_update (\<lambda>_. x)) s, [])"
| "vg_handle fl p t (VG_Gear src x) s = Inr (vg_map_commands src (cm_gear_update (\<lambda>_. x)) s, [])"
| "vg_handle fl p t VG_Heartbeat s = Inr (vg_onExternalEmergencyStopHeartbeat t s, [])"
| "vg_handle fl p t (VG_GateMode m) s = Inr (vg_onGateMode m s, [])"
| "vg_handle fl p t (VG_Engage b) s = Inr (vg_onEngage b s, [])"
| "vg_handle fl p t (VG_EngageService b) s = Inr (vg_onEngageService b s)"
| "vg_handle fl p t (VG_Velocity v) s = Inr (s\<lparr>vg_current_velocity := v\<rparr>, [])"
| "vg_handle fl p t (VG_Acceleration a) s = Inr (s\<lparr>vg_current_acceleration := a\<rparr>, [])"
| "vg_handle fl p t (VG_Steer d) s = Inr (s\<lparr>vg_current_steer := d\<rparr>, [])"
| "vg_handle fl p t (VG_OperationMode m) s = Inr (s\<lparr>vg_current_operation_mode := m\<rparr>, [])"
| "vg_handle fl p t (VG_MrmState m) s = Inr (vg_onMrmState m t s, [])"
| "vg_handle fl p t (VG_GearReport g) s = Inr (s\<lparr>vg_current_gear := Some g\<rparr>, [])"
| "vg_handle fl p t (VG_ExternalEmergency b) s = Inr (vg_onExternalEmergencyStopService b s)"
| "vg_handle fl p t VG_SetExternalEmergencyStop s = Inr (vg_onSetExternalEmergencyStopService s)"
| "vg_handle fl p t VG_ClearExternalEmergencyStop s = Inr (vg_onClearExternalEmergencyStopService s)"
| "vg_handle fl p t (VG_SetPause b) s =
     (let (pause, success) = pi_on_pause b (vg_pause s)
      in Inr (s\<lparr>vg_pause := pause\<rparr>, [VG_Response success []]))"
| "vg_handle fl p t VG_Timer s = vg_onTimer fl p t s"
| "vg_handle fl p t VG_TimerPubStatus s = Inr (vg_publishStatus t s)"

inductive vg_reachable ::
  "(real \<Rightarrow> real) \<Rightarrow> vg_param \<Rightarrow> vcf_param \<Rightarrow> vcf_param \<Rightarrow> vg_state \<Rightarrow> bool"
  for fl p nominal on_transition where
  vg_reachable_init: "vg_reachable fl p nominal on_transition (vg_init nominal on_transition t)"
| vg_reachable_step:
    "vg_reachable fl p nominal on_transition s \<Longrightarrow> vg_handle fl p t ev s = Inr (s', outs) \<Longrightarrow>
     vg_reachable fl p nominal on_transition s'"

lemmas vg_sub_defs = vg_onExternalEmergencyStopHeartbeat_def vg_onGateMode_def vg_onEngage_def
  vg_onEngageService_def vg_onMrmState_def vg_onSetExternalEmergencyStopService_def
  vg_onClearExternalEmergencyStopService_def vg_onExternalEmergencyStopService_def pi_on_pause_def

lemmas vg_cmd_defs = vg_onAutoCtrlCmd_def vg_onRemoteCtrlCmd_def vg_onEmergencyCtrlCmd_def

section \<open>What publishing leaves alone\<close>

lemma vg_filter_frame [frame_simps]:
  "fs_param (vg_filter (fst (vg_filterControlCommand fl t s c))) = fs_param (vg_filter s)"
  "fs_param (vg_filter_on_transition (fst (vg_filterControlCommand fl t s c))) =
     fs_param (vg_filter_on_transition s)"
  "vg_is_external_emergency_stop (fst (vg_filterControlCommand fl t s c)) =
     vg_is_external_emergency_stop s"
  by (auto simp: vg_filterControlCommand_def vg_getDt_def vcf_setPrevCmd_def Let_def
      split: option.splits)

lemma vg_filter_out:
  "\<exists>f dt. snd (vg_filterControlCommand fl t s c) = vcf_filterAll fl f dt (vg_current_steer s) c \<and>
     (f = vg_filter s \<or> f = vg_filter_on_transition s)"
  by (auto simp: vg_filterControlCommand_def vg_getDt_def Let_def split: option.splits)

lemma vg_publish_cases:
  obtains (silent) "vg_publishControlCommands fl p t cmds s = (s, [])"
  | (filtered) pause c s2 c3 where
      "vg_filterControlCommand fl t (s\<lparr>vg_pause := pause\<rparr>) c = (s2, c3)"
      "vg_publishControlCommands fl p t cmds s = (s2\<lparr>vg_prev_control_cmd := c3\<rparr>,
         [VG_PubVehicleCmdEmergency (cc_stamp c3) (vg_emergency_mode p s), VG_PubControlCmd c3])"
      "\<not> vg_is_external_emergency_stop s" "vg_isDataReady p s"
  by (cases "vg_publishControlCommands fl p t cmds s = (s, [])")
    (auto simp: vg_publishControlCommands_def Let_def split: prod.splits if_splits)

lemma vg_publish_frame [frame_simps]:
  "fs_param (vg_filter (fst (vg_publishControlCommands fl p t c s))) = fs_param (vg_filter s)"
  "fs_param (vg_filter_on_transition (fst (vg_publishControlCommands fl p t c s))) =
     fs_param (vg_filter_on_transition s)"
proof -
  have "fs_param (vg_filter (fst (vg_publishControlCommands fl p t c s))) = fs_param (vg_filter s) \<and>
    fs_param (vg_filter_on_transition (fst (vg_publishControlCommands fl p t c s))) =
      fs_param (vg_filter_on_transition s)"
  proof (cases rule: vg_publish_cases [of fl p t c s])
    case (filtered pause c0 s2 c3)
    with vg_filter_frame(1,2) [of fl t "s\<lparr>vg_pause := pause\<rparr>" c0] show ?thesis by simp
  qed simp
  then show "fs_param (vg_filter (fst (vg_publishControlCommands fl p t c s))) = fs_param (vg_filter s)"
    and "fs_param (vg_filter_on_transition (fst (vg_publishControlCommands fl p t c s))) =
      fs_param (vg_filter_on_transition s)" by simp_all
qed

lemma vg_publish_stopped [simp]:
  "vg_is_external_emergency_stop s \<Longrightarrow> vg_publishControlCommands fl p t c s = (s, [])"
  by (simp add: vg_publishControlCommands_def)

text \<open>The timer, by cases.\<close>

definition vg_external_timeout :: "vg_param \<Rightarrow> time \<Rightarrow> vg_state \<Rightarrow> bool" where
  "vg_external_timeout p t s \<longleftrightarrow> vp_check_external_emergency_heartbeat p \<and>
     vg_isHeartbeatTimeout t (vg_external_emergency_stop_heartbeat_received_time s)
       (vp_external_emergency_stop_heartbeat_timeout p)"

definition vg_system_timeout :: "vg_param \<Rightarrow> time \<Rightarrow> vg_state \<Rightarrow> bool" where
  "vg_system_timeout p t s \<longleftrightarrow> vp_use_emergency_handling p \<and>
     vg_isHeartbeatTimeout t (vg_emergency_state_heartbeat_received_time s)
       (vp_system_emergency_heartbeat_timeout p)"

text \<open>What both emergency exits of the timer publish.\<close>

definition vg_stop_outputs :: "(real \<Rightarrow> real) \<Rightarrow> vg_param \<Rightarrow> time \<Rightarrow> vg_state \<Rightarrow> vg_out list" where
  "vg_stop_outputs fl p t s =
     [VG_PubVehicleCmdEmergency t True, VG_PubControlCmd (vg_createEmergencyStopControlCmd fl p t s),
      VG_PubTurnIndicators Turn_NO_COMMAND, VG_PubHazardLights Hazard_ENABLE, VG_PubGear (Gear_raw 0)]"

lemma vg_stop_outputs_frame [simp]:
  "vg_stop_outputs fl p t (s\<lparr>vg_is_emergency_state_heartbeat_timeout := b\<rparr>) = vg_stop_outputs fl p t s"
  "vg_stop_outputs fl p t (s\<lparr>vg_is_external_emergency_stop_heartbeat_timeout := b\<rparr>) = vg_stop_outputs fl p t s"
  "vg_stop_outputs fl p t (s\<lparr>vg_is_external_emergency_stop := b\<rparr>) = vg_stop_outputs fl p t s"
  by (simp_all add: vg_stop_outputs_def vg_createEmergencyStopControlCmd_def)

lemma vg_emergency_stop_out:
  "\<exists>pause. vg_publishEmergencyStopControlCommands fl p t s =
     (s\<lparr>vg_pause := pause\<rparr>, vg_stop_outputs fl p t s)"
  by (auto simp: vg_publishEmergencyStopControlCommands_def vg_stop_outputs_def Let_def)

text \<open>The state after the flags of the two heartbeats have been updated.\<close>

definition vg_flags :: "vg_param \<Rightarrow> time \<Rightarrow> vg_state \<Rightarrow> vg_state" where
  "vg_flags p t s =
     (let s1 = (if vp_use_emergency_handling p
            then s\<lparr>vg_is_emergency_state_heartbeat_timeout := False\<rparr> else s);
          s2 = (if vp_check_external_emergency_heartbeat p
            then s1\<lparr>vg_is_external_emergency_stop_heartbeat_timeout := vg_external_timeout p t s\<rparr> else s1)
      in if vg_external_timeout p t s then s2\<lparr>vg_is_external_emergency_stop := True\<rparr> else s2)"

lemma vg_flags_frame [simp]:
  "vg_is_external_emergency_stop (vg_flags p t s) \<longleftrightarrow>
     vg_is_external_emergency_stop s \<or> vg_external_timeout p t s"
  "vg_is_gate_mode_changed (vg_flags p t s) = vg_is_gate_mode_changed s"
  "vg_select_commands p (vg_flags p t s) = vg_select_commands p s"
  "vg_filter (vg_flags p t s) = vg_filter s"
  "vg_filter_on_transition (vg_flags p t s) = vg_filter_on_transition s"
  "vg_stop_outputs fl p t (vg_flags p t s) = vg_stop_outputs fl p t s"
  by (simp_all add: vg_flags_def vg_select_commands_def vg_emergency_mode_def Let_def)

lemma vg_timer_alive_eq:
  assumes "\<not> vg_system_timeout p t s"
  shows "vg_timer_alive fl p t
      (if vp_use_emergency_handling p then s\<lparr>vg_is_emergency_state_heartbeat_timeout := False\<rparr> else s) =
    (if vg_is_external_emergency_stop s \<or> vg_external_timeout p t s then
       Inr (vg_publishEmergencyStopControlCommands fl p t (vg_flags p t s))
     else if vg_is_gate_mode_changed s then Inr ((vg_flags p t s)\<lparr>vg_is_gate_mode_changed := False\<rparr>, [])
     else
       err_bind (vg_select_commands p s) (\<lambda>c.
         Inr (vg_flags p t s, [VG_PubTurnIndicators (cm_turn_indicator c),
           VG_PubHazardLights (cm_hazard_light c), VG_PubGear (cm_gear c)])))"
  by (auto simp: vg_timer_alive_def vg_flags_def vg_external_timeout_def vg_select_commands_def
      vg_emergency_mode_def Let_def simp del: err_bind_Inr_iff)

lemma vg_onTimer_eq:
  "vg_onTimer fl p t s =
     err_bind
       (if \<not> vg_isDataReady p s then Inr (s, [])
        else if vg_system_timeout p t s then
          Inr (vg_publishEmergencyStopControlCommands fl p t
            (s\<lparr>vg_is_emergency_state_heartbeat_timeout := True\<rparr>))
        else vg_timer_alive fl p t
          (if vp_use_emergency_handling p then s\<lparr>vg_is_emergency_state_heartbeat_timeout := False\<rparr> else s))
       (\<lambda>(s1, outs). Inr (s1, vg_checkExternalEmergencyStop s # outs))"
  by (simp add: vg_onTimer_def vg_system_timeout_def Let_def)

lemma vg_onTimer_cases [consumes 1]:
  assumes "vg_onTimer fl p t s = Inr (s', outs)"
  obtains (waiting) "\<not> vg_isDataReady p s" "s' = s" "outs = [vg_checkExternalEmergencyStop s]"
  | (system) pause where "vg_isDataReady p s" "vg_system_timeout p t s"
      "s' = s\<lparr>vg_is_emergency_state_heartbeat_timeout := True, vg_pause := pause\<rparr>"
      "outs = vg_checkExternalEmergencyStop s # vg_stop_outputs fl p t s"
  | (external) pause where "vg_isDataReady p s" "\<not> vg_system_timeout p t s"
      "vg_is_external_emergency_stop s \<or> vg_external_timeout p t s"
      "s' = (vg_flags p t s)\<lparr>vg_pause := pause\<rparr>"
      "outs = vg_checkExternalEmergencyStop s # vg_stop_outputs fl p t s"
  | (changed) "vg_isDataReady p s" "\<not> vg_system_timeout p t s"
      "\<not> vg_is_external_emergency_stop s" "\<not> vg_external_timeout p t s" "vg_is_gate_mode_changed s"
      "s' = (vg_flags p t s)\<lparr>vg_is_gate_mode_changed := False\<rparr>"
      "outs = [vg_checkExternalEmergencyStop s]"
  | (selected) c where "vg_isDataReady p s" "\<not> vg_system_timeout p t s"
      "\<not> vg_is_external_emergency_stop s" "\<not> vg_external_timeout p t s"
      "\<not> vg_is_gate_mode_changed s" "vg_select_commands p s = Inr c" "s' = vg_flags p t s"
      "outs = [vg_checkExternalEmergencyStop s, VG_PubTurnIndicators (cm_turn_indicator c),
         VG_PubHazardLights (cm_hazard_light c), VG_PubGear (cm_gear c)]"
proof (cases "vg_isDataReady p s")
  case False
  with assms have "s' = s" "outs = [vg_checkExternalEmergencyStop s]" by (auto simp: vg_onTimer_eq)
  with False show ?thesis by (rule waiting)
next
  case ready: True
  show ?thesis
  proof (cases "vg_system_timeout p t s")
    case True
    obtain pause where "vg_publishEmergencyStopControlCommands fl p t
        (s\<lparr>vg_is_emergency_state_heartbeat_timeout := True\<rparr>) =
      (s\<lparr>vg_is_emergency_state_heartbeat_timeout := True, vg_pause := pause\<rparr>, vg_stop_outputs fl p t s)"
      using vg_emergency_stop_out [of fl p t "s\<lparr>vg_is_emergency_state_heartbeat_timeout := True\<rparr>"]
      by auto
    with assms ready True
    have "s' = s\<lparr>vg_is_emergency_state_heartbeat_timeout := True, vg_pause := pause\<rparr>"
      "outs = vg_checkExternalEmergencyStop s # vg_stop_outputs fl p t s"
      by (simp_all add: vg_onTimer_eq)
    with ready True show ?thesis by (rule system)
  next
    case alive: False
    note eq = vg_timer_alive_eq [OF alive, of fl]
    show ?thesis
    proof (cases "vg_is_external_emergency_stop s \<or> vg_external_timeout p t s")
      case True
      obtain pause where "vg_publishEmergencyStopControlCommands fl p t (vg_flags p t s) =
        ((vg_flags p t s)\<lparr>vg_pause := pause\<rparr>, vg_stop_outputs fl p t s)"
        using vg_emergency_stop_out [of fl p t "vg_flags p t s"] by auto
      with assms ready alive True have "s' = (vg_flags p t s)\<lparr>vg_pause := pause\<rparr>"
        "outs = vg_checkExternalEmergencyStop s # vg_stop_outputs fl p t s"
        by (simp_all add: vg_onTimer_eq eq)
      with ready alive True show ?thesis by (rule external)
    next
      case False
      then have free: "\<not> vg_is_external_emergency_stop s" "\<not> vg_external_timeout p t s" by simp_all
      show ?thesis
      proof (cases "vg_is_gate_mode_changed s")
        case True
        with assms ready alive free have "s' = (vg_flags p t s)\<lparr>vg_is_gate_mode_changed := False\<rparr>"
          "outs = [vg_checkExternalEmergencyStop s]"
          by (simp_all add: vg_onTimer_eq eq)
        with ready alive free True show ?thesis by (rule changed)
      next
        case False
        with assms ready alive free obtain c where "vg_select_commands p s = Inr c"
          "s' = vg_flags p t s"
          "outs = [vg_checkExternalEmergencyStop s, VG_PubTurnIndicators (cm_turn_indicator c),
             VG_PubHazardLights (cm_hazard_light c), VG_PubGear (cm_gear c)]"
          by (auto simp: vg_onTimer_eq eq)
        with ready alive free False show ?thesis by (rule selected)
      qed
    qed
  qed
qed

section \<open>The parameters of the two filters never change\<close>

definition vg_params :: "vg_state \<Rightarrow> vcf_param \<times> vcf_param" where
  "vg_params s = (fs_param (vg_filter s), fs_param (vg_filter_on_transition s))"

lemma vg_params_publish: "vg_params (fst (vg_publishControlCommands fl p t c s)) = vg_params s"
  by (simp add: vg_params_def frame_simps)

lemma vg_params_map: "vg_params (vg_map_commands src f s) = vg_params s"
  by (cases src) (simp_all add: vg_params_def)

lemma vg_control_cmd_cases:
  assumes "vg_handle fl p t (VG_ControlCmd src c) s = Inr r"
  shows "\<exists>cmds. r = vg_publishControlCommands fl p t cmds (vg_map_commands src (cm_control_update (\<lambda>_. c)) s)
    \<or> r = (vg_map_commands src (cm_control_update (\<lambda>_. c)) s, [])"
  using assms by (cases src) (auto simp: vg_cmd_defs Let_def split: if_splits)

lemma vg_params_control:
  assumes "vg_handle fl p t (VG_ControlCmd src c) s = Inr (s', outs)"
  shows "vg_params s' = vg_params s"
  using vg_control_cmd_cases [OF assms] vg_params_publish vg_params_map by (metis fst_conv)

lemma vg_params_handle:
  assumes "vg_handle fl p t ev s = Inr (s', outs)" shows "vg_params s' = vg_params s"
proof (cases ev)
  case (VG_ControlCmd src c)
  with assms vg_params_control show ?thesis by blast
next
  case (VG_TurnIndicators src x)
  with assms show ?thesis by (auto simp: vg_params_map split: if_splits)
next
  case (VG_HazardLights src x)
  with assms show ?thesis by (auto simp: vg_params_map)
next
  case (VG_Gear src x)
  with assms show ?thesis by (auto simp: vg_params_map)
next
  case VG_Timer
  with assms have "vg_onTimer fl p t s = Inr (s', outs)" by simp
  then show ?thesis by (cases rule: vg_onTimer_cases) (simp_all add: vg_params_def)
next
  case VG_TimerPubStatus
  with assms show ?thesis by (auto simp: vg_publishStatus_def vg_params_def split: prod.splits)
qed (use assms in \<open>auto simp: vg_sub_defs vg_params_def split: if_splits\<close>)

lemma vg_reachable_params:
  "vg_reachable fl p nominal on_transition s \<Longrightarrow> vg_params s = (nominal, on_transition)"
  by (induction rule: vg_reachable.induct) (simp add: vg_params_def vg_init_def, simp add: vg_params_handle)

section \<open>Where a published control command comes from\<close>

lemma vg_publish_origin:
  assumes "VG_PubControlCmd c \<in> set (snd (vg_publishControlCommands fl p t cmds s))"
  shows "\<not> vg_is_external_emergency_stop s \<and>
    (\<exists>f dt steer c0. c = vcf_filterAll fl f dt steer c0 \<and>
       (fs_param f = fst (vg_params s) \<or> fs_param f = snd (vg_params s)))"
proof (cases rule: vg_publish_cases [of fl p t cmds s])
  case (filtered pause c0 s2 c3)
  obtain f dt where "c3 = vcf_filterAll fl f dt (vg_current_steer s) c0"
    "f = vg_filter s \<or> f = vg_filter_on_transition s"
    using vg_filter_out [of fl t "s\<lparr>vg_pause := pause\<rparr>" c0] filtered(1) by auto
  with filtered assms show ?thesis by (auto simp: vg_params_def)
qed (use assms in simp)

lemma vg_control_origin_cmd:
  assumes "vg_handle fl p t (VG_ControlCmd src c1) s = Inr (s', outs)"
    and "VG_PubControlCmd c \<in> set outs"
  shows "\<not> vg_is_external_emergency_stop s \<and>
    (\<exists>f dt steer c0. c = vcf_filterAll fl f dt steer c0 \<and>
       (fs_param f = fst (vg_params s) \<or> fs_param f = snd (vg_params s)))"
proof -
  have upd: "vg_params (vg_map_commands src f s) = vg_params s"
    "vg_is_external_emergency_stop (vg_map_commands src f s) = vg_is_external_emergency_stop s" for f
    by (cases src; simp add: vg_params_def)+
  let ?s = "vg_map_commands src (cm_control_update (\<lambda>_. c1)) s"
  obtain cmds where "VG_PubControlCmd c \<in> set (snd (vg_publishControlCommands fl p t cmds ?s))"
    using vg_control_cmd_cases [OF assms(1)] assms(2)
    by (metis empty_iff list.set(1) prod.inject snd_conv)
  from vg_publish_origin [OF this] show ?thesis by (simp add: upd)
qed

lemma vg_control_origin:
  assumes "vg_handle fl p t ev s = Inr (s', outs)" and "VG_PubControlCmd c \<in> set outs"
  shows "c = vg_createEmergencyStopControlCmd fl p t s \<or>
    \<not> vg_is_external_emergency_stop s \<and>
    (\<exists>f dt steer c0. c = vcf_filterAll fl f dt steer c0 \<and>
       (fs_param f = fst (vg_params s) \<or> fs_param f = snd (vg_params s)))"
proof (cases ev)
  case (VG_ControlCmd src c1)
  with assms vg_control_origin_cmd show ?thesis by blast
next
  case VG_Timer
  with assms(1) have "vg_onTimer fl p t s = Inr (s', outs)" by simp
  then show ?thesis
    using assms(2) by (cases rule: vg_onTimer_cases)
      (auto simp: vg_checkExternalEmergencyStop_def vg_stop_outputs_def split: if_splits)
next
  case VG_TimerPubStatus
  with assms show ?thesis by (auto simp: vg_publishStatus_def split: prod.splits)
qed (use assms in \<open>auto simp: vg_sub_defs split: if_splits\<close>)

section \<open>Properties\<close>

definition vg_ex_param :: vg_param where
  "vg_ex_param =
     \<lparr>vp_use_emergency_handling = True, vp_check_external_emergency_heartbeat = True,
      vp_system_emergency_heartbeat_timeout = 1 / 2,
      vp_external_emergency_stop_heartbeat_timeout = 1 / 2,
      vp_stop_hold_acceleration = - 3 / 2, vp_emergency_acceleration = - 12 / 5\<rparr>"

definition vg_ex_state :: "mrm_state \<Rightarrow> vg_state" where
  "vg_ex_state m =
     vg_onEngage True (vg_onMrmState m 0 (vg_onExternalEmergencyStopHeartbeat 0
       (vg_init (fs_param vcf_ex) (fs_param vcf_ex) 0)))"

lemma vg_ex_reachable: "vg_reachable fl p (fs_param vcf_ex) (fs_param vcf_ex) (vg_ex_state m)"
proof -
  let ?i = "vg_init (fs_param vcf_ex) (fs_param vcf_ex) 0"
  have "vg_reachable fl p (fs_param vcf_ex) (fs_param vcf_ex) (vg_onExternalEmergencyStopHeartbeat 0 ?i)"
    by (rule vg_reachable_step [OF vg_reachable_init, where ev = VG_Heartbeat and t = 0])
      (simp only: vg_handle.simps)
  then have "vg_reachable fl p (fs_param vcf_ex) (fs_param vcf_ex)
      (vg_onMrmState m 0 (vg_onExternalEmergencyStopHeartbeat 0 ?i))"
    by (rule vg_reachable_step [where ev = "VG_MrmState m" and t = 0]) (simp only: vg_handle.simps)
  then show ?thesis unfolding vg_ex_state_def
    by (rule vg_reachable_step [where ev = "VG_Engage True"]) (simp only: vg_handle.simps)
qed

lemmas vg_ex_defs = vg_ex_state_def vg_ex_param_def vg_init_def vg_sub_defs vcf_ex_def

text \<open>C13: Every control command the gate ever publishes is either its own emergency stop command or
  has a speed and an acceleration within the limits of one of the two filters (rounded to 32-bit
  floats), whichever source sent it and in whatever state the gate is.\<close>

theorem vg_every_command_bounded:
  assumes "float_cast fl" and "vcf_param_ok nominal" and "vcf_param_ok on_transition"
    and "vg_reachable fl p nominal on_transition s"
    and "vg_handle fl p t ev s = Inr (s', outs)" and "VG_PubControlCmd c \<in> set outs"
  shows "cc_speed c = 0 \<and> cc_acc c = fl (vp_emergency_acceleration p) \<or>
    (\<exists>q \<in> {nominal, on_transition}.
       \<bar>cc_speed c\<bar> \<le> fl (fp_vel_lim q) \<and> \<bar>cc_acc c\<bar> \<le> fl (fp_lon_acc_lim q))"
  using vg_control_origin [OF assms(5,6)]
proof (elim disjE conjE exE)
  assume "c = vg_createEmergencyStopControlCmd fl p t s"
  then show ?thesis by (simp add: vg_createEmergencyStopControlCmd_def vg_own_cmd_def Let_def)
next
  fix f dt steer c0
  assume c: "c = vcf_filterAll fl f dt steer c0" and "fs_param f = fst (vg_params s)"
  then have "fs_param f = nominal" using vg_reachable_params [OF assms(4)] by simp
  with vcf_speed_acc_bounds [OF assms(1), of f] assms(2) c show ?thesis by auto
next
  fix f dt steer c0
  assume c: "c = vcf_filterAll fl f dt steer c0" and "fs_param f = snd (vg_params s)"
  then have "fs_param f = on_transition" using vg_reachable_params [OF assms(4)] by simp
  with vcf_speed_acc_bounds [OF assms(1), of f] assms(3) c show ?thesis by auto
qed

definition vg_ex_mrm :: mrm_state where
  "vg_ex_mrm = \<lparr>ms_stamp = 0, ms_state = MrmState_NORMAL, ms_behavior = MrmState_NONE\<rparr>"

theorem vg_every_command_bounded_witness:
  "\<exists>s' c outs. vg_handle (\<lambda>x. x) vg_ex_param 0
      (VG_ControlCmd Src_Auto (cc_set_speed 100 control_command_new)) (vg_ex_state vg_ex_mrm) =
        Inr (s', outs) \<and> VG_PubControlCmd c \<in> set outs \<and> \<bar>cc_speed c\<bar> \<le> 25"
proof -
  let ?h = "vg_handle (\<lambda>x. x) vg_ex_param 0
      (VG_ControlCmd Src_Auto (cc_set_speed 100 control_command_new)) (vg_ex_state vg_ex_mrm)"
  have "\<exists>s' c x. ?h = Inr (s', [x, VG_PubControlCmd c])"
    by (simp add: vg_onAutoCtrlCmd_def vg_publishControlCommands_def vg_isDataReady_def vg_ex_defs
        commands_new_def Let_def split: prod.split)
  then obtain s' c x where step: "?h = Inr (s', [x, VG_PubControlCmd c])" by blast
  from vg_every_command_bounded [OF float_cast_id vcf_ex_ok(1) vcf_ex_ok(1) vg_ex_reachable this, of c]
  have "\<bar>cc_speed c\<bar> \<le> 25" by (auto simp: vcf_ex_def)
  with step show ?thesis by auto
qed

text \<open>The external emergency stop is latched: while it is set, no callback throws, every control
  command that leaves the gate is its emergency stop command (speed zero, emergency
  acceleration, steering kept), and it stays set through every event except a clear request made
  while the heartbeat is not timed out.\<close>

theorem vg_external_stop_latched:
  assumes "vg_is_external_emergency_stop s"
  shows "\<exists>s' outs. vg_handle fl p t ev s = Inr (s', outs) \<and>
    (\<forall>c. VG_PubControlCmd c \<in> set outs \<longrightarrow> c = vg_createEmergencyStopControlCmd fl p t s) \<and>
    (vg_is_external_emergency_stop s' \<or>
       ev \<in> {VG_ClearExternalEmergencyStop, VG_ExternalEmergency False} \<and>
       \<not> vg_is_external_emergency_stop_heartbeat_timeout s)"
proof -
  have map: "vg_is_external_emergency_stop (vg_map_commands src f s)" for src f
    using assms by (cases src) simp_all
  have "\<exists>r. vg_handle fl p t ev s = Inr r"
  proof (cases ev)
    case (VG_ControlCmd src c)
    then show ?thesis by (cases src) simp_all
  next
    case VG_Timer
    then show ?thesis
      using assms
      by (cases "vg_isDataReady p s"; cases "vg_system_timeout p t s")
        (auto simp: vg_onTimer_eq vg_timer_alive_eq vg_publishEmergencyStopControlCommands_def Let_def)
  qed (simp_all add: pi_on_pause_def)
  then obtain s' outs where step: "vg_handle fl p t ev s = Inr (s', outs)" by force
  have "vg_is_external_emergency_stop s' \<or>
      ev \<in> {VG_ClearExternalEmergencyStop, VG_ExternalEmergency False} \<and>
      \<not> vg_is_external_emergency_stop_heartbeat_timeout s"
  proof (cases ev)
    case (VG_ControlCmd src c)
    with step assms show ?thesis by (cases src) (auto simp: vg_cmd_defs Let_def split: if_splits)
  next
    case VG_Timer
    with step have "vg_onTimer fl p t s = Inr (s', outs)" by simp
    then show ?thesis using assms by (cases rule: vg_onTimer_cases) simp_all
  next
    case VG_TimerPubStatus
    with step assms show ?thesis by (auto simp: vg_publishStatus_def split: prod.splits)
  qed (use step assms map in \<open>auto simp: vg_sub_defs split: if_splits\<close>)
  with step vg_control_origin [OF step] assms show ?thesis by blast
qed

theorem vg_external_stop_latched_witness:
  "\<exists>s' outs. vg_handle (\<lambda>x. x) vg_ex_param 0 (VG_ControlCmd Src_Remote control_command_new)
      ((vg_ex_state vg_ex_mrm)\<lparr>vg_is_external_emergency_stop := True\<rparr>) = Inr (s', outs) \<and>
     vg_is_external_emergency_stop s'"
  using vg_external_stop_latched [of "(vg_ex_state vg_ex_mrm)\<lparr>vg_is_external_emergency_stop := True\<rparr>"
      "\<lambda>x. x" vg_ex_param 0 "VG_ControlCmd Src_Remote control_command_new"] by auto

section \<open>Sequences of events\<close>

fun vg_run :: "(real \<Rightarrow> real) \<Rightarrow> vg_param \<Rightarrow> (time \<times> vg_event) list \<Rightarrow> vg_state \<Rightarrow>
    vg_error + (vg_state \<times> vg_out list)" where
  "vg_run fl p [] s = Inr (s, [])"
| "vg_run fl p ((t, ev) # evs) s =
     err_bind (vg_handle fl p t ev s) (\<lambda>(s1, outs1).
       err_bind (vg_run fl p evs s1) (\<lambda>(s2, outs2). Inr (s2, outs1 @ outs2)))"

text \<open>Filtering touches the time and the previous commands of the filters; publishing also the pause.\<close>

lemma vg_filter_keeps:
  assumes "vg_filterControlCommand fl t s c = (s', c')"
  shows "\<exists>t' f f'. s' = s\<lparr>vg_prev_time := t', vg_filter := f, vg_filter_on_transition := f'\<rparr>"
  using assms by (auto simp: vg_filterControlCommand_def vg_getDt_def Let_def split: option.splits)

lemma vg_publish_keeps:
  "\<exists>t' f f' pause prev. fst (vg_publishControlCommands fl p t cmds s) = s\<lparr>vg_prev_time := t', vg_filter := f,
     vg_filter_on_transition := f', vg_pause := pause, vg_prev_control_cmd := prev\<rparr>"
proof (cases rule: vg_publish_cases [of fl p t cmds s])
  case silent
  then have "fst (vg_publishControlCommands fl p t cmds s) = s\<lparr>vg_prev_time := vg_prev_time s, vg_filter := vg_filter s,
     vg_filter_on_transition := vg_filter_on_transition s, vg_pause := vg_pause s,
     vg_prev_control_cmd := vg_prev_control_cmd s\<rparr>" by simp
  then show ?thesis by blast
next
  case (filtered pause c s2 c3)
  from vg_filter_keeps [OF filtered(1)] obtain t' f f' where
    "s2 = s\<lparr>vg_pause := pause, vg_prev_time := t', vg_filter := f, vg_filter_on_transition := f'\<rparr>" by auto
  then have "fst (vg_publishControlCommands fl p t cmds s) = s\<lparr>vg_prev_time := t', vg_filter := f,
     vg_filter_on_transition := f', vg_pause := pause, vg_prev_control_cmd := c3\<rparr>" by (simp add: filtered(2))
  then show ?thesis by blast
qed

text \<open>The pause plays no part in the filters, nor do the MRM state and the commands received.\<close>

lemma vg_filter_pause [simp]:
  "snd (vg_filterControlCommand fl t (s\<lparr>vg_pause := pause\<rparr>) c) = snd (vg_filterControlCommand fl t s c)"
  "snd (vg_filterControlCommand fl t (s\<lparr>vg_emergency_commands := cmds\<rparr>) c) = snd (vg_filterControlCommand fl t s c)"
  "snd (vg_filterControlCommand fl t (vg_onMrmState m t0 s) c) = snd (vg_filterControlCommand fl t s c)"
  by (auto simp: vg_filterControlCommand_def vg_getDt_def vg_onMrmState_def Let_def split: option.splits)

section \<open>Silence while a heartbeat is lost\<close>

definition vg_held :: "vg_param \<Rightarrow> vg_state \<Rightarrow> bool" where
  "vg_held p s \<longleftrightarrow>
     vp_use_emergency_handling p \<and> vg_is_emergency_state_heartbeat_timeout s \<or>
     vg_is_external_emergency_stop s \<and> vg_is_external_emergency_stop_heartbeat_timeout s"

lemma vg_held_publish: "vg_held p s \<Longrightarrow> vg_publishControlCommands fl p t cmds s = (s, [])"
  by (auto simp: vg_held_def vg_publishControlCommands_def)

lemma vg_held_step:
  assumes "vg_held p s" and "ev \<noteq> VG_Timer"
  shows "\<exists>s' outs. vg_handle fl p t ev s = Inr (s', outs) \<and> vg_held p s' \<and> (\<forall>c. VG_PubControlCmd c \<notin> set outs)"
proof (cases ev)
  case (VG_ControlCmd src c)
  have "vg_held p (s\<lparr>vg_auto_commands := x\<rparr>)" "vg_held p (s\<lparr>vg_remote_commands := x\<rparr>)"
    "vg_held p (s\<lparr>vg_emergency_commands := x\<rparr>)" for x
    using assms(1) by (simp_all add: vg_held_def)
  with VG_ControlCmd show ?thesis
    by (cases src) (simp_all add: vg_cmd_defs vg_held_publish Let_def)
next
  case (VG_TurnIndicators src x)
  with assms(1) show ?thesis by (cases src) (simp_all add: vg_held_def)
next
  case (VG_HazardLights src x)
  with assms(1) show ?thesis by (cases src) (simp_all add: vg_held_def)
next
  case (VG_Gear src x)
  with assms(1) show ?thesis by (cases src) (simp_all add: vg_held_def)
next
  case VG_TimerPubStatus
  with assms(1) show ?thesis by (auto simp: vg_publishStatus_def vg_held_def split: prod.splits)
qed (use assms in \<open>auto simp: vg_sub_defs vg_held_def Let_def split: if_splits prod.splits\<close>)

lemma vg_held_run:
  assumes "vg_held p s" and "\<forall>(t, ev) \<in> set evs. ev \<noteq> VG_Timer"
  shows "\<exists>s' outs. vg_run fl p evs s = Inr (s', outs) \<and> vg_held p s' \<and> (\<forall>c. VG_PubControlCmd c \<notin> set outs)"
  using assms
proof (induction evs arbitrary: s)
  case (Cons e evs)
  obtain t ev where e: "e = (t, ev)" by (cases e)
  with Cons.prems vg_held_step [of p s ev fl t] obtain s1 outs1 where
    1: "vg_handle fl p t ev s = Inr (s1, outs1)" "vg_held p s1" "\<forall>c. VG_PubControlCmd c \<notin> set outs1" by auto
  from Cons.IH [OF 1(2)] Cons.prems(2) obtain s2 outs2 where
    "vg_run fl p evs s1 = Inr (s2, outs2)" "vg_held p s2" "\<forall>c. VG_PubControlCmd c \<notin> set outs2" by auto
  with 1 show ?case by (auto simp: e)
qed simp

text \<open>C14: A silent heartbeat stops the vehicle. Once the messages the gate waits for have been received, a
  tick at which the MRM state (with use_emergency_handling) or the external heartbeat (with its check on) is
  older than its timeout publishes, after the diagnostic, the emergency flag, the gate's own emergency stop
  command, no turn signal, hazard lights on and the zero gear value. From then on, whatever other events arrive
  in whatever order (commands of every source, heartbeats, mode changes, engagements, pauses, requests to set
  and to clear the external emergency stop), none of them fails and no control command leaves the gate, until
  its next tick.\<close>

theorem vg_heartbeat_timeout_stops:
  assumes "vg_isDataReady p s" and "vg_system_timeout p t s \<or> vg_external_timeout p t s"
  shows "\<exists>s'. vg_onTimer fl p t s = Inr (s', vg_checkExternalEmergencyStop s #
      [VG_PubVehicleCmdEmergency t True, VG_PubControlCmd (vg_createEmergencyStopControlCmd fl p t s),
       VG_PubTurnIndicators Turn_NO_COMMAND, VG_PubHazardLights Hazard_ENABLE, VG_PubGear (Gear_raw 0)]) \<and>
    (\<forall>fl t' cmds. vg_publishControlCommands fl p t' cmds s' = (s', [])) \<and>
    (\<forall>fl evs. (\<forall>(t', ev) \<in> set evs. ev \<noteq> VG_Timer) \<longrightarrow>
       (\<exists>s2 outs. vg_run fl p evs s' = Inr (s2, outs) \<and> (\<forall>c. VG_PubControlCmd c \<notin> set outs)))"
proof -
  obtain r where "vg_onTimer fl p t s = Inr r"
    using assms by (cases "vg_system_timeout p t s")
      (simp_all add: vg_onTimer_eq vg_timer_alive_eq vg_publishEmergencyStopControlCommands_def Let_def)
  then obtain s' outs where step: "vg_onTimer fl p t s = Inr (s', outs)" by (cases r) auto
  then have "outs = vg_checkExternalEmergencyStop s # vg_stop_outputs fl p t s \<and> vg_held p s'"
  proof (cases rule: vg_onTimer_cases)
    case (system pause)
    then show ?thesis by (simp add: vg_held_def vg_system_timeout_def)
  next
    case (external pause)
    with assms(2) have "vg_external_timeout p t s" by simp
    with external show ?thesis
      by (simp add: vg_held_def vg_flags_def vg_external_timeout_def Let_def)
  qed (use assms in simp_all)
  then have out: "outs = vg_checkExternalEmergencyStop s # vg_stop_outputs fl p t s" and held: "vg_held p s'" by simp_all
  have "\<exists>s2 outs. vg_run fl p evs s' = Inr (s2, outs) \<and> (\<forall>c. VG_PubControlCmd c \<notin> set outs)"
    if "\<forall>(t', ev) \<in> set evs. ev \<noteq> VG_Timer" for fl evs
    using vg_held_run [OF held that] by blast
  with step out vg_held_publish [OF held] show ?thesis
    by (intro exI [of _ s']) (simp add: vg_stop_outputs_def)
qed

theorem vg_heartbeat_timeout_stops_witness:
  "\<exists>s' outs s2 outs2. vg_onTimer (\<lambda>x. x) vg_ex_param 1000000000 (vg_ex_state vg_ex_mrm) = Inr (s', outs) \<and>
     VG_PubVehicleCmdEmergency 1000000000 True \<in> set outs \<and>
     vg_run (\<lambda>x. x) vg_ex_param [(1000000001, VG_MrmState vg_ex_mrm), (1000000002, VG_ControlCmd Src_Auto control_command_new)] s' =
       Inr (s2, outs2) \<and> (\<forall>c. VG_PubControlCmd c \<notin> set outs2)"
proof -
  let ?evs = "[(1000000001, VG_MrmState vg_ex_mrm), (1000000002, VG_ControlCmd Src_Auto control_command_new)]"
  have ready: "vg_isDataReady vg_ex_param (vg_ex_state vg_ex_mrm)" by (simp add: vg_isDataReady_def vg_ex_defs)
  have late: "vg_system_timeout vg_ex_param 1000000000 (vg_ex_state vg_ex_mrm)"
    by (simp add: vg_system_timeout_def vg_isHeartbeatTimeout_def vg_ex_defs seconds_def)
  from vg_heartbeat_timeout_stops [OF ready disjI1 [OF late], of "\<lambda>x. x"] obtain s' where
    1: "vg_onTimer (\<lambda>x. x) vg_ex_param 1000000000 (vg_ex_state vg_ex_mrm) =
      Inr (s', vg_checkExternalEmergencyStop (vg_ex_state vg_ex_mrm) #
        [VG_PubVehicleCmdEmergency 1000000000 True,
         VG_PubControlCmd (vg_createEmergencyStopControlCmd (\<lambda>x. x) vg_ex_param 1000000000 (vg_ex_state vg_ex_mrm)),
         VG_PubTurnIndicators Turn_NO_COMMAND, VG_PubHazardLights Hazard_ENABLE, VG_PubGear (Gear_raw 0)])"
    and silent: "\<forall>fl evs. (\<forall>(t', ev) \<in> set evs. ev \<noteq> VG_Timer) \<longrightarrow>
       (\<exists>s2 outs. vg_run fl vg_ex_param evs s' = Inr (s2, outs) \<and> (\<forall>c. VG_PubControlCmd c \<notin> set outs))"
    by (elim exE conjE) (rule that; assumption)
  have "\<exists>s2 outs. vg_run (\<lambda>x. x) vg_ex_param ?evs s' = Inr (s2, outs) \<and> (\<forall>c. VG_PubControlCmd c \<notin> set outs)"
    by (rule silent [rule_format]) auto
  then obtain s2 outs2 where 2: "vg_run (\<lambda>x. x) vg_ex_param ?evs s' = Inr (s2, outs2)"
    "\<forall>c. VG_PubControlCmd c \<notin> set outs2" by (elim exE conjE)
  show ?thesis by (intro exI conjI) (rule 1, simp, rule 2(1), rule 2(2))
qed

section \<open>The command of the emergency source\<close>

text \<open>In an emergency the command of the emergency source is filtered and published.\<close>

lemma vg_publish_in_emergency:
  assumes mode: "vg_emergency_mode p s"
    and "vg_is_engaged s" and "\<not> pi_is_paused (vg_pause s)" and "vg_isDataReady p s"
    and "\<not> vg_is_external_emergency_stop s" and "\<not> vg_is_emergency_state_heartbeat_timeout s"
  shows "\<exists>s'. vg_publishControlCommands fl p t cmds s =
      (s', let c = snd (vg_filterControlCommand fl t s (cm_control (vg_emergency_commands s)))
           in [VG_PubVehicleCmdEmergency (cc_stamp c) True, VG_PubControlCmd c])"
proof -
  let ?c0 = "cm_control (vg_emergency_commands s)"
  let ?s = "s\<lparr>vg_pause := pi_update ?c0 (vg_pause s)\<rparr>"
  obtain s2 c where f: "vg_filterControlCommand fl t ?s ?c0 = (s2, c)" by fastforce
  then have "c = snd (vg_filterControlCommand fl t s ?c0)" by (metis snd_conv vg_filter_pause(1))
  with f show ?thesis
    using assms by (simp add: vg_publishControlCommands_def Let_def pi_update_def)
qed

text \<open>The flag of the system emergency is the one of the last MRM state received.\<close>

lemma vg_system_emergency_step:
  assumes "vg_handle fl p t ev s = Inr (s', outs)" and "\<forall>m. ev \<noteq> VG_MrmState m"
  shows "vg_is_system_emergency s' = vg_is_system_emergency s"
proof (cases ev)
  case (VG_ControlCmd src c)
  have "vg_is_system_emergency (vg_map_commands src f s) = vg_is_system_emergency s" for f by (cases src) simp_all
  moreover have "vg_is_system_emergency (fst (vg_publishControlCommands fl p t cmds x)) = vg_is_system_emergency x" for cmds x
    using vg_publish_keeps [of fl p t cmds x] by auto
  ultimately show ?thesis
    using vg_control_cmd_cases [OF assms(1) [unfolded VG_ControlCmd]] by (metis fst_conv)
next
  case (VG_TurnIndicators src x)
  with assms(1) show ?thesis by (cases src) auto
next
  case (VG_HazardLights src x)
  with assms(1) show ?thesis by (cases src) auto
next
  case (VG_Gear src x)
  with assms(1) show ?thesis by (cases src) auto
next
  case VG_Timer
  with assms(1) have "vg_onTimer fl p t s = Inr (s', outs)" by simp
  then show ?thesis by (cases rule: vg_onTimer_cases) (simp_all add: vg_flags_def Let_def)
next
  case VG_TimerPubStatus
  with assms(1) show ?thesis by (auto simp: vg_publishStatus_def split: prod.splits)
qed (use assms in \<open>auto simp: vg_sub_defs Let_def split: if_splits prod.splits\<close>)

lemma vg_system_emergency_run:
  assumes "vg_run fl p evs s = Inr (s', outs)" and "\<forall>(t, ev) \<in> set evs. \<forall>m. ev \<noteq> VG_MrmState m"
  shows "vg_is_system_emergency s' = vg_is_system_emergency s"
  using assms
proof (induction evs arbitrary: s outs)
  case (Cons e evs)
  obtain t ev where e: "e = (t, ev)" by (cases e)
  with Cons.prems(1) obtain s1 outs1 outs2 where
    "vg_handle fl p t ev s = Inr (s1, outs1)" "vg_run fl p evs s1 = Inr (s', outs2)" by auto
  with vg_system_emergency_step [of fl p t ev s s1 outs1] Cons.IH [of s1 outs2] Cons.prems(2) e show ?case by auto
qed simp

text \<open>C15: During a system emergency the gate hands over to the emergency stop operator. Suppose that emergency
  handling is in use, that the last MRM state received, however long ago and whatever other events followed it,
  reports an MRM (operating, succeeded or failed) with emergency stop, and that in the state reached the gate is
  engaged and not paused, has received the messages it waits for, and neither an external emergency stop nor a
  heartbeat timeout is in force. Then whichever source triggers a publication, what is published is the
  emergency flag and the last command of the emergency source, passed through the gate's filter with its own
  period; and a tick at which no heartbeat is too old and no change of the gate mode is pending publishes turn
  indicators, hazard lights and gear of the emergency source.\<close>

theorem vg_emergency_command_selected:
  assumes "vp_use_emergency_handling p"
    and "ms_state m \<in> {MrmState_MRM_OPERATING, MrmState_MRM_SUCCEEDED, MrmState_MRM_FAILED}"
    and "ms_behavior m = MrmState_EMERGENCY_STOP"
    and "vg_run fl p evs (vg_onMrmState m t0 s0) = Inr (s, outs)"
    and "\<forall>(t, ev) \<in> set evs. \<forall>m'. ev \<noteq> VG_MrmState m'"
    and "vg_is_engaged s" and "\<not> pi_is_paused (vg_pause s)" and "vg_isDataReady p s"
    and "\<not> vg_is_external_emergency_stop s" and "\<not> vg_is_emergency_state_heartbeat_timeout s"
  shows "(\<exists>s'. vg_publishControlCommands fl p t cmds s =
      (s', let c = snd (vg_filterControlCommand fl t s (cm_control (vg_emergency_commands s)))
           in [VG_PubVehicleCmdEmergency (cc_stamp c) True, VG_PubControlCmd c])) \<and>
    (\<not> vg_system_timeout p t s \<and> \<not> vg_external_timeout p t s \<and> \<not> vg_is_gate_mode_changed s \<longrightarrow>
     (\<exists>s'. vg_onTimer fl p t s = Inr (s', [vg_checkExternalEmergencyStop s,
        VG_PubTurnIndicators (cm_turn_indicator (vg_emergency_commands s)),
        VG_PubHazardLights (cm_hazard_light (vg_emergency_commands s)),
        VG_PubGear (cm_gear (vg_emergency_commands s))])))"
proof -
  have "vg_is_system_emergency (vg_onMrmState m t0 s0)"
    using assms(2,3) by (auto simp: vg_onMrmState_def)
  with vg_system_emergency_run [OF assms(4,5)] have mode: "vg_emergency_mode p s"
    using assms(1) by (simp add: vg_emergency_mode_def)
  then have "vg_select_commands p s = Inr (vg_emergency_commands s)" by (simp add: vg_select_commands_def)
  with vg_publish_in_emergency [OF mode assms(6-10)] assms(8,9) show ?thesis
    by (auto simp: vg_onTimer_eq vg_timer_alive_eq)
qed

definition vg_ex_mrm_stop :: mrm_state where
  "vg_ex_mrm_stop =
     \<lparr>ms_stamp = 0, ms_state = MrmState_MRM_OPERATING, ms_behavior = MrmState_EMERGENCY_STOP\<rparr>"

theorem vg_emergency_command_selected_witness:
  "\<exists>s' c. vg_publishControlCommands (\<lambda>x. x) vg_ex_param 0 commands_new
      (vg_onMrmState vg_ex_mrm_stop 0 (vg_ex_state vg_ex_mrm)) =
    (s', [VG_PubVehicleCmdEmergency (cc_stamp c) True, VG_PubControlCmd c])"
  using vg_emergency_command_selected [of vg_ex_param vg_ex_mrm_stop "\<lambda>x. x" "[]" 0 "vg_ex_state vg_ex_mrm"
      "vg_onMrmState vg_ex_mrm_stop 0 (vg_ex_state vg_ex_mrm)" "[]" 0 commands_new]
  by (auto simp: vg_ex_mrm_stop_def vg_isDataReady_def vg_ex_defs pi_init_def pi_publish_def Let_def)

text \<open>The timer throws exactly when it is about to select the commands of an unknown gate mode:
  a \<open>gate_mode\<close> message that is neither AUTO nor EXTERNAL is accepted by its subscription and ends
  the node at the second tick after it, outside emergencies.\<close>

theorem vg_unknown_gate_mode_throws:
  "vg_onTimer fl p t s = Inl e \<longleftrightarrow>
     e = VG_InvalidMode \<and> vg_isDataReady p s \<and>
     \<not> (vg_system_timeout p t s \<or> vg_external_timeout p t s) \<and>
     \<not> (vg_is_external_emergency_stop s \<or> vg_is_gate_mode_changed s) \<and>
     \<not> vg_emergency_mode p s \<and> vg_current_gate_mode s \<notin> {GateMode_AUTO, GateMode_EXTERNAL}"
proof (cases "vg_isDataReady p s \<and> \<not> vg_system_timeout p t s")
  case False
  then show ?thesis by (auto simp: vg_onTimer_eq vg_publishEmergencyStopControlCommands_def Let_def)
next
  case True
  then show ?thesis
    by (cases e) (auto simp: vg_onTimer_eq vg_timer_alive_eq vg_select_commands_def
        vg_publishEmergencyStopControlCommands_def Let_def err_bind_Inl_iff)
qed

end
