(* ===== verification/Fault_To_Vehicle.thy ===== *)
theory Fault_To_Vehicle
  imports System_Error_Monitor Mrm_System Vehicle_Cmd_Gate
begin

text \<open>
  From a fault to the command that reaches the vehicle: the hazard status of the system error monitor, the
  request and the MRM state of the emergency handler, the command of the emergency stop operator and the
  output of the vehicle command gate, each node fed with the message of the one before.
\<close>

section \<open>The hazard status of a single point fault\<close>

definition ftv_fault :: "se_param \<Rightarrow> time \<Rightarrow> se_state \<Rightarrow> bool" where
  "ftv_fault p t s \<longleftrightarrow> se_isDataReady s \<and> \<not> se_isDataHeartbeatTimeout p t s \<and>
     \<not> hs_emergency_holding (se_hazard_status s) \<and> \<not> se_ignoring s \<and>
     (\<exists>m \<in> set (se_modules (se_select_mode s)). se_module_level p t (se_select_mode s) m = SINGLE_POINT_FAULT)"

lemma ftv_hazard:
  assumes wf: "se_wf s" and fault: "ftv_fault p t s" and "sp_emergency_hazard_level p \<le> 3"
  shows "\<exists>s'. se_onTimer p t s = Inr (s', se_publishHazardStatus t (se_hazard_status s')) \<and>
    hs_level (se_hazard_status s') = SINGLE_POINT_FAULT \<and> hs_emergency (se_hazard_status s')"
proof -
  let ?s = "se_select_mode s"
  from fault obtain hs s' where step: "s' = se_finish p t (se_judged hs ?s)"
    "se_onTimer p t s = Inr (s', se_publishHazardStatus t (se_hazard_status s'))" "hs_level hs = se_judged_level p t ?s"
    using se_regular_tick [OF wf, of p t] unfolding ftv_fault_def by blast
  from fault obtain m where m: "m \<in> set (se_modules ?s)" "se_module_level p t ?s m = SINGLE_POINT_FAULT"
    and "\<not> se_ignoring ?s" by (auto simp: ftv_fault_def se_ignoring_def se_select_mode_def)
  then have "SINGLE_POINT_FAULT \<in> se_module_level p t ?s ` set (se_modules ?s)" by (metis image_eqI)
  with \<open>\<not> se_ignoring ?s\<close> have "SINGLE_POINT_FAULT \<le> se_judged_level p t ?s"
    by (auto simp: se_judged_level_def intro!: Max_ge)
  then have "se_judged_level p t ?s = SINGLE_POINT_FAULT" by (simp add: antisym)
  with step assms(3) have "hs_level (se_hazard_status s') = SINGLE_POINT_FAULT \<and> hs_emergency (se_hazard_status s')"
    by (simp add: se_finish_status se_level_reaches_def)
  with step(2) show ?thesis by blast
qed

section \<open>The handler\<close>

definition ftv_driving :: "eh_param \<Rightarrow> eh_state \<Rightarrow> bool" where
  "ftv_driving p s \<longleftrightarrow> ms_state (eh_mrm_state s) = MrmState_NORMAL \<and> eh_control_mode s = ControlMode_AUTONOMOUS \<and>
     \<not> ep_use_takeover_request p \<and> eh_emergency_stop_status s \<noteq> MrmBehaviorStatus_NOT_AVAILABLE \<and>
     (ep_use_comfortable_stop p \<longrightarrow> eh_comfortable_stop_status s \<noteq> MrmBehaviorStatus_NOT_AVAILABLE)"

lemma ftv_handler:
  assumes reach: "eh_reachable p s" and driving: "ftv_driving p s"
    and hs: "hs_level hs = SINGLE_POINT_FAULT" "hs_emergency hs"
    and fresh: "seconds (t' - t) \<le> ep_timeout_hazard_status p"
  shows "\<exists>s' outs. eh_onTimer p t' (eh_onHazardStatusStamped hs t s) = Inr (s', outs) \<and>
    EH_OperateEmergencyStop True \<in> set outs \<and> EH_PubMrmState (eh_mrm_state s') \<in> set outs \<and>
    ms_state (eh_mrm_state s') = MrmState_MRM_OPERATING \<and> ms_behavior (eh_mrm_state s') = MrmState_EMERGENCY_STOP"
proof -
  let ?s = "eh_onHazardStatusStamped hs t s"
  have "eh_reachable p ?s"
    by (rule eh_reachable_step [OF reach, where ev = "EH_HazardStatus hs"]) (simp only: eh_handle.simps)
  note inv = eh_reachable_inv [OF this]
  from driving have normal: "ms_state (eh_mrm_state ?s) = MrmState_NORMAL" "eh_control_mode ?s = ControlMode_AUTONOMOUS"
    "\<not> ep_use_takeover_request p" by (simp_all add: ftv_driving_def eh_sub_defs)
  have none: "ms_behavior (eh_mrm_state ?s) = MrmState_NONE" by (rule eh_invD(2) [OF inv normal(1)])
  have "eh_hazard_status ?s = Some hs" "eh_isDataReady p ?s" "\<not> eh_isHazardStatusTimeout p t' ?s"
    using driving fresh by (auto simp: eh_sub_defs eh_isDataReady_def eh_isHazardStatusTimeout_def ftv_driving_def)
  from eh_onTimer_alive [OF eh_invD(1) [OF inv] this] normal hs none show ?thesis
    by (auto simp: eh_next_state_def eh_isEmergency_def eh_next_behavior_def eh_escalate_def eh_switch_def
        eh_cancelMrmBehavior_def eh_callMrmBehavior_def)
qed

section \<open>The operator\<close>

lemma ftv_operator:
  "es_is_prev_control_cmd_subscribed e \<Longrightarrow>
   \<exists>e' c. mes_onTimer fl p t (fst (mes_operateEmergencyStop t0 True e)) =
     (e', [MES_PubControlCommand c, MES_PubStatus t MrmBehaviorStatus_OPERATING]) \<and>
   cc_speed c = fl (max (mes_speed e + mes_acc e * seconds (t - mes_stamp e)) 0) \<and>
   cc_acc c = fl (max (mes_acc e + xp_target_jerk p * seconds (t - mes_stamp e)) (xp_target_acceleration p))"
  by (simp add: mes_onTimer_def mes_operateEmergencyStop_def mes_calcTargetAcceleration_def mes_view_defs Let_def)

lemma ftv_brakes:
  assumes "xp_target_jerk p < 0" and "xp_target_acceleration p < mes_acc e" and "mes_stamp e < t"
  shows "max (mes_acc e + xp_target_jerk p * seconds (t - mes_stamp e)) (xp_target_acceleration p) < mes_acc e"
proof -
  have "0 < seconds (t - mes_stamp e)" using assms(3) by (simp add: seconds_def)
  with assms(1) have "xp_target_jerk p * seconds (t - mes_stamp e) < 0" by (rule mult_neg_pos)
  with assms(2) show ?thesis by simp
qed

section \<open>The gate\<close>

definition ftv_gate_open :: "vg_param \<Rightarrow> vg_state \<Rightarrow> bool" where
  "ftv_gate_open p s \<longleftrightarrow> vp_use_emergency_handling p \<and> vg_is_engaged s \<and> \<not> pi_is_paused (vg_pause s) \<and>
     \<not> vg_is_external_emergency_stop s \<and> \<not> vg_is_emergency_state_heartbeat_timeout s \<and>
     (vp_check_external_emergency_heartbeat p \<longrightarrow> vg_external_emergency_stop_heartbeat_received_time s \<noteq> None)"

lemma ftv_gate:
  assumes "ftv_gate_open p s" and "ms_state m = MrmState_MRM_OPERATING" "ms_behavior m = MrmState_EMERGENCY_STOP"
  shows "\<exists>s'. vg_onEmergencyCtrlCmd fl p t' c (vg_onMrmState m t s) =
      (s', let c' = snd (vg_filterControlCommand fl t' s c)
           in [VG_PubVehicleCmdEmergency (cc_stamp c') True, VG_PubControlCmd c'])"
proof -
  let ?cmds = "(vg_emergency_commands (vg_onMrmState m t s))\<lparr>cm_control := c\<rparr>"
  let ?s = "(vg_onMrmState m t s)\<lparr>vg_emergency_commands := ?cmds\<rparr>"
  have "vg_emergency_mode p ?s" "vg_is_engaged ?s" "\<not> pi_is_paused (vg_pause ?s)" "vg_isDataReady p ?s"
    "\<not> vg_is_external_emergency_stop ?s" "\<not> vg_is_emergency_state_heartbeat_timeout ?s"
    using assms by (simp_all add: ftv_gate_open_def vg_emergency_mode_def vg_onMrmState_def vg_isDataReady_def)
  from vg_publish_in_emergency [OF this, of fl t' ?cmds] this(1) show ?thesis
    by (simp add: vg_onEmergencyCtrlCmd_def Let_def)
qed

section \<open>The whole way\<close>

text \<open>C1: A single point fault reaches the vehicle as a braking command. Assumed: the error monitor is reachable with a
  valid configuration and emergency_hazard_level <= 3, has its data, no silent input, no held emergency and no reason to
  ignore faults, and a required module of its mode is at SINGLE_POINT_FAULT; the handler is reachable, NORMAL, with
  Autoware in control, use_takeover_request off, operators available, its tick within the hazard timeout; the operator
  has a command; the gate handles emergencies, is engaged, not paused, without external stop or heartbeat timeout, and
  has the external heartbeat if it checks it; each node gets the previous one's output. Then the monitor publishes the
  fault, the handler asks for the emergency stop and publishes its MRM state, the operator carries its last command on
  by target_jerk down to target_acceleration (harder braking if the jerk is negative and the acceleration was above the
  target), and the gate publishes emergency and this command as filtered.\<close>

theorem ftv_fault_reaches_vehicle:
  assumes "se_construct list_parameters params t0 = Inr s0"
    and "\<forall>ms \<in> ran (se_required_modules_map s0). \<forall>m \<in> set ms. se_config_ok m"
    and "se_reachable sp s0 s" and "ftv_fault sp t1 s" and "sp_emergency_hazard_level sp \<le> 3"
    and "eh_reachable hp h" and "ftv_driving hp h" and "seconds (t3 - t2) \<le> ep_timeout_hazard_status hp"
    and "es_is_prev_control_cmd_subscribed e" and "ftv_gate_open gp g"
  shows "\<exists>s' hazard h' outs e' c a g' c'.
    se_onTimer sp t1 s = Inr (s', se_publishHazardStatus t1 hazard) \<and>
    hs_level hazard = SINGLE_POINT_FAULT \<and> hs_emergency hazard \<and>
    eh_onTimer hp t3 (eh_onHazardStatusStamped hazard t2 h) = Inr (h', outs) \<and>
    EH_OperateEmergencyStop True \<in> set outs \<and> EH_PubMrmState (eh_mrm_state h') \<in> set outs \<and>
    mes_onTimer fl xp t5 (fst (mes_operateEmergencyStop t4 True e)) =
      (e', [MES_PubControlCommand c, MES_PubStatus t5 MrmBehaviorStatus_OPERATING]) \<and>
    cc_speed c = fl (max (mes_speed e + mes_acc e * seconds (t5 - mes_stamp e)) 0) \<and>
    cc_acc c = fl a \<and>
    a = max (mes_acc e + xp_target_jerk xp * seconds (t5 - mes_stamp e)) (xp_target_acceleration xp) \<and>
    (xp_target_jerk xp < 0 \<and> xp_target_acceleration xp < mes_acc e \<and> mes_stamp e < t5 \<longrightarrow> a < mes_acc e) \<and>
    vg_onEmergencyCtrlCmd fl gp t7 c (vg_onMrmState (eh_mrm_state h') t6 g) =
      (g', [VG_PubVehicleCmdEmergency (cc_stamp c') True, VG_PubControlCmd c']) \<and>
    c' = snd (vg_filterControlCommand fl t7 g c)"
proof -
  from ftv_hazard [OF se_reachable_wf [OF assms(3) se_construct_wf [OF assms(1,2)]] assms(4,5)] obtain s' where
    s': "se_onTimer sp t1 s = Inr (s', se_publishHazardStatus t1 (se_hazard_status s'))"
      "hs_level (se_hazard_status s') = SINGLE_POINT_FAULT" "hs_emergency (se_hazard_status s')" by blast
  from ftv_handler [OF assms(6,7) s'(2,3) assms(8)] obtain h' outs where
    h': "eh_onTimer hp t3 (eh_onHazardStatusStamped (se_hazard_status s') t2 h) = Inr (h', outs)"
      "EH_OperateEmergencyStop True \<in> set outs" "EH_PubMrmState (eh_mrm_state h') \<in> set outs"
      "ms_state (eh_mrm_state h') = MrmState_MRM_OPERATING" "ms_behavior (eh_mrm_state h') = MrmState_EMERGENCY_STOP"
    by blast
  from ftv_operator [OF assms(9), of fl xp t5 t4] obtain e' c where
    e': "mes_onTimer fl xp t5 (fst (mes_operateEmergencyStop t4 True e)) =
        (e', [MES_PubControlCommand c, MES_PubStatus t5 MrmBehaviorStatus_OPERATING])"
      "cc_speed c = fl (max (mes_speed e + mes_acc e * seconds (t5 - mes_stamp e)) 0)"
      "cc_acc c = fl (max (mes_acc e + xp_target_jerk xp * seconds (t5 - mes_stamp e)) (xp_target_acceleration xp))"
    by blast
  define c' where "c' = snd (vg_filterControlCommand fl t7 g c)"
  from ftv_gate [OF assms(10) h'(4,5), of fl t7 c t6] obtain g' where
    g': "vg_onEmergencyCtrlCmd fl gp t7 c (vg_onMrmState (eh_mrm_state h') t6 g) =
        (g', [VG_PubVehicleCmdEmergency (cc_stamp c') True, VG_PubControlCmd c'])"
    by (auto simp: c'_def Let_def)
  show ?thesis
    by (intro exI conjI impI) (rule s'(1), rule s'(2), rule s'(3), rule h'(1), rule h'(2), rule h'(3), rule e'(1),
      rule e'(2), rule e'(3), rule refl, erule conjE, erule conjE, rule ftv_brakes, assumption+, rule g', rule c'_def)
qed

lemma ftv_fault_reaches_vehicle_witness:
  "\<exists>s' hazard h' outs e' c g' c'.
    se_onTimer se_ex_param 1000 se_ex_running = Inr (s', se_publishHazardStatus 1000 hazard) \<and>
    eh_onTimer eh_ex_param 3000 (eh_onHazardStatusStamped hazard 2000 (eh_ex_state NO_FAULT)) = Inr (h', outs) \<and>
    EH_OperateEmergencyStop True \<in> set outs \<and>
    mes_onTimer (\<lambda>x. x) mes_ex_param 1000000000 (fst (mes_operateEmergencyStop 4000 True mes_ex_state)) =
      (e', [MES_PubControlCommand c, MES_PubStatus 1000000000 MrmBehaviorStatus_OPERATING]) \<and> cc_acc c = - 1 / 2 \<and>
    vg_onEmergencyCtrlCmd (\<lambda>x. x) vg_ex_param 7000 c (vg_onMrmState (eh_mrm_state h') 6000 (vg_ex_state vg_ex_mrm)) =
      (g', [VG_PubVehicleCmdEmergency (cc_stamp c') True, VG_PubControlCmd c'])"
proof -
  have "ftv_fault se_ex_param 1000 se_ex_running"
    using se_ex_level by (auto simp: ftv_fault_def se_ex_running_facts hazard_status_new_def)
  moreover have "ftv_driving eh_ex_param (eh_ex_state NO_FAULT)"
    by (simp add: ftv_driving_def eh_ex_state_facts) (simp add: eh_ex_defs)
  moreover have "seconds (3000 - 2000) \<le> ep_timeout_hazard_status eh_ex_param"
    by (simp add: seconds_def eh_ex_param_def)
  moreover have "es_is_prev_control_cmd_subscribed mes_ex_state"
    using mes_ex_state_facts(1) by (simp add: mes_active_def)
  moreover have "ftv_gate_open vg_ex_param (vg_ex_state vg_ex_mrm)"
    by (simp add: ftv_gate_open_def vg_ex_defs pi_init_def pi_publish_def Let_def)
  moreover have "sp_emergency_hazard_level se_ex_param \<le> 3" by (simp add: se_ex_param_facts)
  moreover have "max (mes_acc mes_ex_state + xp_target_jerk mes_ex_param * seconds (1000000000 - mes_stamp mes_ex_state))
      (xp_target_acceleration mes_ex_param) = - 1 / 2"
    by (simp add: mes_ex_state_facts mes_ex_param_def seconds_def)
  ultimately show ?thesis
    using ftv_fault_reaches_vehicle [OF se_ex_construct se_ex_configs se_ex_running_reachable, of se_ex_param 1000
        eh_ex_param "eh_ex_state NO_FAULT" 3000 2000 mes_ex_state vg_ex_param "vg_ex_state vg_ex_mrm"
        "\<lambda>x. x" mes_ex_param 1000000000 4000 7000 6000, OF _ _ eh_ex_state_reachable] by metis
qed

end
