(* ===== verification/Trajectory_Geometry.thy ===== *)
theory Trajectory_Geometry
  imports AW_Prelude
begin

text \<open>
  The geometric helpers the other components rest on: \<open>normalizeRadian\<close>, \<open>calcYawDeviation\<close>,
  distances and \<open>findNearestIndex\<close> of \<open>common/tier4_autoware_utils\<close> and \<open>common/motion_utils\<close>.
  A pose is its position with its pitch and yaw angles, which the code keeps in a quaternion and
  reads with library functions (\<open>tf2::getYaw\<close>); its roll is not modelled.  Doubles are real numbers;
  \<open>std::atan2\<close> is the argument of a complex number.
\<close>

record point =
  pt_x :: real
  pt_y :: real
  pt_z :: real

text \<open>A pose extends its position, so that the functions on positions apply to poses.\<close>

record pose = point +
  po_pitch :: real
  po_yaw :: real

record trajectory_point =
  tp_pose :: pose
  tp_longitudinal_velocity_mps :: real
  tp_acceleration_mps2 :: real

definition std_atan2 :: "real \<Rightarrow> real \<Rightarrow> real" where
  "std_atan2 y x = Arg (Complex x y)"

definition std_hypot :: "real \<Rightarrow> real \<Rightarrow> real" where
  "std_hypot x y = sqrt (x\<^sup>2 + y\<^sup>2)"

definition std_clamp :: "real \<Rightarrow> real \<Rightarrow> real \<Rightarrow> real" where
  "std_clamp v lo hi = (if v < lo then lo else if hi < v then hi else v)"

text \<open>\<open>std::fmod\<close> rounds the quotient towards zero; \<open>std::copysign\<close> takes the sign of its second argument.\<close>

definition fmod :: "real \<Rightarrow> real \<Rightarrow> real" where
  "fmod a m = a - m * of_int (if 0 \<le> a / m then \<lfloor>a / m\<rfloor> else \<lceil>a / m\<rceil>)"

definition copysign :: "real \<Rightarrow> real \<Rightarrow> real" where
  "copysign a s = (if 0 \<le> s then \<bar>a\<bar> else - \<bar>a\<bar>)"

definition normalizeRadian :: "real \<Rightarrow> real" where
  "normalizeRadian rad =
     (let min_rad = - pi; max_rad = min_rad + 2 * pi; v = fmod rad (2 * pi) in
      if min_rad \<le> v \<and> v < max_rad then v else v - copysign (2 * pi) v)"

definition calcYawDeviation :: "pose \<Rightarrow> pose \<Rightarrow> real" where
  "calcYawDeviation base target = normalizeRadian (po_yaw target - po_yaw base)"

definition calcSquaredDistance2d :: "'a point_scheme \<Rightarrow> 'b point_scheme \<Rightarrow> real" where
  "calcSquaredDistance2d p1 p2 =
     (let dx = pt_x p1 - pt_x p2; dy = pt_y p1 - pt_y p2 in dx * dx + dy * dy)"

definition calcDistance2d :: "'a point_scheme \<Rightarrow> 'b point_scheme \<Rightarrow> real" where
  "calcDistance2d p1 p2 = std_hypot (pt_x p1 - pt_x p2) (pt_y p1 - pt_y p2)"

lemma calcDistance2d_nonneg [simp]: "0 \<le> calcDistance2d p q"
  by (simp add: calcDistance2d_def std_hypot_def)

text \<open>
  The loop of \<open>findNearestIndex\<close> from index \<open>i\<close>; the accumulator is the nearest point so far
  with its squared distance, \<open>None\<close> while none has been found (the code starts from the largest
  double).
\<close>

fun tg_nearest_loop :: "pose \<Rightarrow> real \<Rightarrow> real \<Rightarrow> nat \<Rightarrow> 'p trajectory_point_scheme list \<Rightarrow>
    (real \<times> nat) option \<Rightarrow> (real \<times> nat) option" where
  "tg_nearest_loop pose max_dist max_yaw i [] best = best"
| "tg_nearest_loop pose max_dist max_yaw i (pt # pts) best =
     (let squared_dist = calcSquaredDistance2d (tp_pose pt) pose in
      if max_dist * max_dist < squared_dist \<or>
         (case best of None \<Rightarrow> False | Some (d, _) \<Rightarrow> d \<le> squared_dist)
      then tg_nearest_loop pose max_dist max_yaw (Suc i) pts best
      else if max_yaw < \<bar>calcYawDeviation (tp_pose pt) pose\<bar>
      then tg_nearest_loop pose max_dist max_yaw (Suc i) pts best
      else tg_nearest_loop pose max_dist max_yaw (Suc i) pts (Some (squared_dist, i)))"

definition findNearestIndex ::
  "'p trajectory_point_scheme list \<Rightarrow> pose \<Rightarrow> real \<Rightarrow> real \<Rightarrow> nat option" where
  "findNearestIndex points pose max_dist max_yaw =
     (if points = [] then None
      else map_option snd (tg_nearest_loop pose max_dist max_yaw 0 points None))"

section \<open>Angles\<close>

lemma fmod_range: "0 < m \<Longrightarrow> - m < fmod a m \<and> fmod a m < m"
proof -
  assume m: "0 < m"
  define q where "q = a / m"
  have a: "a = m * q" using m by (simp add: q_def)
  define r where "r = q - of_int (if 0 \<le> q then \<lfloor>q\<rfloor> else \<lceil>q\<rceil>)"
  have "fmod a m = m * r"
    by (simp add: fmod_def q_def [symmetric] r_def right_diff_distrib) (simp add: a)
  moreover have r: "- 1 < r" "r < 1"
    unfolding r_def by (auto; linarith)+
  moreover have "m * r < m * 1" "m * - 1 < m * r"
    using r m by (intro mult_strict_left_mono; simp)+
  ultimately show ?thesis by simp
qed

lemma fmod_congruent: "\<exists>k :: int. fmod a m = a - m * of_int k"
  by (auto simp: fmod_def)

lemma normalizeRadian_range: "- pi \<le> normalizeRadian a \<and> normalizeRadian a < pi"
  using fmod_range [of "2 * pi" a] pi_gt_zero
  by (auto simp: normalizeRadian_def copysign_def Let_def)

lemma normalizeRadian_congruent: "\<exists>k :: int. normalizeRadian a = a - 2 * pi * of_int k"
proof -
  obtain k :: int where k: "fmod a (2 * pi) = a - 2 * pi * of_int k" using fmod_congruent by blast
  have "a - 2 * pi * of_int k - 2 * pi = a - 2 * pi * of_int (k + 1)"
    "a - 2 * pi * of_int k + 2 * pi = a - 2 * pi * of_int (k - 1)"
    by (simp_all add: algebra_simps)
  with k show ?thesis
    unfolding normalizeRadian_def copysign_def Let_def k
    using pi_gt_zero by (smt (verit, best))
qed

section \<open>The nearest point\<close>

definition tg_eligible :: "pose \<Rightarrow> real \<Rightarrow> real \<Rightarrow> 'p trajectory_point_scheme \<Rightarrow> bool" where
  "tg_eligible pose max_dist max_yaw pt \<longleftrightarrow>
     calcSquaredDistance2d (tp_pose pt) pose \<le> max_dist * max_dist \<and>
     \<bar>calcYawDeviation (tp_pose pt) pose\<bar> \<le> max_yaw"

text \<open>What is known of the accumulator after the points \<open>xs\<close> have been seen.\<close>

definition tg_best :: "pose \<Rightarrow> real \<Rightarrow> real \<Rightarrow> 'p trajectory_point_scheme list \<Rightarrow> (real \<times> nat) option \<Rightarrow> bool" where
  "tg_best pose max_dist max_yaw xs best =
     (case best of
        None \<Rightarrow> \<forall>x \<in> set xs. \<not> tg_eligible pose max_dist max_yaw x
      | Some (d, i) \<Rightarrow> i < length xs \<and> tg_eligible pose max_dist max_yaw (xs ! i) \<and>
          d = calcSquaredDistance2d (tp_pose (xs ! i)) pose \<and>
          (\<forall>x \<in> set xs. tg_eligible pose max_dist max_yaw x \<longrightarrow>
             d \<le> calcSquaredDistance2d (tp_pose x) pose))"

lemma tg_nearest_loop_best:
  "tg_best pose max_dist max_yaw xs best \<Longrightarrow>
   tg_best pose max_dist max_yaw (xs @ pts)
     (tg_nearest_loop pose max_dist max_yaw (length xs) pts best)"
proof (induction pts arbitrary: xs best)
  case (Cons pt pts)
  let ?d = "calcSquaredDistance2d (tp_pose pt) pose"
  let ?loop = "\<lambda>b. tg_best pose max_dist max_yaw (xs @ pt # pts)
      (tg_nearest_loop pose max_dist max_yaw (Suc (length xs)) pts b)"
  have IH: "tg_best pose max_dist max_yaw (xs @ [pt]) b \<Longrightarrow> ?loop b" for b
    using Cons.IH [of "xs @ [pt]" b] by simp
  have keep: "tg_best pose max_dist max_yaw (xs @ [pt]) best"
    if "max_dist * max_dist < ?d \<or> max_yaw < \<bar>calcYawDeviation (tp_pose pt) pose\<bar> \<or>
      (case best of None \<Rightarrow> False | Some (d, _) \<Rightarrow> d \<le> ?d)"
    using Cons.prems that
    by (auto simp: tg_best_def tg_eligible_def nth_append split: option.splits prod.splits)
  have take_it: "tg_best pose max_dist max_yaw (xs @ [pt]) (Some (?d, length xs))"
    if "\<not> (max_dist * max_dist < ?d \<or> (case best of None \<Rightarrow> False | Some (d, _) \<Rightarrow> d \<le> ?d))"
      "\<not> max_yaw < \<bar>calcYawDeviation (tp_pose pt) pose\<bar>"
  proof (cases best)
    case None
    with Cons.prems that show ?thesis by (auto simp: tg_best_def tg_eligible_def)
  next
    case (Some b)
    obtain d i where b: "best = Some (d, i)" using Some by (cases b) simp
    with Cons.prems that show ?thesis
      by (auto simp: tg_best_def tg_eligible_def dest!: bspec)
  qed
  show ?case
    using IH [OF keep] IH [OF take_it] by (auto simp: Let_def split: option.splits)
qed simp

text \<open>\<open>findNearestIndex\<close> gives the index of a point of the trajectory that is within the distance
  and yaw thresholds of the pose and at least as near as every other such point, and gives none
  exactly when no point is within the thresholds.\<close>

theorem tg_findNearestIndex_correct:
  "case findNearestIndex points pose max_dist max_yaw of
     None \<Rightarrow> \<not> (\<exists>x \<in> set points. tg_eligible pose max_dist max_yaw x)
   | Some i \<Rightarrow> i < length points \<and> tg_eligible pose max_dist max_yaw (points ! i) \<and>
       \<not> (\<exists>x \<in> set points. tg_eligible pose max_dist max_yaw x \<and>
            calcSquaredDistance2d (tp_pose x) pose < calcSquaredDistance2d (tp_pose (points ! i)) pose)"
proof -
  have "tg_best pose max_dist max_yaw points (tg_nearest_loop pose max_dist max_yaw 0 points None)"
    using tg_nearest_loop_best [of pose max_dist max_yaw "[]" None points] by (simp add: tg_best_def)
  then show ?thesis
    by (cases "points = []")
      (auto simp: findNearestIndex_def tg_best_def not_less [symmetric] split: option.splits)
qed

end
