(* ===== verification/Operation_Mode.thy ===== *)
theory Operation_Mode
  imports AW_Msgs Trajectory_Geometry
begin

text \<open>
  \<open>control/operation_mode_transition_manager\<close>: keeps the operation mode (STOP, AUTONOMOUS, LOCAL,
  REMOTE), decides whether a change of mode is available, carries out transitions and cancels
  them when they fail, and keeps the older interfaces (engage, gate mode, selector mode) in step
  through the class \<open>Compatibility\<close>.

  One definition per member function of \<open>Compatibility\<close> (prefix \<open>oc\<close>), \<open>AutonomousMode\<close>
  (prefix \<open>oa\<close>) and \<open>OperationModeTransitionManager\<close> (prefix \<open>om\<close>), and the helpers of \<open>data.cpp\<close>.
  The three other modes are always available and complete at once.  Exceptions of the services,
  which the interface library turns into error responses, are values of \<open>om_error\<close>.  \<open>fl\<close> rounds
  the result of \<open>std::tan\<close> on a 32-bit steering angle.
\<close>

section \<open>Modes\<close>

datatype op_mode = OM_STOP | OM_AUTONOMOUS | OM_LOCAL | OM_REMOTE

fun om_toString :: "op_mode option \<Rightarrow> string" where
  "om_toString None = ''DISENGAGE''"
| "om_toString (Some OM_STOP) = ''STOP''"
| "om_toString (Some OM_AUTONOMOUS) = ''AUTONOMOUS''"
| "om_toString (Some OM_LOCAL) = ''LOCAL''"
| "om_toString (Some OM_REMOTE) = ''REMOTE''"

fun om_toEnum :: "operation_mode_value \<Rightarrow> op_mode option" where
  "om_toEnum OperationMode_STOP = Some OM_STOP"
| "om_toEnum OperationMode_AUTONOMOUS = Some OM_AUTONOMOUS"
| "om_toEnum OperationMode_LOCAL = Some OM_LOCAL"
| "om_toEnum OperationMode_REMOTE = Some OM_REMOTE"
| "om_toEnum _ = None"

fun om_toMsg :: "op_mode \<Rightarrow> operation_mode_value" where
  "om_toMsg OM_STOP = OperationMode_STOP"
| "om_toMsg OM_AUTONOMOUS = OperationMode_AUTONOMOUS"
| "om_toMsg OM_LOCAL = OperationMode_LOCAL"
| "om_toMsg OM_REMOTE = OperationMode_REMOTE"

section \<open>Compatibility\<close>

record oc_state =
  oc_autoware_engage :: "bool option"
  oc_gate_mode :: "gate_mode option"
  oc_selector_mode :: "selector_mode option"
  oc_is_calling_service :: bool

datatype oc_out =
    OC_SelectExternal selector_mode
  | OC_PubGateMode gate_mode
  | OC_PubEngage time bool

definition oc_init :: oc_state where
  "oc_init =
     \<lparr>oc_autoware_engage = None, oc_gate_mode = None, oc_selector_mode = None,
      oc_is_calling_service = False\<rparr>"

definition oc_on_autoware_engage :: "bool \<Rightarrow> oc_state \<Rightarrow> oc_state" where
  "oc_on_autoware_engage msg c = c\<lparr>oc_autoware_engage := Some msg\<rparr>"

definition oc_on_gate_mode :: "gate_mode \<Rightarrow> oc_state \<Rightarrow> oc_state" where
  "oc_on_gate_mode msg c = c\<lparr>oc_gate_mode := Some msg\<rparr>"

definition oc_on_selector_mode :: "selector_mode \<Rightarrow> oc_state \<Rightarrow> oc_state" where
  "oc_on_selector_mode msg c = c\<lparr>oc_selector_mode := Some msg\<rparr>"

text \<open>The response of the selector service arrives.\<close>

definition oc_on_selector_response :: "oc_state \<Rightarrow> oc_state" where
  "oc_on_selector_response c = c\<lparr>oc_is_calling_service := False\<rparr>"

definition oc_get_mode :: "oc_state \<Rightarrow> op_mode option" where
  "oc_get_mode c =
     (case (oc_autoware_engage c, oc_gate_mode c, oc_selector_mode c) of
        (Some engage, Some gate, Some selector) \<Rightarrow>
          if \<not> engage then Some OM_STOP
          else if gate = GateMode_AUTO then Some OM_AUTONOMOUS
          else if selector = SelectorMode_REMOTE then Some OM_REMOTE
          else if selector = SelectorMode_LOCAL then Some OM_LOCAL
          else None
      | _ \<Rightarrow> None)"

fun oc_convert :: "op_mode \<Rightarrow> bool \<times> gate_mode \<times> selector_mode" where
  "oc_convert OM_STOP = (False, GateMode_AUTO, SelectorMode_NONE)"
| "oc_convert OM_AUTONOMOUS = (True, GateMode_AUTO, SelectorMode_NONE)"
| "oc_convert OM_LOCAL = (True, GateMode_EXTERNAL, SelectorMode_LOCAL)"
| "oc_convert OM_REMOTE = (True, GateMode_EXTERNAL, SelectorMode_REMOTE)"

definition oc_set_mode :: "time \<Rightarrow> op_mode \<Rightarrow> oc_state \<Rightarrow> oc_state \<times> oc_out list" where
  "oc_set_mode t mode c =
     (case (oc_autoware_engage c, oc_gate_mode c, oc_selector_mode c) of
        (Some engage, Some gate, Some selector) \<Rightarrow>
          (let (autoware_engage, gate_mode, selector_mode) = oc_convert mode;
               (c1, o1) =
                 (if selector_mode \<noteq> SelectorMode_NONE \<and> selector \<noteq> selector_mode \<and>
                     \<not> oc_is_calling_service c
                  then (c\<lparr>oc_is_calling_service := True\<rparr>, [OC_SelectExternal selector_mode])
                  else (c, []))
           in if gate \<noteq> gate_mode then (c1, o1 @ [OC_PubGateMode gate_mode])
              else if engage \<noteq> autoware_engage then (c1, o1 @ [OC_PubEngage t autoware_engage])
              else (c1, o1))
      | _ \<Rightarrow> (c, []))"

section \<open>Autonomous mode\<close>

record oa_param =
  op_check_engage_condition :: bool
  op_nearest_dist_deviation_threshold :: real
  op_nearest_yaw_deviation_threshold :: real
  op_allow_autonomous_in_stopped :: bool
  op_dist_threshold :: real
  op_speed_upper_threshold :: real
  op_speed_lower_threshold :: real
  op_yaw_threshold :: real
  op_acc_threshold :: real
  op_lateral_acc_threshold :: real
  op_lateral_acc_diff_threshold :: real
  op_stable_duration :: real
  op_stable_dist_threshold :: real
  op_stable_speed_upper_threshold :: real
  op_stable_speed_lower_threshold :: real
  op_stable_yaw_threshold :: real
  op_wheel_base :: real

record oa_debug =
  od_is_all_ok :: bool
  od_engage_allowed_for_stopped_vehicle :: bool
  od_trajectory_available_ok :: bool
  od_lateral_deviation_ok :: bool
  od_yaw_deviation_ok :: bool
  od_speed_upper_deviation_ok :: bool
  od_speed_lower_deviation_ok :: bool
  od_stop_ok :: bool
  od_large_acceleration_ok :: bool
  od_large_lateral_acceleration_ok :: bool
  od_large_lateral_acceleration_diff_ok :: bool
  od_current_speed :: real
  od_target_control_speed :: real
  od_target_planning_speed :: real
  od_target_control_acceleration :: real
  od_lateral_acceleration :: real
  od_lateral_acceleration_deviation :: real
  od_lateral_deviation :: real
  od_yaw_deviation :: real
  od_speed_deviation :: real

definition oa_debug_new :: oa_debug where
  "oa_debug_new =
     \<lparr>od_is_all_ok = False, od_engage_allowed_for_stopped_vehicle = False,
      od_trajectory_available_ok = False, od_lateral_deviation_ok = False,
      od_yaw_deviation_ok = False, od_speed_upper_deviation_ok = False,
      od_speed_lower_deviation_ok = False, od_stop_ok = False, od_large_acceleration_ok = False,
      od_large_lateral_acceleration_ok = False, od_large_lateral_acceleration_diff_ok = False,
      od_current_speed = 0, od_target_control_speed = 0, od_target_planning_speed = 0,
      od_target_control_acceleration = 0, od_lateral_acceleration = 0,
      od_lateral_acceleration_deviation = 0, od_lateral_deviation = 0, od_yaw_deviation = 0,
      od_speed_deviation = 0\<rparr>"

definition oa_setAllOk :: "oa_debug \<Rightarrow> oa_debug" where
  "oa_setAllOk d = d
     \<lparr>od_is_all_ok := True, od_engage_allowed_for_stopped_vehicle := True,
      od_large_acceleration_ok := True, od_large_lateral_acceleration_diff_ok := True,
      od_large_lateral_acceleration_ok := True, od_lateral_deviation_ok := True,
      od_speed_lower_deviation_ok := True, od_speed_upper_deviation_ok := True, od_stop_ok := True,
      od_trajectory_available_ok := True, od_yaw_deviation_ok := True\<rparr>"

record oa_state =
  oa_control_cmd :: control_command
  oa_pose :: pose
  oa_vx :: real
  oa_wz :: real
  oa_trajectory :: "trajectory_point list"
  oa_stable_start_time :: "time option"
  oa_debug_info :: oa_debug

definition oa_init :: oa_state where
  "oa_init =
     \<lparr>oa_control_cmd = control_command_new, oa_pose = \<lparr>pt_x = 0, pt_y = 0, pt_z = 0, po_pitch = 0, po_yaw = 0\<rparr>, oa_vx = 0,
      oa_wz = 0, oa_trajectory = [], oa_stable_start_time = None, oa_debug_info = oa_debug_new\<rparr>"

definition oa_update :: "bool \<Rightarrow> oa_state \<Rightarrow> oa_state" where
  "oa_update transition a = (if \<not> transition then a\<lparr>oa_stable_start_time := None\<rparr> else a)"

definition oa_closest :: "oa_param \<Rightarrow> oa_state \<Rightarrow> trajectory_point option" where
  "oa_closest p a =
     map_option (\<lambda>i. oa_trajectory a ! i)
       (findNearestIndex (oa_trajectory a) (oa_pose a) (op_nearest_dist_deviation_threshold p)
         (op_nearest_yaw_deviation_threshold p))"

definition oa_unstable :: "oa_state \<Rightarrow> oa_state \<times> bool" where
  "oa_unstable a = (a\<lparr>oa_stable_start_time := None\<rparr>, False)"

definition oa_isModeChangeCompleted :: "oa_param \<Rightarrow> time \<Rightarrow> oa_state \<Rightarrow> oa_state \<times> bool" where
  "oa_isModeChangeCompleted p t a =
     (if \<not> op_check_engage_condition p then (a, True)
      else if op_allow_autonomous_in_stopped p \<and> \<bar>oa_vx a\<bar> < 1 / 100 then (a, True)
      else if length (oa_trajectory a) < 2 then oa_unstable a
      else
        (case oa_closest p a of
           None \<Rightarrow> oa_unstable a
         | Some closest_point \<Rightarrow>
             let dist_deviation = calcDistance2d (tp_pose closest_point) (oa_pose a);
                 yaw_deviation = calcYawDeviation (tp_pose closest_point) (oa_pose a);
                 speed_deviation = oa_vx a - tp_longitudinal_velocity_mps closest_point in
             if op_stable_dist_threshold p < dist_deviation then oa_unstable a
             else if op_stable_yaw_threshold p < yaw_deviation then oa_unstable a
             else if op_stable_speed_upper_threshold p < speed_deviation then oa_unstable a
             else if speed_deviation < op_stable_speed_lower_threshold p then oa_unstable a
             else
               (let start = (case oa_stable_start_time a of None \<Rightarrow> t | Some t0 \<Rightarrow> t0)
                in (a\<lparr>oa_stable_start_time := Some start\<rparr>,
                    op_stable_duration p < seconds (t - start)))))"

definition oa_hasDangerAcceleration :: "oa_param \<Rightarrow> oa_state \<Rightarrow> oa_state \<times> bool" where
  "oa_hasDangerAcceleration p a =
     (let acc = lon_acceleration (cc_longitudinal (oa_control_cmd a));
          a1 = a\<lparr>oa_debug_info := (oa_debug_info a)\<lparr>od_target_control_acceleration := acc\<rparr>\<rparr>
      in if \<bar>oa_vx a\<bar> < 1 / 100 then (a1, False) else (a1, op_acc_threshold p < \<bar>acc\<bar>))"

definition oa_hasDangerLateralAcceleration ::
  "(real \<Rightarrow> real) \<Rightarrow> oa_param \<Rightarrow> oa_state \<Rightarrow> oa_state \<times> bool \<times> bool" where
  "oa_hasDangerLateralAcceleration fl p a =
     (let target_wz = oa_vx a *
            fl (tan (lat_steering_tire_angle (cc_lateral (oa_control_cmd a)))) / op_wheel_base p;
          curr_lat_acc = oa_vx a * oa_wz a;
          target_lat_acc = oa_vx a * target_wz
      in (a\<lparr>oa_debug_info := (oa_debug_info a)
              \<lparr>od_lateral_acceleration := curr_lat_acc,
               od_lateral_acceleration_deviation := curr_lat_acc - target_lat_acc\<rparr>\<rparr>,
          op_lateral_acc_threshold p < \<bar>curr_lat_acc\<bar>,
          op_lateral_acc_diff_threshold p < \<bar>curr_lat_acc - target_lat_acc\<bar>))"

definition oa_isModeChangeAvailable ::
  "(real \<Rightarrow> real) \<Rightarrow> oa_param \<Rightarrow> oa_state \<Rightarrow> oa_state \<times> bool" where
  "oa_isModeChangeAvailable fl p a =
     (if \<not> op_check_engage_condition p
      then (a\<lparr>oa_debug_info := oa_setAllOk (oa_debug_info a)\<rparr>, True)
      else if length (oa_trajectory a) < 2 then (a\<lparr>oa_debug_info := oa_debug_new\<rparr>, False)
      else
        (case oa_closest p a of
           None \<Rightarrow> (a\<lparr>oa_debug_info := oa_debug_new\<rparr>, False)
         | Some closest_point \<Rightarrow>
             let current_speed = oa_vx a;
                 target_control_speed = lon_speed (cc_longitudinal (oa_control_cmd a));
                 target_planning_speed = tp_longitudinal_velocity_mps closest_point;
                 a0 = a\<lparr>oa_debug_info := (oa_debug_info a)\<lparr>od_trajectory_available_ok := True\<rparr>\<rparr>;
                 lateral_deviation = calcDistance2d (tp_pose closest_point) (oa_pose a);
                 lateral_deviation_ok = (lateral_deviation < op_dist_threshold p);
                 yaw_deviation = calcYawDeviation (tp_pose closest_point) (oa_pose a);
                 yaw_deviation_ok = (yaw_deviation < op_yaw_threshold p);
                 speed_deviation = current_speed - target_planning_speed;
                 speed_upper_deviation_ok = (speed_deviation \<le> op_speed_upper_threshold p);
                 speed_lower_deviation_ok = (op_speed_lower_threshold p \<le> speed_deviation);
                 stop_ok = (\<not> (1 / 10 < \<bar>current_speed\<bar> \<and> \<bar>target_control_speed\<bar> < 1 / 100));
                 (a1, has_large_acc) = oa_hasDangerAcceleration p a0;
                 (a2, has_large_lat_acc, has_large_lat_acc_diff) =
                   oa_hasDangerLateralAcceleration fl p a1;
                 is_all_ok = (lateral_deviation_ok \<and> yaw_deviation_ok \<and> speed_upper_deviation_ok \<and>
                   speed_lower_deviation_ok \<and> stop_ok \<and> \<not> has_large_acc \<and> \<not> has_large_lat_acc \<and>
                   \<not> has_large_lat_acc_diff);
                 d = (oa_debug_info a2)
                   \<lparr>od_is_all_ok := is_all_ok, od_lateral_deviation_ok := lateral_deviation_ok,
                    od_yaw_deviation_ok := yaw_deviation_ok,
                    od_speed_upper_deviation_ok := speed_upper_deviation_ok,
                    od_speed_lower_deviation_ok := speed_lower_deviation_ok, od_stop_ok := stop_ok,
                    od_large_acceleration_ok := \<not> has_large_acc,
                    od_large_lateral_acceleration_ok := \<not> has_large_lat_acc,
                    od_large_lateral_acceleration_diff_ok := \<not> has_large_lat_acc_diff,
                    od_current_speed := current_speed,
                    od_target_control_speed := target_control_speed,
                    od_target_planning_speed := target_planning_speed,
                    od_lateral_deviation := lateral_deviation, od_yaw_deviation := yaw_deviation,
                    od_speed_deviation := speed_deviation\<rparr>
             in if op_allow_autonomous_in_stopped p \<and> \<bar>current_speed\<bar> < 1 / 100
                then (a2\<lparr>oa_debug_info :=
                       d\<lparr>od_is_all_ok := True, od_engage_allowed_for_stopped_vehicle := True\<rparr>\<rparr>, True)
                else (a2\<lparr>oa_debug_info := d\<rparr>, is_all_ok)))"

section \<open>The transition manager\<close>

record transition =
  tr_time :: time
  tr_previous :: "op_mode option"
  tr_is_engage_requested :: bool
  tr_is_engage_failed :: bool
  tr_is_engage_completed :: bool

definition transition_new :: "time \<Rightarrow> bool \<Rightarrow> op_mode option \<Rightarrow> transition" where
  "transition_new t control previous =
     \<lparr>tr_time = t, tr_previous = previous, tr_is_engage_requested = control,
      tr_is_engage_failed = False, tr_is_engage_completed = False\<rparr>"

record om_param =
  omp_autonomous :: oa_param
  omp_transition_timeout :: real

record om_state =
  oms_current_mode :: op_mode
  oms_transition :: "transition option"
  oms_autonomous :: oa_state
  oms_available_mode_change :: "op_mode \<Rightarrow> bool"
  oms_gate_operation_mode :: operation_mode_state
  oms_control_mode_report :: control_mode
  oms_prev_state :: "operation_mode_state option"
  oms_compatibility :: oc_state
  oms_compatibility_transition :: "time option"

datatype om_out =
    OM_Compat oc_out
  | OM_RequestControlMode time control_mode
  | OM_PubState operation_mode_state
  | OM_PubDebug time oa_debug string string

datatype om_error =
    OM_ParameterError
  | OM_NoEffectWarning
  | OM_ErrorInTransition
  | OM_ErrorNotAvailable

text \<open>The constructor raises a timeout that leaves no time for the stability check.\<close>

definition om_transition_timeout :: "real \<Rightarrow> real \<Rightarrow> real" where
  "om_transition_timeout transition_timeout stable_duration =
     (let TIMEOUT_MARGIN = 1 / 2 in
      if transition_timeout < stable_duration + TIMEOUT_MARGIN
      then stable_duration + TIMEOUT_MARGIN else transition_timeout)"

definition om_param_of :: "oa_param \<Rightarrow> real \<Rightarrow> om_param" where
  "om_param_of p transition_timeout =
     \<lparr>omp_autonomous = p,
      omp_transition_timeout = om_transition_timeout transition_timeout (op_stable_duration p)\<rparr>"

definition om_init :: om_state where
  "om_init =
     \<lparr>oms_current_mode = OM_STOP, oms_transition = None, oms_autonomous = oa_init,
      oms_available_mode_change = (\<lambda>_. False),
      oms_gate_operation_mode = operation_mode_state_new OperationMode_UNKNOWN,
      oms_control_mode_report = ControlMode_NO_COMMAND, oms_prev_state = None,
      oms_compatibility = oc_init, oms_compatibility_transition = None\<rparr>"

definition om_current_control :: "om_state \<Rightarrow> bool" where
  "om_current_control s \<longleftrightarrow> oms_control_mode_report s = ControlMode_AUTONOMOUS"

definition om_changeControlMode :: "time \<Rightarrow> control_mode \<Rightarrow> om_out list" where
  "om_changeControlMode t mode = [OM_RequestControlMode t mode]"

text \<open>The response to a request of \<open>changeControlMode\<close>.\<close>

definition om_on_control_mode_response :: "bool \<Rightarrow> om_state \<Rightarrow> om_state" where
  "om_on_control_mode_response success s =
     (if \<not> success
      then s\<lparr>oms_transition := map_option (\<lambda>tr. tr\<lparr>tr_is_engage_failed := True\<rparr>) (oms_transition s)\<rparr>
      else s)"

definition om_changeOperationMode ::
  "time \<Rightarrow> op_mode option \<Rightarrow> om_state \<Rightarrow> om_error + om_state" where
  "om_changeOperationMode t request_mode s =
     (let current_control = om_current_control s;
          request_control = (request_mode = None);
          target = (case request_mode of None \<Rightarrow> oms_current_mode s | Some m \<Rightarrow> m) in
      if request_mode = Some (oms_current_mode s) then Inl OM_NoEffectWarning
      else if current_control \<and> request_control then Inl OM_NoEffectWarning
      else if oms_transition s \<noteq> None \<and> request_mode \<noteq> Some OM_STOP then Inl OM_ErrorInTransition
      else if (current_control \<or> request_control) \<and> \<not> oms_available_mode_change s target
      then Inl OM_ErrorNotAvailable
      else
        (let s1 =
               (if current_control \<or> request_control
                then s\<lparr>oms_transition := Some (transition_new t request_control
                       (if request_control then None else Some (oms_current_mode s)))\<rparr>
                else s)
         in Inr (s1\<lparr>oms_compatibility_transition := Some t, oms_current_mode := target\<rparr>)))"

definition om_onChangeAutowareControl ::
  "time \<Rightarrow> bool \<Rightarrow> om_state \<Rightarrow> om_error + (om_state \<times> om_out list)" where
  "om_onChangeAutowareControl t autoware_control s =
     (if autoware_control
      then err_bind (om_changeOperationMode t None s) (\<lambda>s1. Inr (s1, []))
      else Inr (s\<lparr>oms_compatibility_transition := None, oms_transition := None\<rparr>,
                om_changeControlMode t ControlMode_MANUAL))"

definition om_onChangeOperationMode ::
  "time \<Rightarrow> operation_mode_value \<Rightarrow> om_state \<Rightarrow> om_error + (om_state \<times> om_out list)" where
  "om_onChangeOperationMode t request s =
     (case om_toEnum request of
        None \<Rightarrow> Inl OM_ParameterError
      | Some mode \<Rightarrow> err_bind (om_changeOperationMode t (Some mode) s) (\<lambda>s1. Inr (s1, [])))"

definition om_cancelTransition :: "time \<Rightarrow> transition \<Rightarrow> om_state \<Rightarrow> om_state \<times> om_out list" where
  "om_cancelTransition t tr s =
     (case tr_previous tr of
        Some previous \<Rightarrow>
          (s\<lparr>oms_compatibility_transition := Some t, oms_current_mode := previous,
             oms_transition := None\<rparr>, [])
      | None \<Rightarrow>
          (s\<lparr>oms_compatibility_transition := None, oms_transition := None\<rparr>,
           om_changeControlMode t ControlMode_MANUAL))"

definition om_isModeChangeCompleted ::
  "om_param \<Rightarrow> time \<Rightarrow> om_state \<Rightarrow> om_state \<times> bool" where
  "om_isModeChangeCompleted p t s =
     (if oms_current_mode s = OM_AUTONOMOUS then
        (let (a, b) = oa_isModeChangeCompleted (omp_autonomous p) t (oms_autonomous s)
         in (s\<lparr>oms_autonomous := a\<rparr>, b))
      else (s, True))"

definition om_processTransition ::
  "om_param \<Rightarrow> time \<Rightarrow> transition \<Rightarrow> om_state \<Rightarrow> om_state \<times> om_out list" where
  "om_processTransition p t tr s =
     (let current_control = om_current_control s in
      if omp_transition_timeout p < seconds (t - tr_time tr) then om_cancelTransition t tr s
      else if tr_is_engage_failed tr then om_cancelTransition t tr s
      else if \<not> current_control \<and> tr_is_engage_completed tr then om_cancelTransition t tr s
      else
        (let tr1 = (if current_control then tr\<lparr>tr_is_engage_completed := True\<rparr> else tr);
             s1 = s\<lparr>oms_transition := Some tr1\<rparr> in
         if Some (oms_current_mode s1) \<noteq> oc_get_mode (oms_compatibility s1) then (s1, [])
         else if current_control then
           (let (s2, completed) = om_isModeChangeCompleted p t s1
            in if completed then (s2\<lparr>oms_transition := None\<rparr>, []) else (s2, []))
         else if tr_is_engage_requested tr1 \<and>
                 om_is_in_transition (oms_gate_operation_mode s1) then
           (s1\<lparr>oms_transition := Some (tr1\<lparr>tr_is_engage_requested := False\<rparr>)\<rparr>,
            om_changeControlMode t ControlMode_AUTONOMOUS)
         else (s1, [])))"

definition om_publishData :: "time \<Rightarrow> om_state \<Rightarrow> om_state \<times> om_out list" where
  "om_publishData t s =
     (let state =
            \<lparr>om_stamp = 0, om_mode = om_toMsg (oms_current_mode s),
             om_is_autoware_control_enabled = om_current_control s,
             om_is_in_transition = (oms_transition s \<noteq> None),
             om_is_stop_mode_available = oms_available_mode_change s OM_STOP,
             om_is_autonomous_mode_available = oms_available_mode_change s OM_AUTONOMOUS,
             om_is_local_mode_available = oms_available_mode_change s OM_LOCAL,
             om_is_remote_mode_available = oms_available_mode_change s OM_REMOTE\<rparr>;
          (s1, o1) =
            (if oms_prev_state s \<noteq> Some state
             then (s\<lparr>oms_prev_state := Some state\<rparr>, [OM_PubState (state\<lparr>om_stamp := t\<rparr>)])
             else (s, []))
      in (s1, o1 @ [OM_PubDebug t (oa_debug_info (oms_autonomous s1))
            (om_toString (Some (oms_current_mode s1)))
            (case oms_transition s1 of None \<Rightarrow> ''NONE'' | Some tr \<Rightarrow> om_toString (tr_previous tr))]))"

text \<open>The first two loops of \<open>onTimer\<close>.\<close>

definition om_updateModes :: "(real \<Rightarrow> real) \<Rightarrow> om_param \<Rightarrow> om_state \<Rightarrow> om_state" where
  "om_updateModes fl p s =
     (let a = oa_update (oms_current_mode s = OM_AUTONOMOUS \<and> oms_transition s \<noteq> None)
            (oms_autonomous s);
          (a1, available) = oa_isModeChangeAvailable fl (omp_autonomous p) a
      in s\<lparr>oms_autonomous := a1,
           oms_available_mode_change := (\<lambda>m. m = OM_AUTONOMOUS \<longrightarrow> available)\<rparr>)"

text \<open>The part of \<open>onTimer\<close> that keeps the older interfaces in step.\<close>

definition om_synchronize :: "time \<Rightarrow> om_state \<Rightarrow> om_state \<times> om_out list" where
  "om_synchronize t s =
     (let s1 = (case oms_compatibility_transition s of
             None \<Rightarrow> s
           | Some t0 \<Rightarrow>
               if 1 < seconds (t - t0) then s\<lparr>oms_compatibility_transition := None\<rparr> else s);
          (s2, outs) =
            (if oms_compatibility_transition s1 \<noteq> None
             then (let (c, o1) = oc_set_mode t (oms_current_mode s1) (oms_compatibility s1)
                   in (s1\<lparr>oms_compatibility := c\<rparr>, map OM_Compat o1))
             else (s1\<lparr>oms_current_mode :=
                    (case oc_get_mode (oms_compatibility s1) of
                       None \<Rightarrow> oms_current_mode s1 | Some m \<Rightarrow> m)\<rparr>, []));
          s3 = (if oms_compatibility_transition s2 \<noteq> None \<and>
                   Some (oms_current_mode s2) = oc_get_mode (oms_compatibility s2)
                then s2\<lparr>oms_compatibility_transition := None\<rparr> else s2)
      in (s3, outs))"

definition om_onTimer ::
  "(real \<Rightarrow> real) \<Rightarrow> om_param \<Rightarrow> time \<Rightarrow> om_state \<Rightarrow> om_state \<times> om_out list" where
  "om_onTimer fl p t s =
     (let (s1, o1) = om_synchronize t (om_updateModes fl p s);
          (s2, o2) = (case oms_transition s1 of
             None \<Rightarrow> (s1, []) | Some tr \<Rightarrow> om_processTransition p t tr s1);
          (s3, o3) = om_publishData t s2
      in (s3, o1 @ o2 @ o3))"

section \<open>Events\<close>

datatype om_event =
    OM_ControlModeReport control_mode
  | OM_GateOperationMode operation_mode_state
  | OM_ControlCmd control_command
  | OM_Kinematics pose real real
  | OM_Trajectory "trajectory_point list"
  | OM_CompatEngage bool
  | OM_CompatGateMode gate_mode
  | OM_CompatSelectorMode selector_mode
  | OM_SelectorResponse
  | OM_ControlModeResponse bool
  | OM_ChangeAutowareControl bool
  | OM_ChangeOperationMode operation_mode_value
  | OM_Timer

definition om_map_auto :: "(oa_state \<Rightarrow> oa_state) \<Rightarrow> om_state \<Rightarrow> om_state" where
  "om_map_auto f s = s\<lparr>oms_autonomous := f (oms_autonomous s)\<rparr>"

definition om_map_compat :: "(oc_state \<Rightarrow> oc_state) \<Rightarrow> om_state \<Rightarrow> om_state" where
  "om_map_compat f s = s\<lparr>oms_compatibility := f (oms_compatibility s)\<rparr>"

text \<open>A service that throws answers with an error; the state keeps its value.\<close>

definition om_service :: "om_state \<Rightarrow> om_error + (om_state \<times> om_out list) \<Rightarrow> om_state \<times> om_out list" where
  "om_service s r = (case r of Inl e \<Rightarrow> (s, []) | Inr x \<Rightarrow> x)"

fun om_handle :: "(real \<Rightarrow> real) \<Rightarrow> om_param \<Rightarrow> time \<Rightarrow> om_event \<Rightarrow> om_state \<Rightarrow> om_state \<times> om_out list" where
  "om_handle fl p t (OM_ControlModeReport m) s = (s\<lparr>oms_control_mode_report := m\<rparr>, [])"
| "om_handle fl p t (OM_GateOperationMode m) s = (s\<lparr>oms_gate_operation_mode := m\<rparr>, [])"
| "om_handle fl p t (OM_ControlCmd c) s = (om_map_auto (oa_control_cmd_update (\<lambda>_. c)) s, [])"
| "om_handle fl p t (OM_Kinematics po vx wz) s =
     (om_map_auto (\<lambda>a. a\<lparr>oa_pose := po, oa_vx := vx, oa_wz := wz\<rparr>) s, [])"
| "om_handle fl p t (OM_Trajectory pts) s = (om_map_auto (oa_trajectory_update (\<lambda>_. pts)) s, [])"
| "om_handle fl p t (OM_CompatEngage b) s = (om_map_compat (oc_on_autoware_engage b) s, [])"
| "om_handle fl p t (OM_CompatGateMode g) s = (om_map_compat (oc_on_gate_mode g) s, [])"
| "om_handle fl p t (OM_CompatSelectorMode m) s = (om_map_compat (oc_on_selector_mode m) s, [])"
| "om_handle fl p t OM_SelectorResponse s = (om_map_compat oc_on_selector_response s, [])"
| "om_handle fl p t (OM_ControlModeResponse b) s = (om_on_control_mode_response b s, [])"
| "om_handle fl p t (OM_ChangeAutowareControl b) s = om_service s (om_onChangeAutowareControl t b s)"
| "om_handle fl p t (OM_ChangeOperationMode m) s = om_service s (om_onChangeOperationMode t m s)"
| "om_handle fl p t OM_Timer s = om_onTimer fl p t s"

fun om_run :: "(real \<Rightarrow> real) \<Rightarrow> om_param \<Rightarrow> (time \<times> om_event) list \<Rightarrow> om_state \<Rightarrow> om_state \<times> om_out list" where
  "om_run fl p [] s = (s, [])"
| "om_run fl p ((t, ev) # evs) s =
     (let (s1, o1) = om_handle fl p t ev s; (s2, o2) = om_run fl p evs s1 in (s2, o1 @ o2))"

section \<open>What the steps of the timer leave alone\<close>

lemma om_updateModes_frame [frame_simps]:
  "oms_transition (om_updateModes fl p s) = oms_transition s"
  "oms_current_mode (om_updateModes fl p s) = oms_current_mode s"
  "oms_compatibility (om_updateModes fl p s) = oms_compatibility s"
  "oms_control_mode_report (om_updateModes fl p s) = oms_control_mode_report s"
  by (simp_all add: om_updateModes_def Let_def split: prod.split)

lemma om_synchronize_frame [frame_simps]:
  "oms_transition (fst (om_synchronize t s)) = oms_transition s"
  "oms_control_mode_report (fst (om_synchronize t s)) = oms_control_mode_report s"
  by (auto simp: om_synchronize_def Let_def split: option.splits prod.splits)

lemma om_synchronize_out: "OM_RequestControlMode u m \<notin> set (snd (om_synchronize t s))"
  by (auto simp: om_synchronize_def Let_def split: option.splits prod.splits)

lemma om_publishData_frame [frame_simps]:
  "oms_transition (fst (om_publishData t s)) = oms_transition s"
  "oms_current_mode (fst (om_publishData t s)) = oms_current_mode s"
  by (simp_all add: om_publishData_def Let_def split: prod.split if_split)

lemma om_publishData_out: "OM_RequestControlMode u m \<notin> set (snd (om_publishData t s))"
  by (auto simp: om_publishData_def Let_def split: prod.split if_split)

lemma om_isModeChangeCompleted_frame [frame_simps]:
  "oms_transition (fst (om_isModeChangeCompleted p t s)) = oms_transition s"
  by (simp add: om_isModeChangeCompleted_def Let_def split: prod.split)

text \<open>The timer in one equation over its three stages.\<close>

definition om_stage1 :: "(real \<Rightarrow> real) \<Rightarrow> om_param \<Rightarrow> time \<Rightarrow> om_state \<Rightarrow> om_state" where
  "om_stage1 fl p t s = fst (om_synchronize t (om_updateModes fl p s))"

definition om_stage2 :: "om_param \<Rightarrow> time \<Rightarrow> om_state \<Rightarrow> om_state \<times> om_out list" where
  "om_stage2 p t s =
     (case oms_transition s of None \<Rightarrow> (s, []) | Some tr \<Rightarrow> om_processTransition p t tr s)"

lemma om_onTimer_stages:
  "om_onTimer fl p t s =
     (let s1 = om_stage1 fl p t s; (s2, o2) = om_stage2 p t s1; (s3, o3) = om_publishData t s2
      in (s3, snd (om_synchronize t (om_updateModes fl p s)) @ o2 @ o3))"
  by (simp add: om_onTimer_def om_stage1_def om_stage2_def Let_def case_prod_beta)

lemma om_onTimer_state:
  "oms_transition (fst (om_onTimer fl p t s)) = oms_transition (fst (om_stage2 p t (om_stage1 fl p t s)))"
  "oms_current_mode (fst (om_onTimer fl p t s)) = oms_current_mode (fst (om_stage2 p t (om_stage1 fl p t s)))"
  by (simp_all add: om_onTimer_stages Let_def case_prod_beta frame_simps)

lemma om_onTimer_requests:
  "OM_RequestControlMode u m \<in> set (snd (om_onTimer fl p t s)) \<longleftrightarrow>
     OM_RequestControlMode u m \<in> set (snd (om_stage2 p t (om_stage1 fl p t s)))"
  by (simp add: om_onTimer_stages Let_def case_prod_beta om_synchronize_out om_publishData_out)

lemma om_stage1_frame [frame_simps]:
  "oms_transition (om_stage1 fl p t s) = oms_transition s"
  "oms_control_mode_report (om_stage1 fl p t s) = oms_control_mode_report s"
  by (simp_all add: om_stage1_def frame_simps)

text \<open>The outcomes of \<open>processTransition\<close>.\<close>

definition om_cancels :: "om_param \<Rightarrow> time \<Rightarrow> transition \<Rightarrow> om_state \<Rightarrow> bool" where
  "om_cancels p t tr s \<longleftrightarrow>
     omp_transition_timeout p < seconds (t - tr_time tr) \<or> tr_is_engage_failed tr \<or>
     \<not> om_current_control s \<and> tr_is_engage_completed tr"

lemma om_process_cancel:
  "om_cancels p t tr s \<Longrightarrow> om_processTransition p t tr s = om_cancelTransition t tr s"
  by (auto simp: om_processTransition_def om_cancels_def Let_def)

lemma om_process_continue:
  assumes "\<not> om_cancels p t tr s"
  shows "om_processTransition p t tr s =
    (let tr1 = (if om_current_control s then tr\<lparr>tr_is_engage_completed := True\<rparr> else tr);
         s1 = s\<lparr>oms_transition := Some tr1\<rparr> in
     if Some (oms_current_mode s) \<noteq> oc_get_mode (oms_compatibility s) then (s1, [])
     else if om_current_control s then
       (let s2 = fst (om_isModeChangeCompleted p t s1)
        in if snd (om_isModeChangeCompleted p t s1) then (s2\<lparr>oms_transition := None\<rparr>, []) else (s2, []))
     else if tr_is_engage_requested tr1 \<and> om_is_in_transition (oms_gate_operation_mode s) then
       (s1\<lparr>oms_transition := Some (tr1\<lparr>tr_is_engage_requested := False\<rparr>)\<rparr>,
        om_changeControlMode t ControlMode_AUTONOMOUS)
     else (s1, []))"
proof -
  from assms have no: "\<not> omp_transition_timeout p < seconds (t - tr_time tr)"
      "\<not> tr_is_engage_failed tr" "\<not> (\<not> om_current_control s \<and> tr_is_engage_completed tr)"
    unfolding om_cancels_def by blast+
  show ?thesis
    unfolding om_processTransition_def Let_def case_prod_beta
    unfolding no [THEN if_not_P] by simp
qed

lemma om_process_outcome:
  assumes "\<not> om_cancels p t tr s" and "om_processTransition p t tr s = (s', outs)"
  shows "oms_transition s' = None \<and> outs = [] \<or>
    (\<exists>tr'. oms_transition s' = Some tr' \<and> tr_time tr' = tr_time tr \<and>
       (outs = [] \<and> tr_is_engage_requested tr' = tr_is_engage_requested tr \<or>
        outs = om_changeControlMode t ControlMode_AUTONOMOUS \<and> tr_is_engage_requested tr \<and>
        \<not> tr_is_engage_requested tr'))"
proof -
  let ?tr = "if om_current_control s then tr\<lparr>tr_is_engage_completed := True\<rparr> else tr"
  have same: "tr_time ?tr = tr_time tr" "tr_is_engage_requested ?tr = tr_is_engage_requested tr"
    by simp_all
  have frame: "oms_transition (fst (om_isModeChangeCompleted p t (s\<lparr>oms_transition := Some x\<rparr>))) = Some x"
    for x by (simp add: frame_simps)
  consider "Some (oms_current_mode s) \<noteq> oc_get_mode (oms_compatibility s)"
    | "Some (oms_current_mode s) = oc_get_mode (oms_compatibility s)" "om_current_control s"
    | "Some (oms_current_mode s) = oc_get_mode (oms_compatibility s)" "\<not> om_current_control s"
    by blast
  then show ?thesis
  proof cases
    case 1
    with assms(2) same show ?thesis by (auto simp: om_process_continue [OF assms(1)] Let_def)
  next
    case 2
    with assms(2) frame [of ?tr] show ?thesis
      by (auto simp: om_process_continue [OF assms(1)] Let_def split: if_splits)
  next
    case 3
    with assms(2) show ?thesis
      by (auto simp: om_process_continue [OF assms(1)] Let_def split: if_splits)
  qed
qed

section \<open>Properties of transitions\<close>

definition om_ex_param :: om_param where
  "om_ex_param = om_param_of
     \<lparr>op_check_engage_condition = False, op_nearest_dist_deviation_threshold = 3,
      op_nearest_yaw_deviation_threshold = 3 / 2, op_allow_autonomous_in_stopped = True,
      op_dist_threshold = 2, op_speed_upper_threshold = 10, op_speed_lower_threshold = - 10,
      op_yaw_threshold = 3 / 4, op_acc_threshold = 2, op_lateral_acc_threshold = 2,
      op_lateral_acc_diff_threshold = 1, op_stable_duration = 3, op_stable_dist_threshold = 1 / 2,
      op_stable_speed_upper_threshold = 3, op_stable_speed_lower_threshold = - 3,
      op_stable_yaw_threshold = 1 / 3, op_wheel_base = 3\<rparr> 1"

text \<open>A transition does not outlive its timeout: after a tick at which the timeout has passed no
  transition is in progress, and the tick has restored the mode before the transition or, when
  control of the vehicle was requested, asked for manual control.  After every tick the
  transition in progress is younger than the timeout, which leaves at least half a second more
  than the stability check takes.\<close>

theorem om_transition_times_out:
  assumes "p = om_param_of a timeout"
  shows "(\<forall>tr. oms_transition s = Some tr \<and> omp_transition_timeout p < seconds (t - tr_time tr) \<longrightarrow>
      oms_transition (fst (om_onTimer fl p t s)) = None \<and>
      (case tr_previous tr of
         Some m \<Rightarrow> oms_current_mode (fst (om_onTimer fl p t s)) = m
       | None \<Rightarrow> OM_RequestControlMode t ControlMode_MANUAL \<in> set (snd (om_onTimer fl p t s)))) \<and>
    (\<forall>tr. oms_transition (fst (om_onTimer fl p t s)) = Some tr \<longrightarrow>
      seconds (t - tr_time tr) \<le> omp_transition_timeout p) \<and>
    op_stable_duration a + 1 / 2 \<le> omp_transition_timeout p"
proof (intro conjI allI impI)
  fix tr assume tr: "oms_transition s = Some tr \<and> omp_transition_timeout p < seconds (t - tr_time tr)"
  then have "om_cancels p t tr (om_stage1 fl p t s)" by (simp add: om_cancels_def)
  with tr have st2: "om_stage2 p t (om_stage1 fl p t s) = om_cancelTransition t tr (om_stage1 fl p t s)"
    by (simp add: om_stage2_def frame_simps om_process_cancel)
  show "oms_transition (fst (om_onTimer fl p t s)) = None"
    by (simp add: om_onTimer_state st2 om_cancelTransition_def split: option.split)
  show "case tr_previous tr of Some m \<Rightarrow> oms_current_mode (fst (om_onTimer fl p t s)) = m
      | None \<Rightarrow> OM_RequestControlMode t ControlMode_MANUAL \<in> set (snd (om_onTimer fl p t s))"
    by (simp add: om_onTimer_state om_onTimer_requests st2 om_cancelTransition_def
        om_changeControlMode_def split: option.split)
next
  fix tr' assume tr': "oms_transition (fst (om_onTimer fl p t s)) = Some tr'"
  let ?s1 = "om_stage1 fl p t s"
  obtain s2 outs where st2: "om_stage2 p t ?s1 = (s2, outs)" by fastforce
  with tr' have s2: "oms_transition s2 = Some tr'" by (simp add: om_onTimer_state)
  show "seconds (t - tr_time tr') \<le> omp_transition_timeout p"
  proof (cases "oms_transition ?s1")
    case None
    with st2 s2 show ?thesis by (auto simp: om_stage2_def)
  next
    case (Some tr)
    with st2 have process: "om_processTransition p t tr ?s1 = (s2, outs)" by (simp add: om_stage2_def)
    show ?thesis
    proof (cases "om_cancels p t tr ?s1")
      case True
      with process s2 show ?thesis
        by (auto simp: om_process_cancel om_cancelTransition_def split: option.splits)
    next
      case False
      with om_process_outcome [OF False process] s2 show ?thesis
        by (auto simp: om_cancels_def not_less)
    qed
  qed
next
  show "op_stable_duration a + 1 / 2 \<le> omp_transition_timeout p"
    by (simp add: assms om_param_of_def om_transition_timeout_def Let_def)
qed

theorem om_transition_times_out_witness:
  "oms_transition (fst (om_onTimer (\<lambda>x. x) om_ex_param 9000000000
     (om_init\<lparr>oms_transition := Some (transition_new 0 True None)\<rparr>))) = None"
proof -
  have p: "om_ex_param = om_param_of (omp_autonomous om_ex_param) 1"
    by (simp add: om_ex_param_def om_param_of_def)
  from om_transition_times_out [OF p, of "om_init\<lparr>oms_transition := Some (transition_new 0 True None)\<rparr>"
      9000000000 "\<lambda>x. x"] show ?thesis
    by (simp add: transition_new_def om_ex_param_def om_param_of_def om_transition_timeout_def
        seconds_def Let_def)
qed

text \<open>Requests for autonomous control of the vehicle, and the transitions that may still make one.\<close>

fun om_is_engage :: "om_out \<Rightarrow> bool" where
  "om_is_engage (OM_RequestControlMode t m) = (m = ControlMode_AUTONOMOUS)"
| "om_is_engage _ = False"

definition om_engages :: "om_out list \<Rightarrow> nat" where
  "om_engages outs = length (filter om_is_engage outs)"

definition om_credit :: "om_state \<Rightarrow> nat" where
  "om_credit s =
     (case oms_transition s of None \<Rightarrow> 0 | Some tr \<Rightarrow> if tr_is_engage_requested tr then 1 else 0)"

definition om_enables :: "(time \<times> om_event) list \<Rightarrow> nat" where
  "om_enables evs = length (filter (\<lambda>(t, ev). ev = OM_ChangeAutowareControl True) evs)"


lemma om_engages_simps [simp]:
  "om_engages [] = 0"
  "om_engages (xs @ ys) = om_engages xs + om_engages ys"
  "om_engages (map OM_Compat cs) = 0"
  "om_engages (om_changeControlMode t m) = (if m = ControlMode_AUTONOMOUS then 1 else 0)"
  by (simp_all add: om_engages_def om_changeControlMode_def filter_empty_conv)

lemma om_synchronize_engages: "om_engages (snd (om_synchronize t s)) = 0"
  by (auto simp: om_synchronize_def Let_def split: option.splits prod.splits)

lemma om_publishData_engages: "om_engages (snd (om_publishData t s)) = 0"
  by (simp add: om_publishData_def om_engages_def Let_def split: prod.split if_split)

lemma om_stage2_credit:
  "om_engages (snd (om_stage2 p t s)) + om_credit (fst (om_stage2 p t s)) \<le> om_credit s"
proof (cases "oms_transition s")
  case None
  then show ?thesis by (simp add: om_stage2_def)
next
  case (Some tr)
  obtain s' outs where process: "om_processTransition p t tr s = (s', outs)" by fastforce
  show ?thesis
  proof (cases "om_cancels p t tr s")
    case True
    with Some show ?thesis
      by (simp add: om_stage2_def om_process_cancel om_cancelTransition_def om_credit_def
          split: option.split)
  next
    case False
    with om_process_outcome [OF False process] Some process show ?thesis
      by (auto simp: om_stage2_def om_credit_def)
  qed
qed

lemma om_onTimer_credit:
  "om_engages (snd (om_onTimer fl p t s)) + om_credit (fst (om_onTimer fl p t s)) \<le> om_credit s"
proof -
  have "om_engages (snd (om_onTimer fl p t s)) = om_engages (snd (om_stage2 p t (om_stage1 fl p t s)))"
    by (simp add: om_onTimer_stages Let_def case_prod_beta om_synchronize_engages
        om_publishData_engages)
  moreover have "om_credit (fst (om_onTimer fl p t s)) = om_credit (fst (om_stage2 p t (om_stage1 fl p t s)))"
    "om_credit (om_stage1 fl p t s) = om_credit s"
    by (simp_all add: om_credit_def om_onTimer_state frame_simps)
  ultimately show ?thesis using om_stage2_credit [of p t "om_stage1 fl p t s"] by simp
qed

lemma om_changeOperationMode_credit:
  "om_changeOperationMode t (Some m) s = Inr s' \<Longrightarrow> om_credit s' \<le> om_credit s"
  "om_changeOperationMode t None s = Inr s' \<Longrightarrow> om_credit s' \<le> 1"
  by (auto simp: om_changeOperationMode_def om_credit_def transition_new_def Let_def
      split: if_splits option.split)

lemma om_handle_credit:
  "om_engages (snd (om_handle fl p t ev s)) + om_credit (fst (om_handle fl p t ev s))
     \<le> om_credit s + om_enables [(t, ev)]"
proof (cases ev)
  case OM_Timer
  then show ?thesis using om_onTimer_credit [of fl p t s] by (simp add: om_enables_def)
next
  case (OM_ChangeAutowareControl b)
  then show ?thesis
    by (cases "om_changeOperationMode t None s")
       (auto simp: om_service_def om_onChangeAutowareControl_def om_enables_def om_credit_def
         dest: om_changeOperationMode_credit(2))
next
  case (OM_ChangeOperationMode m)
  then show ?thesis
    by (cases "om_toEnum m"; cases "om_changeOperationMode t (Some (the (om_toEnum m))) s")
       (auto simp: om_service_def om_onChangeOperationMode_def om_enables_def
         dest: om_changeOperationMode_credit(1))
qed (simp_all add: om_credit_def om_enables_def om_map_auto_def om_map_compat_def
       om_on_control_mode_response_def split: option.split)

text \<open>C27: The manager requests autonomous control of the vehicle only for somebody: over any
  sequence of events the number of such requests is at most the number of calls that enable
  Autoware's control, plus one when the run starts with a transition that still has its request
  to make.  From the start of the node every request is thus preceded by a call of its own, and a
  cancelled or failed transition makes no further one.\<close>

theorem om_engage_once:
  "om_engages (snd (om_run fl p evs s)) + om_credit (fst (om_run fl p evs s))
     \<le> om_credit s + om_enables evs"
proof (induction evs arbitrary: s)
  case Nil
  then show ?case by simp
next
  case (Cons e evs)
  obtain t ev where e: "e = (t, ev)" by fastforce
  obtain s1 o1 where h: "om_handle fl p t ev s = (s1, o1)" by fastforce
  obtain s2 o2 where r: "om_run fl p evs s1 = (s2, o2)" by fastforce
  have "om_enables (e # evs) = om_enables [(t, ev)] + om_enables evs"
    by (simp add: om_enables_def e)
  with om_handle_credit [of fl p t ev s] Cons.IH [of s1] h r show ?case
    by (simp add: e)
qed

section \<open>The older interfaces follow\<close>

text \<open>A node behind an older interface adopts what is published to it and reports it back.\<close>

fun oc_adopt :: "oc_out \<Rightarrow> oc_state \<Rightarrow> oc_state" where
  "oc_adopt (OC_SelectExternal m) c = oc_on_selector_response (oc_on_selector_mode m c)"
| "oc_adopt (OC_PubGateMode g) c = oc_on_gate_mode g c"
| "oc_adopt (OC_PubEngage t b) c = oc_on_autoware_engage b c"

definition oc_round :: "time \<Rightarrow> op_mode \<Rightarrow> oc_state \<Rightarrow> oc_state" where
  "oc_round t mode c = (let (c1, outs) = oc_set_mode t mode c in fold oc_adopt outs c1)"

lemma oc_set_mode_received:
  "oc_set_mode t mode \<lparr>oc_autoware_engage = Some e, oc_gate_mode = Some g,
       oc_selector_mode = Some r, oc_is_calling_service = False\<rparr> =
     (let calls = snd (snd (oc_convert mode)) \<noteq> SelectorMode_NONE \<and> r \<noteq> snd (snd (oc_convert mode))
      in (\<lparr>oc_autoware_engage = Some e, oc_gate_mode = Some g, oc_selector_mode = Some r,
            oc_is_calling_service = calls\<rparr>,
          (if calls then [OC_SelectExternal (snd (snd (oc_convert mode)))] else []) @
          (if g \<noteq> fst (snd (oc_convert mode)) then [OC_PubGateMode (fst (snd (oc_convert mode)))]
           else if e \<noteq> fst (oc_convert mode) then [OC_PubEngage t (fst (oc_convert mode))] else [])))"
  by (simp add: oc_set_mode_def Let_def case_prod_beta)

text \<open>Once the three older inputs have been received and no selector call is open, two rounds of
  publishing, each adopted by the nodes behind the older interfaces, bring them to any requested
  mode: the mode read back is the requested one and nothing is left to publish.\<close>

theorem om_compat_converges:
  assumes "c = \<lparr>oc_autoware_engage = Some e, oc_gate_mode = Some g, oc_selector_mode = Some r,
                oc_is_calling_service = False\<rparr>"
  shows "oc_get_mode (oc_round t2 mode (oc_round t1 mode c)) = Some mode \<and>
    oc_set_mode t3 mode (oc_round t2 mode (oc_round t1 mode c)) =
      (oc_round t2 mode (oc_round t1 mode c), [])"
  unfolding assms
  by (cases mode)
     (auto simp: oc_round_def oc_set_mode_received oc_get_mode_def Let_def
       oc_on_selector_response_def oc_on_selector_mode_def oc_on_gate_mode_def
       oc_on_autoware_engage_def)

theorem om_compat_converges_witness:
  "oc_get_mode (oc_round 2 OM_REMOTE (oc_round 1 OM_REMOTE
     \<lparr>oc_autoware_engage = Some False, oc_gate_mode = Some GateMode_AUTO,
      oc_selector_mode = Some SelectorMode_LOCAL, oc_is_calling_service = False\<rparr>)) = Some OM_REMOTE"
  by (rule om_compat_converges [OF refl, THEN conjunct1])

section \<open>When autonomous control can be engaged\<close>

definition oa_conditions :: "(real \<Rightarrow> real) \<Rightarrow> oa_param \<Rightarrow> oa_state \<Rightarrow> trajectory_point \<Rightarrow> bool" where
  "oa_conditions fl p a pt \<longleftrightarrow>
     calcDistance2d (tp_pose pt) (oa_pose a) < op_dist_threshold p \<and>
     calcYawDeviation (tp_pose pt) (oa_pose a) < op_yaw_threshold p \<and>
     oa_vx a - tp_longitudinal_velocity_mps pt \<le> op_speed_upper_threshold p \<and>
     op_speed_lower_threshold p \<le> oa_vx a - tp_longitudinal_velocity_mps pt \<and>
     (1 / 10 < \<bar>oa_vx a\<bar> \<longrightarrow> 1 / 100 \<le> \<bar>lon_speed (cc_longitudinal (oa_control_cmd a))\<bar>) \<and>
     (1 / 100 \<le> \<bar>oa_vx a\<bar> \<longrightarrow>
        \<bar>lon_acceleration (cc_longitudinal (oa_control_cmd a))\<bar> \<le> op_acc_threshold p) \<and>
     \<bar>oa_vx a * oa_wz a\<bar> \<le> op_lateral_acc_threshold p \<and>
     \<bar>oa_vx a * oa_wz a - oa_vx a * (oa_vx a *
        fl (tan (lat_steering_tire_angle (cc_lateral (oa_control_cmd a)))) / op_wheel_base p)\<bar>
       \<le> op_lateral_acc_diff_threshold p"

text \<open>The three ends of the check: disabled, no trajectory to compare with, and the comparison.\<close>

lemma oa_available_disabled:
  "\<not> op_check_engage_condition p \<Longrightarrow>
     oa_isModeChangeAvailable fl p a = (a\<lparr>oa_debug_info := oa_setAllOk (oa_debug_info a)\<rparr>, True)"
  by (simp add: oa_isModeChangeAvailable_def)

lemma oa_available_no_trajectory:
  "op_check_engage_condition p \<Longrightarrow> length (oa_trajectory a) < 2 \<or> oa_closest p a = None \<Longrightarrow>
     oa_isModeChangeAvailable fl p a = (a\<lparr>oa_debug_info := oa_debug_new\<rparr>, False)"
  by (auto simp: oa_isModeChangeAvailable_def)

lemma oa_hasDanger_frame [frame_simps]:
  "oa_control_cmd (fst (oa_hasDangerAcceleration p a)) = oa_control_cmd a"
  "oa_pose (fst (oa_hasDangerAcceleration p a)) = oa_pose a"
  "oa_vx (fst (oa_hasDangerAcceleration p a)) = oa_vx a"
  "oa_wz (fst (oa_hasDangerAcceleration p a)) = oa_wz a"
  "oa_trajectory (fst (oa_hasDangerAcceleration p a)) = oa_trajectory a"
  "oa_stable_start_time (fst (oa_hasDangerAcceleration p a)) = oa_stable_start_time a"
  "oa_state.more (fst (oa_hasDangerAcceleration p a)) = oa_state.more a"
  "oa_control_cmd (fst (oa_hasDangerLateralAcceleration fl p a)) = oa_control_cmd a"
  "oa_pose (fst (oa_hasDangerLateralAcceleration fl p a)) = oa_pose a"
  "oa_vx (fst (oa_hasDangerLateralAcceleration fl p a)) = oa_vx a"
  "oa_wz (fst (oa_hasDangerLateralAcceleration fl p a)) = oa_wz a"
  "oa_trajectory (fst (oa_hasDangerLateralAcceleration fl p a)) = oa_trajectory a"
  "oa_stable_start_time (fst (oa_hasDangerLateralAcceleration fl p a)) = oa_stable_start_time a"
  "oa_state.more (fst (oa_hasDangerLateralAcceleration fl p a)) = oa_state.more a"
  by (simp_all add: oa_hasDangerAcceleration_def oa_hasDangerLateralAcceleration_def Let_def)

lemma oa_available_compared:
  assumes "op_check_engage_condition p" and "\<not> length (oa_trajectory a) < 2"
    and "oa_closest p a = Some pt"
  shows "snd (oa_isModeChangeAvailable fl p a) =
      (op_allow_autonomous_in_stopped p \<and> \<bar>oa_vx a\<bar> < 1 / 100 \<or> oa_conditions fl p a pt)"
    and "od_is_all_ok (oa_debug_info (fst (oa_isModeChangeAvailable fl p a))) =
      snd (oa_isModeChangeAvailable fl p a)"
    and "fst (oa_isModeChangeAvailable fl p a) =
      a\<lparr>oa_debug_info := oa_debug_info (fst (oa_isModeChangeAvailable fl p a))\<rparr>"
proof -
  note check = oa_isModeChangeAvailable_def oa_hasDangerAcceleration_def
    oa_hasDangerLateralAcceleration_def Let_def case_prod_beta
  show "snd (oa_isModeChangeAvailable fl p a) =
      (op_allow_autonomous_in_stopped p \<and> \<bar>oa_vx a\<bar> < 1 / 100 \<or> oa_conditions fl p a pt)"
    using assms by (cases "\<bar>oa_vx a\<bar> < 1 / 100") (simp_all add: check oa_conditions_def not_less imp_conv_disj)
  note outer = oa_isModeChangeAvailable_def Let_def case_prod_beta
  show "od_is_all_ok (oa_debug_info (fst (oa_isModeChangeAvailable fl p a))) =
      snd (oa_isModeChangeAvailable fl p a)"
    using assms by (simp add: outer)
  show "fst (oa_isModeChangeAvailable fl p a) =
      a\<lparr>oa_debug_info := oa_debug_info (fst (oa_isModeChangeAvailable fl p a))\<rparr>"
    using assms by (intro oa_state.equality) (simp_all add: outer frame_simps)
qed

text \<open>Autonomous control can be engaged exactly when the check is disabled, or the trajectory has
  two points of which one is within the search thresholds and either the vehicle stands still and
  may be engaged then, or the conditions on distance, heading, speed, acceleration and lateral
  acceleration all hold at the nearest such point.  The heading condition bounds the signed
  deviation from above only.  The published debug flag \<open>is_all_ok\<close> is the answer, and the check
  changes nothing but the debug information.\<close>

theorem om_engage_available_iff:
  "snd (oa_isModeChangeAvailable fl p a) =
     (if op_check_engage_condition p
      then 2 \<le> length (oa_trajectory a) \<and>
        (\<exists>i. findNearestIndex (oa_trajectory a) (oa_pose a) (op_nearest_dist_deviation_threshold p)
               (op_nearest_yaw_deviation_threshold p) = Some i \<and>
          (op_allow_autonomous_in_stopped p \<and> \<bar>oa_vx a\<bar> < 1 / 100 \<or>
           oa_conditions fl p a (oa_trajectory a ! i)))
      else True) \<and>
   od_is_all_ok (oa_debug_info (fst (oa_isModeChangeAvailable fl p a))) =
     snd (oa_isModeChangeAvailable fl p a) \<and>
   fst (oa_isModeChangeAvailable fl p a) =
     a\<lparr>oa_debug_info := oa_debug_info (fst (oa_isModeChangeAvailable fl p a))\<rparr>"
proof -
  consider "\<not> op_check_engage_condition p"
    | "op_check_engage_condition p" "length (oa_trajectory a) < 2 \<or> oa_closest p a = None"
    | pt where "op_check_engage_condition p" "\<not> length (oa_trajectory a) < 2"
        "oa_closest p a = Some pt"
    by blast
  then show ?thesis
  proof cases
    case 1
    then show ?thesis by (simp add: oa_available_disabled oa_setAllOk_def)
  next
    case 2
    then show ?thesis
      by (auto simp: oa_available_no_trajectory oa_debug_new_def oa_closest_def)
  next
    case 3
    then obtain i
      where i: "findNearestIndex (oa_trajectory a) (oa_pose a) (op_nearest_dist_deviation_threshold p)
          (op_nearest_yaw_deviation_threshold p) = Some i" "pt = oa_trajectory a ! i"
      by (auto simp: oa_closest_def)
    from 3 i oa_available_compared [OF 3] show ?thesis by (simp add: not_less)
  qed
qed

end
