(* ===== verification/Change_Publisher.thy ===== *)
theory Change_Publisher
  imports AW_Prelude
begin

text \<open>
  Nodes that publish a value when it changes: each keeps what it last showed and publishes a new
  value exactly when it differs from it.  The locale states this once; the motion, fail-safe and
  operation mode nodes of the AD API interpret it on their own update functions.
\<close>

locale change_publisher =
  fixes update :: "'i \<Rightarrow> 's \<Rightarrow> 's \<times> 'o list"
    and new_value :: "'i \<Rightarrow> 's \<Rightarrow> 'v"
    and shown :: "'s \<Rightarrow> 'v"
    and value_of :: "'o \<Rightarrow> 'v"
  assumes shown_update: "shown (fst (update i s)) = new_value i s"
    and published: "map value_of (snd (update i s)) = (if new_value i s = shown s then [] else [new_value i s])"
begin

fun updates :: "'i list \<Rightarrow> 's \<Rightarrow> 's \<times> 'o list" where
  "updates [] s = (s, [])"
| "updates (i # is) s =
     (let (s1, o1) = update i s; (s2, o2) = updates is s1 in (s2, o1 @ o2))"

text \<open>No value is published twice in a row.\<close>

lemma no_repetition: "distinct_adj (shown s # map value_of (snd (updates is s)))"
proof (induction "is" arbitrary: s)
  case (Cons i "is")
  obtain s1 o1 where u: "update i s = (s1, o1)" by fastforce
  obtain s2 o2 where us: "updates is s1 = (s2, o2)" by fastforce
  from Cons.IH [of s1] us have IH: "distinct_adj (shown s1 # map value_of o2)" by simp
  show ?case
    using IH shown_update [of i s] published [of i s] by (auto simp: u us split: if_splits)
qed simp

text \<open>A subscriber that keeps the last value it received knows the current one.\<close>

lemma subscriber_current:
  "last (shown s # map value_of (snd (updates is s))) = shown (fst (updates is s))"
proof (induction "is" arbitrary: s)
  case (Cons i "is")
  obtain s1 o1 where u: "update i s = (s1, o1)" by fastforce
  obtain s2 o2 where us: "updates is s1 = (s2, o2)" by fastforce
  from Cons.IH [of s1] us have IH: "last (shown s1 # map value_of o2) = shown s2" by simp
  show ?case
    using IH shown_update [of i s] published [of i s] by (auto simp: u us split: if_splits)
qed simp

lemma silent_iff_unchanged: "snd (update i s) = [] \<longleftrightarrow> new_value i s = shown s"
  using published [of i s] by (auto split: if_splits)

end

end
