(* ===== verification/Vehicle_Stop_Checker.thy ===== *)
theory Vehicle_Stop_Checker
  imports AW_Prelude
begin

text \<open>
  \<open>motion_utils::VehicleStopCheckerBase\<close>: a buffer of velocities, newest first, from which it is
  decided whether the vehicle has stood still for a given time.  \<open>back()\<close> of an empty
  \<open>std::deque\<close>, which is undefined behaviour, is the value \<open>None\<close>.
\<close>

record twist_stamped =
  tw_stamp :: time
  tw_x :: real
  tw_y :: real
  tw_z :: real

text \<open>The loop of \<open>addTwist\<close> that removes data older than the buffer's duration.\<close>

function vs_drop_old :: "real \<Rightarrow> time \<Rightarrow> twist_stamped list \<Rightarrow> twist_stamped list option" where
  "vs_drop_old buffer_duration t buf =
     (if buf = [] then None
      else if seconds (t - tw_stamp (last buf)) \<le> buffer_duration then Some buf
      else vs_drop_old buffer_duration t (butlast buf))"
  by auto
termination by (relation "measure (\<lambda>(d, t, buf). length buf)") auto

declare vs_drop_old.simps [simp del]

definition vs_addTwist ::
  "real \<Rightarrow> time \<Rightarrow> twist_stamped \<Rightarrow> twist_stamped list \<Rightarrow> twist_stamped list option" where
  "vs_addTwist buffer_duration t twist buf = vs_drop_old buffer_duration t (twist # buf)"

text \<open>The velocity of one sample is below the limit, a millimetre per second.\<close>

definition vs_slow :: "twist_stamped \<Rightarrow> bool" where
  "vs_slow tw =
     (let squared_stop_velocity = (1 / 1000) * (1 / 1000); x = tw_x tw; y = tw_y tw; z = tw_z tw;
          v = x * x + y * y + z * z
      in \<not> squared_stop_velocity \<le> v)"

fun vs_velocities :: "real \<Rightarrow> time \<Rightarrow> twist_stamped list \<Rightarrow> bool" where
  "vs_velocities stop_duration t [] = True"
| "vs_velocities stop_duration t (tw # buf) =
     (if \<not> vs_slow tw then False
      else if stop_duration \<le> seconds (t - tw_stamp tw) then True
      else vs_velocities stop_duration t buf)"

definition vs_isVehicleStopped :: "real \<Rightarrow> time \<Rightarrow> twist_stamped list \<Rightarrow> bool" where
  "vs_isVehicleStopped stop_duration t buf =
     (if buf = [] then False
      else if seconds (t - tw_stamp (last buf)) < stop_duration then False
      else vs_velocities stop_duration t buf)"

text \<open>A history of samples with their times of arrival, oldest first, from an empty buffer.\<close>

fun vs_run :: "real \<Rightarrow> (time \<times> twist_stamped) list \<Rightarrow> twist_stamped list \<Rightarrow> twist_stamped list option" where
  "vs_run buffer_duration [] buf = Some buf"
| "vs_run buffer_duration ((t, tw) # xs) buf =
     (case vs_addTwist buffer_duration t tw buf of
        None \<Rightarrow> None | Some buf1 \<Rightarrow> vs_run buffer_duration xs buf1)"

section \<open>What the buffer holds\<close>

lemma vs_drop_old_Some:
  "vs_drop_old d t buf = Some buf' \<Longrightarrow>
     \<exists>old. buf = buf' @ old \<and> buf' \<noteq> [] \<and> seconds (t - tw_stamp (last buf')) \<le> d"
proof (induction d t buf rule: vs_drop_old.induct)
  case (1 d t buf)
  show ?case
  proof (cases "buf = [] \<or> seconds (t - tw_stamp (last buf)) \<le> d")
    case True
    with "1.prems" show ?thesis by (auto simp: vs_drop_old.simps [of d t buf] split: if_splits)
  next
    case False
    with "1.prems" have "vs_drop_old d t (butlast buf) = Some buf'"
      by (simp add: vs_drop_old.simps [of d t buf])
    with False "1.IH" obtain old
      where old: "butlast buf = buf' @ old" "buf' \<noteq> []" "seconds (t - tw_stamp (last buf')) \<le> d"
      by auto
    from False have "buf = butlast buf @ [last buf]" by simp
    with old show ?thesis by (metis append_assoc)
  qed
qed

lemma vs_drop_old_None: "vs_drop_old d t buf = None \<longleftrightarrow> (\<forall>tw \<in> set buf. d < seconds (t - tw_stamp tw))"
proof (induction buf rule: rev_induct)
  case (snoc tw buf)
  then show ?case by (subst vs_drop_old.simps) (auto simp: not_le)
qed (simp add: vs_drop_old.simps)

lemma vs_run_history:
  "vs_run d xs buf = Some buf' \<Longrightarrow> \<exists>old. rev (map snd xs) @ buf = buf' @ old"
proof (induction d xs buf rule: vs_run.induct)
  case (2 d t tw xs buf)
  then obtain buf1 where "vs_drop_old d t (tw # buf) = Some buf1" and run: "vs_run d xs buf1 = Some buf'"
    by (auto simp: vs_addTwist_def split: option.splits)
  then obtain old1 where old1: "tw # buf = buf1 @ old1" using vs_drop_old_Some by blast
  from "2.IH" run \<open>vs_drop_old d t (tw # buf) = Some buf1\<close>
  obtain old where "rev (map snd xs) @ buf1 = buf' @ old" by (auto simp: vs_addTwist_def)
  with old1 have "rev (map snd ((t, tw) # xs)) @ buf = buf' @ (old @ old1)"
    by (metis append_assoc append_Cons append_Nil list.simps(9) rev.simps(2) snd_conv)
  then show ?case by blast
qed simp

text \<open>The loop looks at the samples younger than the duration and the first older one.\<close>

lemma vs_velocities_split:
  "\<forall>tw \<in> set new. seconds (t - tw_stamp tw) < d \<Longrightarrow> d \<le> seconds (t - tw_stamp x) \<Longrightarrow>
   vs_velocities d t (new @ x # rest) \<longleftrightarrow> (\<forall>tw \<in> set new. vs_slow tw) \<and> vs_slow x"
  by (induction new) auto

lemma vs_isVehicleStopped_split:
  assumes "vs_isVehicleStopped d t buf"
  obtains new x rest where "buf = new @ x # rest" "\<forall>tw \<in> set new. seconds (t - tw_stamp tw) < d"
    "d \<le> seconds (t - tw_stamp x)" "\<forall>tw \<in> set new. vs_slow tw" "vs_slow x"
proof -
  from assms have buf: "buf \<noteq> []" "d \<le> seconds (t - tw_stamp (last buf))" "vs_velocities d t buf"
    by (auto simp: vs_isVehicleStopped_def split: if_splits)
  then have "\<exists>tw \<in> set buf. d \<le> seconds (t - tw_stamp tw)" by (metis last_in_set)
  then obtain new x rest where split: "buf = new @ x # rest" "d \<le> seconds (t - tw_stamp x)"
      "\<forall>tw \<in> set new. \<not> d \<le> seconds (t - tw_stamp tw)"
    using split_list_first_prop [of buf "\<lambda>tw. d \<le> seconds (t - tw_stamp tw)"] by blast
  with buf(3) that show ?thesis by (auto simp: vs_velocities_split not_le)
qed

text \<open>The answer that the vehicle has stopped is sound for the whole history of samples, not only
  for what the buffer has kept: when the samples were stamped in the order they arrived and the
  checker says that the vehicle has stood still for a time, every sample ever received that is
  younger than this time shows a standing vehicle, and some sample received is at least as old as
  the time and shows a standing vehicle too.\<close>

theorem vs_stopped_sound:
  assumes "vs_run buffer_duration xs [] = Some buf"
    and "sorted (map (\<lambda>(u, tw). tw_stamp tw) xs)"
    and "vs_isVehicleStopped d t buf"
  shows "(\<forall>(u, tw) \<in> set xs. seconds (t - tw_stamp tw) < d \<longrightarrow> vs_slow tw) \<and>
    (\<exists>(u, tw) \<in> set xs. d \<le> seconds (t - tw_stamp tw) \<and> vs_slow tw)"
proof -
  obtain old where hist: "rev (map snd xs) = buf @ old"
    using vs_run_history [OF assms(1)] by auto
  obtain new x rest where split: "buf = new @ x # rest" "d \<le> seconds (t - tw_stamp x)"
      "\<forall>tw \<in> set new. vs_slow tw" "vs_slow x"
    using vs_isVehicleStopped_split [OF assms(3)] .
  have "sorted_wrt (\<lambda>x y. tw_stamp x \<le> tw_stamp y) (map snd xs)"
    using assms(2) by (simp add: sorted_map sorted_wrt_map case_prod_beta)
  then have "sorted_wrt (\<lambda>x y. tw_stamp y \<le> tw_stamp x) (rev (map snd xs))"
    by (simp only: sorted_wrt_rev)
  then have "sorted_wrt (\<lambda>x y. tw_stamp y \<le> tw_stamp x) (new @ x # rest @ old)"
    by (simp only: hist split(1) append_assoc append_Cons)
  then have "\<forall>tw \<in> set (rest @ old). tw_stamp tw \<le> tw_stamp x" by (simp add: sorted_wrt_append)
  then have "\<forall>tw \<in> set (rest @ old). d \<le> seconds (t - tw_stamp tw)"
    using split(2) by (meson diff_left_mono order_trans seconds_mono)
  moreover have "snd ` set xs = set (new @ x # rest @ old)"
    using arg_cong [OF hist, of set] split(1) by simp
  ultimately have "\<forall>tw \<in> snd ` set xs. seconds (t - tw_stamp tw) < d \<longrightarrow> vs_slow tw"
    "\<exists>tw \<in> snd ` set xs. d \<le> seconds (t - tw_stamp tw) \<and> vs_slow tw"
    using split by (auto simp: not_less [symmetric])
  then show ?thesis by (auto simp: case_prod_beta)
qed

theorem vs_stopped_sound_witness:
  "\<exists>(u, tw) \<in> set [(0 :: time, \<lparr>tw_stamp = 0, tw_x = 0, tw_y = 0, tw_z = 0\<rparr>),
      (1000000000, \<lparr>tw_stamp = 1000000000, tw_x = 0, tw_y = 0, tw_z = 0\<rparr>)].
     1 \<le> seconds (1500000000 - tw_stamp tw) \<and> vs_slow tw"
  by (rule vs_stopped_sound [where buffer_duration = 10 and buf =
        "[\<lparr>tw_stamp = 1000000000, tw_x = 0, tw_y = 0, tw_z = 0\<rparr>,
          \<lparr>tw_stamp = 0, tw_x = 0, tw_y = 0, tw_z = 0\<rparr>]", THEN conjunct2])
     (simp_all add: vs_addTwist_def vs_drop_old.simps vs_isVehicleStopped_def vs_slow_def seconds_def)

end
