(* ===== verification/Ad_Motion.thy ===== *)
theory Ad_Motion
  imports AW_Msgs Change_Publisher Vehicle_Stop_Checker
begin

text \<open>
  The motion node of \<open>system/default_ad_api\<close>: it pauses the vehicle command gate when the vehicle
  stands still without a start request and lifts the pause when a start is requested, if
  configured after the user has accepted the start.  \<open>None\<close> as the result of an event is the
  undefined behaviour of the stop checker's buffer.
\<close>

datatype motion_state = MotionState_UNKNOWN | MotionState_STOPPED | MotionState_STARTING | MotionState_MOVING

datatype mo_state_kind =
  MO_Unknown | MO_Pausing | MO_Paused | MO_Starting | MO_Resuming | MO_Resumed | MO_Moving

record mo_param =
  mop_stop_check_duration :: real
  mop_require_accept_start :: bool

record mo_state =
  mo_twist_buffer :: "twist_stamped list"
  mo_state :: mo_state_kind
  mo_is_paused :: "bool option"
  mo_is_start_requested :: "bool option"
  mo_is_calling_set_pause :: bool

datatype mo_out = MO_PubState time motion_state | MO_SetPause bool

datatype mo_error = MO_ErrorNotStarting

definition mo_init :: mo_state where
  "mo_init =
     \<lparr>mo_twist_buffer = [], mo_state = MO_Unknown, mo_is_paused = None,
      mo_is_start_requested = None, mo_is_calling_set_pause = False\<rparr>"

definition mo_onOdom :: "time \<Rightarrow> twist_stamped \<Rightarrow> mo_state \<Rightarrow> mo_state option" where
  "mo_onOdom t twist s =
     map_option (\<lambda>buf. s\<lparr>mo_twist_buffer := buf\<rparr>) (vs_addTwist 10 t twist (mo_twist_buffer s))"

fun mo_mapping :: "mo_state_kind \<Rightarrow> motion_state" where
  "mo_mapping MO_Unknown = MotionState_UNKNOWN"
| "mo_mapping MO_Pausing = MotionState_STOPPED"
| "mo_mapping MO_Paused = MotionState_STOPPED"
| "mo_mapping MO_Starting = MotionState_STARTING"
| "mo_mapping MO_Resuming = MotionState_MOVING"
| "mo_mapping MO_Resumed = MotionState_MOVING"
| "mo_mapping MO_Moving = MotionState_MOVING"

definition mo_change_state :: "time \<Rightarrow> mo_state_kind \<Rightarrow> mo_state \<Rightarrow> mo_state \<times> mo_out list" where
  "mo_change_state t k s =
     (s\<lparr>mo_state := k\<rparr>,
      if mo_mapping (mo_state s) \<noteq> mo_mapping k then [MO_PubState t (mo_mapping k)] else [])"

definition mo_get_next_state :: "mo_param \<Rightarrow> time \<Rightarrow> bool \<Rightarrow> bool \<Rightarrow> mo_state \<Rightarrow> mo_state_kind" where
  "mo_get_next_state p t is_paused is_start_requested s =
     (if is_paused then
        (if \<not> is_start_requested then MO_Paused
         else if mop_require_accept_start p then MO_Starting else MO_Resuming)
      else
        (if \<not> vs_isVehicleStopped (mop_stop_check_duration p) t (mo_twist_buffer s) then MO_Moving
         else if is_start_requested then MO_Resumed else MO_Pausing))"

definition mo_update_state :: "mo_param \<Rightarrow> time \<Rightarrow> mo_state \<Rightarrow> mo_state \<times> mo_out list" where
  "mo_update_state p t s =
     (case (mo_is_paused s, mo_is_start_requested s) of
        (Some is_paused, Some is_start_requested) \<Rightarrow>
          (let next_state = mo_get_next_state p t is_paused is_start_requested s in
           if mo_state s = MO_Pausing \<and>
              next_state \<in> {MO_Moving, MO_Pausing, MO_Resumed, MO_Unknown} then (s, [])
           else if mo_state s = MO_Resuming \<and> next_state = MO_Starting then (s, [])
           else mo_change_state t next_state s)
      | _ \<Rightarrow> (s, []))"

text \<open>\<open>ready\<close> is the answer of \<open>service_is_ready()\<close>.\<close>

definition mo_change_pause :: "bool \<Rightarrow> bool \<Rightarrow> mo_state \<Rightarrow> mo_state \<times> mo_out list" where
  "mo_change_pause ready pause s =
     (if \<not> mo_is_calling_set_pause s \<and> ready
      then (s\<lparr>mo_is_calling_set_pause := True\<rparr>, [MO_SetPause pause]) else (s, []))"

definition mo_on_set_pause_response :: "mo_state \<Rightarrow> mo_state" where
  "mo_on_set_pause_response s = s\<lparr>mo_is_calling_set_pause := False\<rparr>"

definition mo_on_timer :: "mo_param \<Rightarrow> time \<Rightarrow> bool \<Rightarrow> mo_state \<Rightarrow> mo_state \<times> mo_out list" where
  "mo_on_timer p t ready s =
     (let (s1, o1) = mo_update_state p t s in
      if mo_state s1 = MO_Pausing then
        (let (s2, o2) = mo_change_pause ready True s1 in (s2, o1 @ o2))
      else if mo_state s1 = MO_Resuming then
        (let (s2, o2) = mo_change_pause ready False s1 in (s2, o1 @ o2))
      else (s1, o1))"

definition mo_on_is_paused :: "bool \<Rightarrow> mo_state \<Rightarrow> mo_state" where
  "mo_on_is_paused b s = s\<lparr>mo_is_paused := Some b\<rparr>"

definition mo_on_is_start_requested :: "bool \<Rightarrow> mo_state \<Rightarrow> mo_state" where
  "mo_on_is_start_requested b s = s\<lparr>mo_is_start_requested := Some b\<rparr>"

definition mo_on_accept :: "time \<Rightarrow> mo_state \<Rightarrow> mo_error + (mo_state \<times> mo_out list)" where
  "mo_on_accept t s =
     (if mo_state s \<noteq> MO_Starting then Inl MO_ErrorNotStarting
      else Inr (mo_change_state t MO_Resuming s))"

datatype mo_event =
    MO_IsPaused bool
  | MO_IsStartRequested bool
  | MO_Odom twist_stamped
  | MO_SetPauseResponse
  | MO_Accept
  | MO_Timer bool

text \<open>A service that throws answers with an error; the state keeps its value.\<close>

fun mo_handle :: "mo_param \<Rightarrow> time \<Rightarrow> mo_event \<Rightarrow> mo_state \<Rightarrow> (mo_state \<times> mo_out list) option" where
  "mo_handle p t (MO_IsPaused b) s = Some (mo_on_is_paused b s, [])"
| "mo_handle p t (MO_IsStartRequested b) s = Some (mo_on_is_start_requested b s, [])"
| "mo_handle p t (MO_Odom tw) s = map_option (\<lambda>s1. (s1, [])) (mo_onOdom t tw s)"
| "mo_handle p t MO_SetPauseResponse s = Some (mo_on_set_pause_response s, [])"
| "mo_handle p t MO_Accept s = Some (case mo_on_accept t s of Inl e \<Rightarrow> (s, []) | Inr r \<Rightarrow> r)"
| "mo_handle p t (MO_Timer ready) s = Some (mo_on_timer p t ready s)"

fun mo_run :: "mo_param \<Rightarrow> (time \<times> mo_event) list \<Rightarrow> mo_state \<Rightarrow> (mo_state \<times> mo_out list) option" where
  "mo_run p [] s = Some (s, [])"
| "mo_run p ((t, ev) # evs) s =
     (case mo_handle p t ev s of
        None \<Rightarrow> None
      | Some (s1, o1) \<Rightarrow> map_option (\<lambda>(s2, o2). (s2, o1 @ o2)) (mo_run p evs s1))"

section \<open>Published states\<close>

fun mo_published :: "mo_out \<Rightarrow> motion_state" where
  "mo_published (MO_PubState t m) = m"
| "mo_published (MO_SetPause b) = MotionState_UNKNOWN"

interpretation mo_pub: change_publisher
  "\<lambda>(t, k). mo_change_state t k" "\<lambda>(t, k) s. mo_mapping k" "\<lambda>s. mo_mapping (mo_state s)" mo_published
  by unfold_locales (auto simp: mo_change_state_def)

section \<open>Runs and episodes\<close>

lemma mo_run_append:
  "mo_run p (evs @ evs') s =
     (case mo_run p evs s of
        None \<Rightarrow> None
      | Some (s1, o1) \<Rightarrow> map_option (\<lambda>(s2, o2). (s2, o1 @ o2)) (mo_run p evs' s1))"
proof (induction evs arbitrary: s)
  case (Cons e evs)
  obtain t ev where e: "e = (t, ev)" by fastforce
  show ?case
  proof (cases "mo_handle p t ev s")
    case (Some r)
    obtain s1 o1 where r: "r = (s1, o1)" by fastforce
    with Some Cons.IH [of s1] show ?thesis
      by (auto simp: e map_option_case split: option.split prod.split)
  qed (simp add: e)
qed (simp add: map_option_case split: option.split)

lemma mo_run_snoc:
  assumes "mo_run p (evs @ [(t, ev)]) s = Some (s2, outs)"
  obtains s1 o1 o2 where "mo_run p evs s = Some (s1, o1)" "mo_handle p t ev s1 = Some (s2, o2)"
    "outs = o1 @ o2"
  using assms by (auto simp: mo_run_append split: option.splits)

text \<open>
  An episode of the state \<open>k\<close>: the events divide into those before it was entered, the event
  that entered it, and events during which it was kept.
\<close>

definition mo_episode ::
  "mo_param \<Rightarrow> mo_state_kind \<Rightarrow> (time \<times> mo_event) list \<Rightarrow> time \<times> mo_event \<Rightarrow> mo_state \<Rightarrow>
     (time \<times> mo_event) list \<Rightarrow> bool" where
  "mo_episode p k pre entry s0 post \<longleftrightarrow>
     (\<exists>o0. mo_run p pre mo_init = Some (s0, o0)) \<and> mo_state s0 \<noteq> k \<and>
     (\<forall>n \<le> length post. \<exists>s1 o1. mo_run p (pre @ entry # take n post) mo_init = Some (s1, o1) \<and>
        mo_state s1 = k)"

lemma mo_episode_exists:
  "mo_run p evs mo_init = Some (s, outs) \<Longrightarrow> mo_state s = k \<Longrightarrow> k \<noteq> MO_Unknown \<Longrightarrow>
     \<exists>pre entry s0 post. evs = pre @ entry # post \<and> mo_episode p k pre entry s0 post"
proof (induction evs arbitrary: s outs rule: rev_induct)
  case Nil
  then show ?case by (auto simp: mo_init_def)
next
  case (snoc e evs)
  obtain t ev where e: "e = (t, ev)" by fastforce
  from snoc.prems(1) e obtain s1 o1 o2
    where run: "mo_run p evs mo_init = Some (s1, o1)" and step: "mo_handle p t ev s1 = Some (s, o2)"
    by (auto elim: mo_run_snoc)
  show ?case
  proof (cases "mo_state s1 = k")
    case True
    from snoc.IH [OF run True snoc.prems(3)] obtain pre entry s0 post
      where evs: "evs = pre @ entry # post" and ep: "mo_episode p k pre entry s0 post" by blast
    have "mo_episode p k pre entry s0 (post @ [e])"
      using ep snoc.prems(1,2) unfolding mo_episode_def evs
      by (auto simp: le_Suc_eq)
    with evs show ?thesis by (intro exI [of _ pre] exI [of _ entry]) auto
  next
    case False
    with run snoc.prems(1,2) have "mo_episode p k evs e s1 []" by (simp add: mo_episode_def)
    then show ?thesis by blast
  qed
qed

lemma mo_episode_entry:
  assumes "mo_episode p k pre (t, ev) s0 post"
  obtains s1 o1 where "mo_handle p t ev s0 = Some (s1, o1)" "mo_state s1 = k" "mo_state s0 \<noteq> k"
  using assms unfolding mo_episode_def
  by (auto simp: mo_run_append split: option.splits dest!: spec [of _ 0])

text \<open>The only events that change the state are a timer tick and an accepted start.\<close>

lemma mo_state_change:
  assumes "mo_handle p t ev s = Some (s1, o1)" and "mo_state s1 \<noteq> mo_state s"
  shows "ev = MO_Accept \<and> mo_state s = MO_Starting \<and> mo_state s1 = MO_Resuming \<or>
    (\<exists>ready a b. ev = MO_Timer ready \<and> mo_is_paused s = Some a \<and> mo_is_start_requested s = Some b \<and>
       mo_state s1 = mo_get_next_state p t a b s)"
  using assms
  by (cases ev)
     (auto simp: mo_on_is_paused_def mo_on_is_start_requested_def mo_onOdom_def
       mo_on_set_pause_response_def mo_on_accept_def mo_change_state_def mo_on_timer_def
       mo_update_state_def mo_change_pause_def Let_def split: if_splits option.splits)

lemma mo_set_pause_state:
  assumes "mo_handle p t ev s = Some (s1, o1)" and "MO_SetPause b \<in> set o1"
  shows "mo_state s1 = (if b then MO_Pausing else MO_Resuming)"
  using assms
  by (cases ev)
     (auto simp: mo_on_accept_def mo_change_state_def mo_on_timer_def
       mo_update_state_def mo_change_pause_def Let_def split: if_splits option.splits)

text \<open>When a start must be accepted, the pause of the gate is lifted only after an acceptance: in
  every run, a request to lift the pause is sent in an episode of the state RESUMING that an
  accepted start opened while the node was in STARTING, and the node has been in RESUMING ever
  since that acceptance.\<close>

theorem ad_motion_unpause_accepted:
  assumes "mop_require_accept_start p"
    and "mo_run p evs mo_init = Some (s, outs)"
    and "mo_handle p t ev s = Some (s', outs')"
    and "MO_SetPause False \<in> set outs'"
  shows "\<exists>pre u s0 post. evs @ [(t, ev)] = pre @ (u, MO_Accept) # post \<and>
    mo_episode p MO_Resuming pre (u, MO_Accept) s0 post \<and> mo_state s0 = MO_Starting"
proof -
  have run: "mo_run p (evs @ [(t, ev)]) mo_init = Some (s', outs @ outs')"
    using assms(2,3) by (simp add: mo_run_append)
  have s': "mo_state s' = MO_Resuming" using mo_set_pause_state [OF assms(3,4)] by simp
  obtain pre entry s0 post
    where split: "evs @ [(t, ev)] = pre @ entry # post" "mo_episode p MO_Resuming pre entry s0 post"
    using mo_episode_exists [OF run s'] by auto
  obtain u e where entry: "entry = (u, e)" by fastforce
  from split(2) obtain s1 o1 where step: "mo_handle p u e s0 = Some (s1, o1)"
      "mo_state s1 = MO_Resuming" "mo_state s0 \<noteq> MO_Resuming"
    unfolding entry by (rule mo_episode_entry)
  with assms(1) have "e = MO_Accept \<and> mo_state s0 = MO_Starting"
    using mo_state_change [OF step(1)] by (auto simp: mo_get_next_state_def split: if_splits)
  then show ?thesis
    using split entry by (intro exI [of _ pre] exI [of _ u] exI [of _ s0] exI [of _ post]) simp
qed

text \<open>The gate is paused only for a vehicle that has come to rest: in every run, a request to pause
  is sent in an episode of the state PAUSING that a timer tick opened, at which the gate was not
  paused, no start was requested and the stop checker had seen the vehicle stand still for the
  configured time.  Throughout the episode the node shows the API state STOPPED.\<close>

theorem ad_motion_pause_standing:
  assumes "mo_run p evs mo_init = Some (s, outs)"
    and "mo_handle p t ev s = Some (s', outs')"
    and "MO_SetPause True \<in> set outs'"
  shows "\<exists>pre u ready s0 post. evs @ [(t, ev)] = pre @ (u, MO_Timer ready) # post \<and>
    mo_episode p MO_Pausing pre (u, MO_Timer ready) s0 post \<and>
    mo_is_paused s0 = Some False \<and> mo_is_start_requested s0 = Some False \<and>
    vs_isVehicleStopped (mop_stop_check_duration p) u (mo_twist_buffer s0) \<and>
    mo_mapping (mo_state s') = MotionState_STOPPED"
proof -
  have run: "mo_run p (evs @ [(t, ev)]) mo_init = Some (s', outs @ outs')"
    using assms(1,2) by (simp add: mo_run_append)
  have s': "mo_state s' = MO_Pausing" using mo_set_pause_state [OF assms(2,3)] by simp
  obtain pre entry s0 post
    where split: "evs @ [(t, ev)] = pre @ entry # post" "mo_episode p MO_Pausing pre entry s0 post"
    using mo_episode_exists [OF run s'] by auto
  obtain u e where entry: "entry = (u, e)" by fastforce
  from split(2) obtain s1 o1 where step: "mo_handle p u e s0 = Some (s1, o1)"
      "mo_state s1 = MO_Pausing" "mo_state s0 \<noteq> MO_Pausing"
    unfolding entry by (rule mo_episode_entry)
  then obtain ready where tick: "e = MO_Timer ready" "mo_is_paused s0 = Some False"
      "mo_is_start_requested s0 = Some False"
      "vs_isVehicleStopped (mop_stop_check_duration p) u (mo_twist_buffer s0)"
    using mo_state_change [OF step(1)] by (auto simp: mo_get_next_state_def split: if_splits)
  then show ?thesis
    using split entry s'
    by (intro exI [of _ pre] exI [of _ u] exI [of _ ready] exI [of _ s0] exI [of _ post]) simp
qed

section \<open>A start and a stop\<close>

definition mo_ex_param :: mo_param where
  "mo_ex_param = \<lparr>mop_stop_check_duration = 1, mop_require_accept_start = True\<rparr>"

definition mo_ex_start :: "(time \<times> mo_event) list" where
  "mo_ex_start =
     [(0, MO_IsPaused True), (0, MO_IsStartRequested True), (100000000, MO_Timer True),
      (150000000, MO_Accept)]"

definition mo_ex_stop :: "(time \<times> mo_event) list" where
  "mo_ex_stop =
     [(0, MO_IsPaused False), (0, MO_IsStartRequested False),
      (0, MO_Odom \<lparr>tw_stamp = 0, tw_x = 0, tw_y = 0, tw_z = 0\<rparr>)]"

lemmas mo_ex_defs =
  mo_ex_param_def mo_ex_start_def mo_ex_stop_def mo_init_def mo_on_is_paused_def
  mo_on_is_start_requested_def mo_on_timer_def mo_update_state_def mo_get_next_state_def
  mo_change_state_def mo_change_pause_def mo_on_accept_def mo_onOdom_def vs_addTwist_def
  vs_drop_old.simps vs_isVehicleStopped_def vs_slow_def seconds_def

theorem ad_motion_unpause_accepted_witness:
  "\<exists>pre u s0 post. mo_ex_start @ [(200000000, MO_Timer True)] = pre @ (u, MO_Accept) # post \<and>
    mo_episode mo_ex_param MO_Resuming pre (u, MO_Accept) s0 post \<and> mo_state s0 = MO_Starting"
  by (rule ad_motion_unpause_accepted
        [where s = "fst (the (mo_run mo_ex_param mo_ex_start mo_init))"
           and outs = "snd (the (mo_run mo_ex_param mo_ex_start mo_init))"
           and s' = "fst (the (mo_handle mo_ex_param 200000000 (MO_Timer True)
             (fst (the (mo_run mo_ex_param mo_ex_start mo_init)))))"
           and outs' = "snd (the (mo_handle mo_ex_param 200000000 (MO_Timer True)
             (fst (the (mo_run mo_ex_param mo_ex_start mo_init)))))"])
     (simp_all add: mo_ex_defs)

theorem ad_motion_pause_standing_witness:
  "\<exists>pre u ready s0 post. mo_ex_stop @ [(2000000000, MO_Timer True)] = pre @ (u, MO_Timer ready) # post \<and>
    mo_episode mo_ex_param MO_Pausing pre (u, MO_Timer ready) s0 post \<and>
    mo_is_paused s0 = Some False \<and> mo_is_start_requested s0 = Some False \<and>
    vs_isVehicleStopped (mop_stop_check_duration mo_ex_param) u (mo_twist_buffer s0) \<and>
    mo_mapping (mo_state (fst (the (mo_handle mo_ex_param 2000000000 (MO_Timer True)
             (fst (the (mo_run mo_ex_param mo_ex_stop mo_init))))))) = MotionState_STOPPED"
  by (rule ad_motion_pause_standing
        [where s = "fst (the (mo_run mo_ex_param mo_ex_stop mo_init))"
           and outs = "snd (the (mo_run mo_ex_param mo_ex_stop mo_init))"
           and outs' = "snd (the (mo_handle mo_ex_param 2000000000 (MO_Timer True)
             (fst (the (mo_run mo_ex_param mo_ex_stop mo_init)))))"])
     (simp_all add: mo_ex_defs)

end
