(* ===== verification/Topic_State_Monitor.thy ===== *)
theory Topic_State_Monitor
  imports AW_Msgs
begin

text \<open>
  \<open>system/topic_state_monitor\<close>: measures the rate of one topic over a window of messages and turns
  rate and age of the last message into a diagnostic.  \<open>None\<close> as the result of an update is the
  undefined behaviour of \<open>pop_front\<close> on an empty deque, which a negative window leads to.
  \<open>std::deque\<close> keeps the oldest time first; the texts of the key-value pairs other than the
  status are left out.
\<close>

record ts_param =
  tsp_warn_rate :: real
  tsp_error_rate :: real
  tsp_timeout :: real
  tsp_window_size :: int

datatype topic_status =
  TopicStatus_Ok | TopicStatus_NotReceived | TopicStatus_WarnRate | TopicStatus_ErrorRate
| TopicStatus_Timeout

record ts_state =
  ts_param :: ts_param
  ts_time_buffer :: "time list"
  ts_last_message_time :: time
  ts_topic_rate :: flt

definition ts_max_rate :: flt where
  "ts_max_rate = Fin 100000"

definition ts_init :: "ts_param \<Rightarrow> ts_state" where
  "ts_init p =
     \<lparr>ts_param = p, ts_time_buffer = [], ts_last_message_time = 0, ts_topic_rate = ts_max_rate\<rparr>"

definition ts_setParam :: "ts_param \<Rightarrow> ts_state \<Rightarrow> ts_state" where
  "ts_setParam p s = s\<lparr>ts_param := p\<rparr>"

fun ts_remove_old :: "int \<Rightarrow> time list \<Rightarrow> time list option" where
  "ts_remove_old window_size [] = (if window_size < 0 then None else Some [])"
| "ts_remove_old window_size (t # ts) =
     (if window_size < int (length (t # ts)) then ts_remove_old window_size ts else Some (t # ts))"

definition ts_calcTopicRate :: "time list \<Rightarrow> flt" where
  "ts_calcTopicRate time_buffer =
     (if length time_buffer < 2 then ts_max_rate
      else flt_div (real (length time_buffer - 1)) (seconds (last time_buffer - hd time_buffer)))"

definition ts_update :: "time \<Rightarrow> ts_state \<Rightarrow> ts_state option" where
  "ts_update t s =
     (case ts_remove_old (tsp_window_size (ts_param s)) (ts_time_buffer s @ [t]) of
        None \<Rightarrow> None
      | Some buf \<Rightarrow>
          Some (s\<lparr>ts_last_message_time := t, ts_time_buffer := buf, ts_topic_rate := ts_calcTopicRate buf\<rparr>))"

definition ts_isNotReceived :: "ts_state \<Rightarrow> bool" where
  "ts_isNotReceived s \<longleftrightarrow> ts_time_buffer s = []"

definition ts_isWarnRate :: "ts_state \<Rightarrow> bool" where
  "ts_isWarnRate s \<longleftrightarrow>
     (if tsp_warn_rate (ts_param s) = 0 then False
      else flt_less (ts_topic_rate s) (Fin (tsp_warn_rate (ts_param s))))"

definition ts_isErrorRate :: "ts_state \<Rightarrow> bool" where
  "ts_isErrorRate s \<longleftrightarrow>
     (if tsp_error_rate (ts_param s) = 0 then False
      else flt_less (ts_topic_rate s) (Fin (tsp_error_rate (ts_param s))))"

definition ts_isTimeout :: "time \<Rightarrow> ts_state \<Rightarrow> bool" where
  "ts_isTimeout t s \<longleftrightarrow>
     (if tsp_timeout (ts_param s) = 0 then False
      else tsp_timeout (ts_param s) < seconds (t - last (ts_time_buffer s)))"

definition ts_getTopicStatus :: "time \<Rightarrow> ts_state \<Rightarrow> topic_status" where
  "ts_getTopicStatus t s =
     (if ts_isNotReceived s then TopicStatus_NotReceived
      else if ts_isTimeout t s then TopicStatus_Timeout
      else if ts_isErrorRate s then TopicStatus_ErrorRate
      else if ts_isWarnRate s then TopicStatus_WarnRate
      else TopicStatus_Ok)"

section \<open>The node\<close>

datatype ros_parameter = ParamDouble real | ParamInteger int | ParamOther

record tn_state =
  tn_param :: ts_param
  tn_monitor :: ts_state

datatype tn_error = TN_InvalidParameterType

text \<open>\<open>update_param\<close> writes a parameter that is present; \<open>get_value\<close> throws on another type.\<close>

definition tn_update_double ::
  "(string \<times> ros_parameter) list \<Rightarrow> string \<Rightarrow> (real \<Rightarrow> ts_param \<Rightarrow> ts_param) \<Rightarrow> ts_param \<Rightarrow>
     tn_error + ts_param" where
  "tn_update_double parameters name upd p =
     (case find (\<lambda>x. fst x = name) parameters of
        None \<Rightarrow> Inr p
      | Some x \<Rightarrow> (case snd x of ParamDouble v \<Rightarrow> Inr (upd v p) | _ \<Rightarrow> Inl TN_InvalidParameterType))"

definition tn_update_int ::
  "(string \<times> ros_parameter) list \<Rightarrow> string \<Rightarrow> (int \<Rightarrow> ts_param \<Rightarrow> ts_param) \<Rightarrow> ts_param \<Rightarrow>
     tn_error + ts_param" where
  "tn_update_int parameters name upd p =
     (case find (\<lambda>x. fst x = name) parameters of
        None \<Rightarrow> Inr p
      | Some x \<Rightarrow> (case snd x of ParamInteger v \<Rightarrow> Inr (upd v p) | _ \<Rightarrow> Inl TN_InvalidParameterType))"

text \<open>
  The parameters are written one after the other; when one throws, those before it stay written
  in the node, and the monitor keeps its parameters.
\<close>

definition tn_onParameter :: "(string \<times> ros_parameter) list \<Rightarrow> tn_state \<Rightarrow> tn_state \<times> bool" where
  "tn_onParameter ps s =
     (case tn_update_double ps ''warn_rate'' (\<lambda>v p. p\<lparr>tsp_warn_rate := v\<rparr>) (tn_param s) of
        Inl e \<Rightarrow> (s, False)
      | Inr p1 \<Rightarrow>
     (case tn_update_double ps ''error_rate'' (\<lambda>v p. p\<lparr>tsp_error_rate := v\<rparr>) p1 of
        Inl e \<Rightarrow> (s\<lparr>tn_param := p1\<rparr>, False)
      | Inr p2 \<Rightarrow>
     (case tn_update_double ps ''timeout'' (\<lambda>v p. p\<lparr>tsp_timeout := v\<rparr>) p2 of
        Inl e \<Rightarrow> (s\<lparr>tn_param := p2\<rparr>, False)
      | Inr p3 \<Rightarrow>
     (case tn_update_int ps ''window_size'' (\<lambda>v p. p\<lparr>tsp_window_size := v\<rparr>) p3 of
        Inl e \<Rightarrow> (s\<lparr>tn_param := p3\<rparr>, False)
      | Inr p4 \<Rightarrow> (s\<lparr>tn_param := p4, tn_monitor := ts_setParam p4 (tn_monitor s)\<rparr>, True)))))"

record transform =
  tf_frame_id :: string
  tf_child_frame_id :: string

fun tn_on_transforms ::
  "string \<Rightarrow> string \<Rightarrow> time \<Rightarrow> transform list \<Rightarrow> ts_state \<Rightarrow> ts_state option" where
  "tn_on_transforms frame_id child_frame_id t [] s = Some s"
| "tn_on_transforms frame_id child_frame_id t (tf # tfs) s =
     (if tf_frame_id tf = frame_id \<and> tf_child_frame_id tf = child_frame_id
      then (case ts_update t s of
              None \<Rightarrow> None | Some s1 \<Rightarrow> tn_on_transforms frame_id child_frame_id t tfs s1)
      else tn_on_transforms frame_id child_frame_id t tfs s)"

fun tn_level :: "topic_status \<Rightarrow> diag_level \<times> string" where
  "tn_level TopicStatus_Ok = (DL_OK, ''OK'')"
| "tn_level TopicStatus_NotReceived = (DL_ERROR, ''NotReceived'')"
| "tn_level TopicStatus_WarnRate = (DL_WARN, ''WarnRate'')"
| "tn_level TopicStatus_ErrorRate = (DL_ERROR, ''ErrorRate'')"
| "tn_level TopicStatus_Timeout = (DL_ERROR, ''Timeout'')"

fun tn_summary :: "diag_level \<Rightarrow> string" where
  "tn_summary DL_OK = ''OK''"
| "tn_summary DL_WARN = ''Warn''"
| "tn_summary DL_ERROR = ''Error''"
| "tn_summary DL_STALE = []"

text \<open>The diagnostic as the updater sends it, under the name the updater composes.\<close>

definition tn_checkTopicStatus :: "string \<Rightarrow> time \<Rightarrow> ts_state \<Rightarrow> diag_status" where
  "tn_checkTopicStatus name t s =
     (let level = fst (tn_level (ts_getTopicStatus t s))
      in \<lparr>ds_level = level, ds_name = name, ds_message = tn_summary level,
          ds_hardware_id = ''topic_state_monitor''\<rparr>)"

section \<open>Window and rate\<close>

lemma ts_remove_old_keep:
  "0 \<le> w \<Longrightarrow> ts_remove_old w ts = Some (keep_last (nat w) ts)"
  by (induction ts) (auto simp: keep_last_def Suc_diff_le nat_le_iff not_less
      simp del: of_nat_Suc split: nat_diff_split)

lemma ts_remove_old_negative: "w < 0 \<Longrightarrow> ts_remove_old w ts = None"
  by (induction ts) auto

lemma tn_level_OK: "fst (tn_level st) = DL_OK \<longleftrightarrow> st = TopicStatus_Ok"
  by (cases st) simp_all

text \<open>A topic that arrives with a constant period has the rate of this period, whatever the window.\<close>

fun ts_updates :: "time list \<Rightarrow> ts_state \<Rightarrow> ts_state option" where
  "ts_updates [] s = Some s"
| "ts_updates (t # ts) s = (case ts_update t s of None \<Rightarrow> None | Some s1 \<Rightarrow> ts_updates ts s1)"

lemma ts_updates_buffer:
  assumes "0 \<le> tsp_window_size (ts_param s)" and "ts \<noteq> []"
  shows "\<exists>s'. ts_updates ts s = Some s' \<and> ts_param s' = ts_param s \<and>
    ts_time_buffer s' = keep_last (nat (tsp_window_size (ts_param s))) (ts_time_buffer s @ ts) \<and>
    ts_topic_rate s' = ts_calcTopicRate (ts_time_buffer s')"
  using assms
proof (induction ts arbitrary: s)
  case (Cons t ts)
  let ?n = "nat (tsp_window_size (ts_param s))"
  let ?s1 = "s\<lparr>ts_last_message_time := t, ts_time_buffer := keep_last ?n (ts_time_buffer s @ [t]),
    ts_topic_rate := ts_calcTopicRate (keep_last ?n (ts_time_buffer s @ [t]))\<rparr>"
  have upd: "ts_update t s = Some ?s1"
    using Cons.prems(1) by (simp add: ts_update_def ts_remove_old_keep)
  show ?case
  proof (cases "ts = []")
    case True
    with upd show ?thesis by simp
  next
    case False
    have "keep_last ?n (keep_last ?n (ts_time_buffer s @ [t]) @ ts) = keep_last ?n (ts_time_buffer s @ t # ts)"
      by (simp add: keep_last_append)
    with Cons.IH [of ?s1] Cons.prems(1) False upd show ?thesis by simp
  qed
qed simp

end
