(* ===== verification/Component_State_Monitor.thy ===== *)
theory Component_State_Monitor
  imports AW_Msgs Change_Publisher
begin

text \<open>
  \<open>system/component_state_monitor\<close>: for each of the eight modules, whether the topics it needs to
  be launched and to drive autonomously are all reported to be in order by the topic monitors.
\<close>

datatype state_type = kLaunch | kAutonomous

datatype ad_module =
  kSensing | kPerception | kMap | kLocalization | kPlanning | kControl | kVehicle | kSystem

definition cm_types :: "state_type list" where
  "cm_types = [kLaunch, kAutonomous]"

definition cm_modules :: "ad_module list" where
  "cm_modules =
     [kSensing, kPerception, kMap, kLocalization, kPlanning, kControl, kVehicle, kSystem]"

record cm_state =
  cm_states :: "state_type \<times> ad_module \<rightharpoonup> bool"
  cm_topics :: "state_type \<Rightarrow> ad_module \<Rightarrow> string list"
  cm_levels :: "string \<rightharpoonup> diag_level"

datatype cm_out = CM_Publish time state_type ad_module bool

definition cm_names :: "(state_type \<Rightarrow> ad_module \<Rightarrow> string list) \<Rightarrow> string list" where
  "cm_names topics = concat (map (\<lambda>ty. concat (map (topics ty) cm_modules)) cm_types)"

definition cm_init :: "(state_type \<Rightarrow> ad_module \<Rightarrow> string list) \<Rightarrow> cm_state" where
  "cm_init topics =
     \<lparr>cm_states = Map.empty, cm_topics = topics,
      cm_levels = fold (\<lambda>name m. m(name \<mapsto> DL_STALE)) (cm_names topics) Map.empty\<rparr>"

definition cm_update_state ::
  "time \<Rightarrow> state_type \<Rightarrow> ad_module \<Rightarrow> bool \<Rightarrow> cm_state \<Rightarrow> cm_state \<times> cm_out list" where
  "cm_update_state t ty m state s =
     (let outs = (if cm_states s (ty, m) = None \<or> cm_states s (ty, m) \<noteq> Some state
                  then [CM_Publish t ty m state] else [])
      in (s\<lparr>cm_states := (cm_states s)((ty, m) \<mapsto> state)\<rparr>, outs))"

text \<open>\<open>operator[]\<close> reads a name the map does not hold as the zero value, which is \<open>OK\<close>.\<close>

definition cm_is_ok :: "cm_state \<Rightarrow> string \<Rightarrow> bool" where
  "cm_is_ok s name \<longleftrightarrow> (case cm_levels s name of None \<Rightarrow> DL_OK | Some l \<Rightarrow> l) = DL_OK"

definition cm_module_timer :: "time \<Rightarrow> ad_module \<Rightarrow> cm_state \<times> cm_out list \<Rightarrow> cm_state \<times> cm_out list" where
  "cm_module_timer t m acc =
     (let (s, outs) = acc;
          launch_state = list_all (cm_is_ok s) (cm_topics s kLaunch m);
          auto_state = list_all (cm_is_ok s) (cm_topics s kAutonomous m);
          (s1, o1) = cm_update_state t kLaunch m launch_state s;
          (s2, o2) = cm_update_state t kAutonomous m (launch_state \<and> auto_state) s1
      in (s2, outs @ o1 @ o2))"

definition cm_on_timer :: "time \<Rightarrow> cm_state \<Rightarrow> cm_state \<times> cm_out list" where
  "cm_on_timer t s = fold (cm_module_timer t) cm_modules (s, [])"

definition cm_on_status :: "diag_status \<Rightarrow> cm_state \<Rightarrow> cm_state" where
  "cm_on_status status s =
     (if ds_hardware_id status = ''topic_state_monitor'' \<and> cm_levels s (ds_name status) \<noteq> None
      then s\<lparr>cm_levels := (cm_levels s)(ds_name status \<mapsto> ds_level status)\<rparr> else s)"

definition cm_on_diag :: "diag_status list \<Rightarrow> cm_state \<Rightarrow> cm_state" where
  "cm_on_diag msg s = fold cm_on_status msg s"

fun cm_published :: "cm_out \<Rightarrow> bool option" where
  "cm_published (CM_Publish t ty m b) = Some b"

interpretation cm_pub: change_publisher
  "\<lambda>(t, b). cm_update_state t ty m b" "\<lambda>(t, b) s. Some b" "\<lambda>s. cm_states s (ty, m)" cm_published
  for ty m
  by unfold_locales (auto simp: cm_update_state_def Let_def dest: sym)

section \<open>What a tick shows\<close>

lemma set_cm_modules [simp]: "m \<in> set cm_modules"
  by (cases m) (simp_all add: cm_modules_def)

lemma distinct_cm_modules [simp]: "distinct cm_modules"
  by (simp add: cm_modules_def)

lemma cm_module_timer_frame [frame_simps]:
  "cm_levels (fst (cm_module_timer t m acc)) = cm_levels (fst acc)"
  "cm_topics (fst (cm_module_timer t m acc)) = cm_topics (fst acc)"
  by (simp_all add: cm_module_timer_def cm_update_state_def Let_def case_prod_beta)

lemma cm_module_timer_states:
  "cm_states (fst (cm_module_timer t m acc)) =
     (cm_states (fst acc))((kLaunch, m) \<mapsto> list_all (cm_is_ok (fst acc)) (cm_topics (fst acc) kLaunch m),
        (kAutonomous, m) \<mapsto> list_all (cm_is_ok (fst acc)) (cm_topics (fst acc) kLaunch m) \<and>
          list_all (cm_is_ok (fst acc)) (cm_topics (fst acc) kAutonomous m))"
  by (simp add: cm_module_timer_def cm_update_state_def Let_def case_prod_beta)

lemma cm_is_ok_levels: "cm_levels s = cm_levels s' \<Longrightarrow> cm_is_ok s = cm_is_ok s'"
  by (rule ext) (simp add: cm_is_ok_def)

lemma cm_fold_timer:
  "distinct ms \<Longrightarrow>
   cm_levels (fst (fold (cm_module_timer t) ms acc)) = cm_levels (fst acc) \<and>
   cm_topics (fst (fold (cm_module_timer t) ms acc)) = cm_topics (fst acc) \<and>
   cm_states (fst (fold (cm_module_timer t) ms acc)) (kAutonomous, m) =
     (if m \<in> set ms
      then Some (list_all (cm_is_ok (fst acc)) (cm_topics (fst acc) kLaunch m @ cm_topics (fst acc) kAutonomous m))
      else cm_states (fst acc) (kAutonomous, m))"
proof (induction ms arbitrary: acc)
  case (Cons x ms)
  have "cm_is_ok (fst (cm_module_timer t x acc)) = cm_is_ok (fst acc)"
    by (rule cm_is_ok_levels) (simp add: frame_simps)
  with Cons.IH [of "cm_module_timer t x acc"] Cons.prems show ?case
    by (auto simp: frame_simps cm_module_timer_states)
qed simp

lemma cm_on_timer_states:
  "cm_states (fst (cm_on_timer t s)) (kAutonomous, m) =
     Some (list_all (cm_is_ok s) (cm_topics s kLaunch m @ cm_topics s kAutonomous m))"
  "cm_levels (fst (cm_on_timer t s)) = cm_levels s"
  "cm_topics (fst (cm_on_timer t s)) = cm_topics s"
  using cm_fold_timer [of cm_modules t "(s, [])" m] by (simp_all add: cm_on_timer_def)

end
