(* ===== verification/Ad_Api.thy ===== *)
theory Ad_Api
  imports AW_Msgs Change_Publisher "HOL-Library.Multiset"
begin

text \<open>
  The other nodes of \<open>system/default_ad_api\<close>: the operation mode node (prefix \<open>ao\<close>), which blocks
  changes of mode the modules are not ready for, the fail-safe node (\<open>fs\<close>), the routing node and
  its conversion of routes (\<open>rt\<close>), and the \<open>/autoware/state\<close> topic of the older interface (\<open>as\<close>).
  A service that throws answers with an error and leaves the state.
\<close>

section \<open>Operation mode\<close>

definition ao_module_names :: "string list" where
  "ao_module_names =
     [''sensing'', ''perception'', ''map'', ''localization'', ''planning'', ''control'', ''vehicle'',
      ''system'']"

record ao_state =
  ao_curr_state :: operation_mode_state
  ao_prev_state :: operation_mode_state
  ao_mode_available :: "operation_mode_value \<Rightarrow> bool"
  ao_module_states :: "bool list"

datatype ao_out =
    AO_CallChangeMode operation_mode_value
  | AO_CallAutowareControl bool
  | AO_PubState operation_mode_state

datatype ao_error = AO_ErrorNotAvailable

text \<open>A mode the table does not hold reads as \<open>False\<close>, the value \<open>operator[]\<close> inserts.\<close>

definition ao_init :: ao_state where
  "ao_init =
     \<lparr>ao_curr_state = operation_mode_state_new OperationMode_UNKNOWN,
      ao_prev_state = operation_mode_state_new OperationMode_UNKNOWN,
      ao_mode_available = (\<lambda>m. m \<in> {OperationMode_STOP, OperationMode_LOCAL, OperationMode_REMOTE}),
      ao_module_states = replicate (length ao_module_names) False\<rparr>"

definition ao_on_module_state :: "nat \<Rightarrow> bool \<Rightarrow> ao_state \<Rightarrow> ao_state" where
  "ao_on_module_state i available s = s\<lparr>ao_module_states := (ao_module_states s)[i := available]\<rparr>"

definition ao_change_mode ::
  "operation_mode_value \<Rightarrow> ao_state \<Rightarrow> ao_error + (ao_state \<times> ao_out list)" where
  "ao_change_mode mode s =
     (if \<not> ao_mode_available s mode then Inl AO_ErrorNotAvailable
      else Inr (s, [AO_CallChangeMode mode]))"

definition ao_on_change_to_stop :: "ao_state \<Rightarrow> ao_error + (ao_state \<times> ao_out list)" where
  "ao_on_change_to_stop s = ao_change_mode OperationMode_STOP s"

definition ao_on_change_to_autonomous :: "ao_state \<Rightarrow> ao_error + (ao_state \<times> ao_out list)" where
  "ao_on_change_to_autonomous s = ao_change_mode OperationMode_AUTONOMOUS s"

definition ao_on_change_to_local :: "ao_state \<Rightarrow> ao_error + (ao_state \<times> ao_out list)" where
  "ao_on_change_to_local s = ao_change_mode OperationMode_LOCAL s"

definition ao_on_change_to_remote :: "ao_state \<Rightarrow> ao_error + (ao_state \<times> ao_out list)" where
  "ao_on_change_to_remote s = ao_change_mode OperationMode_REMOTE s"

definition ao_on_enable_autoware_control :: "ao_state \<Rightarrow> ao_error + (ao_state \<times> ao_out list)" where
  "ao_on_enable_autoware_control s =
     (if \<not> ao_mode_available s (om_mode (ao_curr_state s)) then Inl AO_ErrorNotAvailable
      else Inr (s, [AO_CallAutowareControl True]))"

definition ao_on_disable_autoware_control :: "ao_state \<Rightarrow> ao_error + (ao_state \<times> ao_out list)" where
  "ao_on_disable_autoware_control s = Inr (s, [AO_CallAutowareControl False])"

definition ao_update_state :: "time \<Rightarrow> ao_state \<Rightarrow> ao_state \<times> ao_out list" where
  "ao_update_state t s =
     (let c = ao_curr_state s;
          state = c\<lparr>om_stamp := 0,
            om_is_stop_mode_available :=
              om_is_stop_mode_available c \<and> ao_mode_available s OperationMode_STOP,
            om_is_autonomous_mode_available :=
              om_is_autonomous_mode_available c \<and> ao_mode_available s OperationMode_AUTONOMOUS,
            om_is_local_mode_available :=
              om_is_local_mode_available c \<and> ao_mode_available s OperationMode_LOCAL,
            om_is_remote_mode_available :=
              om_is_remote_mode_available c \<and> ao_mode_available s OperationMode_REMOTE\<rparr>
      in if ao_prev_state s \<noteq> state
         then (s\<lparr>ao_prev_state := state\<rparr>, [AO_PubState (state\<lparr>om_stamp := t\<rparr>)])
         else (s, []))"

definition ao_on_state :: "time \<Rightarrow> operation_mode_state \<Rightarrow> ao_state \<Rightarrow> ao_state \<times> ao_out list" where
  "ao_on_state t msg s = ao_update_state t (s\<lparr>ao_curr_state := msg\<rparr>)"

definition ao_on_timer :: "time \<Rightarrow> ao_state \<Rightarrow> ao_state \<times> ao_out list" where
  "ao_on_timer t s =
     (let autonomous_available = fold (\<lambda>state acc. acc \<and> state) (ao_module_states s) True
      in ao_update_state t
        (s\<lparr>ao_mode_available :=
            (ao_mode_available s)(OperationMode_AUTONOMOUS := autonomous_available)\<rparr>))"

datatype ao_event =
    AO_ModuleState nat bool
  | AO_State operation_mode_state
  | AO_ChangeToStop
  | AO_ChangeToAutonomous
  | AO_ChangeToLocal
  | AO_ChangeToRemote
  | AO_EnableControl
  | AO_DisableControl
  | AO_Timer

definition ao_service :: "ao_state \<Rightarrow> ao_error + (ao_state \<times> ao_out list) \<Rightarrow> ao_state \<times> ao_out list" where
  "ao_service s r = (case r of Inl e \<Rightarrow> (s, []) | Inr x \<Rightarrow> x)"

fun ao_handle :: "time \<Rightarrow> ao_event \<Rightarrow> ao_state \<Rightarrow> ao_state \<times> ao_out list" where
  "ao_handle t (AO_ModuleState i b) s = (ao_on_module_state i b s, [])"
| "ao_handle t (AO_State msg) s = ao_on_state t msg s"
| "ao_handle t AO_ChangeToStop s = ao_service s (ao_on_change_to_stop s)"
| "ao_handle t AO_ChangeToAutonomous s = ao_service s (ao_on_change_to_autonomous s)"
| "ao_handle t AO_ChangeToLocal s = ao_service s (ao_on_change_to_local s)"
| "ao_handle t AO_ChangeToRemote s = ao_service s (ao_on_change_to_remote s)"
| "ao_handle t AO_EnableControl s = ao_service s (ao_on_enable_autoware_control s)"
| "ao_handle t AO_DisableControl s = ao_service s (ao_on_disable_autoware_control s)"
| "ao_handle t AO_Timer s = ao_on_timer t s"

definition ao_after :: "(time \<times> ao_event) list \<Rightarrow> ao_state" where
  "ao_after evs = fold (\<lambda>(t, ev) s. fst (ao_handle t ev s)) evs ao_init"

text \<open>What the node publishes, without the time stamp.\<close>

fun ao_published :: "ao_out \<Rightarrow> operation_mode_state option" where
  "ao_published (AO_PubState m) = Some (m\<lparr>om_stamp := 0\<rparr>)"
| "ao_published _ = None"

definition ao_shown :: "ao_state \<Rightarrow> operation_mode_state" where
  "ao_shown s = (let c = ao_curr_state s in
     c\<lparr>om_stamp := 0,
       om_is_stop_mode_available :=
         om_is_stop_mode_available c \<and> ao_mode_available s OperationMode_STOP,
       om_is_autonomous_mode_available :=
         om_is_autonomous_mode_available c \<and> ao_mode_available s OperationMode_AUTONOMOUS,
       om_is_local_mode_available :=
         om_is_local_mode_available c \<and> ao_mode_available s OperationMode_LOCAL,
       om_is_remote_mode_available :=
         om_is_remote_mode_available c \<and> ao_mode_available s OperationMode_REMOTE\<rparr>)"

interpretation ao_pub: change_publisher
  ao_update_state "\<lambda>t s. Some (ao_shown s)" "\<lambda>s. Some (ao_prev_state s)" ao_published
  by unfold_locales (auto simp: ao_update_state_def ao_shown_def Let_def)

section \<open>Fail-safe\<close>

definition fs_init :: mrm_state where
  "fs_init = \<lparr>ms_stamp = 0, ms_state = MrmState_UNKNOWN, ms_behavior = MrmState_behavior_raw 0\<rparr>"

definition fs_on_state :: "mrm_state \<Rightarrow> mrm_state \<Rightarrow> mrm_state \<times> mrm_state list" where
  "fs_on_state msg prev_state =
     (let p = prev_state\<lparr>ms_stamp := ms_stamp msg\<rparr>
      in if p \<noteq> msg then (msg, [msg]) else (p, []))"

lemma fs_same_iff:
  "s\<lparr>ms_stamp := ms_stamp msg\<rparr> = (msg :: mrm_state) \<longleftrightarrow>
     ms_state s = ms_state msg \<and> ms_behavior s = ms_behavior msg"
  by (cases msg; cases s) auto

interpretation fs_pub: change_publisher
  fs_on_state "\<lambda>msg s. (ms_state msg, ms_behavior msg)" "\<lambda>s. (ms_state s, ms_behavior s)"
  "\<lambda>out. (ms_state out, ms_behavior out)"
  by unfold_locales (auto simp: fs_on_state_def fs_same_iff Let_def)

section \<open>Routing\<close>

record primitive =
  pr_id :: int
  pr_type :: string

record lanelet_segment =
  ls_preferred_primitive :: primitive
  ls_primitives :: "primitive list"

record route_segment =
  rs_preferred :: primitive
  rs_alternatives :: "primitive list"

record 'pose lanelet_route =
  lr_stamp :: time
  lr_start_pose :: 'pose
  lr_goal_pose :: 'pose
  lr_segments :: "lanelet_segment list"

record 'pose route_data =
  rd_start :: 'pose
  rd_goal :: 'pose
  rd_segments :: "route_segment list"

record 'pose route =
  ro_stamp :: time
  ro_data :: "'pose route_data list"

definition rt_create_empty_route :: "time \<Rightarrow> 'pose route" where
  "rt_create_empty_route t = \<lparr>ro_stamp = t, ro_data = []\<rparr>"

definition rt_convert_segment :: "lanelet_segment \<Rightarrow> route_segment" where
  "rt_convert_segment inp =
     (let is_preferred = (\<lambda>p. pr_id p = pr_id (ls_preferred_primitive inp));
          alternatives = ls_primitives inp
      in case find is_preferred alternatives of
           None \<Rightarrow> \<lparr>rs_preferred = \<lparr>pr_id = 0, pr_type = []\<rparr>, rs_alternatives = alternatives\<rparr>
         | Some p \<Rightarrow>
             \<lparr>rs_preferred = p, rs_alternatives = remove_first is_preferred alternatives\<rparr>)"

definition rt_convert_route :: "'pose lanelet_route \<Rightarrow> 'pose route" where
  "rt_convert_route internal =
     \<lparr>ro_stamp = lr_stamp internal,
      ro_data = [\<lparr>rd_start = lr_start_pose internal, rd_goal = lr_goal_pose internal,
        rd_segments = map rt_convert_segment (lr_segments internal)\<rparr>]\<rparr>"

datatype route_state =
    RouteState_UNKNOWN | RouteState_UNSET | RouteState_SET | RouteState_ARRIVED
  | RouteState_CHANGING

datatype 'pose rt_out =
    RT_PubState time route_state
  | RT_PubRoute "'pose route"
  | RT_CallChangeMode operation_mode_value
  | RT_CallClearRoute

text \<open>The state of the node is \<open>is_auto_mode\<close>.\<close>

definition rt_change_stop_mode :: "bool \<Rightarrow> 'pose rt_out list" where
  "rt_change_stop_mode is_auto_mode =
     (if is_auto_mode then [RT_CallChangeMode OperationMode_STOP] else [])"

definition rt_on_operation_mode :: "operation_mode_state \<Rightarrow> bool" where
  "rt_on_operation_mode msg \<longleftrightarrow> om_mode msg = OperationMode_AUTONOMOUS"

definition rt_on_state :: "time \<Rightarrow> route_state \<Rightarrow> bool \<Rightarrow> 'pose rt_out list" where
  "rt_on_state stamp state is_auto_mode =
     [RT_PubState stamp state] @
     (if state = RouteState_ARRIVED then rt_change_stop_mode is_auto_mode else []) @
     (if state = RouteState_UNSET then [RT_PubRoute (rt_create_empty_route stamp)] else [])"

definition rt_on_route :: "'pose lanelet_route \<Rightarrow> 'pose rt_out list" where
  "rt_on_route msg = [RT_PubRoute (rt_convert_route msg)]"

definition rt_on_clear_route :: "bool \<Rightarrow> 'pose rt_out list" where
  "rt_on_clear_route is_auto_mode = rt_change_stop_mode is_auto_mode @ [RT_CallClearRoute]"

text \<open>The conversion loses no lanelet: the preferred one moves out of the list, the others stay.\<close>

lemma mset_remove_first:
  "find P xs = Some x \<Longrightarrow> add_mset x (mset (remove_first P xs)) = mset xs"
  by (induction xs) (auto split: if_splits)

lemma rt_convert_segment_primitives:
  assumes "pr_id (ls_preferred_primitive seg) \<in> pr_id ` set (ls_primitives seg)"
  shows "add_mset (rs_preferred (rt_convert_segment seg))
      (mset (rs_alternatives (rt_convert_segment seg))) = mset (ls_primitives seg)"
    and "pr_id (rs_preferred (rt_convert_segment seg)) = pr_id (ls_preferred_primitive seg)"
proof -
  let ?P = "\<lambda>p. pr_id p = pr_id (ls_preferred_primitive seg)"
  from assms obtain x where x: "find ?P (ls_primitives seg) = Some x"
    by (cases "find ?P (ls_primitives seg)") (auto simp: find_key_None)
  from mset_remove_first [OF x]
  show "add_mset (rs_preferred (rt_convert_segment seg))
      (mset (rs_alternatives (rt_convert_segment seg))) = mset (ls_primitives seg)"
    by (simp add: rt_convert_segment_def x)
  from x show "pr_id (rs_preferred (rt_convert_segment seg)) = pr_id (ls_preferred_primitive seg)"
    by (simp add: rt_convert_segment_def x find_Some_iff) (metis (mono_tags, lifting) find_Some_iff x)
qed

section \<open>The older state topic\<close>

datatype launch_state = Initializing | Running | Finalizing

datatype localization_state =
    LocalizationState_UNKNOWN | LocalizationState_UNINITIALIZED | LocalizationState_INITIALIZING
  | LocalizationState_INITIALIZED

record as_state =
  as_component_states :: "bool list"
  as_launch_state :: launch_state
  as_localization_state :: localization_state
  as_routing_stamp :: time
  as_routing_state :: route_state
  as_operation_mode_state :: operation_mode_state

definition as_init :: as_state where
  "as_init =
     \<lparr>as_component_states = replicate (length ao_module_names) False,
      as_launch_state = Initializing, as_localization_state = LocalizationState_UNKNOWN,
      as_routing_stamp = 0, as_routing_state = RouteState_UNKNOWN,
      as_operation_mode_state = operation_mode_state_new OperationMode_UNKNOWN\<rparr>"

definition as_on_component_state :: "nat \<Rightarrow> bool \<Rightarrow> as_state \<Rightarrow> as_state" where
  "as_on_component_state i b s = s\<lparr>as_component_states := (as_component_states s)[i := b]\<rparr>"

definition as_on_localization :: "localization_state \<Rightarrow> as_state \<Rightarrow> as_state" where
  "as_on_localization m s = s\<lparr>as_localization_state := m\<rparr>"

definition as_on_routing :: "time \<Rightarrow> route_state \<Rightarrow> as_state \<Rightarrow> as_state" where
  "as_on_routing stamp m s = s\<lparr>as_routing_stamp := stamp, as_routing_state := m\<rparr>"

definition as_on_operation_mode :: "operation_mode_state \<Rightarrow> as_state \<Rightarrow> as_state" where
  "as_on_operation_mode m s = s\<lparr>as_operation_mode_state := m\<rparr>"

definition as_on_shutdown :: "as_state \<Rightarrow> as_state" where
  "as_on_shutdown s = s\<lparr>as_launch_state := Finalizing\<rparr>"

definition as_convert_state :: "as_state \<Rightarrow> autoware_state" where
  "as_convert_state s =
     (if as_launch_state s = Finalizing then AutowareState_FINALIZING
      else if as_launch_state s = Initializing then AutowareState_INITIALIZING
      else if as_localization_state s = LocalizationState_UNKNOWN then AutowareState_INITIALIZING
      else if as_routing_state s = RouteState_UNKNOWN then AutowareState_INITIALIZING
      else if om_mode (as_operation_mode_state s) = OperationMode_UNKNOWN
      then AutowareState_INITIALIZING
      else if as_localization_state s \<noteq> LocalizationState_INITIALIZED
      then AutowareState_INITIALIZING
      else if as_routing_state s = RouteState_UNSET then AutowareState_WAITING_FOR_ROUTE
      else if as_routing_state s = RouteState_ARRIVED then AutowareState_ARRIVED_GOAL
      else if om_mode (as_operation_mode_state s) \<noteq> OperationMode_STOP \<and>
              om_is_autoware_control_enabled (as_operation_mode_state s)
      then AutowareState_DRIVING
      else if om_is_autonomous_mode_available (as_operation_mode_state s)
      then AutowareState_WAITING_FOR_ENGAGE
      else AutowareState_PLANNING)"

definition as_on_timer :: "time \<Rightarrow> as_state \<Rightarrow> as_state \<times> autoware_state" where
  "as_on_timer t s =
     (let s1 =
            (if as_launch_state s = Initializing \<and>
                fold (\<lambda>state acc. acc \<and> state) (as_component_states s) True
             then s\<lparr>as_launch_state := Running\<rparr> else s);
          s2 =
            (if as_routing_state s1 = RouteState_ARRIVED \<and>
                2 < seconds (t - as_routing_stamp s1)
             then s1\<lparr>as_routing_state := RouteState_UNSET\<rparr> else s1)
      in (s2, as_convert_state s2))"

text \<open>Shutting down is final: no handler leaves it, and it is what every tick then publishes.\<close>

lemma as_finalizing_final:
  "as_launch_state s = Finalizing \<Longrightarrow>
     as_launch_state (fst (as_on_timer t s)) = Finalizing \<and>
     snd (as_on_timer t s) = AutowareState_FINALIZING \<and>
     as_launch_state (as_on_component_state i b s) = Finalizing \<and>
     as_launch_state (as_on_localization l s) = Finalizing \<and>
     as_launch_state (as_on_routing u r s) = Finalizing \<and>
     as_launch_state (as_on_operation_mode m s) = Finalizing \<and>
     as_launch_state (as_on_shutdown s) = Finalizing"
  by (simp add: as_on_timer_def as_convert_state_def as_on_component_state_def
      as_on_localization_def as_on_routing_def as_on_operation_mode_def as_on_shutdown_def Let_def)

section \<open>Autonomous mode is gated by the modules\<close>

text \<open>What module \<open>i\<close> has last reported, and whether all had been available at the last tick.\<close>

fun ao_reported :: "nat \<Rightarrow> (time \<times> ao_event) list \<Rightarrow> bool" where
  "ao_reported i [] = False"
| "ao_reported i ((t, ev) # evs) =
     (if \<exists>b. ev = AO_ModuleState i b then ev = AO_ModuleState i True else ao_reported i evs)"

fun ao_ready_at_tick :: "(time \<times> ao_event) list \<Rightarrow> bool" where
  "ao_ready_at_tick [] = False"
| "ao_ready_at_tick ((t, ev) # evs) =
     (if ev = AO_Timer then \<forall>i < 8. ao_reported i evs else ao_ready_at_tick evs)"

lemma fold_conj: "fold (\<lambda>x acc. acc \<and> x) xs b \<longleftrightarrow> b \<and> (\<forall>x \<in> set xs. x)"
  by (induction xs arbitrary: b) auto

lemma ao_update_state_frame [frame_simps]:
  "ao_module_states (fst (ao_update_state t s)) = ao_module_states s"
  "ao_mode_available (fst (ao_update_state t s)) = ao_mode_available s"
  "ao_curr_state (fst (ao_update_state t s)) = ao_curr_state s"
  by (simp_all add: ao_update_state_def Let_def)

lemma ao_service_state:
  "fst (ao_service s (ao_change_mode m s)) = s"
  "fst (ao_service s (ao_on_enable_autoware_control s)) = s"
  "fst (ao_service s (ao_on_disable_autoware_control s)) = s"
  by (simp_all add: ao_service_def ao_change_mode_def ao_on_enable_autoware_control_def
      ao_on_disable_autoware_control_def)

lemmas ao_change_defs =
  ao_on_change_to_stop_def ao_on_change_to_autonomous_def ao_on_change_to_local_def
  ao_on_change_to_remote_def

lemma ao_after_snoc: "ao_after (evs @ [(t, ev)]) = fst (ao_handle t ev (ao_after evs))"
  by (simp add: ao_after_def)

lemma ao_history:
  "length (ao_module_states (ao_after evs)) = 8 \<and>
   (\<forall>i < 8. ao_module_states (ao_after evs) ! i = ao_reported i (rev evs)) \<and>
   ao_mode_available (ao_after evs) =
     (\<lambda>m. if m = OperationMode_AUTONOMOUS then ao_ready_at_tick (rev evs)
          else m \<in> {OperationMode_STOP, OperationMode_LOCAL, OperationMode_REMOTE})"
proof (induction evs rule: rev_induct)
  case Nil
  show ?case
    by (auto simp: ao_after_def ao_init_def ao_module_names_def less_Suc_eq numeral_nat)
next
  case (snoc e evs)
  obtain t ev where e: "e = (t, ev)" by fastforce
  let ?s = "ao_after evs"
  from snoc.IH have len: "length (ao_module_states ?s) = 8"
    and mods: "\<And>i. i < 8 \<Longrightarrow> ao_module_states ?s ! i = ao_reported i (rev evs)" by blast+
  have all: "fold (\<lambda>state acc. acc \<and> state) (ao_module_states ?s) True \<longleftrightarrow>
      (\<forall>i < 8. ao_reported i (rev evs))"
    using len mods by (auto simp: fold_conj all_set_conv_all_nth)
  show ?case
    using snoc.IH all
    by (cases ev)
       (auto simp: e ao_after_snoc ao_service_state ao_change_defs ao_on_module_state_def
         ao_on_state_def ao_on_timer_def frame_simps nth_list_update)
qed

text \<open>The AD API lets a request for autonomous mode through to the transition manager exactly when
  at the last tick of its timer every one of the eight modules had last reported to be
  available; stop, local and remote mode are let through always.  Autoware's control can be
  enabled exactly when the current mode could be requested, and disabled always.\<close>

theorem ad_mode_change_gated:
  "(AO_CallChangeMode OperationMode_AUTONOMOUS \<in> set (snd (ao_handle t AO_ChangeToAutonomous (ao_after evs)))
      \<longleftrightarrow> ao_ready_at_tick (rev evs)) \<and>
   snd (ao_handle t AO_ChangeToStop (ao_after evs)) = [AO_CallChangeMode OperationMode_STOP] \<and>
   snd (ao_handle t AO_ChangeToLocal (ao_after evs)) = [AO_CallChangeMode OperationMode_LOCAL] \<and>
   snd (ao_handle t AO_ChangeToRemote (ao_after evs)) = [AO_CallChangeMode OperationMode_REMOTE] \<and>
   (AO_CallAutowareControl True \<in> set (snd (ao_handle t AO_EnableControl (ao_after evs))) \<longleftrightarrow>
      (let m = om_mode (ao_curr_state (ao_after evs)) in
       m \<in> {OperationMode_STOP, OperationMode_LOCAL, OperationMode_REMOTE} \<or>
       m = OperationMode_AUTONOMOUS \<and> ao_ready_at_tick (rev evs))) \<and>
   snd (ao_handle t AO_DisableControl (ao_after evs)) = [AO_CallAutowareControl False]"
  using ao_history [of evs]
  by (auto simp: ao_change_defs ao_change_mode_def ao_service_def ao_on_enable_autoware_control_def
      ao_on_disable_autoware_control_def Let_def)

end
