(* ===== verification/Autonomous_Availability.thy ===== *)
theory Autonomous_Availability
  imports Topic_State_Monitor Component_State_Monitor Ad_Api
begin

text \<open>
  The way from a lost topic to a refused engagement: the topic monitors send diagnostics, the
  component state monitor publishes per module whether autonomous driving is possible, and the
  operation mode node of the AD API lets a request for autonomous mode through or not.  The two
  last nodes are put together; what the first publishes reaches the second at once.
\<close>

record av_state =
  av_monitor :: cm_state
  av_api :: ao_state

fun av_index :: "ad_module \<Rightarrow> nat" where
  "av_index kSensing = 0"
| "av_index kPerception = 1"
| "av_index kMap = 2"
| "av_index kLocalization = 3"
| "av_index kPlanning = 4"
| "av_index kControl = 5"
| "av_index kVehicle = 6"
| "av_index kSystem = 7"

text \<open>Only the topics of the type \<open>autonomous\<close> are subscribed.\<close>

fun av_deliver :: "cm_out \<Rightarrow> ao_state \<Rightarrow> ao_state" where
  "av_deliver (CM_Publish t ty m b) s =
     (if ty = kAutonomous then ao_on_module_state (av_index m) b s else s)"

datatype av_event = AV_Diag "diag_status list" | AV_MonitorTimer | AV_Api ao_event

fun av_step :: "time \<Rightarrow> av_event \<Rightarrow> av_state \<Rightarrow> av_state \<times> ao_out list" where
  "av_step t (AV_Diag msg) s = (s\<lparr>av_monitor := cm_on_diag msg (av_monitor s)\<rparr>, [])"
| "av_step t AV_MonitorTimer s =
     (let (m, outs) = cm_on_timer t (av_monitor s)
      in (s\<lparr>av_monitor := m, av_api := fold av_deliver outs (av_api s)\<rparr>, []))"
| "av_step t (AV_Api ev) s =
     (let (a, outs) = ao_handle t ev (av_api s) in (s\<lparr>av_api := a\<rparr>, outs))"

text \<open>Every run of the two nodes; module states reach the API from the monitor only.\<close>

inductive av_reachable :: "(state_type \<Rightarrow> ad_module \<Rightarrow> string list) \<Rightarrow> av_state \<Rightarrow> bool"
  for topics where
  av_start: "av_reachable topics \<lparr>av_monitor = cm_init topics, av_api = ao_init\<rparr>"
| av_next: "av_reachable topics s \<Longrightarrow> \<forall>i b. ev \<noteq> AV_Api (AO_ModuleState i b) \<Longrightarrow>
    av_step t ev s = (s', outs) \<Longrightarrow> av_reachable topics s'"

section \<open>The API has what the monitor last published\<close>

definition av_synced :: "cm_state \<Rightarrow> ao_state \<Rightarrow> bool" where
  "av_synced m a \<longleftrightarrow> length (ao_module_states a) = 8 \<and>
     (\<forall>x. ao_module_states a ! av_index x = (cm_states m (kAutonomous, x) = Some True))"

lemma av_index_less [simp]: "av_index m < 8"
  by (cases m) simp_all

lemma av_index_inj [simp]: "av_index m = av_index m' \<longleftrightarrow> m = m'"
  by (cases m; cases m') simp_all

lemma av_index_surj: "i < 8 \<Longrightarrow> av_index (cm_modules ! i) = i"
  by (auto simp: cm_modules_def less_Suc_eq numeral_eq_Suc)

lemma av_deliver_update:
  assumes "av_synced s a"
  shows "av_synced (fst (cm_update_state t ty m b s)) (fold av_deliver (snd (cm_update_state t ty m b s)) a)"
  using assms
  by (auto simp: av_synced_def cm_update_state_def Let_def ao_on_module_state_def nth_list_update
      split: if_splits)

lemma av_deliver_module:
  assumes "av_synced (fst acc) (fold av_deliver (snd acc) a)"
  shows "av_synced (fst (cm_module_timer t m acc)) (fold av_deliver (snd (cm_module_timer t m acc)) a)"
  using av_deliver_update [OF av_deliver_update [OF assms]]
  by (simp add: cm_module_timer_def Let_def case_prod_beta)

lemma av_deliver_timer:
  assumes "av_synced s a"
  shows "av_synced (fst (cm_on_timer t s)) (fold av_deliver (snd (cm_on_timer t s)) a)"
proof -
  have "av_synced (fst (fold (cm_module_timer t) ms acc)) (fold av_deliver (snd (fold (cm_module_timer t) ms acc)) a)"
    if "av_synced (fst acc) (fold av_deliver (snd acc) a)" for ms acc
    using that by (induction ms arbitrary: acc) (simp_all add: av_deliver_module)
  from this [of "(s, [])"] assms show ?thesis by (simp add: cm_on_timer_def)
qed

lemma cm_on_diag_frame [frame_simps]:
  "cm_states (cm_on_diag msg s) = cm_states s"
  "cm_topics (cm_on_diag msg s) = cm_topics s"
  unfolding cm_on_diag_def by (induction msg arbitrary: s) (auto simp: cm_on_status_def)

lemma cm_on_diag_dom: "dom (cm_levels (cm_on_diag msg s)) = dom (cm_levels s)"
  unfolding cm_on_diag_def by (induction msg arbitrary: s) (auto simp: cm_on_status_def)

lemma cm_init_dom: "dom (cm_levels (cm_init topics)) = set (cm_names topics)"
proof -
  have "dom (fold (\<lambda>name m. m(name \<mapsto> DL_STALE)) xs m) = set xs \<union> dom m" for xs and m :: "string \<rightharpoonup> diag_level"
    by (induction xs arbitrary: m) auto
  then show ?thesis by (simp add: cm_init_def)
qed

lemma ao_handle_module_states:
  "\<forall>i b. ev \<noteq> AO_ModuleState i b \<Longrightarrow> ao_module_states (fst (ao_handle t ev a)) = ao_module_states a"
proof (cases ev)
  case (AO_ModuleState i b)
  then show "\<forall>i b. ev \<noteq> AO_ModuleState i b \<Longrightarrow> ?thesis" by blast
qed (simp_all add: ao_change_defs ao_service_state ao_on_state_def ao_on_timer_def frame_simps)

definition av_inv :: "(state_type \<Rightarrow> ad_module \<Rightarrow> string list) \<Rightarrow> av_state \<Rightarrow> bool" where
  "av_inv topics s \<longleftrightarrow> av_synced (av_monitor s) (av_api s) \<and> cm_topics (av_monitor s) = topics \<and>
     dom (cm_levels (av_monitor s)) = set (cm_names topics)"

lemma av_synced_cong:
  "ao_module_states a' = ao_module_states a \<Longrightarrow> cm_states m' = cm_states m \<Longrightarrow>
     av_synced m' a' = av_synced m a"
  by (simp add: av_synced_def)

lemma av_reachable_inv: "av_reachable topics s \<Longrightarrow> av_inv topics s"
proof (induction rule: av_reachable.induct)
  case av_start
  have "ao_module_states ao_init ! av_index x = False" for x
    by (cases x) (simp_all add: ao_init_def ao_module_names_def)
  then have "av_synced (cm_init topics) ao_init"
    by (simp add: av_synced_def cm_init_def) (simp add: ao_init_def ao_module_names_def)
  then show ?case by (simp add: av_inv_def cm_init_dom) (simp add: cm_init_def)
next
  case (av_next s ev t s' outs)
  show ?case
  proof (cases ev)
    case (AV_Diag msg)
    with av_next.hyps have "s' = s\<lparr>av_monitor := cm_on_diag msg (av_monitor s)\<rparr>" by simp
    moreover have "av_synced (cm_on_diag msg (av_monitor s)) (av_api s) = av_synced (av_monitor s) (av_api s)"
      by (rule av_synced_cong) (simp_all add: frame_simps)
    ultimately show ?thesis
      using av_next.IH by (simp add: av_inv_def frame_simps cm_on_diag_dom)
  next
    case AV_MonitorTimer
    with av_next.hyps have "s' = s\<lparr>av_monitor := fst (cm_on_timer t (av_monitor s)),
        av_api := fold av_deliver (snd (cm_on_timer t (av_monitor s))) (av_api s)\<rparr>"
      by (simp add: Let_def case_prod_beta)
    then show ?thesis
      using av_next.IH av_deliver_timer [of "av_monitor s" "av_api s" t]
      by (simp add: av_inv_def cm_on_timer_states)
  next
    case (AV_Api aev)
    with av_next.hyps have s': "s' = s\<lparr>av_api := fst (ao_handle t aev (av_api s))\<rparr>"
      by (simp add: Let_def case_prod_beta)
    have "ao_module_states (fst (ao_handle t aev (av_api s))) = ao_module_states (av_api s)"
      using av_next.hyps(2) AV_Api by (intro ao_handle_module_states) auto
    then have "av_synced (av_monitor s) (fst (ao_handle t aev (av_api s))) =
        av_synced (av_monitor s) (av_api s)"
      by (rule av_synced_cong) simp
    then show ?thesis using av_next.IH s' by (simp add: av_inv_def)
  qed
qed

section \<open>A request after a tick of each node\<close>

definition av_request :: "time \<Rightarrow> av_state \<Rightarrow> ao_out list" where
  "av_request t s =
     (let s1 = fst (av_step t AV_MonitorTimer s); s2 = fst (av_step t (AV_Api AO_Timer) s1)
      in snd (av_step t (AV_Api AO_ChangeToAutonomous) s2))"

lemma av_request_iff:
  assumes "av_inv topics s"
  shows "AO_CallChangeMode OperationMode_AUTONOMOUS \<in> set (av_request t s) \<longleftrightarrow>
    (\<forall>m. \<forall>nm \<in> set (topics kLaunch m) \<union> set (topics kAutonomous m).
       cm_levels (av_monitor s) nm = Some DL_OK)"
proof -
  define m1 where "m1 = fst (cm_on_timer t (av_monitor s))"
  define a1 where "a1 = fold av_deliver (snd (cm_on_timer t (av_monitor s))) (av_api s)"
  from assms have synced: "av_synced m1 a1" and topics: "cm_topics (av_monitor s) = topics"
    and dom: "dom (cm_levels (av_monitor s)) = set (cm_names topics)"
    by (simp_all add: av_inv_def m1_def a1_def av_deliver_timer)
  have "AO_CallChangeMode OperationMode_AUTONOMOUS \<in> set (av_request t s) \<longleftrightarrow>
      ao_mode_available (fst (ao_on_timer t a1)) OperationMode_AUTONOMOUS"
    by (auto simp: av_request_def a1_def Let_def case_prod_beta ao_on_change_to_autonomous_def
        ao_change_mode_def ao_service_def)
  also have "\<dots> \<longleftrightarrow> (\<forall>i < 8. ao_module_states a1 ! i)"
    using synced by (auto simp: ao_on_timer_def frame_simps fold_conj av_synced_def all_set_conv_all_nth)
  also have "\<dots> \<longleftrightarrow> (\<forall>m. cm_states m1 (kAutonomous, m) = Some True)"
    using synced av_index_surj by (metis av_index_less av_synced_def)
  also have "\<dots> \<longleftrightarrow> (\<forall>m. \<forall>nm \<in> set (topics kLaunch m) \<union> set (topics kAutonomous m).
      cm_is_ok (av_monitor s) nm)"
    by (auto simp: m1_def cm_on_timer_states topics list_all_iff)
  also have "\<dots> \<longleftrightarrow> (\<forall>m. \<forall>nm \<in> set (topics kLaunch m) \<union> set (topics kAutonomous m).
      cm_levels (av_monitor s) nm = Some DL_OK)"
  proof -
    have "nm \<in> dom (cm_levels (av_monitor s))" if "nm \<in> set (topics kLaunch m) \<union> set (topics kAutonomous m)"
      for nm m using that set_cm_modules [of m] by (auto simp: dom cm_names_def cm_types_def)
    then have "cm_is_ok (av_monitor s) nm \<longleftrightarrow> cm_levels (av_monitor s) nm = Some DL_OK"
      if "nm \<in> set (topics kLaunch m) \<union> set (topics kAutonomous m)" for nm m
      using that by (auto simp: cm_is_ok_def split: option.splits)
    then show ?thesis by (intro iff_allI ball_cong refl)
  qed
  finally show ?thesis .
qed

text \<open>C31: Autonomous driving can be requested only while every required topic is alive.  In every run of
  the component state monitor and the AD API, once each of them has ticked, a request for
  autonomous mode is let through exactly when the last diagnostic of every topic listed for any
  module was OK.  In particular it is refused after the topic monitor of a listed topic has
  reported a lost, never received or too slow topic, whatever the other monitors say.\<close>

theorem av_autonomous_needs_all_topics:
  assumes "av_reachable topics s"
  shows "(AO_CallChangeMode OperationMode_AUTONOMOUS \<in> set (av_request t s) \<longleftrightarrow>
      (\<forall>m. \<forall>nm \<in> set (topics kLaunch m) \<union> set (topics kAutonomous m).
         cm_levels (av_monitor s) nm = Some DL_OK)) \<and>
    (\<forall>ts nm m. nm \<in> set (topics kLaunch m) \<union> set (topics kAutonomous m) \<longrightarrow>
       ts_getTopicStatus t ts \<noteq> TopicStatus_Ok \<longrightarrow>
       AO_CallChangeMode OperationMode_AUTONOMOUS
         \<notin> set (av_request t (fst (av_step t (AV_Diag [tn_checkTopicStatus nm t ts]) s))))"
proof (intro conjI allI impI)
  show "AO_CallChangeMode OperationMode_AUTONOMOUS \<in> set (av_request t s) \<longleftrightarrow>
      (\<forall>m. \<forall>nm \<in> set (topics kLaunch m) \<union> set (topics kAutonomous m).
         cm_levels (av_monitor s) nm = Some DL_OK)"
    using assms by (intro av_request_iff av_reachable_inv)
next
  fix ts nm m
  assume nm: "nm \<in> set (topics kLaunch m) \<union> set (topics kAutonomous m)"
    and status: "ts_getTopicStatus t ts \<noteq> TopicStatus_Ok"
  let ?s = "fst (av_step t (AV_Diag [tn_checkTopicStatus nm t ts]) s)"
  have inv: "av_inv topics ?s"
    by (rule av_reachable_inv, rule av_next [OF assms, of "AV_Diag [tn_checkTopicStatus nm t ts]" t])
       simp_all
  from nm set_cm_modules [of m] av_reachable_inv [OF assms]
  have "cm_levels (av_monitor s) nm \<noteq> None"
    by (auto simp: av_inv_def cm_names_def cm_types_def set_eq_iff domIff)
  then have "cm_levels (av_monitor ?s) nm \<noteq> Some DL_OK"
    using status tn_level_OK
    by (simp add: cm_on_diag_def cm_on_status_def tn_checkTopicStatus_def Let_def)
  with nm show "AO_CallChangeMode OperationMode_AUTONOMOUS \<notin> set (av_request t ?s)"
    unfolding av_request_iff [OF inv] by blast
qed

definition av_ex_topics :: "state_type \<Rightarrow> ad_module \<Rightarrow> string list" where
  "av_ex_topics ty m = (if ty = kLaunch \<and> m = kSensing then [''lidar''] else [])"

theorem av_autonomous_needs_all_topics_witness:
  "AO_CallChangeMode OperationMode_AUTONOMOUS
     \<notin> set (av_request 5 (fst (av_step 5 (AV_Diag [tn_checkTopicStatus ''lidar'' 5
        (ts_init \<lparr>tsp_warn_rate = 1, tsp_error_rate = 1, tsp_timeout = 1, tsp_window_size = 10\<rparr>)])
        \<lparr>av_monitor = cm_init av_ex_topics, av_api = ao_init\<rparr>)))"
  by (rule av_autonomous_needs_all_topics [OF av_start, THEN conjunct2, rule_format, of _ _ kSensing])
     (simp_all add: av_ex_topics_def ts_getTopicStatus_def ts_isNotReceived_def ts_init_def)

end
