(* ===== verification/Registry.thy ===== *)
theory Registry
  imports AW_Prelude
begin

text \<open>
  Tables of entries with a key, into which a node writes by key and from which it erases by key.
  The locale states what a lookup returns after each operation; the cooperation table of the RTC
  interface (a vector searched by uuid) and the table of velocity limits (a hash map by sender)
  interpret it.
\<close>

locale registry =
  fixes lookup :: "'s \<Rightarrow> 'k \<Rightarrow> 'v option"
    and upsert :: "'k \<Rightarrow> 'a \<Rightarrow> 's \<Rightarrow> 's"
    and remove :: "'k \<Rightarrow> 's \<Rightarrow> 's"
    and fresh :: "'s \<Rightarrow> 'k \<Rightarrow> 'a \<Rightarrow> 'v"
    and refresh :: "'k \<Rightarrow> 'a \<Rightarrow> 'v \<Rightarrow> 'v"
    and ok :: "'s \<Rightarrow> bool"
  assumes lookup_upsert: "ok s \<Longrightarrow> lookup (upsert k a s) j =
      (if j = k then Some (case lookup s k of None \<Rightarrow> fresh s k a | Some v \<Rightarrow> refresh k a v)
       else lookup s j)"
    and lookup_remove: "ok s \<Longrightarrow> lookup (remove k s) j = (if j = k then None else lookup s j)"
    and ok_upsert: "ok s \<Longrightarrow> ok (upsert k a s)"
    and ok_remove: "ok s \<Longrightarrow> ok (remove k s)"
begin

text \<open>An entry that is registered again after it was erased starts afresh.\<close>

lemma registered_again:
  "ok s \<Longrightarrow> lookup (upsert k a (remove k s)) k = Some (fresh (remove k s) k a)"
  by (simp add: lookup_upsert lookup_remove ok_remove)

text \<open>The keys after a series of operations, \<open>Some a\<close> standing for a write and \<open>None\<close> for an erasure.\<close>

fun apply_ops :: "('k \<times> 'a option) list \<Rightarrow> 's \<Rightarrow> 's" where
  "apply_ops [] s = s"
| "apply_ops ((k, Some a) # ops) s = apply_ops ops (upsert k a s)"
| "apply_ops ((k, None) # ops) s = apply_ops ops (remove k s)"

lemma ok_apply_ops: "ok s \<Longrightarrow> ok (apply_ops ops s)"
  by (induction ops s rule: apply_ops.induct) (simp_all add: ok_upsert ok_remove)

lemma apply_ops_frame:
  "ok s \<Longrightarrow> j \<notin> fst ` set ops \<Longrightarrow> lookup (apply_ops ops s) j = lookup s j"
  by (induction ops s rule: apply_ops.induct)
     (auto simp: lookup_upsert lookup_remove ok_upsert ok_remove)

lemma registered_iff_last_op:
  assumes "ok s" and "k \<notin> fst ` set ops"
  shows "lookup (apply_ops ((k, x) # ops) s) k \<noteq> None \<longleftrightarrow> x \<noteq> None"
  using assms
  by (cases x) (simp_all add: apply_ops_frame ok_upsert ok_remove lookup_upsert lookup_remove)

end

text \<open>A vector searched with \<open>std::find_if\<close> by a key that its elements do not share.\<close>

lemma find_key_update:
  "(\<And>x. g (f x) = g x) \<Longrightarrow> find (\<lambda>x. g x = j) (update_first (\<lambda>x. g x = k) f xs) =
     (if j = k then map_option f (find (\<lambda>x. g x = j) xs) else find (\<lambda>x. g x = j) xs)"
  by (rule find_update_first)

lemma find_key_append:
  "find (\<lambda>x. g x = j) (xs @ [y]) =
     (case find (\<lambda>x. g x = j) xs of None \<Rightarrow> if g y = j then Some y else None | Some x \<Rightarrow> Some x)"
  by (simp add: find_append split: option.split)

end
