(* ===== verification/Rtc_Interface.thy ===== *)
theory Rtc_Interface
  imports Registry "HOL-Library.Word"
begin

text \<open>
  Request to cooperate: \<open>planning/rtc_interface\<close> keeps, for one planning module, the table of its
  instances (by uuid) with their safety, the command an operator gave and whether they run
  without an operator; \<open>rtc_auto_mode_manager\<close> switches whole modules to automatic, and
  \<open>rtc_replayer\<close> turns recorded statuses back into commands.  Each member
  function is one step of the model. The code enforces this with a mutex for all of them but
  \<open>lockCommandUpdate\<close> and \<open>unlockCommandUpdate\<close>, which take no mutex and may race with the service
  callbacks of another thread; the model has them as atomic steps too, so it covers the executions in which they do
  not overlap with another member function.  A uuid is an array of 16 bytes.
\<close>

section \<open>Messages\<close>

type_synonym uuid = "8 word list"

datatype rtc_command = Command_DEACTIVATE | Command_ACTIVATE | Command_raw nat

datatype rtc_module =
    Module_NONE | Module_LANE_CHANGE_LEFT | Module_LANE_CHANGE_RIGHT | Module_AVOIDANCE_LEFT
  | Module_AVOIDANCE_RIGHT | Module_PULL_OVER | Module_PULL_OUT | Module_TRAFFIC_LIGHT
  | Module_INTERSECTION | Module_CROSSWALK | Module_BLIND_SPOT | Module_DETECTION_AREA
  | Module_NO_STOPPING_AREA | Module_OCCLUSION_SPOT | Module_EXT_REQUEST_LANE_CHANGE_LEFT
  | Module_EXT_REQUEST_LANE_CHANGE_RIGHT | Module_AVOIDANCE_BY_LC_LEFT
  | Module_AVOIDANCE_BY_LC_RIGHT | Module_INTERSECTION_OCCLUSION

record cooperate_status =
  cs_stamp :: time
  cs_uuid :: uuid
  cs_module :: rtc_module
  cs_safe :: bool
  cs_command_status :: rtc_command
  cs_start_distance :: real
  cs_finish_distance :: real
  cs_auto_mode :: bool

record cooperate_command =
  cm_uuid :: uuid
  cm_module :: rtc_module
  cm_command :: rtc_command

record cooperate_response =
  cr_uuid :: uuid
  cr_module :: rtc_module
  cr_success :: bool

section \<open>The interface\<close>

definition ri_hex_digit :: "nat \<Rightarrow> char" where
  "ri_hex_digit n = ''0123456789abcdef'' ! n"

definition ri_to_string :: "uuid \<Rightarrow> string" where
  "ri_to_string uuid =
     concat (map (\<lambda>b. [ri_hex_digit (unat b div 16), ri_hex_digit (unat b mod 16)]) uuid)"

definition ri_getModuleType :: "string \<Rightarrow> rtc_module" where
  "ri_getModuleType module_name =
     (if module_name = ''blind_spot'' then Module_BLIND_SPOT
      else if module_name = ''crosswalk'' then Module_CROSSWALK
      else if module_name = ''detection_area'' then Module_DETECTION_AREA
      else if module_name = ''intersection'' then Module_INTERSECTION
      else if module_name = ''no_stopping_area'' then Module_NO_STOPPING_AREA
      else if module_name = ''occlusion_spot'' then Module_OCCLUSION_SPOT
      else if module_name = ''stop_line'' then Module_NONE
      else if module_name = ''traffic_light'' then Module_TRAFFIC_LIGHT
      else if module_name = ''virtual_traffic_light'' then Module_TRAFFIC_LIGHT
      else if module_name = ''lane_change_left'' then Module_LANE_CHANGE_LEFT
      else if module_name = ''lane_change_right'' then Module_LANE_CHANGE_RIGHT
      else if module_name = ''external_request_lane_change_left''
        then Module_EXT_REQUEST_LANE_CHANGE_LEFT
      else if module_name = ''external_request_lane_change_right''
        then Module_EXT_REQUEST_LANE_CHANGE_RIGHT
      else if module_name = ''avoidance_by_lane_change_left'' then Module_AVOIDANCE_BY_LC_LEFT
      else if module_name = ''avoidance_by_lane_change_right'' then Module_AVOIDANCE_BY_LC_RIGHT
      else if module_name = ''avoidance_left'' then Module_AVOIDANCE_LEFT
      else if module_name = ''avoidance_right'' then Module_AVOIDANCE_RIGHT
      else if module_name = ''pull_over'' then Module_PULL_OVER
      else if module_name = ''pull_out'' then Module_PULL_OUT
      else if module_name = ''intersection_occlusion'' then Module_INTERSECTION_OCCLUSION
      else Module_NONE)"

record ri_state =
  ri_module :: rtc_module
  ri_stamp :: time
  ri_statuses :: "cooperate_status list"
  ri_stored_commands :: "cooperate_command list"
  ri_is_auto_mode_init :: bool
  ri_is_locked :: bool

definition ri_init :: "string \<Rightarrow> ri_state" where
  "ri_init name =
     \<lparr>ri_module = ri_getModuleType name, ri_stamp = 0, ri_statuses = [], ri_stored_commands = [],
      ri_is_auto_mode_init = False, ri_is_locked = False\<rparr>"

definition ri_find :: "uuid \<Rightarrow> ri_state \<Rightarrow> cooperate_status option" where
  "ri_find uuid s = find (\<lambda>st. cs_uuid st = uuid) (ri_statuses s)"

definition ri_publishCooperateStatus ::
  "time \<Rightarrow> ri_state \<Rightarrow> ri_state \<times> (time \<times> cooperate_status list)" where
  "ri_publishCooperateStatus stamp s = (s\<lparr>ri_stamp := stamp\<rparr>, (stamp, ri_statuses s))"

definition ri_validateCooperateCommands ::
  "cooperate_command list \<Rightarrow> ri_state \<Rightarrow> cooperate_response list" where
  "ri_validateCooperateCommands commands s =
     map (\<lambda>c. \<lparr>cr_uuid = cm_uuid c, cr_module = cm_module c,
                cr_success = (ri_find (cm_uuid c) s \<noteq> None)\<rparr>) commands"

definition ri_write_command :: "cooperate_command \<Rightarrow> ri_state \<Rightarrow> ri_state" where
  "ri_write_command c s = s\<lparr>ri_statuses :=
     update_first (\<lambda>st. cs_uuid st = cm_uuid c)
       (\<lambda>st. st\<lparr>cs_command_status := cm_command c, cs_auto_mode := False\<rparr>) (ri_statuses s)\<rparr>"

definition ri_updateCooperateCommandStatus :: "cooperate_command list \<Rightarrow> ri_state \<Rightarrow> ri_state" where
  "ri_updateCooperateCommandStatus commands s = fold ri_write_command commands s"

definition ri_onCooperateCommandService ::
  "cooperate_command list \<Rightarrow> ri_state \<Rightarrow> ri_state \<times> cooperate_response list" where
  "ri_onCooperateCommandService commands s =
     (let responses = ri_validateCooperateCommands commands s in
      if ri_is_locked s then (s\<lparr>ri_stored_commands := commands\<rparr>, responses)
      else (ri_updateCooperateCommandStatus commands s, responses))"

definition ri_onAutoModeService :: "bool \<Rightarrow> ri_state \<Rightarrow> ri_state" where
  "ri_onAutoModeService enable s = s
     \<lparr>ri_is_auto_mode_init := enable,
      ri_statuses := map (\<lambda>st. st\<lparr>cs_auto_mode := enable\<rparr>) (ri_statuses s)\<rparr>"

definition ri_updateCooperateStatus ::
  "uuid \<Rightarrow> bool \<Rightarrow> real \<Rightarrow> real \<Rightarrow> time \<Rightarrow> ri_state \<Rightarrow> ri_state" where
  "ri_updateCooperateStatus uuid safe start_distance finish_distance stamp s =
     (if ri_find uuid s = None
      then s\<lparr>ri_statuses := ri_statuses s @
             [\<lparr>cs_stamp = stamp, cs_uuid = uuid, cs_module = ri_module s, cs_safe = safe,
               cs_command_status = Command_DEACTIVATE, cs_start_distance = start_distance,
               cs_finish_distance = finish_distance, cs_auto_mode = ri_is_auto_mode_init s\<rparr>]\<rparr>
      else s\<lparr>ri_statuses := update_first (\<lambda>st. cs_uuid st = uuid)
             (\<lambda>st. st\<lparr>cs_stamp := stamp, cs_safe := safe, cs_start_distance := start_distance,
                      cs_finish_distance := finish_distance\<rparr>) (ri_statuses s)\<rparr>)"

definition ri_removeStoredCommand :: "uuid \<Rightarrow> ri_state \<Rightarrow> ri_state" where
  "ri_removeStoredCommand uuid s =
     s\<lparr>ri_stored_commands := remove_first (\<lambda>c. cm_uuid c = uuid) (ri_stored_commands s)\<rparr>"

definition ri_removeCooperateStatus :: "uuid \<Rightarrow> ri_state \<Rightarrow> ri_state" where
  "ri_removeCooperateStatus uuid s =
     (let s1 = ri_removeStoredCommand uuid s
      in s1\<lparr>ri_statuses := remove_first (\<lambda>st. cs_uuid st = uuid) (ri_statuses s1)\<rparr>)"

definition ri_clearCooperateStatus :: "ri_state \<Rightarrow> ri_state" where
  "ri_clearCooperateStatus s = s\<lparr>ri_statuses := [], ri_stored_commands := []\<rparr>"

definition ri_isActivated :: "uuid \<Rightarrow> ri_state \<Rightarrow> bool" where
  "ri_isActivated uuid s =
     (case ri_find uuid s of
        Some st \<Rightarrow> if cs_auto_mode st then cs_safe st else cs_command_status st = Command_ACTIVATE
      | None \<Rightarrow> False)"

definition ri_isRegistered :: "uuid \<Rightarrow> ri_state \<Rightarrow> bool" where
  "ri_isRegistered uuid s \<longleftrightarrow> ri_find uuid s \<noteq> None"

definition ri_lockCommandUpdate :: "ri_state \<Rightarrow> ri_state" where
  "ri_lockCommandUpdate s = s\<lparr>ri_is_locked := True\<rparr>"

definition ri_unlockCommandUpdate :: "ri_state \<Rightarrow> ri_state" where
  "ri_unlockCommandUpdate s =
     ri_updateCooperateCommandStatus (ri_stored_commands s) (s\<lparr>ri_is_locked := False\<rparr>)"

datatype ri_event =
    RI_Publish time
  | RI_Commands "cooperate_command list"
  | RI_AutoMode bool
  | RI_Update uuid bool real real time
  | RI_Remove uuid
  | RI_Clear
  | RI_Lock
  | RI_Unlock

fun ri_handle :: "ri_event \<Rightarrow> ri_state \<Rightarrow> ri_state" where
  "ri_handle (RI_Publish stamp) s = fst (ri_publishCooperateStatus stamp s)"
| "ri_handle (RI_Commands cs) s = fst (ri_onCooperateCommandService cs s)"
| "ri_handle (RI_AutoMode b) s = ri_onAutoModeService b s"
| "ri_handle (RI_Update uuid safe d1 d2 stamp) s = ri_updateCooperateStatus uuid safe d1 d2 stamp s"
| "ri_handle (RI_Remove uuid) s = ri_removeCooperateStatus uuid s"
| "ri_handle RI_Clear s = ri_clearCooperateStatus s"
| "ri_handle RI_Lock s = ri_lockCommandUpdate s"
| "ri_handle RI_Unlock s = ri_unlockCommandUpdate s"

section \<open>Automatic mode of the modules\<close>

definition rm_getModuleType :: "string \<Rightarrow> rtc_module" where
  "rm_getModuleType module_name =
     (if module_name = ''blind_spot'' then Module_BLIND_SPOT
      else if module_name = ''crosswalk'' then Module_CROSSWALK
      else if module_name = ''detection_area'' then Module_DETECTION_AREA
      else if module_name = ''intersection'' then Module_INTERSECTION
      else if module_name = ''no_stopping_area'' then Module_NO_STOPPING_AREA
      else if module_name = ''occlusion_spot'' then Module_OCCLUSION_SPOT
      else if module_name = ''traffic_light'' then Module_TRAFFIC_LIGHT
      else if module_name = ''virtual_traffic_light'' then Module_TRAFFIC_LIGHT
      else if module_name = ''external_request_lane_change_left''
        then Module_EXT_REQUEST_LANE_CHANGE_LEFT
      else if module_name = ''external_request_lane_change_right''
        then Module_EXT_REQUEST_LANE_CHANGE_RIGHT
      else if module_name = ''lane_change_left'' then Module_LANE_CHANGE_LEFT
      else if module_name = ''lane_change_right'' then Module_LANE_CHANGE_RIGHT
      else if module_name = ''avoidance_by_lane_change_left'' then Module_AVOIDANCE_BY_LC_LEFT
      else if module_name = ''avoidance_by_lane_change_right'' then Module_AVOIDANCE_BY_LC_RIGHT
      else if module_name = ''avoidance_left'' then Module_AVOIDANCE_LEFT
      else if module_name = ''avoidance_right'' then Module_AVOIDANCE_RIGHT
      else if module_name = ''pull_over'' then Module_PULL_OVER
      else if module_name = ''pull_out'' then Module_PULL_OUT
      else if module_name = ''intersection_occlusion'' then Module_INTERSECTION_OCCLUSION
      else Module_NONE)"

record rm_interface =
  rmi_name :: string
  rmi_module :: rtc_module
  rmi_is_auto_mode :: bool

text \<open>A request to a module's internal service: its name and the value to set.\<close>

type_synonym rm_request = "string \<times> bool"

definition rm_interface_new :: "string \<Rightarrow> bool \<Rightarrow> rm_interface \<times> rm_request list" where
  "rm_interface_new module_name default_enable =
     (\<lparr>rmi_name = module_name, rmi_module = rm_getModuleType module_name,
       rmi_is_auto_mode = default_enable\<rparr>,
      if default_enable then [(module_name, True)] else [])"

definition rm_onEnableService :: "bool \<Rightarrow> rm_interface \<Rightarrow> rm_interface \<times> rm_request list" where
  "rm_onEnableService enable m = (m\<lparr>rmi_is_auto_mode := enable\<rparr>, [(rmi_name m, enable)])"

definition rm_node_new ::
  "string list \<Rightarrow> string list \<Rightarrow> rm_interface list \<times> rm_request list" where
  "rm_node_new module_list default_enable_list =
     (let ms = map (\<lambda>n. rm_interface_new n (count_list default_enable_list n \<noteq> 0)) module_list
      in (map fst ms, concat (map snd ms)))"

definition rm_timer :: "rm_interface list \<Rightarrow> (rtc_module \<times> bool) list" where
  "rm_timer managers = map (\<lambda>m. (rmi_module m, rmi_is_auto_mode m)) managers"

lemma rm_getModuleType_agrees: "rm_getModuleType = ri_getModuleType"
  by (rule ext) (simp add: rm_getModuleType_def ri_getModuleType_def)

section \<open>Replay\<close>

fun rp_getModuleStatus :: "rtc_command \<Rightarrow> string" where
  "rp_getModuleStatus Command_ACTIVATE = ''execute''"
| "rp_getModuleStatus Command_DEACTIVATE = ''wait''"
| "rp_getModuleStatus _ = ''none''"

fun rp_getModuleName :: "rtc_module \<Rightarrow> string" where
  "rp_getModuleName Module_LANE_CHANGE_LEFT = ''lane_change_left''"
| "rp_getModuleName Module_LANE_CHANGE_RIGHT = ''lane_change_right''"
| "rp_getModuleName Module_AVOIDANCE_LEFT = ''avoidance_left''"
| "rp_getModuleName Module_AVOIDANCE_RIGHT = ''avoidance_right''"
| "rp_getModuleName Module_PULL_OVER = ''pull_over''"
| "rp_getModuleName Module_PULL_OUT = ''pull_out''"
| "rp_getModuleName Module_TRAFFIC_LIGHT = ''traffic_light''"
| "rp_getModuleName Module_INTERSECTION = ''intersection''"
| "rp_getModuleName Module_CROSSWALK = ''crosswalk''"
| "rp_getModuleName Module_BLIND_SPOT = ''blind_spot''"
| "rp_getModuleName Module_DETECTION_AREA = ''detection_area''"
| "rp_getModuleName Module_NO_STOPPING_AREA = ''no_stopping_area''"
| "rp_getModuleName Module_OCCLUSION_SPOT = ''occlusion_spot''"
| "rp_getModuleName _ = ''NONE''"

definition rp_to_string :: "uuid \<Rightarrow> string" where
  "rp_to_string uuid =
     concat (map (\<lambda>b. [ri_hex_digit (unat b div 16), ri_hex_digit (unat b mod 16)]) uuid)"

text \<open>The state of the replayer is \<open>prev_cmd_status_\<close>; the request carries its stamp and commands.\<close>

type_synonym rp_state = "string \<rightharpoonup> rtc_command"

definition rp_status ::
  "cooperate_status \<Rightarrow> rp_state \<times> time \<times> cooperate_command list \<Rightarrow>
     rp_state \<times> time \<times> cooperate_command list" where
  "rp_status status acc =
     (let (prev, stamp, commands) = acc;
          cmd_status = cs_command_status status;
          uuid_string = rp_to_string (cs_uuid status);
          changed = (prev uuid_string \<noteq> None \<and> prev uuid_string \<noteq> Some cmd_status);
          cc = \<lparr>cm_uuid = cs_uuid status, cm_module = cs_module status, cm_command = cmd_status\<rparr>
      in (prev(uuid_string \<mapsto> cmd_status),
          if changed then cs_stamp status else stamp,
          if changed then commands @ [cc] else commands))"

definition rp_onCooperateStatus ::
  "cooperate_status list \<Rightarrow> rp_state \<Rightarrow> rp_state \<times> (time \<times> cooperate_command list) option" where
  "rp_onCooperateStatus statuses prev =
     (if statuses = [] then (prev, None)
      else
        (let (prev1, stamp, commands) = fold rp_status statuses (prev, 0, [])
         in (prev1, if commands = [] then None else Some (stamp, commands))))"

section \<open>The table as a map\<close>

definition ri_ok :: "ri_state \<Rightarrow> bool" where
  "ri_ok s \<longleftrightarrow> distinct (map cs_uuid (ri_statuses s))"

lemma ri_find_uuid: "ri_find k s = Some st \<Longrightarrow> cs_uuid st = k"
  unfolding ri_find_def by (drule find_key_Some) simp

lemma ri_find_write_command:
  "ri_find k (ri_write_command c s) =
     (if k = cm_uuid c
      then map_option (\<lambda>st. st\<lparr>cs_command_status := cm_command c, cs_auto_mode := False\<rparr>) (ri_find k s)
      else ri_find k s)"
  by (simp add: ri_find_def ri_write_command_def find_key_update)

lemma ri_find_auto_mode:
  "ri_find k (ri_onAutoModeService b s) = map_option (\<lambda>st. st\<lparr>cs_auto_mode := b\<rparr>) (ri_find k s)"
proof -
  have "find (\<lambda>st. cs_uuid st = k) (map (\<lambda>st. st\<lparr>cs_auto_mode := b\<rparr>) xs) =
      map_option (\<lambda>st. st\<lparr>cs_auto_mode := b\<rparr>) (find (\<lambda>st. cs_uuid st = k) xs)" for xs
    by (induction xs) auto
  then show ?thesis by (simp add: ri_find_def ri_onAutoModeService_def)
qed

lemma ri_write_command_frame [frame_simps]:
  "ri_module (ri_write_command c s) = ri_module s"
  "ri_stored_commands (ri_write_command c s) = ri_stored_commands s"
  "ri_is_auto_mode_init (ri_write_command c s) = ri_is_auto_mode_init s"
  "ri_is_locked (ri_write_command c s) = ri_is_locked s"
  "ri_ok (ri_write_command c s) = ri_ok s"
  by (simp_all add: ri_write_command_def ri_ok_def map_update_first)

lemma ri_fold_write_command_frame [frame_simps]:
  "ri_module (fold ri_write_command cs s) = ri_module s"
  "ri_stored_commands (fold ri_write_command cs s) = ri_stored_commands s"
  "ri_is_auto_mode_init (fold ri_write_command cs s) = ri_is_auto_mode_init s"
  "ri_is_locked (fold ri_write_command cs s) = ri_is_locked s"
  "ri_ok (fold ri_write_command cs s) = ri_ok s"
  by (induction cs arbitrary: s) (simp_all add: frame_simps)

definition ri_fresh :: "ri_state \<Rightarrow> uuid \<Rightarrow> bool \<times> real \<times> real \<times> time \<Rightarrow> cooperate_status" where
  "ri_fresh s uuid = (\<lambda>(safe, d1, d2, stamp).
     \<lparr>cs_stamp = stamp, cs_uuid = uuid, cs_module = ri_module s, cs_safe = safe,
      cs_command_status = Command_DEACTIVATE, cs_start_distance = d1, cs_finish_distance = d2,
      cs_auto_mode = ri_is_auto_mode_init s\<rparr>)"

definition ri_refresh :: "bool \<times> real \<times> real \<times> time \<Rightarrow> cooperate_status \<Rightarrow> cooperate_status" where
  "ri_refresh = (\<lambda>(safe, d1, d2, stamp) st.
     st\<lparr>cs_stamp := stamp, cs_safe := safe, cs_start_distance := d1, cs_finish_distance := d2\<rparr>)"

definition ri_upsert :: "uuid \<Rightarrow> bool \<times> real \<times> real \<times> time \<Rightarrow> ri_state \<Rightarrow> ri_state" where
  "ri_upsert uuid = (\<lambda>(safe, d1, d2, stamp). ri_updateCooperateStatus uuid safe d1 d2 stamp)"

interpretation ri_table: registry
  "\<lambda>s k. ri_find k s" ri_upsert ri_removeCooperateStatus ri_fresh "\<lambda>k. ri_refresh" ri_ok
proof unfold_locales
  fix s :: ri_state and k j and a :: "bool \<times> real \<times> real \<times> time"
  assume ok: "ri_ok s"
  obtain safe d1 d2 stamp where a: "a = (safe, d1, d2, stamp)" by (cases a)
  show "ri_find j (ri_upsert k a s) =
      (if j = k then Some (case ri_find k s of None \<Rightarrow> ri_fresh s k a | Some v \<Rightarrow> ri_refresh a v)
       else ri_find j s)"
    by (auto simp: a ri_upsert_def ri_updateCooperateStatus_def ri_find_def find_key_update
        find_key_append ri_fresh_def ri_refresh_def split: option.split)
  show "ri_find j (ri_removeCooperateStatus k s) = (if j = k then None else ri_find j s)"
    using ok by (simp add: ri_removeCooperateStatus_def ri_removeStoredCommand_def ri_find_def
        ri_ok_def find_remove_first Let_def)
  show "ri_ok (ri_upsert k a s)"
    using ok by (auto simp: a ri_upsert_def ri_updateCooperateStatus_def ri_ok_def ri_find_def
        map_update_first find_key_None)
  show "ri_ok (ri_removeCooperateStatus k s)"
    using ok by (simp add: ri_removeCooperateStatus_def ri_removeStoredCommand_def ri_ok_def
        distinct_remove_first Let_def)
qed

text \<open>The abstract interface: a map from uuids, commands written through it point by point.\<close>

record ra_state =
  ra_module :: rtc_module
  ra_table :: "uuid \<rightharpoonup> cooperate_status"
  ra_stored :: "cooperate_command list"
  ra_auto :: bool
  ra_locked :: bool

definition ra_command :: "cooperate_command \<Rightarrow> (uuid \<rightharpoonup> cooperate_status) \<Rightarrow> uuid \<rightharpoonup> cooperate_status" where
  "ra_command c m = m(cm_uuid c :=
     map_option (\<lambda>st. st\<lparr>cs_command_status := cm_command c, cs_auto_mode := False\<rparr>) (m (cm_uuid c)))"

fun ra_step :: "ri_event \<Rightarrow> ra_state \<Rightarrow> ra_state" where
  "ra_step (RI_Publish stamp) s = s"
| "ra_step (RI_Commands cs) s =
     (if ra_locked s then s\<lparr>ra_stored := cs\<rparr> else s\<lparr>ra_table := fold ra_command cs (ra_table s)\<rparr>)"
| "ra_step (RI_AutoMode b) s =
     s\<lparr>ra_auto := b, ra_table := (\<lambda>u. map_option (\<lambda>st. st\<lparr>cs_auto_mode := b\<rparr>) (ra_table s u))\<rparr>"
| "ra_step (RI_Update u safe d1 d2 stamp) s =
     s\<lparr>ra_table := (ra_table s)(u \<mapsto>
        (case ra_table s u of
           None \<Rightarrow>
             \<lparr>cs_stamp = stamp, cs_uuid = u, cs_module = ra_module s, cs_safe = safe,
              cs_command_status = Command_DEACTIVATE, cs_start_distance = d1,
              cs_finish_distance = d2, cs_auto_mode = ra_auto s\<rparr>
         | Some st \<Rightarrow> st\<lparr>cs_stamp := stamp, cs_safe := safe, cs_start_distance := d1,
             cs_finish_distance := d2\<rparr>))\<rparr>"
| "ra_step (RI_Remove u) s =
     s\<lparr>ra_table := (ra_table s)(u := None),
       ra_stored := remove_first (\<lambda>c. cm_uuid c = u) (ra_stored s)\<rparr>"
| "ra_step RI_Clear s = s\<lparr>ra_table := Map.empty, ra_stored := []\<rparr>"
| "ra_step RI_Lock s = s\<lparr>ra_locked := True\<rparr>"
| "ra_step RI_Unlock s = s\<lparr>ra_locked := False, ra_table := fold ra_command (ra_stored s) (ra_table s)\<rparr>"

definition ra_activated :: "uuid \<Rightarrow> ra_state \<Rightarrow> bool" where
  "ra_activated u s \<longleftrightarrow>
     (\<exists>st. ra_table s u = Some st \<and>
        (cs_auto_mode st \<and> cs_safe st \<or> \<not> cs_auto_mode st \<and> cs_command_status st = Command_ACTIVATE))"

definition ri_abs :: "ri_state \<Rightarrow> ra_state" where
  "ri_abs s =
     \<lparr>ra_module = ri_module s, ra_table = (\<lambda>u. ri_find u s), ra_stored = ri_stored_commands s,
      ra_auto = ri_is_auto_mode_init s, ra_locked = ri_is_locked s\<rparr>"

definition ri_run :: "string \<Rightarrow> ri_event list \<Rightarrow> ri_state" where
  "ri_run name evs = fold ri_handle evs (ri_init name)"

definition ra_run :: "string \<Rightarrow> ri_event list \<Rightarrow> ra_state" where
  "ra_run name evs = fold ra_step evs
     \<lparr>ra_module = ri_getModuleType name, ra_table = Map.empty, ra_stored = [], ra_auto = False,
      ra_locked = False\<rparr>"

lemma ri_find_fold_write:
  "(\<lambda>u. ri_find u (fold ri_write_command cs s)) = fold ra_command cs (\<lambda>u. ri_find u s)"
proof (induction cs arbitrary: s)
  case (Cons c cs)
  have "(\<lambda>u. ri_find u (ri_write_command c s)) = ra_command c (\<lambda>u. ri_find u s)"
    by (rule ext) (simp add: ri_find_write_command ra_command_def)
  with Cons.IH [of "ri_write_command c s"] show ?case by simp
qed simp

lemma ri_step_abs:
  assumes "ri_ok s"
  shows "ri_ok (ri_handle ev s) \<and> ri_abs (ri_handle ev s) = ra_step ev (ri_abs s)"
proof (cases ev)
  case (RI_Publish stamp)
  with assms show ?thesis
    by (simp add: ri_publishCooperateStatus_def ri_abs_def ri_ok_def ri_find_def)
next
  case (RI_Commands cs)
  have "ri_find u (s\<lparr>ri_stored_commands := cs\<rparr>) = ri_find u s"
    "ri_ok (s\<lparr>ri_stored_commands := cs\<rparr>) = ri_ok s" for u by (simp_all add: ri_find_def ri_ok_def)
  with RI_Commands assms show ?thesis
    by (auto simp: ri_onCooperateCommandService_def ri_updateCooperateCommandStatus_def ri_abs_def
        frame_simps ri_find_fold_write Let_def)
next
  case (RI_AutoMode b)
  with assms show ?thesis
    by (simp add: ri_abs_def ri_find_auto_mode) (simp add: ri_onAutoModeService_def ri_ok_def comp_def)
next
  case (RI_Update u safe d1 d2 stamp)
  have "ri_updateCooperateStatus u safe d1 d2 stamp s = ri_upsert u (safe, d1, d2, stamp) s"
    by (simp add: ri_upsert_def)
  moreover have "ri_module (ri_upsert u (safe, d1, d2, stamp) s) = ri_module s"
    "ri_stored_commands (ri_upsert u (safe, d1, d2, stamp) s) = ri_stored_commands s"
    "ri_is_auto_mode_init (ri_upsert u (safe, d1, d2, stamp) s) = ri_is_auto_mode_init s"
    "ri_is_locked (ri_upsert u (safe, d1, d2, stamp) s) = ri_is_locked s"
    by (simp_all add: ri_upsert_def ri_updateCooperateStatus_def)
  ultimately show ?thesis
    using RI_Update ri_table.ok_upsert [OF assms] ri_table.lookup_upsert [OF assms]
    by (auto simp: ri_abs_def ri_fresh_def ri_refresh_def fun_eq_iff split: option.split)
next
  case (RI_Remove u)
  have "ri_module (ri_removeCooperateStatus u s) = ri_module s"
    "ri_stored_commands (ri_removeCooperateStatus u s) =
       remove_first (\<lambda>c. cm_uuid c = u) (ri_stored_commands s)"
    "ri_is_auto_mode_init (ri_removeCooperateStatus u s) = ri_is_auto_mode_init s"
    "ri_is_locked (ri_removeCooperateStatus u s) = ri_is_locked s"
    by (simp_all add: ri_removeCooperateStatus_def ri_removeStoredCommand_def Let_def)
  with RI_Remove ri_table.ok_remove [OF assms] ri_table.lookup_remove [OF assms] show ?thesis
    by (auto simp: ri_abs_def fun_eq_iff)
next
  case RI_Clear
  then show ?thesis by (simp add: ri_clearCooperateStatus_def ri_abs_def ri_ok_def ri_find_def)
next
  case RI_Lock
  with assms show ?thesis by (simp add: ri_lockCommandUpdate_def ri_abs_def ri_ok_def ri_find_def)
next
  case RI_Unlock
  have "ri_find u (s\<lparr>ri_is_locked := False\<rparr>) = ri_find u s" for u by (simp add: ri_find_def)
  with RI_Unlock assms show ?thesis
    by (simp add: ri_unlockCommandUpdate_def ri_updateCooperateCommandStatus_def ri_abs_def
        frame_simps ri_find_fold_write) (simp add: ri_ok_def)
qed

lemma ri_run_abs: "ri_ok (ri_run name evs) \<and> ri_abs (ri_run name evs) = ra_run name evs"
proof (induction evs rule: rev_induct)
  case Nil
  show ?case by (simp add: ri_run_def ra_run_def ri_init_def ri_abs_def ri_ok_def ri_find_def)
next
  case (snoc ev evs)
  then show ?case using ri_step_abs [of "ri_run name evs" ev] by (simp add: ri_run_def ra_run_def)
qed

lemma ri_activated_abs: "ri_isActivated uuid s = ra_activated uuid (ri_abs s)"
  by (auto simp: ri_isActivated_def ra_activated_def ri_abs_def split: option.split)

text \<open>C28: The vector of statuses refines a map from uuids: after every sequence of calls of a new
  interface the lookups, the stored commands, the automatic mode and the lock are those of the
  abstract interface that writes each command and status at its uuid, no uuid occurs twice in
  the vector, and an instance is activated exactly when its entry of the map says so.\<close>

theorem rtc_refines_map:
  "ri_abs (ri_run name evs) = ra_run name evs \<and>
   distinct (map cs_uuid (ri_statuses (ri_run name evs))) \<and>
   ri_isActivated uuid (ri_run name evs) = ra_activated uuid (ra_run name evs)"
  using ri_run_abs [of name evs] by (simp add: ri_activated_abs ri_ok_def)

section \<open>Who activates an instance\<close>

text \<open>An operator has activated the uuid at some time; the safety its module last reported.\<close>

definition ra_approved :: "uuid \<Rightarrow> ri_event list \<Rightarrow> bool" where
  "ra_approved u evs \<longleftrightarrow>
     (\<exists>cs. RI_Commands cs \<in> set evs \<and> (\<exists>c \<in> set cs. cm_uuid c = u \<and> cm_command c = Command_ACTIVATE))"

fun ra_reported_safe :: "uuid \<Rightarrow> ri_event list \<Rightarrow> bool" where
  "ra_reported_safe u [] = False"
| "ra_reported_safe u (RI_Update v safe d1 d2 stamp # evs) =
     (if v = u then safe else ra_reported_safe u evs)"
| "ra_reported_safe u (ev # evs) = ra_reported_safe u evs"

definition ra_justified :: "ri_event list \<Rightarrow> ra_state \<Rightarrow> bool" where
  "ra_justified evs s \<longleftrightarrow>
     (\<forall>u st. ra_table s u = Some st \<longrightarrow>
        (cs_command_status st = Command_ACTIVATE \<longrightarrow> ra_approved u evs) \<and>
        (cs_auto_mode st \<longrightarrow> RI_AutoMode True \<in> set evs) \<and>
        cs_safe st = ra_reported_safe u (rev evs)) \<and>
     (\<forall>c \<in> set (ra_stored s). cm_command c = Command_ACTIVATE \<longrightarrow> ra_approved (cm_uuid c) evs) \<and>
     (ra_auto s \<longrightarrow> RI_AutoMode True \<in> set evs)"

lemma ra_approved_snoc: "ra_approved u evs \<Longrightarrow> ra_approved u (evs @ [ev])"
  by (auto simp: ra_approved_def)

lemma ra_approved_command:
  "c \<in> set cs \<Longrightarrow> cm_command c = Command_ACTIVATE \<Longrightarrow> ra_approved (cm_uuid c) (evs @ [RI_Commands cs])"
  by (auto simp: ra_approved_def)

text \<open>Writing commands keeps the table justified when the commands are.\<close>

lemma ra_fold_command_justified:
  assumes "\<forall>u st. m u = Some st \<longrightarrow> P u st" and "\<And>c u st. c \<in> set cs \<Longrightarrow> P u st \<Longrightarrow> cm_uuid c = u \<Longrightarrow>
      P u (st\<lparr>cs_command_status := cm_command c, cs_auto_mode := False\<rparr>)"
  shows "\<forall>u st. fold ra_command cs m u = Some st \<longrightarrow> P u st"
  using assms
proof (induction cs arbitrary: m)
  case (Cons c cs)
  have "\<forall>u st. ra_command c m u = Some st \<longrightarrow> P u st"
    using Cons.prems(1) Cons.prems(2) [of c] by (auto simp: ra_command_def)
  then have "\<forall>u st. fold ra_command cs (ra_command c m) u = Some st \<longrightarrow> P u st"
    by (rule Cons.IH) (use Cons.prems(2) in auto)
  then show ?case by simp
qed simp

lemma ra_step_justified:
  assumes "ra_justified evs s"
  shows "ra_justified (evs @ [ev]) (ra_step ev s)"
proof -
  let ?P = "\<lambda>u st. (cs_command_status st = Command_ACTIVATE \<longrightarrow> ra_approved u (evs @ [ev])) \<and>
    (cs_auto_mode st \<longrightarrow> RI_AutoMode True \<in> set (evs @ [ev])) \<and>
    cs_safe st = ra_reported_safe u (rev evs)"
  from assms have table: "\<forall>u st. ra_table s u = Some st \<longrightarrow> ?P u st"
    and stored: "\<forall>c \<in> set (ra_stored s). cm_command c = Command_ACTIVATE \<longrightarrow>
        ra_approved (cm_uuid c) (evs @ [ev])"
    and automode: "ra_auto s \<longrightarrow> RI_AutoMode True \<in> set (evs @ [ev])"
    unfolding ra_justified_def by (auto intro: ra_approved_snoc)
  have fold: "\<forall>u st. fold ra_command cs (ra_table s) u = Some st \<longrightarrow> ?P u st"
    if "\<forall>c \<in> set cs. cm_command c = Command_ACTIVATE \<longrightarrow> ra_approved (cm_uuid c) (evs @ [ev])" for cs
    using table that by (intro ra_fold_command_justified) auto
  show ?thesis
  proof (cases ev)
    case (RI_Commands cs)
    then have "\<forall>c \<in> set cs. cm_command c = Command_ACTIVATE \<longrightarrow> ra_approved (cm_uuid c) (evs @ [ev])"
      by (simp add: ra_approved_command)
    with fold [of cs] table stored automode RI_Commands show ?thesis
      by (simp add: ra_justified_def)
  next
    case (RI_Update v safe d1 d2 stamp)
    with table stored automode show ?thesis
      by (auto simp: ra_justified_def split: option.splits if_splits)
  next
    case RI_Unlock
    with fold [OF stored] stored automode show ?thesis by (simp add: ra_justified_def)
  next
    case (RI_Remove v)
    with table stored automode set_remove_first [of "\<lambda>c. cm_uuid c = v" "ra_stored s"] show ?thesis
      by (auto simp: ra_justified_def)
  qed (use table stored automode in \<open>auto simp: ra_justified_def\<close>)
qed

text \<open>C29: No instance of a module executes without a reason from outside: if an instance is activated
  after a sequence of calls of a new interface, then either an operator has at some time sent an
  ACTIVATE command for its uuid, or automatic mode has been enabled and the last safety its
  module reported is safe.\<close>

theorem rtc_activation_justified:
  assumes "ri_isActivated uuid (ri_run name evs)"
  shows "ra_approved uuid evs \<or> RI_AutoMode True \<in> set evs \<and> ra_reported_safe uuid (rev evs)"
proof -
  have "ra_justified evs (ra_run name evs)"
  proof (induction evs rule: rev_induct)
    case Nil
    show ?case by (simp add: ra_justified_def ra_run_def)
  next
    case (snoc ev evs)
    then show ?case using ra_step_justified [of evs "ra_run name evs" ev] by (simp add: ra_run_def)
  qed
  moreover from assms have "ra_activated uuid (ra_run name evs)"
    using ri_run_abs [of name evs] by (simp add: ri_activated_abs)
  ultimately show ?thesis by (auto simp: ra_justified_def ra_activated_def)
qed

theorem rtc_activation_justified_witness:
  "ra_approved [7] [RI_Update [7] False 0 0 0, RI_Commands [\<lparr>cm_uuid = [7],
       cm_module = Module_CROSSWALK, cm_command = Command_ACTIVATE\<rparr>]] \<or>
   RI_AutoMode True \<in> set [RI_Update [7] False 0 0 0, RI_Commands [\<lparr>cm_uuid = [7],
       cm_module = Module_CROSSWALK, cm_command = Command_ACTIVATE\<rparr>]] \<and>
   ra_reported_safe [7] (rev [RI_Update [7] False 0 0 0, RI_Commands [\<lparr>cm_uuid = [7],
       cm_module = Module_CROSSWALK, cm_command = Command_ACTIVATE\<rparr>]])"
  by (rule rtc_activation_justified [of _ "''crosswalk''"])
     (simp add: ri_run_def ri_init_def ri_isActivated_def ri_find_def ri_updateCooperateStatus_def
       ri_onCooperateCommandService_def ri_updateCooperateCommandStatus_def ri_write_command_def
       Let_def)

section \<open>Commands that come back\<close>

definition ri_last_command :: "uuid \<Rightarrow> cooperate_command list \<Rightarrow> rtc_command option" where
  "ri_last_command u cs = map_of (rev (map (\<lambda>c. (cm_uuid c, cm_command c)) cs)) u"

text \<open>The events that neither unregister the instance nor change the lock, and those of them that carry no command.\<close>

fun ri_undisturbed :: "uuid \<Rightarrow> ri_event \<Rightarrow> bool" where
  "ri_undisturbed u (RI_Remove v) \<longleftrightarrow> v \<noteq> u"
| "ri_undisturbed u RI_Clear \<longleftrightarrow> False"
| "ri_undisturbed u RI_Lock \<longleftrightarrow> False"
| "ri_undisturbed u RI_Unlock \<longleftrightarrow> False"
| "ri_undisturbed u _ \<longleftrightarrow> True"

fun ri_silent :: "ri_event \<Rightarrow> bool" where
  "ri_silent (RI_Commands cs) \<longleftrightarrow> False"
| "ri_silent _ \<longleftrightarrow> True"

lemma ri_find_written:
  "ri_find u (fold ri_write_command cs s) =
     (case ri_last_command u cs of
        None \<Rightarrow> ri_find u s
      | Some c \<Rightarrow> map_option (\<lambda>st. st\<lparr>cs_command_status := c, cs_auto_mode := False\<rparr>) (ri_find u s))"
  by (induction cs rule: rev_induct)
    (auto simp: ri_last_command_def ri_find_write_command map_option.compositionality o_def split: option.splits)

lemma ri_last_command_remove:
  "v \<noteq> u \<Longrightarrow> ri_last_command u (remove_first (\<lambda>c. cm_uuid c = v) cs) = ri_last_command u cs"
  by (induction cs) (auto simp: ri_last_command_def map_of_append map_add_def split: option.split)

text \<open>The command that waits to be written again.\<close>

definition ri_pending :: "uuid \<Rightarrow> rtc_command \<Rightarrow> ri_state \<Rightarrow> bool" where
  "ri_pending u c s \<longleftrightarrow> ri_find u s \<noteq> None \<and> ri_last_command u (ri_stored_commands s) = Some c"

lemma ri_find_frame:
  "ri_find u (s\<lparr>ri_stamp := t\<rparr>) = ri_find u s" "ri_find u (s\<lparr>ri_stored_commands := cs\<rparr>) = ri_find u s"
  "ri_find u (s\<lparr>ri_is_locked := b\<rparr>) = ri_find u s"
  by (simp_all add: ri_find_def)

lemma find_remove_other:
  "j \<noteq> k \<Longrightarrow> find (\<lambda>x. g x = k) (remove_first (\<lambda>x. g x = j) xs) = find (\<lambda>x. g x = k) xs"
  by (induction xs) auto

lemma ri_find_stable:
  assumes "ri_undisturbed u e" and "ri_find u s \<noteq> None"
  shows "ri_find u (ri_handle e s) \<noteq> None"
proof (cases e)
  case (RI_Commands cs)
  with assms(2) show ?thesis
    by (simp add: ri_onCooperateCommandService_def ri_updateCooperateCommandStatus_def Let_def ri_find_written
        ri_find_frame split: option.split)
next
  case (RI_Update v safe d1 d2 t)
  with assms(2) show ?thesis
    by (auto simp: ri_updateCooperateStatus_def ri_find_def find_key_append find_key_update split: option.splits)
next
  case (RI_Remove v)
  with assms show ?thesis
    by (simp add: ri_removeCooperateStatus_def ri_removeStoredCommand_def Let_def ri_find_def find_remove_other)
qed (use assms in \<open>auto simp: ri_publishCooperateStatus_def ri_find_frame ri_find_auto_mode\<close>)

lemma ri_pending_step:
  assumes "ri_undisturbed u e" and "ri_silent e \<or> \<not> ri_is_locked s" and "ri_pending u c s"
  shows "ri_pending u c (ri_handle e s) \<and> ri_is_locked (ri_handle e s) = ri_is_locked s"
proof -
  have "ri_find u (ri_handle e s) \<noteq> None"
    using ri_find_stable [OF assms(1)] assms(3) by (simp add: ri_pending_def)
  moreover have "ri_last_command u (ri_stored_commands (ri_handle e s)) = Some c \<and> ri_is_locked (ri_handle e s) = ri_is_locked s"
    using assms
    by (cases e) (auto simp: ri_pending_def ri_publishCooperateStatus_def ri_onCooperateCommandService_def Let_def
        ri_updateCooperateCommandStatus_def ri_onAutoModeService_def ri_updateCooperateStatus_def
        ri_removeCooperateStatus_def ri_removeStoredCommand_def ri_last_command_remove frame_simps)
  ultimately show ?thesis by (simp add: ri_pending_def)
qed

lemma ri_pending_run:
  assumes "\<forall>e \<in> set es. ri_undisturbed u e" and "(\<forall>e \<in> set es. ri_silent e) \<or> \<not> ri_is_locked s"
    and "ri_pending u c s"
  shows "ri_pending u c (fold ri_handle es s) \<and> ri_is_locked (fold ri_handle es s) = ri_is_locked s"
  using assms
proof (induction es arbitrary: s)
  case (Cons e es)
  then have "ri_pending u c (ri_handle e s) \<and> ri_is_locked (ri_handle e s) = ri_is_locked s"
    by (intro ri_pending_step) auto
  moreover have "(\<forall>x \<in> set es. ri_silent x) \<or> \<not> ri_is_locked (ri_handle e s)"
    using calculation Cons.prems(2) by auto
  ultimately show ?case using Cons.IH [of "ri_handle e s"] Cons.prems(1) by simp
qed simp

lemma ri_pending_unlock:
  assumes "ri_pending u c s"
  shows "ri_pending u c (ri_handle RI_Unlock s) \<and> \<not> ri_is_locked (ri_handle RI_Unlock s) \<and>
    (\<exists>st. ri_find u (ri_handle RI_Unlock s) = Some st \<and> \<not> cs_auto_mode st \<and> cs_command_status st = c)"
  using assms
  by (auto simp: ri_pending_def ri_unlockCommandUpdate_def ri_updateCooperateCommandStatus_def ri_find_written
      ri_find_frame frame_simps)

text \<open>C30: Unlocking does not forget the commands it applies. Take any state of the interface in which an instance is
  registered. The interface is locked, a request arrives whose last command for the instance is ACTIVATE, and the
  interface is unlocked. Then anything may happen except that the instance is removed, that the table is cleared and that the interface is
  locked again: other requests, changes of the automatic mode, updates of all instances.
  The operator withdraws the command with DEACTIVATE, and again anything may happen within these limits. When the
  interface is now locked, no request arrives while it is locked (and again nothing is removed or cleared), and it
  is unlocked, then the instance is activated, in manual mode, although the last command before may be the DEACTIVATE of the
  operator. With nothing after the DEACTIVATE the instance was not activated.\<close>

theorem rtc_unlock_replays_stale_command:
  assumes "ri_isRegistered u s" and "ri_last_command u request = Some Command_ACTIVATE"
    and "deactivate = \<lparr>cm_uuid = u, cm_module = m, cm_command = Command_DEACTIVATE\<rparr>"
    and "\<forall>e \<in> set (before @ after @ locked). ri_undisturbed u e" and "\<forall>e \<in> set locked. ri_silent e"
    and "s1 = fold ri_handle [RI_Lock, RI_Commands request, RI_Unlock] s"
    and "s2 = fold ri_handle (before @ [RI_Commands [deactivate]]) s1"
    and "s3 = fold ri_handle (after @ [RI_Lock] @ locked @ [RI_Unlock]) s2"
  shows "ri_isActivated u s1 \<and> \<not> ri_isActivated u s2 \<and> ri_isActivated u s3 \<and>
    (\<exists>st. ri_find u s3 = Some st \<and> \<not> cs_auto_mode st)"
proof -
  let ?held = "fold ri_handle [RI_Lock, RI_Commands request] s"
  have "ri_pending u Command_ACTIVATE ?held"
    using assms(1,2) by (simp add: ri_pending_def ri_isRegistered_def ri_lockCommandUpdate_def
      ri_onCooperateCommandService_def ri_find_def Let_def)
  from ri_pending_unlock [OF this]
  have s1: "ri_pending u Command_ACTIVATE s1" "\<not> ri_is_locked s1" "ri_isActivated u s1"
    by (auto simp: assms(6) ri_isActivated_def)
  let ?b = "fold ri_handle before s1"
  have b: "ri_pending u Command_ACTIVATE ?b" "\<not> ri_is_locked ?b"
    using ri_pending_run [of before u s1] s1 assms(4) by simp_all
  have s2: "ri_pending u Command_ACTIVATE s2" "\<not> ri_is_locked s2"
    using ri_pending_step [of u "RI_Commands [deactivate]" ?b] b by (simp_all add: assms(7))
  have "s2 = fold ri_write_command [deactivate] ?b"
    using b(2) by (simp add: assms(7) ri_onCooperateCommandService_def ri_updateCooperateCommandStatus_def Let_def)
  then have off: "\<not> ri_isActivated u s2"
    by (simp add: ri_isActivated_def ri_find_write_command assms(3) split: option.split)
  have "ri_pending u Command_ACTIVATE (fold ri_handle after s2)"
    using ri_pending_run [of after u s2] s2 assms(4) by simp
  then have "ri_pending u Command_ACTIVATE (fold ri_handle (after @ [RI_Lock]) s2)"
    by (simp add: ri_pending_def ri_lockCommandUpdate_def ri_find_def)
  then have "ri_pending u Command_ACTIVATE (fold ri_handle locked (fold ri_handle (after @ [RI_Lock]) s2))"
    using ri_pending_run [of locked u] assms(4,5) by simp
  from ri_pending_unlock [OF this] have "\<exists>st. ri_find u s3 = Some st \<and> \<not> cs_auto_mode st \<and> cs_command_status st = Command_ACTIVATE"
    by (simp add: assms(8))
  with s1(3) off show ?thesis by (auto simp: ri_isActivated_def)
qed

definition ri_ex_command :: "rtc_command \<Rightarrow> cooperate_command" where
  "ri_ex_command c = \<lparr>cm_uuid = [7], cm_module = Module_CROSSWALK, cm_command = c\<rparr>"

theorem rtc_unlock_replays_stale_command_witness:
  "ri_isActivated [7] (fold ri_handle ([RI_Update [7] False 3 5 2] @ [RI_Lock] @ [RI_Publish 2] @ [RI_Unlock])
     (fold ri_handle ([RI_AutoMode True] @ [RI_Commands [ri_ex_command Command_DEACTIVATE]])
       (fold ri_handle [RI_Lock, RI_Commands [ri_ex_command Command_ACTIVATE], RI_Unlock]
         (ri_run ''crosswalk'' [RI_Update [7] False 0 0 0]))))"
proof -
  have "ri_isRegistered [7] (ri_run ''crosswalk'' [RI_Update [7] False 0 0 0])"
    by (simp add: ri_run_def ri_init_def ri_isRegistered_def ri_find_def ri_updateCooperateStatus_def)
  from rtc_unlock_replays_stale_command [OF this _ ri_ex_command_def _ _ refl refl refl,
      of "[ri_ex_command Command_ACTIVATE]" "[RI_AutoMode True]" "[RI_Update [7] False 3 5 2]" "[RI_Publish 2]"]
  show ?thesis by (simp add: ri_last_command_def ri_ex_command_def)
qed

section \<open>Names and replay\<close>

text \<open>The string of a uuid determines it, so the replayer's map by strings is a map by uuids.\<close>

lemma ri_hex_digit_inj: "m < 16 \<Longrightarrow> n < 16 \<Longrightarrow> ri_hex_digit m = ri_hex_digit n \<Longrightarrow> m = n"
proof -
  have "distinct ''0123456789abcdef''" "length ''0123456789abcdef'' = 16" by simp_all
  then show "m < 16 \<Longrightarrow> n < 16 \<Longrightarrow> ri_hex_digit m = ri_hex_digit n \<Longrightarrow> m = n"
    unfolding ri_hex_digit_def by (metis nth_eq_iff_index_eq)
qed

lemma rp_to_string_inj: "length xs = length ys \<Longrightarrow> rp_to_string xs = rp_to_string ys \<Longrightarrow> xs = ys"
proof (induction xs ys rule: list_induct2)
  case (Cons x xs y ys)
  have small: "unat b div 16 < 16" "unat b mod 16 < 16" for b :: "8 word"
  proof -
    have "unat b < 256" using unsigned_less [of b] by simp
    then show "unat b div 16 < 16" "unat b mod 16 < 16" by simp_all
  qed
  from Cons.prems have "ri_hex_digit (unat x div 16) = ri_hex_digit (unat y div 16)"
    "ri_hex_digit (unat x mod 16) = ri_hex_digit (unat y mod 16)"
    and rest: "rp_to_string xs = rp_to_string ys"
    by (simp_all add: rp_to_string_def)
  then have "unat x div 16 = unat y div 16" "unat x mod 16 = unat y mod 16"
    using ri_hex_digit_inj small by metis+
  then have "unat x = unat y" by (metis div_mult_mod_eq)
  then have "x = y" by (rule unsigned_word_eqI)
  then show ?case using Cons.IH [OF rest] by simp
qed simp

text \<open>The names of the replayer are names of the interface.\<close>

lemma rp_getModuleName_type:
  "rp_getModuleName m \<noteq> ''NONE'' \<Longrightarrow> ri_getModuleType (rp_getModuleName m) = m"
  by (cases m) (simp_all add: ri_getModuleType_def)

text \<open>The replayer sends a command only for a status it has seen before with another command.\<close>

lemma rp_commands_changed:
  "c \<in> set (snd (snd (fold rp_status sts (prev, t, cs)))) \<Longrightarrow> c \<notin> set cs \<Longrightarrow>
     \<exists>st \<in> set sts. cm_uuid c = cs_uuid st \<and> cm_command c = cs_command_status st \<and>
       cm_module c = cs_module st"
proof (induction sts arbitrary: prev t cs)
  case (Cons st sts)
  show ?case
  proof (cases "c \<in> set (snd (snd (rp_status st (prev, t, cs))))")
    case True
    with Cons.prems show ?thesis by (auto simp: rp_status_def Let_def split: if_splits)
  next
    case False
    obtain prev1 t1 cs1 where r: "rp_status st (prev, t, cs) = (prev1, t1, cs1)" by (metis prod_cases3)
    with Cons.IH [of prev1 t1 cs1] Cons.prems False show ?thesis by auto
  qed
qed simp

end
