(* ===== verification/Velocity_Limit_Selector.thy ===== *)
theory Velocity_Limit_Selector
  imports AW_Msgs Registry
begin

text \<open>
  \<open>planning/external_velocity_limit_selector\<close>: collects velocity limits by sender and publishes the
  hardest of them.  The hash map is a list of its entries in the order of iteration; where an
  insertion puts a new entry is not determined by the code and no theorem depends on it.  \<open>fl\<close> is
  the rounding of a double to the 32-bit fields of the message.  The debug string is left out.
\<close>

record vl_param =
  vlp_max_velocity :: real
  vlp_normal_min_acc :: real
  vlp_normal_min_jerk :: real
  vlp_normal_max_jerk :: real

type_synonym vl_table = "(string \<times> velocity_limit) list"

record vl_state =
  vls_hardest_limit :: velocity_limit
  vls_table :: vl_table

definition vl_init :: vl_state where
  "vl_init = \<lparr>vls_hardest_limit = velocity_limit_new, vls_table = []\<rparr>"

text \<open>The body of the loop; the accumulator holds the limit and the two doubles it is compared by.\<close>

definition vl_harder ::
  "(real \<Rightarrow> real) \<Rightarrow> vl_param \<Rightarrow> string \<times> velocity_limit \<Rightarrow> velocity_limit \<times> real \<times> real \<Rightarrow>
     velocity_limit \<times> real \<times> real" where
  "vl_harder fl p limit acc =
     (let (hardest_limit, hardest_max_velocity, hardest_max_jerk) = acc;
          max_velocity =
            (case vl_max_velocity (snd limit) of Fin v \<Rightarrow> v | _ \<Rightarrow> vlp_max_velocity p);
          (hl1, hv1) =
            (if max_velocity < hardest_max_velocity
             then (hardest_limit\<lparr>vl_stamp := vl_stamp (snd limit),
                     vl_max_velocity := Fin (fl max_velocity)\<rparr>, max_velocity)
             else (hardest_limit, hardest_max_velocity));
          constraints =
            (if vl_use_constraints (snd limit) \<and>
                flt_isfinite (vc_max_jerk (vl_constraints (snd limit)))
             then vl_constraints (snd limit)
             else \<lparr>vc_min_acceleration = Fin (fl (vlp_normal_min_acc p)),
                    vc_min_jerk = Fin (fl (vlp_normal_min_jerk p)),
                    vc_max_jerk = Fin (fl (vlp_normal_max_jerk p))\<rparr>)
      in case vc_max_jerk constraints of
           Fin j \<Rightarrow>
             if hardest_max_jerk < j
             then (hl1\<lparr>vl_constraints := constraints, vl_use_constraints := True\<rparr>, hv1, j)
             else (hl1, hv1, hardest_max_jerk)
         | _ \<Rightarrow> (hl1, hv1, hardest_max_jerk))"

definition vl_getHardestLimit :: "(real \<Rightarrow> real) \<Rightarrow> vl_param \<Rightarrow> vl_table \<Rightarrow> velocity_limit" where
  "vl_getHardestLimit fl p limits =
     fst (fold (vl_harder fl p) limits
       (velocity_limit_new\<lparr>vl_max_velocity := Fin (fl (vlp_max_velocity p))\<rparr>,
        vlp_max_velocity p, 0))"

definition vl_updateVelocityLimit :: "(real \<Rightarrow> real) \<Rightarrow> vl_param \<Rightarrow> time \<Rightarrow> vl_state \<Rightarrow> vl_state" where
  "vl_updateVelocityLimit fl p t s =
     (if vls_table s = []
      then s\<lparr>vls_hardest_limit := velocity_limit_new
             \<lparr>vl_stamp := t, vl_max_velocity := Fin (fl (vlp_max_velocity p))\<rparr>\<rparr>
      else s\<lparr>vls_hardest_limit := vl_getHardestLimit fl p (vls_table s)\<rparr>)"

definition vl_table_set :: "string \<Rightarrow> velocity_limit \<Rightarrow> vl_table \<Rightarrow> vl_table" where
  "vl_table_set sender limit table =
     (if sender \<notin> fst ` set table then table @ [(sender, limit)]
      else update_first (\<lambda>e. fst e = sender) (\<lambda>e. (fst e, limit)) table)"

definition vl_setVelocityLimitFromAPI ::
  "(real \<Rightarrow> real) \<Rightarrow> vl_param \<Rightarrow> time \<Rightarrow> velocity_limit \<Rightarrow> vl_state \<Rightarrow> vl_state" where
  "vl_setVelocityLimitFromAPI fl p t limit s =
     vl_updateVelocityLimit fl p t (s\<lparr>vls_table := vl_table_set ''api'' limit (vls_table s)\<rparr>)"

definition vl_setVelocityLimitFromInternal ::
  "(real \<Rightarrow> real) \<Rightarrow> vl_param \<Rightarrow> time \<Rightarrow> velocity_limit \<Rightarrow> vl_state \<Rightarrow> vl_state" where
  "vl_setVelocityLimitFromInternal fl p t limit s =
     vl_updateVelocityLimit fl p t
       (s\<lparr>vls_table := vl_table_set (vl_sender limit) limit (vls_table s)\<rparr>)"

definition vl_table_erase :: "string \<Rightarrow> vl_table \<Rightarrow> vl_table" where
  "vl_table_erase sender table = remove_first (\<lambda>e. fst e = sender) table"

definition vl_clearVelocityLimit ::
  "(real \<Rightarrow> real) \<Rightarrow> vl_param \<Rightarrow> time \<Rightarrow> string \<Rightarrow> vl_state \<Rightarrow> vl_state" where
  "vl_clearVelocityLimit fl p t sender s =
     (if vls_table s = [] then s
      else vl_updateVelocityLimit fl p t (s\<lparr>vls_table := vl_table_erase sender (vls_table s)\<rparr>))"

definition vl_onVelocityLimitFromAPI ::
  "(real \<Rightarrow> real) \<Rightarrow> vl_param \<Rightarrow> time \<Rightarrow> velocity_limit \<Rightarrow> vl_state \<Rightarrow> vl_state \<times> velocity_limit list" where
  "vl_onVelocityLimitFromAPI fl p t msg s =
     (let s1 = vl_setVelocityLimitFromAPI fl p t msg s in (s1, [vls_hardest_limit s1]))"

definition vl_onVelocityLimitFromInternal ::
  "(real \<Rightarrow> real) \<Rightarrow> vl_param \<Rightarrow> time \<Rightarrow> velocity_limit \<Rightarrow> vl_state \<Rightarrow> vl_state \<times> velocity_limit list" where
  "vl_onVelocityLimitFromInternal fl p t msg s =
     (let s1 = vl_setVelocityLimitFromInternal fl p t msg s in (s1, [vls_hardest_limit s1]))"

definition vl_onVelocityLimitClearCommand ::
  "(real \<Rightarrow> real) \<Rightarrow> vl_param \<Rightarrow> time \<Rightarrow> velocity_limit_clear \<Rightarrow> vl_state \<Rightarrow>
     vl_state \<times> velocity_limit list" where
  "vl_onVelocityLimitClearCommand fl p t msg s =
     (if \<not> vk_command msg then (s, [])
      else (let s1 = vl_clearVelocityLimit fl p t (vk_sender msg) s in (s1, [vls_hardest_limit s1])))"

datatype vl_event =
    VL_FromAPI velocity_limit
  | VL_FromInternal velocity_limit
  | VL_Clear velocity_limit_clear

fun vl_handle ::
  "(real \<Rightarrow> real) \<Rightarrow> vl_param \<Rightarrow> time \<Rightarrow> vl_event \<Rightarrow> vl_state \<Rightarrow> vl_state \<times> velocity_limit list" where
  "vl_handle fl p t (VL_FromAPI msg) s = vl_onVelocityLimitFromAPI fl p t msg s"
| "vl_handle fl p t (VL_FromInternal msg) s = vl_onVelocityLimitFromInternal fl p t msg s"
| "vl_handle fl p t (VL_Clear msg) s = vl_onVelocityLimitClearCommand fl p t msg s"

fun vl_run ::
  "(real \<Rightarrow> real) \<Rightarrow> vl_param \<Rightarrow> (time \<times> vl_event) list \<Rightarrow> vl_state \<Rightarrow> vl_state \<times> velocity_limit list" where
  "vl_run fl p [] s = (s, [])"
| "vl_run fl p ((t, ev) # evs) s =
     (let (s1, o1) = vl_handle fl p t ev s; (s2, o2) = vl_run fl p evs s1 in (s2, o1 @ o2))"

section \<open>The table\<close>

definition vl_table_ok :: "vl_table \<Rightarrow> bool" where
  "vl_table_ok table \<longleftrightarrow> distinct (map fst table)"

definition vl_lookup :: "vl_table \<Rightarrow> string \<Rightarrow> velocity_limit option" where
  "vl_lookup table k = map_option snd (find (\<lambda>e. fst e = k) table)"

interpretation vl_limits: registry
  vl_lookup vl_table_set vl_table_erase "\<lambda>table k limit. limit" "\<lambda>k limit old. limit" vl_table_ok
proof unfold_locales
  fix table :: vl_table and k j :: string and limit :: velocity_limit
  assume ok: "vl_table_ok table"
  have mem: "k \<in> fst ` set table \<longleftrightarrow> find (\<lambda>e. fst e = k) table \<noteq> None"
    by (simp add: find_key_None)
  show "vl_lookup (vl_table_set k limit table) j =
      (if j = k then Some (case vl_lookup table k of None \<Rightarrow> limit | Some v \<Rightarrow> limit)
       else vl_lookup table j)"
    using mem
    by (auto simp: vl_lookup_def vl_table_set_def find_key_update find_key_append split: option.split)
  show "vl_lookup (vl_table_erase k table) j = (if j = k then None else vl_lookup table j)"
    using ok by (simp add: vl_lookup_def vl_table_erase_def vl_table_ok_def find_remove_first)
  show "vl_table_ok (vl_table_set k limit table)"
    using ok by (auto simp: vl_table_ok_def vl_table_set_def map_update_first)
  show "vl_table_ok (vl_table_erase k table)"
    using ok by (simp add: vl_table_ok_def vl_table_erase_def distinct_remove_first)
qed

lemma vl_lookup_mem: "vl_lookup table k = Some limit \<Longrightarrow> (k, limit) \<in> set table"
  by (auto simp: vl_lookup_def dest: find_key_Some)

section \<open>The hardest limit\<close>

definition vl_velocity :: "vl_param \<Rightarrow> velocity_limit \<Rightarrow> real" where
  "vl_velocity p limit = (case vl_max_velocity limit of Fin v \<Rightarrow> v | _ \<Rightarrow> vlp_max_velocity p)"

text \<open>The velocity the loop keeps is the minimum, and the limit carries it.\<close>

lemma vl_harder_velocity:
  assumes "vl_max_velocity hl = Fin (fl hv)"
  shows "\<exists>hl' hj'. vl_harder fl p limit (hl, hv, hj) = (hl', min (vl_velocity p (snd limit)) hv, hj') \<and>
    vl_max_velocity hl' = Fin (fl (min (vl_velocity p (snd limit)) hv))"
  using assms
  by (auto simp: vl_harder_def vl_velocity_def Let_def min_def split: flt.split)

lemma vl_fold_velocity:
  "vl_max_velocity hl = Fin (fl hv) \<Longrightarrow>
   vl_max_velocity (fst (fold (vl_harder fl p) limits (hl, hv, hj))) =
     Fin (fl (fold (\<lambda>e. min (vl_velocity p (snd e))) limits hv))"
proof (induction limits arbitrary: hl hv hj)
  case (Cons e limits)
  obtain hl' hj' where h: "vl_harder fl p e (hl, hv, hj) = (hl', min (vl_velocity p (snd e)) hv, hj')"
      "vl_max_velocity hl' = Fin (fl (min (vl_velocity p (snd e)) hv))"
    using vl_harder_velocity [of hl fl hv, OF Cons.prems] by blast
  then show ?case using Cons.IH [OF h(2)] by simp
qed simp

lemma fold_min_Min:
  "fold (\<lambda>e. min (f e)) xs (a :: real) = Min (insert a (f ` set xs))"
proof (induction xs arbitrary: a)
  case (Cons x xs)
  have "Min (insert (min (f x) a) (f ` set xs)) = Min (insert (f x) (insert a (f ` set xs)))"
    by (cases "set xs = {}") (simp_all add: Min_insert min.assoc)
  with Cons.IH show ?case by (simp add: insert_commute)
qed simp

lemma vl_hardest_velocity:
  "vl_max_velocity (vl_getHardestLimit fl p limits) =
     Fin (fl (Min (insert (vlp_max_velocity p) (vl_velocity p ` snd ` set limits))))"
  using vl_fold_velocity [of "velocity_limit_new\<lparr>vl_max_velocity := Fin (fl (vlp_max_velocity p))\<rparr>"
      fl "vlp_max_velocity p" p limits 0] fold_min_Min [of "\<lambda>e. vl_velocity p (snd e)" limits]
  by (simp add: vl_getHardestLimit_def image_image)

text \<open>The order of iteration does not matter for the velocity.\<close>

lemma vl_hardest_velocity_order:
  "set limits = set limits' \<Longrightarrow>
     vl_max_velocity (vl_getHardestLimit fl p limits) = vl_max_velocity (vl_getHardestLimit fl p limits')"
  by (simp add: vl_hardest_velocity)

section \<open>A limit holds until its sender withdraws it\<close>

fun vl_touches :: "string \<Rightarrow> vl_event \<Rightarrow> bool" where
  "vl_touches x (VL_FromAPI msg) = (x = ''api'')"
| "vl_touches x (VL_FromInternal msg) = (x = vl_sender msg)"
| "vl_touches x (VL_Clear msg) = (vk_command msg \<and> x = vk_sender msg)"

definition vl_below :: "(real \<Rightarrow> real) \<Rightarrow> real \<Rightarrow> velocity_limit \<Rightarrow> bool" where
  "vl_below fl v limit \<longleftrightarrow> (\<exists>w \<le> v. vl_max_velocity limit = Fin (fl w))"

definition vl_holds :: "string \<Rightarrow> velocity_limit \<Rightarrow> vl_state \<Rightarrow> bool" where
  "vl_holds x limit s \<longleftrightarrow> vl_table_ok (vls_table s) \<and> vl_lookup (vls_table s) x = Some limit"

lemma vl_update_below:
  assumes "vl_holds x limit s" and "vl_max_velocity limit = Fin v"
  shows "vl_below fl v (vls_hardest_limit (vl_updateVelocityLimit fl p t s)) \<and>
    vls_table (vl_updateVelocityLimit fl p t s) = vls_table s"
proof -
  from assms(1) have mem: "(x, limit) \<in> set (vls_table s)"
    by (auto simp: vl_holds_def dest: vl_lookup_mem)
  let ?V = "insert (vlp_max_velocity p) (vl_velocity p ` snd ` set (vls_table s))"
  have "v \<in> ?V" using mem assms(2) by (force simp: vl_velocity_def image_iff)
  then have "Min ?V \<le> v" by (intro Min_le) simp_all
  with mem show ?thesis
    by (auto simp: vl_updateVelocityLimit_def vl_below_def vl_hardest_velocity)
qed

lemma vl_handle_holds:
  assumes "vl_holds x limit s" and "vl_max_velocity limit = Fin v" and "\<not> vl_touches x ev"
  shows "vl_holds x limit (fst (vl_handle fl p t ev s)) \<and>
    (\<forall>l \<in> set (snd (vl_handle fl p t ev s)). vl_below fl v l)"
proof -
  have step: "vl_holds x limit (vl_updateVelocityLimit fl p t (s\<lparr>vls_table := tab\<rparr>)) \<and>
      vl_below fl v (vls_hardest_limit (vl_updateVelocityLimit fl p t (s\<lparr>vls_table := tab\<rparr>)))"
    if "vl_table_ok tab" "vl_lookup tab x = Some limit" for tab
    using vl_update_below [of x limit "s\<lparr>vls_table := tab\<rparr>" v fl p t] that assms(2)
    by (simp add: vl_holds_def)
  from assms(1) have ok: "vl_table_ok (vls_table s)" "vl_lookup (vls_table s) x = Some limit"
    by (simp_all add: vl_holds_def)
  then have "vls_table s \<noteq> []" by (auto simp: vl_lookup_def)
  with assms ok show ?thesis
    by (cases ev)
       (auto simp: vl_onVelocityLimitFromAPI_def vl_onVelocityLimitFromInternal_def
         vl_onVelocityLimitClearCommand_def vl_setVelocityLimitFromAPI_def
         vl_setVelocityLimitFromInternal_def vl_clearVelocityLimit_def Let_def
         intro!: step [THEN conjunct1] step [THEN conjunct2]
         simp: vl_limits.ok_upsert vl_limits.ok_remove vl_limits.lookup_upsert vl_limits.lookup_remove)
qed

lemma vl_run_holds:
  assumes "vl_holds x limit s" and "vl_max_velocity limit = Fin v" and
    "\<forall>(t, ev) \<in> set evs. \<not> vl_touches x ev"
  shows "\<forall>l \<in> set (snd (vl_run fl p evs s)). vl_below fl v l"
  using assms
proof (induction evs arbitrary: s)
  case (Cons e evs)
  obtain t ev where e: "e = (t, ev)" by fastforce
  obtain s1 o1 where h: "vl_handle fl p t ev s = (s1, o1)" by fastforce
  obtain s2 o2 where r: "vl_run fl p evs s1 = (s2, o2)" by fastforce
  from vl_handle_holds [OF Cons.prems(1,2), of ev fl p t] Cons.prems(3) e h
  have "vl_holds x limit s1" "\<forall>l \<in> set o1. vl_below fl v l" by auto
  with Cons.IH [of s1] Cons.prems e h r show ?case by auto
qed simp

text \<open>A velocity limit holds until its own sender replaces or withdraws it: from the moment an
  internal module has set a limit with a finite velocity, every limit the node publishes,
  whatever limits other senders set and clear in between, is at most this velocity (rounded to
  the message field).\<close>

theorem vl_limit_holds_until_cleared:
  assumes "vl_table_ok (vls_table s)" and "vl_max_velocity limit = Fin v"
    and "\<forall>(t, ev) \<in> set evs. \<not> vl_touches (vl_sender limit) ev"
    and "out \<in> set (snd (vl_run fl p ((u, VL_FromInternal limit) # evs) s))"
  shows "\<exists>w \<le> v. vl_max_velocity out = Fin (fl w)"
proof -
  let ?tab = "vl_table_set (vl_sender limit) limit (vls_table s)"
  let ?s1 = "fst (vl_handle fl p u (VL_FromInternal limit) s)"
  have tab: "vl_holds (vl_sender limit) limit (s\<lparr>vls_table := ?tab\<rparr>)"
    using assms(1) by (simp add: vl_holds_def vl_limits.ok_upsert vl_limits.lookup_upsert
        split: option.split)
  have s1: "?s1 = vl_updateVelocityLimit fl p u (s\<lparr>vls_table := ?tab\<rparr>)"
    "snd (vl_handle fl p u (VL_FromInternal limit) s) = [vls_hardest_limit ?s1]"
    by (simp_all add: vl_onVelocityLimitFromInternal_def vl_setVelocityLimitFromInternal_def Let_def)
  from vl_update_below [OF tab assms(2), of fl p u] tab
  have "vl_below fl v (vls_hardest_limit ?s1)" "vl_holds (vl_sender limit) limit ?s1"
    unfolding s1(1) by (simp_all add: vl_holds_def)
  with vl_run_holds [OF this(2) assms(2,3)] assms(4) s1(2) show ?thesis
    by (auto simp: vl_below_def case_prod_beta)
qed

definition vl_ex_param :: vl_param where
  "vl_ex_param =
     \<lparr>vlp_max_velocity = 20, vlp_normal_min_acc = -1, vlp_normal_min_jerk = -1,
      vlp_normal_max_jerk = 1\<rparr>"

definition vl_ex_stop :: velocity_limit where
  "vl_ex_stop = velocity_limit_new\<lparr>vl_sender := ''mrm''\<rparr>"

theorem vl_limit_holds_until_cleared_witness:
  "\<exists>w \<le> 0. vl_max_velocity (last (snd (vl_run (\<lambda>x. x) vl_ex_param
      [(0, VL_FromInternal vl_ex_stop), (1, VL_FromAPI (velocity_limit_new\<lparr>vl_max_velocity := Fin 10\<rparr>))]
      vl_init))) = Fin w"
  by (rule vl_limit_holds_until_cleared
        [where s = vl_init and limit = vl_ex_stop and fl = "\<lambda>x. x" and p = vl_ex_param and u = 0 and
          evs = "[(1, VL_FromAPI (velocity_limit_new\<lparr>vl_max_velocity := Fin 10\<rparr>))]"])
     (simp_all add: vl_init_def vl_table_ok_def vl_ex_stop_def velocity_limit_new_def case_prod_beta
       vl_onVelocityLimitFromAPI_def vl_onVelocityLimitFromInternal_def Let_def)

text \<open>A clear command that arrives before any limit publishes the limit the node was created with: zero.\<close>

lemma vl_clear_before_any_limit:
  "vk_command msg \<Longrightarrow> vl_handle fl p t (VL_Clear msg) vl_init = (vl_init, [velocity_limit_new]) \<and>
     vl_max_velocity velocity_limit_new = Fin 0"
  by (simp add: vl_onVelocityLimitClearCommand_def vl_clearVelocityLimit_def vl_init_def
      velocity_limit_new_def)

end
