(* ===== verification/Interpolation.thy ===== *)
theory Interpolation
  imports AW_Prelude
begin

text \<open>
  \<open>common/interpolation\<close>: validation of keys, linear interpolation and zero-order hold over sorted
  keys.  Doubles are real numbers.  The exceptions the functions throw are values: the
  \<open>std::invalid_argument\<close> of each check and the \<open>std::out_of_range\<close> of \<open>std::vector::at\<close>.
  \<open>IP_EmptyFront\<close> stands for \<open>front\<close> of an empty vector, which is undefined in C++.
\<close>

datatype ip_error =
    IP_PointsEmpty
  | IP_SizeLessThan2
  | IP_NotSorted
  | IP_QueryOutOfBase
  | IP_SizesDiffer
  | IP_OutOfRange
  | IP_EmptyFront
  | IP_NotEnoughUniquePoints

section \<open>Validation\<close>

fun ip_increasing :: "real list \<Rightarrow> bool" where
  "ip_increasing (x # y # zs) = (if y \<le> x then False else ip_increasing (y # zs))"
| "ip_increasing _ = True"

fun ip_not_decreasing :: "real list \<Rightarrow> bool" where
  "ip_not_decreasing (x # y # zs) = (if y < x then False else ip_not_decreasing (y # zs))"
| "ip_not_decreasing _ = True"

definition ip_isIncreasing :: "real list \<Rightarrow> ip_error + bool" where
  "ip_isIncreasing x = (if x = [] then Inl IP_PointsEmpty else Inr (ip_increasing x))"

definition ip_isNotDecreasing :: "real list \<Rightarrow> ip_error + bool" where
  "ip_isNotDecreasing x = (if x = [] then Inl IP_PointsEmpty else Inr (ip_not_decreasing x))"

definition ip_crop :: "real list \<Rightarrow> real list \<Rightarrow> real list" where
  "ip_crop base_keys query_keys =
     (let qs1 = query_keys[0 := max (hd query_keys) (hd base_keys)]
      in qs1[length qs1 - 1 := min (last qs1) (last base_keys)])"

definition ip_validateKeys :: "real list \<Rightarrow> real list \<Rightarrow> ip_error + real list" where
  "ip_validateKeys base_keys query_keys =
     (if base_keys = [] \<or> query_keys = [] then Inl IP_PointsEmpty
      else if length base_keys < 2 then Inl IP_SizeLessThan2
      else err_bind (ip_isIncreasing base_keys) (\<lambda>inc.
        if \<not> inc then Inl IP_NotSorted
        else err_bind (ip_isNotDecreasing query_keys) (\<lambda>nd.
          if \<not> nd then Inl IP_NotSorted
          else if hd query_keys < hd base_keys - 1 / 1000 \<or>
                  last base_keys + 1 / 1000 < last query_keys
          then Inl IP_QueryOutOfBase
          else Inr (ip_crop base_keys query_keys))))"

definition ip_validateKeysAndValues :: "real list \<Rightarrow> 'a list \<Rightarrow> ip_error + unit" where
  "ip_validateKeysAndValues base_keys base_values =
     (if base_keys = [] \<or> base_values = [] then Inl IP_PointsEmpty
      else if length base_keys < 2 \<or> length base_values < 2 then Inl IP_SizeLessThan2
      else if length base_keys \<noteq> length base_values then Inl IP_SizesDiffer
      else Inr ())"

section \<open>Linear interpolation\<close>

text \<open>\<open>while (base_keys.at(j + 1) < query_key) { ++j; }\<close>\<close>

function ip_advance :: "real list \<Rightarrow> real \<Rightarrow> nat \<Rightarrow> ip_error + nat" where
  "ip_advance base_keys query_key j =
     (if j + 1 < length base_keys
      then (if base_keys ! (j + 1) < query_key then ip_advance base_keys query_key (j + 1) else Inr j)
      else Inl IP_OutOfRange)"
  by auto
termination by (relation "measure (\<lambda>(keys, q, j). length keys - j)") auto

declare ip_advance.simps [simp del]

text \<open>A loop over sorted queries that keeps the segment it has reached.\<close>

fun ip_loop :: "(nat \<Rightarrow> real \<Rightarrow> 'a) \<Rightarrow> real list \<Rightarrow> nat \<Rightarrow> real list \<Rightarrow> ip_error + 'a list" where
  "ip_loop f base_keys j [] = Inr []"
| "ip_loop f base_keys j (q # qs) =
     err_bind (ip_advance base_keys q j) (\<lambda>k.
       err_bind (ip_loop f base_keys k qs) (\<lambda>rs. Inr (f k q # rs)))"

definition ip_lerp_ratio :: "real \<Rightarrow> real \<Rightarrow> real \<Rightarrow> real" where
  "ip_lerp_ratio src_val dst_val ratio = src_val + (dst_val - src_val) * ratio"

definition ip_lerp_at :: "real list \<Rightarrow> real list \<Rightarrow> nat \<Rightarrow> real \<Rightarrow> real" where
  "ip_lerp_at base_keys base_values j query_key =
     (let src_val = base_values ! j; dst_val = base_values ! (j + 1);
          ratio = (query_key - base_keys ! j) / (base_keys ! (j + 1) - base_keys ! j)
      in ip_lerp_ratio src_val dst_val ratio)"

definition ip_lerp :: "real list \<Rightarrow> real list \<Rightarrow> real list \<Rightarrow> ip_error + real list" where
  "ip_lerp base_keys base_values query_keys =
     err_bind (ip_validateKeys base_keys query_keys) (\<lambda>validated_query_keys.
       err_bind (ip_validateKeysAndValues base_keys base_values) (\<lambda>_.
         ip_loop (ip_lerp_at base_keys base_values) base_keys 0 validated_query_keys))"

definition ip_lerp1 :: "real list \<Rightarrow> real list \<Rightarrow> real \<Rightarrow> ip_error + real" where
  "ip_lerp1 base_keys base_values query_key =
     err_bind (ip_lerp base_keys base_values [query_key]) (\<lambda>r. Inr (hd r))"

text \<open>
  The interpolation of orientations.  The interpolation of two quaternions, \<open>tf2::slerp\<close>, is not part
  of this repository and a parameter.
\<close>

definition ip_slerp_at ::
  "('q \<Rightarrow> 'q \<Rightarrow> real \<Rightarrow> 'q) \<Rightarrow> real list \<Rightarrow> 'q list \<Rightarrow> nat \<Rightarrow> real \<Rightarrow> 'q" where
  "ip_slerp_at tf2_slerp base_keys base_values j query_key =
     (let src_quat = base_values ! j; dst_quat = base_values ! (j + 1);
          ratio = (query_key - base_keys ! j) / (base_keys ! (j + 1) - base_keys ! j)
      in tf2_slerp src_quat dst_quat ratio)"

definition ip_slerp ::
  "('q \<Rightarrow> 'q \<Rightarrow> real \<Rightarrow> 'q) \<Rightarrow> real list \<Rightarrow> 'q list \<Rightarrow> real list \<Rightarrow> ip_error + 'q list" where
  "ip_slerp tf2_slerp base_keys base_values query_keys =
     err_bind (ip_validateKeys base_keys query_keys) (\<lambda>validated_query_keys.
       err_bind (ip_validateKeysAndValues base_keys base_values) (\<lambda>_.
         ip_loop (ip_slerp_at tf2_slerp base_keys base_values) base_keys 0 validated_query_keys))"

section \<open>Zero-order hold\<close>

text \<open>The inner loop, downwards from \<open>j\<close> to the segment reached so far.\<close>

fun ip_search_down :: "real list \<Rightarrow> real \<Rightarrow> real \<Rightarrow> nat \<Rightarrow> nat \<Rightarrow> nat" where
  "ip_search_down base_keys overlap_threshold q idx 0 = idx"
| "ip_search_down base_keys overlap_threshold q idx (Suc j) =
     (if \<not> idx < Suc j then idx
      else if base_keys ! j - overlap_threshold < q \<and> q < base_keys ! (Suc j) then j
      else ip_search_down base_keys overlap_threshold q idx j)"

fun ip_closest_loop :: "real list \<Rightarrow> real \<Rightarrow> nat \<Rightarrow> real list \<Rightarrow> nat list" where
  "ip_closest_loop base_keys overlap_threshold idx [] = []"
| "ip_closest_loop base_keys overlap_threshold idx (q # qs) =
     (let idx1 = (if last base_keys - overlap_threshold < q then length base_keys - 1
                  else ip_search_down base_keys overlap_threshold q idx (length base_keys - 1))
      in idx1 # ip_closest_loop base_keys overlap_threshold idx1 qs)"

definition ip_calc_closest_segment_indices ::
  "real list \<Rightarrow> real list \<Rightarrow> real \<Rightarrow> ip_error + nat list" where
  "ip_calc_closest_segment_indices base_keys query_keys overlap_threshold =
     err_bind (ip_validateKeys base_keys query_keys) (\<lambda>validated_query_keys.
       Inr (ip_closest_loop base_keys overlap_threshold 0 validated_query_keys))"

definition ip_hold_at :: "real list \<Rightarrow> 'a list \<Rightarrow> nat list \<Rightarrow> ip_error + 'a list" where
  "ip_hold_at base_keys base_values indices =
     err_bind (ip_validateKeysAndValues base_keys base_values) (\<lambda>_.
       if list_all (\<lambda>i. i < length base_values) indices
       then Inr (map (\<lambda>i. base_values ! i) indices) else Inl IP_OutOfRange)"

definition ip_zero_order_hold ::
  "real list \<Rightarrow> 'a list \<Rightarrow> real list \<Rightarrow> real \<Rightarrow> ip_error + 'a list" where
  "ip_zero_order_hold base_keys base_values query_keys overlap_threshold =
     err_bind (ip_calc_closest_segment_indices base_keys query_keys overlap_threshold)
       (ip_hold_at base_keys base_values)"

section \<open>Sorted keys\<close>

lemma ip_increasing_sorted: "ip_increasing xs \<longleftrightarrow> sorted_wrt (<) xs"
proof (induction xs rule: ip_increasing.induct)
  case (1 x y zs)
  show ?case
  proof (cases "y \<le> x")
    case False
    with 1 show ?thesis by (fastforce simp del: sorted_wrt.simps simp: sorted_wrt2)
  qed auto
qed simp_all

lemma ip_not_decreasing_sorted: "ip_not_decreasing xs \<longleftrightarrow> sorted xs"
proof (induction xs rule: ip_not_decreasing.induct)
  case (1 x y zs)
  then show ?case by (cases "y < x") (auto simp: sorted2 simp del: sorted_wrt.simps)
qed simp_all

lemma increasing_nth_less:
  "ip_increasing xs \<Longrightarrow> i < j \<Longrightarrow> j < length xs \<Longrightarrow> xs ! i < xs ! j"
  by (simp add: ip_increasing_sorted sorted_wrt_nth_less)

lemma increasing_nth_mono:
  "ip_increasing xs \<Longrightarrow> i \<le> j \<Longrightarrow> j < length xs \<Longrightarrow> xs ! i \<le> xs ! j"
  by (cases "i = j") (auto dest: increasing_nth_less [of xs i j])

lemma increasing_nth_less_iff:
  "ip_increasing xs \<Longrightarrow> i < length xs \<Longrightarrow> j < length xs \<Longrightarrow> xs ! i < xs ! j \<longleftrightarrow> i < j"
  using increasing_nth_less [of xs i j] increasing_nth_mono [of xs j i]
  by (metis not_le order.strict_iff_not)

section \<open>The segment of a query\<close>

text \<open>\<open>k\<close> is a segment of the keys that holds the query.\<close>

definition ip_segment :: "real list \<Rightarrow> real \<Rightarrow> nat \<Rightarrow> bool" where
  "ip_segment base_keys q k \<longleftrightarrow>
     k + 1 < length base_keys \<and> base_keys ! k \<le> q \<and> q \<le> base_keys ! (k + 1)"

lemma ip_advance_segment:
  assumes "j + 1 < length base_keys" and "base_keys ! j \<le> q" and "q \<le> last base_keys"
  shows "\<exists>k. ip_advance base_keys q j = Inr k \<and> j \<le> k \<and> ip_segment base_keys q k"
  using assms
proof (induction base_keys q j rule: ip_advance.induct)
  case (1 base_keys q j)
  show ?case
  proof (cases "base_keys ! (j + 1) < q")
    case True
    have "last base_keys = base_keys ! (length base_keys - 1)"
      using "1.prems"(1) by (intro last_conv_nth) auto
    with "1.prems" True have "j + 1 \<noteq> length base_keys - 1" by auto
    with "1.prems" have "j + 1 + 1 < length base_keys" by linarith
    with "1.IH" [OF "1.prems"(1) True] True "1.prems" obtain k
      where "ip_advance base_keys q (j + 1) = Inr k" "j + 1 \<le> k" "ip_segment base_keys q k" by auto
    with True "1.prems"(1) show ?thesis
      by (intro exI [of _ k]) (simp add: ip_advance.simps [of base_keys q j])
  next
    case False
    with "1.prems" show ?thesis
      by (intro exI [of _ j]) (simp add: ip_advance.simps [of base_keys q j] ip_segment_def)
  qed
qed

lemma ip_loop_segments:
  assumes "sorted qs" and "\<forall>q \<in> set qs. base_keys ! j \<le> q \<and> q \<le> last base_keys"
    and "j + 1 < length base_keys"
  shows "\<exists>rs. ip_loop f base_keys j qs = Inr rs \<and>
    list_all2 (\<lambda>q r. \<exists>k. ip_segment base_keys q k \<and> r = f k q) qs rs"
  using assms
proof (induction qs arbitrary: j)
  case (Cons q qs)
  then obtain k where k: "ip_advance base_keys q j = Inr k" "ip_segment base_keys q k"
    using ip_advance_segment [of j base_keys q] by auto
  then have "\<forall>q' \<in> set qs. base_keys ! k \<le> q' \<and> q' \<le> last base_keys" "k + 1 < length base_keys"
    using Cons.prems by (auto simp: ip_segment_def)
  with Cons.IH [of k] Cons.prems(1) obtain rs where "ip_loop f base_keys k qs = Inr rs"
    "list_all2 (\<lambda>q r. \<exists>k. ip_segment base_keys q k \<and> r = f k q) qs rs" by auto
  with k show ?case by auto
qed simp

text \<open>Valid arguments: the checks pass and nothing has to be cropped.\<close>

definition ip_valid :: "real list \<Rightarrow> real list \<Rightarrow> bool" where
  "ip_valid base_keys query_keys \<longleftrightarrow>
     2 \<le> length base_keys \<and> ip_increasing base_keys \<and> query_keys \<noteq> [] \<and> sorted query_keys \<and>
     (\<forall>q \<in> set query_keys. hd base_keys \<le> q \<and> q \<le> last base_keys)"

lemma ip_validateKeys_valid:
  assumes "ip_valid base_keys query_keys"
  shows "ip_validateKeys base_keys query_keys = Inr query_keys"
proof -
  from assms have ne: "query_keys \<noteq> []" "base_keys \<noteq> []" by (auto simp: ip_valid_def)
  then have "hd query_keys \<in> set query_keys" "last query_keys \<in> set query_keys" by simp_all
  with assms have b: "hd base_keys \<le> hd query_keys" "last query_keys \<le> last base_keys"
    by (auto simp: ip_valid_def)
  have "query_keys[0 := hd query_keys] = query_keys" using ne by (cases query_keys) simp_all
  moreover have "query_keys[length query_keys - 1 := last query_keys] = query_keys"
    using ne by (metis last_conv_nth list_update_id)
  ultimately have "ip_crop base_keys query_keys = query_keys"
    using b by (simp add: ip_crop_def max_def min_def Let_def)
  moreover have "\<not> (hd query_keys < hd base_keys - 1 / 1000 \<or> last base_keys + 1 / 1000 < last query_keys)"
    using b by simp
  ultimately show ?thesis
    using assms ne
    by (auto simp: ip_validateKeys_def ip_isIncreasing_def ip_isNotDecreasing_def ip_valid_def
        ip_not_decreasing_sorted simp del: err_bind_Inr_iff)
qed

lemma ip_lerp_segments:
  assumes "ip_valid base_keys query_keys" and "length base_values = length base_keys"
  shows "\<exists>rs. ip_lerp base_keys base_values query_keys = Inr rs \<and>
    list_all2 (\<lambda>q r. \<exists>k. ip_segment base_keys q k \<and> r = ip_lerp_at base_keys base_values k q)
      query_keys rs"
proof -
  have "ip_validateKeysAndValues base_keys base_values = Inr ()"
    using assms by (auto simp: ip_validateKeysAndValues_def ip_valid_def)
  moreover have "base_keys ! 0 = hd base_keys"
    using assms(1) by (intro hd_conv_nth [symmetric]) (auto simp: ip_valid_def)
  ultimately show ?thesis
    using ip_loop_segments [of query_keys base_keys 0 "ip_lerp_at base_keys base_values"] assms
    by (simp add: ip_lerp_def ip_validateKeys_valid ip_valid_def)
qed

lemma ip_segment_knot:
  assumes "ip_increasing base_keys" and "m < length base_keys"
    and "ip_segment base_keys (base_keys ! m) k"
  shows "m = k \<or> m = k + 1"
proof -
  have "\<not> base_keys ! m < base_keys ! k" "\<not> base_keys ! (k + 1) < base_keys ! m" "k + 1 < length base_keys"
    using assms(3) by (auto simp: ip_segment_def)
  then have "\<not> m < k" "\<not> k + 1 < m"
    using increasing_nth_less_iff [OF assms(1)] assms(2) by auto
  then show ?thesis by linarith
qed

lemma ip_segment_gap:
  assumes "ip_increasing base_keys" and "ip_segment base_keys q k"
  shows "base_keys ! k < base_keys ! (k + 1)"
  using assms increasing_nth_less [of base_keys k "k + 1"] by (auto simp: ip_segment_def)

lemma ip_lerp_at_eq:
  "ip_lerp_at base_keys base_values k q = base_values ! k +
     (base_values ! (k + 1) - base_values ! k) *
     ((q - base_keys ! k) / (base_keys ! (k + 1) - base_keys ! k))"
  by (simp add: ip_lerp_at_def ip_lerp_ratio_def Let_def)

lemma ip_lerp_at_left [simp]: "ip_lerp_at base_keys base_values k (base_keys ! k) = base_values ! k"
  by (simp add: ip_lerp_at_eq)

lemma ip_lerp_at_right:
  assumes "base_keys ! k < base_keys ! (k + 1)"
  shows "ip_lerp_at base_keys base_values k (base_keys ! (k + 1)) = base_values ! (k + 1)"
  using assms by (simp add: ip_lerp_at_eq)

lemma ip_lerp_at_knot:
  assumes "ip_increasing base_keys" and "m < length base_keys"
    and "ip_segment base_keys (base_keys ! m) k"
  shows "ip_lerp_at base_keys base_values k (base_keys ! m) = base_values ! m"
  using ip_segment_knot [OF assms]
proof
  assume "m = k" then show ?thesis by simp
next
  assume m: "m = k + 1"
  show ?thesis unfolding m by (rule ip_lerp_at_right [OF ip_segment_gap [OF assms(1,3)]])
qed

text \<open>Two segments that hold the same query meet in a knot, so the value does not depend on the segment.\<close>

lemma ip_lerp_at_unique:
  assumes inc: "ip_increasing base_keys"
    and "ip_segment base_keys q k" and "ip_segment base_keys q k'"
  shows "ip_lerp_at base_keys base_values k q = ip_lerp_at base_keys base_values k' q"
proof -
  have step: "ip_lerp_at base_keys base_values a q = ip_lerp_at base_keys base_values b q"
    if "a < b" and a: "ip_segment base_keys q a" and b: "ip_segment base_keys q b" for a b
  proof -
    have "base_keys ! (a + 1) \<le> base_keys ! b"
      using that increasing_nth_mono [OF inc, of "a + 1" b] by (auto simp: ip_segment_def)
    with a b have q: "q = base_keys ! b" by (auto simp: ip_segment_def)
    from b have "b < length base_keys" by (simp add: ip_segment_def)
    with a have "ip_lerp_at base_keys base_values a q = base_values ! b"
      unfolding q by (intro ip_lerp_at_knot [OF inc])
    then show ?thesis unfolding q by simp
  qed
  consider "k < k'" | "k = k'" | "k' < k" by linarith
  then show ?thesis
  proof cases
    case 1 show ?thesis by (rule step [OF 1 assms(2,3)])
  next
    case 3 show ?thesis by (rule step [OF 3 assms(3,2), symmetric])
  qed simp
qed

section \<open>A single query\<close>

lemma ip_valid_single:
  assumes "2 \<le> length base_keys" and "ip_increasing base_keys"
    and "hd base_keys \<le> q" and "q \<le> last base_keys"
  shows "ip_valid base_keys [q]"
  using assms by (simp add: ip_valid_def)

lemma ip_lerp1_segment:
  assumes "ip_valid base_keys [q]" and "length base_values = length base_keys"
  shows "\<exists>k. ip_segment base_keys q k \<and>
    ip_lerp1 base_keys base_values q = Inr (ip_lerp_at base_keys base_values k q)"
  using ip_lerp_segments [OF assms] by (auto simp: ip_lerp1_def list_all2_Cons1)

lemma ip_lerp1_eq:
  assumes "ip_valid base_keys [q]" and "length base_values = length base_keys"
    and "ip_segment base_keys q k"
  shows "ip_lerp1 base_keys base_values q = Inr (ip_lerp_at base_keys base_values k q)"
proof -
  obtain k' where k': "ip_segment base_keys q k'"
    "ip_lerp1 base_keys base_values q = Inr (ip_lerp_at base_keys base_values k' q)"
    using ip_lerp1_segment [OF assms(1,2)] by auto
  have "ip_increasing base_keys" using assms(1) by (simp add: ip_valid_def)
  with k'(2) ip_lerp_at_unique [OF this k'(1) assms(3)] show ?thesis by metis
qed

text \<open>Every valid query has a segment, and the value is a convex combination of its two ends.\<close>

lemma ip_valid_segment:
  assumes "ip_valid base_keys [q]"
  obtains k where "ip_segment base_keys q k"
  using ip_lerp1_segment [OF assms, of base_keys] by auto

definition ip_ratio :: "real list \<Rightarrow> nat \<Rightarrow> real \<Rightarrow> real" where
  "ip_ratio base_keys k q = (q - base_keys ! k) / (base_keys ! (k + 1) - base_keys ! k)"

lemma ip_ratio_range:
  assumes "ip_increasing base_keys" and "ip_segment base_keys q k"
  shows "0 \<le> ip_ratio base_keys k q" and "ip_ratio base_keys k q \<le> 1"
  using assms ip_segment_gap [OF assms] by (auto simp: ip_ratio_def ip_segment_def divide_simps)

lemma ip_lerp_at_convex:
  "ip_lerp_at base_keys base_values k q =
     (1 - ip_ratio base_keys k q) * base_values ! k + ip_ratio base_keys k q * base_values ! (k + 1)"
  by (simp add: ip_lerp_at_def ip_lerp_ratio_def ip_ratio_def Let_def algebra_simps)

lemma convex_combination_between:
  fixes u :: real
  assumes "0 \<le> r" and "r \<le> 1" and "a \<le> u" and "u \<le> b" and "a \<le> v" and "v \<le> b"
  shows "a \<le> (1 - r) * u + r * v" and "(1 - r) * u + r * v \<le> b"
proof -
  have "(1 - r) * a + r * a \<le> (1 - r) * u + r * v" "(1 - r) * u + r * v \<le> (1 - r) * b + r * b"
    using assms by (auto intro!: add_mono mult_left_mono)
  then show "a \<le> (1 - r) * u + r * v" and "(1 - r) * u + r * v \<le> b" by (simp_all add: algebra_simps)
qed

lemma convex_combination_less:
  fixes u :: real
  assumes "0 \<le> r" and "r \<le> 1" and "u < u'" and "v < v'"
  shows "(1 - r) * u + r * v < (1 - r) * u' + r * v'"
proof (cases "r = 1")
  case True with assms show ?thesis by simp
next
  case False
  with assms have "(1 - r) * u < (1 - r) * u'" "r * v \<le> r * v'" by (auto intro: mult_left_mono)
  then show ?thesis by linarith
qed

lemma ip_lerp1_bounds:
  assumes "ip_valid base_keys [q]" and "length base_values = length base_keys"
    and "\<forall>v \<in> set base_values. lo \<le> v \<and> v \<le> hi"
  obtains y where "ip_lerp1 base_keys base_values q = Inr y" "lo \<le> y" "y \<le> hi"
proof -
  obtain k where k: "ip_segment base_keys q k"
    "ip_lerp1 base_keys base_values q = Inr (ip_lerp_at base_keys base_values k q)"
    using ip_lerp1_segment [OF assms(1,2)] by auto
  have "ip_increasing base_keys" using assms(1) by (simp add: ip_valid_def)
  have "base_values ! k \<in> set base_values" "base_values ! (k + 1) \<in> set base_values"
    using k(1) assms(2) by (auto simp: ip_segment_def)
  then have "lo \<le> base_values ! k" "base_values ! k \<le> hi"
    "lo \<le> base_values ! (k + 1)" "base_values ! (k + 1) \<le> hi"
    using assms(3) by auto
  with \<open>ip_increasing base_keys\<close>
  have "lo \<le> ip_lerp_at base_keys base_values k q" "ip_lerp_at base_keys base_values k q \<le> hi"
    unfolding ip_lerp_at_convex
    using convex_combination_between [OF ip_ratio_range [OF _ k(1)], of lo "base_values ! k" hi
        "base_values ! (k + 1)"] by simp_all
  with k that show ?thesis by blast
qed

text \<open>Pointwise smaller values give a smaller result at the same query.\<close>

lemma ip_lerp1_values_less:
  assumes "ip_valid base_keys [q]" and "length us = length base_keys" and "length vs = length base_keys"
    and "\<forall>i < length base_keys. us ! i < vs ! i"
    and "ip_lerp1 base_keys us q = Inr a" and "ip_lerp1 base_keys vs q = Inr b"
  shows "a < b"
proof -
  obtain k where k: "ip_segment base_keys q k" using ip_valid_segment [OF assms(1)] .
  then have "a = ip_lerp_at base_keys us k q" "b = ip_lerp_at base_keys vs k q"
    using ip_lerp1_eq [OF assms(1,2) k] ip_lerp1_eq [OF assms(1,3) k] assms(5,6) by auto
  moreover have "ip_increasing base_keys" using assms(1) by (simp add: ip_valid_def)
  ultimately show ?thesis
    using ip_ratio_range [OF _ k] convex_combination_less assms(4) k
    by (auto simp: ip_lerp_at_convex ip_segment_def)
qed

text \<open>Between strictly increasing keys and values, exchanging the two inverts the interpolation.\<close>

lemma ip_lerp_at_swap:
  assumes "base_keys ! k \<noteq> base_keys ! (k + 1)" and "base_values ! k \<noteq> base_values ! (k + 1)"
  shows "ip_lerp_at base_values base_keys k (ip_lerp_at base_keys base_values k q) = q"
proof -
  have "base_keys ! (k + 1) - base_keys ! k \<noteq> 0" "base_values ! (k + 1) - base_values ! k \<noteq> 0"
    using assms by simp_all
  then show ?thesis by (simp add: ip_lerp_at_eq)
qed

lemma increasing_hd_last:
  assumes "ip_increasing xs" and "i < length xs"
  shows "hd xs \<le> xs ! i" and "xs ! i \<le> last xs"
proof -
  have "xs \<noteq> []" using assms(2) by auto
  then show "hd xs \<le> xs ! i" "xs ! i \<le> last xs"
    using assms increasing_nth_mono [OF assms(1), of 0 i]
      increasing_nth_mono [OF assms(1), of i "length xs - 1"]
    by (auto simp: hd_conv_nth last_conv_nth)
qed

lemma ip_lerp1_inverse:
  assumes v: "ip_valid base_keys [q]" and len: "length base_values = length base_keys"
    and inc: "ip_increasing base_values" and res: "ip_lerp1 base_keys base_values q = Inr y"
  shows "ip_lerp1 base_values base_keys y = Inr q"
proof -
  have inck: "ip_increasing base_keys" and two: "2 \<le> length base_keys" using v by (auto simp: ip_valid_def)
  obtain k where k: "ip_segment base_keys q k" and y: "y = ip_lerp_at base_keys base_values k q"
    using ip_lerp1_segment [OF v len] res by auto
  have kl: "k + 1 < length base_values" using k len by (simp add: ip_segment_def)
  then have gap: "base_values ! k < base_values ! (k + 1)"
    using inc increasing_nth_less [of base_values k "k + 1"] by simp
  then have "base_values ! k \<le> y" "y \<le> base_values ! (k + 1)"
    using convex_combination_between [of "ip_ratio base_keys k q" "base_values ! k" "base_values ! k"
        "base_values ! (k + 1)" "base_values ! (k + 1)"] ip_ratio_range [OF inck k]
    by (auto simp: y ip_lerp_at_convex)
  with kl have seg: "ip_segment base_values y k" by (simp add: ip_segment_def)
  have "hd base_values \<le> y" "y \<le> last base_values"
    using \<open>base_values ! k \<le> y\<close> \<open>y \<le> base_values ! (k + 1)\<close> kl
      increasing_hd_last [OF inc, of k] increasing_hd_last [OF inc, of "k + 1"] by auto
  then have vy: "ip_valid base_values [y]" using ip_valid_single two len inc by simp
  have "ip_lerp_at base_values base_keys k y = q"
    using ip_lerp_at_swap [of base_keys k base_values q] ip_segment_gap [OF inck k] gap y by simp
  then show ?thesis using ip_lerp1_eq [OF vy len [symmetric] seg] by simp
qed

text \<open>The same for values that decrease while the keys do: both lists are then read backwards.\<close>

lemma ip_lerp_at_rev:
  assumes "length base_values = length base_keys" and "k + 1 < length base_keys"
    and "j = length base_keys - 2 - k" and "base_keys ! j \<noteq> base_keys ! (j + 1)"
  shows "ip_lerp_at (rev base_keys) (rev base_values) k q = ip_lerp_at base_keys base_values j q"
proof -
  have sub: "length base_keys - Suc k = j + 1" "length base_keys - Suc (k + 1) = j" using assms(2,3) by simp_all
  have nths: "rev base_keys ! k = base_keys ! (j + 1)" "rev base_keys ! (k + 1) = base_keys ! j"
    "rev base_values ! k = base_values ! (j + 1)" "rev base_values ! (k + 1) = base_values ! j"
    using assms(1,2) sub by (simp_all add: rev_nth)
  have "v' + (v - v') * ((q - x') / (x - x')) = v + (v' - v) * ((q - x) / (x' - x))"
    if "x \<noteq> x'" for v v' x x' :: real using that by (simp add: field_simps)
  from this [OF assms(4)] show ?thesis unfolding ip_lerp_at_eq nths .
qed

lemma ip_lerp1_inverse_rev:
  assumes v: "ip_valid (rev xs) [q]" and len: "length ys = length xs"
    and inc: "ip_increasing ys" and res: "ip_lerp1 (rev xs) (rev ys) q = Inr y"
  shows "ip_lerp1 ys xs y = Inr q" and "hd ys \<le> y" and "y \<le> last ys"
proof -
  have incx: "ip_increasing (rev xs)" and two: "2 \<le> length xs" using v by (auto simp: ip_valid_def)
  obtain k where k: "ip_segment (rev xs) q k" and y: "y = ip_lerp_at (rev xs) (rev ys) k q"
    using ip_lerp1_segment [OF v, of "rev ys"] len res by auto
  define j where "j = length xs - 2 - k"
  have kl: "k + 1 < length xs" using k by (simp add: ip_segment_def)
  then have jl: "j + 1 < length xs" and sub: "length xs - Suc k = j + 1" "length xs - Suc (k + 1) = j"
    by (simp_all add: j_def)
  have nths: "rev xs ! k = xs ! (j + 1)" "rev xs ! (k + 1) = xs ! j"
    using kl sub by (simp_all add: rev_nth)
  have gapx: "xs ! (j + 1) < xs ! j" using ip_segment_gap [OF incx k] unfolding nths .
  then have y': "y = ip_lerp_at xs ys j q"
    using ip_lerp_at_rev [OF len kl j_def] y by simp
  have gapy: "ys ! j < ys ! (j + 1)" using increasing_nth_less [OF inc, of j "j + 1"] jl len by simp
  have "0 \<le> ip_ratio xs j q" "ip_ratio xs j q \<le> 1"
    using k gapx unfolding ip_segment_def nths by (simp_all add: ip_ratio_def divide_simps)
  then have between: "ys ! j \<le> y" "y \<le> ys ! (j + 1)"
    unfolding y' ip_lerp_at_convex
    using convex_combination_between [of "ip_ratio xs j q" "ys ! j" "ys ! j" "ys ! (j + 1)" "ys ! (j + 1)"]
      gapy by simp_all
  then have seg: "ip_segment ys y j" using jl len by (simp add: ip_segment_def)
  show b: "hd ys \<le> y" "y \<le> last ys"
    using between jl len increasing_hd_last [OF inc, of j] increasing_hd_last [OF inc, of "j + 1"] by auto
  have "ip_valid ys [y]" using ip_valid_single two len inc b by simp
  moreover have "ip_lerp_at ys xs j y = q"
    unfolding y' using ip_lerp_at_swap [of xs j ys q] gapx gapy by simp
  ultimately show "ip_lerp1 ys xs y = Inr q" using ip_lerp1_eq [OF _ len [symmetric] seg] by simp
qed

lemma ip_lerp1_last:
  assumes "2 \<le> length xs" and "ip_increasing xs" and "length ys = length xs"
  shows "ip_lerp1 xs ys (last xs) = Inr (last ys)" and "ip_lerp1 xs ys (hd xs) = Inr (hd ys)"
proof -
  have ne: "xs \<noteq> []" "ys \<noteq> []" using assms by auto
  have v: "ip_valid xs [last xs]" "ip_valid xs [hd xs]"
    using ip_valid_single [OF assms(1,2)] increasing_hd_last [OF assms(2), of 0] ne(1)
    by (simp_all add: hd_conv_nth)
  let ?k = "length xs - 2"
  have sub: "?k + 1 = length xs - 1" using assms(1) by simp
  have gap: "xs ! ?k < xs ! (?k + 1)" "xs ! 0 < xs ! 1"
    using increasing_nth_less [OF assms(2), of ?k "?k + 1"] increasing_nth_less [OF assms(2), of 0 1]
      assms(1) by simp_all
  have l: "last xs = xs ! (?k + 1)" "last ys = ys ! (?k + 1)"
    using ne assms(3) unfolding sub by (simp_all add: last_conv_nth)
  have "ip_segment xs (last xs) ?k" "ip_segment xs (hd xs) 0"
    using gap assms(1) ne l by (simp_all add: ip_segment_def hd_conv_nth)
  from ip_lerp1_eq [OF v(1) assms(3) this(1)] ip_lerp1_eq [OF v(2) assms(3) this(2)]
  show "ip_lerp1 xs ys (last xs) = Inr (last ys)" "ip_lerp1 xs ys (hd xs) = Inr (hd ys)"
    using ip_lerp_at_right [OF gap(1), of ys] l ne by (simp_all add: hd_conv_nth)
qed

section \<open>Queries past the end\<close>

lemma ip_advance_Inl: "ip_advance base_keys q j = Inl e \<Longrightarrow> e = IP_OutOfRange"
proof (induction base_keys q j rule: ip_advance.induct)
  case (1 base_keys q j)
  then show ?case by (auto simp: ip_advance.simps [of base_keys q j] split: if_splits)
qed

lemma ip_loop_Inl: "ip_loop f base_keys j qs = Inl e \<Longrightarrow> e = IP_OutOfRange"
  by (induction qs arbitrary: j) (auto simp: err_bind_Inl_iff dest: ip_advance_Inl)

lemma ip_advance_past_end:
  "\<forall>x \<in> set base_keys. x < q \<Longrightarrow> ip_advance base_keys q j = Inl IP_OutOfRange"
proof (induction base_keys q j rule: ip_advance.induct)
  case (1 base_keys q j)
  then show ?case by (simp add: ip_advance.simps [of base_keys q j])
qed

lemma ip_loop_past_end:
  "q \<in> set qs \<Longrightarrow> \<forall>x \<in> set base_keys. x < q \<Longrightarrow> ip_loop f base_keys j qs = Inl IP_OutOfRange"
proof (induction qs arbitrary: j)
  case (Cons q' qs)
  show ?case
  proof (cases "ip_advance base_keys q' j")
    case (Inl e) then show ?thesis by (auto dest: ip_advance_Inl)
  next
    case (Inr k)
    with Cons.prems have "q \<in> set qs" by (auto simp: ip_advance_past_end)
    with Cons.IH [of k] Cons.prems(2) Inr show ?thesis by simp
  qed
qed simp

section \<open>Interpolating at the base keys\<close>

lemma ip_loop_at_keys:
  assumes "2 \<le> length xs" and "ip_increasing xs" and "length ys = length xs"
    and "\<And>k. k + 1 < length xs \<Longrightarrow> f k (xs ! k) = ys ! k"
    and "\<And>k. k + 1 < length xs \<Longrightarrow> f k (xs ! (k + 1)) = ys ! (k + 1)"
  shows "ip_loop f xs 0 xs = Inr ys"
proof -
  have ne: "xs \<noteq> []" using assms(1) by auto
  have "sorted xs"
    using assms(2) by (simp add: ip_increasing_sorted sorted_wrt_mono_rel [of xs "(<)" "(\<le>)"])
  moreover have "\<forall>q \<in> set xs. xs ! 0 \<le> q \<and> q \<le> last xs"
    using increasing_hd_last [OF assms(2)] ne by (auto simp: in_set_conv_nth hd_conv_nth)
  ultimately obtain rs where rs: "ip_loop f xs 0 xs = Inr rs"
    "list_all2 (\<lambda>q r. \<exists>k. ip_segment xs q k \<and> r = f k q) xs rs"
    using ip_loop_segments [of xs xs 0 f] assms(1) by auto
  have "rs = ys"
  proof (rule nth_equalityI)
    show "length rs = length ys" using rs(2) assms(3) by (simp add: list_all2_lengthD)
    fix i assume "i < length rs"
    then have i: "i < length xs" using rs(2) by (simp add: list_all2_lengthD)
    from list_all2_nthD [OF rs(2) i] obtain k where
      k: "ip_segment xs (xs ! i) k" "rs ! i = f k (xs ! i)" by auto
    moreover have "k + 1 < length xs" using k(1) by (simp add: ip_segment_def)
    ultimately show "rs ! i = ys ! i"
      using ip_segment_knot [OF assms(2) i k(1)] assms(4,5) [of k] by auto
  qed
  with rs(1) show ?thesis by simp
qed

lemma ip_valid_keys:
  assumes "2 \<le> length xs" and "ip_increasing xs"
  shows "ip_valid xs xs"
proof -
  have "sorted xs"
    using assms(2) by (simp add: ip_increasing_sorted sorted_wrt_mono_rel [of xs "(<)" "(\<le>)"])
  moreover have "\<forall>q \<in> set xs. hd xs \<le> q \<and> q \<le> last xs"
    using increasing_hd_last [OF assms(2)] by (auto simp: in_set_conv_nth)
  ultimately show ?thesis using assms by (auto simp: ip_valid_def)
qed

lemma ip_lerp_base_keys:
  assumes "2 \<le> length base_keys" and "ip_increasing base_keys"
    and "length base_values = length base_keys"
  shows "ip_lerp base_keys base_values base_keys = Inr base_values"
proof -
  have "ip_validateKeysAndValues base_keys base_values = Inr ()"
    using assms by (auto simp: ip_validateKeysAndValues_def)
  moreover have "ip_lerp_at base_keys base_values k (base_keys ! (k + 1)) = base_values ! (k + 1)"
    if "k + 1 < length base_keys" for k
    using that increasing_nth_less [OF assms(2), of k "k + 1"] by (intro ip_lerp_at_right) simp
  then have "ip_loop (ip_lerp_at base_keys base_values) base_keys 0 base_keys = Inr base_values"
    by (intro ip_loop_at_keys assms ip_lerp_at_left)
  ultimately show ?thesis by (simp add: ip_lerp_def ip_validateKeys_valid ip_valid_keys assms)
qed

text \<open>\<open>validateKeys\<close> accepts queries up to \<open>1e-3\<close> past the last base key, for rounding errors, and crops
  them to the base keys; but it crops only the first and the last query. Two queries past the end pass
  the validation and then make \<open>lerp\<close> read past the base keys: it throws \<open>std::out_of_range\<close>.\<close>

theorem ip_two_past_end_throws:
  assumes "2 \<le> length base_keys" and "ip_increasing base_keys"
    and "length base_values = length base_keys"
    and "sorted (qs @ [q, q'])" and "hd base_keys \<le> hd (qs @ [q])"
    and "last base_keys < q" and "q' \<le> last base_keys + 1 / 1000"
  shows "(\<exists>vs. ip_validateKeys base_keys (qs @ [q, q']) = Inr vs) \<and>
    ip_lerp base_keys base_values (qs @ [q, q']) = Inl IP_OutOfRange"
proof -
  let ?qs = "qs @ [q, q']"
  have "hd ?qs = hd (qs @ [q])" by (cases qs) simp_all
  with assms(5) have hd: "hd base_keys \<le> hd ?qs" by simp
  have "base_keys \<noteq> []" using assms(1) by auto
  then have ok: "ip_validateKeys base_keys ?qs = Inr (ip_crop base_keys ?qs)"
    using assms hd
    by (auto simp: ip_validateKeys_def ip_isIncreasing_def ip_isNotDecreasing_def
        ip_not_decreasing_sorted simp del: err_bind_Inr_iff)
  have "ip_crop base_keys ?qs = qs @ [q, min q' (last base_keys)]"
    using hd by (cases qs) (simp_all add: ip_crop_def max_def list_update_append)
  then have "q \<in> set (ip_crop base_keys ?qs)" by simp
  moreover have "\<forall>x \<in> set base_keys. x < q"
    using increasing_hd_last(2) [OF assms(2)] assms(6) by (fastforce simp: in_set_conv_nth)
  moreover have "ip_validateKeysAndValues base_keys base_values = Inr ()"
    using assms by (auto simp: ip_validateKeysAndValues_def)
  ultimately show ?thesis using ok by (simp add: ip_lerp_def ip_loop_past_end)
qed

theorem ip_two_past_end_throws_witness:
  "(\<exists>vs. ip_validateKeys [0, 1] [1 / 2, 10001 / 10000, 10002 / 10000] = Inr vs) \<and>
   ip_lerp [0, 1] [5, 7] [1 / 2, 10001 / 10000, 10002 / 10000] = Inl IP_OutOfRange"
  using ip_two_past_end_throws [of "[0, 1]" "[5, 7]" "[1 / 2]" "10001 / 10000" "10002 / 10000"]
  by simp

end
