(* ===== verification/Spline_Interpolation.thy ===== *)
theory Spline_Interpolation
  imports Interpolation
begin

text \<open>
  \<open>common/interpolation/src/spline_interpolation.cpp\<close>: the natural cubic spline (its tridiagonal
  solver, its coefficients, its values and derivatives) and Akima's spline.  The lemmas compute, for
  every interior knot, by how much the first derivative of the spline jumps there; the README asks
  for a jump of zero.
\<close>

section \<open>Tridiagonal systems\<close>

record sp_TDMACoef =
  tdma_a :: "real list"
  tdma_b :: "real list"
  tdma_c :: "real list"
  tdma_d :: "real list"

text \<open>The vectors \<open>p\<close> and \<open>q\<close> of the forward pass, by index.\<close>

fun sp_tdma_p :: "sp_TDMACoef \<Rightarrow> nat \<Rightarrow> real" where
  "sp_tdma_p m 0 = - (tdma_c m ! 0) / tdma_b m ! 0"
| "sp_tdma_p m (Suc i) =
     (let den = tdma_b m ! Suc i + tdma_a m ! i * sp_tdma_p m i in - (tdma_c m ! i) / den)"

fun sp_tdma_q :: "sp_TDMACoef \<Rightarrow> nat \<Rightarrow> real" where
  "sp_tdma_q m 0 = tdma_d m ! 0 / tdma_b m ! 0"
| "sp_tdma_q m (Suc i) =
     (let den = tdma_b m ! Suc i + tdma_a m ! i * sp_tdma_p m i
      in (tdma_d m ! Suc i - tdma_a m ! i * sp_tdma_q m i) / den)"

text \<open>The backward pass, \<open>x[j] = p[j] * x[j + 1] + q[j]\<close>, from \<open>x[j ..]\<close> down to \<open>x[0 ..]\<close>.\<close>

fun sp_tdma_back :: "sp_TDMACoef \<Rightarrow> nat \<Rightarrow> real list \<Rightarrow> real list" where
  "sp_tdma_back m 0 xs = xs"
| "sp_tdma_back m (Suc j) xs = sp_tdma_back m j ((sp_tdma_p m j * hd xs + sp_tdma_q m j) # xs)"

definition sp_solveTridiagonalMatrixAlgorithm :: "sp_TDMACoef \<Rightarrow> real list" where
  "sp_solveTridiagonalMatrixAlgorithm m =
     (let num_row = length (tdma_b m)
      in if num_row \<noteq> 1 then sp_tdma_back m (num_row - 1) [sp_tdma_q m (num_row - 1)]
         else [tdma_d m ! 0 / tdma_b m ! 0])"

section \<open>Natural cubic spline\<close>

record sp_interpolation =
  sp_base_keys :: "real list"
  sp_a :: "real list"
  sp_b :: "real list"
  sp_c :: "real list"
  sp_d :: "real list"

definition sp_diffs :: "real list \<Rightarrow> real list" where
  "sp_diffs xs = map (\<lambda>i. xs ! (i + 1) - xs ! i) [0..<length xs - 1]"

definition sp_tdma_coef :: "real list \<Rightarrow> real list \<Rightarrow> nat \<Rightarrow> sp_TDMACoef" where
  "sp_tdma_coef diff_keys diff_values num_base =
     \<lparr> tdma_a = map (\<lambda>i. diff_keys ! (i + 1)) [0..<num_base - 3],
       tdma_b = map (\<lambda>i. 2 * (diff_keys ! i + diff_keys ! (i + 1))) [0..<num_base - 2],
       tdma_c = map (\<lambda>i. diff_keys ! (i + 1)) [0..<num_base - 3],
       tdma_d = map (\<lambda>i. 6 * (diff_values ! (i + 1) / diff_keys ! (i + 1)
         - diff_values ! i / diff_keys ! i)) [0..<num_base - 2] \<rparr>"

definition sp_calc_v :: "real list \<Rightarrow> real list \<Rightarrow> nat \<Rightarrow> real list" where
  "sp_calc_v diff_keys diff_values num_base =
     0 # (if 2 < num_base
          then sp_solveTridiagonalMatrixAlgorithm (sp_tdma_coef diff_keys diff_values num_base)
          else []) @ [0]"

definition sp_coefficients :: "real list \<Rightarrow> real list \<Rightarrow> sp_interpolation" where
  "sp_coefficients base_keys base_values =
     (let num_base = length base_keys;
          diff_keys = sp_diffs base_keys;
          diff_values = sp_diffs base_values;
          v = sp_calc_v diff_keys diff_values num_base
      in \<lparr> sp_base_keys = base_keys,
           sp_a = map (\<lambda>i. (v ! (i + 1) - v ! i) / 6 / diff_keys ! i) [0..<num_base - 1],
           sp_b = map (\<lambda>i. v ! i / 2) [0..<num_base - 1],
           sp_c = map (\<lambda>i. diff_values ! i / diff_keys ! i
             - diff_keys ! i * (2 * v ! i + v ! (i + 1)) / 6) [0..<num_base - 1],
           sp_d = map (\<lambda>i. base_values ! i) [0..<num_base - 1] \<rparr>)"

definition sp_calcSplineCoefficients :: "real list \<Rightarrow> real list \<Rightarrow> ip_error + sp_interpolation" where
  "sp_calcSplineCoefficients base_keys base_values =
     err_bind (ip_validateKeysAndValues base_keys base_values) (\<lambda>_.
       Inr (sp_coefficients base_keys base_values))"

definition sp_value_at :: "sp_interpolation \<Rightarrow> nat \<Rightarrow> real \<Rightarrow> real" where
  "sp_value_at s j query_key =
     (let ds = query_key - sp_base_keys s ! j
      in sp_d s ! j + (sp_c s ! j + (sp_b s ! j + sp_a s ! j * ds) * ds) * ds)"

definition sp_diff_at :: "sp_interpolation \<Rightarrow> nat \<Rightarrow> real \<Rightarrow> real" where
  "sp_diff_at s j query_key =
     (let ds = query_key - sp_base_keys s ! j
      in sp_c s ! j + (2 * sp_b s ! j + 3 * sp_a s ! j * ds) * ds)"

definition sp_quad_diff_at :: "sp_interpolation \<Rightarrow> nat \<Rightarrow> real \<Rightarrow> real" where
  "sp_quad_diff_at s j query_key =
     (let ds = query_key - sp_base_keys s ! j in 2 * sp_b s ! j + 6 * sp_a s ! j * ds)"

definition sp_getSplineInterpolatedValues :: "sp_interpolation \<Rightarrow> real list \<Rightarrow> ip_error + real list" where
  "sp_getSplineInterpolatedValues s query_keys =
     err_bind (ip_validateKeys (sp_base_keys s) query_keys)
       (ip_loop (sp_value_at s) (sp_base_keys s) 0)"

definition sp_getSplineInterpolatedDiffValues :: "sp_interpolation \<Rightarrow> real list \<Rightarrow> ip_error + real list" where
  "sp_getSplineInterpolatedDiffValues s query_keys =
     err_bind (ip_validateKeys (sp_base_keys s) query_keys)
       (ip_loop (sp_diff_at s) (sp_base_keys s) 0)"

definition sp_getSplineInterpolatedQuadDiffValues ::
  "sp_interpolation \<Rightarrow> real list \<Rightarrow> ip_error + real list" where
  "sp_getSplineInterpolatedQuadDiffValues s query_keys =
     err_bind (ip_validateKeys (sp_base_keys s) query_keys)
       (ip_loop (sp_quad_diff_at s) (sp_base_keys s) 0)"

definition sp_spline :: "real list \<Rightarrow> real list \<Rightarrow> real list \<Rightarrow> ip_error + real list" where
  "sp_spline base_keys base_values query_keys =
     err_bind (sp_calcSplineCoefficients base_keys base_values) (\<lambda>interpolator.
       sp_getSplineInterpolatedValues interpolator query_keys)"

section \<open>Akima's spline\<close>

definition sp_akima_m :: "real list \<Rightarrow> real list \<Rightarrow> real list" where
  "sp_akima_m base_keys base_values =
     map (\<lambda>i. (base_values ! (i + 1) - base_values ! i) / (base_keys ! (i + 1) - base_keys ! i))
       [0..<length base_keys - 1]"

definition sp_akima_s :: "real list \<Rightarrow> nat \<Rightarrow> nat \<Rightarrow> real" where
  "sp_akima_s m_values n i =
     (if i = 0 then hd m_values
      else if i = n - 1 then last m_values
      else if i = 1 \<or> i = n - 2 then (m_values ! (i - 1) + m_values ! i) / 2
      else let denom = \<bar>m_values ! (i + 1) - m_values ! i\<bar> + \<bar>m_values ! (i - 1) - m_values ! (i - 2)\<bar>
           in if \<bar>denom\<bar> < 1 / 100000 then (m_values ! (i - 1) + m_values ! i) / 2
              else (\<bar>m_values ! (i + 1) - m_values ! i\<bar> * m_values ! (i - 1)
                  + \<bar>m_values ! (i - 1) - m_values ! (i - 2)\<bar> * m_values ! i) / denom)"

definition sp_akima_coefficients :: "real list \<Rightarrow> real list \<Rightarrow> sp_interpolation" where
  "sp_akima_coefficients base_keys base_values =
     (let n = length base_keys;
          m_values = sp_akima_m base_keys base_values;
          s_values = map (sp_akima_s m_values n) [0..<n]
      in \<lparr> sp_base_keys = base_keys,
           sp_a = map (\<lambda>i. (s_values ! i + s_values ! (i + 1) - 2 * m_values ! i) /
             (base_keys ! (i + 1) - base_keys ! i)\<^sup>2) [0..<n - 1],
           sp_b = map (\<lambda>i. (3 * m_values ! i - 2 * s_values ! i - s_values ! (i + 1)) /
             (base_keys ! (i + 1) - base_keys ! i)) [0..<n - 1],
           sp_c = map (\<lambda>i. s_values ! i) [0..<n - 1],
           sp_d = map (\<lambda>i. base_values ! i) [0..<n - 1] \<rparr>)"

text \<open>
  Akima's spline checks nothing.  On empty keys the subtraction \<open>size() - 1\<close> wraps round and the
  first \<open>at\<close> throws, as it does when there are fewer values than keys; a single key leaves
  \<open>m_values\<close> empty.
\<close>

definition sp_splineByAkima :: "real list \<Rightarrow> real list \<Rightarrow> real list \<Rightarrow> ip_error + real list" where
  "sp_splineByAkima base_keys base_values query_keys =
     (if base_keys = [] then Inl IP_OutOfRange
      else if length base_keys = 1 then Inl IP_EmptyFront
      else if length base_values < length base_keys then Inl IP_OutOfRange
      else ip_loop (sp_value_at (sp_akima_coefficients base_keys base_values)) base_keys 0 query_keys)"

section \<open>What the tridiagonal solver solves\<close>

fun sp_den :: "sp_TDMACoef \<Rightarrow> nat \<Rightarrow> real" where
  "sp_den m 0 = tdma_b m ! 0"
| "sp_den m (Suc i) = tdma_b m ! Suc i + tdma_a m ! i * sp_tdma_p m i"

lemma sp_tdma_p_den:
  "sp_tdma_p m i = - (tdma_c m ! (i - 1)) / sp_den m i"
  by (cases i) (simp_all add: Let_def)

lemma sp_tdma_q_den:
  "0 < i \<Longrightarrow> sp_tdma_q m i = (tdma_d m ! i - tdma_a m ! (i - 1) * sp_tdma_q m (i - 1)) / sp_den m i"
  by (cases i) (simp_all add: Let_def)

lemma sp_tdma_back_nth:
  assumes "xs \<noteq> []"
  shows "length (sp_tdma_back m j xs) = j + length xs \<and>
    (\<forall>i < length xs. sp_tdma_back m j xs ! (j + i) = xs ! i) \<and>
    (\<forall>i < j. sp_tdma_back m j xs ! i = sp_tdma_p m i * sp_tdma_back m j xs ! (i + 1) + sp_tdma_q m i)"
  using assms
proof (induction j arbitrary: xs)
  case (Suc j)
  let ?y = "sp_tdma_p m j * hd xs + sp_tdma_q m j"
  let ?x = "sp_tdma_back m j (?y # xs)"
  note IH = Suc.IH [of "?y # xs"]
  have nth: "?x ! (j + i) = (?y # xs) ! i" if "i < Suc (length xs)" for i using IH that by simp
  have "?x ! j = ?y" using nth [of 0] by simp
  moreover have "?x ! (j + 1) = hd xs" using nth [of 1] Suc.prems by (simp add: hd_conv_nth)
  ultimately have "?x ! i = sp_tdma_p m i * ?x ! (i + 1) + sp_tdma_q m i" if "i < Suc j" for i
    using that IH by (cases "i = j") auto
  moreover have "?x ! (Suc j + i) = xs ! i" if "i < length xs" for i using nth [of "Suc i"] that by simp
  ultimately show ?case using IH by simp
qed simp

lemma sp_solve_length:
  "tdma_b m \<noteq> [] \<Longrightarrow> length (sp_solveTridiagonalMatrixAlgorithm m) = length (tdma_b m)"
  using sp_tdma_back_nth [of "[sp_tdma_q m (length (tdma_b m) - 1)]" m "length (tdma_b m) - 1"]
  by (auto simp: sp_solveTridiagonalMatrixAlgorithm_def Let_def Suc_le_eq)

lemma sp_solve_recurrence:
  assumes "2 \<le> length (tdma_b m)" and "x = sp_solveTridiagonalMatrixAlgorithm m"
  shows "i + 1 < length (tdma_b m) \<Longrightarrow> x ! i = sp_tdma_p m i * x ! (i + 1) + sp_tdma_q m i"
    and "x ! (length (tdma_b m) - 1) = sp_tdma_q m (length (tdma_b m) - 1)"
  using sp_tdma_back_nth [of "[sp_tdma_q m (length (tdma_b m) - 1)]" m "length (tdma_b m) - 1"] assms
  by (auto simp: sp_solveTridiagonalMatrixAlgorithm_def Let_def)

text \<open>The residual of each row of the system.\<close>

lemma sp_solve_first_row:
  assumes "2 \<le> length (tdma_b m)" and "sp_den m 0 \<noteq> 0"
    and "x = sp_solveTridiagonalMatrixAlgorithm m"
  shows "tdma_b m ! 0 * x ! 0 + tdma_c m ! 0 * x ! 1 = tdma_d m ! 0"
proof -
  have "x ! 0 = (tdma_d m ! 0 - tdma_c m ! 0 * x ! 1) / tdma_b m ! 0"
    using sp_solve_recurrence(1) [OF assms(1,3), of 0] assms(1) by (simp add: diff_divide_distrib)
  with assms(2) show ?thesis by simp
qed

lemma sp_solve_row:
  assumes two: "2 \<le> length (tdma_b m)" and den: "sp_den m i \<noteq> 0"
    and x: "x = sp_solveTridiagonalMatrixAlgorithm m"
    and i: "0 < i" "i + 1 < length (tdma_b m)"
  shows "tdma_a m ! (i - 1) * x ! (i - 1) + tdma_b m ! i * x ! i + tdma_c m ! i * x ! (i + 1) =
    tdma_d m ! i + (tdma_c m ! i - tdma_c m ! (i - 1)) * x ! (i + 1)"
proof -
  from i obtain k where k: "i = Suc k" by (cases i) auto
  have prev: "x ! k = sp_tdma_p m k * x ! i + sp_tdma_q m k"
    using sp_solve_recurrence(1) [OF two x, of k] i k by simp
  have "x ! i = (- (tdma_c m ! k) * x ! (i + 1) + (tdma_d m ! i - tdma_a m ! k * sp_tdma_q m k)) / sp_den m i"
    using sp_solve_recurrence(1) [OF two x i(2)] sp_tdma_p_den [of m i] sp_tdma_q_den [of i m] k
    by (simp add: add_divide_distrib diff_divide_distrib)
  then have "sp_den m i * x ! i =
    - (tdma_c m ! k) * x ! (i + 1) + (tdma_d m ! i - tdma_a m ! k * sp_tdma_q m k)"
    using den by simp
  then show ?thesis using prev k by (simp add: algebra_simps)
qed

lemma sp_solve_last_row:
  assumes two: "2 \<le> length (tdma_b m)" and den: "sp_den m (length (tdma_b m) - 1) \<noteq> 0"
    and x: "x = sp_solveTridiagonalMatrixAlgorithm m"
  shows "tdma_a m ! (length (tdma_b m) - 2) * x ! (length (tdma_b m) - 2) +
    tdma_b m ! (length (tdma_b m) - 1) * x ! (length (tdma_b m) - 1) =
    tdma_d m ! (length (tdma_b m) - 1)"
proof -
  from two obtain k where k: "length (tdma_b m) = Suc (Suc k)"
    by (metis add_2_eq_Suc le_Suc_ex)
  have prev: "x ! k = sp_tdma_p m k * x ! Suc k + sp_tdma_q m k"
    using sp_solve_recurrence(1) [OF two x, of k] k by simp
  have "sp_den m (Suc k) * x ! Suc k = tdma_d m ! Suc k - tdma_a m ! k * sp_tdma_q m k"
    using sp_solve_recurrence(2) [OF two x] sp_tdma_q_den [of "Suc k" m] den k by simp
  with prev k show ?thesis by (simp add: algebra_simps)
qed

section \<open>The equations of the spline\<close>

lemma sp_diffs_length [simp]: "length (sp_diffs xs) = length xs - 1"
  by (simp add: sp_diffs_def)

lemma sp_diffs_nth [simp]: "i + 1 < length xs \<Longrightarrow> sp_diffs xs ! i = xs ! (i + 1) - xs ! i"
  using nth_upt [of 0 i "length xs - 1"] by (simp add: sp_diffs_def)

lemma sp_diffs_pos: "ip_increasing xs \<Longrightarrow> i + 1 < length xs \<Longrightarrow> 0 < sp_diffs xs ! i"
  using increasing_nth_less [of xs i "i + 1"] by simp

lemma sp_tdma_coef_nth:
  "i < n - 3 \<Longrightarrow> tdma_a (sp_tdma_coef h dv n) ! i = h ! (i + 1)"
  "i < n - 2 \<Longrightarrow> tdma_b (sp_tdma_coef h dv n) ! i = 2 * (h ! i + h ! (i + 1))"
  "i < n - 3 \<Longrightarrow> tdma_c (sp_tdma_coef h dv n) ! i = h ! (i + 1)"
  "i < n - 2 \<Longrightarrow> tdma_d (sp_tdma_coef h dv n) ! i = 6 * (dv ! (i + 1) / h ! (i + 1) - dv ! i / h ! i)"
  "length (tdma_b (sp_tdma_coef h dv n)) = n - 2"
  by (simp_all add: sp_tdma_coef_def)

text \<open>No denominator of the forward pass vanishes.\<close>

lemma sp_den_pos:
  assumes pos: "\<And>i. i < n - 1 \<Longrightarrow> 0 < h ! i" and i: "i < n - 2"
  shows "h ! i < sp_den (sp_tdma_coef h dv n) i \<and>
    (i + 1 < n - 2 \<longrightarrow> \<bar>sp_tdma_p (sp_tdma_coef h dv n) i\<bar> \<le> 1)"
  using i
proof (induction i)
  case 0
  then have "0 < h ! 0" "0 < h ! 1" using pos [of 0] pos [of 1] by simp_all
  then show ?case using 0 by (simp add: sp_tdma_coef_nth sp_tdma_p_den divide_simps)
next
  case (Suc i)
  let ?m = "sp_tdma_coef h dv n"
  from Suc.prems have h: "0 < h ! i" "0 < h ! (i + 1)" "0 < h ! (i + 2)"
    using pos [of i] pos [of "i + 1"] pos [of "i + 2"] by simp_all
  from Suc have "\<bar>sp_tdma_p ?m i\<bar> \<le> 1" by simp
  then have "- 1 \<le> sp_tdma_p ?m i" by linarith
  with h(2) have "h ! (i + 1) * - 1 \<le> h ! (i + 1) * sp_tdma_p ?m i" by (intro mult_left_mono) simp_all
  then have den: "h ! (i + 1) < sp_den ?m (Suc i)"
    using Suc.prems h by (simp add: sp_tdma_coef_nth)
  moreover have "\<bar>sp_tdma_p ?m (Suc i)\<bar> \<le> 1"
    using Suc.prems h den by (simp add: sp_tdma_p_den sp_tdma_coef_nth divide_simps del: sp_den.simps)
  ultimately show ?case by simp
qed

lemma sp_calc_v_length: "2 \<le> n \<Longrightarrow> length (sp_calc_v h dv n) = n"
proof -
  assume n: "2 \<le> n"
  have "2 < n \<Longrightarrow> tdma_b (sp_tdma_coef h dv n) \<noteq> []"
    using sp_tdma_coef_nth(5) [of h dv n] by force
  with n show ?thesis by (auto simp: sp_calc_v_def sp_solve_length sp_tdma_coef_nth(5))
qed

lemma sp_calc_v_ends:
  assumes "2 \<le> n"
  shows "sp_calc_v h dv n ! 0 = 0" and "sp_calc_v h dv n ! (n - 1) = 0"
proof -
  show "sp_calc_v h dv n ! 0 = 0" by (simp add: sp_calc_v_def)
  have ne: "sp_calc_v h dv n \<noteq> []" and lst: "last (sp_calc_v h dv n) = 0" by (auto simp: sp_calc_v_def)
  show "sp_calc_v h dv n ! (n - 1) = 0"
    using last_conv_nth [OF ne] lst sp_calc_v_length [OF assms] by simp
qed

lemma sp_calc_v_inner:
  assumes "i < n - 2"
  shows "sp_calc_v h dv n ! (i + 1) = sp_solveTridiagonalMatrixAlgorithm (sp_tdma_coef h dv n) ! i"
proof -
  have "tdma_b (sp_tdma_coef h dv n) \<noteq> []"
    using assms sp_tdma_coef_nth(5) [of h dv n] by force
  moreover have "2 < n" using assms by simp
  ultimately show ?thesis
    using assms by (simp add: sp_calc_v_def nth_append sp_solve_length sp_tdma_coef_nth(5))
qed

text \<open>
  The equation that holds at an interior knot: the one the README states, plus an error on its
  right-hand side that the solver makes at all interior knots but the first and the last.
\<close>

lemma sp_knot_equation:
  assumes pos: "\<And>i. i < n - 1 \<Longrightarrow> 0 < h ! i" and k: "0 < k" "k < n - 1"
    and v: "v = sp_calc_v h dv n"
  shows "h ! (k - 1) * v ! (k - 1) + 2 * (h ! (k - 1) + h ! k) * v ! k + h ! k * v ! (k + 1) =
    6 * (dv ! k / h ! k - dv ! (k - 1) / h ! (k - 1)) +
    (if 2 \<le> k \<and> k + 2 < n then (h ! k - h ! (k - 1)) * v ! (k + 1) else 0)"
proof -
  let ?m = "sp_tdma_coef h dv n"
  let ?x = "sp_solveTridiagonalMatrixAlgorithm ?m"
  from k obtain i where i: "k = i + 1" "i < n - 2" by (cases k) auto
  have n: "2 < n" using k by simp
  have len: "length (tdma_b ?m) = n - 2" by (rule sp_tdma_coef_nth(5))
  have ne: "sp_den ?m j \<noteq> 0" if "j < n - 2" for j
  proof -
    from that have "0 < h ! j" by (intro pos) simp
    with sp_den_pos [of n h j dv] pos that show ?thesis by fastforce
  qed
  have vx: "v ! (j + 1) = ?x ! j" if "j < n - 2" for j using sp_calc_v_inner [OF that] v by simp
  have v0: "v ! 0 = 0" and vn: "v ! (n - 1) = 0" using sp_calc_v_ends [of n h dv] n v by simp_all
  note coef = sp_tdma_coef_nth
  consider (single) "n = 3" | (first) "i = 0" "3 < n" | (last) "0 < i" "i = n - 3"
    | (middle) "0 < i" "i < n - 3" using i n by linarith
  then show ?thesis
  proof cases
    case single
    then have "?x ! 0 = tdma_d ?m ! 0 / tdma_b ?m ! 0"
      using len by (simp add: sp_solveTridiagonalMatrixAlgorithm_def)
    then have "tdma_b ?m ! 0 * ?x ! 0 = tdma_d ?m ! 0" using ne [of 0] single by simp
    then show ?thesis using single i vx [of 0] v0 vn coef(2,4) [of 0 n] by (simp add: numeral_eq_Suc)
  next
    case first
    then show ?thesis
      using sp_solve_first_row [of ?m ?x] ne [of 0] len i vx [of 0] vx [of 1] v0 coef(1-4) [of 0 n h dv]
      by (simp add: numeral_eq_Suc)
  next
    case last
    then have sub: "n - 2 - 1 = i" "n - 2 - 2 = i - 1" "n - 1 = i + 2" "i - 1 + 1 = i" by simp_all
    show ?thesis
      using sp_solve_last_row [of ?m ?x] ne [of i] len i vx [of i] vx [of "i - 1"] vn last sub
        coef(1) [of "i - 1" n] coef(2,4) [of i n] by simp
  next
    case middle
    then have sub: "i - 1 + 1 = i" "Suc (Suc (Suc i)) < n" by simp_all
    show ?thesis
      using sp_solve_row [of ?m i ?x] ne [of i] len i vx [of i] vx [of "i - 1"] vx [of "i + 1"] middle sub
        coef(1,3) [of "i - 1" n] coef(2,4) [of i n] coef(3) [of i n] by simp
  qed
qed

section \<open>Values and derivatives at the knots\<close>

definition sp_valid :: "real list \<Rightarrow> real list \<Rightarrow> bool" where
  "sp_valid base_keys base_values \<longleftrightarrow> 2 \<le> length base_keys \<and> ip_increasing base_keys \<and>
     length base_values = length base_keys"

definition sp_v :: "real list \<Rightarrow> real list \<Rightarrow> real list" where
  "sp_v base_keys base_values =
     sp_calc_v (sp_diffs base_keys) (sp_diffs base_values) (length base_keys)"

lemma sp_coefficients_nth:
  assumes "sp_valid xs ys" and "k + 1 < length xs" and "s = sp_coefficients xs ys"
    and "h = xs ! (k + 1) - xs ! k"
  shows "sp_a s ! k = (sp_v xs ys ! (k + 1) - sp_v xs ys ! k) / 6 / h"
    and "sp_b s ! k = sp_v xs ys ! k / 2"
    and "sp_c s ! k = (ys ! (k + 1) - ys ! k) / h - h * (2 * sp_v xs ys ! k + sp_v xs ys ! (k + 1)) / 6"
    and "sp_d s ! k = ys ! k"
  using assms less_diff_conv [of k "length xs" 1]
  by (simp_all add: sp_coefficients_def sp_v_def sp_valid_def Let_def)

lemma sp_coefficients_keys [simp]: "sp_base_keys (sp_coefficients xs ys) = xs"
  by (simp add: sp_coefficients_def Let_def)

text \<open>The cubic of one segment, at its right end.\<close>

lemma sp_cubic_right:
  fixes h :: real
  assumes "h \<noteq> 0"
  shows "y + ((y' - y) / h - h * (2 * v + v') / 6 + (v / 2 + (v' - v) / 6 / h * h) * h) * h = y'"
    and "(y' - y) / h - h * (2 * v + v') / 6 + (2 * (v / 2) + 3 * ((v' - v) / 6 / h) * h) * h =
      (y' - y) / h + h * (v + 2 * v') / 6"
    and "2 * (v / 2) + 6 * ((v' - v) / 6 / h) * h = v'"
  using assms by (simp_all add: field_simps)

lemma sp_at_left:
  assumes "sp_valid xs ys" and "k + 1 < length xs"
  shows "sp_value_at (sp_coefficients xs ys) k (xs ! k) = ys ! k"
    and "sp_diff_at (sp_coefficients xs ys) k (xs ! k) =
      (ys ! (k + 1) - ys ! k) / (xs ! (k + 1) - xs ! k)
      - (xs ! (k + 1) - xs ! k) * (2 * sp_v xs ys ! k + sp_v xs ys ! (k + 1)) / 6"
    and "sp_quad_diff_at (sp_coefficients xs ys) k (xs ! k) = sp_v xs ys ! k"
  using sp_coefficients_nth [OF assms refl refl]
  by (simp_all add: sp_value_at_def sp_diff_at_def sp_quad_diff_at_def)

lemma sp_at_right:
  assumes "sp_valid xs ys" and "k + 1 < length xs"
  shows "sp_value_at (sp_coefficients xs ys) k (xs ! (k + 1)) = ys ! (k + 1)"
    and "sp_diff_at (sp_coefficients xs ys) k (xs ! (k + 1)) =
      (ys ! (k + 1) - ys ! k) / (xs ! (k + 1) - xs ! k)
      + (xs ! (k + 1) - xs ! k) * (sp_v xs ys ! k + 2 * sp_v xs ys ! (k + 1)) / 6"
    and "sp_quad_diff_at (sp_coefficients xs ys) k (xs ! (k + 1)) = sp_v xs ys ! (k + 1)"
proof -
  have "xs ! (k + 1) - xs ! k \<noteq> 0"
    using assms increasing_nth_less [of xs k "k + 1"] by (auto simp: sp_valid_def)
  note sp_cubic_right [OF this]
  then show "sp_value_at (sp_coefficients xs ys) k (xs ! (k + 1)) = ys ! (k + 1)"
    "sp_diff_at (sp_coefficients xs ys) k (xs ! (k + 1)) =
      (ys ! (k + 1) - ys ! k) / (xs ! (k + 1) - xs ! k)
      + (xs ! (k + 1) - xs ! k) * (sp_v xs ys ! k + 2 * sp_v xs ys ! (k + 1)) / 6"
    "sp_quad_diff_at (sp_coefficients xs ys) k (xs ! (k + 1)) = sp_v xs ys ! (k + 1)"
    unfolding sp_value_at_def sp_diff_at_def sp_quad_diff_at_def Let_def sp_coefficients_keys
      sp_coefficients_nth [OF assms refl refl] by blast+
qed

lemma sp_second_derivative_continuous:
  assumes "sp_valid xs ys" and "0 < k" and "k + 1 < length xs"
  shows "sp_quad_diff_at (sp_coefficients xs ys) (k - 1) (xs ! k) =
    sp_quad_diff_at (sp_coefficients xs ys) k (xs ! k)"
  using sp_at_right(3) [OF assms(1), of "k - 1"] sp_at_left(3) [OF assms(1,3)] assms by simp

lemma sp_jump_arith:
  fixes D :: real
  assumes "H * vp + 2 * (H + H') * v + H' * vn = 6 * (D' - D) + e"
  shows "D' - H' * (2 * v + vn) / 6 - (D + H * (vp + 2 * v) / 6) = - e / 6"
  using assms by (simp add: field_simps)

text \<open>
  The first derivative at an interior knot: the segments on its two sides agree at the first and the
  last interior knot; at the others they differ by the difference of the two steps times a sixth of
  the second derivative at the next knot.
\<close>

lemma sp_derivative_jump:
  assumes valid: "sp_valid xs ys" and k: "0 < k" "k + 1 < length xs"
  shows "sp_diff_at (sp_coefficients xs ys) k (xs ! k) -
      sp_diff_at (sp_coefficients xs ys) (k - 1) (xs ! k) =
    (if 2 \<le> k \<and> k + 2 < length xs
     then ((xs ! k - xs ! (k - 1)) - (xs ! (k + 1) - xs ! k)) * sp_v xs ys ! (k + 1) / 6 else 0)"
proof -
  have pos: "0 < sp_diffs xs ! i" if "i < length xs - 1" for i
    using valid that sp_diffs_pos [of xs i] by (simp add: sp_valid_def)
  have len: "length ys = length xs" using valid by (simp add: sp_valid_def)
  have "k < length xs - 1" using k by simp
  note eq = sp_knot_equation [of "length xs" "sp_diffs xs" k, OF pos k(1) this refl, of "sp_diffs ys"]
  have sub: "k - 1 + 1 = k" using k by simp
  have d: "sp_diffs xs ! (k - 1) = xs ! k - xs ! (k - 1)" "sp_diffs xs ! k = xs ! (k + 1) - xs ! k"
    "sp_diffs ys ! (k - 1) = ys ! k - ys ! (k - 1)" "sp_diffs ys ! k = ys ! (k + 1) - ys ! k"
    using sp_diffs_nth [of "k - 1" xs] sp_diffs_nth [of k xs] sp_diffs_nth [of "k - 1" ys]
      sp_diffs_nth [of k ys] k len sub by simp_all
  have l: "sp_diff_at (sp_coefficients xs ys) (k - 1) (xs ! k) =
      (ys ! k - ys ! (k - 1)) / (xs ! k - xs ! (k - 1))
      + (xs ! k - xs ! (k - 1)) * (sp_v xs ys ! (k - 1) + 2 * sp_v xs ys ! k) / 6"
    using sp_at_right(2) [OF valid, of "k - 1"] k sub by simp
  show ?thesis
    unfolding l sp_at_left(2) [OF valid k(2)]
    by (subst sp_jump_arith [OF eq [folded sp_v_def, unfolded d]],
        cases "2 \<le> k \<and> k + 2 < length xs") (simp_all add: field_simps)
qed

text \<open>Over equidistant keys the spline is twice continuously differentiable.\<close>

lemma sp_uniform_smooth:
  assumes "sp_valid xs ys" and "0 < k" and "k + 1 < length xs"
    and "xs ! (k + 1) - xs ! k = xs ! k - xs ! (k - 1)"
  shows "sp_value_at (sp_coefficients xs ys) (k - 1) (xs ! k) =
      sp_value_at (sp_coefficients xs ys) k (xs ! k)"
    and "sp_diff_at (sp_coefficients xs ys) (k - 1) (xs ! k) =
      sp_diff_at (sp_coefficients xs ys) k (xs ! k)"
proof -
  show "sp_value_at (sp_coefficients xs ys) (k - 1) (xs ! k) =
      sp_value_at (sp_coefficients xs ys) k (xs ! k)"
    using sp_at_right(1) [OF assms(1), of "k - 1"] sp_at_left(1) [OF assms(1,3)] assms(2,3) by simp
  show "sp_diff_at (sp_coefficients xs ys) (k - 1) (xs ! k) =
      sp_diff_at (sp_coefficients xs ys) k (xs ! k)"
    using sp_derivative_jump [OF assms(1-3)] assms(4) by (simp split: if_splits)
qed

text \<open>The spline over increasing keys. At every interior knot \<open>k\<close> the two segments that meet there
  agree in their value and in their second derivative; they agree in their first derivative exactly
  when \<open>k\<close> is the first or the last interior knot, the two steps next to it are equal, or the second
  derivative at the next knot is zero. So over keys that are not equidistant the first derivative jumps,
  although the README asks for \<open>Y'_i (x_{i+1}) = Y'_{i+1} (x_{i+1})\<close> at every knot: the forward pass of
  the tridiagonal solver uses \<open>c[i - 1]\<close> in the place of \<open>c[i]\<close>.\<close>

theorem sp_derivative_continuous_iff:
  assumes "sp_valid xs ys" and "0 < k" and "k + 1 < length xs" and "s = sp_coefficients xs ys"
  shows "sp_value_at s (k - 1) (xs ! k) = sp_value_at s k (xs ! k) \<and>
    sp_quad_diff_at s (k - 1) (xs ! k) = sp_quad_diff_at s k (xs ! k) \<and>
    (sp_diff_at s (k - 1) (xs ! k) = sp_diff_at s k (xs ! k) \<longleftrightarrow>
       k = 1 \<or> k + 2 = length xs \<or> xs ! (k + 1) - xs ! k = xs ! k - xs ! (k - 1) \<or>
       sp_quad_diff_at s k (xs ! (k + 1)) = 0)"
proof -
  have "sp_value_at s (k - 1) (xs ! k) = sp_value_at s k (xs ! k)"
    using sp_at_right(1) [OF assms(1), of "k - 1"] sp_at_left(1) [OF assms(1,3)] assms(2-4) by simp
  moreover have "sp_quad_diff_at s (k - 1) (xs ! k) = sp_quad_diff_at s k (xs ! k)"
    using sp_second_derivative_continuous [OF assms(1-3)] assms(4) by simp
  moreover have "sp_diff_at s (k - 1) (xs ! k) = sp_diff_at s k (xs ! k) \<longleftrightarrow>
       k = 1 \<or> k + 2 = length xs \<or> xs ! (k + 1) - xs ! k = xs ! k - xs ! (k - 1) \<or>
       sp_quad_diff_at s k (xs ! (k + 1)) = 0"
    using sp_derivative_jump [OF assms(1-3)] sp_at_right(3) [OF assms(1,3)] assms(2-4)
    by (auto split: if_splits)
  ultimately show ?thesis by blast
qed

theorem sp_derivative_continuous_iff_witness:
  "sp_diff_at (sp_coefficients [0, 1, 2, 4, 5] [0, 0, 0, 1, 0]) 1 2 \<noteq>
   sp_diff_at (sp_coefficients [0, 1, 2, 4, 5] [0, 0, 0, 1, 0]) 2 2"
proof -
  have "sp_valid [0, 1, 2, 4, 5] [0, 0, 0, 1, 0]" by (simp add: sp_valid_def)
  moreover have "sp_quad_diff_at (sp_coefficients [0, 1, 2, 4, 5] [0, 0, 0, 1, 0]) 2 4 \<noteq> 0"
    by (simp add: sp_quad_diff_at_def sp_coefficients_def sp_calc_v_def sp_tdma_coef_def
        sp_solveTridiagonalMatrixAlgorithm_def sp_diffs_def Let_def upt_rec numeral_eq_Suc)
  ultimately show ?thesis
    using sp_derivative_continuous_iff [of "[0, 1, 2, 4, 5]" "[0, 0, 0, 1, 0]" 2] by simp
qed

section \<open>Akima's spline is continuously differentiable\<close>

abbreviation sp_akima_slope :: "real list \<Rightarrow> real list \<Rightarrow> nat \<Rightarrow> real" where
  "sp_akima_slope xs ys k \<equiv> sp_akima_s (sp_akima_m xs ys) (length xs) k"

lemma sp_akima_nth:
  assumes "k + 1 < length xs" and "s = sp_akima_coefficients xs ys"
    and "h = xs ! (k + 1) - xs ! k" and "m = (ys ! (k + 1) - ys ! k) / h"
  shows "sp_a s ! k = (sp_akima_slope xs ys k + sp_akima_slope xs ys (k + 1) - 2 * m) / h\<^sup>2"
    and "sp_b s ! k = (3 * m - 2 * sp_akima_slope xs ys k - sp_akima_slope xs ys (k + 1)) / h"
    and "sp_c s ! k = sp_akima_slope xs ys k" and "sp_d s ! k = ys ! k" and "sp_base_keys s = xs"
proof -
  have "k < length xs - 1" using assms(1) by simp
  then have "sp_akima_m xs ys ! k = m" using assms by (simp add: sp_akima_m_def)
  with \<open>k < length xs - 1\<close> assms(1-3)
  show "sp_a s ! k = (sp_akima_slope xs ys k + sp_akima_slope xs ys (k + 1) - 2 * m) / h\<^sup>2"
    "sp_b s ! k = (3 * m - 2 * sp_akima_slope xs ys k - sp_akima_slope xs ys (k + 1)) / h"
    "sp_c s ! k = sp_akima_slope xs ys k" "sp_d s ! k = ys ! k" "sp_base_keys s = xs"
    by (simp_all add: sp_akima_coefficients_def Let_def)
qed

lemma sp_hermite_right:
  fixes h :: real
  assumes "h \<noteq> 0"
  shows "y + (u + ((3 * ((y' - y) / h) - 2 * u - w) / h + (u + w - 2 * ((y' - y) / h)) / h\<^sup>2 * h) * h) * h = y'"
    and "u + (2 * ((3 * ((y' - y) / h) - 2 * u - w) / h) + 3 * ((u + w - 2 * ((y' - y) / h)) / h\<^sup>2) * h) * h = w"
  using assms by (simp_all add: field_simps power2_eq_square)

lemma sp_akima_at_ends:
  assumes "ip_increasing xs" and "k + 1 < length xs"
  shows "sp_value_at (sp_akima_coefficients xs ys) k (xs ! k) = ys ! k"
    and "sp_value_at (sp_akima_coefficients xs ys) k (xs ! (k + 1)) = ys ! (k + 1)"
    and "sp_diff_at (sp_akima_coefficients xs ys) k (xs ! k) = sp_akima_slope xs ys k"
    and "sp_diff_at (sp_akima_coefficients xs ys) k (xs ! (k + 1)) = sp_akima_slope xs ys (k + 1)"
proof -
  note nth = sp_akima_nth [OF assms(2) refl refl refl]
  show "sp_value_at (sp_akima_coefficients xs ys) k (xs ! k) = ys ! k"
    "sp_diff_at (sp_akima_coefficients xs ys) k (xs ! k) = sp_akima_slope xs ys k"
    using nth by (simp_all add: sp_value_at_def sp_diff_at_def)
  have "xs ! (k + 1) - xs ! k \<noteq> 0" using increasing_nth_less [OF assms(1), of k "k + 1"] assms(2) by auto
  note sp_hermite_right [OF this]
  then show "sp_value_at (sp_akima_coefficients xs ys) k (xs ! (k + 1)) = ys ! (k + 1)"
    "sp_diff_at (sp_akima_coefficients xs ys) k (xs ! (k + 1)) = sp_akima_slope xs ys (k + 1)"
    unfolding sp_value_at_def sp_diff_at_def Let_def nth by blast+
qed

lemma sp_akima_at_keys:
  assumes "sp_valid xs ys"
  shows "sp_splineByAkima xs ys xs = Inr ys"
proof -
  from assms have v: "2 \<le> length xs" "ip_increasing xs" "length ys = length xs"
    by (simp_all add: sp_valid_def)
  then have "xs \<noteq> []" "length xs \<noteq> 1" by auto
  moreover have "ip_loop (sp_value_at (sp_akima_coefficients xs ys)) xs 0 xs = Inr ys"
    by (rule ip_loop_at_keys [OF v sp_akima_at_ends(1,2) [OF v(2)]])
  ultimately show ?thesis using v by (simp add: sp_splineByAkima_def)
qed

lemma sp_akima_smooth:
  assumes "ip_increasing xs" and "0 < k" and "k + 1 < length xs"
  shows "sp_diff_at (sp_akima_coefficients xs ys) (k - 1) (xs ! k) =
    sp_diff_at (sp_akima_coefficients xs ys) k (xs ! k)"
  using sp_akima_at_ends(4) [OF assms(1), of "k - 1" ys] sp_akima_at_ends(3) [OF assms(1,3), of ys]
    assms(2,3) by simp

text \<open>C32: The natural spline and Akima's spline over strictly increasing keys (at least two, with as many
  values) pass through all their points: interpolating at the base keys returns the base values and
  throws nothing.\<close>

theorem sp_spline_at_keys:
  assumes "sp_valid xs ys"
  shows "sp_spline xs ys xs = Inr ys \<and> sp_splineByAkima xs ys xs = Inr ys"
proof -
  from assms have v: "2 \<le> length xs" "ip_increasing xs" "length ys = length xs"
    by (simp_all add: sp_valid_def)
  have "ip_validateKeysAndValues xs ys = Inr ()"
    using v by (auto simp: ip_validateKeysAndValues_def)
  moreover have "ip_loop (sp_value_at (sp_coefficients xs ys)) xs 0 xs = Inr ys"
    by (rule ip_loop_at_keys [OF v sp_at_left(1) [OF assms] sp_at_right(1) [OF assms]])
  ultimately show ?thesis
    by (simp add: sp_akima_at_keys [OF assms] sp_spline_def sp_calcSplineCoefficients_def sp_getSplineInterpolatedValues_def
        ip_validateKeys_valid ip_valid_keys v)
qed

theorem sp_spline_at_keys_witness:
  "sp_spline [0, 1, 3] [5, 7, 2] [0, 1, 3] = Inr [5, 7, 2] \<and>
   sp_splineByAkima [0, 1, 3] [5, 7, 2] [0, 1, 3] = Inr [5, 7, 2]"
  using sp_spline_at_keys [of "[0, 1, 3]" "[5, 7, 2]"] by (simp add: sp_valid_def del: err_bind_Inr_iff)

end
