(* ===== verification/Spline_Points_2d.thy ===== *)
theory Spline_Points_2d
  imports Spline_Interpolation Trajectory_Geometry
begin

text \<open>
  \<open>common/interpolation/src/spline_interpolation_points_2d.cpp\<close>: the spline through a sequence of
  points in the plane, over the length travelled.  \<open>std::pow\<close> with exponent 1.5 is \<open>powr\<close>, and
  the quaternion of a yaw angle is the angle itself.
\<close>

record sq_pose =
  ps_position :: point
  ps_yaw :: real

section \<open>Keys and values of the points\<close>

fun sq_euclid_from :: "real \<Rightarrow> real list \<Rightarrow> real list \<Rightarrow> real list" where
  "sq_euclid_from d (x # x' # xs) (y # y' # ys) =
     d # sq_euclid_from (d + std_hypot (x' - x) (y' - y)) (x' # xs) (y' # ys)"
| "sq_euclid_from d _ _ = [d]"

definition sq_calcEuclidDist :: "real list \<Rightarrow> real list \<Rightarrow> real list" where
  "sq_calcEuclidDist x y = (if length x \<noteq> length y then [] else sq_euclid_from 0 x y)"

definition sq_overlaps :: "point \<Rightarrow> point \<Rightarrow> bool" where
  "sq_overlaps current_pos prev_pos \<longleftrightarrow>
     \<bar>pt_x current_pos - pt_x prev_pos\<bar> < 1 / 1000000 \<and> \<bar>pt_y current_pos - pt_y prev_pos\<bar> < 1 / 1000000"

text \<open>The points that are kept; each is compared with the point before it in the input, kept or not.\<close>

fun sq_kept_from :: "point \<Rightarrow> point list \<Rightarrow> point list" where
  "sq_kept_from prev_pos [] = []"
| "sq_kept_from prev_pos (p # ps) =
     (if sq_overlaps p prev_pos then sq_kept_from p ps else p # sq_kept_from p ps)"

fun sq_kept :: "point list \<Rightarrow> point list" where
  "sq_kept [] = []"
| "sq_kept (p # ps) = p # sq_kept_from p ps"

definition sq_getBaseValues ::
  "point list \<Rightarrow> ip_error + real list \<times> real list \<times> real list \<times> real list" where
  "sq_getBaseValues points =
     (let base_x = map pt_x (sq_kept points); base_y = map pt_y (sq_kept points);
          base_z = map pt_z (sq_kept points)
      in if length base_x < 2 \<or> length base_y < 2 \<or> length base_z < 2
         then Inl IP_NotEnoughUniquePoints
         else Inr (sq_calcEuclidDist base_x base_y, base_x, base_y, base_z))"

section \<open>The class\<close>

record sq_interpolation =
  sq_spline_x :: sp_interpolation
  sq_spline_y :: sp_interpolation
  sq_spline_z :: sp_interpolation
  sq_base_s_vec :: "real list"

definition sq_calcSplineCoefficientsInner :: "point list \<Rightarrow> ip_error + sq_interpolation" where
  "sq_calcSplineCoefficientsInner points =
     err_bind (sq_getBaseValues points) (\<lambda>(base_s, base_x, base_y, base_z).
       err_bind (sp_calcSplineCoefficients base_s base_x) (\<lambda>x.
         err_bind (sp_calcSplineCoefficients base_s base_y) (\<lambda>y.
           err_bind (sp_calcSplineCoefficients base_s base_z) (\<lambda>z.
             Inr \<lparr> sq_spline_x = x, sq_spline_y = y, sq_spline_z = z, sq_base_s_vec = base_s \<rparr>))))"

definition sq_getSize :: "sq_interpolation \<Rightarrow> nat" where
  "sq_getSize s = length (sq_base_s_vec s)"

text \<open>One value: the result of a query list of one element, read with \<open>at(0)\<close>.\<close>

definition sq_one :: "(real list \<Rightarrow> ip_error + real list) \<Rightarrow> real \<Rightarrow> ip_error + real" where
  "sq_one f whole_s = err_bind (f [whole_s]) (\<lambda>vs. if vs = [] then Inl IP_OutOfRange else Inr (vs ! 0))"

definition sq_getSplineInterpolatedPoint ::
  "sq_interpolation \<Rightarrow> nat \<Rightarrow> real \<Rightarrow> ip_error + point" where
  "sq_getSplineInterpolatedPoint s idx d =
     (if length (sq_base_s_vec s) \<le> idx then Inl IP_OutOfRange
      else let w0 = sq_base_s_vec s ! idx + d;
               w1 = (if w0 < hd (sq_base_s_vec s) then hd (sq_base_s_vec s) else w0);
               whole_s = (if last (sq_base_s_vec s) < w1 then last (sq_base_s_vec s) else w1)
        in err_bind (sq_one (sp_getSplineInterpolatedValues (sq_spline_x s)) whole_s) (\<lambda>x.
             err_bind (sq_one (sp_getSplineInterpolatedValues (sq_spline_y s)) whole_s) (\<lambda>y.
               err_bind (sq_one (sp_getSplineInterpolatedValues (sq_spline_z s)) whole_s) (\<lambda>z.
                 Inr \<lparr> pt_x = x, pt_y = y, pt_z = z \<rparr>))))"

definition sq_getSplineInterpolatedYaw :: "sq_interpolation \<Rightarrow> nat \<Rightarrow> real \<Rightarrow> ip_error + real" where
  "sq_getSplineInterpolatedYaw s idx d =
     (if length (sq_base_s_vec s) \<le> idx then Inl IP_OutOfRange
      else let whole_s = std_clamp (sq_base_s_vec s ! idx + d) (hd (sq_base_s_vec s)) (last (sq_base_s_vec s))
        in err_bind (sq_one (sp_getSplineInterpolatedDiffValues (sq_spline_x s)) whole_s) (\<lambda>diff_x.
             err_bind (sq_one (sp_getSplineInterpolatedDiffValues (sq_spline_y s)) whole_s) (\<lambda>diff_y.
               Inr (std_atan2 diff_y diff_x))))"

definition sq_getSplineInterpolatedPose :: "sq_interpolation \<Rightarrow> nat \<Rightarrow> real \<Rightarrow> ip_error + sq_pose" where
  "sq_getSplineInterpolatedPose s idx d =
     err_bind (sq_getSplineInterpolatedPoint s idx d) (\<lambda>position.
       err_bind (sq_getSplineInterpolatedYaw s idx d) (\<lambda>yaw.
         Inr \<lparr> ps_position = position, ps_yaw = yaw \<rparr>))"

fun sq_collect :: "(nat \<Rightarrow> ip_error + 'a) \<Rightarrow> nat list \<Rightarrow> ip_error + 'a list" where
  "sq_collect f [] = Inr []"
| "sq_collect f (i # is) = err_bind (f i) (\<lambda>v. err_bind (sq_collect f is) (\<lambda>vs. Inr (v # vs)))"

definition sq_getSplineInterpolatedYaws :: "sq_interpolation \<Rightarrow> ip_error + real list" where
  "sq_getSplineInterpolatedYaws s =
     sq_collect (\<lambda>i. sq_getSplineInterpolatedYaw s i 0) [0..<length (sp_base_keys (sq_spline_x s))]"

definition sq_getSplineInterpolatedCurvature :: "sq_interpolation \<Rightarrow> nat \<Rightarrow> real \<Rightarrow> ip_error + real" where
  "sq_getSplineInterpolatedCurvature s idx d =
     (if length (sq_base_s_vec s) \<le> idx then Inl IP_OutOfRange
      else let whole_s = std_clamp (sq_base_s_vec s ! idx + d) (hd (sq_base_s_vec s)) (last (sq_base_s_vec s))
        in err_bind (sq_one (sp_getSplineInterpolatedDiffValues (sq_spline_x s)) whole_s) (\<lambda>diff_x.
             err_bind (sq_one (sp_getSplineInterpolatedDiffValues (sq_spline_y s)) whole_s) (\<lambda>diff_y.
               err_bind (sq_one (sp_getSplineInterpolatedQuadDiffValues (sq_spline_x s)) whole_s) (\<lambda>quad_diff_x.
                 err_bind (sq_one (sp_getSplineInterpolatedQuadDiffValues (sq_spline_y s)) whole_s) (\<lambda>quad_diff_y.
                   Inr ((diff_x * quad_diff_y - quad_diff_x * diff_y) /
                     (diff_x\<^sup>2 + diff_y\<^sup>2) powr (3 / 2)))))))"

definition sq_getSplineInterpolatedCurvatures :: "sq_interpolation \<Rightarrow> ip_error + real list" where
  "sq_getSplineInterpolatedCurvatures s =
     sq_collect (\<lambda>i. sq_getSplineInterpolatedCurvature s i 0) [0..<length (sp_base_keys (sq_spline_x s))]"

fun sq_offset_from :: "real list \<Rightarrow> real \<Rightarrow> nat \<Rightarrow> nat option" where
  "sq_offset_from [] whole_s i = None"
| "sq_offset_from (x # xs) whole_s i = (if whole_s < x then Some i else sq_offset_from xs whole_s (i + 1))"

definition sq_getOffsetIndex :: "sq_interpolation \<Rightarrow> nat \<Rightarrow> real \<Rightarrow> ip_error + nat" where
  "sq_getOffsetIndex s idx off =
     (if length (sq_base_s_vec s) \<le> idx then Inl IP_OutOfRange
      else case sq_offset_from (sq_base_s_vec s) (sq_base_s_vec s ! idx + off) 0 of
          Some i \<Rightarrow> Inr i | None \<Rightarrow> Inr (length (sq_base_s_vec s) - 1))"

definition sq_getAccumulatedLength :: "sq_interpolation \<Rightarrow> nat \<Rightarrow> ip_error + real" where
  "sq_getAccumulatedLength s idx =
     (if length (sq_base_s_vec s) \<le> idx then Inl IP_OutOfRange else Inr (sq_base_s_vec s ! idx))"

section \<open>Free functions\<close>

definition sq_splineYawFromPoints :: "point list \<Rightarrow> ip_error + real list" where
  "sq_splineYawFromPoints points =
     err_bind (sq_calcSplineCoefficientsInner points) (\<lambda>interpolator.
       sq_collect (\<lambda>i. sq_getSplineInterpolatedYaw interpolator i 0) [0..<length points])"

definition sq_slerp2dFromXY ::
  "real list \<Rightarrow> real list \<Rightarrow> real list \<Rightarrow> real list \<Rightarrow> ip_error + real list \<times> real list \<times> real list" where
  "sq_slerp2dFromXY base_keys base_x_values base_y_values query_keys =
     err_bind (sp_calcSplineCoefficients base_keys base_x_values) (\<lambda>interpolator_x.
       err_bind (sp_calcSplineCoefficients base_keys base_y_values) (\<lambda>interpolator_y.
         err_bind (sp_getSplineInterpolatedDiffValues interpolator_x query_keys) (\<lambda>diff_x.
           err_bind (sp_getSplineInterpolatedDiffValues interpolator_y query_keys) (\<lambda>diff_y.
             let yaw_vec = map (\<lambda>i. std_atan2 (diff_y ! i) (diff_x ! i)) [0..<length diff_x]
             in err_bind (sp_getSplineInterpolatedValues interpolator_x query_keys) (\<lambda>xs.
                  err_bind (sp_getSplineInterpolatedValues interpolator_y query_keys) (\<lambda>ys.
                    Inr (xs, ys, yaw_vec)))))))"

section \<open>Lengths\<close>

lemma sq_euclid_from_length:
  "length x = length y \<Longrightarrow> x \<noteq> [] \<Longrightarrow> length (sq_euclid_from d x y) = length x"
  by (induction d x y rule: sq_euclid_from.induct) auto

lemma sq_getBaseValues_length:
  "sq_getBaseValues points = Inr (base_s, base_x, base_y, base_z) \<Longrightarrow>
   length base_s = length (sq_kept points)"
  using sq_euclid_from_length [of "map pt_x (sq_kept points)" "map pt_y (sq_kept points)" 0]
  by (cases "sq_kept points = []")
    (auto simp: sq_getBaseValues_def sq_calcEuclidDist_def Let_def split: if_splits)

lemma sq_calc_size:
  "sq_calcSplineCoefficientsInner points = Inr s \<Longrightarrow> length (sq_base_s_vec s) = length (sq_kept points)"
  using sq_getBaseValues_length by (auto simp: sq_calcSplineCoefficientsInner_def)

lemma sq_collect_throws:
  "i \<in> set is \<Longrightarrow> f i = Inl e \<Longrightarrow> \<exists>e. sq_collect f is = Inl e"
proof (induction "is")
  case (Cons j "is")
  show ?case
  proof (cases "f j")
    case (Inr v)
    with Cons have "i \<in> set is" by auto
    with Cons obtain e' where "sq_collect f is = Inl e'" by blast
    with Inr show ?thesis by simp
  qed simp
qed simp

text \<open>
  \<open>splineYawFromPoints\<close> asks for a yaw angle at every input point, but the spline has only the
  points that were kept: as soon as one point was skipped, the call throws.
\<close>

lemma sq_yaw_from_points_overlap_throws:
  assumes "length (sq_kept points) < length points"
  shows "\<exists>e. sq_splineYawFromPoints points = Inl e"
proof (cases "sq_calcSplineCoefficientsInner points")
  case (Inr s)
  with assms sq_calc_size have "sq_getSplineInterpolatedYaw s (length (sq_kept points)) 0 = Inl IP_OutOfRange"
    by (simp add: sq_getSplineInterpolatedYaw_def)
  with Inr assms show ?thesis
    using sq_collect_throws [of "length (sq_kept points)" "[0..<length points]"
        "\<lambda>i. sq_getSplineInterpolatedYaw s i 0" IP_OutOfRange]
    by (simp add: sq_splineYawFromPoints_def)
qed (simp add: sq_splineYawFromPoints_def)

section \<open>Points without overlap\<close>

definition sq_apart :: "point list \<Rightarrow> bool" where
  "sq_apart ps \<longleftrightarrow> successively (\<lambda>p q. \<not> sq_overlaps q p) ps"

lemma sq_kept_from_apart: "sq_apart (p # ps) \<Longrightarrow> sq_kept_from p ps = ps"
  by (induction p ps rule: sq_kept_from.induct) (simp_all add: sq_apart_def)

lemma sq_kept_apart: "sq_apart ps \<Longrightarrow> sq_kept ps = ps"
  by (cases ps) (simp_all add: sq_kept_from_apart)

lemma sq_euclid_from_Cons:
  "\<exists>ds. sq_euclid_from d (x # xs) (y # ys) = d # ds"
  by (cases xs; cases ys) simp_all

lemma std_hypot_pos: "\<not> (x = 0 \<and> y = 0) \<Longrightarrow> 0 < std_hypot x y"
  by (simp add: std_hypot_def sum_power2_gt_zero_iff)

lemma sq_euclid_increasing:
  "sq_apart ps \<Longrightarrow> ip_increasing (sq_euclid_from d (map pt_x ps) (map pt_y ps))"
proof (induction ps arbitrary: d rule: induct_list012)
  case (3 p q ps)
  let ?d = "d + std_hypot (pt_x q - pt_x p) (pt_y q - pt_y p)"
  from 3(3) have "\<not> sq_overlaps q p" and ap: "sq_apart (q # ps)" by (simp_all add: sq_apart_def)
  then have "0 < std_hypot (pt_x q - pt_x p) (pt_y q - pt_y p)"
    by (intro std_hypot_pos) (auto simp: sq_overlaps_def)
  moreover obtain ds where "sq_euclid_from ?d (map pt_x (q # ps)) (map pt_y (q # ps)) = ?d # ds"
    using sq_euclid_from_Cons [of ?d "pt_x q" "map pt_x ps" "pt_y q" "map pt_y ps"] by auto
  ultimately show ?case using 3(2) [OF ap, of ?d] by simp
qed simp_all

lemma sq_calc_apart:
  assumes "sq_apart ps" and "2 \<le> length ps"
  shows "\<exists>keys. sq_calcSplineCoefficientsInner ps =
      Inr \<lparr> sq_spline_x = sp_coefficients keys (map pt_x ps), sq_spline_y = sp_coefficients keys (map pt_y ps),
        sq_spline_z = sp_coefficients keys (map pt_z ps), sq_base_s_vec = keys \<rparr> \<and>
    ip_increasing keys \<and> length keys = length ps"
proof -
  let ?keys = "sq_euclid_from 0 (map pt_x ps) (map pt_y ps)"
  have len: "length ?keys = length ps"
    using sq_euclid_from_length [of "map pt_x ps" "map pt_y ps" 0] assms(2) by (cases ps) simp_all
  then have "ip_validateKeysAndValues ?keys ys = Inr ()" if "length ys = length ps" for ys :: "real list"
    using assms(2) that by (auto simp: ip_validateKeysAndValues_def)
  with len assms sq_euclid_increasing [OF assms(1), of 0] show ?thesis
    by (intro exI [of _ ?keys])
      (simp add: sq_calcSplineCoefficientsInner_def sq_getBaseValues_def sq_kept_apart
        sq_calcEuclidDist_def sp_calcSplineCoefficients_def Let_def del: err_bind_Inr_iff)
qed

lemma ip_valid_key:
  assumes "2 \<le> length xs" and "ip_increasing xs" and "i < length xs"
  shows "ip_valid xs [xs ! i]"
  using ip_valid_single [OF assms(1,2)] increasing_hd_last [OF assms(2,3)] by simp

lemma sp_loop_key:
  assumes "2 \<le> length xs" and "ip_increasing xs" and "i < length xs"
  shows "\<exists>k. ip_segment xs (xs ! i) k \<and> ip_loop f xs 0 [xs ! i] = Inr [f k (xs ! i)]"
proof -
  have "xs \<noteq> []" using assms(1) by auto
  then have "xs ! 0 \<le> xs ! i" "xs ! i \<le> last xs"
    using increasing_hd_last [OF assms(2,3)] by (simp_all add: hd_conv_nth)
  then show ?thesis using ip_loop_segments [of "[xs ! i]" xs 0 f] assms(1)
    by (auto simp: list_all2_Cons1)
qed

lemma sp_getValues_key:
  assumes "sp_valid xs ys" and "i < length xs"
  shows "sp_getSplineInterpolatedValues (sp_coefficients xs ys) [xs ! i] = Inr [ys ! i]"
proof -
  from assms(1) have v: "2 \<le> length xs" "ip_increasing xs" by (simp_all add: sp_valid_def)
  obtain k where k: "ip_segment xs (xs ! i) k"
    "ip_loop (sp_value_at (sp_coefficients xs ys)) xs 0 [xs ! i] =
      Inr [sp_value_at (sp_coefficients xs ys) k (xs ! i)]"
    using sp_loop_key [OF v assms(2)] by blast
  then have kl: "k + 1 < length xs" by (simp add: ip_segment_def)
  have "sp_value_at (sp_coefficients xs ys) k (xs ! i) = ys ! i"
    using ip_segment_knot [OF v(2) assms(2) k(1)] sp_at_left(1) [OF assms(1) kl]
      sp_at_right(1) [OF assms(1) kl] by auto
  with k(2) show ?thesis
    by (simp add: sp_getSplineInterpolatedValues_def ip_validateKeys_valid
        ip_valid_key [OF v assms(2)] del: err_bind_Inr_iff)
qed

lemma sp_getDiffValues_key:
  assumes "sp_valid xs ys" and "i < length xs"
  shows "\<exists>r. sp_getSplineInterpolatedDiffValues (sp_coefficients xs ys) [xs ! i] = Inr [r]"
proof -
  from assms(1) have v: "2 \<le> length xs" "ip_increasing xs" by (simp_all add: sp_valid_def)
  obtain k where "ip_loop (sp_diff_at (sp_coefficients xs ys)) xs 0 [xs ! i] =
      Inr [sp_diff_at (sp_coefficients xs ys) k (xs ! i)]"
    using sp_loop_key [OF v assms(2)] by blast
  then show ?thesis
    by (simp add: sp_getSplineInterpolatedDiffValues_def ip_validateKeys_valid
        ip_valid_key [OF v assms(2)] del: err_bind_Inr_iff)
qed

lemma sq_collect_total:
  "(\<And>i. i \<in> set is \<Longrightarrow> \<exists>v. f i = Inr v) \<Longrightarrow> \<exists>vs. sq_collect f is = Inr vs \<and> length vs = length is"
proof (induction "is")
  case (Cons i "is")
  from Cons.prems [of i] obtain v where v: "f i = Inr v" by auto
  from Cons obtain vs where "sq_collect f is = Inr vs" "length vs = length is" by auto
  with v show ?case by simp
qed simp

text \<open>
  Over at least two points no two neighbours of which overlap, the spline passes through every
  point, and a yaw angle is found at every point.
\<close>

lemma sq_through_points:
  assumes "sq_apart ps" and "2 \<le> length ps" and "i < length ps"
  shows "\<exists>s. sq_calcSplineCoefficientsInner ps = Inr s \<and> sq_getSplineInterpolatedPoint s i 0 = Inr (ps ! i) \<and>
    (\<exists>yaw. sq_getSplineInterpolatedYaw s i 0 = Inr yaw)"
proof -
  obtain keys where keys: "sq_calcSplineCoefficientsInner ps =
      Inr \<lparr> sq_spline_x = sp_coefficients keys (map pt_x ps), sq_spline_y = sp_coefficients keys (map pt_y ps),
        sq_spline_z = sp_coefficients keys (map pt_z ps), sq_base_s_vec = keys \<rparr>"
    and inc: "ip_increasing keys" and len: "length keys = length ps"
    using sq_calc_apart [OF assms(1,2)] by blast
  have valid: "sp_valid keys (map f ps)" for f
    using inc len assms(2) by (simp add: sp_valid_def)
  have i: "i < length keys" using assms(3) len by simp
  have b: "\<not> keys ! i < hd keys" "\<not> last keys < keys ! i"
    using increasing_hd_last [OF inc i] by simp_all
  have one: "sq_one (sp_getSplineInterpolatedValues (sp_coefficients keys (map f ps))) (keys ! i) =
      Inr (f (ps ! i))" for f
    using sp_getValues_key [OF valid i] assms(3) by (simp add: sq_one_def del: err_bind_Inr_iff)
  have diff: "\<exists>r. sq_one (sp_getSplineInterpolatedDiffValues (sp_coefficients keys (map f ps))) (keys ! i) =
      Inr r" for f
    using sp_getDiffValues_key [OF valid i, of f] by (auto simp: sq_one_def)
  show ?thesis
    using diff [of pt_x] diff [of pt_y] i b unfolding keys
    by (auto simp: sq_getSplineInterpolatedPoint_def sq_getSplineInterpolatedYaw_def std_clamp_def one
        simp del: err_bind_Inr_iff)
qed

lemma sq_yaws_total:
  assumes "sq_apart ps" and "2 \<le> length ps"
  shows "\<exists>yaws. sq_splineYawFromPoints ps = Inr yaws \<and> length yaws = length ps"
proof -
  obtain s where s: "sq_calcSplineCoefficientsInner ps = Inr s" using sq_calc_apart [OF assms] by blast
  have "\<exists>v. sq_getSplineInterpolatedYaw s i 0 = Inr v" if "i \<in> set [0..<length ps]" for i
    using sq_through_points [OF assms, of i] that s by auto
  from sq_collect_total [of "[0..<length ps]", OF this] s show ?thesis
    by (auto simp: sq_splineYawFromPoints_def)
qed

end
