(* ===== verification/Flt_Arith.thy ===== *)
theory Flt_Arith
  imports AW_Prelude
begin

text \<open>
  Arithmetic on doubles where infinities and NaN matter, over the type \<open>flt\<close> of the prelude: IEEE 754
  addition and scaling, and \<open>std::min\<close> and \<open>std::max\<close>, which compare once and return their first
  argument when the comparison is false.
\<close>

definition flt_sign :: "real \<Rightarrow> flt" where
  "flt_sign x = (if 0 < x then PInf else if x < 0 then NInf else NaN)"

text \<open>A finite factor.\<close>

fun flt_scale :: "real \<Rightarrow> flt \<Rightarrow> flt" where
  "flt_scale k (Fin x) = Fin (k * x)"
| "flt_scale k PInf = flt_sign k"
| "flt_scale k NInf = flt_sign (- k)"
| "flt_scale k NaN = NaN"

fun flt_add :: "flt \<Rightarrow> flt \<Rightarrow> flt" where
  "flt_add NaN y = NaN"
| "flt_add x NaN = NaN"
| "flt_add (Fin x) (Fin y) = Fin (x + y)"
| "flt_add (Fin x) y = y"
| "flt_add x (Fin y) = x"
| "flt_add PInf PInf = PInf"
| "flt_add NInf NInf = NInf"
| "flt_add PInf NInf = NaN"
| "flt_add NInf PInf = NaN"

fun flt_minus :: "flt \<Rightarrow> flt" where
  "flt_minus (Fin x) = Fin (- x)"
| "flt_minus PInf = NInf"
| "flt_minus NInf = PInf"
| "flt_minus NaN = NaN"

definition flt_sub :: "flt \<Rightarrow> flt \<Rightarrow> flt" where
  "flt_sub x y = flt_add x (flt_minus y)"

lemma flt_sub_Fin [simp]: "flt_sub (Fin x) (Fin y) = Fin (x - y)"
  by (simp add: flt_sub_def)

lemma flt_sub_NaN_right [simp]: "flt_sub x NaN = NaN"
  by (cases x) (simp_all add: flt_sub_def)

definition std_max :: "flt \<Rightarrow> flt \<Rightarrow> flt" where
  "std_max a b = (if flt_less a b then b else a)"

definition std_min :: "flt \<Rightarrow> flt \<Rightarrow> flt" where
  "std_min a b = (if flt_less b a then b else a)"

definition std_clamp_flt :: "flt \<Rightarrow> real \<Rightarrow> real \<Rightarrow> flt" where
  "std_clamp_flt v lo hi = (if flt_less v (Fin lo) then Fin lo else if flt_less (Fin hi) v then Fin hi else v)"

lemma std_max_Fin [simp]: "std_max (Fin x) (Fin y) = Fin (max x y)"
  by (simp add: std_max_def max_def)

lemma std_min_Fin [simp]: "std_min (Fin x) (Fin y) = Fin (min x y)"
  by (auto simp: std_min_def min_def)

lemma std_max_NaN_right [simp]: "std_max x NaN = x"
  by (cases x) (simp_all add: std_max_def)

lemma std_min_NaN_right [simp]: "std_min x NaN = x"
  by (cases x) (simp_all add: std_min_def)

lemma std_max_NaN_left [simp]: "std_max NaN x = NaN"
  by (simp add: std_max_def)

lemma std_min_NaN_left [simp]: "std_min NaN x = NaN"
  by (cases x) (simp_all add: std_min_def)

lemma flt_add_NaN_right [simp]: "flt_add x NaN = NaN"
  by (cases x) simp_all

lemma flt_div_nonzero [simp]: "y \<noteq> 0 \<Longrightarrow> flt_div x y = Fin (x / y)"
  by (simp add: flt_div_def)

lemma flt_sign_cases: "flt_sign x = PInf \<or> flt_sign x = NInf \<or> flt_sign x = NaN"
  by (simp add: flt_sign_def)

text \<open>With the limits first in both comparisons a NaN becomes the upper limit.\<close>

lemma std_clamp_limits:
  assumes "lo \<le> hi"
  shows "\<exists>r. std_max (std_min (Fin hi) x) (Fin lo) = Fin r \<and> lo \<le> r \<and> r \<le> hi"
  using assms by (cases x) (auto simp: std_min_def std_max_def)

end
