(* ===== verification/Raw_Vehicle_Cmd.thy ===== *)
theory Raw_Vehicle_Cmd
  imports Interpolation Flt_Arith
begin

text \<open>
  \<open>vehicle/raw_vehicle_cmd_converter\<close>: the node that turns an acceleration and a steering angle into
  throttle, brake and steering actuation with look-up tables read from CSV files and a PID
  controller.  \<open>std::stod\<close> is a parameter (\<open>None\<close>: it throws), a file is its list of lines
  (\<open>None\<close>: it cannot be opened).  The warnings and the debug topic are not modelled.
\<close>

datatype rc_error =
    RC_EmptyTable
  | RC_EmptyRange
  | RC_OutOfRange
  | RC_Stod
  | RC_Lerp ip_error
  | RC_AccelMapInvalid
  | RC_BrakeMapInvalid
  | RC_SteerMapInvalid

definition rc_lift :: "ip_error + 'a \<Rightarrow> rc_error + 'a" where
  "rc_lift r = (case r of Inl e \<Rightarrow> Inl (RC_Lerp e) | Inr x \<Rightarrow> Inr x)"

section \<open>CSVLoader\<close>

type_synonym rc_table = "string list list"

text \<open>\<open>while (std::getline(iss, token, delim))\<close>: a delimiter at the end starts no further token.\<close>

function rc_tokens :: "char \<Rightarrow> string \<Rightarrow> string list" where
  "rc_tokens delim s =
     (if s = [] then []
      else takeWhile (\<lambda>c. c \<noteq> delim) s # rc_tokens delim (tl (dropWhile (\<lambda>c. c \<noteq> delim) s)))"
  by auto
termination
proof (relation "measure (\<lambda>(d, s). length s)", simp)
  fix delim :: char and s :: string assume "s \<noteq> []"
  then have "0 < length s" by simp
  moreover have "length (dropWhile (\<lambda>c. c \<noteq> delim) s) \<le> length s" by (rule length_dropWhile_le)
  ultimately have "length (tl (dropWhile (\<lambda>c. c \<noteq> delim) s)) < length s"
    unfolding length_tl by linarith
  then show "(((delim, tl (dropWhile (\<lambda>c. c \<noteq> delim) s))), delim, s) \<in> measure (\<lambda>(d, s). length s)"
    by simp
qed

declare rc_tokens.simps [simp del]

definition rc_validateData :: "rc_table \<Rightarrow> rc_error + bool" where
  "rc_validateData table =
     (if table = [] then Inl RC_EmptyTable
      else Inr (\<not> length (hd table) < 2 \<and> list_all (\<lambda>row. length (hd table) = length row) (tl table)))"

definition rc_readCSV :: "string list option \<Rightarrow> char \<Rightarrow> rc_error + rc_table option" where
  "rc_readCSV file delim = (case file of
     None \<Rightarrow> Inr None
   | Some ls \<Rightarrow>
       let result = filter (\<lambda>tokens. length tokens \<noteq> 0) (map (rc_tokens delim) ls)
       in err_bind (rc_validateData result) (\<lambda>ok. Inr (if ok then Some result else None)))"

text \<open>One row against the row before it; a longer row reads past the end of the one before.\<close>

fun rc_row_ok :: "bool \<Rightarrow> real list \<Rightarrow> real list \<Rightarrow> rc_error + bool" where
  "rc_row_ok is_col_decent [] prev_vec = Inr True"
| "rc_row_ok is_col_decent (v # vec) [] = Inl RC_OutOfRange"
| "rc_row_ok is_col_decent (v # vec) (p # prev_vec) =
     err_bind (rc_row_ok is_col_decent vec prev_vec) (\<lambda>ok.
       Inr (ok \<and> \<not> (v \<le> p \<and> is_col_decent) \<and> \<not> (p \<le> v \<and> \<not> is_col_decent)))"

fun rc_validateMap :: "bool \<Rightarrow> real list list \<Rightarrow> rc_error + bool" where
  "rc_validateMap is_col_decent (prev_vec # vec # vecs) =
     err_bind (rc_row_ok is_col_decent vec prev_vec) (\<lambda>ok1.
       err_bind (rc_validateMap is_col_decent (vec # vecs)) (\<lambda>ok2. Inr (ok1 \<and> ok2)))"
| "rc_validateMap is_col_decent _ = Inr True"

fun rc_stods :: "(string \<Rightarrow> real option) \<Rightarrow> string list \<Rightarrow> rc_error + real list" where
  "rc_stods stod [] = Inr []"
| "rc_stods stod (s # ss) = (case stod s of
     None \<Rightarrow> Inl RC_Stod
   | Some x \<Rightarrow> err_bind (rc_stods stod ss) (\<lambda>xs. Inr (x # xs)))"

fun rc_map_rows :: "(string \<Rightarrow> real option) \<Rightarrow> rc_table \<Rightarrow> rc_error + real list list" where
  "rc_map_rows stod [] = Inr []"
| "rc_map_rows stod (row # rows) =
     err_bind (rc_stods stod (tl row)) (\<lambda>xs. err_bind (rc_map_rows stod rows) (\<lambda>xss. Inr (xs # xss)))"

definition rc_getMap :: "(string \<Rightarrow> real option) \<Rightarrow> rc_table \<Rightarrow> rc_error + real list list" where
  "rc_getMap stod table = rc_map_rows stod (tl table)"

definition rc_getRowIndex :: "(string \<Rightarrow> real option) \<Rightarrow> rc_table \<Rightarrow> rc_error + real list" where
  "rc_getRowIndex stod table = rc_stods stod (tl (hd table))"

definition rc_getColumnIndex :: "(string \<Rightarrow> real option) \<Rightarrow> rc_table \<Rightarrow> rc_error + real list" where
  "rc_getColumnIndex stod table = rc_stods stod (map hd (tl table))"

definition rc_clampValue :: "real \<Rightarrow> real list \<Rightarrow> rc_error + real" where
  "rc_clampValue val ranges =
     (if ranges = [] then Inl RC_EmptyRange
      else let max_value = Max (set ranges); min_value = Min (set ranges)
        in Inr (if val < min_value \<or> max_value < val then min (max val min_value) max_value else val))"

section \<open>Look-up tables\<close>

text \<open>A table: the values of its columns, the values of its rows, and its body by row.\<close>

record rc_map =
  rm_vel_index :: "real list"
  rm_out_index :: "real list"
  rm_map :: "real list list"

definition rc_readMapFromCSV ::
  "bool \<Rightarrow> (string \<Rightarrow> real option) \<Rightarrow> string list option \<Rightarrow> bool \<Rightarrow> rc_error + rc_map option" where
  "rc_readMapFromCSV is_col_decent stod file validation =
     err_bind (rc_readCSV file (CHR '','')) (\<lambda>t. case t of
       None \<Rightarrow> Inr None
     | Some table \<Rightarrow>
         err_bind (rc_getRowIndex stod table) (\<lambda>vel_index.
         err_bind (rc_getColumnIndex stod table) (\<lambda>out_index.
         err_bind (rc_getMap stod table) (\<lambda>body.
         err_bind (if validation then rc_validateMap is_col_decent body else Inr True) (\<lambda>ok.
           Inr (if ok then Some \<lparr> rm_vel_index = vel_index, rm_out_index = out_index, rm_map = body \<rparr>
                else None))))))"

definition rc_readAccelMapFromCSV where "rc_readAccelMapFromCSV = rc_readMapFromCSV True"
definition rc_readBrakeMapFromCSV where "rc_readBrakeMapFromCSV = rc_readMapFromCSV False"
definition rc_readSteerMapFromCSV where "rc_readSteerMapFromCSV = rc_readMapFromCSV True"

text \<open>Fixing the velocity (or the steering angle): one value for each row of the table.\<close>

fun rc_fix_column :: "real list \<Rightarrow> real \<Rightarrow> real list list \<Rightarrow> rc_error + real list" where
  "rc_fix_column vel_index vel [] = Inr []"
| "rc_fix_column vel_index vel (row # rows) =
     err_bind (rc_lift (ip_lerp1 vel_index row vel)) (\<lambda>x.
       err_bind (rc_fix_column vel_index vel rows) (\<lambda>xs. Inr (x # xs)))"

text \<open>The result is \<open>None\<close> where the code returns false.\<close>

definition rc_getThrottle :: "rc_map \<Rightarrow> real \<Rightarrow> real \<Rightarrow> rc_error + real option" where
  "rc_getThrottle m acc vel =
     err_bind (rc_clampValue vel (rm_vel_index m)) (\<lambda>clamped_vel.
     err_bind (rc_fix_column (rm_vel_index m) clamped_vel (rm_map m)) (\<lambda>interpolated_acc_vec.
       if interpolated_acc_vec = [] then Inl RC_EmptyRange
       else if acc < hd interpolated_acc_vec then Inr None
       else if last interpolated_acc_vec < acc then Inr (Some (last (rm_out_index m)))
       else err_bind (rc_lift (ip_lerp1 interpolated_acc_vec (rm_out_index m) acc))
              (\<lambda>throttle. Inr (Some throttle))))"

definition rc_getBrake :: "rc_map \<Rightarrow> real \<Rightarrow> real \<Rightarrow> rc_error + real" where
  "rc_getBrake m acc vel =
     err_bind (rc_clampValue vel (rm_vel_index m)) (\<lambda>clamped_vel.
     err_bind (rc_fix_column (rm_vel_index m) clamped_vel (rm_map m)) (\<lambda>interpolated_acc_vec.
       if interpolated_acc_vec = [] then Inl RC_EmptyRange
       else if acc < last interpolated_acc_vec then Inr (last (rm_out_index m))
       else if hd interpolated_acc_vec < acc then Inr (hd (rm_out_index m))
       else rc_lift (ip_lerp1 (rev interpolated_acc_vec) (rev (rm_out_index m)) acc)))"

definition rc_getAcceleration :: "rc_map \<Rightarrow> real \<Rightarrow> real \<Rightarrow> rc_error + real" where
  "rc_getAcceleration m out vel =
     err_bind (rc_clampValue vel (rm_vel_index m)) (\<lambda>clamped_vel.
     err_bind (rc_fix_column (rm_vel_index m) clamped_vel (rm_map m)) (\<lambda>interpolated_acc_vec.
     err_bind (rc_clampValue out (rm_out_index m)) (\<lambda>clamped_out.
       rc_lift (ip_lerp1 (rm_out_index m) interpolated_acc_vec clamped_out))))"

definition rc_getSteer :: "rc_map \<Rightarrow> real \<Rightarrow> real \<Rightarrow> rc_error + real" where
  "rc_getSteer m steer_rate steer =
     err_bind (rc_clampValue steer (rm_vel_index m)) (\<lambda>clamped_steer.
     err_bind (rc_fix_column (rm_vel_index m) clamped_steer (rm_map m)) (\<lambda>steer_rate_interp.
     err_bind (rc_clampValue steer_rate steer_rate_interp) (\<lambda>clamped_steer_rate.
       rc_lift (ip_lerp1 steer_rate_interp (rm_out_index m) clamped_steer_rate))))"

section \<open>PIDController\<close>

record rc_pid =
  pid_kp :: real
  pid_ki :: real
  pid_kd :: real
  pid_max_ret_p :: real
  pid_min_ret_p :: real
  pid_max_ret_i :: real
  pid_min_ret_i :: real
  pid_max_ret_d :: real
  pid_min_ret_d :: real
  pid_max_ret :: real
  pid_min_ret :: real
  pid_error_integral :: flt
  pid_prev_error :: real
  pid_is_first_time :: bool
  pid_invalid_integration_decay :: real

definition rc_calculatePID :: "rc_pid \<Rightarrow> real \<Rightarrow> real \<Rightarrow> bool \<Rightarrow> flt \<times> rc_pid" where
  "rc_calculatePID c err dt enable_integration =
     (let ret_p = min (max (pid_kp c * err) (pid_min_ret_p c)) (pid_max_ret_p c);
          error_integral =
            (if enable_integration
             then let e = flt_add (pid_error_integral c) (Fin (err * dt))
               in std_min (std_max e (flt_div (pid_min_ret_i c) (pid_ki c)))
                    (flt_div (pid_max_ret_i c) (pid_ki c))
             else flt_scale (pid_invalid_integration_decay c) (pid_error_integral c));
          ret_i = flt_scale (pid_ki c) error_integral;
          error_differential =
            (if pid_is_first_time c then Fin 0 else flt_div (err - pid_prev_error c) dt);
          ret_d = flt_scale (pid_kd c) error_differential;
          ret_d1 = std_min (std_max ret_d (Fin (pid_min_ret_d c))) (Fin (pid_max_ret_d c));
          ret = flt_add (flt_add (Fin ret_p) ret_i) ret_d1;
          ret1 = std_min (std_max ret (Fin (pid_min_ret c))) (Fin (pid_max_ret c))
      in (ret1, c\<lparr> pid_error_integral := error_integral, pid_is_first_time := False,
            pid_prev_error := err \<rparr>))"

definition rc_calculateFB :: "rc_pid \<Rightarrow> real \<Rightarrow> real \<Rightarrow> real \<Rightarrow> real \<Rightarrow> flt \<times> rc_pid" where
  "rc_calculateFB c target_value dt reset_trigger_value current_value =
     (let err = target_value - current_value;
          enable_integration = (if \<bar>reset_trigger_value\<bar> < 1 / 100 then False else True)
      in rc_calculatePID c err dt enable_integration)"

definition rc_setGains :: "real \<Rightarrow> real \<Rightarrow> real \<Rightarrow> rc_pid \<Rightarrow> rc_pid" where
  "rc_setGains kp ki kd c = c\<lparr> pid_kp := kp, pid_ki := ki, pid_kd := kd \<rparr>"

definition rc_setLimits ::
  "real \<Rightarrow> real \<Rightarrow> real \<Rightarrow> real \<Rightarrow> real \<Rightarrow> real \<Rightarrow> real \<Rightarrow> real \<Rightarrow> rc_pid \<Rightarrow> rc_pid" where
  "rc_setLimits max_ret min_ret max_ret_p min_ret_p max_ret_i min_ret_i max_ret_d min_ret_d c =
     c\<lparr> pid_max_ret := max_ret, pid_min_ret := min_ret, pid_max_ret_p := max_ret_p,
       pid_min_ret_p := min_ret_p, pid_max_ret_d := max_ret_d, pid_min_ret_d := min_ret_d,
       pid_max_ret_i := max_ret_i, pid_min_ret_i := min_ret_i \<rparr>"

definition rc_pid_reset :: "rc_pid \<Rightarrow> rc_pid" where
  "rc_pid_reset c = c\<lparr> pid_error_integral := Fin 0, pid_prev_error := 0, pid_is_first_time := True \<rparr>"

section \<open>The node\<close>

record rc_params =
  rp_convert_accel_cmd :: bool
  rp_convert_brake_cmd :: bool
  rp_convert_steer_cmd :: bool
  rp_max_throttle :: real
  rp_max_brake :: real
  rp_max_steer :: real
  rp_min_steer :: real
  rp_use_steer_ff :: bool
  rp_use_steer_fb :: bool

record rc_control_cmd =
  cc_stamp :: time
  cc_acceleration :: real
  cc_steering_tire_angle :: real
  cc_steering_tire_rotation_rate :: real

record rc_actuation_cmd =
  ac_stamp :: time
  ac_accel_cmd :: real
  ac_brake_cmd :: real
  ac_steer_cmd :: flt

record rc_node =
  rn_params :: rc_params
  rn_accel_map :: rc_map
  rn_brake_map :: rc_map
  rn_steer_map :: rc_map
  rn_steer_pid :: rc_pid
  rn_current_twist :: "real option"
  rn_current_steer :: "real option"
  rn_control_cmd :: "rc_control_cmd option"
  rn_prev_time_steer_calculation :: time

text \<open>The first part of the constructor: the tables the converted commands need are read and validated.\<close>

definition rc_load ::
  "(string list option \<Rightarrow> rc_error + rc_map option) \<Rightarrow> rc_error \<Rightarrow> bool \<Rightarrow> string list option \<Rightarrow>
   rc_map \<Rightarrow> rc_error + rc_map" where
  "rc_load readMap invalid convert file empty_map =
     (if convert
      then err_bind (readMap file) (\<lambda>r. case r of None \<Rightarrow> Inl invalid | Some m \<Rightarrow> Inr m)
      else Inr empty_map)"

definition rc_construct ::
  "(string \<Rightarrow> real option) \<Rightarrow> rc_params \<Rightarrow> rc_pid \<Rightarrow> string list option \<Rightarrow> string list option \<Rightarrow>
   string list option \<Rightarrow> rc_error + rc_node" where
  "rc_construct stod params pid csv_accel_map csv_brake_map csv_steer_map =
     (let empty_map = \<lparr> rm_vel_index = [], rm_out_index = [], rm_map = [] \<rparr> in
      err_bind (rc_load (\<lambda>f. rc_readAccelMapFromCSV stod f True) RC_AccelMapInvalid
        (rp_convert_accel_cmd params) csv_accel_map empty_map) (\<lambda>accel_map.
      err_bind (rc_load (\<lambda>f. rc_readBrakeMapFromCSV stod f True) RC_BrakeMapInvalid
        (rp_convert_brake_cmd params) csv_brake_map empty_map) (\<lambda>brake_map.
      err_bind (rc_load (\<lambda>f. rc_readSteerMapFromCSV stod f True) RC_SteerMapInvalid
        (rp_convert_steer_cmd params) csv_steer_map empty_map) (\<lambda>steer_map.
        Inr \<lparr> rn_params = params, rn_accel_map = accel_map, rn_brake_map = brake_map,
          rn_steer_map = steer_map, rn_steer_pid = pid, rn_current_twist = None,
          rn_current_steer = None, rn_control_cmd = None, rn_prev_time_steer_calculation = 0 \<rparr>))))"

text \<open>The result carries the flag \<open>accel_cmd_is_zero\<close>.\<close>

definition rc_calculateAccelMap :: "rc_node \<Rightarrow> real \<Rightarrow> real \<Rightarrow> rc_error + real \<times> bool" where
  "rc_calculateAccelMap n current_velocity desired_acc =
     err_bind (rc_getThrottle (rn_accel_map n) desired_acc \<bar>current_velocity\<bar>) (\<lambda>r.
       let (desired_accel_cmd, accel_cmd_is_zero) = (case r of None \<Rightarrow> (0, True) | Some t \<Rightarrow> (t, False))
       in Inr (min (max desired_accel_cmd 0) (rp_max_throttle (rn_params n)), accel_cmd_is_zero))"

definition rc_calculateBrakeMap :: "rc_node \<Rightarrow> real \<Rightarrow> real \<Rightarrow> rc_error + real" where
  "rc_calculateBrakeMap n current_velocity desired_acc =
     err_bind (rc_getBrake (rn_brake_map n) desired_acc \<bar>current_velocity\<bar>) (\<lambda>desired_brake_cmd.
       Inr (min (max desired_brake_cmd 0) (rp_max_brake (rn_params n))))"

definition rc_steer_dt :: "time \<Rightarrow> rc_node \<Rightarrow> real" where
  "rc_steer_dt current_time n =
     (let dt = seconds (current_time - rn_prev_time_steer_calculation n)
      in if 1 < \<bar>dt\<bar> then 1 / 10 else dt)"

definition rc_calculateSteer ::
  "time \<Rightarrow> rc_node \<Rightarrow> real \<Rightarrow> real \<Rightarrow> real \<Rightarrow> real \<Rightarrow> rc_error + flt \<times> rc_node" where
  "rc_calculateSteer current_time n current_steer vel steering steer_rate =
     (let p = rn_params n;
          dt = rc_steer_dt current_time n;
          n1 = n\<lparr> rn_prev_time_steer_calculation := current_time \<rparr>
      in err_bind (if rp_use_steer_ff p then rc_getSteer (rn_steer_map n) steer_rate current_steer
                   else Inr 0) (\<lambda>ff_value.
         let (fb_value, pid) =
               (if rp_use_steer_fb p
                then rc_calculateFB (rn_steer_pid n) steering dt vel current_steer
                else (Fin 0, rn_steer_pid n));
             steering_output = flt_add (Fin ff_value) fb_value
         in Inr (std_max (std_min (Fin (rp_max_steer p)) steering_output) (Fin (rp_min_steer p)),
              n1\<lparr> rn_steer_pid := pid \<rparr>)))"

definition rc_publishActuationCmd ::
  "time \<Rightarrow> rc_node \<Rightarrow> rc_error + rc_node \<times> rc_actuation_cmd option" where
  "rc_publishActuationCmd now n =
     (case (rn_current_twist n, rn_control_cmd n, rn_current_steer n) of
       (Some vel, Some cmd, Some current_steer) \<Rightarrow>
         let p = rn_params n; acc = cc_acceleration cmd; steer = cc_steering_tire_angle cmd;
             steer_rate = cc_steering_tire_rotation_rate cmd
         in err_bind (if rp_convert_accel_cmd p then rc_calculateAccelMap n vel acc
                      else Inr (if 0 \<le> acc then acc else 0, True)) (\<lambda>(accel, accel_cmd_is_zero).
            err_bind (if rp_convert_brake_cmd p
                      then (if accel_cmd_is_zero then rc_calculateBrakeMap n vel acc else Inr 0)
                      else Inr (if acc < 0 then - acc else 0)) (\<lambda>brake.
            err_bind (if rp_convert_steer_cmd p
                      then rc_calculateSteer now n current_steer vel steer steer_rate
                      else Inr (Fin steer, n)) (\<lambda>(steer_cmd, n1).
              Inr (n1, Some \<lparr> ac_stamp = cc_stamp cmd, ac_accel_cmd = accel, ac_brake_cmd = brake,
                    ac_steer_cmd = steer_cmd \<rparr>))))
     | _ \<Rightarrow> Inr (n, None))"

definition rc_onSteering :: "real \<Rightarrow> rc_node \<Rightarrow> rc_node" where
  "rc_onSteering steering_tire_angle n = n\<lparr> rn_current_steer := Some steering_tire_angle \<rparr>"

definition rc_onVelocity :: "real \<Rightarrow> rc_node \<Rightarrow> rc_node" where
  "rc_onVelocity linear_x n = n\<lparr> rn_current_twist := Some linear_x \<rparr>"

definition rc_onControlCmd ::
  "time \<Rightarrow> rc_control_cmd \<Rightarrow> rc_node \<Rightarrow> rc_error + rc_node \<times> rc_actuation_cmd option" where
  "rc_onControlCmd now msg n = rc_publishActuationCmd now (n\<lparr> rn_control_cmd := Some msg \<rparr>)"

section \<open>What the validation establishes\<close>

definition rc_step :: "bool \<Rightarrow> real \<Rightarrow> real \<Rightarrow> bool" where
  "rc_step is_col_decent p v \<longleftrightarrow> (if is_col_decent then p < v else v < p)"

definition rc_rows_step :: "bool \<Rightarrow> real list \<Rightarrow> real list \<Rightarrow> bool" where
  "rc_rows_step is_col_decent prev_vec vec \<longleftrightarrow> list_all2 (rc_step is_col_decent) prev_vec vec"

lemma rc_row_ok_eq:
  "length vec = length prev_vec \<Longrightarrow> rc_row_ok d vec prev_vec = Inr (rc_rows_step d prev_vec vec)"
  by (induction vec prev_vec rule: list_induct2)
    (auto simp: rc_rows_step_def rc_step_def simp del: err_bind_Inr_iff)

lemma rc_validateMap_eq:
  "list_all (\<lambda>row. length row = n) body \<Longrightarrow>
   rc_validateMap d body = Inr (successively (rc_rows_step d) body)"
  by (induction d body rule: rc_validateMap.induct)
    (simp_all add: rc_row_ok_eq del: err_bind_Inr_iff)

lemma rc_stods_length: "rc_stods stod ss = Inr xs \<Longrightarrow> length xs = length ss"
  by (induction ss arbitrary: xs) (auto split: option.splits)

lemma rc_map_rows_length:
  "rc_map_rows stod rows = Inr body \<Longrightarrow>
   length body = length rows \<and> (list_all (\<lambda>row. length row = n) rows \<longrightarrow>
     list_all (\<lambda>row. length row = n - 1) body)"
  by (induction rows arbitrary: body) (auto dest: rc_stods_length)

text \<open>The shape of a table: a value for each pair of indices, strictly monotone down each column.\<close>

definition rc_shape :: "bool \<Rightarrow> rc_map \<Rightarrow> bool" where
  "rc_shape is_col_decent m \<longleftrightarrow> rm_vel_index m \<noteq> [] \<and>
     length (rm_map m) = length (rm_out_index m) \<and>
     list_all (\<lambda>row. length row = length (rm_vel_index m)) (rm_map m) \<and>
     successively (rc_rows_step is_col_decent) (rm_map m)"

lemma rc_readCSV_valid:
  assumes "rc_readCSV file delim = Inr (Some table)"
  shows "table \<noteq> [] \<and> 2 \<le> length (hd table) \<and> list_all (\<lambda>row. length row = length (hd table)) (tl table)"
  using assms
  by (auto simp: rc_readCSV_def rc_validateData_def Let_def list_all_iff split: option.splits if_splits)

text \<open>C33: A look-up table that was read from a CSV file with validation is well formed: it has a velocity
  index, one row for each output value, in each row one entry for each velocity, and each column is
  strictly increasing down the table (throttle and steering tables) or strictly decreasing (brake table).\<close>

theorem rc_read_shape:
  assumes "rc_readMapFromCSV d stod file True = Inr (Some m)"
  shows "rc_shape d m"
proof -
  from assms obtain table where t: "rc_readCSV file (CHR '','') = Inr (Some table)"
    by (auto simp: rc_readMapFromCSV_def split: option.splits)
  with assms have m: "rc_getRowIndex stod table = Inr (rm_vel_index m)"
    "rc_getColumnIndex stod table = Inr (rm_out_index m)" "rc_getMap stod table = Inr (rm_map m)"
    "rc_validateMap d (rm_map m) = Inr True"
    by (auto simp: rc_readMapFromCSV_def split: if_splits)
  note v = rc_readCSV_valid [OF t]
  have vel: "length (rm_vel_index m) = length (hd table) - 1"
    using m(1) by (auto simp: rc_getRowIndex_def dest: rc_stods_length)
  have out: "length (rm_out_index m) = length (tl table)"
    using m(2) by (auto simp: rc_getColumnIndex_def dest: rc_stods_length)
  have body: "length (rm_map m) = length (tl table)"
    "list_all (\<lambda>row. length row = length (hd table) - 1) (rm_map m)"
    using m(3) v rc_map_rows_length [of stod "tl table" "rm_map m" "length (hd table)"]
    by (simp_all add: rc_getMap_def)
  have "successively (rc_rows_step d) (rm_map m)"
    using rc_validateMap_eq [OF body(2)] m(4) by simp
  with vel out body v show ?thesis by (auto simp: rc_shape_def)
qed

theorem rc_read_shape_witness:
  "\<exists>m. rc_readMapFromCSV True (\<lambda>s. Some (real (length s))) (Some [''a,b,bb'', ''c,d,dd'', ''cc,ddd,dddd'']) True =
     Inr (Some m) \<and> rc_shape True m"
proof -
  have "rc_readMapFromCSV True (\<lambda>s. Some (real (length s))) (Some [''a,b,bb'', ''c,d,dd'', ''cc,ddd,dddd'']) True =
    Inr (Some \<lparr> rm_vel_index = [1, 2], rm_out_index = [1, 2], rm_map = [[1, 2], [3, 4]] \<rparr>)"
    by (simp add: rc_readMapFromCSV_def rc_readCSV_def rc_tokens.simps rc_validateData_def rc_getRowIndex_def
        rc_getColumnIndex_def rc_getMap_def Let_def del: err_bind_Inr_iff)
  from rc_read_shape [OF this] this show ?thesis by blast
qed

text \<open>The indices are not validated; the look-ups need them strictly increasing and at least two.\<close>

definition rc_valid :: "bool \<Rightarrow> rc_map \<Rightarrow> bool" where
  "rc_valid is_col_decent m \<longleftrightarrow> rc_shape is_col_decent m \<and>
     2 \<le> length (rm_vel_index m) \<and> ip_increasing (rm_vel_index m) \<and>
     2 \<le> length (rm_out_index m) \<and> ip_increasing (rm_out_index m)"

section \<open>Look-ups in a valid table\<close>

lemma rc_lift_Inr [simp]: "rc_lift (Inr x) = Inr x"
  by (simp add: rc_lift_def)

lemma increasing_Min_Max:
  assumes "ip_increasing xs" and "xs \<noteq> []"
  shows "Min (set xs) = hd xs" and "Max (set xs) = last xs"
proof -
  have "\<forall>x \<in> set xs. hd xs \<le> x \<and> x \<le> last xs"
    using increasing_hd_last [OF assms(1)] by (auto simp: in_set_conv_nth)
  with assms(2) show "Min (set xs) = hd xs" "Max (set xs) = last xs"
    by (auto intro!: Min_eqI Max_eqI)
qed

lemma rc_clampValue_range:
  assumes "ranges \<noteq> []"
  shows "\<exists>r. rc_clampValue val ranges = Inr r \<and> Min (set ranges) \<le> r \<and> r \<le> Max (set ranges) \<and>
    (Min (set ranges) \<le> val \<and> val \<le> Max (set ranges) \<longrightarrow> r = val)"
proof -
  define lo hi where "lo = Min (set ranges)" and "hi = Max (set ranges)"
  have "lo \<le> hi" using assms by (simp add: lo_def hi_def)
  then show ?thesis
    using assms unfolding rc_clampValue_def lo_def [symmetric] hi_def [symmetric] by (auto simp: Let_def)
qed

lemma ip_increasing_successively: "ip_increasing xs \<longleftrightarrow> successively (<) xs"
  by (induction xs rule: ip_increasing.induct) auto

lemma rc_fix_column_total:
  assumes "ip_valid vel_index [vel]" and "list_all (\<lambda>row. length row = length vel_index) rows"
  shows "\<exists>xs. rc_fix_column vel_index vel rows = Inr xs \<and> length xs = length rows \<and>
    (successively (rc_rows_step d) rows \<longrightarrow> successively (rc_step d) xs) \<and>
    (rows \<noteq> [] \<longrightarrow> ip_lerp1 vel_index (hd rows) vel = Inr (hd xs))"
  using assms(2)
proof (induction rows)
  case (Cons row rows)
  then have len: "length row = length vel_index" by simp
  from Cons obtain xs where xs: "rc_fix_column vel_index vel rows = Inr xs" "length xs = length rows"
    "successively (rc_rows_step d) rows \<Longrightarrow> successively (rc_step d) xs"
    "rows \<noteq> [] \<Longrightarrow> ip_lerp1 vel_index (hd rows) vel = Inr (hd xs)" by auto
  obtain y where y: "ip_lerp1 vel_index row vel = Inr y"
    using ip_lerp1_segment [OF assms(1) len] by auto
  have "rc_step d y (hd xs)" if "rows \<noteq> []" "rc_rows_step d row (hd rows)"
  proof -
    from that Cons.prems have len2: "length (hd rows) = length vel_index" by (cases rows) simp_all
    have "\<forall>i < length vel_index. rc_step d (row ! i) (hd rows ! i)"
      using that(2) len by (simp add: rc_rows_step_def list_all2_conv_all_nth)
    with y xs(4) that(1) len len2 show ?thesis
      using ip_lerp1_values_less [OF assms(1), of row "hd rows" y "hd xs"]
        ip_lerp1_values_less [OF assms(1), of "hd rows" row "hd xs" y]
      by (cases d) (simp_all add: rc_step_def)
  qed
  with xs have "successively (rc_step d) (y # xs)" if "successively (rc_rows_step d) (row # rows)"
    using that by (cases rows; cases xs) simp_all
  with xs(1,2) y show ?case by (simp del: err_bind_Inr_iff)
qed simp

lemma rc_valid_column:
  assumes "rc_valid d m"
  obtains v xs where "rc_clampValue vel (rm_vel_index m) = Inr v"
    "rc_fix_column (rm_vel_index m) v (rm_map m) = Inr xs"
    "length xs = length (rm_out_index m)" "xs \<noteq> []" "2 \<le> length xs"
    "if d then ip_increasing xs else ip_increasing (rev xs)"
proof -
  let ?vi = "rm_vel_index m"
  have vi: "2 \<le> length ?vi" "ip_increasing ?vi" "?vi \<noteq> []" and shape: "rc_shape d m"
    and out: "2 \<le> length (rm_out_index m)"
    using assms by (auto simp: rc_valid_def)
  obtain v where v: "rc_clampValue vel ?vi = Inr v" "Min (set ?vi) \<le> v" "v \<le> Max (set ?vi)"
    using rc_clampValue_range [OF vi(3), of vel] by auto
  then have "hd ?vi \<le> v" "v \<le> last ?vi" using increasing_Min_Max [OF vi(2,3)] by simp_all
  then have "ip_valid ?vi [v]" by (rule ip_valid_single [OF vi(1,2)])
  from rc_fix_column_total [OF this, of "rm_map m" d] shape obtain xs where
    xs: "rc_fix_column ?vi v (rm_map m) = Inr xs" "length xs = length (rm_out_index m)"
      "successively (rc_step d) xs"
    by (auto simp: rc_shape_def)
  from xs(3) have "if d then ip_increasing xs else ip_increasing (rev xs)"
    by (cases d) (simp_all add: ip_increasing_successively rc_step_def [abs_def])
  moreover from xs(2) out have "2 \<le> length xs" "xs \<noteq> []" by auto
  ultimately show ?thesis using that v(1) xs(1,2) by blast
qed

text \<open>The throttle is found, and lies on the table, for every acceleration and velocity.\<close>

lemma rc_getThrottle_total:
  assumes "rc_valid True m"
  shows "\<exists>r. rc_getThrottle m acc vel = Inr r \<and>
    (case r of None \<Rightarrow> True | Some t \<Rightarrow> hd (rm_out_index m) \<le> t \<and> t \<le> last (rm_out_index m))"
proof -
  obtain v xs where c: "rc_clampValue vel (rm_vel_index m) = Inr v"
    "rc_fix_column (rm_vel_index m) v (rm_map m) = Inr xs"
    "length xs = length (rm_out_index m)" "xs \<noteq> []" "2 \<le> length xs" and inc: "ip_increasing xs"
    using rc_valid_column [OF assms, of vel] by auto
  have outs: "\<forall>t \<in> set (rm_out_index m). hd (rm_out_index m) \<le> t \<and> t \<le> last (rm_out_index m)"
    using assms increasing_hd_last by (auto simp: rc_valid_def in_set_conv_nth)
  have ne: "rm_out_index m \<noteq> []" using c(3,4) by auto
  show ?thesis
  proof (cases "hd xs \<le> acc \<and> acc \<le> last xs")
    case True
    then have v: "ip_valid xs [acc]" using ip_valid_single [OF c(5) inc] by simp
    from ip_lerp1_bounds [OF v c(3) [symmetric] outs] obtain t where
      "ip_lerp1 xs (rm_out_index m) acc = Inr t" "hd (rm_out_index m) \<le> t" "t \<le> last (rm_out_index m)" .
    with True c show ?thesis by (simp add: rc_getThrottle_def del: err_bind_Inr_iff)
  next
    case False
    with c outs ne show ?thesis by (auto simp: rc_getThrottle_def simp del: err_bind_Inr_iff)
  qed
qed

lemma rc_clampValue_in:
  assumes "ip_increasing xs" and "xs \<noteq> []" and "hd xs \<le> x" and "x \<le> last xs"
  shows "rc_clampValue x xs = Inr x"
  using rc_clampValue_range [OF assms(2), of x] increasing_Min_Max [OF assms(1,2)] assms(3,4) by auto

text \<open>In a valid throttle table the throttle found for an acceleration produces that acceleration: looking
  the throttle up in the other direction gives the acceleration that was asked for, or, when that lies
  beyond the table, the largest acceleration of the table, at full throttle.\<close>

theorem rc_throttle_roundtrip:
  assumes valid: "rc_valid True m" and t: "rc_getThrottle m acc vel = Inr (Some t)"
  shows "\<exists>a. rc_getAcceleration m t vel = Inr a \<and> (a = acc \<or> a < acc \<and> t = last (rm_out_index m))"
proof -
  let ?out = "rm_out_index m"
  obtain v xs where c: "rc_clampValue vel (rm_vel_index m) = Inr v"
    "rc_fix_column (rm_vel_index m) v (rm_map m) = Inr xs"
    "length xs = length ?out" "xs \<noteq> []" "2 \<le> length xs" and inc: "ip_increasing xs"
    using rc_valid_column [OF valid, of vel] by auto
  have out: "ip_increasing ?out" "?out \<noteq> []" "2 \<le> length ?out" using valid by (auto simp: rc_valid_def)
  have "hd ?out \<le> t \<and> t \<le> last ?out"
    using rc_getThrottle_total [OF valid, of acc vel] t by auto
  then have clamp: "rc_clampValue t ?out = Inr t" using rc_clampValue_in [OF out(1,2)] by simp
  show ?thesis
  proof (cases "last xs < acc")
    case True
    with t c have "t = last ?out" by (auto simp: rc_getThrottle_def split: if_splits)
    with True clamp c ip_lerp1_last(1) [OF out(3,1) c(3)] show ?thesis
      by (simp add: rc_getAcceleration_def del: err_bind_Inr_iff)
  next
    case False
    with t c have "\<not> acc < hd xs" and l: "ip_lerp1 xs ?out acc = Inr t"
      by (auto simp: rc_getThrottle_def rc_lift_def split: if_splits sum.splits)
    with False have "ip_valid xs [acc]" using ip_valid_single [OF c(5) inc] by simp
    from ip_lerp1_inverse [OF this c(3) [symmetric] out(1) l] clamp c show ?thesis
      by (simp add: rc_getAcceleration_def del: err_bind_Inr_iff)
  qed
qed

theorem rc_throttle_roundtrip_witness:
  "rc_getThrottle \<lparr> rm_vel_index = [0, 10], rm_out_index = [0, 1], rm_map = [[0, - 1], [2, 1]] \<rparr> 1 5 =
     Inr (Some (3 / 4)) \<and>
   rc_getAcceleration \<lparr> rm_vel_index = [0, 10], rm_out_index = [0, 1], rm_map = [[0, - 1], [2, 1]] \<rparr> (3 / 4) 5 =
     Inr 1"
proof -
  let ?m = "\<lparr> rm_vel_index = [0, 10], rm_out_index = [0, 1], rm_map = [[0, - 1], [2, 1]] \<rparr> :: rc_map"
  have m: "rc_valid True ?m" by (simp add: rc_valid_def rc_shape_def rc_rows_step_def rc_step_def)
  have t: "rc_getThrottle ?m 1 5 = Inr (Some (3 / 4))"
    by (simp add: rc_getThrottle_def rc_clampValue_def ip_lerp1_def ip_lerp_def ip_validateKeys_def
        ip_validateKeysAndValues_def ip_isIncreasing_def ip_isNotDecreasing_def ip_crop_def Let_def
        ip_advance.simps ip_lerp_at_eq del: err_bind_Inr_iff)
  with rc_throttle_roundtrip [OF m t] show ?thesis by auto
qed

text \<open>The brake: values decrease down the table, so the search runs over the reversed lists.\<close>

lemma rc_getBrake_total:
  assumes "rc_valid False m"
  shows "\<exists>b. rc_getBrake m acc vel = Inr b \<and> hd (rm_out_index m) \<le> b \<and> b \<le> last (rm_out_index m) \<and>
    (\<exists>a. rc_getAcceleration m b vel = Inr a \<and>
      (a = acc \<or> acc < a \<and> b = last (rm_out_index m) \<or> a < acc \<and> b = hd (rm_out_index m)))"
proof -
  let ?out = "rm_out_index m"
  obtain v xs where c: "rc_clampValue vel (rm_vel_index m) = Inr v"
    "rc_fix_column (rm_vel_index m) v (rm_map m) = Inr xs"
    "length xs = length ?out" "xs \<noteq> []" "2 \<le> length xs" and inc: "ip_increasing (rev xs)"
    using rc_valid_column [OF assms, of vel] by auto
  have out: "ip_increasing ?out" "?out \<noteq> []" "2 \<le> length ?out" using assms by (auto simp: rc_valid_def)
  have ends: "hd ?out \<le> last ?out" using increasing_hd_last(1) [OF out(1), of "length ?out - 1"] out(2)
    by (simp add: last_conv_nth)
  note l = ip_lerp1_last [OF out(3,1) c(3)]
  note clamp = rc_clampValue_in [OF out(1,2)]
  consider (over) "acc < last xs" | (under) "\<not> acc < last xs" "hd xs < acc" | (inside) "last xs \<le> acc" "acc \<le> hd xs"
    by linarith
  then show ?thesis
  proof cases
    case over
    with c l(1) clamp [of "last ?out"] ends show ?thesis
      by (simp add: rc_getBrake_def rc_getAcceleration_def del: err_bind_Inr_iff)
  next
    case under
    with c l(2) clamp [of "hd ?out"] ends show ?thesis
      by (simp add: rc_getBrake_def rc_getAcceleration_def del: err_bind_Inr_iff)
  next
    case inside
    then have v: "ip_valid (rev xs) [acc]"
      using c(4,5) inc by (intro ip_valid_single) (simp_all add: hd_rev last_rev)
    obtain b where b: "ip_lerp1 (rev xs) (rev ?out) acc = Inr b"
      using ip_lerp1_segment [OF v, of "rev ?out"] c(3) by auto
    note inv = ip_lerp1_inverse_rev [OF v c(3) [symmetric] out(1) b]
    from inside c b inv clamp [OF inv(2,3)] show ?thesis
      by (simp add: rc_getBrake_def rc_getAcceleration_def del: err_bind_Inr_iff)
  qed
qed

text \<open>The steering output: the rate is clamped to the column first, so the output is always on the table.\<close>

lemma rc_getSteer_total:
  assumes "rc_valid True m"
  shows "\<exists>r. rc_getSteer m steer_rate steer = Inr r \<and> hd (rm_out_index m) \<le> r \<and> r \<le> last (rm_out_index m)"
proof -
  let ?out = "rm_out_index m"
  obtain v xs where c: "rc_clampValue steer (rm_vel_index m) = Inr v"
    "rc_fix_column (rm_vel_index m) v (rm_map m) = Inr xs"
    "length xs = length ?out" "xs \<noteq> []" "2 \<le> length xs" and inc: "ip_increasing xs"
    using rc_valid_column [OF assms, of steer] by auto
  have outs: "\<forall>t \<in> set ?out. hd ?out \<le> t \<and> t \<le> last ?out"
    using assms increasing_hd_last by (auto simp: rc_valid_def in_set_conv_nth)
  obtain q where q: "rc_clampValue steer_rate xs = Inr q" "hd xs \<le> q" "q \<le> last xs"
    using rc_clampValue_range [OF c(4), of steer_rate] increasing_Min_Max [OF inc c(4)] by auto
  have v: "ip_valid xs [q]" by (rule ip_valid_single [OF c(5) inc q(2,3)])
  from ip_lerp1_bounds [OF v c(3) [symmetric] outs] obtain t where
    "ip_lerp1 xs ?out q = Inr t" "hd ?out \<le> t" "t \<le> last ?out" .
  with c q show ?thesis by (simp add: rc_getSteer_def del: err_bind_Inr_iff)
qed

section \<open>The controller\<close>

text \<open>With a positive integral gain and ordered limits every quantity of the controller is finite.\<close>

definition rc_pid_ok :: "rc_pid \<Rightarrow> bool" where
  "rc_pid_ok c \<longleftrightarrow> 0 < pid_ki c \<and> pid_min_ret c \<le> pid_max_ret c \<and>
     (\<exists>e. pid_error_integral c = Fin e)"

lemma rc_calculatePID_finite:
  assumes "rc_pid_ok c" and "dt \<noteq> 0"
  shows "\<exists>r c'. rc_calculatePID c err dt enable = (Fin r, c') \<and>
    pid_min_ret c \<le> r \<and> r \<le> pid_max_ret c \<and> rc_pid_ok c'"
  using assms by (auto simp: rc_calculatePID_def rc_pid_ok_def Let_def)

text \<open>Called a second time without time having passed, the derivative is not a number whatever its gain.\<close>

lemma rc_calculatePID_same_time:
  assumes "\<not> pid_is_first_time c" and "pid_kd c = 0"
  shows "fst (rc_calculatePID c err 0 enable) = NaN"
proof -
  have "flt_scale 0 (flt_div (err - pid_prev_error c) 0) = NaN"
    by (simp add: flt_div_def flt_sign_def)
  with assms show ?thesis by (simp add: rc_calculatePID_def Let_def)
qed

section \<open>The published command\<close>

definition rc_tables_ok :: "rc_node \<Rightarrow> bool" where
  "rc_tables_ok n \<longleftrightarrow>
     (rp_convert_accel_cmd (rn_params n) \<longrightarrow> rc_valid True (rn_accel_map n)) \<and>
     (rp_convert_brake_cmd (rn_params n) \<longrightarrow> rc_valid False (rn_brake_map n)) \<and>
     (rp_convert_steer_cmd (rn_params n) \<longrightarrow> rc_valid True (rn_steer_map n))"

lemma rc_calculateAccelMap_total:
  assumes "rc_valid True (rn_accel_map n)" and "0 \<le> rp_max_throttle (rn_params n)"
  shows "\<exists>a z. rc_calculateAccelMap n vel acc = Inr (a, z) \<and> 0 \<le> a \<and> a \<le> rp_max_throttle (rn_params n) \<and>
    (z \<longrightarrow> a = 0)"
  using rc_getThrottle_total [OF assms(1), of acc "\<bar>vel\<bar>"] assms(2)
  by (auto simp: rc_calculateAccelMap_def Let_def split: option.splits simp del: err_bind_Inr_iff)

lemma rc_calculateBrakeMap_total:
  assumes "rc_valid False (rn_brake_map n)" and "0 \<le> rp_max_brake (rn_params n)"
  shows "\<exists>b. rc_calculateBrakeMap n vel acc = Inr b \<and> 0 \<le> b \<and> b \<le> rp_max_brake (rn_params n)"
  using rc_getBrake_total [OF assms(1), of acc "\<bar>vel\<bar>"] assms(2)
  by (auto simp: rc_calculateBrakeMap_def simp del: err_bind_Inr_iff)

lemma rc_calculateSteer_total:
  assumes "rc_valid True (rn_steer_map n)" and "rp_min_steer (rn_params n) \<le> rp_max_steer (rn_params n)"
  shows "\<exists>r pid. rc_calculateSteer now n current_steer vel steering steer_rate =
      Inr (Fin r, n\<lparr> rn_prev_time_steer_calculation := now, rn_steer_pid := pid \<rparr>) \<and>
    rp_min_steer (rn_params n) \<le> r \<and> r \<le> rp_max_steer (rn_params n)"
proof -
  obtain ff where ff: "(if rp_use_steer_ff (rn_params n) then rc_getSteer (rn_steer_map n) steer_rate current_steer
      else Inr 0) = Inr ff"
    using rc_getSteer_total [OF assms(1), of steer_rate current_steer] by (cases "rp_use_steer_ff (rn_params n)") auto
  obtain fb pid where fb: "(if rp_use_steer_fb (rn_params n)
      then rc_calculateFB (rn_steer_pid n) steering (rc_steer_dt now n) vel current_steer
      else (Fin 0, rn_steer_pid n)) = (fb, pid)" by fastforce
  obtain r where r: "std_max (std_min (Fin (rp_max_steer (rn_params n))) (flt_add (Fin ff) fb))
      (Fin (rp_min_steer (rn_params n))) = Fin r" "rp_min_steer (rn_params n) \<le> r" "r \<le> rp_max_steer (rn_params n)"
    using std_clamp_limits [OF assms(2)] by blast
  have "rc_calculateSteer now n current_steer vel steering steer_rate =
      Inr (Fin r, n\<lparr> rn_prev_time_steer_calculation := now, rn_steer_pid := pid \<rparr>)"
    unfolding rc_calculateSteer_def Let_def ff fb by (simp add: r(1))
  with r(2,3) show ?thesis by blast
qed

text \<open>C34: With valid tables a control command always leads to a published command once the velocity and the
  steering angle are known; throttle, brake and steering lie within their limits, and throttle and
  brake are never applied together.\<close>

theorem rc_onControlCmd_safe:
  assumes "rc_tables_ok n" and "rp_convert_accel_cmd (rn_params n)" and "rp_convert_brake_cmd (rn_params n)"
    and "rp_convert_steer_cmd (rn_params n)"
    and "0 \<le> rp_max_throttle (rn_params n)" and "0 \<le> rp_max_brake (rn_params n)"
    and "rp_min_steer (rn_params n) \<le> rp_max_steer (rn_params n)"
    and "rn_current_twist n = Some vel" and "rn_current_steer n = Some steer"
  shows "\<exists>n' out steer_cmd. rc_onControlCmd now cmd n = Inr (n', Some out) \<and>
    0 \<le> ac_accel_cmd out \<and> ac_accel_cmd out \<le> rp_max_throttle (rn_params n) \<and>
    0 \<le> ac_brake_cmd out \<and> ac_brake_cmd out \<le> rp_max_brake (rn_params n) \<and>
    (ac_accel_cmd out = 0 \<or> ac_brake_cmd out = 0) \<and>
    ac_steer_cmd out = Fin steer_cmd \<and>
    rp_min_steer (rn_params n) \<le> steer_cmd \<and> steer_cmd \<le> rp_max_steer (rn_params n) \<and> rc_tables_ok n'"
proof -
  let ?n = "n\<lparr> rn_control_cmd := Some cmd \<rparr>"
  have valid: "rc_valid True (rn_accel_map ?n)" "rc_valid False (rn_brake_map ?n)" "rc_valid True (rn_steer_map ?n)"
    using assms(1-4) by (simp_all add: rc_tables_ok_def)
  obtain a z where a: "rc_calculateAccelMap ?n vel (cc_acceleration cmd) = Inr (a, z)" "0 \<le> a"
    "a \<le> rp_max_throttle (rn_params n)" "z \<longrightarrow> a = 0"
    using rc_calculateAccelMap_total [OF valid(1), of vel "cc_acceleration cmd"] assms(5) by auto
  obtain b where b: "rc_calculateBrakeMap ?n vel (cc_acceleration cmd) = Inr b" "0 \<le> b"
    "b \<le> rp_max_brake (rn_params n)"
    using rc_calculateBrakeMap_total [OF valid(2), of vel "cc_acceleration cmd"] assms(6) by auto
  obtain r pid where r: "rc_calculateSteer now ?n steer vel (cc_steering_tire_angle cmd)
      (cc_steering_tire_rotation_rate cmd) =
      Inr (Fin r, ?n\<lparr> rn_prev_time_steer_calculation := now, rn_steer_pid := pid \<rparr>)"
    "rp_min_steer (rn_params n) \<le> r" "r \<le> rp_max_steer (rn_params n)"
    using rc_calculateSteer_total [OF valid(3), of now steer vel "cc_steering_tire_angle cmd"
        "cc_steering_tire_rotation_rate cmd"] assms(7) by auto
  have "rc_onControlCmd now cmd n =
    Inr (?n\<lparr> rn_prev_time_steer_calculation := now, rn_steer_pid := pid \<rparr>,
      Some \<lparr> ac_stamp = cc_stamp cmd, ac_accel_cmd = a, ac_brake_cmd = (if z then b else 0),
        ac_steer_cmd = Fin r \<rparr>)"
    using assms(2-4,8,9) a(1) b(1) r(1)
    by (simp add: rc_onControlCmd_def rc_publishActuationCmd_def Let_def del: err_bind_Inr_iff)
  with a(2-4) b(2,3) r(2,3) assms(1,6) show ?thesis by (auto simp: rc_tables_ok_def)
qed

definition rc_example :: rc_node where
  "rc_example =
     \<lparr> rn_params = \<lparr> rp_convert_accel_cmd = True, rp_convert_brake_cmd = True, rp_convert_steer_cmd = True,
         rp_max_throttle = 2 / 5, rp_max_brake = 4 / 5, rp_max_steer = 10, rp_min_steer = - 10,
         rp_use_steer_ff = True, rp_use_steer_fb = True \<rparr>,
       rn_accel_map = \<lparr> rm_vel_index = [0, 10], rm_out_index = [0, 1], rm_map = [[0, - 1], [2, 1]] \<rparr>,
       rn_brake_map = \<lparr> rm_vel_index = [0, 10], rm_out_index = [0, 1], rm_map = [[0, - 1], [- 3, - 4]] \<rparr>,
       rn_steer_map = \<lparr> rm_vel_index = [- 1, 1], rm_out_index = [- 5, 5], rm_map = [[- 1, - 2], [2, 1]] \<rparr>,
       rn_steer_pid = \<lparr> pid_kp = 150, pid_ki = 15, pid_kd = 0, pid_max_ret_p = 8, pid_min_ret_p = - 8,
         pid_max_ret_i = 8, pid_min_ret_i = - 8, pid_max_ret_d = 0, pid_min_ret_d = 0, pid_max_ret = 8,
         pid_min_ret = - 8, pid_error_integral = Fin 0, pid_prev_error = 0, pid_is_first_time = False,
         pid_invalid_integration_decay = 97 / 100 \<rparr>,
       rn_current_twist = Some 5, rn_current_steer = Some 0, rn_control_cmd = None,
       rn_prev_time_steer_calculation = 7000000000 \<rparr>"

lemma rc_example_valid:
  "rc_tables_ok rc_example" "rc_valid True (rn_steer_map rc_example)"
  by (simp_all add: rc_example_def rc_tables_ok_def rc_valid_def rc_shape_def rc_rows_step_def rc_step_def)

theorem rc_onControlCmd_safe_witness:
  "\<exists>n' out. rc_onControlCmd 7033000000
      \<lparr> cc_stamp = 0, cc_acceleration = 1, cc_steering_tire_angle = 1 / 10, cc_steering_tire_rotation_rate = 0 \<rparr>
      rc_example = Inr (n', Some out) \<and> (ac_accel_cmd out = 0 \<or> ac_brake_cmd out = 0)"
  using rc_onControlCmd_safe [of rc_example 5 0 7033000000
      "\<lparr> cc_stamp = 0, cc_acceleration = 1, cc_steering_tire_angle = 1 / 10, cc_steering_tire_rotation_rate = 0 \<rparr>"]
    rc_example_valid(1) by (auto simp: rc_example_def)

text \<open>Two control commands at the same clock reading, as happens when simulated time advances in steps
  longer than the control period: with the default gain \<open>kd = 0\<close> and steering feedback on, the second one
  has a time step of zero, the derivative of the PID controller is \<open>0 * x / 0\<close>, not a number, and the
  comparison order of the final clamp turns the steering command into its upper limit \<open>max_steer\<close>,
  whatever steering angle was asked for.\<close>

theorem rc_same_time_full_steer:
  assumes "rc_valid True (rn_steer_map n)" and "rp_use_steer_fb (rn_params n)"
    and "rp_min_steer (rn_params n) \<le> rp_max_steer (rn_params n)"
    and "\<not> pid_is_first_time (rn_steer_pid n)" and "pid_kd (rn_steer_pid n) = 0"
    and "now = rn_prev_time_steer_calculation n"
  shows "\<exists>n'. rc_calculateSteer now n current_steer vel steering steer_rate =
    Inr (Fin (rp_max_steer (rn_params n)), n')"
proof -
  obtain ff where ff: "(if rp_use_steer_ff (rn_params n) then rc_getSteer (rn_steer_map n) steer_rate current_steer
      else Inr 0) = Inr ff"
    using rc_getSteer_total [OF assms(1), of steer_rate current_steer] by (cases "rp_use_steer_ff (rn_params n)") auto
  obtain pid where "rc_calculateFB (rn_steer_pid n) steering 0 vel current_steer = (NaN, pid)"
    using rc_calculatePID_same_time [OF assms(4,5)] by (metis rc_calculateFB_def prod.collapse)
  with ff assms(2,3,6) show ?thesis
    by (simp add: rc_calculateSteer_def rc_steer_dt_def seconds_def Let_def del: err_bind_Inr_iff)
qed

theorem rc_same_time_full_steer_witness:
  "\<exists>n'. rc_calculateSteer 7000000000 rc_example 0 5 0 0 = Inr (Fin 10, n')"
proof -
  have "rp_use_steer_fb (rn_params rc_example)" "rp_max_steer (rn_params rc_example) = 10"
    "rp_min_steer (rn_params rc_example) \<le> rp_max_steer (rn_params rc_example)"
    "\<not> pid_is_first_time (rn_steer_pid rc_example)" "pid_kd (rn_steer_pid rc_example) = 0"
    "7000000000 = rn_prev_time_steer_calculation rc_example"
    by (simp_all add: rc_example_def)
  with rc_same_time_full_steer [of rc_example 7000000000 0 5 0 0] rc_example_valid(2)
  show ?thesis by metis
qed

section \<open>Tables with unsorted indices\<close>

text \<open>
  The validation looks at the body of the table only.  A table whose velocities are not strictly
  increasing is accepted, and then every look-up throws.
\<close>

lemma not_increasing_length: "\<not> ip_increasing xs \<Longrightarrow> 2 \<le> length xs"
  by (cases xs rule: ip_increasing.cases) simp_all

lemma rc_unsorted_velocity_throws:
  assumes "rc_shape d m" and "\<not> ip_increasing (rm_vel_index m)" and "rm_map m \<noteq> []"
  shows "rc_getThrottle m acc vel = Inl (RC_Lerp IP_NotSorted)"
proof -
  let ?vi = "rm_vel_index m"
  have "2 \<le> length ?vi" by (rule not_increasing_length [OF assms(2)])
  then have vi: "?vi \<noteq> []" "\<not> length ?vi < 2" by auto
  obtain v where v: "rc_clampValue vel ?vi = Inr v" using rc_clampValue_range [OF vi(1)] by blast
  obtain row rows where rows: "rm_map m = row # rows" using assms(3) by (cases "rm_map m") auto
  have "ip_lerp1 ?vi row v = Inl IP_NotSorted"
    using vi assms(2) by (simp add: ip_lerp1_def ip_lerp_def ip_validateKeys_def ip_isIncreasing_def)
  with v rows show ?thesis by (simp add: rc_getThrottle_def rc_lift_def)
qed

end
