(* ===== verification/Trajectory_Utils.thy ===== *)
theory Trajectory_Utils
  imports Trajectory_Geometry Flt_Arith
begin

text \<open>
  \<open>common/motion_utils/include/motion_utils/trajectory/trajectory.hpp\<close>, the functions that search a
  trajectory and measure lengths along it.  Where the code returns \<open>std::nan\<close> the result is \<open>NaN\<close> of
  the type \<open>flt\<close>; where it throws, the result is an error value (\<open>TU_NotANumber\<close> is no exception: it
  stands for a point whose coordinates are NaN).  The messages it prints on
  \<open>std::cerr\<close> are left out.  The functions are templates over the type of the points: they read and write
  the pose and the longitudinal velocity of a point, whatever other fields (\<open>'p\<close>) it has.
\<close>

datatype tu_error =
    TU_Empty
  | TU_OutOfRange
  | TU_SamePoints
  | TU_SharpAngle
  | TU_TooClose
  | TU_NotANumber

type_synonym 'p point_list = "'p trajectory_point_scheme list"
type_synonym points = "unit point_list"

section \<open>Overlapping points\<close>

fun tu_remove_from :: "'p trajectory_point_scheme \<Rightarrow> 'p point_list \<Rightarrow> 'p point_list" where
  "tu_remove_from prev [] = []"
| "tu_remove_from prev (p # ps) =
     (if calcDistance2d (tp_pose prev) (tp_pose p) < 1 / 10 ^ 8 then tu_remove_from prev ps
      else p # tu_remove_from p ps)"

definition tu_removeOverlapPoints :: "'p point_list \<Rightarrow> nat \<Rightarrow> 'p point_list" where
  "tu_removeOverlapPoints points start_idx =
     (if length points < start_idx + 1 then points
      else take (start_idx + 1) points @ tu_remove_from (points ! start_idx) (drop (start_idx + 1) points))"

section \<open>Points of zero velocity\<close>

fun tu_zero_loop :: "'p point_list \<Rightarrow> nat list \<Rightarrow> tu_error + nat option" where
  "tu_zero_loop points [] = Inr None"
| "tu_zero_loop points (i # is) =
     (if length points \<le> i then Inl TU_OutOfRange
      else if \<bar>tp_longitudinal_velocity_mps (points ! i)\<bar> < 1 / 1000 then Inr (Some i)
      else tu_zero_loop points is)"

definition tu_searchZeroVelocityIndex :: "'p point_list \<Rightarrow> nat \<Rightarrow> nat \<Rightarrow> tu_error + nat option" where
  "tu_searchZeroVelocityIndex points src_idx dst_idx =
     (if points = [] then Inr None else tu_zero_loop points [src_idx..<dst_idx])"

definition tu_searchZeroVelocityIndex_from :: "'p point_list \<Rightarrow> nat \<Rightarrow> tu_error + nat option" where
  "tu_searchZeroVelocityIndex_from points src_idx =
     (if points = [] then Inr None else tu_searchZeroVelocityIndex points src_idx (length points))"

definition tu_searchZeroVelocityIndex_all :: "'p point_list \<Rightarrow> tu_error + nat option" where
  "tu_searchZeroVelocityIndex_all points = tu_searchZeroVelocityIndex points 0 (length points)"

section \<open>The nearest point and the nearest segment\<close>

text \<open>The accumulator is the smallest squared distance so far, \<open>None\<close> while it is the largest double.\<close>

fun tu_nearest_loop :: "'a point_scheme \<Rightarrow> nat \<Rightarrow> 'p point_list \<Rightarrow> real option \<Rightarrow> nat \<Rightarrow> nat" where
  "tu_nearest_loop point i [] min_dist min_idx = min_idx"
| "tu_nearest_loop point i (p # ps) min_dist min_idx =
     (let dist = calcSquaredDistance2d (tp_pose p) point
      in if (case min_dist of None \<Rightarrow> True | Some m \<Rightarrow> dist < m)
         then tu_nearest_loop point (Suc i) ps (Some dist) i
         else tu_nearest_loop point (Suc i) ps min_dist min_idx)"

definition tu_findNearestIndex :: "'p point_list \<Rightarrow> 'a point_scheme \<Rightarrow> tu_error + nat" where
  "tu_findNearestIndex points point =
     (if points = [] then Inl TU_Empty else Inr (tu_nearest_loop point 0 points None 0))"

text \<open>
  The length of the projection of a point on a segment.  An index that is not one of a segment, and
  a segment all points from which on overlap, give NaN, or an exception when the caller asked for it.
\<close>

definition tu_calcLongitudinalOffsetToSegment ::
  "'p point_list \<Rightarrow> nat \<Rightarrow> 'a point_scheme \<Rightarrow> bool \<Rightarrow> tu_error + flt" where
  "tu_calcLongitudinalOffsetToSegment points seg_idx p_target throw_exception =
     (if points \<noteq> [] \<and> length points - 1 \<le> seg_idx
      then (if throw_exception then Inl TU_OutOfRange else Inr NaN)
      else let ps = tu_removeOverlapPoints points seg_idx
        in if ps = [] then (if throw_exception then Inl TU_Empty else Inr NaN)
           else if length ps - 1 \<le> seg_idx
           then (if throw_exception then Inl TU_SamePoints else Inr NaN)
           else let p_front = tp_pose (ps ! seg_idx); p_back = tp_pose (ps ! (seg_idx + 1));
                    sx = pt_x p_back - pt_x p_front; sy = pt_y p_back - pt_y p_front;
                    tx = pt_x p_target - pt_x p_front; ty = pt_y p_target - pt_y p_front
             in Inr (Fin ((sx * tx + sy * ty) / std_hypot sx sy)))"

text \<open>The call with the default argument, which cannot throw.\<close>

definition tu_offset :: "'p point_list \<Rightarrow> nat \<Rightarrow> 'a point_scheme \<Rightarrow> flt" where
  "tu_offset points seg_idx p_target =
     (case tu_calcLongitudinalOffsetToSegment points seg_idx p_target False of
        Inr l \<Rightarrow> l | Inl e \<Rightarrow> NaN)"

text \<open>The segment next to a nearest point; a comparison with NaN is false.\<close>

definition tu_segment_of :: "'p point_list \<Rightarrow> 'a point_scheme \<Rightarrow> nat \<Rightarrow> nat" where
  "tu_segment_of points point nearest_idx =
     (if nearest_idx = 0 then 0
      else if nearest_idx = length points - 1 then length points - 2
      else let signed_length = tu_offset points nearest_idx point
        in if signed_length = Fin 0 \<or> flt_less signed_length (Fin 0) then nearest_idx - 1 else nearest_idx)"

definition tu_findNearestSegmentIndex :: "'p point_list \<Rightarrow> 'a point_scheme \<Rightarrow> tu_error + nat" where
  "tu_findNearestSegmentIndex points point =
     err_bind (tu_findNearestIndex points point) (\<lambda>nearest_idx. Inr (tu_segment_of points point nearest_idx))"

definition tu_findNearestSegmentIndex_within :: "'p point_list \<Rightarrow> pose \<Rightarrow> real \<Rightarrow> real \<Rightarrow> nat option" where
  "tu_findNearestSegmentIndex_within points pose max_dist max_yaw =
     (case findNearestIndex points pose max_dist max_yaw of
        None \<Rightarrow> None | Some nearest_idx \<Rightarrow> Some (tu_segment_of points pose nearest_idx))"

text \<open>
  The first run of points within the constraints: the loop skips points before the run and stops
  behind it.
\<close>

fun tu_first_loop ::
  "('p trajectory_point_scheme \<Rightarrow> bool) \<Rightarrow> 'a point_scheme \<Rightarrow> nat \<Rightarrow> 'p point_list \<Rightarrow> (real \<times> nat) option \<Rightarrow> nat option" where
  "tu_first_loop outside point i [] best = map_option snd best"
| "tu_first_loop outside point i (p # ps) best =
     (if outside p
      then (case best of Some (d, j) \<Rightarrow> Some j | None \<Rightarrow> tu_first_loop outside point (Suc i) ps None)
      else let squared_dist = calcSquaredDistance2d (tp_pose p) point
        in if (case best of None \<Rightarrow> False | Some (d, j) \<Rightarrow> d \<le> squared_dist)
           then tu_first_loop outside point (Suc i) ps best
           else tu_first_loop outside point (Suc i) ps (Some (squared_dist, i)))"

definition tu_far :: "pose \<Rightarrow> real \<Rightarrow> 'p trajectory_point_scheme \<Rightarrow> bool" where
  "tu_far pose dist_threshold p \<longleftrightarrow> dist_threshold * dist_threshold < calcSquaredDistance2d (tp_pose p) pose"

definition tu_turned :: "pose \<Rightarrow> real \<Rightarrow> 'p trajectory_point_scheme \<Rightarrow> bool" where
  "tu_turned pose yaw_threshold p \<longleftrightarrow> yaw_threshold < \<bar>calcYawDeviation (tp_pose p) pose\<bar>"

definition tu_findFirstNearestIndexWithSoftConstraints ::
  "'p point_list \<Rightarrow> pose \<Rightarrow> real \<Rightarrow> real \<Rightarrow> tu_error + nat" where
  "tu_findFirstNearestIndexWithSoftConstraints points pose dist_threshold yaw_threshold =
     (if points = [] then Inl TU_Empty
      else case tu_first_loop (\<lambda>p. tu_far pose dist_threshold p \<or> tu_turned pose yaw_threshold p) pose 0 points None of
          Some i \<Rightarrow> Inr i
        | None \<Rightarrow> (case tu_first_loop (tu_far pose dist_threshold) pose 0 points None of
              Some i \<Rightarrow> Inr i
            | None \<Rightarrow> tu_findNearestIndex points pose))"

definition tu_findFirstNearestSegmentIndexWithSoftConstraints ::
  "'p point_list \<Rightarrow> pose \<Rightarrow> real \<Rightarrow> real \<Rightarrow> tu_error + nat" where
  "tu_findFirstNearestSegmentIndexWithSoftConstraints points pose dist_threshold yaw_threshold =
     err_bind (tu_findFirstNearestIndexWithSoftConstraints points pose dist_threshold yaw_threshold)
       (\<lambda>nearest_idx. Inr (tu_segment_of points pose nearest_idx))"

section \<open>Lateral offset\<close>

definition tu_calcLateralOffset_at ::
  "'p point_list \<Rightarrow> 'a point_scheme \<Rightarrow> nat \<Rightarrow> bool \<Rightarrow> tu_error + flt" where
  "tu_calcLateralOffset_at points p_target seg_idx throw_exception =
     (let ps = tu_removeOverlapPoints points 0
      in if ps = [] then (if throw_exception then Inl TU_Empty else Inr NaN)
         else if length ps = 1 then (if throw_exception then Inl TU_SamePoints else Inr NaN)
         else if length ps \<le> seg_idx + 1 then Inl TU_OutOfRange
         else let p_front = tp_pose (ps ! seg_idx); p_back = tp_pose (ps ! (seg_idx + 1));
                  sx = pt_x p_back - pt_x p_front; sy = pt_y p_back - pt_y p_front;
                  tx = pt_x p_target - pt_x p_front; ty = pt_y p_target - pt_y p_front
           in Inr (Fin ((sx * ty - sy * tx) / std_hypot sx sy)))"

definition tu_calcLateralOffset :: "'p point_list \<Rightarrow> 'a point_scheme \<Rightarrow> bool \<Rightarrow> tu_error + flt" where
  "tu_calcLateralOffset points p_target throw_exception =
     (let ps = tu_removeOverlapPoints points 0
      in if ps = [] then (if throw_exception then Inl TU_Empty else Inr NaN)
         else if length ps = 1 then (if throw_exception then Inl TU_SamePoints else Inr NaN)
         else err_bind (tu_findNearestSegmentIndex ps p_target) (\<lambda>seg_idx.
           tu_calcLateralOffset_at points p_target seg_idx throw_exception))"

section \<open>Lengths\<close>

fun tu_length_loop :: "'p point_list \<Rightarrow> nat list \<Rightarrow> real \<Rightarrow> tu_error + real" where
  "tu_length_loop points [] dist_sum = Inr dist_sum"
| "tu_length_loop points (i # is) dist_sum =
     (if length points \<le> i + 1 then Inl TU_OutOfRange
      else tu_length_loop points is
             (dist_sum + calcDistance2d (tp_pose (points ! i)) (tp_pose (points ! (i + 1)))))"

definition tu_calcSignedArcLength :: "'p point_list \<Rightarrow> nat \<Rightarrow> nat \<Rightarrow> tu_error + real" where
  "tu_calcSignedArcLength points src_idx dst_idx =
     (if points = [] then Inr 0
      else if dst_idx < src_idx
      then err_bind (tu_length_loop points [dst_idx..<src_idx] 0) (\<lambda>l. Inr (- l))
      else tu_length_loop points [src_idx..<dst_idx] 0)"

text \<open>The partial sums call themselves with exchanged indices unless \<open>src_idx < dst_idx\<close>.\<close>

fun tu_partial_loop :: "'p point_list \<Rightarrow> nat list \<Rightarrow> real \<Rightarrow> tu_error + real list" where
  "tu_partial_loop points [] dist_sum = Inr []"
| "tu_partial_loop points (i # is) dist_sum =
     (if length points \<le> i + 1 then Inl TU_OutOfRange
      else let d = dist_sum + calcDistance2d (tp_pose (points ! i)) (tp_pose (points ! (i + 1)))
        in err_bind (tu_partial_loop points is d) (\<lambda>ds. Inr (d # ds)))"

partial_function (option) tu_calcSignedArcLengthPartialSum ::
  "'p point_list \<Rightarrow> nat \<Rightarrow> nat \<Rightarrow> (tu_error + real list) option" where
  "tu_calcSignedArcLengthPartialSum points src_idx dst_idx =
     (if points = [] then Some (Inr [])
      else if dst_idx < src_idx + 1 then tu_calcSignedArcLengthPartialSum points dst_idx src_idx
      else Some (err_bind (tu_partial_loop points [src_idx..<dst_idx - 1] 0) (\<lambda>ds. Inr (0 # ds))))"

text \<open>From a point to an index, between two points, and the variants with given segments.\<close>

definition tu_length_from ::
  "'p point_list \<Rightarrow> 'a point_scheme \<Rightarrow> nat \<Rightarrow> nat \<Rightarrow> tu_error + flt" where
  "tu_length_from points src_point src_seg_idx dst_idx =
     err_bind (tu_calcSignedArcLength points src_seg_idx dst_idx) (\<lambda>signed_length_on_traj.
       Inr (flt_sub (Fin signed_length_on_traj) (tu_offset points src_seg_idx src_point)))"

definition tu_length_between ::
  "'p point_list \<Rightarrow> 'a point_scheme \<Rightarrow> nat \<Rightarrow> 'b point_scheme \<Rightarrow> nat \<Rightarrow> tu_error + flt" where
  "tu_length_between points src_point src_seg_idx dst_point dst_seg_idx =
     err_bind (tu_calcSignedArcLength points src_seg_idx dst_seg_idx) (\<lambda>signed_length_on_traj.
       Inr (flt_add (flt_sub (Fin signed_length_on_traj) (tu_offset points src_seg_idx src_point))
              (tu_offset points dst_seg_idx dst_point)))"

definition tu_calcSignedArcLength_point_idx ::
  "'p point_list \<Rightarrow> 'a point_scheme \<Rightarrow> nat \<Rightarrow> tu_error + flt" where
  "tu_calcSignedArcLength_point_idx points src_point dst_idx =
     (if points = [] then Inr (Fin 0)
      else err_bind (tu_findNearestSegmentIndex points src_point) (\<lambda>src_seg_idx.
             tu_length_from points src_point src_seg_idx dst_idx))"

definition tu_calcSignedArcLength_idx_point ::
  "'p point_list \<Rightarrow> nat \<Rightarrow> 'a point_scheme \<Rightarrow> tu_error + flt" where
  "tu_calcSignedArcLength_idx_point points src_idx dst_point =
     (if points = [] then Inr (Fin 0)
      else err_bind (tu_calcSignedArcLength_point_idx points dst_point src_idx) (\<lambda>l. Inr (flt_minus l)))"

definition tu_calcSignedArcLength_points ::
  "'p point_list \<Rightarrow> 'a point_scheme \<Rightarrow> 'b point_scheme \<Rightarrow> tu_error + flt" where
  "tu_calcSignedArcLength_points points src_point dst_point =
     (if points = [] then Inr (Fin 0)
      else err_bind (tu_findNearestSegmentIndex points src_point) (\<lambda>src_seg_idx.
           err_bind (tu_findNearestSegmentIndex points dst_point) (\<lambda>dst_seg_idx.
             tu_length_between points src_point src_seg_idx dst_point dst_seg_idx)))"

definition tu_calcSignedArcLength_seg_seg ::
  "'p point_list \<Rightarrow> 'a point_scheme \<Rightarrow> nat \<Rightarrow> 'b point_scheme \<Rightarrow> nat \<Rightarrow> tu_error + flt" where
  "tu_calcSignedArcLength_seg_seg points src_point src_seg_idx dst_point dst_seg_idx =
     (if points = [] then Inl TU_Empty
      else tu_length_between points src_point src_seg_idx dst_point dst_seg_idx)"

definition tu_calcSignedArcLength_seg_idx ::
  "'p point_list \<Rightarrow> 'a point_scheme \<Rightarrow> nat \<Rightarrow> nat \<Rightarrow> tu_error + flt" where
  "tu_calcSignedArcLength_seg_idx points src_point src_seg_idx dst_idx =
     (if points = [] then Inl TU_Empty else tu_length_from points src_point src_seg_idx dst_idx)"

definition tu_calcSignedArcLength_idx_seg ::
  "'p point_list \<Rightarrow> nat \<Rightarrow> 'a point_scheme \<Rightarrow> nat \<Rightarrow> tu_error + flt" where
  "tu_calcSignedArcLength_idx_seg points src_idx dst_point dst_seg_idx =
     (if points = [] then Inl TU_Empty
      else err_bind (tu_calcSignedArcLength points src_idx dst_seg_idx) (\<lambda>signed_length_on_traj.
             Inr (flt_add (Fin signed_length_on_traj) (tu_offset points dst_seg_idx dst_point))))"

definition tu_calcArcLength :: "'p point_list \<Rightarrow> tu_error + real" where
  "tu_calcArcLength points =
     (if points = [] then Inr 0 else tu_calcSignedArcLength points 0 (length points - 1))"

definition tu_calcDistanceToForwardStopPoint_idx :: "'p point_list \<Rightarrow> nat \<Rightarrow> tu_error + real option" where
  "tu_calcDistanceToForwardStopPoint_idx points src_idx =
     (if points = [] then Inr None
      else err_bind (tu_searchZeroVelocityIndex points src_idx (length points)) (\<lambda>r. case r of
          None \<Rightarrow> Inr None
        | Some closest_stop_idx \<Rightarrow>
            err_bind (tu_calcSignedArcLength points src_idx closest_stop_idx) (\<lambda>l.
              Inr (Some (max 0 l)))))"

definition tu_calcDistanceToForwardStopPoint ::
  "'p point_list \<Rightarrow> pose \<Rightarrow> real \<Rightarrow> real \<Rightarrow> tu_error + flt option" where
  "tu_calcDistanceToForwardStopPoint points pose max_dist max_yaw =
     (if points = [] then Inr None
      else case tu_findNearestSegmentIndex_within points pose max_dist max_yaw of
          None \<Rightarrow> Inr None
        | Some nearest_segment_idx \<Rightarrow>
            err_bind (tu_searchZeroVelocityIndex points (nearest_segment_idx + 1) (length points)) (\<lambda>r.
              case r of
                None \<Rightarrow> Inr None
              | Some stop_idx \<Rightarrow>
                  err_bind (tu_calcSignedArcLength_seg_idx points pose nearest_segment_idx stop_idx)
                    (\<lambda>closest_stop_dist. Inr (Some (std_max (Fin 0) closest_stop_dist)))))"

section \<open>Curvature\<close>

definition calcCurvature :: "'a point_scheme \<Rightarrow> 'b point_scheme \<Rightarrow> 'c point_scheme \<Rightarrow> tu_error + real" where
  "calcCurvature p1 p2 p3 =
     (let denominator = calcDistance2d p1 p2 * calcDistance2d p2 p3 * calcDistance2d p3 p1
      in if \<bar>denominator\<bar> < 1 / 10 ^ 10 then Inl TU_TooClose
         else Inr (2 * ((pt_x p2 - pt_x p1) * (pt_y p3 - pt_y p1)
                - (pt_y p2 - pt_y p1) * (pt_x p3 - pt_x p1)) / denominator))"

fun tu_curvatures :: "'p point_list \<Rightarrow> tu_error + real list" where
  "tu_curvatures (p1 # p2 # p3 # ps) =
     err_bind (calcCurvature (tp_pose p1) (tp_pose p2) (tp_pose p3)) (\<lambda>c.
       err_bind (tu_curvatures (p2 # p3 # ps)) (\<lambda>cs. Inr (c # cs)))"
| "tu_curvatures _ = Inr []"

text \<open>
  The ends copy their neighbours; fewer than two points throw \<open>std::out_of_range\<close>, and with two
  points both entries keep the zero they were created with.
\<close>

definition tu_calcCurvature :: "'p point_list \<Rightarrow> tu_error + real list" where
  "tu_calcCurvature points =
     (if length points < 2 then Inl TU_OutOfRange
      else err_bind (tu_curvatures points) (\<lambda>cs.
             Inr (if cs = [] then [0, 0] else hd cs # cs @ [last cs])))"

section \<open>Direction of travel\<close>

definition calcAzimuthAngle :: "'a point_scheme \<Rightarrow> 'b point_scheme \<Rightarrow> real" where
  "calcAzimuthAngle p_from p_to = std_atan2 (pt_y p_to - pt_y p_from) (pt_x p_to - pt_x p_from)"

definition calcElevationAngle :: "'a point_scheme \<Rightarrow> 'b point_scheme \<Rightarrow> real" where
  "calcElevationAngle p_from p_to = std_atan2 (pt_z p_to - pt_z p_from) (calcDistance2d p_from p_to)"

definition isDrivingForward :: "pose \<Rightarrow> 'a point_scheme \<Rightarrow> bool" where
  "isDrivingForward src_pose dst_pose \<longleftrightarrow>
     \<bar>normalizeRadian (po_yaw src_pose - calcAzimuthAngle src_pose dst_pose)\<bar> < pi / 2"

definition tu_isDrivingForward :: "'p point_list \<Rightarrow> bool option" where
  "tu_isDrivingForward points =
     (if length points < 2 then None
      else Some (isDrivingForward (tp_pose (points ! 0)) (tp_pose (points ! 1))))"

definition tu_isDrivingForwardWithTwist :: "'p point_list \<Rightarrow> bool option" where
  "tu_isDrivingForwardWithTwist points =
     (if points = [] then None
      else if length points = 1
      then (if 0 < tp_longitudinal_velocity_mps (hd points) then Some True
            else if tp_longitudinal_velocity_mps (hd points) < 0 then Some False else None)
      else tu_isDrivingForward points)"

text \<open>The angle of a pose to the nearest segment.\<close>

definition tu_calcYawDeviation :: "'p point_list \<Rightarrow> pose \<Rightarrow> bool \<Rightarrow> tu_error + real" where
  "tu_calcYawDeviation points pose throw_exception =
     (let ps = tu_removeOverlapPoints points 0
      in if ps = [] then (if throw_exception then Inl TU_Empty else Inr 0)
         else if length ps \<le> 1 then (if throw_exception then Inl TU_SamePoints else Inr 0)
         else err_bind (tu_findNearestSegmentIndex ps pose) (\<lambda>seg_idx.
           let path_yaw = calcAzimuthAngle (tp_pose (ps ! seg_idx)) (tp_pose (ps ! (seg_idx + 1)))
           in Inr (normalizeRadian (po_yaw pose - path_yaw))))"

section \<open>Lengths by index\<close>

definition tu_seg :: "'p point_list \<Rightarrow> nat \<Rightarrow> real" where
  "tu_seg points i = calcDistance2d (tp_pose (points ! i)) (tp_pose (points ! (i + 1)))"

lemma tu_length_loop_eq:
  "\<forall>i \<in> set is. i + 1 < length points \<Longrightarrow>
   tu_length_loop points is d = Inr (d + sum_list (map (tu_seg points) is))"
  by (induction "is" arbitrary: d) (auto simp: tu_seg_def)

lemma tu_length_loop_range:
  "j < length points \<Longrightarrow>
   tu_length_loop points [i..<j] 0 = Inr (sum_list (map (tu_seg points) [i..<j]))"
  by (subst tu_length_loop_eq) auto

text \<open>The position of a point along the trajectory; signed lengths are differences of positions.\<close>

definition tu_position :: "'p point_list \<Rightarrow> nat \<Rightarrow> real" where
  "tu_position points i = sum_list (map (tu_seg points) [0..<i])"

lemma tu_position_Suc [simp]: "tu_position points (Suc i) = tu_position points i + tu_seg points i"
  by (simp add: tu_position_def)

lemma tu_position_range:
  assumes "i \<le> j"
  shows "sum_list (map (tu_seg points) [i..<j]) = tu_position points j - tu_position points i"
  using assms
proof (induction j)
  case (Suc j)
  show ?case
  proof (cases "i \<le> j")
    case True
    with Suc show ?thesis by simp
  next
    case False
    with Suc.prems have "i = Suc j" by simp
    then show ?thesis by simp
  qed
qed (simp add: tu_position_def)

lemma tu_signed_length:
  assumes "i < length points" and "j < length points"
  shows "tu_calcSignedArcLength points i j = Inr (tu_position points j - tu_position points i)"
  using assms by (auto simp: tu_calcSignedArcLength_def tu_length_loop_range tu_position_range)

text \<open>Signed lengths add up along the trajectory, in whatever order the three indices lie.\<close>

lemma tu_signed_length_additive:
  assumes "i < length points" and "j < length points" and "k < length points"
  shows "\<exists>a b. tu_calcSignedArcLength points i j = Inr a \<and> tu_calcSignedArcLength points j k = Inr b \<and>
    tu_calcSignedArcLength points i k = Inr (a + b) \<and> tu_calcSignedArcLength points j i = Inr (- a)"
  using assms by (simp add: tu_signed_length)

lemma calcDistance2d_triangle:
  "calcDistance2d p r \<le> calcDistance2d p q + calcDistance2d q r"
proof -
  have "sqrt ((pt_x p - pt_x q + (pt_x q - pt_x r))\<^sup>2 + (pt_y p - pt_y q + (pt_y q - pt_y r))\<^sup>2) \<le>
    sqrt ((pt_x p - pt_x q)\<^sup>2 + (pt_y p - pt_y q)\<^sup>2) + sqrt ((pt_x q - pt_x r)\<^sup>2 + (pt_y q - pt_y r)\<^sup>2)"
    by (rule real_sqrt_sum_squares_triangle_ineq)
  then show ?thesis by (simp add: calcDistance2d_def std_hypot_def)
qed

lemma calcDistance2d_same [simp]: "calcDistance2d p p = 0"
  by (simp add: calcDistance2d_def std_hypot_def)

text \<open>The length along the trajectory is at least the distance between its ends.\<close>

lemma tu_signed_length_ge_distance:
  assumes "i \<le> j" and "j < length points"
  shows "\<exists>l. tu_calcSignedArcLength points i j = Inr l \<and>
    calcDistance2d (tp_pose (points ! i)) (tp_pose (points ! j)) \<le> l"
  using assms
proof (induction j)
  case 0
  then show ?case by (simp add: tu_signed_length)
next
  case (Suc j)
  show ?case
  proof (cases "i \<le> j")
    case True
    with Suc obtain l where l: "tu_calcSignedArcLength points i j = Inr l"
      "calcDistance2d (tp_pose (points ! i)) (tp_pose (points ! j)) \<le> l" by auto
    have "tu_calcSignedArcLength points i (Suc j) = Inr (l + tu_seg points j)"
      using l(1) Suc.prems True by (simp add: tu_signed_length)
    moreover have "calcDistance2d (tp_pose (points ! i)) (tp_pose (points ! Suc j)) \<le> l + tu_seg points j"
      using calcDistance2d_triangle [of "tp_pose (points ! i)" "tp_pose (points ! Suc j)" "tp_pose (points ! j)"] l(2)
      by (simp add: tu_seg_def)
    ultimately show ?thesis by blast
  next
    case False
    with Suc.prems have "i = Suc j" by simp
    with Suc.prems show ?thesis by (simp add: tu_signed_length)
  qed
qed

section \<open>Partial sums\<close>

text \<open>
  The partial sums between an index and itself call themselves with the same arguments for ever.
\<close>

lemma tu_partial_sum_returns:
  fixes points :: "'p point_list"
  assumes "tu_calcSignedArcLengthPartialSum points i j = Some r"
  shows "points \<noteq> [] \<longrightarrow> i \<noteq> j"
proof (rule tu_calcSignedArcLengthPartialSum.raw_induct
    [where P = "\<lambda>ps i j r. ps \<noteq> [] \<longrightarrow> i \<noteq> j", OF _ assms])
  fix f :: "'p point_list \<Rightarrow> nat \<Rightarrow> nat \<Rightarrow> (tu_error + real list) option"
    and ps i j and r :: "tu_error + real list"
  assume IH: "\<And>ps i j r. f ps i j = Some r \<Longrightarrow> ps \<noteq> [] \<longrightarrow> i \<noteq> j"
    and step: "(if ps = [] then Some (Inr [])
      else if j < i + 1 then f ps j i
      else Some (err_bind (tu_partial_loop ps [i..<j - 1] 0) (\<lambda>ds. Inr (0 # ds)))) = Some r"
  show "ps \<noteq> [] \<longrightarrow> i \<noteq> j"
    using step IH [of ps j i r] by (auto split: if_splits)
qed

lemma tu_partial_loop_eq:
  "tu_partial_loop points [i..<j] d =
     (if i < j \<and> length points \<le> j then Inl TU_OutOfRange
      else Inr (map (\<lambda>k. d + (tu_position points k - tu_position points i)) [Suc i..<Suc j]))"
proof (induction "j - i" arbitrary: i d)
  case 0
  then show ?case by simp
next
  case (Suc n)
  then have "i < j" by simp
  with Suc.hyps(1) [of "Suc i"] Suc.hyps(2) show ?case
    by (auto simp: upt_conv_Cons tu_seg_def algebra_simps simp del: upt_Suc)
qed

lemma tu_partial_sum_forward:
  assumes "points \<noteq> []" and "i < j"
  shows "tu_calcSignedArcLengthPartialSum points i j = Some
    (if j \<le> length points \<or> j = Suc i
     then Inr (map (\<lambda>k. tu_position points k - tu_position points i) [i..<j])
     else Inl TU_OutOfRange)"
proof -
  have "[i..<j] = i # [Suc i..<Suc (j - 1)]" using assms(2) by (simp add: upt_conv_Cons)
  moreover have "i < j - 1 \<and> length points \<le> j - 1 \<longleftrightarrow> \<not> (j \<le> length points \<or> j = Suc i)"
    using assms by auto
  ultimately show ?thesis
    using assms by (subst tu_calcSignedArcLengthPartialSum.simps)
      (auto simp: tu_partial_loop_eq simp del: upt_Suc)
qed

text \<open>calcSignedArcLengthPartialSum returns if and only if there is no point or the two indices differ. Then it gives, for every index from the smaller one up to but not including the larger one, the length of the trajectory from the smaller index to it, and throws when the larger index is beyond the number of points and the two indices are not neighbours; between an index and itself it calls itself for ever.\<close>

theorem tu_partial_sum_spec:
  "tu_calcSignedArcLengthPartialSum points i j =
     (if points = [] then Some (Inr [])
      else if i = j then None
      else if max i j \<le> length points \<or> max i j = Suc (min i j)
      then Some (Inr (map (\<lambda>k. tu_position points k - tu_position points (min i j)) [min i j..<max i j]))
      else Some (Inl TU_OutOfRange))"
proof (cases "points = [] \<or> i = j")
  case True
  then show ?thesis
    using tu_partial_sum_returns [of points i j]
    by (cases "tu_calcSignedArcLengthPartialSum points i j")
      (auto simp: tu_calcSignedArcLengthPartialSum.simps [of "[]"])
next
  case False
  show ?thesis
  proof (cases "i < j")
    case True
    with False show ?thesis by (simp add: tu_partial_sum_forward)
  next
    case no: False
    with False have "tu_calcSignedArcLengthPartialSum points i j = tu_calcSignedArcLengthPartialSum points j i"
      by (subst tu_calcSignedArcLengthPartialSum.simps) simp
    with False no show ?thesis by (simp add: tu_partial_sum_forward)
  qed
qed

section \<open>The nearest point\<close>

lemma tu_nearest_loop_min:
  assumes "\<forall>x \<in> set xs. case best of None \<Rightarrow> False | Some m \<Rightarrow> m \<le> calcSquaredDistance2d (tp_pose x) point"
    and "case best of None \<Rightarrow> xs = [] | Some m \<Rightarrow> j < length xs \<and> m = calcSquaredDistance2d (tp_pose (xs ! j)) point"
    and "xs @ ps \<noteq> []"
  shows "\<exists>k < length (xs @ ps). tu_nearest_loop point (length xs) ps best j = k \<and>
    (\<forall>x \<in> set (xs @ ps). calcSquaredDistance2d (tp_pose ((xs @ ps) ! k)) point \<le> calcSquaredDistance2d (tp_pose x) point)"
  using assms
proof (induction ps arbitrary: xs best j)
  case Nil
  then show ?case by (cases best) auto
next
  case (Cons p ps)
  let ?d = "calcSquaredDistance2d (tp_pose p) point"
  have IH: "\<forall>x \<in> set (xs @ [p]). case b of None \<Rightarrow> False | Some m \<Rightarrow> m \<le> calcSquaredDistance2d (tp_pose x) point \<Longrightarrow>
    case b of None \<Rightarrow> xs @ [p] = [] | Some m \<Rightarrow> i < length (xs @ [p]) \<and> m = calcSquaredDistance2d (tp_pose ((xs @ [p]) ! i)) point \<Longrightarrow>
    \<exists>k < length (xs @ p # ps). tu_nearest_loop point (Suc (length xs)) ps b i = k \<and>
      (\<forall>x \<in> set (xs @ p # ps). calcSquaredDistance2d (tp_pose ((xs @ p # ps) ! k)) point \<le> calcSquaredDistance2d (tp_pose x) point)" for b i
    using Cons.IH [of "xs @ [p]" b i] by simp
  show ?case
  proof (cases "case best of None \<Rightarrow> True | Some m \<Rightarrow> ?d < m")
    case True
    with Cons.prems(1) have "\<forall>x \<in> set (xs @ [p]). ?d \<le> calcSquaredDistance2d (tp_pose x) point"
      by (auto split: option.splits)
    with IH [of "Some ?d" "length xs"] True show ?thesis by (auto simp: Let_def nth_append split: option.splits)
  next
    case False
    then obtain m where "best = Some m" "m \<le> ?d" by (auto split: option.splits)
    with IH [of best j] Cons.prems(1,2) False show ?thesis by (auto simp: Let_def nth_append)
  qed
qed

lemma tu_findNearestIndex_min:
  assumes "points \<noteq> []"
  shows "\<exists>k < length points. tu_findNearestIndex points point = Inr k \<and>
    (\<forall>x \<in> set points. calcSquaredDistance2d (tp_pose (points ! k)) point \<le> calcSquaredDistance2d (tp_pose x) point)"
  using tu_nearest_loop_min [of "[]" point None 0 points] assms by (simp add: tu_findNearestIndex_def)

text \<open>The constrained search finds a point within the constraints whenever there is one.\<close>

lemma tu_first_loop_inside:
  assumes "case best of None \<Rightarrow> \<forall>x \<in> set xs. outside x | Some (d, j) \<Rightarrow> j < length xs \<and> \<not> outside (xs ! j)"
  shows "case tu_first_loop outside point (length xs) ps best of
      None \<Rightarrow> \<forall>x \<in> set (xs @ ps). outside x
    | Some k \<Rightarrow> k < length (xs @ ps) \<and> \<not> outside ((xs @ ps) ! k)"
  using assms
proof (induction ps arbitrary: xs best)
  case Nil
  then show ?case by (cases best) auto
next
  case (Cons p ps)
  have IH: "case b of None \<Rightarrow> \<forall>x \<in> set (xs @ [p]). outside x
      | Some (d, j) \<Rightarrow> j < length (xs @ [p]) \<and> \<not> outside ((xs @ [p]) ! j) \<Longrightarrow>
    case tu_first_loop outside point (Suc (length xs)) ps b of
      None \<Rightarrow> \<forall>x \<in> set (xs @ p # ps). outside x
    | Some k \<Rightarrow> k < length (xs @ p # ps) \<and> \<not> outside ((xs @ p # ps) ! k)" for b
    using Cons.IH [where best = b and xs = "xs @ [p]"] by (simp cong: option.case_cong)
  show ?case
  proof (cases "outside p")
    case True
    show ?thesis
    proof (cases best)
      case None
      with True IH [of None] Cons.prems show ?thesis by simp
    next
      case (Some dj)
      with True Cons.prems show ?thesis by (auto simp: nth_append split: prod.splits)
    qed
  next
    case False
    have new: "case tu_first_loop outside point (Suc (length xs)) ps (Some (d, length xs)) of
        None \<Rightarrow> \<forall>x \<in> set (xs @ p # ps). outside x
      | Some k \<Rightarrow> k < length (xs @ p # ps) \<and> \<not> outside ((xs @ p # ps) ! k)" for d
      using IH [of "Some (d, length xs)"] False by simp
    have old: "case tu_first_loop outside point (Suc (length xs)) ps best of
        None \<Rightarrow> \<forall>x \<in> set (xs @ p # ps). outside x
      | Some k \<Rightarrow> k < length (xs @ p # ps) \<and> \<not> outside ((xs @ p # ps) ! k)" if "best \<noteq> None"
      using IH [of best] that Cons.prems by (auto simp: nth_append split: prod.splits)
    show ?thesis using False new old by (auto simp: Let_def split: option.splits)
  qed
qed

lemma tu_first_loop_spec:
  "case tu_first_loop outside point 0 points None of
      None \<Rightarrow> \<forall>x \<in> set points. outside x
    | Some k \<Rightarrow> k < length points \<and> \<not> outside (points ! k)"
  using tu_first_loop_inside [where best = None and xs = "[]" and outside = outside and point = point and ps = points]
  by (simp cong: option.case_cong)

lemma tu_soft_constraints:
  assumes "points \<noteq> []"
  shows "\<exists>k < length points. tu_findFirstNearestIndexWithSoftConstraints points pose dmax ymax = Inr k \<and>
    ((\<exists>x \<in> set points. \<not> tu_far pose dmax x \<and> \<not> tu_turned pose ymax x) \<longrightarrow>
       \<not> tu_far pose dmax (points ! k) \<and> \<not> tu_turned pose ymax (points ! k)) \<and>
    ((\<exists>x \<in> set points. \<not> tu_far pose dmax x) \<longrightarrow> \<not> tu_far pose dmax (points ! k))"
proof -
  note both = tu_first_loop_spec [where outside = "\<lambda>p. tu_far pose dmax p \<or> tu_turned pose ymax p" and point = pose and points = points]
  note near = tu_first_loop_spec [where outside = "tu_far pose dmax" and point = pose and points = points]
  obtain m where m: "m < length points" "tu_findNearestIndex points pose = Inr m"
    using tu_findNearestIndex_min [OF assms, of pose] by blast
  show ?thesis
  proof (cases "tu_first_loop (\<lambda>p. tu_far pose dmax p \<or> tu_turned pose ymax p) pose 0 points None")
    case (Some k)
    with both assms show ?thesis
      by (intro exI [of _ k]) (simp add: tu_findFirstNearestIndexWithSoftConstraints_def)
  next
    case None
    note no_both = None
    show ?thesis
    proof (cases "tu_first_loop (tu_far pose dmax) pose 0 points None")
      case (Some k)
      with no_both both near assms show ?thesis
        by (intro exI [of _ k]) (auto simp: tu_findFirstNearestIndexWithSoftConstraints_def)
    next
      case None
      with no_both both near assms m show ?thesis
        by (intro exI [of _ m]) (auto simp: tu_findFirstNearestIndexWithSoftConstraints_def)
    qed
  qed
qed

lemma tu_segment_of_valid:
  "2 \<le> length points \<Longrightarrow> k < length points \<Longrightarrow> tu_segment_of points point k + 1 < length points"
  by (auto simp: tu_segment_of_def Let_def)

section \<open>Points without overlap\<close>

definition tu_apart :: "'p trajectory_point_scheme \<Rightarrow> 'p trajectory_point_scheme \<Rightarrow> bool" where
  "tu_apart p q \<longleftrightarrow> 1 / 10 ^ 8 \<le> calcDistance2d (tp_pose p) (tp_pose q)"

lemma tu_remove_from_apart: "successively tu_apart (p # tu_remove_from p ps)"
  by (induction p ps rule: tu_remove_from.induct) (auto simp: tu_apart_def not_less)

lemma tu_removeOverlapPoints_apart: "successively tu_apart (tu_removeOverlapPoints points 0)"
  using tu_remove_from_apart by (cases points) (simp_all add: tu_removeOverlapPoints_def)

lemma tu_remove_from_id: "successively tu_apart (p # ps) \<Longrightarrow> tu_remove_from p ps = ps"
  by (induction ps arbitrary: p) (auto simp: tu_apart_def successively_Cons)

lemma tu_removeOverlapPoints_idem:
  "tu_removeOverlapPoints (tu_removeOverlapPoints points 0) 0 = tu_removeOverlapPoints points 0"
proof (cases points)
  case (Cons p ps)
  then show ?thesis
    using tu_remove_from_id [OF tu_remove_from_apart [of p ps]] by (simp add: tu_removeOverlapPoints_def)
qed (simp add: tu_removeOverlapPoints_def)

end
