(* ===== verification/Trajectory_Edit.thy ===== *)
theory Trajectory_Edit
  imports Trajectory_Utils
begin

text \<open>
  \<open>trajectory.hpp\<close> again: points at a given length along a trajectory, the insertion of target, stop
  and deceleration points, orientations, and cropping.  A function that changes its argument returns
  the new points with its result.  The spherical interpolation of orientations, \<open>tf2::slerp\<close>, is a
  parameter that returns pitch and yaw.
\<close>

section \<open>Interpolation between two poses\<close>

definition calcInterpolatedPoint :: "'a point_scheme \<Rightarrow> 'b point_scheme \<Rightarrow> real \<Rightarrow> point" where
  "calcInterpolatedPoint src dst ratio =
     (let clamped_ratio = std_clamp ratio 0 1
      in \<lparr> pt_x = pt_x src + (pt_x dst - pt_x src) * clamped_ratio,
           pt_y = pt_y src + (pt_y dst - pt_y src) * clamped_ratio,
           pt_z = pt_z src + (pt_z dst - pt_z src) * clamped_ratio \<rparr>)"

definition te_pose_at :: "'a point_scheme \<Rightarrow> real \<Rightarrow> real \<Rightarrow> pose" where
  "te_pose_at p pitch yaw =
     \<lparr> pt_x = pt_x p, pt_y = pt_y p, pt_z = pt_z p, po_pitch = pitch, po_yaw = yaw \<rparr>"

definition calcInterpolatedPose ::
  "(pose \<Rightarrow> pose \<Rightarrow> real \<Rightarrow> real \<times> real) \<Rightarrow> pose \<Rightarrow> pose \<Rightarrow> real \<Rightarrow> bool \<Rightarrow> pose" where
  "calcInterpolatedPose slerp src_pose dst_pose ratio set_orientation_from_position_direction =
     (let clamped_ratio = std_clamp ratio 0 1;
          position = calcInterpolatedPoint src_pose dst_pose clamped_ratio
      in if set_orientation_from_position_direction
         then let input_poses_dist = calcDistance2d src_pose dst_pose;
                  is_driving_forward = isDrivingForward src_pose dst_pose
           in if is_driving_forward \<and> 1 - 1 / 10 ^ 6 < clamped_ratio \<or> input_poses_dist < 1 / 1000
              then te_pose_at position (po_pitch dst_pose) (po_yaw dst_pose)
              else if \<not> is_driving_forward \<and> clamped_ratio < 1 / 10 ^ 6
              then te_pose_at position (po_pitch src_pose) (po_yaw src_pose)
              else let base_pose = (if is_driving_forward then dst_pose else src_pose)
                in te_pose_at position (calcElevationAngle position base_pose)
                     (calcAzimuthAngle position base_pose)
         else let (pitch, yaw) = slerp src_pose dst_pose clamped_ratio
           in te_pose_at position pitch yaw)"

section \<open>Points at a given length\<close>

text \<open>
  The first segment on which the length travelled from the start reaches the offset, with the length
  left over (not positive) and the length of the segment.
\<close>

fun te_walk :: "'p point_list \<Rightarrow> nat list \<Rightarrow> real \<Rightarrow> real \<Rightarrow> (nat \<times> real \<times> real) option" where
  "te_walk points [] dist_sum off = None"
| "te_walk points (i # is) dist_sum off =
     (let dist_segment = calcDistance2d (tp_pose (points ! i)) (tp_pose (points ! (i + 1)));
          d = dist_sum + dist_segment;
          dist_res = off - d
      in if dist_res \<le> 0 then Some (i, dist_res, dist_segment) else te_walk points is d off)"

definition te_offset_point_forward :: "'p point_list \<Rightarrow> nat \<Rightarrow> real \<Rightarrow> tu_error + point option" where
  "te_offset_point_forward points src_idx off =
     (case te_walk points [src_idx..<length points - 1] 0 off of
        None \<Rightarrow> Inr None
      | Some (i, dist_res, dist_segment) \<Rightarrow>
          if dist_segment = 0 then Inl TU_NotANumber
          else Inr (Some (calcInterpolatedPoint (tp_pose (points ! (i + 1))) (tp_pose (points ! i))
                 \<bar>dist_res / dist_segment\<bar>)))"

definition te_calcLongitudinalOffsetPoint_idx ::
  "'p point_list \<Rightarrow> nat \<Rightarrow> real \<Rightarrow> bool \<Rightarrow> tu_error + point option" where
  "te_calcLongitudinalOffsetPoint_idx points src_idx off throw_exception =
     (if points = [] then Inr None
      else if length points - 1 < src_idx then (if throw_exception then Inl TU_OutOfRange else Inr None)
      else if length points = 1 then Inr None
      else if src_idx + 1 = length points \<and> off = 0
      then Inr (Some (point.truncate (tp_pose (points ! src_idx))))
      else if off < 0 then te_offset_point_forward (rev points) (length points - src_idx - 1) (- off)
      else te_offset_point_forward points src_idx off)"

definition te_offset_point_from :: "'p point_list \<Rightarrow> 'a point_scheme \<Rightarrow> real \<Rightarrow> tu_error + point option" where
  "te_offset_point_from points src_point off =
     err_bind (tu_findNearestSegmentIndex points src_point) (\<lambda>src_seg_idx.
       case tu_offset points src_seg_idx src_point of
         Fin signed_length_src_offset \<Rightarrow>
           te_calcLongitudinalOffsetPoint_idx points src_seg_idx (off + signed_length_src_offset) False
       | _ \<Rightarrow> Inr None)"

text \<open>
  An offset that is NaN passes no comparison of the walk and finds no point (\<open>te_offset_point_from\<close>).
\<close>

definition te_calcLongitudinalOffsetPoint ::
  "'p point_list \<Rightarrow> 'a point_scheme \<Rightarrow> real \<Rightarrow> tu_error + point option" where
  "te_calcLongitudinalOffsetPoint points src_point off =
     (if points = [] then Inr None
      else if off < 0 then te_offset_point_from (rev points) src_point (- off)
      else te_offset_point_from points src_point off)"

definition te_calcLongitudinalOffsetPose_idx ::
  "(pose \<Rightarrow> pose \<Rightarrow> real \<Rightarrow> real \<times> real) \<Rightarrow> 'p point_list \<Rightarrow> nat \<Rightarrow> real \<Rightarrow> bool \<Rightarrow> bool \<Rightarrow> tu_error + pose option" where
  "te_calcLongitudinalOffsetPose_idx slerp points src_idx off set_orientation throw_exception =
     (if points = [] then Inr None
      else if length points - 1 < src_idx then (if throw_exception then Inl TU_OutOfRange else Inr None)
      else if length points = 1 then Inr None
      else if src_idx + 1 = length points \<and> off = 0 then Inr (Some (tp_pose (points ! src_idx)))
      else if off < 0
      then let reverse_points = rev points
        in case te_walk reverse_points [length points - src_idx - 1..<length points - 1] 0 (- off) of
             None \<Rightarrow> Inr None
           | Some (i, dist_res, dist_segment) \<Rightarrow>
               if dist_segment = 0 then Inl TU_NotANumber
               else Inr (Some (calcInterpolatedPose slerp (tp_pose (reverse_points ! (i + 1)))
                      (tp_pose (reverse_points ! i)) \<bar>dist_res / dist_segment\<bar> set_orientation))
      else case te_walk points [src_idx..<length points - 1] 0 off of
             None \<Rightarrow> Inr None
           | Some (i, dist_res, dist_segment) \<Rightarrow>
               if dist_segment = 0 then Inl TU_NotANumber
               else Inr (Some (calcInterpolatedPose slerp (tp_pose (points ! i)) (tp_pose (points ! (i + 1)))
                      (1 - \<bar>dist_res / dist_segment\<bar>) set_orientation)))"

definition te_calcLongitudinalOffsetPose ::
  "(pose \<Rightarrow> pose \<Rightarrow> real \<Rightarrow> real \<times> real) \<Rightarrow> 'p point_list \<Rightarrow> 'a point_scheme \<Rightarrow> real \<Rightarrow> bool \<Rightarrow> tu_error + pose option" where
  "te_calcLongitudinalOffsetPose slerp points src_point off set_orientation =
     (if points = [] then Inr None
      else err_bind (tu_findNearestSegmentIndex points src_point) (\<lambda>src_seg_idx.
        case tu_offset points src_seg_idx src_point of
          Fin signed_length_src_offset \<Rightarrow>
            te_calcLongitudinalOffsetPose_idx slerp points src_seg_idx (off + signed_length_src_offset)
              set_orientation False
        | _ \<Rightarrow> Inr None))"

section \<open>Insertion\<close>

definition calcDistance3d :: "'a point_scheme \<Rightarrow> 'b point_scheme \<Rightarrow> real" where
  "calcDistance3d p1 p2 =
     std_hypot (std_hypot (pt_x p1 - pt_x p2) (pt_y p1 - pt_y p2)) (pt_z p1 - pt_z p2)"

definition te_sharp_angle :: "'a point_scheme \<Rightarrow> 'b point_scheme \<Rightarrow> 'c point_scheme \<Rightarrow> bool" where
  "te_sharp_angle p1 p2 p3 \<longleftrightarrow>
     (let product = (pt_x p2 - pt_x p1) * (pt_x p2 - pt_x p3) + (pt_y p2 - pt_y p1) * (pt_y p2 - pt_y p3)
            + (pt_z p2 - pt_z p1) * (pt_z p2 - pt_z p3);
          dist_1to2 = calcDistance3d p1 p2; dist_3to2 = calcDistance3d p3 p2
      in cos (pi / 4) < product / dist_1to2 / dist_3to2 + 1 / 1000)"

text \<open>
  The new point copies the point in front of it but for its pose; the point at the other end of the
  segment is turned towards it.
\<close>

definition te_insert_behind :: "nat \<Rightarrow> 'p trajectory_point_scheme \<Rightarrow> nat \<Rightarrow> pose \<Rightarrow> 'p point_list \<Rightarrow> 'p point_list" where
  "te_insert_behind seg_idx p_insert base_idx base_pose points =
     (let ps = points[base_idx := (points ! base_idx)\<lparr> tp_pose := base_pose \<rparr>]
      in take (seg_idx + 1) ps @ p_insert # drop (seg_idx + 1) ps)"

definition te_insertTargetPoint :: "nat \<Rightarrow> 'a point_scheme \<Rightarrow> 'p point_list \<Rightarrow> real \<Rightarrow> nat option \<times> 'p point_list" where
  "te_insertTargetPoint seg_idx p_target points overlap_threshold =
     (if points = [] then (None, points)
      else if length points \<le> seg_idx + 1 then (None, points)
      else let p_front = tp_pose (points ! seg_idx); p_back = tp_pose (points ! (seg_idx + 1))
        in if te_sharp_angle p_front p_target p_back then (None, points)
           else let overlap_with_front = (calcDistance2d p_target p_front < overlap_threshold);
                    overlap_with_back = (calcDistance2d p_target p_back < overlap_threshold)
             in case tu_isDrivingForward points of
                  None \<Rightarrow> (None, points)
                | Some forward \<Rightarrow>
                    let target_base = (if forward then p_back else p_front);
                        target_pose = te_pose_at p_target (calcElevationAngle p_target target_base)
                          (calcAzimuthAngle p_target target_base);
                        p_insert = (points ! seg_idx)\<lparr> tp_pose := target_pose \<rparr>;
                        p_base = (if forward then p_front else p_back);
                        base_pose = te_pose_at p_base (calcElevationAngle p_base p_target)
                          (calcAzimuthAngle p_base p_target);
                        base_idx = (if forward then seg_idx else seg_idx + 1)
                    in if \<not> overlap_with_front \<and> \<not> overlap_with_back
                       then (Some (seg_idx + 1), te_insert_behind seg_idx p_insert base_idx base_pose points)
                       else if overlap_with_back then (Some (seg_idx + 1), points)
                       else (Some seg_idx, points))"

text \<open>The first segment whose end is at least the given length from the start.\<close>

fun te_segment_loop :: "'p point_list \<Rightarrow> nat \<Rightarrow> real \<Rightarrow> nat list \<Rightarrow> tu_error + nat option" where
  "te_segment_loop points start len [] = Inr None"
| "te_segment_loop points start len (i # is) =
     err_bind (tu_calcSignedArcLength points start i) (\<lambda>l.
       if len \<le> l then Inr (Some (i - 1)) else te_segment_loop points start len is)"

definition te_insertTargetPoint_length ::
  "real \<Rightarrow> 'a point_scheme \<Rightarrow> 'p point_list \<Rightarrow> real \<Rightarrow> tu_error + nat option \<times> 'p point_list" where
  "te_insertTargetPoint_length insert_point_length p_target points overlap_threshold =
     (if points = [] then Inl TU_Empty
      else if insert_point_length < 0 then Inr (None, points)
      else err_bind (te_segment_loop points 0 insert_point_length [1..<length points]) (\<lambda>r. case r of
          None \<Rightarrow> Inr (None, points)
        | Some segment_idx \<Rightarrow> Inr (te_insertTargetPoint segment_idx p_target points overlap_threshold)))"

definition te_insertTargetPoint_seg :: "nat \<Rightarrow> real \<Rightarrow> 'p point_list \<Rightarrow> real \<Rightarrow> tu_error + nat option \<times> 'p point_list" where
  "te_insertTargetPoint_seg src_segment_idx insert_point_length points overlap_threshold =
     (if points = [] then Inl TU_Empty
      else if insert_point_length < 0 \<or> length points - 1 \<le> src_segment_idx then Inr (None, points)
      else err_bind (te_segment_loop points src_segment_idx insert_point_length
             [src_segment_idx + 1..<length points]) (\<lambda>r. case r of
          None \<Rightarrow> Inr (None, points)
        | Some segment_idx \<Rightarrow>
            err_bind (tu_calcSignedArcLength points segment_idx (segment_idx + 1)) (\<lambda>segment_length.
            err_bind (tu_calcSignedArcLength points src_segment_idx segment_idx) (\<lambda>before.
              let target_length = max 0 (insert_point_length - before)
              in if segment_length = 0 then Inl TU_NotANumber
                 else let ratio = std_clamp (target_length / segment_length) 0 1;
                          p_target = calcInterpolatedPoint (tp_pose (points ! segment_idx))
                            (tp_pose (points ! (segment_idx + 1))) ratio
                   in Inr (te_insertTargetPoint segment_idx p_target points overlap_threshold)))))"

definition te_insertTargetPoint_pose ::
  "pose \<Rightarrow> real \<Rightarrow> 'p point_list \<Rightarrow> real \<Rightarrow> real \<Rightarrow> real \<Rightarrow> tu_error + nat option \<times> 'p point_list" where
  "te_insertTargetPoint_pose src_pose insert_point_length points max_dist max_yaw overlap_threshold =
     (if points = [] then Inl TU_Empty
      else if insert_point_length < 0 then Inr (None, points)
      else case tu_findNearestSegmentIndex_within points src_pose max_dist max_yaw of
          None \<Rightarrow> Inr (None, points)
        | Some nearest_segment_idx \<Rightarrow>
            (case tu_offset points nearest_segment_idx src_pose of
               Fin offset_length \<Rightarrow>
                 te_insertTargetPoint_seg nearest_segment_idx (insert_point_length + offset_length) points
                   overlap_threshold
             | _ \<Rightarrow> Inr (None, points)))"

text \<open>Zero velocity from an index on.\<close>

definition te_stop_from :: "nat \<Rightarrow> 'p point_list \<Rightarrow> 'p point_list" where
  "te_stop_from stop_idx points =
     take stop_idx points @ map (\<lambda>p. p\<lparr> tp_longitudinal_velocity_mps := 0 \<rparr>) (drop stop_idx points)"

definition te_stop_at :: "nat option \<times> 'p point_list \<Rightarrow> nat option \<times> 'p point_list" where
  "te_stop_at r = (case r of
     (None, points) \<Rightarrow> (None, points)
   | (Some stop_idx, points) \<Rightarrow> (Some stop_idx, te_stop_from stop_idx points))"

definition te_insertStopPoint_seg :: "nat \<Rightarrow> real \<Rightarrow> 'p point_list \<Rightarrow> real \<Rightarrow> tu_error + nat option \<times> 'p point_list" where
  "te_insertStopPoint_seg src_segment_idx distance_to_stop_point points overlap_threshold =
     (if points = [] then Inl TU_Empty
      else if distance_to_stop_point < 0 \<or> length points - 1 \<le> src_segment_idx then Inr (None, points)
      else err_bind (te_insertTargetPoint_seg src_segment_idx distance_to_stop_point points overlap_threshold)
             (\<lambda>r. Inr (te_stop_at r)))"

fun te_stop_loop :: "'p point_list \<Rightarrow> real \<Rightarrow> real \<Rightarrow> nat list \<Rightarrow> real \<Rightarrow> tu_error + nat option \<times> 'p point_list" where
  "te_stop_loop points distance thr [] accumulated_length = Inr (None, points)"
| "te_stop_loop points distance thr (i # is) accumulated_length =
     (let len = calcDistance2d (tp_pose (points ! i)) (tp_pose (points ! (i + 1)))
      in if distance < accumulated_length + len + thr
         then te_insertStopPoint_seg i (distance - accumulated_length) points thr
         else te_stop_loop points distance thr is (accumulated_length + len))"

definition te_insertStopPoint_distance :: "real \<Rightarrow> 'p point_list \<Rightarrow> real \<Rightarrow> tu_error + nat option \<times> 'p point_list" where
  "te_insertStopPoint_distance distance_to_stop_point points overlap_threshold =
     (if points = [] then Inl TU_Empty
      else if distance_to_stop_point < 0 then Inr (None, points)
      else te_stop_loop points distance_to_stop_point overlap_threshold [0..<length points - 1] 0)"

definition te_insertStopPoint_pose ::
  "pose \<Rightarrow> real \<Rightarrow> 'p point_list \<Rightarrow> real \<Rightarrow> real \<Rightarrow> real \<Rightarrow> tu_error + nat option \<times> 'p point_list" where
  "te_insertStopPoint_pose src_pose distance_to_stop_point points max_dist max_yaw overlap_threshold =
     (if points = [] then Inl TU_Empty
      else if distance_to_stop_point < 0 then Inr (None, points)
      else err_bind (te_insertTargetPoint_pose src_pose distance_to_stop_point points max_dist max_yaw
             overlap_threshold) (\<lambda>r. Inr (te_stop_at r)))"

definition te_insertStopPoint_point :: "nat \<Rightarrow> 'a point_scheme \<Rightarrow> 'p point_list \<Rightarrow> real \<Rightarrow> nat option \<times> 'p point_list" where
  "te_insertStopPoint_point stop_seg_idx stop_point points overlap_threshold =
     te_stop_at (te_insertTargetPoint stop_seg_idx stop_point points overlap_threshold)"

definition te_insertDecelPoint ::
  "'a point_scheme \<Rightarrow> real \<Rightarrow> real \<Rightarrow> 'p point_list \<Rightarrow> tu_error + nat option \<times> 'p point_list" where
  "te_insertDecelPoint src_point distance_to_decel_point velocity points =
     err_bind (te_calcLongitudinalOffsetPoint points src_point distance_to_decel_point) (\<lambda>r. case r of
       None \<Rightarrow> Inr (None, points)
     | Some decel_point \<Rightarrow>
         err_bind (tu_findNearestSegmentIndex points decel_point) (\<lambda>seg_idx.
           case te_insertTargetPoint seg_idx decel_point points (1 / 1000) of
             (None, ps) \<Rightarrow> Inr (None, ps)
           | (Some insert_idx, ps) \<Rightarrow>
               Inr (Some insert_idx, take insert_idx ps @
                 map (\<lambda>p. p\<lparr> tp_longitudinal_velocity_mps := min (tp_longitudinal_velocity_mps p) velocity \<rparr>)
                   (drop insert_idx ps))))"

section \<open>Orientations\<close>

definition te_turn :: "'p trajectory_point_scheme \<Rightarrow> 'a point_scheme \<Rightarrow> 'p trajectory_point_scheme" where
  "te_turn p target = p\<lparr> tp_pose := te_pose_at (tp_pose p) (calcElevationAngle (tp_pose p) target)
     (calcAzimuthAngle (tp_pose p) target) \<rparr>"

definition te_orient_like :: "'p trajectory_point_scheme \<Rightarrow> 'p trajectory_point_scheme \<Rightarrow> 'p trajectory_point_scheme" where
  "te_orient_like p q =
     p\<lparr> tp_pose := te_pose_at (tp_pose p) (po_pitch (tp_pose q)) (po_yaw (tp_pose q)) \<rparr>"

fun te_orient_forward :: "'p point_list \<Rightarrow> 'p point_list" where
  "te_orient_forward (p # q # ps) =
     (let p' = te_turn p (tp_pose q)
      in if ps = [] then [p', te_orient_like q p'] else p' # te_orient_forward (q # ps))"
| "te_orient_forward ps = ps"

fun te_orient_backward :: "'p point_list \<Rightarrow> 'p point_list" where
  "te_orient_backward (p # q # ps) = te_turn q (tp_pose p) # te_orient_backward (q # ps)"
| "te_orient_backward _ = []"

definition te_insertOrientation :: "'p point_list \<Rightarrow> bool \<Rightarrow> tu_error + 'p point_list" where
  "te_insertOrientation points is_driving_forward =
     (if is_driving_forward
      then (if points = [] then Inl TU_OutOfRange else Inr (te_orient_forward points))
      else (if length points < 2 then Inl TU_OutOfRange
            else let ps = te_orient_backward points
              in Inr (te_orient_like (hd points) (hd ps) # ps)))"

fun te_removeInvalid_from :: "real \<Rightarrow> 'p trajectory_point_scheme \<Rightarrow> 'p point_list \<Rightarrow> 'p point_list" where
  "te_removeInvalid_from max_yaw_diff prev [] = []"
| "te_removeInvalid_from max_yaw_diff prev (p # ps) =
     (if max_yaw_diff < \<bar>normalizeRadian (po_yaw (tp_pose prev) - po_yaw (tp_pose p))\<bar>
      then te_removeInvalid_from max_yaw_diff prev ps
      else p # te_removeInvalid_from max_yaw_diff p ps)"

definition te_removeInvalidOrientationPoints :: "'p point_list \<Rightarrow> real \<Rightarrow> 'p point_list" where
  "te_removeInvalidOrientationPoints points max_yaw_diff =
     (case points of [] \<Rightarrow> [] | p # ps \<Rightarrow> p # te_removeInvalid_from max_yaw_diff p ps)"

section \<open>Cropping\<close>

text \<open>The length is NaN when the segment is not valid; then no comparison holds.\<close>

fun te_crop_forward_loop :: "'p point_list \<Rightarrow> nat list \<Rightarrow> flt \<Rightarrow> real \<Rightarrow> 'p point_list" where
  "te_crop_forward_loop points [] sum_length forward_length = points"
| "te_crop_forward_loop points (i # is) sum_length forward_length =
     (let s = flt_add sum_length (Fin (calcDistance2d (tp_pose (points ! i)) (tp_pose (points ! (i - 1)))))
      in if flt_less (Fin forward_length) s then take i points
         else te_crop_forward_loop points is s forward_length)"

definition te_cropForwardPoints :: "'p point_list \<Rightarrow> 'a point_scheme \<Rightarrow> nat \<Rightarrow> real \<Rightarrow> 'p point_list" where
  "te_cropForwardPoints points target_pos target_seg_idx forward_length =
     (if points = [] then []
      else te_crop_forward_loop points [target_seg_idx + 1..<length points]
             (flt_minus (tu_offset points target_seg_idx target_pos)) forward_length)"

fun te_crop_backward_loop :: "'p point_list \<Rightarrow> nat \<Rightarrow> flt \<Rightarrow> real \<Rightarrow> tu_error + 'p point_list" where
  "te_crop_backward_loop points 0 sum_length backward_length = Inr points"
| "te_crop_backward_loop points (Suc i) sum_length backward_length =
     (if length points \<le> Suc i then Inl TU_OutOfRange
      else let s = flt_sub sum_length
             (Fin (calcDistance2d (tp_pose (points ! Suc i)) (tp_pose (points ! i))))
        in if flt_less s (Fin (- backward_length)) then Inr (drop (Suc i) points)
           else te_crop_backward_loop points i s backward_length)"

definition te_cropBackwardPoints ::
  "'p point_list \<Rightarrow> 'a point_scheme \<Rightarrow> nat \<Rightarrow> real \<Rightarrow> tu_error + 'p point_list" where
  "te_cropBackwardPoints points target_pos target_seg_idx backward_length =
     (if points = [] then Inr []
      else te_crop_backward_loop points target_seg_idx
             (flt_minus (tu_offset points target_seg_idx target_pos)) backward_length)"

definition te_cropPoints ::
  "'p point_list \<Rightarrow> 'a point_scheme \<Rightarrow> nat \<Rightarrow> real \<Rightarrow> real \<Rightarrow> tu_error + 'p point_list" where
  "te_cropPoints points target_pos target_seg_idx forward_length backward_length =
     (if points = [] then Inr []
      else let cropped_forward_points = te_cropForwardPoints points target_pos target_seg_idx forward_length;
               modified_target_seg_idx =
                 (if length cropped_forward_points < 2 then target_seg_idx
                  else min target_seg_idx (length cropped_forward_points - 2))
        in err_bind (te_cropBackwardPoints cropped_forward_points target_pos modified_target_seg_idx
               backward_length) (\<lambda>cropped_points.
             Inr (if length cropped_points < 2 then points else cropped_points)))"

section \<open>The point at a given length\<close>

lemma te_walk_sound:
  assumes "te_walk points [i..<n] d off = Some (k, res, seg)" and "d \<le> off"
  shows "i \<le> k \<and> k < n \<and> seg = tu_seg points k \<and> 0 \<le> seg + res \<and> res \<le> 0 \<and>
    off = d + (tu_position points k - tu_position points i) + (seg + res)"
  using assms
proof (induction "n - i" arbitrary: i d)
  case 0
  then show ?case by simp
next
  case (Suc m)
  then have i: "i < n" by simp
  then have split: "[i..<n] = i # [Suc i..<n]" by (simp add: upt_rec)
  have seg: "calcDistance2d (tp_pose (points ! i)) (tp_pose (points ! (i + 1))) = tu_seg points i"
    by (simp add: tu_seg_def)
  show ?case
  proof (cases "off - (d + tu_seg points i) \<le> 0")
    case True
    with Suc.prems i split seg show ?thesis by (auto simp: Let_def)
  next
    case False
    with Suc.prems(1) split seg have "te_walk points [Suc i..<n] (d + tu_seg points i) off = Some (k, res, seg)"
      by (simp add: Let_def)
    moreover have "m = n - Suc i" using Suc.hyps(2) by simp
    moreover have "d + tu_seg points i \<le> off" using False by simp
    ultimately have "Suc i \<le> k \<and> k < n \<and> seg = tu_seg points k \<and> 0 \<le> seg + res \<and> res \<le> 0 \<and>
      off = d + tu_seg points i + (tu_position points k - tu_position points (Suc i)) + (seg + res)"
      using Suc.hyps(1) by blast
    then show ?thesis by simp
  qed
qed

lemma calcDistance2d_sym: "calcDistance2d p q = calcDistance2d q p"
  by (simp add: calcDistance2d_def std_hypot_def power2_commute)

lemma std_hypot_scale: "0 \<le> c \<Longrightarrow> std_hypot (x * c) (y * c) = std_hypot x y * c"
  by (simp add: std_hypot_def power_mult_distrib distrib_right [symmetric] real_sqrt_mult)

lemma calcInterpolatedPoint_distance:
  assumes "0 \<le> r" and "r \<le> 1"
  shows "calcDistance2d q (calcInterpolatedPoint p q r) = (1 - r) * calcDistance2d p q"
proof -
  have "std_clamp r 0 1 = r" using assms by (simp add: std_clamp_def)
  then have "calcDistance2d q (calcInterpolatedPoint p q r) =
    std_hypot ((pt_x q - pt_x p) * (1 - r)) ((pt_y q - pt_y p) * (1 - r))"
    by (simp add: calcDistance2d_def calcInterpolatedPoint_def algebra_simps)
  also have "\<dots> = calcDistance2d q p * (1 - r)"
    using assms by (simp add: std_hypot_scale calcDistance2d_def)
  finally show ?thesis by (simp add: calcDistance2d_sym [of p q])
qed

text \<open>
  The point found for an offset lies on a segment behind the start, and the length from the start to
  that segment plus the way along it is the offset.
\<close>

lemma te_offset_point_length:
  assumes "te_offset_point_forward points src off = Inr (Some p)" and "0 \<le> off"
  shows "\<exists>k. src \<le> k \<and> k + 1 < length points \<and>
    tu_position points k - tu_position points src + calcDistance2d (tp_pose (points ! k)) p = off"
proof -
  from assms(1) obtain k res seg where w: "te_walk points [src..<length points - 1] 0 off = Some (k, res, seg)"
    and seg: "seg \<noteq> 0"
    and p: "p = calcInterpolatedPoint (tp_pose (points ! (k + 1))) (tp_pose (points ! k)) \<bar>res / seg\<bar>"
    by (auto simp: te_offset_point_forward_def split: option.splits if_splits)
  note k = te_walk_sound [OF w assms(2)]
  have sg: "seg = calcDistance2d (tp_pose (points ! (k + 1))) (tp_pose (points ! k))"
    using k by (simp add: tu_seg_def calcDistance2d_sym [of "tp_pose (points ! k)"])
  then have "0 < seg" using seg by (auto simp: less_le)
  then have r: "\<bar>res / seg\<bar> = - res / seg" "0 \<le> - res / seg" "- res / seg \<le> 1"
    using k by (simp_all add: abs_if divide_simps)
  have "calcDistance2d (tp_pose (points ! k)) p = (1 - (- res / seg)) * seg"
    unfolding p r(1) calcInterpolatedPoint_distance [OF r(2,3)] sg [symmetric] ..
  also have "\<dots> = seg + res" using \<open>0 < seg\<close> by (simp add: field_simps)
  finally have "calcDistance2d (tp_pose (points ! k)) p = seg + res" .
  moreover have "src \<le> k" "k + 1 < length points"
    "tu_position points k - tu_position points src + (seg + res) = off"
    using k by linarith+
  ultimately show ?thesis by (intro exI [of _ k]) simp
qed

section \<open>Inserted points\<close>

definition te_position :: "'p trajectory_point_scheme \<Rightarrow> real \<times> real \<times> real" where
  "te_position p = (pt_x (tp_pose p), pt_y (tp_pose p), pt_z (tp_pose p))"

text \<open>
  Insertion finds the target at the returned index: either a point that was there and overlaps with
  the target, or a new one; no other point moves, and no velocity changes.
\<close>

lemma te_insertTargetPoint_spec:
  assumes "te_insertTargetPoint seg_idx p_target points thr = (Some k, ps)"
  shows "k < length ps \<and> (k = seg_idx \<or> k = seg_idx + 1) \<and>
    (ps = points \<and> calcDistance2d p_target (tp_pose (points ! k)) < thr \<or>
     length ps = length points + 1 \<and> te_position (ps ! k) = (pt_x p_target, pt_y p_target, pt_z p_target) \<and>
     map te_position (take k ps @ drop (k + 1) ps) = map te_position points \<and>
     map tp_longitudinal_velocity_mps (take k ps @ drop (k + 1) ps) = map tp_longitudinal_velocity_mps points)"
proof -
  from assms have seg: "seg_idx + 1 < length points"
    by (auto simp: te_insertTargetPoint_def split: if_splits)
  consider (old) "ps = points" "k = seg_idx \<or> k = seg_idx + 1" "calcDistance2d p_target (tp_pose (points ! k)) < thr"
    | (new) base_idx base_pose target_pose where "k = seg_idx + 1" "base_idx = seg_idx \<or> base_idx = seg_idx + 1"
      "ps = te_insert_behind seg_idx ((points ! seg_idx)\<lparr> tp_pose := target_pose \<rparr>) base_idx base_pose points"
      "te_position ((points ! base_idx)\<lparr> tp_pose := base_pose \<rparr>) = te_position (points ! base_idx)"
      "te_position ((points ! seg_idx)\<lparr> tp_pose := target_pose \<rparr>) = (pt_x p_target, pt_y p_target, pt_z p_target)"
  proof (cases "calcDistance2d p_target (tp_pose (points ! seg_idx)) < thr \<or>
      calcDistance2d p_target (tp_pose (points ! (seg_idx + 1))) < thr")
    case True
    with assms have "ps = points \<and> (k = seg_idx \<or> k = seg_idx + 1) \<and>
      calcDistance2d p_target (tp_pose (points ! k)) < thr"
      by (auto simp: te_insertTargetPoint_def Let_def split: if_splits option.splits)
    with old show ?thesis by blast
  next
    case False
    from assms obtain forward where "tu_isDrivingForward points = Some forward"
      by (auto simp: te_insertTargetPoint_def Let_def split: if_splits option.splits)
    define front where "front = tp_pose (points ! seg_idx)"
    define rear where "rear = tp_pose (points ! (seg_idx + 1))"
    define base where "base = (if forward then front else rear)"
    define target where "target = (if forward then rear else front)"
    define base_pose where "base_pose =
      te_pose_at base (calcElevationAngle base p_target) (calcAzimuthAngle base p_target)"
    define target_pose where "target_pose =
      te_pose_at p_target (calcElevationAngle p_target target) (calcAzimuthAngle p_target target)"
    have eq: "k = seg_idx + 1 \<and> ps = te_insert_behind seg_idx ((points ! seg_idx)\<lparr> tp_pose := target_pose \<rparr>)
      (if forward then seg_idx else seg_idx + 1) base_pose points"
      using assms False \<open>tu_isDrivingForward points = Some forward\<close>
      unfolding base_pose_def target_pose_def base_def target_def front_def rear_def te_insertTargetPoint_def
      by (cases forward) (auto simp: Let_def split: if_splits)
    have pos: "te_position ((points ! (if forward then seg_idx else seg_idx + 1))\<lparr> tp_pose := base_pose \<rparr>) =
        te_position (points ! (if forward then seg_idx else seg_idx + 1))"
      "te_position ((points ! seg_idx)\<lparr> tp_pose := target_pose \<rparr>) = (pt_x p_target, pt_y p_target, pt_z p_target)"
      by (simp_all add: te_position_def te_pose_at_def base_pose_def target_pose_def base_def front_def rear_def)
    show ?thesis
      by (rule new [OF _ _ _ pos]) (use eq in simp_all)
  qed
  then show ?thesis
  proof cases
    case old
    with seg show ?thesis by auto
  next
    case new
    let ?qs = "points[base_idx := (points ! base_idx)\<lparr> tp_pose := base_pose \<rparr>]"
    have len: "length (take (seg_idx + 1) ?qs) = seg_idx + 1" using seg by simp
    have "take k ps = take (seg_idx + 1) ?qs" "drop (k + 1) ps = drop (seg_idx + 1) ?qs"
      "ps ! k = (points ! seg_idx)\<lparr> tp_pose := target_pose \<rparr>" "length ps = length points + 1"
      unfolding new(1,3) te_insert_behind_def Let_def using len seg by (simp_all add: nth_append)
    moreover have "map te_position ?qs = map te_position points"
      using new(2,4) seg by (metis list_update_id map_update)
    moreover have "map tp_longitudinal_velocity_mps ?qs = map tp_longitudinal_velocity_mps points"
      by (simp add: map_update) (metis list_update_id map_update)
    ultimately show ?thesis using seg new(1,5) by (simp flip: map_append)
  qed
qed

text \<open>A stop point: zero velocity from its index on, the velocities in front of it unchanged.\<close>

lemma te_stop_from_velocity:
  assumes "i < length points"
  shows "tp_longitudinal_velocity_mps (te_stop_from k points ! i) =
    (if i < k then tp_longitudinal_velocity_mps (points ! i) else 0)"
    and "length (te_stop_from k points) = length points"
  using assms by (simp_all add: te_stop_from_def nth_append)

lemma te_stop_search:
  assumes "k < length points"
  shows "\<exists>j \<le> k. tu_searchZeroVelocityIndex_all (te_stop_from k points) = Inr (Some j)"
proof -
  let ?ps = "te_stop_from k points"
  have len: "length ?ps = length points" using te_stop_from_velocity(2) [OF assms] .
  have step: "\<exists>j \<le> k. tu_zero_loop ?ps [i..<length points] = Inr (Some j)" if "i \<le> k" for i
    using that
  proof (induction "k - i" arbitrary: i)
    case 0
    then have "i = k" by simp
    with assms len te_stop_from_velocity(1) [OF assms, of k] show ?case by (simp add: upt_rec)
  next
    case (Suc m)
    then have i: "i < k" "i < length points" using assms by simp_all
    then have split: "[i..<length points] = i # [Suc i..<length points]" by (simp add: upt_rec)
    show ?case
    proof (cases "\<bar>tp_longitudinal_velocity_mps (?ps ! i)\<bar> < 1 / 1000")
      case True
      with i len split show ?thesis by auto
    next
      case False
      with Suc.hyps(1) [of "Suc i"] Suc.hyps(2) i len split show ?thesis by simp
    qed
  qed
  from step [of 0] len assms show ?thesis
    by (auto simp: tu_searchZeroVelocityIndex_all_def tu_searchZeroVelocityIndex_def)
qed

section \<open>Orientations after removal\<close>

lemma te_removeInvalid_from_ok:
  "successively (\<lambda>p q. \<bar>normalizeRadian (po_yaw (tp_pose p) - po_yaw (tp_pose q))\<bar> \<le> m)
     (p # te_removeInvalid_from m p ps)"
  by (induction m p ps rule: te_removeInvalid_from.induct) auto

end
