(* ===== verification/Decel_Distance.thy ===== *)
theory Decel_Distance
  imports AW_Prelude
begin

text \<open>
  Distance needed to reach a target velocity under limits of jerk and deceleration
  (common/motion_utils/src/distance/distance.cpp). A plan is a sequence of phases of constant jerk;
  the distance is returned only when the end of the plan is within the margins of the target.
  Quotients by a jerk limit or a minimum acceleration of zero are infinite in the code; the model
  gives an error for them instead.
\<close>

datatype dd_error = DD_DivisionByZero

definition dd_validCheckDecelPlan ::
  "real \<Rightarrow> real \<Rightarrow> real \<Rightarrow> real \<Rightarrow> real \<Rightarrow> real \<Rightarrow> bool" where
  "dd_validCheckDecelPlan v_end a_end v_target a_target v_margin a_margin =
     (let v_min = v_target - \<bar>v_margin\<bar>; v_max = v_target + \<bar>v_margin\<bar>;
          a_min = a_target - \<bar>a_margin\<bar>; a_max = a_target + \<bar>a_margin\<bar>
      in if v_end < v_min \<or> v_max < v_end then False
         else if a_end < a_min \<or> a_max < a_end then False
         else True)"

definition dd_update :: "real \<times> real \<times> real \<Rightarrow> real \<Rightarrow> real \<Rightarrow> real \<times> real \<times> real" where
  "dd_update s j t = (case s of (x, v, a) \<Rightarrow>
     (x + v * t + 1 / 2 * a * t * t + 1 / 6 * j * t * t * t, v + a * t + 1 / 2 * j * t * t, a + j * t))"

text \<open>Phases of at most \<open>epsilon\<close> are left out.\<close>

definition dd_epsilon :: real where
  "dd_epsilon = 1 / 1000"

definition dd_duration :: "real \<Rightarrow> real" where
  "dd_duration t = (if dd_epsilon < t then t else 0)"

text \<open>The end of a plan is accepted within 0.3 m/s of the target and 0.1 m/s^2 of rest.\<close>

definition dd_accept :: "real \<Rightarrow> real \<times> real \<times> real \<Rightarrow> real option" where
  "dd_accept vt s = (case s of (x, v, a) \<Rightarrow>
     if \<not> dd_validCheckDecelPlan v a vt 0 (3 / 10) (1 / 10) then None else Some x)"

definition dd_calcDecelDistPlanType1 ::
  "real \<Rightarrow> real \<Rightarrow> real \<Rightarrow> real \<Rightarrow> real \<Rightarrow> real \<Rightarrow> real \<Rightarrow> real option" where
  "dd_calcDecelDistPlanType1 v0 vt a0 am ja jd t_min =
     (let j1 = (if am < a0 then jd else ja);
          s1 = dd_update (0, v0, a0) j1 (dd_duration ((am - a0) / j1));
          s2 = dd_update s1 0 (dd_duration t_min);
          s3 = dd_update s2 ja (dd_duration ((0 - am) / ja))
      in dd_accept vt s3)"

text \<open>The square root of a negative number is NaN, for which no comparison holds: both phases are left out.\<close>

definition dd_calcDecelDistPlanType2 ::
  "real \<Rightarrow> real \<Rightarrow> real \<Rightarrow> real \<Rightarrow> real \<Rightarrow> real option" where
  "dd_calcDecelDistPlanType2 v0 vt a0 ja jd =
     (let a1_square = (vt - v0 - 1 / 2 * (0 - a0) / jd * a0) * (2 * ja * jd / (ja - jd));
          a1 = - sqrt a1_square;
          t1 = (if a1_square < 0 then 0 else dd_duration ((a1 - a0) / jd));
          s1 = dd_update (0, v0, a0) jd t1;
          t2 = (if a1_square < 0 then 0 else dd_duration ((0 - a1) / ja));
          s2 = dd_update s1 ja t2
      in dd_accept vt s2)"

definition dd_calcDecelDistPlanType3 :: "real \<Rightarrow> real \<Rightarrow> real \<Rightarrow> real \<Rightarrow> real option" where
  "dd_calcDecelDistPlanType3 v0 vt a0 ja =
     (let t_acc = (0 - a0) / ja
      in dd_accept vt (dd_update (0, v0, a0) ja (dd_duration t_acc)))"

definition dd_calcDecelDistWithJerkAndAccConstraints ::
  "real \<Rightarrow> real \<Rightarrow> real \<Rightarrow> real \<Rightarrow> real \<Rightarrow> real \<Rightarrow> dd_error + real option" where
  "dd_calcDecelDistWithJerkAndAccConstraints current_vel target_vel current_acc acc_min jerk_acc jerk_dec =
     (if jerk_acc = 0 \<or> jerk_dec = 0 \<or> jerk_acc = jerk_dec \<or> acc_min = 0 then Inl DD_DivisionByZero
      else let t_dec = (if acc_min < current_acc then (acc_min - current_acc) / jerk_dec
                        else (acc_min - current_acc) / jerk_acc);
               t_acc = (0 - acc_min) / jerk_acc;
               t_min = (target_vel - current_vel - current_acc * t_dec - 1 / 2 * jerk_dec * t_dec * t_dec
                        - 1 / 2 * acc_min * t_acc) / acc_min;
               is_decel_needed =
                 (1 / 2 * (0 - current_acc) / jerk_acc * current_acc > target_vel - current_vel)
        in Inr (if dd_epsilon < t_min
                then dd_calcDecelDistPlanType1 current_vel target_vel current_acc acc_min jerk_acc jerk_dec t_min
                else if is_decel_needed \<or> dd_epsilon < current_acc
                then dd_calcDecelDistPlanType2 current_vel target_vel current_acc jerk_acc jerk_dec
                else dd_calcDecelDistPlanType3 current_vel target_vel current_acc jerk_acc))"

section \<open>Plans as lists of phases\<close>

text \<open>The specification: a plan drives the vehicle through phases of the permitted jerks.\<close>

definition dd_run :: "(real \<times> real) list \<Rightarrow> real \<times> real \<times> real \<Rightarrow> real \<times> real \<times> real" where
  "dd_run plan s = fold (\<lambda>(j, t) s. dd_update s j t) plan s"

definition dd_plan_ok :: "real \<Rightarrow> real \<Rightarrow> (real \<times> real) list \<Rightarrow> bool" where
  "dd_plan_ok ja jd plan \<longleftrightarrow> (\<forall>(j, t) \<in> set plan. 0 \<le> t \<and> (j = ja \<or> j = 0 \<or> j = jd))"

lemma dd_duration_nonneg [simp]: "0 \<le> dd_duration t"
  by (simp add: dd_duration_def dd_epsilon_def)

lemma dd_long: "dd_epsilon < t \<Longrightarrow> 0 \<le> t"
  by (simp add: dd_epsilon_def)

lemma dd_accept_Some [simp]:
  "dd_accept vt s = Some x \<longleftrightarrow> (\<exists>v a. s = (x, v, a) \<and> \<bar>v - vt\<bar> \<le> 3 / 10 \<and> \<bar>a\<bar> \<le> 1 / 10)"
proof (cases s)
  case (fields y v a)
  have "(\<not> v < vt - 3 / 10 \<and> \<not> vt + 3 / 10 < v) = (\<bar>v - vt\<bar> \<le> 3 / 10)" by linarith
  moreover have "(\<not> a < - (1 / 10) \<and> \<not> 1 / 10 < a) = (\<bar>a\<bar> \<le> 1 / 10)" by linarith
  moreover have "dd_accept vt s = Some x \<longleftrightarrow>
      y = x \<and> (\<not> v < vt - 3 / 10 \<and> \<not> vt + 3 / 10 < v) \<and> (\<not> a < - (1 / 10) \<and> \<not> 1 / 10 < a)"
    unfolding fields dd_accept_def dd_validCheckDecelPlan_def Let_def by auto
  ultimately show ?thesis unfolding fields by simp
qed

lemma dd_type1_plan:
  assumes "dd_calcDecelDistPlanType1 v0 vt a0 am ja jd t_min = Some x"
  shows "\<exists>plan. dd_plan_ok ja jd plan \<and>
    (\<exists>v a. dd_run plan (0, v0, a0) = (x, v, a) \<and> \<bar>v - vt\<bar> \<le> 3 / 10 \<and> \<bar>a\<bar> \<le> 1 / 10)"
  using assms
  by (intro exI [of _ "[(if am < a0 then jd else ja,
        dd_duration ((am - a0) / (if am < a0 then jd else ja))), (0, dd_duration t_min),
        (ja, dd_duration ((0 - am) / ja))]"])
    (simp add: dd_calcDecelDistPlanType1_def Let_def dd_run_def dd_plan_ok_def)

lemma dd_type2_plan:
  assumes "dd_calcDecelDistPlanType2 v0 vt a0 ja jd = Some x"
  shows "\<exists>plan. dd_plan_ok ja jd plan \<and>
    (\<exists>v a. dd_run plan (0, v0, a0) = (x, v, a) \<and> \<bar>v - vt\<bar> \<le> 3 / 10 \<and> \<bar>a\<bar> \<le> 1 / 10)"
proof -
  define sq where "sq = (vt - v0 - 1 / 2 * (0 - a0) / jd * a0) * (2 * ja * jd / (ja - jd))"
  define t1 where "t1 = (if sq < 0 then 0 else dd_duration ((- sqrt sq - a0) / jd))"
  define t2 where "t2 = (if sq < 0 then 0 else dd_duration ((0 - - sqrt sq) / ja))"
  have "dd_accept vt (dd_update (dd_update (0, v0, a0) jd t1) ja t2) = Some x"
    using assms by (simp only: dd_calcDecelDistPlanType2_def Let_def sq_def t1_def t2_def)
  moreover have "0 \<le> t1" "0 \<le> t2" by (simp_all add: t1_def t2_def)
  ultimately show ?thesis
    by (intro exI [of _ "[(jd, t1), (ja, t2)]"]) (simp add: dd_run_def dd_plan_ok_def)
qed

lemma dd_type3_plan:
  assumes "dd_calcDecelDistPlanType3 v0 vt a0 ja = Some x"
  shows "\<exists>plan. dd_plan_ok ja jd plan \<and>
    (\<exists>v a. dd_run plan (0, v0, a0) = (x, v, a) \<and> \<bar>v - vt\<bar> \<le> 3 / 10 \<and> \<bar>a\<bar> \<le> 1 / 10)"
  using assms
  by (intro exI [of _ "[(ja, dd_duration ((0 - a0) / ja))]"])
    (simp add: dd_calcDecelDistPlanType3_def Let_def dd_run_def dd_plan_ok_def)

text \<open>Every distance that is returned is that of a plan which ends at the target.\<close>

lemma dd_sound:
  assumes "dd_calcDecelDistWithJerkAndAccConstraints v0 vt a0 am ja jd = Inr (Some x)"
  shows "\<exists>plan. dd_plan_ok ja jd plan \<and>
    (\<exists>v a. dd_run plan (0, v0, a0) = (x, v, a) \<and> \<bar>v - vt\<bar> \<le> 3 / 10 \<and> \<bar>a\<bar> \<le> 1 / 10)"
  using assms dd_type1_plan dd_type2_plan dd_type3_plan
  by (auto simp: dd_calcDecelDistWithJerkAndAccConstraints_def Let_def split: if_splits)

section \<open>Plans that are found\<close>

text \<open>A phase that brings the acceleration from one value to another.\<close>

lemma dd_update_ramp:
  assumes "j \<noteq> 0"
  shows "\<exists>y. dd_update (x, v, a) j ((b - a) / j) = (y, v + (b\<^sup>2 - a\<^sup>2) / (2 * j), b)"
proof -
  have "a * ((b - a) / j) + 1 / 2 * j * ((b - a) / j) * ((b - a) / j) = (b\<^sup>2 - a\<^sup>2) / (2 * j)"
    using assms by (simp add: field_simps power2_eq_square)
  then have "v + a * ((b - a) / j) + 1 / 2 * j * ((b - a) / j) * ((b - a) / j) = v + (b\<^sup>2 - a\<^sup>2) / (2 * j)"
    by simp
  with assms show ?thesis by (simp add: dd_update_def)
qed

text \<open>
  When no phase is left out, the plan with constant deceleration ends at the target; but its
  duration is computed with the parabola of \<open>jd\<close> also when the first phase has the jerk \<open>ja\<close>.
\<close>

lemma dd_type1_end:
  assumes "ja \<noteq> 0" and "j1 \<noteq> 0" and "am \<noteq> 0" and t1: "t1 = (am - a0) / j1"
    and tm: "t_min = (vt - v0 - a0 * t1 - 1 / 2 * jd * t1 * t1 - 1 / 2 * am * ((0 - am) / ja)) / am"
  shows "\<exists>x. dd_update (dd_update (dd_update (0, v0, a0) j1 t1) 0 t_min) ja ((0 - am) / ja) =
    (x, vt + 1 / 2 * (j1 - jd) * t1 * t1, 0)"
proof -
  obtain x1 where 1: "dd_update (0, v0, a0) j1 t1 = (x1, v0 + (am\<^sup>2 - a0\<^sup>2) / (2 * j1), am)"
    using dd_update_ramp [OF assms(2), of 0 v0 a0 am] t1 by blast
  obtain x2 where 2: "dd_update (dd_update (0, v0, a0) j1 t1) 0 t_min =
      (x2, v0 + (am\<^sup>2 - a0\<^sup>2) / (2 * j1) + am * t_min, am)"
    unfolding 1 by (simp add: dd_update_def)
  obtain x3 where 3: "dd_update (dd_update (dd_update (0, v0, a0) j1 t1) 0 t_min) ja ((0 - am) / ja) =
      (x3, v0 + (am\<^sup>2 - a0\<^sup>2) / (2 * j1) + am * t_min + (0\<^sup>2 - am\<^sup>2) / (2 * ja), 0)"
    unfolding 2 using dd_update_ramp [OF assms(1)] by blast
  have "am * t_min = vt - v0 - a0 * t1 - 1 / 2 * jd * t1 * t1 - 1 / 2 * am * ((0 - am) / ja)"
    using assms(3) tm by simp
  moreover have "1 / 2 * am * ((0 - am) / ja) = (0\<^sup>2 - am\<^sup>2) / (2 * ja)"
    by (simp add: power2_eq_square)
  moreover have "a0 * t1 + 1 / 2 * j1 * t1 * t1 = (am\<^sup>2 - a0\<^sup>2) / (2 * j1)"
    unfolding t1 using assms(2) by (simp add: field_simps power2_eq_square)
  moreover have "1 / 2 * (j1 - jd) * t1 * t1 = 1 / 2 * j1 * t1 * t1 - 1 / 2 * jd * t1 * t1"
    by (simp add: field_simps)
  ultimately have "v0 + (am\<^sup>2 - a0\<^sup>2) / (2 * j1) + am * t_min + (0\<^sup>2 - am\<^sup>2) / (2 * ja) =
      vt + 1 / 2 * (j1 - jd) * t1 * t1" by linarith
  with 3 show ?thesis by auto
qed

lemma dd_type1_from_above:
  assumes "am < a0" and "dd_epsilon < (am - a0) / jd" and "dd_epsilon < (0 - am) / ja"
    and "dd_epsilon < t_min" and "ja \<noteq> 0" and "jd \<noteq> 0" and "am \<noteq> 0"
    and "t_min = (vt - v0 - a0 * ((am - a0) / jd) - 1 / 2 * jd * ((am - a0) / jd) * ((am - a0) / jd)
        - 1 / 2 * am * ((0 - am) / ja)) / am"
  shows "\<exists>x plan. dd_calcDecelDistPlanType1 v0 vt a0 am ja jd t_min = Some x \<and>
    dd_plan_ok ja jd plan \<and> dd_run plan (0, v0, a0) = (x, vt, 0)"
proof -
  let ?s = "dd_update (dd_update (dd_update (0, v0, a0) jd ((am - a0) / jd)) 0 t_min) ja ((0 - am) / ja)"
  obtain x where x: "?s = (x, vt, 0)"
    using dd_type1_end [OF assms(5,6,7) refl assms(8)] by auto
  have "dd_calcDecelDistPlanType1 v0 vt a0 am ja jd t_min = dd_accept vt ?s"
    using assms(1-4) by (simp add: dd_calcDecelDistPlanType1_def Let_def dd_duration_def)
  then have "dd_calcDecelDistPlanType1 v0 vt a0 am ja jd t_min = Some x"
    unfolding x by simp
  moreover have "dd_run [(jd, (am - a0) / jd), (0, t_min), (ja, (0 - am) / ja)] (0, v0, a0) = (x, vt, 0)"
    using x by (simp add: dd_run_def)
  moreover have "dd_plan_ok ja jd [(jd, (am - a0) / jd), (0, t_min), (ja, (0 - am) / ja)]"
    using assms(2-4) [THEN dd_long] by (simp add: dd_plan_ok_def)
  ultimately show ?thesis by blast
qed

text \<open>The lowest acceleration of the triangular plan lies below the current one.\<close>

lemma dd_type2_peak:
  fixes a0 v0 vt ja jd :: real
  assumes "jd < 0" and "0 < ja" and need: "1 / 2 * (0 - a0) / ja * a0 > vt - v0"
  defines "sq \<equiv> (vt - v0 - 1 / 2 * (0 - a0) / jd * a0) * (2 * ja * jd / (ja - jd))"
  shows "a0\<^sup>2 < sq"
proof -
  let ?k = "2 * ja * jd / (ja - jd)"
  have k: "?k < 0" using assms(1,2) by (simp add: divide_neg_pos mult_pos_neg)
  have "vt - v0 - 1 / 2 * (0 - a0) / jd * a0 < 1 / 2 * (0 - a0) / ja * a0 - 1 / 2 * (0 - a0) / jd * a0"
    using need by simp
  then have "(1 / 2 * (0 - a0) / ja * a0 - 1 / 2 * (0 - a0) / jd * a0) * ?k < sq"
    unfolding sq_def using k by (rule mult_strict_right_mono_neg)
  moreover have "(1 / 2 * (0 - a0) / ja * a0 - 1 / 2 * (0 - a0) / jd * a0) * ?k = a0\<^sup>2"
  proof -
    have "1 / 2 * (0 - a0) / ja * a0 - 1 / 2 * (0 - a0) / jd * a0 = a0\<^sup>2 * ((ja - jd) / (2 * ja * jd))"
      using assms(1,2) by (simp add: field_simps power2_eq_square)
    then show ?thesis using assms(1,2) by simp
  qed
  ultimately show ?thesis by simp
qed

lemma dd_type2_end:
  assumes "jd < 0" and "0 < ja" and "1 / 2 * (0 - a0) / ja * a0 > vt - v0"
    and sq: "sq = (vt - v0 - 1 / 2 * (0 - a0) / jd * a0) * (2 * ja * jd / (ja - jd))"
  shows "\<exists>x. dd_update (dd_update (0, v0, a0) jd ((- sqrt sq - a0) / jd)) ja (sqrt sq / ja) = (x, vt, 0)"
proof -
  let ?a = "- sqrt sq"
  have pos: "0 \<le> sq" using dd_type2_peak [OF assms(1-3)] sq by (smt (verit) zero_le_power2)
  have "vt - v0 - 1 / 2 * (0 - a0) / jd * a0 = sq * ((ja - jd) / (2 * ja * jd))"
    unfolding sq using assms(1,2) by simp
  then have vt: "vt = v0 + 1 / 2 * (0 - a0) / jd * a0 + ?a\<^sup>2 * ((ja - jd) / (2 * ja * jd))"
    using pos by simp
  obtain x1 where 1: "dd_update (0, v0, a0) jd ((?a - a0) / jd) = (x1, v0 + (?a\<^sup>2 - a0\<^sup>2) / (2 * jd), ?a)"
    using dd_update_ramp [of jd 0 v0 a0 ?a] assms(1) by auto
  obtain x2 where 2: "dd_update (x1, v0 + (?a\<^sup>2 - a0\<^sup>2) / (2 * jd), ?a) ja ((0 - ?a) / ja) =
      (x2, v0 + (?a\<^sup>2 - a0\<^sup>2) / (2 * jd) + (0\<^sup>2 - ?a\<^sup>2) / (2 * ja), 0)"
    using dd_update_ramp [of ja] assms(2) by blast
  have "?a\<^sup>2 * ((ja - jd) / (2 * ja * jd)) = ?a\<^sup>2 / (2 * jd) - ?a\<^sup>2 / (2 * ja)"
    using assms(1,2) by (simp add: field_simps)
  moreover have "(?a\<^sup>2 - a0\<^sup>2) / (2 * jd) = ?a\<^sup>2 / (2 * jd) + 1 / 2 * (0 - a0) / jd * a0"
    by (simp add: power2_eq_square diff_divide_distrib)
  moreover have "(0\<^sup>2 - ?a\<^sup>2) / (2 * ja) = - (?a\<^sup>2 / (2 * ja))" by simp
  ultimately have "v0 + (?a\<^sup>2 - a0\<^sup>2) / (2 * jd) + (0\<^sup>2 - ?a\<^sup>2) / (2 * ja) = vt" using vt by linarith
  with 1 2 show ?thesis by auto
qed

lemma dd_type2_found:
  assumes "jd < 0" and "0 < ja" and need: "1 / 2 * (0 - a0) / ja * a0 > vt - v0"
    and sq: "sq = (vt - v0 - 1 / 2 * (0 - a0) / jd * a0) * (2 * ja * jd / (ja - jd))"
    and long: "(dd_epsilon * ja)\<^sup>2 < sq" "(- dd_epsilon * jd - a0)\<^sup>2 < sq"
  shows "\<exists>x plan. dd_calcDecelDistPlanType2 v0 vt a0 ja jd = Some x \<and>
    dd_plan_ok ja jd plan \<and> dd_run plan (0, v0, a0) = (x, vt, 0)"
proof -
  have "\<bar>dd_epsilon * ja\<bar> < sqrt sq" "\<bar>- dd_epsilon * jd - a0\<bar> < sqrt sq"
    using long by (simp_all add: real_less_rsqrt)
  then have "dd_epsilon * ja < sqrt sq" "- dd_epsilon * jd - a0 < sqrt sq" by linarith+
  then have t: "dd_epsilon < (0 - - sqrt sq) / ja" "dd_epsilon < (- sqrt sq - a0) / jd"
    using assms(1,2) by (simp_all add: pos_less_divide_eq neg_less_divide_eq algebra_simps)
  have pos: "\<not> sq < 0" using long(1) by (smt (verit) zero_le_power2)
  let ?s = "dd_update (dd_update (0, v0, a0) jd ((- sqrt sq - a0) / jd)) ja (sqrt sq / ja)"
  obtain x where x: "?s = (x, vt, 0)" using dd_type2_end [OF assms(1,2) need sq] by blast
  have "dd_calcDecelDistPlanType2 v0 vt a0 ja jd = dd_accept vt ?s"
    unfolding dd_calcDecelDistPlanType2_def Let_def sq [symmetric] dd_duration_def
    using t pos by simp
  then have "dd_calcDecelDistPlanType2 v0 vt a0 ja jd = Some x" unfolding x by simp
  moreover have "dd_run [(jd, (- sqrt sq - a0) / jd), (ja, sqrt sq / ja)] (0, v0, a0) = (x, vt, 0)"
    using x by (simp add: dd_run_def)
  moreover have "dd_plan_ok ja jd [(jd, (- sqrt sq - a0) / jd), (ja, sqrt sq / ja)]"
    using t [THEN dd_long] by (simp add: dd_plan_ok_def)
  ultimately show ?thesis by blast
qed

text \<open>When the vehicle has to decelerate, its acceleration is above the minimum, and none of the phases is shorter than a millisecond, calcDecelDistWithJerkAndAccConstraints returns a distance, and it is the distance of a plan: a sequence of phases with the maximal jerk, zero jerk and the minimal jerk that takes the vehicle from its current velocity and acceleration to exactly the target velocity with zero acceleration over that distance.\<close>

theorem dd_distance_of_plan:
  assumes "jd < 0" and "0 < ja" and "am < 0"
    and "1 / 2 * (0 - a0) / ja * a0 > vt - v0"
    and "1 / 1000 < (am - a0) / jd" and "1 / 1000 < - am / ja"
    and "(1 / 1000 * ja)\<^sup>2 < (vt - v0 - 1 / 2 * (0 - a0) / jd * a0) * (2 * ja * jd / (ja - jd))"
    and "(- (1 / 1000) * jd - a0)\<^sup>2 < (vt - v0 - 1 / 2 * (0 - a0) / jd * a0) * (2 * ja * jd / (ja - jd))"
  shows "\<exists>x plan. dd_calcDecelDistWithJerkAndAccConstraints v0 vt a0 am ja jd = Inr (Some x) \<and>
    dd_plan_ok ja jd plan \<and> dd_run plan (0, v0, a0) = (x, vt, 0)"
proof -
  let ?t_dec = "(am - a0) / jd"
  define t_min where "t_min = (vt - v0 - a0 * ?t_dec - 1 / 2 * jd * ?t_dec * ?t_dec
    - 1 / 2 * am * ((0 - am) / ja)) / am"
  have above: "am < a0"
  proof -
    have "0 < (am - a0) / jd" using assms(5) by linarith
    with assms(1) show ?thesis by (simp add: zero_less_divide_iff)
  qed
  have t2: "\<exists>x plan. dd_calcDecelDistPlanType2 v0 vt a0 ja jd = Some x \<and>
      dd_plan_ok ja jd plan \<and> dd_run plan (0, v0, a0) = (x, vt, 0)"
    using dd_type2_found [OF assms(1,2,4) refl] assms(7,8) unfolding dd_epsilon_def by blast
  have t1: "\<exists>x plan. dd_calcDecelDistPlanType1 v0 vt a0 am ja jd t_min = Some x \<and>
      dd_plan_ok ja jd plan \<and> dd_run plan (0, v0, a0) = (x, vt, 0)" if "dd_epsilon < t_min"
    using dd_type1_from_above [OF above _ _ that _ _ _ t_min_def] assms(1-3,5,6)
    unfolding dd_epsilon_def by simp
  have "dd_calcDecelDistWithJerkAndAccConstraints v0 vt a0 am ja jd = Inr
      (if dd_epsilon < t_min then dd_calcDecelDistPlanType1 v0 vt a0 am ja jd t_min
       else dd_calcDecelDistPlanType2 v0 vt a0 ja jd)"
    unfolding dd_calcDecelDistWithJerkAndAccConstraints_def Let_def t_min_def using assms(1-4) above by simp
  with t1 t2 show ?thesis by (cases "dd_epsilon < t_min") simp_all
qed

lemma dd_distance_of_plan_witness:
  "\<exists>x plan. dd_calcDecelDistWithJerkAndAccConstraints 10 0 1 (-2) 1 (-1) = Inr (Some x) \<and>
    dd_plan_ok 1 (-1) plan \<and> dd_run plan (0, 10, 1) = (x, 0, 0)"
  by (rule dd_distance_of_plan) (simp_all add: power2_eq_square)

text \<open>
  With an acceleration below the minimum the first phase has the jerk \<open>ja\<close>, but the duration of the
  second one is computed with \<open>jd\<close>: at 20 m/s with -4 m/s^2, a limit of -1 m/s^2 and jerks of +1 and -1
  the plan ends 9 m/s above the target and no distance is found, although one exists.
\<close>

lemma dd_below_minimum_not_found:
  "dd_calcDecelDistWithJerkAndAccConstraints 20 0 (-4) (-1) 1 (-1) = Inr None"
  by (simp add: dd_calcDecelDistWithJerkAndAccConstraints_def dd_calcDecelDistPlanType1_def
      dd_accept_def dd_validCheckDecelPlan_def dd_update_def dd_duration_def dd_epsilon_def Let_def)

end
