(* ===== verification/Longitudinal_Utils.thy ===== *)
theory Longitudinal_Utils
  imports Trajectory_Utils Interpolation
begin

text \<open>
  The parts of control/pid_longitudinal_controller the controller is made of: the helpers of
  longitudinal_controller_utils.cpp, the first-order filter, the PID controller and the smooth stop.
  A result that is NaN or infinite is an error of the model, since the code goes on with it as a command.
\<close>

datatype lc_error =
  LC_Trajectory tu_error
| LC_NotANumber
| LC_Uninitialized
| LC_UndefinedCast

fun lc_lift :: "tu_error + 'a \<Rightarrow> lc_error + 'a" where
  "lc_lift (Inl e) = Inl (LC_Trajectory e)"
| "lc_lift (Inr x) = Inr x"

lemma lc_lift_Inr [simp]: "lc_lift r = Inr x \<longleftrightarrow> r = Inr x"
  by (cases r) simp_all

text \<open>A velocity with an acceleration.\<close>

record lc_motion =
  mt_vel :: real
  mt_acc :: real

definition dbl_epsilon :: real where
  "dbl_epsilon = 1 / 2 ^ 52"

section \<open>Helpers\<close>

text \<open>A point of a received trajectory is \<open>None\<close> when one of its fields is NaN or infinite.\<close>

definition lc_isValidTrajectory :: "trajectory_point option list \<Rightarrow> bool" where
  "lc_isValidTrajectory traj =
     (if \<exists>p \<in> set traj. p = None then False else if traj = [] then False else True)"

definition lc_calcStopDistance :: "pose \<Rightarrow> points \<Rightarrow> real \<Rightarrow> real \<Rightarrow> lc_error + real" where
  "lc_calcStopDistance current_pose traj max_dist max_yaw =
     err_bind (lc_lift (tu_searchZeroVelocityIndex_all traj)) (\<lambda>stop_idx_opt.
       let end_idx = (case stop_idx_opt of Some i \<Rightarrow> i | None \<Rightarrow> length traj - 1)
       in err_bind (lc_lift (tu_findFirstNearestSegmentIndexWithSoftConstraints traj current_pose max_dist max_yaw))
         (\<lambda>seg_idx. err_bind (lc_lift (tu_calcSignedArcLength_seg_seg traj current_pose seg_idx
              (tp_pose (traj ! end_idx)) (min end_idx (length traj - 2))))
            (\<lambda>signed_length_on_traj. case signed_length_on_traj of
                Fin l \<Rightarrow> Inr l
              | NaN \<Rightarrow> Inr 0
              | _ \<Rightarrow> Inl LC_NotANumber)))"

text \<open>Upward is negative.\<close>

definition lc_calcElevationAngle :: "trajectory_point \<Rightarrow> trajectory_point \<Rightarrow> real" where
  "lc_calcElevationAngle p_from p_to =
     (let dx = pt_x (tp_pose p_from) - pt_x (tp_pose p_to);
          dy = pt_y (tp_pose p_from) - pt_y (tp_pose p_to);
          dz = pt_z (tp_pose p_from) - pt_z (tp_pose p_to);
          dxy = max (std_hypot dx dy) dbl_epsilon
      in std_atan2 dz dxy)"

definition lc_getPitchByTraj :: "points \<Rightarrow> nat \<Rightarrow> real \<Rightarrow> real" where
  "lc_getPitchByTraj traj nearest_idx wheel_base =
     (if length traj \<le> 1 then 0
      else let far_from = (\<lambda>p i. wheel_base < calcDistance2d (tp_pose p) (tp_pose (traj ! i)))
        in case find (far_from (traj ! nearest_idx)) [nearest_idx + 1..<length traj] of
             Some i \<Rightarrow> lc_calcElevationAngle (traj ! nearest_idx) (traj ! i)
           | None \<Rightarrow> (case find (far_from (last traj)) (rev [1..<length traj]) of
                Some i \<Rightarrow> lc_calcElevationAngle (traj ! i) (last traj)
              | None \<Rightarrow> lc_calcElevationAngle (traj ! 0) (last traj)))"

definition lc_calcPoseAfterTimeDelay :: "pose \<Rightarrow> real \<Rightarrow> real \<Rightarrow> pose" where
  "lc_calcPoseAfterTimeDelay current_pose delay_time current_vel =
     (let yaw = po_yaw current_pose; running_distance = delay_time * current_vel;
          dx = running_distance * cos yaw; dy = running_distance * sin yaw
      in current_pose\<lparr> pt_x := pt_x current_pose + dx, pt_y := pt_y current_pose + dy \<rparr>)"

text \<open>Only the velocity and the acceleration of the interpolated point are used.\<close>

definition lc_lerpTrajectoryPoint :: "points \<Rightarrow> pose \<Rightarrow> real \<Rightarrow> real \<Rightarrow> lc_error + lc_motion" where
  "lc_lerpTrajectoryPoint points pose max_dist max_yaw =
     err_bind (lc_lift (tu_findFirstNearestSegmentIndexWithSoftConstraints points pose max_dist max_yaw))
       (\<lambda>seg_idx. let len_to_interpolated = tu_offset points seg_idx pose
         in err_bind (lc_lift (tu_calcSignedArcLength points seg_idx (seg_idx + 1))) (\<lambda>len_segment.
           let ratio = (case len_to_interpolated of Fin l \<Rightarrow> flt_div l len_segment | x \<Rightarrow> x);
               p = points ! seg_idx; q = points ! (seg_idx + 1)
           in case std_clamp_flt ratio 0 1 of
                Fin r \<Rightarrow> Inr \<lparr> mt_vel = ip_lerp_ratio (tp_longitudinal_velocity_mps p) (tp_longitudinal_velocity_mps q) r,
                           mt_acc = ip_lerp_ratio (tp_acceleration_mps2 p) (tp_acceleration_mps2 q) r \<rparr>
              | _ \<Rightarrow> Inl LC_NotANumber))"

text \<open>The code divides by \<open>dt\<close>, which the bounds of the control period keep positive.\<close>

definition lc_applyDiffLimitFilter_between :: "real \<Rightarrow> real \<Rightarrow> real \<Rightarrow> real \<Rightarrow> real \<Rightarrow> real" where
  "lc_applyDiffLimitFilter_between input_val prev_val dt max_val min_val =
     (let diff_raw = (input_val - prev_val) / dt;
          diff = min (max diff_raw min_val) max_val
      in prev_val + diff * dt)"

definition lc_applyDiffLimitFilter :: "real \<Rightarrow> real \<Rightarrow> real \<Rightarrow> real \<Rightarrow> real" where
  "lc_applyDiffLimitFilter input_val prev_val dt lim_val =
     (let max_val = \<bar>lim_val\<bar>; min_val = - max_val
      in lc_applyDiffLimitFilter_between input_val prev_val dt max_val min_val)"

definition lc_lowpass :: "real \<Rightarrow> real \<Rightarrow> real \<Rightarrow> real" where
  "lc_lowpass gain x u = gain * x + (1 - gain) * u"

section \<open>PIDController\<close>

record lp_pid =
  lp_kp :: real
  lp_ki :: real
  lp_kd :: real
  lp_max_ret_p :: real
  lp_min_ret_p :: real
  lp_max_ret_i :: real
  lp_min_ret_i :: real
  lp_max_ret_d :: real
  lp_min_ret_d :: real
  lp_max_ret :: real
  lp_min_ret :: real
  lp_error_integral :: real
  lp_prev_error :: real
  lp_is_first_time :: bool
  lp_is_gains_set :: bool
  lp_is_limits_set :: bool

text \<open>\<open>std::min(std::max(x, lo), hi)\<close>, as the code writes its limits.\<close>

definition lp_limit :: "flt \<Rightarrow> flt \<Rightarrow> flt \<Rightarrow> flt" where
  "lp_limit x lo hi = std_min (std_max x lo) hi"

definition lp_calculate :: "real \<Rightarrow> real \<Rightarrow> bool \<Rightarrow> lp_pid \<Rightarrow> lc_error + real \<times> lp_pid" where
  "lp_calculate error dt enable_integration s =
     (if \<not> lp_is_gains_set s \<or> \<not> lp_is_limits_set s then Inl LC_Uninitialized
      else let ret_p = min (max (lp_kp s * error) (lp_min_ret_p s)) (lp_max_ret_p s);
               error_integral = (if enable_integration
                 then lp_limit (Fin (lp_error_integral s + error * dt))
                        (flt_div (lp_min_ret_i s) (lp_ki s)) (flt_div (lp_max_ret_i s) (lp_ki s))
                 else Fin (lp_error_integral s));
               ret_i = flt_scale (lp_ki s) error_integral;
               error_differential = (if lp_is_first_time s then Fin 0
                 else flt_div (error - lp_prev_error s) dt);
               ret_d = lp_limit (flt_scale (lp_kd s) error_differential)
                 (Fin (lp_min_ret_d s)) (Fin (lp_max_ret_d s));
               ret = lp_limit (flt_add (flt_add (Fin ret_p) ret_i) ret_d)
                 (Fin (lp_min_ret s)) (Fin (lp_max_ret s))
        in case (error_integral, ret) of
             (Fin i, Fin r) \<Rightarrow> Inr (r, s\<lparr> lp_error_integral := i, lp_prev_error := error,
                                  lp_is_first_time := False \<rparr>)
           | _ \<Rightarrow> Inl LC_NotANumber)"

definition lp_setGains :: "real \<Rightarrow> real \<Rightarrow> real \<Rightarrow> lp_pid \<Rightarrow> lp_pid" where
  "lp_setGains kp ki kd s = s\<lparr> lp_kp := kp, lp_ki := ki, lp_kd := kd, lp_is_gains_set := True \<rparr>"

definition lp_setLimits ::
  "real \<Rightarrow> real \<Rightarrow> real \<Rightarrow> real \<Rightarrow> real \<Rightarrow> real \<Rightarrow> real \<Rightarrow> real \<Rightarrow> lp_pid \<Rightarrow> lp_pid" where
  "lp_setLimits max_ret min_ret max_ret_p min_ret_p max_ret_i min_ret_i max_ret_d min_ret_d s =
     s\<lparr> lp_max_ret := max_ret, lp_min_ret := min_ret, lp_max_ret_p := max_ret_p, lp_min_ret_p := min_ret_p,
        lp_max_ret_d := max_ret_d, lp_min_ret_d := min_ret_d, lp_max_ret_i := max_ret_i,
        lp_min_ret_i := min_ret_i, lp_is_limits_set := True \<rparr>"

definition lp_reset :: "lp_pid \<Rightarrow> lp_pid" where
  "lp_reset s = s\<lparr> lp_error_integral := 0, lp_prev_error := 0, lp_is_first_time := True \<rparr>"

section \<open>SmoothStop\<close>

record lc_smooth_stop =
  ss_max_strong_acc :: real
  ss_min_strong_acc :: real
  ss_weak_acc :: real
  ss_weak_stop_acc :: real
  ss_strong_stop_acc :: real
  ss_min_fast_vel :: real
  ss_min_running_vel :: real
  ss_min_running_acc :: real
  ss_weak_stop_time :: real
  ss_weak_stop_dist :: real
  ss_strong_stop_dist :: real
  ss_strong_acc :: real
  ss_weak_acc_time :: time
  ss_is_set_params :: bool

text \<open>
  This class reads a clock of its own, \<open>rclcpp::Clock{RCL_ROS_TIME}\<close>, which is not attached to the
  node's time source: its reading \<open>wall\<close> is a parameter apart from the node's time.
\<close>

definition ss_init :: "time \<Rightarrow> real \<Rightarrow> real \<Rightarrow> lc_smooth_stop \<Rightarrow> lc_smooth_stop" where
  "ss_init wall pred_vel_in_target pred_stop_dist s =
     (let s1 = s\<lparr> ss_weak_acc_time := wall \<rparr>
      in if pred_stop_dist < dbl_epsilon then s1\<lparr> ss_strong_acc := ss_min_strong_acc s \<rparr>
         else let strong_acc = - (pred_vel_in_target ^ 2) / (2 * pred_stop_dist)
           in s1\<lparr> ss_strong_acc := max (min strong_acc (ss_max_strong_acc s)) (ss_min_strong_acc s) \<rparr>)"

text \<open>An acceleration that is a parameter of the smooth stop.\<close>

type_synonym ss_acc = real

definition ss_setParams ::
  "ss_acc \<Rightarrow> ss_acc \<Rightarrow> ss_acc \<Rightarrow> ss_acc \<Rightarrow> ss_acc \<Rightarrow> real \<Rightarrow> real \<Rightarrow> ss_acc \<Rightarrow> real \<Rightarrow> real \<Rightarrow> real \<Rightarrow>
   lc_smooth_stop \<Rightarrow> lc_smooth_stop" where
  "ss_setParams max_strong_acc min_strong_acc weak_acc weak_stop_acc strong_stop_acc min_fast_vel
     min_running_vel min_running_acc weak_stop_time weak_stop_dist strong_stop_dist s =
     s\<lparr> ss_max_strong_acc := max_strong_acc, ss_min_strong_acc := min_strong_acc, ss_weak_acc := weak_acc,
        ss_weak_stop_acc := weak_stop_acc, ss_strong_stop_acc := strong_stop_acc,
        ss_min_fast_vel := min_fast_vel, ss_min_running_vel := min_running_vel,
        ss_min_running_acc := min_running_acc, ss_weak_stop_time := weak_stop_time,
        ss_weak_stop_dist := weak_stop_dist, ss_strong_stop_dist := strong_stop_dist,
        ss_is_set_params := True \<rparr>"

text \<open>The line \<open>v = a t + b\<close> fitted to the history of velocities; \<open>t\<close> is counted from the reading of the clock.\<close>

definition ss_calcTimeToStop :: "time \<Rightarrow> (time \<times> real) list \<Rightarrow> real option" where
  "ss_calcTimeToStop wall vel_hist =
     (let vel_hist_size = real (length vel_hist)
      in if vel_hist_size = 0 then None
         else let mean_t = (\<Sum>(s, v) \<leftarrow> vel_hist. seconds (s - wall) / vel_hist_size);
                  mean_v = (\<Sum>(s, v) \<leftarrow> vel_hist. v / vel_hist_size);
                  sum_tv = (\<Sum>(s, v) \<leftarrow> vel_hist. seconds (s - wall) * v);
                  sum_tt = (\<Sum>(s, v) \<leftarrow> vel_hist. seconds (s - wall) * seconds (s - wall))
           in if \<bar>vel_hist_size * mean_t * mean_t - sum_tt\<bar> < dbl_epsilon then None
              else let a = (vel_hist_size * mean_t * mean_v - sum_tv) /
                         (vel_hist_size * mean_t * mean_t - sum_tt);
                       b = mean_v - a * mean_t
                in if \<bar>a\<bar> < dbl_epsilon then None
                   else let time_to_stop = - b / a
                     in if 0 < time_to_stop then Some time_to_stop else None)"

definition ss_calculate ::
  "time \<Rightarrow> real \<Rightarrow> real \<Rightarrow> real \<Rightarrow> (time \<times> real) list \<Rightarrow> real \<Rightarrow> lc_smooth_stop \<Rightarrow>
   lc_error + real \<times> lc_smooth_stop" where
  "ss_calculate wall stop_dist current_vel current_acc vel_hist delay_time s =
     (if \<not> ss_is_set_params s then Inl LC_Uninitialized
      else let time_to_stop = ss_calcTimeToStop wall vel_hist;
               is_fast_vel = (\<bar>current_vel\<bar> > ss_min_fast_vel s);
               is_running = (\<bar>current_vel\<bar> > ss_min_running_vel s \<or> \<bar>current_acc\<bar> > ss_min_running_acc s)
        in if stop_dist < ss_strong_stop_dist s then Inr (ss_strong_stop_acc s, s)
           else if stop_dist < ss_weak_stop_dist s then Inr (ss_weak_stop_acc s, s)
           else if is_running
           then (if (case time_to_stop of Some t \<Rightarrow> t > ss_weak_stop_time s + delay_time | None \<Rightarrow> False)
                 then Inr (ss_strong_acc s, s)
                 else if time_to_stop = None \<and> is_fast_vel then Inr (ss_strong_acc s, s)
                 else Inr (ss_weak_acc s, s\<lparr> ss_weak_acc_time := wall \<rparr>))
           else if seconds (wall - ss_weak_acc_time s) < 1 / 2 then Inr (ss_weak_acc s, s)
           else Inr (ss_strong_stop_acc s, s))"

section \<open>Limits\<close>

text \<open>The limited value keeps the limits of its rate, and is the input when that keeps them.\<close>

lemma lc_diff_limit_bounds:
  assumes "0 < dt" and "min_val \<le> max_val"
  shows "min_val * dt \<le> lc_applyDiffLimitFilter_between x prev dt max_val min_val - prev"
    and "lc_applyDiffLimitFilter_between x prev dt max_val min_val - prev \<le> max_val * dt"
  using assms by (simp_all add: lc_applyDiffLimitFilter_between_def Let_def)

lemma lc_diff_limit_exact:
  assumes "0 < dt" and "min_val * dt \<le> x - prev" and "x - prev \<le> max_val * dt"
  shows "lc_applyDiffLimitFilter_between x prev dt max_val min_val = x"
proof -
  have "min_val \<le> (x - prev) / dt" "(x - prev) / dt \<le> max_val"
    using assms by (simp_all add: pos_le_divide_eq pos_divide_le_eq)
  then show ?thesis using assms(1) by (simp add: lc_applyDiffLimitFilter_between_def Let_def)
qed

text \<open>The distance to the input shrinks by the limit times \<open>dt\<close>, down to zero.\<close>

lemma lc_diff_limit_distance:
  assumes "0 < dt"
  shows "\<bar>x - lc_applyDiffLimitFilter x prev dt lim_val\<bar> = max 0 (\<bar>x - prev\<bar> - \<bar>lim_val\<bar> * dt)"
proof -
  let ?d = "(x - prev) / dt"
  have x: "x - prev = ?d * dt" using assms by simp
  have "min (max q (- l)) l = (if \<bar>q\<bar> \<le> l then q else if 0 \<le> q then l else - l)" if "0 \<le> l" for q l :: real
    using that by (auto simp: min_def max_def)
  then have m: "min (max ?d (- \<bar>lim_val\<bar>)) \<bar>lim_val\<bar> * dt =
      (if \<bar>?d\<bar> \<le> \<bar>lim_val\<bar> then ?d * dt else if 0 \<le> ?d then \<bar>lim_val\<bar> * dt else - (\<bar>lim_val\<bar> * dt))"
    by simp
  have "\<bar>?d\<bar> \<le> \<bar>lim_val\<bar> \<longleftrightarrow> \<bar>x - prev\<bar> \<le> \<bar>lim_val\<bar> * dt"
    using assms by (simp add: abs_divide pos_divide_le_eq)
  moreover have "0 \<le> ?d \<longleftrightarrow> 0 \<le> x - prev" using assms by (simp add: zero_le_divide_iff)
  ultimately show ?thesis
    using m x by (simp add: lc_applyDiffLimitFilter_def lc_applyDiffLimitFilter_between_def Let_def)
qed

lemma lp_limit_Fin:
  assumes "lo \<le> hi" and "lp_limit x (Fin lo) (Fin hi) = Fin r"
  shows "lo \<le> r \<and> r \<le> hi"
  using assms by (cases x) (auto simp: lp_limit_def std_min_def std_max_def split: if_splits)

lemma lp_calculate_bounds:
  assumes "lp_min_ret s \<le> lp_max_ret s" and "lp_calculate error dt en s = Inr (r, s')"
  shows "lp_min_ret s \<le> r \<and> r \<le> lp_max_ret s"
  using assms(2) lp_limit_Fin [OF assms(1)]
  by (auto simp: lp_calculate_def Let_def split: if_splits flt.splits)

text \<open>With an integral gain that is not zero and a positive period the controller always returns.\<close>

definition lp_ok :: "lp_pid \<Rightarrow> bool" where
  "lp_ok s \<longleftrightarrow> lp_is_gains_set s \<and> lp_is_limits_set s \<and> lp_ki s \<noteq> 0"

lemma lp_calculate_total:
  assumes "lp_ok s" and "0 < dt"
  shows "\<exists>r s'. lp_calculate error dt en s = Inr (r, s') \<and> lp_ok s' \<and>
    lp_min_ret s' = lp_min_ret s \<and> lp_max_ret s' = lp_max_ret s"
proof -
  have "\<exists>i. (if en then lp_limit (Fin (lp_error_integral s + error * dt))
      (flt_div (lp_min_ret_i s) (lp_ki s)) (flt_div (lp_max_ret_i s) (lp_ki s)) else Fin (lp_error_integral s)) = Fin i"
    using assms(1) by (simp add: lp_ok_def lp_limit_def)
  then obtain i where i: "(if en then lp_limit (Fin (lp_error_integral s + error * dt))
      (flt_div (lp_min_ret_i s) (lp_ki s)) (flt_div (lp_max_ret_i s) (lp_ki s)) else Fin (lp_error_integral s)) = Fin i"
    by blast
  have d: "(if lp_is_first_time s then Fin 0 else flt_div (error - lp_prev_error s) dt) =
      Fin (if lp_is_first_time s then 0 else (error - lp_prev_error s) / dt)"
    using assms(2) by simp
  show ?thesis
    using assms(1) unfolding lp_calculate_def Let_def i d by (simp add: lp_ok_def lp_limit_def)
qed

lemma lp_ok_reset [simp]: "lp_ok (lp_reset s) = lp_ok s"
  by (simp add: lp_ok_def lp_reset_def)

lemma lp_limits_reset [simp]:
  "lp_min_ret (lp_reset s) = lp_min_ret s" "lp_max_ret (lp_reset s) = lp_max_ret s"
  by (simp_all add: lp_reset_def)

section \<open>The prediction of the smooth stop\<close>

text \<open>
  A clock that is ahead by \<open>d\<close> moves the predicted time to stop by \<open>d\<close>: the slope of the fitted line does
  not depend on the origin of time.
\<close>

lemma seconds_shift: "seconds (s - (wall + d)) = seconds (s - wall) - seconds d"
  by (simp add: seconds_def field_simps)

lemma sum_list_shift:
  "(\<Sum>(s, v) \<leftarrow> xs. seconds (s - (wall + d)) * v) = (\<Sum>(s, v) \<leftarrow> xs. seconds (s - wall) * v) - seconds d * (\<Sum>(s, v) \<leftarrow> xs. v)"
  "(\<Sum>(s, v) \<leftarrow> xs. seconds (s - (wall + d)) / n) = (\<Sum>(s, v) \<leftarrow> xs. seconds (s - wall) / n) - real (length xs) * seconds d / n"
  "(\<Sum>(s, v) \<leftarrow> xs. seconds (s - (wall + d)) * seconds (s - (wall + d))) =
     (\<Sum>(s, v) \<leftarrow> xs. seconds (s - wall) * seconds (s - wall)) - 2 * seconds d * (\<Sum>(s, v) \<leftarrow> xs. seconds (s - wall))
     + real (length xs) * (seconds d * seconds d)"
  unfolding seconds_shift
  by (induction xs) (auto simp: algebra_simps diff_divide_distrib add_divide_distrib)

lemma sum_list_divide: "(\<Sum>(s, v) \<leftarrow> xs. f s v / n) = (\<Sum>(s, v) \<leftarrow> xs. f s v) / (n :: real)"
  by (induction xs) (auto simp: add_divide_distrib)

text \<open>The prediction of the smooth stop depends on two clocks being the same. SmoothStop::calcTimeToStop fits a line to velocities stamped by the node and reads the time from a clock of its own; a clock that is ahead of the node's by d shortens the predicted time to stop by exactly d, and from d on, as when the node runs on simulated time, no time to stop is predicted at all.\<close>

theorem ss_time_to_stop_clock_offset:
  assumes "ss_calcTimeToStop now vel_hist = Some T"
  shows "ss_calcTimeToStop (now + d) vel_hist = (if seconds d < T then Some (T - seconds d) else None)"
proof -
  define n where "n = real (length vel_hist)"
  define st where "st = (\<Sum>(s, v) \<leftarrow> vel_hist. seconds (s - now))"
  define sv where "sv = (\<Sum>(s, v) \<leftarrow> vel_hist. v)"
  define stv where "stv = (\<Sum>(s, v) \<leftarrow> vel_hist. seconds (s - now) * v)"
  define stt where "stt = (\<Sum>(s, v) \<leftarrow> vel_hist. seconds (s - now) * seconds (s - now))"
  define D where "D = seconds d"
  note defs = n_def [symmetric] st_def [symmetric] sv_def [symmetric] stv_def [symmetric] stt_def [symmetric] D_def [symmetric]
  have n: "n \<noteq> 0" using assms by (auto simp: ss_calcTimeToStop_def n_def)
  define q where "q = n * (st / n) * (st / n) - stt"
  define a where "a = (n * (st / n) * (sv / n) - stv) / q"
  have q: "n * (st / n - n * D / n) * (st / n - n * D / n) - (stt - 2 * D * st + n * (D * D)) = q"
    using n by (simp add: q_def field_simps)
  have p: "n * (st / n - n * D / n) * (sv / n) - (stv - D * sv) = n * (st / n) * (sv / n) - stv"
    using n by (simp add: field_simps)
  have at_now: "ss_calcTimeToStop now vel_hist = (if \<bar>q\<bar> < dbl_epsilon then None
      else if \<bar>a\<bar> < dbl_epsilon then None
      else if 0 < - (sv / n - a * (st / n)) / a then Some (- (sv / n - a * (st / n)) / a) else None)"
    using n unfolding ss_calcTimeToStop_def sum_list_divide Let_def defs q_def a_def by simp
  have at_d: "ss_calcTimeToStop (now + d) vel_hist = (if \<bar>q\<bar> < dbl_epsilon then None
      else if \<bar>a\<bar> < dbl_epsilon then None
      else if 0 < - (sv / n - a * (st / n - n * D / n)) / a then Some (- (sv / n - a * (st / n - n * D / n)) / a) else None)"
    using n unfolding ss_calcTimeToStop_def sum_list_shift sum_list_divide Let_def defs q p a_def by simp
  from assms at_now have ok: "\<not> \<bar>q\<bar> < dbl_epsilon" "\<not> \<bar>a\<bar> < dbl_epsilon" "- (sv / n - a * (st / n)) / a = T"
    by (auto split: if_splits)
  then have "a \<noteq> 0" by (auto simp: dbl_epsilon_def)
  have "- (sv / n - a * (st / n - n * D / n)) / a = T - D"
    unfolding ok(3) [symmetric] using \<open>a \<noteq> 0\<close> n by (simp add: field_simps)
  with at_d ok(1,2) show ?thesis by (simp add: D_def)
qed

lemma ss_time_to_stop_clock_offset_witness:
  "ss_calcTimeToStop 1000000000 [(0, 2), (1000000000, 1)] = Some 1 \<and>
   ss_calcTimeToStop (1000000000 + 5000000000) [(0, 2), (1000000000, 1)] = None"
proof -
  have one: "ss_calcTimeToStop 1000000000 [(0, 2), (1000000000, 1)] = Some 1"
    by (simp add: ss_calcTimeToStop_def seconds_def dbl_epsilon_def Let_def)
  show ?thesis
    using one ss_time_to_stop_clock_offset [OF one, of 5000000000] by (simp add: seconds_def)
qed

end
