(* ===== verification/Longitudinal_Controller.thy ===== *)
theory Longitudinal_Controller
  imports Longitudinal_Utils AW_Msgs
begin

text \<open>
  The longitudinal controller, control/pid_longitudinal_controller/src/pid_longitudinal_controller.cpp.
  One call of \<open>run\<close> is one control period, with one reading \<open>now\<close> of the node's clock and one
  reading \<open>wall\<close> of the clock of the smooth stop. \<open>fl\<close> rounds to a 32-bit float. Debug values and
  log messages are left out. Pitch and yaw are read off the pose (tf2).
\<close>

datatype lc_shift = Shift_Forward | Shift_Reverse

datatype lc_control_state = LC_DRIVE | LC_STOPPING | LC_STOPPED | LC_EMERGENCY

record lc_control_data =
  cd_is_far_from_trajectory :: bool
  cd_nearest_idx :: nat
  cd_vel :: real
  cd_acc :: real
  cd_shift :: lc_shift
  cd_stop_dist :: real
  cd_slope_angle :: real
  cd_dt :: real

record lc_param =
  lc_ctrl_period :: real
  lc_wheel_base :: real
  lc_delay_compensation_time :: real
  lc_enable_smooth_stop :: bool
  lc_enable_overshoot_emergency :: bool
  lc_enable_large_tracking_error_emergency :: bool
  lc_enable_slope_compensation :: bool
  lc_enable_keep_stopped_until_steer_convergence :: bool
  lc_drive_state_stop_dist :: real
  lc_drive_state_offset_stop_dist :: real
  lc_stopping_state_stop_dist :: real
  lc_stopped_state_entry_duration_time :: real
  lc_stopped_state_entry_vel :: real
  lc_stopped_state_entry_acc :: real
  lc_emergency_state_overshoot_stop_dist :: real
  lc_emergency_state_traj_trans_dev :: real
  lc_emergency_state_traj_rot_dev :: real
  lc_lpf_vel_error_gain :: real
  lc_current_vel_threshold_pid_integrate :: real
  lc_enable_brake_keeping_before_stop :: bool
  lc_brake_keeping_acc :: real
  lc_stopped_vel :: real
  lc_stopped_acc :: real
  lc_stopped_jerk :: real
  lc_emergency_vel :: real
  lc_emergency_acc :: real
  lc_emergency_jerk :: real
  lc_max_acc :: real
  lc_min_acc :: real
  lc_max_jerk :: real
  lc_min_jerk :: real
  lc_use_traj_for_pitch :: bool
  lc_lpf_pitch_gain :: real
  lc_max_pitch_rad :: real
  lc_min_pitch_rad :: real
  lc_ego_nearest_dist_threshold :: real
  lc_ego_nearest_yaw_threshold :: real

record lc_state =
  lc_params :: lc_param
  lc_trajectory :: points
  lc_pose :: pose
  lc_vel :: real
  lc_acc :: real
  lc_mode :: operation_mode_value
  lc_is_steer_converged :: bool
  lc_control_state :: lc_control_state
  lc_pid_vel :: lp_pid
  lc_lpf_vel_error :: real
  lc_lpf_pitch :: real
  lc_smooth_stop :: lc_smooth_stop
  lc_ctrl_cmd_vec :: "(time \<times> real) list"
  lc_prev_control_time :: "time option"
  lc_prev_shift :: lc_shift
  lc_prev_ctrl_cmd :: lc_motion
  lc_prev_raw_ctrl_cmd :: lc_motion
  lc_vel_hist :: "(time \<times> real) list"
  lc_last_running_time :: time
  lc_trans_deviation :: real
  lc_rot_deviation :: real

record lc_input =
  li_trajectory :: "trajectory_point option list"
  li_pose :: pose
  li_vel :: real
  li_acc :: real
  li_mode :: operation_mode_value

section \<open>Input data\<close>

definition lc_setTrajectory :: "trajectory_point option list \<Rightarrow> lc_state \<Rightarrow> lc_state" where
  "lc_setTrajectory msg s =
     (if \<not> lc_isValidTrajectory msg then s
      else if length msg < 2 then s
      else s\<lparr> lc_trajectory := map the msg \<rparr>)"

definition lc_setInput :: "lc_input \<Rightarrow> lc_state \<Rightarrow> lc_state" where
  "lc_setInput i s = (lc_setTrajectory (li_trajectory i) s)
     \<lparr> lc_pose := li_pose i, lc_vel := li_vel i, lc_acc := li_acc i, lc_mode := li_mode i \<rparr>"

definition lc_sync :: "bool \<Rightarrow> lc_state \<Rightarrow> lc_state" where
  "lc_sync is_steer_converged s = s\<lparr> lc_is_steer_converged := is_steer_converged \<rparr>"

definition lc_reset :: "lc_state \<Rightarrow> lc_state" where
  "lc_reset s = s\<lparr> lc_is_steer_converged := False \<rparr>"

section \<open>Data of one period\<close>

definition lc_getDt :: "time \<Rightarrow> lc_state \<Rightarrow> real \<times> lc_state" where
  "lc_getDt now s =
     (let period = lc_ctrl_period (lc_params s);
          dt = (case lc_prev_control_time s of None \<Rightarrow> period | Some t \<Rightarrow> seconds (now - t));
          max_dt = period * 2; min_dt = period * (1 / 2)
      in (max (min dt max_dt) min_dt, s\<lparr> lc_prev_control_time := Some now \<rparr>))"

definition lc_getCurrentShift :: "nat \<Rightarrow> lc_state \<Rightarrow> lc_shift" where
  "lc_getCurrentShift nearest_idx s =
     (let epsilon = 1 / 10 ^ 5;
          target_vel = tp_longitudinal_velocity_mps (lc_trajectory s ! nearest_idx)
      in if target_vel > epsilon then Shift_Forward
         else if target_vel < - epsilon then Shift_Reverse
         else lc_prev_shift s)"

definition lc_getControlData :: "time \<Rightarrow> lc_state \<Rightarrow> lc_error + lc_control_data \<times> lc_state" where
  "lc_getControlData now s =
     (let p = lc_params s; (dt, s1) = lc_getDt now s
      in err_bind (lc_lift (tu_findFirstNearestIndexWithSoftConstraints (lc_trajectory s1) (lc_pose s1)
           (lc_ego_nearest_dist_threshold p) (lc_ego_nearest_yaw_threshold p))) (\<lambda>nearest_idx.
         let nearest_point = tp_pose (lc_trajectory s1 ! nearest_idx);
             trans_deviation = calcDistance2d nearest_point (lc_pose s1);
             is_dist_deviation_large = (lc_emergency_state_traj_trans_dev p < trans_deviation);
             rot_deviation = \<bar>normalizeRadian (po_yaw nearest_point - po_yaw (lc_pose s1))\<bar>;
             is_yaw_deviation_large = (lc_emergency_state_traj_rot_dev p < rot_deviation);
             s2 = s1\<lparr> lc_trans_deviation := trans_deviation, lc_rot_deviation := rot_deviation \<rparr>;
             cd = \<lparr> cd_is_far_from_trajectory = True, cd_nearest_idx = 0, cd_vel = lc_vel s, cd_acc = lc_acc s,
                    cd_shift = Shift_Forward, cd_stop_dist = 0, cd_slope_angle = 0, cd_dt = dt \<rparr>
         in if is_dist_deviation_large \<or> is_yaw_deviation_large then Inr (cd, s2)
            else let shift = lc_getCurrentShift nearest_idx s2;
                     s3 = (if shift \<noteq> lc_prev_shift s2 then s2\<lparr> lc_pid_vel := lp_reset (lc_pid_vel s2) \<rparr> else s2);
                     s4 = s3\<lparr> lc_prev_shift := shift \<rparr>
              in err_bind (lc_calcStopDistance (lc_pose s4) (lc_trajectory s4)
                   (lc_ego_nearest_dist_threshold p) (lc_ego_nearest_yaw_threshold p)) (\<lambda>stop_dist.
                 let raw_pitch = po_pitch (lc_pose s4);
                     traj_pitch = lc_getPitchByTraj (lc_trajectory s4) nearest_idx (lc_wheel_base p);
                     filtered = lc_lowpass (lc_lpf_pitch_gain p) (lc_lpf_pitch s4) raw_pitch;
                     (slope_angle, s5) = (if lc_use_traj_for_pitch p then (traj_pitch, s4)
                       else (filtered, s4\<lparr> lc_lpf_pitch := filtered \<rparr>))
                 in Inr (cd\<lparr> cd_is_far_from_trajectory := False, cd_nearest_idx := nearest_idx,
                       cd_shift := shift, cd_stop_dist := stop_dist, cd_slope_angle := slope_angle \<rparr>, s5))))"

section \<open>Predicted velocity\<close>

text \<open>\<open>rclcpp::Duration::from_seconds\<close> cuts off below a nanosecond.\<close>

definition duration_from_seconds :: "real \<Rightarrow> int" where
  "duration_from_seconds d = (if 0 \<le> d then \<lfloor>d * 10 ^ 9\<rfloor> else \<lceil>d * 10 ^ 9\<rceil>)"

definition lc_no_sign_change :: "real \<Rightarrow> real \<Rightarrow> real" where
  "lc_no_sign_change pred_vel current_vel = (if pred_vel > 0 then copysign pred_vel current_vel else 0)"

definition lc_predictedVelocityInTargetPoint :: "time \<Rightarrow> lc_motion \<Rightarrow> real \<Rightarrow> lc_state \<Rightarrow> real" where
  "lc_predictedVelocityInTargetPoint now current_motion delay_compensation_time s =
     (let current_vel = mt_vel current_motion; current_acc = mt_acc current_motion;
          cmds = lc_ctrl_cmd_vec s
      in if \<bar>current_vel\<bar> < 1 / 10 then current_vel
         else let current_vel_abs = \<bar>current_vel\<bar>
         in if cmds = []
            then lc_no_sign_change (current_vel + current_acc * delay_compensation_time) current_vel
            else let past_delay_time = now - duration_from_seconds delay_compensation_time;
                     recent = (\<lambda>t. seconds (now - t) < lc_delay_compensation_time (lc_params s))
            in if recent (fst (hd cmds))
               then lc_no_sign_change (current_vel_abs + snd (hd cmds) * delay_compensation_time) current_vel
               else let steps = filter (\<lambda>(c, d). recent (fst d)) (zip cmds (tl cmds));
                        pred_vel = current_vel_abs + (\<Sum>(c, d) \<leftarrow> steps.
                          snd c * min (seconds (fst d - fst c)) (seconds (fst d - past_delay_time)));
                        last_acc = snd (last cmds);
                        time_to_current = seconds (now - fst (last cmds))
                    in lc_no_sign_change (pred_vel + last_acc * time_to_current) current_vel)"

section \<open>State machine\<close>

definition lc_stopped_condition :: "time \<Rightarrow> lc_state \<Rightarrow> bool" where
  "lc_stopped_condition now s \<longleftrightarrow>
     seconds (now - lc_last_running_time s) > lc_stopped_state_entry_duration_time (lc_params s)"

text \<open>A departure resets the PID controller and releases the brake.\<close>

definition lc_depart :: "lc_state \<Rightarrow> lc_state" where
  "lc_depart s = s\<lparr> lc_pid_vel := lp_reset (lc_pid_vel s), lc_lpf_vel_error := 0,
     lc_prev_ctrl_cmd := (lc_prev_ctrl_cmd s)\<lparr> mt_acc := max 0 (mt_acc (lc_prev_ctrl_cmd s)) \<rparr>,
     lc_control_state := LC_DRIVE \<rparr>"

text \<open>The flags a transition is decided on.\<close>

record lc_flags =
  fg_departure_from_stopping :: bool
  fg_departure_from_stopped :: bool
  fg_keep_stopped :: bool
  fg_stopping :: bool
  fg_stopped :: bool
  fg_emergency :: bool

definition lc_flags_of :: "time \<Rightarrow> lc_control_data \<Rightarrow> lc_state \<Rightarrow> lc_flags" where
  "lc_flags_of now cd s =
     (let p = lc_params s; stop_dist = cd_stop_dist cd;
          current_vel_cmd = \<bar>tp_longitudinal_velocity_mps (lc_trajectory s ! cd_nearest_idx cd)\<bar>
      in \<lparr> fg_departure_from_stopping =
             (stop_dist > lc_drive_state_stop_dist p + lc_drive_state_offset_stop_dist p),
           fg_departure_from_stopped = (stop_dist > lc_drive_state_stop_dist p),
           fg_keep_stopped =
             (lc_enable_keep_stopped_until_steer_convergence p \<and> \<not> lc_is_steer_converged s),
           fg_stopping = (stop_dist < lc_stopping_state_stop_dist p),
           fg_stopped = lc_stopped_condition now s,
           fg_emergency = (lc_enable_overshoot_emergency p \<and>
             stop_dist < - lc_emergency_state_overshoot_stop_dist p \<and> current_vel_cmd < 1 / 1000) \<rparr>)"

definition lc_changeState :: "lc_control_state \<Rightarrow> lc_state \<Rightarrow> lc_state" where
  "lc_changeState x s = s\<lparr> lc_control_state := x \<rparr>"

text \<open>Predictions after the input delay for the smooth stop.\<close>

definition lc_enter_stopping :: "time \<Rightarrow> time \<Rightarrow> lc_control_data \<Rightarrow> lc_state \<Rightarrow> lc_state" where
  "lc_enter_stopping now wall cd s =
     (let delay = lc_delay_compensation_time (lc_params s);
          pred_vel_in_target = lc_predictedVelocityInTargetPoint now
            \<lparr> mt_vel = cd_vel cd, mt_acc = cd_acc cd \<rparr> delay s;
          pred_stop_dist = cd_stop_dist cd - 1 / 2 * (pred_vel_in_target + cd_vel cd) * delay
      in lc_changeState LC_STOPPING
           (s\<lparr> lc_smooth_stop := ss_init wall pred_vel_in_target pred_stop_dist (lc_smooth_stop s) \<rparr>))"

definition lc_transit :: "time \<Rightarrow> time \<Rightarrow> lc_control_data \<Rightarrow> lc_flags \<Rightarrow> lc_state \<Rightarrow> lc_state" where
  "lc_transit now wall cd fg s = (case lc_control_state s of
       LC_DRIVE \<Rightarrow>
         if fg_emergency fg then lc_changeState LC_EMERGENCY s
         else if lc_enable_smooth_stop (lc_params s)
         then (if fg_stopping fg then lc_enter_stopping now wall cd s else s)
         else (if fg_stopped fg \<and> \<not> fg_departure_from_stopped fg then lc_changeState LC_STOPPED s else s)
     | LC_STOPPING \<Rightarrow>
         if fg_emergency fg then lc_changeState LC_EMERGENCY s
         else if fg_stopped fg then lc_changeState LC_STOPPED s
         else if fg_departure_from_stopping fg then lc_depart s
         else s
     | LC_STOPPED \<Rightarrow>
         if fg_keep_stopped fg then lc_changeState LC_STOPPED s
         else if fg_departure_from_stopped fg then lc_depart s
         else s
     | LC_EMERGENCY \<Rightarrow>
         if fg_stopped fg \<and> \<not> fg_emergency fg then lc_changeState LC_STOPPED s else s)"

definition lc_note_running :: "time \<Rightarrow> lc_control_data \<Rightarrow> lc_state \<Rightarrow> lc_state" where
  "lc_note_running now cd s =
     (if \<bar>cd_vel cd\<bar> > lc_stopped_state_entry_vel (lc_params s) \<or>
         \<bar>cd_acc cd\<bar> > lc_stopped_state_entry_acc (lc_params s)
      then s\<lparr> lc_last_running_time := now \<rparr> else s)"

definition lc_updateControlState :: "time \<Rightarrow> time \<Rightarrow> lc_control_data \<Rightarrow> lc_state \<Rightarrow> lc_state" where
  "lc_updateControlState now wall cd s0 =
     (let s = lc_note_running now cd s0 in lc_transit now wall cd (lc_flags_of now cd s) s)"

section \<open>Commands\<close>

definition lc_calcEmergencyCtrlCmd :: "real \<Rightarrow> lc_state \<Rightarrow> lc_motion" where
  "lc_calcEmergencyCtrlCmd dt s =
     (let p = lc_params s; prev = lc_prev_raw_ctrl_cmd s
      in \<lparr> mt_vel = lc_applyDiffLimitFilter (lc_emergency_vel p) (mt_vel prev) dt (lc_emergency_acc p),
           mt_acc = lc_applyDiffLimitFilter (lc_emergency_acc p) (mt_acc prev) dt (lc_emergency_jerk p) \<rparr>)"

definition lc_applySlopeCompensation :: "real \<Rightarrow> real \<Rightarrow> lc_shift \<Rightarrow> lc_state \<Rightarrow> real" where
  "lc_applySlopeCompensation input_acc pitch shift s =
     (let p = lc_params s
      in if \<not> lc_enable_slope_compensation p then input_acc
         else let pitch_limited = min (max pitch (lc_min_pitch_rad p)) (lc_max_pitch_rad p);
                  sgn = (case shift of Shift_Forward \<Rightarrow> - 1 | Shift_Reverse \<Rightarrow> 1)
           in input_acc + sgn * (981 / 100) * sin pitch_limited)"

definition lc_storeAccelCmd :: "(real \<Rightarrow> real) \<Rightarrow> time \<Rightarrow> real \<Rightarrow> lc_state \<Rightarrow> lc_state" where
  "lc_storeAccelCmd fl now accel s =
     (let cmds = (if lc_control_state s = LC_DRIVE then lc_ctrl_cmd_vec s @ [(now, fl accel)] else []);
          cmds2 = (if length cmds \<le> 2 then cmds
            else if seconds (now - fst (cmds ! 1)) > lc_delay_compensation_time (lc_params s) then tl cmds
            else cmds)
      in s\<lparr> lc_ctrl_cmd_vec := cmds2 \<rparr>)"

definition lc_calcFilteredAcc ::
  "(real \<Rightarrow> real) \<Rightarrow> time \<Rightarrow> real \<Rightarrow> lc_control_data \<Rightarrow> lc_state \<Rightarrow> real \<times> lc_state" where
  "lc_calcFilteredAcc fl now raw_acc cd s =
     (let p = lc_params s;
          acc_max_filtered = std_clamp raw_acc (lc_min_acc p) (lc_max_acc p);
          s1 = lc_storeAccelCmd fl now acc_max_filtered s;
          acc_slope_filtered = lc_applySlopeCompensation acc_max_filtered (cd_slope_angle cd) (cd_shift cd) s1
      in (lc_applyDiffLimitFilter_between acc_slope_filtered (mt_acc (lc_prev_ctrl_cmd s1)) (cd_dt cd)
            (lc_max_jerk p) (lc_min_jerk p), s1))"

text \<open>
  The point of least acceleration before the stop, searched backwards from the stop while the
  acceleration does not grow; the accumulator is \<open>None\<close> for the largest double.
\<close>

fun lc_min_acc_loop :: "points \<Rightarrow> nat list \<Rightarrow> (real \<times> nat) option \<Rightarrow> (real \<times> nat) option" where
  "lc_min_acc_loop traj [] best = best"
| "lc_min_acc_loop traj (i # is) best =
     (let a = tp_acceleration_mps2 (traj ! i)
      in if (case best of None \<Rightarrow> False | Some (m, k) \<Rightarrow> a > m) then best
         else lc_min_acc_loop traj is (Some (a, i)))"

definition lc_keepBrakeBeforeStop :: "points \<Rightarrow> lc_motion \<Rightarrow> nat \<Rightarrow> lc_state \<Rightarrow> lc_error + lc_motion" where
  "lc_keepBrakeBeforeStop traj target_motion nearest_idx s =
     (let p = lc_params s
      in if \<not> lc_enable_brake_keeping_before_stop p then Inr target_motion
         else err_bind (lc_lift (tu_searchZeroVelocityIndex_all traj)) (\<lambda>stop_idx. case stop_idx of
             None \<Rightarrow> Inr target_motion
           | Some i \<Rightarrow> (case lc_min_acc_loop traj (rev [0..<Suc i]) None of
               None \<Rightarrow> Inr target_motion
             | Some (min_acc_before_stop, min_acc_idx) \<Rightarrow>
                 let brake_keeping_acc = max (lc_brake_keeping_acc p) min_acc_before_stop
                 in Inr (if min_acc_idx \<le> nearest_idx \<and> mt_acc target_motion > brake_keeping_acc
                         then target_motion\<lparr> mt_acc := brake_keeping_acc \<rparr> else target_motion))))"

definition lc_calcInterpolatedTargetValue :: "points \<Rightarrow> pose \<Rightarrow> lc_state \<Rightarrow> lc_error + lc_motion" where
  "lc_calcInterpolatedTargetValue traj pose s =
     (if length traj = 1
      then Inr \<lparr> mt_vel = tp_longitudinal_velocity_mps (traj ! 0), mt_acc = tp_acceleration_mps2 (traj ! 0) \<rparr>
      else lc_lerpTrajectoryPoint traj pose (lc_ego_nearest_dist_threshold (lc_params s))
             (lc_ego_nearest_yaw_threshold (lc_params s)))"

definition lc_applyVelocityFeedback ::
  "lc_motion \<Rightarrow> real \<Rightarrow> real \<Rightarrow> lc_state \<Rightarrow> lc_error + real \<times> lc_state" where
  "lc_applyVelocityFeedback target_motion dt current_vel s =
     (let p = lc_params s; current_vel_abs = \<bar>current_vel\<bar>; target_vel_abs = \<bar>mt_vel target_motion\<bar>;
          is_under_control = (lc_mode s = OperationMode_AUTONOMOUS);
          enable_integration = (current_vel_abs > lc_current_vel_threshold_pid_integrate p \<and> is_under_control);
          error_vel_filtered = lc_lowpass (lc_lpf_vel_error_gain p) (lc_lpf_vel_error s)
            (target_vel_abs - current_vel_abs)
      in err_bind (lp_calculate error_vel_filtered dt enable_integration (lc_pid_vel s)) (\<lambda>(pid_acc, pid).
           let ff_scale = std_clamp (current_vel_abs / max target_vel_abs (1 / 10)) (1 / 2) 2;
               ff_acc = mt_acc target_motion * ff_scale
           in Inr (ff_acc + pid_acc, s\<lparr> lc_lpf_vel_error := error_vel_filtered, lc_pid_vel := pid \<rparr>)))"

text \<open>The raw command of the current state.\<close>

definition lc_raw_ctrl_cmd ::
  "time \<Rightarrow> time \<Rightarrow> lc_control_data \<Rightarrow> lc_state \<Rightarrow> lc_error + lc_motion \<times> lc_state" where
  "lc_raw_ctrl_cmd now wall cd s =
     (let p = lc_params s; delay = lc_delay_compensation_time p
      in case lc_control_state s of
           LC_DRIVE \<Rightarrow>
             let target_pose = lc_calcPoseAfterTimeDelay (lc_pose s) delay (cd_vel cd)
             in err_bind (lc_calcInterpolatedTargetValue (lc_trajectory s) target_pose s) (\<lambda>target.
                err_bind (lc_keepBrakeBeforeStop (lc_trajectory s) target (cd_nearest_idx cd) s) (\<lambda>target_motion.
                  let pred_vel_in_target = lc_predictedVelocityInTargetPoint now
                        \<lparr> mt_vel = cd_vel cd, mt_acc = cd_acc cd \<rparr> delay s
                  in err_bind (lc_applyVelocityFeedback target_motion (cd_dt cd) pred_vel_in_target s) (\<lambda>(acc, s1).
                       Inr (\<lparr> mt_vel = mt_vel target_motion, mt_acc = acc \<rparr>, s1))))
         | LC_STOPPING \<Rightarrow>
             err_bind (ss_calculate wall (cd_stop_dist cd) (cd_vel cd) (cd_acc cd) (lc_vel_hist s) delay
               (lc_smooth_stop s)) (\<lambda>(acc, ss).
               Inr (\<lparr> mt_vel = lc_stopped_vel p, mt_acc = acc \<rparr>, s\<lparr> lc_smooth_stop := ss \<rparr>))
         | LC_STOPPED \<Rightarrow>
             Inr (\<lparr> mt_vel = lc_stopped_vel p,
                    mt_acc = lc_applyDiffLimitFilter (lc_stopped_acc p) (mt_acc (lc_prev_raw_ctrl_cmd s))
                      (cd_dt cd) (lc_stopped_jerk p) \<rparr>, s)
         | LC_EMERGENCY \<Rightarrow> Inr (lc_calcEmergencyCtrlCmd (cd_dt cd) s, s))"

definition lc_calcCtrlCmd ::
  "(real \<Rightarrow> real) \<Rightarrow> time \<Rightarrow> time \<Rightarrow> lc_control_data \<Rightarrow> lc_state \<Rightarrow> lc_error + lc_motion \<times> lc_state" where
  "lc_calcCtrlCmd fl now wall cd s =
     err_bind (lc_raw_ctrl_cmd now wall cd s) (\<lambda>(raw_ctrl_cmd, s1).
       let s2 = s1\<lparr> lc_prev_raw_ctrl_cmd := raw_ctrl_cmd \<rparr>;
           (filtered_acc_cmd, s3) = lc_calcFilteredAcc fl now (mt_acc raw_ctrl_cmd) cd s2
       in Inr (\<lparr> mt_vel = mt_vel raw_ctrl_cmd, mt_acc = filtered_acc_cmd \<rparr>, s3))"

definition lc_createCtrlCmdMsg ::
  "(real \<Rightarrow> real) \<Rightarrow> time \<Rightarrow> lc_motion \<Rightarrow> real \<Rightarrow> lc_state \<Rightarrow> longitudinal_command \<times> lc_state" where
  "lc_createCtrlCmdMsg fl now ctrl_cmd current_vel s =
     (let cmd = \<lparr> lon_stamp = now, lon_speed = fl (mt_vel ctrl_cmd),
                  lon_acceleration = fl (mt_acc ctrl_cmd), lon_jerk = 0 \<rparr>;
          n = nat \<lfloor>1 / 2 / lc_ctrl_period (lc_params s)\<rfloor>
      in (cmd, s\<lparr> lc_vel_hist := keep_last n (lc_vel_hist s @ [(now, current_vel)]),
                  lc_prev_ctrl_cmd := ctrl_cmd \<rparr>))"

text \<open>
  One period. With a control period that is not positive the conversion of \<open>0.5 / period\<close> to a size
  is undefined behaviour.
\<close>

definition lc_run ::
  "(real \<Rightarrow> real) \<Rightarrow> time \<Rightarrow> time \<Rightarrow> lc_input \<Rightarrow> lc_state \<Rightarrow> lc_error + longitudinal_command \<times> lc_state" where
  "lc_run fl now wall input s0 =
     (if lc_ctrl_period (lc_params s0) \<le> 0 then Inl LC_UndefinedCast
      else let s = lc_setInput input s0
      in err_bind (lc_getControlData now s) (\<lambda>(cd, s1).
           if cd_is_far_from_trajectory cd
           then let s2 = (if lc_enable_large_tracking_error_emergency (lc_params s1)
                      then s1\<lparr> lc_control_state := LC_EMERGENCY \<rparr> else s1);
                    raw_ctrl_cmd = lc_calcEmergencyCtrlCmd (cd_dt cd) s2;
                    s3 = s2\<lparr> lc_prev_raw_ctrl_cmd := raw_ctrl_cmd \<rparr>
                in Inr (lc_createCtrlCmdMsg fl now raw_ctrl_cmd (cd_vel cd) s3)
           else let s2 = lc_updateControlState now wall cd s1
                in err_bind (lc_calcCtrlCmd fl now wall cd s2) (\<lambda>(ctrl_cmd, s3).
                     Inr (lc_createCtrlCmdMsg fl now ctrl_cmd (cd_vel cd) s3))))"

section \<open>Diagnostics and parameters\<close>

definition lc_checkControlState :: "lc_state \<Rightarrow> diag_level \<times> string" where
  "lc_checkControlState s =
     (let p = lc_params s;
          (level, msg) = (if lc_control_state s = LC_EMERGENCY then (DL_ERROR, ''emergency occurred due to '')
            else (DL_OK, ''OK''));
          msg2 = (if lc_emergency_state_traj_trans_dev p < lc_trans_deviation s
                  then msg @ ''translation deviation'' else msg);
          msg3 = (if lc_emergency_state_traj_rot_dev p < lc_rot_deviation s
                  then msg2 @ ''rotation deviation'' else msg2)
      in (level, msg3))"

text \<open>
  Parameters changed at run time: the first one of the given name. \<open>store\<close> are the values the node
  holds before the change.
\<close>

definition lc_update_param :: "(string \<times> real) list \<Rightarrow> string \<Rightarrow> real \<Rightarrow> real" where
  "lc_update_param parameters name v = (case map_of parameters name of Some x \<Rightarrow> x | None \<Rightarrow> v)"

definition lc_paramCallback :: "(string \<Rightarrow> real) \<Rightarrow> (string \<times> real) list \<Rightarrow> lc_state \<Rightarrow> lc_state" where
  "lc_paramCallback store parameters s =
     (let upd = lc_update_param parameters; val = (\<lambda>n. upd n (store n)); p = lc_params s
      in s\<lparr> lc_params := p\<lparr>
             lc_delay_compensation_time := upd ''delay_compensation_time'' (lc_delay_compensation_time p),
             lc_drive_state_stop_dist := upd ''drive_state_stop_dist'' (lc_drive_state_stop_dist p),
             lc_stopping_state_stop_dist := upd ''stopping_state_stop_dist'' (lc_stopping_state_stop_dist p),
             lc_stopped_state_entry_duration_time :=
               upd ''stopped_state_entry_duration_time'' (lc_stopped_state_entry_duration_time p),
             lc_stopped_state_entry_vel := upd ''stopped_state_entry_vel'' (lc_stopped_state_entry_vel p),
             lc_stopped_state_entry_acc := upd ''stopped_state_entry_acc'' (lc_stopped_state_entry_acc p),
             lc_emergency_state_overshoot_stop_dist :=
               upd ''emergency_state_overshoot_stop_dist'' (lc_emergency_state_overshoot_stop_dist p),
             lc_emergency_state_traj_trans_dev :=
               upd ''emergency_state_traj_trans_dev'' (lc_emergency_state_traj_trans_dev p),
             lc_emergency_state_traj_rot_dev :=
               upd ''emergency_state_traj_rot_dev'' (lc_emergency_state_traj_rot_dev p),
             lc_current_vel_threshold_pid_integrate :=
               upd ''current_vel_threshold_pid_integration'' (lc_current_vel_threshold_pid_integrate p),
             lc_stopped_vel := upd ''stopped_vel'' (lc_stopped_vel p),
             lc_stopped_acc := upd ''stopped_acc'' (lc_stopped_acc p),
             lc_stopped_jerk := upd ''stopped_jerk'' (lc_stopped_jerk p),
             lc_emergency_vel := upd ''emergency_vel'' (lc_emergency_vel p),
             lc_emergency_acc := upd ''emergency_acc'' (lc_emergency_acc p),
             lc_emergency_jerk := upd ''emergency_jerk'' (lc_emergency_jerk p),
             lc_min_acc := upd ''min_acc'' (lc_min_acc p),
             lc_max_jerk := upd ''max_jerk'' (lc_max_jerk p),
             lc_min_jerk := upd ''min_jerk'' (lc_min_jerk p),
             lc_max_pitch_rad := upd ''max_pitch_rad'' (lc_max_pitch_rad p),
             lc_min_pitch_rad := upd ''min_pitch_rad'' (lc_min_pitch_rad p) \<rparr>,
           lc_pid_vel := lp_setLimits (val ''max_out'') (val ''min_out'') (val ''max_p_effort'')
             (val ''min_p_effort'') (val ''max_i_effort'') (val ''min_i_effort'') (val ''max_d_effort'')
             (val ''min_d_effort'') (lp_setGains (val ''kp'') (val ''ki'') (val ''kd'') (lc_pid_vel s)),
           lc_smooth_stop := ss_setParams (val ''smooth_stop_max_strong_acc'') (val ''smooth_stop_min_strong_acc'')
             (val ''smooth_stop_weak_acc'') (val ''smooth_stop_weak_stop_acc'')
             (val ''smooth_stop_strong_stop_acc'') (val ''smooth_stop_max_fast_vel'')
             (val ''smooth_stop_min_running_vel'') (val ''smooth_stop_min_running_acc'')
             (val ''smooth_stop_weak_stop_time'') (val ''smooth_stop_weak_stop_dist'')
             (val ''smooth_stop_strong_stop_dist'') (lc_smooth_stop s) \<rparr>)"

text \<open>The state after construction; \<open>store\<close> are the declared values of the gains and limits.\<close>

definition lc_construct :: "(string \<Rightarrow> real) \<Rightarrow> lc_param \<Rightarrow> time \<Rightarrow> lp_pid \<Rightarrow> lc_smooth_stop \<Rightarrow> lc_state" where
  "lc_construct val p now pid smooth_stop =
     \<lparr> lc_params = p, lc_trajectory = [],
       lc_pose = \<lparr> pt_x = 0, pt_y = 0, pt_z = 0, po_pitch = 0, po_yaw = 0 \<rparr>, lc_vel = 0, lc_acc = 0,
       lc_mode = OperationMode_UNKNOWN, lc_is_steer_converged = False, lc_control_state = LC_STOPPED,
       lc_pid_vel = lp_setLimits (val ''max_out'') (val ''min_out'') (val ''max_p_effort'')
             (val ''min_p_effort'') (val ''max_i_effort'') (val ''min_i_effort'') (val ''max_d_effort'')
             (val ''min_d_effort'') (lp_setGains (val ''kp'') (val ''ki'') (val ''kd'') (lp_reset pid)),
       lc_lpf_vel_error = 0, lc_lpf_pitch = 0,
       lc_smooth_stop = ss_setParams (val ''smooth_stop_max_strong_acc'') (val ''smooth_stop_min_strong_acc'')
             (val ''smooth_stop_weak_acc'') (val ''smooth_stop_weak_stop_acc'')
             (val ''smooth_stop_strong_stop_acc'') (val ''smooth_stop_max_fast_vel'')
             (val ''smooth_stop_min_running_vel'') (val ''smooth_stop_min_running_acc'')
             (val ''smooth_stop_weak_stop_time'') (val ''smooth_stop_weak_stop_dist'')
             (val ''smooth_stop_strong_stop_dist'') smooth_stop,
       lc_ctrl_cmd_vec = [], lc_prev_control_time = None, lc_prev_shift = Shift_Forward,
       lc_prev_ctrl_cmd = \<lparr> mt_vel = 0, mt_acc = 0 \<rparr>, lc_prev_raw_ctrl_cmd = \<lparr> mt_vel = 0, mt_acc = 0 \<rparr>,
       lc_vel_hist = [], lc_last_running_time = now, lc_trans_deviation = 0, lc_rot_deviation = 0 \<rparr>"

section \<open>Frame of one period\<close>

lemma lc_setInput_frame [frame_simps]:
  "lc_params (lc_setInput i s) = lc_params s" "lc_control_state (lc_setInput i s) = lc_control_state s"
  "lc_prev_ctrl_cmd (lc_setInput i s) = lc_prev_ctrl_cmd s"
  "lc_prev_raw_ctrl_cmd (lc_setInput i s) = lc_prev_raw_ctrl_cmd s"
  "lc_pid_vel (lc_setInput i s) = lc_pid_vel s" "lc_smooth_stop (lc_setInput i s) = lc_smooth_stop s"
  "lc_last_running_time (lc_setInput i s) = lc_last_running_time s"
  "lc_is_steer_converged (lc_setInput i s) = lc_is_steer_converged s"
  "lc_vel (lc_setInput i s) = li_vel i" "lc_acc (lc_setInput i s) = li_acc i"
  by (simp_all add: lc_setInput_def lc_setTrajectory_def)

lemma lc_getDt_bounds:
  assumes "0 < lc_ctrl_period (lc_params s)"
  shows "lc_ctrl_period (lc_params s) / 2 \<le> fst (lc_getDt now s)"
    and "fst (lc_getDt now s) \<le> 2 * lc_ctrl_period (lc_params s)"
  using assms by (auto simp: lc_getDt_def Let_def split: option.splits)

text \<open>What the computation of the control data leaves alone.\<close>

definition lc_same :: "lc_state \<Rightarrow> lc_state \<Rightarrow> bool" where
  "lc_same s s1 \<longleftrightarrow> lc_params s1 = lc_params s \<and> lc_control_state s1 = lc_control_state s \<and>
     lc_trajectory s1 = lc_trajectory s \<and> lc_pose s1 = lc_pose s \<and>
     lc_prev_ctrl_cmd s1 = lc_prev_ctrl_cmd s \<and> lc_prev_raw_ctrl_cmd s1 = lc_prev_raw_ctrl_cmd s \<and>
     lc_smooth_stop s1 = lc_smooth_stop s \<and> lc_last_running_time s1 = lc_last_running_time s \<and>
     lc_is_steer_converged s1 = lc_is_steer_converged s \<and>
     (lc_pid_vel s1 = lc_pid_vel s \<or> lc_pid_vel s1 = lp_reset (lc_pid_vel s))"

lemma lc_getControlData_same:
  assumes "lc_getControlData now s = Inr (cd, s1)"
  shows "lc_same s s1" and "cd_dt cd = fst (lc_getDt now s)" and "cd_vel cd = lc_vel s" and "cd_acc cd = lc_acc s"
proof -
  have "snd (lc_getDt now s) = s\<lparr> lc_prev_control_time := Some now \<rparr>" by (simp add: lc_getDt_def Let_def)
  then obtain dt where dt: "lc_getDt now s = (dt, s\<lparr> lc_prev_control_time := Some now \<rparr>)"
    by (metis prod.collapse)
  show "lc_same s s1" and "cd_dt cd = fst (lc_getDt now s)" and "cd_vel cd = lc_vel s" and "cd_acc cd = lc_acc s"
    using assms by (auto simp: lc_getControlData_def dt lc_same_def Let_def split: if_splits)
qed

end
