(* ===== verification/Longitudinal_Safety.thy ===== *)
theory Longitudinal_Safety
  imports Longitudinal_Controller
begin

text \<open>
  What the longitudinal controller guarantees: it always returns a command on a trajectory without
  overlapping points, its acceleration keeps the jerk limits, an emergency ends only at a standstill,
  and off the trajectory the command reaches the emergency acceleration.
\<close>

section \<open>Lengths and interpolation do not throw\<close>

lemma tu_zero_loop_total:
  "\<forall>i \<in> set is. i < length points \<Longrightarrow>
   \<exists>r. tu_zero_loop points is = Inr r \<and> (\<forall>k. r = Some k \<longrightarrow> k < length points)"
  by (induction "is") auto

lemma tu_searchZero_total:
  "\<exists>r. tu_searchZeroVelocityIndex_all points = Inr r \<and> (\<forall>k. r = Some k \<longrightarrow> k < length points)"
  using tu_zero_loop_total [of "[0..<length points]" points]
  by (auto simp: tu_searchZeroVelocityIndex_all_def tu_searchZeroVelocityIndex_def)

lemma tu_segment_total:
  assumes "2 \<le> length points"
  shows "\<exists>k. tu_findFirstNearestSegmentIndexWithSoftConstraints points pose dmax ymax = Inr k \<and> k + 1 < length points"
proof -
  from assms have "points \<noteq> []" by auto
  from tu_soft_constraints [OF this, of pose dmax ymax] obtain k where
    "k < length points" "tu_findFirstNearestIndexWithSoftConstraints points pose dmax ymax = Inr k" by blast
  then show ?thesis
    using tu_segment_of_valid [OF assms, of k pose] by (simp add: tu_findFirstNearestSegmentIndexWithSoftConstraints_def)
qed

lemma tu_offset_cases: "tu_offset points i p = NaN \<or> (\<exists>l. tu_offset points i p = Fin l)"
  by (auto simp: tu_offset_def tu_calcLongitudinalOffsetToSegment_def Let_def split: sum.splits)

lemma tu_removeOverlap_id:
  assumes "successively tu_apart points"
  shows "tu_removeOverlapPoints points i = points"
proof (cases "length points < i + 1")
  case False
  then have "i < length points" by simp
  then have split: "points = take i points @ points ! i # drop (i + 1) points"
    by (metis Suc_eq_plus1 id_take_nth_drop)
  with assms have "successively tu_apart (points ! i # drop (i + 1) points)"
    by (metis successively_append_iff)
  then have "tu_remove_from (points ! i) (drop (i + 1) points) = drop (i + 1) points"
    by (rule tu_remove_from_id)
  with False show ?thesis by (simp add: tu_removeOverlapPoints_def)
qed (simp add: tu_removeOverlapPoints_def)

lemma tu_offset_Fin:
  assumes "successively tu_apart points" and "i + 1 < length points"
  shows "\<exists>l. tu_offset points i p = Fin l"
  using assms(2) unfolding tu_offset_def tu_calcLongitudinalOffsetToSegment_def tu_removeOverlap_id [OF assms(1)]
  by (auto simp: Let_def)

lemma lc_calcStopDistance_total:
  assumes "2 \<le> length traj"
  shows "\<exists>d. lc_calcStopDistance pose traj dmax ymax = Inr d"
proof -
  from tu_searchZero_total [of traj] obtain r where r: "tu_searchZeroVelocityIndex_all traj = Inr r"
    "\<forall>k. r = Some k \<longrightarrow> k < length traj" by blast
  from tu_segment_total [OF assms, of pose dmax ymax] obtain k where
    k: "tu_findFirstNearestSegmentIndexWithSoftConstraints traj pose dmax ymax = Inr k" "k + 1 < length traj" by blast
  let ?e = "case r of Some i \<Rightarrow> i | None \<Rightarrow> length traj - 1"
  have "min ?e (length traj - 2) < length traj" using assms by simp
  then obtain l where "tu_calcSignedArcLength traj k (min ?e (length traj - 2)) = Inr l"
    using tu_signed_length [of k traj] k(2) by auto
  moreover from tu_offset_cases [of traj k pose] tu_offset_cases [of traj "min ?e (length traj - 2)" "tp_pose (traj ! ?e)"]
  have "flt_add (flt_sub (Fin l) (tu_offset traj k pose)) (tu_offset traj (min ?e (length traj - 2)) (tp_pose (traj ! ?e))) = NaN \<or>
    (\<exists>x. flt_add (flt_sub (Fin l) (tu_offset traj k pose)) (tu_offset traj (min ?e (length traj - 2)) (tp_pose (traj ! ?e))) = Fin x)"
    by auto
  ultimately show ?thesis
    using r(1) k(1) assms
    by (auto simp: lc_calcStopDistance_def tu_calcSignedArcLength_seg_seg_def tu_length_between_def Let_def
        split: flt.splits)
qed

lemma tu_apart_seg:
  assumes "successively tu_apart points" and "i + 1 < length points"
  shows "0 < tu_seg points i"
proof -
  from assms have "tu_apart (points ! i) (points ! Suc i)" by (simp add: successively_conv_nth)
  then show ?thesis by (simp add: tu_apart_def tu_seg_def)
qed

lemma lc_lerp_total:
  assumes "successively tu_apart points" and "2 \<le> length points"
  shows "\<exists>m. lc_lerpTrajectoryPoint points pose dmax ymax = Inr m"
proof -
  from tu_segment_total [OF assms(2), of pose dmax ymax] obtain k where
    k: "tu_findFirstNearestSegmentIndexWithSoftConstraints points pose dmax ymax = Inr k" "k + 1 < length points" by blast
  from tu_offset_Fin [OF assms(1) k(2), of pose] obtain l where l: "tu_offset points k pose = Fin l" ..
  have len: "tu_calcSignedArcLength points k (k + 1) = Inr (tu_seg points k)"
    using tu_signed_length [of k points "k + 1"] k(2) by simp
  have "tu_seg points k \<noteq> 0" using tu_apart_seg [OF assms(1) k(2)] by simp
  then have "\<exists>r. std_clamp_flt (flt_div l (tu_seg points k)) 0 1 = Fin r" by (simp add: std_clamp_flt_def)
  then obtain r where r: "std_clamp_flt (flt_div l (tu_seg points k)) 0 1 = Fin r" ..
  show ?thesis
    unfolding lc_lerpTrajectoryPoint_def k(1) lc_lift.simps err_bind.simps Let_def l len flt.case r
    by blast
qed

text \<open>
  When the last two points of the trajectory coincide and the vehicle is at this segment, the offset along the segment is
  not a number, and so is the target the code goes on with.
\<close>

lemma lc_lerp_coinciding:
  assumes "2 \<le> length points" and "k = length points - 2"
    and "calcDistance2d (tp_pose (points ! k)) (tp_pose (points ! (k + 1))) < 1 / 10 ^ 8"
    and "tu_findFirstNearestSegmentIndexWithSoftConstraints points pose dmax ymax = Inr k"
  shows "lc_lerpTrajectoryPoint points pose dmax ymax = Inl LC_NotANumber"
proof -
  have drop: "drop (k + 1) points = [points ! (k + 1)]"
    using assms(1,2) by (simp add: Cons_nth_drop_Suc [symmetric])
  then have "tu_removeOverlapPoints points k = take (k + 1) points"
    using assms(1-3) by (simp add: tu_removeOverlapPoints_def)
  then have nan: "tu_offset points k pose = NaN"
    using assms(1,2) by (simp add: tu_offset_def tu_calcLongitudinalOffsetToSegment_def Let_def)
  have "tu_calcSignedArcLength points k (k + 1) = Inr (tu_seg points k)"
    using tu_signed_length [of k points "k + 1"] assms(1,2) by simp
  then show ?thesis
    by (simp add: lc_lerpTrajectoryPoint_def assms(4) nan std_clamp_flt_def Let_def)
qed

section \<open>A period always gives a command\<close>

definition lc_traj_ok :: "points \<Rightarrow> bool" where
  "lc_traj_ok traj \<longleftrightarrow> 2 \<le> length traj \<and> successively tu_apart traj"

definition lc_wf :: "lc_state \<Rightarrow> bool" where
  "lc_wf s \<longleftrightarrow> 0 < lc_ctrl_period (lc_params s) \<and> lc_traj_ok (lc_trajectory s) \<and> lp_ok (lc_pid_vel s) \<and>
     ss_is_set_params (lc_smooth_stop s)"

lemma lc_getControlData_total:
  assumes "lc_traj_ok (lc_trajectory s)"
  shows "\<exists>cd s1. lc_getControlData now s = Inr (cd, s1) \<and>
    (\<not> cd_is_far_from_trajectory cd \<longrightarrow> cd_nearest_idx cd < length (lc_trajectory s))"
proof -
  have "snd (lc_getDt now s) = s\<lparr> lc_prev_control_time := Some now \<rparr>" by (simp add: lc_getDt_def Let_def)
  then obtain dt where dt: "lc_getDt now s = (dt, s\<lparr> lc_prev_control_time := Some now \<rparr>)"
    by (metis prod.collapse)
  let ?p = "lc_params s"
  let ?d = "lc_ego_nearest_dist_threshold ?p"
  let ?y = "lc_ego_nearest_yaw_threshold ?p"
  from assms have len: "2 \<le> length (lc_trajectory s)" by (simp add: lc_traj_ok_def)
  then have ne: "lc_trajectory s \<noteq> []" by auto
  from tu_soft_constraints [OF ne, of "lc_pose s" ?d ?y] obtain k where k: "k < length (lc_trajectory s)"
    "tu_findFirstNearestIndexWithSoftConstraints (lc_trajectory s) (lc_pose s) ?d ?y = Inr k" by blast
  from lc_calcStopDistance_total [OF len, of "lc_pose s" ?d ?y] obtain sd where
    "lc_calcStopDistance (lc_pose s) (lc_trajectory s) ?d ?y = Inr sd" ..
  with k show ?thesis by (simp add: lc_getControlData_def dt Let_def)
qed

lemma lc_depart_frame [simp]:
  "lc_params (lc_depart s) = lc_params s" "lc_trajectory (lc_depart s) = lc_trajectory s"
  "lc_pose (lc_depart s) = lc_pose s" "lp_ok (lc_pid_vel (lc_depart s)) = lp_ok (lc_pid_vel s)"
  "lc_smooth_stop (lc_depart s) = lc_smooth_stop s" "lc_control_state (lc_depart s) = LC_DRIVE"
  "lc_prev_raw_ctrl_cmd (lc_depart s) = lc_prev_raw_ctrl_cmd s"
  "mt_acc (lc_prev_ctrl_cmd (lc_depart s)) = max 0 (mt_acc (lc_prev_ctrl_cmd s))"
  by (simp_all add: lc_depart_def)

lemma lc_changeState_frame [simp]:
  "lc_params (lc_changeState x s) = lc_params s" "lc_trajectory (lc_changeState x s) = lc_trajectory s"
  "lc_pose (lc_changeState x s) = lc_pose s" "lc_pid_vel (lc_changeState x s) = lc_pid_vel s"
  "lc_smooth_stop (lc_changeState x s) = lc_smooth_stop s" "lc_control_state (lc_changeState x s) = x"
  "lc_prev_raw_ctrl_cmd (lc_changeState x s) = lc_prev_raw_ctrl_cmd s"
  "lc_prev_ctrl_cmd (lc_changeState x s) = lc_prev_ctrl_cmd s"
  by (simp_all add: lc_changeState_def)

lemma lc_enter_stopping_frame [simp]:
  "lc_params (lc_enter_stopping now wall cd s) = lc_params s"
  "lc_trajectory (lc_enter_stopping now wall cd s) = lc_trajectory s"
  "lc_pid_vel (lc_enter_stopping now wall cd s) = lc_pid_vel s"
  "ss_is_set_params (lc_smooth_stop (lc_enter_stopping now wall cd s)) = ss_is_set_params (lc_smooth_stop s)"
  "lc_control_state (lc_enter_stopping now wall cd s) = LC_STOPPING"
  "lc_prev_raw_ctrl_cmd (lc_enter_stopping now wall cd s) = lc_prev_raw_ctrl_cmd s"
  "lc_prev_ctrl_cmd (lc_enter_stopping now wall cd s) = lc_prev_ctrl_cmd s"
  by (simp_all add: lc_enter_stopping_def ss_init_def Let_def)

lemma lc_note_running_frame [simp]:
  "lc_params (lc_note_running now cd s) = lc_params s" "lc_trajectory (lc_note_running now cd s) = lc_trajectory s"
  "lc_pid_vel (lc_note_running now cd s) = lc_pid_vel s"
  "lc_smooth_stop (lc_note_running now cd s) = lc_smooth_stop s"
  "lc_control_state (lc_note_running now cd s) = lc_control_state s"
  "lc_prev_raw_ctrl_cmd (lc_note_running now cd s) = lc_prev_raw_ctrl_cmd s"
  "lc_prev_ctrl_cmd (lc_note_running now cd s) = lc_prev_ctrl_cmd s"
  "lc_is_steer_converged (lc_note_running now cd s) = lc_is_steer_converged s"
  by (simp_all add: lc_note_running_def)

lemma lc_updateControlState_frame [simp]:
  "lc_params (lc_updateControlState now wall cd s) = lc_params s"
  "lc_trajectory (lc_updateControlState now wall cd s) = lc_trajectory s"
  "lp_ok (lc_pid_vel (lc_updateControlState now wall cd s)) = lp_ok (lc_pid_vel s)"
  "ss_is_set_params (lc_smooth_stop (lc_updateControlState now wall cd s)) = ss_is_set_params (lc_smooth_stop s)"
  "lc_prev_raw_ctrl_cmd (lc_updateControlState now wall cd s) = lc_prev_raw_ctrl_cmd s"
  by (simp_all add: lc_updateControlState_def lc_transit_def Let_def split: lc_control_state.splits)

lemma lc_updateControlState_prev:
  "mt_acc (lc_prev_ctrl_cmd (lc_updateControlState now wall cd s)) =
     (if lc_control_state s \<noteq> LC_DRIVE \<and> lc_control_state (lc_updateControlState now wall cd s) = LC_DRIVE
      then max 0 (mt_acc (lc_prev_ctrl_cmd s)) else mt_acc (lc_prev_ctrl_cmd s))"
  by (simp add: lc_updateControlState_def lc_transit_def Let_def split: lc_control_state.splits)

text \<open>The raw command exists and leaves the state but for the filter, the PID and the smooth stop.\<close>

lemma lc_raw_total:
  assumes "lc_wf s" and "0 < cd_dt cd"
  shows "\<exists>m s1. lc_raw_ctrl_cmd now wall cd s = Inr (m, s1) \<and> lc_wf s1 \<and>
    lc_params s1 = lc_params s \<and> lc_control_state s1 = lc_control_state s \<and>
    lc_prev_ctrl_cmd s1 = lc_prev_ctrl_cmd s"
proof (cases "lc_control_state s")
  case LC_DRIVE
  let ?d = "lc_ego_nearest_dist_threshold (lc_params s)"
  let ?y = "lc_ego_nearest_yaw_threshold (lc_params s)"
  let ?pose = "lc_calcPoseAfterTimeDelay (lc_pose s) (lc_delay_compensation_time (lc_params s)) (cd_vel cd)"
  from assms(1) have traj: "successively tu_apart (lc_trajectory s)" "2 \<le> length (lc_trajectory s)"
    by (simp_all add: lc_wf_def lc_traj_ok_def)
  from lc_lerp_total [OF traj, of ?pose ?d ?y] obtain target where
    "lc_lerpTrajectoryPoint (lc_trajectory s) ?pose ?d ?y = Inr target" ..
  then have 1: "lc_calcInterpolatedTargetValue (lc_trajectory s) ?pose s = Inr target"
    using traj(2) by (auto simp: lc_calcInterpolatedTargetValue_def)
  obtain r where "tu_searchZeroVelocityIndex_all (lc_trajectory s) = Inr r" using tu_searchZero_total by blast
  then have "\<exists>tm. lc_keepBrakeBeforeStop (lc_trajectory s) target (cd_nearest_idx cd) s = Inr tm"
    by (simp add: lc_keepBrakeBeforeStop_def Let_def split: option.split prod.split)
  then obtain tm where 2: "lc_keepBrakeBeforeStop (lc_trajectory s) target (cd_nearest_idx cd) s = Inr tm" ..
  let ?pv = "lc_predictedVelocityInTargetPoint now \<lparr>mt_vel = cd_vel cd, mt_acc = cd_acc cd\<rparr>
    (lc_delay_compensation_time (lc_params s)) s"
  have "\<exists>a s1. lc_applyVelocityFeedback tm (cd_dt cd) ?pv s = Inr (a, s1) \<and> lc_wf s1 \<and>
    lc_params s1 = lc_params s \<and> lc_control_state s1 = lc_control_state s \<and>
    lc_prev_ctrl_cmd s1 = lc_prev_ctrl_cmd s"
  proof -
    from assms(1) have "lp_ok (lc_pid_vel s)" by (simp add: lc_wf_def)
    from lp_calculate_total [OF this assms(2), of
        "lc_lowpass (lc_lpf_vel_error_gain (lc_params s)) (lc_lpf_vel_error s) (\<bar>mt_vel tm\<bar> - \<bar>?pv\<bar>)"
        "\<bar>?pv\<bar> > lc_current_vel_threshold_pid_integrate (lc_params s) \<and> lc_mode s = OperationMode_AUTONOMOUS"]
    obtain r pid where "lp_calculate
        (lc_lowpass (lc_lpf_vel_error_gain (lc_params s)) (lc_lpf_vel_error s) (\<bar>mt_vel tm\<bar> - \<bar>?pv\<bar>)) (cd_dt cd)
        (\<bar>?pv\<bar> > lc_current_vel_threshold_pid_integrate (lc_params s) \<and> lc_mode s = OperationMode_AUTONOMOUS)
        (lc_pid_vel s) = Inr (r, pid)" "lp_ok pid" by blast
    then show ?thesis
      using assms(1) by (simp add: lc_applyVelocityFeedback_def Let_def lc_wf_def)
  qed
  then obtain a s1 where 3: "lc_applyVelocityFeedback tm (cd_dt cd) ?pv s = Inr (a, s1)" "lc_wf s1"
    "lc_params s1 = lc_params s" "lc_control_state s1 = lc_control_state s"
    "lc_prev_ctrl_cmd s1 = lc_prev_ctrl_cmd s" by blast
  show ?thesis
    unfolding lc_raw_ctrl_cmd_def Let_def LC_DRIVE lc_control_state.case 1 2 3(1) err_bind.simps
    using 3(2-5) LC_DRIVE by simp
next
  case LC_STOPPING
  from assms(1) have "ss_is_set_params (lc_smooth_stop s)" by (simp add: lc_wf_def)
  then have "\<exists>a ss. ss_calculate wall (cd_stop_dist cd) (cd_vel cd) (cd_acc cd) (lc_vel_hist s)
      (lc_delay_compensation_time (lc_params s)) (lc_smooth_stop s) = Inr (a, ss) \<and> ss_is_set_params ss"
    by (simp add: ss_calculate_def Let_def)
  then obtain a ss where "ss_calculate wall (cd_stop_dist cd) (cd_vel cd) (cd_acc cd) (lc_vel_hist s)
      (lc_delay_compensation_time (lc_params s)) (lc_smooth_stop s) = Inr (a, ss)" "ss_is_set_params ss" by blast
  with LC_STOPPING assms(1) show ?thesis by (simp add: lc_raw_ctrl_cmd_def Let_def lc_wf_def)
qed (use assms(1) in \<open>simp_all add: lc_raw_ctrl_cmd_def Let_def\<close>)

lemma lc_storeAccelCmd_frame [simp]:
  "lc_params (lc_storeAccelCmd fl now a s) = lc_params s"
  "lc_control_state (lc_storeAccelCmd fl now a s) = lc_control_state s"
  "lc_prev_ctrl_cmd (lc_storeAccelCmd fl now a s) = lc_prev_ctrl_cmd s"
  "lc_prev_raw_ctrl_cmd (lc_storeAccelCmd fl now a s) = lc_prev_raw_ctrl_cmd s"
  "lc_wf (lc_storeAccelCmd fl now a s) = lc_wf s"
  by (simp_all add: lc_storeAccelCmd_def lc_wf_def Let_def)

text \<open>The filtered command keeps the jerk limits against the previous command.\<close>

lemma lc_calcCtrlCmd_total:
  assumes "lc_wf s" and "0 < cd_dt cd"
  shows "\<exists>m s1. lc_calcCtrlCmd fl now wall cd s = Inr (m, s1) \<and> lc_wf s1 \<and>
    lc_params s1 = lc_params s \<and> lc_control_state s1 = lc_control_state s \<and>
    (lc_min_jerk (lc_params s) \<le> lc_max_jerk (lc_params s) \<longrightarrow>
       lc_min_jerk (lc_params s) * cd_dt cd \<le> mt_acc m - mt_acc (lc_prev_ctrl_cmd s) \<and>
       mt_acc m - mt_acc (lc_prev_ctrl_cmd s) \<le> lc_max_jerk (lc_params s) * cd_dt cd)"
proof -
  from lc_raw_total [OF assms, of now wall] obtain m s1 where
    raw: "lc_raw_ctrl_cmd now wall cd s = Inr (m, s1)" and wf: "lc_wf s1"
    and frame: "lc_params s1 = lc_params s" "lc_control_state s1 = lc_control_state s"
      "lc_prev_ctrl_cmd s1 = lc_prev_ctrl_cmd s" by blast
  from wf have wf2: "lc_wf (s1\<lparr> lc_prev_raw_ctrl_cmd := m \<rparr>)" by (simp add: lc_wf_def)
  show ?thesis
    unfolding lc_calcCtrlCmd_def raw lc_calcFilteredAcc_def Let_def
    using wf2 frame lc_diff_limit_bounds [OF assms(2)] by simp
qed

lemma lc_createCtrlCmdMsg_frame:
  "lc_params (snd (lc_createCtrlCmdMsg fl now m v s)) = lc_params s"
  "lc_control_state (snd (lc_createCtrlCmdMsg fl now m v s)) = lc_control_state s"
  "lc_prev_ctrl_cmd (snd (lc_createCtrlCmdMsg fl now m v s)) = m"
  "lc_prev_raw_ctrl_cmd (snd (lc_createCtrlCmdMsg fl now m v s)) = lc_prev_raw_ctrl_cmd s"
  "lc_last_running_time (snd (lc_createCtrlCmdMsg fl now m v s)) = lc_last_running_time s"
  "lc_wf (snd (lc_createCtrlCmdMsg fl now m v s)) = lc_wf s"
  "lon_acceleration (fst (lc_createCtrlCmdMsg fl now m v s)) = fl (mt_acc m)"
  "lon_speed (fst (lc_createCtrlCmdMsg fl now m v s)) = fl (mt_vel m)"
  by (simp_all add: lc_createCtrlCmdMsg_def lc_wf_def Let_def)

text \<open>A received trajectory is good when it would be ignored or has no overlapping points.\<close>

definition lc_input_ok :: "lc_input \<Rightarrow> bool" where
  "lc_input_ok i \<longleftrightarrow> \<not> lc_isValidTrajectory (li_trajectory i) \<or> length (li_trajectory i) < 2 \<or>
     successively tu_apart (map the (li_trajectory i))"

lemma lc_wf_setInput:
  assumes "lc_wf s" and "lc_input_ok i"
  shows "lc_wf (lc_setInput i s)"
  using assms by (auto simp: lc_wf_def lc_traj_ok_def lc_setInput_def lc_setTrajectory_def lc_input_ok_def)

lemma lc_wf_same:
  assumes "lc_wf s" and "lc_same s s1"
  shows "lc_wf s1"
  using assms by (auto simp: lc_wf_def lc_same_def)

lemma lc_wf_update: "lc_wf s \<Longrightarrow> lc_wf (lc_updateControlState now wall cd s)"
  by (simp add: lc_wf_def)

section \<open>One period\<close>

text \<open>Whether the vehicle is off the trajectory in this period.\<close>

definition lc_far :: "time \<Rightarrow> lc_input \<Rightarrow> lc_state \<Rightarrow> bool" where
  "lc_far now i s = (case lc_getControlData now (lc_setInput i s) of
     Inr (cd, s1) \<Rightarrow> cd_is_far_from_trajectory cd | Inl e \<Rightarrow> False)"

lemma lc_period_data:
  assumes "lc_wf s" and "lc_input_ok i"
  obtains cd s1 where "lc_getControlData now (lc_setInput i s) = Inr (cd, s1)" and "lc_wf s1"
    and "lc_same (lc_setInput i s) s1" and "lc_ctrl_period (lc_params s) / 2 \<le> cd_dt cd"
    and "cd_dt cd \<le> 2 * lc_ctrl_period (lc_params s)" and "0 < cd_dt cd"
    and "cd_is_far_from_trajectory cd = lc_far now i s"
    and "cd_vel cd = li_vel i" and "cd_acc cd = li_acc i"
proof -
  note wf = lc_wf_setInput [OF assms]
  then have "lc_traj_ok (lc_trajectory (lc_setInput i s))" by (simp add: lc_wf_def)
  from lc_getControlData_total [OF this, of now] obtain cd s1 where
    data: "lc_getControlData now (lc_setInput i s) = Inr (cd, s1)" by blast
  from wf have "0 < lc_ctrl_period (lc_params (lc_setInput i s))" by (simp add: lc_wf_def)
  note dt = lc_getDt_bounds [OF this, of now]
  note same = lc_getControlData_same [OF data]
  show ?thesis
    using that [OF data lc_wf_same [OF wf same(1)] same(1)] dt same data \<open>0 < _\<close>
    by (simp add: frame_simps lc_far_def)
qed

lemma lc_run_far:
  assumes "lc_wf s" and "lc_input_ok i" and "lc_far now i s"
  shows "\<exists>cmd s' dt. lc_run fl now wall i s = Inr (cmd, s') \<and> lc_wf s' \<and>
    lc_ctrl_period (lc_params s) / 2 \<le> dt \<and> dt \<le> 2 * lc_ctrl_period (lc_params s) \<and>
    lc_params s' = lc_params s \<and> lc_last_running_time s' = lc_last_running_time s \<and>
    lc_prev_raw_ctrl_cmd s' = lc_calcEmergencyCtrlCmd dt s \<and>
    lc_prev_ctrl_cmd s' = lc_calcEmergencyCtrlCmd dt s \<and>
    lon_acceleration cmd = fl (mt_acc (lc_calcEmergencyCtrlCmd dt s)) \<and>
    lon_speed cmd = fl (mt_vel (lc_calcEmergencyCtrlCmd dt s)) \<and>
    lc_control_state s' = (if lc_enable_large_tracking_error_emergency (lc_params s) then LC_EMERGENCY
      else lc_control_state s)"
proof -
  from lc_period_data [OF assms(1,2), of now] obtain cd s1 where
    data: "lc_getControlData now (lc_setInput i s) = Inr (cd, s1)" and wf: "lc_wf s1"
    and same: "lc_same (lc_setInput i s) s1"
    and dt: "lc_ctrl_period (lc_params s) / 2 \<le> cd_dt cd" "cd_dt cd \<le> 2 * lc_ctrl_period (lc_params s)"
    and far: "cd_is_far_from_trajectory cd" using assms(3) by metis
  have period: "\<not> lc_ctrl_period (lc_params s) \<le> 0" using assms(1) by (simp add: lc_wf_def)
  define s2 where "s2 = (if lc_enable_large_tracking_error_emergency (lc_params s1)
    then s1\<lparr> lc_control_state := LC_EMERGENCY \<rparr> else s1)"
  define s3 where "s3 = s2\<lparr> lc_prev_raw_ctrl_cmd := lc_calcEmergencyCtrlCmd (cd_dt cd) s2 \<rparr>"
  have s1: "lc_params s1 = lc_params s" "lc_prev_raw_ctrl_cmd s1 = lc_prev_raw_ctrl_cmd s"
    "lc_control_state s1 = lc_control_state s" "lc_last_running_time s1 = lc_last_running_time s"
    using same by (simp_all add: lc_same_def frame_simps)
  then have em: "lc_calcEmergencyCtrlCmd (cd_dt cd) s2 = lc_calcEmergencyCtrlCmd (cd_dt cd) s"
    by (simp add: s2_def lc_calcEmergencyCtrlCmd_def)
  have "lc_wf s3" using wf by (simp add: s3_def s2_def lc_wf_def)
  have run: "lc_run fl now wall i s =
      Inr (lc_createCtrlCmdMsg fl now (lc_calcEmergencyCtrlCmd (cd_dt cd) s) (cd_vel cd) s3)"
    using period far unfolding lc_run_def data Let_def em [symmetric] s3_def s2_def by simp
  show ?thesis
    using dt s1 \<open>lc_wf s3\<close> em unfolding run
    by (intro exI [of _ "fst (lc_createCtrlCmdMsg fl now (lc_calcEmergencyCtrlCmd (cd_dt cd) s) (cd_vel cd) s3)"]
        exI [of _ "snd (lc_createCtrlCmdMsg fl now (lc_calcEmergencyCtrlCmd (cd_dt cd) s) (cd_vel cd) s3)"]
        exI [of _ "cd_dt cd"])
      (simp add: lc_createCtrlCmdMsg_frame s3_def s2_def)
qed

lemma lc_run_near:
  assumes "lc_wf s" and "lc_input_ok i" and "\<not> lc_far now i s"
  obtains cmd s' cd s1 where "lc_run fl now wall i s = Inr (cmd, s')" and "lc_wf s'"
    and "lc_params s' = lc_params s" and "lc_same (lc_setInput i s) s1"
    and "cd_vel cd = li_vel i" and "cd_acc cd = li_acc i"
    and "lc_ctrl_period (lc_params s) / 2 \<le> cd_dt cd" and "cd_dt cd \<le> 2 * lc_ctrl_period (lc_params s)"
    and "lc_control_state s' = lc_control_state (lc_updateControlState now wall cd s1)"
    and "lon_acceleration cmd = fl (mt_acc (lc_prev_ctrl_cmd s'))"
    and "lc_min_jerk (lc_params s) \<le> lc_max_jerk (lc_params s) \<longrightarrow>
       lc_min_jerk (lc_params s) * cd_dt cd \<le>
         mt_acc (lc_prev_ctrl_cmd s') - mt_acc (lc_prev_ctrl_cmd (lc_updateControlState now wall cd s1)) \<and>
       mt_acc (lc_prev_ctrl_cmd s') - mt_acc (lc_prev_ctrl_cmd (lc_updateControlState now wall cd s1)) \<le>
         lc_max_jerk (lc_params s) * cd_dt cd"
proof -
  from lc_period_data [OF assms(1,2), of now] obtain cd s1 where
    data: "lc_getControlData now (lc_setInput i s) = Inr (cd, s1)" and wf: "lc_wf s1"
    and same: "lc_same (lc_setInput i s) s1"
    and dt: "lc_ctrl_period (lc_params s) / 2 \<le> cd_dt cd" "cd_dt cd \<le> 2 * lc_ctrl_period (lc_params s)" "0 < cd_dt cd"
    and far: "\<not> cd_is_far_from_trajectory cd" and va: "cd_vel cd = li_vel i" "cd_acc cd = li_acc i"
    using assms(3) by metis
  have period: "\<not> lc_ctrl_period (lc_params s) \<le> 0" using assms(1) by (simp add: lc_wf_def)
  have par: "lc_params s1 = lc_params s" using same by (simp add: lc_same_def frame_simps)
  let ?u = "lc_updateControlState now wall cd s1"
  from lc_calcCtrlCmd_total [OF lc_wf_update [OF wf] dt(3), of fl now wall] obtain m s3 where
    cmd: "lc_calcCtrlCmd fl now wall cd ?u = Inr (m, s3)" and wf3: "lc_wf s3"
    and fr: "lc_params s3 = lc_params ?u" "lc_control_state s3 = lc_control_state ?u"
    and jerk: "lc_min_jerk (lc_params ?u) \<le> lc_max_jerk (lc_params ?u) \<longrightarrow>
       lc_min_jerk (lc_params ?u) * cd_dt cd \<le> mt_acc m - mt_acc (lc_prev_ctrl_cmd ?u) \<and>
       mt_acc m - mt_acc (lc_prev_ctrl_cmd ?u) \<le> lc_max_jerk (lc_params ?u) * cd_dt cd" by metis
  have run: "lc_run fl now wall i s = Inr (lc_createCtrlCmdMsg fl now m (cd_vel cd) s3)"
    using period far unfolding lc_run_def data Let_def by (simp add: cmd)
  show ?thesis
    by (rule that [of "fst (lc_createCtrlCmdMsg fl now m (cd_vel cd) s3)"
          "snd (lc_createCtrlCmdMsg fl now m (cd_vel cd) s3)" s1 cd])
      (use run wf3 fr jerk same dt va par in \<open>simp_all add: lc_createCtrlCmdMsg_frame\<close>)
qed

section \<open>Sequences of periods\<close>

fun lc_runs ::
  "(real \<Rightarrow> real) \<Rightarrow> (time \<times> time \<times> lc_input) list \<Rightarrow> lc_state \<Rightarrow> lc_error + longitudinal_command list \<times> lc_state" where
  "lc_runs fl [] s = Inr ([], s)"
| "lc_runs fl ((now, wall, i) # xs) s =
     err_bind (lc_run fl now wall i s) (\<lambda>(cmd, s1).
       err_bind (lc_runs fl xs s1) (\<lambda>(cmds, s2). Inr (cmd # cmds, s2)))"

definition lc_inputs_ok :: "(time \<times> time \<times> lc_input) list \<Rightarrow> bool" where
  "lc_inputs_ok xs \<longleftrightarrow> (\<forall>(now, wall, i) \<in> set xs. lc_input_ok i)"

text \<open>The vehicle is off the trajectory in every period of the sequence.\<close>

fun lc_all_far :: "(real \<Rightarrow> real) \<Rightarrow> (time \<times> time \<times> lc_input) list \<Rightarrow> lc_state \<Rightarrow> bool" where
  "lc_all_far fl [] s \<longleftrightarrow> True"
| "lc_all_far fl ((now, wall, i) # xs) s \<longleftrightarrow> lc_far now i s \<and>
     (case lc_run fl now wall i s of Inr (cmd, s1) \<Rightarrow> lc_all_far fl xs s1 | Inl e \<Rightarrow> False)"

lemma lc_run_total:
  assumes "lc_wf s" and "lc_input_ok i"
  shows "\<exists>cmd s'. lc_run fl now wall i s = Inr (cmd, s') \<and> lc_wf s' \<and> lc_params s' = lc_params s"
proof (cases "lc_far now i s")
  case True
  from lc_run_far [OF assms this, of fl wall] show ?thesis by (elim exE conjE) (intro exI conjI)
next
  case False
  show ?thesis by (rule lc_run_near [OF assms False, where fl = fl and wall = wall]) (intro exI conjI)
qed

lemma lc_runs_total:
  assumes "lc_wf s" and "lc_inputs_ok xs"
  shows "\<exists>cmds s'. lc_runs fl xs s = Inr (cmds, s') \<and> lc_wf s' \<and> lc_params s' = lc_params s \<and> length cmds = length xs"
  using assms
proof (induction xs arbitrary: s)
  case (Cons x xs)
  obtain now wall i where x: "x = (now, wall, i)" by (metis prod_cases3)
  with Cons.prems have "lc_input_ok i" "lc_inputs_ok xs" by (simp_all add: lc_inputs_ok_def)
  from lc_run_total [OF Cons.prems(1) this(1), of fl now wall] obtain cmd s1 where
    1: "lc_run fl now wall i s = Inr (cmd, s1)" "lc_wf s1" "lc_params s1 = lc_params s" by blast
  from Cons.IH [OF 1(2) \<open>lc_inputs_ok xs\<close>] 1 show ?case by (auto simp: x)
qed simp

section \<open>Properties\<close>

text \<open>C37: The published acceleration keeps the jerk limits. Assumed: a configured controller (lc_wf: positive period, PID
  gains and limits set with a non-zero integral gain, smooth stop set), a stored and a received trajectory whose
  neighbouring points are at least 1e-8 m apart (a received one that is discarded, for an infinite field or fewer than
  two points, may be anything), min_jerk <= 0 <= max_jerk, and a vehicle not too far from its trajectory. Then one call
  of run returns a command, and its filtered acceleration moves away from the previous command by at most max_jerk (at
  least min_jerk) times twice the control period; the only other change is the release of the brake at departure, which
  lifts the previous command to zero. Without the condition on the points this fails: with the last two points at one
  place the code goes on with NaN and publishes it, where the model ends with LC_NotANumber.\<close>

theorem lc_jerk_limited:
  assumes "lc_wf s" and "lc_input_ok i" and "\<not> lc_far now i s"
    and "lc_min_jerk (lc_params s) \<le> 0" and "0 \<le> lc_max_jerk (lc_params s)"
  shows "\<exists>cmd s' base. lc_run fl now wall i s = Inr (cmd, s') \<and> lc_wf s' \<and>
    lon_acceleration cmd = fl (mt_acc (lc_prev_ctrl_cmd s')) \<and>
    base = (if lc_control_state s \<noteq> LC_DRIVE \<and> lc_control_state s' = LC_DRIVE
            then max 0 (mt_acc (lc_prev_ctrl_cmd s)) else mt_acc (lc_prev_ctrl_cmd s)) \<and>
    lc_min_jerk (lc_params s) * (2 * lc_ctrl_period (lc_params s)) \<le> mt_acc (lc_prev_ctrl_cmd s') - base \<and>
    mt_acc (lc_prev_ctrl_cmd s') - base \<le> lc_max_jerk (lc_params s) * (2 * lc_ctrl_period (lc_params s))"
proof -
  obtain cmd s' cd s1 where
    r: "lc_run fl now wall i s = Inr (cmd, s')" "lc_wf s'" "lc_params s' = lc_params s"
      "lc_same (lc_setInput i s) s1" "cd_vel cd = li_vel i" "cd_acc cd = li_acc i"
      "lc_ctrl_period (lc_params s) / 2 \<le> cd_dt cd" "cd_dt cd \<le> 2 * lc_ctrl_period (lc_params s)"
      "lc_control_state s' = lc_control_state (lc_updateControlState now wall cd s1)"
      "lon_acceleration cmd = fl (mt_acc (lc_prev_ctrl_cmd s'))"
    and j: "lc_min_jerk (lc_params s) \<le> lc_max_jerk (lc_params s) \<longrightarrow>
       lc_min_jerk (lc_params s) * cd_dt cd \<le>
         mt_acc (lc_prev_ctrl_cmd s') - mt_acc (lc_prev_ctrl_cmd (lc_updateControlState now wall cd s1)) \<and>
       mt_acc (lc_prev_ctrl_cmd s') - mt_acc (lc_prev_ctrl_cmd (lc_updateControlState now wall cd s1)) \<le>
         lc_max_jerk (lc_params s) * cd_dt cd"
    by (rule lc_run_near [OF assms(1-3), where fl = fl and wall = wall]) (rule that; assumption)
  let ?base = "mt_acc (lc_prev_ctrl_cmd (lc_updateControlState now wall cd s1))"
  have "lc_control_state s1 = lc_control_state s" "lc_prev_ctrl_cmd s1 = lc_prev_ctrl_cmd s"
    using r(4) by (simp_all add: lc_same_def frame_simps)
  then have base: "?base = (if lc_control_state s \<noteq> LC_DRIVE \<and> lc_control_state s' = LC_DRIVE
      then max 0 (mt_acc (lc_prev_ctrl_cmd s)) else mt_acc (lc_prev_ctrl_cmd s))"
    using r(9) lc_updateControlState_prev [of now wall cd s1] by simp
  have "lc_min_jerk (lc_params s) * (2 * lc_ctrl_period (lc_params s)) \<le> lc_min_jerk (lc_params s) * cd_dt cd"
    using r(8) assms(4) by (rule mult_left_mono_neg)
  moreover have "lc_max_jerk (lc_params s) * cd_dt cd \<le> lc_max_jerk (lc_params s) * (2 * lc_ctrl_period (lc_params s))"
    using r(8) assms(5) by (rule mult_left_mono)
  moreover have "lc_min_jerk (lc_params s) * cd_dt cd \<le> mt_acc (lc_prev_ctrl_cmd s') - ?base"
    "mt_acc (lc_prev_ctrl_cmd s') - ?base \<le> lc_max_jerk (lc_params s) * cd_dt cd"
    using j assms(4,5) by simp_all
  ultimately have bounds:
    "lc_min_jerk (lc_params s) * (2 * lc_ctrl_period (lc_params s)) \<le> mt_acc (lc_prev_ctrl_cmd s') - ?base"
    "mt_acc (lc_prev_ctrl_cmd s') - ?base \<le> lc_max_jerk (lc_params s) * (2 * lc_ctrl_period (lc_params s))"
    by linarith+
  show ?thesis
    by (intro exI conjI) (rule r(1), rule r(2), rule r(10), rule base, rule bounds(1), rule bounds(2))
qed

section \<open>The end of an emergency\<close>

lemma lc_note_running_time:
  "lc_last_running_time (lc_note_running now cd s) =
     (if \<bar>cd_vel cd\<bar> > lc_stopped_state_entry_vel (lc_params s) \<or>
         \<bar>cd_acc cd\<bar> > lc_stopped_state_entry_acc (lc_params s) then now else lc_last_running_time s)"
  by (simp add: lc_note_running_def)

lemma lc_update_from_emergency:
  assumes "lc_control_state s = LC_EMERGENCY" and "lc_control_state (lc_updateControlState now wall cd s) \<noteq> LC_EMERGENCY"
    and "0 \<le> lc_stopped_state_entry_duration_time (lc_params s)"
  shows "lc_control_state (lc_updateControlState now wall cd s) = LC_STOPPED \<and>
    \<bar>cd_vel cd\<bar> \<le> lc_stopped_state_entry_vel (lc_params s) \<and>
    \<bar>cd_acc cd\<bar> \<le> lc_stopped_state_entry_acc (lc_params s) \<and>
    lc_stopped_state_entry_duration_time (lc_params s) < seconds (now - lc_last_running_time s)"
proof -
  have t: "fg_stopped (lc_flags_of now cd (lc_note_running now cd s))"
    "lc_control_state (lc_updateControlState now wall cd s) = LC_STOPPED"
    using assms(1,2) by (auto simp: lc_updateControlState_def lc_transit_def Let_def split: if_splits)
  then have "lc_stopped_state_entry_duration_time (lc_params s) <
      seconds (now - lc_last_running_time (lc_note_running now cd s))"
    by (simp add: lc_flags_of_def lc_stopped_condition_def Let_def)
  with assms(3) t(2) show ?thesis by (auto simp: lc_note_running_time split: if_splits)
qed

lemma lc_leave_emergency:
  assumes "lc_wf s" and "lc_input_ok i" and "lc_control_state s = LC_EMERGENCY"
    and "lc_run fl now wall i s = Inr (cmd, s')" and "lc_control_state s' \<noteq> LC_EMERGENCY"
    and "0 \<le> lc_stopped_state_entry_duration_time (lc_params s)"
  shows "lc_control_state s' = LC_STOPPED \<and> \<not> lc_far now i s \<and>
    \<bar>li_vel i\<bar> \<le> lc_stopped_state_entry_vel (lc_params s) \<and>
    \<bar>li_acc i\<bar> \<le> lc_stopped_state_entry_acc (lc_params s) \<and>
    lc_stopped_state_entry_duration_time (lc_params s) < seconds (now - lc_last_running_time s)"
proof (cases "lc_far now i s")
  case True
  from lc_run_far [OF assms(1,2) True, of fl wall] assms(3-5) show ?thesis by (auto split: if_splits)
next
  case False
  obtain cd s1 where
    same: "lc_same (lc_setInput i s) s1" and cd: "cd_vel cd = li_vel i" "cd_acc cd = li_acc i"
    and st: "lc_control_state s' = lc_control_state (lc_updateControlState now wall cd s1)"
    by (rule lc_run_near [OF assms(1,2) False, where fl = fl and wall = wall]) (use assms(4) in simp)
  from same have "lc_control_state s1 = LC_EMERGENCY" "lc_params s1 = lc_params s"
    "lc_last_running_time s1 = lc_last_running_time s" using assms(3) by (simp_all add: lc_same_def frame_simps)
  with lc_update_from_emergency [of s1 now wall cd] st cd assms(5,6) False show ?thesis by simp
qed

text \<open>C38: An emergency of the longitudinal controller is latched until the vehicle stands: in a sequence of periods that starts in EMERGENCY and does not end there, there is a period in which the vehicle is back on the trajectory with velocity and acceleration below the limits of the stopped state, and that period leads to STOPPED, so that DRIVE is reached only through STOPPED.\<close>

theorem lc_emergency_until_standstill:
  assumes "lc_wf s" and "lc_inputs_ok xs" and "lc_control_state s = LC_EMERGENCY"
    and "lc_runs fl xs s = Inr (cmds, s')" and "lc_control_state s' \<noteq> LC_EMERGENCY"
    and "0 \<le> lc_stopped_state_entry_duration_time (lc_params s)"
  shows "\<exists>ys now wall i zs cs s1 s2 cmd. xs = ys @ (now, wall, i) # zs \<and>
    lc_runs fl ys s = Inr (cs, s1) \<and> lc_control_state s1 = LC_EMERGENCY \<and>
    lc_run fl now wall i s1 = Inr (cmd, s2) \<and> lc_control_state s2 = LC_STOPPED \<and> \<not> lc_far now i s1 \<and>
    \<bar>li_vel i\<bar> \<le> lc_stopped_state_entry_vel (lc_params s) \<and>
    \<bar>li_acc i\<bar> \<le> lc_stopped_state_entry_acc (lc_params s)"
  using assms
proof (induction xs arbitrary: s cmds)
  case (Cons x xs)
  obtain now wall i where x: "x = (now, wall, i)" by (metis prod_cases3)
  with Cons.prems have ok: "lc_input_ok i" "lc_inputs_ok xs" by (simp_all add: lc_inputs_ok_def)
  from lc_run_total [OF Cons.prems(1) ok(1), of fl now wall] obtain cmd s1 where
    1: "lc_run fl now wall i s = Inr (cmd, s1)" "lc_wf s1" "lc_params s1 = lc_params s" by blast
  show ?case
  proof (cases "lc_control_state s1 = LC_EMERGENCY")
    case True
    from Cons.prems(4) 1 obtain cs where "lc_runs fl xs s1 = Inr (cs, s')" by (auto simp: x)
    note IH = Cons.IH [OF 1(2) ok(2) True this Cons.prems(5), unfolded 1(3), OF Cons.prems(6)]
    then obtain ys n w j zs cs t1 t2 c where r: "xs = ys @ (n, w, j) # zs" "lc_runs fl ys s1 = Inr (cs, t1)"
      "lc_control_state t1 = LC_EMERGENCY" "lc_run fl n w j t1 = Inr (c, t2)" "lc_control_state t2 = LC_STOPPED"
      "\<not> lc_far n j t1" "\<bar>li_vel j\<bar> \<le> lc_stopped_state_entry_vel (lc_params s)"
      "\<bar>li_acc j\<bar> \<le> lc_stopped_state_entry_acc (lc_params s)" by (elim exE conjE)
    have "lc_runs fl (x # ys) s = Inr (cmd # cs, t1)" using r(2) 1(1) by (simp add: x)
    moreover have "x # xs = (x # ys) @ (n, w, j) # zs" using r(1) by simp
    ultimately show ?thesis using r(3-8) by blast
  next
    case False
    from lc_leave_emergency [OF Cons.prems(1) ok(1) Cons.prems(3) 1(1) False Cons.prems(6)] 1(1) Cons.prems(3) x
    show ?thesis by (intro exI [of _ "[]"]) auto
  qed
qed simp

section \<open>Off the trajectory\<close>

text \<open>Every period off the trajectory brings the command closer to the emergency values.\<close>

lemma lc_emergency_distance:
  assumes "0 < dt"
  shows "\<bar>lc_emergency_acc (lc_params s) - mt_acc (lc_calcEmergencyCtrlCmd dt s)\<bar> =
      max 0 (\<bar>lc_emergency_acc (lc_params s) - mt_acc (lc_prev_raw_ctrl_cmd s)\<bar> - \<bar>lc_emergency_jerk (lc_params s)\<bar> * dt)"
    and "\<bar>lc_emergency_vel (lc_params s) - mt_vel (lc_calcEmergencyCtrlCmd dt s)\<bar> =
      max 0 (\<bar>lc_emergency_vel (lc_params s) - mt_vel (lc_prev_raw_ctrl_cmd s)\<bar> - \<bar>lc_emergency_acc (lc_params s)\<bar> * dt)"
  using lc_diff_limit_distance [OF assms] by (simp_all add: lc_calcEmergencyCtrlCmd_def Let_def)

lemma max_step:
  fixes k :: real
  assumes "0 \<le> k" and "q / 2 \<le> dt" and "d' = max 0 (d - k * dt)" and "d \<le> (n + 1) * (k * (q / 2))" and "0 \<le> n" "0 \<le> q"
  shows "d' \<le> n * (k * (q / 2))"
proof -
  have "k * (q / 2) \<le> k * dt" using assms(1,2) by (rule mult_left_mono [rotated])
  moreover have "0 \<le> n * (k * (q / 2))" using assms(1,5,6) by simp
  moreover have "(n + 1) * (k * (q / 2)) = n * (k * (q / 2)) + k * (q / 2)" by (simp add: algebra_simps)
  ultimately show ?thesis using assms(3,4) by linarith
qed

text \<open>Off the trajectory the controller reaches the emergency command. If the vehicle is farther from the trajectory, or more turned away from it, than the emergency limits in every period of a sequence, and the sequence is long enough for the raw command to move to emergency_acc with emergency_jerk and to emergency_vel with emergency_acc at half the control period per call, then every call returns a command and the last one carries exactly the emergency acceleration and velocity.\<close>

theorem lc_off_trajectory_brakes:
  assumes "lc_wf s" and "lc_inputs_ok xs" and "lc_all_far fl xs s" and "xs \<noteq> []"
    and "\<bar>lc_emergency_acc (lc_params s) - mt_acc (lc_prev_raw_ctrl_cmd s)\<bar> \<le>
      real (length xs) * (\<bar>lc_emergency_jerk (lc_params s)\<bar> * (lc_ctrl_period (lc_params s) / 2))"
    and "\<bar>lc_emergency_vel (lc_params s) - mt_vel (lc_prev_raw_ctrl_cmd s)\<bar> \<le>
      real (length xs) * (\<bar>lc_emergency_acc (lc_params s)\<bar> * (lc_ctrl_period (lc_params s) / 2))"
  shows "\<exists>cmds s'. lc_runs fl xs s = Inr (cmds, s') \<and> cmds \<noteq> [] \<and>
    lon_acceleration (last cmds) = fl (lc_emergency_acc (lc_params s)) \<and>
    lon_speed (last cmds) = fl (lc_emergency_vel (lc_params s))"
  using assms
proof (induction xs arbitrary: s)
  case (Cons x xs)
  obtain now wall i where x: "x = (now, wall, i)" by (metis prod_cases3)
  with Cons.prems have ok: "lc_input_ok i" "lc_inputs_ok xs" "lc_far now i s" by (simp_all add: lc_inputs_ok_def)
  from lc_run_far [OF Cons.prems(1) ok(1,3), of fl wall] obtain cmd s1 dt where
    run: "lc_run fl now wall i s = Inr (cmd, s1)" "lc_wf s1" and dt: "lc_ctrl_period (lc_params s) / 2 \<le> dt"
    and fr: "lc_params s1 = lc_params s" "lc_prev_raw_ctrl_cmd s1 = lc_calcEmergencyCtrlCmd dt s"
    and out: "lon_acceleration cmd = fl (mt_acc (lc_calcEmergencyCtrlCmd dt s))"
      "lon_speed cmd = fl (mt_vel (lc_calcEmergencyCtrlCmd dt s))" by blast
  have q: "0 < lc_ctrl_period (lc_params s)" using Cons.prems(1) by (simp add: lc_wf_def)
  then have "0 < dt" using dt by linarith
  note dist1 = lc_emergency_distance [OF this, of s]
  have acc: "\<bar>lc_emergency_acc (lc_params s1) - mt_acc (lc_prev_raw_ctrl_cmd s1)\<bar> \<le>
      real (length xs) * (\<bar>lc_emergency_jerk (lc_params s1)\<bar> * (lc_ctrl_period (lc_params s1) / 2))"
    unfolding fr by (rule max_step [OF _ dt dist1(1)]) (use Cons.prems(5) q in \<open>simp_all add: add.commute\<close>)
  have vel: "\<bar>lc_emergency_vel (lc_params s1) - mt_vel (lc_prev_raw_ctrl_cmd s1)\<bar> \<le>
      real (length xs) * (\<bar>lc_emergency_acc (lc_params s1)\<bar> * (lc_ctrl_period (lc_params s1) / 2))"
    unfolding fr by (rule max_step [OF _ dt dist1(2)]) (use Cons.prems(6) q in \<open>simp_all add: add.commute\<close>)
  have far: "lc_all_far fl xs s1" using Cons.prems(3) run(1) by (simp add: x)
  show ?case
  proof (cases "xs = []")
    case True
    with acc vel fr have "mt_acc (lc_calcEmergencyCtrlCmd dt s) = lc_emergency_acc (lc_params s)"
      "mt_vel (lc_calcEmergencyCtrlCmd dt s) = lc_emergency_vel (lc_params s)" by simp_all
    with True run out show ?thesis by (simp add: x)
  next
    case False
    from Cons.IH [OF run(2) ok(2) far False acc vel] fr(1) run(1) show ?thesis by (auto simp: x)
  qed
qed simp

section \<open>A concrete controller\<close>

lemma lc_far_iff:
  assumes "lc_traj_ok (lc_trajectory (lc_setInput i s))"
    and "tu_findFirstNearestIndexWithSoftConstraints (lc_trajectory (lc_setInput i s)) (li_pose i)
      (lc_ego_nearest_dist_threshold (lc_params s)) (lc_ego_nearest_yaw_threshold (lc_params s)) = Inr k"
  shows "lc_far now i s \<longleftrightarrow>
    lc_emergency_state_traj_trans_dev (lc_params s) <
      calcDistance2d (tp_pose (lc_trajectory (lc_setInput i s) ! k)) (li_pose i) \<or>
    lc_emergency_state_traj_rot_dev (lc_params s) <
      \<bar>normalizeRadian (po_yaw (tp_pose (lc_trajectory (lc_setInput i s) ! k)) - po_yaw (li_pose i))\<bar>"
proof -
  let ?s = "lc_setInput i s"
  have "snd (lc_getDt now ?s) = ?s\<lparr> lc_prev_control_time := Some now \<rparr>" by (simp add: lc_getDt_def Let_def)
  then obtain dt where dt: "lc_getDt now ?s = (dt, ?s\<lparr> lc_prev_control_time := Some now \<rparr>)"
    by (metis prod.collapse)
  have pose: "lc_pose ?s = li_pose i" by (simp add: lc_setInput_def)
  from assms(1) have len: "2 \<le> length (lc_trajectory ?s)" by (simp add: lc_traj_ok_def)
  from lc_calcStopDistance_total [OF len, of "li_pose i" "lc_ego_nearest_dist_threshold (lc_params s)"
      "lc_ego_nearest_yaw_threshold (lc_params s)"] obtain sd where
    "lc_calcStopDistance (li_pose i) (lc_trajectory ?s) (lc_ego_nearest_dist_threshold (lc_params s))
      (lc_ego_nearest_yaw_threshold (lc_params s)) = Inr sd" ..
  then show ?thesis
    using assms(2) by (simp add: lc_far_def lc_getControlData_def dt Let_def pose frame_simps)
qed

definition lc_ex_param :: lc_param where
  "lc_ex_param = \<lparr> lc_ctrl_period = 1 / 2, lc_wheel_base = 3, lc_delay_compensation_time = 0,
     lc_enable_smooth_stop = True, lc_enable_overshoot_emergency = False,
     lc_enable_large_tracking_error_emergency = True, lc_enable_slope_compensation = False,
     lc_enable_keep_stopped_until_steer_convergence = True, lc_drive_state_stop_dist = 1,
     lc_drive_state_offset_stop_dist = 1, lc_stopping_state_stop_dist = 1,
     lc_stopped_state_entry_duration_time = 1, lc_stopped_state_entry_vel = 1, lc_stopped_state_entry_acc = 1,
     lc_emergency_state_overshoot_stop_dist = 1, lc_emergency_state_traj_trans_dev = 3,
     lc_emergency_state_traj_rot_dev = 1, lc_lpf_vel_error_gain = 0, lc_current_vel_threshold_pid_integrate = 1,
     lc_enable_brake_keeping_before_stop = False, lc_brake_keeping_acc = 0, lc_stopped_vel = 0,
     lc_stopped_acc = - 3, lc_stopped_jerk = - 5, lc_emergency_vel = 0, lc_emergency_acc = - 2,
     lc_emergency_jerk = - 10, lc_max_acc = 3, lc_min_acc = - 5, lc_max_jerk = 2, lc_min_jerk = - 5,
     lc_use_traj_for_pitch = True, lc_lpf_pitch_gain = 0, lc_max_pitch_rad = 1, lc_min_pitch_rad = - 1,
     lc_ego_nearest_dist_threshold = 200, lc_ego_nearest_yaw_threshold = 2 \<rparr>"

definition lc_ex_pose :: "real \<Rightarrow> real \<Rightarrow> pose" where
  "lc_ex_pose x y = \<lparr> pt_x = x, pt_y = y, pt_z = 0, po_pitch = 0, po_yaw = 0 \<rparr>"

definition lc_ex_points :: points where
  "lc_ex_points =
     [\<lparr> tp_pose = lc_ex_pose 0 0, tp_longitudinal_velocity_mps = 1, tp_acceleration_mps2 = 0 \<rparr>,
      \<lparr> tp_pose = lc_ex_pose 10 0, tp_longitudinal_velocity_mps = 1, tp_acceleration_mps2 = 0 \<rparr>]"

definition lc_ex_input :: "real \<Rightarrow> lc_input" where
  "lc_ex_input y = \<lparr> li_trajectory = map Some lc_ex_points, li_pose = lc_ex_pose 0 y, li_vel = 0, li_acc = 0,
     li_mode = OperationMode_AUTONOMOUS \<rparr>"

definition lc_ex_state :: "lc_control_state \<Rightarrow> lc_state" where
  "lc_ex_state x = lc_changeState x (lc_setTrajectory (map Some lc_ex_points)
     (lc_construct (\<lambda>_. 1) lc_ex_param 0 undefined undefined))"

lemma lc_ex_points_ok: "lc_traj_ok lc_ex_points" "lc_isValidTrajectory (map Some lc_ex_points)"
  "map (the \<circ> Some) lc_ex_points = lc_ex_points" "length lc_ex_points = 2"
  by (simp_all add: lc_traj_ok_def lc_isValidTrajectory_def lc_ex_points_def tu_apart_def calcDistance2d_def
      std_hypot_def lc_ex_pose_def)

lemma lc_ex_state_facts:
  "lc_params (lc_ex_state x) = lc_ex_param" "lc_control_state (lc_ex_state x) = x"
  "lc_trajectory (lc_setInput (lc_ex_input y) (lc_ex_state x)) = lc_ex_points" "lc_wf (lc_ex_state x)"
  "lc_input_ok (lc_ex_input y)" "lc_prev_raw_ctrl_cmd (lc_ex_state x) = \<lparr> mt_vel = 0, mt_acc = 0 \<rparr>"
  "lc_last_running_time (lc_ex_state x) = 0"
proof -
  show "lc_params (lc_ex_state x) = lc_ex_param" "lc_control_state (lc_ex_state x) = x"
    "lc_prev_raw_ctrl_cmd (lc_ex_state x) = \<lparr> mt_vel = 0, mt_acc = 0 \<rparr>" "lc_last_running_time (lc_ex_state x) = 0"
    by (simp_all add: lc_ex_state_def lc_setTrajectory_def lc_construct_def lc_changeState_def)
  show "lc_trajectory (lc_setInput (lc_ex_input y) (lc_ex_state x)) = lc_ex_points"
    using lc_ex_points_ok by (simp add: lc_setInput_def lc_setTrajectory_def lc_ex_input_def)
  show "lc_wf (lc_ex_state x)"
    using lc_ex_points_ok
    by (simp add: lc_wf_def lc_ex_state_def lc_setTrajectory_def lc_construct_def lp_ok_def lp_setLimits_def
        lp_setGains_def ss_setParams_def lc_ex_param_def)
  show "lc_input_ok (lc_ex_input y)"
    using lc_ex_points_ok by (simp add: lc_input_ok_def lc_ex_input_def lc_traj_ok_def)
qed

lemma lc_ex_nearest:
  "tu_findFirstNearestIndexWithSoftConstraints lc_ex_points (lc_ex_pose 0 y) 200 2 = Inr 0" if "\<bar>y\<bar> \<le> 100"
proof -
  have "y * y \<le> 100 * 100" using that by (metis abs_mult_self_eq abs_ge_zero mult_mono order_trans zero_le_numeral)
  then show ?thesis
    by (simp add: tu_findFirstNearestIndexWithSoftConstraints_def lc_ex_points_def lc_ex_pose_def tu_far_def
        tu_turned_def calcSquaredDistance2d_def calcYawDeviation_def normalizeRadian_def fmod_def Let_def not_less)
qed

lemma lc_ex_far: "lc_far now (lc_ex_input y) (lc_ex_state x) \<longleftrightarrow> 3 < \<bar>y\<bar>" if "\<bar>y\<bar> \<le> 100"
proof -
  have p: "li_pose (lc_ex_input y) = lc_ex_pose 0 y" "lc_ego_nearest_dist_threshold lc_ex_param = 200"
    "lc_ego_nearest_yaw_threshold lc_ex_param = 2" "lc_emergency_state_traj_trans_dev lc_ex_param = 3"
    "lc_emergency_state_traj_rot_dev lc_ex_param = 1"
    by (simp_all add: lc_ex_input_def lc_ex_param_def)
  have "lc_far now (lc_ex_input y) (lc_ex_state x) \<longleftrightarrow>
      3 < calcDistance2d (tp_pose (lc_ex_points ! 0)) (lc_ex_pose 0 y) \<or>
      1 < \<bar>normalizeRadian (po_yaw (tp_pose (lc_ex_points ! 0)) - po_yaw (lc_ex_pose 0 y))\<bar>"
    using lc_far_iff [of "lc_ex_input y" "lc_ex_state x" 0 now] lc_ex_nearest [OF that]
    unfolding lc_ex_state_facts p using lc_ex_points_ok(1) by simp
  then show ?thesis
    by (simp add: lc_ex_points_def lc_ex_pose_def calcDistance2d_def std_hypot_def normalizeRadian_def fmod_def Let_def)
qed

lemma lc_jerk_limited_witness:
  "\<exists>cmd s'. lc_run (\<lambda>x. x) 0 0 (lc_ex_input 0) (lc_ex_state LC_STOPPED) = Inr (cmd, s') \<and>
    mt_acc (lc_prev_ctrl_cmd s') \<le> 2"
proof -
  have p: "lc_min_jerk lc_ex_param = - 5" "lc_max_jerk lc_ex_param = 2" "lc_ctrl_period lc_ex_param = 1 / 2"
    by (simp_all add: lc_ex_param_def)
  have "mt_acc (lc_prev_ctrl_cmd (lc_ex_state LC_STOPPED)) = 0"
    by (simp add: lc_ex_state_def lc_setTrajectory_def lc_construct_def)
  with lc_jerk_limited [OF lc_ex_state_facts(4,5), of 0 0 LC_STOPPED "\<lambda>x. x" 0] show ?thesis
    using lc_ex_far [of 0 0 LC_STOPPED] by (auto simp: lc_ex_state_facts p split: if_splits)
qed

lemma lc_off_trajectory_brakes_witness:
  "\<exists>cmds s'. lc_runs (\<lambda>x. x) [(0, 0, lc_ex_input 100)] (lc_ex_state LC_DRIVE) = Inr (cmds, s') \<and>
    lon_acceleration (last cmds) = - 2"
proof -
  have p: "lc_emergency_acc lc_ex_param = - 2" "lc_emergency_jerk lc_ex_param = - 10"
    "lc_emergency_vel lc_ex_param = 0" "lc_ctrl_period lc_ex_param = 1 / 2"
    by (simp_all add: lc_ex_param_def)
  obtain cmd s' where "lc_run (\<lambda>x. x) 0 0 (lc_ex_input 100) (lc_ex_state LC_DRIVE) = Inr (cmd, s')"
    using lc_run_total [OF lc_ex_state_facts(4,5)] by blast
  then have "lc_all_far (\<lambda>x. x) [(0, 0, lc_ex_input 100)] (lc_ex_state LC_DRIVE)"
    using lc_ex_far [of 100 0 LC_DRIVE] by simp
  then have "\<exists>cmds s'. lc_runs (\<lambda>x. x) [(0, 0, lc_ex_input 100)] (lc_ex_state LC_DRIVE) = Inr (cmds, s') \<and> cmds \<noteq> [] \<and>
      lon_acceleration (last cmds) = lc_emergency_acc (lc_params (lc_ex_state LC_DRIVE)) \<and>
      lon_speed (last cmds) = lc_emergency_vel (lc_params (lc_ex_state LC_DRIVE))"
    by (intro lc_off_trajectory_brakes [OF lc_ex_state_facts(4)])
      (simp_all add: lc_ex_state_facts p lc_inputs_ok_def)
  then show ?thesis by (auto simp: lc_ex_state_facts p simp del: lc_runs.simps)
qed

lemma lc_emergency_until_standstill_witness:
  "\<exists>ys now wall i zs s1 s2 cmd. [(10000000000, 0, lc_ex_input 0)] = ys @ (now, wall, i) # zs \<and>
    lc_run (\<lambda>x. x) now wall i s1 = Inr (cmd, s2) \<and> lc_control_state s2 = LC_STOPPED"
proof -
  let ?s = "lc_ex_state LC_EMERGENCY"
  let ?t = "10000000000 :: int"
  have p: "lc_stopped_state_entry_duration_time lc_ex_param = 1" "lc_enable_overshoot_emergency lc_ex_param = False"
    "lc_stopped_state_entry_vel lc_ex_param = 1" "lc_stopped_state_entry_acc lc_ex_param = 1"
    "li_vel (lc_ex_input 0) = 0" "li_acc (lc_ex_input 0) = 0"
    by (simp_all add: lc_ex_param_def lc_ex_input_def)
  have near: "\<not> lc_far ?t (lc_ex_input 0) ?s" using lc_ex_far [of 0 ?t LC_EMERGENCY] by simp
  obtain cmd s' cd s1 where
    r: "lc_run (\<lambda>x. x) ?t 0 (lc_ex_input 0) ?s = Inr (cmd, s')" "lc_same (lc_setInput (lc_ex_input 0) ?s) s1"
      "cd_vel cd = 0" "cd_acc cd = 0" "lc_control_state s' = lc_control_state (lc_updateControlState ?t 0 cd s1)"
    by (rule lc_run_near [OF lc_ex_state_facts(4,5) near, where fl = "\<lambda>x. x" and wall = 0]) (use p(5,6) that in simp)
  from r(2) have s1: "lc_params s1 = lc_ex_param" "lc_control_state s1 = LC_EMERGENCY" "lc_last_running_time s1 = 0"
    by (simp_all add: lc_same_def frame_simps lc_ex_state_facts)
  have "lc_note_running ?t cd s1 = s1" using r(3,4) by (simp add: lc_note_running_def s1 p)
  then have "lc_control_state s' = LC_STOPPED"
    unfolding r(5) lc_updateControlState_def Let_def
    by (simp add: lc_transit_def lc_flags_of_def lc_stopped_condition_def s1 p seconds_def Let_def)
  then have "lc_control_state s' \<noteq> LC_EMERGENCY" by simp
  moreover have "lc_runs (\<lambda>x. x) [(?t, 0, lc_ex_input 0)] ?s = Inr ([cmd], s')" using r(1) by simp
  moreover have "lc_inputs_ok [(?t, 0, lc_ex_input 0)]" by (simp add: lc_inputs_ok_def lc_ex_state_facts)
  moreover have "0 \<le> lc_stopped_state_entry_duration_time (lc_params ?s)" by (simp add: lc_ex_state_facts p)
  ultimately have "\<exists>ys now wall i zs cs s1 s2 cmd. [(?t, 0, lc_ex_input 0)] = ys @ (now, wall, i) # zs \<and>
    lc_runs (\<lambda>x. x) ys ?s = Inr (cs, s1) \<and> lc_control_state s1 = LC_EMERGENCY \<and>
    lc_run (\<lambda>x. x) now wall i s1 = Inr (cmd, s2) \<and> lc_control_state s2 = LC_STOPPED \<and> \<not> lc_far now i s1 \<and>
    \<bar>li_vel i\<bar> \<le> lc_stopped_state_entry_vel (lc_params ?s) \<and>
    \<bar>li_acc i\<bar> \<le> lc_stopped_state_entry_acc (lc_params ?s)"
    by (intro lc_emergency_until_standstill [OF lc_ex_state_facts(4) _ lc_ex_state_facts(2)])
  then show ?thesis by (elim exE conjE) (intro exI conjI)
qed

section \<open>Behaviour at the edges\<close>

text \<open>Before a trajectory of two points has been received \<open>run\<close> throws.\<close>

lemma lc_run_without_trajectory:
  assumes "0 < lc_ctrl_period (lc_params s)" and "lc_trajectory (lc_setInput i s) = []"
  shows "lc_run fl now wall i s = Inl (LC_Trajectory TU_Empty)"
proof -
  have "\<And>t. lc_trajectory (snd (lc_getDt now t)) = lc_trajectory t" by (simp add: lc_getDt_def Let_def)
  with assms show ?thesis
    by (simp add: lc_run_def lc_getControlData_def tu_findFirstNearestIndexWithSoftConstraints_def
        split_beta Let_def)
qed

text \<open>
  A vehicle that reverses is predicted to stand still while no command has been stored: the velocity
  keeps its sign in the sum that is then compared with zero.
\<close>

lemma lc_predicted_reverse_without_history:
  assumes "lc_ctrl_cmd_vec s = []" and "v \<le> - (1 / 10)" and "v + a * delay \<le> 0"
  shows "lc_predictedVelocityInTargetPoint now \<lparr> mt_vel = v, mt_acc = a \<rparr> delay s = 0"
  using assms by (simp add: lc_predictedVelocityInTargetPoint_def lc_no_sign_change_def Let_def)

text \<open>
  The time of the last movement is not updated off the trajectory (\<open>lc_run_far\<close>): whatever the velocity was
  there, a first period back on it with a slow vehicle counts the whole time since before as standing.
\<close>

text \<open>Setting the maximal acceleration or the departure offset at run time succeeds without effect.\<close>

lemma lc_set_max_acc_ignored:
  "lc_max_acc (lc_params (lc_paramCallback store [(''max_acc'', v)] s)) = lc_max_acc (lc_params s)"
  "lc_drive_state_offset_stop_dist (lc_params (lc_paramCallback store [(''drive_state_offset_stop_dist'', v)] s)) =
    lc_drive_state_offset_stop_dist (lc_params s)"
  by (simp_all add: lc_paramCallback_def Let_def)

end
