(* ===== verification/Trajectory_Follower.thy ===== *)
theory Trajectory_Follower
  imports Longitudinal_Safety
begin

text \<open>
  The controller node, control/trajectory_follower_node/src/controller_node.cpp: it collects the inputs,
  runs the lateral and the longitudinal controller in every control period, exchanges their
  synchronisation data and publishes both commands together. The lateral controller (model predictive
  control or pure pursuit) is a parameter with a state of its own: \<open>lat_ready\<close> is its \<open>isReady\<close> and
  \<open>lat_run\<close> its \<open>run\<close>, which gives a command and whether the steering has converged.
\<close>

datatype tf_lateral_mode = LatMode_INVALID | LatMode_MPC | LatMode_PURE_PURSUIT

datatype tf_longitudinal_mode = LonMode_INVALID | LonMode_PID

definition tf_getLateralControllerMode :: "string \<Rightarrow> tf_lateral_mode" where
  "tf_getLateralControllerMode controller_mode =
     (if controller_mode = ''mpc'' then LatMode_MPC
      else if controller_mode = ''pure_pursuit'' then LatMode_PURE_PURSUIT
      else LatMode_INVALID)"

definition tf_getLongitudinalControllerMode :: "string \<Rightarrow> tf_longitudinal_mode" where
  "tf_getLongitudinalControllerMode controller_mode =
     (if controller_mode = ''pid'' then LonMode_PID else LonMode_INVALID)"

record tf_odometry =
  od_pose :: pose
  od_vel :: real

record tf_input =
  ti_trajectory :: "trajectory_point option list"
  ti_odometry :: tf_odometry
  ti_steering :: real
  ti_accel :: real
  ti_operation_mode :: operation_mode_value

record 'l tf_state =
  tf_current_trajectory :: "trajectory_point option list option"
  tf_current_odometry :: "tf_odometry option"
  tf_current_steering :: "real option"
  tf_current_accel :: "real option"
  tf_current_operation_mode :: "operation_mode_value option"
  tf_timeout_thr_sec :: real
  tf_lateral :: 'l
  tf_longitudinal :: lc_state

datatype 'l tf_event =
  TF_Trajectory "trajectory_point option list"
| TF_Odometry tf_odometry
| TF_Steering real
| TF_Accel real
| TF_OperationMode operation_mode_value
| TF_Timer time time

definition tf_isTimeOut :: "time \<Rightarrow> longitudinal_command \<Rightarrow> lateral_command \<Rightarrow> 'l tf_state \<Rightarrow> bool" where
  "tf_isTimeOut now lon_out lat_out s =
     (if seconds (now - lat_stamp lat_out) > tf_timeout_thr_sec s then True
      else if seconds (now - lon_stamp lon_out) > tf_timeout_thr_sec s then True
      else False)"

definition tf_createInputData :: "'l tf_state \<Rightarrow> tf_input option" where
  "tf_createInputData s =
     (case tf_current_trajectory s of None \<Rightarrow> None | Some trajectory \<Rightarrow>
      (case tf_current_odometry s of None \<Rightarrow> None | Some odometry \<Rightarrow>
      (case tf_current_steering s of None \<Rightarrow> None | Some steering \<Rightarrow>
      (case tf_current_accel s of None \<Rightarrow> None | Some accel \<Rightarrow>
      (case tf_current_operation_mode s of None \<Rightarrow> None | Some mode \<Rightarrow>
         Some \<lparr> ti_trajectory = trajectory, ti_odometry = odometry, ti_steering = steering,
                ti_accel = accel, ti_operation_mode = mode \<rparr>)))))"

text \<open>What the longitudinal controller takes from the input data; it is always ready.\<close>

definition tf_longitudinal_input :: "tf_input \<Rightarrow> lc_input" where
  "tf_longitudinal_input d =
     \<lparr> li_trajectory = ti_trajectory d, li_pose = od_pose (ti_odometry d), li_vel = od_vel (ti_odometry d),
       li_acc = ti_accel d, li_mode = ti_operation_mode d \<rparr>"

definition tf_callbackTimerControl ::
  "(real \<Rightarrow> real) \<Rightarrow> (tf_input \<Rightarrow> 'l \<Rightarrow> bool \<times> 'l) \<Rightarrow> (tf_input \<Rightarrow> 'l \<Rightarrow> lateral_command \<times> bool \<times> 'l) \<Rightarrow>
   time \<Rightarrow> time \<Rightarrow> 'l tf_state \<Rightarrow> lc_error + control_command option \<times> 'l tf_state" where
  "tf_callbackTimerControl fl lat_ready lat_run now wall s =
     (case tf_createInputData s of
        None \<Rightarrow> Inr (None, s)
      | Some input_data \<Rightarrow>
          let (is_lat_ready, l1) = lat_ready input_data (tf_lateral s); s1 = s\<lparr> tf_lateral := l1 \<rparr>
          in if \<not> is_lat_ready then Inr (None, s1)
             else let (lat_out, is_steer_converged, l2) = lat_run input_data l1
               in err_bind (lc_run fl now wall (tf_longitudinal_input input_data) (tf_longitudinal s1))
                 (\<lambda>(lon_out, lc). let s2 = s1\<lparr> tf_lateral := l2,
                       tf_longitudinal := lc_sync is_steer_converged lc \<rparr>
                   in if tf_isTimeOut now lon_out lat_out s2 then Inr (None, s2)
                      else Inr (Some \<lparr> cc_stamp = now, cc_lateral = lat_out, cc_longitudinal = lon_out \<rparr>, s2)))"

definition tf_handle ::
  "(real \<Rightarrow> real) \<Rightarrow> (tf_input \<Rightarrow> 'l \<Rightarrow> bool \<times> 'l) \<Rightarrow> (tf_input \<Rightarrow> 'l \<Rightarrow> lateral_command \<times> bool \<times> 'l) \<Rightarrow>
   'l tf_event \<Rightarrow> 'l tf_state \<Rightarrow> lc_error + control_command option \<times> 'l tf_state" where
  "tf_handle fl lat_ready lat_run e s = (case e of
     TF_Trajectory m \<Rightarrow> Inr (None, s\<lparr> tf_current_trajectory := Some m \<rparr>)
   | TF_Odometry m \<Rightarrow> Inr (None, s\<lparr> tf_current_odometry := Some m \<rparr>)
   | TF_Steering m \<Rightarrow> Inr (None, s\<lparr> tf_current_steering := Some m \<rparr>)
   | TF_Accel m \<Rightarrow> Inr (None, s\<lparr> tf_current_accel := Some m \<rparr>)
   | TF_OperationMode m \<Rightarrow> Inr (None, s\<lparr> tf_current_operation_mode := Some m \<rparr>)
   | TF_Timer now wall \<Rightarrow> tf_callbackTimerControl fl lat_ready lat_run now wall s)"

section \<open>Published commands\<close>

lemma tf_createInputData_None:
  "tf_createInputData s = None \<longleftrightarrow> tf_current_trajectory s = None \<or> tf_current_odometry s = None \<or>
     tf_current_steering s = None \<or> tf_current_accel s = None \<or> tf_current_operation_mode s = None"
  by (simp add: tf_createInputData_def split: option.split)

text \<open>A command is published only when every input has arrived, and its lateral part is fresh.\<close>

lemma tf_publishes_fresh:
  assumes "tf_callbackTimerControl fl lat_ready lat_run now wall s = Inr (Some cmd, s')"
  shows "tf_createInputData s \<noteq> None \<and> seconds (now - lat_stamp (cc_lateral cmd)) \<le> tf_timeout_thr_sec s \<and>
    seconds (now - lon_stamp (cc_longitudinal cmd)) \<le> tf_timeout_thr_sec s"
  using assms by (auto simp: tf_callbackTimerControl_def tf_isTimeOut_def Let_def split: option.splits prod.splits if_splits)

text \<open>With the commands of a lateral controller that is ready every period publishes.\<close>

definition tf_lateral_ok ::
  "(tf_input \<Rightarrow> 'l \<Rightarrow> bool \<times> 'l) \<Rightarrow> (tf_input \<Rightarrow> 'l \<Rightarrow> lateral_command \<times> bool \<times> 'l) \<Rightarrow> time \<Rightarrow> bool" where
  "tf_lateral_ok lat_ready lat_run now \<longleftrightarrow>
     (\<forall>d l. fst (lat_ready d l) \<and> lat_stamp (fst (lat_run d l)) = now)"

text \<open>What the timer does when it runs the controllers.\<close>

lemma tf_timer_runs:
  assumes "tf_createInputData s = Some d" and "fst (lat_ready d (tf_lateral s))"
  shows "\<exists>lat_out conv l2. lat_run d (snd (lat_ready d (tf_lateral s))) = (lat_out, conv, l2) \<and>
    tf_callbackTimerControl fl lat_ready lat_run now wall s =
      err_bind (lc_run fl now wall (tf_longitudinal_input d) (tf_longitudinal s)) (\<lambda>(lon_out, lc).
        let s2 = s\<lparr> tf_lateral := l2, tf_longitudinal := lc_sync conv lc \<rparr>
        in Inr (if tf_isTimeOut now lon_out lat_out s2 then None
                else Some \<lparr> cc_stamp = now, cc_lateral = lat_out, cc_longitudinal = lon_out \<rparr>, s2))"
proof -
  obtain l1 where l1: "lat_ready d (tf_lateral s) = (True, l1)" using assms(2) by (metis (full_types) prod.collapse)
  obtain lat_out conv l2 where "lat_run d l1 = (lat_out, conv, l2)" by (metis prod_cases3)
  with l1 assms(1) show ?thesis
    by (cases "lc_run fl now wall (tf_longitudinal_input d) (tf_longitudinal s)")
      (auto simp: tf_callbackTimerControl_def Let_def)
qed

lemma tf_timer_Inr:
  assumes "tf_createInputData s = Some d" and "fst (lat_ready d (tf_lateral s))"
    and "tf_callbackTimerControl fl lat_ready lat_run now wall s = Inr (out, s')"
  shows "\<exists>lon lc. lc_run fl now wall (tf_longitudinal_input d) (tf_longitudinal s) = Inr (lon, lc) \<and>
    tf_longitudinal s' = lc_sync (fst (snd (lat_run d (snd (lat_ready d (tf_lateral s)))))) lc"
proof -
  from tf_timer_runs [where s = s and d = d and lat_ready = lat_ready and lat_run = lat_run and fl = fl
      and now = now and wall = wall, OF assms(1,2)]
  obtain lat_out conv l2 where
    lr: "lat_run d (snd (lat_ready d (tf_lateral s))) = (lat_out, conv, l2)"
    and t: "tf_callbackTimerControl fl lat_ready lat_run now wall s =
      err_bind (lc_run fl now wall (tf_longitudinal_input d) (tf_longitudinal s)) (\<lambda>(lon_out, lc).
        let s2 = s\<lparr> tf_lateral := l2, tf_longitudinal := lc_sync conv lc \<rparr>
        in Inr (if tf_isTimeOut now lon_out lat_out s2 then None
                else Some \<lparr> cc_stamp = now, cc_lateral = lat_out, cc_longitudinal = lon_out \<rparr>, s2))" by blast
  show ?thesis using assms(3) unfolding t lr by (auto simp: Let_def)
qed

section \<open>Starting and steering\<close>

lemma lc_control_state_sync [simp]:
  "lc_control_state (lc_sync c s) = lc_control_state s" "lc_params (lc_sync c s) = lc_params s"
  "lc_is_steer_converged (lc_sync c s) = c" "lc_wf (lc_sync c s) = lc_wf s"
  by (simp_all add: lc_sync_def lc_wf_def)

lemma lc_stopped_keeps:
  assumes "lc_control_state s = LC_STOPPED" and "lc_enable_keep_stopped_until_steer_convergence (lc_params s)"
    and "\<not> lc_is_steer_converged s"
  shows "lc_control_state (lc_updateControlState now wall cd s) = LC_STOPPED"
  using assms by (simp add: lc_updateControlState_def lc_transit_def lc_flags_of_def Let_def)

lemma lc_run_keeps_stopped:
  assumes "lc_wf s" and "lc_input_ok i" and "lc_control_state s = LC_STOPPED"
    and "lc_enable_keep_stopped_until_steer_convergence (lc_params s)" and "\<not> lc_is_steer_converged s"
    and run: "lc_run fl now wall i s = Inr (cmd, s')"
  shows "lc_control_state s' \<noteq> LC_DRIVE"
proof (cases "lc_far now i s")
  case True
  from lc_run_far [OF assms(1,2) True, of fl wall] assms(3) run show ?thesis by (auto split: if_splits)
next
  case False
  obtain cd s1 where
    same: "lc_same (lc_setInput i s) s1"
    and st: "lc_control_state s' = lc_control_state (lc_updateControlState now wall cd s1)"
    by (rule lc_run_near [OF assms(1,2) False, where fl = fl and wall = wall]) (use run that in simp)
  from same assms(3-5) have "lc_control_state s1 = LC_STOPPED" "lc_params s1 = lc_params s"
    "lc_is_steer_converged s1 = lc_is_steer_converged s" by (simp_all add: lc_same_def frame_simps)
  with lc_stopped_keeps [of s1 now wall cd] st assms(4,5) show ?thesis by simp
qed

text \<open>The vehicle does not start before its steering has converged. When keeping the vehicle stopped until the steering converges is enabled and the longitudinal controller is in STOPPED, then after a control period in which the lateral controller ran and reported that the steering has not converged, the next control period, whatever input arrived in between, does not lead to DRIVE.\<close>

theorem tf_no_start_before_steer_convergence:
  assumes "tf_callbackTimerControl fl lat_ready lat_run now wall s = Inr (out, s')"
    and "tf_createInputData s = Some d" and "fst (lat_ready d (tf_lateral s))"
    and "\<not> fst (snd (lat_run d (snd (lat_ready d (tf_lateral s)))))"
    and "lc_wf (tf_longitudinal s')" and "lc_control_state (tf_longitudinal s') = LC_STOPPED"
    and "lc_enable_keep_stopped_until_steer_convergence (lc_params (tf_longitudinal s'))"
    and "tf_longitudinal s2 = tf_longitudinal s'"
    and "\<And>d2. tf_createInputData s2 = Some d2 \<Longrightarrow> lc_input_ok (tf_longitudinal_input d2)"
    and "tf_callbackTimerControl fl lat_ready lat_run now2 wall2 s2 = Inr (out2, s3)"
  shows "lc_control_state (tf_longitudinal s3) \<noteq> LC_DRIVE"
proof -
  have conv: "\<not> lc_is_steer_converged (tf_longitudinal s')"
    using tf_timer_Inr [where lat_ready = lat_ready, OF assms(2,3,1)] assms(4) by auto
  show ?thesis
  proof (cases "tf_createInputData s2")
    case None
    with assms(6,8,10) show ?thesis by (simp add: tf_callbackTimerControl_def)
  next
    case (Some d2)
    show ?thesis
    proof (cases "fst (lat_ready d2 (tf_lateral s2))")
      case False
      with Some assms(6,8,10) show ?thesis by (auto simp: tf_callbackTimerControl_def Let_def split: prod.splits)
    next
      case True
      from tf_timer_Inr [where lat_ready = lat_ready, OF Some True assms(10)] obtain lon lc c where
        run: "lc_run fl now2 wall2 (tf_longitudinal_input d2) (tf_longitudinal s2) = Inr (lon, lc)"
        and s3: "tf_longitudinal s3 = lc_sync c lc" by blast
      from lc_run_keeps_stopped [OF _ assms(9) [OF Some], of "tf_longitudinal s2" fl now2 wall2 lon lc] run
        assms(5-8) conv s3 show ?thesis by simp
    qed
  qed
qed

section \<open>A concrete node\<close>

text \<open>A lateral controller that is ready and never converges.\<close>

definition tf_ex_ready :: "tf_input \<Rightarrow> unit \<Rightarrow> bool \<times> unit" where
  "tf_ex_ready d l = (True, ())"

definition tf_ex_run :: "tf_input \<Rightarrow> unit \<Rightarrow> lateral_command \<times> bool \<times> unit" where
  "tf_ex_run d l = (\<lparr> lat_stamp = 0, lat_steering_tire_angle = 0, lat_steering_tire_rotation_rate = 0 \<rparr>, False, ())"

definition tf_ex_input :: tf_input where
  "tf_ex_input = \<lparr> ti_trajectory = map Some lc_ex_points, ti_odometry = \<lparr> od_pose = lc_ex_pose 0 0, od_vel = 0 \<rparr>,
     ti_steering = 1, ti_accel = 0, ti_operation_mode = OperationMode_AUTONOMOUS \<rparr>"

definition tf_ex_state :: "lc_state \<Rightarrow> unit tf_state" where
  "tf_ex_state lc = \<lparr> tf_current_trajectory = Some (ti_trajectory tf_ex_input),
     tf_current_odometry = Some (ti_odometry tf_ex_input), tf_current_steering = Some (ti_steering tf_ex_input),
     tf_current_accel = Some (ti_accel tf_ex_input), tf_current_operation_mode = Some (ti_operation_mode tf_ex_input),
     tf_timeout_thr_sec = 1 / 2, tf_lateral = (), tf_longitudinal = lc \<rparr>"

lemma tf_ex_facts:
  "tf_createInputData (tf_ex_state lc) = Some tf_ex_input" "tf_longitudinal_input tf_ex_input = lc_ex_input 0"
  "fst (tf_ex_ready d l)" "tf_longitudinal (tf_ex_state lc) = lc"
  by (simp_all add: tf_createInputData_def tf_ex_state_def tf_ex_input_def tf_longitudinal_input_def lc_ex_input_def
      tf_ex_ready_def)

lemma tf_ex_tick:
  assumes "lc_run fl now wall (lc_ex_input 0) lc = Inr (cmd, lc')"
  shows "\<exists>out s'. tf_callbackTimerControl fl tf_ex_ready tf_ex_run now wall (tf_ex_state lc) = Inr (out, s') \<and>
    tf_longitudinal s' = lc_sync False lc'"
  using assms unfolding tf_callbackTimerControl_def tf_ex_facts tf_ex_ready_def tf_ex_run_def Let_def
  by (simp add: tf_ex_facts)

lemma lc_ex_stays_stopped:
  assumes "lc_run (\<lambda>x. x) 0 0 (lc_ex_input 0) (lc_ex_state LC_STOPPED) = Inr (cmd, s')"
  shows "lc_control_state s' = LC_STOPPED \<and> lc_wf s' \<and> lc_params s' = lc_ex_param"
proof -
  let ?s = "lc_ex_state LC_STOPPED"
  have near: "\<not> lc_far 0 (lc_ex_input 0) ?s" using lc_ex_far [of 0 0 LC_STOPPED] by simp
  obtain cd s1 where r: "lc_wf s'" "lc_params s' = lc_params ?s" "lc_same (lc_setInput (lc_ex_input 0) ?s) s1"
    "lc_control_state s' = lc_control_state (lc_updateControlState 0 0 cd s1)"
    by (rule lc_run_near [OF lc_ex_state_facts(4,5) near, where fl = "\<lambda>x. x" and wall = 0]) (use assms that in simp)
  have "lc_is_steer_converged ?s = False"
    by (simp add: lc_ex_state_def lc_setTrajectory_def lc_construct_def lc_changeState_def)
  with r(3) have "lc_control_state s1 = LC_STOPPED" "lc_params s1 = lc_ex_param" "\<not> lc_is_steer_converged s1"
    by (simp_all add: lc_same_def frame_simps lc_ex_state_facts)
  with lc_stopped_keeps [of s1 0 0 cd] r show ?thesis by (simp add: lc_ex_state_facts lc_ex_param_def)
qed

lemma tf_no_start_before_steer_convergence_witness:
  "\<exists>(s' :: unit tf_state) out2 s3. tf_callbackTimerControl (\<lambda>x. x) tf_ex_ready tf_ex_run 0 0 (tf_ex_state (tf_longitudinal s')) =
     Inr (out2, s3) \<and> lc_control_state (tf_longitudinal s3) \<noteq> LC_DRIVE"
proof -
  obtain cmd lc where run: "lc_run (\<lambda>x. x) 0 0 (lc_ex_input 0) (lc_ex_state LC_STOPPED) = Inr (cmd, lc)"
    using lc_run_total [OF lc_ex_state_facts(4,5)] by blast
  note st = lc_ex_stays_stopped [OF this]
  from tf_ex_tick [OF run] obtain out s' where
    1: "tf_callbackTimerControl (\<lambda>x. x) tf_ex_ready tf_ex_run 0 0 (tf_ex_state (lc_ex_state LC_STOPPED)) = Inr (out, s')"
      "tf_longitudinal s' = lc_sync False lc" by blast
  have wf: "lc_wf (tf_longitudinal s')" using 1(2) st by simp
  obtain cmd2 lc2 where "lc_run (\<lambda>x. x) 0 0 (lc_ex_input 0) (tf_longitudinal s') = Inr (cmd2, lc2)"
    using lc_run_total [OF wf lc_ex_state_facts(5)] by blast
  from tf_ex_tick [OF this] obtain out2 s3 where
    2: "tf_callbackTimerControl (\<lambda>x. x) tf_ex_ready tf_ex_run 0 0 (tf_ex_state (tf_longitudinal s')) = Inr (out2, s3)"
    by blast
  have "lc_control_state (tf_longitudinal s3) \<noteq> LC_DRIVE"
    using tf_no_start_before_steer_convergence [OF 1(1) tf_ex_facts(1,3) _ wf _ _ _ _ 2] 1(2) st
    by (simp add: tf_ex_facts tf_ex_run_def lc_ex_param_def lc_ex_state_facts)
  with 2 show ?thesis by blast
qed

end
