(* ===== verification/Planning_Validator.thy ===== *)
theory Planning_Validator
  imports Trajectory_Utils AW_Msgs
begin

text \<open>
  planning/planning_validator: the check of every planned trajectory before it is published. A point of a
  received trajectory is \<open>None\<close> when one of the checked fields is NaN or infinite. Such a trajectory is
  never valid; the other entries of its status depend on comparisons with NaN and are a parameter
  \<open>havoc\<close> of the model, which may also be none: whether the computation of the metrics returns on such input at all is left open. Debug markers and terminal output are left out.
\<close>

type_synonym pv_trajectory = "trajectory_point option list"

record pv_params =
  pv_interval_threshold :: real
  pv_relative_angle_threshold :: real
  pv_curvature_threshold :: real
  pv_lateral_acc_threshold :: real
  pv_longitudinal_max_acc_threshold :: real
  pv_longitudinal_min_acc_threshold :: real
  pv_steering_threshold :: real
  pv_steering_rate_threshold :: real
  pv_velocity_deviation_threshold :: real
  pv_distance_deviation_threshold :: real
  pv_wheel_base :: real
  pv_diag_error_count_threshold :: int

record pv_status =
  ps_stamp :: time
  ps_is_valid_finite_value :: bool
  ps_is_valid_interval :: bool
  ps_is_valid_relative_angle :: bool
  ps_is_valid_curvature :: bool
  ps_is_valid_lateral_acc :: bool
  ps_is_valid_longitudinal_max_acc :: bool
  ps_is_valid_longitudinal_min_acc :: bool
  ps_is_valid_steering :: bool
  ps_is_valid_steering_rate :: bool
  ps_is_valid_velocity_deviation :: bool
  ps_is_valid_distance_deviation :: bool
  ps_max_interval_distance :: real
  ps_max_relative_angle :: real
  ps_max_curvature :: real
  ps_max_lateral_acc :: real
  ps_max_longitudinal_acc :: real
  ps_min_longitudinal_acc :: real
  ps_max_steering :: real
  ps_max_steering_rate :: real
  ps_velocity_deviation :: real
  ps_distance_deviation :: real
  ps_invalid_count :: int

datatype pv_handling = PUBLISH_AS_IT_IS | STOP_PUBLISHING | USE_PREVIOUS_RESULT

definition pv_handling_of :: "int \<Rightarrow> pv_handling option" where
  "pv_handling_of t =
     (if t = 0 then Some PUBLISH_AS_IT_IS
      else if t = 1 then Some STOP_PUBLISHING
      else if t = 2 then Some USE_PREVIOUS_RESULT
      else None)"

record pv_kinematics =
  kn_pose :: pose
  kn_vel :: real

record pv_state =
  pv_param :: pv_params
  pv_invalid_trajectory_handling_type :: pv_handling
  pv_publish_diag :: bool
  pv_validation_status :: pv_status
  pv_current_trajectory :: "pv_trajectory option"
  pv_previous_published_trajectory :: "pv_trajectory option"
  pv_current_kinematics :: "pv_kinematics option"

section \<open>Maxima with their indices\<close>

definition pv_takeBigger :: "real \<Rightarrow> nat \<Rightarrow> real \<times> nat \<Rightarrow> real \<times> nat" where
  "pv_takeBigger v i m = (if fst m < v then (v, i) else m)"

definition pv_takeSmaller :: "real \<Rightarrow> nat \<Rightarrow> real \<times> nat \<Rightarrow> real \<times> nat" where
  "pv_takeSmaller v i m = (if fst m > v then (v, i) else m)"

text \<open>\<open>std::max_element\<close> by absolute value; dereferencing the end of an empty vector is undefined.\<close>

definition pv_getAbsMaxValAndIdx :: "real list \<Rightarrow> (real \<times> nat) option" where
  "pv_getAbsMaxValAndIdx v =
     (if v = [] then None
      else let (x, i) = fold (\<lambda>i (m, k). if \<bar>m\<bar> < \<bar>v ! i\<bar> then (v ! i, i) else (m, k)) [1..<length v] (v ! 0, 0)
        in Some (\<bar>x\<bar>, i))"

section \<open>Metrics of a trajectory\<close>

fun pv_resample_from :: "trajectory_point \<Rightarrow> points \<Rightarrow> real \<Rightarrow> points" where
  "pv_resample_from prev [] min_interval = []"
| "pv_resample_from prev (p # ps) min_interval =
     (if calcDistance2d (tp_pose prev) (tp_pose p) > min_interval
      then p # pv_resample_from p ps min_interval
      else pv_resample_from prev ps min_interval)"

definition pv_resampleTrajectory :: "points \<Rightarrow> real \<Rightarrow> points" where
  "pv_resampleTrajectory traj min_interval =
     (case traj of [] \<Rightarrow> [] | p # ps \<Rightarrow> p # pv_resample_from p ps min_interval)"

text \<open>The curvature at a point, zero when the points are too close together.\<close>

definition pv_curvature_at :: "points \<Rightarrow> nat \<Rightarrow> real" where
  "pv_curvature_at traj i =
     (case calcCurvature (tp_pose (traj ! (i - 1))) (tp_pose (traj ! i)) (tp_pose (traj ! (i + 1))) of
        Inl e \<Rightarrow> 0 | Inr k \<Rightarrow> k)"

definition pv_calcCurvature :: "points \<Rightarrow> real list" where
  "pv_calcCurvature traj =
     (if length traj < 3 then replicate (length traj) 0
      else 0 # map (pv_curvature_at traj) [1..<length traj - 1] @ [0])"

definition pv_calcMaxCurvature :: "points \<Rightarrow> real \<times> nat" where
  "pv_calcMaxCurvature traj =
     (if length traj < 3 then (0, 0)
      else fold (\<lambda>i m.
          case calcCurvature (tp_pose (traj ! (i - 1))) (tp_pose (traj ! i)) (tp_pose (traj ! (i + 1))) of
            Inr k \<Rightarrow> pv_takeBigger \<bar>k\<bar> i m | Inl e \<Rightarrow> m) [1..<length traj - 1] (0, 0))"

definition pv_calcMaxIntervalDistance :: "points \<Rightarrow> real \<times> nat" where
  "pv_calcMaxIntervalDistance traj =
     (if length traj < 2 then (0, 0)
      else fold (\<lambda>i m. let d = calcDistance2d (tp_pose (traj ! i)) (tp_pose (traj ! (i - 1)))
          in if fst m < \<bar>d\<bar> then pv_takeBigger \<bar>d\<bar> i m else m) [1..<length traj] (0, 0))"

definition pv_calcMaxLateralAcceleration :: "points \<Rightarrow> real \<times> nat" where
  "pv_calcMaxLateralAcceleration traj =
     (let curvatures = pv_calcCurvature traj
      in fold (\<lambda>i m. let v = tp_longitudinal_velocity_mps (traj ! i); lat_acc = v * v * curvatures ! i
          in pv_takeBigger \<bar>lat_acc\<bar> i m) [0..<length curvatures] (0, 0))"

definition pv_getMaxLongitudinalAcc :: "points \<Rightarrow> real \<times> nat" where
  "pv_getMaxLongitudinalAcc traj =
     fold (\<lambda>i. pv_takeBigger (tp_acceleration_mps2 (traj ! i)) i) [0..<length traj] (0, 0)"

definition pv_getMinLongitudinalAcc :: "points \<Rightarrow> real \<times> nat" where
  "pv_getMinLongitudinalAcc traj =
     fold (\<lambda>i. pv_takeSmaller (tp_acceleration_mps2 (traj ! i)) i) [0..<length traj] (0, 0)"

definition pv_relative_angle :: "points \<Rightarrow> nat \<Rightarrow> real" where
  "pv_relative_angle traj i =
     (let p1 = tp_pose (traj ! i); p2 = tp_pose (traj ! (i + 1)); p3 = tp_pose (traj ! (i + 2))
      in \<bar>normalizeRadian (calcAzimuthAngle p2 p3 - calcAzimuthAngle p1 p2)\<bar>)"

definition pv_calcMaxRelativeAngles :: "points \<Rightarrow> real \<times> nat" where
  "pv_calcMaxRelativeAngles traj =
     (if length traj < 3 then (0, 0)
      else fold (\<lambda>i. pv_takeBigger \<bar>pv_relative_angle traj i\<bar> i) [0..<length traj - 3 + 1] (0, 0))"

definition pv_calcSteeringAngles :: "points \<Rightarrow> real \<Rightarrow> real list" where
  "pv_calcSteeringAngles traj wheelbase = map (\<lambda>k. arctan (k * wheelbase)) (pv_calcCurvature traj)"

definition pv_calcMaxSteeringAngles :: "points \<Rightarrow> real \<Rightarrow> (real \<times> nat) option" where
  "pv_calcMaxSteeringAngles traj wheelbase = pv_getAbsMaxValAndIdx (pv_calcSteeringAngles traj wheelbase)"

text \<open>Neighbours of the resampled trajectory are never at the same place, so \<open>dt\<close> is not zero.\<close>

definition pv_steer_rate :: "points \<Rightarrow> real list \<Rightarrow> nat \<Rightarrow> real" where
  "pv_steer_rate traj steerings i =
     (let p_prev = traj ! i; p_next = traj ! (i + 1);
          delta_s = calcDistance2d (tp_pose p_prev) (tp_pose p_next);
          v = 1 / 2 * (tp_longitudinal_velocity_mps p_next + tp_longitudinal_velocity_mps p_prev);
          dt = delta_s / max v (1 / 10 ^ 5)
      in (steerings ! (i + 1) - steerings ! i) / dt)"

definition pv_calcMaxSteeringRates :: "points \<Rightarrow> real \<Rightarrow> real \<times> nat" where
  "pv_calcMaxSteeringRates traj wheelbase =
     (if length traj < 1 then (0, 0)
      else let steerings = pv_calcSteeringAngles traj wheelbase
        in fold (\<lambda>i. pv_takeBigger (pv_steer_rate traj steerings i) i) [0..<length traj - 1] (0, 0))"

text \<open>The nearest point without thresholds: their squares are infinite.\<close>

definition pv_nearest :: "points \<Rightarrow> pose \<Rightarrow> nat" where
  "pv_nearest traj pose =
     (case tu_first_loop (\<lambda>p. False) pose 0 traj None of
        Some i \<Rightarrow> i
      | None \<Rightarrow> (case tu_findNearestIndex traj pose of Inr i \<Rightarrow> i | Inl e \<Rightarrow> 0))"

section \<open>Validation\<close>

definition pv_isAllValid :: "pv_status \<Rightarrow> bool" where
  "pv_isAllValid s \<longleftrightarrow>
     ps_is_valid_finite_value s \<and> ps_is_valid_interval s \<and> ps_is_valid_relative_angle s \<and>
     ps_is_valid_curvature s \<and> ps_is_valid_lateral_acc s \<and> ps_is_valid_longitudinal_max_acc s \<and>
     ps_is_valid_longitudinal_min_acc s \<and> ps_is_valid_steering s \<and> ps_is_valid_steering_rate s \<and>
     ps_is_valid_velocity_deviation s \<and> ps_is_valid_distance_deviation s"

definition pv_checkValidFiniteValue :: "pv_trajectory \<Rightarrow> bool" where
  "pv_checkValidFiniteValue traj \<longleftrightarrow> (\<forall>p \<in> set traj. p \<noteq> None)"

definition pv_checkValidInterval :: "pv_params \<Rightarrow> points \<Rightarrow> pv_status \<Rightarrow> pv_status" where
  "pv_checkValidInterval p traj s =
     (let d = fst (pv_calcMaxIntervalDistance traj)
      in s\<lparr> ps_max_interval_distance := d, ps_is_valid_interval := \<not> d > pv_interval_threshold p \<rparr>)"

definition pv_checkValidRelativeAngle :: "pv_params \<Rightarrow> points \<Rightarrow> pv_status \<Rightarrow> pv_status" where
  "pv_checkValidRelativeAngle p traj s =
     (let d = fst (pv_calcMaxRelativeAngles traj)
      in s\<lparr> ps_max_relative_angle := d, ps_is_valid_relative_angle := \<not> d > pv_relative_angle_threshold p \<rparr>)"

definition pv_checkValidCurvature :: "pv_params \<Rightarrow> points \<Rightarrow> pv_status \<Rightarrow> pv_status" where
  "pv_checkValidCurvature p traj s =
     (let d = fst (pv_calcMaxCurvature traj)
      in s\<lparr> ps_max_curvature := d, ps_is_valid_curvature := \<not> d > pv_curvature_threshold p \<rparr>)"

definition pv_checkValidLateralAcceleration :: "pv_params \<Rightarrow> points \<Rightarrow> pv_status \<Rightarrow> pv_status" where
  "pv_checkValidLateralAcceleration p traj s =
     (let d = fst (pv_calcMaxLateralAcceleration traj)
      in s\<lparr> ps_max_lateral_acc := d, ps_is_valid_lateral_acc := \<not> d > pv_lateral_acc_threshold p \<rparr>)"

definition pv_checkValidMinLongitudinalAcceleration :: "pv_params \<Rightarrow> points \<Rightarrow> pv_status \<Rightarrow> pv_status" where
  "pv_checkValidMinLongitudinalAcceleration p traj s =
     (let d = fst (pv_getMinLongitudinalAcc traj)
      in s\<lparr> ps_min_longitudinal_acc := d,
            ps_is_valid_longitudinal_min_acc := \<not> d < pv_longitudinal_min_acc_threshold p \<rparr>)"

definition pv_checkValidMaxLongitudinalAcceleration :: "pv_params \<Rightarrow> points \<Rightarrow> pv_status \<Rightarrow> pv_status" where
  "pv_checkValidMaxLongitudinalAcceleration p traj s =
     (let d = fst (pv_getMaxLongitudinalAcc traj)
      in s\<lparr> ps_max_longitudinal_acc := d,
            ps_is_valid_longitudinal_max_acc := \<not> d > pv_longitudinal_max_acc_threshold p \<rparr>)"

text \<open>The resampled trajectory has a point, so that there is a steering angle.\<close>

definition pv_checkValidSteering :: "pv_params \<Rightarrow> points \<Rightarrow> pv_status \<Rightarrow> pv_status option" where
  "pv_checkValidSteering p traj s =
     (case pv_calcMaxSteeringAngles traj (pv_wheel_base p) of
        None \<Rightarrow> None
      | Some (d, i) \<Rightarrow> Some (s\<lparr> ps_max_steering := d, ps_is_valid_steering := \<not> d > pv_steering_threshold p \<rparr>))"

definition pv_checkValidSteeringRate :: "pv_params \<Rightarrow> points \<Rightarrow> pv_status \<Rightarrow> pv_status" where
  "pv_checkValidSteeringRate p traj s =
     (let d = fst (pv_calcMaxSteeringRates traj (pv_wheel_base p))
      in s\<lparr> ps_max_steering_rate := d, ps_is_valid_steering_rate := \<not> d > pv_steering_rate_threshold p \<rparr>)"

definition pv_checkValidVelocityDeviation ::
  "pv_params \<Rightarrow> pv_kinematics \<Rightarrow> points \<Rightarrow> pv_status \<Rightarrow> pv_status" where
  "pv_checkValidVelocityDeviation p kin traj s =
     (let d = \<bar>tp_longitudinal_velocity_mps (traj ! pv_nearest traj (kn_pose kin)) - kn_vel kin\<bar>
      in s\<lparr> ps_velocity_deviation := d,
            ps_is_valid_velocity_deviation := \<not> d > pv_velocity_deviation_threshold p \<rparr>)"

definition pv_checkValidDistanceDeviation ::
  "pv_params \<Rightarrow> pv_kinematics \<Rightarrow> points \<Rightarrow> pv_status \<Rightarrow> pv_status" where
  "pv_checkValidDistanceDeviation p kin traj s =
     (let d = calcDistance2d (tp_pose (traj ! pv_nearest traj (kn_pose kin))) (kn_pose kin)
      in s\<lparr> ps_distance_deviation := d,
            ps_is_valid_distance_deviation := \<not> d > pv_distance_deviation_threshold p \<rparr>)"

text \<open>All checks of a trajectory without NaN and infinities.\<close>

definition pv_check_all :: "pv_params \<Rightarrow> pv_kinematics \<Rightarrow> points \<Rightarrow> pv_status \<Rightarrow> pv_status option" where
  "pv_check_all p kin traj s0 =
     (let s1 = pv_checkValidInterval p traj (s0\<lparr> ps_is_valid_finite_value := True \<rparr>);
          s2 = pv_checkValidLateralAcceleration p traj s1;
          s3 = pv_checkValidMaxLongitudinalAcceleration p traj s2;
          s4 = pv_checkValidMinLongitudinalAcceleration p traj s3;
          s5 = pv_checkValidVelocityDeviation p kin traj s4;
          s6 = pv_checkValidDistanceDeviation p kin traj s5;
          resampled = pv_resampleTrajectory traj 1;
          s7 = pv_checkValidRelativeAngle p resampled s6;
          s8 = pv_checkValidCurvature p resampled s7
      in case pv_checkValidSteering p resampled s8 of
           None \<Rightarrow> None
         | Some s9 \<Rightarrow> Some (pv_checkValidSteeringRate p resampled s9))"

definition pv_validate ::
  "(pv_trajectory \<Rightarrow> pv_status option) \<Rightarrow> pv_params \<Rightarrow> pv_kinematics \<Rightarrow> pv_trajectory \<Rightarrow> pv_status \<Rightarrow> pv_status option" where
  "pv_validate havoc p kin traj s =
     (if length traj < 2 then Some s
      else case (if pv_checkValidFiniteValue traj then pv_check_all p kin (map the traj) s
                 else map_option (\<lambda>st. st\<lparr> ps_is_valid_finite_value := False \<rparr>) (havoc traj)) of
          None \<Rightarrow> None
        | Some s1 \<Rightarrow> Some (s1\<lparr> ps_invalid_count := (if pv_isAllValid s1 then 0 else ps_invalid_count s + 1) \<rparr>))"

section \<open>The node\<close>

definition pv_setStatus :: "pv_params \<Rightarrow> pv_status \<Rightarrow> bool \<Rightarrow> diag_level" where
  "pv_setStatus p s is_ok =
     (if is_ok then DL_OK
      else if ps_invalid_count s < pv_diag_error_count_threshold p then DL_WARN
      else DL_ERROR)"

definition pv_diag :: "pv_params \<Rightarrow> pv_status \<Rightarrow> (string \<times> diag_level) list" where
  "pv_diag p s =
     [(''trajectory_validation_finite'', pv_setStatus p s (ps_is_valid_finite_value s)),
      (''trajectory_validation_interval'', pv_setStatus p s (ps_is_valid_interval s)),
      (''trajectory_validation_relative_angle'', pv_setStatus p s (ps_is_valid_relative_angle s)),
      (''trajectory_validation_curvature'', pv_setStatus p s (ps_is_valid_curvature s)),
      (''trajectory_validation_lateral_acceleration'', pv_setStatus p s (ps_is_valid_lateral_acc s)),
      (''trajectory_validation_acceleration'', pv_setStatus p s (ps_is_valid_longitudinal_max_acc s)),
      (''trajectory_validation_deceleration'', pv_setStatus p s (ps_is_valid_longitudinal_min_acc s)),
      (''trajectory_validation_steering'', pv_setStatus p s (ps_is_valid_steering s)),
      (''trajectory_validation_steering_rate'', pv_setStatus p s (ps_is_valid_steering_rate s)),
      (''trajectory_validation_velocity_deviation'', pv_setStatus p s (ps_is_valid_velocity_deviation s))]"

text \<open>The published trajectory and the state after the publication.\<close>

definition pv_publishTrajectory :: "pv_trajectory \<Rightarrow> pv_state \<Rightarrow> pv_trajectory option \<times> pv_state" where
  "pv_publishTrajectory current s =
     (if pv_isAllValid (pv_validation_status s)
      then (Some current, s\<lparr> pv_previous_published_trajectory := Some current \<rparr>)
      else case pv_invalid_trajectory_handling_type s of
             PUBLISH_AS_IT_IS \<Rightarrow> (Some current, s)
           | STOP_PUBLISHING \<Rightarrow> (None, s)
           | USE_PREVIOUS_RESULT \<Rightarrow> (pv_previous_published_trajectory s, s))"

record pv_out =
  po_trajectory :: "pv_trajectory option"
  po_diag :: "(string \<times> diag_level) list"
  po_status :: pv_status

datatype pv_event = PV_Kinematics pv_kinematics | PV_Trajectory time pv_trajectory

text \<open>The outputs of one callback, \<open>None\<close> where it has undefined behaviour.\<close>

definition pv_onTrajectory ::
  "(pv_trajectory \<Rightarrow> pv_status option) \<Rightarrow> time \<Rightarrow> pv_trajectory \<Rightarrow> pv_state \<Rightarrow> (pv_out option \<times> pv_state) option" where
  "pv_onTrajectory havoc now msg s0 =
     (let s = s0\<lparr> pv_current_trajectory := Some msg \<rparr>
      in case pv_current_kinematics s of
           None \<Rightarrow> Some (None, s)
         | Some kin \<Rightarrow> (case pv_validate havoc (pv_param s) kin msg (pv_validation_status s) of
               None \<Rightarrow> None
             | Some status \<Rightarrow>
                 let s1 = s\<lparr> pv_validation_status := status \<rparr>;
                     diag = (if pv_publish_diag s then pv_diag (pv_param s) status else []);
                     (published, s2) = pv_publishTrajectory msg s1;
                     stamped = status\<lparr> ps_stamp := now \<rparr>
                 in Some (Some \<lparr> po_trajectory = published, po_diag = diag, po_status = stamped \<rparr>,
                          s2\<lparr> pv_validation_status := stamped \<rparr>)))"

definition pv_handle ::
  "(pv_trajectory \<Rightarrow> pv_status option) \<Rightarrow> pv_event \<Rightarrow> pv_state \<Rightarrow> (pv_out option \<times> pv_state) option" where
  "pv_handle havoc e s = (case e of
     PV_Kinematics m \<Rightarrow> Some (None, s\<lparr> pv_current_kinematics := Some m \<rparr>)
   | PV_Trajectory now m \<Rightarrow> pv_onTrajectory havoc now m s)"

section \<open>The metrics bound every point\<close>

lemma pv_takeBigger_le [simp]: "fst (pv_takeBigger v i m) \<le> t \<longleftrightarrow> fst m \<le> t \<and> v \<le> t"
  by (auto simp: pv_takeBigger_def)

lemma pv_takeSmaller_ge [simp]: "t \<le> fst (pv_takeSmaller v i m) \<longleftrightarrow> t \<le> fst m \<and> t \<le> v"
  by (auto simp: pv_takeSmaller_def)

text \<open>A loop that keeps the maximum stays below a limit iff every step does.\<close>

lemma pv_fold_le:
  assumes "\<And>i m. i \<in> set is \<Longrightarrow> fst (g i m) \<le> t \<longleftrightarrow> fst m \<le> t \<and> f i \<le> t"
  shows "fst (fold g is m) \<le> t \<longleftrightarrow> fst m \<le> t \<and> (\<forall>i \<in> set is. f i \<le> t)"
  using assms by (induction "is" arbitrary: m) auto

lemma pv_fold_ge:
  assumes "\<And>i m. i \<in> set is \<Longrightarrow> t \<le> fst (g i m) \<longleftrightarrow> t \<le> fst m \<and> t \<le> f i"
  shows "t \<le> fst (fold g is m) \<longleftrightarrow> t \<le> fst m \<and> (\<forall>i \<in> set is. t \<le> f i)"
  using assms by (induction "is" arbitrary: m) auto

lemma pv_interval_le:
  assumes "2 \<le> length traj" and "0 \<le> t"
  shows "fst (pv_calcMaxIntervalDistance traj) \<le> t \<longleftrightarrow> (\<forall>i. i + 1 < length traj \<longrightarrow> tu_seg traj i \<le> t)"
proof -
  have "fst (pv_calcMaxIntervalDistance traj) \<le> t \<longleftrightarrow>
      (\<forall>i \<in> set [1..<length traj]. calcDistance2d (tp_pose (traj ! i)) (tp_pose (traj ! (i - 1))) \<le> t)"
    using assms unfolding pv_calcMaxIntervalDistance_def
    by (simp add: Let_def, subst pv_fold_le [where f = "\<lambda>i. calcDistance2d (tp_pose (traj ! i)) (tp_pose (traj ! (i - 1)))"])
      (auto simp: abs_of_nonneg)
  also have "\<dots> \<longleftrightarrow> (\<forall>i. i + 1 < length traj \<longrightarrow> tu_seg traj i \<le> t)"
  proof -
    have seg: "calcDistance2d (tp_pose (traj ! Suc i)) (tp_pose (traj ! i)) = tu_seg traj i" for i
      by (simp add: tu_seg_def calcDistance2d_def std_hypot_def power2_commute)
    have shift: "(\<forall>i \<in> set [1..<n]. P i (i - 1)) \<longleftrightarrow> (\<forall>i. i + 1 < n \<longrightarrow> P (Suc i) i)"
      for n and P :: "nat \<Rightarrow> nat \<Rightarrow> bool"
    proof
      assume l: "\<forall>i \<in> set [1..<n]. P i (i - 1)"
      show "\<forall>i. i + 1 < n \<longrightarrow> P (Suc i) i"
      proof (intro allI impI)
        fix i assume "i + 1 < n"
        with l [rule_format, of "Suc i"] show "P (Suc i) i" by simp
      qed
    next
      assume r: "\<forall>i. i + 1 < n \<longrightarrow> P (Suc i) i"
      show "\<forall>i \<in> set [1..<n]. P i (i - 1)"
      proof
        fix i assume "i \<in> set [1..<n]"
        with r [rule_format, of "i - 1"] show "P i (i - 1)" by simp
      qed
    qed
    show ?thesis
      using shift [of "length traj" "\<lambda>i j. calcDistance2d (tp_pose (traj ! i)) (tp_pose (traj ! j)) \<le> t"] seg by simp
  qed
  finally show ?thesis .
qed

lemma pv_max_acc_le:
  assumes "0 \<le> t"
  shows "fst (pv_getMaxLongitudinalAcc traj) \<le> t \<longleftrightarrow> (\<forall>p \<in> set traj. tp_acceleration_mps2 p \<le> t)"
  unfolding pv_getMaxLongitudinalAcc_def
  by (subst pv_fold_le [where f = "\<lambda>i. tp_acceleration_mps2 (traj ! i)"]) (auto simp: assms in_set_conv_nth Ball_def)

lemma pv_min_acc_ge:
  assumes "t \<le> 0"
  shows "t \<le> fst (pv_getMinLongitudinalAcc traj) \<longleftrightarrow> (\<forall>p \<in> set traj. t \<le> tp_acceleration_mps2 p)"
  unfolding pv_getMinLongitudinalAcc_def
  by (subst pv_fold_ge [where f = "\<lambda>i. tp_acceleration_mps2 (traj ! i)"]) (auto simp: assms in_set_conv_nth Ball_def)

text \<open>The curvatures by index: zero at both ends.\<close>

lemma pv_calcCurvature_length [simp]: "length (pv_calcCurvature traj) = length traj"
  by (auto simp: pv_calcCurvature_def)

lemma pv_calcCurvature_nth:
  assumes "i < length traj"
  shows "pv_calcCurvature traj ! i = (if 0 < i \<and> i + 1 < length traj then pv_curvature_at traj i else 0)"
  using assms by (auto simp: pv_calcCurvature_def nth_Cons nth_append split: nat.split)

lemma pv_curvature_le:
  assumes "0 \<le> t"
  shows "fst (pv_calcMaxCurvature traj) \<le> t \<longleftrightarrow>
    (\<forall>i. 0 < i \<and> i + 1 < length traj \<longrightarrow> \<bar>pv_curvature_at traj i\<bar> \<le> t)"
proof (cases "length traj < 3")
  case False
  then show ?thesis
    unfolding pv_calcMaxCurvature_def
    by (simp, subst pv_fold_le [where f = "\<lambda>i. \<bar>pv_curvature_at traj i\<bar>"])
      (auto simp: assms pv_curvature_at_def split: sum.split)
qed (auto simp: pv_calcMaxCurvature_def assms)

lemma pv_lateral_acc_le:
  assumes "0 \<le> t"
  shows "fst (pv_calcMaxLateralAcceleration traj) \<le> t \<longleftrightarrow>
    (\<forall>i. 0 < i \<and> i + 1 < length traj \<longrightarrow>
      \<bar>(tp_longitudinal_velocity_mps (traj ! i))\<^sup>2 * pv_curvature_at traj i\<bar> \<le> t)"
proof -
  have "fst (pv_calcMaxLateralAcceleration traj) \<le> t \<longleftrightarrow> (\<forall>i \<in> set [0..<length traj].
      \<bar>tp_longitudinal_velocity_mps (traj ! i) * tp_longitudinal_velocity_mps (traj ! i) * pv_calcCurvature traj ! i\<bar> \<le> t)"
    unfolding pv_calcMaxLateralAcceleration_def Let_def
    by (subst pv_fold_le [where f = "\<lambda>i. \<bar>tp_longitudinal_velocity_mps (traj ! i) *
          tp_longitudinal_velocity_mps (traj ! i) * pv_calcCurvature traj ! i\<bar>"]) (auto simp: assms)
  then show ?thesis by (auto simp: pv_calcCurvature_nth power2_eq_square assms split: if_splits)
qed

lemma pv_relative_angle_le:
  assumes "0 \<le> t"
  shows "fst (pv_calcMaxRelativeAngles traj) \<le> t \<longleftrightarrow>
    (\<forall>i. i + 2 < length traj \<longrightarrow> pv_relative_angle traj i \<le> t)"
proof (cases "length traj < 3")
  case False
  then have "i < Suc (length traj - 3) \<longleftrightarrow> i + 2 < length traj" for i by auto
  moreover have "\<bar>pv_relative_angle traj i\<bar> = pv_relative_angle traj i" for i
    by (simp add: pv_relative_angle_def Let_def)
  moreover from False have "fst (pv_calcMaxRelativeAngles traj) \<le> t \<longleftrightarrow>
      (\<forall>i \<in> set [0..<Suc (length traj - 3)]. \<bar>pv_relative_angle traj i\<bar> \<le> t)"
    unfolding pv_calcMaxRelativeAngles_def
    by (simp del: upt_Suc, subst pv_fold_le [where f = "\<lambda>i. \<bar>pv_relative_angle traj i\<bar>"])
      (simp_all add: assms del: upt_Suc)
  ultimately show ?thesis by (simp add: Ball_def del: upt_Suc)
qed (auto simp: pv_calcMaxRelativeAngles_def assms)

lemma pv_steering_rate_le:
  assumes "0 \<le> t"
  shows "fst (pv_calcMaxSteeringRates traj w) \<le> t \<longleftrightarrow>
    (\<forall>i. i + 1 < length traj \<longrightarrow> pv_steer_rate traj (pv_calcSteeringAngles traj w) i \<le> t)"
proof (cases "length traj < 1")
  case False
  then show ?thesis
    unfolding pv_calcMaxSteeringRates_def
    by (simp add: Let_def, subst pv_fold_le [where f = "pv_steer_rate traj (pv_calcSteeringAngles traj w)"])
      (auto simp: assms)
qed (auto simp: pv_calcMaxSteeringRates_def assms)

lemma pv_absMax_le:
  assumes "v \<noteq> []"
  shows "\<exists>d i. pv_getAbsMaxValAndIdx v = Some (d, i) \<and> (d \<le> t \<longleftrightarrow> (\<forall>x \<in> set v. \<bar>x\<bar> \<le> t))"
proof -
  let ?g = "\<lambda>i (m, k). if \<bar>m\<bar> < \<bar>v ! i\<bar> then (v ! i, i) else (m, k :: nat)"
  have "\<bar>fst (fold ?g is m)\<bar> \<le> t \<longleftrightarrow> \<bar>fst m\<bar> \<le> t \<and> (\<forall>i \<in> set is. \<bar>v ! i\<bar> \<le> t)" for "is" m
    by (induction "is" arbitrary: m) (auto split: prod.splits)
  from this [of "[1..<length v]" "(v ! 0, 0)"]
  have "\<bar>fst (fold ?g [1..<length v] (v ! 0, 0))\<bar> \<le> t \<longleftrightarrow>
      \<bar>v ! 0\<bar> \<le> t \<and> (\<forall>i \<in> {1..<length v}. \<bar>v ! i\<bar> \<le> t)" by simp
  also have "\<dots> \<longleftrightarrow> (\<forall>i < length v. \<bar>v ! i\<bar> \<le> t)"
  proof -
    have all: "P 0 \<and> (\<forall>i \<in> {1..<n}. P i) \<longleftrightarrow> (\<forall>i < n. P i)" if "0 < n" for P and n :: nat
      using that by (auto simp: Ball_def Suc_le_eq) (metis gr0I)
    show ?thesis using assms by (intro all) simp
  qed
  also have "\<dots> \<longleftrightarrow> (\<forall>x \<in> set v. \<bar>x\<bar> \<le> t)" by (simp add: all_set_conv_all_nth)
  finally have max: "\<bar>fst (fold ?g [1..<length v] (v ! 0, 0))\<bar> \<le> t \<longleftrightarrow> (\<forall>x \<in> set v. \<bar>x\<bar> \<le> t)" .
  obtain x i where "fold ?g [1..<length v] (v ! 0, 0) = (x, i)" by fastforce
  with max assms show ?thesis by (simp add: pv_getAbsMaxValAndIdx_def)
qed

lemma pv_steering_le:
  assumes "traj \<noteq> []" and "0 \<le> t"
  shows "\<exists>d i. pv_calcMaxSteeringAngles traj w = Some (d, i) \<and>
    (d \<le> t \<longleftrightarrow> (\<forall>i. 0 < i \<and> i + 1 < length traj \<longrightarrow> \<bar>arctan (pv_curvature_at traj i * w)\<bar> \<le> t))"
proof -
  have len: "length (pv_calcSteeringAngles traj w) = length traj" by (simp add: pv_calcSteeringAngles_def)
  then have "pv_calcSteeringAngles traj w \<noteq> []" using assms(1) by auto
  from pv_absMax_le [OF this, of t] obtain d i where
    "pv_calcMaxSteeringAngles traj w = Some (d, i)"
    "d \<le> t \<longleftrightarrow> (\<forall>x \<in> set (pv_calcSteeringAngles traj w). \<bar>x\<bar> \<le> t)"
    by (auto simp: pv_calcMaxSteeringAngles_def)
  moreover have "(\<forall>x \<in> set (pv_calcSteeringAngles traj w). \<bar>x\<bar> \<le> t) \<longleftrightarrow>
      (\<forall>i < length traj. \<bar>arctan (pv_calcCurvature traj ! i * w)\<bar> \<le> t)"
    by (auto simp: pv_calcSteeringAngles_def all_set_conv_all_nth)
  ultimately show ?thesis using assms(2) by (auto simp: pv_calcCurvature_nth split: if_splits)
qed

section \<open>What a valid trajectory is\<close>

text \<open>Limits that accept a vehicle that goes straight on at constant speed.\<close>

definition pv_params_ok :: "pv_params \<Rightarrow> bool" where
  "pv_params_ok p \<longleftrightarrow> 0 \<le> pv_interval_threshold p \<and> 0 \<le> pv_relative_angle_threshold p \<and>
     0 \<le> pv_curvature_threshold p \<and> 0 \<le> pv_lateral_acc_threshold p \<and>
     0 \<le> pv_longitudinal_max_acc_threshold p \<and> pv_longitudinal_min_acc_threshold p \<le> 0 \<and>
     0 \<le> pv_steering_threshold p \<and> 0 \<le> pv_steering_rate_threshold p"

text \<open>The points themselves: distances, accelerations and lateral accelerations.\<close>

definition pv_points_ok :: "pv_params \<Rightarrow> points \<Rightarrow> bool" where
  "pv_points_ok p traj \<longleftrightarrow>
     (\<forall>i. i + 1 < length traj \<longrightarrow> tu_seg traj i \<le> pv_interval_threshold p) \<and>
     (\<forall>q \<in> set traj. pv_longitudinal_min_acc_threshold p \<le> tp_acceleration_mps2 q \<and>
        tp_acceleration_mps2 q \<le> pv_longitudinal_max_acc_threshold p) \<and>
     (\<forall>i. 0 < i \<and> i + 1 < length traj \<longrightarrow>
        \<bar>(tp_longitudinal_velocity_mps (traj ! i))\<^sup>2 * pv_curvature_at traj i\<bar> \<le> pv_lateral_acc_threshold p)"

text \<open>
  The steering angle at a point, straight on at both ends. Only a change to the left has to be slow enough for the
  mean speed, which counts as 1e-5 m/s at least; a change to the right is never too fast.
\<close>

definition pv_steering_at :: "pv_params \<Rightarrow> points \<Rightarrow> nat \<Rightarrow> real" where
  "pv_steering_at p r i =
     (if 0 < i \<and> i + 1 < length r then arctan (pv_curvature_at r i * pv_wheel_base p) else 0)"

definition pv_left_rate_ok :: "pv_params \<Rightarrow> points \<Rightarrow> nat \<Rightarrow> bool" where
  "pv_left_rate_ok p r i \<longleftrightarrow>
     (let change = pv_steering_at p r (i + 1) - pv_steering_at p r i;
          speed = (tp_longitudinal_velocity_mps (r ! i) + tp_longitudinal_velocity_mps (r ! (i + 1))) / 2
      in change \<le> 0 \<or>
         change * max speed (1 / 10 ^ 5) \<le>
           pv_steering_rate_threshold p * calcDistance2d (tp_pose (r ! i)) (tp_pose (r ! (i + 1))))"

text \<open>The shape, on points at least a metre apart.\<close>

definition pv_shape_ok :: "pv_params \<Rightarrow> points \<Rightarrow> bool" where
  "pv_shape_ok p r \<longleftrightarrow>
     (\<forall>i. i + 2 < length r \<longrightarrow> pv_relative_angle r i \<le> pv_relative_angle_threshold p) \<and>
     (\<forall>i. 0 < i \<and> i + 1 < length r \<longrightarrow> \<bar>pv_curvature_at r i\<bar> \<le> pv_curvature_threshold p \<and>
        \<bar>arctan (pv_curvature_at r i * pv_wheel_base p)\<bar> \<le> pv_steering_threshold p) \<and>
     (\<forall>i. i + 1 < length r \<longrightarrow> pv_left_rate_ok p r i)"

definition pv_near_ok :: "pv_params \<Rightarrow> pv_kinematics \<Rightarrow> points \<Rightarrow> bool" where
  "pv_near_ok p kin traj \<longleftrightarrow>
     (let q = traj ! pv_nearest traj (kn_pose kin)
      in \<bar>tp_longitudinal_velocity_mps q - kn_vel kin\<bar> \<le> pv_velocity_deviation_threshold p \<and>
         calcDistance2d (tp_pose q) (kn_pose kin) \<le> pv_distance_deviation_threshold p)"

definition pv_sound :: "pv_params \<Rightarrow> pv_trajectory \<Rightarrow> bool" where
  "pv_sound p traj \<longleftrightarrow> None \<notin> set traj \<and> pv_points_ok p (map the traj) \<and>
     pv_shape_ok p (pv_resampleTrajectory (map the traj) 1)"

lemmas pv_check_defs =
  pv_checkValidInterval_def pv_checkValidRelativeAngle_def pv_checkValidCurvature_def
  pv_checkValidLateralAcceleration_def pv_checkValidMinLongitudinalAcceleration_def
  pv_checkValidMaxLongitudinalAcceleration_def pv_checkValidSteeringRate_def
  pv_checkValidVelocityDeviation_def pv_checkValidDistanceDeviation_def

lemma pv_resample_ne: "traj \<noteq> [] \<Longrightarrow> pv_resampleTrajectory traj d \<noteq> []"
  by (cases traj) (simp_all add: pv_resampleTrajectory_def)

text \<open>Neighbours of the resampled trajectory are more than the interval apart.\<close>

lemma pv_resample_from_apart:
  "i + 1 < length (q # pv_resample_from q ps d) \<Longrightarrow>
     d < calcDistance2d (tp_pose ((q # pv_resample_from q ps d) ! i)) (tp_pose ((q # pv_resample_from q ps d) ! (i + 1)))"
proof (induction ps arbitrary: q i)
  case (Cons p ps)
  show ?case
  proof (cases "d < calcDistance2d (tp_pose q) (tp_pose p)")
    case True
    then show ?thesis using Cons.prems Cons.IH [of "i - 1" p] by (cases i) simp_all
  next
    case False
    then show ?thesis using Cons.prems Cons.IH [of i q] by simp
  qed
qed simp

lemma pv_resample_apart:
  "i + 1 < length (pv_resampleTrajectory traj d) \<Longrightarrow>
     d < calcDistance2d (tp_pose (pv_resampleTrajectory traj d ! i)) (tp_pose (pv_resampleTrajectory traj d ! (i + 1)))"
  using pv_resample_from_apart [of i "hd traj" "tl traj" d] by (cases traj) (simp_all add: pv_resampleTrajectory_def)

lemma pv_steering_at_nth:
  "i < length r \<Longrightarrow> pv_calcSteeringAngles r (pv_wheel_base p) ! i = pv_steering_at p r i"
  by (auto simp: pv_calcSteeringAngles_def pv_calcCurvature_nth pv_steering_at_def)

lemma pv_steer_rate_limit:
  assumes "0 \<le> pv_steering_rate_threshold p" and "i + 1 < length r"
    and "0 < calcDistance2d (tp_pose (r ! i)) (tp_pose (r ! (i + 1)))"
  shows "pv_steer_rate r (pv_calcSteeringAngles r (pv_wheel_base p)) i \<le> pv_steering_rate_threshold p \<longleftrightarrow>
    pv_left_rate_ok p r i"
proof -
  define change where "change = pv_steering_at p r (i + 1) - pv_steering_at p r i"
  define v where "v = max ((tp_longitudinal_velocity_mps (r ! i) + tp_longitudinal_velocity_mps (r ! (i + 1))) / 2) (1 / 10 ^ 5 :: real)"
  define ds where "ds = calcDistance2d (tp_pose (r ! i)) (tp_pose (r ! (i + 1)))"
  have rate: "pv_steer_rate r (pv_calcSteeringAngles r (pv_wheel_base p)) i = change * v / ds"
    using assms(2) by (simp add: pv_steer_rate_def Let_def pv_steering_at_nth change_def v_def ds_def add.commute)
  have "0 < v" by (simp add: v_def less_max_iff_disj)
  then have "change \<le> 0 \<Longrightarrow> change * v \<le> 0" by (simp add: mult_nonpos_nonneg)
  moreover have "0 \<le> pv_steering_rate_threshold p * ds" using assms(1,3) by (simp add: ds_def)
  ultimately have "change * v / ds \<le> pv_steering_rate_threshold p \<longleftrightarrow>
      change \<le> 0 \<or> change * v \<le> pv_steering_rate_threshold p * ds"
    using assms(3) by (auto simp: ds_def pos_divide_le_eq)
  then show ?thesis unfolding rate by (simp add: pv_left_rate_ok_def Let_def change_def v_def ds_def)
qed

text \<open>Every check on its own, and all of them together.\<close>

lemma pv_check_all_valid:
  assumes "2 \<le> length traj"
  shows "\<exists>s'. pv_check_all p kin traj s = Some s' \<and> ps_invalid_count s' = ps_invalid_count s \<and>
    (pv_isAllValid s' \<longleftrightarrow>
      fst (pv_calcMaxIntervalDistance traj) \<le> pv_interval_threshold p \<and>
      fst (pv_calcMaxRelativeAngles (pv_resampleTrajectory traj 1)) \<le> pv_relative_angle_threshold p \<and>
      fst (pv_calcMaxCurvature (pv_resampleTrajectory traj 1)) \<le> pv_curvature_threshold p \<and>
      fst (pv_calcMaxLateralAcceleration traj) \<le> pv_lateral_acc_threshold p \<and>
      fst (pv_getMaxLongitudinalAcc traj) \<le> pv_longitudinal_max_acc_threshold p \<and>
      pv_longitudinal_min_acc_threshold p \<le> fst (pv_getMinLongitudinalAcc traj) \<and>
      (\<exists>d i. pv_calcMaxSteeringAngles (pv_resampleTrajectory traj 1) (pv_wheel_base p) = Some (d, i) \<and>
         d \<le> pv_steering_threshold p) \<and>
      fst (pv_calcMaxSteeringRates (pv_resampleTrajectory traj 1) (pv_wheel_base p)) \<le> pv_steering_rate_threshold p \<and>
      pv_near_ok p kin traj)"
proof -
  from assms have "traj \<noteq> []" by auto
  from pv_resample_ne [OF this] have "length (pv_calcSteeringAngles (pv_resampleTrajectory traj 1) (pv_wheel_base p)) \<noteq> 0"
    by (simp add: pv_calcSteeringAngles_def)
  then have "pv_calcSteeringAngles (pv_resampleTrajectory traj 1) (pv_wheel_base p) \<noteq> []" by auto
  from pv_absMax_le [OF this] obtain d i where
    st: "pv_calcMaxSteeringAngles (pv_resampleTrajectory traj 1) (pv_wheel_base p) = Some (d, i)"
    unfolding pv_calcMaxSteeringAngles_def by blast
  show ?thesis
    unfolding pv_check_all_def pv_checkValidSteering_def st Let_def
    by (auto simp: pv_check_defs pv_isAllValid_def pv_near_ok_def Let_def not_less)
qed

lemma pv_validate_accepts:
  assumes "2 \<le> length traj" and "pv_params_ok p"
  shows "(None \<notin> set traj \<longrightarrow> pv_validate havoc p kin traj s \<noteq> None) \<and>
    (\<forall>s'. pv_validate havoc p kin traj s = Some s' \<longrightarrow>
      (pv_isAllValid s' \<longleftrightarrow> pv_sound p traj \<and> pv_near_ok p kin (map the traj)) \<and>
      ps_invalid_count s' = (if pv_sound p traj \<and> pv_near_ok p kin (map the traj) then 0 else ps_invalid_count s + 1))"
proof (cases "pv_checkValidFiniteValue traj")
  case True
  let ?t = "map the traj"
  let ?r = "pv_resampleTrajectory ?t 1"
  from assms(1) have len: "2 \<le> length ?t" and ne: "?t \<noteq> []" by auto
  from pv_check_all_valid [OF len, of p kin s] obtain s' where
    s': "pv_check_all p kin ?t s = Some s'" "ps_invalid_count s' = ps_invalid_count s"
    and valid: "pv_isAllValid s' \<longleftrightarrow>
      fst (pv_calcMaxIntervalDistance ?t) \<le> pv_interval_threshold p \<and>
      fst (pv_calcMaxRelativeAngles ?r) \<le> pv_relative_angle_threshold p \<and>
      fst (pv_calcMaxCurvature ?r) \<le> pv_curvature_threshold p \<and>
      fst (pv_calcMaxLateralAcceleration ?t) \<le> pv_lateral_acc_threshold p \<and>
      fst (pv_getMaxLongitudinalAcc ?t) \<le> pv_longitudinal_max_acc_threshold p \<and>
      pv_longitudinal_min_acc_threshold p \<le> fst (pv_getMinLongitudinalAcc ?t) \<and>
      (\<exists>d i. pv_calcMaxSteeringAngles ?r (pv_wheel_base p) = Some (d, i) \<and> d \<le> pv_steering_threshold p) \<and>
      fst (pv_calcMaxSteeringRates ?r (pv_wheel_base p)) \<le> pv_steering_rate_threshold p \<and>
      pv_near_ok p kin ?t" by blast
  have fin: "None \<notin> set traj" using True by (auto simp: pv_checkValidFiniteValue_def)
  from assms(2) have pos: "0 \<le> pv_interval_threshold p" "0 \<le> pv_relative_angle_threshold p"
    "0 \<le> pv_curvature_threshold p" "0 \<le> pv_lateral_acc_threshold p" "0 \<le> pv_longitudinal_max_acc_threshold p"
    "pv_longitudinal_min_acc_threshold p \<le> 0" "0 \<le> pv_steering_threshold p" "0 \<le> pv_steering_rate_threshold p"
    by (simp_all add: pv_params_ok_def)
  from pv_steering_le [OF pv_resample_ne [OF ne] pos(7), of 1 "pv_wheel_base p"] obtain d i where
    st: "pv_calcMaxSteeringAngles ?r (pv_wheel_base p) = Some (d, i)"
      "d \<le> pv_steering_threshold p \<longleftrightarrow> (\<forall>i. 0 < i \<and> i + 1 < length ?r \<longrightarrow>
        \<bar>arctan (pv_curvature_at ?r i * pv_wheel_base p)\<bar> \<le> pv_steering_threshold p)" by blast
  have steer: "(\<exists>d i. pv_calcMaxSteeringAngles ?r (pv_wheel_base p) = Some (d, i) \<and> d \<le> pv_steering_threshold p) \<longleftrightarrow>
      (\<forall>i. 0 < i \<and> i + 1 < length ?r \<longrightarrow> \<bar>arctan (pv_curvature_at ?r i * pv_wheel_base p)\<bar> \<le> pv_steering_threshold p)"
    using st by simp
  have "pv_steer_rate ?r (pv_calcSteeringAngles ?r (pv_wheel_base p)) i \<le> pv_steering_rate_threshold p \<longleftrightarrow> pv_left_rate_ok p ?r i"
    if "i + 1 < length ?r" for i
    using pv_resample_apart [OF that] by (intro pv_steer_rate_limit [OF pos(8) that]) simp
  then have rates: "(\<forall>i. i + 1 < length ?r \<longrightarrow>
        pv_steer_rate ?r (pv_calcSteeringAngles ?r (pv_wheel_base p)) i \<le> pv_steering_rate_threshold p) \<longleftrightarrow>
      (\<forall>i. i + 1 < length ?r \<longrightarrow> pv_left_rate_ok p ?r i)" by blast
  have all: "pv_isAllValid s' \<longleftrightarrow> pv_sound p traj \<and> pv_near_ok p kin ?t"
    unfolding valid steer pv_interval_le [OF len pos(1)] pv_relative_angle_le [OF pos(2)]
      pv_curvature_le [OF pos(3)] pv_lateral_acc_le [OF pos(4)] pv_max_acc_le [OF pos(5)]
      pv_min_acc_ge [OF pos(6)] pv_steering_rate_le [OF pos(8)] rates
      pv_sound_def pv_points_ok_def pv_shape_ok_def
    using fin by blast
  have "pv_isAllValid (s'\<lparr>ps_invalid_count := n\<rparr>) = pv_isAllValid s'" for n by (simp add: pv_isAllValid_def)
  then show ?thesis using assms(1) True s' all by (simp add: pv_validate_def)
next
  case False
  then have "None \<in> set traj" by (auto simp: pv_checkValidFiniteValue_def)
  then show ?thesis
    using assms(1) False by (cases "havoc traj") (auto simp: pv_validate_def pv_sound_def pv_isAllValid_def)
qed

text \<open>C36: What the validator accepts. Assume at least two points and thresholds of the right sign (pv_params_ok). If all
  fields are finite, validate returns a status. Whenever it returns one (with NaN or infinities it is left open whether
  it does, and what the other entries are), it is all valid if and only if: all fields are finite; neighbouring points
  are no farther apart than the threshold; accelerations and lateral accelerations v^2 k are within theirs; on the
  points resampled over a metre apart no relative angle, curvature or steering angle is above its own; no steering
  change to the LEFT is faster than the rate threshold, the mean speed counted as at least 1e-5 m/s; and speed and
  position at the nearest point are within their thresholds of the vehicle's. This is what the code checks and not what
  its README promises: changes to the right pass at any rate, and reverse driving is checked at 1e-5 m/s. The count of
  invalid trajectories is reset or incremented accordingly.\<close>

theorem pv_validate_iff:
  assumes "2 \<le> length traj" and "pv_params_ok p"
  shows "(None \<notin> set traj \<longrightarrow> pv_validate havoc p kin traj s \<noteq> None) \<and>
    (\<forall>s'. pv_validate havoc p kin traj s = Some s' \<longrightarrow>
      (pv_isAllValid s' \<longleftrightarrow> pv_sound p traj \<and> pv_near_ok p kin (map the traj)) \<and>
      ps_invalid_count s' = (if pv_sound p traj \<and> pv_near_ok p kin (map the traj) then 0 else ps_invalid_count s + 1))"
  by (rule pv_validate_accepts [OF assms])

text \<open>A straight trajectory of two points half a metre apart, and a vehicle at its start.\<close>

abbreviation pv_ex_point :: "real \<Rightarrow> trajectory_point option" where
  "pv_ex_point x \<equiv> Some \<lparr> tp_pose = \<lparr> pt_x = x, pt_y = 0, pt_z = 0, po_pitch = 0, po_yaw = 0 \<rparr>,
     tp_longitudinal_velocity_mps = 1, tp_acceleration_mps2 = 0 \<rparr>"

abbreviation pv_ex_traj :: pv_trajectory where
  "pv_ex_traj \<equiv> [pv_ex_point 0, pv_ex_point (1 / 2)]"

abbreviation pv_ex_params :: pv_params where
  "pv_ex_params \<equiv> \<lparr> pv_interval_threshold = 1, pv_relative_angle_threshold = 1, pv_curvature_threshold = 1,
     pv_lateral_acc_threshold = 1, pv_longitudinal_max_acc_threshold = 1, pv_longitudinal_min_acc_threshold = - 1,
     pv_steering_threshold = 1, pv_steering_rate_threshold = 1, pv_velocity_deviation_threshold = 1,
     pv_distance_deviation_threshold = 1, pv_wheel_base = 4, pv_diag_error_count_threshold = 1 \<rparr>"

abbreviation pv_ex_kin :: pv_kinematics where
  "pv_ex_kin \<equiv> \<lparr> kn_pose = \<lparr> pt_x = 0, pt_y = 0, pt_z = 0, po_pitch = 0, po_yaw = 0 \<rparr>, kn_vel = 1 \<rparr>"

abbreviation pv_ex_status :: "bool \<Rightarrow> pv_status" where
  "pv_ex_status b \<equiv> \<lparr> ps_stamp = 0, ps_is_valid_finite_value = b, ps_is_valid_interval = b,
     ps_is_valid_relative_angle = b, ps_is_valid_curvature = b, ps_is_valid_lateral_acc = b,
     ps_is_valid_longitudinal_max_acc = b, ps_is_valid_longitudinal_min_acc = b, ps_is_valid_steering = b,
     ps_is_valid_steering_rate = b, ps_is_valid_velocity_deviation = b, ps_is_valid_distance_deviation = b,
     ps_max_interval_distance = 0, ps_max_relative_angle = 0, ps_max_curvature = 0, ps_max_lateral_acc = 0,
     ps_max_longitudinal_acc = 0, ps_min_longitudinal_acc = 0, ps_max_steering = 0, ps_max_steering_rate = 0,
     ps_velocity_deviation = 0, ps_distance_deviation = 0, ps_invalid_count = 0 \<rparr>"

lemma pv_ex_sound: "pv_sound pv_ex_params pv_ex_traj"
  by (simp add: pv_sound_def pv_points_ok_def pv_shape_ok_def pv_resampleTrajectory_def calcDistance2d_def
      std_hypot_def tu_seg_def power2_eq_square less_Suc_eq)

lemma pv_ex_near: "pv_near_ok pv_ex_params pv_ex_kin (map the pv_ex_traj)"
  by (simp add: pv_near_ok_def pv_nearest_def Let_def calcDistance2d_def std_hypot_def
      calcSquaredDistance2d_def power2_eq_square)

lemma pv_ex_params_ok: "pv_params_ok pv_ex_params"
  by (simp add: pv_params_ok_def)

lemma pv_validate_iff_witness:
  "\<exists>s'. pv_validate (\<lambda>t. None) pv_ex_params pv_ex_kin pv_ex_traj (pv_ex_status False) = Some s' \<and>
    pv_isAllValid s' \<and> ps_invalid_count s' = 0"
proof -
  have "2 \<le> length pv_ex_traj" by simp
  from pv_validate_iff [OF this pv_ex_params_ok, of "\<lambda>t. None" pv_ex_kin "pv_ex_status False"]
  show ?thesis using pv_ex_sound pv_ex_near by auto
qed

section \<open>What is published\<close>

fun pv_run ::
  "(pv_trajectory \<Rightarrow> pv_status option) \<Rightarrow> pv_event list \<Rightarrow> pv_state \<Rightarrow> (pv_out option list \<times> pv_state) option" where
  "pv_run havoc [] s = Some ([], s)"
| "pv_run havoc (e # es) s =
     (case pv_handle havoc e s of
        None \<Rightarrow> None
      | Some (out, s1) \<Rightarrow> (case pv_run havoc es s1 of None \<Rightarrow> None | Some (outs, s2) \<Rightarrow> Some (out # outs, s2)))"

definition pv_long_enough :: "pv_event \<Rightarrow> bool" where
  "pv_long_enough e \<longleftrightarrow> (case e of PV_Trajectory now m \<Rightarrow> 2 \<le> length m | _ \<Rightarrow> True)"

text \<open>The trajectory kept for later was sound when it was kept.\<close>

definition pv_inv :: "pv_state \<Rightarrow> bool" where
  "pv_inv s \<longleftrightarrow> pv_params_ok (pv_param s) \<and> pv_invalid_trajectory_handling_type s \<noteq> PUBLISH_AS_IT_IS \<and>
     (\<forall>t. pv_previous_published_trajectory s = Some t \<longrightarrow> pv_sound (pv_param s) t)"

text \<open>A received trajectory without NaN and infinities.\<close>

definition pv_finite_event :: "pv_event \<Rightarrow> bool" where
  "pv_finite_event e \<longleftrightarrow> (case e of PV_Trajectory now m \<Rightarrow> None \<notin> set m | _ \<Rightarrow> True)"

lemma pv_handle_inv:
  assumes "pv_inv s" and "pv_long_enough e"
  shows "(pv_finite_event e \<longrightarrow> pv_handle havoc e s \<noteq> None) \<and>
    (\<forall>out s1. pv_handle havoc e s = Some (out, s1) \<longrightarrow> pv_inv s1 \<and> pv_param s1 = pv_param s \<and>
      (\<forall>o1 t. out = Some o1 \<longrightarrow> po_trajectory o1 = Some t \<longrightarrow> pv_sound (pv_param s) t))"
proof (cases e)
  case (PV_Trajectory now m)
  show ?thesis
  proof (cases "pv_current_kinematics s")
    case None
    with PV_Trajectory assms(1) show ?thesis by (simp add: pv_handle_def pv_onTrajectory_def Let_def pv_inv_def)
  next
    case (Some kin)
    from assms PV_Trajectory have "2 \<le> length m" "pv_params_ok (pv_param s)"
      by (simp_all add: pv_long_enough_def pv_inv_def)
    note accepts = pv_validate_accepts [OF this, of havoc kin "pv_validation_status s"]
    show ?thesis
    proof (cases "pv_validate havoc (pv_param s) kin m (pv_validation_status s)")
      case None
      with accepts show ?thesis
        by (simp add: PV_Trajectory pv_handle_def pv_onTrajectory_def Some Let_def pv_finite_event_def)
    next
      case st: (Some st)
      then have "pv_isAllValid st \<longrightarrow> pv_sound (pv_param s) m" using accepts by blast
      then show ?thesis
        using assms(1)
        by (cases "pv_invalid_trajectory_handling_type s")
          (auto simp: PV_Trajectory pv_handle_def pv_onTrajectory_def Some st Let_def pv_publishTrajectory_def pv_inv_def)
    qed
  qed
qed (use assms in \<open>simp add: pv_handle_def pv_inv_def\<close>)

lemma pv_run_sound:
  assumes "pv_inv s" and "\<forall>e \<in> set es. pv_long_enough e"
  shows "((\<forall>e \<in> set es. pv_finite_event e) \<longrightarrow> pv_run havoc es s \<noteq> None) \<and>
    (\<forall>outs s1. pv_run havoc es s = Some (outs, s1) \<longrightarrow> length outs = length es \<and>
      (\<forall>o1 t. Some o1 \<in> set outs \<longrightarrow> po_trajectory o1 = Some t \<longrightarrow> pv_sound (pv_param s) t))"
  using assms
proof (induction es arbitrary: s)
  case (Cons e es)
  then have "pv_inv s" "pv_long_enough e" by simp_all
  note step = pv_handle_inv [OF this, of havoc]
  show ?case
  proof (cases "pv_handle havoc e s")
    case None
    with step show ?thesis by auto
  next
    case (Some q)
    obtain out s1 where 1: "pv_handle havoc e s = Some (out, s1)" using Some by (cases q) auto
    with step have inv: "pv_inv s1" "pv_param s1 = pv_param s"
      and sound: "\<forall>o1 t. out = Some o1 \<longrightarrow> po_trajectory o1 = Some t \<longrightarrow> pv_sound (pv_param s) t" by blast+
    from Cons.IH [OF inv(1)] Cons.prems(2) inv(2) have
      rest: "(\<forall>e \<in> set es. pv_finite_event e) \<longrightarrow> pv_run havoc es s1 \<noteq> None"
        "\<forall>outs s2. pv_run havoc es s1 = Some (outs, s2) \<longrightarrow> length outs = length es \<and>
          (\<forall>o1 t. Some o1 \<in> set outs \<longrightarrow> po_trajectory o1 = Some t \<longrightarrow> pv_sound (pv_param s) t)" by auto
    show ?thesis
      using rest sound by (cases "pv_run havoc es s1") (auto simp: 1)
  qed
qed simp

definition pv_initial :: "pv_params \<Rightarrow> pv_handling \<Rightarrow> bool \<Rightarrow> pv_status \<Rightarrow> pv_state" where
  "pv_initial p h diag status =
     \<lparr> pv_param = p, pv_invalid_trajectory_handling_type = h, pv_publish_diag = diag,
       pv_validation_status = status, pv_current_trajectory = None,
       pv_previous_published_trajectory = None, pv_current_kinematics = None \<rparr>"

text \<open>C35: What the validator publishes has passed its checks. Start the node with thresholds of the right sign (pv_params_ok: not negative, the one for
  deceleration not positive) and a handling type other than PUBLISH_AS_IT_IS, and let it receive any sequence of odometry messages and
  of trajectories of at least two points. If all their fields are finite, no callback fails. Whenever the callbacks return, with NaN and infinities among the
  trajectories too, every trajectory that has been published, the repeated previous one included,
  has only finite fields and respects the thresholds on intervals, accelerations, lateral acceleration,
  relative angle, curvature and steering angle, and on the rate of steering to the left. The rate of steering to the right is not limited: the code
  compares the rate with its sign, contrary to its README, and takes at least 1e-5 m/s for the speed.\<close>

theorem pv_published_sound:
  assumes "pv_params_ok p" and "h \<noteq> PUBLISH_AS_IT_IS" and "\<forall>e \<in> set es. pv_long_enough e"
  shows "((\<forall>e \<in> set es. pv_finite_event e) \<longrightarrow> pv_run havoc es (pv_initial p h diag status) \<noteq> None) \<and>
    (\<forall>outs s1. pv_run havoc es (pv_initial p h diag status) = Some (outs, s1) \<longrightarrow> length outs = length es \<and>
      (\<forall>o1 t. Some o1 \<in> set outs \<longrightarrow> po_trajectory o1 = Some t \<longrightarrow> pv_sound p t))"
proof -
  have "pv_inv (pv_initial p h diag status)" using assms(1,2) by (simp add: pv_inv_def pv_initial_def)
  from pv_run_sound [OF this assms(3), of havoc] show ?thesis by (simp add: pv_initial_def)
qed

text \<open>A trajectory with a gap that is too wide after a valid one: the valid one is published twice.\<close>

lemma pv_published_sound_witness:
  "\<exists>outs s1. pv_run (\<lambda>t. None)
      [PV_Kinematics pv_ex_kin, PV_Trajectory 1 pv_ex_traj, PV_Trajectory 2 [pv_ex_point 0, pv_ex_point 9]]
      (pv_initial pv_ex_params USE_PREVIOUS_RESULT True (pv_ex_status False)) = Some (outs, s1) \<and> length outs = 3 \<and>
    (\<forall>o1 t. Some o1 \<in> set outs \<longrightarrow> po_trajectory o1 = Some t \<longrightarrow> pv_sound pv_ex_params t)"
proof -
  let ?es = "[PV_Kinematics pv_ex_kin, PV_Trajectory 1 pv_ex_traj, PV_Trajectory 2 [pv_ex_point 0, pv_ex_point 9]]"
  have "\<forall>e \<in> set ?es. pv_long_enough e" "\<forall>e \<in> set ?es. pv_finite_event e"
    by (simp_all add: pv_long_enough_def pv_finite_event_def)
  with pv_published_sound [OF pv_ex_params_ok _ this(1), where h = USE_PREVIOUS_RESULT and havoc = "\<lambda>t. None"
      and diag = True and status = "pv_ex_status False"]
  obtain outs s1 where "pv_run (\<lambda>t. None) ?es (pv_initial pv_ex_params USE_PREVIOUS_RESULT True (pv_ex_status False)) = Some (outs, s1)"
    "length outs = length ?es" "\<forall>o1 t. Some o1 \<in> set outs \<longrightarrow> po_trajectory o1 = Some t \<longrightarrow> pv_sound pv_ex_params t"
    by (auto simp del: pv_run.simps)
  then show ?thesis by (intro exI conjI) (assumption | simp)+
qed

section \<open>Where the checks do not reach\<close>

text \<open>
  A trajectory of fewer than two points is not validated and keeps the status of the one before: after a
  valid trajectory an empty one is published, and kept as the previous published trajectory.
\<close>

lemma pv_short_trajectory_published:
  assumes "length m < 2" and "pv_isAllValid (pv_validation_status s)" and "pv_current_kinematics s = Some kin"
  shows "\<exists>out s1. pv_handle havoc (PV_Trajectory now m) s = Some (Some out, s1) \<and> po_trajectory out = Some m \<and>
    pv_previous_published_trajectory s1 = Some m"
  using assms by (simp add: pv_handle_def pv_onTrajectory_def pv_validate_def pv_publishTrajectory_def Let_def)

text \<open>The steering rate has a sign: a change of the steering angle to the right is never too fast.\<close>

lemma pv_steering_to_the_right_accepted:
  assumes "\<forall>i. i + 1 < length traj \<longrightarrow>
      pv_calcSteeringAngles traj w ! (i + 1) \<le> pv_calcSteeringAngles traj w ! i"
    and "0 \<le> t"
  shows "fst (pv_calcMaxSteeringRates traj w) \<le> t"
proof -
  have "pv_steer_rate traj (pv_calcSteeringAngles traj w) i \<le> 0" if "i + 1 < length traj" for i
  proof -
    have "0 \<le> calcDistance2d (tp_pose (traj ! i)) (tp_pose (traj ! (i + 1)))"
      by (simp add: calcDistance2d_def std_hypot_def)
    then show ?thesis using assms(1) that
      by (auto simp: pv_steer_rate_def Let_def max_def intro!: divide_nonpos_nonneg mult_nonpos_nonneg)
  qed
  then show ?thesis unfolding pv_steering_rate_le [OF assms(2)] using assms(2) by (meson order_trans)
qed

text \<open>With the threshold 1 the first invalid trajectory is already an error.\<close>

lemma pv_first_invalid_is_error:
  "ps_invalid_count s = 1 \<Longrightarrow> pv_diag_error_count_threshold p = 1 \<Longrightarrow> pv_setStatus p s False = DL_ERROR"
  by (simp add: pv_setStatus_def)

end
