(* ===== verification/Ad_Planning.thy ===== *)
theory Ad_Planning
  imports Trajectory_Utils Vehicle_Stop_Checker
begin

text \<open>
  Two users of the stop checker that measure lengths along the trajectory: the vehicle arrival checker of
  \<open>motion_utils\<close> and the planning node of the default AD API, which collects the velocity and steering
  factors of the planning modules and completes their distances and states.
\<close>

section \<open>Vehicle arrival checker\<close>

record va_state =
  va_twist_buffer :: "twist_stamped list"
  va_odometry :: "point option"
  va_trajectory :: "points option"

definition va_new :: va_state where
  "va_new = \<lparr> va_twist_buffer = [], va_odometry = None, va_trajectory = None \<rparr>"

definition flt_abs :: "flt \<Rightarrow> flt" where
  "flt_abs x = (case x of Fin r \<Rightarrow> Fin \<bar>r\<bar> | NaN \<Rightarrow> NaN | _ \<Rightarrow> PInf)"

definition va_onOdom :: "time \<Rightarrow> point \<Rightarrow> twist_stamped \<Rightarrow> va_state \<Rightarrow> va_state option" where
  "va_onOdom now position twist s =
     map_option (\<lambda>buf. s\<lparr> va_odometry := Some position, va_twist_buffer := buf \<rparr>)
       (vs_addTwist 10 now twist (va_twist_buffer s))"

definition va_onTrajectory :: "points \<Rightarrow> va_state \<Rightarrow> va_state" where
  "va_onTrajectory msg s = s\<lparr> va_trajectory := Some msg \<rparr>"

definition va_isVehicleStoppedAtStopPoint :: "real \<Rightarrow> time \<Rightarrow> va_state \<Rightarrow> tu_error + bool" where
  "va_isVehicleStoppedAtStopPoint stop_duration now s =
     (case (va_odometry s, va_trajectory s) of
        (Some p, Some points) \<Rightarrow>
          if \<not> vs_isVehicleStopped stop_duration now (va_twist_buffer s) then Inr False
          else err_bind (tu_searchZeroVelocityIndex_all points) (\<lambda>idx. case idx of
              None \<Rightarrow> Inr False
            | Some i \<Rightarrow> err_bind (tu_calcSignedArcLength_point_idx points p i)
                         (\<lambda>l. Inr (flt_less (flt_abs l) (Fin 1))))
      | _ \<Rightarrow> Inr False)"

section \<open>Planning node of the AD API\<close>

datatype factor_status = Factor_UNKNOWN | Factor_APPROACHING | Factor_STOPPED | Factor_raw nat

text \<open>A velocity factor; the fields the node only passes on are one value of type \<open>'d\<close>.\<close>

record 'd velocity_factor =
  vf_pose :: pose
  vf_distance :: flt
  vf_status :: factor_status
  vf_detail :: 'd

record ('d, 'f) ap_state =
  ap_stop_distance :: real
  ap_stop_duration :: real
  ap_twist_buffer :: "twist_stamped list"
  ap_trajectory :: "points option"
  ap_kinematic_state :: "point option"
  ap_velocity_factors :: "'d velocity_factor list option list"
  ap_steering_factors :: "'f list option list"

definition ap_new :: "real \<Rightarrow> real \<Rightarrow> ('d, 'f) ap_state" where
  "ap_new stop_distance stop_duration =
     \<lparr> ap_stop_distance = stop_distance, ap_stop_duration = stop_duration, ap_twist_buffer = [],
       ap_trajectory = None, ap_kinematic_state = None,
       ap_velocity_factors = replicate 14 None, ap_steering_factors = replicate 5 None \<rparr>"

definition ap_merge_factors :: "'x list option list \<Rightarrow> 'x list" where
  "ap_merge_factors factors = concat (map (\<lambda>f. case f of None \<Rightarrow> [] | Some xs \<Rightarrow> xs) factors)"

definition ap_on_kinematic_state ::
  "time \<Rightarrow> point \<Rightarrow> twist_stamped \<Rightarrow> ('d, 'f) ap_state \<Rightarrow> ('d, 'f) ap_state option" where
  "ap_on_kinematic_state now position twist s =
     map_option (\<lambda>buf. s\<lparr> ap_kinematic_state := Some position, ap_twist_buffer := buf \<rparr>)
       (vs_addTwist (ap_stop_duration s + 1) now twist (ap_twist_buffer s))"

text \<open>The first loop of the timer: a distance that is NaN is measured along the trajectory.\<close>

definition ap_set_distance :: "points \<Rightarrow> point \<Rightarrow> 'd velocity_factor \<Rightarrow> tu_error + 'd velocity_factor" where
  "ap_set_distance points curr_point factor =
     (if vf_distance factor = NaN
      then err_bind (tu_calcSignedArcLength_points points curr_point (vf_pose factor))
             (\<lambda>d. Inr (factor\<lparr> vf_distance := d \<rparr>))
      else Inr factor)"

text \<open>The second one: an unknown status is set when the distance is known.\<close>

definition ap_set_status :: "bool \<Rightarrow> real \<Rightarrow> 'd velocity_factor \<Rightarrow> 'd velocity_factor" where
  "ap_set_status is_vehicle_stopped stop_distance factor =
     (if vf_status factor = Factor_UNKNOWN \<and> vf_distance factor \<noteq> NaN
      then factor\<lparr> vf_status := (if is_vehicle_stopped \<and> flt_less (vf_distance factor) (Fin stop_distance)
                                then Factor_STOPPED else Factor_APPROACHING) \<rparr>
      else factor)"

definition ap_on_timer :: "time \<Rightarrow> ('d, 'f) ap_state \<Rightarrow> tu_error + 'd velocity_factor list \<times> 'f list" where
  "ap_on_timer now s =
     (let velocity = ap_merge_factors (ap_velocity_factors s);
          steering = ap_merge_factors (ap_steering_factors s);
          is_vehicle_stopped = vs_isVehicleStopped (ap_stop_duration s) now (ap_twist_buffer s)
      in err_bind (case (ap_trajectory s, ap_kinematic_state s) of
             (Some points, Some curr_point) \<Rightarrow> err_map (ap_set_distance points curr_point) velocity
           | _ \<Rightarrow> Inr velocity) (\<lambda>velocity1.
         Inr (map (ap_set_status is_vehicle_stopped (ap_stop_distance s)) velocity1, steering)))"

datatype ('d, 'f) ap_event =
    AP_VelocityFactors nat "'d velocity_factor list"
  | AP_SteeringFactors nat "'f list"
  | AP_Trajectory points
  | AP_Kinematics time point twist_stamped

text \<open>The callbacks other than the timer, \<open>None\<close> where \<open>addTwist\<close> has undefined behaviour.\<close>

definition ap_handle :: "('d, 'f) ap_event \<Rightarrow> ('d, 'f) ap_state \<Rightarrow> ('d, 'f) ap_state option" where
  "ap_handle e s = (case e of
     AP_VelocityFactors i m \<Rightarrow> Some (s\<lparr> ap_velocity_factors := (ap_velocity_factors s)[i := Some m] \<rparr>)
   | AP_SteeringFactors i m \<Rightarrow> Some (s\<lparr> ap_steering_factors := (ap_steering_factors s)[i := Some m] \<rparr>)
   | AP_Trajectory m \<Rightarrow> Some (s\<lparr> ap_trajectory := Some m \<rparr>)
   | AP_Kinematics now p tw \<Rightarrow> ap_on_kinematic_state now p tw s)"

section \<open>The measures along the trajectory\<close>

lemma tu_length_loop_ok: "\<forall>i \<in> set is. i + 1 < length points \<Longrightarrow> \<exists>d. tu_length_loop points is d0 = Inr d"
  by (simp add: tu_length_loop_eq)

lemma tu_calcSignedArcLength_ok:
  "points = [] \<or> (i < length points \<and> j < length points) \<Longrightarrow> \<exists>d. tu_calcSignedArcLength points i j = Inr d"
  by (auto simp: tu_signed_length) (simp add: tu_calcSignedArcLength_def)

lemma tu_segment_of_less:
  "k < length points \<Longrightarrow> tu_segment_of points point k < length points"
  by (auto simp: tu_segment_of_def Let_def)

lemma tu_findNearestSegmentIndex_ok:
  assumes "points \<noteq> []"
  obtains k where "tu_findNearestSegmentIndex points point = Inr k" "k < length points"
proof -
  obtain m where "m < length points" "tu_findNearestIndex points point = Inr m"
    using tu_findNearestIndex_min [OF assms, of point] by blast
  with that [of "tu_segment_of points point m"] show ?thesis
    by (simp add: tu_findNearestSegmentIndex_def tu_segment_of_less)
qed

text \<open>None of the measures the two components take throws.\<close>

lemma tu_calcSignedArcLength_points_ok: "\<exists>d. tu_calcSignedArcLength_points points p q = Inr d"
proof (cases "points = []")
  case False
  obtain i j where "tu_findNearestSegmentIndex points p = Inr i" "i < length points"
    "tu_findNearestSegmentIndex points q = Inr j" "j < length points"
    using tu_findNearestSegmentIndex_ok [OF False, of p] tu_findNearestSegmentIndex_ok [OF False, of q] by metis
  then show ?thesis
    by (simp add: tu_calcSignedArcLength_points_def tu_length_between_def tu_signed_length False)
qed (simp add: tu_calcSignedArcLength_points_def)

lemma tu_calcSignedArcLength_point_idx_ok:
  assumes "j < length points"
  shows "\<exists>d. tu_calcSignedArcLength_point_idx points p j = Inr d"
proof -
  from assms have ne: "points \<noteq> []" by auto
  obtain i where "tu_findNearestSegmentIndex points p = Inr i" "i < length points"
    using tu_findNearestSegmentIndex_ok [OF ne] .
  with assms show ?thesis
    by (simp add: tu_calcSignedArcLength_point_idx_def tu_length_from_def tu_signed_length)
qed

lemma tu_zero_loop_spec:
  assumes "j \<le> length points"
  shows "\<exists>r. tu_zero_loop points [i..<j] = Inr r \<and>
    (case r of None \<Rightarrow> \<forall>k. i \<le> k \<and> k < j \<longrightarrow> \<not> \<bar>tp_longitudinal_velocity_mps (points ! k)\<bar> < 1 / 1000
     | Some k \<Rightarrow> i \<le> k \<and> k < j \<and> \<bar>tp_longitudinal_velocity_mps (points ! k)\<bar> < 1 / 1000)"
  using assms
proof (induction "j - i" arbitrary: i)
  case (Suc n)
  then have i: "[i..<j] = i # [Suc i..<j]" by (simp add: upt_conv_Cons)
  have "n = j - Suc i" using Suc.hyps(2) by simp
  from Suc.hyps(1) [OF this Suc.prems] obtain r where
    r: "tu_zero_loop points [Suc i..<j] = Inr r"
      "case r of None \<Rightarrow> \<forall>k. Suc i \<le> k \<and> k < j \<longrightarrow> \<not> \<bar>tp_longitudinal_velocity_mps (points ! k)\<bar> < 1 / 1000
       | Some k \<Rightarrow> Suc i \<le> k \<and> k < j \<and> \<bar>tp_longitudinal_velocity_mps (points ! k)\<bar> < 1 / 1000" by blast
  show ?case
  proof (cases "\<bar>tp_longitudinal_velocity_mps (points ! i)\<bar> < 1 / 1000")
    case True
    moreover have "i < j" "i < length points" using Suc.hyps(2) Suc.prems by simp_all
    ultimately show ?thesis by (simp add: i)
  next
    case False
    have "\<not> \<bar>tp_longitudinal_velocity_mps (points ! k)\<bar> < 1 / 1000" if "r = None" "i \<le> k" "k < j" for k
      using r(2) False that by (cases "k = i") auto
    moreover have "i < length points" using Suc.hyps(2) Suc.prems by simp
    ultimately show ?thesis using False r by (auto simp: i not_le split: option.splits)
  qed
qed simp

lemma tu_searchZeroVelocityIndex_all_spec:
  "\<exists>r. tu_searchZeroVelocityIndex_all points = Inr r \<and>
    (case r of None \<Rightarrow> \<forall>q \<in> set points. \<not> \<bar>tp_longitudinal_velocity_mps q\<bar> < 1 / 1000
     | Some k \<Rightarrow> k < length points \<and> \<bar>tp_longitudinal_velocity_mps (points ! k)\<bar> < 1 / 1000)"
proof (cases "points = []")
  case False
  obtain r where r: "tu_zero_loop points [0..<length points] = Inr r"
    "case r of None \<Rightarrow> \<forall>k. 0 \<le> k \<and> k < length points \<longrightarrow> \<not> \<bar>tp_longitudinal_velocity_mps (points ! k)\<bar> < 1 / 1000
     | Some k \<Rightarrow> 0 \<le> k \<and> k < length points \<and> \<bar>tp_longitudinal_velocity_mps (points ! k)\<bar> < 1 / 1000"
    using tu_zero_loop_spec [of "length points" points 0] by blast
  have "tu_searchZeroVelocityIndex_all points = Inr r"
    using False r(1) by (simp add: tu_searchZeroVelocityIndex_all_def tu_searchZeroVelocityIndex_def)
  with r(2) show ?thesis by (cases r) (auto simp: in_set_conv_nth)
qed (simp add: tu_searchZeroVelocityIndex_all_def tu_searchZeroVelocityIndex_def)

section \<open>Arrival\<close>

text \<open>The arrival checker always answers, and a positive answer means what its name says.\<close>

lemma va_arrived_sound:
  "\<exists>b. va_isVehicleStoppedAtStopPoint d now s = Inr b \<and>
    (b \<longrightarrow> vs_isVehicleStopped d now (va_twist_buffer s) \<and>
      (\<exists>p points k l. va_odometry s = Some p \<and> va_trajectory s = Some points \<and> k < length points \<and>
         \<bar>tp_longitudinal_velocity_mps (points ! k)\<bar> < 1 / 1000 \<and>
         tu_calcSignedArcLength_point_idx points p k = Inr (Fin l) \<and> \<bar>l\<bar> < 1))"
proof (cases "va_odometry s")
  case (Some p)
  note odom = Some
  show ?thesis
  proof (cases "va_trajectory s")
    case (Some points)
    obtain r where r: "tu_searchZeroVelocityIndex_all points = Inr r"
      "case r of None \<Rightarrow> \<forall>q \<in> set points. \<not> \<bar>tp_longitudinal_velocity_mps q\<bar> < 1 / 1000
       | Some k \<Rightarrow> k < length points \<and> \<bar>tp_longitudinal_velocity_mps (points ! k)\<bar> < 1 / 1000"
      using tu_searchZeroVelocityIndex_all_spec [of points] by blast
    show ?thesis
    proof (cases r)
      case None
      with r odom Some have "va_isVehicleStoppedAtStopPoint d now s = Inr False"
        by (simp add: va_isVehicleStoppedAtStopPoint_def)
      then show ?thesis by blast
    next
      case (Some k)
      with r(2) have k: "k < length points" "\<bar>tp_longitudinal_velocity_mps (points ! k)\<bar> < 1 / 1000" by simp_all
      obtain l where "tu_calcSignedArcLength_point_idx points p k = Inr l"
        using tu_calcSignedArcLength_point_idx_ok [OF k(1)] by blast
      then have "va_isVehicleStoppedAtStopPoint d now s =
          Inr (vs_isVehicleStopped d now (va_twist_buffer s) \<and> flt_less (flt_abs l) (Fin 1))"
        using r(1) Some odom \<open>va_trajectory s = Some points\<close> by (simp add: va_isVehicleStoppedAtStopPoint_def)
      moreover have "\<exists>x. l = Fin x \<and> \<bar>x\<bar> < 1" if "flt_less (flt_abs l) (Fin 1)"
        using that by (cases l) (simp_all add: flt_abs_def)
      ultimately show ?thesis
        using k odom \<open>va_trajectory s = Some points\<close> \<open>tu_calcSignedArcLength_point_idx points p k = Inr l\<close> by blast
    qed
  qed (rule exI [of _ False], simp add: va_isVehicleStoppedAtStopPoint_def odom)
qed (rule exI [of _ False], simp add: va_isVehicleStoppedAtStopPoint_def)

text \<open>On a trajectory of one point the vehicle never arrives: the length to it is NaN.\<close>

lemma va_single_point_never_arrived:
  "va_trajectory s = Some [q] \<Longrightarrow> va_isVehicleStoppedAtStopPoint d now s = Inr False"
  by (cases "va_odometry s")
    (auto simp: va_isVehicleStoppedAtStopPoint_def tu_searchZeroVelocityIndex_all_def
      tu_searchZeroVelocityIndex_def tu_calcSignedArcLength_point_idx_def tu_findNearestSegmentIndex_def
      tu_findNearestIndex_def tu_segment_of_def tu_length_from_def tu_calcSignedArcLength_def
      tu_offset_def tu_calcLongitudinalOffsetToSegment_def flt_abs_def)

section \<open>Factors\<close>

text \<open>The distance a factor is published with.\<close>

definition ap_distance :: "('d, 'f) ap_state \<Rightarrow> 'd velocity_factor \<Rightarrow> flt" where
  "ap_distance s factor =
     (case (ap_trajectory s, ap_kinematic_state s) of
        (Some points, Some p) \<Rightarrow>
          if vf_distance factor = NaN
          then (case tu_calcSignedArcLength_points points p (vf_pose factor) of Inr d \<Rightarrow> d | Inl e \<Rightarrow> NaN)
          else vf_distance factor
      | _ \<Rightarrow> vf_distance factor)"

definition ap_status :: "time \<Rightarrow> ('d, 'f) ap_state \<Rightarrow> 'd velocity_factor \<Rightarrow> factor_status" where
  "ap_status now s factor =
     (if vf_status factor \<noteq> Factor_UNKNOWN \<or> ap_distance s factor = NaN then vf_status factor
      else if vs_isVehicleStopped (ap_stop_duration s) now (ap_twist_buffer s) \<and>
        flt_less (ap_distance s factor) (Fin (ap_stop_distance s)) then Factor_STOPPED
      else Factor_APPROACHING)"

text \<open>The timer of the AD API planning node never throws, whatever the trajectory, and publishes every factor of the last message of every module, in the order of the topics, with position and detail as received. A distance that was received stays; a missing one is the signed length along the trajectory when both trajectory and vehicle position are known. A status that was received stays; an unknown one becomes STOPPED when the vehicle has stood still for the configured time and the distance is below the limit, APPROACHING otherwise, and stays unknown as long as the distance is.\<close>

theorem ap_on_timer_factors:
  "ap_on_timer now s =
     Inr (map (\<lambda>factor. factor\<lparr> vf_distance := ap_distance s factor, vf_status := ap_status now s factor \<rparr>)
            (ap_merge_factors (ap_velocity_factors s)),
          ap_merge_factors (ap_steering_factors s))"
proof -
  have "(case (ap_trajectory s, ap_kinematic_state s) of
       (Some points, Some curr_point) \<Rightarrow> err_map (ap_set_distance points curr_point) xs
     | _ \<Rightarrow> Inr xs) = Inr (map (\<lambda>factor. factor\<lparr> vf_distance := ap_distance s factor \<rparr>) xs)" for xs
  proof (cases "\<exists>points p. ap_trajectory s = Some points \<and> ap_kinematic_state s = Some p")
    case True
    then obtain points p where sp: "ap_trajectory s = Some points" "ap_kinematic_state s = Some p" by blast
    have "ap_set_distance points p factor = Inr (factor\<lparr> vf_distance := ap_distance s factor \<rparr>)" for factor
      using tu_calcSignedArcLength_points_ok [of points p "vf_pose factor"]
      by (auto simp: ap_set_distance_def ap_distance_def sp)
    with err_map_ok [of xs "ap_set_distance points p"] show ?thesis by (simp add: sp)
  next
    case False
    then have "ap_distance s factor = vf_distance factor" for factor
      by (auto simp: ap_distance_def split: option.splits)
    with False show ?thesis by (auto split: option.splits)
  qed
  moreover have "ap_set_status (vs_isVehicleStopped (ap_stop_duration s) now (ap_twist_buffer s)) (ap_stop_distance s)
      (factor\<lparr> vf_distance := ap_distance s factor \<rparr>) =
    factor\<lparr> vf_distance := ap_distance s factor, vf_status := ap_status now s factor \<rparr>" for factor :: "'a velocity_factor"
    by (simp add: ap_set_status_def ap_status_def)
  ultimately show ?thesis by (simp add: ap_on_timer_def Let_def o_def)
qed

text \<open>
  A stop point the vehicle has passed has a negative distance: standing anywhere behind it the factor is
  STOPPED. An empty trajectory makes every missing distance zero.
\<close>

lemma ap_passed_point_stopped:
  assumes "vf_status factor = Factor_UNKNOWN" and "vf_distance factor = Fin d" and "d < ap_stop_distance s"
    and "vs_isVehicleStopped (ap_stop_duration s) now (ap_twist_buffer s)"
  shows "ap_status now s factor = Factor_STOPPED"
  using assms by (auto simp: ap_status_def ap_distance_def split: option.splits)

lemma ap_empty_trajectory_distance:
  assumes "ap_trajectory s = Some []" and "ap_kinematic_state s = Some p" and "vf_distance factor = NaN"
  shows "ap_distance s factor = Fin 0"
  using assms by (simp add: ap_distance_def tu_calcSignedArcLength_points_def)

end
