(* ===== verification/Shift_Decider.thy ===== *)
theory Shift_Decider
  imports AW_Msgs
begin

text \<open>
  control/shift_decider: the gear for the target speed of the control command, with a dead band around
  standstill, and PARK at the goal when so configured.
\<close>

record sd_state =
  sd_park_on_goal :: bool
  sd_control_cmd :: "control_command option"
  sd_autoware_state :: "autoware_state option"
  sd_shift_cmd :: "gear \<times> time"

definition sd_new :: "bool \<Rightarrow> sd_state" where
  "sd_new park_on_goal =
     \<lparr> sd_park_on_goal = park_on_goal, sd_control_cmd = None, sd_autoware_state = None,
       sd_shift_cmd = (Gear_raw 0, 0) \<rparr>"

definition sd_onControlCmd :: "control_command \<Rightarrow> sd_state \<Rightarrow> sd_state" where
  "sd_onControlCmd msg s = s\<lparr> sd_control_cmd := Some msg \<rparr>"

definition sd_onAutowareState :: "autoware_state \<Rightarrow> sd_state \<Rightarrow> sd_state" where
  "sd_onAutowareState msg s = s\<lparr> sd_autoware_state := Some msg \<rparr>"

definition sd_updateCurrentShiftCmd ::
  "time \<Rightarrow> autoware_state \<Rightarrow> control_command \<Rightarrow> sd_state \<Rightarrow> sd_state" where
  "sd_updateCurrentShiftCmd now autoware_state control_cmd s =
     (let vel_threshold = 1 / 100; speed = lon_speed (cc_longitudinal control_cmd)
      in s\<lparr> sd_shift_cmd :=
           (if autoware_state = AutowareState_ARRIVED_GOAL \<and> sd_park_on_goal s then Gear_PARK
            else if speed > vel_threshold then Gear_DRIVE
            else if speed < - vel_threshold then Gear_REVERSE
            else fst (sd_shift_cmd s), now) \<rparr>)"

definition sd_onTimer :: "time \<Rightarrow> sd_state \<Rightarrow> sd_state \<times> (gear \<times> time) option" where
  "sd_onTimer now s =
     (case (sd_autoware_state s, sd_control_cmd s) of
        (Some st, Some cmd) \<Rightarrow>
          let s1 = sd_updateCurrentShiftCmd now st cmd s in (s1, Some (sd_shift_cmd s1))
      | _ \<Rightarrow> (s, None))"

datatype sd_event = SD_ControlCmd control_command | SD_AutowareState autoware_state | SD_Timer time

definition sd_handle :: "sd_event \<Rightarrow> sd_state \<Rightarrow> sd_state \<times> (gear \<times> time) option" where
  "sd_handle e s = (case e of
     SD_ControlCmd m \<Rightarrow> (sd_onControlCmd m s, None)
   | SD_AutowareState m \<Rightarrow> (sd_onAutowareState m s, None)
   | SD_Timer now \<Rightarrow> sd_onTimer now s)"

definition sd_run :: "bool \<Rightarrow> sd_event list \<Rightarrow> sd_state" where
  "sd_run park_on_goal es = fold (\<lambda>e s. fst (sd_handle e s)) es (sd_new park_on_goal)"

section \<open>The gear and the commands before it\<close>

text \<open>What the messages of a history, newest first, say about the two inputs and the gear.\<close>

fun sd_last_cmd :: "sd_event list \<Rightarrow> control_command option" where
  "sd_last_cmd [] = None"
| "sd_last_cmd (SD_ControlCmd m # es) = Some m"
| "sd_last_cmd (_ # es) = sd_last_cmd es"

fun sd_last_state :: "sd_event list \<Rightarrow> autoware_state option" where
  "sd_last_state [] = None"
| "sd_last_state (SD_AutowareState m # es) = Some m"
| "sd_last_state (_ # es) = sd_last_state es"

text \<open>The newest tick that decided, and what it decided.\<close>

fun sd_decided :: "bool \<Rightarrow> sd_event list \<Rightarrow> gear" where
  "sd_decided park_on_goal [] = Gear_raw 0"
| "sd_decided park_on_goal (SD_Timer now # es) =
     (case (sd_last_state es, sd_last_cmd es) of
        (Some st, Some cmd) \<Rightarrow>
          if st = AutowareState_ARRIVED_GOAL \<and> park_on_goal then Gear_PARK
          else if 1 / 100 < lon_speed (cc_longitudinal cmd) then Gear_DRIVE
          else if lon_speed (cc_longitudinal cmd) < - (1 / 100) then Gear_REVERSE
          else sd_decided park_on_goal es
      | _ \<Rightarrow> sd_decided park_on_goal es)"
| "sd_decided park_on_goal (_ # es) = sd_decided park_on_goal es"

lemma sd_run_snoc: "sd_run park (es @ [e]) = fst (sd_handle e (sd_run park es))"
  by (simp add: sd_run_def)

lemma sd_run_history:
  "sd_control_cmd (sd_run park es) = sd_last_cmd (rev es) \<and>
   sd_autoware_state (sd_run park es) = sd_last_state (rev es) \<and>
   sd_park_on_goal (sd_run park es) = park \<and>
   fst (sd_shift_cmd (sd_run park es)) = sd_decided park (rev es)"
proof (induction es rule: rev_induct)
  case Nil
  then show ?case by (simp add: sd_run_def sd_new_def)
next
  case (snoc e es)
  then show ?case
    by (cases e) (auto simp: sd_run_snoc sd_handle_def sd_onControlCmd_def sd_onAutowareState_def
        sd_onTimer_def sd_updateCurrentShiftCmd_def Let_def split: option.splits)
qed

text \<open>Within the dead band the gear stays, so that it does not chatter.\<close>

lemma sd_dead_band:
  assumes "sd_control_cmd s = Some cmd" and "\<bar>lon_speed (cc_longitudinal cmd)\<bar> \<le> 1 / 100"
    and "sd_autoware_state s \<noteq> Some AutowareState_ARRIVED_GOAL"
  shows "fst (sd_shift_cmd (fst (sd_onTimer now s))) = fst (sd_shift_cmd s)"
  using assms by (auto simp: sd_onTimer_def sd_updateCurrentShiftCmd_def Let_def split: option.splits)

end
