(* ===== verification/External_Cmd_Selector.thy ===== *)
theory External_Cmd_Selector
  imports AW_Msgs
begin

text \<open>
  control/external_cmd_selector: forwards the commands of the selected external source, local or remote.
  The messages are type variables; the converters of gear and turn signal messages are another package
  and parameters. The diagnostic, always OK, is left out.
\<close>

datatype external_selector_mode = Mode_LOCAL | Mode_REMOTE | Mode_raw nat

datatype ('c, 'g, 't, 'z, 'h) es_out =
    ES_PubControlCmd 'c
  | ES_PubGear 'g
  | ES_PubTurn 't
  | ES_PubHazard 'z
  | ES_PubHeartbeat 'h
  | ES_PubMode external_selector_mode

definition es_initial :: "string \<Rightarrow> external_selector_mode option" where
  "es_initial mode_text =
     (if mode_text = ''local'' then Some Mode_LOCAL
      else if mode_text = ''remote'' then Some Mode_REMOTE
      else None)"

definition es_onLocalControlCmd :: "'c \<Rightarrow> external_selector_mode \<Rightarrow> ('c, 'g, 't, 'z, 'h) es_out list" where
  "es_onLocalControlCmd msg mode = (if mode \<noteq> Mode_LOCAL then [] else [ES_PubControlCmd msg])"

definition es_onLocalShiftCmd :: "('s \<Rightarrow> 'g) \<Rightarrow> 's \<Rightarrow> external_selector_mode \<Rightarrow> ('c, 'g, 't, 'z, 'h) es_out list" where
  "es_onLocalShiftCmd convert msg mode = (if mode \<noteq> Mode_LOCAL then [] else [ES_PubGear (convert msg)])"

definition es_onLocalTurnSignalCmd ::
  "('l \<Rightarrow> 't \<times> 'z) \<Rightarrow> 'l \<Rightarrow> external_selector_mode \<Rightarrow> ('c, 'g, 't, 'z, 'h) es_out list" where
  "es_onLocalTurnSignalCmd convert msg mode =
     (if mode \<noteq> Mode_LOCAL then []
      else let (turn_signal, hazard_signal) = convert msg in [ES_PubTurn turn_signal, ES_PubHazard hazard_signal])"

definition es_onLocalHeartbeat :: "'h \<Rightarrow> external_selector_mode \<Rightarrow> ('c, 'g, 't, 'z, 'h) es_out list" where
  "es_onLocalHeartbeat msg mode = (if mode \<noteq> Mode_LOCAL then [] else [ES_PubHeartbeat msg])"

definition es_onRemoteControlCmd :: "'c \<Rightarrow> external_selector_mode \<Rightarrow> ('c, 'g, 't, 'z, 'h) es_out list" where
  "es_onRemoteControlCmd msg mode = (if mode \<noteq> Mode_REMOTE then [] else [ES_PubControlCmd msg])"

definition es_onRemoteShiftCmd :: "('s \<Rightarrow> 'g) \<Rightarrow> 's \<Rightarrow> external_selector_mode \<Rightarrow> ('c, 'g, 't, 'z, 'h) es_out list" where
  "es_onRemoteShiftCmd convert msg mode = (if mode \<noteq> Mode_REMOTE then [] else [ES_PubGear (convert msg)])"

definition es_onRemoteTurnSignalCmd ::
  "('l \<Rightarrow> 't \<times> 'z) \<Rightarrow> 'l \<Rightarrow> external_selector_mode \<Rightarrow> ('c, 'g, 't, 'z, 'h) es_out list" where
  "es_onRemoteTurnSignalCmd convert msg mode =
     (if mode \<noteq> Mode_REMOTE then []
      else let (turn_signal, hazard_signal) = convert msg in [ES_PubTurn turn_signal, ES_PubHazard hazard_signal])"

definition es_onRemoteHeartbeat :: "'h \<Rightarrow> external_selector_mode \<Rightarrow> ('c, 'g, 't, 'z, 'h) es_out list" where
  "es_onRemoteHeartbeat msg mode = (if mode \<noteq> Mode_REMOTE then [] else [ES_PubHeartbeat msg])"

text \<open>The service answers with success whatever mode it is given.\<close>

definition es_onSelectExternalCommandService :: "external_selector_mode \<Rightarrow> external_selector_mode \<Rightarrow> external_selector_mode \<times> bool" where
  "es_onSelectExternalCommandService req mode = (req, True)"

definition es_onTimer :: "external_selector_mode \<Rightarrow> ('c, 'g, 't, 'z, 'h) es_out list" where
  "es_onTimer mode = [ES_PubMode mode]"

datatype ('c, 's, 'l, 'h) es_event =
    ES_LocalControlCmd 'c | ES_LocalShiftCmd 's | ES_LocalTurnSignalCmd 'l | ES_LocalHeartbeat 'h
  | ES_RemoteControlCmd 'c | ES_RemoteShiftCmd 's | ES_RemoteTurnSignalCmd 'l | ES_RemoteHeartbeat 'h
  | ES_Select external_selector_mode | ES_Timer

definition es_handle ::
  "('s \<Rightarrow> 'g) \<Rightarrow> ('l \<Rightarrow> 't \<times> 'z) \<Rightarrow> ('c, 's, 'l, 'h) es_event \<Rightarrow> external_selector_mode \<Rightarrow>
    external_selector_mode \<times> ('c, 'g, 't, 'z, 'h) es_out list" where
  "es_handle gear light e mode = (case e of
     ES_LocalControlCmd m \<Rightarrow> (mode, es_onLocalControlCmd m mode)
   | ES_LocalShiftCmd m \<Rightarrow> (mode, es_onLocalShiftCmd gear m mode)
   | ES_LocalTurnSignalCmd m \<Rightarrow> (mode, es_onLocalTurnSignalCmd light m mode)
   | ES_LocalHeartbeat m \<Rightarrow> (mode, es_onLocalHeartbeat m mode)
   | ES_RemoteControlCmd m \<Rightarrow> (mode, es_onRemoteControlCmd m mode)
   | ES_RemoteShiftCmd m \<Rightarrow> (mode, es_onRemoteShiftCmd gear m mode)
   | ES_RemoteTurnSignalCmd m \<Rightarrow> (mode, es_onRemoteTurnSignalCmd light m mode)
   | ES_RemoteHeartbeat m \<Rightarrow> (mode, es_onRemoteHeartbeat m mode)
   | ES_Select req \<Rightarrow> (fst (es_onSelectExternalCommandService req mode), [])
   | ES_Timer \<Rightarrow> (mode, es_onTimer mode))"

lemmas es_handler_defs =
  es_onLocalControlCmd_def es_onLocalShiftCmd_def es_onLocalTurnSignalCmd_def es_onLocalHeartbeat_def
  es_onRemoteControlCmd_def es_onRemoteShiftCmd_def es_onRemoteTurnSignalCmd_def es_onRemoteHeartbeat_def
  es_onSelectExternalCommandService_def es_onTimer_def

section \<open>Only the selected source\<close>

definition es_source :: "('c, 's, 'l, 'h) es_event \<Rightarrow> external_selector_mode option" where
  "es_source e = (case e of
     ES_LocalControlCmd m \<Rightarrow> Some Mode_LOCAL | ES_LocalShiftCmd m \<Rightarrow> Some Mode_LOCAL
   | ES_LocalTurnSignalCmd m \<Rightarrow> Some Mode_LOCAL | ES_LocalHeartbeat m \<Rightarrow> Some Mode_LOCAL
   | ES_RemoteControlCmd m \<Rightarrow> Some Mode_REMOTE | ES_RemoteShiftCmd m \<Rightarrow> Some Mode_REMOTE
   | ES_RemoteTurnSignalCmd m \<Rightarrow> Some Mode_REMOTE | ES_RemoteHeartbeat m \<Rightarrow> Some Mode_REMOTE
   | _ \<Rightarrow> None)"

lemma es_forwards_iff_selected:
  "es_source e = Some src \<Longrightarrow> snd (es_handle gear light e mode) \<noteq> [] \<longleftrightarrow> mode = src"
  by (cases e) (auto simp: es_handle_def es_source_def es_handler_defs split: prod.splits)

text \<open>A mode that is neither local nor remote is accepted and cuts off both sources, heartbeats too.\<close>

lemma es_unknown_mode_silences:
  "es_onSelectExternalCommandService (Mode_raw n) mode = (Mode_raw n, True)"
  "es_source e \<noteq> None \<Longrightarrow> snd (es_handle gear light e (Mode_raw n)) = []"
  using es_forwards_iff_selected [where mode = "Mode_raw n" and e = e and gear = gear and light = light]
  by (auto simp: es_onSelectExternalCommandService_def es_source_def split: es_event.splits)

end
