(* ===== verification/Scenario_Selector.thy ===== *)
theory Scenario_Selector
  imports Trajectory_Geometry
begin

text \<open>
  planning/scenario_selector: chooses between lane driving and parking and forwards the trajectory of the
  chosen scenario. What the node asks of the lanelet2 libraries, and the route handler it keeps
  only to know whether the route has been loaded, are the fields of the record \<open>sc_lib\<close>; messages on the
  console are left out.
\<close>

datatype scenario = Scenario_EMPTY | Scenario_LANEDRIVING | Scenario_PARKING

record 'r sc_route =
  rt_goal :: point
  rt_body :: 'r

record ('m, 'l, 'q, 'r, 'h) sc_lib =
  lib_findNearest :: "'m \<Rightarrow> point \<Rightarrow> 'l option"
  lib_within_lanelet :: "point \<Rightarrow> 'l \<Rightarrow> bool"
  lib_getLinkedParkingLot :: "'m \<Rightarrow> point \<Rightarrow> 'q option"
  lib_within_parking_lot :: "point \<Rightarrow> 'q \<Rightarrow> bool"
  lib_route_handler :: "'m \<Rightarrow> 'h"
  lib_setRoute :: "'r sc_route \<Rightarrow> 'h \<Rightarrow> 'h"
  lib_isHandlerReady :: "'h \<Rightarrow> bool"

record sc_param =
  sp_th_max_message_delay_sec :: real
  sp_th_arrived_distance_m :: real
  sp_th_stopped_time_sec :: real
  sp_th_stopped_velocity_mps :: real

record sc_trajectory =
  st_stamp :: time
  st_points :: "trajectory_point list"

record sc_twist =
  sw_stamp :: time
  sw_x :: real

record ('m, 'r, 'h) sc_state =
  sc_lane_driving_trajectory :: "sc_trajectory option"
  sc_parking_trajectory :: "sc_trajectory option"
  sc_route :: "'r sc_route option"
  sc_current_pose :: "point option"
  sc_twist :: "sc_twist option"
  sc_current_scenario :: scenario
  sc_twist_buffer :: "sc_twist list"
  sc_lanelet_map :: "'m option"
  sc_route_handler :: "'h option"
  sc_is_parking_completed :: bool

definition sc_new :: "('m, 'r, 'h) sc_state" where
  "sc_new = \<lparr> sc_lane_driving_trajectory = None, sc_parking_trajectory = None, sc_route = None,
     sc_current_pose = None, sc_twist = None, sc_current_scenario = Scenario_EMPTY, sc_twist_buffer = [],
     sc_lanelet_map = None, sc_route_handler = None, sc_is_parking_completed = False \<rparr>"

section \<open>Where the vehicle is\<close>

definition sc_isInLane :: "('m, 'l, 'q, 'r, 'h) sc_lib \<Rightarrow> 'm \<Rightarrow> point \<Rightarrow> bool" where
  "sc_isInLane lib lmap p =
     (case lib_findNearest lib lmap p of None \<Rightarrow> False | Some l \<Rightarrow> lib_within_lanelet lib p l)"

definition sc_isInParkingLot :: "('m, 'l, 'q, 'r, 'h) sc_lib \<Rightarrow> 'm \<Rightarrow> point \<Rightarrow> bool" where
  "sc_isInParkingLot lib lmap p =
     (case lib_getLinkedParkingLot lib lmap p of None \<Rightarrow> False | Some q \<Rightarrow> lib_within_parking_lot lib p q)"

definition sc_isNearTrajectoryEnd :: "sc_trajectory option \<Rightarrow> point \<Rightarrow> real \<Rightarrow> bool" where
  "sc_isNearTrajectoryEnd trajectory p1 th_dist =
     (case trajectory of
        None \<Rightarrow> False
      | Some traj \<Rightarrow>
          if st_points traj = [] then False
          else let p2 = tp_pose (last (st_points traj))
            in std_hypot (pt_x p1 - pt_x p2) (pt_y p1 - pt_y p2) < th_dist)"

definition sc_isStopped :: "sc_twist list \<Rightarrow> real \<Rightarrow> bool" where
  "sc_isStopped twist_buffer th_stopped_velocity_mps =
     list_all (\<lambda>tw. \<not> \<bar>sw_x tw\<bar> > th_stopped_velocity_mps) twist_buffer"

definition sc_getScenarioTrajectory :: "scenario \<Rightarrow> ('m, 'r, 'h) sc_state \<Rightarrow> sc_trajectory option" where
  "sc_getScenarioTrajectory scenario s =
     (if scenario = Scenario_LANEDRIVING then sc_lane_driving_trajectory s
      else if scenario = Scenario_PARKING then sc_parking_trajectory s
      else sc_lane_driving_trajectory s)"

section \<open>The choice\<close>

definition sc_selectScenarioByPosition ::
  "('m, 'l, 'q, 'r, 'h) sc_lib \<Rightarrow> 'm \<Rightarrow> 'r sc_route \<Rightarrow> point \<Rightarrow> ('m, 'r, 'h) sc_state \<Rightarrow>
    scenario \<times> ('m, 'r, 'h) sc_state" where
  "sc_selectScenarioByPosition lib lmap route pose s =
     (let is_in_lane = sc_isInLane lib lmap pose;
          is_goal_in_lane = sc_isInLane lib lmap (rt_goal route);
          is_in_parking_lot = sc_isInParkingLot lib lmap pose;
          current = sc_current_scenario s
      in if current = Scenario_EMPTY
         then (if is_in_lane \<and> is_goal_in_lane then Scenario_LANEDRIVING
               else if is_in_parking_lot then Scenario_PARKING
               else Scenario_LANEDRIVING, s)
         else if current = Scenario_LANEDRIVING \<and> is_in_parking_lot \<and> \<not> is_goal_in_lane
         then (Scenario_PARKING, s)
         else if current = Scenario_PARKING \<and> sc_is_parking_completed s \<and> is_in_lane
         then (Scenario_LANEDRIVING, s\<lparr> sc_is_parking_completed := False \<rparr>)
         else (current, s))"

definition sc_select ::
  "('m, 'l, 'q, 'r, 'h) sc_lib \<Rightarrow> 'm \<Rightarrow> 'r sc_route \<Rightarrow> point \<Rightarrow> ('m, 'r, 'h) sc_state \<Rightarrow> ('m, 'r, 'h) sc_state" where
  "sc_select lib lmap route pose s =
     (let (scenario, s1) = sc_selectScenarioByPosition lib lmap route pose s
      in s1\<lparr> sc_current_scenario := scenario \<rparr>)"

definition sc_updateCurrentScenario ::
  "('m, 'l, 'q, 'r, 'h) sc_lib \<Rightarrow> sc_param \<Rightarrow> 'm \<Rightarrow> 'r sc_route \<Rightarrow> point \<Rightarrow>
    ('m, 'r, 'h) sc_state \<Rightarrow> ('m, 'r, 'h) sc_state" where
  "sc_updateCurrentScenario lib p lmap route pose s =
     (let scenario_trajectory = sc_getScenarioTrajectory (sc_current_scenario s) s;
          is_near_trajectory_end = sc_isNearTrajectoryEnd scenario_trajectory pose (sp_th_arrived_distance_m p);
          is_stopped = sc_isStopped (sc_twist_buffer s) (sp_th_stopped_velocity_mps p)
      in if is_near_trajectory_end \<and> is_stopped then sc_select lib lmap route pose s else s)"

section \<open>Callbacks\<close>

definition sc_onMap :: "('m, 'l, 'q, 'r, 'h) sc_lib \<Rightarrow> 'm \<Rightarrow> ('m, 'r, 'h) sc_state \<Rightarrow> ('m, 'r, 'h) sc_state" where
  "sc_onMap lib msg s =
     s\<lparr> sc_lanelet_map := Some msg, sc_route_handler := Some (lib_route_handler lib msg) \<rparr>"

definition sc_onRoute :: "'r sc_route \<Rightarrow> ('m, 'r, 'h) sc_state \<Rightarrow> ('m, 'r, 'h) sc_state" where
  "sc_onRoute msg s = s\<lparr> sc_route := Some msg, sc_current_scenario := Scenario_EMPTY \<rparr>"

text \<open>\<open>front()\<close> of an empty deque is undefined behaviour.\<close>

fun sc_drop_old :: "real \<Rightarrow> time \<Rightarrow> sc_twist list \<Rightarrow> sc_twist list option" where
  "sc_drop_old th_stopped_time_sec stamp [] = None"
| "sc_drop_old th_stopped_time_sec stamp (tw # buf) =
     (if seconds (stamp - sw_stamp tw) < th_stopped_time_sec then Some (tw # buf)
      else sc_drop_old th_stopped_time_sec stamp buf)"

definition sc_onOdom ::
  "sc_param \<Rightarrow> point \<Rightarrow> sc_twist \<Rightarrow> ('m, 'r, 'h) sc_state \<Rightarrow> ('m, 'r, 'h) sc_state option" where
  "sc_onOdom p pose twist s =
     map_option (\<lambda>buf. s\<lparr> sc_current_pose := Some pose, sc_twist := Some twist, sc_twist_buffer := buf \<rparr>)
       (sc_drop_old (sp_th_stopped_time_sec p) (sw_stamp twist) (sc_twist_buffer s @ [twist]))"

definition sc_onParkingState :: "bool \<Rightarrow> ('m, 'r, 'h) sc_state \<Rightarrow> ('m, 'r, 'h) sc_state" where
  "sc_onParkingState msg s = s\<lparr> sc_is_parking_completed := msg \<rparr>"

text \<open>The inputs of a tick when all are there; the route handler gets the route on the way.\<close>

definition sc_isDataReady ::
  "('m, 'l, 'q, 'r, 'h) sc_lib \<Rightarrow> ('m, 'r, 'h) sc_state \<Rightarrow>
    (point \<times> 'm \<times> 'r sc_route) option \<times> ('m, 'r, 'h) sc_state" where
  "sc_isDataReady lib s =
     (case (sc_current_pose s, sc_lanelet_map s, sc_route s, sc_twist s, sc_route_handler s) of
        (Some pose, Some lmap, Some route, Some tw, Some handler) \<Rightarrow>
          let handler1 = lib_setRoute lib route handler;
              s1 = s\<lparr> sc_route_handler := Some handler1 \<rparr>
          in if \<not> lib_isHandlerReady lib handler1 then (None, s1) else (Some (pose, lmap, route), s1)
      | _ \<Rightarrow> (None, s))"

datatype sc_out =
    SC_PubScenario scenario "scenario list"
  | SC_PubTrajectory sc_trajectory

definition sc_onTimer ::
  "('m, 'l, 'q, 'r, 'h) sc_lib \<Rightarrow> sc_param \<Rightarrow> ('m, 'r, 'h) sc_state \<Rightarrow> ('m, 'r, 'h) sc_state \<times> sc_out list" where
  "sc_onTimer lib p s =
     (case sc_isDataReady lib s of
        (None, s1) \<Rightarrow> (s1, [])
      | (Some (pose, lmap, route), s1) \<Rightarrow>
          let s2 = (if sc_current_scenario s1 = Scenario_EMPTY then sc_select lib lmap route pose s1 else s1);
              s3 = sc_updateCurrentScenario lib p lmap route pose s2;
              current = sc_current_scenario s3
          in (s3, [SC_PubScenario current (if current = Scenario_PARKING then [current] else [])]))"

definition sc_publishTrajectory :: "sc_param \<Rightarrow> time \<Rightarrow> sc_trajectory \<Rightarrow> sc_out list" where
  "sc_publishTrajectory p now msg =
     (let delay_sec = seconds (now - st_stamp msg)
      in if delay_sec \<le> sp_th_max_message_delay_sec p then [SC_PubTrajectory msg] else [])"

definition sc_onLaneDrivingTrajectory ::
  "sc_param \<Rightarrow> time \<Rightarrow> sc_trajectory \<Rightarrow> ('m, 'r, 'h) sc_state \<Rightarrow> ('m, 'r, 'h) sc_state \<times> sc_out list" where
  "sc_onLaneDrivingTrajectory p now msg s =
     (let s1 = s\<lparr> sc_lane_driving_trajectory := Some msg \<rparr>
      in if sc_current_scenario s1 \<noteq> Scenario_LANEDRIVING then (s1, []) else (s1, sc_publishTrajectory p now msg))"

definition sc_onParkingTrajectory ::
  "sc_param \<Rightarrow> time \<Rightarrow> sc_trajectory \<Rightarrow> ('m, 'r, 'h) sc_state \<Rightarrow> ('m, 'r, 'h) sc_state \<times> sc_out list" where
  "sc_onParkingTrajectory p now msg s =
     (let s1 = s\<lparr> sc_parking_trajectory := Some msg \<rparr>
      in if sc_current_scenario s1 \<noteq> Scenario_PARKING then (s1, []) else (s1, sc_publishTrajectory p now msg))"

datatype ('m, 'r) sc_event =
    SC_Map 'm | SC_Route "'r sc_route" | SC_Odom point sc_twist | SC_ParkingState bool
  | SC_LaneDrivingTrajectory time sc_trajectory | SC_ParkingTrajectory time sc_trajectory | SC_Timer

definition sc_handle ::
  "('m, 'l, 'q, 'r, 'h) sc_lib \<Rightarrow> sc_param \<Rightarrow> ('m, 'r) sc_event \<Rightarrow> ('m, 'r, 'h) sc_state \<Rightarrow>
    (('m, 'r, 'h) sc_state \<times> sc_out list) option" where
  "sc_handle lib p e s = (case e of
     SC_Map m \<Rightarrow> Some (sc_onMap lib m s, [])
   | SC_Route m \<Rightarrow> Some (sc_onRoute m s, [])
   | SC_Odom pose tw \<Rightarrow> map_option (\<lambda>s1. (s1, [])) (sc_onOdom p pose tw s)
   | SC_ParkingState m \<Rightarrow> Some (sc_onParkingState m s, [])
   | SC_LaneDrivingTrajectory now m \<Rightarrow> Some (sc_onLaneDrivingTrajectory p now m s)
   | SC_ParkingTrajectory now m \<Rightarrow> Some (sc_onParkingTrajectory p now m s)
   | SC_Timer \<Rightarrow> Some (sc_onTimer lib p s))"

fun sc_run ::
  "('m, 'l, 'q, 'r, 'h) sc_lib \<Rightarrow> sc_param \<Rightarrow> ('m, 'r) sc_event list \<Rightarrow> ('m, 'r, 'h) sc_state \<Rightarrow>
    (('m, 'r, 'h) sc_state \<times> sc_out list) option" where
  "sc_run lib p [] s = Some (s, [])"
| "sc_run lib p (e # es) s =
     (case sc_handle lib p e s of
        None \<Rightarrow> None
      | Some (s1, out) \<Rightarrow> map_option (\<lambda>(s2, outs). (s2, out @ outs)) (sc_run lib p es s1))"

section \<open>No callback fails\<close>

lemma sc_drop_old_ok: "0 < th \<Longrightarrow> \<exists>buf'. sc_drop_old th (sw_stamp tw) (buf @ [tw]) = Some (buf' @ [tw])"
proof (induction buf)
  case (Cons x buf)
  show ?case
  proof (cases "seconds (sw_stamp tw - sw_stamp x) < th")
    case True
    then show ?thesis by (intro exI [of _ "x # buf"]) simp
  qed (use Cons in simp)
qed (simp add: exI [of _ "[]"])

lemma sc_handle_ok:
  "0 < sp_th_stopped_time_sec p \<Longrightarrow> \<exists>s' out. sc_handle lib p e s = Some (s', out)"
  using sc_drop_old_ok by (cases e) (fastforce simp: sc_handle_def sc_onOdom_def)+

section \<open>When the scenario changes\<close>

lemma sc_select_nonempty: "sc_current_scenario (sc_select lib lmap route pose s) \<noteq> Scenario_EMPTY"
  by (auto simp: sc_select_def sc_selectScenarioByPosition_def Let_def split: prod.splits if_splits)

text \<open>The vehicle stands at the end of the trajectory of its scenario.\<close>

definition sc_standing_at_end :: "sc_param \<Rightarrow> point \<Rightarrow> ('m, 'r, 'h) sc_state \<Rightarrow> bool" where
  "sc_standing_at_end p pose s \<longleftrightarrow>
     sc_isNearTrajectoryEnd (sc_getScenarioTrajectory (sc_current_scenario s) s) pose (sp_th_arrived_distance_m p) \<and>
     sc_isStopped (sc_twist_buffer s) (sp_th_stopped_velocity_mps p)"

text \<open>The switches of a tick that starts with a chosen scenario.\<close>

lemma sc_update_switch:
  assumes "sc_current_scenario s \<noteq> Scenario_EMPTY"
    and "sc_current_scenario (sc_updateCurrentScenario lib p lmap route pose s) \<noteq> sc_current_scenario s"
  shows "sc_standing_at_end p pose s \<and>
    (if sc_current_scenario s = Scenario_LANEDRIVING
     then sc_current_scenario (sc_updateCurrentScenario lib p lmap route pose s) = Scenario_PARKING \<and>
       sc_isInParkingLot lib lmap pose \<and> \<not> sc_isInLane lib lmap (rt_goal route)
     else sc_current_scenario (sc_updateCurrentScenario lib p lmap route pose s) = Scenario_LANEDRIVING \<and>
       sc_is_parking_completed s \<and> sc_isInLane lib lmap pose \<and>
       \<not> sc_is_parking_completed (sc_updateCurrentScenario lib p lmap route pose s))"
  using assms
  by (cases "sc_current_scenario s")
    (auto simp: sc_updateCurrentScenario_def sc_standing_at_end_def sc_select_def sc_selectScenarioByPosition_def
      Let_def split: if_splits)

section \<open>A run of the node\<close>

text \<open>
  The parking scenario is left only on a message that parking is completed, and every such message
  serves at most once: the number of changes from parking to lane driving is at most the number of these
  messages. A new route forgets the scenario and is no such change.
\<close>

fun sc_completed_msgs :: "('m, 'r) sc_event list \<Rightarrow> nat" where
  "sc_completed_msgs [] = 0"
| "sc_completed_msgs (e # es) =
     (case e of SC_ParkingState True \<Rightarrow> Suc (sc_completed_msgs es) | _ \<Rightarrow> sc_completed_msgs es)"

text \<open>The changes at the ticks of a run.\<close>

fun sc_parking_left ::
  "('m, 'l, 'q, 'r, 'h) sc_lib \<Rightarrow> sc_param \<Rightarrow> ('m, 'r) sc_event list \<Rightarrow> ('m, 'r, 'h) sc_state \<Rightarrow> nat" where
  "sc_parking_left lib p [] s = 0"
| "sc_parking_left lib p (e # es) s =
     (case sc_handle lib p e s of
        None \<Rightarrow> 0
      | Some (s1, out) \<Rightarrow>
          (if sc_current_scenario s = Scenario_PARKING \<and> sc_current_scenario s1 = Scenario_LANEDRIVING then 1 else 0) +
          sc_parking_left lib p es s1)"

definition sc_credit :: "('m, 'r, 'h) sc_state \<Rightarrow> nat" where
  "sc_credit s = (if sc_is_parking_completed s then 1 else 0)"

lemma sc_isDataReady_frame:
  "sc_isDataReady lib s = (r, s1) \<Longrightarrow>
   sc_current_scenario s1 = sc_current_scenario s \<and> sc_is_parking_completed s1 = sc_is_parking_completed s"
  by (auto simp: sc_isDataReady_def Let_def split: option.splits if_splits)

lemma sc_update_credit:
  "(if sc_current_scenario s = Scenario_PARKING \<and>
       sc_current_scenario (sc_updateCurrentScenario lib p lmap route pose s) = Scenario_LANEDRIVING then 1 else 0) +
     sc_credit (sc_updateCurrentScenario lib p lmap route pose s) \<le> sc_credit s"
  by (auto simp: sc_credit_def sc_updateCurrentScenario_def sc_select_def sc_selectScenarioByPosition_def Let_def)

lemma sc_select_empty_credit:
  "sc_current_scenario s = Scenario_EMPTY \<Longrightarrow> sc_credit (sc_select lib lmap route pose s) = sc_credit s"
  by (simp add: sc_select_def sc_selectScenarioByPosition_def sc_credit_def Let_def)

lemma sc_timer_credit:
  assumes "sc_onTimer lib p s = (s1, out)"
  shows "(if sc_current_scenario s = Scenario_PARKING \<and> sc_current_scenario s1 = Scenario_LANEDRIVING then 1 else 0) +
    sc_credit s1 \<le> sc_credit s"
proof -
  obtain r s0 where ready: "sc_isDataReady lib s = (r, s0)" by fastforce
  have same: "sc_current_scenario s0 = sc_current_scenario s" "sc_credit s0 = sc_credit s"
    using sc_isDataReady_frame [OF ready] by (simp_all add: sc_credit_def)
  show ?thesis
  proof (cases r)
    case None
    with assms ready same show ?thesis by (simp add: sc_onTimer_def split: if_splits)
  next
    case (Some i)
    obtain pose lmap route where i: "i = (pose, lmap, route)" by (cases i)
    show ?thesis
    proof (cases "sc_current_scenario s0 = Scenario_EMPTY")
      case True
      with assms ready Some i have "s1 = sc_updateCurrentScenario lib p lmap route pose (sc_select lib lmap route pose s0)"
        by (simp add: sc_onTimer_def Let_def)
      with sc_update_credit [of "sc_select lib lmap route pose s0" lib p lmap route pose]
        sc_select_empty_credit [OF True, of lib lmap route pose] True same
      show ?thesis by simp
    next
      case False
      with assms ready Some i have "s1 = sc_updateCurrentScenario lib p lmap route pose s0"
        by (simp add: sc_onTimer_def Let_def)
      with sc_update_credit [of s0 lib p lmap route pose] same show ?thesis by simp
    qed
  qed
qed

lemma sc_handle_credit:
  assumes "sc_handle lib p e s = Some (s1, out)"
  shows "(if sc_current_scenario s = Scenario_PARKING \<and> sc_current_scenario s1 = Scenario_LANEDRIVING then 1 else 0) +
    sc_credit s1 \<le> sc_credit s + (case e of SC_ParkingState True \<Rightarrow> 1 | _ \<Rightarrow> 0)"
proof (cases e)
  case SC_Timer
  with assms sc_timer_credit [of lib p s s1 out] show ?thesis by (simp add: sc_handle_def)
qed (use assms in \<open>auto simp: sc_handle_def sc_onMap_def sc_onRoute_def sc_onOdom_def sc_onParkingState_def
  sc_onLaneDrivingTrajectory_def sc_onParkingTrajectory_def sc_credit_def Let_def split: if_splits bool.splits\<close>)

lemma sc_run_credit: "sc_parking_left lib p es s \<le> sc_credit s + sc_completed_msgs es"
proof (induction es arbitrary: s)
  case (Cons e es)
  show ?case
  proof (cases "sc_handle lib p e s")
    case (Some r)
    obtain s1 out where r: "r = (s1, out)" by fastforce
    from sc_handle_credit [of lib p e s s1 out] Some r Cons.IH [of s1]
    show ?thesis by (cases e) (auto split: bool.splits if_splits)
  qed simp
qed simp

lemma sc_update_nonempty:
  "sc_current_scenario s \<noteq> Scenario_EMPTY \<Longrightarrow>
   sc_current_scenario (sc_updateCurrentScenario lib p lmap route pose s) \<noteq> Scenario_EMPTY"
  by (simp add: sc_updateCurrentScenario_def Let_def sc_select_nonempty)

lemma sc_timer_out:
  assumes "sc_onTimer lib p s = (s', out)" and "SC_PubScenario c a \<in> set out"
  shows "c = sc_current_scenario s' \<and> c \<noteq> Scenario_EMPTY \<and> a = (if c = Scenario_PARKING then [c] else [])"
proof -
  from assms obtain pose lmap route s0 where "sc_isDataReady lib s = (Some (pose, lmap, route), s0)"
    by (auto simp: sc_onTimer_def split: prod.splits option.splits)
  with assms have out: "out = [SC_PubScenario (sc_current_scenario s')
      (if sc_current_scenario s' = Scenario_PARKING then [sc_current_scenario s'] else [])]"
    and "s' = sc_updateCurrentScenario lib p lmap route pose
      (if sc_current_scenario s0 = Scenario_EMPTY then sc_select lib lmap route pose s0 else s0)"
    by (auto simp: sc_onTimer_def Let_def split: if_splits)
  then have "sc_current_scenario s' \<noteq> Scenario_EMPTY"
    by (simp add: sc_update_nonempty sc_select_nonempty)
  with out assms(2) show ?thesis by simp
qed

lemma sc_handle_out:
  assumes "sc_handle lib p e s = Some (s', out)" and "SC_PubScenario c a \<in> set out"
  shows "c \<noteq> Scenario_EMPTY \<and> a = (if c = Scenario_PARKING then [c] else [])"
  using assms sc_timer_out [of lib p s s' out c a]
  by (cases e) (auto simp: sc_handle_def sc_onLaneDrivingTrajectory_def sc_onParkingTrajectory_def
      sc_publishTrajectory_def Let_def split: if_splits)

text \<open>For every sequence of messages and ticks no callback of the scenario selector fails (the stop time being positive), every published scenario is lane driving or parking with parking activated exactly in the second case, and the changes from parking to lane driving are at most as many as the messages that parking is completed: each one that leaves the parking scenario uses up such a message.\<close>

theorem sc_parking_left_when_completed:
  assumes "0 < sp_th_stopped_time_sec p"
  shows "(\<exists>s' outs. sc_run lib p es sc_new = Some (s', outs) \<and>
      (\<forall>c a. SC_PubScenario c a \<in> set outs \<longrightarrow>
         c \<noteq> Scenario_EMPTY \<and> a = (if c = Scenario_PARKING then [c] else []))) \<and>
    sc_parking_left lib p es sc_new \<le> sc_completed_msgs es"
proof -
  have "\<exists>s' outs. sc_run lib p es s = Some (s', outs) \<and>
      (\<forall>c a. SC_PubScenario c a \<in> set outs \<longrightarrow>
         c \<noteq> Scenario_EMPTY \<and> a = (if c = Scenario_PARKING then [c] else []))" for s
  proof (induction es arbitrary: s)
    case (Cons e es)
    obtain s1 out where 1: "sc_handle lib p e s = Some (s1, out)" using sc_handle_ok [OF assms] by blast
    from Cons.IH [of s1] obtain s2 outs where 2: "sc_run lib p es s1 = Some (s2, outs)"
      "\<forall>c a. SC_PubScenario c a \<in> set outs \<longrightarrow> c \<noteq> Scenario_EMPTY \<and> a = (if c = Scenario_PARKING then [c] else [])"
      by blast
    from 1 2 sc_handle_out [OF 1] show ?case by auto
  qed simp
  moreover have "sc_parking_left lib p es sc_new \<le> sc_completed_msgs es"
    using sc_run_credit [of lib p es sc_new] by (simp add: sc_credit_def sc_new_def)
  ultimately show ?thesis by blast
qed

text \<open>A map with one lane, along the positive x axis, and a parking lot before the origin.\<close>

definition sc_ex_lib :: "(unit, unit, unit, unit, unit) sc_lib" where
  "sc_ex_lib = \<lparr> lib_findNearest = (\<lambda>m p. Some ()), lib_within_lanelet = (\<lambda>p l. 0 \<le> pt_x p),
     lib_getLinkedParkingLot = (\<lambda>m p. Some ()), lib_within_parking_lot = (\<lambda>p q. pt_x p \<le> 0),
     lib_route_handler = (\<lambda>m. ()), lib_setRoute = (\<lambda>r h. h), lib_isHandlerReady = (\<lambda>h. True) \<rparr>"

abbreviation sc_ex_pose :: "real \<Rightarrow> pose" where
  "sc_ex_pose x \<equiv> \<lparr> pt_x = x, pt_y = 0, pt_z = 0, po_pitch = 0, po_yaw = 0 \<rparr>"

abbreviation sc_ex_events :: "(unit, unit) sc_event list" where
  "sc_ex_events \<equiv> [SC_Map (), SC_Route \<lparr> rt_goal = \<lparr> pt_x = - 1, pt_y = 0, pt_z = 0 \<rparr>, rt_body = () \<rparr>,
     SC_Odom \<lparr> pt_x = 0, pt_y = 0, pt_z = 0 \<rparr> \<lparr> sw_stamp = 0, sw_x = 0 \<rparr>, SC_Timer,
     SC_ParkingTrajectory 0 \<lparr> st_stamp = 0, st_points =
        [\<lparr> tp_pose = sc_ex_pose 0, tp_longitudinal_velocity_mps = 0, tp_acceleration_mps2 = 0 \<rparr>] \<rparr>,
     SC_ParkingState True, SC_Timer]"

abbreviation sc_ex_param :: sc_param where
  "sc_ex_param \<equiv> \<lparr> sp_th_max_message_delay_sec = 1, sp_th_arrived_distance_m = 1, sp_th_stopped_time_sec = 1,
     sp_th_stopped_velocity_mps = 1 / 100 \<rparr>"

text \<open>Both counts are one: the example parks, completes and drives on.\<close>

lemma sc_parking_left_when_completed_witness:
  "sc_parking_left sc_ex_lib sc_ex_param sc_ex_events sc_new \<le> 1 \<and>
   sc_parking_left sc_ex_lib sc_ex_param sc_ex_events sc_new = 1"
proof -
  have "0 < sp_th_stopped_time_sec sc_ex_param" by simp
  from sc_parking_left_when_completed [OF this, of sc_ex_lib sc_ex_events]
  have "sc_parking_left sc_ex_lib sc_ex_param sc_ex_events sc_new \<le> 1" by simp
  moreover have "sc_parking_left sc_ex_lib sc_ex_param sc_ex_events sc_new = 1"
    by (simp add: sc_handle_def sc_onMap_def sc_onRoute_def sc_onOdom_def sc_onTimer_def sc_isDataReady_def
        sc_new_def sc_ex_lib_def sc_select_def sc_selectScenarioByPosition_def sc_updateCurrentScenario_def
        sc_isInLane_def sc_isInParkingLot_def sc_getScenarioTrajectory_def sc_isNearTrajectoryEnd_def
        sc_isStopped_def sc_onParkingTrajectory_def sc_onParkingState_def std_hypot_def Let_def)
  ultimately show ?thesis by simp
qed

section \<open>The first scenario\<close>

text \<open>
  Outside every lane and parking lot the first scenario is lane driving; in a lane that overlaps a parking
  lot, with a goal outside the lanes, it is parking.
\<close>

lemma sc_first_scenario:
  assumes "sc_current_scenario s = Scenario_EMPTY"
  shows "sc_current_scenario (sc_select lib lmap route pose s) = Scenario_PARKING \<longleftrightarrow>
    sc_isInParkingLot lib lmap pose \<and> \<not> (sc_isInLane lib lmap pose \<and> sc_isInLane lib lmap (rt_goal route))"
  using assms by (simp add: sc_select_def sc_selectScenarioByPosition_def Let_def)

end
