(* ===== verification/Freespace_Algorithm.thy ===== *)
theory Freespace_Algorithm
  imports Trajectory_Geometry "HOL-Library.Product_Lexorder"
begin

text \<open>
  planning/freespace_planning_algorithms, abstract_algorithm: poses on a grid map and the collision check
  of the vehicle's footprint against the map. Reading a vector beyond its end with
  \<open>operator[]\<close> is undefined behaviour and the result \<open>None\<close>. The transformations between map and
  grid coordinates are tf2 functions and parameters (fields of \<open>fs_tf\<close>). Doubles are real numbers and
  \<open>int\<close> does not overflow.
\<close>

record occupancy_grid =
  og_resolution :: real
  og_width :: nat
  og_height :: nat
  og_data :: "int list"
  og_origin :: pose

record index_xyt =
  ix_x :: int
  ix_y :: int
  ix_theta :: int

type_synonym index_xy = "int \<times> int"

record vehicle_shape =
  vs_length :: real
  vs_width :: real
  vs_base2back :: real

record planner_common_param =
  pc_time_limit :: real
  pc_minimum_turning_radius :: real
  pc_maximum_turning_radius :: real
  pc_turning_radius_size :: int
  pc_theta_size :: int
  pc_curve_weight :: real
  pc_reverse_weight :: real
  pc_lateral_goal_range :: real
  pc_longitudinal_goal_range :: real
  pc_angle_goal_range :: real
  pc_obstacle_threshold :: int

record planner_waypoint =
  pw_pose :: pose
  pw_is_back :: bool

record fs_tf =
  tf_global2local :: "pose \<Rightarrow> pose \<Rightarrow> pose"
  tf_local2global :: "pose \<Rightarrow> pose \<Rightarrow> pose"

record fs_algorithm =
  fs_param :: planner_common_param
  fs_shape :: vehicle_shape
  fs_costmap :: occupancy_grid
  fs_coll_indexes_table :: "index_xy list list"
  fs_vertex_indexes_table :: "index_xy list list"
  fs_is_obstacle_table :: "bool list list"
  fs_start_pose :: pose
  fs_goal_pose :: pose
  fs_waypoints :: "planner_waypoint list"

section \<open>Angles and indices\<close>

text \<open>\<open>normalizeRadian\<close> with its second argument, and \<open>std::rint\<close>, which rounds ties to even.\<close>

definition normalizeRadian_from :: "real \<Rightarrow> real \<Rightarrow> real" where
  "normalizeRadian_from rad min_rad =
     (let max_rad = min_rad + 2 * pi; v = fmod rad (2 * pi) in
      if min_rad \<le> v \<and> v < max_rad then v else v - copysign (2 * pi) v)"

definition std_rint :: "real \<Rightarrow> int" where
  "std_rint x =
     (let f = \<lfloor>x\<rfloor>; d = x - of_int f
      in if d < 1 / 2 then f else if 1 / 2 < d then f + 1 else if even f then f else f + 1)"

definition fs_discretizeAngle :: "real \<Rightarrow> int \<Rightarrow> int" where
  "fs_discretizeAngle theta theta_size =
     (let one_angle_range = 2 * pi / of_int theta_size
      in std_rint (normalizeRadian_from theta 0 / one_angle_range) mod theta_size)"

text \<open>The conversion of a double to an int drops the fraction.\<close>

definition c_trunc :: "real \<Rightarrow> int" where
  "c_trunc x = (if 0 \<le> x then \<lfloor>x\<rfloor> else \<lceil>x\<rceil>)"

definition fs_pose2index :: "occupancy_grid \<Rightarrow> 'a pose_scheme \<Rightarrow> int \<Rightarrow> index_xyt" where
  "fs_pose2index costmap pose_local theta_size =
     \<lparr> ix_x = c_trunc (pt_x pose_local / og_resolution costmap),
       ix_y = c_trunc (pt_y pose_local / og_resolution costmap),
       ix_theta = fs_discretizeAngle (po_yaw pose_local) theta_size \<rparr>"

text \<open>The yaw that is read back from a quaternion made from an angle.\<close>

definition fs_getYaw :: "real \<Rightarrow> real" where
  "fs_getYaw yaw = std_atan2 (sin yaw) (cos yaw)"

definition fs_index2pose :: "occupancy_grid \<Rightarrow> index_xyt \<Rightarrow> int \<Rightarrow> pose" where
  "fs_index2pose costmap index theta_size =
     (let one_angle_range = 2 * pi / of_int theta_size
      in \<lparr> pt_x = of_int (ix_x index) * og_resolution costmap,
           pt_y = of_int (ix_y index) * og_resolution costmap, pt_z = 0,
           po_pitch = 0, po_yaw = fs_getYaw (of_int (ix_theta index) * one_angle_range) \<rparr>)"

definition fs_global2local :: "fs_tf \<Rightarrow> occupancy_grid \<Rightarrow> pose \<Rightarrow> pose" where
  "fs_global2local tf costmap = tf_global2local tf (og_origin costmap)"

definition fs_local2global :: "fs_tf \<Rightarrow> occupancy_grid \<Rightarrow> pose \<Rightarrow> pose" where
  "fs_local2global tf costmap = tf_local2global tf (og_origin costmap)"

section \<open>The footprint\<close>

text \<open>The values of the loop \<open>for (x = from; x <= to; x += step)\<close>; without end it has none.\<close>

partial_function (option) fs_range :: "real \<Rightarrow> real \<Rightarrow> real \<Rightarrow> real list option" where
  "fs_range x to step =
     (if x \<le> to then Option.bind (fs_range (x + step) to step) (\<lambda>xs. Some (x # xs)) else Some [])"

definition fs_footprint_cell :: "occupancy_grid \<Rightarrow> real \<Rightarrow> real \<Rightarrow> real \<Rightarrow> index_xy" where
  "fs_footprint_cell costmap base_theta x y =
     (let offset_x = cos base_theta * x - sin base_theta * y;
          offset_y = sin base_theta * x + cos base_theta * y
      in (c_trunc (offset_x / og_resolution costmap), c_trunc (offset_y / og_resolution costmap)))"

text \<open>The points of the rectangle at which it is sampled, and its corners.\<close>

definition fs_samples :: "real \<Rightarrow> vehicle_shape \<Rightarrow> (real \<times> real) list option" where
  "fs_samples resolution shape =
     (let back = - 1 * vs_base2back shape; front = vs_length shape - vs_base2back shape;
          right = - 1 * vs_width shape / 2; left = vs_width shape / 2
      in Option.bind (fs_range back front (resolution / 2)) (\<lambda>xs.
         Option.bind (fs_range right left (resolution / 2)) (\<lambda>ys.
           Some (concat (map (\<lambda>x. map (Pair x) ys @ [(x, left)]) xs) @ map (Pair front) ys @ [(front, left)]))))"

definition fs_corners :: "vehicle_shape \<Rightarrow> (real \<times> real) list" where
  "fs_corners shape =
     (let back = - 1 * vs_base2back shape; front = vs_length shape - vs_base2back shape;
          right = - 1 * vs_width shape / 2; left = vs_width shape / 2
      in [(front, left), (front, right), (back, right), (back, left)])"

definition fs_computeCollisionIndexes :: "int \<Rightarrow> fs_algorithm \<Rightarrow> (index_xy list \<times> index_xy list) option" where
  "fs_computeCollisionIndexes theta_index s =
     (let base_index = \<lparr> ix_x = 0, ix_y = 0, ix_theta = theta_index \<rparr>;
          base_theta = po_yaw (fs_index2pose (fs_costmap s) base_index (pc_theta_size (fs_param s)));
          cell = (\<lambda>(x, y). fs_footprint_cell (fs_costmap s) base_theta x y)
      in Option.bind (fs_samples (og_resolution (fs_costmap s)) (fs_shape s)) (\<lambda>samples.
           Some (remdups_adj (sort (map cell samples)), map cell (fs_corners (fs_shape s)))))"

section \<open>The map\<close>

definition fs_obstacle_table :: "int \<Rightarrow> occupancy_grid \<Rightarrow> bool list list option" where
  "fs_obstacle_table obstacle_threshold costmap =
     (let height = og_height costmap; width = og_width costmap; data = og_data costmap
      in if length data < height * width then None
         else Some (map (\<lambda>i. map (\<lambda>j.
             let cost = data ! (i * width + j) in cost < 0 \<or> obstacle_threshold \<le> cost) [0..<width]) [0..<height]))"

text \<open>The tables of the footprint are appended to those of earlier maps.\<close>

definition fs_setMap :: "occupancy_grid \<Rightarrow> fs_algorithm \<Rightarrow> fs_algorithm option" where
  "fs_setMap costmap s0 =
     (let s = s0\<lparr> fs_costmap := costmap \<rparr>
      in Option.bind (fs_obstacle_table (pc_obstacle_threshold (fs_param s)) costmap) (\<lambda>is_obstacle_table.
         Option.bind (those (map (\<lambda>i. fs_computeCollisionIndexes (int i) s) [0..<nat (pc_theta_size (fs_param s))]))
           (\<lambda>tables. Some (s\<lparr> fs_is_obstacle_table := is_obstacle_table,
              fs_coll_indexes_table := fs_coll_indexes_table s @ map fst tables,
              fs_vertex_indexes_table := fs_vertex_indexes_table s @ map snd tables \<rparr>))))"

section \<open>Collision check\<close>

definition fs_isOutOfRange :: "fs_algorithm \<Rightarrow> int \<Rightarrow> int \<Rightarrow> bool" where
  "fs_isOutOfRange s x y \<longleftrightarrow>
     x < 0 \<or> int (og_width (fs_costmap s)) \<le> x \<or> y < 0 \<or> int (og_height (fs_costmap s)) \<le> y"

definition fs_isObs :: "fs_algorithm \<Rightarrow> int \<Rightarrow> int \<Rightarrow> bool option" where
  "fs_isObs s x y =
     (let table = fs_is_obstacle_table s
      in if y < 0 \<or> int (length table) \<le> y then None
         else if x < 0 \<or> int (length (table ! nat y)) \<le> x then None
         else Some (table ! nat y ! nat x))"

fun fs_any_obstacle :: "fs_algorithm \<Rightarrow> index_xyt \<Rightarrow> index_xy list \<Rightarrow> bool option" where
  "fs_any_obstacle s base_index [] = Some False"
| "fs_any_obstacle s base_index ((x, y) # cells) =
     (case fs_isObs s (x + ix_x base_index) (y + ix_y base_index) of
        None \<Rightarrow> None
      | Some True \<Rightarrow> Some True
      | Some False \<Rightarrow> fs_any_obstacle s base_index cells)"

definition fs_detectCollision :: "fs_algorithm \<Rightarrow> index_xyt \<Rightarrow> bool option" where
  "fs_detectCollision s base_index =
     (if fs_coll_indexes_table s = [] then Some False
      else let theta = ix_theta base_index
        in if theta < 0 \<or> int (length (fs_vertex_indexes_table s)) \<le> theta \<or>
              int (length (fs_coll_indexes_table s)) \<le> theta then None
           else if list_ex (\<lambda>(x, y). fs_isOutOfRange s (x + ix_x base_index) (y + ix_y base_index))
                     (fs_vertex_indexes_table s ! nat theta) then Some True
           else fs_any_obstacle s base_index (fs_coll_indexes_table s ! nat theta))"

fun fs_hasObstacleOnTrajectory :: "fs_tf \<Rightarrow> fs_algorithm \<Rightarrow> pose list \<Rightarrow> bool option" where
  "fs_hasObstacleOnTrajectory tf s [] = Some False"
| "fs_hasObstacleOnTrajectory tf s (pose # poses) =
     (let pose_local = fs_global2local tf (fs_costmap s) pose;
          index = fs_pose2index (fs_costmap s) pose_local (pc_theta_size (fs_param s))
      in case fs_detectCollision s index of
           None \<Rightarrow> None
         | Some True \<Rightarrow> Some True
         | Some False \<Rightarrow> fs_hasObstacleOnTrajectory tf s poses)"

text \<open>The length of a path. For an empty one an exception is made but not thrown, and \<open>at(0)\<close> throws another.\<close>

definition fs_compute_length :: "planner_waypoint list \<Rightarrow> real option" where
  "fs_compute_length waypoints =
     (if waypoints = [] then None
      else Some (\<Sum>i \<leftarrow> [0..<length waypoints - 1].
        calcDistance2d (pw_pose (waypoints ! i)) (pw_pose (waypoints ! (i + 1)))))"

section \<open>Angles have an index\<close>

lemma normalizeRadian_from_0: "0 \<le> normalizeRadian_from a 0 \<and> normalizeRadian_from a 0 < 2 * pi"
  using fmod_range [of "2 * pi" a] pi_gt_zero
  by (auto simp: normalizeRadian_from_def copysign_def Let_def)

lemma std_rint_bounds: "0 \<le> x \<Longrightarrow> x < of_int n \<Longrightarrow> 0 \<le> std_rint x \<and> std_rint x \<le> n"
proof -
  assume "0 \<le> x" "x < of_int n"
  then have "0 \<le> \<lfloor>x\<rfloor>" "\<lfloor>x\<rfloor> < n" by (simp_all add: floor_less_iff)
  then show ?thesis by (simp add: std_rint_def Let_def)
qed

lemma std_rint_int [simp]: "std_rint (of_int n) = n"
  by (simp add: std_rint_def)

lemma fs_discretizeAngle_range:
  "0 < n \<Longrightarrow> 0 \<le> fs_discretizeAngle theta n \<and> fs_discretizeAngle theta n < n"
  by (simp add: fs_discretizeAngle_def Let_def)

text \<open>The angle that belongs to an index has this index.\<close>

lemma fs_discretizeAngle_of_index:
  assumes "0 \<le> i" and "i < n"
  shows "fs_discretizeAngle (2 * pi / of_int n * of_int i) n = i"
proof -
  let ?a = "2 * pi / real_of_int n * of_int i"
  have n: "0 < real_of_int n" using assms by simp
  have frac: "?a / (2 * pi) = of_int i / of_int n" using n pi_gt_zero by simp
  have "0 \<le> real_of_int i / of_int n" "real_of_int i / of_int n < 1" using assms n by simp_all
  then have "fmod ?a (2 * pi) = ?a" unfolding fmod_def frac by (simp add: floor_unique)
  moreover have "0 \<le> ?a" "?a < 2 * pi" using assms n pi_gt_zero by (simp_all add: divide_simps)
  ultimately have "normalizeRadian_from ?a 0 = ?a" by (simp add: normalizeRadian_from_def Let_def)
  moreover have "?a / (2 * pi / of_int n) = of_int i" using n pi_gt_zero by simp
  ultimately show ?thesis using assms by (simp add: fs_discretizeAngle_def Let_def)
qed

text \<open>An angle that is read back as zero has the index zero, and a right angle is read back as it is.\<close>

lemma fs_getYaw_cis: "fs_getYaw t = Arg (cis t)"
  by (simp add: fs_getYaw_def std_atan2_def cis.ctr)

lemma fs_getYaw_0_index:
  assumes "fs_getYaw t = 0"
  shows "fs_discretizeAngle t n = 0"
proof -
  have "cis t = cis (Arg (cis t))" by (simp add: cis_Arg)
  then have "cis t = 1" using assms by (simp add: fs_getYaw_cis)
  then have "cos t = 1" by (simp add: complex_eq_iff)
  then obtain k :: int where "t = of_int k * 2 * pi" by (auto simp: cos_one_2pi_int)
  then have "fmod t (2 * pi) = 0" by (simp add: fmod_def)
  then show ?thesis by (simp add: fs_discretizeAngle_def normalizeRadian_from_def std_rint_def Let_def)
qed

lemma fs_getYaw_simps [simp]: "fs_getYaw 0 = 0" "fs_getYaw (pi / 2) = pi / 2"
proof -
  have "Arg (cis t) = t" if "- pi < t" "t \<le> pi" for t
    using that by (intro cis_Arg_unique) (simp_all add: sgn_div_norm)
  from this [of 0] this [of "pi / 2"] show "fs_getYaw 0 = 0" "fs_getYaw (pi / 2) = pi / 2"
    using pi_gt_zero by (simp_all add: fs_getYaw_cis)
qed

lemma fs_pose2index_theta:
  "0 < n \<Longrightarrow> 0 \<le> ix_theta (fs_pose2index costmap pose n) \<and> ix_theta (fs_pose2index costmap pose n) < n"
  by (simp add: fs_pose2index_def fs_discretizeAngle_range)

section \<open>The samples lie between the corners\<close>

lemma c_trunc_mono: "x \<le> y \<Longrightarrow> c_trunc x \<le> c_trunc y"
proof -
  assume le: "x \<le> y"
  show ?thesis
  proof (cases "0 \<le> x \<or> y < 0")
    case True
    then show ?thesis using le by (auto simp: c_trunc_def intro: floor_mono ceiling_mono)
  next
    case False
    then have "\<lceil>x\<rceil> \<le> 0" "0 \<le> \<lfloor>y\<rfloor>" by (simp_all add: ceiling_le_iff)
    then have "\<lceil>x\<rceil> \<le> \<lfloor>y\<rfloor>" by linarith
    with False show ?thesis by (simp add: c_trunc_def)
  qed
qed

lemma fs_range_ok:
  assumes "0 < step"
  shows "\<exists>xs. fs_range x to step = Some xs \<and> (\<forall>y \<in> set xs. x \<le> y \<and> y \<le> to)"
proof (induction "nat \<lceil>(to - x) / step\<rceil>" arbitrary: x rule: less_induct)
  case less
  show ?case
  proof (cases "x + step \<le> to")
    case True
    have "(to - (x + step)) / step = (to - x) / step - 1" using assms by (simp add: field_simps)
    then have "\<lceil>(to - (x + step)) / step\<rceil> = \<lceil>(to - x) / step\<rceil> - 1" by simp
    moreover have "1 \<le> (to - x) / step" using True assms by (simp add: field_simps)
    then have "1 \<le> \<lceil>(to - x) / step\<rceil>" by linarith
    ultimately have "nat \<lceil>(to - (x + step)) / step\<rceil> < nat \<lceil>(to - x) / step\<rceil>" by linarith
    from less [OF this] obtain xs where
      xs: "fs_range (x + step) to step = Some xs" "\<forall>y \<in> set xs. x + step \<le> y \<and> y \<le> to" by blast
    have "fs_range x to step = Some (x # xs)"
      using True assms xs(1) by (subst fs_range.simps) simp
    moreover have "\<forall>y \<in> set (x # xs). x \<le> y \<and> y \<le> to" using xs(2) True assms by force
    ultimately show ?thesis by blast
  next
    case False
    then have "fs_range (x + step) to step = Some []" by (subst fs_range.simps) simp
    then have "fs_range x to step = Some (if x \<le> to then [x] else [])" by (subst fs_range.simps) simp
    then show ?thesis by simp
  qed
qed

text \<open>A coordinate that is linear in x and y is between its values at the corners.\<close>

lemma fs_linear_between:
  fixes a b x y :: real
  assumes "x1 \<le> x \<and> x \<le> x2 \<or> x = x2" and "y1 \<le> y \<and> y \<le> y2 \<or> y = y2"
  shows "\<exists>(u, v) \<in> {(x2, y2), (x2, y1), (x1, y1), (x1, y2)}. a * x + b * y \<le> a * u + b * v"
    and "\<exists>(u, v) \<in> {(x2, y2), (x2, y1), (x1, y1), (x1, y2)}. a * u + b * v \<le> a * x + b * y"
proof -
  have "\<exists>u \<in> {x1, x2}. a * x \<le> a * u" "\<exists>u \<in> {x1, x2}. a * u \<le> a * x"
    using assms(1) by (cases "0 \<le> a"; auto intro: mult_left_mono mult_left_mono_neg)+
  moreover have "\<exists>v \<in> {y1, y2}. b * y \<le> b * v" "\<exists>v \<in> {y1, y2}. b * v \<le> b * y"
    using assms(2) by (cases "0 \<le> b"; auto intro: mult_left_mono mult_left_mono_neg)+
  ultimately show "\<exists>(u, v) \<in> {(x2, y2), (x2, y1), (x1, y1), (x1, y2)}. a * x + b * y \<le> a * u + b * v"
    "\<exists>(u, v) \<in> {(x2, y2), (x2, y1), (x1, y1), (x1, y2)}. a * u + b * v \<le> a * x + b * y"
    by (auto intro: add_mono)
qed

definition fs_boxed :: "index_xy list \<Rightarrow> index_xy list \<Rightarrow> bool" where
  "fs_boxed cells corners \<longleftrightarrow>
     (\<forall>(x, y) \<in> set cells. (\<exists>(u, v) \<in> set corners. x \<le> u) \<and> (\<exists>(u, v) \<in> set corners. u \<le> x) \<and>
        (\<exists>(u, v) \<in> set corners. y \<le> v) \<and> (\<exists>(u, v) \<in> set corners. v \<le> y)) \<and> corners \<noteq> []"

lemma fs_samples_ok:
  assumes "0 < resolution"
  obtains samples where "fs_samples resolution shape = Some samples"
    "\<forall>(x, y) \<in> set samples.
      (- vs_base2back shape \<le> x \<and> x \<le> vs_length shape - vs_base2back shape \<or>
        x = vs_length shape - vs_base2back shape) \<and>
      (- (vs_width shape / 2) \<le> y \<and> y \<le> vs_width shape / 2 \<or> y = vs_width shape / 2)"
proof -
  have pos: "0 < resolution / 2" using assms by simp
  obtain xs where xs: "fs_range (- vs_base2back shape) (vs_length shape - vs_base2back shape) (resolution / 2) = Some xs"
    "\<forall>x \<in> set xs. - vs_base2back shape \<le> x \<and> x \<le> vs_length shape - vs_base2back shape"
    using fs_range_ok [OF pos] by blast
  obtain ys where ys: "fs_range (- (vs_width shape / 2)) (vs_width shape / 2) (resolution / 2) = Some ys"
    "\<forall>y \<in> set ys. - (vs_width shape / 2) \<le> y \<and> y \<le> vs_width shape / 2"
    using fs_range_ok [OF pos] by blast
  show ?thesis
    using xs ys by (intro that) (auto simp: fs_samples_def Let_def)
qed

lemma fs_cell_between:
  assumes res: "0 < og_resolution costmap"
    and "x1 \<le> x \<and> x \<le> x2 \<or> x = x2" and "y1 \<le> y \<and> y \<le> y2 \<or> y = y2"
  shows "fs_boxed [fs_footprint_cell costmap t x y]
    (map (\<lambda>(x, y). fs_footprint_cell costmap t x y) [(x2, y2), (x2, y1), (x1, y1), (x1, y2)])"
proof -
  have mono: "c_trunc (a / og_resolution costmap) \<le> c_trunc (b / og_resolution costmap)" if "a \<le> b" for a b
    using that res by (intro c_trunc_mono divide_right_mono) simp_all
  note c = fs_linear_between [OF assms(2,3), where a = "cos t" and b = "- sin t"]
  note s = fs_linear_between [OF assms(2,3), where a = "sin t" and b = "cos t"]
  show ?thesis
    unfolding fs_boxed_def fs_footprint_cell_def Let_def
    using c s by (auto dest!: mono)
qed

lemma fs_computeCollisionIndexes_ok:
  assumes "0 < og_resolution (fs_costmap s)"
  obtains cells corners where "fs_computeCollisionIndexes theta s = Some (cells, corners)" "fs_boxed cells corners"
proof -
  obtain samples where samples: "fs_samples (og_resolution (fs_costmap s)) (fs_shape s) = Some samples"
    "\<forall>(x, y) \<in> set samples.
      (- vs_base2back (fs_shape s) \<le> x \<and> x \<le> vs_length (fs_shape s) - vs_base2back (fs_shape s) \<or>
        x = vs_length (fs_shape s) - vs_base2back (fs_shape s)) \<and>
      (- (vs_width (fs_shape s) / 2) \<le> y \<and> y \<le> vs_width (fs_shape s) / 2 \<or> y = vs_width (fs_shape s) / 2)"
    using fs_samples_ok [OF assms] .
  define t where "t = po_yaw (fs_index2pose (fs_costmap s) \<lparr>ix_x = 0, ix_y = 0, ix_theta = theta\<rparr> (pc_theta_size (fs_param s)))"
  define cell where "cell = (\<lambda>(x, y). fs_footprint_cell (fs_costmap s) t x y)"
  have "fs_boxed [cell q] (map cell (fs_corners (fs_shape s)))" if "q \<in> set samples" for q
    using fs_cell_between [OF assms] samples(2) that
    by (auto simp: cell_def fs_corners_def Let_def)
  then have "fs_boxed (remdups_adj (sort (map cell samples))) (map cell (fs_corners (fs_shape s)))"
    by (auto simp: fs_boxed_def fs_corners_def Let_def)
  with samples(1) show ?thesis
    by (intro that) (simp_all add: fs_computeCollisionIndexes_def Let_def t_def [symmetric] cell_def [symmetric])
qed

section \<open>What the collision check means\<close>

text \<open>The tables fit together: one pair of entries per angle, and the table of the map its size.\<close>

definition fs_wf :: "fs_algorithm \<Rightarrow> bool" where
  "fs_wf s \<longleftrightarrow>
     length (fs_vertex_indexes_table s) = length (fs_coll_indexes_table s) \<and>
     (\<forall>i < length (fs_coll_indexes_table s). fs_boxed (fs_coll_indexes_table s ! i) (fs_vertex_indexes_table s ! i)) \<and>
     (fs_coll_indexes_table s \<noteq> [] \<longrightarrow>
        length (fs_is_obstacle_table s) = og_height (fs_costmap s) \<and>
        (\<forall>row \<in> set (fs_is_obstacle_table s). length row = og_width (fs_costmap s)) \<and>
        pc_theta_size (fs_param s) \<le> int (length (fs_coll_indexes_table s)))"

definition og_ok :: "occupancy_grid \<Rightarrow> bool" where
  "og_ok costmap \<longleftrightarrow> 0 < og_resolution costmap \<and> og_height costmap * og_width costmap \<le> length (og_data costmap)"

lemma those_ok:
  "(\<And>x. x \<in> set xs \<Longrightarrow> \<exists>y. f x = Some y \<and> P y) \<Longrightarrow>
   \<exists>ys. those (map f xs) = Some ys \<and> length ys = length xs \<and> (\<forall>y \<in> set ys. P y)"
  by (induction xs) fastforce+

lemma fs_setMap_ok:
  assumes "fs_wf s0" and "og_ok costmap"
  shows "\<exists>s. fs_setMap costmap s0 = Some s \<and> fs_wf s \<and> fs_costmap s = costmap \<and>
    fs_param s = fs_param s0 \<and> fs_shape s = fs_shape s0 \<and>
    length (fs_coll_indexes_table s) = length (fs_coll_indexes_table s0) + nat (pc_theta_size (fs_param s0)) \<and>
    fs_is_obstacle_table s = map (\<lambda>i. map (\<lambda>j. og_data costmap ! (i * og_width costmap + j) < 0 \<or>
      pc_obstacle_threshold (fs_param s0) \<le> og_data costmap ! (i * og_width costmap + j)) [0..<og_width costmap])
      [0..<og_height costmap]"
proof -
  define s where "s = s0\<lparr> fs_costmap := costmap \<rparr>"
  have res: "0 < og_resolution (fs_costmap s)" using assms(2) by (simp add: s_def og_ok_def)
  have "\<exists>y. fs_computeCollisionIndexes (int i) s = Some y \<and> fs_boxed (fst y) (snd y)" for i
    using fs_computeCollisionIndexes_ok [OF res, of "int i"] by (metis fst_conv snd_conv)
  then obtain tables where t:
    "those (map (\<lambda>i. fs_computeCollisionIndexes (int i) s) [0..<nat (pc_theta_size (fs_param s))]) = Some tables"
    "length tables = nat (pc_theta_size (fs_param s0))" "\<forall>y \<in> set tables. fs_boxed (fst y) (snd y)"
    using those_ok [of "[0..<nat (pc_theta_size (fs_param s))]" "\<lambda>i. fs_computeCollisionIndexes (int i) s"
        "\<lambda>y. fs_boxed (fst y) (snd y)"] by (auto simp: s_def)
  have "fs_setMap costmap s0 = Some (s\<lparr> fs_is_obstacle_table :=
      the (fs_obstacle_table (pc_obstacle_threshold (fs_param s)) costmap),
      fs_coll_indexes_table := fs_coll_indexes_table s @ map fst tables,
      fs_vertex_indexes_table := fs_vertex_indexes_table s @ map snd tables \<rparr>)"
    using t(1) assms(2) by (simp add: fs_setMap_def s_def fs_obstacle_table_def og_ok_def Let_def)
  then show ?thesis
    using assms t(2,3)
    by (auto simp: s_def fs_wf_def fs_obstacle_table_def og_ok_def Let_def nth_append all_set_conv_all_nth)
qed

text \<open>Between corners inside the map, every cell is inside.\<close>

lemma fs_cells_inside:
  assumes "fs_boxed cells corners"
    and "\<not> list_ex (\<lambda>(x, y). fs_isOutOfRange s (x + bx) (y + by')) corners" and "(x, y) \<in> set cells"
  shows "0 \<le> x + bx \<and> x + bx < int (og_width (fs_costmap s)) \<and>
    0 \<le> y + by' \<and> y + by' < int (og_height (fs_costmap s))"
proof -
  have all: "0 \<le> u + bx \<and> u + bx < int (og_width (fs_costmap s)) \<and>
      0 \<le> v + by' \<and> v + by' < int (og_height (fs_costmap s))" if "(u, v) \<in> set corners" for u v
    using assms(2) that by (force simp: list_ex_iff fs_isOutOfRange_def)
  from assms(1,3) obtain u1 v1 u2 v2 u3 v3 u4 v4 where
    "(u1, v1) \<in> set corners" "x \<le> u1" "(u2, v2) \<in> set corners" "u2 \<le> x"
    "(u3, v3) \<in> set corners" "y \<le> v3" "(u4, v4) \<in> set corners" "v4 \<le> y"
    by (fastforce simp: fs_boxed_def)
  with all [of u1 v1] all [of u2 v2] all [of u3 v3] all [of u4 v4] show ?thesis by linarith
qed

lemma fs_any_obstacle_ok:
  assumes "length (fs_is_obstacle_table s) = og_height (fs_costmap s)"
    and "\<forall>row \<in> set (fs_is_obstacle_table s). length row = og_width (fs_costmap s)"
    and "\<forall>(x, y) \<in> set cells. 0 \<le> x + ix_x b \<and> x + ix_x b < int (og_width (fs_costmap s)) \<and>
      0 \<le> y + ix_y b \<and> y + ix_y b < int (og_height (fs_costmap s))"
  shows "fs_any_obstacle s b cells =
    Some (\<exists>(x, y) \<in> set cells. fs_is_obstacle_table s ! nat (y + ix_y b) ! nat (x + ix_x b))"
  using assms(3)
proof (induction cells)
  case (Cons c cells)
  obtain x y where c: "c = (x, y)" by fastforce
  with Cons.prems have in_range: "0 \<le> x + ix_x b" "x + ix_x b < int (og_width (fs_costmap s))"
    "0 \<le> y + ix_y b" "y + ix_y b < int (og_height (fs_costmap s))" by auto
  then have "nat (y + ix_y b) < length (fs_is_obstacle_table s)" using assms(1) by simp
  then have "length (fs_is_obstacle_table s ! nat (y + ix_y b)) = og_width (fs_costmap s)" using assms(2) by simp
  with in_range assms(1) have
    "fs_isObs s (x + ix_x b) (y + ix_y b) = Some (fs_is_obstacle_table s ! nat (y + ix_y b) ! nat (x + ix_x b))"
    by (simp add: fs_isObs_def Let_def)
  with Cons c show ?case by (auto split: bool.splits)
qed simp

lemma fs_detectCollision_ok:
  assumes "fs_wf s" and "0 \<le> ix_theta b" and "ix_theta b < pc_theta_size (fs_param s)"
    and "fs_coll_indexes_table s \<noteq> []"
  shows "fs_detectCollision s b = Some
    ((\<exists>(x, y) \<in> set (fs_vertex_indexes_table s ! nat (ix_theta b)). fs_isOutOfRange s (x + ix_x b) (y + ix_y b)) \<or>
     (\<exists>(x, y) \<in> set (fs_coll_indexes_table s ! nat (ix_theta b)).
        fs_is_obstacle_table s ! nat (y + ix_y b) ! nat (x + ix_x b)))"
proof -
  let ?t = "nat (ix_theta b)"
  have t: "?t < length (fs_coll_indexes_table s)" using assms by (auto simp: fs_wf_def)
  with assms have "fs_boxed (fs_coll_indexes_table s ! ?t) (fs_vertex_indexes_table s ! ?t)"
    and len: "length (fs_vertex_indexes_table s) = length (fs_coll_indexes_table s)" by (simp_all add: fs_wf_def)
  note inside = fs_cells_inside [OF this(1), of s "ix_x b" "ix_y b"]
  have guard: "\<not> (ix_theta b < 0 \<or> int (length (fs_vertex_indexes_table s)) \<le> ix_theta b \<or>
      int (length (fs_coll_indexes_table s)) \<le> ix_theta b)"
    using t len assms(2) by linarith
  show ?thesis
  proof (cases "list_ex (\<lambda>(x, y). fs_isOutOfRange s (x + ix_x b) (y + ix_y b)) (fs_vertex_indexes_table s ! ?t)")
    case True
    with guard assms(4) show ?thesis by (auto simp: fs_detectCollision_def Let_def list_ex_iff)
  next
    case False
    have "\<forall>(x, y) \<in> set (fs_coll_indexes_table s ! ?t). 0 \<le> x + ix_x b \<and> x + ix_x b < int (og_width (fs_costmap s)) \<and>
        0 \<le> y + ix_y b \<and> y + ix_y b < int (og_height (fs_costmap s))"
      using inside [OF False] by blast
    from fs_any_obstacle_ok [OF _ _ this] assms(1,4) guard False show ?thesis
      by (auto simp: fs_detectCollision_def Let_def fs_wf_def list_ex_iff)
  qed
qed

lemma fs_isOutOfRange_False:
  "\<not> fs_isOutOfRange s x y \<longleftrightarrow> 0 \<le> x \<and> x < int (og_width (fs_costmap s)) \<and> 0 \<le> y \<and> y < int (og_height (fs_costmap s))"
  by (auto simp: fs_isOutOfRange_def)

definition fs_new :: "planner_common_param \<Rightarrow> vehicle_shape \<Rightarrow> occupancy_grid \<Rightarrow> pose \<Rightarrow> fs_algorithm" where
  "fs_new param shape costmap pose =
     \<lparr> fs_param = param, fs_shape = shape, fs_costmap = costmap, fs_coll_indexes_table = [],
       fs_vertex_indexes_table = [], fs_is_obstacle_table = [], fs_start_pose = pose, fs_goal_pose = pose,
       fs_waypoints = [] \<rparr>"

lemma fs_wf_new [simp]: "fs_wf (fs_new param shape costmap pose)"
  by (simp add: fs_wf_def fs_new_def)

text \<open>The cells of the footprint for an angle index, as they are on a new map.\<close>

definition fs_yaw_of :: "int \<Rightarrow> int \<Rightarrow> real" where
  "fs_yaw_of theta_size theta = fs_getYaw (of_int theta * (2 * pi / of_int theta_size))"

definition fs_free :: "int \<Rightarrow> occupancy_grid \<Rightarrow> int \<Rightarrow> int \<Rightarrow> bool" where
  "fs_free threshold costmap x y \<longleftrightarrow>
     0 \<le> x \<and> x < int (og_width costmap) \<and> 0 \<le> y \<and> y < int (og_height costmap) \<and>
     0 \<le> og_data costmap ! (nat y * og_width costmap + nat x) \<and>
     og_data costmap ! (nat y * og_width costmap + nat x) < threshold"

text \<open>
  What the footprint tables hold for every angle index in use: the cells of the rectangle on the map \<open>g0\<close>.
  The tables grow with every map, so that \<open>g0\<close> is the first one.
\<close>

definition fs_tables_of :: "occupancy_grid \<Rightarrow> fs_algorithm \<Rightarrow> bool" where
  "fs_tables_of g0 s \<longleftrightarrow>
     (\<exists>samples. fs_samples (og_resolution g0) (fs_shape s) = Some samples \<and>
        (\<forall>theta. 0 \<le> theta \<and> theta < pc_theta_size (fs_param s) \<longrightarrow>
           nat theta < length (fs_coll_indexes_table s) \<and> nat theta < length (fs_vertex_indexes_table s) \<and>
           set (fs_coll_indexes_table s ! nat theta) =
             (\<lambda>(x, y). fs_footprint_cell g0 (fs_yaw_of (pc_theta_size (fs_param s)) theta) x y) ` set samples \<and>
           set (fs_vertex_indexes_table s ! nat theta) =
             (\<lambda>(x, y). fs_footprint_cell g0 (fs_yaw_of (pc_theta_size (fs_param s)) theta) x y) ` set (fs_corners (fs_shape s))))"

lemma fs_setMap_first_tables:
  assumes "fs_setMap costmap s0 = Some s" and "fs_coll_indexes_table s0 = []" and "fs_vertex_indexes_table s0 = []"
    and "og_ok costmap"
  shows "fs_tables_of costmap s"
proof -
  obtain samples where samples: "fs_samples (og_resolution costmap) (fs_shape s0) = Some samples"
    using fs_samples_ok [of "og_resolution costmap" "fs_shape s0"] assms(4) by (auto simp: og_ok_def)
  define s1 where "s1 = s0\<lparr> fs_costmap := costmap \<rparr>"
  let ?n = "pc_theta_size (fs_param s0)"
  have tables: "fs_computeCollisionIndexes i s1 = Some
      (remdups_adj (sort (map (\<lambda>(x, y). fs_footprint_cell costmap (fs_yaw_of ?n i) x y) samples)),
       map (\<lambda>(x, y). fs_footprint_cell costmap (fs_yaw_of ?n i) x y) (fs_corners (fs_shape s0)))" for i
    using samples by (simp add: fs_computeCollisionIndexes_def s1_def fs_index2pose_def fs_yaw_of_def Let_def)
  have "those (map (\<lambda>i. fs_computeCollisionIndexes (int i) s1) js) =
      Some (map (\<lambda>i. the (fs_computeCollisionIndexes (int i) s1)) js)" for js
    by (induction js) (simp_all add: tables)
  with assms(1-3) have "fs_coll_indexes_table s = map (\<lambda>i. fst (the (fs_computeCollisionIndexes (int i) s1))) [0..<nat ?n]"
    "fs_vertex_indexes_table s = map (\<lambda>i. snd (the (fs_computeCollisionIndexes (int i) s1))) [0..<nat ?n]"
    "fs_param s = fs_param s0" "fs_shape s = fs_shape s0"
    by (auto simp: fs_setMap_def s1_def Let_def o_def split: bind_splits)
  with samples show ?thesis by (auto simp: fs_tables_of_def tables)
qed

lemma fs_setMap_later_tables:
  assumes "fs_setMap costmap s0 = Some s" and "fs_tables_of g0 s0"
  shows "fs_tables_of g0 s"
proof -
  have "fs_param s = fs_param s0" "fs_shape s = fs_shape s0"
    "\<exists>xs. fs_coll_indexes_table s = fs_coll_indexes_table s0 @ xs"
    "\<exists>xs. fs_vertex_indexes_table s = fs_vertex_indexes_table s0 @ xs"
    using assms(1) by (auto simp: fs_setMap_def Let_def split: bind_splits)
  then obtain xs ys where later: "fs_param s = fs_param s0" "fs_shape s = fs_shape s0"
    "fs_coll_indexes_table s = fs_coll_indexes_table s0 @ xs" "fs_vertex_indexes_table s = fs_vertex_indexes_table s0 @ ys"
    by blast
  have "k < length as \<Longrightarrow> k < length (as @ bs) \<and> (as @ bs) ! k = as ! k" for k :: nat and as bs :: "index_xy list list"
    by (simp add: nth_append)
  with assms(2) show ?thesis unfolding fs_tables_of_def later by metis
qed

text \<open>
  The vehicle's rectangle, with its footprint on \<open>g0\<close>, does not collide on the map at the cell and angle of the index:
  its corners lie inside the map, and its samples in cells of known cost below the threshold.
\<close>

definition fs_rectangle_free ::
  "planner_common_param \<Rightarrow> vehicle_shape \<Rightarrow> occupancy_grid \<Rightarrow> occupancy_grid \<Rightarrow> index_xyt \<Rightarrow> bool" where
  "fs_rectangle_free param shape g0 costmap b \<longleftrightarrow>
     (\<exists>samples. fs_samples (og_resolution g0) shape = Some samples \<and>
        (\<forall>(x, y) \<in> set (fs_corners shape).
           let (u, v) = fs_footprint_cell g0 (fs_yaw_of (pc_theta_size param) (ix_theta b)) x y
           in 0 \<le> u + ix_x b \<and> u + ix_x b < int (og_width costmap) \<and> 0 \<le> v + ix_y b \<and> v + ix_y b < int (og_height costmap)) \<and>
        (\<forall>(x, y) \<in> set samples.
           let (u, v) = fs_footprint_cell g0 (fs_yaw_of (pc_theta_size param) (ix_theta b)) x y
           in fs_free (pc_obstacle_threshold param) costmap (u + ix_x b) (v + ix_y b)))"

lemma fs_detectCollision_iff:
  assumes s: "fs_setMap costmap s0 = Some s" "fs_wf s0" "og_ok costmap" "fs_tables_of g0 s"
    and theta: "0 \<le> ix_theta b" "ix_theta b < pc_theta_size (fs_param s)"
  shows "\<exists>collision. fs_detectCollision s b = Some collision \<and>
    (\<not> collision \<longleftrightarrow> fs_rectangle_free (fs_param s) (fs_shape s) g0 costmap b)"
proof -
  let ?cell = "\<lambda>(x, y). fs_footprint_cell g0 (fs_yaw_of (pc_theta_size (fs_param s)) (ix_theta b)) x y"
  let ?t = "nat (ix_theta b)"
  obtain s' where s': "fs_setMap costmap s0 = Some s'" "fs_wf s'" "fs_costmap s' = costmap" "fs_param s' = fs_param s0"
    "fs_is_obstacle_table s' = map (\<lambda>i. map (\<lambda>j. og_data costmap ! (i * og_width costmap + j) < 0 \<or>
      pc_obstacle_threshold (fs_param s0) \<le> og_data costmap ! (i * og_width costmap + j)) [0..<og_width costmap])
      [0..<og_height costmap]"
    using fs_setMap_ok [OF s(2,3)] by blast
  have "s' = s" using s'(1) s(1) by simp
  note wf = s'(2,3) [unfolded this] and table = s'(5) [folded s'(4), unfolded this]
  obtain samples where samples: "fs_samples (og_resolution g0) (fs_shape s) = Some samples"
    and all: "\<forall>theta. 0 \<le> theta \<and> theta < pc_theta_size (fs_param s) \<longrightarrow>
           nat theta < length (fs_coll_indexes_table s) \<and> nat theta < length (fs_vertex_indexes_table s) \<and>
           set (fs_coll_indexes_table s ! nat theta) =
             (\<lambda>(x, y). fs_footprint_cell g0 (fs_yaw_of (pc_theta_size (fs_param s)) theta) x y) ` set samples \<and>
           set (fs_vertex_indexes_table s ! nat theta) =
             (\<lambda>(x, y). fs_footprint_cell g0 (fs_yaw_of (pc_theta_size (fs_param s)) theta) x y) ` set (fs_corners (fs_shape s))"
    using s(4) unfolding fs_tables_of_def by (elim exE conjE) (rule that; assumption)
  have tables: "?t < length (fs_coll_indexes_table s)" "set (fs_coll_indexes_table s ! ?t) = ?cell ` set samples"
      "set (fs_vertex_indexes_table s ! ?t) = ?cell ` set (fs_corners (fs_shape s))"
    using all [rule_format, of "ix_theta b"] theta by simp_all
  then have "fs_coll_indexes_table s \<noteq> []" by auto
  from fs_detectCollision_ok [OF wf(1) theta this]
  have check: "fs_detectCollision s b = Some
    ((\<exists>(x, y) \<in> set (fs_vertex_indexes_table s ! ?t). fs_isOutOfRange s (x + ix_x b) (y + ix_y b)) \<or>
     (\<exists>(x, y) \<in> set (fs_coll_indexes_table s ! ?t). fs_is_obstacle_table s ! nat (y + ix_y b) ! nat (x + ix_x b)))" .
  have boxed: "fs_boxed (fs_coll_indexes_table s ! ?t) (fs_vertex_indexes_table s ! ?t)"
    using wf(1) tables(1) by (simp add: fs_wf_def)
  have corners: "\<not> (\<exists>(x, y) \<in> set (fs_vertex_indexes_table s ! ?t). fs_isOutOfRange s (x + ix_x b) (y + ix_y b)) \<longleftrightarrow>
      (\<forall>(x, y) \<in> set (fs_corners (fs_shape s)). let (u, v) = ?cell (x, y)
         in 0 \<le> u + ix_x b \<and> u + ix_x b < int (og_width costmap) \<and> 0 \<le> v + ix_y b \<and> v + ix_y b < int (og_height costmap))"
    using tables(3) wf(2) by (auto simp: fs_isOutOfRange_False Ball_def split_beta Let_def)
  have cells: "\<not> (\<exists>(x, y) \<in> set (fs_coll_indexes_table s ! ?t). fs_is_obstacle_table s ! nat (y + ix_y b) ! nat (x + ix_x b)) \<longleftrightarrow>
      (\<forall>(x, y) \<in> set samples. let (u, v) = ?cell (x, y)
         in fs_free (pc_obstacle_threshold (fs_param s)) costmap (u + ix_x b) (v + ix_y b))"
    if out: "\<not> (\<exists>(x, y) \<in> set (fs_vertex_indexes_table s ! ?t). fs_isOutOfRange s (x + ix_x b) (y + ix_y b))"
  proof -
    from out have "\<not> list_ex (\<lambda>(x, y). fs_isOutOfRange s (x + ix_x b) (y + ix_y b)) (fs_vertex_indexes_table s ! ?t)"
      by (auto simp: list_ex_iff)
    from fs_cells_inside [OF boxed this] wf(2) have inside: "0 \<le> u + ix_x b \<and> u + ix_x b < int (og_width costmap) \<and>
        0 \<le> v + ix_y b \<and> v + ix_y b < int (og_height costmap)" if "(u, v) \<in> set (fs_coll_indexes_table s ! ?t)" for u v
      using that by blast
    then have "\<not> fs_is_obstacle_table s ! nat (v + ix_y b) ! nat (u + ix_x b) \<longleftrightarrow>
        fs_free (pc_obstacle_threshold (fs_param s)) costmap (u + ix_x b) (v + ix_y b)"
      if "(u, v) \<in> set (fs_coll_indexes_table s ! ?t)" for u v
      using that [THEN inside] by (auto simp: table fs_free_def)
    then show ?thesis using tables(2) by (auto simp: Ball_def split_beta Let_def)
  qed
  have rectangle: "fs_rectangle_free (fs_param s) (fs_shape s) g0 costmap b \<longleftrightarrow>
      (\<forall>(x, y) \<in> set (fs_corners (fs_shape s)). let (u, v) = ?cell (x, y)
         in 0 \<le> u + ix_x b \<and> u + ix_x b < int (og_width costmap) \<and> 0 \<le> v + ix_y b \<and> v + ix_y b < int (og_height costmap)) \<and>
      (\<forall>(x, y) \<in> set samples. let (u, v) = ?cell (x, y)
         in fs_free (pc_obstacle_threshold (fs_param s)) costmap (u + ix_x b) (v + ix_y b))"
    by (simp only: fs_rectangle_free_def samples option.inject simp_thms prod.case)
  show ?thesis unfolding rectangle using check corners cells by blast
qed

text \<open>The collision check reads no table beyond its end and decides what it is meant to decide. After setMap with a map whose data are complete and whose resolution is positive, for every cell and every angle index below theta_size the check returns, and it returns false if and only if the four corners of the vehicle's rectangle at this position and angle lie inside the map and every sampled point of the rectangle lies in a cell whose cost is known (not negative) and below the obstacle threshold.\<close>

theorem fs_detectCollision_free_iff:
  assumes "og_ok costmap" and "0 \<le> ix_theta b" and "ix_theta b < pc_theta_size param"
  shows "\<exists>s collision. fs_setMap costmap (fs_new param shape costmap0 pose) = Some s \<and>
    fs_detectCollision s b = Some collision \<and> (\<not> collision \<longleftrightarrow> fs_rectangle_free param shape costmap costmap b)"
proof -
  from fs_setMap_ok [OF fs_wf_new assms(1), of param shape costmap0 pose] obtain s where
    s: "fs_setMap costmap (fs_new param shape costmap0 pose) = Some s" "fs_param s = param" "fs_shape s = shape"
    by (auto simp: fs_new_def)
  have "fs_tables_of costmap s" by (rule fs_setMap_first_tables [OF s(1) _ _ assms(1)]) (simp_all add: fs_new_def)
  from fs_detectCollision_iff [OF s(1) fs_wf_new assms(1) this] assms(2,3) s show ?thesis by auto
qed

text \<open>The check does not look at the start and the goal.\<close>

lemma fs_any_obstacle_poses [simp]:
  "fs_any_obstacle (s\<lparr> fs_start_pose := p, fs_goal_pose := q \<rparr>) b cells = fs_any_obstacle s b cells"
  by (induction cells) (auto simp: fs_isObs_def split: option.split bool.split)

lemma fs_detectCollision_poses [simp]:
  "fs_detectCollision (s\<lparr> fs_start_pose := p, fs_goal_pose := q \<rparr>) b = fs_detectCollision s b"
  by (simp add: fs_detectCollision_def fs_isOutOfRange_def Let_def)

text \<open>A map of one free cell and a vehicle that is a point.\<close>

abbreviation fs_ex_pose :: pose where
  "fs_ex_pose \<equiv> \<lparr> pt_x = 0, pt_y = 0, pt_z = 0, po_pitch = 0, po_yaw = 0 \<rparr>"

abbreviation fs_ex_map :: occupancy_grid where
  "fs_ex_map \<equiv> \<lparr> og_resolution = 1, og_width = 1, og_height = 1, og_data = [0], og_origin = fs_ex_pose \<rparr>"

abbreviation fs_ex_param :: planner_common_param where
  "fs_ex_param \<equiv> \<lparr> pc_time_limit = 1000, pc_minimum_turning_radius = 1, pc_maximum_turning_radius = 1,
     pc_turning_radius_size = 1, pc_theta_size = 4, pc_curve_weight = 1, pc_reverse_weight = 1,
     pc_lateral_goal_range = 1, pc_longitudinal_goal_range = 1, pc_angle_goal_range = 10, pc_obstacle_threshold = 100 \<rparr>"

abbreviation fs_ex_shape :: vehicle_shape where
  "fs_ex_shape \<equiv> \<lparr> vs_length = 0, vs_width = 0, vs_base2back = 0 \<rparr>"

lemma fs_ex_range [simp]: "fs_range 0 0 (1 / 2) = Some [0]"
  by (subst fs_range.simps, simp, subst fs_range.simps, simp)

lemma fs_ex_rectangle_free:
  assumes "ix_x b = 0" and "ix_y b = 0" and "pc_obstacle_threshold param = 100"
  shows "fs_rectangle_free param fs_ex_shape fs_ex_map fs_ex_map b"
proof -
  obtain samples where "fs_samples (og_resolution fs_ex_map) fs_ex_shape = Some samples" "set samples = {(0, 0)}"
    by (auto simp: fs_samples_def)
  then show ?thesis
    using assms by (simp add: fs_rectangle_free_def fs_corners_def fs_footprint_cell_def c_trunc_def fs_free_def)
qed

lemma fs_detectCollision_free_iff_witness:
  "\<exists>s. fs_setMap fs_ex_map (fs_new fs_ex_param fs_ex_shape fs_ex_map fs_ex_pose) = Some s \<and>
    fs_detectCollision s \<lparr> ix_x = 0, ix_y = 0, ix_theta = 3 \<rparr> = Some False"
proof -
  let ?b = "\<lparr> ix_x = 0, ix_y = 0, ix_theta = 3 \<rparr>"
  have "og_ok fs_ex_map" "0 \<le> ix_theta ?b" "ix_theta ?b < pc_theta_size fs_ex_param" by (simp_all add: og_ok_def)
  from fs_detectCollision_free_iff [OF this, of fs_ex_shape fs_ex_map fs_ex_pose] fs_ex_rectangle_free [of ?b fs_ex_param]
  show ?thesis by auto
qed

text \<open>On this map the vehicle is free at every angle.\<close>

lemma fs_ex_free:
  assumes param: "pc_obstacle_threshold param = 100" "pc_theta_size param = 4"
  shows "\<exists>s. fs_setMap fs_ex_map (fs_new param fs_ex_shape fs_ex_map fs_ex_pose) = Some s \<and>
    (\<forall>t. 0 \<le> t \<and> t < 4 \<longrightarrow> fs_detectCollision s \<lparr> ix_x = 0, ix_y = 0, ix_theta = t \<rparr> = Some False)"
proof -
  have og: "og_ok fs_ex_map" by (simp add: og_ok_def)
  from fs_setMap_ok [OF fs_wf_new this, of param fs_ex_shape fs_ex_map fs_ex_pose] obtain s where
    s: "fs_setMap fs_ex_map (fs_new param fs_ex_shape fs_ex_map fs_ex_pose) = Some s"
      "fs_param s = param" "fs_shape s = fs_ex_shape"
    by (auto simp: fs_new_def)
  have tables: "fs_tables_of fs_ex_map s"
    by (rule fs_setMap_first_tables [OF s(1) _ _ og]) (simp_all add: fs_new_def)
  have "fs_detectCollision s \<lparr> ix_x = 0, ix_y = 0, ix_theta = t \<rparr> = Some False" if t: "0 \<le> t" "t < 4" for t
    using fs_detectCollision_iff [OF s(1) fs_wf_new og tables, of "\<lparr> ix_x = 0, ix_y = 0, ix_theta = t \<rparr>"] t
      fs_ex_rectangle_free [of "\<lparr> ix_x = 0, ix_y = 0, ix_theta = t \<rparr>", OF _ _ param(1)] s(2,3) param(2) by auto
  with s(1) show ?thesis by blast
qed

section \<open>A second map, and poses beside the map\<close>

text \<open>
  The tables of the footprint are never cleared: they grow with every map, and the entries in use stay those
  of the first map, whatever the resolution of the later ones.
\<close>

lemma fs_second_map_keeps_footprint:
  assumes "fs_setMap costmap s0 = Some s" and "i < length (fs_coll_indexes_table s0)"
    and "length (fs_vertex_indexes_table s0) = length (fs_coll_indexes_table s0)"
  shows "fs_coll_indexes_table s ! i = fs_coll_indexes_table s0 ! i \<and>
    fs_vertex_indexes_table s ! i = fs_vertex_indexes_table s0 ! i"
  using assms by (auto simp: fs_setMap_def Let_def nth_append split: bind_splits)

text \<open>Dropping the fraction puts a pose up to one cell beside the map into its first column.\<close>

lemma fs_beside_the_map:
  assumes "- og_resolution costmap < pt_x pose" and "pt_x pose < 0" and "0 < og_resolution costmap"
  shows "ix_x (fs_pose2index costmap pose n) = 0"
proof -
  have "- 1 < pt_x pose / og_resolution costmap" "pt_x pose / og_resolution costmap < 0"
    using assms by (simp_all add: field_simps)
  then show ?thesis by (simp add: fs_pose2index_def c_trunc_def ceiling_eq_iff)
qed

end
