(* ===== verification/Astar_Search.thy ===== *)
theory Astar_Search
  imports Freespace_Algorithm "HOL-Library.Multiset"
begin

text \<open>
  planning/freespace_planning_algorithms, astar_search: the hybrid A* search of the free-space planner. The
  nodes of the graph are kept under the keys of \<open>getKey\<close>, pointers to nodes are these keys. The Reeds-Shepp
  distance of the heuristic, the relative pose (a tf2 transformation) and the order in which
  \<open>std::priority_queue\<close> gives out elements of equal cost are parameters. The loop of the search has
  fuel; a theorem states how much is enough.
\<close>

section \<open>The priority queue\<close>

text \<open>What \<open>top\<close> followed by \<open>pop\<close> promises: an element of smallest cost and the others.\<close>

locale std_priority_queue =
  fixes pop :: "('a \<Rightarrow> real) \<Rightarrow> 'a list \<Rightarrow> 'a \<times> 'a list"
  assumes pop_elements: "q \<noteq> [] \<Longrightarrow> pop cost q = (x, rest) \<Longrightarrow> mset q = add_mset x (mset rest)"
    and pop_smallest: "q \<noteq> [] \<Longrightarrow> pop cost q = (x, rest) \<Longrightarrow> y \<in> set q \<Longrightarrow> cost x \<le> cost y"
begin

lemma pop_set: "q \<noteq> [] \<Longrightarrow> pop cost q = (x, rest) \<Longrightarrow> set q = insert x (set rest)"
  by (drule (1) pop_elements) (metis set_mset_add_mset_insert set_mset_mset)

lemma pop_distinct:
  assumes "distinct q" and "q \<noteq> []" and "pop cost q = (x, rest)"
  shows "distinct rest \<and> x \<notin> set rest"
proof -
  have "mset q = mset (x # rest)" using pop_elements [OF assms(2,3)] by simp
  then have "distinct (x # rest)" using assms(1) by (metis mset_eq_imp_distinct_iff)
  then show ?thesis by simp
qed

end

text \<open>The first element of smallest cost.\<close>

fun pq_first_min :: "('a \<Rightarrow> real) \<Rightarrow> 'a list \<Rightarrow> 'a \<times> 'a list" where
  "pq_first_min cost [] = undefined"
| "pq_first_min cost [x] = (x, [])"
| "pq_first_min cost (x # y # q) =
     (let (m, rest) = pq_first_min cost (y # q)
      in if cost x \<le> cost m then (x, y # q) else (m, x # rest))"

lemma pq_first_min_ok:
  "q \<noteq> [] \<Longrightarrow> pq_first_min cost q = (x, rest) \<Longrightarrow>
   mset q = add_mset x (mset rest) \<and> (\<forall>y \<in> set q. cost x \<le> cost y)"
proof (induction cost q arbitrary: x rest rule: pq_first_min.induct)
  case (3 cost x y q)
  obtain m r where m: "pq_first_min cost (y # q) = (m, r)" by fastforce
  with "3.IH" have "mset (y # q) = add_mset m (mset r)" "\<forall>z \<in> set (y # q). cost m \<le> cost z" by auto
  with "3.prems" m show ?case by (auto split: if_splits intro: order_trans)
qed auto

interpretation pq: std_priority_queue pq_first_min
  by (unfold_locales; drule (1) pq_first_min_ok; simp)

section \<open>Moves\<close>

record node_update =
  nu_shift_x :: real
  nu_shift_y :: real
  nu_shift_theta :: real
  nu_distance :: real
  nu_is_curve :: bool
  nu_is_back :: bool

definition nu_rotated :: "real \<Rightarrow> node_update \<Rightarrow> node_update" where
  "nu_rotated theta nu =
     nu\<lparr> nu_shift_x := cos theta * nu_shift_x nu - sin theta * nu_shift_y nu,
         nu_shift_y := sin theta * nu_shift_x nu + cos theta * nu_shift_y nu \<rparr>"

definition nu_flipped :: "node_update \<Rightarrow> node_update" where
  "nu_flipped nu = nu\<lparr> nu_shift_y := - nu_shift_y nu, nu_shift_theta := - nu_shift_theta nu \<rparr>"

definition nu_reversed :: "node_update \<Rightarrow> node_update" where
  "nu_reversed nu =
     nu\<lparr> nu_shift_x := - nu_shift_x nu, nu_shift_theta := - nu_shift_theta nu, nu_is_back := \<not> nu_is_back nu \<rparr>"

definition as_forward_candidates :: "real \<Rightarrow> real \<Rightarrow> int \<Rightarrow> int \<Rightarrow> node_update list" where
  "as_forward_candidates R_min R_max turning_radius_size theta_size =
     (let dtheta = 2 * pi / of_int theta_size;
          step_min = R_min * dtheta;
          dR = (R_max - R_min) / of_int (max (turning_radius_size - 1) 1);
          forward_straight = \<lparr> nu_shift_x = step_min, nu_shift_y = 0, nu_shift_theta = 0, nu_distance = step_min,
            nu_is_curve = False, nu_is_back = False \<rparr>
      in forward_straight # concat (map (\<lambda>i.
           let R = R_min + of_int i * dR; step = R * dtheta;
               forward_left = \<lparr> nu_shift_x = R * sin dtheta, nu_shift_y = R * (1 - cos dtheta),
                 nu_shift_theta = dtheta, nu_distance = step, nu_is_curve = True, nu_is_back = False \<rparr>
           in [forward_left, nu_flipped forward_left]) [0..turning_radius_size - 1]))"

definition as_createTransitionTable :: "real \<Rightarrow> real \<Rightarrow> int \<Rightarrow> int \<Rightarrow> bool \<Rightarrow> node_update list list" where
  "as_createTransitionTable R_min R_max turning_radius_size theta_size use_back =
     (let dtheta = 2 * pi / of_int theta_size;
          candidates = as_forward_candidates R_min R_max turning_radius_size theta_size
      in map (\<lambda>i. let theta = dtheta * of_int (int i)
           in map (nu_rotated theta) candidates @
              (if use_back then map (\<lambda>nu. nu_rotated theta (nu_reversed nu)) candidates else []))
         [0..<nat theta_size])"

section \<open>State\<close>

datatype node_status = NS_None | NS_Open | NS_Closed

record astar_param =
  ap_only_behind_solutions :: bool
  ap_use_back :: bool
  ap_distance_heuristic_weight :: real

record astar_node =
  an_status :: node_status
  an_x :: real
  an_y :: real
  an_theta :: real
  an_gc :: real
  an_hc :: real
  an_is_back :: bool
  an_parent :: "int option"

text \<open>A new node; the fields the code leaves uninitialised are written before they are read.\<close>

definition an_new :: astar_node where
  "an_new = \<lparr> an_status = NS_None, an_x = 0, an_y = 0, an_theta = 0, an_gc = 0, an_hc = 0,
     an_is_back = False, an_parent = None \<rparr>"

definition an_cost :: "astar_node \<Rightarrow> real" where
  "an_cost n = an_gc n + an_hc n"

type_synonym as_graph = "int \<Rightarrow> astar_node option"

record astar_state =
  as_base :: fs_algorithm
  as_astar_param :: astar_param
  as_transition_table :: "node_update list list"
  as_graph :: as_graph
  as_openlist :: "int list"
  as_goal_node :: "int option"
  as_use_reeds_shepp :: bool
  as_x_scale :: int
  as_y_scale :: int

record as_lib =
  lib_tf :: fs_tf
  lib_calcReedsSheppDistance :: "pose \<Rightarrow> pose \<Rightarrow> real \<Rightarrow> real"
  lib_calcRelativePose :: "pose \<Rightarrow> pose \<Rightarrow> pose"

definition as_construct :: "fs_algorithm \<Rightarrow> astar_param \<Rightarrow> astar_state" where
  "as_construct base astar_param =
     (let p = fs_param base
      in \<lparr> as_base = base, as_astar_param = astar_param,
           as_transition_table = as_createTransitionTable (pc_minimum_turning_radius p) (pc_maximum_turning_radius p)
             (pc_turning_radius_size p) (pc_theta_size p) (ap_use_back astar_param),
           as_graph = (\<lambda>k. None), as_openlist = [], as_goal_node = None, as_use_reeds_shepp = True,
           as_x_scale = 0, as_y_scale = pc_theta_size p \<rparr>)"

definition as_clearNodes :: "astar_state \<Rightarrow> astar_state" where
  "as_clearNodes s = s\<lparr> as_openlist := [], as_graph := (\<lambda>k. None) \<rparr>"

definition as_setMap :: "occupancy_grid \<Rightarrow> astar_state \<Rightarrow> astar_state option" where
  "as_setMap costmap s =
     Option.bind (fs_setMap costmap (as_base s)) (\<lambda>base.
       let s1 = as_clearNodes (s\<lparr> as_base := base \<rparr>)
       in Some (s1\<lparr> as_x_scale := int (og_height (fs_costmap base)) \<rparr>))"

definition as_getKey :: "astar_state \<Rightarrow> index_xyt \<Rightarrow> int" where
  "as_getKey s index = ix_theta index + (ix_y index * as_x_scale s + ix_x index) * as_y_scale s"

definition as_theta_size :: "astar_state \<Rightarrow> int" where
  "as_theta_size s = pc_theta_size (fs_param (as_base s))"

section \<open>Search\<close>

definition as_estimateCost :: "as_lib \<Rightarrow> astar_state \<Rightarrow> pose \<Rightarrow> real" where
  "as_estimateCost lib s pose =
     (let p = fs_param (as_base s); weight = ap_distance_heuristic_weight (as_astar_param s)
      in if as_use_reeds_shepp s
         then let radius = (pc_minimum_turning_radius p + pc_maximum_turning_radius p) * (1 / 2)
           in lib_calcReedsSheppDistance lib pose (fs_goal_pose (as_base s)) radius * weight
         else calcDistance2d pose (fs_goal_pose (as_base s)) * weight)"

definition as_setStartNode :: "as_lib \<Rightarrow> astar_state \<Rightarrow> (bool \<times> astar_state) option" where
  "as_setStartNode lib s =
     (let start_pose = fs_start_pose (as_base s);
          index = fs_pose2index (fs_costmap (as_base s)) start_pose (as_theta_size s)
      in case fs_detectCollision (as_base s) index of
           None \<Rightarrow> None
         | Some True \<Rightarrow> Some (False, s)
         | Some False \<Rightarrow>
             let key = as_getKey s index;
                 node = (case as_graph s key of None \<Rightarrow> an_new | Some n \<Rightarrow> n);
                 start_node = node\<lparr> an_x := pt_x start_pose, an_y := pt_y start_pose,
                   an_theta := 2 * pi / of_int (as_theta_size s) * of_int (ix_theta index),
                   an_gc := 0, an_hc := as_estimateCost lib s start_pose, an_is_back := False,
                   an_status := NS_Open, an_parent := None \<rparr>
             in Some (True, s\<lparr> as_graph := (as_graph s)(key \<mapsto> start_node), as_openlist := key # as_openlist s \<rparr>))"

definition as_setGoalNode :: "astar_state \<Rightarrow> bool option" where
  "as_setGoalNode s =
     map_option Not (fs_detectCollision (as_base s)
       (fs_pose2index (fs_costmap (as_base s)) (fs_goal_pose (as_base s)) (as_theta_size s)))"

definition as_node2pose :: "astar_state \<Rightarrow> astar_node \<Rightarrow> pose" where
  "as_node2pose s n =
     \<lparr> pt_x = an_x n, pt_y = an_y n, pt_z = pt_z (fs_goal_pose (as_base s)),
       po_pitch = 0, po_yaw = fs_getYaw (an_theta n) \<rparr>"

definition as_isGoal :: "as_lib \<Rightarrow> astar_state \<Rightarrow> astar_node \<Rightarrow> bool" where
  "as_isGoal lib s n =
     (let p = fs_param (as_base s);
          lateral_goal_range = pc_lateral_goal_range p / 2;
          longitudinal_goal_range = pc_longitudinal_goal_range p / 2;
          goal_angle = pc_angle_goal_range p / 2 * pi / 180;
          relative_pose = lib_calcRelativePose lib (fs_goal_pose (as_base s)) (as_node2pose s n)
      in if ap_only_behind_solutions (as_astar_param s) \<and> pt_x relative_pose > 0 then False
         else if \<bar>pt_x relative_pose\<bar> > longitudinal_goal_range \<or> \<bar>pt_y relative_pose\<bar> > lateral_goal_range then False
         else if \<bar>normalizeRadian (po_yaw relative_pose)\<bar> > goal_angle then False
         else True)"

text \<open>The way back over the parents, from the goal to the start.\<close>

partial_function (option) as_path :: "as_graph \<Rightarrow> int \<Rightarrow> astar_node list option" where
  "as_path graph key =
     Option.bind (graph key) (\<lambda>node.
       if an_parent node = None then Some [node]
       else Option.bind (as_path graph (the (an_parent node))) (\<lambda>nodes. Some (node # nodes)))"

definition as_waypoint :: "as_lib \<Rightarrow> astar_state \<Rightarrow> astar_node \<Rightarrow> planner_waypoint" where
  "as_waypoint lib s n =
     \<lparr> pw_pose = fs_local2global (lib_tf lib) (fs_costmap (as_base s)) (as_node2pose s n),
       pw_is_back = an_is_back n \<rparr>"

definition as_first_direction :: "planner_waypoint list \<Rightarrow> planner_waypoint list" where
  "as_first_direction waypoints =
     (if 1 < length waypoints
      then waypoints[0 := (waypoints ! 0)\<lparr> pw_is_back := pw_is_back (waypoints ! 1) \<rparr>]
      else waypoints)"

definition as_setPath :: "as_lib \<Rightarrow> int \<Rightarrow> astar_state \<Rightarrow> astar_state option" where
  "as_setPath lib goal_node s =
     Option.bind (as_path (as_graph s) goal_node) (\<lambda>nodes.
       Some (s\<lparr> as_base := (as_base s)\<lparr> fs_waypoints :=
         as_first_direction (rev (map (as_waypoint lib s) nodes)) \<rparr> \<rparr>))"

text \<open>One move from the current node.\<close>

definition as_next_pose :: "astar_state \<Rightarrow> astar_node \<Rightarrow> node_update \<Rightarrow> pose" where
  "as_next_pose s current_node transition =
     \<lparr> pt_x = an_x current_node + nu_shift_x transition, pt_y = an_y current_node + nu_shift_y transition,
       pt_z = 0, po_pitch = 0, po_yaw = fs_getYaw (an_theta current_node + nu_shift_theta transition) \<rparr>"

definition as_transit :: "as_lib \<Rightarrow> int \<Rightarrow> astar_node \<Rightarrow> node_update \<Rightarrow> astar_state \<Rightarrow> astar_state option" where
  "as_transit lib current_key current_node transition s =
     (let is_turning_point = (nu_is_back transition \<noteq> an_is_back current_node);
          move_cost = (if is_turning_point then pc_reverse_weight (fs_param (as_base s)) * nu_distance transition
                       else nu_distance transition);
          next_pose = as_next_pose s current_node transition;
          next_index = fs_pose2index (fs_costmap (as_base s)) next_pose (as_theta_size s)
      in case fs_detectCollision (as_base s) next_index of
           None \<Rightarrow> None
         | Some True \<Rightarrow> Some s
         | Some False \<Rightarrow>
             let next_key = as_getKey s next_index;
                 next_node = (case as_graph s next_key of None \<Rightarrow> an_new | Some n \<Rightarrow> n)
             in if an_status next_node = NS_None
                then Some (s\<lparr> as_graph := (as_graph s)(next_key \<mapsto>
                       next_node\<lparr> an_status := NS_Open, an_x := pt_x next_pose, an_y := pt_y next_pose,
                         an_theta := po_yaw next_pose, an_gc := an_gc current_node + move_cost,
                         an_hc := as_estimateCost lib s next_pose, an_is_back := nu_is_back transition,
                         an_parent := Some current_key \<rparr>),
                     as_openlist := next_key # as_openlist s \<rparr>)
                else Some (s\<lparr> as_graph := (as_graph s)(next_key \<mapsto> next_node) \<rparr>))"

fun as_transit_all ::
  "as_lib \<Rightarrow> int \<Rightarrow> astar_node \<Rightarrow> node_update list \<Rightarrow> astar_state \<Rightarrow> astar_state option" where
  "as_transit_all lib current_key current_node [] s = Some s"
| "as_transit_all lib current_key current_node (tr # trs) s =
     Option.bind (as_transit lib current_key current_node tr s) (as_transit_all lib current_key current_node trs)"

definition as_node_cost :: "astar_state \<Rightarrow> int \<Rightarrow> real" where
  "as_node_cost s key = (case as_graph s key of None \<Rightarrow> 0 | Some n \<Rightarrow> an_cost n)"

datatype as_outcome = AS_Fuel | AS_Undefined | AS_Return bool astar_state

text \<open>The pop of the queue, the move of its node to the closed ones, and its expansion.\<close>

definition as_expand :: "as_lib \<Rightarrow> int \<Rightarrow> astar_state \<Rightarrow> astar_state option" where
  "as_expand lib key s =
     Option.bind (as_graph s key) (\<lambda>node.
       let index_theta = fs_discretizeAngle (an_theta node) (as_theta_size s)
       in if index_theta < 0 \<or> int (length (as_transition_table s)) \<le> index_theta then None
          else as_transit_all lib key node (as_transition_table s ! nat index_theta) s)"

definition as_close :: "int \<Rightarrow> int list \<Rightarrow> astar_state \<Rightarrow> astar_state" where
  "as_close key rest s =
     s\<lparr> as_openlist := rest,
        as_graph := (as_graph s)(key := map_option (an_status_update (\<lambda>_. NS_Closed)) (as_graph s key)) \<rparr>"

fun as_search ::
  "as_lib \<Rightarrow> ((int \<Rightarrow> real) \<Rightarrow> int list \<Rightarrow> int \<times> int list) \<Rightarrow> nat \<Rightarrow> time \<Rightarrow> (nat \<Rightarrow> time) \<Rightarrow> nat \<Rightarrow>
    astar_state \<Rightarrow> as_outcome" where
  "as_search lib pop 0 begin_time clock i s = AS_Fuel"
| "as_search lib pop (Suc fuel) begin_time clock i s =
     (if as_openlist s = [] then AS_Return False s
      else let msec = seconds (clock i - begin_time) * 1000
        in if msec > pc_time_limit (fs_param (as_base s)) then AS_Return False s
           else let (key, rest) = pop (as_node_cost s) (as_openlist s);
                    s1 = as_close key rest s
             in case as_graph s1 key of
                  None \<Rightarrow> AS_Undefined
                | Some current_node \<Rightarrow>
                    if as_isGoal lib s1 current_node
                    then (case as_setPath lib key (s1\<lparr> as_goal_node := Some key \<rparr>) of
                            None \<Rightarrow> AS_Undefined | Some s2 \<Rightarrow> AS_Return True s2)
                    else (case as_expand lib key s1 of
                            None \<Rightarrow> AS_Undefined
                          | Some s2 \<Rightarrow> as_search lib pop fuel begin_time clock (Suc i) s2))"

definition as_set_poses :: "as_lib \<Rightarrow> pose \<Rightarrow> pose \<Rightarrow> astar_state \<Rightarrow> astar_state" where
  "as_set_poses lib start_pose goal_pose s =
     (let base = as_base s
      in s\<lparr> as_base := base\<lparr> fs_start_pose := fs_global2local (lib_tf lib) (fs_costmap base) start_pose,
           fs_goal_pose := fs_global2local (lib_tf lib) (fs_costmap base) goal_pose \<rparr> \<rparr>)"

definition as_makePlan ::
  "as_lib \<Rightarrow> ((int \<Rightarrow> real) \<Rightarrow> int list \<Rightarrow> int \<times> int list) \<Rightarrow> nat \<Rightarrow> time \<Rightarrow> (nat \<Rightarrow> time) \<Rightarrow> pose \<Rightarrow> pose \<Rightarrow>
    astar_state \<Rightarrow> as_outcome" where
  "as_makePlan lib pop fuel begin_time clock start_pose goal_pose s0 =
     (let s = as_set_poses lib start_pose goal_pose s0
      in case as_setStartNode lib s of
           None \<Rightarrow> AS_Undefined
         | Some (ok, s1) \<Rightarrow>
             if \<not> ok then AS_Return False s1
             else (case as_setGoalNode s1 of
                     None \<Rightarrow> AS_Undefined
                   | Some ok \<Rightarrow> if \<not> ok then AS_Return False s1 else as_search lib pop fuel begin_time clock 0 s1))"

section \<open>Ways from the start\<close>

text \<open>The cell of a node, free nodes, the start node, and nodes one move apart.\<close>

definition as_index :: "astar_state \<Rightarrow> astar_node \<Rightarrow> index_xyt" where
  "as_index s n =
     \<lparr> ix_x = c_trunc (an_x n / og_resolution (fs_costmap (as_base s))),
       ix_y = c_trunc (an_y n / og_resolution (fs_costmap (as_base s))),
       ix_theta = fs_discretizeAngle (an_theta n) (as_theta_size s) \<rparr>"

definition as_clear :: "astar_state \<Rightarrow> astar_node \<Rightarrow> bool" where
  "as_clear s n \<longleftrightarrow> fs_detectCollision (as_base s) (as_index s n) = Some False"

definition as_is_start :: "astar_state \<Rightarrow> astar_node \<Rightarrow> bool" where
  "as_is_start s n \<longleftrightarrow> an_x n = pt_x (fs_start_pose (as_base s)) \<and> an_y n = pt_y (fs_start_pose (as_base s)) \<and>
     an_theta n = 2 * pi / of_int (as_theta_size s) *
       of_int (fs_discretizeAngle (po_yaw (fs_start_pose (as_base s))) (as_theta_size s))"

definition as_move :: "astar_state \<Rightarrow> astar_node \<Rightarrow> astar_node \<Rightarrow> bool" where
  "as_move s m n \<longleftrightarrow>
     (\<exists>tr \<in> set (as_transition_table s ! nat (fs_discretizeAngle (an_theta m) (as_theta_size s))).
        an_x n = an_x m + nu_shift_x tr \<and> an_y n = an_y m + nu_shift_y tr \<and>
        an_theta n = fs_getYaw (an_theta m + nu_shift_theta tr) \<and> an_is_back n = nu_is_back tr)"

text \<open>A chain of keys from a node over its parents to the start.\<close>

fun as_chain :: "astar_state \<Rightarrow> as_graph \<Rightarrow> int list \<Rightarrow> bool" where
  "as_chain s g [] = False"
| "as_chain s g [k] = (\<exists>n. g k = Some n \<and> an_parent n = None \<and> as_is_start s n)"
| "as_chain s g (k # p # ks) =
     (\<exists>n m. g k = Some n \<and> an_parent n = Some p \<and> g p = Some m \<and> as_move s m n \<and> as_chain s g (p # ks))"

definition as_alike :: "astar_node \<Rightarrow> astar_node \<Rightarrow> bool" where
  "as_alike n n' \<longleftrightarrow> an_x n' = an_x n \<and> an_y n' = an_y n \<and> an_theta n' = an_theta n \<and>
     an_is_back n' = an_is_back n \<and> an_parent n' = an_parent n"

lemma as_alike_refl [simp]: "as_alike n n"
  by (simp add: as_alike_def)

lemma as_alike_status [simp]: "as_alike n (n\<lparr> an_status := st \<rparr>)"
  by (simp add: as_alike_def)

lemma as_chain_alike:
  assumes "as_chain s g ks" and "\<And>k n. g k = Some n \<Longrightarrow> \<exists>n'. g' k = Some n' \<and> as_alike n n'"
  shows "as_chain s g' ks"
  using assms
proof (induction s g ks rule: as_chain.induct)
  case (2 s g k)
  then obtain n where n: "g k = Some n" "an_parent n = None" "as_is_start s n" by auto
  with "2.prems"(2) obtain n' where "g' k = Some n'" "as_alike n n'" by blast
  with n show ?case by (simp add: as_alike_def as_is_start_def)
next
  case (3 s g k p ks)
  then obtain n m where n: "g k = Some n" "an_parent n = Some p" "g p = Some m" "as_move s m n"
    and "as_chain s g (p # ks)" by auto
  with "3.IH" "3.prems"(2) have "as_chain s g' (p # ks)" by blast
  moreover obtain n' m' where "g' k = Some n'" "as_alike n n'" "g' p = Some m'" "as_alike m m'"
    using "3.prems"(2) n(1,3) by blast
  ultimately show ?case using n by (simp add: as_alike_def as_move_def)
qed simp

lemma as_chain_path:
  "as_chain s g (k # ks) \<Longrightarrow> as_path g k = Some (map (\<lambda>k. the (g k)) (k # ks))"
proof (induction s g "k # ks" arbitrary: k ks rule: as_chain.induct)
  case (2 s g k)
  then show ?case by (subst as_path.simps) auto
next
  case (3 s g k p ks)
  then obtain n where n: "g k = Some n" "an_parent n = Some p" "as_chain s g (p # ks)" by auto
  with "3.hyps" have "as_path g p = Some (map (\<lambda>k. the (g k)) (p # ks))" by blast
  with n show ?case by (subst as_path.simps) simp
qed

lemma as_chain_nodes:
  "as_chain s g ks \<Longrightarrow>
   successively (as_move s) (rev (map (\<lambda>k. the (g k)) ks)) \<and> ks \<noteq> [] \<and> as_is_start s (the (g (last ks))) \<and>
   (\<forall>k \<in> set ks. \<exists>n. g k = Some n)"
  by (induction s g ks rule: as_chain.induct) (auto simp: successively_append_iff)

section \<open>The invariant of the search\<close>

text \<open>What does not change during a search, and what it needs to be defined.\<close>

definition as_same :: "astar_state \<Rightarrow> astar_state \<Rightarrow> bool" where
  "as_same s0 s \<longleftrightarrow> as_base s = as_base s0 \<and> as_astar_param s = as_astar_param s0 \<and>
     as_transition_table s = as_transition_table s0 \<and> as_use_reeds_shepp s = as_use_reeds_shepp s0 \<and>
     as_x_scale s = as_x_scale s0 \<and> as_y_scale s = as_y_scale s0"

definition as_ready :: "astar_state \<Rightarrow> bool" where
  "as_ready s \<longleftrightarrow> fs_wf (as_base s) \<and> fs_coll_indexes_table (as_base s) \<noteq> [] \<and> 0 < as_theta_size s \<and>
     length (as_transition_table s) = nat (as_theta_size s)"

definition as_free_cells :: "astar_state \<Rightarrow> index_xyt set" where
  "as_free_cells s = {b. 0 \<le> ix_theta b \<and> ix_theta b < as_theta_size s \<and> fs_detectCollision (as_base s) b = Some False}"

definition as_keys :: "astar_state \<Rightarrow> int set" where
  "as_keys s = as_getKey s ` as_free_cells s"

definition as_closed :: "astar_state \<Rightarrow> int set" where
  "as_closed s = {k. \<exists>n. as_graph s k = Some n \<and> an_status n = NS_Closed}"

definition as_inv :: "astar_state \<Rightarrow> astar_state \<Rightarrow> bool" where
  "as_inv s0 s \<longleftrightarrow> as_same s0 s \<and>
     (\<forall>k n. as_graph s k = Some n \<longrightarrow> an_status n \<noteq> NS_None \<and> k \<in> as_keys s0 \<and> k = as_getKey s0 (as_index s0 n) \<and>
        as_clear s0 n \<and> (\<exists>ks. as_chain s0 (as_graph s) (k # ks))) \<and>
     distinct (as_openlist s) \<and>
     set (as_openlist s) = {k. \<exists>n. as_graph s k = Some n \<and> an_status n = NS_Open}"

text \<open>A move from a node has been looked at: it collides, or its cell has a node.\<close>

definition as_covered :: "astar_state \<Rightarrow> as_graph \<Rightarrow> astar_node \<Rightarrow> node_update \<Rightarrow> bool" where
  "as_covered s g n tr \<longleftrightarrow>
     (let index = fs_pose2index (fs_costmap (as_base s)) (as_next_pose s n tr) (as_theta_size s)
      in fs_detectCollision (as_base s) index = Some True \<or> (\<exists>m. g (as_getKey s index) = Some m))"

definition as_expanded :: "astar_state \<Rightarrow> as_graph \<Rightarrow> astar_node \<Rightarrow> bool" where
  "as_expanded s g n \<longleftrightarrow>
     (\<forall>tr \<in> set (as_transition_table s ! nat (fs_discretizeAngle (an_theta n) (as_theta_size s))). as_covered s g n tr)"

lemma as_covered_mono: "as_covered s g n tr \<Longrightarrow> g \<subseteq>\<^sub>m g' \<Longrightarrow> as_covered s g' n tr"
  by (fastforce simp: as_covered_def Let_def map_le_def dom_def)

lemma as_expanded_mono: "as_expanded s g n \<Longrightarrow> g \<subseteq>\<^sub>m g' \<Longrightarrow> as_expanded s g' n"
  by (auto simp: as_expanded_def intro: as_covered_mono)

lemma as_same_simps:
  assumes "as_same s0 s"
  shows "as_theta_size s = as_theta_size s0" "as_getKey s = as_getKey s0" "as_base s = as_base s0"
    "as_transition_table s = as_transition_table s0" "as_isGoal lib s = as_isGoal lib s0"
    "as_waypoint lib s = as_waypoint lib s0"
  using assms by (auto simp: as_same_def as_theta_size_def as_getKey_def as_isGoal_def as_waypoint_def
      as_node2pose_def fun_eq_iff)

lemma as_detect_total:
  assumes "as_ready s0"
  shows "\<exists>b. fs_detectCollision (as_base s0) (fs_pose2index costmap pose (as_theta_size s0)) = Some b"
proof -
  have "0 < as_theta_size s0" using assms by (simp add: as_ready_def)
  from fs_pose2index_theta [OF this, of costmap pose] assms show ?thesis
    using fs_detectCollision_ok [of "as_base s0"] by (auto simp: as_ready_def as_theta_size_def)
qed

lemma as_insert_inv:
  assumes inv: "as_inv s0 s" and new: "as_graph s k = None" and key: "k \<in> as_keys s0" "k = as_getKey s0 (as_index s0 n)"
    and clear: "as_clear s0 n"
    and n: "an_status n = NS_Open" and parent: "an_parent n = Some p" "as_graph s p = Some m" "as_move s0 m n"
  shows "as_inv s0 (s\<lparr> as_graph := (as_graph s)(k \<mapsto> n), as_openlist := k # as_openlist s \<rparr>)"
proof -
  let ?g = "(as_graph s)(k \<mapsto> n)"
  have mono: "as_chain s0 (as_graph s) ks \<Longrightarrow> as_chain s0 ?g ks" for ks
    by (erule as_chain_alike) (use new in auto)
  from inv parent(2) obtain ks where "as_chain s0 (as_graph s) (p # ks)" unfolding as_inv_def by blast
  then have "as_chain s0 ?g (p # ks)" by (rule mono)
  moreover have "k \<noteq> p" using new parent(2) by auto
  ultimately have new_chain: "as_chain s0 ?g (k # p # ks)" using parent by simp
  have chain: "\<exists>ks. as_chain s0 ?g (j # ks)" if "j = k \<or> (\<exists>m. as_graph s j = Some m)" for j
    using that
  proof
    assume "\<exists>m. as_graph s j = Some m"
    with inv obtain js where "as_chain s0 (as_graph s) (j # js)" unfolding as_inv_def by blast
    then show ?thesis using mono by blast
  qed (use new_chain in blast)
  have "k \<notin> set (as_openlist s)" using inv new by (auto simp: as_inv_def)
  then show ?thesis
    using inv key clear n chain new by (auto simp: as_inv_def as_same_def)
qed

lemma as_transit_inv:
  assumes ready: "as_ready s0" and inv: "as_inv s0 s" and cur: "as_graph s key = Some node"
    and tr: "tr \<in> set (as_transition_table s0 ! nat (fs_discretizeAngle (an_theta node) (as_theta_size s0)))"
  shows "\<exists>s'. as_transit lib key node tr s = Some s' \<and> as_inv s0 s' \<and> as_graph s \<subseteq>\<^sub>m as_graph s' \<and>
    as_closed s' = as_closed s \<and> as_covered s0 (as_graph s') node tr"
proof -
  have same: "as_same s0 s" using inv by (simp add: as_inv_def)
  note ss = as_same_simps [OF same]
  define pose where "pose = as_next_pose s node tr"
  define index where "index = fs_pose2index (fs_costmap (as_base s)) pose (as_theta_size s)"
  have next0: "as_next_pose s0 node tr = pose" by (simp add: pose_def as_next_pose_def)
  obtain b where b: "fs_detectCollision (as_base s) index = Some b"
    using as_detect_total [OF ready, of "fs_costmap (as_base s)" pose] by (auto simp: index_def ss)
  show ?thesis
  proof (cases b)
    case True
    with b have "as_covered s0 (as_graph s) node tr"
      by (simp add: as_covered_def Let_def next0 ss [symmetric] index_def [symmetric])
    with True b inv show ?thesis by (simp add: as_transit_def Let_def pose_def [symmetric] index_def [symmetric])
  next
    case free: False
    let ?k = "as_getKey s index"
    have covered: "as_covered s0 g node tr" if "g ?k = Some m" for g m
      using that by (auto simp: as_covered_def Let_def next0 ss [symmetric] index_def [symmetric])
    show ?thesis
    proof (cases "as_graph s ?k")
      case None
      define n where "n = an_new\<lparr> an_status := NS_Open, an_x := pt_x pose, an_y := pt_y pose,
        an_theta := po_yaw pose, an_gc := an_gc node + (if nu_is_back tr \<noteq> an_is_back node
            then pc_reverse_weight (fs_param (as_base s)) * nu_distance tr else nu_distance tr),
        an_hc := as_estimateCost lib s pose, an_is_back := nu_is_back tr, an_parent := Some key \<rparr>"
      have "as_transit lib key node tr s =
          Some (s\<lparr> as_graph := (as_graph s)(?k \<mapsto> n), as_openlist := ?k # as_openlist s \<rparr>)"
        using b free None
        by (simp add: as_transit_def Let_def pose_def [symmetric] index_def [symmetric] n_def)
          (simp add: an_new_def)
      moreover have "as_inv s0 (s\<lparr> as_graph := (as_graph s)(?k \<mapsto> n), as_openlist := ?k # as_openlist s \<rparr>)"
      proof (rule as_insert_inv [OF inv None])
        have index: "as_index s0 n = index"
          by (simp add: as_index_def n_def index_def fs_pose2index_def ss)
        with b free show "as_clear s0 n" by (simp add: as_clear_def ss)
        have "0 < as_theta_size s0" using ready by (simp add: as_ready_def)
        show "?k = as_getKey s0 (as_index s0 n)" by (simp add: index ss)
        from fs_pose2index_theta [OF \<open>0 < as_theta_size s0\<close>] b free show "?k \<in> as_keys s0"
          by (auto simp: as_keys_def as_free_cells_def ss index_def)
        show "as_move s0 node n" using tr by (auto simp: as_move_def n_def pose_def as_next_pose_def)
      qed (simp_all add: n_def, rule cur)
      moreover have "as_closed (s\<lparr> as_graph := (as_graph s)(?k \<mapsto> n), as_openlist := ?k # as_openlist s \<rparr>) = as_closed s"
        using None by (auto simp: as_closed_def n_def)
      moreover have "as_graph s \<subseteq>\<^sub>m (as_graph s)(?k \<mapsto> n)" using None by (auto simp: map_le_def)
      moreover have "as_covered s0 ((as_graph s)(?k \<mapsto> n)) node tr" by (rule covered [of _ n]) simp
      ultimately show ?thesis by auto
    next
      case (Some n)
      then have "an_status n \<noteq> NS_None" using inv by (auto simp: as_inv_def)
      moreover have "(as_graph s)(?k \<mapsto> n) = as_graph s" using Some by auto
      ultimately have "as_transit lib key node tr s = Some (s\<lparr> as_graph := as_graph s \<rparr>)"
        using b free Some by (simp add: as_transit_def Let_def pose_def [symmetric] index_def [symmetric])
      then show ?thesis using inv covered [where g = "as_graph s" and m = n] Some by simp
    qed
  qed
qed

lemma as_transit_all_inv:
  assumes "as_ready s0" and "as_inv s0 s" and "as_graph s key = Some node"
    and "set trs \<subseteq> set (as_transition_table s0 ! nat (fs_discretizeAngle (an_theta node) (as_theta_size s0)))"
  shows "\<exists>s'. as_transit_all lib key node trs s = Some s' \<and> as_inv s0 s' \<and> as_graph s \<subseteq>\<^sub>m as_graph s' \<and>
    as_closed s' = as_closed s \<and> (\<forall>tr \<in> set trs. as_covered s0 (as_graph s') node tr)"
  using assms(2-)
proof (induction trs arbitrary: s)
  case (Cons tr trs)
  then obtain s1 where 1: "as_transit lib key node tr s = Some s1" "as_inv s0 s1" "as_graph s \<subseteq>\<^sub>m as_graph s1"
    "as_closed s1 = as_closed s" "as_covered s0 (as_graph s1) node tr"
    using as_transit_inv [OF assms(1), of s key node tr lib] by auto
  have "as_graph s1 key = Some node" using 1(3) Cons.prems(2) by (metis domI map_le_def)
  with Cons.IH [OF 1(2)] Cons.prems(3) obtain s2 where
    2: "as_transit_all lib key node trs s1 = Some s2" "as_inv s0 s2" "as_graph s1 \<subseteq>\<^sub>m as_graph s2"
      "as_closed s2 = as_closed s1" "\<forall>tr \<in> set trs. as_covered s0 (as_graph s2) node tr" by auto
  then show ?case using 1 by (auto intro: map_le_trans as_covered_mono)
qed simp

lemma as_expand_inv:
  assumes "as_ready s0" and "as_inv s0 s" and "as_graph s key = Some node"
  shows "\<exists>s'. as_expand lib key s = Some s' \<and> as_inv s0 s' \<and> as_graph s \<subseteq>\<^sub>m as_graph s' \<and>
    as_closed s' = as_closed s \<and> as_expanded s0 (as_graph s') node"
proof -
  have ss: "as_same s0 s" using assms(2) by (simp add: as_inv_def)
  have "0 < as_theta_size s0" "length (as_transition_table s0) = nat (as_theta_size s0)"
    using assms(1) by (simp_all add: as_ready_def)
  with fs_discretizeAngle_range [OF this(1), of "an_theta node"] have
    "as_expand lib key s = as_transit_all lib key node
       (as_transition_table s0 ! nat (fs_discretizeAngle (an_theta node) (as_theta_size s0))) s"
    using assms(3) by (simp add: as_expand_def Let_def as_same_simps [OF ss])
  with as_transit_all_inv [OF assms order_refl, of lib] show ?thesis by (simp add: as_expanded_def)
qed

section \<open>The loop\<close>

lemma as_close_inv:
  assumes inv: "as_inv s0 s" and rest: "distinct rest" "key \<notin> set rest" "set (as_openlist s) = insert key (set rest)"
  shows "\<exists>node. as_inv s0 (as_close key rest s) \<and> as_graph (as_close key rest s) key = Some node \<and>
    key \<in> as_keys s0 - as_closed s \<and> as_closed (as_close key rest s) = insert key (as_closed s) \<and>
    (\<forall>j n. j \<noteq> key \<longrightarrow> as_graph (as_close key rest s) j = Some n \<longleftrightarrow> j \<noteq> key \<longrightarrow> as_graph s j = Some n)"
proof -
  have "set (as_openlist s) = {k. \<exists>n. as_graph s k = Some n \<and> an_status n = NS_Open}"
    using inv by (simp add: as_inv_def)
  with rest(3) have "key \<in> {k. \<exists>n. as_graph s k = Some n \<and> an_status n = NS_Open}" by blast
  then obtain n where n: "as_graph s key = Some n" "an_status n = NS_Open" by auto
  have mono: "as_chain s0 (as_graph s) ks \<Longrightarrow> as_chain s0 (as_graph (as_close key rest s)) ks" for ks
    by (erule as_chain_alike) (use n in \<open>auto simp: as_close_def\<close>)
  have g: "as_graph (as_close key rest s) = (as_graph s)(key \<mapsto> n\<lparr> an_status := NS_Closed \<rparr>)"
    using n by (simp add: as_close_def)
  have "as_clear s0 n \<Longrightarrow> as_clear s0 (n\<lparr> an_status := NS_Closed \<rparr>)" by (simp add: as_clear_def as_index_def)
  then have all: "an_status m \<noteq> NS_None \<and> k \<in> as_keys s0 \<and> k = as_getKey s0 (as_index s0 m) \<and> as_clear s0 m \<and>
      (\<exists>ks. as_chain s0 (as_graph (as_close key rest s)) (k # ks))"
    if m: "as_graph (as_close key rest s) k = Some m" for k m
  proof -
    obtain m' where "as_graph s k = Some m'" using m n g by (auto split: if_splits)
    with inv have "k \<in> as_keys s0" "k = as_getKey s0 (as_index s0 m')" "as_clear s0 m'" "an_status m' \<noteq> NS_None" "\<exists>ks. as_chain s0 (as_graph s) (k # ks)"
      unfolding as_inv_def by blast+
    moreover have "m = m' \<or> m = m'\<lparr> an_status := NS_Closed \<rparr>" using m n g \<open>as_graph s k = Some m'\<close> by (auto split: if_splits)
    ultimately show ?thesis using mono by (auto simp: as_clear_def as_index_def)
  qed
  have open': "set rest = {k. \<exists>m. as_graph (as_close key rest s) k = Some m \<and> an_status m = NS_Open}"
    using inv rest g by (auto simp: as_inv_def)
  have "as_inv s0 (as_close key rest s)"
    unfolding as_inv_def
    using inv rest(1) open' all by (auto simp: as_inv_def as_same_def as_close_def)
  moreover have "key \<in> as_keys s0" "key \<notin> as_closed s" using inv n by (auto simp: as_inv_def as_closed_def)
  moreover have "as_closed (as_close key rest s) = insert key (as_closed s)" using g by (auto simp: as_closed_def)
  ultimately show ?thesis using g by auto
qed

text \<open>What a success and what a failure of the search say.\<close>

definition as_found :: "as_lib \<Rightarrow> astar_state \<Rightarrow> planner_waypoint list \<Rightarrow> bool" where
  "as_found lib s waypoints \<longleftrightarrow>
     (\<exists>ns. ns \<noteq> [] \<and> waypoints = as_first_direction (map (as_waypoint lib s) ns) \<and>
        as_is_start s (hd ns) \<and> as_isGoal lib s (last ns) \<and> successively (as_move s) ns \<and>
        (\<forall>n \<in> set ns. as_clear s n))"

lemma as_first_direction_simps [simp]:
  "length (as_first_direction ws) = length ws" "map pw_pose (as_first_direction ws) = map pw_pose ws"
  "as_first_direction ws = [] \<longleftrightarrow> ws = []"
  by (cases ws; auto simp: as_first_direction_def)+

definition as_exhausted :: "as_lib \<Rightarrow> astar_state \<Rightarrow> as_graph \<Rightarrow> bool" where
  "as_exhausted lib s g \<longleftrightarrow>
     (\<exists>k n. g k = Some n \<and> as_is_start s n) \<and>
     (\<forall>k n. g k = Some n \<longrightarrow> k = as_getKey s (as_index s n) \<and> as_clear s n \<and> \<not> as_isGoal lib s n \<and> as_expanded s g n)"

definition as_progress :: "as_lib \<Rightarrow> astar_state \<Rightarrow> astar_state \<Rightarrow> bool" where
  "as_progress lib s0 s \<longleftrightarrow>
     (\<exists>k n. as_graph s k = Some n \<and> as_is_start s0 n) \<and>
     (\<forall>k n. as_graph s k = Some n \<and> an_status n = NS_Closed \<longrightarrow>
        \<not> as_isGoal lib s0 n \<and> as_expanded s0 (as_graph s) n)"

lemma as_setPath_found:
  assumes "as_inv s0 s" and "as_graph s key = Some node" and "as_isGoal lib s0 node"
  shows "\<exists>s'. as_setPath lib key s = Some s' \<and> as_found lib s0 (fs_waypoints (as_base s'))"
proof -
  let ?node = "\<lambda>k. the (as_graph s k)"
  from assms(1,2) obtain ks where chain: "as_chain s0 (as_graph s) (key # ks)" unfolding as_inv_def by blast
  note nodes = as_chain_nodes [OF chain]
  have "as_clear s0 (?node k)" if k: "k \<in> set (key # ks)" for k
  proof -
    from k nodes obtain n where "as_graph s k = Some n" by blast
    with assms(1) show ?thesis by (auto simp: as_inv_def)
  qed
  then have "\<forall>n \<in> set (rev (map ?node (key # ks))). as_clear s0 n" by auto
  moreover have "hd (rev (map ?node (key # ks))) = ?node (last (key # ks))"
    by (metis hd_rev last_map list.distinct(1))
  moreover have "last (rev (map ?node (key # ks))) = node" using assms(2) by simp
  ultimately have "as_found lib s0 (as_first_direction (rev (map (as_waypoint lib s0) (map ?node (key # ks)))))"
    unfolding as_found_def rev_map [symmetric]
    using nodes assms(3)
    by (intro exI [of _ "rev (map ?node (key # ks))"]) (simp only: rev_map last_map list.distinct simp_thms, simp)
  moreover have "as_same s0 s" using assms(1) by (simp add: as_inv_def)
  ultimately show ?thesis
    using as_chain_path [OF chain] by (simp add: as_setPath_def as_same_simps)
qed

lemma as_inv_goal_node [simp]: "as_inv s0 (s\<lparr> as_goal_node := k \<rparr>) = as_inv s0 s"
  by (simp add: as_inv_def as_same_def)

lemma as_search_returns:
  assumes pq: "std_priority_queue pop" and ready: "as_ready s0" and fin: "finite (as_keys s0)"
  shows "as_inv s0 s \<Longrightarrow> as_progress lib s0 s \<Longrightarrow> card (as_keys s0 - as_closed s) < fuel \<Longrightarrow>
    \<exists>b s'. as_search lib pop fuel begin_time clock i s = AS_Return b s' \<and>
      (if b then as_found lib s0 (fs_waypoints (as_base s'))
       else as_exhausted lib s0 (as_graph s') \<or>
         (\<exists>j. pc_time_limit (fs_param (as_base s0)) < seconds (clock j - begin_time) * 1000))"
proof (induction fuel arbitrary: i s)
  case (Suc fuel)
  have same: "as_same s0 s" using Suc.prems(1) by (simp add: as_inv_def)
  note ss = as_same_simps [OF same]
  consider (empty) "as_openlist s = []"
    | (late) "as_openlist s \<noteq> []" "pc_time_limit (fs_param (as_base s)) < seconds (clock i - begin_time) * 1000"
    | (go) "as_openlist s \<noteq> []" "\<not> pc_time_limit (fs_param (as_base s)) < seconds (clock i - begin_time) * 1000"
    by blast
  then show ?case
  proof cases
    case empty
    have "an_status n = NS_Closed" if "as_graph s k = Some n" for k n
    proof -
      have "an_status n \<noteq> NS_None" "an_status n \<noteq> NS_Open"
        using Suc.prems(1) that empty by (auto simp: as_inv_def)
      then show ?thesis by (cases "an_status n") auto
    qed
    with Suc.prems(1,2) have "as_exhausted lib s0 (as_graph s)"
      by (auto simp: as_exhausted_def as_progress_def as_inv_def)
    with empty show ?thesis by (intro exI [of _ False] exI [of _ s]) simp
  next
    case late
    then show ?thesis by (intro exI [of _ False] exI [of _ s]) (auto simp: ss)
  next
    case go
    obtain key rest where pop: "pop (as_node_cost s) (as_openlist s) = (key, rest)" by fastforce
    have d: "distinct (as_openlist s)" using Suc.prems(1) by (simp add: as_inv_def)
    note q = std_priority_queue.pop_distinct [OF pq d go(1) pop] std_priority_queue.pop_set [OF pq go(1) pop]
    define s1 where "s1 = as_close key rest s"
    from as_close_inv [OF Suc.prems(1), of rest key] q obtain node where
      1: "as_inv s0 s1" "as_graph s1 key = Some node" "key \<in> as_keys s0 - as_closed s"
        "as_closed s1 = insert key (as_closed s)"
        "\<And>j n. j \<noteq> key \<Longrightarrow> as_graph s1 j = Some n \<longleftrightarrow> as_graph s j = Some n"
      unfolding s1_def by blast
    have same1: "as_same s0 s1" using 1(1) by (simp add: as_inv_def)
    have unfold: "as_search lib pop (Suc fuel) begin_time clock i s =
        (if as_isGoal lib s0 node
         then (case as_setPath lib key (s1\<lparr> as_goal_node := Some key \<rparr>) of
                 None \<Rightarrow> AS_Undefined | Some s2 \<Rightarrow> AS_Return True s2)
         else (case as_expand lib key s1 of
                 None \<Rightarrow> AS_Undefined | Some s2 \<Rightarrow> as_search lib pop fuel begin_time clock (Suc i) s2))"
      using go pop 1(2) by (simp add: s1_def [symmetric] as_same_simps [OF same1])
    show ?thesis
    proof (cases "as_isGoal lib s0 node")
      case True
      have "as_inv s0 (s1\<lparr> as_goal_node := Some key \<rparr>)" "as_graph (s1\<lparr> as_goal_node := Some key \<rparr>) key = Some node"
        using 1(1,2) by simp_all
      from as_setPath_found [OF this True] obtain s2 where
        s2: "as_setPath lib key (s1\<lparr> as_goal_node := Some key \<rparr>) = Some s2" "as_found lib s0 (fs_waypoints (as_base s2))"
        by blast
      then have "as_search lib pop (Suc fuel) begin_time clock i s = AS_Return True s2"
        unfolding unfold using True by simp
      with s2(2) show ?thesis by (intro exI [of _ True] exI [of _ s2]) simp
    next
      case no: False
      from as_expand_inv [OF ready 1(1,2), of lib] obtain s2 where
        2: "as_expand lib key s1 = Some s2" "as_inv s0 s2" "as_graph s1 \<subseteq>\<^sub>m as_graph s2"
          "as_closed s2 = as_closed s1" "as_expanded s0 (as_graph s2) node" by blast
      have at: "as_graph s2 j = Some n" if "as_graph s1 j = Some n" for j n
        using 2(3) that by (metis domI map_le_def)
      have "as_progress lib s0 s2"
        unfolding as_progress_def
      proof (intro conjI allI impI)
        from Suc.prems(2) obtain k n where k: "as_graph s k = Some n" "as_is_start s0 n" by (auto simp: as_progress_def)
        then have "\<exists>n. as_graph s1 k = Some n \<and> as_is_start s0 n"
          using 1(5) by (cases "k = key") (auto simp: s1_def as_close_def as_is_start_def)
        with at show "\<exists>k n. as_graph s2 k = Some n \<and> as_is_start s0 n" by blast
      next
        fix k n assume k: "as_graph s2 k = Some n \<and> an_status n = NS_Closed"
        then have "k \<in> as_closed s1" using 2(4) by (auto simp: as_closed_def)
        then obtain n1 where "as_graph s1 k = Some n1" by (auto simp: as_closed_def)
        with at k have n: "as_graph s1 k = Some n" by fastforce
        show "\<not> as_isGoal lib s0 n" and "as_expanded s0 (as_graph s2) n"
        proof -
          have both: "\<not> as_isGoal lib s0 n \<and> as_expanded s0 (as_graph s2) n"
          proof (cases "k = key")
            case True
            with n 1(2) no 2(5) show ?thesis by simp
          next
            case False
            then have "as_graph s k = Some n" using n 1(5) by blast
            with Suc.prems(2) k have "\<not> as_isGoal lib s0 n" "as_expanded s0 (as_graph s) n"
              by (auto simp: as_progress_def)
            moreover have "\<exists>m'. as_graph s2 j = Some m'" if "as_graph s j = Some m" for j m
              using that at 1(2,5) by (cases "j = key") blast+
            ultimately show ?thesis by (fastforce simp: as_expanded_def as_covered_def Let_def)
          qed
          then show "\<not> as_isGoal lib s0 n" "as_expanded s0 (as_graph s2) n" by simp_all
        qed
      qed
      moreover have "as_keys s0 - as_closed s2 \<subset> as_keys s0 - as_closed s" using 1(3,4) 2(4) by auto
      then have "card (as_keys s0 - as_closed s2) < card (as_keys s0 - as_closed s)"
        by (intro psubset_card_mono) (simp_all add: fin)
      then have "card (as_keys s0 - as_closed s2) < fuel" using Suc.prems(3) by simp
      ultimately obtain b s' where
        "as_search lib pop fuel begin_time clock (Suc i) s2 = AS_Return b s'"
        "if b then as_found lib s0 (fs_waypoints (as_base s'))
         else as_exhausted lib s0 (as_graph s') \<or>
           (\<exists>j. pc_time_limit (fs_param (as_base s0)) < seconds (clock j - begin_time) * 1000)"
        using Suc.IH [OF 2(2), of "Suc i"] by blast
      moreover have "as_search lib pop (Suc fuel) begin_time clock i s = as_search lib pop fuel begin_time clock (Suc i) s2"
        unfolding unfold using no 2(1) by simp
      ultimately show ?thesis by metis
    qed
  qed
qed simp

section \<open>How long the search can take\<close>

text \<open>A free cell has its first corner on the map, so there are at most width times height times angles.\<close>

lemma as_free_cells_bound:
  assumes "as_ready s"
  shows "finite (as_free_cells s) \<and>
    card (as_free_cells s) \<le> og_width (fs_costmap (as_base s)) * og_height (fs_costmap (as_base s)) * nat (as_theta_size s)"
proof -
  let ?base = "as_base s"
  let ?w = "int (og_width (fs_costmap ?base))" and ?h = "int (og_height (fs_costmap ?base))"
  define corner where "corner t = hd (fs_vertex_indexes_table ?base ! nat t)" for t :: int
  define f where "f b = (ix_x b + fst (corner (ix_theta b)), ix_y b + snd (corner (ix_theta b)), ix_theta b)"
    for b :: index_xyt
  let ?box = "{0..<?w} \<times> {0..<?h} \<times> {0..<as_theta_size s}"
  have "f b \<in> ?box" if b: "b \<in> as_free_cells s" for b
  proof -
    from b have t: "0 \<le> ix_theta b" "ix_theta b < as_theta_size s" "fs_detectCollision ?base b = Some False"
      by (simp_all add: as_free_cells_def)
    with assms fs_detectCollision_ok [of ?base b] have
      out: "\<forall>(x, y) \<in> set (fs_vertex_indexes_table ?base ! nat (ix_theta b)).
        \<not> fs_isOutOfRange ?base (x + ix_x b) (y + ix_y b)"
      by (auto simp: as_ready_def as_theta_size_def)
    have "fs_boxed (fs_coll_indexes_table ?base ! nat (ix_theta b)) (fs_vertex_indexes_table ?base ! nat (ix_theta b))"
      using assms t by (auto simp: as_ready_def fs_wf_def as_theta_size_def)
    then have "corner (ix_theta b) \<in> set (fs_vertex_indexes_table ?base ! nat (ix_theta b))"
      by (simp add: fs_boxed_def corner_def)
    with out have "\<not> fs_isOutOfRange ?base (fst (corner (ix_theta b)) + ix_x b) (snd (corner (ix_theta b)) + ix_y b)"
      by fastforce
    with t show ?thesis by (simp add: f_def fs_isOutOfRange_False add.commute)
  qed
  then have sub: "f ` as_free_cells s \<subseteq> ?box" by blast
  have inj: "inj_on f (as_free_cells s)" 
    by (rule inj_onI, rule index_xyt.equality) (auto simp: f_def)
  have fin: "finite ?box" by simp
  from finite_subset [OF sub fin] inj have "finite (as_free_cells s)" by (simp add: finite_image_iff)
  moreover have "card (as_free_cells s) \<le> card ?box" using card_inj_on_le [OF inj sub fin] .
  moreover have "card ?box = og_width (fs_costmap ?base) * og_height (fs_costmap ?base) * nat (as_theta_size s)"
    by (simp add: card_cartesian_product)
  ultimately show ?thesis by simp
qed

lemma as_keys_bound:
  assumes "as_ready s"
  shows "finite (as_keys s) \<and>
    card (as_keys s) \<le> og_width (fs_costmap (as_base s)) * og_height (fs_costmap (as_base s)) * nat (as_theta_size s)"
  using as_free_cells_bound [OF assms] card_image_le [of "as_free_cells s" "as_getKey s"]
  by (auto simp: as_keys_def)

section \<open>A plan\<close>

definition as_wf :: "astar_state \<Rightarrow> bool" where
  "as_wf s \<longleftrightarrow> fs_wf (as_base s) \<and> 0 < as_theta_size s \<and> length (as_transition_table s) = nat (as_theta_size s)"

lemma as_construct_wf: "fs_wf base \<Longrightarrow> 0 < pc_theta_size (fs_param base) \<Longrightarrow> as_wf (as_construct base param)"
  by (simp add: as_wf_def as_construct_def as_theta_size_def as_createTransitionTable_def Let_def)

lemma as_setMap_ok:
  assumes "as_wf s0" and "og_ok costmap"
  obtains s where "as_setMap costmap s0 = Some s" "as_ready s" "as_wf s" "as_graph s = (\<lambda>k. None)"
    "as_openlist s = []" "fs_costmap (as_base s) = costmap" "as_theta_size s = as_theta_size s0"
    "as_x_scale s = int (og_height costmap)"
proof -
  from fs_setMap_ok [of "as_base s0" costmap] assms obtain base where
    base: "fs_setMap costmap (as_base s0) = Some base" "fs_wf base" "fs_costmap base = costmap"
      "fs_param base = fs_param (as_base s0)"
      "length (fs_coll_indexes_table base) = length (fs_coll_indexes_table (as_base s0)) + nat (pc_theta_size (fs_param (as_base s0)))"
    by (auto simp: as_wf_def)
  moreover from base(5) assms(1) have "fs_coll_indexes_table base \<noteq> []" by (auto simp: as_wf_def as_theta_size_def)
  ultimately show ?thesis
    using assms(1) by (intro that [of "(as_clearNodes (s0\<lparr> as_base := base \<rparr>))\<lparr> as_x_scale := int (og_height (fs_costmap base)) \<rparr>"])
      (simp_all add: as_setMap_def as_clearNodes_def as_ready_def as_wf_def as_theta_size_def Let_def)
qed

lemma as_set_poses_simps [simp]:
  "as_graph (as_set_poses lib p g s) = as_graph s" "as_openlist (as_set_poses lib p g s) = as_openlist s"
  "fs_costmap (as_base (as_set_poses lib p g s)) = fs_costmap (as_base s)"
  "as_theta_size (as_set_poses lib p g s) = as_theta_size s"
  "fs_start_pose (as_base (as_set_poses lib p g s)) = fs_global2local (lib_tf lib) (fs_costmap (as_base s)) p"
  "fs_goal_pose (as_base (as_set_poses lib p g s)) = fs_global2local (lib_tf lib) (fs_costmap (as_base s)) g"
  by (simp_all add: as_set_poses_def as_theta_size_def Let_def)

lemma as_set_poses_ready: "as_ready (as_set_poses lib p g s) = as_ready s"
  by (simp add: as_ready_def as_set_poses_def as_theta_size_def fs_wf_def Let_def)

text \<open>The search starts with its invariant.\<close>

lemma as_setStartNode_inv:
  assumes ready: "as_ready s" and clean: "as_graph s = (\<lambda>k. None)" "as_openlist s = []"
    and free: "fs_detectCollision (as_base s)
      (fs_pose2index (fs_costmap (as_base s)) (fs_start_pose (as_base s)) (as_theta_size s)) = Some False"
  shows "\<exists>s1. as_setStartNode lib s = Some (True, s1) \<and> as_inv s s1 \<and> as_progress lib s s1 \<and> as_base s1 = as_base s"
proof -
  let ?pose = "fs_start_pose (as_base s)"
  define index where "index = fs_pose2index (fs_costmap (as_base s)) ?pose (as_theta_size s)"
  define n where "n = an_new\<lparr> an_x := pt_x ?pose, an_y := pt_y ?pose,
    an_theta := 2 * pi / of_int (as_theta_size s) * of_int (ix_theta index), an_gc := 0,
    an_hc := as_estimateCost lib s ?pose, an_is_back := False, an_status := NS_Open, an_parent := None \<rparr>"
  define s1 where "s1 = s\<lparr> as_graph := (as_graph s)(as_getKey s index \<mapsto> n), as_openlist := [as_getKey s index] \<rparr>"
  have pos: "0 < as_theta_size s" using ready by (simp add: as_ready_def)
  note theta = fs_pose2index_theta [OF pos, of "fs_costmap (as_base s)" ?pose, folded index_def]
  have "as_setStartNode lib s = Some (True, s1)"
    using free clean by (simp add: as_setStartNode_def Let_def index_def [symmetric] n_def s1_def)
  moreover have start: "as_is_start s n" by (simp add: as_is_start_def n_def index_def fs_pose2index_def)
  moreover have "as_index s n = index"
    using fs_discretizeAngle_of_index theta by (simp add: as_index_def n_def) (simp add: index_def fs_pose2index_def)
  then have "as_clear s n" "as_getKey s index = as_getKey s (as_index s n)" using free by (simp_all add: as_clear_def index_def)
  moreover have "as_getKey s index \<in> as_keys s"
    using free theta by (auto simp: as_keys_def as_free_cells_def index_def)
  moreover from start have "\<exists>ks. as_chain s (as_graph s1) (as_getKey s index # ks)"
    by (intro exI [of _ "[]"]) (simp add: s1_def n_def)
  moreover have "an_status n = NS_Open" by (simp add: n_def)
  ultimately show ?thesis
    by (intro exI [of _ s1]) (auto simp: as_inv_def as_same_def as_progress_def s1_def clean)
qed

text \<open>Planning with a map just set.\<close>

lemma as_makePlan_returns:
  assumes pq: "std_priority_queue pop" and s: "as_ready s" "as_graph s = (\<lambda>k. None)" "as_openlist s = []"
    and fuel: "og_width (fs_costmap (as_base s)) * og_height (fs_costmap (as_base s)) * nat (as_theta_size s) < fuel"
  shows "\<exists>b s'. as_makePlan lib pop fuel begin_time clock start_pose goal_pose s = AS_Return b s' \<and>
    (let sp = as_set_poses lib start_pose goal_pose s;
         index = (\<lambda>pose. fs_pose2index (fs_costmap (as_base s))
           (fs_global2local (lib_tf lib) (fs_costmap (as_base s)) pose) (as_theta_size s))
     in if b then as_found lib sp (fs_waypoints (as_base s'))
        else fs_detectCollision (as_base sp) (index start_pose) = Some True \<or>
          fs_detectCollision (as_base sp) (index goal_pose) = Some True \<or>
          (\<exists>j. pc_time_limit (fs_param (as_base sp)) < seconds (clock j - begin_time) * 1000) \<or>
          as_exhausted lib sp (as_graph s'))"
proof -
  define costmap where "costmap = fs_costmap (as_base s)"
  define sp where "sp = as_set_poses lib start_pose goal_pose s"
  have ready: "as_ready sp" using s(1) by (simp add: sp_def as_set_poses_ready)
  define index where "index pose = fs_pose2index costmap (fs_global2local (lib_tf lib) costmap pose) (as_theta_size s)" for pose
  have map: "fs_costmap (as_base sp) = costmap" "as_theta_size sp = as_theta_size s"
    "fs_start_pose (as_base sp) = fs_global2local (lib_tf lib) costmap start_pose"
    "fs_goal_pose (as_base sp) = fs_global2local (lib_tf lib) costmap goal_pose"
    by (simp_all add: sp_def costmap_def)
  from as_detect_total [OF ready] map obtain b1 b2 where
    b1: "fs_detectCollision (as_base sp) (index start_pose) = Some b1" and
    b2: "fs_detectCollision (as_base sp) (index goal_pose) = Some b2"
    unfolding index_def by metis
  have "\<exists>b s'. as_makePlan lib pop fuel begin_time clock start_pose goal_pose s = AS_Return b s' \<and>
    (if b then as_found lib sp (fs_waypoints (as_base s'))
     else fs_detectCollision (as_base sp) (index start_pose) = Some True \<or>
       fs_detectCollision (as_base sp) (index goal_pose) = Some True \<or>
       (\<exists>j. pc_time_limit (fs_param (as_base sp)) < seconds (clock j - begin_time) * 1000) \<or>
       as_exhausted lib sp (as_graph s'))"
  proof (cases b1)
    case True
    with b1 map have "as_setStartNode lib sp = Some (False, sp)" by (simp add: as_setStartNode_def Let_def index_def)
    then have "as_makePlan lib pop fuel begin_time clock start_pose goal_pose s = AS_Return False sp"
      by (simp add: as_makePlan_def sp_def)
    with True b1 show ?thesis by auto
  next
    case False
    from as_setStartNode_inv [OF ready, of lib] b1 False s(2,3) map obtain s1 where
      s1: "as_setStartNode lib sp = Some (True, s1)" "as_inv sp s1" "as_progress lib sp s1" "as_base s1 = as_base sp"
      by (auto simp: sp_def index_def)
    from s1(2) have "as_theta_size s1 = as_theta_size sp" by (simp add: as_inv_def as_same_simps)
    with b2 map s1(4) have goal: "as_setGoalNode s1 = Some (\<not> b2)" by (simp add: as_setGoalNode_def index_def)
    show ?thesis
    proof (cases b2)
      case True
      with s1(1) goal have "as_makePlan lib pop fuel begin_time clock start_pose goal_pose s = AS_Return False s1"
        by (simp add: as_makePlan_def sp_def)
      with True b2 show ?thesis by auto
    next
      case no: False
      have plan: "as_makePlan lib pop fuel begin_time clock start_pose goal_pose s = as_search lib pop fuel begin_time clock 0 s1"
        using s1(1) goal no by (simp add: as_makePlan_def sp_def)
      note bound = as_keys_bound [OF ready]
      have "card (as_keys sp - as_closed s1) \<le> card (as_keys sp)" using bound by (intro card_mono) auto
      with bound map fuel [folded costmap_def] have "card (as_keys sp - as_closed s1) < fuel" by simp
      from as_search_returns [OF pq ready _ s1(2,3) this, of begin_time clock 0] bound obtain b s' where
        "as_search lib pop fuel begin_time clock 0 s1 = AS_Return b s'"
        "if b then as_found lib sp (fs_waypoints (as_base s'))
         else as_exhausted lib sp (as_graph s') \<or>
           (\<exists>j. pc_time_limit (fs_param (as_base sp)) < seconds (clock j - begin_time) * 1000)" by blast
      with plan show ?thesis by (intro exI [of _ b] exI [of _ s']) (auto split: if_splits)
    qed
  qed
  then show ?thesis unfolding Let_def sp_def index_def costmap_def .
qed

text \<open>C39: The hybrid A* search is sound, always ends and gives up only for a reason. After setMap with a complete map and a positive resolution, with a priority queue that gives out elements of smallest cost and fuel above width * height * theta_size (the bound on the turns of the loop), makePlan returns without undefined behaviour. When it returns true, the waypoints are those of a sequence of nodes that begins at the start position with the discretised start angle, ends in a node that isGoal accepts, has between neighbours exactly the moves of the transition table, and has every node free of collision. When it returns false, the start or the goal collides, the time limit was exceeded at a reading of the clock, or the nodes reached contain the start and no goal node, each of them is free of collision and stored under the key of its cell and angle, and every move from every one of them collides or leads to the key of a node reached.\<close>

theorem as_makePlan_correct:
  assumes "std_priority_queue pop" and "as_wf s0" and "og_ok costmap"
    and "og_width costmap * og_height costmap * nat (as_theta_size s0) < fuel"
  shows "\<exists>s b s'. as_setMap costmap s0 = Some s \<and>
    as_makePlan lib pop fuel begin_time clock start_pose goal_pose s = AS_Return b s' \<and>
    (let sp = as_set_poses lib start_pose goal_pose s;
         index = (\<lambda>pose. fs_pose2index costmap (fs_global2local (lib_tf lib) costmap pose) (as_theta_size s0))
     in if b then as_found lib sp (fs_waypoints (as_base s'))
        else fs_detectCollision (as_base sp) (index start_pose) = Some True \<or>
          fs_detectCollision (as_base sp) (index goal_pose) = Some True \<or>
          (\<exists>j. pc_time_limit (fs_param (as_base sp)) < seconds (clock j - begin_time) * 1000) \<or>
          as_exhausted lib sp (as_graph s'))"
proof -
  from as_setMap_ok [OF assms(2,3)] obtain s where s: "as_setMap costmap s0 = Some s" "as_ready s"
    "as_graph s = (\<lambda>k. None)" "as_openlist s = []" "fs_costmap (as_base s) = costmap"
    "as_theta_size s = as_theta_size s0" by blast
  from as_makePlan_returns [OF assms(1) s(2-4), where fuel = fuel, unfolded s(5,6), OF assms(4),
      where lib = lib and begin_time = begin_time and clock = clock and start_pose = start_pose and goal_pose = goal_pose]
    s(1)
  show ?thesis by blast
qed

section \<open>What a plan leaves alone\<close>

lemma as_same_trans: "as_same s0 s1 \<Longrightarrow> as_same s1 s2 \<Longrightarrow> as_same s0 s2"
  by (simp add: as_same_def)

lemma as_transit_same: "as_transit lib key n tr s = Some s' \<Longrightarrow> as_same s s'"
  by (auto simp: as_transit_def as_same_def Let_def split: option.splits bool.splits if_splits)

lemma as_transit_all_same: "as_transit_all lib key n trs s = Some s' \<Longrightarrow> as_same s s'"
proof (induction trs arbitrary: s)
  case (Cons tr trs)
  then obtain s1 where "as_transit lib key n tr s = Some s1" "as_transit_all lib key n trs s1 = Some s'"
    by (auto split: bind_splits)
  with Cons.IH as_transit_same as_same_trans show ?case by blast
qed (simp add: as_same_def)

lemma as_search_base:
  "as_search lib pop fuel begin_time clock i s = AS_Return b s' \<Longrightarrow>
   (\<exists>ws. as_base s' = (as_base s)\<lparr> fs_waypoints := ws \<rparr>) \<and> as_transition_table s' = as_transition_table s"
proof (induction fuel arbitrary: i s)
  case (Suc fuel)
  obtain key rest where pop: "pop (as_node_cost s) (as_openlist s) = (key, rest)" by fastforce
  define s1 where "s1 = as_close key rest s"
  have s1: "as_base s1 = as_base s" "as_transition_table s1 = as_transition_table s" by (simp_all add: s1_def as_close_def)
  have same: "(\<exists>ws. as_base s = (as_base s)\<lparr> fs_waypoints := ws \<rparr>)"
    by (rule exI [of _ "fs_waypoints (as_base s)"]) simp
  show ?case
  proof (cases "as_openlist s = [] \<or> seconds (clock i - begin_time) * 1000 > pc_time_limit (fs_param (as_base s))")
    case True
    with Suc.prems same show ?thesis by (auto simp: Let_def split: if_splits)
  next
    case False
    show ?thesis
    proof (cases "as_graph s1 key")
      case None
      with False Suc.prems pop show ?thesis by (simp add: s1_def Let_def)
    next
      case (Some n)
      show ?thesis
      proof (cases "as_isGoal lib s1 n")
        case True
        with False Suc.prems pop Some have "as_setPath lib key (s1\<lparr> as_goal_node := Some key \<rparr>) = Some s'"
          by (auto simp: s1_def Let_def split: option.splits)
        with s1 show ?thesis by (auto simp: as_setPath_def split: bind_splits)
      next
        case no: False
        with False Suc.prems pop Some obtain s2 where s2: "as_expand lib key s1 = Some s2"
          "as_search lib pop fuel begin_time clock (Suc i) s2 = AS_Return b s'"
          by (auto simp: s1_def Let_def split: option.splits)
        from s2(1) have "as_same s1 s2"
          by (auto simp: as_expand_def Let_def split: bind_splits if_splits intro: as_transit_all_same)
        with Suc.IH [OF s2(2)] s1 show ?thesis by (simp add: as_same_def)
      qed
    qed
  qed
qed simp

lemma as_makePlan_base:
  assumes "as_makePlan lib pop fuel begin_time clock start_pose goal_pose s = AS_Return b s'"
  shows "(\<exists>st gl ws. as_base s' = (as_base s)\<lparr> fs_start_pose := st, fs_goal_pose := gl, fs_waypoints := ws \<rparr>) \<and>
    as_transition_table s' = as_transition_table s"
proof -
  let ?s = "as_set_poses lib start_pose goal_pose s"
  have start: "as_base s1 = as_base ?s \<and> as_transition_table s1 = as_transition_table s"
    if "as_setStartNode lib ?s = Some (ok, s1)" for ok s1
    using that by (auto simp: as_setStartNode_def as_set_poses_def Let_def split: option.splits bool.splits)
  from assms obtain ok s1 where s1: "as_setStartNode lib ?s = Some (ok, s1)"
    by (auto simp: as_makePlan_def Let_def split: option.splits)
  with assms have "s' = s1 \<or> as_search lib pop fuel begin_time clock 0 s1 = AS_Return b s'"
    by (auto simp: as_makePlan_def Let_def split: option.splits if_splits)
  then have "(\<exists>ws. as_base s' = (as_base ?s)\<lparr> fs_waypoints := ws \<rparr>) \<and> as_transition_table s' = as_transition_table s"
  proof
    assume "s' = s1"
    with start [OF s1] show ?thesis by (intro conjI exI [of _ "fs_waypoints (as_base ?s)"]) simp_all
  next
    assume "as_search lib pop fuel begin_time clock 0 s1 = AS_Return b s'"
    from as_search_base [OF this] start [OF s1] show ?thesis by simp
  qed
  then obtain ws where ws: "as_base s' = (as_base ?s)\<lparr> fs_waypoints := ws \<rparr>" "as_transition_table s' = as_transition_table s"
    by blast
  have "as_base s' = (as_base s)\<lparr> fs_start_pose := fs_start_pose (as_base ?s),
      fs_goal_pose := fs_goal_pose (as_base ?s), fs_waypoints := ws \<rparr>"
    unfolding ws(1) by (simp add: as_set_poses_def Let_def)
  with ws(2) show ?thesis by blast
qed

lemma as_wf_base:
  assumes "as_base s' = (as_base s)\<lparr> fs_start_pose := st, fs_goal_pose := gl, fs_waypoints := ws \<rparr>"
    and "as_transition_table s' = as_transition_table s"
  shows "as_wf s' = as_wf s"
  using assms by (simp add: as_wf_def fs_wf_def as_theta_size_def)

text \<open>One free cell, a goal range that holds it, and a heuristic that is zero: the start is the goal.\<close>

abbreviation as_ex_lib :: as_lib where
  "as_ex_lib \<equiv> \<lparr> lib_tf = \<lparr> tf_global2local = (\<lambda>origin p. p), tf_local2global = (\<lambda>origin p. p) \<rparr>,
     lib_calcReedsSheppDistance = (\<lambda>p q r. 0), lib_calcRelativePose = (\<lambda>b p. p) \<rparr>"

abbreviation as_ex_new :: astar_state where
  "as_ex_new \<equiv> as_construct (fs_new fs_ex_param fs_ex_shape fs_ex_map fs_ex_pose)
     \<lparr> ap_only_behind_solutions = False, ap_use_back = True, ap_distance_heuristic_weight = 1 \<rparr>"

lemma as_makePlan_correct_witness:
  "\<exists>s b s'. as_setMap fs_ex_map as_ex_new = Some s \<and>
    as_makePlan as_ex_lib pq_first_min 5 0 (\<lambda>i. 0) fs_ex_pose fs_ex_pose s = AS_Return b s'"
proof -
  have "as_wf as_ex_new" by (rule as_construct_wf [OF fs_wf_new]) (simp add: fs_new_def)
  moreover have "og_ok fs_ex_map" by (simp add: og_ok_def)
  moreover have "og_width fs_ex_map * og_height fs_ex_map * nat (as_theta_size as_ex_new) < 5"
    by (simp add: as_theta_size_def as_construct_def fs_new_def Let_def)
  ultimately show ?thesis
    using as_makePlan_correct [OF pq.std_priority_queue_axioms, where costmap = fs_ex_map and lib = as_ex_lib]
    by meson
qed

text \<open>A start that is already in the goal range is a plan of one waypoint.\<close>

lemma as_makePlan_at_goal:
  assumes pq: "std_priority_queue pop" and s: "as_graph s = (\<lambda>k. None)" "as_openlist s = []"
    and free: "\<forall>q \<in> {start_pose, goal_pose}. fs_detectCollision (as_base (as_set_poses lib start_pose goal_pose s))
      (fs_pose2index (fs_costmap (as_base s)) (fs_global2local (lib_tf lib) (fs_costmap (as_base s)) q) (as_theta_size s)) =
        Some False"
    and goal: "\<And>n s'. fs_param (as_base s') = fs_param (as_base s) \<Longrightarrow> as_isGoal lib s' n"
    and clock: "\<not> pc_time_limit (fs_param (as_base s)) < seconds (clock 0 - begin_time) * 1000"
  shows "\<exists>s'. as_makePlan lib pop (Suc fuel) begin_time clock start_pose goal_pose s = AS_Return True s' \<and>
    length (fs_waypoints (as_base s')) = 1"
proof -
  define sp where "sp = as_set_poses lib start_pose goal_pose s"
  note free' = free [folded sp_def]
  have sp: "as_graph sp = (\<lambda>k. None)" "as_openlist sp = []" "fs_costmap (as_base sp) = fs_costmap (as_base s)"
    "as_theta_size sp = as_theta_size s"
    "fs_start_pose (as_base sp) = fs_global2local (lib_tf lib) (fs_costmap (as_base s)) start_pose"
    "fs_goal_pose (as_base sp) = fs_global2local (lib_tf lib) (fs_costmap (as_base s)) goal_pose"
    using s by (simp_all add: sp_def)
  obtain key n where start: "as_setStartNode lib sp =
      Some (True, sp\<lparr> as_graph := [key \<mapsto> n], as_openlist := [key] \<rparr>)" "an_parent n = None"
    using free' by (auto simp: as_setStartNode_def sp Let_def)
  define s1 where "s1 = sp\<lparr> as_graph := [key \<mapsto> n], as_openlist := [key] \<rparr>"
  have "as_base s1 = as_base sp" "as_theta_size s1 = as_theta_size s" using sp(4) by (simp_all add: s1_def as_theta_size_def)
  then have "as_setGoalNode s1 = Some True" using free' sp by (simp add: as_setGoalNode_def)
  with start have plan: "as_makePlan lib pop (Suc fuel) begin_time clock start_pose goal_pose s =
      as_search lib pop (Suc fuel) begin_time clock 0 s1" by (simp add: as_makePlan_def sp_def s1_def)
  obtain x rest where pop: "pop (as_node_cost s1) [key] = (x, rest)" by fastforce
  from std_priority_queue.pop_elements [OF pq _ pop] have "x = key" "rest = []" by (auto simp: single_is_union)
  define s2 where "s2 = as_close key [] s1"
  have graph: "as_graph s2 key = Some (n\<lparr> an_status := NS_Closed \<rparr>)" by (simp add: s2_def as_close_def s1_def)
  have "as_path (as_graph s2) key = Some [n\<lparr> an_status := NS_Closed \<rparr>]"
    using graph start(2) by (subst as_path.simps) simp
  then obtain s3 where s3: "as_setPath lib key (s2\<lparr> as_goal_node := Some key \<rparr>) = Some s3"
    "length (fs_waypoints (as_base s3)) = 1" by (simp add: as_setPath_def)
  have "fs_param (as_base s1) = fs_param (as_base s)" "fs_param (as_base s2) = fs_param (as_base s)"
    by (simp_all add: s2_def s1_def sp_def as_set_poses_def as_close_def Let_def)
  moreover have "as_openlist s1 = [key]" by (simp add: s1_def)
  ultimately have "as_search lib pop (Suc fuel) begin_time clock 0 s1 = AS_Return True s3"
    using clock pop graph s3(1) goal by (simp add: \<open>x = key\<close> \<open>rest = []\<close> s2_def [symmetric])
  with plan s3(2) show ?thesis by simp
qed

section \<open>Keys\<close>

text \<open>
  The key multiplies the row by the height of the map where a row has width cells. No two cells of a map that
  is not wider than high share a key; on a wider one they do.
\<close>

lemma as_getKey_injective:
  assumes "as_getKey s a = as_getKey s b" and "as_y_scale s = as_theta_size s"
    and "0 \<le> ix_x a" "ix_x a < as_x_scale s" "0 \<le> ix_x b" "ix_x b < as_x_scale s"
    and "0 \<le> ix_theta a" "ix_theta a < as_theta_size s" "0 \<le> ix_theta b" "ix_theta b < as_theta_size s"
  shows "a = (b :: index_xyt)"
proof -
  have digits: "u = v \<and> i = j"
    if "u + i * m = v + j * m" "0 \<le> u" "u < m" "0 \<le> v" "v < m" for u v i j m :: int
  proof -
    from that(2-5) have "u = (u + i * m) mod m" "v = (v + j * m) mod m" by simp_all
    with that(1) have "u = v" by metis
    with that show ?thesis by simp
  qed
  from assms(1) have "ix_theta a + (ix_y a * as_x_scale s + ix_x a) * as_y_scale s =
      ix_theta b + (ix_y b * as_x_scale s + ix_x b) * as_y_scale s" by (simp add: as_getKey_def)
  from digits [OF this] assms(2,7-10) have theta: "ix_theta a = ix_theta b"
    and "ix_x a + ix_y a * as_x_scale s = ix_x b + ix_y b * as_x_scale s" by (simp_all add: add.commute)
  from digits [OF this(2) assms(3-6)] theta show ?thesis by (simp add: index_xyt.equality)
qed

lemma as_getKey_clash:
  "as_getKey s \<lparr> ix_x = as_x_scale s, ix_y = y, ix_theta = t \<rparr> = as_getKey s \<lparr> ix_x = 0, ix_y = y + 1, ix_theta = t \<rparr>"
  by (simp add: as_getKey_def algebra_simps)

end
