(* ===== verification/Freespace_Planner.thy ===== *)
theory Freespace_Planner
  imports Astar_Search Trajectory_Utils Scenario_Selector
begin

text \<open>
  planning/freespace_planner: the node that plans and publishes parking trajectories. The planning algorithm is
  a record of the virtual functions of AbstractPlanningAlgorithm with a state of type \<open>'a\<close>; its contract is the
  locale \<open>parking_algorithm\<close>, which hybrid A* satisfies. Looking up a transformation and applying it
  (tf2) is a parameter. Messages on the console and debug topics are left out.
\<close>

section \<open>Types\<close>

record 'a planning_algorithm =
  al_setMap :: "occupancy_grid \<Rightarrow> 'a \<Rightarrow> 'a option"
  al_makePlan :: "time \<Rightarrow> (nat \<Rightarrow> time) \<Rightarrow> pose \<Rightarrow> pose \<Rightarrow> 'a \<Rightarrow> (bool \<times> 'a) option"
  al_hasObstacleOnTrajectory :: "pose list \<Rightarrow> 'a \<Rightarrow> bool option"
  al_getWaypoints :: "'a \<Rightarrow> planner_waypoint list"

record fpn_param =
  fpp_planning_algorithm :: string
  fpp_waypoints_velocity :: real
  fpp_th_arrived_distance_m :: real
  fpp_th_stopped_time_sec :: real
  fpp_th_stopped_velocity_mps :: real
  fpp_th_course_out_distance_m :: real
  fpp_vehicle_shape_margin_m :: real
  fpp_replan_when_obstacle_found :: bool
  fpp_replan_when_course_out :: bool

record 'p stamped =
  st_frame_id :: string
  st_content :: 'p

record fpn_odometry =
  fo_stamp :: time
  fo_frame_id :: string
  fo_pose :: pose
  fo_twist_x :: real

record 'a fpn_state =
  fpn_algo :: 'a
  fpn_current_pose :: "pose stamped"
  fpn_goal_pose :: "pose stamped"
  fpn_trajectory :: points
  fpn_partial_trajectory :: points
  fpn_reversing_indices :: "nat list"
  fpn_prev_target_index :: nat
  fpn_target_index :: nat
  fpn_is_completed :: bool
  fpn_route :: "pose stamped option"
  fpn_occupancy_grid :: "occupancy_grid stamped option"
  fpn_scenario :: "scenario list option"
  fpn_odom :: "fpn_odometry option"
  fpn_odom_buffer :: "fpn_odometry list"

datatype fpn_error =
    FPE_Trajectory tu_error
  | FPE_OutOfRange
  | FPE_Undefined
  | FPE_NoAlgorithm string

datatype fpn_out = FPO_Trajectory points | FPO_Completed bool

definition fpn_defined :: "'b option \<Rightarrow> fpn_error + 'b" where
  "fpn_defined r = (case r of None \<Rightarrow> Inl FPE_Undefined | Some x \<Rightarrow> Inr x)"

definition fpn_tu :: "tu_error + 'b \<Rightarrow> fpn_error + 'b" where
  "fpn_tu r = (case r of Inl e \<Rightarrow> Inl (FPE_Trajectory e) | Inr x \<Rightarrow> Inr x)"

section \<open>Trajectories\<close>

definition fpn_isActive :: "scenario list option \<Rightarrow> bool" where
  "fpn_isActive scenario = (case scenario of None \<Rightarrow> False | Some s \<Rightarrow> Scenario_PARKING \<in> set s)"

abbreviation tp_vel :: "trajectory_point \<Rightarrow> real" where
  "tp_vel \<equiv> tp_longitudinal_velocity_mps"

definition fpn_getReversingIndices :: "points \<Rightarrow> fpn_error + nat list" where
  "fpn_getReversingIndices trajectory =
     (if trajectory = [] then Inl FPE_OutOfRange
      else Inr (filter (\<lambda>i. tp_vel (trajectory ! i) * tp_vel (trajectory ! (i + 1)) < 0)
        [0..<length trajectory - 1]))"

definition fpn_getNextTargetIndex :: "nat \<Rightarrow> nat list \<Rightarrow> nat \<Rightarrow> nat" where
  "fpn_getNextTargetIndex trajectory_size reversing_indices current_target_index =
     (case find (\<lambda>r. r > current_target_index) reversing_indices of
        Some reversing_index \<Rightarrow> reversing_index
      | None \<Rightarrow> trajectory_size - 1)"

definition tp_with_vel :: "real \<Rightarrow> trajectory_point \<Rightarrow> trajectory_point" where
  "tp_with_vel v p = p\<lparr> tp_longitudinal_velocity_mps := v \<rparr>"

definition fpn_start_end_velocity :: "points \<Rightarrow> points" where
  "fpn_start_end_velocity pts =
     (let pts1 = (if 2 \<le> length pts then pts[0 := tp_with_vel (tp_vel (pts ! 1)) (pts ! 0)] else pts)
      in if pts1 = [] then pts1 else butlast pts1 @ [tp_with_vel 0 (last pts1)])"

definition fpn_getPartialTrajectory :: "points \<Rightarrow> nat \<Rightarrow> nat \<Rightarrow> fpn_error + points" where
  "fpn_getPartialTrajectory trajectory start_index end_index =
     (if start_index \<le> end_index \<and> length trajectory \<le> end_index then Inl FPE_OutOfRange
      else Inr (fpn_start_end_velocity (map (nth trajectory) [start_index..<end_index + 1])))"

definition fpn_calcDistance2d :: "points \<Rightarrow> pose \<Rightarrow> fpn_error + real" where
  "fpn_calcDistance2d trajectory pose =
     err_bind (fpn_tu (tu_findNearestIndex trajectory pose))
       (\<lambda>idx. Inr (calcDistance2d (tp_pose (trajectory ! idx)) pose))"

definition fpn_createTrajectory :: "pose \<Rightarrow> planner_waypoint list \<Rightarrow> real \<Rightarrow> points" where
  "fpn_createTrajectory current_pose planner_waypoints velocity =
     map (\<lambda>awp. \<lparr> tp_pose = (pw_pose awp)\<lparr> pt_z := pt_z current_pose \<rparr>,
        tp_longitudinal_velocity_mps = (if pw_is_back awp then - 1 else 1) * (velocity / (36 / 10)),
        tp_acceleration_mps2 = 0 \<rparr>) planner_waypoints"

definition fpn_createStopTrajectory_pose :: "pose \<Rightarrow> points" where
  "fpn_createStopTrajectory_pose current_pose =
     fpn_createTrajectory current_pose [\<lparr> pw_pose = current_pose, pw_is_back = False \<rparr>] 0"

definition fpn_createStopTrajectory :: "points \<Rightarrow> points" where
  "fpn_createStopTrajectory trajectory = map (tp_with_vel 0) trajectory"

definition fpn_isStopped :: "fpn_odometry list \<Rightarrow> real \<Rightarrow> bool" where
  "fpn_isStopped odom_buffer th_stopped_velocity_mps =
     list_all (\<lambda>odom. \<not> \<bar>fo_twist_x odom\<bar> > th_stopped_velocity_mps) odom_buffer"

section \<open>Parameters and the choice of the algorithm\<close>

definition fpn_getPlannerCommonParam :: "planner_common_param \<Rightarrow> planner_common_param" where
  "fpn_getPlannerCommonParam p =
     p\<lparr> pc_maximum_turning_radius := max (pc_maximum_turning_radius p) (pc_minimum_turning_radius p),
        pc_turning_radius_size := max (pc_turning_radius_size p) 1 \<rparr>"

definition fpn_extended_shape :: "fpn_param \<Rightarrow> vehicle_shape \<Rightarrow> vehicle_shape" where
  "fpn_extended_shape p shape =
     (let margin = fpp_vehicle_shape_margin_m p
      in shape\<lparr> vs_length := vs_length shape + margin, vs_width := vs_width shape + margin,
           vs_base2back := vs_base2back shape + margin / 2 \<rparr>)"

definition fpn_initializePlanningAlgorithm ::
  "fpn_param \<Rightarrow> planner_common_param \<Rightarrow> vehicle_shape \<Rightarrow> (planner_common_param \<Rightarrow> vehicle_shape \<Rightarrow> 'a) \<Rightarrow>
    (planner_common_param \<Rightarrow> vehicle_shape \<Rightarrow> 'a) \<Rightarrow> fpn_error + 'a" where
  "fpn_initializePlanningAlgorithm p declared shape make_astar make_rrtstar =
     (let extended_vehicle_shape = fpn_extended_shape p shape;
          planner_common_param = fpn_getPlannerCommonParam declared;
          algo_name = fpp_planning_algorithm p
      in if algo_name = ''astar'' then Inr (make_astar planner_common_param extended_vehicle_shape)
         else if algo_name = ''rrtstar'' then Inr (make_rrtstar planner_common_param extended_vehicle_shape)
         else Inl (FPE_NoAlgorithm algo_name))"

text \<open>The two target indices have no initial value in the code; they are written before they are read.\<close>

definition fpn_new :: "pose \<Rightarrow> 'a \<Rightarrow> 'a fpn_state" where
  "fpn_new zero_pose algo =
     \<lparr> fpn_algo = algo, fpn_current_pose = \<lparr> st_frame_id = [], st_content = zero_pose \<rparr>,
       fpn_goal_pose = \<lparr> st_frame_id = [], st_content = zero_pose \<rparr>, fpn_trajectory = [],
       fpn_partial_trajectory = [], fpn_reversing_indices = [], fpn_prev_target_index = 0, fpn_target_index = 0,
       fpn_is_completed = False, fpn_route = None, fpn_occupancy_grid = None, fpn_scenario = None,
       fpn_odom = None, fpn_odom_buffer = [] \<rparr>"

section \<open>Callbacks\<close>

definition fpn_reset :: "'a fpn_state \<Rightarrow> 'a fpn_state \<times> fpn_out list" where
  "fpn_reset s =
     (s\<lparr> fpn_trajectory := [], fpn_partial_trajectory := [], fpn_is_completed := False \<rparr>, [FPO_Completed False])"

definition fpn_onRoute :: "pose stamped \<Rightarrow> 'a fpn_state \<Rightarrow> 'a fpn_state \<times> fpn_out list" where
  "fpn_onRoute msg s = fpn_reset (s\<lparr> fpn_route := Some msg, fpn_goal_pose := msg \<rparr>)"

definition fpn_onOccupancyGrid :: "occupancy_grid stamped \<Rightarrow> 'a fpn_state \<Rightarrow> 'a fpn_state" where
  "fpn_onOccupancyGrid msg s = s\<lparr> fpn_occupancy_grid := Some msg \<rparr>"

definition fpn_onScenario :: "scenario list \<Rightarrow> 'a fpn_state \<Rightarrow> 'a fpn_state" where
  "fpn_onScenario msg s = s\<lparr> fpn_scenario := Some msg \<rparr>"

fun fpn_delete_old :: "fpn_param \<Rightarrow> time \<Rightarrow> fpn_odometry list \<Rightarrow> fpn_error + fpn_odometry list" where
  "fpn_delete_old p stamp [] = Inl FPE_Undefined"
| "fpn_delete_old p stamp (odom # buffer) =
     (if seconds (stamp - fo_stamp odom) < fpp_th_stopped_time_sec p then Inr (odom # buffer)
      else fpn_delete_old p stamp buffer)"

definition fpn_onOdometry :: "fpn_param \<Rightarrow> fpn_odometry \<Rightarrow> 'a fpn_state \<Rightarrow> fpn_error + 'a fpn_state" where
  "fpn_onOdometry p msg s =
     err_bind (fpn_delete_old p (fo_stamp msg) (fpn_odom_buffer s @ [msg]))
       (\<lambda>buffer. Inr (s\<lparr> fpn_odom := Some msg, fpn_odom_buffer := buffer \<rparr>))"

text \<open>The two checks of \<open>isPlanRequired\<close> for a trajectory that is not empty.\<close>

definition fpn_obstacle_found ::
  "'a planning_algorithm \<Rightarrow> occupancy_grid \<Rightarrow> 'a fpn_state \<Rightarrow> fpn_error + bool \<times> 'a fpn_state" where
  "fpn_obstacle_found al costmap s =
     err_bind (fpn_defined (al_setMap al costmap (fpn_algo s))) (\<lambda>algo.
       let s1 = s\<lparr> fpn_algo := algo \<rparr>; partial = fpn_partial_trajectory s1
       in err_bind (fpn_tu (tu_findNearestIndex partial (st_content (fpn_current_pose s1)))) (\<lambda>nearest_index_partial.
            err_bind (fpn_getPartialTrajectory partial nearest_index_partial (length partial - 1)) (\<lambda>forward_trajectory.
              err_bind (fpn_defined (al_hasObstacleOnTrajectory al (map tp_pose forward_trajectory) algo))
                (\<lambda>is_obstacle_found. Inr (is_obstacle_found, s1)))))"

definition fpn_course_out :: "fpn_param \<Rightarrow> 'a fpn_state \<Rightarrow> fpn_error + bool" where
  "fpn_course_out p s =
     (if fpp_replan_when_course_out p
      then err_bind (fpn_calcDistance2d (fpn_trajectory s) (st_content (fpn_current_pose s)))
        (\<lambda>d. Inr (d > fpp_th_course_out_distance_m p))
      else Inr False)"

definition fpn_isPlanRequired ::
  "'a planning_algorithm \<Rightarrow> fpn_param \<Rightarrow> occupancy_grid \<Rightarrow> 'a fpn_state \<Rightarrow> fpn_error + bool \<times> 'a fpn_state" where
  "fpn_isPlanRequired al p costmap s =
     (if fpn_trajectory s = [] then Inr (True, s)
      else err_bind (if fpp_replan_when_obstacle_found p then fpn_obstacle_found al costmap s else Inr (False, s))
        (\<lambda>(is_obstacle_found, s1).
          if is_obstacle_found then Inr (True, s1)
          else err_bind (fpn_course_out p s1) (\<lambda>is_course_out. Inr (is_course_out, s1))))"

definition fpn_updateTargetIndex :: "fpn_param \<Rightarrow> 'a fpn_state \<Rightarrow> fpn_error + 'a fpn_state \<times> fpn_out list" where
  "fpn_updateTargetIndex p s =
     (if length (fpn_trajectory s) \<le> fpn_target_index s then Inl FPE_OutOfRange
      else let is_near_target =
               (calcDistance2d (tp_pose (fpn_trajectory s ! fpn_target_index s)) (st_content (fpn_current_pose s))
                < fpp_th_arrived_distance_m p);
             is_stopped = fpn_isStopped (fpn_odom_buffer s) (fpp_th_stopped_velocity_mps p)
        in if is_near_target \<and> is_stopped
           then let new_target_index = fpn_getNextTargetIndex (length (fpn_trajectory s)) (fpn_reversing_indices s)
                      (fpn_target_index s)
             in if new_target_index = fpn_target_index s
                then Inr (s\<lparr> fpn_is_completed := True \<rparr>, [FPO_Completed True])
                else Inr (s\<lparr> fpn_prev_target_index := fpn_target_index s, fpn_target_index := new_target_index \<rparr>, [])
           else Inr (s, []))"

text \<open>A transformation looked up and applied: from the frame of a pose to the frame of the map.\<close>

type_synonym fpn_transform = "string \<Rightarrow> string \<Rightarrow> pose \<Rightarrow> pose"

definition fpn_planTrajectory ::
  "'a planning_algorithm \<Rightarrow> fpn_param \<Rightarrow> time \<Rightarrow> (nat \<Rightarrow> time) \<Rightarrow> fpn_transform \<Rightarrow> occupancy_grid stamped \<Rightarrow>
    'a fpn_state \<Rightarrow> fpn_error + 'a fpn_state \<times> fpn_out list" where
  "fpn_planTrajectory al p begin_time clock tf grid s =
     err_bind (fpn_defined (al_setMap al (st_content grid) (fpn_algo s))) (\<lambda>algo.
       let current_pose = tf (st_frame_id grid) (st_frame_id (fpn_current_pose s)) (st_content (fpn_current_pose s));
           goal_pose = tf (st_frame_id grid) (st_frame_id (fpn_goal_pose s)) (st_content (fpn_goal_pose s))
       in err_bind (fpn_defined (al_makePlan al begin_time clock current_pose goal_pose algo)) (\<lambda>(result, algo1).
            if result
            then let trajectory = fpn_createTrajectory (st_content (fpn_current_pose s)) (al_getWaypoints al algo1)
                       (fpp_waypoints_velocity p)
              in err_bind (fpn_getReversingIndices trajectory) (\<lambda>reversing_indices.
                   Inr (s\<lparr> fpn_algo := algo1, fpn_trajectory := trajectory, fpn_reversing_indices := reversing_indices,
                     fpn_prev_target_index := 0,
                     fpn_target_index := fpn_getNextTargetIndex (length trajectory) reversing_indices 0 \<rparr>, []))
            else Inr (fpn_reset (s\<lparr> fpn_algo := algo1 \<rparr>))))"

definition fpn_replan ::
  "'a planning_algorithm \<Rightarrow> fpn_param \<Rightarrow> time \<Rightarrow> (nat \<Rightarrow> time) \<Rightarrow> fpn_transform \<Rightarrow> occupancy_grid stamped \<Rightarrow>
    'a fpn_state \<Rightarrow> fpn_error + 'a fpn_state \<times> fpn_out list" where
  "fpn_replan al p begin_time clock tf grid s =
     (let stop_trajectory = (if fpn_partial_trajectory s = []
            then fpn_createStopTrajectory_pose (st_content (fpn_current_pose s))
            else fpn_createStopTrajectory (fpn_partial_trajectory s));
          (s1, out1) = fpn_reset s
      in err_bind (fpn_planTrajectory al p begin_time clock tf grid s1)
           (\<lambda>(s2, out2). Inr (s2, FPO_Trajectory stop_trajectory # out1 @ out2)))"

definition fpn_publish_partial :: "fpn_param \<Rightarrow> 'a fpn_state \<Rightarrow> fpn_error + 'a fpn_state \<times> fpn_out list" where
  "fpn_publish_partial p s =
     (if length (fpn_trajectory s) \<le> 1 then Inr (s, [])
      else err_bind (fpn_updateTargetIndex p s) (\<lambda>(s1, out).
        err_bind (fpn_getPartialTrajectory (fpn_trajectory s1) (fpn_prev_target_index s1) (fpn_target_index s1))
          (\<lambda>partial. Inr (s1\<lparr> fpn_partial_trajectory := partial \<rparr>, out @ [FPO_Trajectory partial]))))"

definition fpn_onTimer ::
  "'a planning_algorithm \<Rightarrow> fpn_param \<Rightarrow> time \<Rightarrow> (nat \<Rightarrow> time) \<Rightarrow> fpn_transform \<Rightarrow> 'a fpn_state \<Rightarrow>
    fpn_error + 'a fpn_state \<times> fpn_out list" where
  "fpn_onTimer al p begin_time clock tf s =
     (case (fpn_occupancy_grid s, fpn_route s, fpn_scenario s, fpn_odom s) of
        (Some grid, Some route, Some scenario, Some odom) \<Rightarrow>
          if \<not> fpn_isActive (fpn_scenario s) then Inr (fpn_reset s)
          else if fpn_is_completed s then Inr (s, [])
          else let s1 = s\<lparr> fpn_current_pose := \<lparr> st_frame_id = fo_frame_id odom, st_content = fo_pose odom \<rparr> \<rparr>
            in if fo_frame_id odom = [] then Inr (s1, [])
               else err_bind (fpn_isPlanRequired al p (st_content grid) s1) (\<lambda>(required, s2).
                 err_bind (if required then fpn_replan al p begin_time clock tf grid s2 else Inr (s2, [])) (\<lambda>(s3, out3).
                   err_bind (fpn_publish_partial p s3) (\<lambda>(s4, out4). Inr (s4, out3 @ out4))))
      | _ \<Rightarrow> Inr (s, []))"

section \<open>Events\<close>

datatype fpn_event =
    FE_Route "pose stamped"
  | FE_OccupancyGrid "occupancy_grid stamped"
  | FE_Scenario "scenario list"
  | FE_Odometry fpn_odometry
  | FE_Timer time "nat \<Rightarrow> time" fpn_transform

fun fpn_handle ::
  "'a planning_algorithm \<Rightarrow> fpn_param \<Rightarrow> fpn_event \<Rightarrow> 'a fpn_state \<Rightarrow> fpn_error + 'a fpn_state \<times> fpn_out list" where
  "fpn_handle al p (FE_Route msg) s = Inr (fpn_onRoute msg s)"
| "fpn_handle al p (FE_OccupancyGrid msg) s = Inr (fpn_onOccupancyGrid msg s, [])"
| "fpn_handle al p (FE_Scenario msg) s = Inr (fpn_onScenario msg s, [])"
| "fpn_handle al p (FE_Odometry msg) s = err_bind (fpn_onOdometry p msg s) (\<lambda>s1. Inr (s1, []))"
| "fpn_handle al p (FE_Timer begin_time clock tf) s = fpn_onTimer al p begin_time clock tf s"

fun fpn_run ::
  "'a planning_algorithm \<Rightarrow> fpn_param \<Rightarrow> fpn_event list \<Rightarrow> 'a fpn_state \<Rightarrow> fpn_error + 'a fpn_state \<times> fpn_out list" where
  "fpn_run al p [] s = Inr (s, [])"
| "fpn_run al p (e # es) s =
     err_bind (fpn_handle al p e s) (\<lambda>(s1, out1).
       err_bind (fpn_run al p es s1) (\<lambda>(s2, out2). Inr (s2, out1 @ out2)))"

section \<open>Segments of one direction\<close>

lemma fpn_find_first:
  assumes "sorted_wrt (<) xs"
  shows "find (\<lambda>r. r > c) xs = Some t \<Longrightarrow> t \<in> set xs \<and> c < t \<and> (\<forall>i \<in> set xs. c < i \<longrightarrow> t \<le> i)"
    and "find (\<lambda>r. r > c) xs = None \<Longrightarrow> \<forall>i \<in> set xs. \<not> c < (i :: nat)"
  using assms by (induction xs) (auto split: if_splits simp: less_imp_le)

lemma fpn_reversing:
  assumes "fpn_getReversingIndices trajectory = Inr ris"
  shows "trajectory \<noteq> []" "sorted_wrt (<) ris"
    "i \<in> set ris \<longleftrightarrow> i < length trajectory - 1 \<and> tp_vel (trajectory ! i) * tp_vel (trajectory ! (i + 1)) < 0"
  using assms by (auto simp: fpn_getReversingIndices_def sorted_wrt_filter split: if_splits)

lemma fpn_next_target:
  assumes "fpn_getReversingIndices trajectory = Inr ris" and "c < length trajectory"
    and "t = fpn_getNextTargetIndex (length trajectory) ris c"
  shows "c \<le> t \<and> t < length trajectory \<and> (t = c \<longleftrightarrow> c = length trajectory - 1) \<and> (\<forall>i. c < i \<and> i < t \<longrightarrow> i \<notin> set ris)"
proof (cases "find (\<lambda>r. r > c) ris")
  case None
  with fpn_find_first(2) [OF fpn_reversing(2) [OF assms(1)] None] assms show ?thesis
    by (auto simp: fpn_getNextTargetIndex_def)
next
  case (Some r)
  with fpn_find_first(1) [OF fpn_reversing(2) [OF assms(1)] Some] fpn_reversing(3) [OF assms(1), of r] assms(2,3)
  show ?thesis by (auto simp: fpn_getNextTargetIndex_def)
qed

lemma fpn_start_end_velocity_shape:
  assumes "2 \<le> length pts" and "\<And>k. 0 < k \<Longrightarrow> k < length pts \<Longrightarrow> tp_vel (pts ! k) = w"
  shows "map tp_vel (fpn_start_end_velocity pts) = replicate (length pts - 1) w @ [0]"
    and "map tp_pose (fpn_start_end_velocity pts) = map tp_pose pts"
proof -
  let ?pts = "pts[0 := tp_with_vel (tp_vel (pts ! 1)) (pts ! 0)]"
  have unfold: "fpn_start_end_velocity pts = butlast ?pts @ [tp_with_vel 0 (last ?pts)]"
    using assms(1) by (auto simp: fpn_start_end_velocity_def Let_def)
  have "tp_vel (?pts ! k) = w" if "k < length pts" for k
    using that assms by (cases "k = 0") (auto simp: tp_with_vel_def)
  then have "map tp_vel (butlast ?pts) = replicate (length pts - 1) w"
    by (intro nth_equalityI) (auto simp: nth_butlast)
  then show "map tp_vel (fpn_start_end_velocity pts) = replicate (length pts - 1) w @ [0]"
    by (simp add: unfold tp_with_vel_def)
  have "map tp_pose (butlast qs @ [tp_with_vel 0 (last qs)]) = map tp_pose qs" if "qs \<noteq> []" for qs
    using that by (cases qs rule: rev_cases) (simp_all add: tp_with_vel_def)
  from this [of ?pts] assms(1) have "map tp_pose (fpn_start_end_velocity pts) = map tp_pose ?pts"
    unfolding unfold by fastforce
  also have "\<dots> = map tp_pose pts" using assms(1) by (cases pts) (simp_all add: tp_with_vel_def)
  finally show "map tp_pose (fpn_start_end_velocity pts) = map tp_pose pts" .
qed

text \<open>The part of a planned trajectory between two targets has one velocity and ends standing.\<close>

lemma fpn_partial_shape:
  assumes "\<forall>q \<in> set trajectory. \<bar>tp_vel q\<bar> = c" and "fpn_getReversingIndices trajectory = Inr ris"
    and "i < j" "j < length trajectory" and "\<forall>k. i < k \<and> k < j \<longrightarrow> k \<notin> set ris"
  shows "\<exists>w partial. fpn_getPartialTrajectory trajectory i j = Inr partial \<and> \<bar>w\<bar> = c \<and>
    map tp_vel partial = replicate (j - i) w @ [0] \<and> map tp_pose partial = map (\<lambda>k. tp_pose (trajectory ! k)) [i..<j + 1]"
proof -
  let ?pts = "map (nth trajectory) [i..<j + 1]"
  define w where "w = tp_vel (trajectory ! j)"
  have size: "\<bar>tp_vel (trajectory ! k)\<bar> = c" if "k < length trajectory" for k using assms(1) that by simp
  have same: "tp_vel (trajectory ! k) = tp_vel (trajectory ! (k + 1))" if "i < k" "k < j" for k
  proof -
    from that assms(4,5) fpn_reversing(3) [OF assms(2), of k]
    have "\<not> tp_vel (trajectory ! k) * tp_vel (trajectory ! (k + 1)) < 0" by auto
    moreover have "\<bar>tp_vel (trajectory ! k)\<bar> = \<bar>tp_vel (trajectory ! (k + 1))\<bar>"
      using size [of k] size [of "k + 1"] that assms(4) by simp
    ultimately show ?thesis by (auto simp: abs_eq_iff mult_less_0_iff)
  qed
  have "tp_vel (trajectory ! (j - d)) = w" if "d < j - i" for d
    using that
  proof (induction d)
    case (Suc d)
    have "j - Suc d + 1 = j - d" using Suc.prems by simp
    with same [of "j - Suc d"] Suc show ?case by simp
  qed (simp add: w_def)
  then have from_end: "tp_vel (trajectory ! (j - d)) = w" if "d < j - i" for d using that .
  have const: "tp_vel (trajectory ! k) = w" if "i < k" "k \<le> j" for k
  proof -
    from that have "j - k < j - i" "j - (j - k) = k" by simp_all
    with from_end [of "j - k"] show ?thesis by simp
  qed
  have "tp_vel (?pts ! k) = w" if "0 < k" "k < length ?pts" for k
  proof -
    from that assms(3) have "?pts ! k = trajectory ! (i + k)" by (simp del: upt_Suc)
    with const [of "i + k"] that show ?thesis by (simp del: upt_Suc)
  qed
  with fpn_start_end_velocity_shape [of ?pts w] assms(3,4) size [of j] show ?thesis
    by (intro exI [of _ w] exI [of _ "fpn_start_end_velocity ?pts"])
      (auto simp: fpn_getPartialTrajectory_def w_def Suc_diff_le simp del: upt_Suc)
qed

section \<open>What is kept and what is published\<close>

text \<open>
  A plan becomes the trajectory of the node. The sets of maps and the relation \<open>planned\<close> between a map, a
  start, a goal and waypoints are what the algorithm promises.
\<close>

definition fpn_speed :: "fpn_param \<Rightarrow> real" where
  "fpn_speed p = \<bar>fpp_waypoints_velocity p / (36 / 10)\<bar>"

type_synonym fpn_planned = "occupancy_grid \<Rightarrow> pose \<Rightarrow> pose \<Rightarrow> planner_waypoint list \<Rightarrow> bool"

definition fpn_from_plan :: "fpn_planned \<Rightarrow> fpn_param \<Rightarrow> occupancy_grid set \<Rightarrow> points \<Rightarrow> bool" where
  "fpn_from_plan planned p maps trajectory \<longleftrightarrow>
     (\<exists>g \<in> maps. \<exists>st gl ws cp. planned g st gl ws \<and>
        trajectory = fpn_createTrajectory cp ws (fpp_waypoints_velocity p))"

definition fpn_core :: "fpn_planned \<Rightarrow> ('a \<Rightarrow> bool) \<Rightarrow> fpn_param \<Rightarrow> occupancy_grid set \<Rightarrow> 'a fpn_state \<Rightarrow> bool" where
  "fpn_core planned usable p maps s \<longleftrightarrow>
     usable (fpn_algo s) \<and>
     (\<forall>grid. fpn_occupancy_grid s = Some grid \<longrightarrow> st_content grid \<in> maps) \<and>
     (fpn_trajectory s \<noteq> [] \<longrightarrow> fpn_from_plan planned p maps (fpn_trajectory s) \<and>
        fpn_getReversingIndices (fpn_trajectory s) = Inr (fpn_reversing_indices s)) \<and>
     (1 < length (fpn_trajectory s) \<longrightarrow> fpn_prev_target_index s < fpn_target_index s \<and>
        fpn_target_index s < length (fpn_trajectory s) \<and>
        (\<forall>i. fpn_prev_target_index s < i \<and> i < fpn_target_index s \<longrightarrow> i \<notin> set (fpn_reversing_indices s)))"

definition fpn_inv :: "fpn_planned \<Rightarrow> ('a \<Rightarrow> bool) \<Rightarrow> fpn_param \<Rightarrow> occupancy_grid set \<Rightarrow> 'a fpn_state \<Rightarrow> bool" where
  "fpn_inv planned usable p maps s \<longleftrightarrow>
     fpn_core planned usable p maps s \<and> (fpn_partial_trajectory s = [] \<longleftrightarrow> length (fpn_trajectory s) \<le> 1)"

definition fpn_on_plan :: "fpn_planned \<Rightarrow> occupancy_grid set \<Rightarrow> points \<Rightarrow> bool" where
  "fpn_on_plan planned maps pts \<longleftrightarrow>
     (\<exists>g \<in> maps. \<exists>st gl ws z i k. planned g st gl ws \<and>
        map tp_pose pts = map (\<lambda>aw. (pw_pose aw)\<lparr> pt_z := z \<rparr>) (take k (drop i ws)))"

fun fpn_out_ok :: "fpn_planned \<Rightarrow> fpn_param \<Rightarrow> occupancy_grid set \<Rightarrow> fpn_out \<Rightarrow> bool" where
  "fpn_out_ok planned p maps (FPO_Completed b) = True"
| "fpn_out_ok planned p maps (FPO_Trajectory pts) =
     (\<exists>w. map tp_vel pts = replicate (length pts - 1) w @ [0] \<and>
        (w \<noteq> 0 \<longrightarrow> \<bar>w\<bar> = fpn_speed p \<and> fpn_on_plan planned maps pts))"

text \<open>The one way in which the timer fails.\<close>

definition fpn_runs :: "'a fpn_state \<Rightarrow> bool" where
  "fpn_runs s \<longleftrightarrow> fpn_occupancy_grid s \<noteq> None \<and> fpn_route s \<noteq> None \<and> fpn_isActive (fpn_scenario s) \<and>
     \<not> fpn_is_completed s \<and> (\<exists>odom. fpn_odom s = Some odom \<and> fo_frame_id odom \<noteq> [])"

lemma fpn_from_plan_speed:
  assumes "fpn_from_plan planned p maps trajectory"
  shows "\<forall>q \<in> set trajectory. \<bar>tp_vel q\<bar> = fpn_speed p"
  using assms by (auto simp: fpn_from_plan_def fpn_createTrajectory_def fpn_speed_def abs_mult)

lemma fpn_stop_ok:
  "pts \<noteq> [] \<Longrightarrow> fpn_out_ok planned p maps (FPO_Trajectory (fpn_createStopTrajectory pts))"
  "fpn_out_ok planned p maps (FPO_Trajectory (fpn_createStopTrajectory_pose pose))"
proof -
  assume "pts \<noteq> []"
  then obtain q qs where "pts = q # qs" by (cases pts) auto
  moreover have "map tp_vel (map (tp_with_vel 0) (q # qs)) = replicate (length qs) 0 @ [0]"
    by (simp add: tp_with_vel_def o_def map_replicate_const replicate_append_same)
  ultimately show "fpn_out_ok planned p maps (FPO_Trajectory (fpn_createStopTrajectory pts))"
    by (auto simp: fpn_createStopTrajectory_def intro!: exI [of _ 0] simp del: map_map)
qed (simp add: fpn_createStopTrajectory_pose_def fpn_createTrajectory_def exI [of _ 0])

text \<open>The target is kept, reached for good, or replaced by the next one.\<close>

lemma fpn_updateTargetIndex_cases:
  assumes "fpn_target_index s < length (fpn_trajectory s)"
    and "t = fpn_getNextTargetIndex (length (fpn_trajectory s)) (fpn_reversing_indices s) (fpn_target_index s)"
  obtains (stay) "fpn_updateTargetIndex p s = Inr (s, [])"
  | (arrived) "t = fpn_target_index s" "fpn_updateTargetIndex p s = Inr (s\<lparr> fpn_is_completed := True \<rparr>, [FPO_Completed True])"
  | (step) "t \<noteq> fpn_target_index s"
      "fpn_updateTargetIndex p s = Inr (s\<lparr> fpn_prev_target_index := fpn_target_index s, fpn_target_index := t \<rparr>, [])"
proof -
  from assms have "fpn_updateTargetIndex p s = Inr (s, []) \<or>
      t = fpn_target_index s \<and> fpn_updateTargetIndex p s = Inr (s\<lparr> fpn_is_completed := True \<rparr>, [FPO_Completed True]) \<or>
      t \<noteq> fpn_target_index s \<and> fpn_updateTargetIndex p s =
        Inr (s\<lparr> fpn_prev_target_index := fpn_target_index s, fpn_target_index := t \<rparr>, [])"
    by (simp add: fpn_updateTargetIndex_def Let_def)
  with that show ?thesis by blast
qed

lemma fpn_updateTargetIndex_ok:
  assumes core: "fpn_core planned usable p maps s" and long: "1 < length (fpn_trajectory s)"
  shows "\<exists>s1 outs. fpn_updateTargetIndex p s = Inr (s1, outs) \<and> fpn_core planned usable p maps s1 \<and>
    fpn_trajectory s1 = fpn_trajectory s \<and> fpn_algo s1 = fpn_algo s \<and> (\<forall>out \<in> set outs. fpn_out_ok planned p maps out)"
proof -
  from core long have traj: "fpn_getReversingIndices (fpn_trajectory s) = Inr (fpn_reversing_indices s)"
    "fpn_target_index s < length (fpn_trajectory s)" by (auto simp: fpn_core_def)
  define t where "t = fpn_getNextTargetIndex (length (fpn_trajectory s)) (fpn_reversing_indices s) (fpn_target_index s)"
  note later = fpn_next_target [OF traj t_def]
  from traj(2) t_def show ?thesis
  proof (cases rule: fpn_updateTargetIndex_cases [where p = p])
    case step
    have "fpn_core planned usable p maps (s\<lparr> fpn_prev_target_index := fpn_target_index s, fpn_target_index := t \<rparr>)"
      using core later step(1) by (simp add: fpn_core_def)
    with step(2) show ?thesis by simp
  qed (use core in \<open>simp_all add: fpn_core_def\<close>)
qed

lemma fpn_publish_partial_ok:
  assumes core: "fpn_core planned usable p maps s"
  shows "\<exists>s' outs. fpn_publish_partial p s = Inr (s', outs) \<and> fpn_core planned usable p maps s' \<and>
    fpn_trajectory s' = fpn_trajectory s \<and> fpn_algo s' = fpn_algo s \<and> (\<forall>out \<in> set outs. fpn_out_ok planned p maps out) \<and>
    (if length (fpn_trajectory s) \<le> 1 then s' = s
     else fpn_partial_trajectory s' \<noteq> [] \<and> FPO_Trajectory (fpn_partial_trajectory s') \<in> set outs \<and>
       \<bar>tp_vel (hd (fpn_partial_trajectory s'))\<bar> = fpn_speed p)"
proof (cases "length (fpn_trajectory s) \<le> 1")
  case True
  with core show ?thesis by (simp add: fpn_publish_partial_def)
next
  case False
  with core have traj: "fpn_from_plan planned p maps (fpn_trajectory s)"
    "fpn_getReversingIndices (fpn_trajectory s) = Inr (fpn_reversing_indices s)"
    "fpn_prev_target_index s < fpn_target_index s" "fpn_target_index s < length (fpn_trajectory s)"
    "\<forall>i. fpn_prev_target_index s < i \<and> i < fpn_target_index s \<longrightarrow> i \<notin> set (fpn_reversing_indices s)"
    by (auto simp: fpn_core_def)
  from False have long: "1 < length (fpn_trajectory s)" by simp
  from fpn_updateTargetIndex_ok [OF core long] obtain s1 outs where
    s1: "fpn_updateTargetIndex p s = Inr (s1, outs)" "fpn_core planned usable p maps s1"
    "fpn_trajectory s1 = fpn_trajectory s" "fpn_algo s1 = fpn_algo s" "\<forall>out \<in> set outs. fpn_out_ok planned p maps out"
    by blast
  from s1(2,3) False have seg: "fpn_getReversingIndices (fpn_trajectory s) = Inr (fpn_reversing_indices s1)"
    "fpn_prev_target_index s1 < fpn_target_index s1" "fpn_target_index s1 < length (fpn_trajectory s)"
    "\<forall>i. fpn_prev_target_index s1 < i \<and> i < fpn_target_index s1 \<longrightarrow> i \<notin> set (fpn_reversing_indices s1)"
    by (auto simp: fpn_core_def)
  from fpn_partial_shape [OF fpn_from_plan_speed [OF traj(1)] seg] obtain w partial where
    partial: "fpn_getPartialTrajectory (fpn_trajectory s) (fpn_prev_target_index s1) (fpn_target_index s1) = Inr partial"
      "\<bar>w\<bar> = fpn_speed p" "map tp_vel partial = replicate (fpn_target_index s1 - fpn_prev_target_index s1) w @ [0]"
      "map tp_pose partial = map (\<lambda>k. tp_pose (fpn_trajectory s ! k)) [fpn_prev_target_index s1..<fpn_target_index s1 + 1]"
    by blast
  from traj(1) obtain g st gl ws cp where plan: "g \<in> maps" "planned g st gl ws"
    "fpn_trajectory s = fpn_createTrajectory cp ws (fpp_waypoints_velocity p)" by (auto simp: fpn_from_plan_def)
  have "map tp_pose partial = map (\<lambda>aw. (pw_pose aw)\<lparr> pt_z := pt_z cp \<rparr>)
      (take (fpn_target_index s1 + 1 - fpn_prev_target_index s1) (drop (fpn_prev_target_index s1) ws))"
    unfolding partial(4) using seg(2,3) plan(3)
    by (intro nth_equalityI) (auto simp: fpn_createTrajectory_def simp del: upt_Suc)
  with plan(1,2) have "fpn_on_plan planned maps partial" unfolding fpn_on_plan_def by blast
  moreover from partial(3) have "length partial = fpn_target_index s1 - fpn_prev_target_index s1 + 1"
    by (metis length_append length_map length_replicate list.size(3,4) One_nat_def add_Suc_right add_0_right)
  ultimately have ok: "fpn_out_ok planned p maps (FPO_Trajectory partial)" and "partial \<noteq> []"
    using partial(2,3) by auto
  moreover from s1(2) have "fpn_core planned usable p maps (s1\<lparr> fpn_partial_trajectory := partial \<rparr>)"
    by (simp add: fpn_core_def)
  moreover have "\<bar>tp_vel (hd partial)\<bar> = fpn_speed p"
  proof -
    obtain d where "fpn_target_index s1 - fpn_prev_target_index s1 = Suc d" using seg(2) by (metis less_imp_Suc_add diff_add_inverse add_Suc_right)
    then have "hd (map tp_vel partial) = w" unfolding partial(3) by simp
    then show ?thesis using partial(2) \<open>partial \<noteq> []\<close> by (simp add: hd_map)
  qed
  ultimately show ?thesis
    using False s1(1,3,4,5) partial(1) by (simp add: fpn_publish_partial_def)
qed

text \<open>A move of the vehicle or a new algorithm state keeps the core.\<close>

lemma fpn_core_frame:
  "fpn_core planned usable p maps (s\<lparr> fpn_current_pose := cp \<rparr>) = fpn_core planned usable p maps s"
  "fpn_core planned usable p maps (s\<lparr> fpn_partial_trajectory := pts \<rparr>) = fpn_core planned usable p maps s"
  "fpn_core planned usable p maps s \<Longrightarrow> usable algo \<Longrightarrow> fpn_core planned usable p maps (s\<lparr> fpn_algo := algo \<rparr>)"
  by (simp_all add: fpn_core_def)

lemma fpn_core_reset:
  "fpn_core planned usable p maps s \<Longrightarrow>
     fpn_reset s = (s', outs) \<Longrightarrow> fpn_inv planned usable p maps s' \<and> (\<forall>out \<in> set outs. fpn_out_ok planned p maps out)"
  by (auto simp: fpn_core_def fpn_inv_def fpn_reset_def)

lemma fpn_course_out_total: "fpn_trajectory s \<noteq> [] \<Longrightarrow> \<exists>b. fpn_course_out p s = Inr b"
  by (auto simp: fpn_course_out_def fpn_calcDistance2d_def fpn_tu_def tu_findNearestIndex_def)

lemma fpn_getPartialTrajectory_rest: "pts \<noteq> [] \<Longrightarrow> \<exists>qs. fpn_getPartialTrajectory pts i (length pts - 1) = Inr qs"
  by (cases pts) (auto simp: fpn_getPartialTrajectory_def)

lemma fpn_onTimer_unfold:
  assumes "fpn_occupancy_grid s = Some grid" "fpn_route s = Some route" "fpn_scenario s = Some scenario"
    "fpn_odom s = Some odom" and "fpn_isActive (fpn_scenario s)" "\<not> fpn_is_completed s" "fo_frame_id odom \<noteq> []"
    and "s1 = s\<lparr> fpn_current_pose := \<lparr> st_frame_id = fo_frame_id odom, st_content = fo_pose odom \<rparr> \<rparr>"
  shows "fpn_onTimer al p begin_time clock tf s =
    err_bind (fpn_isPlanRequired al p (st_content grid) s1) (\<lambda>(required, s2).
      err_bind (if required then fpn_replan al p begin_time clock tf grid s2 else Inr (s2, [])) (\<lambda>(s3, out3).
        err_bind (fpn_publish_partial p s3) (\<lambda>(s4, out4). Inr (s4, out3 @ out4))))"
  using assms by (simp add: fpn_onTimer_def)

section \<open>The contract of the planning algorithm\<close>

locale parking_algorithm =
  fixes al :: "'a planning_algorithm" and usable :: "'a \<Rightarrow> bool" and fresh :: "occupancy_grid \<Rightarrow> 'a \<Rightarrow> bool"
    and planned :: fpn_planned and maps :: "occupancy_grid set"
  assumes setMap: "usable a \<Longrightarrow> g \<in> maps \<Longrightarrow> og_ok g \<Longrightarrow> \<exists>a'. al_setMap al g a = Some a' \<and> fresh g a'"
    and fresh_usable: "fresh g a \<Longrightarrow> usable a"
    and makePlan: "fresh g a \<Longrightarrow> \<exists>b a'. al_makePlan al begin_time clock st gl a = Some (b, a') \<and> usable a' \<and>
      (b \<longrightarrow> planned g st gl (al_getWaypoints al a'))"
    and hasObstacle: "fresh g a \<Longrightarrow> \<exists>b. al_hasObstacleOnTrajectory al ps a = Some b"
    and planned_nonempty: "planned g st gl ws \<Longrightarrow> ws \<noteq> []"
begin

lemma obstacle_found_ok:
  assumes inv: "fpn_inv planned usable p maps s" and g: "g \<in> maps" "og_ok g"
  shows "if fpn_partial_trajectory s = [] then fpn_obstacle_found al g s = Inl (FPE_Trajectory TU_Empty)
    else \<exists>b a. fpn_obstacle_found al g s = Inr (b, s\<lparr> fpn_algo := a \<rparr>) \<and> usable a"
proof -
  from inv have "usable (fpn_algo s)" by (simp add: fpn_inv_def fpn_core_def)
  from setMap [OF this g] obtain a where a: "al_setMap al g (fpn_algo s) = Some a" "fresh g a" by blast
  show ?thesis
  proof (cases "fpn_partial_trajectory s = []")
    case True
    with a show ?thesis by (simp add: fpn_obstacle_found_def fpn_defined_def fpn_tu_def tu_findNearestIndex_def Let_def)
  next
    case False
    then obtain i where i: "tu_findNearestIndex (fpn_partial_trajectory s) (st_content (fpn_current_pose s)) = Inr i"
      by (simp add: tu_findNearestIndex_def)
    from fpn_getPartialTrajectory_rest [OF False] obtain qs where
      qs: "fpn_getPartialTrajectory (fpn_partial_trajectory s) i (length (fpn_partial_trajectory s) - 1) = Inr qs" by blast
    from hasObstacle [OF a(2)] obtain b where "al_hasObstacleOnTrajectory al (map tp_pose qs) a = Some b" by blast
    then have "fpn_obstacle_found al g s = Inr (b, s\<lparr> fpn_algo := a \<rparr>)"
      using a i qs by (simp add: fpn_obstacle_found_def fpn_defined_def fpn_tu_def Let_def)
    with False fresh_usable [OF a(2)] show ?thesis by auto
  qed
qed

lemma isPlanRequired_ok:
  assumes inv: "fpn_inv planned usable p maps s" and g: "g \<in> maps" "og_ok g"
  shows "if length (fpn_trajectory s) = 1 \<and> fpp_replan_when_obstacle_found p
    then fpn_isPlanRequired al p g s = Inl (FPE_Trajectory TU_Empty)
    else \<exists>b a. fpn_isPlanRequired al p g s = Inr (b, s\<lparr> fpn_algo := a \<rparr>) \<and> usable a \<and> (fpn_trajectory s = [] \<longrightarrow> b)"
proof (cases "fpn_trajectory s = []")
  case True
  with inv show ?thesis
    by (auto simp: fpn_isPlanRequired_def fpn_inv_def fpn_core_def intro!: exI [of _ "fpn_algo s"])
next
  case False
  note course = fpn_course_out_total [OF False]
  show ?thesis
  proof (cases "fpp_replan_when_obstacle_found p")
    case True
    have len: "fpn_partial_trajectory s = [] \<longleftrightarrow> length (fpn_trajectory s) = 1"
      using inv False by (cases "fpn_trajectory s") (auto simp: fpn_inv_def)
    show ?thesis
    proof (cases "fpn_partial_trajectory s = []")
      case True
      with obstacle_found_ok [OF inv g] len False \<open>fpp_replan_when_obstacle_found p\<close> show ?thesis
        by (simp add: fpn_isPlanRequired_def)
    next
      case no: False
      with obstacle_found_ok [OF inv g] obtain b a where
        a: "fpn_obstacle_found al g s = Inr (b, s\<lparr> fpn_algo := a \<rparr>)" "usable a" by auto
      from False have "fpn_trajectory (s\<lparr> fpn_algo := a \<rparr>) \<noteq> []" by simp
      from fpn_course_out_total [OF this] obtain c where "fpn_course_out p (s\<lparr> fpn_algo := a \<rparr>) = Inr c" by blast
      then have "fpn_isPlanRequired al p g s = Inr (b \<or> c, s\<lparr> fpn_algo := a \<rparr>)"
        using a(1) False True by (cases b) (simp_all add: fpn_isPlanRequired_def)
      with a(2) no len False show ?thesis by auto
    qed
  next
    case no: False
    from inv have "usable (fpn_algo s)" by (simp add: fpn_inv_def fpn_core_def)
    with no course False show ?thesis
      by (auto simp: fpn_isPlanRequired_def intro!: exI [of _ "fpn_algo s"])
  qed
qed

lemma planTrajectory_ok:
  assumes core: "fpn_core planned usable p maps s" and g: "st_content grid \<in> maps" "og_ok (st_content grid)"
    and none: "fpn_trajectory s = []" "fpn_partial_trajectory s = []"
  shows "\<exists>s' outs. fpn_planTrajectory al p begin_time clock tf grid s = Inr (s', outs) \<and>
    fpn_core planned usable p maps s' \<and> fpn_partial_trajectory s' = [] \<and> (\<forall>out \<in> set outs. fpn_out_ok planned p maps out)"
proof -
  let ?g = "st_content grid"
  let ?st = "tf (st_frame_id grid) (st_frame_id (fpn_current_pose s)) (st_content (fpn_current_pose s))"
  let ?gl = "tf (st_frame_id grid) (st_frame_id (fpn_goal_pose s)) (st_content (fpn_goal_pose s))"
  from core have "usable (fpn_algo s)" by (simp add: fpn_core_def)
  from setMap [OF this g] obtain a where a: "al_setMap al ?g (fpn_algo s) = Some a" "fresh ?g a" by blast
  from makePlan [OF a(2), where begin_time = begin_time and clock = clock and st = ?st and gl = ?gl] obtain b a' where
    plan: "al_makePlan al begin_time clock ?st ?gl a = Some (b, a')" "usable a'"
      "b \<longrightarrow> planned ?g ?st ?gl (al_getWaypoints al a')" by blast
  show ?thesis
  proof (cases b)
    case True
    define traj where "traj = fpn_createTrajectory (st_content (fpn_current_pose s)) (al_getWaypoints al a')
      (fpp_waypoints_velocity p)"
    from plan(3) True have ws: "planned ?g ?st ?gl (al_getWaypoints al a')" by simp
    then have from_plan: "fpn_from_plan planned p maps traj" using g(1) unfolding fpn_from_plan_def traj_def by blast
    from planned_nonempty [OF ws] have "traj \<noteq> []" by (simp add: traj_def fpn_createTrajectory_def)
    then obtain ris where ris: "fpn_getReversingIndices traj = Inr ris" by (simp add: fpn_getReversingIndices_def)
    from \<open>traj \<noteq> []\<close> have "0 < length traj" by simp
    note target = fpn_next_target [OF ris this refl]
    define s' where "s' = s\<lparr> fpn_algo := a', fpn_trajectory := traj, fpn_reversing_indices := ris,
      fpn_prev_target_index := 0, fpn_target_index := fpn_getNextTargetIndex (length traj) ris 0 \<rparr>"
    have "fpn_planTrajectory al p begin_time clock tf grid s = Inr (s', [])"
      using a(1) plan(1) True ris
      by (simp add: fpn_planTrajectory_def fpn_defined_def Let_def traj_def [symmetric] s'_def)
    moreover have "fpn_core planned usable p maps s'"
      using core plan(2) from_plan ris target by (auto simp: fpn_core_def s'_def)
    moreover have "fpn_partial_trajectory s' = []" using none(2) by (simp add: s'_def)
    ultimately show ?thesis by auto
  next
    case False
    obtain s' outs where reset: "fpn_reset (s\<lparr> fpn_algo := a' \<rparr>) = (s', outs)" by fastforce
    have "fpn_planTrajectory al p begin_time clock tf grid s = Inr (s', outs)"
      using a(1) plan(1) False reset by (simp add: fpn_planTrajectory_def fpn_defined_def Let_def)
    moreover from fpn_core_reset [OF fpn_core_frame(3) [OF core plan(2)] reset]
    have "fpn_core planned usable p maps s'" "\<forall>out \<in> set outs. fpn_out_ok planned p maps out" by (simp_all add: fpn_inv_def)
    moreover from reset none(2) have "fpn_partial_trajectory s' = []" by (auto simp: fpn_reset_def)
    ultimately show ?thesis by blast
  qed
qed

lemma replan_ok:
  assumes core: "fpn_core planned usable p maps s" and g: "st_content grid \<in> maps" "og_ok (st_content grid)"
  shows "\<exists>s' outs. fpn_replan al p begin_time clock tf grid s = Inr (s', outs) \<and>
    fpn_core planned usable p maps s' \<and> fpn_partial_trajectory s' = [] \<and> (\<forall>out \<in> set outs. fpn_out_ok planned p maps out)"
proof -
  obtain s1 out1 where reset: "fpn_reset s = (s1, out1)" by fastforce
  note s1 = fpn_core_reset [OF core reset]
  from reset have "fpn_trajectory s1 = []" "fpn_partial_trajectory s1 = []" by (auto simp: fpn_reset_def)
  moreover from s1 have "fpn_core planned usable p maps s1" by (simp add: fpn_inv_def)
  ultimately obtain s2 out2 where s2: "fpn_planTrajectory al p begin_time clock tf grid s1 = Inr (s2, out2)"
    "fpn_core planned usable p maps s2" "fpn_partial_trajectory s2 = []" "\<forall>out \<in> set out2. fpn_out_ok planned p maps out"
    using planTrajectory_ok [OF _ g, where begin_time = begin_time and clock = clock and tf = tf and p = p] by blast
  have "fpn_out_ok planned p maps (FPO_Trajectory (if fpn_partial_trajectory s = []
      then fpn_createStopTrajectory_pose (st_content (fpn_current_pose s))
      else fpn_createStopTrajectory (fpn_partial_trajectory s)))"
    using fpn_stop_ok by (cases "fpn_partial_trajectory s = []") (simp_all del: fpn_out_ok.simps)
  with s1 s2 reset show ?thesis by (auto simp: fpn_replan_def Let_def simp del: fpn_out_ok.simps)
qed

lemma publish_keeps_inv:
  assumes core: "fpn_core planned usable p maps s"
    and partial: "length (fpn_trajectory s) \<le> 1 \<Longrightarrow> fpn_partial_trajectory s = []"
  shows "\<exists>s' outs. fpn_publish_partial p s = Inr (s', outs) \<and> fpn_inv planned usable p maps s' \<and>
    (\<forall>out \<in> set outs. fpn_out_ok planned p maps out)"
  using fpn_publish_partial_ok [OF core] partial by (fastforce simp: fpn_inv_def split: if_splits)

lemma onTimer_ok:
  assumes inv: "fpn_inv planned usable p maps s" and maps: "\<forall>g \<in> maps. og_ok g"
  shows "if fpn_runs s \<and> length (fpn_trajectory s) = 1 \<and> fpp_replan_when_obstacle_found p
    then fpn_onTimer al p begin_time clock tf s = Inl (FPE_Trajectory TU_Empty)
    else \<exists>s' outs. fpn_onTimer al p begin_time clock tf s = Inr (s', outs) \<and> fpn_inv planned usable p maps s' \<and>
      (\<forall>out \<in> set outs. fpn_out_ok planned p maps out)"
proof (cases "fpn_runs s")
  case False
  show ?thesis
  proof (cases "fpn_occupancy_grid s \<noteq> None \<and> fpn_route s \<noteq> None \<and> fpn_scenario s \<noteq> None \<and> fpn_odom s \<noteq> None")
    case True
    then obtain grid route scenario odom where inputs: "fpn_occupancy_grid s = Some grid" "fpn_route s = Some route"
      "fpn_scenario s = Some scenario" "fpn_odom s = Some odom" by auto
    have core: "fpn_core planned usable p maps s" using inv by (simp add: fpn_inv_def)
    obtain s' outs where reset: "fpn_reset s = (s', outs)" by fastforce
    from False inputs inv fpn_core_reset [OF core reset] reset show ?thesis
      by (auto simp: fpn_onTimer_def fpn_runs_def fpn_inv_def fpn_core_frame)
  next
    case no: False
    then have "fpn_onTimer al p begin_time clock tf s = Inr (s, [])"
      by (auto simp: fpn_onTimer_def split: option.split)
    with False inv show ?thesis by simp
  qed
next
  case True
  then obtain grid route scenario odom where inputs: "fpn_occupancy_grid s = Some grid" "fpn_route s = Some route"
    "fpn_scenario s = Some scenario" "fpn_odom s = Some odom" and run: "fpn_isActive (fpn_scenario s)"
    "\<not> fpn_is_completed s" "fo_frame_id odom \<noteq> []"
    by (auto simp: fpn_runs_def fpn_isActive_def split: option.splits)
  define s1 where "s1 = s\<lparr> fpn_current_pose := \<lparr> st_frame_id = fo_frame_id odom, st_content = fo_pose odom \<rparr> \<rparr>"
  note unfold = fpn_onTimer_unfold [OF inputs run s1_def]
  have inv1: "fpn_inv planned usable p maps s1" using inv by (simp add: fpn_inv_def fpn_core_frame s1_def)
  have g: "st_content grid \<in> maps" "og_ok (st_content grid)"
    using inv inputs(1) maps by (auto simp: fpn_inv_def fpn_core_def)
  have s1: "fpn_trajectory s1 = fpn_trajectory s" by (simp add: s1_def)
  note required = isPlanRequired_ok [OF inv1 g]
  show ?thesis
  proof (cases "length (fpn_trajectory s) = 1 \<and> fpp_replan_when_obstacle_found p")
    case crash: True
    with required s1 True unfold show ?thesis by simp
  next
    case no: False
    with required s1 obtain b a where a: "fpn_isPlanRequired al p (st_content grid) s1 = Inr (b, s1\<lparr> fpn_algo := a \<rparr>)"
      "usable a" by auto
    define s2 where "s2 = s1\<lparr> fpn_algo := a \<rparr>"
    have inv2: "fpn_inv planned usable p maps s2"
      using inv1 a(2) by (simp add: fpn_inv_def fpn_core_frame s2_def)
    then have core2: "fpn_core planned usable p maps s2" by (simp add: fpn_inv_def)
    obtain s3 out3 where s3: "(if b then fpn_replan al p begin_time clock tf grid s2 else Inr (s2, [])) = Inr (s3, out3)"
      "fpn_core planned usable p maps s3" "length (fpn_trajectory s3) \<le> 1 \<Longrightarrow> fpn_partial_trajectory s3 = []"
      "\<forall>out \<in> set out3. fpn_out_ok planned p maps out"
      using replan_ok [OF core2 g, where begin_time = begin_time and clock = clock and tf = tf] inv2
      by (cases b) (auto simp: fpn_inv_def)
    from publish_keeps_inv [OF s3(2,3)] obtain s4 out4 where s4: "fpn_publish_partial p s3 = Inr (s4, out4)"
      "fpn_inv planned usable p maps s4" "\<forall>out \<in> set out4. fpn_out_ok planned p maps out" by blast
    have "fpn_onTimer al p begin_time clock tf s = Inr (s4, out3 @ out4)"
      unfolding unfold a(1) s2_def [symmetric] err_bind.simps prod.case s3(1) s4(1) by simp
    with s4(2,3) s3(4) no show ?thesis by auto
  qed
qed

end

section \<open>Sequences of events\<close>

definition fpn_maps :: "fpn_event list \<Rightarrow> occupancy_grid set" where
  "fpn_maps events = {st_content g | g. FE_OccupancyGrid g \<in> set events}"

definition fpn_crashes :: "fpn_param \<Rightarrow> fpn_event \<Rightarrow> 'a fpn_state \<Rightarrow> bool" where
  "fpn_crashes p e s \<longleftrightarrow> (\<exists>begin_time clock tf. e = FE_Timer begin_time clock tf) \<and> fpn_runs s \<and>
     length (fpn_trajectory s) = 1 \<and> fpp_replan_when_obstacle_found p"

lemma fpn_delete_old_total:
  "0 < fpp_th_stopped_time_sec p \<Longrightarrow> \<exists>buffer. fpn_delete_old p (fo_stamp msg) (odoms @ [msg]) = Inr buffer"
  by (induction odoms) simp_all

context parking_algorithm
begin

lemma handle_ok:
  assumes inv: "fpn_inv planned usable p maps s" and maps: "\<forall>g \<in> maps. og_ok g"
    and grid: "\<And>g. e = FE_OccupancyGrid g \<Longrightarrow> st_content g \<in> maps" and th: "0 < fpp_th_stopped_time_sec p"
  shows "if fpn_crashes p e s then fpn_handle al p e s = Inl (FPE_Trajectory TU_Empty)
    else \<exists>s' outs. fpn_handle al p e s = Inr (s', outs) \<and> fpn_inv planned usable p maps s' \<and>
      (\<forall>out \<in> set outs. fpn_out_ok planned p maps out)"
proof (cases e)
  case (FE_Route msg)
  obtain s' outs where reset: "fpn_reset (s\<lparr> fpn_route := Some msg, fpn_goal_pose := msg \<rparr>) = (s', outs)" by fastforce
  have "fpn_core planned usable p maps (s\<lparr> fpn_route := Some msg, fpn_goal_pose := msg \<rparr>)"
    using inv by (simp add: fpn_inv_def fpn_core_def)
  from fpn_core_reset [OF this reset] reset FE_Route show ?thesis by (simp add: fpn_crashes_def fpn_onRoute_def)
next
  case (FE_OccupancyGrid g)
  with inv grid [OF FE_OccupancyGrid] show ?thesis
    by (simp add: fpn_crashes_def fpn_onOccupancyGrid_def fpn_inv_def fpn_core_def)
next
  case (FE_Scenario msg)
  with inv show ?thesis by (simp add: fpn_crashes_def fpn_onScenario_def fpn_inv_def fpn_core_def)
next
  case (FE_Odometry msg)
  from fpn_delete_old_total [OF th] obtain buffer where
    "fpn_delete_old p (fo_stamp msg) (fpn_odom_buffer s @ [msg]) = Inr buffer" by blast
  with FE_Odometry inv show ?thesis by (simp add: fpn_crashes_def fpn_onOdometry_def fpn_inv_def fpn_core_def)
next
  case (FE_Timer begin_time clock tf)
  with onTimer_ok [OF inv maps, where begin_time = begin_time and clock = clock and tf = tf] show ?thesis
    by (simp add: fpn_crashes_def)
qed

lemma run_ok:
  assumes maps: "\<forall>g \<in> maps. og_ok g" and th: "0 < fpp_th_stopped_time_sec p"
  shows "fpn_inv planned usable p maps s \<Longrightarrow> fpn_maps events \<subseteq> maps \<Longrightarrow> fpn_run al p events s = Inr (s', outs) \<Longrightarrow>
    fpn_inv planned usable p maps s' \<and> (\<forall>out \<in> set outs. fpn_out_ok planned p maps out)"
proof (induction events arbitrary: s outs)
  case (Cons e es)
  from Cons.prems(3) obtain s1 out1 out2 where e: "fpn_handle al p e s = Inr (s1, out1)"
    "fpn_run al p es s1 = Inr (s', out2)" "outs = out1 @ out2" by auto
  have "st_content g \<in> maps" if "e = FE_OccupancyGrid g" for g using Cons.prems(2) that by (auto simp: fpn_maps_def)
  from handle_ok [where e = e, OF Cons.prems(1) maps this th] e(1)
  have s1: "fpn_inv planned usable p maps s1" "\<forall>out \<in> set out1. fpn_out_ok planned p maps out"
    by (auto split: if_splits)
  have "fpn_maps es \<subseteq> maps" using Cons.prems(2) by (auto simp: fpn_maps_def)
  from Cons.IH [OF s1(1) this e(2)] s1(2) e(3) show ?case by auto
qed simp

lemma new_inv: "usable a \<Longrightarrow> fpn_inv planned usable p maps (fpn_new pose a)"
  by (simp add: fpn_inv_def fpn_core_def fpn_new_def)

lemma run_from_new:
  assumes "usable a" and "\<forall>g \<in> maps. og_ok g" and "0 < fpp_th_stopped_time_sec p" and "fpn_maps events \<subseteq> maps"
    and "fpn_run al p events (fpn_new pose a) = Inr (s, outs)"
  shows "fpn_inv planned usable p maps s \<and> (\<forall>out \<in> set outs. fpn_out_ok planned p maps out)"
  using run_ok [OF assms(2,3) new_inv [OF assms(1)] assms(4,5)] .

end

section \<open>Hybrid A*\<close>

definition fpn_astar :: "as_lib \<Rightarrow> ((int \<Rightarrow> real) \<Rightarrow> int list \<Rightarrow> int \<times> int list) \<Rightarrow> astar_state planning_algorithm" where
  "fpn_astar lib pop =
     \<lparr> al_setMap = as_setMap,
       al_makePlan = (\<lambda>begin_time clock st gl s.
         let grid = fs_costmap (as_base s); fuel = Suc (og_width grid * og_height grid * nat (as_theta_size s))
         in case as_makePlan lib pop fuel begin_time clock st gl s of
              AS_Return b s' \<Rightarrow> Some (b, s')
            | _ \<Rightarrow> None),
       al_hasObstacleOnTrajectory = (\<lambda>poses s. fs_hasObstacleOnTrajectory (lib_tf lib) (as_base s) poses),
       al_getWaypoints = (\<lambda>s. fs_waypoints (as_base s)) \<rparr>"

text \<open>The footprint tables are still empty or were made on one of the maps.\<close>

definition fpn_astar_usable ::
  "occupancy_grid set \<Rightarrow> planner_common_param \<Rightarrow> vehicle_shape \<Rightarrow> node_update list list \<Rightarrow> astar_state \<Rightarrow> bool" where
  "fpn_astar_usable maps param shape table s \<longleftrightarrow> as_wf s \<and> fs_param (as_base s) = param \<and> fs_shape (as_base s) = shape \<and>
     as_transition_table s = table \<and>
     (fs_coll_indexes_table (as_base s) = [] \<and> fs_vertex_indexes_table (as_base s) = [] \<or>
      (\<exists>g0 \<in> maps. fs_tables_of g0 (as_base s)))"

definition fpn_astar_fresh ::
  "occupancy_grid set \<Rightarrow> planner_common_param \<Rightarrow> vehicle_shape \<Rightarrow> node_update list list \<Rightarrow> occupancy_grid \<Rightarrow> astar_state \<Rightarrow> bool" where
  "fpn_astar_fresh maps param shape table g s \<longleftrightarrow> g \<in> maps \<and> og_ok g \<and>
     (\<exists>s0. fpn_astar_usable maps param shape table s0 \<and> as_setMap g s0 = Some s)"

definition fpn_astar_planned ::
  "as_lib \<Rightarrow> occupancy_grid set \<Rightarrow> planner_common_param \<Rightarrow> vehicle_shape \<Rightarrow> node_update list list \<Rightarrow> fpn_planned" where
  "fpn_astar_planned lib maps param shape table g st gl ws \<longleftrightarrow>
     (\<exists>s. fpn_astar_fresh maps param shape table g s \<and> as_found lib (as_set_poses lib st gl s) ws)"

lemma as_setMap_base: "as_setMap g s0 = Some s \<Longrightarrow> fs_setMap g (as_base s0) = Some (as_base s)"
  by (auto simp: as_setMap_def as_clearNodes_def Let_def split: bind_splits)

lemma fs_tables_of_plan:
  "fs_tables_of g0 (s\<lparr> fs_start_pose := p, fs_goal_pose := q, fs_waypoints := ws \<rparr>) = fs_tables_of g0 s"
  by (simp add: fs_tables_of_def)

lemma fpn_astar_fresh_tables:
  assumes "fpn_astar_fresh maps param shape table g s"
  shows "\<exists>g0 \<in> maps. fs_tables_of g0 (as_base s)"
proof -
  from assms obtain s0 where s0: "g \<in> maps" "og_ok g" "fpn_astar_usable maps param shape table s0" "as_setMap g s0 = Some s"
    by (auto simp: fpn_astar_fresh_def)
  note base = as_setMap_base [OF s0(4)]
  from s0(3) consider "fs_coll_indexes_table (as_base s0) = []" "fs_vertex_indexes_table (as_base s0) = []"
    | g0 where "g0 \<in> maps" "fs_tables_of g0 (as_base s0)"
    by (auto simp: fpn_astar_usable_def)
  then show ?thesis
    by cases (use fs_setMap_first_tables [OF base] fs_setMap_later_tables [OF base] s0(1,2) in blast)+
qed

lemma fpn_astar_fresh_facts:
  assumes "fpn_astar_fresh maps param shape table g s"
  shows "as_ready s" "as_graph s = (\<lambda>k. None)" "as_openlist s = []" "fs_costmap (as_base s) = g"
    "fpn_astar_usable maps param shape table s"
proof -
  from assms obtain s0 where s0: "og_ok g" "fpn_astar_usable maps param shape table s0" "as_setMap g s0 = Some s"
    by (auto simp: fpn_astar_fresh_def)
  then have "as_wf s0" by (simp add: fpn_astar_usable_def)
  from as_setMap_ok [OF this s0(1)] s0(3)
  show s: "as_ready s" "as_graph s = (\<lambda>k. None)" "as_openlist s = []" "fs_costmap (as_base s) = g" by auto
  from as_setMap_ok [OF \<open>as_wf s0\<close> s0(1)] s0(3) have "as_wf s" by auto
  moreover have "fs_param (as_base s) = param" "fs_shape (as_base s) = shape" "as_transition_table s = table"
    using s0(2,3) by (auto simp: fpn_astar_usable_def as_setMap_def as_clearNodes_def fs_setMap_def Let_def split: bind_splits)
  ultimately show "fpn_astar_usable maps param shape table s"
    using fpn_astar_fresh_tables [OF assms] by (simp add: fpn_astar_usable_def)
qed

text \<open>What a free node of a plan means on the map.\<close>

lemma fpn_astar_fresh_clear:
  assumes "fpn_astar_fresh maps param shape table g s"
  obtains g0 where "g0 \<in> maps" "\<And>n. as_clear (as_set_poses lib st gl s) n \<Longrightarrow>
    fs_rectangle_free param shape g0 g (as_index (as_set_poses lib st gl s) n)"
proof -
  from assms obtain s0 where s0: "og_ok g" "fpn_astar_usable maps param shape table s0" "as_setMap g s0 = Some s"
    by (auto simp: fpn_astar_fresh_def)
  obtain g0 where g0: "g0 \<in> maps" "fs_tables_of g0 (as_base s)" using fpn_astar_fresh_tables [OF assms] by blast
  have wf: "fs_wf (as_base s0)" using s0(2) by (simp add: fpn_astar_usable_def as_wf_def)
  note facts = fpn_astar_fresh_facts [OF assms]
  have param: "fs_param (as_base s) = param" "fs_shape (as_base s) = shape"
    using facts(5) by (simp_all add: fpn_astar_usable_def)
  have size: "0 < pc_theta_size param" using facts(1) param by (simp add: as_ready_def as_theta_size_def)
  show ?thesis
  proof (rule that [OF g0(1)])
    fix n assume clear: "as_clear (as_set_poses lib st gl s) n"
    let ?b = "as_index (as_set_poses lib st gl s) n"
    have theta: "0 \<le> ix_theta ?b" "ix_theta ?b < pc_theta_size (fs_param (as_base s))"
      using fs_discretizeAngle_range [OF size] param by (simp_all add: as_index_def) (simp_all add: as_theta_size_def)
    have "fs_detectCollision (as_base s) ?b = Some False"
      using clear by (simp add: as_clear_def as_set_poses_def Let_def)
    with fs_detectCollision_iff [OF as_setMap_base [OF s0(3)] wf s0(1) g0(2) theta] param
    show "fs_rectangle_free param shape g0 g ?b" by auto
  qed
qed

lemma fs_hasObstacle_total:
  assumes "as_ready s"
  shows "\<exists>b. fs_hasObstacleOnTrajectory tf (as_base s) poses = Some b"
proof (induction poses)
  case (Cons pose poses)
  from as_detect_total [OF assms, of "fs_costmap (as_base s)" "fs_global2local tf (fs_costmap (as_base s)) pose"]
  obtain b where "fs_detectCollision (as_base s) (fs_pose2index (fs_costmap (as_base s))
      (fs_global2local tf (fs_costmap (as_base s)) pose) (pc_theta_size (fs_param (as_base s)))) = Some b"
    by (auto simp: as_theta_size_def)
  with Cons.IH show ?case by (cases b) (auto simp: Let_def)
qed (rule exI [of _ False], simp)

lemma fpn_astar_contract:
  assumes pq: "std_priority_queue pop"
  shows "parking_algorithm (fpn_astar lib pop) (fpn_astar_usable maps param shape table) (fpn_astar_fresh maps param shape table)
    (fpn_astar_planned lib maps param shape table) maps"
proof
  fix a g
  assume a: "fpn_astar_usable maps param shape table a" "g \<in> maps" "og_ok g"
  then have "as_wf a" by (simp add: fpn_astar_usable_def)
  from as_setMap_ok [OF this a(3)] obtain a' where "as_setMap g a = Some a'" by blast
  with a show "\<exists>a'. al_setMap (fpn_astar lib pop) g a = Some a' \<and> fpn_astar_fresh maps param shape table g a'"
    by (auto simp: fpn_astar_def fpn_astar_fresh_def)
next
  fix g a
  assume "fpn_astar_fresh maps param shape table g a"
  then show "fpn_astar_usable maps param shape table a" by (rule fpn_astar_fresh_facts(5))
next
  fix g a begin_time clock st gl
  assume fresh: "fpn_astar_fresh maps param shape table g a"
  note facts = fpn_astar_fresh_facts [OF fresh]
  from as_makePlan_returns [OF pq facts(1-3) lessI, of lib begin_time clock st gl] obtain b a' where
    plan: "as_makePlan lib pop (Suc (og_width (fs_costmap (as_base a)) * og_height (fs_costmap (as_base a)) *
        nat (as_theta_size a))) begin_time clock st gl a = AS_Return b a'"
      "b \<Longrightarrow> as_found lib (as_set_poses lib st gl a) (fs_waypoints (as_base a'))"
    by (auto simp: Let_def)
  from as_makePlan_base [OF plan(1)] obtain p q ws where
    base: "as_base a' = (as_base a)\<lparr> fs_start_pose := p, fs_goal_pose := q, fs_waypoints := ws \<rparr>"
      "as_transition_table a' = as_transition_table a" by blast
  from as_wf_base [OF base] base facts(5) have "fpn_astar_usable maps param shape table a'"
    by (simp add: fpn_astar_usable_def fs_tables_of_plan)
  with plan fresh show "\<exists>b a'. al_makePlan (fpn_astar lib pop) begin_time clock st gl a = Some (b, a') \<and>
      fpn_astar_usable maps param shape table a' \<and>
      (b \<longrightarrow> fpn_astar_planned lib maps param shape table g st gl (al_getWaypoints (fpn_astar lib pop) a'))"
    by (auto simp: fpn_astar_def fpn_astar_planned_def Let_def)
next
  fix g a ps
  assume "fpn_astar_fresh maps param shape table g a"
  from fs_hasObstacle_total [OF fpn_astar_fresh_facts(1) [OF this]]
  show "\<exists>b. al_hasObstacleOnTrajectory (fpn_astar lib pop) ps a = Some b" by (simp add: fpn_astar_def)
next
  fix g st gl ws
  assume "fpn_astar_planned lib maps param shape table g st gl ws"
  then show "ws \<noteq> []" by (auto simp: fpn_astar_planned_def as_found_def)
qed

interpretation fpa: parking_algorithm "fpn_astar lib pq_first_min" "fpn_astar_usable maps param shape table"
  "fpn_astar_fresh maps param shape table" "fpn_astar_planned lib maps param shape table" maps
  by (rule fpn_astar_contract) (rule pq.std_priority_queue_axioms)

text \<open>The node with hybrid A*, as its constructor makes it.\<close>

definition fpn_astar_new ::
  "planner_common_param \<Rightarrow> vehicle_shape \<Rightarrow> astar_param \<Rightarrow> occupancy_grid \<Rightarrow> pose \<Rightarrow> astar_state fpn_state" where
  "fpn_astar_new param shape astar_param costmap pose =
     fpn_new pose (as_construct (fs_new param shape costmap pose) astar_param)"

definition fpn_astar_table :: "planner_common_param \<Rightarrow> astar_param \<Rightarrow> node_update list list" where
  "fpn_astar_table param astar_param =
     as_createTransitionTable (pc_minimum_turning_radius param) (pc_maximum_turning_radius param)
       (pc_turning_radius_size param) (pc_theta_size param) (ap_use_back astar_param)"

lemma fpn_astar_new_usable:
  "0 < pc_theta_size param \<Longrightarrow>
   fpn_astar_usable maps param shape (fpn_astar_table param astar_param)
     (as_construct (fs_new param shape costmap pose) astar_param)"
  using as_construct_wf [OF fs_wf_new, of param shape costmap pose astar_param]
  by (simp add: fpn_astar_usable_def fpn_astar_table_def as_construct_def fs_new_def Let_def)

lemmas fpn_astar_run = parking_algorithm.run_from_new [OF fpn_astar_contract fpn_astar_new_usable]
lemmas fpn_astar_handle = parking_algorithm.handle_ok [OF fpn_astar_contract]

text \<open>
  A way of nodes one move of the transition table apart, at each of which the vehicle's rectangle is free on the map it was planned
  on; nothing of the state of the search enters. The footprint is the one on the map \<open>g0\<close>: the code keeps the cells it computed
  for its first map.
\<close>

definition fpn_node_pose :: "real \<Rightarrow> astar_node \<Rightarrow> pose" where
  "fpn_node_pose z n =
     \<lparr> pt_x = an_x n, pt_y = an_y n, pt_z = z, po_pitch = 0, po_yaw = fs_getYaw (an_theta n) \<rparr>"

definition fpn_node_index :: "int \<Rightarrow> occupancy_grid \<Rightarrow> astar_node \<Rightarrow> index_xyt" where
  "fpn_node_index theta_size g n =
     \<lparr> ix_x = c_trunc (an_x n / og_resolution g), ix_y = c_trunc (an_y n / og_resolution g),
       ix_theta = fs_discretizeAngle (an_theta n) theta_size \<rparr>"

definition fpn_node_move :: "int \<Rightarrow> node_update list list \<Rightarrow> astar_node \<Rightarrow> astar_node \<Rightarrow> bool" where
  "fpn_node_move theta_size table m n \<longleftrightarrow>
     (\<exists>tr \<in> set (table ! nat (fs_discretizeAngle (an_theta m) theta_size)).
        an_x n = an_x m + nu_shift_x tr \<and> an_y n = an_y m + nu_shift_y tr \<and>
        an_theta n = fs_getYaw (an_theta m + nu_shift_theta tr) \<and> an_is_back n = nu_is_back tr)"

definition fpn_free_way ::
  "as_lib \<Rightarrow> planner_common_param \<Rightarrow> vehicle_shape \<Rightarrow> node_update list list \<Rightarrow> occupancy_grid \<Rightarrow> occupancy_grid \<Rightarrow>
     pose list \<Rightarrow> bool" where
  "fpn_free_way lib param shape table g0 g poses \<longleftrightarrow>
     (\<exists>ns z0 z. (\<forall>n \<in> set ns. fs_rectangle_free param shape g0 g (fpn_node_index (pc_theta_size param) g n)) \<and>
        successively (fpn_node_move (pc_theta_size param) table) ns \<and>
        poses = map (\<lambda>n. (fs_local2global (lib_tf lib) g (fpn_node_pose z0 n))\<lparr> pt_z := z \<rparr>) ns)"

lemma fpn_free_way_resolution:
  "og_resolution g0 = og_resolution g \<Longrightarrow>
     fpn_free_way lib param shape table g0 g poses = fpn_free_way lib param shape table g g poses"
  by (simp add: fpn_free_way_def fs_rectangle_free_def fs_footprint_cell_def)

lemma successively_slice: "successively P xs \<Longrightarrow> successively P (take k (drop i xs))"
  by (metis append_take_drop_id successively_append_iff)

lemma fpn_on_plan_free:
  assumes "fpn_on_plan (fpn_astar_planned lib maps param shape table) maps pts"
  shows "\<exists>g0 \<in> maps. \<exists>g \<in> maps. fpn_free_way lib param shape table g0 g (map tp_pose pts)"
proof -
  from assms obtain g st gl ws z i k where g: "g \<in> maps"
    and plan: "fpn_astar_planned lib maps param shape table g st gl ws"
    and pts: "map tp_pose pts = map (\<lambda>aw. (pw_pose aw)\<lparr> pt_z := z \<rparr>) (take k (drop i ws))"
    by (auto simp: fpn_on_plan_def)
  from plan obtain s where s: "fpn_astar_fresh maps param shape table g s" "as_found lib (as_set_poses lib st gl s) ws"
    by (auto simp: fpn_astar_planned_def)
  define sp where "sp = as_set_poses lib st gl s"
  from s(2) obtain ns where ns: "ws = as_first_direction (map (as_waypoint lib sp) ns)"
    "successively (as_move sp) ns" "\<forall>n \<in> set ns. as_clear sp n" by (auto simp: as_found_def sp_def)
  note facts = fpn_astar_fresh_facts [OF s(1)]
  have sp: "fs_costmap (as_base sp) = g" "as_theta_size sp = pc_theta_size param" "as_transition_table sp = table"
    using facts by (simp_all add: sp_def as_set_poses_def as_theta_size_def fpn_astar_usable_def Let_def)
  have move: "as_move sp = fpn_node_move (pc_theta_size param) table"
    and index: "as_index sp = fpn_node_index (pc_theta_size param) g"
    and pose: "as_node2pose sp = fpn_node_pose (pt_z (fs_goal_pose (as_base sp)))"
    by (simp_all add: fun_eq_iff as_move_def fpn_node_move_def as_index_def fpn_node_index_def as_node2pose_def
        fpn_node_pose_def sp)
  have "map (\<lambda>aw. (pw_pose aw)\<lparr> pt_z := z \<rparr>) (take k (drop i ws)) =
      map (\<lambda>p. p\<lparr> pt_z := z \<rparr>) (take k (drop i (map pw_pose ws)))"
    by (simp add: take_map drop_map)
  also have "\<dots> = map (\<lambda>n. (pw_pose (as_waypoint lib sp n))\<lparr> pt_z := z \<rparr>) (take k (drop i ns))"
    unfolding ns(1) as_first_direction_simps by (simp add: take_map drop_map)
  also have "\<dots> = map (\<lambda>n. (fs_local2global (lib_tf lib) g (fpn_node_pose (pt_z (fs_goal_pose (as_base sp))) n))\<lparr> pt_z := z \<rparr>)
      (take k (drop i ns))"
    by (simp add: as_waypoint_def sp(1) pose)
  finally have poses: "map tp_pose pts = \<dots>" using pts by simp
  obtain g0 where g0: "g0 \<in> maps" "\<And>n. as_clear sp n \<Longrightarrow> fs_rectangle_free param shape g0 g (as_index sp n)"
    by (rule fpn_astar_fresh_clear [OF s(1), of lib st gl]) (simp add: sp_def)
  have "\<forall>n \<in> set (take k (drop i ns)). fs_rectangle_free param shape g0 g (fpn_node_index (pc_theta_size param) g n)"
    using ns(3) g0(2) index by (metis in_set_dropD in_set_takeD)
  with g g0(1) successively_slice [OF ns(2)] poses show ?thesis
    unfolding fpn_free_way_def move by blast
qed

section \<open>Parking where the vehicle stands\<close>

text \<open>One free cell, the goal at the vehicle: the plan has one point and the next tick of the timer throws.\<close>

abbreviation fpn_ex_lib :: as_lib where
  "fpn_ex_lib \<equiv> as_ex_lib\<lparr> lib_calcRelativePose := \<lambda>b q. fs_ex_pose \<rparr>"

abbreviation fpn_ex_param :: fpn_param where
  "fpn_ex_param \<equiv> \<lparr> fpp_planning_algorithm = ''astar'', fpp_waypoints_velocity = 5, fpp_th_arrived_distance_m = 1,
     fpp_th_stopped_time_sec = 1, fpp_th_stopped_velocity_mps = 1 / 100, fpp_th_course_out_distance_m = 1,
     fpp_vehicle_shape_margin_m = 0, fpp_replan_when_obstacle_found = True, fpp_replan_when_course_out = True \<rparr>"

abbreviation fpn_ex_astar :: astar_param where
  "fpn_ex_astar \<equiv> \<lparr> ap_only_behind_solutions = False, ap_use_back = True, ap_distance_heuristic_weight = 1 \<rparr>"

abbreviation fpn_ex_new :: "astar_state fpn_state" where
  "fpn_ex_new \<equiv> fpn_astar_new fs_ex_param fs_ex_shape fpn_ex_astar fs_ex_map fs_ex_pose"

abbreviation fpn_ex_tick :: fpn_event where
  "fpn_ex_tick \<equiv> FE_Timer 0 (\<lambda>i. 0) (\<lambda>to from q. q)"

abbreviation fpn_ex_inputs :: "fpn_event list" where
  "fpn_ex_inputs \<equiv> [FE_Route \<lparr> st_frame_id = ''map'', st_content = fs_ex_pose \<rparr>,
     FE_OccupancyGrid \<lparr> st_frame_id = ''map'', st_content = fs_ex_map \<rparr>, FE_Scenario [Scenario_PARKING],
     FE_Odometry \<lparr> fo_stamp = 0, fo_frame_id = ''map'', fo_pose = fs_ex_pose, fo_twist_x = 0 \<rparr>]"

lemma fpn_ex_isGoal: "fs_param (as_base s) = fs_ex_param \<Longrightarrow> as_isGoal fpn_ex_lib s n"
  by (simp add: as_isGoal_def normalizeRadian_def fmod_def Let_def)

lemma fpn_ex_plan:
  "\<exists>a. as_setMap fs_ex_map (fpn_algo fpn_ex_new) = Some a \<and> (\<forall>fuel. \<exists>a'.
    as_makePlan fpn_ex_lib pq_first_min (Suc fuel) 0 (\<lambda>i. 0) fs_ex_pose fs_ex_pose a = AS_Return True a' \<and>
    length (fs_waypoints (as_base a')) = 1)"
proof -
  from fs_ex_free [of fs_ex_param] obtain base where base: "fs_setMap fs_ex_map (fs_new fs_ex_param fs_ex_shape fs_ex_map fs_ex_pose) = Some base"
    "\<And>t. 0 \<le> t \<Longrightarrow> t < 4 \<Longrightarrow> fs_detectCollision base \<lparr> ix_x = 0, ix_y = 0, ix_theta = t \<rparr> = Some False" by auto
  have og: "og_ok fs_ex_map" by (simp add: og_ok_def)
  have usable: "fpn_astar_usable {fs_ex_map} fs_ex_param fs_ex_shape (fpn_astar_table fs_ex_param fpn_ex_astar) (fpn_algo fpn_ex_new)"
    using fpn_astar_new_usable [of fs_ex_param "{fs_ex_map}" fs_ex_shape fpn_ex_astar fs_ex_map fs_ex_pose]
    by (simp add: fpn_astar_new_def fpn_new_def)
  then have "as_wf (fpn_algo fpn_ex_new)" by (simp add: fpn_astar_usable_def)
  from as_setMap_ok [OF this og] obtain a where a: "as_setMap fs_ex_map (fpn_algo fpn_ex_new) = Some a" by blast
  have "fpn_astar_fresh {fs_ex_map} fs_ex_param fs_ex_shape (fpn_astar_table fs_ex_param fpn_ex_astar) fs_ex_map a"
    using og usable a by (auto simp: fpn_astar_fresh_def)
  note facts = fpn_astar_fresh_facts [OF this]
  from facts(5) have param: "fs_param (as_base a) = fs_ex_param" by (simp add: fpn_astar_usable_def)
  have "as_base a = base"
    using a base(1) by (auto simp: as_setMap_def as_clearNodes_def fpn_astar_new_def fpn_new_def as_construct_def fs_new_def Let_def)
  then have "fs_detectCollision (as_base (as_set_poses fpn_ex_lib fs_ex_pose fs_ex_pose a)) b = fs_detectCollision base b" for b
    by (simp add: as_set_poses_def Let_def)
  moreover have "fs_pose2index fs_ex_map fs_ex_pose 4 = \<lparr> ix_x = 0, ix_y = 0, ix_theta = fs_discretizeAngle 0 4 \<rparr>"
    by (simp add: fs_pose2index_def c_trunc_def)
  moreover note fs_discretizeAngle_range [of 4 0]
  ultimately have "fs_detectCollision (as_base (as_set_poses fpn_ex_lib fs_ex_pose fs_ex_pose a))
      (fs_pose2index fs_ex_map fs_ex_pose 4) = Some False" using base(2) by simp
  with as_makePlan_at_goal [OF pq.std_priority_queue_axioms facts(2,3), where lib = fpn_ex_lib and
      start_pose = fs_ex_pose and goal_pose = fs_ex_pose and clock = "\<lambda>i. 0" and begin_time = 0]
    facts(4) param fpn_ex_isGoal a show ?thesis
    by (simp add: as_theta_size_def fs_global2local_def)
qed

section \<open>A turn on the spot\<close>

text \<open>
  The same cell, moves so short that a turn by a right angle stays in it, and a goal that every pose reaches whose yaw is not
  zero: the plan starts at the vehicle and has at least one move.
\<close>

abbreviation fpn_turn_common :: planner_common_param where
  "fpn_turn_common \<equiv> fs_ex_param\<lparr> pc_minimum_turning_radius := 1 / 2, pc_maximum_turning_radius := 1 / 2 \<rparr>"

definition fpn_turn_lib :: as_lib where
  "fpn_turn_lib = as_ex_lib\<lparr> lib_calcRelativePose := \<lambda>b q. fs_ex_pose\<lparr> pt_x := if po_yaw q = 0 then 2 else 0 \<rparr> \<rparr>"

lemma fpn_turn_global2local [simp]: "fs_global2local (lib_tf fpn_turn_lib) g q = q"
  by (simp add: fpn_turn_lib_def fs_global2local_def)

abbreviation fpn_turn_new :: "astar_state fpn_state" where
  "fpn_turn_new \<equiv> fpn_astar_new fpn_turn_common fs_ex_shape fpn_ex_astar fs_ex_map fs_ex_pose"

abbreviation fpn_turn_table :: "node_update list list" where
  "fpn_turn_table \<equiv> fpn_astar_table fpn_turn_common fpn_ex_astar"

lemma fpn_turn_isGoal:
  "fs_param (as_base s) = fpn_turn_common \<Longrightarrow> as_isGoal fpn_turn_lib s n \<longleftrightarrow> fs_getYaw (an_theta n) \<noteq> 0"
  by (auto simp: fpn_turn_lib_def as_isGoal_def as_node2pose_def normalizeRadian_def fmod_def Let_def)

lemma fpn_turn_left:
  "\<exists>tr \<in> set (fpn_turn_table ! 0). nu_shift_x tr = 1 / 2 \<and> nu_shift_y tr = 1 / 2 \<and> nu_shift_theta tr = pi / 2"
  by (simp add: fpn_astar_table_def as_createTransitionTable_def as_forward_candidates_def nu_rotated_def nu_flipped_def Let_def)

text \<open>The turn to the left leads to a node that is a goal, so the search does not end without one.\<close>

lemma fpn_turn_not_exhausted:
  assumes fresh: "fpn_astar_fresh {fs_ex_map} fpn_turn_common fs_ex_shape fpn_turn_table fs_ex_map a"
    and free: "\<And>t. 0 \<le> t \<Longrightarrow> t < 4 \<Longrightarrow>
      fs_detectCollision (as_base (as_set_poses fpn_turn_lib fs_ex_pose fs_ex_pose a)) \<lparr> ix_x = 0, ix_y = 0, ix_theta = t \<rparr> = Some False"
  shows "\<not> as_exhausted fpn_turn_lib (as_set_poses fpn_turn_lib fs_ex_pose fs_ex_pose a) g"
proof
  define sp where "sp = as_set_poses fpn_turn_lib fs_ex_pose fs_ex_pose a"
  assume "as_exhausted fpn_turn_lib (as_set_poses fpn_turn_lib fs_ex_pose fs_ex_pose a) g"
  then have exhausted: "as_exhausted fpn_turn_lib sp g" by (simp add: sp_def)
  note facts = fpn_astar_fresh_facts [OF fresh]
  have sp: "fs_param (as_base sp) = fpn_turn_common" "as_transition_table sp = fpn_turn_table" "as_theta_size sp = 4"
    "fs_costmap (as_base sp) = fs_ex_map" "fs_start_pose (as_base sp) = fs_ex_pose"
    using facts(4,5) by (simp_all add: sp_def as_set_poses_def fpn_astar_usable_def as_theta_size_def Let_def)
  obtain k n where n: "g k = Some n" "as_is_start sp n" "as_expanded sp g n"
    using exhausted by (auto simp: as_exhausted_def)
  have zero: "fs_discretizeAngle 0 4 = 0" by (rule fs_getYaw_0_index) simp
  then have start: "an_x n = 0" "an_y n = 0" "an_theta n = 0" using n(2) by (simp_all add: as_is_start_def sp)
  obtain tr where tr: "tr \<in> set (fpn_turn_table ! 0)" "nu_shift_x tr = 1 / 2" "nu_shift_y tr = 1 / 2" "nu_shift_theta tr = pi / 2"
    using fpn_turn_left by blast
  have "fs_discretizeAngle (pi / 2) 4 = 1" using fs_discretizeAngle_of_index [of 1 4] by simp
  then have "fs_pose2index fs_ex_map (as_next_pose sp n tr) 4 = \<lparr> ix_x = 0, ix_y = 0, ix_theta = 1 \<rparr>"
    by (simp add: fs_pose2index_def as_next_pose_def start tr(2-4) c_trunc_def)
  moreover have "as_covered sp g n tr"
    using n(3) tr(1) by (simp add: as_expanded_def sp start(3) zero)
  ultimately obtain m where m: "g (as_getKey sp \<lparr> ix_x = 0, ix_y = 0, ix_theta = 1 \<rparr>) = Some m"
    using free [of 1, folded sp_def] by (auto simp: as_covered_def sp Let_def)
  then have key: "as_getKey sp \<lparr> ix_x = 0, ix_y = 0, ix_theta = 1 \<rparr> = as_getKey sp (as_index sp m)"
    and clear: "as_clear sp m" and "\<not> as_isGoal fpn_turn_lib sp m"
    using exhausted by (auto simp: as_exhausted_def)
  then have "fs_discretizeAngle (an_theta m) 4 = 0" by (simp add: fpn_turn_isGoal sp(1) fs_getYaw_0_index)
  moreover obtain g0 where "g0 \<in> {fs_ex_map}" "fs_rectangle_free fpn_turn_common fs_ex_shape g0 fs_ex_map (as_index sp m)"
    by (rule fpn_astar_fresh_clear [OF fresh, of fpn_turn_lib fs_ex_pose fs_ex_pose]) (use clear sp_def in blast)
  then have "ix_x (as_index sp m) = 0" "ix_y (as_index sp m) = 0"
    by (auto simp: fs_rectangle_free_def fs_corners_def fs_footprint_cell_def c_trunc_def)
  ultimately show False using key by (simp add: as_getKey_def as_index_def sp)
qed

lemma fpn_turn_plan:
  "\<exists>a. as_setMap fs_ex_map (fpn_algo fpn_turn_new) = Some a \<and>
     fpn_astar_fresh {fs_ex_map} fpn_turn_common fs_ex_shape fpn_turn_table fs_ex_map a \<and>
     (\<exists>a'. as_makePlan fpn_turn_lib pq_first_min 5 0 (\<lambda>i. 0) fs_ex_pose fs_ex_pose a = AS_Return True a' \<and>
        as_found fpn_turn_lib (as_set_poses fpn_turn_lib fs_ex_pose fs_ex_pose a) (fs_waypoints (as_base a')) \<and>
        1 < length (fs_waypoints (as_base a')))"
proof -
  let ?lib = fpn_turn_lib
  from fs_ex_free [of fpn_turn_common] obtain base where
    base: "fs_setMap fs_ex_map (fs_new fpn_turn_common fs_ex_shape fs_ex_map fs_ex_pose) = Some base"
      "\<And>t. 0 \<le> t \<Longrightarrow> t < 4 \<Longrightarrow> fs_detectCollision base \<lparr> ix_x = 0, ix_y = 0, ix_theta = t \<rparr> = Some False" by auto
  have og: "og_ok fs_ex_map" by (simp add: og_ok_def)
  have usable: "fpn_astar_usable {fs_ex_map} fpn_turn_common fs_ex_shape fpn_turn_table (fpn_algo fpn_turn_new)"
    using fpn_astar_new_usable [of fpn_turn_common "{fs_ex_map}" fs_ex_shape fpn_ex_astar fs_ex_map fs_ex_pose]
    by (simp add: fpn_astar_new_def fpn_new_def)
  then have "as_wf (fpn_algo fpn_turn_new)" by (simp add: fpn_astar_usable_def)
  from as_setMap_ok [OF this og] obtain a where a: "as_setMap fs_ex_map (fpn_algo fpn_turn_new) = Some a" by blast
  have fresh: "fpn_astar_fresh {fs_ex_map} fpn_turn_common fs_ex_shape fpn_turn_table fs_ex_map a"
    using og usable a by (auto simp: fpn_astar_fresh_def)
  note facts = fpn_astar_fresh_facts [OF fresh]
  define sp where "sp = as_set_poses ?lib fs_ex_pose fs_ex_pose a"
  have sp: "fs_param (as_base sp) = fpn_turn_common" "as_transition_table sp = fpn_turn_table" "as_theta_size sp = 4"
    "fs_costmap (as_base sp) = fs_ex_map" "fs_start_pose (as_base sp) = fs_ex_pose"
    using facts(4,5) by (simp_all add: sp_def as_set_poses_def fpn_astar_usable_def as_theta_size_def Let_def)
  have size: "as_theta_size a = 4" using facts(5) by (simp add: fpn_astar_usable_def as_theta_size_def)
  have "as_base a = base"
    using a base(1) by (auto simp: as_setMap_def as_clearNodes_def fpn_astar_new_def fpn_new_def as_construct_def fs_new_def Let_def)
  then have free: "fs_detectCollision (as_base sp) \<lparr> ix_x = 0, ix_y = 0, ix_theta = t \<rparr> = Some False" if "0 \<le> t" "t < 4" for t
    using base(2) [OF that] by (simp add: sp_def as_set_poses_def Let_def)
  have start: "fs_detectCollision (as_base sp) (fs_pose2index fs_ex_map fs_ex_pose 4) = Some False"
    using free fs_discretizeAngle_range [of 4 0] by (simp add: fs_pose2index_def c_trunc_def)
  have fuel: "og_width (fs_costmap (as_base a)) * og_height (fs_costmap (as_base a)) * nat (as_theta_size a) < 5"
    by (simp add: facts(4) size)
  obtain b a' where plan: "as_makePlan ?lib pq_first_min 5 0 (\<lambda>i. 0) fs_ex_pose fs_ex_pose a = AS_Return b a'"
    and res: "let sp = as_set_poses ?lib fs_ex_pose fs_ex_pose a;
         index = (\<lambda>pose. fs_pose2index (fs_costmap (as_base a))
           (fs_global2local (lib_tf ?lib) (fs_costmap (as_base a)) pose) (as_theta_size a))
     in if b then as_found ?lib sp (fs_waypoints (as_base a'))
        else fs_detectCollision (as_base sp) (index fs_ex_pose) = Some True \<or>
          fs_detectCollision (as_base sp) (index fs_ex_pose) = Some True \<or>
          (\<exists>j::nat. pc_time_limit (fs_param (as_base sp)) < seconds (0 - 0) * 1000) \<or>
          as_exhausted ?lib sp (as_graph a')"
    using as_makePlan_returns [OF pq.std_priority_queue_axioms facts(1-3) fuel, of ?lib 0 "\<lambda>i. 0" fs_ex_pose fs_ex_pose]
    by (elim exE conjE) (rule that; assumption)
  have result: "if b then as_found ?lib sp (fs_waypoints (as_base a')) else as_exhausted ?lib sp (as_graph a')"
    using res [unfolded Let_def, folded sp_def, unfolded facts(4) size fpn_turn_global2local start sp(1)]
    by (cases b) (simp_all add: seconds_def)
  have "\<not> as_exhausted ?lib sp (as_graph a')" using fpn_turn_not_exhausted [OF fresh, folded sp_def] free by blast
  then have b: "b" "as_found ?lib sp (fs_waypoints (as_base a'))"
    using result by (simp_all split: if_splits)
  from b(2) obtain ns where ns: "ns \<noteq> []" "fs_waypoints (as_base a') = as_first_direction (map (as_waypoint ?lib sp) ns)"
    "as_is_start sp (hd ns)" "as_isGoal ?lib sp (last ns)" by (auto simp: as_found_def)
  have "\<not> as_isGoal ?lib sp (hd ns)"
    using ns(3) sp fs_getYaw_0_index [of 0 4] by (simp add: fpn_turn_isGoal as_is_start_def)
  with ns(1,4) have "1 < length ns" by (cases ns) (auto split: if_splits)
  with ns(2) a fresh plan b show ?thesis by (auto simp: sp_def)
qed

section \<open>Properties\<close>

text \<open>C40: Parking trajectories are safe to follow. Take hybrid A*, a priority queue that gives out minimal elements, a
  positive number of angles and stopping time, and any events in which every received map has a positive resolution and
  complete data, and which the node survives. Then every published trajectory ends with velocity zero and has one signed
  velocity w before, so it never changes direction. If w is not zero it is the configured velocity or its opposite, and
  the poses are those of nodes one move of the transition table apart, at each of which the vehicle is free of obstacles
  in the data of a received map g: at the cell and discretised angle of the node the four corners of its rectangle lie
  inside the map, and every sampled point of it lies in a cell whose cost in g is known and below the obstacle
  threshold. The rectangle's cells are computed with the resolution of a received map g0 (the first: the code keeps that
  footprint); with equal resolutions this makes no difference.\<close>

theorem fpn_published_safe:
  assumes "std_priority_queue pop" and "0 < pc_theta_size param" and "\<forall>g \<in> fpn_maps events. og_ok g"
    and "0 < fpp_th_stopped_time_sec p"
    and "fpn_run (fpn_astar lib pop) p events (fpn_astar_new param shape astar_param costmap pose) = Inr (s, outs)"
    and "FPO_Trajectory pts \<in> set outs"
  shows "\<exists>w. map tp_vel pts = replicate (length pts - 1) w @ [0] \<and>
    (w \<noteq> 0 \<longrightarrow> \<bar>w\<bar> = fpn_speed p \<and>
      (\<exists>g0 \<in> fpn_maps events. \<exists>g \<in> fpn_maps events.
         fpn_free_way lib param shape (fpn_astar_table param astar_param) g0 g (map tp_pose pts)))"
proof -
  from fpn_astar_run [OF assms(1-4) order_refl assms(5) [unfolded fpn_astar_new_def]] assms(6)
  have "fpn_out_ok (fpn_astar_planned lib (fpn_maps events) param shape (fpn_astar_table param astar_param)) p (fpn_maps events)
      (FPO_Trajectory pts)" by blast
  with fpn_on_plan_free show ?thesis by fastforce
qed

text \<open>The parking node has exactly one way to fail. After any sequence of events, with positive resolutions and complete maps, handling the next event throws exactly when it is a tick of the timer for which the node is to plan, obstacles are to be looked for, and the trajectory it keeps has a single point, as A* returns it when the vehicle already stands in the goal range; the exception is the one of findNearestIndex for the partial trajectory, which is then empty.\<close>

theorem fpn_fails_iff:
  assumes "std_priority_queue pop" and "0 < pc_theta_size param" and "\<forall>g \<in> fpn_maps (events @ [e]). og_ok g"
    and "0 < fpp_th_stopped_time_sec p"
    and "fpn_run (fpn_astar lib pop) p events (fpn_astar_new param shape astar_param costmap pose) = Inr (s, outs)"
  shows "fpn_handle (fpn_astar lib pop) p e s = Inl err \<longleftrightarrow> err = FPE_Trajectory TU_Empty \<and> fpn_crashes p e s"
proof -
  let ?maps = "fpn_maps (events @ [e])"
  let ?planned = "fpn_astar_planned lib ?maps param shape (fpn_astar_table param astar_param)"
  let ?usable = "fpn_astar_usable ?maps param shape (fpn_astar_table param astar_param)"
  have sub: "fpn_maps events \<subseteq> fpn_maps (events @ [e])" by (auto simp: fpn_maps_def)
  note new = parking_algorithm.new_inv [OF fpn_astar_contract [OF assms(1)] fpn_astar_new_usable [OF assms(2)]]
  have inv: "fpn_inv ?planned ?usable p (fpn_maps (events @ [e])) s"
    using parking_algorithm.run_ok [OF fpn_astar_contract [OF assms(1)] assms(3,4) new sub
        assms(5) [unfolded fpn_astar_new_def]] by blast
  have "st_content g \<in> fpn_maps (events @ [e])" if "e = FE_OccupancyGrid g" for g using that by (auto simp: fpn_maps_def)
  from fpn_astar_handle [where e = e, OF assms(1) inv assms(3) this assms(4)] show ?thesis by (auto split: if_splits)
qed


lemma err_bind_Inr: "err_bind r Inr = r"
  by (cases r) simp_all

text \<open>The inputs, then a tick that plans: the state after the planning, and all outputs.\<close>

definition fpn_ex_planned :: "'a fpn_state \<Rightarrow> 'a \<Rightarrow> points \<Rightarrow> nat list \<Rightarrow> 'a fpn_state" where
  "fpn_ex_planned new algo trajectory ris =
     (let odom = \<lparr> fo_stamp = 0, fo_frame_id = ''map'', fo_pose = fs_ex_pose, fo_twist_x = 0 \<rparr>;
          pose = \<lparr> st_frame_id = ''map'', st_content = fs_ex_pose \<rparr>
      in new\<lparr> fpn_route := Some pose, fpn_goal_pose := pose,
           fpn_occupancy_grid := Some \<lparr> st_frame_id = ''map'', st_content = fs_ex_map \<rparr>, fpn_scenario := Some [Scenario_PARKING],
           fpn_odom := Some odom, fpn_odom_buffer := [odom], fpn_current_pose := pose, fpn_algo := algo,
           fpn_trajectory := trajectory, fpn_reversing_indices := ris, fpn_prev_target_index := 0,
           fpn_target_index := fpn_getNextTargetIndex (length trajectory) ris 0 \<rparr>)"

lemma fpn_first_tick:
  assumes new: "new = fpn_astar_new param fs_ex_shape fpn_ex_astar fs_ex_map fs_ex_pose"
    and a: "as_setMap fs_ex_map (fpn_algo new) = Some a"
    and a': "as_makePlan lib pq_first_min (Suc (og_width (fs_costmap (as_base a)) * og_height (fs_costmap (as_base a)) *
      nat (as_theta_size a))) 0 (\<lambda>i. 0) fs_ex_pose fs_ex_pose a = AS_Return True a'"
    and trajectory: "trajectory = fpn_createTrajectory fs_ex_pose (fs_waypoints (as_base a')) 5"
    and ris: "fpn_getReversingIndices trajectory = Inr ris"
  shows "fpn_run (fpn_astar lib pq_first_min) fpn_ex_param (fpn_ex_inputs @ [fpn_ex_tick]) new =
    err_bind (fpn_publish_partial fpn_ex_param (fpn_ex_planned new a' trajectory ris)) (\<lambda>(s, outs).
      Inr (s, [FPO_Completed False, FPO_Trajectory (fpn_createStopTrajectory_pose fs_ex_pose), FPO_Completed False] @ outs))"
proof -
  let ?al = "fpn_astar lib pq_first_min"
  let ?stop = "fpn_createStopTrajectory_pose fs_ex_pose"
  let ?odom = "\<lparr> fo_stamp = 0, fo_frame_id = ''map'', fo_pose = fs_ex_pose, fo_twist_x = 0 \<rparr>"
  let ?pose = "\<lparr> st_frame_id = ''map'', st_content = fs_ex_pose \<rparr>"
  define s4 where "s4 = new\<lparr> fpn_route := Some ?pose, fpn_goal_pose := ?pose,
    fpn_occupancy_grid := Some \<lparr> st_frame_id = ''map'', st_content = fs_ex_map \<rparr>, fpn_scenario := Some [Scenario_PARKING],
    fpn_odom := Some ?odom, fpn_odom_buffer := [?odom] \<rparr>"
  define s5 where "s5 = fpn_ex_planned new a' trajectory ris"
  have inputs: "fpn_run ?al fpn_ex_param (fpn_ex_inputs @ es) new =
      err_bind (fpn_run ?al fpn_ex_param es s4) (\<lambda>(s, outs). Inr (s, FPO_Completed False # outs))" for es
    by (simp add: fpn_onRoute_def fpn_reset_def fpn_onOccupancyGrid_def fpn_onScenario_def fpn_onOdometry_def
        new fpn_astar_new_def fpn_new_def s4_def split_def err_bind_Inr)
  define s45 where "s45 = s4\<lparr> fpn_current_pose := ?pose \<rparr>"
  have s45: "fpn_trajectory s45 = []" "fpn_partial_trajectory s45 = []" "fpn_algo s45 = fpn_algo new"
    "st_content (fpn_current_pose s45) = fs_ex_pose" "st_content (fpn_goal_pose s45) = fs_ex_pose"
    "fpn_is_completed s45 = False"
    by (simp_all add: s45_def s4_def new fpn_astar_new_def fpn_new_def)
  have set: "al_setMap ?al fs_ex_map (fpn_algo s45) = Some a" using a s45(3) by (simp add: fpn_astar_def)
  have make: "al_makePlan ?al 0 (\<lambda>i. 0) fs_ex_pose fs_ex_pose a = Some (True, a')"
    using a' by (simp add: fpn_astar_def Let_def)
  have ways: "al_getWaypoints ?al a' = fs_waypoints (as_base a')" by (simp add: fpn_astar_def)
  have reset: "fpn_reset s45 = (s45, [FPO_Completed False])" using s45 by (simp add: fpn_reset_def)
  have "fpn_planTrajectory ?al fpn_ex_param 0 (\<lambda>i. 0) (\<lambda>to from q. q)
      \<lparr> st_frame_id = ''map'', st_content = fs_ex_map \<rparr> s45 = Inr (s5, [])"
    unfolding fpn_planTrajectory_def stamped.simps s45(4,5) set fpn_defined_def option.case err_bind.simps
      Let_def make prod.case ways fpn_param.simps if_True trajectory [symmetric] ris
    by (simp add: s5_def fpn_ex_planned_def s45_def s4_def Let_def)
  then have "fpn_replan ?al fpn_ex_param 0 (\<lambda>i. 0) (\<lambda>to from q. q)
      \<lparr> st_frame_id = ''map'', st_content = fs_ex_map \<rparr> s45 = Inr (s5, [FPO_Trajectory ?stop, FPO_Completed False])"
    unfolding fpn_replan_def reset s45(2,4) by simp
  moreover have "fpn_isPlanRequired ?al fpn_ex_param fs_ex_map s45 = Inr (True, s45)"
    using s45(1) by (simp add: fpn_isPlanRequired_def)
  moreover have facts: "fpn_occupancy_grid s4 = Some \<lparr> st_frame_id = ''map'', st_content = fs_ex_map \<rparr>"
    "fpn_route s4 = Some ?pose" "fpn_scenario s4 = Some [Scenario_PARKING]" "fpn_odom s4 = Some ?odom"
    "fpn_isActive (fpn_scenario s4)" "\<not> fpn_is_completed s4" "fo_frame_id ?odom \<noteq> []"
    by (simp_all add: s4_def fpn_isActive_def new fpn_astar_new_def fpn_new_def)
  moreover have "s45 = s4\<lparr> fpn_current_pose := \<lparr> st_frame_id = fo_frame_id ?odom, st_content = fo_pose ?odom \<rparr> \<rparr>"
    by (simp add: s45_def)
  note unfolded = fpn_onTimer_unfold [OF facts this, where al = ?al and p = fpn_ex_param and begin_time = 0 and
      clock = "\<lambda>i. 0" and tf = "\<lambda>to from q. q"]
  ultimately have "fpn_onTimer ?al fpn_ex_param 0 (\<lambda>i. 0) (\<lambda>to from q. q) s4 =
      err_bind (fpn_publish_partial fpn_ex_param s5) (\<lambda>(s, outs). Inr (s, [FPO_Trajectory ?stop, FPO_Completed False] @ outs))"
    by simp
  then show ?thesis
    unfolding inputs s5_def [symmetric]
    by (cases "fpn_publish_partial fpn_ex_param s5") (simp_all add: split_def)
qed

text \<open>At the goal: the trajectory has one point, and only a stop is published.\<close>

lemma fpn_ex_first_tick:
  "\<exists>s outs. fpn_run (fpn_astar fpn_ex_lib pq_first_min) fpn_ex_param (fpn_ex_inputs @ [fpn_ex_tick]) fpn_ex_new = Inr (s, outs) \<and>
    FPO_Trajectory (fpn_createStopTrajectory_pose fs_ex_pose) \<in> set outs \<and> fpn_crashes fpn_ex_param fpn_ex_tick s"
proof -
  from fpn_ex_plan obtain a where a: "as_setMap fs_ex_map (fpn_algo fpn_ex_new) = Some a"
    "\<exists>a'. as_makePlan fpn_ex_lib pq_first_min (Suc fuel) 0 (\<lambda>i. 0) fs_ex_pose fs_ex_pose a = AS_Return True a' \<and>
      length (fs_waypoints (as_base a')) = 1" for fuel by blast
  then obtain a' where a': "as_makePlan fpn_ex_lib pq_first_min (Suc (og_width (fs_costmap (as_base a)) *
      og_height (fs_costmap (as_base a)) * nat (as_theta_size a))) 0 (\<lambda>i. 0) fs_ex_pose fs_ex_pose a = AS_Return True a'"
    "length (fs_waypoints (as_base a')) = 1" by blast
  define trajectory where "trajectory = fpn_createTrajectory fs_ex_pose (fs_waypoints (as_base a')) 5"
  have one: "length trajectory = 1" using a'(2) by (simp add: trajectory_def fpn_createTrajectory_def)
  then have "trajectory \<noteq> []" by auto
  then obtain ris where ris: "fpn_getReversingIndices trajectory = Inr ris" by (simp add: fpn_getReversingIndices_def)
  define s5 where "s5 = fpn_ex_planned fpn_ex_new a' trajectory ris"
  have "fpn_publish_partial fpn_ex_param s5 = Inr (s5, [])"
    using one by (simp add: fpn_publish_partial_def s5_def fpn_ex_planned_def Let_def)
  moreover have "fpn_crashes fpn_ex_param fpn_ex_tick s5"
    using one by (simp add: fpn_crashes_def fpn_runs_def s5_def fpn_ex_planned_def fpn_isActive_def fpn_astar_new_def
        fpn_new_def Let_def)
  ultimately show ?thesis
    using fpn_first_tick [OF refl a(1) a'(1) trajectory_def ris] by (simp add: s5_def)
qed

text \<open>The turn: a trajectory that moves is published.\<close>

lemma fpn_turn_first_tick:
  "\<exists>s outs pts. fpn_run (fpn_astar fpn_turn_lib pq_first_min) fpn_ex_param (fpn_ex_inputs @ [fpn_ex_tick]) fpn_turn_new = Inr (s, outs) \<and>
    FPO_Trajectory pts \<in> set outs \<and> \<bar>tp_vel (hd pts)\<bar> = 25 / 18"
proof -
  let ?planned = "fpn_astar_planned fpn_turn_lib {fs_ex_map} fpn_turn_common fs_ex_shape fpn_turn_table"
  from fpn_turn_plan obtain a a' where a: "as_setMap fs_ex_map (fpn_algo fpn_turn_new) = Some a"
    "fpn_astar_fresh {fs_ex_map} fpn_turn_common fs_ex_shape fpn_turn_table fs_ex_map a"
    "as_makePlan fpn_turn_lib pq_first_min 5 0 (\<lambda>i. 0) fs_ex_pose fs_ex_pose a = AS_Return True a'"
    "as_found fpn_turn_lib (as_set_poses fpn_turn_lib fs_ex_pose fs_ex_pose a) (fs_waypoints (as_base a'))"
    "1 < length (fs_waypoints (as_base a'))" by blast
  note facts = fpn_astar_fresh_facts [OF a(2)]
  have size: "as_theta_size a = 4" using facts(5) by (simp add: fpn_astar_usable_def as_theta_size_def)
  have fuel: "Suc (og_width (fs_costmap (as_base a)) * og_height (fs_costmap (as_base a)) * nat (as_theta_size a)) = 5"
    by (simp add: facts(4) size)
  define trajectory where "trajectory = fpn_createTrajectory fs_ex_pose (fs_waypoints (as_base a')) 5"
  have long: "1 < length trajectory" using a(5) by (simp add: trajectory_def fpn_createTrajectory_def)
  then have "trajectory \<noteq> []" "0 < length trajectory" by auto
  then obtain ris where ris: "fpn_getReversingIndices trajectory = Inr ris" by (auto simp: fpn_getReversingIndices_def)
  define s5 where "s5 = fpn_ex_planned fpn_turn_new a' trajectory ris"
  have "?planned fs_ex_map fs_ex_pose fs_ex_pose (fs_waypoints (as_base a'))"
    using a(2,4) by (auto simp: fpn_astar_planned_def)
  then have plan: "fpn_from_plan ?planned fpn_ex_param {fs_ex_map} trajectory"
    by (auto simp: fpn_from_plan_def trajectory_def)
  note target = fpn_next_target [OF ris \<open>0 < length trajectory\<close> refl]
  have core: "fpn_core ?planned (\<lambda>a. True) fpn_ex_param {fs_ex_map} s5"
    using plan ris target long by (auto simp: fpn_core_def s5_def fpn_ex_planned_def Let_def)
  have "fpn_trajectory s5 = trajectory" by (simp add: s5_def fpn_ex_planned_def Let_def)
  with fpn_publish_partial_ok [OF core] long obtain s6 outs where
    "fpn_publish_partial fpn_ex_param s5 = Inr (s6, outs)" "FPO_Trajectory (fpn_partial_trajectory s6) \<in> set outs"
    "\<bar>tp_vel (hd (fpn_partial_trajectory s6))\<bar> = fpn_speed fpn_ex_param" by auto
  with fpn_first_tick [OF refl a(1) a(3) [folded fuel] trajectory_def ris] show ?thesis
    by (intro exI [of _ s6] exI [of _ "[FPO_Completed False, FPO_Trajectory (fpn_createStopTrajectory_pose fs_ex_pose),
        FPO_Completed False] @ outs"] exI [of _ "fpn_partial_trajectory s6"])
      (simp add: s5_def fpn_speed_def)
qed

lemma fpn_published_safe_witness:
  "\<exists>s outs pts w. fpn_run (fpn_astar fpn_turn_lib pq_first_min) fpn_ex_param (fpn_ex_inputs @ [fpn_ex_tick]) fpn_turn_new = Inr (s, outs) \<and>
    FPO_Trajectory pts \<in> set outs \<and> map tp_vel pts = replicate (length pts - 1) w @ [0] \<and> w \<noteq> 0 \<and>
    fpn_free_way fpn_turn_lib fpn_turn_common fs_ex_shape fpn_turn_table fs_ex_map fs_ex_map (map tp_pose pts)"
proof -
  from fpn_turn_first_tick obtain s outs pts where
    run: "fpn_run (fpn_astar fpn_turn_lib pq_first_min) fpn_ex_param (fpn_ex_inputs @ [fpn_ex_tick]) fpn_turn_new = Inr (s, outs)"
      "FPO_Trajectory pts \<in> set outs" and moves: "\<bar>tp_vel (hd pts)\<bar> = 25 / 18" by blast
  have "0 < pc_theta_size fpn_turn_common" "0 < fpp_th_stopped_time_sec fpn_ex_param"
    "\<forall>g \<in> fpn_maps (fpn_ex_inputs @ [fpn_ex_tick]). og_ok g" and maps: "fpn_maps (fpn_ex_inputs @ [fpn_ex_tick]) = {fs_ex_map}"
    by (auto simp: fpn_maps_def og_ok_def)
  from fpn_published_safe [OF pq.std_priority_queue_axioms this(1,3,2) run] maps obtain w where
    w: "map tp_vel pts = replicate (length pts - 1) w @ [0]"
      "w \<noteq> 0 \<longrightarrow> fpn_free_way fpn_turn_lib fpn_turn_common fs_ex_shape fpn_turn_table fs_ex_map fs_ex_map (map tp_pose pts)"
    by auto
  have "pts \<noteq> []" using w(1) by auto
  then have "tp_vel (hd pts) = hd (replicate (length pts - 1) w @ [0])" unfolding w(1) [symmetric] by (simp add: hd_map)
  then have "w \<noteq> 0" using moves by (cases "length pts - 1") auto
  with run w show ?thesis by blast
qed

lemma fpn_fails_iff_witness:
  "\<exists>s outs. fpn_run (fpn_astar fpn_ex_lib pq_first_min) fpn_ex_param (fpn_ex_inputs @ [fpn_ex_tick]) fpn_ex_new = Inr (s, outs) \<and>
    fpn_handle (fpn_astar fpn_ex_lib pq_first_min) fpn_ex_param fpn_ex_tick s = Inl (FPE_Trajectory TU_Empty)"
proof -
  from fpn_ex_first_tick obtain s outs where
    run: "fpn_run (fpn_astar fpn_ex_lib pq_first_min) fpn_ex_param (fpn_ex_inputs @ [fpn_ex_tick]) fpn_ex_new = Inr (s, outs)"
      "fpn_crashes fpn_ex_param fpn_ex_tick s" by blast
  have "0 < pc_theta_size fs_ex_param" "0 < fpp_th_stopped_time_sec fpn_ex_param"
    "\<forall>g \<in> fpn_maps ((fpn_ex_inputs @ [fpn_ex_tick]) @ [fpn_ex_tick]). og_ok g" by (auto simp: fpn_maps_def og_ok_def)
  from fpn_fails_iff [OF pq.std_priority_queue_axioms this(1,3,2) run(1)] run show ?thesis by blast
qed

section \<open>Completion and the tables\<close>

text \<open>Completion is announced only at the end of the trajectory and standing.\<close>

lemma fpn_publish_completed:
  assumes core: "fpn_core planned usable p maps s" and publish: "fpn_publish_partial p s = Inr (s', outs)"
    and complete: "FPO_Completed True \<in> set outs"
  shows "1 < length (fpn_trajectory s') \<and> fpn_trajectory s' = fpn_trajectory s \<and> fpn_isStopped (fpn_odom_buffer s) (fpp_th_stopped_velocity_mps p) \<and>
    calcDistance2d (tp_pose (last (fpn_trajectory s'))) (st_content (fpn_current_pose s)) < fpp_th_arrived_distance_m p"
proof -
  from publish complete have long: "1 < length (fpn_trajectory s)" by (auto simp: fpn_publish_partial_def split: if_splits)
  with core have traj: "fpn_getReversingIndices (fpn_trajectory s) = Inr (fpn_reversing_indices s)"
    "fpn_target_index s < length (fpn_trajectory s)" by (auto simp: fpn_core_def)
  define t where "t = fpn_getNextTargetIndex (length (fpn_trajectory s)) (fpn_reversing_indices s) (fpn_target_index s)"
  from publish long obtain s1 out1 partial where update: "fpn_updateTargetIndex p s = Inr (s1, out1)"
    "s' = s1\<lparr> fpn_partial_trajectory := partial \<rparr>" "outs = out1 @ [FPO_Trajectory partial]"
    by (auto simp: fpn_publish_partial_def split: if_splits)
  with complete have "FPO_Completed True \<in> set out1" by simp
  with update(1) traj(2) have arrived: "t = fpn_target_index s"
    "calcDistance2d (tp_pose (fpn_trajectory s ! fpn_target_index s)) (st_content (fpn_current_pose s)) < fpp_th_arrived_distance_m p"
    "fpn_isStopped (fpn_odom_buffer s) (fpp_th_stopped_velocity_mps p)" "s1 = s\<lparr> fpn_is_completed := True \<rparr>"
    by (auto simp: fpn_updateTargetIndex_def t_def Let_def split: if_splits)
  from fpn_next_target [OF traj t_def] arrived(1) have "fpn_target_index s = length (fpn_trajectory s) - 1" by simp
  with arrived long have "tp_pose (last (fpn_trajectory s)) = tp_pose (fpn_trajectory s ! fpn_target_index s)"
    by (subst last_conv_nth) auto
  with arrived update(2) long show ?thesis by simp
qed

text \<open>Every look for obstacles makes the tables of the footprint longer.\<close>

lemma fpn_tables_grow:
  assumes "fpn_obstacle_found (fpn_astar lib pop) g s = Inr (b, s')" and "as_wf (fpn_algo s)" and "og_ok g"
  shows "length (fs_coll_indexes_table (as_base (fpn_algo s'))) =
    length (fs_coll_indexes_table (as_base (fpn_algo s))) + nat (as_theta_size (fpn_algo s))"
proof -
  from assms(2) have "fs_wf (as_base (fpn_algo s))" by (simp add: as_wf_def)
  from fs_setMap_ok [OF this assms(3)] obtain base where base: "fs_setMap g (as_base (fpn_algo s)) = Some base"
    "length (fs_coll_indexes_table base) = length (fs_coll_indexes_table (as_base (fpn_algo s))) +
      nat (pc_theta_size (fs_param (as_base (fpn_algo s))))" by blast
  from assms(1) obtain a where "as_setMap g (fpn_algo s) = Some a" "fpn_algo s' = a"
    by (auto simp: fpn_obstacle_found_def fpn_astar_def fpn_defined_def Let_def split: option.splits)
  with base show ?thesis by (auto simp: as_setMap_def as_clearNodes_def as_theta_size_def Let_def)
qed

end
