(* ===== verification/Emergency_Braking.thy ===== *)
theory Emergency_Braking
  imports AW_Msgs Longitudinal_Safety
begin

text \<open>
  control/autonomous_emergency_braking: the node that reports an error, and so makes the vehicle brake, when an
  obstacle point lies in the area the vehicle is about to sweep and is nearer than the distance it needs
  to stop.  The area is predicted from the velocity and the yaw rate, and from the predicted
  trajectory of the controller.  Transformations (tf2, pcl_ros), the voxel filter (pcl), convex hulls
  and the point in polygon test (boost) are parameters.  Debug markers are left out.
\<close>

section \<open>Types\<close>

type_synonym polygon2d = "(real \<times> real) list"

type_synonym eb_path = "pose list"

record eb_param =
  ep_use_predicted_trajectory :: bool
  ep_use_imu_path :: bool
  ep_min_generated_path_length :: real
  ep_expand_width :: real
  ep_longitudinal_offset :: real
  ep_t_response :: real
  ep_a_ego_min :: real
  ep_a_obj_min :: real
  ep_prediction_time_horizon :: real
  ep_prediction_time_interval :: real
  ep_max_longitudinal_offset_m :: real
  ep_vehicle_width_m :: real
  ep_rear_overhang_m :: real

text \<open>
  The library functions: looking up the transformation to the frame of the vehicle, applying it to a pose and
  to a point, the voxel filter, a pose shifted in its own frame, the convex hull, and the test whether a
  point is in a polygon.
\<close>

record 't eb_lib =
  lb_lookup :: "string \<Rightarrow> time \<Rightarrow> 't option"
  lb_transform_pose :: "'t \<Rightarrow> pose \<Rightarrow> pose"
  lb_transform_point :: "'t \<Rightarrow> point \<Rightarrow> point"
  lb_voxel :: "point list \<Rightarrow> point list"
  lb_offset_pose :: "pose \<Rightarrow> real \<Rightarrow> real \<Rightarrow> real \<Rightarrow> pose"
  lb_convex_hull :: "polygon2d \<Rightarrow> polygon2d"
  lb_within :: "real \<times> real \<Rightarrow> polygon2d \<Rightarrow> bool"

record object_data =
  ob_stamp :: time
  ob_position :: point
  ob_velocity :: real
  ob_rss :: flt
  ob_distance_to_object :: flt

record collision_data_keeper =
  ck_data :: "object_data option"
  ck_timeout_sec :: real

record eb_cloud =
  cl_frame_id :: string
  cl_stamp :: time
  cl_points :: "point list"

record eb_trajectory =
  et_frame_id :: string
  et_stamp :: time
  et_points :: points

record eb_state =
  eb_pointcloud :: "eb_cloud option"
  eb_velocity :: "real option"
  eb_imu :: "real option"
  eb_predicted_traj :: "eb_trajectory option"
  eb_autoware_state :: "autoware_state option"
  eb_keeper :: collision_data_keeper

datatype eb_error = EB_OutOfRange | EB_Trajectory tu_error

definition eb_tu :: "tu_error + 'b \<Rightarrow> eb_error + 'b" where
  "eb_tu r = (case r of Inl e \<Rightarrow> Inl (EB_Trajectory e) | Inr x \<Rightarrow> Inr x)"

section \<open>The collision data keeper\<close>

definition ck_setTimeout :: "real \<Rightarrow> collision_data_keeper \<Rightarrow> collision_data_keeper" where
  "ck_setTimeout timeout_sec k = k\<lparr>ck_timeout_sec := timeout_sec\<rparr>"

definition ck_checkExpired :: "time \<Rightarrow> collision_data_keeper \<Rightarrow> bool \<times> collision_data_keeper" where
  "ck_checkExpired now k =
     (let k1 = (case ck_data k of
          Some d \<Rightarrow> if ck_timeout_sec k < seconds (now - ob_stamp d) then k\<lparr>ck_data := None\<rparr> else k
        | None \<Rightarrow> k)
      in (ck_data k1 = None, k1))"

definition ck_update :: "object_data \<Rightarrow> collision_data_keeper \<Rightarrow> collision_data_keeper" where
  "ck_update data k = k\<lparr>ck_data := Some data\<rparr>"

definition object_data_new :: object_data where
  "object_data_new = \<lparr>ob_stamp = 0, ob_position = \<lparr>pt_x = 0, pt_y = 0, pt_z = 0\<rparr>, ob_velocity = 0,
     ob_rss = Fin 0, ob_distance_to_object = Fin 0\<rparr>"

definition ck_get :: "collision_data_keeper \<Rightarrow> object_data" where
  "ck_get k = (case ck_data k of Some d \<Rightarrow> d | None \<Rightarrow> object_data_new)"

section \<open>Polygons\<close>

definition isClockwise :: "polygon2d \<Rightarrow> eb_error + bool" where
  "isClockwise polygon =
     (if polygon = [] then Inl EB_OutOfRange
      else let n = length polygon; x_offset = fst (polygon ! 0); y_offset = snd (polygon ! 0);
               total = foldl (\<lambda>acc i. acc +
                 ((fst (polygon ! i) - x_offset) * (snd (polygon ! ((i + 1) mod n)) - y_offset) -
                  (snd (polygon ! i) - y_offset) * (fst (polygon ! ((i + 1) mod n)) - x_offset))) 0 [0..<n]
        in Inr (total < 0))"

definition inverseClockwise :: "polygon2d \<Rightarrow> polygon2d" where
  "inverseClockwise polygon = rev polygon"

definition appendPointToPolygon :: "'a point_scheme \<Rightarrow> polygon2d \<Rightarrow> polygon2d" where
  "appendPointToPolygon geom_point polygon = polygon @ [(pt_x geom_point, pt_y geom_point)]"

text \<open>The corners of the vehicle at both poses, in the order the code appends them.\<close>

definition eb_corners :: "'t eb_lib \<Rightarrow> eb_param \<Rightarrow> pose \<Rightarrow> polygon2d \<Rightarrow> polygon2d" where
  "eb_corners lib param p polygon =
     (let front = ep_max_longitudinal_offset_m param;
          width = ep_vehicle_width_m param / 2 + ep_expand_width param;
          rear = ep_rear_overhang_m param
      in foldl (\<lambda>poly (x, y). appendPointToPolygon (lb_offset_pose lib p x y 0) poly) polygon
           [(front, width), (front, - width), (- rear, - width), (- rear, width)])"

definition eb_createPolygon :: "'t eb_lib \<Rightarrow> eb_param \<Rightarrow> pose \<Rightarrow> pose \<Rightarrow> eb_error + polygon2d" where
  "eb_createPolygon lib param base_pose next_pose =
     (let polygon = eb_corners lib param next_pose (eb_corners lib param base_pose [])
      in err_bind (isClockwise polygon) (\<lambda>clockwise.
           Inr (lb_convex_hull lib (if clockwise then polygon else inverseClockwise polygon))))"

text \<open>One polygon for each pair of neighbouring poses; the first failure is thrown.\<close>

fun eb_polygons :: "'t eb_lib \<Rightarrow> eb_param \<Rightarrow> eb_path \<Rightarrow> eb_error + polygon2d list" where
  "eb_polygons lib param (p # q # ps) =
     err_bind (eb_createPolygon lib param p q) (\<lambda>poly.
       err_bind (eb_polygons lib param (q # ps)) (\<lambda>polys. Inr (poly # polys)))"
| "eb_polygons lib param _ = Inr []"

section \<open>The path of the vehicle\<close>

text \<open>
  The templates of motion_utils are used on paths: a pose is a point of a trajectory without velocity.
  The orientation of a pose of the path is kept as the angle it was made from.
\<close>

definition eb_points :: "eb_path \<Rightarrow> points" where
  "eb_points path =
     map (\<lambda>p. \<lparr>tp_pose = p, tp_longitudinal_velocity_mps = 0, tp_acceleration_mps2 = 0\<rparr>) path"

record eb_cursor =
  cu_x :: real
  cu_y :: real
  cu_yaw :: real
  cu_path :: eb_path

definition eb_pose :: "real \<Rightarrow> real \<Rightarrow> real \<Rightarrow> pose" where
  "eb_pose x y yaw = \<lparr>pt_x = x, pt_y = y, pt_z = 0, po_pitch = 0, po_yaw = yaw\<rparr>"

text \<open>The body shared by the two loops: a pose nearer than a millimetre to the last one is not added.\<close>

definition eb_advance :: "real \<Rightarrow> real \<Rightarrow> real \<Rightarrow> eb_cursor \<Rightarrow> eb_cursor" where
  "eb_advance v w dt c =
     (let x = cu_x c + v * cos (cu_yaw c) * dt;
          y = cu_y c + v * sin (cu_yaw c) * dt;
          yaw = cu_yaw c + w * dt;
          current_pose = eb_pose x y yaw
      in \<lparr>cu_x = x, cu_y = y, cu_yaw = yaw,
          cu_path = (if calcDistance2d (last (cu_path c)) current_pose < 1 / 1000 then cu_path c
                     else cu_path c @ [current_pose])\<rparr>)"

partial_function (option) eb_horizon_loop ::
  "real \<Rightarrow> real \<Rightarrow> real \<Rightarrow> real \<Rightarrow> real \<Rightarrow> eb_cursor \<Rightarrow> eb_cursor option" where
  "eb_horizon_loop v w dt horizon t c =
     (if t < horizon + 1 / 10 ^ 6 then eb_horizon_loop v w dt horizon (t + dt) (eb_advance v w dt c)
      else Some c)"

partial_function (option) eb_length_loop ::
  "real \<Rightarrow> real \<Rightarrow> real \<Rightarrow> real \<Rightarrow> eb_cursor \<Rightarrow> (eb_error + eb_cursor) option" where
  "eb_length_loop v w dt min_length c =
     (case eb_tu (tu_calcArcLength (eb_points (cu_path c))) of
        Inl e \<Rightarrow> Some (Inl e)
      | Inr l \<Rightarrow> if l < min_length then eb_length_loop v w dt min_length (eb_advance v w dt c)
                else Some (Inr c))"

definition eb_cursor_new :: eb_cursor where
  "eb_cursor_new = \<lparr>cu_x = 0, cu_y = 0, cu_yaw = 0, cu_path = [eb_pose 0 0 0]\<rparr>"

definition eb_generateEgoPath ::
  "'t eb_lib \<Rightarrow> eb_param \<Rightarrow> real \<Rightarrow> real \<Rightarrow> (eb_error + eb_path \<times> polygon2d list) option" where
  "eb_generateEgoPath lib param v w =
     (if v < 1 / 10 then Some (Inr (cu_path eb_cursor_new, []))
      else case eb_horizon_loop v w (ep_prediction_time_interval param) (ep_prediction_time_horizon param) 0 eb_cursor_new of
          None \<Rightarrow> None
        | Some c1 \<Rightarrow>
            (case eb_length_loop v w (ep_prediction_time_interval param) (ep_min_generated_path_length param) c1 of
               None \<Rightarrow> None
             | Some r \<Rightarrow> Some (err_bind r (\<lambda>c2. err_bind (eb_polygons lib param (cu_path c2)) (\<lambda>polys.
                 Inr (cu_path c2, polys))))))"

text \<open>
  The second path.  Without a transformation both results stay empty.  The polygons are one more than the
  segments, the last one being empty.  With no point the loop bound wraps around and the first
  access is out of range.
\<close>

definition eb_generateEgoPath_predicted ::
  "'t eb_lib \<Rightarrow> eb_param \<Rightarrow> eb_trajectory \<Rightarrow> eb_error + eb_path \<times> polygon2d list" where
  "eb_generateEgoPath_predicted lib param traj =
     (case lb_lookup lib (et_frame_id traj) (et_stamp traj) of
        None \<Rightarrow> Inr ([], [])
      | Some tf \<Rightarrow>
          let path = map (\<lambda>p. lb_transform_pose lib tf (tp_pose p)) (et_points traj)
          in if path = [] then Inl EB_OutOfRange
             else err_bind (eb_polygons lib param path) (\<lambda>polys. Inr (path, polys @ [[]])))"

section \<open>Obstacles\<close>

fun eb_objects_loop ::
  "'t eb_lib \<Rightarrow> eb_path \<Rightarrow> polygon2d list \<Rightarrow> time \<Rightarrow> point list \<Rightarrow> eb_error + object_data list" where
  "eb_objects_loop lib path polys stamp [] = Inr []"
| "eb_objects_loop lib path polys stamp (p # ps) =
     err_bind (eb_tu (tu_calcLateralOffset (eb_points path) p False)) (\<lambda>lat_dist.
       if flt_less (Fin 5) lat_dist then eb_objects_loop lib path polys stamp ps
       else if list_ex (lb_within lib (pt_x p, pt_y p)) polys
       then err_bind (eb_objects_loop lib path polys stamp ps) (\<lambda>objs.
              Inr (object_data_new\<lparr>ob_stamp := stamp, ob_position := p, ob_velocity := 0\<rparr> # objs))
       else eb_objects_loop lib path polys stamp ps)"

definition eb_createObjectData ::
  "'t eb_lib \<Rightarrow> eb_path \<Rightarrow> polygon2d list \<Rightarrow> time \<Rightarrow> point list \<Rightarrow> eb_error + object_data list" where
  "eb_createObjectData lib path polys stamp obstacle_points =
     (if length path < 2 \<or> polys = [] then Inr []
      else eb_objects_loop lib path polys stamp obstacle_points)"

text \<open>The distance needed to stop behind an obstacle that moves with \<open>obj_v\<close>.\<close>

definition eb_rss :: "eb_param \<Rightarrow> real \<Rightarrow> real \<Rightarrow> flt" where
  "eb_rss param v obj_v =
     flt_add (flt_sub (flt_add (Fin (v * ep_t_response param)) (flt_div (v * v) (2 * \<bar>ep_a_ego_min param\<bar>)))
                (flt_div (obj_v * obj_v) (2 * \<bar>ep_a_obj_min param\<bar>)))
       (Fin (ep_longitudinal_offset param))"

definition eb_dist :: "eb_param \<Rightarrow> eb_path \<Rightarrow> 'a point_scheme \<Rightarrow> eb_error + flt" where
  "eb_dist param path p =
     err_bind (eb_tu (tu_calcSignedArcLength_points (eb_points path) \<lparr>pt_x = 0, pt_y = 0, pt_z = 0\<rparr> p)) (\<lambda>l.
       Inr (flt_sub l (Fin (ep_max_longitudinal_offset_m param))))"

fun eb_hasCollision_loop ::
  "eb_param \<Rightarrow> real \<Rightarrow> eb_path \<Rightarrow> object_data list \<Rightarrow> eb_error + object_data option" where
  "eb_hasCollision_loop param v path [] = Inr None"
| "eb_hasCollision_loop param v path (obj # objs) =
     (let rss_dist = eb_rss param v (ob_velocity obj)
      in err_bind (eb_dist param path (ob_position obj)) (\<lambda>dist_ego_to_object.
           if flt_less dist_ego_to_object rss_dist
           then Inr (Some (obj\<lparr>ob_rss := rss_dist, ob_distance_to_object := dist_ego_to_object\<rparr>))
           else eb_hasCollision_loop param v path objs))"

definition eb_hasCollision ::
  "eb_param \<Rightarrow> real \<Rightarrow> eb_path \<Rightarrow> object_data list \<Rightarrow> collision_data_keeper \<Rightarrow> eb_error + bool \<times> collision_data_keeper" where
  "eb_hasCollision param v path objects k =
     err_bind (eb_hasCollision_loop param v path objects) (\<lambda>r. case r of
         None \<Rightarrow> Inr (False, k)
       | Some collision_data \<Rightarrow> Inr (True, ck_update collision_data k))"

section \<open>Callbacks\<close>

definition eb_onVelocity :: "real \<Rightarrow> eb_state \<Rightarrow> eb_state" where
  "eb_onVelocity v st = st\<lparr>eb_velocity := Some v\<rparr>"

definition eb_onImu :: "real \<Rightarrow> eb_state \<Rightarrow> eb_state" where
  "eb_onImu w st = st\<lparr>eb_imu := Some w\<rparr>"

definition eb_onPredictedTrajectory :: "eb_trajectory \<Rightarrow> eb_state \<Rightarrow> eb_state" where
  "eb_onPredictedTrajectory traj st = st\<lparr>eb_predicted_traj := Some traj\<rparr>"

definition eb_onAutowareState :: "autoware_state \<Rightarrow> eb_state \<Rightarrow> eb_state" where
  "eb_onAutowareState s st = st\<lparr>eb_autoware_state := Some s\<rparr>"

text \<open>The clouds it publishes are the second component.\<close>

definition eb_onPointCloud :: "'t eb_lib \<Rightarrow> eb_cloud \<Rightarrow> eb_state \<Rightarrow> eb_state \<times> eb_cloud list" where
  "eb_onPointCloud lib input_msg st =
     (case (if cl_frame_id input_msg \<noteq> ''base_link''
            then (case lb_lookup lib (cl_frame_id input_msg) (cl_stamp input_msg) of
                    None \<Rightarrow> None
                  | Some tf \<Rightarrow> Some (map (lb_transform_point lib tf) (cl_points input_msg)))
            else Some (cl_points input_msg)) of
        None \<Rightarrow> (st, [])
      | Some points \<Rightarrow>
          let cloud = input_msg\<lparr>cl_points := lb_voxel lib points\<rparr>
          in (st\<lparr>eb_pointcloud := Some cloud\<rparr>, [cloud]))"

definition eb_isDataReady :: "eb_param \<Rightarrow> eb_state \<Rightarrow> bool" where
  "eb_isDataReady param st \<longleftrightarrow>
     eb_velocity st \<noteq> None \<and> eb_pointcloud st \<noteq> None \<and>
     (ep_use_imu_path param \<longrightarrow> eb_imu st \<noteq> None) \<and>
     (ep_use_predicted_trajectory param \<longrightarrow> eb_predicted_traj st \<noteq> None) \<and>
     eb_autoware_state st \<noteq> None"

text \<open>The two steps of \<open>checkCollision\<close>, on the path of the IMU and on the predicted trajectory.\<close>

definition eb_check_path ::
  "'t eb_lib \<Rightarrow> eb_param \<Rightarrow> real \<Rightarrow> time \<Rightarrow> eb_path \<times> polygon2d list \<Rightarrow> point list \<Rightarrow> collision_data_keeper \<Rightarrow>
     eb_error + bool \<times> collision_data_keeper" where
  "eb_check_path lib param v stamp = (\<lambda>(path, polys) obstacle_points k.
     err_bind (eb_createObjectData lib path polys stamp obstacle_points) (\<lambda>objects.
       eb_hasCollision param v path objects k))"

definition eb_check_imu ::
  "'t eb_lib \<Rightarrow> eb_param \<Rightarrow> real \<Rightarrow> time \<Rightarrow> eb_state \<Rightarrow> (eb_error + bool \<times> collision_data_keeper) option" where
  "eb_check_imu lib param v now st =
     (if ep_use_imu_path param
      then map_option (\<lambda>r. err_bind r (\<lambda>pp.
             eb_check_path lib param v now pp (cl_points (the (eb_pointcloud st))) (eb_keeper st)))
           (eb_generateEgoPath lib param v (the (eb_imu st)))
      else Some (Inr (False, eb_keeper st)))"

definition eb_check_predicted ::
  "'t eb_lib \<Rightarrow> eb_param \<Rightarrow> real \<Rightarrow> eb_state \<Rightarrow> collision_data_keeper \<Rightarrow> eb_error + bool \<times> collision_data_keeper" where
  "eb_check_predicted lib param v st k =
     (if ep_use_predicted_trajectory param
      then let traj = the (eb_predicted_traj st)
        in err_bind (eb_generateEgoPath_predicted lib param traj) (\<lambda>pp.
             eb_check_path lib param v (et_stamp traj) pp (cl_points (the (eb_pointcloud st))) k)
      else Inr (False, k))"

definition eb_checkCollision ::
  "'t eb_lib \<Rightarrow> eb_param \<Rightarrow> time \<Rightarrow> eb_state \<Rightarrow> (eb_error + bool \<times> eb_state) option" where
  "eb_checkCollision lib param now st =
     (if \<not> eb_isDataReady param st then Some (Inr (False, st))
      else if eb_autoware_state st \<noteq> Some AutowareState_DRIVING then Some (Inr (False, st))
      else let v = the (eb_velocity st)
        in if v < 1 / 10 then Some (Inr (False, st))
           else map_option (\<lambda>r.
                  err_bind r (\<lambda>(has_collision_ego, k1).
                    err_bind (eb_check_predicted lib param v st k1) (\<lambda>(has_collision_predicted, k2).
                      Inr (has_collision_ego \<or> has_collision_predicted, st\<lparr>eb_keeper := k2\<rparr>))))
                (eb_check_imu lib param v now st))"

text \<open>
  The diagnostic of the timer: \<open>now\<close> is read when the path of the IMU is checked and \<open>later\<close> when the age of the
  collision is.  The values of the message are the required and the actual distance.
\<close>

definition eb_onCheckCollision ::
  "'t eb_lib \<Rightarrow> eb_param \<Rightarrow> time \<Rightarrow> time \<Rightarrow> eb_state \<Rightarrow>
     (eb_error + (diag_level \<times> (flt \<times> flt) option) \<times> eb_state) option" where
  "eb_onCheckCollision lib param now later st =
     map_option (\<lambda>r. err_bind r (\<lambda>(has_collision, st1).
         let (expired, k) = ck_checkExpired later (eb_keeper st1); st2 = st1\<lparr>eb_keeper := k\<rparr>
         in if \<not> expired
            then let d = ck_get k in Inr ((DL_ERROR, Some (ob_rss d, ob_distance_to_object d)), st2)
            else Inr ((DL_OK, None), st2)))
       (eb_checkCollision lib param now st)"

section \<open>The predicted path in closed form\<close>

primrec eb_nth :: "real \<Rightarrow> real \<Rightarrow> real \<Rightarrow> nat \<Rightarrow> pose" where
  "eb_nth v w dt 0 = eb_pose 0 0 0"
| "eb_nth v w dt (Suc k) =
     (let p = eb_nth v w dt k
      in eb_pose (pt_x p + v * cos (po_yaw p) * dt) (pt_y p + v * sin (po_yaw p) * dt) (po_yaw p + w * dt))"

definition eb_walk :: "real \<Rightarrow> real \<Rightarrow> real \<Rightarrow> nat \<Rightarrow> eb_path" where
  "eb_walk v w dt n = map (eb_nth v w dt) [0..<Suc n]"

definition eb_cursor_at :: "real \<Rightarrow> real \<Rightarrow> real \<Rightarrow> nat \<Rightarrow> eb_cursor" where
  "eb_cursor_at v w dt n =
     (let p = eb_nth v w dt n in \<lparr>cu_x = pt_x p, cu_y = pt_y p, cu_yaw = po_yaw p, cu_path = eb_walk v w dt n\<rparr>)"

definition eb_steps :: "eb_param \<Rightarrow> real \<Rightarrow> nat" where
  "eb_steps param v =
     (let dt = ep_prediction_time_interval param
      in max (nat \<lceil>(ep_prediction_time_horizon param + 1 / 10 ^ 6) / dt\<rceil>)
           (nat \<lceil>ep_min_generated_path_length param / (v * dt)\<rceil>))"

lemma length_eb_walk [simp]: "length (eb_walk v w dt n) = Suc n"
  by (simp add: eb_walk_def)

lemma eb_walk_nth [simp]: "k \<le> n \<Longrightarrow> eb_walk v w dt n ! k = eb_nth v w dt k"
  by (simp add: eb_walk_def del: upt_Suc)

lemma eb_walk_Suc: "eb_walk v w dt (Suc n) = eb_walk v w dt n @ [eb_nth v w dt (Suc n)]"
  by (simp add: eb_walk_def)

lemma eb_walk_last [simp]: "last (eb_walk v w dt n) = eb_nth v w dt n"
  by (simp add: eb_walk_def)

lemma eb_walk_not_Nil [simp]: "eb_walk v w dt n \<noteq> []"
  by (simp add: eb_walk_def)

lemma eb_nth_yaw: "po_yaw (eb_nth v w dt k) = real k * (w * dt)"
  by (induction k) (simp_all add: eb_pose_def Let_def algebra_simps)

lemma eb_nth_dist:
  assumes "0 \<le> v * dt"
  shows "calcDistance2d (eb_nth v w dt k) (eb_nth v w dt (Suc k)) = v * dt"
proof -
  let ?a = "po_yaw (eb_nth v w dt k)"
  have "calcDistance2d (eb_nth v w dt k) (eb_nth v w dt (Suc k)) =
    sqrt ((v * cos ?a * dt)\<^sup>2 + (v * sin ?a * dt)\<^sup>2)"
    by (simp add: calcDistance2d_def std_hypot_def eb_pose_def Let_def)
  also have "(v * cos ?a * dt)\<^sup>2 + (v * sin ?a * dt)\<^sup>2 = (v * dt)\<^sup>2 * ((cos ?a)\<^sup>2 + (sin ?a)\<^sup>2)"
    by (simp only: power_mult_distrib distrib_left mult_ac)
  finally show ?thesis using assms by simp
qed

lemma eb_advance_at:
  assumes "1 / 1000 \<le> v * dt"
  shows "eb_advance v w dt (eb_cursor_at v w dt n) = eb_cursor_at v w dt (Suc n)"
proof -
  have far: "calcDistance2d (eb_nth v w dt n) (eb_nth v w dt (Suc n)) = v * dt"
    using assms by (intro eb_nth_dist) simp
  have pose: "eb_pose (pt_x (eb_nth v w dt n) + v * cos (po_yaw (eb_nth v w dt n)) * dt)
      (pt_y (eb_nth v w dt n) + v * sin (po_yaw (eb_nth v w dt n)) * dt)
      (po_yaw (eb_nth v w dt n) + w * dt) = eb_nth v w dt (Suc n)"
    by (simp add: Let_def)
  show ?thesis
    using far assms unfolding eb_advance_def eb_cursor_at_def Let_def
    by (simp only: eb_cursor.simps pose eb_walk_last eb_walk_Suc)
      (simp add: eb_pose_def Let_def)
qed

lemma eb_cursor_new_at: "eb_cursor_new = eb_cursor_at v w dt 0"
  by (simp add: eb_cursor_new_def eb_cursor_at_def eb_walk_def eb_pose_def Let_def)

text \<open>A counter that runs while \<open>k * s < b\<close> stops at the ceiling of \<open>b / s\<close>.\<close>

lemma ceiling_count:
  assumes "0 < (s :: real)"
  shows "real k * s < b \<longleftrightarrow> k < nat \<lceil>b / s\<rceil>"
proof -
  have "real k * s < b \<longleftrightarrow> of_int (int k) < b / s" using assms by (simp add: pos_less_divide_eq)
  also have "\<dots> \<longleftrightarrow> int k < \<lceil>b / s\<rceil>" by (simp only: less_ceiling_iff)
  also have "\<dots> \<longleftrightarrow> k < nat \<lceil>b / s\<rceil>" by linarith
  finally show ?thesis .
qed

lemma eb_horizon_loop_at:
  assumes dt: "0 < dt" and far: "1 / 1000 \<le> v * dt"
  shows "eb_horizon_loop v w dt horizon (real k * dt) (eb_cursor_at v w dt k) =
    Some (eb_cursor_at v w dt (max k (nat \<lceil>(horizon + 1 / 10 ^ 6) / dt\<rceil>)))"
proof (induction "nat \<lceil>(horizon + 1 / 10 ^ 6) / dt\<rceil> - k" arbitrary: k)
  case 0
  then have stop: "\<not> real k * dt < horizon + 1 / 10 ^ 6" unfolding ceiling_count [OF dt] by linarith
  from 0 have "max k (nat \<lceil>(horizon + 1 / 10 ^ 6) / dt\<rceil>) = k" by simp
  with stop show ?case by (subst eb_horizon_loop.simps) simp
next
  case (Suc n)
  then have go: "real k * dt < horizon + 1 / 10 ^ 6" unfolding ceiling_count [OF dt] by linarith
  have t: "real k * dt + dt = real (Suc k) * dt" by (simp add: algebra_simps)
  from Suc have "n = nat \<lceil>(horizon + 1 / 10 ^ 6) / dt\<rceil> - Suc k"
    and m: "max (Suc k) (nat \<lceil>(horizon + 1 / 10 ^ 6) / dt\<rceil>) = max k (nat \<lceil>(horizon + 1 / 10 ^ 6) / dt\<rceil>)"
    by simp_all
  from Suc.hyps(1) [OF this(1)] m go show ?case
    by (subst eb_horizon_loop.simps) (simp add: eb_advance_at [OF far] t)
qed

section \<open>Lengths on the predicted path\<close>

lemma eb_points_nth [simp]: "i < length path \<Longrightarrow> tp_pose (eb_points path ! i) = path ! i"
  by (simp add: eb_points_def)

lemma length_eb_points [simp]: "length (eb_points path) = length path"
  by (simp add: eb_points_def)

lemma eb_points_Nil [simp]: "eb_points path = [] \<longleftrightarrow> path = []"
  by (simp add: eb_points_def)

lemma eb_walk_seg:
  assumes "0 \<le> v * dt" and "i < n"
  shows "tu_seg (eb_points (eb_walk v w dt n)) i = v * dt"
  using assms eb_nth_dist [OF assms(1), of w i] by (simp add: tu_seg_def del: eb_nth.simps)

lemma eb_walk_position:
  assumes "0 \<le> v * dt" and "i \<le> n"
  shows "tu_position (eb_points (eb_walk v w dt n)) i = real i * (v * dt)"
  using assms(2) by (induction i) (simp_all add: eb_walk_seg [OF assms(1)] algebra_simps tu_position_def [where i = 0])

lemma eb_walk_length:
  assumes "0 \<le> v * dt"
  shows "tu_calcArcLength (eb_points (eb_walk v w dt n)) = Inr (real n * (v * dt))"
  using eb_walk_position [OF assms, where i = 0 and n = n and w = w] eb_walk_position [OF assms, where i = n and n = n and w = w]
  by (simp add: tu_calcArcLength_def tu_signed_length)

lemma eb_length_loop_at:
  assumes far: "1 / 1000 \<le> v * dt"
  shows "eb_length_loop v w dt m (eb_cursor_at v w dt k) =
    Some (Inr (eb_cursor_at v w dt (max k (nat \<lceil>m / (v * dt)\<rceil>))))"
proof -
  have s: "0 < v * dt" using far by simp
  have len: "eb_tu (tu_calcArcLength (eb_points (cu_path (eb_cursor_at v w dt k)))) = Inr (real k * (v * dt))" for k
    using eb_walk_length [of v dt w k] s by (simp add: eb_cursor_at_def Let_def eb_tu_def)
  show ?thesis
  proof (induction "nat \<lceil>m / (v * dt)\<rceil> - k" arbitrary: k)
    case 0
    then have stop: "\<not> real k * (v * dt) < m" unfolding ceiling_count [OF s] by linarith
    from 0 have "max k (nat \<lceil>m / (v * dt)\<rceil>) = k" by simp
    with stop len [of k] show ?case by (subst eb_length_loop.simps) simp
  next
    case (Suc n)
    then have go: "real k * (v * dt) < m" unfolding ceiling_count [OF s] by linarith
    from Suc have n: "n = nat \<lceil>m / (v * dt)\<rceil> - Suc k"
      and m: "max (Suc k) (nat \<lceil>m / (v * dt)\<rceil>) = max k (nat \<lceil>m / (v * dt)\<rceil>)"
      by simp_all
    from Suc.hyps(1) [OF n] m go len [of k] show ?case
      by (subst eb_length_loop.simps) (simp add: eb_advance_at [OF far])
  qed
qed

section \<open>Polygons of the path\<close>

lemma eb_corners_extends: "\<exists>qs. eb_corners lib param p polygon = polygon @ qs \<and> length qs = 4"
  by (simp add: eb_corners_def appendPointToPolygon_def Let_def)

lemma eb_createPolygon_ok: "\<exists>poly. eb_createPolygon lib param p q = Inr (lb_convex_hull lib poly) \<and> length poly = 8"
proof -
  obtain a where a: "eb_corners lib param p [] = a" "length a = 4"
    using eb_corners_extends [of lib param p "[]"] by auto
  obtain b where b: "eb_corners lib param q a = a @ b" "length b = 4"
    using eb_corners_extends [of lib param q a] by auto
  have ne: "a @ b \<noteq> []" using a(2) by auto
  show ?thesis
    using a b ne by (auto simp: eb_createPolygon_def isClockwise_def inverseClockwise_def Let_def)
qed

lemma eb_polygons_ok:
  "\<exists>polys. eb_polygons lib param path = Inr polys \<and> length polys = length path - 1 \<and>
    (\<forall>i < length polys. eb_createPolygon lib param (path ! i) (path ! (i + 1)) = Inr (polys ! i))"
proof (induction lib param path rule: eb_polygons.induct)
  case (1 lib param p q ps)
  obtain poly where p: "eb_createPolygon lib param p q = Inr poly" using eb_createPolygon_ok by blast
  obtain polys where IH: "eb_polygons lib param (q # ps) = Inr polys" "length polys = length ps"
    "\<forall>i < length polys. eb_createPolygon lib param ((q # ps) ! i) (ps ! i) = Inr (polys ! i)"
    using "1.IH" by auto
  have "eb_polygons lib param (p # q # ps) = Inr (poly # polys)"
    using p IH(1) by simp
  moreover have "\<forall>i < length (poly # polys).
      eb_createPolygon lib param ((p # q # ps) ! i) ((p # q # ps) ! (i + 1)) = Inr ((poly # polys) ! i)"
    using IH(3) p by (auto simp: less_Suc_eq_0_disj)
  ultimately show ?case using IH(2) by (intro exI [of _ "poly # polys"]) simp
qed simp_all

lemma eb_generateEgoPath_eq:
  assumes "1 / 10 \<le> v" and "0 < ep_prediction_time_interval param" and "1 / 1000 \<le> v * ep_prediction_time_interval param"
  shows "\<exists>polys. eb_generateEgoPath lib param v w =
      Some (Inr (eb_walk v w (ep_prediction_time_interval param) (eb_steps param v), polys)) \<and>
    eb_polygons lib param (eb_walk v w (ep_prediction_time_interval param) (eb_steps param v)) = Inr polys \<and>
    length polys = eb_steps param v"
proof -
  let ?dt = "ep_prediction_time_interval param"
  define n1 where "n1 = nat \<lceil>(ep_prediction_time_horizon param + 1 / 10 ^ 6) / ?dt\<rceil>"
  obtain polys where polys: "eb_polygons lib param (eb_walk v w ?dt (eb_steps param v)) = Inr polys"
    "length polys = eb_steps param v"
    using eb_polygons_ok [of lib param "eb_walk v w ?dt (eb_steps param v)"] by auto
  have horizon: "eb_horizon_loop v w ?dt (ep_prediction_time_horizon param) 0 eb_cursor_new =
      Some (eb_cursor_at v w ?dt n1)"
    unfolding n1_def
    using eb_horizon_loop_at [OF assms(2,3), where k = 0 and w = w and horizon = "ep_prediction_time_horizon param"]
    by (simp add: eb_cursor_new_at [of v w ?dt])
  have len: "eb_length_loop v w ?dt (ep_min_generated_path_length param) (eb_cursor_at v w ?dt n1) =
      Some (Inr (eb_cursor_at v w ?dt (eb_steps param v)))"
    by (simp only: eb_length_loop_at [OF assms(3)] eb_steps_def Let_def n1_def)
  have path: "cu_path (eb_cursor_at v w ?dt n) = eb_walk v w ?dt n" for n
    by (simp add: eb_cursor_at_def Let_def)
  show ?thesis
    using assms(1) polys by (intro exI [of _ polys]) (simp add: eb_generateEgoPath_def horizon len path)
qed

lemma eb_steps_reach:
  assumes "0 < v" and "0 < ep_prediction_time_interval param"
  shows "ep_prediction_time_horizon param + 1 / 10 ^ 6 \<le> eb_steps param v * ep_prediction_time_interval param"
    and "ep_min_generated_path_length param \<le> eb_steps param v * (v * ep_prediction_time_interval param)"
    and "k < eb_steps param v \<Longrightarrow> k * ep_prediction_time_interval param < ep_prediction_time_horizon param + 1 / 10 ^ 6 \<or>
      k * (v * ep_prediction_time_interval param) < ep_min_generated_path_length param"
proof -
  let ?dt = "ep_prediction_time_interval param"
  have s: "0 < v * ?dt" using assms by simp
  note c1 = ceiling_count [OF assms(2), where b = "ep_prediction_time_horizon param + 1 / 10 ^ 6"]
  note c2 = ceiling_count [OF s, where b = "ep_min_generated_path_length param"]
  have "\<not> eb_steps param v < nat \<lceil>(ep_prediction_time_horizon param + 1 / 10 ^ 6) / ?dt\<rceil>"
    by (simp only: eb_steps_def Let_def not_less max.cobounded1)
  then show "ep_prediction_time_horizon param + 1 / 10 ^ 6 \<le> eb_steps param v * ?dt"
    by (simp only: c1 [symmetric] not_less)
  have "\<not> eb_steps param v < nat \<lceil>ep_min_generated_path_length param / (v * ?dt)\<rceil>"
    by (simp only: eb_steps_def Let_def not_less max.cobounded2)
  then show "ep_min_generated_path_length param \<le> eb_steps param v * (v * ?dt)"
    by (simp only: c2 [symmetric] not_less)
  show "k * ?dt < ep_prediction_time_horizon param + 1 / 10 ^ 6 \<or> k * (v * ?dt) < ep_min_generated_path_length param"
    if "k < eb_steps param v"
    using that unfolding c1 c2 by (simp only: eb_steps_def Let_def less_max_iff_disj)
qed

lemma eb_steps_positive:
  assumes "0 < v" and "0 < ep_prediction_time_interval param" and "0 \<le> ep_prediction_time_horizon param"
  shows "1 \<le> eb_steps param v"
  using eb_steps_reach(1) [OF assms(1,2)] assms(3) by (cases "eb_steps param v") simp_all

section \<open>Offsets on paths without overlap\<close>

definition eb_apart :: "eb_path \<Rightarrow> bool" where
  "eb_apart path \<longleftrightarrow> 2 \<le> length path \<and> successively tu_apart (eb_points path)"

lemma eb_walk_apart:
  assumes "1 / 1000 \<le> v * dt" and "1 \<le> n"
  shows "eb_apart (eb_walk v w dt n)"
proof -
  have "tu_apart (eb_points (eb_walk v w dt n) ! i) (eb_points (eb_walk v w dt n) ! Suc i)" if "Suc i < Suc n" for i
    using that assms(1) eb_nth_dist [of v dt w i] by (simp add: tu_apart_def del: eb_nth.simps)
  with assms(2) show ?thesis
    by (simp add: eb_apart_def successively_conv_nth)
qed

definition eb_along :: "eb_path \<Rightarrow> nat \<Rightarrow> 'a point_scheme \<Rightarrow> real" where
  "eb_along path k p =
     ((pt_x (path ! (k + 1)) - pt_x (path ! k)) * (pt_x p - pt_x (path ! k)) +
      (pt_y (path ! (k + 1)) - pt_y (path ! k)) * (pt_y p - pt_y (path ! k))) /
     calcDistance2d (path ! (k + 1)) (path ! k)"

definition eb_across :: "eb_path \<Rightarrow> nat \<Rightarrow> 'a point_scheme \<Rightarrow> real" where
  "eb_across path k p =
     ((pt_x (path ! (k + 1)) - pt_x (path ! k)) * (pt_y p - pt_y (path ! k)) -
      (pt_y (path ! (k + 1)) - pt_y (path ! k)) * (pt_x p - pt_x (path ! k))) /
     calcDistance2d (path ! (k + 1)) (path ! k)"

lemma eb_offset_at:
  assumes "eb_apart path" and "k + 1 < length path"
  shows "tu_offset (eb_points path) k p = Fin (eb_along path k p)"
proof -
  have id: "tu_removeOverlapPoints (eb_points path) k = eb_points path"
    using assms(1) by (intro tu_removeOverlap_id) (simp add: eb_apart_def)
  show ?thesis
    using assms(2) unfolding tu_offset_def tu_calcLongitudinalOffsetToSegment_def id
    by (auto simp: eb_along_def calcDistance2d_def Let_def)
qed

lemma eb_segment_index:
  assumes "eb_apart path"
  obtains k where "tu_findNearestSegmentIndex (eb_points path) p = Inr k" "k + 1 < length path"
proof -
  have len: "2 \<le> length (eb_points path)" using assms by (simp add: eb_apart_def)
  then have ne: "eb_points path \<noteq> []" by force
  obtain m where "m < length (eb_points path)" "tu_findNearestIndex (eb_points path) p = Inr m"
    using tu_findNearestIndex_min [OF ne, of p] by blast
  with tu_segment_of_valid [OF len this(1), of p] that show ?thesis
    by (simp add: tu_findNearestSegmentIndex_def)
qed

lemma eb_lateral_at:
  assumes "eb_apart path"
  obtains k where "tu_findNearestSegmentIndex (eb_points path) p = Inr k" "k + 1 < length path"
    "tu_calcLateralOffset (eb_points path) p False = Inr (Fin (eb_across path k p))"
proof -
  obtain k where k: "tu_findNearestSegmentIndex (eb_points path) p = Inr k" "k + 1 < length path"
    using eb_segment_index [OF assms] by blast
  have id: "tu_removeOverlapPoints (eb_points path) 0 = eb_points path"
    using assms by (intro tu_removeOverlap_id) (simp add: eb_apart_def)
  have "tu_calcLateralOffset (eb_points path) p False = Inr (Fin (eb_across path k p))"
    using k unfolding tu_calcLateralOffset_def tu_calcLateralOffset_at_def id
    by (auto simp: eb_across_def calcDistance2d_def Let_def)
  with k that show ?thesis by blast
qed

lemma eb_dist_at:
  assumes "eb_apart path"
  obtains j k where "j + 1 < length path" "k + 1 < length path"
    "eb_dist param path p = Inr (Fin (tu_position (eb_points path) k - tu_position (eb_points path) j -
       eb_along path j \<lparr>pt_x = 0, pt_y = 0, pt_z = 0\<rparr> + eb_along path k p - ep_max_longitudinal_offset_m param))"
proof -
  obtain j where j: "tu_findNearestSegmentIndex (eb_points path) \<lparr>pt_x = 0, pt_y = 0, pt_z = 0\<rparr> = Inr j" "j + 1 < length path"
    using eb_segment_index [OF assms] by blast
  obtain k where k: "tu_findNearestSegmentIndex (eb_points path) p = Inr k" "k + 1 < length path"
    using eb_segment_index [OF assms] by blast
  have ne: "path \<noteq> []" using k(2) by auto
  have l: "tu_calcSignedArcLength (eb_points path) j k =
      Inr (tu_position (eb_points path) k - tu_position (eb_points path) j)"
    using j k by (intro tu_signed_length) simp_all
  show ?thesis
    using that [OF j(2) k(2)] ne j(1) k(1)
    by (simp add: eb_dist_def eb_tu_def tu_calcSignedArcLength_points_def tu_length_between_def l
        eb_offset_at [OF assms j(2)] eb_offset_at [OF assms k(2)])
qed

section \<open>Which obstacles are collisions\<close>

definition eb_lateral :: "eb_path \<Rightarrow> point \<Rightarrow> flt" where
  "eb_lateral path p = (case tu_calcLateralOffset (eb_points path) p False of Inr l \<Rightarrow> l | Inl e \<Rightarrow> NaN)"

definition eb_distance :: "eb_param \<Rightarrow> eb_path \<Rightarrow> point \<Rightarrow> flt" where
  "eb_distance param path p = (case eb_dist param path p of Inr l \<Rightarrow> l | Inl e \<Rightarrow> NaN)"

text \<open>An obstacle point calls for braking when it is in the swept area and nearer than the stopping distance.\<close>

definition eb_threat ::
  "'t eb_lib \<Rightarrow> eb_param \<Rightarrow> real \<Rightarrow> eb_path \<Rightarrow> polygon2d list \<Rightarrow> point \<Rightarrow> bool" where
  "eb_threat lib param v path polys p \<longleftrightarrow>
     \<not> flt_less (Fin 5) (eb_lateral path p) \<and>
     list_ex (lb_within lib (pt_x p, pt_y p)) polys \<and>
     flt_less (eb_distance param path p) (eb_rss param v 0)"

definition eb_object :: "time \<Rightarrow> point \<Rightarrow> object_data" where
  "eb_object stamp p = object_data_new\<lparr>ob_stamp := stamp, ob_position := p, ob_velocity := 0\<rparr>"

lemma eb_objects_loop_eq:
  assumes "eb_apart path"
  shows "eb_objects_loop lib path polys stamp ps =
    Inr (map (eb_object stamp) (filter (\<lambda>p. \<not> flt_less (Fin 5) (eb_lateral path p) \<and>
      list_ex (lb_within lib (pt_x p, pt_y p)) polys) ps))"
proof (induction ps)
  case (Cons p ps)
  obtain k where "tu_calcLateralOffset (eb_points path) p False = Inr (Fin (eb_across path k p))"
    using eb_lateral_at [OF assms] by blast
  with Cons.IH show ?case by (simp add: eb_lateral_def eb_tu_def eb_object_def)
qed simp

lemma eb_hasCollision_loop_eq:
  assumes "eb_apart path"
  shows "eb_hasCollision_loop param v path (map (eb_object stamp) ps) =
    Inr (map_option (\<lambda>p. (eb_object stamp p)\<lparr>ob_rss := eb_rss param v 0,
        ob_distance_to_object := eb_distance param path p\<rparr>)
      (find (\<lambda>p. flt_less (eb_distance param path p) (eb_rss param v 0)) ps))"
proof (induction ps)
  case (Cons p ps)
  obtain d where d: "eb_dist param path p = Inr (Fin d)"
    using eb_dist_at [OF assms] by blast
  with Cons.IH show ?case by (simp add: eb_distance_def eb_object_def Let_def)
qed simp

lemma find_filter: "find P (filter Q xs) = find (\<lambda>x. Q x \<and> P x) xs"
  by (induction xs) auto

text \<open>Checking a path finds the first obstacle point of the cloud that calls for braking.\<close>

lemma eb_check_path_eq:
  assumes "eb_apart path" and "polys \<noteq> []"
  shows "eb_check_path lib param v stamp (path, polys) ps k =
    Inr (case find (eb_threat lib param v path polys) ps of
        None \<Rightarrow> (False, k)
      | Some p \<Rightarrow> (True, k\<lparr>ck_data := Some ((eb_object stamp p)\<lparr>ob_rss := eb_rss param v 0,
          ob_distance_to_object := eb_distance param path p\<rparr>)\<rparr>))"
proof -
  have two: "\<not> length path < 2" using assms(1) by (simp add: eb_apart_def)
  have threat: "(\<lambda>p. \<not> flt_less (Fin 5) (eb_lateral path p) \<and> list_ex (lb_within lib (pt_x p, pt_y p)) polys \<and>
      flt_less (eb_distance param path p) (eb_rss param v 0)) = eb_threat lib param v path polys"
    by (simp add: eb_threat_def fun_eq_iff)
  show ?thesis
    using two assms(2)
    by (simp add: eb_check_path_def eb_createObjectData_def eb_objects_loop_eq [OF assms(1)] eb_hasCollision_def
        eb_hasCollision_loop_eq [OF assms(1)] find_filter threat ck_update_def split: option.split)
qed

section \<open>The diagnostic\<close>

definition eb_moving :: "eb_param \<Rightarrow> real \<Rightarrow> real \<Rightarrow> eb_cloud \<Rightarrow> eb_state \<Rightarrow> bool" where
  "eb_moving param v w cloud st \<longleftrightarrow>
     eb_velocity st = Some v \<and> eb_imu st = Some w \<and> eb_pointcloud st = Some cloud \<and>
     eb_autoware_state st = Some AutowareState_DRIVING \<and> 1 / 10 \<le> v \<and>
     0 < ep_prediction_time_interval param \<and> 1 / 1000 \<le> v * ep_prediction_time_interval param \<and>
     0 \<le> ep_prediction_time_horizon param"

lemma eb_check_imu_eq:
  assumes "eb_moving param v w cloud st" and "ep_use_imu_path param"
  shows "\<exists>polys. eb_polygons lib param (eb_walk v w (ep_prediction_time_interval param) (eb_steps param v)) = Inr polys \<and>
    eb_check_imu lib param v now st = Some (Inr (
      case find (eb_threat lib param v (eb_walk v w (ep_prediction_time_interval param) (eb_steps param v)) polys) (cl_points cloud) of
        None \<Rightarrow> (False, eb_keeper st)
      | Some p \<Rightarrow> (True, (eb_keeper st)\<lparr>ck_data := Some ((eb_object now p)\<lparr>ob_rss := eb_rss param v 0,
          ob_distance_to_object := eb_distance param (eb_walk v w (ep_prediction_time_interval param) (eb_steps param v)) p\<rparr>)\<rparr>)))"
proof -
  let ?path = "eb_walk v w (ep_prediction_time_interval param) (eb_steps param v)"
  have far: "1 / 1000 \<le> v * ep_prediction_time_interval param" and v: "1 / 10 \<le> v"
    and dt: "0 < ep_prediction_time_interval param" and h: "0 \<le> ep_prediction_time_horizon param"
    using assms(1) by (simp_all add: eb_moving_def)
  have n: "1 \<le> eb_steps param v" using v dt h by (intro eb_steps_positive) simp_all
  obtain polys where polys: "eb_generateEgoPath lib param v w = Some (Inr (?path, polys))"
    "eb_polygons lib param ?path = Inr polys" "length polys = eb_steps param v"
    using eb_generateEgoPath_eq [OF v dt far] by blast
  have ne: "polys \<noteq> []" using polys(3) n by auto
  have "eb_check_imu lib param v now st = Some (eb_check_path lib param v now (?path, polys) (cl_points cloud) (eb_keeper st))"
    using assms polys(1) by (simp add: eb_check_imu_def eb_moving_def)
  with polys(2) show ?thesis
    unfolding eb_check_path_eq [OF eb_walk_apart [OF far n] ne] by (intro exI [of _ polys]) simp
qed

lemma eb_ready:
  assumes "eb_moving param v w cloud st" and "ep_use_predicted_trajectory param \<Longrightarrow> eb_predicted_traj st \<noteq> None"
  shows "eb_checkCollision lib param now st = map_option (\<lambda>r.
      err_bind r (\<lambda>(has_collision_ego, k1).
        err_bind (eb_check_predicted lib param v st k1) (\<lambda>(has_collision_predicted, k2).
          Inr (has_collision_ego \<or> has_collision_predicted, st\<lparr>eb_keeper := k2\<rparr>))))
    (eb_check_imu lib param v now st)"
  using assms by (auto simp: eb_moving_def eb_checkCollision_def eb_isDataReady_def)

lemma ck_checkExpired_iff:
  "fst (ck_checkExpired now k) \<longleftrightarrow>
     \<not> (\<exists>d. ck_data k = Some d \<and> seconds (now - ob_stamp d) \<le> ck_timeout_sec k)"
  by (auto simp: ck_checkExpired_def Let_def split: option.splits)

lemma eb_onCheckCollision_level:
  assumes "eb_checkCollision lib param now st = Some (Inr (b, st1))"
  shows "\<exists>d st2. eb_onCheckCollision lib param now later st = Some (Inr (d, st2)) \<and>
    (fst d = DL_ERROR \<longleftrightarrow> \<not> fst (ck_checkExpired later (eb_keeper st1))) \<and> fst d \<in> {DL_OK, DL_ERROR}"
  using assms by (cases "ck_checkExpired later (eb_keeper st1)") (simp add: eb_onCheckCollision_def Let_def)

text \<open>
  On the path of the IMU alone: the diagnostic is an error exactly when an obstacle point of the cloud calls for
  braking and the clock has not advanced by more than the keeping time since the check began, or none does and
  an earlier collision is still kept.
\<close>

lemma eb_brakes_imu:
  assumes "eb_moving param v w cloud st" and "ep_use_imu_path param" and "\<not> ep_use_predicted_trajectory param"
  shows "\<exists>polys d st2. eb_polygons lib param (eb_walk v w (ep_prediction_time_interval param) (eb_steps param v)) = Inr polys \<and>
    eb_onCheckCollision lib param now later st = Some (Inr (d, st2)) \<and>
    (fst d = DL_ERROR \<longleftrightarrow>
       (if \<exists>p \<in> set (cl_points cloud).
            eb_threat lib param v (eb_walk v w (ep_prediction_time_interval param) (eb_steps param v)) polys p
        then seconds (later - now) \<le> ck_timeout_sec (eb_keeper st)
        else \<exists>kept. ck_data (eb_keeper st) = Some kept \<and> seconds (later - ob_stamp kept) \<le> ck_timeout_sec (eb_keeper st)))"
proof -
  let ?path = "eb_walk v w (ep_prediction_time_interval param) (eb_steps param v)"
  obtain polys where polys: "eb_polygons lib param ?path = Inr polys"
    and imu: "eb_check_imu lib param v now st = Some (Inr (
      case find (eb_threat lib param v ?path polys) (cl_points cloud) of
        None \<Rightarrow> (False, eb_keeper st)
      | Some p \<Rightarrow> (True, (eb_keeper st)\<lparr>ck_data := Some ((eb_object now p)\<lparr>ob_rss := eb_rss param v 0,
          ob_distance_to_object := eb_distance param ?path p\<rparr>)\<rparr>)))"
    using eb_check_imu_eq [OF assms(1,2)] by blast
  have pred: "eb_check_predicted lib param v st k = Inr (False, k)" for k
    using assms(3) by (simp add: eb_check_predicted_def)
  show ?thesis
  proof (cases "find (eb_threat lib param v ?path polys) (cl_points cloud)")
    case None
    then have no: "\<not> (\<exists>p \<in> set (cl_points cloud). eb_threat lib param v ?path polys p)"
      by (auto simp: find_None_iff)
    have "eb_checkCollision lib param now st = Some (Inr (False, st\<lparr>eb_keeper := eb_keeper st\<rparr>))"
      by (subst eb_ready [OF assms(1)]) (simp_all add: assms(3) imu None pred)
    from eb_onCheckCollision_level [OF this, of later] polys no show ?thesis
      by (auto simp: ck_checkExpired_iff)
  next
    case (Some p)
    then have yes: "\<exists>p \<in> set (cl_points cloud). eb_threat lib param v ?path polys p"
      by (auto simp: find_Some_iff)
    have "eb_checkCollision lib param now st = Some (Inr (True, st\<lparr>eb_keeper := (eb_keeper st)\<lparr>ck_data :=
        Some ((eb_object now p)\<lparr>ob_rss := eb_rss param v 0, ob_distance_to_object := eb_distance param ?path p\<rparr>)\<rparr>\<rparr>))"
      by (subst eb_ready [OF assms(1)]) (simp_all add: assms(3) imu Some pred)
    from eb_onCheckCollision_level [OF this, of later] polys yes show ?thesis
      by (auto simp: ck_checkExpired_iff eb_object_def)
  qed
qed

section \<open>Driving straight\<close>

lemma eb_nth_straight: "eb_nth v 0 dt k = eb_pose (real k * (v * dt)) 0 0"
proof -
  have "eb_nth v 0 dt k = eb_pose (real k * (v * dt)) 0 0 \<and> po_yaw (eb_nth v 0 dt k) = 0"
    by (induction k) (simp_all add: eb_pose_def Let_def algebra_simps)
  then show ?thesis by simp
qed

lemma eb_straight_offsets:
  assumes "0 < v * dt" and "k < n"
  shows "eb_along (eb_walk v 0 dt n) k p = pt_x p - real k * (v * dt)"
    and "eb_across (eb_walk v 0 dt n) k p = pt_y p"
proof -
  let ?s = "v * dt"
  have step: "real (Suc k) * ?s - real k * ?s = ?s" by (simp add: algebra_simps)
  have x: "pt_x (eb_walk v 0 dt n ! (k + 1)) - pt_x (eb_walk v 0 dt n ! k) = ?s"
    and y: "pt_y (eb_walk v 0 dt n ! (k + 1)) - pt_y (eb_walk v 0 dt n ! k) = 0"
    using assms(2) step by (simp_all add: eb_nth_straight eb_pose_def del: eb_nth.simps)
  have at: "pt_x (eb_walk v 0 dt n ! k) = real k * ?s" "pt_y (eb_walk v 0 dt n ! k) = 0"
    using assms(2) by (simp_all add: eb_nth_straight eb_pose_def del: eb_nth.simps)
  have l: "calcDistance2d (eb_walk v 0 dt n ! (k + 1)) (eb_walk v 0 dt n ! k) = ?s"
    using assms(1) by (simp only: calcDistance2d_def std_hypot_def x y) simp
  show "eb_along (eb_walk v 0 dt n) k p = pt_x p - real k * ?s"
    using assms(1) by (simp only: eb_along_def x y l) (auto simp: at)
  show "eb_across (eb_walk v 0 dt n) k p = pt_y p"
    using assms(1) by (simp only: eb_across_def x y l) (auto simp: at)
qed

lemma eb_straight_lateral:
  assumes "1 / 1000 \<le> v * dt" and "1 \<le> n"
  shows "eb_lateral (eb_walk v 0 dt n) p = Fin (pt_y p)"
proof -
  obtain k where k: "k + 1 < length (eb_walk v 0 dt n)"
    and lat: "tu_calcLateralOffset (eb_points (eb_walk v 0 dt n)) p False = Inr (Fin (eb_across (eb_walk v 0 dt n) k p))"
    using eb_lateral_at [OF eb_walk_apart [OF assms]] by blast
  have "eb_across (eb_walk v 0 dt n) k p = pt_y p"
    using k assms(1) by (intro eb_straight_offsets(2)) simp_all
  with lat show ?thesis by (simp add: eb_lateral_def)
qed

lemma eb_straight_distance:
  assumes "1 / 1000 \<le> v * dt" and "1 \<le> n"
  shows "eb_distance param (eb_walk v 0 dt n) p = Fin (pt_x p - ep_max_longitudinal_offset_m param)"
proof -
  let ?path = "eb_walk v 0 dt n"
  have s: "0 < v * dt" "0 \<le> v * dt" using assms(1) by simp_all
  obtain j k where j: "j + 1 < length ?path" and k: "k + 1 < length ?path"
    and d: "eb_dist param ?path p = Inr (Fin (tu_position (eb_points ?path) k - tu_position (eb_points ?path) j -
       eb_along ?path j \<lparr>pt_x = 0, pt_y = 0, pt_z = 0\<rparr> + eb_along ?path k p - ep_max_longitudinal_offset_m param))"
    using eb_dist_at [OF eb_walk_apart [OF assms]] by blast
  have "eb_along ?path j \<lparr>pt_x = 0, pt_y = 0, pt_z = 0\<rparr> = 0 - real j * (v * dt)"
    using eb_straight_offsets(1) [OF s(1), where k = j and n = n and p = "\<lparr>pt_x = 0, pt_y = 0, pt_z = 0\<rparr>"] j by simp
  moreover have "eb_along ?path k p = pt_x p - real k * (v * dt)"
    using k by (intro eb_straight_offsets(1) [OF s(1)]) simp
  moreover have "tu_position (eb_points ?path) i = real i * (v * dt)" if "i + 1 < length ?path" for i
    using that by (intro eb_walk_position [OF s(2)]) simp
  ultimately show ?thesis using d j k by (simp add: eb_distance_def)
qed

section \<open>The predicted trajectory\<close>

text \<open>A transformation that cannot be looked up disables the check of the predicted trajectory.\<close>

lemma eb_predicted_without_transform:
  assumes "eb_predicted_traj st = Some traj" and "lb_lookup lib (et_frame_id traj) (et_stamp traj) = None"
  shows "eb_check_predicted lib param v st k = Inr (False, k)"
  using assms by (simp add: eb_check_predicted_def eb_generateEgoPath_predicted_def eb_check_path_def
      eb_createObjectData_def eb_hasCollision_def)

text \<open>A predicted trajectory without points makes the callback throw.\<close>

lemma eb_predicted_empty_throws:
  assumes "eb_moving param v w cloud st" and "\<not> ep_use_imu_path param" and "ep_use_predicted_trajectory param"
    and "eb_predicted_traj st = Some traj" and "et_points traj = []"
    and "lb_lookup lib (et_frame_id traj) (et_stamp traj) = Some tf"
  shows "eb_onCheckCollision lib param now later st = Some (Inl EB_OutOfRange)"
proof -
  have "eb_checkCollision lib param now st = Some (Inl EB_OutOfRange)"
    by (subst eb_ready [OF assms(1)])
      (simp_all add: assms eb_check_imu_def eb_check_predicted_def eb_generateEgoPath_predicted_def)
  then show ?thesis by (simp add: eb_onCheckCollision_def)
qed

section \<open>The age of a collision\<close>

definition eb_kept_before :: "time \<Rightarrow> collision_data_keeper \<Rightarrow> bool" where
  "eb_kept_before t k \<longleftrightarrow> (\<forall>d. ck_data k = Some d \<longrightarrow> ob_stamp d < t)"

text \<open>
  With a keeping time of zero, the configured default, a collision has expired before it can be reported as soon
  as the clock advances between the two readings.
\<close>

lemma eb_zero_keeping_never_brakes:
  assumes "eb_moving param v w cloud st" and "ep_use_imu_path param" and "\<not> ep_use_predicted_trajectory param"
    and "ck_timeout_sec (eb_keeper st) = 0" and "eb_kept_before later (eb_keeper st)" and "now < later"
  shows "\<exists>d st2. eb_onCheckCollision lib param now later st = Some (Inr (d, st2)) \<and> fst d \<noteq> DL_ERROR"
proof -
  have late: "\<not> seconds (later - s) \<le> 0" if "s < later" for s
    using that by (simp add: seconds_def)
  show ?thesis
    using eb_brakes_imu [OF assms(1-3), of lib now later] assms(5) late [OF assms(6)] late
    by (auto simp: assms(4) eb_kept_before_def split: if_splits)
qed

text \<open>
  A collision on the predicted trajectory is kept with the time stamp of that trajectory, and takes the place of one
  just found on the path of the IMU: when the trajectory is older than the keeping time the check has found a
  collision and the diagnostic reports none.
\<close>

lemma eb_stale_prediction_hides_collision:
  assumes moving: "eb_moving param v w cloud st"
    and paths: "ep_use_imu_path param" "ep_use_predicted_trajectory param"
    and traj: "eb_predicted_traj st = Some traj" "eb_generateEgoPath_predicted lib param traj = Inr (path, polys)"
    and apart: "eb_apart path" "polys \<noteq> []"
    and threat: "p \<in> set (cl_points cloud)" "eb_threat lib param v path polys p"
    and stale: "ck_timeout_sec (eb_keeper st) < seconds (later - et_stamp traj)"
  shows "\<exists>d st1 st2. eb_checkCollision lib param now st = Some (Inr (True, st1)) \<and>
    eb_onCheckCollision lib param now later st = Some (Inr (d, st2)) \<and> fst d \<noteq> DL_ERROR"
proof -
  obtain b k1 where imu: "eb_check_imu lib param v now st = Some (Inr (b, k1))"
    and k1: "ck_timeout_sec k1 = ck_timeout_sec (eb_keeper st)"
    using eb_check_imu_eq [OF moving paths(1), of lib now] by (auto split: option.splits)
  have cloud: "eb_pointcloud st = Some cloud" using moving by (simp add: eb_moving_def)
  obtain q where q: "find (eb_threat lib param v path polys) (cl_points cloud) = Some q"
    using threat by (cases "find (eb_threat lib param v path polys) (cl_points cloud)") (auto simp: find_None_iff)
  define k2 where "k2 = k1\<lparr>ck_data := Some ((eb_object (et_stamp traj) q)\<lparr>ob_rss := eb_rss param v 0,
      ob_distance_to_object := eb_distance param path q\<rparr>)\<rparr>"
  have pred: "eb_check_predicted lib param v st k1 = Inr (True, k2)"
    using paths traj cloud q by (simp add: eb_check_predicted_def eb_check_path_eq [OF apart] k2_def)
  have check: "eb_checkCollision lib param now st = Some (Inr (True, st\<lparr>eb_keeper := k2\<rparr>))"
    by (subst eb_ready [OF moving]) (simp_all add: traj imu pred)
  have "fst (ck_checkExpired later k2)"
    using stale k1 by (simp add: ck_checkExpired_iff k2_def eb_object_def not_le)
  then show ?thesis
    using check eb_onCheckCollision_level [OF check, of later] by auto
qed

section \<open>Properties\<close>

text \<open>C17: For a vehicle that moves, the path predicted from its velocity and yaw rate is computed
  in finitely many steps: it starts at the vehicle, every pose is exactly one interval of travel
  from the one before and turned by one interval of yaw, it covers the prediction horizon and the minimum
  length, it has no more poses than that needs, and every segment has the hull of its two footprints as its
  polygon.\<close>

theorem eb_path_correct:
  assumes "1 / 10 \<le> v" and "0 < ep_prediction_time_interval param"
    and "1 / 1000 \<le> v * ep_prediction_time_interval param"
  shows "\<exists>path polys n. eb_generateEgoPath lib param v w = Some (Inr (path, polys)) \<and>
    length path = n + 1 \<and> length polys = n \<and> path ! 0 = eb_pose 0 0 0 \<and>
    (\<forall>i < n. calcDistance2d (path ! i) (path ! (i + 1)) = v * ep_prediction_time_interval param) \<and>
    (\<forall>i \<le> n. po_yaw (path ! i) = real i * (w * ep_prediction_time_interval param)) \<and>
    (\<forall>i < n. eb_createPolygon lib param (path ! i) (path ! (i + 1)) = Inr (polys ! i)) \<and>
    ep_prediction_time_horizon param + 1 / 10 ^ 6 \<le> real n * ep_prediction_time_interval param \<and>
    tu_calcArcLength (eb_points path) = Inr (real n * (v * ep_prediction_time_interval param)) \<and>
    ep_min_generated_path_length param \<le> real n * (v * ep_prediction_time_interval param) \<and>
    (\<forall>k < n. real k * ep_prediction_time_interval param < ep_prediction_time_horizon param + 1 / 10 ^ 6 \<or>
       real k * (v * ep_prediction_time_interval param) < ep_min_generated_path_length param)"
proof -
  let ?dt = "ep_prediction_time_interval param" and ?n = "eb_steps param v"
  let ?path = "eb_walk v w ?dt ?n"
  have v: "0 < v" and s: "0 \<le> v * ?dt" using assms(1,3) by simp_all
  obtain polys where gen: "eb_generateEgoPath lib param v w = Some (Inr (?path, polys))"
    and polys: "eb_polygons lib param ?path = Inr polys" "length polys = ?n"
    using eb_generateEgoPath_eq [OF assms] by blast
  have hull: "\<forall>i < ?n. eb_createPolygon lib param (?path ! i) (?path ! (i + 1)) = Inr (polys ! i)"
    using eb_polygons_ok [of lib param ?path] polys by auto
  have step: "\<forall>i < ?n. calcDistance2d (?path ! i) (?path ! (i + 1)) = v * ?dt"
    using eb_nth_dist [OF s] by (simp del: eb_nth.simps)
  have yaw: "\<forall>i \<le> ?n. po_yaw (?path ! i) = real i * (w * ?dt)" by (simp add: eb_nth_yaw)
  have start: "?path ! 0 = eb_pose 0 0 0" by simp
  note reach = eb_steps_reach [OF v assms(2)]
  have needed: "\<forall>k < ?n. real k * ?dt < ep_prediction_time_horizon param + 1 / 10 ^ 6 \<or>
      real k * (v * ?dt) < ep_min_generated_path_length param"
    using reach(3) by blast
  have sizes: "length ?path = ?n + 1" by simp
  show ?thesis
    by (intro exI [of _ ?path] exI [of _ polys] exI [of _ ?n] conjI)
      (fact gen sizes polys(2) start step yaw hull reach(1) eb_walk_length [OF s, of w ?n] reach(2) needed)+
qed

abbreviation eb_ex_lib :: "unit eb_lib" where
  "eb_ex_lib \<equiv> \<lparr>lb_lookup = \<lambda>_ _. Some (), lb_transform_pose = \<lambda>_ p. p, lb_transform_point = \<lambda>_ p. p,
     lb_voxel = \<lambda>ps. ps,
     lb_offset_pose = \<lambda>p x y z. eb_pose (pt_x p + cos (po_yaw p) * x - sin (po_yaw p) * y)
       (pt_y p + sin (po_yaw p) * x + cos (po_yaw p) * y) (po_yaw p),
     lb_convex_hull = \<lambda>poly. poly,
     lb_within = \<lambda>(x, y) poly. list_ex (\<lambda>(a, b). a < x) poly \<and> list_ex (\<lambda>(a, b). x < a) poly \<and>
       list_ex (\<lambda>(a, b). b < y) poly \<and> list_ex (\<lambda>(a, b). y < b) poly\<rparr>"

abbreviation eb_ex_param :: eb_param where
  "eb_ex_param \<equiv> \<lparr>ep_use_predicted_trajectory = False, ep_use_imu_path = True,
     ep_min_generated_path_length = 1 / 2, ep_expand_width = 1 / 10, ep_longitudinal_offset = 2,
     ep_t_response = 1, ep_a_ego_min = - 3, ep_a_obj_min = - 1, ep_prediction_time_horizon = 3 / 2,
     ep_prediction_time_interval = 2, ep_max_longitudinal_offset_m = 4, ep_vehicle_width_m = 2,
     ep_rear_overhang_m = 1\<rparr>"

lemma eb_path_correct_witness:
  "\<exists>path polys. eb_generateEgoPath eb_ex_lib eb_ex_param 6 1 = Some (Inr (path, polys)) \<and>
    path ! 0 = eb_pose 0 0 0 \<and> calcDistance2d (path ! 0) (path ! 1) = 12"
proof -
  obtain path polys n where "eb_generateEgoPath eb_ex_lib eb_ex_param 6 1 = Some (Inr (path, polys))"
    "path ! 0 = eb_pose 0 0 0" "\<forall>i < n. calcDistance2d (path ! i) (path ! (i + 1)) = 12" "1 / 2 \<le> real n * 12"
    using eb_path_correct [of 6 eb_ex_param eb_ex_lib 1] by auto
  moreover from this(4) have "0 < n" by (cases n) simp_all
  ultimately show ?thesis by (intro exI [of _ path] exI [of _ polys]) auto
qed

text \<open>C16: When the node reports an error, and so brakes, for a vehicle driving straight. Assumed: velocity, IMU and point
  cloud received, Autoware DRIVING, velocity at least 0.1 m/s, yaw rate zero, the time step positive and long enough for
  a step of a millimetre, the horizon not negative, the IMU path checked and the predicted trajectory not, both
  decelerations not zero. A point of the cloud is a threat when it lies in a polygon of the swept path, at most five
  metres to the left, and closer to the front of the vehicle than the distance travelled in the response time and while
  braking plus the margin. With a threat the node reports an error exactly when the time from the start of the check to
  its end is not longer than collision_keeping_sec; without one, exactly when it keeps an earlier collision whose stamp
  is not older than that. With the default collision_keeping_sec of zero a threat is thus reported only if no time at
  all passes during the check.\<close>

theorem eb_straight_brakes_iff:
  assumes moving: "eb_moving param v 0 cloud st"
    and paths: "ep_use_imu_path param" "\<not> ep_use_predicted_trajectory param"
    and rates: "ep_a_ego_min param \<noteq> 0" "ep_a_obj_min param \<noteq> 0"
  shows "\<exists>path polys d st2. eb_generateEgoPath lib param v 0 = Some (Inr (path, polys)) \<and>
    eb_onCheckCollision lib param now later st = Some (Inr (d, st2)) \<and>
    (fst d = DL_ERROR \<longleftrightarrow>
      (if \<exists>p \<in> set (cl_points cloud).
         pt_y p \<le> 5 \<and> (\<exists>poly \<in> set polys. lb_within lib (pt_x p, pt_y p) poly) \<and>
         pt_x p - ep_max_longitudinal_offset_m param <
           v * ep_t_response param + v * v / (2 * \<bar>ep_a_ego_min param\<bar>) + ep_longitudinal_offset param
       then seconds (later - now) \<le> ck_timeout_sec (eb_keeper st)
       else \<exists>kept. ck_data (eb_keeper st) = Some kept \<and>
         seconds (later - ob_stamp kept) \<le> ck_timeout_sec (eb_keeper st)))"
proof -
  let ?dt = "ep_prediction_time_interval param" and ?n = "eb_steps param v"
  have v: "1 / 10 \<le> v" and dt: "0 < ?dt" and far: "1 / 1000 \<le> v * ?dt" and h: "0 \<le> ep_prediction_time_horizon param"
    using moving by (simp_all add: eb_moving_def)
  have n: "1 \<le> ?n" using v dt h by (intro eb_steps_positive) simp_all
  obtain polys d st2 where polys: "eb_polygons lib param (eb_walk v 0 ?dt ?n) = Inr polys"
    and check: "eb_onCheckCollision lib param now later st = Some (Inr (d, st2))"
    and raw: "fst d = DL_ERROR \<longleftrightarrow> (if \<exists>p \<in> set (cl_points cloud). eb_threat lib param v (eb_walk v 0 ?dt ?n) polys p
        then seconds (later - now) \<le> ck_timeout_sec (eb_keeper st)
        else \<exists>kept. ck_data (eb_keeper st) = Some kept \<and> seconds (later - ob_stamp kept) \<le> ck_timeout_sec (eb_keeper st))"
    using eb_brakes_imu [OF moving paths, of lib now later] by blast
  have gen: "eb_generateEgoPath lib param v 0 = Some (Inr (eb_walk v 0 ?dt ?n, polys))"
    using eb_generateEgoPath_eq [OF v dt far, of lib 0] polys by auto
  have rss: "eb_rss param v 0 = Fin (v * ep_t_response param + v * v / (2 * \<bar>ep_a_ego_min param\<bar>) + ep_longitudinal_offset param)"
    using rates by (simp add: eb_rss_def)
  have "eb_threat lib param v (eb_walk v 0 ?dt ?n) polys p \<longleftrightarrow>
       pt_y p \<le> 5 \<and> (\<exists>poly \<in> set polys. lb_within lib (pt_x p, pt_y p) poly) \<and>
       pt_x p - ep_max_longitudinal_offset_m param <
         v * ep_t_response param + v * v / (2 * \<bar>ep_a_ego_min param\<bar>) + ep_longitudinal_offset param" for p
    by (simp add: eb_threat_def eb_straight_lateral [OF far n] eb_straight_distance [OF far n] rss list_ex_iff not_less)
  with gen check raw show ?thesis by (intro exI conjI) (assumption | simp)+
qed

abbreviation eb_ex_state :: "real \<Rightarrow> eb_state" where
  "eb_ex_state x \<equiv> \<lparr>eb_pointcloud = Some \<lparr>cl_frame_id = ''base_link'', cl_stamp = 0, cl_points = [\<lparr>pt_x = x, pt_y = 0, pt_z = 1\<rparr>]\<rparr>,
     eb_velocity = Some 6, eb_imu = Some 0, eb_predicted_traj = None,
     eb_autoware_state = Some AutowareState_DRIVING,
     eb_keeper = \<lparr>ck_data = None, ck_timeout_sec = 1\<rparr>\<rparr>"

lemma eb_ex_path:
  "\<exists>poly. eb_generateEgoPath eb_ex_lib eb_ex_param 6 0 = Some (Inr ([eb_pose 0 0 0, eb_pose 12 0 0], [poly])) \<and>
     lb_within eb_ex_lib (10, 0) poly"
proof -
  have c: "\<lceil>1500001 / 2000000 :: real\<rceil> = 1" "\<lceil>1 / 24 :: real\<rceil> = 1" by (simp_all add: ceiling_eq_iff)
  have n: "eb_steps eb_ex_param 6 = 1" by (simp add: eb_steps_def Let_def c)
  have walk: "eb_walk 6 0 2 (Suc 0) = [eb_pose 0 0 0, eb_pose 12 0 0]"
    by (simp add: eb_walk_def eb_pose_def)
  have "eb_polygons eb_ex_lib eb_ex_param [eb_pose 0 0 0, eb_pose 12 0 0] =
      Inr [[(4, 11 / 10), (4, - 11 / 10), (- 1, - 11 / 10), (- 1, 11 / 10),
            (16, 11 / 10), (16, - 11 / 10), (11, - 11 / 10), (11, 11 / 10)]]"
    by (simp add: eb_createPolygon_def eb_corners_def appendPointToPolygon_def eb_pose_def isClockwise_def
        inverseClockwise_def Let_def upt_rec)
  then show ?thesis
    using eb_generateEgoPath_eq [of 6 eb_ex_param eb_ex_lib 0] by (simp add: n walk)
qed

lemma eb_straight_brakes_iff_witness:
  "(\<exists>d st2. eb_onCheckCollision eb_ex_lib eb_ex_param 5 6 (eb_ex_state 40) = Some (Inr (d, st2)) \<and> fst d \<noteq> DL_ERROR) \<and>
   (\<exists>d st2. eb_onCheckCollision eb_ex_lib eb_ex_param 5 6 (eb_ex_state 10) = Some (Inr (d, st2)) \<and> fst d = DL_ERROR)"
proof -
  have moving: "eb_moving eb_ex_param 6 0 \<lparr>cl_frame_id = ''base_link'', cl_stamp = 0, cl_points = [\<lparr>pt_x = x, pt_y = 0, pt_z = 1\<rparr>]\<rparr>
      (eb_ex_state x)" for x
    by (simp add: eb_moving_def)
  obtain poly where path: "eb_generateEgoPath eb_ex_lib eb_ex_param 6 0 = Some (Inr ([eb_pose 0 0 0, eb_pose 12 0 0], [poly]))"
    and hit: "lb_within eb_ex_lib (10, 0) poly"
    using eb_ex_path by blast
  show ?thesis
    using eb_straight_brakes_iff [OF moving [of 40], where now = 5 and later = 6 and lib = eb_ex_lib]
      eb_straight_brakes_iff [OF moving [of 10], where now = 5 and later = 6 and lib = eb_ex_lib] path hit
    by (simp add: seconds_def del: eb_lib.simps)
qed

end
