(* ===== verification/Planner_Manager.thy ===== *)
theory Planner_Manager
  imports Rtc_Interface "HOL-Library.Sublist" "HOL-Library.Multiset"
begin

text \<open>
  The core of planning/behavior_path_planner in its new architecture: the planner manager, which runs the
  approved scene modules one after the other and starts, runs and approves candidates; the
  managers that create and register the modules; and the base class of the modules with their requests
  to cooperate (theory \<open>Rtc_Interface\<close>).  A pointer to a module is its number in the heap.  The virtual functions
  of a scene module are a record, given for each manager; route handler and lanelet queries are parameters.
  Processing times, debug markers and publishers are left out.
\<close>

section \<open>Types\<close>

datatype module_status = ModuleStatus_IDLE | ModuleStatus_RUNNING | ModuleStatus_SUCCESS | ModuleStatus_FAILURE

text \<open>The request to cooperate interfaces of a manager, by their type.\<close>

type_synonym rtc_map = "(string \<times> ri_state) list"

text \<open>The members of \<open>SceneModuleInterface\<close> that change, and the state \<open>'m\<close> of the derived class.\<close>

record 'm scene_module =
  sm_is_waiting_approval :: bool
  sm_is_locked_new_module_launch :: bool
  sm_current_state :: module_status
  sm_uuid_map :: "string \<Rightarrow> uuid"
  sm_impl :: 'm

type_synonym 'm sm_view = "'m scene_module \<times> rtc_map"

text \<open>
  The virtual functions, from the planner data \<open>'d\<close> and the output \<open>'o\<close> of the previous module.  The result of
  \<open>updateState\<close> is not used by the manager, only its effect.
\<close>

record ('m, 'o, 'd) module_class =
  mc_construct :: 'm
  mc_updateData :: "'d \<Rightarrow> 'o \<Rightarrow> 'm sm_view \<Rightarrow> 'm sm_view"
  mc_isExecutionRequested :: "'d \<Rightarrow> 'o \<Rightarrow> 'm sm_view \<Rightarrow> bool"
  mc_run :: "'d \<Rightarrow> 'o \<Rightarrow> 'm sm_view \<Rightarrow> 'o \<times> 'm sm_view"
  mc_updateState :: "'d \<Rightarrow> 'o \<Rightarrow> 'm sm_view \<Rightarrow> 'm sm_view"
  mc_processOnEntry :: "'d \<Rightarrow> 'o \<Rightarrow> 'm sm_view \<Rightarrow> 'm sm_view"
  mc_processOnExit :: "'m sm_view \<Rightarrow> 'm sm_view"

text \<open>What is fixed when a manager is registered.\<close>

record pm_manager =
  mg_name :: string
  mg_max_module_num :: nat
  mg_priority :: nat
  mg_simultaneous_as_approved :: bool
  mg_simultaneous_as_candidate :: bool

text \<open>The modules and the idling module of a manager are kept by its name.  A lanelet is its id.\<close>

record 'm pm_state =
  pm_root_lanelet :: "int option"
  pm_managers :: "pm_manager list"
  pm_approved :: "nat list"
  pm_candidates :: "nat list"
  pm_registered :: "string \<Rightarrow> nat list"
  pm_idling :: "string \<Rightarrow> nat option"
  pm_rtc :: "string \<Rightarrow> rtc_map"
  pm_heap :: "(string \<times> 'm scene_module) list"

text \<open>
  The environment: the classes of the modules by the name of their manager, the order in which
  \<open>std::sort\<close> puts modules of equal priority, random uuids, and the queries to the route handler.
\<close>

record ('m, 'o, 'd) pm_lib =
  lb_class :: "string \<Rightarrow> ('m, 'o, 'd) module_class"
  lb_sort :: "(nat \<Rightarrow> nat) \<Rightarrow> nat list \<Rightarrow> nat list"
  lb_uuid :: "nat \<Rightarrow> string \<Rightarrow> uuid"
  lb_closest_lanelet :: "'d \<Rightarrow> int"
  lb_reference_path :: "'d \<Rightarrow> int \<Rightarrow> 'o"
  lb_following :: "'d \<Rightarrow> int \<Rightarrow> int list"
  lb_empty_output :: 'o

datatype pm_error = PM_UnknownManager | PM_OutOfRange | PM_NullPointer

section \<open>Scene modules\<close>

definition sm_new :: "('m, 'o, 'd) module_class \<Rightarrow> (string \<Rightarrow> uuid) \<Rightarrow> 'm scene_module" where
  "sm_new cls uuids =
     \<lparr>sm_is_waiting_approval = False, sm_is_locked_new_module_launch = False,
      sm_current_state = ModuleStatus_SUCCESS, sm_uuid_map = uuids, sm_impl = mc_construct cls\<rparr>"

definition sm_isActivated :: "'m sm_view \<Rightarrow> bool" where
  "sm_isActivated = (\<lambda>(m, rtc).
     (case find (\<lambda>(ty, ri). ri_isRegistered (sm_uuid_map m ty) ri) rtc of
        Some (ty, ri) \<Rightarrow> ri_isActivated (sm_uuid_map m ty) ri
      | None \<Rightarrow> False))"

text \<open>The \<open>run\<close> of the base class, which most modules inherit.\<close>

definition sm_run ::
  "('m sm_view \<Rightarrow> 'm sm_view) \<Rightarrow> ('m sm_view \<Rightarrow> 'o \<times> 'm sm_view) \<Rightarrow> ('m sm_view \<Rightarrow> 'o \<times> 'm sm_view) \<Rightarrow>
     'm sm_view \<Rightarrow> 'o \<times> 'm sm_view" where
  "sm_run updateData plan planWaitingApproval = (\<lambda>(m, rtc).
     let v = updateData (m\<lparr>sm_current_state := ModuleStatus_RUNNING\<rparr>, rtc)
     in if \<not> sm_is_waiting_approval (fst v) then plan v
        else if sm_isActivated v then plan v
        else planWaitingApproval v)"

definition sm_onEntry :: "('m, 'o, 'd) module_class \<Rightarrow> 'd \<Rightarrow> 'o \<Rightarrow> 'm sm_view \<Rightarrow> 'm sm_view" where
  "sm_onEntry cls d prev = (\<lambda>(m, rtc).
     mc_processOnEntry cls d prev (m\<lparr>sm_current_state := ModuleStatus_IDLE\<rparr>, rtc))"

definition sm_onExit :: "('m, 'o, 'd) module_class \<Rightarrow> 'm sm_view \<Rightarrow> 'm sm_view" where
  "sm_onExit cls = (\<lambda>(m, rtc).
     mc_processOnExit cls
       (m\<lparr>sm_current_state := ModuleStatus_SUCCESS, sm_is_waiting_approval := False,
          sm_is_locked_new_module_launch := False\<rparr>,
        map (map_prod id ri_clearCooperateStatus) rtc))"

text \<open>The private \<open>run\<close> of the planner manager, as far as it concerns the module.\<close>

definition sm_cycle :: "('m, 'o, 'd) module_class \<Rightarrow> 'd \<Rightarrow> 'o \<Rightarrow> 'm sm_view \<Rightarrow> 'o \<times> 'm sm_view" where
  "sm_cycle cls d prev = (\<lambda>(m, rtc).
     let (result, m1, rtc1) = mc_run cls d prev (m, map (map_prod id ri_lockCommandUpdate) rtc)
     in (result, mc_updateState cls d prev (m1, map (map_prod id ri_unlockCommandUpdate) rtc1)))"

section \<open>Access to modules and managers\<close>

definition pm_name :: "'m pm_state \<Rightarrow> nat \<Rightarrow> string" where
  "pm_name s i = fst (pm_heap s ! i)"

definition pm_module :: "'m pm_state \<Rightarrow> nat \<Rightarrow> 'm scene_module" where
  "pm_module s i = snd (pm_heap s ! i)"

abbreviation pm_waiting :: "'m pm_state \<Rightarrow> nat \<Rightarrow> bool" where
  "pm_waiting s i \<equiv> sm_is_waiting_approval (pm_module s i)"

abbreviation pm_status :: "'m pm_state \<Rightarrow> nat \<Rightarrow> module_status" where
  "pm_status s i \<equiv> sm_current_state (pm_module s i)"

text \<open>A call of a member function of the module a pointer refers to.\<close>

definition pm_call :: "('m sm_view \<Rightarrow> 'r \<times> 'm sm_view) \<Rightarrow> nat \<Rightarrow> 'm pm_state \<Rightarrow> 'r \<times> 'm pm_state" where
  "pm_call f i s =
     (let (r, m, rtc) = f (pm_module s i, pm_rtc s (pm_name s i))
      in (r, s\<lparr>pm_heap := (pm_heap s)[i := (pm_name s i, m)],
              pm_rtc := (pm_rtc s)(pm_name s i := rtc)\<rparr>))"

definition pm_call_void :: "('m sm_view \<Rightarrow> 'm sm_view) \<Rightarrow> nat \<Rightarrow> 'm pm_state \<Rightarrow> 'm pm_state" where
  "pm_call_void f i s = snd (pm_call (\<lambda>v. ((), f v)) i s)"

definition pm_getManager :: "'m pm_state \<Rightarrow> nat \<Rightarrow> pm_error + pm_manager" where
  "pm_getManager s i =
     (case find (\<lambda>mg. mg_name mg = pm_name s i) (pm_managers s) of
        None \<Rightarrow> Inl PM_UnknownManager | Some mg \<Rightarrow> Inr mg)"

definition pm_registerSceneModuleManager :: "pm_manager \<Rightarrow> 'm pm_state \<Rightarrow> 'm pm_state" where
  "pm_registerSceneModuleManager mg s = s\<lparr>pm_managers := pm_managers s @ [mg]\<rparr>"

section \<open>The managers of the modules\<close>

definition mg_getNewModule :: "('m, 'o, 'd) pm_lib \<Rightarrow> string \<Rightarrow> 'm pm_state \<Rightarrow> nat \<times> 'm pm_state" where
  "mg_getNewModule lib n s =
     (case pm_idling s n of
        Some i \<Rightarrow> (i, s)
      | None \<Rightarrow>
          let i = length (pm_heap s)
          in (i, s\<lparr>pm_heap := pm_heap s @ [(n, sm_new (lb_class lib n) (lb_uuid lib i))],
                 pm_idling := (pm_idling s)(n := Some i)\<rparr>))"

definition mg_canLaunchNewModule :: "pm_manager \<Rightarrow> 'm pm_state \<Rightarrow> bool" where
  "mg_canLaunchNewModule mg s \<longleftrightarrow> length (pm_registered s (mg_name mg)) < mg_max_module_num mg"

definition mg_isExecutionRequested ::
  "('m, 'o, 'd) pm_lib \<Rightarrow> 'd \<Rightarrow> 'o \<Rightarrow> nat \<Rightarrow> 'm pm_state \<Rightarrow> bool \<times> 'm pm_state" where
  "mg_isExecutionRequested lib d prev i s =
     (let cls = lb_class lib (pm_name s i)
      in pm_call (\<lambda>v. let v1 = mc_updateData cls d prev v in (mc_isExecutionRequested cls d prev v1, v1)) i s)"

definition mg_exist :: "nat \<Rightarrow> 'm pm_state \<Rightarrow> bool" where
  "mg_exist i s \<longleftrightarrow> i \<in> set (pm_registered s (pm_name s i))"

definition mg_registerNewModule ::
  "('m, 'o, 'd) pm_lib \<Rightarrow> 'd \<Rightarrow> 'o \<Rightarrow> nat \<Rightarrow> 'm pm_state \<Rightarrow> 'm pm_state" where
  "mg_registerNewModule lib d prev i s =
     (let s1 = pm_call_void (sm_onEntry (lb_class lib (pm_name s i)) d prev) i s
      in s1\<lparr>pm_registered := (pm_registered s1)(pm_name s i := pm_registered s1 (pm_name s i) @ [i])\<rparr>)"

definition mg_deleteModules :: "('m, 'o, 'd) pm_lib \<Rightarrow> nat \<Rightarrow> 'm pm_state \<Rightarrow> 'm pm_state" where
  "mg_deleteModules lib i s =
     (let s1 = pm_call_void (sm_onExit (lb_class lib (pm_name s i))) i s
      in s1\<lparr>pm_registered := (pm_registered s1)(pm_name s i := remove1 i (pm_registered s1 (pm_name s i)))\<rparr>)"

text \<open>Without an idling module \<open>reset\<close> dereferences a null pointer.\<close>

definition mg_reset :: "('m, 'o, 'd) pm_lib \<Rightarrow> pm_manager \<Rightarrow> 'm pm_state \<Rightarrow> pm_error + 'm pm_state" where
  "mg_reset lib mg s =
     (let n = mg_name mg; exit_module = (\<lambda>i. pm_call_void (sm_onExit (lb_class lib (pm_name s i))) i);
          s1 = fold exit_module (pm_registered s n) s;
          s2 = s1\<lparr>pm_registered := (pm_registered s1)(n := [])\<rparr>
      in case pm_idling s2 n of
           None \<Rightarrow> Inl PM_NullPointer
         | Some i \<Rightarrow> let s3 = exit_module i s2 in Inr (s3\<lparr>pm_idling := (pm_idling s3)(n := None)\<rparr>))"

section \<open>Operations of the planner manager\<close>

definition pm_deleteExpiredModules :: "('m, 'o, 'd) pm_lib \<Rightarrow> nat \<Rightarrow> 'm pm_state \<Rightarrow> pm_error + 'm pm_state" where
  "pm_deleteExpiredModules lib i s = err_bind (pm_getManager s i) (\<lambda>_. Inr (mg_deleteModules lib i s))"

definition pm_clearCandidateModules :: "('m, 'o, 'd) pm_lib \<Rightarrow> 'm pm_state \<Rightarrow> pm_error + 'm pm_state" where
  "pm_clearCandidateModules lib s =
     err_bind (err_fold (pm_deleteExpiredModules lib) (pm_candidates s) s) (\<lambda>s1. Inr (s1\<lparr>pm_candidates := []\<rparr>))"

definition pm_addApprovedModule :: "nat \<Rightarrow> 'm pm_state \<Rightarrow> 'm pm_state" where
  "pm_addApprovedModule i s = s\<lparr>pm_approved := pm_approved s @ [i]\<rparr>"

definition pm_reset :: "('m, 'o, 'd) pm_lib \<Rightarrow> 'm pm_state \<Rightarrow> pm_error + 'm pm_state" where
  "pm_reset lib s =
     err_fold (mg_reset lib) (pm_managers s) (s\<lparr>pm_approved := [], pm_candidates := [], pm_root_lanelet := None\<rparr>)"

text \<open>The comparison of two modules looks up both managers; one module alone is not compared.\<close>

definition pm_sortByPriority :: "('m, 'o, 'd) pm_lib \<Rightarrow> 'm pm_state \<Rightarrow> nat list \<Rightarrow> pm_error + nat list" where
  "pm_sortByPriority lib s modules =
     (if length modules < 2 then Inr modules
      else err_bind (err_fold (\<lambda>i ps. err_bind (pm_getManager s i) (\<lambda>mg. Inr (ps(i := mg_priority mg)))) modules (\<lambda>_. 0))
        (\<lambda>priority. Inr (lb_sort lib priority modules)))"

definition pm_selectHighestPriorityModule ::
  "('m, 'o, 'd) pm_lib \<Rightarrow> 'm pm_state \<Rightarrow> nat list \<Rightarrow> pm_error + nat option" where
  "pm_selectHighestPriorityModule lib s request_modules =
     (if request_modules = [] then Inr None
      else err_bind (pm_sortByPriority lib s request_modules) (\<lambda>ms. Inr (Some (hd ms))))"

text \<open>Running a module, and \<open>emplace\<close>, which keeps an entry that is already there.\<close>

definition pm_run_module :: "('m, 'o, 'd) pm_lib \<Rightarrow> 'd \<Rightarrow> 'o \<Rightarrow> nat \<Rightarrow> 'm pm_state \<Rightarrow> 'o \<times> 'm pm_state" where
  "pm_run_module lib d prev i s = pm_call (sm_cycle (lb_class lib (pm_name s i)) d prev) i s"

definition pm_emplace :: "string \<Rightarrow> 'o \<Rightarrow> (string \<times> 'o) list \<Rightarrow> (string \<times> 'o) list" where
  "pm_emplace n x results = (if map_of results n = None then (n, x) # results else results)"

definition pm_at :: "(string \<times> 'o) list \<Rightarrow> string \<Rightarrow> pm_error + 'o" where
  "pm_at results n = (case map_of results n of None \<Rightarrow> Inl PM_OutOfRange | Some x \<Rightarrow> Inr x)"

text \<open>The loop over the approved modules: each gets the output of the one before.\<close>

fun pm_run_chain ::
  "('m, 'o, 'd) pm_lib \<Rightarrow> 'd \<Rightarrow> nat list \<Rightarrow> 'o \<Rightarrow> (string \<times> 'o) list \<Rightarrow> 'm pm_state \<Rightarrow> (string \<times> 'o) list \<times> 'm pm_state" where
  "pm_run_chain lib d [] out results s = (results, s)"
| "pm_run_chain lib d (i # is) out results s =
     (let (out1, s1) = pm_run_module lib d out i s
      in pm_run_chain lib d is out1 (pm_emplace (pm_name s i) out1 results) s1)"

text \<open>
  A module that waits for approval again goes back to the candidates; it and all behind it leave the approved
  modules.  The modules behind it are not deleted.
\<close>

definition pm_pop_waiting :: "('m, 'o, 'd) pm_lib \<Rightarrow> 'm pm_state \<Rightarrow> pm_error + 'm pm_state" where
  "pm_pop_waiting lib s =
     (case dropWhile (\<lambda>i. \<not> pm_waiting s i) (pm_approved s) of
        [] \<Rightarrow> Inr s
      | w # _ \<Rightarrow> err_bind (pm_clearCandidateModules lib s) (\<lambda>s1.
          Inr (s1\<lparr>pm_candidates := pm_candidates s1 @ [w],
                  pm_approved := takeWhile (\<lambda>i. \<not> pm_waiting s i) (pm_approved s)\<rparr>)))"

definition pm_pop_failure :: "('m, 'o, 'd) pm_lib \<Rightarrow> 'm pm_state \<Rightarrow> pm_error + 'm pm_state" where
  "pm_pop_failure lib s =
     (let ok = (\<lambda>i. pm_status s i \<noteq> ModuleStatus_FAILURE);
          failed = dropWhile ok (pm_approved s)
      in err_bind (err_fold (pm_deleteExpiredModules lib) failed s) (\<lambda>s1.
         err_bind (if failed \<noteq> [] then pm_clearCandidateModules lib s1 else Inr s1) (\<lambda>s2.
           Inr (s2\<lparr>pm_approved := takeWhile ok (pm_approved s)\<rparr>))))"

text \<open>
  The modules that have succeeded at the end of the list are removed, unless a lane change is one of them and a
  module before them has not succeeded.
\<close>

definition pm_pop_success :: "('m, 'o, 'd) pm_lib \<Rightarrow> 'd \<Rightarrow> 'm pm_state \<Rightarrow> pm_error + 'm pm_state" where
  "pm_pop_success lib d s =
     (let success = (\<lambda>i. pm_status s i = ModuleStatus_SUCCESS);
          finished = rev (takeWhile success (rev (pm_approved s)));
          unfinished = rev (dropWhile success (rev (pm_approved s)));
          remove = err_bind (err_fold (pm_deleteExpiredModules lib) finished s) (\<lambda>s1.
            pm_clearCandidateModules lib (s1\<lparr>pm_approved := unfinished\<rparr>))
      in if finished = [] then Inr s
         else if \<not> list_ex (\<lambda>i. sublist ''lane_change'' (pm_name s i)) finished then remove
         else if unfinished = [] then err_bind remove (\<lambda>s1. Inr (s1\<lparr>pm_root_lanelet := Some (lb_closest_lanelet lib d)\<rparr>))
         else Inr s)"

definition pm_runApprovedModules ::
  "('m, 'o, 'd) pm_lib \<Rightarrow> 'd \<Rightarrow> 'm pm_state \<Rightarrow> pm_error + 'o \<times> 'm pm_state" where
  "pm_runApprovedModules lib d s =
     (case pm_root_lanelet s of
        None \<Rightarrow> Inl PM_NullPointer
      | Some lane \<Rightarrow>
          let out = lb_reference_path lib d lane;
              (results, s1) = pm_run_chain lib d (pm_approved s) out [(''root'', out)] s
          in err_bind (pm_pop_waiting lib s1) (\<lambda>s2.
             err_bind (pm_pop_failure lib s2) (\<lambda>s3.
               if pm_approved s3 = [] then err_bind (pm_at results ''root'') (\<lambda>o1. Inr (o1, s3))
               else
                 err_bind (if map_of results (pm_name s3 (last (pm_approved s3))) = None
                           then pm_at results ''root''
                           else pm_at results (pm_name s3 (last (pm_approved s3)))) (\<lambda>o1.
                   err_bind (pm_pop_success lib d s3) (\<lambda>s4. Inr (o1, s4))))))"

section \<open>Requests\<close>

text \<open>One turn of the loop over the managers; the flag says that the loop is left.\<close>

definition pm_launch ::
  "('m, 'o, 'd) pm_lib \<Rightarrow> 'd \<Rightarrow> 'o \<Rightarrow> pm_manager \<Rightarrow> nat list \<Rightarrow> 'm pm_state \<Rightarrow> nat list \<times> 'm pm_state" where
  "pm_launch lib d prev mg request_modules s =
     (if mg_canLaunchNewModule mg s
      then let (i, s1) = mg_getNewModule lib (mg_name mg) s; (requested, s2) = mg_isExecutionRequested lib d prev i s1
        in (if requested then request_modules @ [i] else request_modules, s2)
      else (request_modules, s))"

definition pm_request_turn ::
  "('m, 'o, 'd) pm_lib \<Rightarrow> 'd \<Rightarrow> 'o \<Rightarrow> pm_manager \<Rightarrow> nat list \<Rightarrow> 'm pm_state \<Rightarrow> bool \<times> nat list \<times> 'm pm_state" where
  "pm_request_turn lib d prev mg request_modules s =
     (if pm_approved s \<noteq> [] \<and> \<not> mg_simultaneous_as_approved mg then (False, request_modules, s)
      else case find (\<lambda>i. pm_name s i = mg_name mg) (pm_candidates s) of
          None \<Rightarrow> (False, pm_launch lib d prev mg request_modules s)
        | Some c \<Rightarrow>
            (case find (\<lambda>i. pm_name s i = mg_name mg \<and> sm_is_locked_new_module_launch (pm_module s i)) (pm_candidates s) of
               Some i \<Rightarrow> (True, [i], s)
             | None \<Rightarrow> (False, request_modules @ [c], s)))"

fun pm_request_loop ::
  "('m, 'o, 'd) pm_lib \<Rightarrow> 'd \<Rightarrow> 'o \<Rightarrow> pm_manager list \<Rightarrow> nat list \<Rightarrow> 'm pm_state \<Rightarrow> nat list \<times> 'm pm_state" where
  "pm_request_loop lib d prev [] request_modules s = (request_modules, s)"
| "pm_request_loop lib d prev (mg # mgs) request_modules s =
     (let (locked, request_modules1, s1) = pm_request_turn lib d prev mg request_modules s
      in if locked then (request_modules1, s1) else pm_request_loop lib d prev mgs request_modules1 s1)"

fun pm_any_blocks :: "'m pm_state \<Rightarrow> nat list \<Rightarrow> pm_error + bool" where
  "pm_any_blocks s [] = Inr False"
| "pm_any_blocks s (i # is) = err_bind (pm_getManager s i) (\<lambda>mg.
     if \<not> mg_simultaneous_as_approved mg then Inr True else pm_any_blocks s is)"

definition pm_getRequestModules ::
  "('m, 'o, 'd) pm_lib \<Rightarrow> 'd \<Rightarrow> 'o \<Rightarrow> 'm pm_state \<Rightarrow> pm_error + nat list \<times> 'm pm_state" where
  "pm_getRequestModules lib d prev s =
     err_bind (pm_any_blocks s (pm_approved s)) (\<lambda>blocked.
       Inr (if blocked then ([], s) else pm_request_loop lib d prev (pm_managers s) [] s))"

section \<open>Running candidates\<close>

fun pm_executable_conflict :: "'m pm_state \<Rightarrow> nat list \<Rightarrow> pm_error + bool" where
  "pm_executable_conflict s [] = Inr False"
| "pm_executable_conflict s (i # is) = err_bind (pm_getManager s i) (\<lambda>mg.
     if \<not> mg_simultaneous_as_candidate mg then Inr True else pm_executable_conflict s is)"

fun pm_executables :: "'m pm_state \<Rightarrow> nat list \<Rightarrow> nat list \<Rightarrow> pm_error + nat list" where
  "pm_executables s [] executable_modules = Inr executable_modules"
| "pm_executables s (i # is) executable_modules = err_bind (pm_getManager s i) (\<lambda>mg.
     if \<not> mg_simultaneous_as_candidate mg \<and> executable_modules = [] then Inr [i]
     else err_bind (pm_executable_conflict s executable_modules) (\<lambda>conflict.
       pm_executables s is (if conflict then executable_modules else executable_modules @ [i])))"

fun pm_run_candidates ::
  "('m, 'o, 'd) pm_lib \<Rightarrow> 'd \<Rightarrow> 'o \<Rightarrow> nat list \<Rightarrow> (string \<times> 'o) list \<Rightarrow> 'm pm_state \<Rightarrow>
     pm_error + (string \<times> 'o) list \<times> 'm pm_state" where
  "pm_run_candidates lib d prev [] results s = Inr (results, s)"
| "pm_run_candidates lib d prev (i # is) results s =
     err_bind (pm_getManager s i) (\<lambda>_.
       let s1 = (if mg_exist i s then s else mg_registerNewModule lib d prev i s);
           (out, s2) = pm_run_module lib d prev i s1
       in pm_run_candidates lib d prev is (pm_emplace (pm_name s i) out results) s2)"

definition pm_expired :: "'m pm_state \<Rightarrow> nat \<Rightarrow> bool" where
  "pm_expired s i \<longleftrightarrow> pm_status s i = ModuleStatus_FAILURE \<or> pm_status s i = ModuleStatus_SUCCESS"

fun pm_remove_expired :: "('m, 'o, 'd) pm_lib \<Rightarrow> nat list \<Rightarrow> 'm pm_state \<Rightarrow> pm_error + nat list \<times> 'm pm_state" where
  "pm_remove_expired lib [] s = Inr ([], s)"
| "pm_remove_expired lib (i # is) s =
     (if pm_expired s i
      then err_bind (pm_deleteExpiredModules lib i s) (pm_remove_expired lib is)
      else err_bind (pm_remove_expired lib is s) (\<lambda>(rest, s1). Inr (i # rest, s1)))"

text \<open>Candidates that are not executed are deleted; the one that has just been approved leaves the list.\<close>

fun pm_keep_candidates ::
  "('m, 'o, 'd) pm_lib \<Rightarrow> nat list \<Rightarrow> nat \<Rightarrow> nat list \<Rightarrow> 'm pm_state \<Rightarrow> pm_error + nat list \<times> 'm pm_state" where
  "pm_keep_candidates lib request_modules h [] s = Inr ([], s)"
| "pm_keep_candidates lib request_modules h (c # cs) s =
     (if \<not> list_ex (\<lambda>m. pm_name s m = pm_name s c) request_modules
      then err_bind (pm_deleteExpiredModules lib c s) (pm_keep_candidates lib request_modules h cs)
      else err_bind (pm_keep_candidates lib request_modules h cs s) (\<lambda>(rest, s1).
             Inr (if pm_name s c = pm_name s h \<and> \<not> pm_waiting s h then rest else c # rest, s1)))"

fun pm_add_candidates :: "'m pm_state \<Rightarrow> nat \<Rightarrow> nat list \<Rightarrow> nat list \<Rightarrow> nat list" where
  "pm_add_candidates s h [] cs = cs"
| "pm_add_candidates s h (m # ms) cs =
     pm_add_candidates s h ms
       (if pm_name s m = pm_name s h \<and> \<not> pm_waiting s h then cs
        else if list_ex (\<lambda>c. pm_name s c = pm_name s m) cs then cs else cs @ [m])"

definition pm_updateCandidateModules ::
  "('m, 'o, 'd) pm_lib \<Rightarrow> nat list \<Rightarrow> nat \<Rightarrow> 'm pm_state \<Rightarrow> pm_error + 'm pm_state" where
  "pm_updateCandidateModules lib request_modules h s =
     err_bind (pm_keep_candidates lib request_modules h (pm_candidates s) s) (\<lambda>(kept, s1).
     err_bind (pm_sortByPriority lib s1 (pm_add_candidates s1 h request_modules kept)) (\<lambda>cs.
       Inr (s1\<lparr>pm_candidates := cs\<rparr>)))"

definition pm_runRequestModules ::
  "('m, 'o, 'd) pm_lib \<Rightarrow> 'd \<Rightarrow> 'o \<Rightarrow> nat list \<Rightarrow> 'm pm_state \<Rightarrow> pm_error + (nat option \<times> 'o) \<times> 'm pm_state" where
  "pm_runRequestModules lib d prev request_modules s =
     err_bind (pm_sortByPriority lib s request_modules) (\<lambda>sorted_request_modules.
     err_bind (pm_executables s sorted_request_modules []) (\<lambda>executable_modules.
     err_bind (pm_run_candidates lib d prev executable_modules [] s) (\<lambda>(results, s1).
     err_bind (pm_remove_expired lib executable_modules s1) (\<lambda>(running, s2).
       if running = []
       then err_bind (pm_clearCandidateModules lib s2) (\<lambda>s3. Inr ((None, lb_empty_output lib), s3))
       else
         let already_approved_modules = filter (\<lambda>i. \<not> pm_waiting s2 i) running;
             waiting_approved_modules = filter (pm_waiting s2) running
         in err_bind (pm_selectHighestPriorityModule lib s2
                (if already_approved_modules \<noteq> [] then already_approved_modules else waiting_approved_modules)) (\<lambda>r.
              case r of
                None \<Rightarrow> Inl PM_NullPointer
              | Some h \<Rightarrow> err_bind (pm_updateCandidateModules lib running h s2) (\<lambda>s3.
                  err_bind (pm_at results (pm_name s3 h)) (\<lambda>out. Inr ((Some h, out), s3))))))))"

section \<open>The planning cycle\<close>

text \<open>One turn of the loop of \<open>run\<close>: the output it returns, or none when it goes on.\<close>

definition pm_turn :: "('m, 'o, 'd) pm_lib \<Rightarrow> 'd \<Rightarrow> 'm pm_state \<Rightarrow> pm_error + 'o option \<times> 'm pm_state" where
  "pm_turn lib d s =
     err_bind (pm_runApprovedModules lib d s) (\<lambda>(approved_modules_output, s1).
     err_bind (pm_getRequestModules lib d approved_modules_output s1) (\<lambda>(request_modules, s2).
       if request_modules = [] then Inr (Some approved_modules_output, s2)
       else err_bind (pm_runRequestModules lib d approved_modules_output request_modules s2)
         (\<lambda>((highest_priority_module, candidate_modules_output), s3).
           case highest_priority_module of
             None \<Rightarrow> Inr (Some approved_modules_output, s3)
           | Some h \<Rightarrow>
               if pm_waiting s3 h then Inr (Some candidate_modules_output, s3)
               else err_bind (pm_clearCandidateModules lib (pm_addApprovedModule h s3)) (\<lambda>s4. Inr (None, s4)))))"

partial_function (option) pm_loop ::
  "('m, 'o, 'd) pm_lib \<Rightarrow> 'd \<Rightarrow> 'm pm_state \<Rightarrow> (pm_error + 'o \<times> 'm pm_state) option" where
  "pm_loop lib d s =
     (case pm_turn lib d s of
        Inl e \<Rightarrow> Some (Inl e)
      | Inr (Some out, s1) \<Rightarrow> Some (Inr (out, s1))
      | Inr (None, s1) \<Rightarrow> pm_loop lib d s1)"

declare pm_loop.simps [code]

definition pm_run :: "('m, 'o, 'd) pm_lib \<Rightarrow> 'd \<Rightarrow> 'm pm_state \<Rightarrow> (pm_error + 'o \<times> 'm pm_state) option" where
  "pm_run lib d s =
     pm_loop lib d (if pm_root_lanelet s = None then s\<lparr>pm_root_lanelet := Some (lb_closest_lanelet lib d)\<rparr> else s)"

definition pm_resetRootLanelet :: "('m, 'o, 'd) pm_lib \<Rightarrow> 'd \<Rightarrow> 'm pm_state \<Rightarrow> pm_error + 'm pm_state" where
  "pm_resetRootLanelet lib d s =
     (case pm_root_lanelet s of
        None \<Rightarrow> Inr (s\<lparr>pm_root_lanelet := Some (lb_closest_lanelet lib d)\<rparr>)
      | Some lane \<Rightarrow>
          let root_lanelet = lb_closest_lanelet lib d
          in if lane = root_lanelet then Inr s
             else if list_ex (\<lambda>following_id. following_id = lane) (lb_following lib d lane) then Inr s
             else if pm_approved s \<noteq> [] then Inr s
             else if list_ex (\<lambda>i. sm_is_locked_new_module_launch (pm_module s i)) (pm_candidates s) then Inr s
             else pm_reset lib s)"

text \<open>
  The part of the node's \<open>run\<close> that drives the planner manager: a new route resets it unless it is the first one, and
  outside of autonomous operation the root lanelet may be reset.
\<close>

record 'd pm_cycle_input =
  ci_new_route :: bool
  ci_autonomous :: bool
  ci_data :: 'd

definition pm_cycle ::
  "('m, 'o, 'd) pm_lib \<Rightarrow> bool \<Rightarrow> 'd pm_cycle_input \<Rightarrow> 'm pm_state \<Rightarrow> (pm_error + 'o \<times> 'm pm_state) option" where
  "pm_cycle lib is_first_time c s =
     (case err_bind (if ci_new_route c \<and> \<not> is_first_time then pm_reset lib s else Inr s) (\<lambda>s1.
             if \<not> ci_autonomous c then pm_resetRootLanelet lib (ci_data c) s1 else Inr s1) of
        Inl e \<Rightarrow> Some (Inl e)
      | Inr s2 \<Rightarrow> pm_run lib (ci_data c) s2)"

section \<open>Well-formed states\<close>

text \<open>
  Every manager has at most one module, which is its idling module; registered modules are idling modules of
  their manager.
\<close>

definition pm_core :: "'m pm_state \<Rightarrow> bool" where
  "pm_core s \<longleftrightarrow>
     distinct (map mg_name (pm_managers s)) \<and>
     (\<forall>mg \<in> set (pm_managers s). mg_max_module_num mg = 1) \<and>
     (\<forall>n i. pm_idling s n = Some i \<longrightarrow>
        i < length (pm_heap s) \<and> pm_name s i = n \<and> n \<in> mg_name ` set (pm_managers s)) \<and>
     (\<forall>n. pm_registered s n = [] \<or> (\<exists>i. pm_idling s n = Some i \<and> pm_registered s n = [i]))"

definition pm_valid :: "'m pm_state \<Rightarrow> nat \<Rightarrow> bool" where
  "pm_valid s i \<longleftrightarrow> pm_idling s (pm_name s i) = Some i"

definition pm_listed :: "'m pm_state \<Rightarrow> nat set" where
  "pm_listed s = set (pm_approved s) \<union> set (pm_candidates s)"

definition pm_simultaneous :: "'m pm_state \<Rightarrow> nat \<Rightarrow> bool" where
  "pm_simultaneous s i \<longleftrightarrow>
     (\<forall>mg \<in> set (pm_managers s). mg_name mg = pm_name s i \<longrightarrow> mg_simultaneous_as_approved mg)"

text \<open>
  All approved and candidate modules are registered with their managers, no module is in both lists or twice in
  one, and an approved module whose manager does not allow simultaneous execution is the only one.
\<close>

definition pm_inv :: "'m pm_state \<Rightarrow> bool" where
  "pm_inv s \<longleftrightarrow> pm_core s \<and>
     (\<forall>i \<in> pm_listed s. pm_valid s i \<and> pm_registered s (pm_name s i) = [i]) \<and>
     distinct (pm_approved s @ pm_candidates s) \<and>
     (\<forall>i \<in> set (pm_approved s). pm_simultaneous s i \<or> pm_approved s = [i])"

lemma pm_core_idling:
  "pm_core s \<Longrightarrow> pm_idling s n = Some i \<Longrightarrow>
     i < length (pm_heap s) \<and> pm_name s i = n \<and> n \<in> mg_name ` set (pm_managers s)"
  by (simp add: pm_core_def)

lemma pm_valid_less: "pm_core s \<Longrightarrow> pm_valid s i \<Longrightarrow> i < length (pm_heap s)"
  by (simp add: pm_core_def pm_valid_def)

lemma pm_valid_name_inj:
  "pm_valid s i \<Longrightarrow> pm_valid s j \<Longrightarrow> pm_name s i = pm_name s j \<Longrightarrow> i = j"
  by (simp add: pm_valid_def)

lemma pm_getManager_ok:
  assumes "pm_core s" and "pm_valid s i"
  obtains mg where "pm_getManager s i = Inr mg" "mg \<in> set (pm_managers s)" "mg_name mg = pm_name s i"
proof -
  have "pm_name s i \<in> mg_name ` set (pm_managers s)"
    using assms unfolding pm_core_def pm_valid_def by blast
  then have "find (\<lambda>mg. mg_name mg = pm_name s i) (pm_managers s) \<noteq> None"
    by (simp add: find_key_None)
  then obtain mg where mg: "find (\<lambda>mg. mg_name mg = pm_name s i) (pm_managers s) = Some mg"
    by auto
  then have "pm_getManager s i = Inr mg" by (simp add: pm_getManager_def)
  with find_key_Some [OF mg] that show ?thesis by blast
qed

lemma pm_manager_exists: "pm_core s \<Longrightarrow> pm_valid s i \<Longrightarrow> \<exists>mg. pm_getManager s i = Inr mg"
  by (erule (1) pm_getManager_ok) blast

lemma pm_valid_registered:
  assumes "pm_core s" and "pm_valid s i"
  shows "pm_registered s (pm_name s i) = [] \<or> pm_registered s (pm_name s i) = [i]"
proof -
  have "pm_registered s (pm_name s i) = [] \<or> (\<exists>j. pm_idling s (pm_name s i) = Some j \<and> pm_registered s (pm_name s i) = [j])"
    using assms(1) by (simp add: pm_core_def)
  then show ?thesis using assms(2) by (auto simp: pm_valid_def)
qed

section \<open>What calls of modules change\<close>

text \<open>Only the modules of \<open>D\<close>, and not the names, may differ.\<close>

definition pm_frame :: "nat set \<Rightarrow> 'm pm_state \<Rightarrow> 'm pm_state \<Rightarrow> bool" where
  "pm_frame D s s' \<longleftrightarrow>
     pm_managers s' = pm_managers s \<and> pm_root_lanelet s' = pm_root_lanelet s \<and> pm_idling s' = pm_idling s \<and>
     pm_approved s' = pm_approved s \<and> pm_candidates s' = pm_candidates s \<and>
     map fst (pm_heap s') = map fst (pm_heap s) \<and> (\<forall>i. i \<notin> D \<longrightarrow> pm_heap s' ! i = pm_heap s ! i)"

lemma pm_frame_refl: "pm_frame D s s"
  by (simp add: pm_frame_def)

lemma pm_frame_trans: "pm_frame D s s1 \<Longrightarrow> pm_frame E s1 s2 \<Longrightarrow> pm_frame (D \<union> E) s s2"
  by (simp add: pm_frame_def)

lemma pm_frame_mono: "pm_frame D s s' \<Longrightarrow> D \<subseteq> E \<Longrightarrow> pm_frame E s s'"
  unfolding pm_frame_def by blast

lemma pm_frame_name:
  assumes "pm_frame D s s'" and "i < length (pm_heap s)"
  shows "pm_name s' i = pm_name s i"
proof -
  have "length (pm_heap s') = length (pm_heap s)"
    using assms(1) by (metis pm_frame_def length_map)
  then have "map fst (pm_heap s') ! i = pm_name s' i" "map fst (pm_heap s) ! i = pm_name s i"
    using assms(2) by (simp_all add: pm_name_def)
  with assms(1) show ?thesis by (simp add: pm_frame_def)
qed

lemma pm_frame_length: "pm_frame D s s' \<Longrightarrow> length (pm_heap s') = length (pm_heap s)"
  by (metis pm_frame_def length_map)

lemma pm_frame_module: "pm_frame D s s' \<Longrightarrow> i \<notin> D \<Longrightarrow> pm_module s' i = pm_module s i"
  by (simp add: pm_frame_def pm_module_def)

lemma pm_frame_core:
  assumes "pm_frame D s s'" and "pm_core s" and "\<forall>n. pm_registered s' n = [] \<or> pm_registered s' n = pm_registered s n"
  shows "pm_core s'"
proof -
  have idle: "pm_idling s' = pm_idling s" and mgs: "pm_managers s' = pm_managers s"
    and len: "length (pm_heap s') = length (pm_heap s)"
    using assms(1) pm_frame_length by (auto simp: pm_frame_def)
  have "i < length (pm_heap s') \<and> pm_name s' i = n \<and> n \<in> mg_name ` set (pm_managers s')"
    if "pm_idling s' n = Some i" for n i
    using pm_core_idling [OF assms(2), of n i] that pm_frame_name [OF assms(1), of i] idle mgs len by simp
  moreover have "pm_registered s' n = [] \<or> (\<exists>i. pm_idling s' n = Some i \<and> pm_registered s' n = [i])" for n
    using assms(2,3) idle unfolding pm_core_def by metis
  ultimately show ?thesis
    using assms(2) mgs by (simp add: pm_core_def)
qed

lemma pm_frame_valid:
  assumes "pm_frame D s s'" and "pm_core s" and "pm_valid s i"
  shows "pm_valid s' i" and "pm_name s' i = pm_name s i"
  using assms pm_frame_name [OF assms(1) pm_valid_less [OF assms(2,3)]]
  by (simp_all add: pm_valid_def pm_frame_def)

lemma pm_call_frame:
  assumes "pm_call f i s = (r, s')"
  shows "pm_frame {i} s s'" and "pm_registered s' = pm_registered s"
proof -
  obtain q m rtc where f: "f (pm_module s i, pm_rtc s (pm_name s i)) = (q, m, rtc)"
    by (cases "f (pm_module s i, pm_rtc s (pm_name s i))") auto
  have names: "map fst ((pm_heap s)[i := (pm_name s i, m)]) = map fst (pm_heap s)"
  proof (cases "i < length (pm_heap s)")
    case True
    then have "pm_name s i = map fst (pm_heap s) ! i" by (simp add: pm_name_def)
    then show ?thesis by (simp only: map_update fst_conv list_update_id)
  qed (simp add: list_update_beyond)
  show "pm_frame {i} s s'"
    using assms names by (auto simp: pm_call_def f pm_frame_def)
  show "pm_registered s' = pm_registered s"
    using assms by (auto simp: pm_call_def f)
qed

lemma pm_call_void_frame:
  shows "pm_frame {i} s (pm_call_void f i s)" and "pm_registered (pm_call_void f i s) = pm_registered s"
proof -
  have call: "pm_call (\<lambda>v. ((), f v)) i s = ((), pm_call_void f i s)"
    by (simp add: pm_call_void_def prod_eq_iff)
  show "pm_frame {i} s (pm_call_void f i s)" by (rule pm_call_frame(1) [OF call])
  show "pm_registered (pm_call_void f i s) = pm_registered s" by (rule pm_call_frame(2) [OF call])
qed

text \<open>Deleting modules unregisters them and nothing else.\<close>

definition pm_deleted :: "nat set \<Rightarrow> 'm pm_state \<Rightarrow> 'm pm_state \<Rightarrow> bool" where
  "pm_deleted D s s' \<longleftrightarrow> pm_frame D s s' \<and>
     (\<forall>n. pm_registered s' n = (if n \<in> pm_name s ` D then [] else pm_registered s n))"

lemma pm_deleted_core: "pm_deleted D s s' \<Longrightarrow> pm_core s \<Longrightarrow> pm_core s'"
  by (rule pm_frame_core) (auto simp: pm_deleted_def)

lemma pm_frame_with_registered: "pm_frame D s s1 \<Longrightarrow> pm_frame D s (s1\<lparr>pm_registered := r\<rparr>)"
  by (simp add: pm_frame_def)

lemma pm_delete_one:
  assumes "pm_core s" and "pm_valid s i"
  shows "\<exists>s'. pm_deleteExpiredModules lib i s = Inr s' \<and> pm_deleted {i} s s'"
proof -
  obtain mg where mg: "pm_getManager s i = Inr mg" using pm_getManager_ok [OF assms] by blast
  define s1 where "s1 = pm_call_void (sm_onExit (lb_class lib (pm_name s i))) i s"
  have frame: "pm_frame {i} s s1" and reg: "pm_registered s1 = pm_registered s"
    by (simp_all add: s1_def pm_call_void_frame)
  have r: "remove1 i (pm_registered s (pm_name s i)) = []"
    using pm_valid_registered [OF assms] by auto
  have eq: "mg_deleteModules lib i s = s1\<lparr>pm_registered := (pm_registered s)(pm_name s i := [])\<rparr>"
    by (simp add: mg_deleteModules_def s1_def [symmetric] reg r)
  have "pm_deleted {i} s (mg_deleteModules lib i s)"
    unfolding eq pm_deleted_def using pm_frame_with_registered [OF frame] by simp
  with mg show ?thesis by (simp add: pm_deleteExpiredModules_def)
qed

lemma pm_deleted_trans:
  assumes "pm_core s" and one: "pm_deleted D s s1" and two: "pm_deleted E s1 s2" and "\<forall>i \<in> E. pm_valid s i"
  shows "pm_deleted (D \<union> E) s s2"
proof -
  have frame: "pm_frame D s s1" using one by (simp add: pm_deleted_def)
  have "pm_name s1 ` E = pm_name s ` E"
    using pm_frame_valid(2) [OF frame assms(1)] assms(4) by (intro image_cong) simp_all
  then show ?thesis
    using one two pm_frame_trans [OF frame, of E s2] by (auto simp: pm_deleted_def)
qed

lemma pm_delete_all:
  assumes "pm_core s" and "\<forall>i \<in> set xs. pm_valid s i"
  shows "\<exists>s'. err_fold (pm_deleteExpiredModules lib) xs s = Inr s' \<and> pm_deleted (set xs) s s'"
  using assms
proof (induction xs arbitrary: s)
  case Nil
  then show ?case by (simp add: pm_deleted_def pm_frame_refl)
next
  case (Cons i xs)
  obtain s1 where s1: "pm_deleteExpiredModules lib i s = Inr s1" "pm_deleted {i} s s1"
    using pm_delete_one [OF Cons.prems(1), of i lib] Cons.prems(2) by auto
  have frame: "pm_frame {i} s s1" using s1(2) by (simp add: pm_deleted_def)
  have valid: "\<forall>j \<in> set xs. pm_valid s1 j"
    using pm_frame_valid(1) [OF frame Cons.prems(1)] Cons.prems(2) by auto
  obtain s2 where s2: "err_fold (pm_deleteExpiredModules lib) xs s1 = Inr s2" "pm_deleted (set xs) s1 s2"
    using Cons.IH [OF pm_deleted_core [OF s1(2) Cons.prems(1)] valid] by auto
  have "pm_deleted ({i} \<union> set xs) s s2"
    using Cons.prems(2) by (intro pm_deleted_trans [OF Cons.prems(1) s1(2) s2(2)]) simp
  with s1(1) s2(1) show ?case by (intro exI [of _ s2]) simp
qed

lemma pm_clear_ok:
  assumes "pm_core s" and "\<forall>i \<in> set (pm_candidates s). pm_valid s i"
  shows "\<exists>s1. pm_clearCandidateModules lib s = Inr (s1\<lparr>pm_candidates := []\<rparr>) \<and>
    pm_deleted (set (pm_candidates s)) s s1"
proof -
  obtain s1 where "err_fold (pm_deleteExpiredModules lib) (pm_candidates s) s = Inr s1" "pm_deleted (set (pm_candidates s)) s s1"
    using pm_delete_all [OF assms, of lib] by blast
  then show ?thesis by (intro exI [of _ s1]) (simp add: pm_clearCandidateModules_def)
qed

section \<open>Taking modules off the lists\<close>

text \<open>
  What the approved modules and the candidates can become when modules are run and removed: a prefix of the
  approved modules, some of the listed modules as candidates, and nothing changed in modules not listed.
\<close>

definition pm_shrinks :: "'m pm_state \<Rightarrow> 'm pm_state \<Rightarrow> bool" where
  "pm_shrinks s s' \<longleftrightarrow>
     pm_managers s' = pm_managers s \<and> (pm_root_lanelet s \<noteq> None \<longrightarrow> pm_root_lanelet s' \<noteq> None) \<and>
     pm_idling s' = pm_idling s \<and> map fst (pm_heap s') = map fst (pm_heap s) \<and>
     (\<exists>ys. pm_approved s = pm_approved s' @ ys) \<and> set (pm_candidates s') \<subseteq> pm_listed s \<and>
     distinct (pm_approved s' @ pm_candidates s') \<and>
     (\<forall>i \<in> pm_listed s'. pm_registered s' (pm_name s i) = pm_registered s (pm_name s i)) \<and>
     (\<forall>n. n \<notin> pm_name s ` pm_listed s \<longrightarrow> pm_registered s' n = pm_registered s n) \<and>
     (\<forall>n. pm_registered s' n = [] \<or> pm_registered s' n = pm_registered s n) \<and>
     (\<forall>i. i \<notin> pm_listed s \<longrightarrow> pm_heap s' ! i = pm_heap s ! i)"

lemma pm_same_names:
  assumes "map fst (pm_heap s') = map fst (pm_heap s)" and "i < length (pm_heap s)"
  shows "pm_name s' i = pm_name s i"
proof -
  have "length (pm_heap s') = length (pm_heap s)" using assms(1) by (metis length_map)
  then have "map fst (pm_heap s') ! i = pm_name s' i" "map fst (pm_heap s) ! i = pm_name s i"
    using assms(2) by (simp_all add: pm_name_def)
  with assms(1) show ?thesis by simp
qed

lemma pm_inv_listed:
  assumes "pm_inv s" and "i \<in> pm_listed s"
  shows "pm_valid s i" and "pm_registered s (pm_name s i) = [i]" and "i < length (pm_heap s)"
proof -
  have core: "pm_core s" and all: "\<forall>i \<in> pm_listed s. pm_valid s i \<and> pm_registered s (pm_name s i) = [i]"
    using assms(1) by (simp_all add: pm_inv_def)
  show v: "pm_valid s i" and "pm_registered s (pm_name s i) = [i]" using all assms(2) by simp_all
  show "i < length (pm_heap s)" by (rule pm_valid_less [OF core v])
qed

lemma pm_shrinks_listed:
  assumes "pm_shrinks s s'"
  shows "pm_listed s' \<subseteq> pm_listed s"
  using assms by (auto simp: pm_shrinks_def pm_listed_def)

lemma pm_shrinks_inv:
  assumes "pm_inv s" and "pm_shrinks s s'"
  shows "pm_inv s'"
proof -
  have core: "pm_core s" using assms(1) by (simp add: pm_inv_def)
  have names: "pm_name s' i = pm_name s i" if "i < length (pm_heap s)" for i
    using assms(2) that by (intro pm_same_names) (simp_all add: pm_shrinks_def)
  have len: "length (pm_heap s') = length (pm_heap s)"
    using assms(2) by (metis pm_shrinks_def length_map)
  have listed: "i \<in> pm_listed s" if "i \<in> pm_listed s'" for i
    using that pm_shrinks_listed [OF assms(2)] by auto
  have idle: "pm_idling s' = pm_idling s" and mgs: "pm_managers s' = pm_managers s"
    and reg: "\<forall>i \<in> pm_listed s'. pm_registered s' (pm_name s i) = pm_registered s (pm_name s i)"
    and regs: "\<forall>n. pm_registered s' n = [] \<or> pm_registered s' n = pm_registered s n"
    using assms(2) by (simp_all add: pm_shrinks_def)
  have "i < length (pm_heap s') \<and> pm_name s' i = n \<and> n \<in> mg_name ` set (pm_managers s')"
    if "pm_idling s' n = Some i" for n i
    using pm_core_idling [OF core, of n i] that names [of i] idle mgs len by simp
  moreover have "pm_registered s' n = [] \<or> (\<exists>i. pm_idling s' n = Some i \<and> pm_registered s' n = [i])" for n
    using core regs idle unfolding pm_core_def by metis
  ultimately have core': "pm_core s'"
    using core mgs by (simp add: pm_core_def)
  have "pm_valid s' i \<and> pm_registered s' (pm_name s' i) = [i]" if i: "i \<in> pm_listed s'" for i
    using pm_inv_listed [OF assms(1) listed [OF i]] names [of i] reg i idle by (simp add: pm_valid_def)
  moreover have "pm_simultaneous s' i \<or> pm_approved s' = [i]" if i: "i \<in> set (pm_approved s')" for i
  proof -
    obtain ys where ys: "pm_approved s = pm_approved s' @ ys" using assms(2) by (auto simp: pm_shrinks_def)
    with i have "i \<in> set (pm_approved s)" by simp
    then have or: "pm_simultaneous s i \<or> pm_approved s = [i]" and "i < length (pm_heap s)"
      using assms(1) pm_inv_listed(3) [OF assms(1), of i] by (auto simp: pm_inv_def pm_listed_def)
    have "pm_simultaneous s' i \<longleftrightarrow> pm_simultaneous s i"
      using names [OF \<open>i < length (pm_heap s)\<close>] mgs by (simp add: pm_simultaneous_def)
    moreover have "pm_approved s = [i] \<Longrightarrow> pm_approved s' = [i]"
      using ys i by (cases "pm_approved s'") auto
    ultimately show ?thesis using or by blast
  qed
  ultimately show ?thesis
    using core' assms(2) by (simp add: pm_inv_def pm_shrinks_def)
qed

lemma pm_shrinks_registered:
  "pm_shrinks s s' \<Longrightarrow> i \<in> pm_listed s' \<Longrightarrow> pm_registered s' (pm_name s i) = pm_registered s (pm_name s i)"
  by (simp add: pm_shrinks_def)

lemma pm_shrinks_others:
  "pm_shrinks s s' \<Longrightarrow> n \<notin> pm_name s ` pm_listed s \<Longrightarrow> pm_registered s' n = pm_registered s n"
  by (simp add: pm_shrinks_def)

lemma pm_shrinks_trans:
  assumes inv: "pm_inv s" and one: "pm_shrinks s s1" and two: "pm_shrinks s1 s2"
  shows "pm_shrinks s s2"
proof -
  have listed1: "pm_listed s1 \<subseteq> pm_listed s" and listed2: "pm_listed s2 \<subseteq> pm_listed s1"
    using pm_shrinks_listed one two by blast+
  have names: "pm_name s1 i = pm_name s i" if "i \<in> pm_listed s" for i
    using one pm_inv_listed(3) [OF inv that] by (intro pm_same_names) (simp_all add: pm_shrinks_def)
  have "pm_registered s2 (pm_name s i) = pm_registered s (pm_name s i)" if i: "i \<in> pm_listed s2" for i
  proof -
    have "i \<in> pm_listed s1" "i \<in> pm_listed s" using i listed1 listed2 by auto
    then show ?thesis
      using pm_shrinks_registered [OF two i] pm_shrinks_registered [OF one, of i] names [of i] by simp
  qed
  moreover have "pm_registered s2 n = pm_registered s n" if n: "n \<notin> pm_name s ` pm_listed s" for n
  proof -
    have "n \<notin> pm_name s1 ` pm_listed s1" using n names listed1 by force
    with pm_shrinks_others [OF two] pm_shrinks_others [OF one n] show ?thesis by simp
  qed
  moreover have "pm_heap s2 ! i = pm_heap s ! i" if "i \<notin> pm_listed s" for i
    using that listed1 one two by (auto simp: pm_shrinks_def)
  moreover have "set (pm_candidates s2) \<subseteq> pm_listed s"
    using two listed1 by (auto simp: pm_shrinks_def)
  moreover have "pm_registered s2 n = [] \<or> pm_registered s2 n = pm_registered s n" for n
    using one two unfolding pm_shrinks_def by metis
  moreover have "\<exists>ys. pm_approved s = pm_approved s2 @ ys"
    using one two by (auto simp: pm_shrinks_def)
  ultimately show ?thesis
    using one two by (simp add: pm_shrinks_def)
qed

text \<open>Running modules and then deleting others.\<close>

lemma pm_shrinks_removal:
  assumes inv: "pm_inv s" and frame: "pm_frame E s s1" "E \<subseteq> pm_listed s"
    and reg: "\<forall>n. pm_registered s1 n = (if n \<in> pm_name s ` D then [] else pm_registered s n)" "D \<subseteq> pm_listed s"
    and lists: "pm_approved s = P @ ys" "set C \<subseteq> pm_listed s" "distinct (P @ C)" "(set P \<union> set C) \<inter> D = {}"
    and s': "pm_managers s' = pm_managers s1" "pm_idling s' = pm_idling s1" "pm_heap s' = pm_heap s1"
      "pm_registered s' = pm_registered s1" "pm_approved s' = P" "pm_candidates s' = C"
      "pm_root_lanelet s1 \<noteq> None \<longrightarrow> pm_root_lanelet s' \<noteq> None"
  shows "pm_shrinks s s'"
proof -
  have "pm_name s i \<notin> pm_name s ` D" if "i \<in> set P \<union> set C" for i
  proof
    assume "pm_name s i \<in> pm_name s ` D"
    then obtain j where j: "j \<in> D" "pm_name s j = pm_name s i" by auto
    have "i \<in> pm_listed s" using that lists(1,2) by (auto simp: pm_listed_def)
    then have "j = i"
      using pm_valid_name_inj [OF pm_inv_listed(1) [OF inv] pm_inv_listed(1) [OF inv] j(2)] j(1) reg(2) by auto
    with j(1) that lists(4) show False by auto
  qed
  then show ?thesis
    using frame reg lists s' by (auto simp: pm_shrinks_def pm_frame_def pm_listed_def)
qed

section \<open>The approved modules\<close>

lemma pm_run_chain_frame:
  "pm_run_chain lib d is out results s = (results', s') \<Longrightarrow>
     pm_frame (set is) s s' \<and> pm_registered s' = pm_registered s \<and>
     (\<forall>n. map_of results n \<noteq> None \<longrightarrow> map_of results' n \<noteq> None)"
proof (induction "is" arbitrary: out results s)
  case (Cons i "is")
  obtain out1 s1 where run: "pm_run_module lib d out i s = (out1, s1)" by fastforce
  then have one: "pm_frame {i} s s1" "pm_registered s1 = pm_registered s"
    by (auto simp: pm_run_module_def dest: pm_call_frame)
  have rest: "pm_run_chain lib d is out1 (pm_emplace (pm_name s i) out1 results) s1 = (results', s')"
    using Cons.prems run by simp
  have keep: "map_of (pm_emplace (pm_name s i) out1 results) n \<noteq> None" if "map_of results n \<noteq> None" for n
    using that by (simp add: pm_emplace_def)
  show ?case
    using Cons.IH [OF rest] one pm_frame_trans [OF one(1), of "set is" s'] keep by simp
qed (simp add: pm_frame_refl)

lemma pm_shrinks_calls:
  assumes "pm_inv s" and "pm_frame E s s1" and "E \<subseteq> pm_listed s" and "pm_registered s1 = pm_registered s"
  shows "pm_shrinks s s1"
proof (rule pm_shrinks_removal [OF assms(1-3), where D = "{}" and P = "pm_approved s" and C = "pm_candidates s"])
  show "distinct (pm_approved s @ pm_candidates s)" using assms(1) by (simp add: pm_inv_def)
qed (use assms(2,4) in \<open>auto simp: pm_frame_def pm_listed_def\<close>)

lemma pm_shrinks_deleted:
  assumes inv: "pm_inv s" and del: "pm_deleted D s s1" "D \<subseteq> pm_listed s"
    and lists: "pm_approved s = P @ ys" "set C \<subseteq> pm_listed s" "distinct (P @ C)" "(set P \<union> set C) \<inter> D = {}"
    and s': "s' = s1\<lparr>pm_approved := P, pm_candidates := C\<rparr>"
  shows "pm_shrinks s s'"
proof (rule pm_shrinks_removal [OF inv _ del(2) _ del(2) lists])
  show "pm_frame D s s1" "\<forall>n. pm_registered s1 n = (if n \<in> pm_name s ` D then [] else pm_registered s n)"
    using del(1) by (simp_all add: pm_deleted_def)
qed (use s' in simp_all)

definition pm_leaked :: "'m pm_state \<Rightarrow> nat \<Rightarrow> bool" where
  "pm_leaked s i \<longleftrightarrow> pm_valid s i \<and> pm_registered s (pm_name s i) = [i] \<and> i \<notin> pm_listed s"

lemma pm_shrinks_leaked:
  assumes inv: "pm_inv s" and shr: "pm_shrinks s s'" and leak: "pm_leaked s i"
  shows "pm_leaked s' i \<and> pm_heap s' ! i = pm_heap s ! i"
proof -
  have v: "pm_valid s i" and r: "pm_registered s (pm_name s i) = [i]" and out: "i \<notin> pm_listed s"
    using leak by (simp_all add: pm_leaked_def)
  have "pm_core s" using inv by (simp add: pm_inv_def)
  then have "i < length (pm_heap s)" using v by (rule pm_valid_less)
  then have name: "pm_name s' i = pm_name s i"
    using shr by (intro pm_same_names) (simp_all add: pm_shrinks_def)
  have "pm_name s i \<notin> pm_name s ` pm_listed s"
  proof
    assume "pm_name s i \<in> pm_name s ` pm_listed s"
    then obtain j where "j \<in> pm_listed s" "pm_name s i = pm_name s j" by auto
    with pm_valid_name_inj [OF v pm_inv_listed(1) [OF inv]] out show False by auto
  qed
  with shr have "pm_registered s' (pm_name s i) = [i]" using r by (simp add: pm_shrinks_others)
  moreover have "i \<notin> pm_listed s'" using out pm_shrinks_listed [OF shr] by auto
  moreover have "pm_idling s' = pm_idling s" "pm_heap s' ! i = pm_heap s ! i"
    using shr out by (simp_all add: pm_shrinks_def)
  ultimately show ?thesis using v name by (simp add: pm_leaked_def pm_valid_def)
qed

text \<open>A module that is registered but in no list stays so, and is not run.\<close>

definition pm_keeps_leaks :: "'m pm_state \<Rightarrow> 'm pm_state \<Rightarrow> bool" where
  "pm_keeps_leaks s s' \<longleftrightarrow> (\<forall>i. pm_leaked s i \<longrightarrow> pm_leaked s' i \<and> pm_heap s' ! i = pm_heap s ! i)"

lemma pm_keeps_leaks_trans: "pm_keeps_leaks s s1 \<Longrightarrow> pm_keeps_leaks s1 s2 \<Longrightarrow> pm_keeps_leaks s s2"
  by (simp add: pm_keeps_leaks_def)

lemma pm_shrinks_keeps_leaks: "pm_inv s \<Longrightarrow> pm_shrinks s s' \<Longrightarrow> pm_keeps_leaks s s'"
  using pm_shrinks_leaked by (auto simp: pm_keeps_leaks_def)

lemma pm_candidates_valid: "pm_inv s \<Longrightarrow> \<forall>i \<in> set (pm_candidates s). pm_valid s i"
  using pm_inv_listed(1) by (auto simp: pm_listed_def)

lemma pm_inv_core: "pm_inv s \<Longrightarrow> pm_core s"
  by (simp add: pm_inv_def)

lemma pm_inv_disjoint: "pm_inv s \<Longrightarrow> set (pm_approved s) \<inter> set (pm_candidates s) = {}"
  by (simp add: pm_inv_def)

lemma pm_pop_waiting_ok:
  assumes inv: "pm_inv s"
  shows "\<exists>s'. pm_pop_waiting lib s = Inr s' \<and> pm_shrinks s s' \<and>
    pm_approved s' = takeWhile (\<lambda>i. \<not> pm_waiting s i) (pm_approved s) \<and>
    (\<forall>i \<in> set (pm_approved s). pm_heap s' ! i = pm_heap s ! i \<and> pm_registered s' (pm_name s i) = [i]) \<and>
    (\<forall>w rest. dropWhile (\<lambda>i. \<not> pm_waiting s i) (pm_approved s) = w # rest \<longrightarrow> pm_candidates s' = [w])"
proof (cases "dropWhile (\<lambda>i. \<not> pm_waiting s i) (pm_approved s)")
  case Nil
  then have tw: "takeWhile (\<lambda>i. \<not> pm_waiting s i) (pm_approved s) = pm_approved s"
    by (metis append_Nil2 takeWhile_dropWhile_id)
  have "pm_shrinks s s"
    using inv by (intro pm_shrinks_calls [of s "{}"]) (simp_all add: pm_frame_refl)
  moreover have "pm_pop_waiting lib s = Inr s" by (simp add: pm_pop_waiting_def Nil)
  moreover have "\<forall>i \<in> set (pm_approved s). pm_registered s (pm_name s i) = [i]"
    using pm_inv_listed(2) [OF inv] by (simp add: pm_listed_def)
  ultimately show ?thesis by (intro exI [of _ s]) (simp add: Nil tw)
next
  case (Cons w rest)
  define P where "P = takeWhile (\<lambda>i. \<not> pm_waiting s i) (pm_approved s)"
  obtain s1 where s1: "pm_clearCandidateModules lib s = Inr (s1\<lparr>pm_candidates := []\<rparr>)"
    "pm_deleted (set (pm_candidates s)) s s1"
    using pm_clear_ok [OF pm_inv_core [OF inv] pm_candidates_valid [OF inv], of lib] by blast
  have split: "pm_approved s = P @ w # rest"
    unfolding P_def by (metis Cons takeWhile_dropWhile_id)
  have dist: "distinct (P @ w # rest)" using inv by (auto simp: pm_inv_def split)
  have w: "w \<in> set (pm_approved s)" "w \<notin> set P" "set P \<subseteq> set (pm_approved s)"
    using dist by (auto simp: split)
  define s' where "s' = s1\<lparr>pm_candidates := [w], pm_approved := P\<rparr>"
  have run: "pm_pop_waiting lib s = Inr s'"
    using s1(1) by (simp add: pm_pop_waiting_def Cons s'_def P_def)
  have "pm_shrinks s s'"
  proof (rule pm_shrinks_deleted [OF inv s1(2) _ split])
    show "set [w] \<subseteq> pm_listed s" using w by (simp add: pm_listed_def)
    show "distinct (P @ [w])" using dist by simp
    show "(set P \<union> set [w]) \<inter> set (pm_candidates s) = {}"
      using pm_inv_disjoint [OF inv] w(1,3) by auto
  qed (simp_all add: s'_def pm_listed_def)
  moreover have "pm_heap s' ! i = pm_heap s ! i \<and> pm_registered s' (pm_name s i) = [i]"
    if i: "i \<in> set (pm_approved s)" for i
  proof -
    have listed: "i \<in> pm_listed s" using i by (simp add: pm_listed_def)
    have "pm_name s i \<notin> pm_name s ` set (pm_candidates s)"
    proof
      assume "pm_name s i \<in> pm_name s ` set (pm_candidates s)"
      then obtain j where "j \<in> set (pm_candidates s)" "pm_name s i = pm_name s j" by auto
      with pm_valid_name_inj [OF pm_inv_listed(1) [OF inv listed]] pm_candidates_valid [OF inv] i
        pm_inv_disjoint [OF inv] show False by blast
    qed
    moreover have "i \<notin> set (pm_candidates s)" using pm_inv_disjoint [OF inv] i by blast
    ultimately show ?thesis
      using s1(2) pm_inv_listed(2) [OF inv listed] by (simp add: s'_def pm_deleted_def pm_frame_def)
  qed
  ultimately show ?thesis
    using run by (intro exI [of _ s']) (simp add: s'_def Cons P_def)
qed

lemma pm_pop_failure_ok:
  assumes inv: "pm_inv s"
  shows "\<exists>s'. pm_pop_failure lib s = Inr s' \<and> pm_shrinks s s' \<and>
    pm_approved s' = takeWhile (\<lambda>i. pm_status s i \<noteq> ModuleStatus_FAILURE) (pm_approved s) \<and>
    (\<forall>i \<in> set (pm_approved s'). pm_heap s' ! i = pm_heap s ! i)"
proof -
  let ?ok = "\<lambda>i. pm_status s i \<noteq> ModuleStatus_FAILURE"
  define P where "P = takeWhile ?ok (pm_approved s)"
  define F where "F = dropWhile ?ok (pm_approved s)"
  have split: "pm_approved s = P @ F" by (simp add: P_def F_def)
  then have dist: "distinct (P @ F)" using inv by (auto simp: pm_inv_def)
  have sets: "set P \<union> set F = set (pm_approved s)" by (simp add: split)
  then have F: "set F \<subseteq> pm_listed s" unfolding pm_listed_def by blast
  have sep: "set P \<inter> set (pm_candidates s) = {}" "set F \<inter> set (pm_candidates s) = {}"
    using pm_inv_disjoint [OF inv] sets by blast+
  obtain s1 where s1: "err_fold (pm_deleteExpiredModules lib) F s = Inr s1" "pm_deleted (set F) s s1"
    using pm_delete_all [OF pm_inv_core [OF inv], of F lib] pm_inv_listed(1) [OF inv] F by blast
  have cand: "pm_candidates s1 = pm_candidates s" "pm_approved s1 = pm_approved s"
    using s1(2) by (simp_all add: pm_deleted_def pm_frame_def)
  have off: "pm_heap s1 ! i = pm_heap s ! i" if "i \<in> set P" for i
    using s1(2) that dist by (auto simp: pm_deleted_def pm_frame_def)
  show ?thesis
  proof (cases "F = []")
    case True
    define s' where "s' = s1\<lparr>pm_approved := P\<rparr>"
    have run: "pm_pop_failure lib s = Inr s'"
      using s1(1) unfolding pm_pop_failure_def Let_def P_def [symmetric] F_def [symmetric] True by (simp add: s'_def)
    have "pm_shrinks s s'"
    proof (rule pm_shrinks_deleted [OF inv s1(2) F split, where C = "pm_candidates s"])
      show "distinct (P @ pm_candidates s)" using inv dist sep(1) by (simp add: pm_inv_def)
    qed (use dist sep in \<open>auto simp: s'_def cand pm_listed_def\<close>)
    with run off show ?thesis unfolding P_def [symmetric] by (intro exI [of _ s']) (simp add: s'_def)
  next
    case False
    have valid1: "\<forall>i \<in> set (pm_candidates s1). pm_valid s1 i"
      using pm_frame_valid(1) [of "set F" s s1] s1(2) pm_inv_core [OF inv] pm_candidates_valid [OF inv]
      by (simp add: pm_deleted_def cand)
    obtain s2 where s2: "pm_clearCandidateModules lib s1 = Inr (s2\<lparr>pm_candidates := []\<rparr>)"
      "pm_deleted (set (pm_candidates s)) s1 s2"
      using pm_clear_ok [OF pm_deleted_core [OF s1(2) pm_inv_core [OF inv]] valid1, of lib] cand by auto
    have del: "pm_deleted (set F \<union> set (pm_candidates s)) s s2"
      by (rule pm_deleted_trans [OF pm_inv_core [OF inv] s1(2) s2(2) pm_candidates_valid [OF inv]])
    define s' where "s' = s2\<lparr>pm_approved := P, pm_candidates := []\<rparr>"
    have run: "pm_pop_failure lib s = Inr s'"
      using s1(1) s2(1) False unfolding pm_pop_failure_def Let_def P_def [symmetric] F_def [symmetric] by (simp add: s'_def)
    have "pm_shrinks s s'"
    proof (rule pm_shrinks_deleted [OF inv del _ split, where C = "[]"])
      show "set F \<union> set (pm_candidates s) \<subseteq> pm_listed s" using F by (simp add: pm_listed_def)
    qed (use dist sep in \<open>auto simp: s'_def\<close>)
    moreover have "pm_heap s' ! i = pm_heap s ! i" if "i \<in> set P" for i
      using s2(2) that off sep(1) by (auto simp: s'_def pm_deleted_def pm_frame_def)
    ultimately show ?thesis using run unfolding P_def [symmetric] by (intro exI [of _ s']) (simp add: s'_def)
  qed
qed

lemma pm_remove_finished_ok:
  assumes inv: "pm_inv s" and split: "pm_approved s = P @ F"
  shows "\<exists>s'. err_bind (err_fold (pm_deleteExpiredModules lib) F s)
      (\<lambda>s1. pm_clearCandidateModules lib (s1\<lparr>pm_approved := P\<rparr>)) = Inr s' \<and>
    pm_shrinks s s' \<and> (\<forall>i \<in> set (pm_approved s'). pm_heap s' ! i = pm_heap s ! i)"
proof -
  have dist: "distinct (P @ F)" using inv split by (auto simp: pm_inv_def)
  have F: "set F \<subseteq> pm_listed s" and P: "set P \<subseteq> set (pm_approved s)" using split by (auto simp: pm_listed_def)
  have sep: "set P \<inter> set (pm_candidates s) = {}" using pm_inv_disjoint [OF inv] P by blast
  obtain s1 where s1: "err_fold (pm_deleteExpiredModules lib) F s = Inr s1" "pm_deleted (set F) s s1"
    using pm_delete_all [OF pm_inv_core [OF inv], of F lib] pm_inv_listed(1) [OF inv] F by blast
  let ?s1 = "s1\<lparr>pm_approved := P\<rparr>"
  have cand: "pm_candidates ?s1 = pm_candidates s"
    using s1(2) by (simp add: pm_deleted_def pm_frame_def)
  have core1: "pm_core ?s1"
    using pm_deleted_core [OF s1(2) pm_inv_core [OF inv]] by (simp add: pm_core_def pm_name_def)
  have valid1: "\<forall>i \<in> set (pm_candidates ?s1). pm_valid ?s1 i"
    using pm_frame_valid(1) [of "set F" s s1] s1(2) pm_inv_core [OF inv] pm_candidates_valid [OF inv] cand
    by (simp add: pm_deleted_def pm_valid_def pm_name_def)
  obtain s2 where s2: "pm_clearCandidateModules lib ?s1 = Inr (s2\<lparr>pm_candidates := []\<rparr>)"
    "pm_deleted (set (pm_candidates s)) ?s1 s2"
    using pm_clear_ok [OF core1 valid1, of lib] cand by auto
  define s2' where "s2' = s2\<lparr>pm_approved := pm_approved s\<rparr>"
  have ap1: "pm_approved s1 = pm_approved s" using s1(2) by (simp add: pm_deleted_def pm_frame_def)
  have "pm_deleted (set (pm_candidates s)) s1 s2'"
    using s2(2) ap1 by (simp add: s2'_def pm_deleted_def pm_frame_def pm_name_def image_def)
  then have del: "pm_deleted (set F \<union> set (pm_candidates s)) s s2'"
    by (rule pm_deleted_trans [OF pm_inv_core [OF inv] s1(2) _ pm_candidates_valid [OF inv]])
  let ?s' = "s2\<lparr>pm_candidates := []\<rparr>"
  have ap2: "pm_approved s2 = P" using s2(2) by (simp add: pm_deleted_def pm_frame_def)
  have "pm_shrinks s ?s'"
  proof (rule pm_shrinks_deleted [OF inv del _ split, where C = "[]"])
    show "set F \<union> set (pm_candidates s) \<subseteq> pm_listed s" using F by (simp add: pm_listed_def)
  qed (use dist sep ap2 in \<open>auto simp: s2'_def\<close>)
  moreover have "pm_heap ?s' ! i = pm_heap s ! i" if "i \<in> set P" for i
    using del that dist sep by (auto simp: s2'_def pm_deleted_def pm_frame_def)
  ultimately show ?thesis using s1(1) s2(1) ap2 by (intro exI [of _ ?s']) simp
qed

lemma pm_shrinks_root: "pm_shrinks s s' \<Longrightarrow> pm_shrinks s (s'\<lparr>pm_root_lanelet := Some lane\<rparr>)"
  by (simp add: pm_shrinks_def pm_listed_def)

lemma pm_pop_success_ok:
  assumes inv: "pm_inv s"
  shows "\<exists>s'. pm_pop_success lib d s = Inr s' \<and> pm_shrinks s s' \<and>
    (\<forall>i \<in> set (pm_approved s'). pm_heap s' ! i = pm_heap s ! i)"
proof -
  let ?succ = "\<lambda>i. pm_status s i = ModuleStatus_SUCCESS"
  let ?F = "rev (takeWhile ?succ (rev (pm_approved s)))" and ?P = "rev (dropWhile ?succ (rev (pm_approved s)))"
  have "rev (pm_approved s) = takeWhile ?succ (rev (pm_approved s)) @ dropWhile ?succ (rev (pm_approved s))" by simp
  then have split: "pm_approved s = ?P @ ?F" by (metis rev_append rev_rev_ident)
  obtain s1 where s1: "err_bind (err_fold (pm_deleteExpiredModules lib) ?F s)
      (\<lambda>s1. pm_clearCandidateModules lib (s1\<lparr>pm_approved := ?P\<rparr>)) = Inr s1"
    "pm_shrinks s s1" "\<forall>i \<in> set (pm_approved s1). pm_heap s1 ! i = pm_heap s ! i"
    using pm_remove_finished_ok [OF inv split, of lib] by blast
  have same: "pm_shrinks s s"
    using inv by (intro pm_shrinks_calls [of s "{}"]) (simp_all add: pm_frame_refl)
  show ?thesis
    using s1 same pm_shrinks_root [OF s1(2)]
    unfolding pm_pop_success_def Let_def s1(1) by (auto split del: if_split) (auto split: if_splits)
qed

text \<open>
  Running the approved modules never throws; those that stay are neither waiting for approval nor failed.  When a
  module waits, all modules behind it stay registered with their managers although they are in no list.
\<close>

lemma pm_runApprovedModules_ok:
  assumes inv: "pm_inv s" and root: "pm_root_lanelet s = Some lane"
  shows "\<exists>out s'. pm_runApprovedModules lib d s = Inr (out, s') \<and> pm_shrinks s s' \<and>
    (\<forall>i \<in> set (pm_approved s'). \<not> pm_waiting s' i \<and> pm_status s' i \<noteq> ModuleStatus_FAILURE) \<and>
    (\<forall>results s1 s2. pm_run_chain lib d (pm_approved s) (lb_reference_path lib d lane)
         [(''root'', lb_reference_path lib d lane)] s = (results, s1) \<and> pm_pop_waiting lib s1 = Inr s2 \<longrightarrow>
       pm_keeps_leaks s2 s')"
proof -
  let ?out = "lb_reference_path lib d lane"
  obtain results s1 where chain: "pm_run_chain lib d (pm_approved s) ?out [(''root'', ?out)] s = (results, s1)"
    by fastforce
  note frame = pm_run_chain_frame [OF chain]
  have one: "pm_shrinks s s1"
    using frame by (intro pm_shrinks_calls [OF inv, of "set (pm_approved s)"]) (simp_all add: pm_listed_def)
  note inv1 = pm_shrinks_inv [OF inv one]
  obtain s2 where s2: "pm_pop_waiting lib s1 = Inr s2" "pm_shrinks s1 s2"
    "pm_approved s2 = takeWhile (\<lambda>i. \<not> pm_waiting s1 i) (pm_approved s1)"
    "\<forall>i \<in> set (pm_approved s1). pm_heap s2 ! i = pm_heap s1 ! i"
    using pm_pop_waiting_ok [OF inv1, of lib] by blast
  note inv2 = pm_shrinks_inv [OF inv1 s2(2)]
  have wait2: "\<not> pm_waiting s2 i" if "i \<in> set (pm_approved s2)" for i
    using that s2(3,4) by (auto simp: pm_module_def dest!: set_takeWhileD)
  obtain s3 where s3: "pm_pop_failure lib s2 = Inr s3" "pm_shrinks s2 s3"
    "pm_approved s3 = takeWhile (\<lambda>i. pm_status s2 i \<noteq> ModuleStatus_FAILURE) (pm_approved s2)"
    "\<forall>i \<in> set (pm_approved s3). pm_heap s3 ! i = pm_heap s2 ! i"
    using pm_pop_failure_ok [OF inv2, of lib] by blast
  note inv3 = pm_shrinks_inv [OF inv2 s3(2)]
  have good3: "\<not> pm_waiting s3 i \<and> pm_status s3 i \<noteq> ModuleStatus_FAILURE" if i: "i \<in> set (pm_approved s3)" for i
  proof -
    have "i \<in> set (pm_approved s2)" "pm_status s2 i \<noteq> ModuleStatus_FAILURE"
      using i set_takeWhileD [of i "\<lambda>i. pm_status s2 i \<noteq> ModuleStatus_FAILURE" "pm_approved s2"] s3(3) by simp_all
    with wait2 s3(4) i show ?thesis by (simp add: pm_module_def)
  qed
  have all3: "pm_shrinks s s3"
    by (rule pm_shrinks_trans [OF inv one pm_shrinks_trans [OF inv1 s2(2) s3(2)]])
  obtain s4 where s4: "pm_pop_success lib d s3 = Inr s4" "pm_shrinks s3 s4"
    "\<forall>i \<in> set (pm_approved s4). pm_heap s4 ! i = pm_heap s3 ! i"
    using pm_pop_success_ok [OF inv3, of lib d] by blast
  have good4: "\<not> pm_waiting s4 i \<and> pm_status s4 i \<noteq> ModuleStatus_FAILURE" if i: "i \<in> set (pm_approved s4)" for i
  proof -
    have "i \<in> set (pm_approved s3)" using i s4(2) by (auto simp: pm_shrinks_def)
    with good3 [of i] s4(3) i show ?thesis by (simp add: pm_module_def)
  qed
  have "map_of results ''root'' \<noteq> None" using frame by simp
  then obtain o1 where o1: "pm_at results ''root'' = Inr o1" by (auto simp: pm_at_def)
  show ?thesis
  proof (cases "pm_approved s3 = []")
    case True
    then have "pm_runApprovedModules lib d s = Inr (o1, s3)"
      by (simp add: pm_runApprovedModules_def root Let_def chain s2(1) s3(1) o1)
    with all3 good3 chain s2(1) pm_shrinks_keeps_leaks [OF inv2 s3(2)] show ?thesis
      by (intro exI [of _ o1] exI [of _ s3]) auto
  next
    case False
    obtain o2 where "(if map_of results (pm_name s3 (last (pm_approved s3))) = None then pm_at results ''root''
        else pm_at results (pm_name s3 (last (pm_approved s3)))) = Inr o2"
      using o1 by (cases "map_of results (pm_name s3 (last (pm_approved s3)))") (auto simp: pm_at_def)
    then have "pm_runApprovedModules lib d s = Inr (o2, s4)"
      using False by (simp add: pm_runApprovedModules_def root Let_def chain s2(1) s3(1) s4(1))
    with pm_shrinks_trans [OF inv all3 s4(2)] good4 chain s2(1)
      pm_keeps_leaks_trans [OF pm_shrinks_keeps_leaks [OF inv2 s3(2)] pm_shrinks_keeps_leaks [OF inv3 s4(2)]]
    show ?thesis by (intro exI [of _ o2] exI [of _ s4]) auto
  qed
qed

section \<open>Requests\<close>

text \<open>Asking for requests creates idling modules and calls modules that are not registered.\<close>

definition pm_extends :: "'m pm_state \<Rightarrow> 'm pm_state \<Rightarrow> bool" where
  "pm_extends s s' \<longleftrightarrow>
     pm_managers s' = pm_managers s \<and> pm_root_lanelet s' = pm_root_lanelet s \<and>
     pm_approved s' = pm_approved s \<and> pm_candidates s' = pm_candidates s \<and> pm_registered s' = pm_registered s \<and>
     (\<forall>n i. pm_idling s n = Some i \<longrightarrow> pm_idling s' n = Some i) \<and>
     (\<exists>ns. map fst (pm_heap s') = map fst (pm_heap s) @ ns) \<and>
     (\<forall>i < length (pm_heap s). pm_registered s (pm_name s i) \<noteq> [] \<longrightarrow> pm_heap s' ! i = pm_heap s ! i)"

lemma pm_extends_name:
  assumes "pm_extends s s'" and "i < length (pm_heap s)"
  shows "pm_name s' i = pm_name s i" and "i < length (pm_heap s')"
proof -
  obtain ns where ns: "map fst (pm_heap s') = map fst (pm_heap s) @ ns"
    using assms(1) by (auto simp: pm_extends_def)
  have "length (pm_heap s') = length (pm_heap s) + length ns" using ns by (metis length_append length_map)
  with assms(2) show less: "i < length (pm_heap s')" by simp
  then have "map fst (pm_heap s') ! i = pm_name s' i" "map fst (pm_heap s) ! i = pm_name s i"
    using assms(2) by (simp_all add: pm_name_def)
  with ns assms(2) show "pm_name s' i = pm_name s i" by (simp add: nth_append)
qed

lemma pm_extends_refl: "pm_extends s s"
  by (simp add: pm_extends_def)

lemma pm_extends_trans:
  assumes "pm_extends s s1" and "pm_extends s1 s2"
  shows "pm_extends s s2"
proof -
  have "pm_heap s2 ! i = pm_heap s ! i" if "i < length (pm_heap s)" "pm_registered s (pm_name s i) \<noteq> []" for i
    using that assms pm_extends_name [OF assms(1) that(1)] by (simp add: pm_extends_def)
  moreover have "\<exists>ns. map fst (pm_heap s2) = map fst (pm_heap s) @ ns"
    using assms by (auto simp: pm_extends_def)
  ultimately show ?thesis using assms by (simp add: pm_extends_def)
qed

lemma pm_extends_inv:
  assumes "pm_inv s" and "pm_extends s s'" and "pm_core s'"
  shows "pm_inv s'"
proof -
  have listed: "pm_listed s' = pm_listed s" using assms(2) by (simp add: pm_extends_def pm_listed_def)
  have "pm_valid s' i \<and> pm_registered s' (pm_name s' i) = [i]" if "i \<in> pm_listed s" for i
    using pm_inv_listed [OF assms(1) that] pm_extends_name [OF assms(2), of i] assms(2)
    by (simp add: pm_extends_def pm_valid_def)
  moreover have "pm_simultaneous s' i = pm_simultaneous s i" if "i \<in> pm_listed s" for i
    using pm_inv_listed(3) [OF assms(1) that] pm_extends_name [OF assms(2), of i] assms(2)
    by (simp add: pm_extends_def pm_simultaneous_def)
  ultimately show ?thesis
    using assms by (simp add: pm_inv_def listed) (simp add: pm_extends_def pm_listed_def)
qed

lemma pm_extends_leaked:
  assumes "pm_core s" and "pm_extends s s'" and "pm_leaked s i"
  shows "pm_leaked s' i \<and> pm_heap s' ! i = pm_heap s ! i"
proof -
  have less: "i < length (pm_heap s)"
    using assms(3) pm_valid_less [OF assms(1)] by (simp add: pm_leaked_def)
  then show ?thesis
    using assms(2,3) pm_extends_name [OF assms(2) less]
    by (simp add: pm_leaked_def pm_extends_def pm_listed_def pm_valid_def)
qed

definition pm_requestable :: "'m pm_state \<Rightarrow> string set \<Rightarrow> nat list \<Rightarrow> bool" where
  "pm_requestable s names req \<longleftrightarrow> distinct req \<and>
     (\<forall>r \<in> set req. pm_valid s r \<and> pm_name s r \<in> names \<and> r \<notin> set (pm_approved s) \<and>
        (r \<in> set (pm_candidates s) \<or> pm_registered s (pm_name s r) = []) \<and>
        (pm_approved s \<noteq> [] \<longrightarrow> pm_simultaneous s r))"

lemma pm_requestable_extends:
  assumes "pm_core s" and "pm_extends s s'" and "pm_requestable s names req"
  shows "pm_requestable s' names req"
proof -
  have "pm_valid s' r \<and> pm_name s' r = pm_name s r" if "r \<in> set req" for r
  proof -
    have "pm_valid s r" using assms(3) that by (simp add: pm_requestable_def)
    with pm_extends_name [OF assms(2) pm_valid_less [OF assms(1) this]] assms(2) show ?thesis
      by (simp add: pm_valid_def pm_extends_def)
  qed
  then show ?thesis
    using assms(2,3) by (simp add: pm_requestable_def pm_extends_def pm_simultaneous_def)
qed

lemma pm_requestable_add:
  assumes "pm_requestable s names req" and "n \<notin> names" and "pm_name s r = n"
    and "pm_requestable s {n} [r]"
  shows "pm_requestable s (insert n names) (req @ [r])" and "pm_requestable s (insert n names) req"
    and "pm_requestable s (insert n names) [r]"
proof -
  have "r \<notin> set req" using assms(1,2,3) by (auto simp: pm_requestable_def)
  with assms show "pm_requestable s (insert n names) (req @ [r])" by (auto simp: pm_requestable_def)
  show "pm_requestable s (insert n names) req" "pm_requestable s (insert n names) [r]"
    using assms by (auto simp: pm_requestable_def)
qed

lemma pm_getNewModule_all:
  assumes core: "pm_core s" and mg: "mg \<in> set (pm_managers s)" and new: "mg_getNewModule lib (mg_name mg) s = (i, s')"
  shows "pm_extends s s' \<and> pm_core s' \<and> pm_valid s' i \<and> pm_name s' i = mg_name mg \<and> pm_idling s' (mg_name mg) \<noteq> None"
proof (cases "pm_idling s (mg_name mg)")
  case (Some j)
  then have "s' = s" "i = j" using new by (auto simp: mg_getNewModule_def)
  then show ?thesis
    using Some core pm_core_idling [OF core Some] by (simp add: pm_extends_refl pm_valid_def)
next
  case None
  let ?n = "mg_name mg"
  have i: "i = length (pm_heap s)"
    and s': "s' = s\<lparr>pm_heap := pm_heap s @ [(?n, sm_new (lb_class lib ?n) (lb_uuid lib i))], pm_idling := (pm_idling s)(?n := Some i)\<rparr>"
    using new None by (auto simp: mg_getNewModule_def Let_def)
  have ext: "pm_extends s s'"
    using None by (auto simp: pm_extends_def s' nth_append)
  have name: "pm_name s' i = ?n" by (simp add: pm_name_def s' i)
  have reg: "pm_registered s ?n = []" using core None by (auto simp: pm_core_def)
  have "j < length (pm_heap s') \<and> pm_name s' j = n \<and> n \<in> mg_name ` set (pm_managers s')"
    if j: "pm_idling s' n = Some j" for n j
  proof (cases "n = ?n")
    case True
    then show ?thesis using j name mg by (auto simp: s' i)
  next
    case False
    then have "pm_idling s n = Some j" using j by (simp add: s')
    from pm_core_idling [OF core this] show ?thesis
      using pm_extends_name [OF ext, of j] by (simp add: s')
  qed
  moreover have "pm_registered s' n = [] \<or> (\<exists>j. pm_idling s' n = Some j \<and> pm_registered s' n = [j])" for n
    using core reg by (auto simp: pm_core_def s')
  ultimately have "pm_core s'" using core by (simp add: pm_core_def s')
  then show ?thesis
    using ext name by (simp add: pm_valid_def s' i)
qed

lemma pm_getNewModule_ok:
  assumes "pm_core s" and "mg \<in> set (pm_managers s)" and "mg_getNewModule lib (mg_name mg) s = (i, s')"
  shows "pm_extends s s'" and "pm_core s'" and "pm_valid s' i" and "pm_name s' i = mg_name mg"
    and "pm_idling s' (mg_name mg) \<noteq> None"
  using pm_getNewModule_all [OF assms] by blast+

lemma pm_isExecutionRequested_ok:
  assumes core: "pm_core s" and v: "pm_valid s i" and reg: "pm_registered s (pm_name s i) = []"
    and call: "mg_isExecutionRequested lib d prev i s = (b, s')"
  shows "pm_extends s s'" and "pm_core s'" and "pm_idling s' = pm_idling s"
proof -
  note frame = pm_call_frame [OF call [unfolded mg_isExecutionRequested_def Let_def]]
  show "pm_core s'" by (rule pm_frame_core [OF frame(1) core]) (simp add: frame(2))
  show "pm_extends s s'" using frame reg by (auto simp: pm_extends_def pm_frame_def)
  show "pm_idling s' = pm_idling s" using frame by (simp add: pm_frame_def)
qed

lemma pm_launch_ok:
  assumes inv: "pm_inv s" and mg: "mg \<in> set (pm_managers s)" and free: "\<not> (\<exists>i \<in> set (pm_candidates s). pm_name s i = mg_name mg)"
    and sim: "pm_approved s \<noteq> [] \<longrightarrow> mg_simultaneous_as_approved mg"
    and req: "pm_requestable s names req" "mg_name mg \<notin> names"
    and run: "pm_launch lib d prev mg req s = (req', s')"
  shows "pm_extends s s' \<and> pm_core s' \<and> pm_requestable s' (insert (mg_name mg) names) req' \<and>
    (pm_registered s (mg_name mg) = [] \<longrightarrow> pm_idling s' (mg_name mg) \<noteq> None)"
proof -
  note core = pm_inv_core [OF inv]
  have max: "mg_max_module_num mg = 1" using core mg by (simp add: pm_core_def)
  show ?thesis
  proof (cases "pm_registered s (mg_name mg) = []")
    case False
    then have "req' = req" "s' = s" using run max by (auto simp: pm_launch_def mg_canLaunchNewModule_def)
    moreover have "pm_requestable s (insert (mg_name mg) names) req" using req(1) by (auto simp: pm_requestable_def)
    ultimately show ?thesis using False core by (simp add: pm_extends_refl)
  next
    case True
    obtain i s1 where new: "mg_getNewModule lib (mg_name mg) s = (i, s1)" by fastforce
    note new' = pm_getNewModule_ok [OF core mg new]
    obtain b s2 where asked: "mg_isExecutionRequested lib d prev i s1 = (b, s2)" by fastforce
    have reg1: "pm_registered s1 (pm_name s1 i) = []"
      using True new'(1,4) by (simp add: pm_extends_def)
    note asked' = pm_isExecutionRequested_ok [OF new'(2,3) reg1 asked]
    have s': "s' = s2" "req' = (if b then req @ [i] else req)"
      using run True max by (auto simp: pm_launch_def mg_canLaunchNewModule_def new asked)
    have ext: "pm_extends s s2" by (rule pm_extends_trans [OF new'(1) asked'(1)])
    have name: "pm_name s2 i = mg_name mg"
      using pm_extends_name [OF asked'(1) pm_valid_less [OF new'(2,3)]] new'(4) by simp
    have valid: "pm_valid s2 i" using new'(3) asked'(3) name new'(4) by (simp add: pm_valid_def)
    have reg2: "pm_registered s2 (mg_name mg) = []" using True ext by (simp add: pm_extends_def)
    have inv2: "pm_inv s2" by (rule pm_extends_inv [OF inv ext asked'(2)])
    have "i \<notin> set (pm_approved s2)"
      using pm_inv_listed(2) [OF inv2, of i] reg2 name by (auto simp: pm_listed_def)
    moreover have "pm_simultaneous s2 i" if "pm_approved s2 \<noteq> []"
    proof -
      have ap: "pm_approved s2 = pm_approved s" and mgs: "pm_managers s2 = pm_managers s"
        using ext by (simp_all add: pm_extends_def)
      have "mg' = mg" if "mg' \<in> set (pm_managers s)" "mg_name mg' = mg_name mg" for mg'
        using core mg that by (auto simp: pm_core_def distinct_map inj_on_def)
      with that sim ap mgs name show ?thesis by (auto simp: pm_simultaneous_def)
    qed
    ultimately have one: "pm_requestable s2 {mg_name mg} [i]"
      using valid name reg2 by (simp add: pm_requestable_def)
    note add = pm_requestable_add [OF pm_requestable_extends [OF core ext req(1)] req(2) name one]
    have "pm_idling s2 (mg_name mg) \<noteq> None" using new'(5) asked'(3) by simp
    with ext asked'(2) add show ?thesis by (simp add: s')
  qed
qed

lemma pm_request_turn_ok:
  assumes inv: "pm_inv s" and mg: "mg \<in> set (pm_managers s)"
    and req: "pm_requestable s names req" "mg_name mg \<notin> names"
    and run: "pm_request_turn lib d prev mg req s = (locked, req', s')"
  shows "pm_extends s s' \<and> pm_core s' \<and> pm_requestable s' (insert (mg_name mg) names) req' \<and>
    (pm_listed s = {} \<and> pm_registered s (mg_name mg) = [] \<longrightarrow> \<not> locked \<and> pm_idling s' (mg_name mg) \<noteq> None)"
proof -
  note core = pm_inv_core [OF inv]
  have keep: "pm_requestable s (insert (mg_name mg) names) req"
    using req(1) by (auto simp: pm_requestable_def)
  have single: "pm_requestable s {mg_name mg} [c]"
    if c: "c \<in> set (pm_candidates s)" "pm_name s c = mg_name mg"
      and sim: "pm_approved s \<noteq> [] \<longrightarrow> mg_simultaneous_as_approved mg" for c
  proof -
    have "c \<in> pm_listed s" "c \<notin> set (pm_approved s)"
      using c(1) pm_inv_disjoint [OF inv] by (auto simp: pm_listed_def)
    moreover have "mg' = mg" if "mg' \<in> set (pm_managers s)" "mg_name mg' = mg_name mg" for mg'
      using core mg that by (auto simp: pm_core_def distinct_map inj_on_def)
    then have "pm_approved s \<noteq> [] \<longrightarrow> pm_simultaneous s c"
      using sim c(2) by (auto simp: pm_simultaneous_def)
    ultimately show ?thesis
      using c pm_inv_listed(1) [OF inv] by (simp add: pm_requestable_def)
  qed
  show ?thesis
  proof (cases "pm_approved s \<noteq> [] \<and> \<not> mg_simultaneous_as_approved mg")
    case True
    then have "locked = False \<and> req' = req \<and> s' = s" using run by (auto simp: pm_request_turn_def)
    with keep core True show ?thesis by (simp add: pm_extends_refl pm_listed_def)
  next
    case False
    then have sim: "pm_approved s \<noteq> [] \<longrightarrow> mg_simultaneous_as_approved mg" by blast
    show ?thesis
    proof (cases "find (\<lambda>i. pm_name s i = mg_name mg) (pm_candidates s)")
      case None
      then have free: "\<not> (\<exists>i \<in> set (pm_candidates s). pm_name s i = mg_name mg)"
        by (auto simp: find_None_iff)
      have unlocked: "locked = False" and launch: "pm_launch lib d prev mg req s = (req', s')"
        using run False None by (auto simp: pm_request_turn_def)
      show ?thesis using pm_launch_ok [OF inv mg free sim req launch] unlocked by simp
    next
      case (Some c)
      then have c: "c \<in> set (pm_candidates s)" "pm_name s c = mg_name mg"
        by (auto simp: find_Some_iff)
      then have ne: "pm_listed s \<noteq> {}" by (auto simp: pm_listed_def)
      show ?thesis
      proof (cases "find (\<lambda>i. pm_name s i = mg_name mg \<and> sm_is_locked_new_module_launch (pm_module s i)) (pm_candidates s)")
        case None
        then have "req' = req @ [c]" "s' = s"
          using run False Some by (auto simp: pm_request_turn_def)
        with pm_requestable_add(1) [OF req c(2) single [OF c sim]] core ne show ?thesis
          by (simp add: pm_extends_refl)
      next
        case (Some i)
        then have i: "i \<in> set (pm_candidates s)" "pm_name s i = mg_name mg"
          by (auto simp: find_Some_iff)
        have "req' = [i]" "s' = s"
          using run False Some \<open>find (\<lambda>i. pm_name s i = mg_name mg) (pm_candidates s) = Some c\<close>
          by (auto simp: pm_request_turn_def)
        with pm_requestable_add(3) [OF req i(2) single [OF i sim]] core ne show ?thesis
          by (simp add: pm_extends_refl)
      qed
    qed
  qed
qed

lemma pm_request_loop_ok:
  assumes "pm_inv s" and "set mgs \<subseteq> set (pm_managers s)" and "distinct (map mg_name mgs)"
    and "pm_requestable s names req" and "names \<inter> mg_name ` set mgs = {}"
    and "pm_request_loop lib d prev mgs req s = (req', s')"
  shows "pm_extends s s' \<and> pm_core s' \<and> pm_requestable s' (names \<union> mg_name ` set mgs) req' \<and>
    (pm_listed s = {} \<and> (\<forall>n. pm_registered s n = []) \<longrightarrow> (\<forall>mg \<in> set mgs. pm_idling s' (mg_name mg) \<noteq> None))"
  using assms
proof (induction mgs arbitrary: names req s)
  case Nil
  then show ?case by (simp add: pm_extends_refl pm_inv_def)
next
  case (Cons mg mgs)
  obtain locked req1 s1 where turn: "pm_request_turn lib d prev mg req s = (locked, req1, s1)"
    by (cases "pm_request_turn lib d prev mg req s") auto
  have mg: "mg \<in> set (pm_managers s)" "mg_name mg \<notin> names" using Cons.prems(2,5) by auto
  note one = pm_request_turn_ok [OF Cons.prems(1) mg(1) Cons.prems(4) mg(2) turn]
  then have ext: "pm_extends s s1" and core1: "pm_core s1"
    and req1: "pm_requestable s1 (insert (mg_name mg) names) req1" by blast+
  show ?case
  proof (cases locked)
    case True
    then have "req' = req1" "s' = s1" using Cons.prems(6) turn by simp_all
    moreover have "pm_requestable s1 (names \<union> mg_name ` set (mg # mgs)) req1"
      using req1 by (auto simp: pm_requestable_def)
    moreover have "\<not> (pm_listed s = {} \<and> (\<forall>n. pm_registered s n = []))" using one True by blast
    ultimately show ?thesis using ext core1 by blast
  next
    case False
    have inv1: "pm_inv s1" by (rule pm_extends_inv [OF Cons.prems(1) ext core1])
    have mgs: "set mgs \<subseteq> set (pm_managers s1)" "distinct (map mg_name mgs)"
      "insert (mg_name mg) names \<inter> mg_name ` set mgs = {}"
      using Cons.prems(2,3,5) ext by (auto simp: pm_extends_def)
    have run1: "pm_request_loop lib d prev mgs req1 s1 = (req', s')"
      using Cons.prems(6) turn False by simp
    note rest = Cons.IH [OF inv1 mgs(1,2) req1 mgs(3) run1]
    have "pm_extends s s'" using pm_extends_trans [OF ext] rest by blast
    moreover have "pm_requestable s' (names \<union> mg_name ` set (mg # mgs)) req'" using rest by simp
    moreover have "\<forall>m \<in> set (mg # mgs). pm_idling s' (mg_name m) \<noteq> None"
      if clear: "pm_listed s = {}" "\<forall>n. pm_registered s n = []"
    proof -
      have "pm_listed s1 = {}" "\<forall>n. pm_registered s1 n = []"
        using clear ext by (simp_all add: pm_extends_def pm_listed_def)
      then have "\<forall>m \<in> set mgs. pm_idling s' (mg_name m) \<noteq> None" using rest by blast
      moreover have "pm_idling s1 (mg_name mg) \<noteq> None" using one clear by blast
      then have "pm_idling s' (mg_name mg) \<noteq> None" using rest by (auto simp: pm_extends_def)
      ultimately show ?thesis by simp
    qed
    ultimately show ?thesis using rest by blast
  qed
qed

text \<open>
  The requests: valid modules that are not approved, all from different managers; and when modules have been approved
  already all of them, and those requested, may run simultaneously.
\<close>

lemma pm_any_blocks_ok:
  assumes "pm_core s" and "\<forall>i \<in> set is. pm_valid s i"
  shows "\<exists>b. pm_any_blocks s is = Inr b \<and> (\<not> b \<longrightarrow> (\<forall>i \<in> set is. pm_simultaneous s i))"
  using assms(2)
proof (induction "is")
  case (Cons i "is")
  obtain mg where mg: "pm_getManager s i = Inr mg" "mg \<in> set (pm_managers s)" "mg_name mg = pm_name s i"
    using pm_getManager_ok [OF assms(1)] Cons.prems by auto
  have "pm_simultaneous s i" if "mg_simultaneous_as_approved mg"
  proof -
    have "mg' = mg" if "mg' \<in> set (pm_managers s)" "mg_name mg' = pm_name s i" for mg'
      using assms(1) mg that by (auto simp: pm_core_def distinct_map inj_on_def)
    with that show ?thesis by (auto simp: pm_simultaneous_def)
  qed
  with Cons mg show ?case by auto
qed (simp add: exI [of _ False])

definition pm_all_simultaneous :: "'m pm_state \<Rightarrow> nat list \<Rightarrow> bool" where
  "pm_all_simultaneous s req \<longleftrightarrow> pm_approved s = [] \<or> (\<forall>i \<in> set (pm_approved s) \<union> set req. pm_simultaneous s i)"

lemma pm_getRequestModules_ok:
  assumes inv: "pm_inv s"
  shows "\<exists>req s'. pm_getRequestModules lib d prev s = Inr (req, s') \<and> pm_extends s s' \<and> pm_inv s' \<and>
    pm_requestable s' UNIV req \<and> (req \<noteq> [] \<longrightarrow> pm_all_simultaneous s' req) \<and>
    (pm_listed s = {} \<and> (\<forall>n. pm_registered s n = []) \<longrightarrow> (\<forall>mg \<in> set (pm_managers s'). pm_idling s' (mg_name mg) \<noteq> None))"
proof -
  note core = pm_inv_core [OF inv]
  obtain b where b: "pm_any_blocks s (pm_approved s) = Inr b" "\<not> b \<longrightarrow> (\<forall>i \<in> set (pm_approved s). pm_simultaneous s i)"
    using pm_any_blocks_ok [OF core, of "pm_approved s"] pm_inv_listed(1) [OF inv] by (auto simp: pm_listed_def)
  show ?thesis
  proof (cases b)
    case True
    then have "pm_approved s \<noteq> []" using b(1) by auto
    then show ?thesis
      using True b inv by (intro exI [of _ "[]"] exI [of _ s])
        (simp add: pm_getRequestModules_def pm_extends_refl pm_requestable_def pm_listed_def)
  next
    case False
    obtain req s' where run: "pm_request_loop lib d prev (pm_managers s) [] s = (req, s')" by fastforce
    have dist: "distinct (map mg_name (pm_managers s))" using core by (simp add: pm_core_def)
    have none: "pm_requestable s {} []" by (simp add: pm_requestable_def)
    have ok: "pm_extends s s' \<and> pm_core s' \<and> pm_requestable s' ({} \<union> mg_name ` set (pm_managers s)) req \<and>
      (pm_listed s = {} \<and> (\<forall>n. pm_registered s n = []) \<longrightarrow> (\<forall>mg \<in> set (pm_managers s). pm_idling s' (mg_name mg) \<noteq> None))"
      using run by (intro pm_request_loop_ok [OF inv _ dist none]) simp_all
    then have ext: "pm_extends s s'" and core': "pm_core s'" by blast+
    have inv': "pm_inv s'" by (rule pm_extends_inv [OF inv ext core'])
    have req: "pm_requestable s' UNIV req" using ok by (simp add: pm_requestable_def)
    have "pm_simultaneous s' i" if "i \<in> set (pm_approved s)" for i
      using b(2) False that pm_extends_name [OF ext pm_inv_listed(3) [OF inv, of i]] ext
      by (simp add: pm_simultaneous_def pm_extends_def pm_listed_def)
    then have "pm_all_simultaneous s' req"
      using req ext by (auto simp: pm_all_simultaneous_def pm_requestable_def pm_extends_def)
    moreover have "pm_getRequestModules lib d prev s = Inr (req, s')"
      using b(1) False run by (simp add: pm_getRequestModules_def)
    moreover have "pm_managers s' = pm_managers s" using ext by (simp add: pm_extends_def)
    ultimately show ?thesis using ok ext inv' req by auto
  qed
qed

section \<open>Running candidates\<close>

text \<open>What is used of \<open>std::sort\<close>: it permutes the modules into an order of their priorities.\<close>

locale module_sort =
  fixes srt :: "(nat \<Rightarrow> nat) \<Rightarrow> nat list \<Rightarrow> nat list"
  assumes mset_srt: "mset (srt f xs) = mset xs"
    and sorted_srt: "sorted (map f (srt f xs))"
begin

lemma set_srt: "set (srt f xs) = set xs"
  by (metis mset_srt set_mset_mset)

lemma distinct_srt: "distinct (srt f xs) = distinct xs"
  by (metis mset_srt mset_eq_imp_distinct_iff)

lemma length_srt: "length (srt f xs) = length xs"
  by (metis mset_srt size_mset)

lemma hd_srt: "xs \<noteq> [] \<Longrightarrow> hd (srt f xs) \<in> set xs \<and> (\<forall>x \<in> set xs. f (hd (srt f xs)) \<le> f x)"
proof -
  assume ne: "xs \<noteq> []"
  then obtain y ys where y: "srt f xs = y # ys" by (metis length_srt length_0_conv list.exhaust)
  then have "y \<in> set xs" "\<forall>x \<in> set xs. f y \<le> f x"
    using sorted_srt [of f xs] set_srt [of f xs] by auto
  with y show ?thesis by simp
qed

end

interpretation stable: module_sort sort_key
  by unfold_locales simp_all

lemma pm_priorities_ok:
  assumes "pm_core s" and "\<forall>i \<in> set xs. pm_valid s i"
  shows "\<exists>ps. err_fold (\<lambda>i ps. err_bind (pm_getManager s i) (\<lambda>mg. Inr (ps(i := mg_priority mg)))) xs qs = Inr ps"
  using assms(2)
proof (induction xs arbitrary: qs)
  case (Cons i xs)
  obtain mg where "pm_getManager s i = Inr mg" using pm_manager_exists [OF assms(1), of i] Cons.prems by auto
  with Cons show ?case by simp
qed simp

lemma pm_sortByPriority_ok:
  assumes sort: "module_sort (lb_sort lib)" and "pm_core s" and "\<forall>i \<in> set xs. pm_valid s i"
  shows "\<exists>ys. pm_sortByPriority lib s xs = Inr ys \<and> mset ys = mset xs"
proof -
  obtain ps where "err_fold (\<lambda>i ps. err_bind (pm_getManager s i) (\<lambda>mg. Inr (ps(i := mg_priority mg)))) xs (\<lambda>_. 0) = Inr ps"
    using pm_priorities_ok [OF assms(2,3)] by blast
  then show ?thesis
    using module_sort.mset_srt [OF sort] by (simp add: pm_sortByPriority_def)
qed

lemma pm_select_ok:
  assumes "module_sort (lb_sort lib)" and "pm_core s" and "\<forall>i \<in> set xs. pm_valid s i" and "xs \<noteq> []"
  shows "\<exists>h \<in> set xs. pm_selectHighestPriorityModule lib s xs = Inr (Some h)"
proof -
  obtain ys where ys: "pm_sortByPriority lib s xs = Inr ys" "mset ys = mset xs"
    using pm_sortByPriority_ok [OF assms(1-3)] by blast
  then have "ys \<noteq> []" "set ys = set xs" using assms(4) by (auto dest: mset_eq_setD)
  then have "hd ys \<in> set xs" by (metis hd_in_set)
  then show ?thesis
    using ys(1) assms(4) by (intro bexI [of _ "hd ys"]) (simp_all add: pm_selectHighestPriorityModule_def)
qed

lemma pm_conflict_ok:
  assumes "pm_core s" and "\<forall>i \<in> set xs. pm_valid s i"
  shows "\<exists>b. pm_executable_conflict s xs = Inr b"
  using assms(2)
proof (induction xs)
  case (Cons i xs)
  obtain mg where "pm_getManager s i = Inr mg" using pm_manager_exists [OF assms(1), of i] Cons.prems by auto
  with Cons show ?case by auto
qed (simp add: exI [of _ False])

lemma pm_executables_ok:
  assumes "pm_core s" and "\<forall>i \<in> set is \<union> set acc. pm_valid s i" and "distinct (acc @ is)"
  shows "\<exists>ex. pm_executables s is acc = Inr ex \<and> set ex \<subseteq> set acc \<union> set is \<and> distinct ex \<and>
    (is \<noteq> [] \<or> acc \<noteq> [] \<longrightarrow> ex \<noteq> [])"
  using assms(2,3)
proof (induction "is" arbitrary: acc)
  case (Cons i "is")
  obtain mg where mg: "pm_getManager s i = Inr mg" using pm_manager_exists [OF assms(1), of i] Cons.prems by auto
  obtain b where b: "pm_executable_conflict s acc = Inr b" using pm_conflict_ok [OF assms(1), of acc] Cons.prems by auto
  let ?acc = "if b then acc else acc @ [i]"
  have "b \<longrightarrow> acc \<noteq> []" using b by auto
  moreover obtain ex where ex: "pm_executables s is ?acc = Inr ex" "set ex \<subseteq> set ?acc \<union> set is" "distinct ex"
    "is \<noteq> [] \<or> ?acc \<noteq> [] \<longrightarrow> ex \<noteq> []"
    using Cons.IH [of ?acc] Cons.prems by (cases b) auto
  ultimately have "ex \<noteq> []" "set ex \<subseteq> set acc \<union> set (i # is)" by (cases b; auto)+
  then show ?case using mg b ex by auto
qed simp

lemma pm_run_candidates_ok:
  assumes "pm_core s" and "\<forall>i \<in> set ex. pm_valid s i"
  shows "\<exists>results' s'. pm_run_candidates lib d prev ex results s = Inr (results', s') \<and>
    pm_frame (set ex) s s' \<and> pm_core s' \<and> (\<forall>i \<in> set ex. pm_registered s' (pm_name s i) = [i]) \<and>
    (\<forall>n. n \<notin> pm_name s ` set ex \<longrightarrow> pm_registered s' n = pm_registered s n) \<and>
    (\<forall>n. map_of results n \<noteq> None \<or> n \<in> pm_name s ` set ex \<longrightarrow> map_of results' n \<noteq> None)"
  using assms
proof (induction ex arbitrary: results s)
  case Nil
  then show ?case by (simp add: pm_frame_refl)
next
  case (Cons i ex)
  have v: "pm_valid s i" using Cons.prems(2) by simp
  obtain mg where mg: "pm_getManager s i = Inr mg" using pm_getManager_ok [OF Cons.prems(1) v] by blast
  define s1 where "s1 = (if mg_exist i s then s else mg_registerNewModule lib d prev i s)"
  note reg0 = pm_valid_registered [OF Cons.prems(1) v]
  have s1: "pm_frame {i} s s1 \<and> pm_registered s1 = (pm_registered s)(pm_name s i := [i])"
  proof (cases "mg_exist i s")
    case True
    with reg0 have "(pm_registered s)(pm_name s i := [i]) = pm_registered s" by (auto simp: mg_exist_def)
    with True show ?thesis by (simp add: s1_def pm_frame_refl)
  next
    case False
    with reg0 have "pm_registered s (pm_name s i) = []" by (auto simp: mg_exist_def)
    with False show ?thesis
      using pm_frame_with_registered [OF pm_call_void_frame(1)]
      by (simp add: s1_def mg_registerNewModule_def Let_def pm_call_void_frame(2))
  qed
  obtain out s2 where run: "pm_run_module lib d prev i s1 = (out, s2)" by fastforce
  note call = pm_call_frame [OF run [unfolded pm_run_module_def]]
  have frame: "pm_frame {i} s s2" using pm_frame_trans [of "{i}" s s1 "{i}" s2] s1 call(1) by simp
  have reg2: "pm_registered s2 = (pm_registered s)(pm_name s i := [i])" using s1 call(2) by simp
  have idle: "pm_idling s2 = pm_idling s" using frame by (simp add: pm_frame_def)
  have core2: "pm_core s2"
  proof -
    have "pm_core (s2\<lparr>pm_registered := pm_registered s\<rparr>)"
      by (rule pm_frame_core [OF pm_frame_with_registered [OF frame] Cons.prems(1)]) simp
    then show ?thesis
      using v by (auto simp: pm_core_def pm_name_def reg2 idle pm_valid_def)
  qed
  have names: "pm_valid s2 j \<and> pm_name s2 j = pm_name s j" if "pm_valid s j" for j
    using pm_frame_valid [OF frame Cons.prems(1) that] by simp
  then obtain results' s' where rest: "pm_run_candidates lib d prev ex (pm_emplace (pm_name s i) out results) s2 = Inr (results', s')"
    "pm_frame (set ex) s2 s'" "pm_core s'" "\<forall>j \<in> set ex. pm_registered s' (pm_name s2 j) = [j]"
    "\<forall>n. n \<notin> pm_name s2 ` set ex \<longrightarrow> pm_registered s' n = pm_registered s2 n"
    "\<forall>n. map_of (pm_emplace (pm_name s i) out results) n \<noteq> None \<or> n \<in> pm_name s2 ` set ex \<longrightarrow> map_of results' n \<noteq> None"
    using Cons.IH [OF core2, of "pm_emplace (pm_name s i) out results"] Cons.prems(2) by auto
  have img: "pm_name s2 ` set ex = pm_name s ` set ex"
    using names Cons.prems(2) by (intro image_cong) simp_all
  have "pm_registered s' (pm_name s j) = [j]" if "j \<in> set (i # ex)" for j
  proof (cases "j \<in> set ex")
    case True
    then have "pm_registered s' (pm_name s2 j) = [j]" "pm_name s2 j = pm_name s j"
      using rest(4) names [of j] Cons.prems(2) by auto
    then show ?thesis by simp
  next
    case False
    then have "j = i" using that by simp
    show ?thesis
    proof (cases "pm_name s i \<in> pm_name s ` set ex")
      case True
      then obtain k where "k \<in> set ex" "pm_name s i = pm_name s k" by auto
      then have "k = i" using pm_valid_name_inj [OF v, of k] Cons.prems(2) by auto
      with \<open>k \<in> set ex\<close> False \<open>j = i\<close> show ?thesis by simp
    next
      case False
      then show ?thesis using rest(5) img reg2 \<open>j = i\<close> by simp
    qed
  qed
  moreover have "map_of (pm_emplace (pm_name s i) out results) n \<noteq> None"
    if "map_of results n \<noteq> None \<or> n = pm_name s i" for n
    using that by (auto simp: pm_emplace_def)
  moreover have "pm_frame (set (i # ex)) s s'"
    using pm_frame_trans [OF frame rest(2)] by simp
  moreover have "pm_run_candidates lib d prev (i # ex) results s = Inr (results', s')"
    using mg run rest(1) by (simp add: s1_def Let_def)
  moreover have "pm_registered s' n = pm_registered s n" if "n \<notin> pm_name s ` set (i # ex)" for n
    using that rest(5) img reg2 by auto
  ultimately show ?case
    using rest(3,6) img by (intro exI [of _ results'] exI [of _ s']) auto
qed

lemma pm_remove_expired_ok:
  assumes "pm_core s" and "\<forall>i \<in> set ex. pm_valid s i" and "distinct ex"
  shows "\<exists>running s'. pm_remove_expired lib ex s = Inr (running, s') \<and> set running \<subseteq> set ex \<and> distinct running \<and>
    pm_deleted (set ex - set running) s s' \<and> (\<forall>i \<in> set running. \<not> pm_expired s i)"
  using assms
proof (induction ex arbitrary: s)
  case Nil
  then show ?case by (simp add: pm_deleted_def pm_frame_refl)
next
  case (Cons i ex)
  show ?case
  proof (cases "pm_expired s i")
    case True
    obtain s1 where s1: "pm_deleteExpiredModules lib i s = Inr s1" "pm_deleted {i} s s1"
      using pm_delete_one [OF Cons.prems(1), of i lib] Cons.prems(2) by auto
    have valid1: "\<forall>j \<in> set ex. pm_valid s1 j"
      using pm_frame_valid(1) [of "{i}" s s1] s1(2) Cons.prems(1,2) by (simp add: pm_deleted_def)
    obtain running s2 where s2: "pm_remove_expired lib ex s1 = Inr (running, s2)" "set running \<subseteq> set ex"
      "distinct running" "pm_deleted (set ex - set running) s1 s2" "\<forall>j \<in> set running. \<not> pm_expired s1 j"
      using Cons.IH [OF pm_deleted_core [OF s1(2) Cons.prems(1)] valid1] Cons.prems(3) by auto
    have "\<not> pm_expired s j" if "j \<in> set running" for j
    proof -
      have "j \<noteq> i" using that s2(2) Cons.prems(3) by auto
      then have "pm_module s1 j = pm_module s j"
        using s1(2) pm_frame_module [of "{i}" s s1 j] by (simp add: pm_deleted_def)
      moreover have "\<not> pm_expired s1 j" using s2(5) that by blast
      ultimately show ?thesis by (simp add: pm_expired_def)
    qed
    moreover have "pm_deleted ({i} \<union> (set ex - set running)) s s2"
      using Cons.prems(2) by (intro pm_deleted_trans [OF Cons.prems(1) s1(2) s2(4)]) simp
    moreover have "{i} \<union> (set ex - set running) = set (i # ex) - set running"
      using s2(2) Cons.prems(3) by auto
    ultimately show ?thesis
      using True s1(1) s2(1-3) by (intro exI [of _ running] exI [of _ s2]) auto
  next
    case False
    obtain running s2 where s2: "pm_remove_expired lib ex s = Inr (running, s2)" "set running \<subseteq> set ex"
      "distinct running" "pm_deleted (set ex - set running) s s2" "\<forall>j \<in> set running. \<not> pm_expired s j"
      using Cons.IH [OF Cons.prems(1)] Cons.prems(2,3) by auto
    have "set ex - set running = set (i # ex) - set (i # running)" using s2(2) Cons.prems(3) by auto
    then have "pm_deleted (set (i # ex) - set (i # running)) s s2" using s2(4) by simp
    then show ?thesis
      using False s2(1-3,5) Cons.prems(3) by (intro exI [of _ "i # running"] exI [of _ s2]) auto
  qed
qed

lemma pm_named_iff:
  assumes "\<forall>m \<in> set req. pm_valid s m" and "pm_valid s c"
  shows "list_ex (\<lambda>m. pm_name s m = pm_name s c) req \<longleftrightarrow> c \<in> set req"
  using assms pm_valid_name_inj [OF _ assms(2)] by (auto simp: list_ex_iff)

lemma pm_keep_candidates_ok:
  assumes "pm_core s" and "\<forall>c \<in> set cs. pm_valid s c" and "\<forall>m \<in> set req. pm_valid s m" and "h \<in> set req" and "distinct cs"
  shows "\<exists>s'. pm_keep_candidates lib req h cs s =
      Inr (filter (\<lambda>c. c \<in> set req \<and> \<not> (c = h \<and> \<not> pm_waiting s h)) cs, s') \<and> pm_deleted (set cs - set req) s s'"
  using assms
proof (induction cs arbitrary: s)
  case Nil
  then show ?case by (simp add: pm_deleted_def pm_frame_refl)
next
  case (Cons c cs)
  have c: "pm_valid s c" and h: "pm_valid s h" using Cons.prems(2-4) by auto
  note named = pm_named_iff [OF Cons.prems(3) c]
  show ?case
  proof (cases "c \<in> set req")
    case False
    obtain s1 where s1: "pm_deleteExpiredModules lib c s = Inr s1" "pm_deleted {c} s s1"
      using pm_delete_one [OF Cons.prems(1) c, of lib] by auto
    then have frame: "pm_frame {c} s s1" by (simp add: pm_deleted_def)
    note valid1 = pm_frame_valid(1) [OF frame Cons.prems(1)]
    have "c \<noteq> h" using False Cons.prems(4) by auto
    then have same: "pm_module s1 h = pm_module s h" using pm_frame_module [OF frame, of h] by simp
    obtain s2 where s2: "pm_keep_candidates lib req h cs s1 =
        Inr (filter (\<lambda>c. c \<in> set req \<and> \<not> (c = h \<and> \<not> pm_waiting s1 h)) cs, s2)" "pm_deleted (set cs - set req) s1 s2"
      using Cons.IH [OF pm_deleted_core [OF s1(2) Cons.prems(1)]] valid1 Cons.prems(2-5) by auto
    have "pm_deleted ({c} \<union> (set cs - set req)) s s2"
      using Cons.prems(2) by (intro pm_deleted_trans [OF Cons.prems(1) s1(2) s2(2)]) simp
    moreover have "{c} \<union> (set cs - set req) = set (c # cs) - set req" using False by auto
    ultimately show ?thesis
      using False named s1(1) s2(1) same by (intro exI [of _ s2]) simp
  next
    case True
    obtain s2 where s2: "pm_keep_candidates lib req h cs s =
        Inr (filter (\<lambda>c. c \<in> set req \<and> \<not> (c = h \<and> \<not> pm_waiting s h)) cs, s2)" "pm_deleted (set cs - set req) s s2"
      using Cons.IH [OF Cons.prems(1)] Cons.prems(2-5) by auto
    have "pm_name s c = pm_name s h \<longleftrightarrow> c = h" using pm_valid_name_inj [OF c h] by auto
    moreover have "set cs - set req = set (c # cs) - set req" using True by auto
    ultimately show ?thesis
      using True named s2 by (intro exI [of _ s2]) simp
  qed
qed

lemma pm_add_candidates_eq:
  assumes "\<forall>c \<in> set cs. pm_valid s c" and "\<forall>m \<in> set ms. pm_valid s m" and "pm_valid s h" and "distinct cs"
  shows "distinct (pm_add_candidates s h ms cs) \<and>
    set (pm_add_candidates s h ms cs) = set cs \<union> {m \<in> set ms. \<not> (m = h \<and> \<not> pm_waiting s h)}"
  using assms
proof (induction ms arbitrary: cs)
  case (Cons m ms)
  have m: "pm_valid s m" using Cons.prems(2) by simp
  have eq: "pm_name s m = pm_name s h \<longleftrightarrow> m = h" using pm_valid_name_inj [OF m Cons.prems(3)] by auto
  note named = pm_named_iff [OF Cons.prems(1) m]
  let ?cs = "if m = h \<and> \<not> pm_waiting s h then cs else if m \<in> set cs then cs else cs @ [m]"
  have "\<forall>c \<in> set ?cs. pm_valid s c" "distinct ?cs" using Cons.prems(1,4) m by auto
  then have "distinct (pm_add_candidates s h ms ?cs) \<and>
    set (pm_add_candidates s h ms ?cs) = set ?cs \<union> {m \<in> set ms. \<not> (m = h \<and> \<not> pm_waiting s h)}"
    using Cons.IH [of ?cs] Cons.prems(2,3) by simp
  moreover have "pm_add_candidates s h (m # ms) cs = pm_add_candidates s h ms ?cs"
    by (simp add: eq named)
  moreover have "set ?cs \<union> {m \<in> set ms. \<not> (m = h \<and> \<not> pm_waiting s h)} =
      set cs \<union> {m' \<in> set (m # ms). \<not> (m' = h \<and> \<not> pm_waiting s h)}"
    by (cases "m = h \<and> \<not> pm_waiting s h") auto
  ultimately show ?case by simp
qed simp

lemma pm_updateCandidateModules_ok:
  assumes sort: "module_sort (lb_sort lib)" and core: "pm_core s" and cands: "\<forall>c \<in> set (pm_candidates s). pm_valid s c"
    "distinct (pm_candidates s)" and req: "\<forall>m \<in> set req. pm_valid s m" "h \<in> set req"
  shows "\<exists>s1 cs. pm_updateCandidateModules lib req h s = Inr (s1\<lparr>pm_candidates := cs\<rparr>) \<and>
    pm_deleted (set (pm_candidates s) - set req) s s1 \<and> distinct cs \<and>
    set cs = {m \<in> set req. \<not> (m = h \<and> \<not> pm_waiting s h)}"
proof -
  let ?kept = "filter (\<lambda>c. c \<in> set req \<and> \<not> (c = h \<and> \<not> pm_waiting s h)) (pm_candidates s)"
  obtain s1 where s1: "pm_keep_candidates lib req h (pm_candidates s) s = Inr (?kept, s1)"
    "pm_deleted (set (pm_candidates s) - set req) s s1"
    using pm_keep_candidates_ok [OF core cands(1) req cands(2)] by blast
  have frame: "pm_frame (set (pm_candidates s) - set req) s s1" using s1(2) by (simp add: pm_deleted_def)
  note valid1 = pm_frame_valid(1) [OF frame core]
  have h1: "pm_module s1 h = pm_module s h" using pm_frame_module [OF frame, of h] req(2) by simp
  let ?cs = "pm_add_candidates s1 h req ?kept"
  have cs: "distinct ?cs \<and> set ?cs = set ?kept \<union> {m \<in> set req. \<not> (m = h \<and> \<not> pm_waiting s1 h)}"
    using valid1 cands req by (intro pm_add_candidates_eq) auto
  have "\<forall>c \<in> set ?cs. pm_valid s1 c" using cs valid1 req by auto
  then obtain ys where ys: "pm_sortByPriority lib s1 ?cs = Inr ys" "mset ys = mset ?cs"
    using pm_sortByPriority_ok [OF sort pm_deleted_core [OF s1(2) core]] by blast
  have "distinct ys" "set ys = set ?cs" using ys(2) cs by (auto dest: mset_eq_setD mset_eq_imp_distinct_iff)
  then show ?thesis
    using s1 ys(1) cs h1 by (intro exI [of _ s1] exI [of _ ys]) (auto simp: pm_updateCandidateModules_def)
qed

text \<open>A state in which only the candidates and modules outside of the approved ones have changed.\<close>

lemma pm_inv_build:
  assumes inv: "pm_inv s" and core: "pm_core s'"
    and same: "pm_managers s' = pm_managers s" "pm_idling s' = pm_idling s" "pm_approved s' = pm_approved s"
      "map fst (pm_heap s') = map fst (pm_heap s)"
    and reg: "\<forall>n. n \<notin> pm_name s ` X \<longrightarrow> pm_registered s' n = pm_registered s n"
    and X: "\<forall>i \<in> X. pm_valid s i \<and> i \<notin> set (pm_approved s)"
    and cands: "distinct (pm_candidates s')" "\<forall>c \<in> set (pm_candidates s'). c \<in> X \<and> pm_registered s' (pm_name s c) = [c]"
  shows "pm_inv s'"
proof -
  have names: "pm_name s' i = pm_name s i" if "pm_valid s i" for i
    using pm_same_names [OF same(4) pm_valid_less [OF pm_inv_core [OF inv] that]] .
  have reg': "pm_registered s' (pm_name s i) = [i]" if i: "i \<in> set (pm_approved s)" for i
  proof -
    have l: "i \<in> pm_listed s" using i by (simp add: pm_listed_def)
    have "pm_name s i \<notin> pm_name s ` X"
    proof
      assume "pm_name s i \<in> pm_name s ` X"
      then obtain j where "j \<in> X" "pm_name s i = pm_name s j" by auto
      with pm_valid_name_inj [OF pm_inv_listed(1) [OF inv l]] X i show False by auto
    qed
    then show ?thesis using reg pm_inv_listed(2) [OF inv l] by simp
  qed
  have vX: "pm_valid s i" if "i \<in> pm_listed s'" for i
    using that X cands(2) same(3) pm_inv_listed(1) [OF inv, of i] by (auto simp: pm_listed_def)
  have "pm_valid s' i \<and> pm_registered s' (pm_name s' i) = [i]" if i: "i \<in> pm_listed s'" for i
    using names [OF vX [OF i]] vX [OF i] i reg' [of i] cands(2) same by (auto simp: pm_valid_def pm_listed_def)
  moreover have "pm_simultaneous s' i = pm_simultaneous s i" if "i \<in> set (pm_approved s)" for i
    using names [OF vX, of i] that same by (simp add: pm_simultaneous_def pm_listed_def)
  ultimately show ?thesis
    using inv core same cands X by (auto simp: pm_inv_def)
qed

definition pm_ran :: "nat set \<Rightarrow> 'm pm_state \<Rightarrow> 'm pm_state \<Rightarrow> bool" where
  "pm_ran X s s' \<longleftrightarrow>
     pm_managers s' = pm_managers s \<and> pm_root_lanelet s' = pm_root_lanelet s \<and> pm_idling s' = pm_idling s \<and>
     pm_approved s' = pm_approved s \<and> map fst (pm_heap s') = map fst (pm_heap s) \<and>
     set (pm_candidates s') \<subseteq> X \<and> (\<forall>n. n \<notin> pm_name s ` X \<longrightarrow> pm_registered s' n = pm_registered s n) \<and>
     (\<forall>i. i \<notin> X \<longrightarrow> pm_heap s' ! i = pm_heap s ! i)"

lemma pm_frame_ran:
  assumes "pm_frame E s s'" and "\<forall>n. n \<notin> pm_name s ` X \<longrightarrow> pm_registered s' n = pm_registered s n"
    and "E \<subseteq> X" and "set cs \<subseteq> X"
  shows "pm_ran X s (s'\<lparr>pm_candidates := cs\<rparr>)"
  using assms unfolding pm_ran_def pm_frame_def by auto

lemma pm_core_candidates [simp]: "pm_core (s\<lparr>pm_candidates := cs\<rparr>) = pm_core s"
  by (simp add: pm_core_def pm_name_def)

lemma pm_runRequestModules_ok:
  assumes sort: "module_sort (lb_sort lib)" and inv: "pm_inv s" and req: "pm_requestable s UNIV req" "req \<noteq> []"
  defines "X \<equiv> set req \<union> set (pm_candidates s)"
  shows "\<exists>r out s'. pm_runRequestModules lib d prev req s = Inr ((r, out), s') \<and> pm_inv s' \<and> pm_ran X s s' \<and>
    (\<forall>h. r = Some h \<longrightarrow> h \<in> set req \<and> pm_registered s' (pm_name s h) = [h] \<and> \<not> pm_expired s' h \<and>
       (\<not> pm_waiting s' h \<longrightarrow> h \<notin> set (pm_candidates s')))"
proof -
  note core = pm_inv_core [OF inv]
  have reqv: "\<forall>r \<in> set req. pm_valid s r" "distinct req" "\<forall>r \<in> set req. r \<notin> set (pm_approved s)"
    using req(1) by (simp_all add: pm_requestable_def)
  have candv: "\<forall>c \<in> set (pm_candidates s). pm_valid s c" "distinct (pm_candidates s)"
    using pm_candidates_valid [OF inv] inv by (simp_all add: pm_inv_def)
  have X: "\<forall>i \<in> X. pm_valid s i \<and> i \<notin> set (pm_approved s)"
    using reqv candv pm_inv_disjoint [OF inv] by (auto simp: X_def)
  obtain ys where ys: "pm_sortByPriority lib s req = Inr ys" "mset ys = mset req"
    using pm_sortByPriority_ok [OF sort core reqv(1)] by blast
  have ysreq: "set ys = set req" "distinct ys" "ys \<noteq> []"
    using ys(2) reqv(2) req(2) by (auto dest: mset_eq_setD mset_eq_imp_distinct_iff)
  obtain ex where ex: "pm_executables s ys [] = Inr ex" "set ex \<subseteq> set req" "distinct ex" "ex \<noteq> []"
    using pm_executables_ok [OF core, of ys "[]"] ysreq reqv(1) by auto
  have exv: "\<forall>i \<in> set ex. pm_valid s i" using ex(2) reqv(1) by auto
  obtain results s1 where s1: "pm_run_candidates lib d prev ex [] s = Inr (results, s1)" "pm_frame (set ex) s s1"
    "pm_core s1" "\<forall>i \<in> set ex. pm_registered s1 (pm_name s i) = [i]"
    "\<forall>n. n \<notin> pm_name s ` set ex \<longrightarrow> pm_registered s1 n = pm_registered s n"
    "\<forall>n. n \<in> pm_name s ` set ex \<longrightarrow> map_of results n \<noteq> None"
    using pm_run_candidates_ok [OF core exv, of lib d prev "[]"] by auto
  note valid1 = pm_frame_valid [OF s1(2) core]
  have exv1: "\<forall>i \<in> set ex. pm_valid s1 i" using exv valid1(1) by blast
  obtain running s2 where s2: "pm_remove_expired lib ex s1 = Inr (running, s2)" "set running \<subseteq> set ex"
    "distinct running" "pm_deleted (set ex - set running) s1 s2" "\<forall>i \<in> set running. \<not> pm_expired s1 i"
    using pm_remove_expired_ok [OF s1(3) exv1 ex(3)] by blast
  note core2 = pm_deleted_core [OF s2(4) s1(3)]
  have frame2: "pm_frame (set ex - set running) s1 s2" using s2(4) by (simp add: pm_deleted_def)
  have frame02: "pm_frame (set ex) s s2"
    using pm_frame_mono [OF pm_frame_trans [OF s1(2) frame2]] by auto
  have valid2: "pm_valid s2 i" "pm_name s2 i = pm_name s i" if "pm_valid s i" for i
    using pm_frame_valid [OF frame02 core that] by simp_all
  have names1: "pm_name s1 ` Y = pm_name s ` Y" if "\<forall>i \<in> Y. pm_valid s i" for Y
    using valid1(2) that by (intro image_cong) simp_all
  have names2: "pm_name s2 ` Y = pm_name s ` Y" if "\<forall>i \<in> Y. pm_valid s i" for Y
    using valid2(2) that by (intro image_cong) simp_all
  have cand2: "pm_candidates s2 = pm_candidates s" using frame02 by (simp add: pm_frame_def)
  have exX: "set ex \<subseteq> X" using ex(2) by (auto simp: X_def)
  have reg2: "pm_registered s2 n = pm_registered s n" if "n \<notin> pm_name s ` X" for n
  proof -
    have "n \<notin> pm_name s ` set ex" "n \<notin> pm_name s1 ` (set ex - set running)"
      using that exX names1 [of "set ex - set running"] exv by auto
    then show ?thesis using s1(5) s2(4) by (simp add: pm_deleted_def)
  qed
  have regrun: "pm_registered s2 (pm_name s i) = [i]" if i: "i \<in> set running" for i
  proof -
    have iv: "pm_valid s i" "i \<in> set ex" using i s2(2) exv by auto
    have "pm_name s i \<notin> pm_name s ` (set ex - set running)"
      using pm_valid_name_inj [OF iv(1)] exv i by blast
    then have "pm_name s i \<notin> pm_name s1 ` (set ex - set running)"
      using names1 [of "set ex - set running"] exv by auto
    then show ?thesis using s1(4) s2(4) iv(2) by (simp add: pm_deleted_def)
  qed
  have start: "pm_runRequestModules lib d prev req s =
     (if running = [] then err_bind (pm_clearCandidateModules lib s2) (\<lambda>s3. Inr ((None, lb_empty_output lib), s3))
      else err_bind (pm_selectHighestPriorityModule lib s2
             (if filter (\<lambda>i. \<not> pm_waiting s2 i) running \<noteq> [] then filter (\<lambda>i. \<not> pm_waiting s2 i) running
              else filter (pm_waiting s2) running)) (\<lambda>r. case r of
          None \<Rightarrow> Inl PM_NullPointer
        | Some h \<Rightarrow> err_bind (pm_updateCandidateModules lib running h s2) (\<lambda>s3.
            err_bind (pm_at results (pm_name s3 h)) (\<lambda>out. Inr ((Some h, out), s3)))))"
    by (simp add: pm_runRequestModules_def Let_def ys(1) ex(1) s1(1) s2(1))
  show ?thesis
  proof (cases "running = []")
    case True
    obtain s3 where s3: "pm_clearCandidateModules lib s2 = Inr (s3\<lparr>pm_candidates := []\<rparr>)"
      "pm_deleted (set (pm_candidates s)) s2 s3"
      using pm_clear_ok [OF core2, of lib] cand2 candv(1) valid2(1) by auto
    have frame3: "pm_frame (set ex \<union> set (pm_candidates s)) s s3"
      using pm_frame_trans [OF frame02, of "set (pm_candidates s)" s3] s3(2) by (simp add: pm_deleted_def)
    have reg3: "\<forall>n. n \<notin> pm_name s ` X \<longrightarrow> pm_registered s3 n = pm_registered s n"
      using s3(2) names2 [OF candv(1)] reg2 by (auto simp: pm_deleted_def X_def)
    have ran: "pm_ran X s (s3\<lparr>pm_candidates := []\<rparr>)"
      by (rule pm_frame_ran [OF frame3 reg3]) (use exX in \<open>auto simp: X_def\<close>)
    have "pm_inv (s3\<lparr>pm_candidates := []\<rparr>)"
    proof (rule pm_inv_build [OF inv _ _ _ _ _ _ X])
      show "pm_core (s3\<lparr>pm_candidates := []\<rparr>)" using pm_deleted_core [OF s3(2) core2] by simp
    qed (use frame3 reg3 in \<open>auto simp: pm_frame_def\<close>)
    then show ?thesis
      using True s3(1) ran start by (intro exI [of _ None]) simp
  next
    case False
    let ?choice = "if filter (\<lambda>i. \<not> pm_waiting s2 i) running \<noteq> [] then filter (\<lambda>i. \<not> pm_waiting s2 i) running
              else filter (pm_waiting s2) running"
    have ne: "?choice \<noteq> []" using False by (auto simp: filter_empty_conv)
    have sub: "set ?choice \<subseteq> set running" by auto
    have runv: "\<forall>i \<in> set running. pm_valid s2 i" using s2(2) exv valid2(1) by auto
    then have "\<forall>i \<in> set ?choice. pm_valid s2 i" using sub by blast
    then obtain h where h: "h \<in> set ?choice" "pm_selectHighestPriorityModule lib s2 ?choice = Inr (Some h)"
      using pm_select_ok [OF sort core2 _ ne] by blast
    have hrun: "h \<in> set running" using h(1) sub by blast
    obtain s3 cs where s3: "pm_updateCandidateModules lib running h s2 = Inr (s3\<lparr>pm_candidates := cs\<rparr>)"
      "pm_deleted (set (pm_candidates s) - set running) s2 s3" "distinct cs"
      "set cs = {m \<in> set running. \<not> (m = h \<and> \<not> pm_waiting s2 h)}"
      using pm_updateCandidateModules_ok [OF sort core2 _ _ runv hrun] cand2 candv valid2(1) by auto
    let ?s' = "s3\<lparr>pm_candidates := cs\<rparr>"
    have csX: "set cs \<subseteq> X" using s3(4) s2(2) exX by auto
    have frame23: "pm_frame (set (pm_candidates s) - set running) s2 s3" using s3(2) by (simp add: pm_deleted_def)
    have frame3: "pm_frame (set ex \<union> (set (pm_candidates s) - set running)) s s3"
      by (rule pm_frame_trans [OF frame02 frame23])
    have names3: "pm_name s2 ` (set (pm_candidates s) - set running) = pm_name s ` (set (pm_candidates s) - set running)"
      using candv(1) by (intro names2) simp
    have reg3: "\<forall>n. n \<notin> pm_name s ` X \<longrightarrow> pm_registered s3 n = pm_registered s n"
    proof (intro allI impI)
      fix n assume n: "n \<notin> pm_name s ` X"
      then have "n \<notin> pm_name s2 ` (set (pm_candidates s) - set running)" by (auto simp: names3 X_def)
      with n show "pm_registered s3 n = pm_registered s n"
        using s3(2) reg2 by (simp add: pm_deleted_def)
    qed
    have regrun3: "pm_registered s3 (pm_name s i) = [i]" if i: "i \<in> set running" for i
    proof -
      have iv: "pm_valid s i" using i s2(2) exv by auto
      have "pm_name s i \<notin> pm_name s ` (set (pm_candidates s) - set running)"
        using pm_valid_name_inj [OF iv] candv(1) i by blast
      then have "pm_name s i \<notin> pm_name s2 ` (set (pm_candidates s) - set running)" by (simp only: names3 not_False_eq_True)
      then show ?thesis using s3(2) regrun [OF i] by (simp add: pm_deleted_def)
    qed
    have ran: "pm_ran X s ?s'"
      by (rule pm_frame_ran [OF frame3 reg3 _ csX]) (use exX in \<open>auto simp: X_def\<close>)
    have inv': "pm_inv ?s'"
    proof (rule pm_inv_build [OF inv _ _ _ _ _ _ X])
      show "pm_core ?s'" using pm_deleted_core [OF s3(2) core2] by simp
      show "\<forall>c \<in> set (pm_candidates ?s'). c \<in> X \<and> pm_registered ?s' (pm_name s c) = [c]"
        using csX s3(4) regrun3 by auto
    qed (use frame3 reg3 s3(3) in \<open>auto simp: pm_frame_def\<close>)
    have hv: "pm_valid s h" using hrun s2(2) exv by auto
    have "pm_name ?s' h = pm_name s h"
      using pm_frame_valid(2) [OF frame3 core hv] by (simp add: pm_name_def)
    moreover have "h \<in> set ex" using hrun s2(2) by auto
    then have "map_of results (pm_name s h) \<noteq> None" using s1(6) by blast
    ultimately obtain out where out: "pm_at results (pm_name ?s' h) = Inr out" by (auto simp: pm_at_def)
    have "pm_module s3 h = pm_module s2 h" using pm_frame_module [OF frame23, of h] hrun by simp
    then have wait: "pm_waiting ?s' h = pm_waiting s2 h" by (simp add: pm_module_def)
    have result: "pm_runRequestModules lib d prev req s = Inr ((Some h, out), ?s')"
      using start False h(2) s3(1) out by simp
    have "h \<in> set req" using hrun s2(2) ex(2) by auto
    moreover have "pm_registered ?s' (pm_name s h) = [h]" using regrun3 [OF hrun] by simp
    moreover have "\<not> pm_waiting ?s' h \<longrightarrow> h \<notin> set (pm_candidates ?s')" using s3(4) wait by simp
    moreover have "pm_module ?s' h = pm_module s1 h"
      using pm_frame_module [OF frame23, of h] pm_frame_module [OF frame2, of h] hrun by (simp add: pm_module_def)
    then have "\<not> pm_expired ?s' h" using s2(5) hrun by (simp add: pm_expired_def)
    ultimately show ?thesis
      using result inv' ran by (intro exI [of _ "Some h"] exI [of _ out] exI [of _ ?s']) simp
  qed
qed

section \<open>One turn of the loop\<close>

lemma pm_ran_leaked:
  assumes core: "pm_core s" and ran: "pm_ran X s s'" and leak: "pm_leaked s i" and X: "\<forall>j \<in> X. pm_valid s j" "i \<notin> X"
  shows "pm_leaked s' i \<and> pm_heap s' ! i = pm_heap s ! i"
proof -
  have v: "pm_valid s i" and r: "pm_registered s (pm_name s i) = [i]" and out: "i \<notin> pm_listed s"
    using leak by (simp_all add: pm_leaked_def)
  have name: "pm_name s' i = pm_name s i"
    using ran pm_valid_less [OF core v] by (intro pm_same_names) (simp_all add: pm_ran_def)
  have "pm_name s i \<notin> pm_name s ` X" using pm_valid_name_inj [OF v] X by blast
  then have "pm_registered s' (pm_name s i) = [i]" using ran r by (simp add: pm_ran_def)
  moreover have "i \<notin> pm_listed s'" using ran out X(2) by (auto simp: pm_ran_def pm_listed_def)
  ultimately show ?thesis
    using ran v name X(2) by (simp add: pm_leaked_def pm_valid_def pm_ran_def)
qed

text \<open>Approving the module with the highest priority, which has just left the candidates.\<close>

lemma pm_approve_ok:
  assumes inv: "pm_inv s" and h: "pm_valid s h" "pm_registered s (pm_name s h) = [h]" "h \<notin> pm_listed s"
    and sim: "pm_approved s = [] \<or> (\<forall>i \<in> insert h (set (pm_approved s)). pm_simultaneous s i)"
  shows "\<exists>s'. pm_clearCandidateModules lib (pm_addApprovedModule h s) = Inr s' \<and> pm_inv s' \<and>
    pm_managers s' = pm_managers s \<and> pm_root_lanelet s' = pm_root_lanelet s \<and> pm_idling s' = pm_idling s \<and>
    pm_approved s' = pm_approved s @ [h] \<and> pm_candidates s' = [] \<and>
    (\<forall>i. i \<notin> set (pm_candidates s) \<longrightarrow> pm_heap s' ! i = pm_heap s ! i) \<and>
    (\<forall>i. pm_leaked s i \<and> i \<noteq> h \<longrightarrow> pm_leaked s' i \<and> pm_heap s' ! i = pm_heap s ! i)"
proof -
  let ?s = "pm_addApprovedModule h s"
  have core: "pm_core ?s" using pm_inv_core [OF inv] by (simp add: pm_addApprovedModule_def pm_core_def pm_name_def)
  have cand: "pm_candidates ?s = pm_candidates s" by (simp add: pm_addApprovedModule_def)
  have valid: "pm_valid ?s i = pm_valid s i" "pm_name ?s i = pm_name s i" for i
    by (simp_all add: pm_addApprovedModule_def pm_valid_def pm_name_def)
  obtain s1 where s1: "pm_clearCandidateModules lib ?s = Inr (s1\<lparr>pm_candidates := []\<rparr>)"
    "pm_deleted (set (pm_candidates s)) ?s s1"
    using pm_clear_ok [OF core, of lib] pm_candidates_valid [OF inv] valid cand by auto
  let ?s' = "s1\<lparr>pm_candidates := []\<rparr>"
  have frame: "pm_frame (set (pm_candidates s)) ?s s1" using s1(2) by (simp add: pm_deleted_def)
  have same: "pm_managers ?s' = pm_managers s" "pm_idling ?s' = pm_idling s" "pm_approved ?s' = pm_approved s @ [h]"
    "pm_root_lanelet ?s' = pm_root_lanelet s" "map fst (pm_heap ?s') = map fst (pm_heap s)"
    "\<forall>i. i \<notin> set (pm_candidates s) \<longrightarrow> pm_heap ?s' ! i = pm_heap s ! i"
    using frame by (simp_all add: pm_frame_def pm_addApprovedModule_def)
  have names: "pm_name ?s' i = pm_name s i" if "pm_valid s i" for i
    using pm_same_names [OF same(5) pm_valid_less [OF pm_inv_core [OF inv] that]] .
  have reg: "pm_registered ?s' (pm_name s i) = pm_registered s (pm_name s i)"
    if i: "pm_valid s i" "i \<notin> set (pm_candidates s)" for i
  proof -
    have "pm_name s i \<notin> pm_name s ` set (pm_candidates s)"
      using pm_valid_name_inj [OF i(1)] pm_candidates_valid [OF inv] i(2) by blast
    moreover have "pm_name ?s ` set (pm_candidates s) = pm_name s ` set (pm_candidates s)"
      using valid(2) by simp
    ultimately show ?thesis using s1(2) by (simp add: pm_deleted_def pm_addApprovedModule_def)
  qed
  have apv: "pm_valid s i \<and> i \<notin> set (pm_candidates s) \<and> pm_registered s (pm_name s i) = [i]"
    if "i \<in> insert h (set (pm_approved s))" for i
    using that h pm_inv_listed [OF inv, of i] pm_inv_disjoint [OF inv] by (auto simp: pm_listed_def)
  have "pm_inv ?s'"
  proof -
    have "pm_core ?s'" using pm_deleted_core [OF s1(2) core] by simp
    moreover have "pm_valid ?s' i \<and> pm_registered ?s' (pm_name ?s' i) = [i]" if "i \<in> pm_listed ?s'" for i
    proof -
      have i: "i \<in> insert h (set (pm_approved s))" using that same(3) by (auto simp: pm_listed_def)
      have "pm_name ?s' i = pm_name s i" using apv [OF i] by (intro names) simp
      moreover have "pm_registered ?s' (pm_name s i) = [i]" using apv [OF i] reg [of i] by simp
      moreover have "pm_idling ?s' (pm_name s i) = Some i" using apv [OF i] same(2) by (simp add: pm_valid_def)
      ultimately show ?thesis by (simp add: pm_valid_def)
    qed
    moreover have "pm_simultaneous ?s' i = pm_simultaneous s i" if "i \<in> insert h (set (pm_approved s))" for i
      using names [of i] apv [OF that] same(1) by (simp add: pm_simultaneous_def)
    then have "\<forall>i \<in> set (pm_approved ?s'). pm_simultaneous ?s' i \<or> pm_approved ?s' = [i]"
      using sim same(3) by auto
    moreover have "distinct (pm_approved ?s' @ pm_candidates ?s')"
      using inv h(3) same(3) by (auto simp: pm_inv_def pm_listed_def)
    ultimately show ?thesis by (simp add: pm_inv_def)
  qed
  moreover have "pm_leaked ?s' i \<and> pm_heap ?s' ! i = pm_heap s ! i" if l: "pm_leaked s i" "i \<noteq> h" for i
  proof -
    have i: "pm_valid s i" "i \<notin> set (pm_candidates s)" "i \<notin> set (pm_approved s)" "pm_registered s (pm_name s i) = [i]"
      using l(1) by (auto simp: pm_leaked_def pm_listed_def)
    have "pm_listed ?s' = insert h (set (pm_approved s))" using same(3) by (auto simp: pm_listed_def)
    then show ?thesis
      using i l(2) names [OF i(1)] reg [OF i(1,2)] same by (simp add: pm_leaked_def pm_valid_def)
  qed
  ultimately show ?thesis
    using s1(1) same by (intro exI [of _ ?s']) simp
qed

definition pm_all_idle :: "'m pm_state \<Rightarrow> bool" where
  "pm_all_idle s \<longleftrightarrow> (\<forall>mg \<in> set (pm_managers s). pm_idling s (mg_name mg) \<noteq> None)"

text \<open>The modules that stay approved, and those that cannot be launched again.\<close>

definition pm_settled :: "'m pm_state \<Rightarrow> bool" where
  "pm_settled s \<longleftrightarrow> (\<forall>i \<in> set (pm_approved s). \<not> pm_waiting s i \<and> pm_status s i \<noteq> ModuleStatus_FAILURE)"

lemma pm_requestable_not_leaked:
  assumes "pm_requestable s UNIV req" and "pm_leaked s i"
  shows "i \<notin> set req \<union> set (pm_candidates s)"
  using assms by (auto simp: pm_requestable_def pm_leaked_def pm_listed_def)

lemma pm_same_settled:
  assumes "pm_approved s' = pm_approved s" and "\<forall>i \<in> set (pm_approved s). pm_heap s' ! i = pm_heap s ! i"
  shows "pm_settled s' = pm_settled s"
  using assms by (simp add: pm_settled_def pm_module_def)

lemma pm_extends_all_idle: "pm_extends s s' \<Longrightarrow> pm_all_idle s \<Longrightarrow> pm_all_idle s'"
  by (auto simp: pm_all_idle_def pm_extends_def)

text \<open>What the second half of a turn does, from the state after the requests have been collected.\<close>

lemma pm_turn_requests:
  assumes sort: "module_sort (lb_sort lib)" and inv: "pm_inv s" and req: "pm_requestable s UNIV req" "req \<noteq> []"
    and sim: "pm_all_simultaneous s req"
  shows "\<exists>r s'. err_bind (pm_runRequestModules lib d prev req s)
      (\<lambda>((highest_priority_module, candidate_modules_output), s3).
         case highest_priority_module of
           None \<Rightarrow> Inr (Some prev, s3)
         | Some h \<Rightarrow>
             if pm_waiting s3 h then Inr (Some candidate_modules_output, s3)
             else err_bind (pm_clearCandidateModules lib (pm_addApprovedModule h s3)) (\<lambda>s4. Inr (None, s4))) = Inr (r, s') \<and>
    pm_inv s' \<and> pm_root_lanelet s' = pm_root_lanelet s \<and> pm_managers s' = pm_managers s \<and> pm_idling s' = pm_idling s \<and>
    pm_keeps_leaks s s' \<and> (\<forall>i \<in> set (pm_approved s). pm_heap s' ! i = pm_heap s ! i) \<and>
    (case r of Some out \<Rightarrow> pm_approved s' = pm_approved s
     | None \<Rightarrow> \<exists>h. pm_approved s' = pm_approved s @ [h] \<and> \<not> pm_waiting s' h \<and> \<not> pm_expired s' h)"
proof -
  let ?X = "set req \<union> set (pm_candidates s)"
  obtain r out s1 where run: "pm_runRequestModules lib d prev req s = Inr ((r, out), s1)" and inv1: "pm_inv s1"
    and ran: "pm_ran ?X s s1"
    and chosen: "\<forall>h. r = Some h \<longrightarrow> h \<in> set req \<and> pm_registered s1 (pm_name s h) = [h] \<and> \<not> pm_expired s1 h \<and>
       (\<not> pm_waiting s1 h \<longrightarrow> h \<notin> set (pm_candidates s1))"
    using pm_runRequestModules_ok [OF sort inv req, of d prev] by blast
  have valid: "\<forall>i \<in> ?X. pm_valid s i"
    using req(1) pm_candidates_valid [OF inv] by (auto simp: pm_requestable_def)
  have apart: "\<forall>i \<in> set (pm_approved s). i \<notin> ?X"
    using req(1) pm_inv_disjoint [OF inv] by (auto simp: pm_requestable_def)
  have leaks1: "pm_keeps_leaks s s1"
    using pm_ran_leaked [OF pm_inv_core [OF inv] ran _ valid] pm_requestable_not_leaked [OF req(1)]
    by (simp add: pm_keeps_leaks_def)
  have same1: "\<forall>i \<in> set (pm_approved s). pm_heap s1 ! i = pm_heap s ! i" "pm_approved s1 = pm_approved s"
    "pm_root_lanelet s1 = pm_root_lanelet s" "pm_managers s1 = pm_managers s" "pm_idling s1 = pm_idling s"
    using ran apart by (auto simp: pm_ran_def)
  show ?thesis
  proof (cases "\<exists>h. r = Some h \<and> \<not> pm_waiting s1 h")
    case False
    then obtain o1 where "err_bind (pm_runRequestModules lib d prev req s)
      (\<lambda>((highest_priority_module, candidate_modules_output), s3).
         case highest_priority_module of
           None \<Rightarrow> Inr (Some prev, s3)
         | Some h \<Rightarrow>
             if pm_waiting s3 h then Inr (Some candidate_modules_output, s3)
             else err_bind (pm_clearCandidateModules lib (pm_addApprovedModule h s3)) (\<lambda>s4. Inr (None, s4))) = Inr (Some o1, s1)"
      using run by (cases r) auto
    then show ?thesis using inv1 leaks1 same1 by (intro exI [of _ "Some o1"] exI [of _ s1]) simp
  next
    case True
    then obtain h where h: "r = Some h" "\<not> pm_waiting s1 h" by blast
    with chosen have hr: "h \<in> set req" "pm_registered s1 (pm_name s h) = [h]" "\<not> pm_expired s1 h" "h \<notin> set (pm_candidates s1)"
      by simp_all
    have hv: "pm_valid s h" using hr(1) valid by simp
    have name: "pm_name s1 i = pm_name s i" if "pm_valid s i" for i
      using ran pm_valid_less [OF pm_inv_core [OF inv] that] by (intro pm_same_names) (simp_all add: pm_ran_def)
    have hv1: "pm_valid s1 h" using hv name [OF hv] same1(5) by (simp add: pm_valid_def)
    have out: "h \<notin> pm_listed s1" using hr(1,4) apart same1(2) by (auto simp: pm_listed_def)
    have "pm_simultaneous s1 i = pm_simultaneous s i" if "i \<in> insert h (set (pm_approved s))" for i
    proof -
      have "pm_valid s i" using that hv pm_inv_listed(1) [OF inv, of i] by (auto simp: pm_listed_def)
      then show ?thesis using name same1(4) by (simp add: pm_simultaneous_def)
    qed
    then have sim1: "pm_approved s1 = [] \<or> (\<forall>i \<in> insert h (set (pm_approved s1)). pm_simultaneous s1 i)"
      using sim hr(1) same1(2) by (auto simp: pm_all_simultaneous_def)
    obtain s2 where s2: "pm_clearCandidateModules lib (pm_addApprovedModule h s1) = Inr s2" "pm_inv s2"
      "pm_managers s2 = pm_managers s1" "pm_root_lanelet s2 = pm_root_lanelet s1" "pm_idling s2 = pm_idling s1"
      "pm_approved s2 = pm_approved s1 @ [h]"
      "\<forall>i. i \<notin> set (pm_candidates s1) \<longrightarrow> pm_heap s2 ! i = pm_heap s1 ! i"
      "\<forall>i. pm_leaked s1 i \<and> i \<noteq> h \<longrightarrow> pm_leaked s2 i \<and> pm_heap s2 ! i = pm_heap s1 ! i"
      using pm_approve_ok [OF inv1 hv1 _ out sim1, of lib] hr(2) name [OF hv] by auto
    have hm: "pm_module s2 h = pm_module s1 h" using s2(7) hr(4) by (simp add: pm_module_def)
    have "pm_heap s2 ! i = pm_heap s ! i" if i: "i \<in> set (pm_approved s)" for i
    proof -
      have "i \<notin> set (pm_candidates s1)" using i same1(2) pm_inv_disjoint [OF inv1] by auto
      then show ?thesis using s2(7) same1(1) i by simp
    qed
    moreover have "pm_keeps_leaks s s2"
    proof -
      have "i \<noteq> h" if "pm_leaked s i" for i
        using pm_requestable_not_leaked [OF req(1) that] hr(1) by auto
      with leaks1 s2(8) show ?thesis by (simp add: pm_keeps_leaks_def)
    qed
    moreover have "\<not> pm_waiting s2 h \<and> \<not> pm_expired s2 h" using h(2) hr(3) hm by (simp add: pm_expired_def)
    ultimately show ?thesis
      using run h s2 same1 by (intro exI [of _ None] exI [of _ s2]) simp
  qed
qed

definition pm_clear :: "'m pm_state \<Rightarrow> bool" where
  "pm_clear s \<longleftrightarrow> pm_listed s = {} \<and> (\<forall>n. pm_registered s n = [])"

lemma pm_shrinks_clear:
  assumes "pm_shrinks s s'" and "pm_clear s"
  shows "pm_clear s'"
proof -
  have "\<forall>n. pm_registered s' n = [] \<or> pm_registered s' n = pm_registered s n"
    using assms(1) by (simp add: pm_shrinks_def)
  then show ?thesis
    using pm_shrinks_listed [OF assms(1)] assms(2) by (auto simp: pm_clear_def)
qed

lemma pm_turn_ok:
  assumes sort: "module_sort (lb_sort lib)" and inv: "pm_inv s" and root: "pm_root_lanelet s \<noteq> None"
  shows "\<exists>r s'. pm_turn lib d s = Inr (r, s') \<and> pm_inv s' \<and> pm_root_lanelet s' \<noteq> None \<and>
    pm_managers s' = pm_managers s \<and> pm_keeps_leaks s s' \<and> (r \<noteq> None \<longrightarrow> pm_settled s') \<and> (pm_all_idle s \<or> pm_clear s \<longrightarrow> pm_all_idle s') \<and>
    (\<forall>lane results t1 t2. pm_root_lanelet s = Some lane \<and>
       pm_run_chain lib d (pm_approved s) (lb_reference_path lib d lane) [(''root'', lb_reference_path lib d lane)] s = (results, t1) \<and>
       pm_pop_waiting lib t1 = Inr t2 \<longrightarrow> pm_keeps_leaks t2 s')"
proof -
  obtain lane where lane: "pm_root_lanelet s = Some lane" using root by auto
  obtain prev s1 where s1: "pm_runApprovedModules lib d s = Inr (prev, s1)" "pm_shrinks s s1" and good: "pm_settled s1"
    and popped: "\<forall>results t1 t2. pm_run_chain lib d (pm_approved s) (lb_reference_path lib d lane)
         [(''root'', lb_reference_path lib d lane)] s = (results, t1) \<and> pm_pop_waiting lib t1 = Inr t2 \<longrightarrow>
       pm_keeps_leaks t2 s1"
    using pm_runApprovedModules_ok [OF inv lane, of lib d] by (auto simp: pm_settled_def)
  note inv1 = pm_shrinks_inv [OF inv s1(2)]
  have root1: "pm_root_lanelet s1 \<noteq> None" using s1(2) root by (simp add: pm_shrinks_def)
  obtain req s2 where s2: "pm_getRequestModules lib d prev s1 = Inr (req, s2)" "pm_extends s1 s2" "pm_inv s2"
    "pm_requestable s2 UNIV req" "req \<noteq> [] \<longrightarrow> pm_all_simultaneous s2 req"
    "pm_listed s1 = {} \<and> (\<forall>n. pm_registered s1 n = []) \<longrightarrow> (\<forall>mg \<in> set (pm_managers s2). pm_idling s2 (mg_name mg) \<noteq> None)"
    using pm_getRequestModules_ok [OF inv1, of lib d prev] by blast
  have leaks12: "pm_keeps_leaks s1 s2"
    using pm_extends_leaked [OF pm_inv_core [OF inv1] s2(2)] by (simp add: pm_keeps_leaks_def)
  have leaks2: "pm_keeps_leaks s s2"
    by (rule pm_keeps_leaks_trans [OF pm_shrinks_keeps_leaks [OF inv s1(2)] leaks12])
  have popped2: "\<forall>lane results t1 t2. pm_root_lanelet s = Some lane \<and>
       pm_run_chain lib d (pm_approved s) (lb_reference_path lib d lane) [(''root'', lb_reference_path lib d lane)] s = (results, t1) \<and>
       pm_pop_waiting lib t1 = Inr t2 \<longrightarrow> pm_keeps_leaks t2 s2"
    using popped lane pm_keeps_leaks_trans [OF _ leaks12] by auto
  have idle2: "pm_all_idle s \<or> pm_clear s \<longrightarrow> pm_all_idle s2"
  proof -
    have "pm_all_idle s \<longrightarrow> pm_all_idle s1" using s1(2) by (simp add: pm_all_idle_def pm_shrinks_def)
    moreover have "pm_clear s1 \<longrightarrow> pm_all_idle s2" using s2(6) by (simp add: pm_clear_def pm_all_idle_def)
    ultimately show ?thesis
      using pm_extends_all_idle [OF s2(2)] pm_shrinks_clear [OF s1(2)] by blast
  qed
  have heap2: "\<forall>i \<in> set (pm_approved s1). pm_heap s2 ! i = pm_heap s1 ! i"
  proof
    fix i assume "i \<in> set (pm_approved s1)"
    then have "i \<in> pm_listed s1" by (simp add: pm_listed_def)
    from pm_inv_listed [OF inv1 this] s2(2) show "pm_heap s2 ! i = pm_heap s1 ! i" by (simp add: pm_extends_def)
  qed
  have ap2: "pm_approved s2 = pm_approved s1" and root2: "pm_root_lanelet s2 = pm_root_lanelet s1"
    and mgs2: "pm_managers s2 = pm_managers s"
    using s2(2) s1(2) by (simp_all add: pm_extends_def pm_shrinks_def)
  have good2: "pm_settled s2" using pm_same_settled [OF ap2 heap2] good by simp
  show ?thesis
  proof (cases "req = []")
    case True
    then have "pm_turn lib d s = Inr (Some prev, s2)" by (simp add: pm_turn_def s1(1) s2(1))
    then show ?thesis using s2(3) root1 root2 mgs2 leaks2 good2 idle2 popped2
      by (intro exI [of _ "Some prev"] exI [of _ s2]) simp
  next
    case False
    then obtain r s3 where s3: "err_bind (pm_runRequestModules lib d prev req s2)
      (\<lambda>((highest_priority_module, candidate_modules_output), s3).
         case highest_priority_module of
           None \<Rightarrow> Inr (Some prev, s3)
         | Some h \<Rightarrow>
             if pm_waiting s3 h then Inr (Some candidate_modules_output, s3)
             else err_bind (pm_clearCandidateModules lib (pm_addApprovedModule h s3)) (\<lambda>s4. Inr (None, s4))) = Inr (r, s3)"
      and inv3: "pm_inv s3" and same3: "pm_root_lanelet s3 = pm_root_lanelet s2" "pm_managers s3 = pm_managers s2"
        "pm_idling s3 = pm_idling s2"
      and leaks3: "pm_keeps_leaks s2 s3" and heap3: "\<forall>i \<in> set (pm_approved s2). pm_heap s3 ! i = pm_heap s2 ! i"
      and r: "case r of Some out \<Rightarrow> pm_approved s3 = pm_approved s2
     | None \<Rightarrow> \<exists>h. pm_approved s3 = pm_approved s2 @ [h] \<and> \<not> pm_waiting s3 h \<and> \<not> pm_expired s3 h"
      using pm_turn_requests [OF sort s2(3,4) False, of d prev] s2(5) by blast
    have "pm_turn lib d s = Inr (r, s3)" using False s3 by (simp add: pm_turn_def s1(1) s2(1))
    moreover have "pm_settled s3" if "r \<noteq> None"
      using that r good2 pm_same_settled [OF _ heap3] by auto
    moreover have "pm_all_idle s2 \<longrightarrow> pm_all_idle s3" using same3 by (simp add: pm_all_idle_def)
    moreover have "\<forall>lane results t1 t2. pm_root_lanelet s = Some lane \<and>
       pm_run_chain lib d (pm_approved s) (lb_reference_path lib d lane) [(''root'', lb_reference_path lib d lane)] s = (results, t1) \<and>
       pm_pop_waiting lib t1 = Inr t2 \<longrightarrow> pm_keeps_leaks t2 s3"
      using popped2 pm_keeps_leaks_trans [OF _ leaks3] by blast
    ultimately show ?thesis
      using inv3 root1 root2 mgs2 same3 pm_keeps_leaks_trans [OF leaks2 leaks3] idle2
      by (intro exI [of _ r] exI [of _ s3]) simp
  qed
qed

section \<open>Sequences of planning cycles\<close>

lemma pm_loop_correct:
  assumes sort: "module_sort (lb_sort lib)" and "pm_inv s" and "pm_root_lanelet s \<noteq> None"
    and "pm_loop lib d s = Some r"
  shows "\<exists>out s'. r = Inr (out, s') \<and> pm_inv s' \<and> pm_root_lanelet s' \<noteq> None \<and> pm_managers s' = pm_managers s \<and>
      pm_keeps_leaks s s' \<and> pm_settled s' \<and>
    (pm_all_idle s \<or> pm_clear s \<longrightarrow> pm_all_idle s')"
proof -
  let ?P = "\<lambda>lib s r. module_sort (lb_sort lib) \<longrightarrow> pm_inv s \<longrightarrow> pm_root_lanelet s \<noteq> None \<longrightarrow>
    (\<exists>out s'. r = Inr (out, s') \<and> pm_inv s' \<and> pm_root_lanelet s' \<noteq> None \<and> pm_managers s' = pm_managers s \<and>
      pm_keeps_leaks s s' \<and> pm_settled s' \<and>
    (pm_all_idle s \<or> pm_clear s \<longrightarrow> pm_all_idle s'))"
  have "?P lib s r"
  proof (rule pm_loop.raw_induct [where P = "\<lambda>lib d s r. ?P lib s r", OF _ assms(4)])
    fix f :: "('a, 'b, 'c) pm_lib \<Rightarrow> 'c \<Rightarrow> 'a pm_state \<Rightarrow> (pm_error + 'b \<times> 'a pm_state) option"
      and lib :: "('a, 'b, 'c) pm_lib" and d s and r :: "pm_error + 'b \<times> 'a pm_state"
    assume IH: "\<And>lib d s r. f lib d s = Some r \<Longrightarrow> ?P lib s r"
      and step: "(case pm_turn lib d s of Inl e \<Rightarrow> Some (Inl e)
        | Inr (Some out, s1) \<Rightarrow> Some (Inr (out, s1)) | Inr (None, s1) \<Rightarrow> f lib d s1) = Some r"
    show "?P lib s r"
    proof (intro impI)
      assume sort: "module_sort (lb_sort lib)" and inv: "pm_inv s" and root: "pm_root_lanelet s \<noteq> None"
      obtain q s1 where s1: "pm_turn lib d s = Inr (q, s1)" "pm_inv s1" "pm_root_lanelet s1 \<noteq> None"
        "pm_keeps_leaks s s1" "q \<noteq> None \<longrightarrow> pm_settled s1" "pm_all_idle s \<or> pm_clear s \<longrightarrow> pm_all_idle s1"
        "pm_managers s1 = pm_managers s"
        using pm_turn_ok [OF sort inv root, of d] by blast
      show "\<exists>out s'. r = Inr (out, s') \<and> pm_inv s' \<and> pm_root_lanelet s' \<noteq> None \<and> pm_managers s' = pm_managers s \<and>
      pm_keeps_leaks s s' \<and> pm_settled s' \<and>
        (pm_all_idle s \<or> pm_clear s \<longrightarrow> pm_all_idle s')"
      proof (cases q)
        case None
        then have "f lib d s1 = Some r" using step s1(1) by simp
        with IH sort s1(2,3) obtain out s' where "r = Inr (out, s')" "pm_inv s'" "pm_root_lanelet s' \<noteq> None"
          "pm_managers s' = pm_managers s1" "pm_keeps_leaks s1 s'" "pm_settled s'" "pm_all_idle s1 \<or> pm_clear s1 \<longrightarrow> pm_all_idle s'"
          by blast
        then show ?thesis
          using pm_keeps_leaks_trans [OF s1(4)] s1(6,7) by (intro exI [of _ out] exI [of _ s']) auto
      next
        case (Some out)
        then show ?thesis using step s1 by auto
      qed
    qed
  qed
  with assms(1-3) show ?thesis by blast
qed

lemma pm_inv_root [simp]: "pm_inv (s\<lparr>pm_root_lanelet := lane\<rparr>) = pm_inv s"
  by (simp add: pm_inv_def pm_core_def pm_listed_def pm_valid_def pm_name_def pm_simultaneous_def)

lemma pm_run_correct:
  assumes sort: "module_sort (lb_sort lib)" and "pm_inv s" and "pm_run lib d s = Some r"
  shows "\<exists>out s'. r = Inr (out, s') \<and> pm_inv s' \<and> pm_root_lanelet s' \<noteq> None \<and> pm_managers s' = pm_managers s \<and>
      pm_keeps_leaks s s' \<and> pm_settled s' \<and>
    (pm_all_idle s \<or> pm_clear s \<longrightarrow> pm_all_idle s')"
proof -
  let ?s = "if pm_root_lanelet s = None then s\<lparr>pm_root_lanelet := Some (lb_closest_lanelet lib d)\<rparr> else s"
  have inv: "pm_inv ?s" and root: "pm_root_lanelet ?s \<noteq> None" using assms(2) by auto
  have "pm_managers ?s = pm_managers s" "pm_keeps_leaks ?s s' = pm_keeps_leaks s s'" "pm_all_idle ?s = pm_all_idle s" "pm_clear ?s = pm_clear s" for s'
    by (simp_all add: pm_keeps_leaks_def pm_leaked_def pm_valid_def pm_name_def pm_listed_def pm_all_idle_def pm_clear_def)
  with pm_loop_correct [OF sort inv root assms(3) [unfolded pm_run_def]] show ?thesis by simp
qed

text \<open>Resetting a manager, with the idling module it needs.\<close>

lemma pm_frame_fold:
  "pm_frame (set is) s (fold (\<lambda>i. pm_call_void (g i) i) is s) \<and>
   pm_registered (fold (\<lambda>i. pm_call_void (g i) i) is s) = pm_registered s"
proof (induction "is" arbitrary: s)
  case (Cons i "is")
  show ?case
    using Cons.IH [of "pm_call_void (g i) i s"] pm_call_void_frame [where i = i and s = s and f = "g i"]
      pm_frame_trans [of "{i}" s "pm_call_void (g i) i s" "set is"] by simp
qed (simp add: pm_frame_refl)

definition pm_unlisted :: "'m pm_state \<Rightarrow> bool" where
  "pm_unlisted s \<longleftrightarrow> pm_core s \<and> pm_listed s = {} \<and> pm_root_lanelet s = None"

lemma mg_reset_ok:
  assumes s: "pm_unlisted s" and idle: "pm_idling s (mg_name mg) \<noteq> None"
  shows "\<exists>s'. mg_reset lib mg s = Inr s' \<and> pm_unlisted s' \<and> pm_managers s' = pm_managers s \<and>
    pm_idling s' = (pm_idling s)(mg_name mg := None) \<and> pm_registered s' = (pm_registered s)(mg_name mg := [])"
proof -
  let ?n = "mg_name mg"
  obtain i where i: "pm_idling s ?n = Some i" using idle by auto
  define leave where "leave = (\<lambda>i. pm_call_void (sm_onExit (lb_class lib (pm_name s i))) i)"
  define s1 where "s1 = fold leave (pm_registered s ?n) s"
  have one: "pm_frame (set (pm_registered s ?n)) s s1 \<and> pm_registered s1 = pm_registered s"
    unfolding s1_def leave_def by (rule pm_frame_fold)
  define s2 where "s2 = leave i (s1\<lparr>pm_registered := (pm_registered s1)(?n := [])\<rparr>)"
  have two: "pm_frame {i} (s1\<lparr>pm_registered := (pm_registered s1)(?n := [])\<rparr>) s2"
    "pm_registered s2 = (pm_registered s)(?n := [])"
    using one by (simp_all add: s2_def leave_def pm_call_void_frame)
  define s' where "s' = s2\<lparr>pm_idling := (pm_idling s2)(?n := None)\<rparr>"
  have same: "pm_managers s' = pm_managers s" "pm_idling s' = (pm_idling s)(?n := None)"
    "pm_registered s' = (pm_registered s)(?n := [])" "pm_approved s' = pm_approved s" "pm_candidates s' = pm_candidates s"
    "pm_root_lanelet s' = pm_root_lanelet s" "map fst (pm_heap s') = map fst (pm_heap s)"
    using one two by (simp_all add: s'_def pm_frame_def)
  have "mg_reset lib mg s = Inr s'"
    using one i unfolding mg_reset_def Let_def leave_def [symmetric] s1_def [symmetric]
    by (simp add: s2_def s'_def pm_frame_def)
  moreover have "pm_core s'"
  proof -
    have core: "pm_core s" using s by (simp add: pm_unlisted_def)
    have "j < length (pm_heap s') \<and> pm_name s' j = n \<and> n \<in> mg_name ` set (pm_managers s')"
      if "pm_idling s' n = Some j" for n j
    proof -
      have "pm_idling s n = Some j" using that same(2) by (simp split: if_splits)
      from pm_core_idling [OF core this] pm_same_names [OF same(7), of j] same(1,7) show ?thesis
        by (metis length_map)
    qed
    moreover have "pm_registered s' n = [] \<or> (\<exists>j. pm_idling s' n = Some j \<and> pm_registered s' n = [j])" for n
      using core same(2,3) by (simp add: pm_core_def)
    ultimately show ?thesis using core same(1) by (simp add: pm_core_def)
  qed
  ultimately show ?thesis
    using s same by (intro exI [of _ s']) (simp add: pm_unlisted_def pm_listed_def)
qed

lemma pm_reset_all:
  assumes "pm_unlisted s" and "\<forall>mg \<in> set mgs. pm_idling s (mg_name mg) \<noteq> None" and "distinct (map mg_name mgs)"
  shows "\<exists>s'. err_fold (mg_reset lib) mgs s = Inr s' \<and> pm_unlisted s' \<and> pm_managers s' = pm_managers s \<and>
    (\<forall>n. pm_registered s' n = (if n \<in> mg_name ` set mgs then [] else pm_registered s n))"
  using assms
proof (induction mgs arbitrary: s)
  case (Cons mg mgs)
  obtain s1 where s1: "mg_reset lib mg s = Inr s1" "pm_unlisted s1" "pm_managers s1 = pm_managers s"
    "pm_idling s1 = (pm_idling s)(mg_name mg := None)" "pm_registered s1 = (pm_registered s)(mg_name mg := [])"
    using mg_reset_ok [OF Cons.prems(1), of mg lib] Cons.prems(2) by auto
  have "mg_name m \<noteq> mg_name mg" if "m \<in> set mgs" for m
    using Cons.prems(3) that by (metis distinct.simps(2) image_eqI list.simps(9) set_map)
  then have "\<forall>m \<in> set mgs. pm_idling s1 (mg_name m) \<noteq> None"
    using Cons.prems(2) s1(4) by simp
  then obtain s2 where "err_fold (mg_reset lib) mgs s1 = Inr s2" "pm_unlisted s2" "pm_managers s2 = pm_managers s1"
    "\<forall>n. pm_registered s2 n = (if n \<in> mg_name ` set mgs then [] else pm_registered s1 n)"
    using Cons.IH [OF s1(2)] Cons.prems(3) by auto
  with s1 show ?case by (intro exI [of _ s2]) auto
qed simp

lemma pm_reset_ok:
  assumes inv: "pm_inv s" and idle: "pm_all_idle s"
  shows "\<exists>s'. pm_reset lib s = Inr s' \<and> pm_inv s' \<and> pm_clear s' \<and> pm_root_lanelet s' = None \<and>
    pm_managers s' = pm_managers s"
proof -
  let ?s = "s\<lparr>pm_approved := [], pm_candidates := [], pm_root_lanelet := None\<rparr>"
  have core: "pm_core s" using inv by (rule pm_inv_core)
  have s: "pm_unlisted ?s" using core by (simp add: pm_unlisted_def pm_core_def pm_listed_def pm_name_def)
  have "\<forall>mg \<in> set (pm_managers s). pm_idling ?s (mg_name mg) \<noteq> None" "distinct (map mg_name (pm_managers s))"
    using idle core by (simp_all add: pm_all_idle_def pm_core_def)
  then obtain s' where s': "err_fold (mg_reset lib) (pm_managers s) ?s = Inr s'" "pm_unlisted s'"
    "pm_managers s' = pm_managers s" "\<forall>n. pm_registered s' n = (if n \<in> mg_name ` set (pm_managers s) then [] else pm_registered s n)"
    using pm_reset_all [OF s, of "pm_managers s" lib] by auto
  have "pm_registered s n = []" if "n \<notin> mg_name ` set (pm_managers s)" for n
    using core that pm_core_idling [OF core, of n] unfolding pm_core_def by metis
  then have "\<forall>n. pm_registered s' n = []" using s'(4) by simp
  then have clear: "pm_clear s'" using s'(2) by (simp add: pm_clear_def pm_unlisted_def)
  have "pm_inv s'"
    using s'(2) by (auto simp: pm_inv_def pm_unlisted_def pm_listed_def)
  with s' clear show ?thesis by (simp add: pm_reset_def pm_unlisted_def)
qed

text \<open>Between two cycles of the node every manager has its idling module; before the first there is none.\<close>

definition pm_between :: "bool \<Rightarrow> 'm pm_state \<Rightarrow> bool" where
  "pm_between first s \<longleftrightarrow> pm_inv s \<and>
     (if first then pm_clear s \<and> pm_root_lanelet s = None else pm_all_idle s \<and> pm_root_lanelet s \<noteq> None)"

lemma pm_resetRootLanelet_ok:
  assumes inv: "pm_inv s" and "pm_all_idle s \<or> pm_clear s \<and> pm_root_lanelet s = None"
  shows "\<exists>s'. pm_resetRootLanelet lib d s = Inr s' \<and> pm_inv s' \<and> (pm_all_idle s' \<or> pm_clear s') \<and>
    pm_managers s' = pm_managers s"
proof (cases "pm_root_lanelet s")
  case None
  let ?s' = "s\<lparr>pm_root_lanelet := Some (lb_closest_lanelet lib d)\<rparr>"
  have "pm_all_idle ?s' = pm_all_idle s" "pm_clear ?s' = pm_clear s"
    by (simp_all add: pm_all_idle_def pm_clear_def pm_listed_def)
  with None assms show ?thesis by (simp add: pm_resetRootLanelet_def)
next
  case (Some lane)
  then have idle: "pm_all_idle s" using assms(2) by simp
  from pm_reset_ok [OF inv idle, of lib] inv idle Some show ?thesis
    by (auto simp: pm_resetRootLanelet_def Let_def)
qed

lemma pm_cycle_correct:
  assumes sort: "module_sort (lb_sort lib)" and between: "pm_between first s" and run: "pm_cycle lib first c s = Some r"
  shows "\<exists>out s'. r = Inr (out, s') \<and> pm_between False s' \<and> pm_settled s' \<and> pm_managers s' = pm_managers s"
proof -
  have inv: "pm_inv s" and ready: "pm_all_idle s \<or> first \<and> pm_clear s \<and> pm_root_lanelet s = None"
    using between by (auto simp: pm_between_def split: if_splits)
  obtain s1 where s1: "(if ci_new_route c \<and> \<not> first then pm_reset lib s else Inr s) = Inr s1" "pm_inv s1"
    "pm_all_idle s1 \<or> pm_clear s1 \<and> pm_root_lanelet s1 = None" "pm_managers s1 = pm_managers s"
    using pm_reset_ok [OF inv, of lib] inv ready by (cases "ci_new_route c \<and> \<not> first") auto
  obtain s2 where s2: "(if \<not> ci_autonomous c then pm_resetRootLanelet lib (ci_data c) s1 else Inr s1) = Inr s2" "pm_inv s2"
    "pm_all_idle s2 \<or> pm_clear s2" "pm_managers s2 = pm_managers s1"
    using pm_resetRootLanelet_ok [OF s1(2,3), of lib "ci_data c"] s1(2,3) by (cases "ci_autonomous c") auto
  have "pm_run lib (ci_data c) s2 = Some r"
    using run s1(1) s2(1) by (simp add: pm_cycle_def)
  from pm_run_correct [OF sort s2(2) this] s2(3,4) s1(4) show ?thesis by (auto simp: pm_between_def)
qed

fun pm_cycles ::
  "('m, 'o, 'd) pm_lib \<Rightarrow> bool \<Rightarrow> 'd pm_cycle_input list \<Rightarrow> 'm pm_state \<Rightarrow> (pm_error + 'm pm_state) option" where
  "pm_cycles lib first [] s = Some (Inr s)"
| "pm_cycles lib first (c # cs) s =
     (case pm_cycle lib first c s of
        None \<Rightarrow> None
      | Some (Inl e) \<Rightarrow> Some (Inl e)
      | Some (Inr (out, s1)) \<Rightarrow> pm_cycles lib False cs s1)"

definition pm_new :: "(string \<Rightarrow> rtc_map) \<Rightarrow> 'm pm_state" where
  "pm_new rtc =
     \<lparr>pm_root_lanelet = None, pm_managers = [], pm_approved = [], pm_candidates = [], pm_registered = (\<lambda>_. []),
      pm_idling = (\<lambda>_. None), pm_rtc = rtc, pm_heap = []\<rparr>"

text \<open>The node registers the managers of the enabled modules when it is constructed.\<close>

definition pm_init :: "(string \<Rightarrow> rtc_map) \<Rightarrow> pm_manager list \<Rightarrow> 'm pm_state" where
  "pm_init rtc mgs = fold pm_registerSceneModuleManager mgs (pm_new rtc)"

definition pm_configured :: "pm_manager list \<Rightarrow> bool" where
  "pm_configured mgs \<longleftrightarrow> distinct (map mg_name mgs) \<and> (\<forall>mg \<in> set mgs. mg_max_module_num mg = 1)"

lemma pm_init_eq: "pm_init rtc mgs = (pm_new rtc)\<lparr>pm_managers := mgs\<rparr>"
proof -
  have "fold pm_registerSceneModuleManager mgs s = s\<lparr>pm_managers := pm_managers s @ mgs\<rparr>" for s :: "'a pm_state"
    by (induction mgs arbitrary: s) (simp_all add: pm_registerSceneModuleManager_def)
  then show ?thesis by (simp add: pm_init_def pm_new_def)
qed

lemma pm_init_between: "pm_configured mgs \<Longrightarrow> pm_between True (pm_init rtc mgs)"
  by (simp add: pm_init_eq pm_new_def pm_between_def pm_inv_def pm_core_def pm_listed_def pm_clear_def pm_configured_def)

lemma pm_cycles_correct:
  assumes sort: "module_sort (lb_sort lib)" and "pm_between first s" and "pm_settled s"
    and "pm_cycles lib first cs s = Some r"
  shows "\<exists>s'. r = Inr s' \<and> pm_between (first \<and> cs = []) s' \<and> pm_settled s' \<and> pm_managers s' = pm_managers s"
  using assms(2-)
proof (induction cs arbitrary: first s)
  case (Cons c cs)
  obtain q where q: "pm_cycle lib first c s = Some q" using Cons.prems(3) by (cases "pm_cycle lib first c s") auto
  obtain out s1 where s1: "q = Inr (out, s1)" "pm_between False s1" "pm_settled s1" "pm_managers s1 = pm_managers s"
    using pm_cycle_correct [OF sort Cons.prems(1) q] by blast
  then have "pm_cycles lib False cs s1 = Some r" using Cons.prems(3) q by simp
  from Cons.IH [OF s1(2,3) this] s1(4) show ?case by simp
qed auto

section \<open>How many turns a cycle takes\<close>

text \<open>
  A turn is calm when none of the approved modules asks for approval, has failed or has succeeded after the approved
  modules have run in it, so that the turn keeps all of them.
\<close>

definition pm_calm :: "('m, 'o, 'd) pm_lib \<Rightarrow> 'd \<Rightarrow> 'm pm_state \<Rightarrow> bool" where
  "pm_calm lib d s =
     (case pm_root_lanelet s of
        None \<Rightarrow> True
      | Some lane \<Rightarrow>
          let out = lb_reference_path lib d lane;
              s1 = snd (pm_run_chain lib d (pm_approved s) out [(''root'', out)] s)
          in \<forall>i \<in> set (pm_approved s). \<not> pm_waiting s1 i \<and> pm_status s1 i \<noteq> ModuleStatus_FAILURE \<and>
               pm_status s1 i \<noteq> ModuleStatus_SUCCESS)"

text \<open>The state before the turn with the given number, and none when the loop has ended before it.\<close>

fun pm_after_turns :: "('m, 'o, 'd) pm_lib \<Rightarrow> 'd \<Rightarrow> nat \<Rightarrow> 'm pm_state \<Rightarrow> 'm pm_state option" where
  "pm_after_turns lib d 0 s = Some s"
| "pm_after_turns lib d (Suc k) s =
     (case pm_turn lib d s of Inr (None, s1) \<Rightarrow> pm_after_turns lib d k s1 | _ \<Rightarrow> None)"

definition pm_cycle_start :: "('m, 'o, 'd) pm_lib \<Rightarrow> bool \<Rightarrow> 'd pm_cycle_input \<Rightarrow> 'm pm_state \<Rightarrow> pm_error + 'm pm_state" where
  "pm_cycle_start lib is_first_time c s =
     err_bind (if ci_new_route c \<and> \<not> is_first_time then pm_reset lib s else Inr s) (\<lambda>s1.
     err_bind (if \<not> ci_autonomous c then pm_resetRootLanelet lib (ci_data c) s1 else Inr s1) (\<lambda>s2.
       Inr (if pm_root_lanelet s2 = None then s2\<lparr>pm_root_lanelet := Some (lb_closest_lanelet lib (ci_data c))\<rparr> else s2)))"

definition pm_turn_state ::
  "('m, 'o, 'd) pm_lib \<Rightarrow> bool \<Rightarrow> 'd pm_cycle_input \<Rightarrow> 'm pm_state \<Rightarrow> nat \<Rightarrow> 'm pm_state option" where
  "pm_turn_state lib is_first_time c s k =
     (case pm_cycle_start lib is_first_time c s of Inl _ \<Rightarrow> None | Inr t \<Rightarrow> pm_after_turns lib (ci_data c) k t)"

lemma pm_after_turns_add:
  "pm_after_turns lib d (m + k) s = Option.bind (pm_after_turns lib d m s) (pm_after_turns lib d k)"
  by (induction m arbitrary: s) (auto split: sum.split option.split)

lemma pm_after_turns_ended: "pm_after_turns lib d m s = None \<Longrightarrow> m \<le> k \<Longrightarrow> pm_after_turns lib d k s = None"
  using pm_after_turns_add [of lib d m "k - m" s] by simp

lemma pm_runApproved_calm:
  assumes inv: "pm_inv s" and root: "pm_root_lanelet s = Some lane" and calm: "pm_calm lib d s"
  shows "\<exists>out s'. pm_runApprovedModules lib d s = Inr (out, s') \<and> pm_shrinks s s' \<and> pm_approved s' = pm_approved s"
proof -
  let ?out = "lb_reference_path lib d lane"
  obtain results s1 where chain: "pm_run_chain lib d (pm_approved s) ?out [(''root'', ?out)] s = (results, s1)"
    by fastforce
  have ap: "pm_approved s1 = pm_approved s" using pm_run_chain_frame [OF chain] by (simp add: pm_frame_def)
  have kept: "\<forall>i \<in> set (pm_approved s1). \<not> pm_waiting s1 i" "\<forall>i \<in> set (pm_approved s1). pm_status s1 i \<noteq> ModuleStatus_FAILURE"
    "\<forall>i \<in> set (pm_approved s1). pm_status s1 i \<noteq> ModuleStatus_SUCCESS"
    using calm by (simp_all add: pm_calm_def root chain ap)
  have w: "dropWhile (\<lambda>i. \<not> pm_waiting s1 i) (pm_approved s1) = []" using kept(1) by (simp add: dropWhile_eq_Nil_conv)
  have f: "dropWhile (\<lambda>i. pm_status s1 i \<noteq> ModuleStatus_FAILURE) (pm_approved s1) = []"
    "takeWhile (\<lambda>i. pm_status s1 i \<noteq> ModuleStatus_FAILURE) (pm_approved s1) = pm_approved s1"
    using kept(2) by (simp_all add: dropWhile_eq_Nil_conv takeWhile_eq_all_conv)
  have u: "takeWhile (\<lambda>i. pm_status s1 i = ModuleStatus_SUCCESS) (rev (pm_approved s1)) = []"
    using kept(3) by (cases "pm_approved s1" rule: rev_cases) simp_all
  have pops: "pm_pop_waiting lib s1 = Inr s1" "pm_pop_failure lib s1 = Inr s1" "pm_pop_success lib d s1 = Inr s1"
    unfolding pm_pop_waiting_def pm_pop_failure_def pm_pop_success_def Let_def w f u by simp_all
  have "map_of results ''root'' \<noteq> None" using pm_run_chain_frame [OF chain] by simp
  then obtain o1 where o1: "pm_at results ''root'' = Inr o1" by (auto simp: pm_at_def)
  have "\<exists>o2. (if map_of results (pm_name s1 (last (pm_approved s1))) = None then pm_at results ''root''
        else pm_at results (pm_name s1 (last (pm_approved s1)))) = Inr o2"
    using o1 by (cases "map_of results (pm_name s1 (last (pm_approved s1)))") (auto simp: pm_at_def)
  then obtain out where "pm_runApprovedModules lib d s = Inr (out, s1)"
    using o1 by (cases "pm_approved s1 = []") (auto simp: pm_runApprovedModules_def root Let_def chain pops)
  moreover have "pm_shrinks s s1"
    using pm_run_chain_frame [OF chain] by (intro pm_shrinks_calls [OF inv, of "set (pm_approved s)"]) (simp_all add: pm_listed_def)
  ultimately show ?thesis using ap by auto
qed

text \<open>A calm turn that does not end the loop approves one more module.\<close>

lemma pm_turn_calm:
  assumes sort: "module_sort (lb_sort lib)" and inv: "pm_inv s" and root: "pm_root_lanelet s \<noteq> None"
    and calm: "pm_calm lib d s" and turn: "pm_turn lib d s = Inr (None, s')"
  shows "length (pm_approved s') = length (pm_approved s) + 1"
proof -
  obtain lane where lane: "pm_root_lanelet s = Some lane" using root by auto
  obtain prev s1 where s1: "pm_runApprovedModules lib d s = Inr (prev, s1)" "pm_shrinks s s1" "pm_approved s1 = pm_approved s"
    using pm_runApproved_calm [OF inv lane calm] by blast
  note inv1 = pm_shrinks_inv [OF inv s1(2)]
  obtain req s2 where s2: "pm_getRequestModules lib d prev s1 = Inr (req, s2)" "pm_extends s1 s2" "pm_inv s2"
    "pm_requestable s2 UNIV req" "req \<noteq> [] \<longrightarrow> pm_all_simultaneous s2 req"
    using pm_getRequestModules_ok [OF inv1, of lib d prev] by blast
  have ap2: "pm_approved s2 = pm_approved s1" using s2(2) by (simp add: pm_extends_def)
  have ne: "req \<noteq> []" using turn by (auto simp: pm_turn_def s1(1) s2(1))
  obtain q s3 where s3: "err_bind (pm_runRequestModules lib d prev req s2)
      (\<lambda>((highest_priority_module, candidate_modules_output), s3).
         case highest_priority_module of
           None \<Rightarrow> Inr (Some prev, s3)
         | Some h \<Rightarrow>
             if pm_waiting s3 h then Inr (Some candidate_modules_output, s3)
             else err_bind (pm_clearCandidateModules lib (pm_addApprovedModule h s3)) (\<lambda>s4. Inr (None, s4))) = Inr (q, s3)"
    and q: "case q of Some out \<Rightarrow> pm_approved s3 = pm_approved s2
     | None \<Rightarrow> \<exists>h. pm_approved s3 = pm_approved s2 @ [h] \<and> \<not> pm_waiting s3 h \<and> \<not> pm_expired s3 h"
    using pm_turn_requests [OF sort s2(3,4) ne, of d prev] s2(5) ne by blast
  have "q = None" "s' = s3" using turn ne s3 by (simp_all add: pm_turn_def s1(1) s2(1))
  then show ?thesis using q ap2 s1(3) by auto
qed

lemma pm_approved_bounded:
  assumes "pm_inv s"
  shows "length (pm_approved s) \<le> length (pm_managers s)"
proof -
  have valid: "pm_valid s i" if "i \<in> set (pm_approved s)" for i
    using that pm_inv_listed(1) [OF assms] by (simp add: pm_listed_def)
  have "distinct (map (pm_name s) (pm_approved s))"
    using assms pm_valid_name_inj [OF valid valid] by (auto simp: distinct_map inj_on_def pm_inv_def)
  moreover have "set (map (pm_name s) (pm_approved s)) \<subseteq> set (map mg_name (pm_managers s))"
    using pm_core_idling [OF pm_inv_core [OF assms]] valid by (auto simp: pm_valid_def)
  ultimately show ?thesis
    by (metis card_mono distinct_card finite_set le_trans length_map card_length)
qed

lemma pm_turn_next:
  assumes sort: "module_sort (lb_sort lib)" and inv: "pm_inv s" and root: "pm_root_lanelet s \<noteq> None"
    and turn: "pm_turn lib d s = Inr (q, s1)"
  shows "pm_inv s1 \<and> pm_root_lanelet s1 \<noteq> None \<and> pm_managers s1 = pm_managers s"
  using pm_turn_ok [OF sort inv root, of d] turn by auto

lemma pm_after_turns_inv:
  assumes sort: "module_sort (lb_sort lib)" and "pm_inv s" and "pm_root_lanelet s \<noteq> None"
    and "pm_after_turns lib d k s = Some t"
  shows "pm_inv t \<and> pm_root_lanelet t \<noteq> None \<and> pm_managers t = pm_managers s"
  using assms(2-)
proof (induction k arbitrary: s)
  case (Suc k)
  then obtain s1 where s1: "pm_turn lib d s = Inr (None, s1)" "pm_after_turns lib d k s1 = Some t"
    by (auto split: sum.splits option.splits prod.splits)
  show ?case using Suc.IH [OF _ _ s1(2)] pm_turn_next [OF sort Suc.prems(1,2) s1(1)] by simp
qed simp

lemma pm_calm_turns_end:
  assumes sort: "module_sort (lb_sort lib)" and "pm_inv s" and "pm_root_lanelet s \<noteq> None"
    and "\<forall>k t. pm_after_turns lib d k s = Some t \<longrightarrow> pm_calm lib d t"
  shows "pm_after_turns lib d (Suc (length (pm_managers s) - length (pm_approved s))) s = None"
  using assms(2-)
proof (induction "length (pm_managers s) - length (pm_approved s)" arbitrary: s rule: less_induct)
  case less
  show ?case
  proof (cases "\<exists>s1. pm_turn lib d s = Inr (None, s1)")
    case True
    then obtain s1 where s1: "pm_turn lib d s = Inr (None, s1)" by auto
    have "pm_calm lib d s" using less.prems(3) [rule_format, of 0 s] by simp
    from pm_turn_calm [OF sort less.prems(1,2) this s1]
    have longer: "length (pm_approved s1) = length (pm_approved s) + 1" .
    have next1: "pm_inv s1" "pm_root_lanelet s1 \<noteq> None" "pm_managers s1 = pm_managers s"
      using pm_turn_next [OF sort less.prems(1,2) s1] by simp_all
    have calm1: "\<forall>k t. pm_after_turns lib d k s1 = Some t \<longrightarrow> pm_calm lib d t"
    proof (intro allI impI)
      fix k t assume "pm_after_turns lib d k s1 = Some t"
      then show "pm_calm lib d t" using less.prems(3) [rule_format, of "Suc k" t] s1 by simp
    qed
    have smaller: "length (pm_managers s) - length (pm_approved s) = Suc (length (pm_managers s1) - length (pm_approved s1))"
      using longer next1(3) pm_approved_bounded [OF next1(1)] by simp
    have "pm_after_turns lib d (Suc (length (pm_managers s1) - length (pm_approved s1))) s1 = None"
      using smaller by (intro less.hyps [OF _ next1(1,2) calm1]) simp
    then show ?thesis using s1 smaller by simp
  qed (auto split: sum.split option.split)
qed

lemma pm_loop_ends:
  assumes sort: "module_sort (lb_sort lib)" and "pm_inv s" and "pm_root_lanelet s \<noteq> None"
    and "pm_after_turns lib d k s = None"
  shows "\<exists>out s'. pm_loop lib d s = Some (Inr (out, s'))"
  using assms(2-)
proof (induction k arbitrary: s)
  case (Suc k)
  obtain r s1 where s1: "pm_turn lib d s = Inr (r, s1)"
    using pm_turn_ok [OF sort Suc.prems(1,2), of d] by blast
  note next1 = pm_turn_next [OF sort Suc.prems(1,2) s1]
  show ?case
  proof (cases r)
    case None
    then show ?thesis using Suc.IH [of s1] next1 Suc.prems(3) s1 by (subst pm_loop.simps) simp
  next
    case (Some out)
    then show ?thesis using s1 by (subst pm_loop.simps) simp
  qed
qed simp

lemma pm_cycle_eq:
  "pm_cycle lib first c s =
     (case pm_cycle_start lib first c s of Inl e \<Rightarrow> Some (Inl e) | Inr t \<Rightarrow> pm_loop lib (ci_data c) t)"
proof (cases "if ci_new_route c \<and> \<not> first then pm_reset lib s else Inr s")
  case (Inl e)
  then show ?thesis by (simp add: pm_cycle_def pm_cycle_start_def)
next
  case (Inr s1)
  then show ?thesis
    by (cases "if \<not> ci_autonomous c then pm_resetRootLanelet lib (ci_data c) s1 else Inr s1")
      (simp_all add: pm_cycle_def pm_cycle_start_def pm_run_def)
qed

lemma pm_cycle_start_ok:
  assumes between: "pm_between first s"
  shows "\<exists>t. pm_cycle_start lib first c s = Inr t \<and> pm_inv t \<and> pm_root_lanelet t \<noteq> None \<and> pm_managers t = pm_managers s"
proof -
  have inv: "pm_inv s" and ready: "pm_all_idle s \<or> first \<and> pm_clear s \<and> pm_root_lanelet s = None"
    using between by (auto simp: pm_between_def split: if_splits)
  obtain s1 where s1: "(if ci_new_route c \<and> \<not> first then pm_reset lib s else Inr s) = Inr s1" "pm_inv s1"
    "pm_all_idle s1 \<or> pm_clear s1 \<and> pm_root_lanelet s1 = None" "pm_managers s1 = pm_managers s"
    using pm_reset_ok [OF inv, of lib] inv ready by (cases "ci_new_route c \<and> \<not> first") auto
  have "\<exists>s2. pm_resetRootLanelet lib (ci_data c) s1 = Inr s2 \<and> pm_inv s2 \<and> pm_managers s2 = pm_managers s"
  proof (cases "pm_root_lanelet s1")
    case None
    with s1(2,4) show ?thesis by (simp add: pm_resetRootLanelet_def)
  next
    case (Some lane)
    then have "pm_all_idle s1" using s1(3) by simp
    from pm_reset_ok [OF s1(2) this, of lib] s1(2,4) Some show ?thesis
      by (auto simp: pm_resetRootLanelet_def Let_def)
  qed
  then obtain s2 where s2: "(if \<not> ci_autonomous c then pm_resetRootLanelet lib (ci_data c) s1 else Inr s1) = Inr s2" "pm_inv s2"
    "pm_managers s2 = pm_managers s"
    using s1(2,4) by (cases "ci_autonomous c") auto
  then show ?thesis using s1(1) by (simp add: pm_cycle_start_def)
qed

text \<open>Once the turns are calm the loop ends.\<close>

lemma pm_loop_finite:
  assumes sort: "module_sort (lb_sort lib)" and inv: "pm_inv s" and root: "pm_root_lanelet s \<noteq> None"
    and calm: "\<forall>k \<ge> n. \<forall>t. pm_after_turns lib d k s = Some t \<longrightarrow> pm_calm lib d t"
  shows "pm_after_turns lib d (Suc (n + length (pm_managers s))) s = None"
proof (cases "pm_after_turns lib d n s")
  case None
  then show ?thesis by (rule pm_after_turns_ended) simp
next
  case (Some u)
  have u: "pm_inv u" "pm_root_lanelet u \<noteq> None" "pm_managers u = pm_managers s"
    using pm_after_turns_inv [OF sort inv root Some] by simp_all
  have "\<forall>k t. pm_after_turns lib d k u = Some t \<longrightarrow> pm_calm lib d t"
  proof (intro allI impI)
    fix k t assume "pm_after_turns lib d k u = Some t"
    then show "pm_calm lib d t"
      using calm [rule_format, of "n + k" t] by (simp add: pm_after_turns_add Some)
  qed
  from pm_calm_turns_end [OF sort u(1,2) this] Some
  have "pm_after_turns lib d (n + Suc (length (pm_managers u) - length (pm_approved u))) s = None"
    by (simp only: pm_after_turns_add Option.bind.simps)
  then show ?thesis by (rule pm_after_turns_ended) (simp add: u(3))
qed

section \<open>Modules behind one that waits\<close>

lemma pm_turn_leaks:
  assumes sort: "module_sort (lb_sort lib)" and inv: "pm_inv s" and root: "pm_root_lanelet s = Some lane"
    and split: "pm_approved s = pre @ w # rest"
    and chain: "pm_run_chain lib d (pm_approved s) (lb_reference_path lib d lane) [(''root'', lb_reference_path lib d lane)] s = (results, s1)"
    and waits: "\<forall>i \<in> set pre. \<not> pm_waiting s1 i" "pm_waiting s1 w"
    and turn: "pm_turn lib d s = Inr (r, s')" and i: "i \<in> set rest"
  shows "pm_leaked s' i" and "pm_name s' i = pm_name s i"
proof -
  have frame: "pm_frame (set (pm_approved s)) s s1" "pm_registered s1 = pm_registered s"
    using pm_run_chain_frame [OF chain] by simp_all
  have inv1: "pm_inv s1"
    using frame by (intro pm_shrinks_inv [OF inv pm_shrinks_calls [OF inv frame(1)]]) (simp_all add: pm_listed_def)
  have ap1: "pm_approved s1 = pre @ w # rest" using frame split by (simp add: pm_frame_def)
  have take_it: "takeWhile (\<lambda>i. \<not> pm_waiting s1 i) (pm_approved s1) = pre"
    "dropWhile (\<lambda>i. \<not> pm_waiting s1 i) (pm_approved s1) = w # rest"
    using waits ap1 by (simp_all add: takeWhile_append2 dropWhile_append2)
  obtain s2 where s2: "pm_pop_waiting lib s1 = Inr s2" "pm_shrinks s1 s2" "pm_approved s2 = pre"
    "\<forall>i \<in> set (pm_approved s1). pm_registered s2 (pm_name s1 i) = [i]" "pm_candidates s2 = [w]"
    using pm_pop_waiting_ok [OF inv1, of lib] take_it by auto
  have l1: "i \<in> pm_listed s1" "i \<in> pm_listed s" using i ap1 split by (auto simp: pm_listed_def)
  have "distinct (pre @ w # rest)" using inv split by (auto simp: pm_inv_def)
  then have out: "i \<notin> pm_listed s2" using i s2(3,5) by (auto simp: pm_listed_def)
  have name2: "pm_name s2 i = pm_name s1 i"
    using s2(2) pm_inv_listed(3) [OF inv1 l1(1)] by (intro pm_same_names) (simp_all add: pm_shrinks_def)
  have "pm_leaked s2 i"
    using pm_inv_listed(1) [OF inv1 l1(1)] s2(2,4) out name2 l1(1) i ap1
    by (simp add: pm_leaked_def pm_valid_def pm_shrinks_def)
  moreover have "pm_keeps_leaks s2 s'"
    using pm_turn_ok [OF sort inv, of d] root chain s2(1) turn by auto
  ultimately have leak: "pm_leaked s' i" and heap: "pm_heap s' ! i = pm_heap s2 ! i"
    by (simp_all add: pm_keeps_leaks_def)
  show "pm_leaked s' i" by (rule leak)
  have "pm_name s1 i = pm_name s i"
    by (rule pm_frame_name [OF frame(1) pm_inv_listed(3) [OF inv l1(2)]])
  with heap name2 show "pm_name s' i = pm_name s i" by (simp add: pm_name_def)
qed

lemma pm_loop_after_turn:
  assumes sort: "module_sort (lb_sort lib)" and inv: "pm_inv s" and root: "pm_root_lanelet s \<noteq> None"
    and turn: "pm_turn lib d s = Inr (q, s1)" and loop: "pm_loop lib d s = Some (Inr (out, s'))"
  shows "pm_keeps_leaks s1 s'"
proof (cases q)
  case None
  then have "pm_loop lib d s1 = Some (Inr (out, s'))" using loop turn by (subst (asm) pm_loop.simps) simp
  moreover have "pm_inv s1" "pm_root_lanelet s1 \<noteq> None" using pm_turn_ok [OF sort inv root, of d] turn by auto
  ultimately show ?thesis using pm_loop_correct [OF sort, of s1 d] by blast
next
  case (Some o1)
  then have "s' = s1" using loop turn by (subst (asm) pm_loop.simps) simp
  then show ?thesis by (simp add: pm_keeps_leaks_def)
qed

text \<open>While the vehicle drives autonomously on its route nothing resets the managers.\<close>

definition pm_on_route :: "'d pm_cycle_input \<Rightarrow> bool" where
  "pm_on_route c \<longleftrightarrow> \<not> ci_new_route c \<and> ci_autonomous c"

lemma pm_cycle_on_route: "pm_on_route c \<Longrightarrow> pm_cycle lib first c s = pm_run lib (ci_data c) s"
  by (simp add: pm_on_route_def pm_cycle_def)

lemma pm_cycles_keep_leaks:
  assumes sort: "module_sort (lb_sort lib)" and "\<forall>c \<in> set cs. pm_on_route c" and "pm_inv s"
    and "pm_cycles lib first cs s = Some (Inr s')"
  shows "pm_keeps_leaks s s'"
  using assms(2-)
proof (induction cs arbitrary: first s)
  case Nil
  then show ?case by (simp add: pm_keeps_leaks_def)
next
  case (Cons c cs)
  obtain q where q: "pm_run lib (ci_data c) s = Some q"
    using Cons.prems by (cases "pm_run lib (ci_data c) s") (auto simp: pm_cycle_on_route)
  obtain out s1 where s1: "q = Inr (out, s1)" "pm_inv s1" "pm_keeps_leaks s s1"
    using pm_run_correct [OF sort Cons.prems(2) q] by blast
  have "pm_cycles lib False cs s1 = Some (Inr s')"
    using Cons.prems(1,3) q s1(1) by (simp add: pm_cycle_on_route)
  with Cons.IH [OF _ s1(2)] Cons.prems(1) pm_keeps_leaks_trans [OF s1(3)] show ?case by auto
qed

section \<open>What else the code does\<close>

text \<open>
  A candidate whose manager forbids simultaneous execution is run together with others when one of higher
  priority that allows it comes first.
\<close>

lemma pm_executables_not_exclusive:
  assumes "pm_getManager s i = Inr a" and "mg_simultaneous_as_candidate a" and "pm_getManager s j = Inr b"
    and "\<not> mg_simultaneous_as_candidate b"
  shows "pm_executables s [i, j] [] = Inr [i, j]"
  using assms by simp

text \<open>
  The test whether the vehicle is in a lane that follows the root lanelet compares the following lanes with the root
  lanelet itself, so that driving into the next lane resets all modules.
\<close>

lemma pm_next_lane_resets:
  assumes "pm_root_lanelet s = Some lane" and "lb_closest_lanelet lib d \<in> set (lb_following lib d lane)"
    and "lane \<notin> set (lb_following lib d lane)" and "pm_approved s = []"
    and "\<not> list_ex (\<lambda>i. sm_is_locked_new_module_launch (pm_module s i)) (pm_candidates s)"
  shows "pm_resetRootLanelet lib d s = pm_reset lib s"
  using assms by (auto simp: pm_resetRootLanelet_def Let_def list_ex_iff)

section \<open>Properties\<close>

text \<open>
  A library for the witnesses: every module wants to run and returns the output of the one before; the module
  \<open>a\<close> waits for approval once it has run a given number of times.
\<close>

definition pm_sample_class :: "nat \<Rightarrow> string \<Rightarrow> (nat, nat, nat) module_class" where
  "pm_sample_class n name =
     \<lparr>mc_construct = 0, mc_updateData = (\<lambda>_ _ v. v), mc_isExecutionRequested = (\<lambda>_ _ _. True),
      mc_run = (\<lambda>_ prev (m, rtc). (Suc prev, m\<lparr>sm_is_waiting_approval := name = ''a'' \<and> n < sm_impl m,
        sm_current_state := ModuleStatus_RUNNING, sm_impl := Suc (sm_impl m)\<rparr>, rtc)),
      mc_updateState = (\<lambda>_ _ v. v), mc_processOnEntry = (\<lambda>_ _ v. v), mc_processOnExit = (\<lambda>v. v)\<rparr>"

definition pm_sample :: "nat \<Rightarrow> (nat, nat, nat) pm_lib" where
  "pm_sample n =
     \<lparr>lb_class = pm_sample_class n, lb_sort = sort_key, lb_uuid = (\<lambda>_ _. []), lb_closest_lanelet = (\<lambda>_. 1),
      lb_reference_path = (\<lambda>d _. d), lb_following = (\<lambda>_ _. []), lb_empty_output = 0\<rparr>"

definition pm_sample_managers :: "pm_manager list" where
  "pm_sample_managers = [\<lparr>mg_name = ''a'', mg_max_module_num = 1, mg_priority = 0, mg_simultaneous_as_approved = True,
      mg_simultaneous_as_candidate = True\<rparr>,
     \<lparr>mg_name = ''b'', mg_max_module_num = 1, mg_priority = 1, mg_simultaneous_as_approved = True,
      mg_simultaneous_as_candidate = True\<rparr>]"

definition pm_sample_cycle :: "nat pm_cycle_input" where
  "pm_sample_cycle = \<lparr>ci_new_route = False, ci_autonomous = True, ci_data = 5\<rparr>"

lemma pm_sample_configured: "pm_configured pm_sample_managers"
  by (simp add: pm_configured_def pm_sample_managers_def)

lemma pm_sample_sort: "module_sort (lb_sort (pm_sample n))"
  by (simp add: pm_sample_def stable.module_sort_axioms)

text \<open>C18: However the scene modules behave, and whatever routes and operation modes the node sees, a planning cycle that
  returns never throws and never dereferences a null pointer, when the managers are registered once each with one
  module at most, as configured. Between cycles no module that waits for approval or has failed is among the
  approved modules, no module is in the lists twice, every listed module is registered with its
  manager, and a module that may not be approved together with others is alone.\<close>

theorem pm_cycles_safe:
  assumes "module_sort (lb_sort lib)" and "pm_configured mgs"
    and "pm_cycles lib True cs (pm_init rtc mgs) = Some r"
  shows "\<exists>s. r = Inr s \<and>
    (\<forall>i \<in> set (pm_approved s). \<not> pm_waiting s i \<and> pm_status s i \<noteq> ModuleStatus_FAILURE) \<and>
    distinct (pm_approved s @ pm_candidates s) \<and>
    (\<forall>i \<in> set (pm_approved s @ pm_candidates s). pm_registered s (pm_name s i) = [i]) \<and>
    (\<forall>i \<in> set (pm_approved s). \<forall>mg \<in> set mgs.
       mg_name mg = pm_name s i \<and> \<not> mg_simultaneous_as_approved mg \<longrightarrow> pm_approved s = [i])"
proof -
  have "pm_settled (pm_init rtc mgs)" by (simp add: pm_init_eq pm_new_def pm_settled_def)
  from pm_cycles_correct [OF assms(1) pm_init_between [OF assms(2)] this assms(3)]
  obtain s where s: "r = Inr s" "pm_inv s" "pm_settled s" "pm_managers s = mgs"
    by (auto simp: pm_between_def pm_init_eq)
  have "pm_approved s = [i]" if "i \<in> set (pm_approved s)" "mg \<in> set mgs" "mg_name mg = pm_name s i" "\<not> mg_simultaneous_as_approved mg"
    for i mg
    using s(2,4) that by (auto simp: pm_inv_def pm_simultaneous_def)
  then show ?thesis
    using s pm_inv_listed(2) [OF s(2)] by (auto simp: pm_settled_def pm_inv_def pm_listed_def)
qed

theorem pm_cycles_safe_witness:
  "\<exists>s. pm_cycles (pm_sample 2) True [pm_sample_cycle] (pm_init (\<lambda>_. []) pm_sample_managers) = Some (Inr s) \<and>
     pm_approved s = [0, 1] \<and> (\<forall>i \<in> set (pm_approved s). \<not> pm_waiting s i)"
proof -
  have "case pm_cycles (pm_sample 2) True [pm_sample_cycle] (pm_init (\<lambda>_. []) pm_sample_managers) of
    Some (Inr s) \<Rightarrow> pm_approved s = [0, 1] | _ \<Rightarrow> False" by code_simp
  then obtain s where s: "pm_cycles (pm_sample 2) True [pm_sample_cycle] (pm_init (\<lambda>_. []) pm_sample_managers) = Some (Inr s)"
    "pm_approved s = [0, 1]"
    by (auto split: option.splits sum.splits)
  from pm_cycles_safe [OF pm_sample_sort pm_sample_configured s(1)] s show ?thesis by auto
qed

text \<open>C19: A planning cycle returns when from some turn of its loop on, all approved modules stay approved. Let the managers be
  registered once each with one module at most, and take any cycle after any sequence of cycles that have returned,
  however the scene modules behave. If from the n-th turn of its loop on, after the approved modules have run in the turn
  none of them asks for approval, has failed or has succeeded (this is asked only of the approved modules and only in the turns that
  are really reached), then the cycle returns an output without an exception, and its loop makes at most
  n + 1 turns and one more for each manager. So a cycle can only go on for ever by throwing approved
  modules out again in infinitely many turns.\<close>

theorem pm_cycles_return:
  assumes "module_sort (lb_sort lib)" and "pm_configured mgs"
    and "pm_cycles lib True before (pm_init rtc mgs) = Some (Inr s)"
    and "\<forall>k \<ge> n. \<forall>t. pm_turn_state lib (before = []) c s k = Some t \<longrightarrow> pm_calm lib (ci_data c) t"
  shows "(\<exists>out s'. pm_cycle lib (before = []) c s = Some (Inr (out, s'))) \<and>
    pm_turn_state lib (before = []) c s (Suc (n + length mgs)) = None"
proof -
  have "pm_settled (pm_init rtc mgs)" by (simp add: pm_init_eq pm_new_def pm_settled_def)
  from pm_cycles_correct [OF assms(1) pm_init_between [OF assms(2)] this assms(3)]
  have s: "pm_between (before = []) s" "pm_managers s = mgs" by (auto simp: pm_init_eq)
  obtain t where t: "pm_cycle_start lib (before = []) c s = Inr t" "pm_inv t" "pm_root_lanelet t \<noteq> None" "pm_managers t = mgs"
    using pm_cycle_start_ok [OF s(1), of lib c] s(2) by auto
  have "\<forall>k \<ge> n. \<forall>u. pm_after_turns lib (ci_data c) k t = Some u \<longrightarrow> pm_calm lib (ci_data c) u"
    using assms(4) by (simp add: pm_turn_state_def t(1))
  from pm_loop_finite [OF assms(1) t(2,3) this]
  have stop: "pm_after_turns lib (ci_data c) (Suc (n + length mgs)) t = None" by (simp only: t(4))
  from pm_loop_ends [OF assms(1) t(2,3) stop] stop show ?thesis
    by (simp add: pm_cycle_eq pm_turn_state_def t(1))
qed

theorem pm_cycles_return_witness:
  "\<exists>t out s'. pm_turn_state (pm_sample 1) True pm_sample_cycle (pm_init (\<lambda>_. []) pm_sample_managers) 2 = Some t \<and>
     \<not> pm_calm (pm_sample 1) 5 t \<and>
     pm_cycle (pm_sample 1) True pm_sample_cycle (pm_init (\<lambda>_. []) pm_sample_managers) = Some (Inr (out, s'))"
proof -
  let ?s = "pm_init (\<lambda>_. []) pm_sample_managers :: nat pm_state"
  have "case pm_turn_state (pm_sample 1) True pm_sample_cycle ?s 2 of
      None \<Rightarrow> False
    | Some t \<Rightarrow> \<not> pm_calm (pm_sample 1) 5 t" by code_simp
  then obtain t where t: "pm_turn_state (pm_sample 1) True pm_sample_cycle ?s 2 = Some t" "\<not> pm_calm (pm_sample 1) 5 t"
    by (cases "pm_turn_state (pm_sample 1) True pm_sample_cycle ?s 2") auto
  have "case pm_turn_state (pm_sample 1) True pm_sample_cycle ?s 3 of None \<Rightarrow> True | Some _ \<Rightarrow> False" by code_simp
  then have "pm_turn_state (pm_sample 1) True pm_sample_cycle ?s 3 = None" by (simp split: option.splits)
  then have "pm_turn_state (pm_sample 1) True pm_sample_cycle ?s k = None" if "3 \<le> k" for k
    using that by (auto simp: pm_turn_state_def split: sum.splits intro: pm_after_turns_ended)
  then have "\<exists>out s'. pm_cycle (pm_sample 1) True pm_sample_cycle ?s = Some (Inr (out, s'))"
    using pm_cycles_return [where before = "[]" and lib = "pm_sample 1" and c = pm_sample_cycle and n = 3 and s = ?s,
      OF pm_sample_sort pm_sample_configured] by simp
  with t show ?thesis by blast
qed

text \<open>C20: A module behind one that asks for approval again is lost. Suppose that in some cycle the approved module w
  waits for approval after it has run, and none before it does. Then as long as the vehicle drives autonomously on
  its route, every module that was approved behind w stays registered with its manager, so that the manager launches no
  other, but is neither approved nor a candidate and is not run again.\<close>

theorem pm_modules_lost:
  assumes "module_sort (lb_sort lib)" and "pm_configured mgs"
    and "pm_cycles lib True before (pm_init rtc mgs) = Some (Inr s)" and "pm_root_lanelet s = Some lane"
    and "pm_approved s = pre @ w # rest"
    and "pm_run_chain lib (ci_data c) (pm_approved s) (lb_reference_path lib (ci_data c) lane)
      [(''root'', lb_reference_path lib (ci_data c) lane)] s = (results, s1)"
    and "\<forall>i \<in> set pre. \<not> pm_waiting s1 i" and "pm_waiting s1 w"
    and "\<forall>c' \<in> set (c # later). pm_on_route c'"
    and "pm_cycles lib False (c # later) s = Some (Inr s')" and "i \<in> set rest"
  shows "pm_registered s' (pm_name s i) = [i] \<and> i \<notin> set (pm_approved s') \<union> set (pm_candidates s')"
proof -
  have settled: "pm_settled (pm_init rtc mgs)" by (simp add: pm_init_eq pm_new_def pm_settled_def)
  have inv: "pm_inv s"
    using pm_cycles_correct [OF assms(1) pm_init_between [OF assms(2)] settled assms(3)] by (auto simp: pm_between_def)
  have root: "pm_root_lanelet s \<noteq> None" using assms(4) by simp
  obtain q t1 where turn: "pm_turn lib (ci_data c) s = Inr (q, t1)"
    using pm_turn_ok [OF assms(1) inv root, of "ci_data c"] by blast
  note lost = pm_turn_leaks [OF assms(1) inv assms(4-8) turn assms(11)]
  obtain p where p: "pm_run lib (ci_data c) s = Some p"
    using assms(9,10) by (cases "pm_run lib (ci_data c) s") (auto simp: pm_cycle_on_route)
  obtain out s2 where s2: "p = Inr (out, s2)" "pm_inv s2" using pm_run_correct [OF assms(1) inv p] by blast
  have loop: "pm_loop lib (ci_data c) s = Some (Inr (out, s2))" using p s2(1) root by (simp add: pm_run_def)
  have "pm_keeps_leaks t1 s2" by (rule pm_loop_after_turn [OF assms(1) inv root turn loop])
  moreover have cycles: "pm_cycles lib False later s2 = Some (Inr s')"
    using assms(9,10) p s2(1) by (simp add: pm_cycle_on_route)
  have "\<forall>c' \<in> set later. pm_on_route c'" using assms(9) by simp
  from pm_cycles_keep_leaks [OF assms(1) this s2(2) cycles] have "pm_keeps_leaks s2 s'" .
  ultimately have "pm_leaked s' i" "pm_heap s' ! i = pm_heap t1 ! i"
    using lost(1) by (simp_all add: pm_keeps_leaks_def)
  with lost(2) show ?thesis by (simp add: pm_leaked_def pm_listed_def pm_name_def)
qed

theorem pm_modules_lost_witness:
  "\<exists>s s'. pm_cycles (pm_sample 2) True [pm_sample_cycle] (pm_init (\<lambda>_. []) pm_sample_managers) = Some (Inr s) \<and>
     pm_approved s = [0, 1] \<and>
     pm_cycles (pm_sample 2) False [pm_sample_cycle, pm_sample_cycle] s = Some (Inr s') \<and>
     pm_registered s' ''b'' = [1] \<and> 1 \<notin> set (pm_approved s') \<union> set (pm_candidates s')"
proof -
  have "case pm_cycles (pm_sample 2) True [pm_sample_cycle] (pm_init (\<lambda>_. []) pm_sample_managers) of
    Some (Inr s) \<Rightarrow> pm_root_lanelet s = Some 1 \<and> pm_approved s = [0, 1] \<and> pm_name s 1 = ''b'' \<and>
      pm_waiting (snd (pm_run_chain (pm_sample 2) 5 [0, 1] 5 [(''root'', 5)] s)) 0 \<and>
      (case pm_cycles (pm_sample 2) False [pm_sample_cycle, pm_sample_cycle] s of Some (Inr s') \<Rightarrow> True | _ \<Rightarrow> False)
    | _ \<Rightarrow> False" by code_simp
  then obtain s s' where s: "pm_cycles (pm_sample 2) True [pm_sample_cycle] (pm_init (\<lambda>_. []) pm_sample_managers) = Some (Inr s)"
    "pm_root_lanelet s = Some 1" "pm_approved s = [] @ 0 # [1]" "pm_name s 1 = ''b''"
    "pm_waiting (snd (pm_run_chain (pm_sample 2) 5 [0, 1] 5 [(''root'', 5)] s)) 0"
    "pm_cycles (pm_sample 2) False [pm_sample_cycle, pm_sample_cycle] s = Some (Inr s')"
    by (auto split: option.splits sum.splits)
  obtain results s1 where chain: "pm_run_chain (pm_sample 2) 5 [0, 1] 5 [(''root'', 5)] s = (results, s1)" by fastforce
  have "pm_registered s' (pm_name s 1) = [1] \<and> 1 \<notin> set (pm_approved s') \<union> set (pm_candidates s')"
    by (rule pm_modules_lost [OF pm_sample_sort pm_sample_configured s(1-3), where c = pm_sample_cycle and
          later = "[pm_sample_cycle]" and results = results and i = 1])
      (use s(3,5,6) chain in \<open>simp_all add: pm_sample_cycle_def pm_sample_def pm_on_route_def\<close>)
  with s show ?thesis by auto
qed

end
