(* ===== verification/Surround_Obstacle_Checker.thy ===== *)
theory Surround_Obstacle_Checker
  imports Velocity_Limit_Selector Vehicle_Stop_Checker Trajectory_Geometry
begin

text \<open>
  planning/surround_obstacle_checker: while the vehicle stands and an obstacle is near, the node keeps it standing by a
  velocity limit of zero, which it sends to the external velocity limit selector (theory
  \<open>Velocity_Limit_Selector\<close>) and withdraws when the surroundings have been clear for some time.  Both nodes together
  are at the end of the theory.  Transformations (tf2) and distances of polygons (boost) are parameters; points of a
  cloud with a coordinate that is not finite are left out, their distance compares as false.  Debug markers are left out.
\<close>

section \<open>Types\<close>

type_synonym so_polygon = "(real \<times> real) list"

record so_object =
  ob_pose :: pose
  ob_shape :: shape_type
  ob_footprint :: "point list"
  ob_size_x :: real
  ob_size_y :: real

record 'a so_stamped =
  sa_frame :: string
  sa_stamp :: time
  sa_data :: 'a

record so_vehicle_info =
  vi_max_longitudinal_offset :: real
  vi_min_longitudinal_offset :: real
  vi_max_lateral_offset :: real
  vi_min_lateral_offset :: real

record so_param =
  sp_use_pointcloud :: bool
  sp_use_dynamic_object :: bool
  sp_surround_check_recover_distance :: real
  sp_surround_check_distance :: real
  sp_state_clear_time :: real
  sp_vehicle_info :: so_vehicle_info

text \<open>
  The library: looking up a transformation (arguments in the order of \<open>lookupTransform\<close>), applying it to a point, the
  pose of an object relative to it, \<open>tf2::doTransform\<close> of a polygon by a pose, \<open>bg::correct\<close>, and the distances from a polygon to
  a point and to a polygon.
\<close>

record 't so_lib =
  sl_lookup :: "string \<Rightarrow> string \<Rightarrow> time \<Rightarrow> 't option"
  sl_transform :: "'t \<Rightarrow> point \<Rightarrow> point"
  sl_relative_pose :: "'t \<Rightarrow> pose \<Rightarrow> pose"
  sl_transform_polygon :: "pose \<Rightarrow> point list \<Rightarrow> point list"
  sl_correct :: "so_polygon \<Rightarrow> so_polygon"
  sl_distance_point :: "so_polygon \<Rightarrow> real \<times> real \<Rightarrow> real"
  sl_distance_polygon :: "so_polygon \<Rightarrow> so_polygon \<Rightarrow> real"

datatype so_mode = SO_PASS | SO_STOP

record so_state =
  so_odometry_pose :: pose
  so_pointcloud :: "point list so_stamped option"
  so_objects :: "so_object list so_stamped option"
  so_mode :: so_mode
  so_last_obstacle_found_time :: "time option"
  so_twist_buffer :: "twist_stamped list"

text \<open>
  What the node publishes.  The reason for not starting is empty, or the text \<open>obstacle\<close> with the pose of the
  vehicle.
\<close>

datatype so_output =
    SO_VelocityLimit velocity_limit
  | SO_ClearVelocityLimit velocity_limit_clear
  | SO_NoStartReason "(string \<times> pose) option"

definition so_origin :: point where
  "so_origin = \<lparr>pt_x = 0, pt_y = 0, pt_z = 0\<rparr>"

definition so_new :: so_state where
  "so_new =
     \<lparr>so_odometry_pose = \<lparr>pt_x = 0, pt_y = 0, pt_z = 0, po_pitch = 0, po_yaw = 0\<rparr>, so_pointcloud = None,
      so_objects = None, so_mode = SO_PASS, so_last_obstacle_found_time = None, so_twist_buffer = []\<rparr>"

section \<open>Polygons\<close>

definition so_createObjPolygon :: "'t so_lib \<Rightarrow> pose \<Rightarrow> point list \<Rightarrow> so_polygon" where
  "so_createObjPolygon lib pose footprint =
     sl_correct lib (map (\<lambda>p. (pt_x p, pt_y p)) (sl_transform_polygon lib pose footprint))"

definition so_createObjPolygon_size :: "'t so_lib \<Rightarrow> pose \<Rightarrow> real \<Rightarrow> real \<Rightarrow> so_polygon" where
  "so_createObjPolygon_size lib pose size_x size_y =
     (let length_m = size_x / 2; width_m = size_y / 2;
          p = (\<lambda>x y. \<lparr>pt_x = x, pt_y = y, pt_z = 0\<rparr>)
      in so_createObjPolygon lib pose
           [p length_m (- width_m), p length_m width_m, p (- length_m) width_m, p (- length_m) (- width_m)])"

definition so_createSelfPolygon :: "'t so_lib \<Rightarrow> so_vehicle_info \<Rightarrow> so_polygon" where
  "so_createSelfPolygon lib vehicle_info =
     (let front_m = vi_max_longitudinal_offset vehicle_info; width_left_m = vi_max_lateral_offset vehicle_info;
          width_right_m = vi_min_lateral_offset vehicle_info; rear_m = vi_min_longitudinal_offset vehicle_info
      in sl_correct lib
           [(front_m, width_left_m), (front_m, width_right_m), (rear_m, width_right_m), (rear_m, width_left_m)])"

section \<open>The nearest obstacle\<close>

text \<open>The largest finite double, with which both searches start.\<close>

definition so_dbl_max :: real where
  "so_dbl_max = (2 - 1 / 2 ^ 52) * 2 ^ 1023"

text \<open>The loop of both searches over pairs of a distance and a point.\<close>

definition so_nearer :: "real \<times> point \<Rightarrow> real \<times> point \<Rightarrow> real \<times> point" where
  "so_nearer obstacle nearest = (if fst obstacle < fst nearest then obstacle else nearest)"

definition so_getNearestObstacleByPointCloud ::
  "so_param \<Rightarrow> 't so_lib \<Rightarrow> point list so_stamped \<Rightarrow> (real \<times> point) option" where
  "so_getNearestObstacleByPointCloud param lib cloud =
     (case sl_lookup lib ''base_link'' (sa_frame cloud) (sa_stamp cloud) of
        None \<Rightarrow> None
      | Some tf \<Rightarrow>
          let ego_polygon = so_createSelfPolygon lib (sp_vehicle_info param)
          in Some (fold (\<lambda>p. so_nearer (sl_distance_point lib ego_polygon (pt_x p, pt_y p), p))
               (map (sl_transform lib tf) (sa_data cloud)) (so_dbl_max, so_origin)))"

definition so_object_polygon :: "'t so_lib \<Rightarrow> 't \<Rightarrow> so_object \<Rightarrow> so_polygon" where
  "so_object_polygon lib tf obj =
     (let transformed_object_pose = sl_relative_pose lib tf (ob_pose obj)
      in if ob_shape obj = Shape_POLYGON then so_createObjPolygon lib transformed_object_pose (ob_footprint obj)
         else so_createObjPolygon_size lib transformed_object_pose (ob_size_x obj) (ob_size_y obj))"

definition so_getNearestObstacleByDynamicObject ::
  "so_param \<Rightarrow> 't so_lib \<Rightarrow> so_object list so_stamped \<Rightarrow> (real \<times> point) option" where
  "so_getNearestObstacleByDynamicObject param lib objects =
     (case sl_lookup lib (sa_frame objects) ''base_link'' (sa_stamp objects) of
        None \<Rightarrow> None
      | Some tf \<Rightarrow>
          let ego_polygon = so_createSelfPolygon lib (sp_vehicle_info param)
          in Some (fold (\<lambda>obj. so_nearer
                 (sl_distance_polygon lib ego_polygon (so_object_polygon lib tf obj), point.truncate (ob_pose obj)))
               (sa_data objects) (so_dbl_max, so_origin)))"

text \<open>The pointers are not null where the functions are called (see \<open>so_onTimer\<close>).\<close>

definition so_getNearestObstacle :: "so_param \<Rightarrow> 't so_lib \<Rightarrow> so_state \<Rightarrow> (real \<times> point) option" where
  "so_getNearestObstacle param lib s =
     (let nearest_pointcloud =
            (if sp_use_pointcloud param
             then Option.bind (so_pointcloud s) (so_getNearestObstacleByPointCloud param lib) else None);
          nearest_object =
            (if sp_use_dynamic_object param
             then Option.bind (so_objects s) (so_getNearestObstacleByDynamicObject param lib) else None)
      in case nearest_pointcloud of
           None \<Rightarrow> nearest_object
         | Some p \<Rightarrow>
             (case nearest_object of
                None \<Rightarrow> Some p
              | Some b \<Rightarrow> Some (if fst p < fst b then p else b)))"

section \<open>The state machine\<close>

definition so_isStopRequired ::
  "so_param \<Rightarrow> time \<Rightarrow> bool \<Rightarrow> bool \<Rightarrow> so_state \<Rightarrow> bool \<times> so_state" where
  "so_isStopRequired param now is_obstacle_found is_vehicle_stopped s =
     (if \<not> is_vehicle_stopped then (False, s)
      else if is_obstacle_found then (True, s\<lparr>so_last_obstacle_found_time := Some now\<rparr>)
      else if so_mode s \<noteq> SO_STOP then (False, s)
      else case so_last_obstacle_found_time s of
          Some t \<Rightarrow>
            if seconds (now - t) \<le> sp_state_clear_time param then (True, s)
            else (False, s\<lparr>so_last_obstacle_found_time := None\<rparr>)
        | None \<Rightarrow> (False, s\<lparr>so_last_obstacle_found_time := None\<rparr>))"

definition so_sender :: string where
  "so_sender = ''surround_obstacle_checker''"

definition so_found :: "real \<Rightarrow> (real \<times> point) option \<Rightarrow> bool" where
  "so_found check_distance nearest_obstacle =
     (case nearest_obstacle of None \<Rightarrow> False | Some (d, _) \<Rightarrow> d < check_distance)"

definition so_switch ::
  "so_param \<Rightarrow> time \<Rightarrow> (real \<times> point) option \<Rightarrow> bool \<Rightarrow> so_state \<Rightarrow> so_state \<times> so_output list" where
  "so_switch param now nearest_obstacle is_vehicle_stopped s =
     (case so_mode s of
        SO_PASS \<Rightarrow>
          (let (stop, s1) = so_isStopRequired param now
                 (so_found (sp_surround_check_distance param) nearest_obstacle) is_vehicle_stopped s
           in if \<not> stop then (s1, [])
              else (s1\<lparr>so_mode := SO_STOP\<rparr>,
                [SO_VelocityLimit (velocity_limit_new
                   \<lparr>vl_stamp := now, vl_max_velocity := Fin 0, vl_use_constraints := False, vl_sender := so_sender\<rparr>)]))
      | SO_STOP \<Rightarrow>
          (let (stop, s1) = so_isStopRequired param now
                 (so_found (sp_surround_check_recover_distance param) nearest_obstacle) is_vehicle_stopped s
           in if stop then (s1, [])
              else (s1\<lparr>so_mode := SO_PASS\<rparr>,
                [SO_ClearVelocityLimit \<lparr>vk_stamp = now, vk_command = True, vk_sender = so_sender\<rparr>])))"

definition so_onTimer :: "so_param \<Rightarrow> 't so_lib \<Rightarrow> time \<Rightarrow> so_state \<Rightarrow> so_state \<times> so_output list" where
  "so_onTimer param lib now s =
     (if sp_use_pointcloud param \<and> so_pointcloud s = None then (s, [])
      else if sp_use_dynamic_object param \<and> so_objects s = None then (s, [])
      else
        let nearest_obstacle = so_getNearestObstacle param lib s;
            is_vehicle_stopped = vs_isVehicleStopped 0 now (so_twist_buffer s);
            (s1, out) = so_switch param now nearest_obstacle is_vehicle_stopped s
        in (s1, out @ [SO_NoStartReason
             (if so_mode s1 = SO_STOP then Some (''obstacle'', so_odometry_pose s1) else None)]))"

definition so_onPointCloud :: "point list so_stamped \<Rightarrow> so_state \<Rightarrow> so_state" where
  "so_onPointCloud msg s = s\<lparr>so_pointcloud := Some msg\<rparr>"

definition so_onDynamicObjects :: "so_object list so_stamped \<Rightarrow> so_state \<Rightarrow> so_state" where
  "so_onDynamicObjects msg s = s\<lparr>so_objects := Some msg\<rparr>"

definition so_onOdometry :: "pose \<Rightarrow> so_state \<Rightarrow> so_state" where
  "so_onOdometry pose s = s\<lparr>so_odometry_pose := pose\<rparr>"

text \<open>
  The stop checker has its own subscription to the odometry, with a buffer of ten seconds; a sample older than that
  empties it and is undefined behaviour.
\<close>

definition so_onStopCheckerOdom :: "time \<Rightarrow> twist_stamped \<Rightarrow> so_state \<Rightarrow> so_state option" where
  "so_onStopCheckerOdom now twist s =
     map_option (\<lambda>buf. s\<lparr>so_twist_buffer := buf\<rparr>) (vs_addTwist 10 now twist (so_twist_buffer s))"

datatype so_event =
    SO_PointCloud "point list so_stamped"
  | SO_DynamicObjects "so_object list so_stamped"
  | SO_Odometry pose
  | SO_StopCheckerOdom twist_stamped
  | SO_Timer

fun so_handle ::
  "so_param \<Rightarrow> 't so_lib \<Rightarrow> time \<Rightarrow> so_event \<Rightarrow> so_state \<Rightarrow> (so_state \<times> so_output list) option" where
  "so_handle param lib now (SO_PointCloud msg) s = Some (so_onPointCloud msg s, [])"
| "so_handle param lib now (SO_DynamicObjects msg) s = Some (so_onDynamicObjects msg s, [])"
| "so_handle param lib now (SO_Odometry pose) s = Some (so_onOdometry pose s, [])"
| "so_handle param lib now (SO_StopCheckerOdom twist) s =
     map_option (\<lambda>s1. (s1, [])) (so_onStopCheckerOdom now twist s)"
| "so_handle param lib now SO_Timer s = Some (so_onTimer param lib now s)"

section \<open>With the velocity limit selector\<close>

text \<open>
  The two output topics are connected to the selector, which takes a message before the next callback of
  the checker.  The other events of the selector are limits and clear commands from elsewhere.
\<close>

datatype ss_event = SS_Checker so_event | SS_Selector vl_event

fun ss_deliver ::
  "(real \<Rightarrow> real) \<Rightarrow> vl_param \<Rightarrow> time \<Rightarrow> so_output list \<Rightarrow> vl_state \<Rightarrow> vl_state \<times> velocity_limit list" where
  "ss_deliver fl q now [] v = (v, [])"
| "ss_deliver fl q now (SO_VelocityLimit msg # os) v =
     (let (v1, l1) = vl_handle fl q now (VL_FromInternal msg) v; (v2, l2) = ss_deliver fl q now os v1 in (v2, l1 @ l2))"
| "ss_deliver fl q now (SO_ClearVelocityLimit msg # os) v =
     (let (v1, l1) = vl_handle fl q now (VL_Clear msg) v; (v2, l2) = ss_deliver fl q now os v1 in (v2, l1 @ l2))"
| "ss_deliver fl q now (SO_NoStartReason r # os) v = ss_deliver fl q now os v"

fun ss_step ::
  "(real \<Rightarrow> real) \<Rightarrow> vl_param \<Rightarrow> so_param \<Rightarrow> 't so_lib \<Rightarrow> time \<times> ss_event \<Rightarrow> so_state \<times> vl_state \<Rightarrow>
     ((so_state \<times> vl_state) \<times> velocity_limit list) option" where
  "ss_step fl q param lib (now, SS_Checker ev) (s, v) =
     map_option (\<lambda>(s1, out). let (v1, l) = ss_deliver fl q now out v in ((s1, v1), l)) (so_handle param lib now ev s)"
| "ss_step fl q param lib (now, SS_Selector ev) (s, v) =
     (let (v1, l) = vl_handle fl q now ev v in Some ((s, v1), l))"

text \<open>The states and the published limits of a run.\<close>

fun ss_run ::
  "(real \<Rightarrow> real) \<Rightarrow> vl_param \<Rightarrow> so_param \<Rightarrow> 't so_lib \<Rightarrow> (time \<times> ss_event) list \<Rightarrow> so_state \<times> vl_state \<Rightarrow>
     ((so_state \<times> vl_state) \<times> velocity_limit list) option" where
  "ss_run fl q param lib [] sv = Some (sv, [])"
| "ss_run fl q param lib (e # es) sv =
     (case ss_step fl q param lib e sv of
        None \<Rightarrow> None
      | Some (sv1, l1) \<Rightarrow> map_option (\<lambda>(sv2, l2). (sv2, l1 @ l2)) (ss_run fl q param lib es sv1))"

section \<open>The nearest obstacle is the nearest\<close>

lemma so_nearer_fold:
  "fst (fold (\<lambda>x. so_nearer (f x, g x)) xs n) = fold (\<lambda>x. min (f x)) xs (fst n)"
  by (induction xs arbitrary: n) (auto simp: so_nearer_def min_def intro!: arg_cong [where f = "fold _ _"])

lemma so_nearest_cloud:
  assumes "sl_lookup lib ''base_link'' (sa_frame cloud) (sa_stamp cloud) = Some tf"
  shows "map_option fst (so_getNearestObstacleByPointCloud param lib cloud) =
    Some (Min (insert so_dbl_max ((\<lambda>p. sl_distance_point lib (so_createSelfPolygon lib (sp_vehicle_info param))
      (pt_x (sl_transform lib tf p), pt_y (sl_transform lib tf p))) ` set (sa_data cloud))))"
  using assms
  by (simp add: so_getNearestObstacleByPointCloud_def so_nearer_fold fold_map comp_def fold_min_Min)

lemma so_nearest_objects:
  assumes "sl_lookup lib (sa_frame objects) ''base_link'' (sa_stamp objects) = Some tf"
  shows "map_option fst (so_getNearestObstacleByDynamicObject param lib objects) =
    Some (Min (insert so_dbl_max ((\<lambda>x. sl_distance_polygon lib (so_createSelfPolygon lib (sp_vehicle_info param))
      (so_object_polygon lib tf x)) ` set (sa_data objects))))"
  using assms
  by (simp add: so_getNearestObstacleByDynamicObject_def so_nearer_fold fold_min_Min)

section \<open>The checker and the selector together\<close>

lemma vl_update_table [simp]: "vls_table (vl_updateVelocityLimit fl q t v) = vls_table v"
  by (simp add: vl_updateVelocityLimit_def)

lemma vl_table_empty [simp]: "vl_table_ok []" "vl_lookup [] x = None"
  by (simp_all add: vl_table_ok_def vl_lookup_def)

definition so_ready :: "so_param \<Rightarrow> so_state \<Rightarrow> bool" where
  "so_ready param s \<longleftrightarrow> (sp_use_pointcloud param \<longrightarrow> so_pointcloud s \<noteq> None) \<and>
     (sp_use_dynamic_object param \<longrightarrow> so_objects s \<noteq> None)"

text \<open>The limit of the checker is in the table of the selector while, and only while, it is in the mode \<open>STOP\<close>.\<close>

definition ss_inv :: "(real \<Rightarrow> real) \<Rightarrow> so_state \<times> vl_state \<Rightarrow> bool" where
  "ss_inv fl = (\<lambda>(s, v). vl_table_ok (vls_table v) \<and>
     (case so_mode s of
        SO_PASS \<Rightarrow> vl_lookup (vls_table v) so_sender = None
      | SO_STOP \<Rightarrow> (\<exists>l. vl_lookup (vls_table v) so_sender = Some l \<and> vl_max_velocity l = Fin 0) \<and>
          vl_below fl 0 (vls_hardest_limit v)))"

fun ss_foreign :: "ss_event \<Rightarrow> bool" where
  "ss_foreign (SS_Checker ev) = True"
| "ss_foreign (SS_Selector ev) = (\<not> vl_touches so_sender ev)"

lemma so_handle_quiet:
  assumes "so_handle param lib t ev s = Some (s', out)" and "ev \<noteq> SO_Timer"
  shows "out = [] \<and> so_mode s' = so_mode s \<and> so_last_obstacle_found_time s' = so_last_obstacle_found_time s"
  using assms
  by (cases ev) (auto simp: so_onPointCloud_def so_onDynamicObjects_def so_onOdometry_def so_onStopCheckerOdom_def)

text \<open>What a turn of the state machine may do.\<close>

lemma so_switch_cases:
  assumes "so_switch param t nearest stopped s = (s', out)"
  obtains (keep) "so_mode s' = so_mode s" "out = []"
  | (stop) msg where "so_mode s = SO_PASS" "so_mode s' = SO_STOP" "out = [SO_VelocityLimit msg]"
      "vl_max_velocity msg = Fin 0" "vl_sender msg = so_sender"
  | (release) msg where "so_mode s = SO_STOP" "so_mode s' = SO_PASS" "out = [SO_ClearVelocityLimit msg]"
      "vk_command msg" "vk_sender msg = so_sender"
  using assms
  by (cases "so_mode s")
     (auto simp: so_switch_def so_isStopRequired_def split: if_splits option.splits)

lemma vl_handle_hardest:
  assumes "vl_holds x limit v" and "vl_max_velocity limit = Fin r" and "\<not> vl_touches x ev"
    and "vl_below fl r (vls_hardest_limit v)"
  shows "vl_below fl r (vls_hardest_limit (fst (vl_handle fl q t ev v)))"
proof -
  have "snd (vl_handle fl q t ev v) = [vls_hardest_limit (fst (vl_handle fl q t ev v))] \<or>
      fst (vl_handle fl q t ev v) = v"
    by (cases ev) (simp_all add: vl_onVelocityLimitFromAPI_def vl_onVelocityLimitFromInternal_def
        vl_onVelocityLimitClearCommand_def Let_def)
  with vl_handle_holds [OF assms(1-3), of fl q t] assms(4) show ?thesis by auto
qed

lemma vl_handle_untouched:
  assumes "vl_table_ok (vls_table v)" and "\<not> vl_touches x ev" and "vl_lookup (vls_table v) x = None"
  shows "vl_table_ok (vls_table (fst (vl_handle fl q t ev v))) \<and>
    vl_lookup (vls_table (fst (vl_handle fl q t ev v))) x = None"
  using assms
  by (cases ev)
     (auto simp: vl_onVelocityLimitFromAPI_def vl_onVelocityLimitFromInternal_def vl_onVelocityLimitClearCommand_def
       vl_setVelocityLimitFromAPI_def vl_setVelocityLimitFromInternal_def vl_clearVelocityLimit_def Let_def
       vl_limits.ok_upsert vl_limits.ok_remove vl_limits.lookup_upsert vl_limits.lookup_remove)

text \<open>The two messages of the checker.\<close>

lemma vl_set_zero:
  assumes "vl_table_ok (vls_table v)" and "vl_max_velocity msg = Fin 0"
  shows "\<exists>v'. vl_handle fl q t (VL_FromInternal msg) v = (v', [vls_hardest_limit v']) \<and>
    vl_table_ok (vls_table v') \<and> vl_lookup (vls_table v') (vl_sender msg) = Some msg \<and>
    vl_below fl 0 (vls_hardest_limit v')"
proof -
  let ?v = "v\<lparr>vls_table := vl_table_set (vl_sender msg) msg (vls_table v)\<rparr>"
  let ?v' = "vl_updateVelocityLimit fl q t ?v"
  have holds: "vl_holds (vl_sender msg) msg ?v"
    using assms(1) by (simp add: vl_holds_def vl_limits.ok_upsert vl_limits.lookup_upsert split: option.split)
  from vl_update_below [OF holds assms(2), of fl q t] holds
  have "vl_table_ok (vls_table ?v') \<and> vl_lookup (vls_table ?v') (vl_sender msg) = Some msg \<and>
      vl_below fl 0 (vls_hardest_limit ?v')"
    by (simp add: vl_holds_def)
  moreover have "vl_handle fl q t (VL_FromInternal msg) v = (?v', [vls_hardest_limit ?v'])"
    by (simp add: vl_onVelocityLimitFromInternal_def vl_setVelocityLimitFromInternal_def Let_def)
  ultimately show ?thesis by blast
qed

lemma vl_withdraw:
  assumes "vl_table_ok (vls_table v)" and "vk_command msg"
  shows "\<exists>v'. vl_handle fl q t (VL_Clear msg) v = (v', [vls_hardest_limit v']) \<and>
    vl_table_ok (vls_table v') \<and> vl_lookup (vls_table v') (vk_sender msg) = None"
  using assms
  by (auto simp: vl_onVelocityLimitClearCommand_def vl_clearVelocityLimit_def Let_def
      vl_limits.ok_remove vl_limits.lookup_remove)

lemma ss_inv_cases:
  "ss_inv fl (s, v) \<longleftrightarrow> vl_table_ok (vls_table v) \<and>
     (so_mode s = SO_PASS \<longrightarrow> vl_lookup (vls_table v) so_sender = None) \<and>
     (so_mode s = SO_STOP \<longrightarrow> (\<exists>l. vl_lookup (vls_table v) so_sender = Some l \<and> vl_max_velocity l = Fin 0) \<and>
        vl_below fl 0 (vls_hardest_limit v))"
  by (auto simp: ss_inv_def split: so_mode.split)

lemma so_onTimer_cases:
  assumes "so_onTimer param lib t s = (s', out)"
  obtains (idle) "\<not> so_ready param s" "s' = s" "out = []"
  | (switch) out1 r where "so_ready param s" "out = out1 @ [SO_NoStartReason r]"
      "so_switch param t (so_getNearestObstacle param lib s) (vs_isVehicleStopped 0 t (so_twist_buffer s)) s = (s', out1)"
  using assms
  by (auto simp: so_onTimer_def so_ready_def Let_def split: if_splits prod.splits)

lemma ss_timer_inv:
  assumes inv: "ss_inv fl (s, v)" and tick: "so_onTimer param lib t s = (s', out)"
  shows "ss_inv fl (s', fst (ss_deliver fl q t out v)) \<and>
    (so_mode s' = SO_STOP \<longrightarrow> (\<forall>l \<in> set (snd (ss_deliver fl q t out v)). vl_below fl 0 l))"
  using tick
proof (cases rule: so_onTimer_cases)
  case idle
  with inv show ?thesis by simp
next
  case (switch out1 r)
  from switch(3) show ?thesis
  proof (cases rule: so_switch_cases)
    case keep
    with inv switch(2) show ?thesis by (auto simp: ss_inv_cases)
  next
    case (stop msg)
    from vl_set_zero [OF _ stop(4), of v fl q t] inv stop(5)
    obtain v' where "vl_handle fl q t (VL_FromInternal msg) v = (v', [vls_hardest_limit v'])" "vl_table_ok (vls_table v')"
      "vl_lookup (vls_table v') so_sender = Some msg" "vl_below fl 0 (vls_hardest_limit v')"
      by (auto simp: ss_inv_cases)
    with stop switch(2) show ?thesis by (simp add: ss_inv_cases)
  next
    case (release msg)
    from vl_withdraw [OF _ release(4), of v fl q t] inv release(5)
    obtain v' where "vl_handle fl q t (VL_Clear msg) v = (v', [vls_hardest_limit v'])" "vl_table_ok (vls_table v')"
      "vl_lookup (vls_table v') so_sender = None"
      by (auto simp: ss_inv_cases)
    with release switch(2) show ?thesis by (simp add: ss_inv_cases)
  qed
qed

lemma ss_step_inv:
  assumes inv: "ss_inv fl sv" and step: "ss_step fl q param lib (t, e) sv = Some (sv', ls)" and "ss_foreign e"
  shows "ss_inv fl sv' \<and> (so_mode (fst sv') = SO_STOP \<longrightarrow> (\<forall>l \<in> set ls. vl_below fl 0 l))"
proof -
  obtain s v where sv: "sv = (s, v)" by fastforce
  show ?thesis
  proof (cases e)
    case (SS_Checker ev)
    with step sv obtain s' out where h: "so_handle param lib t ev s = Some (s', out)"
      and sv': "sv' = (s', fst (ss_deliver fl q t out v))" "ls = snd (ss_deliver fl q t out v)"
      by (auto simp: case_prod_beta)
    show ?thesis
    proof (cases "ev = SO_Timer")
      case True
      with h have "so_onTimer param lib t s = (s', out)" by simp
      with ss_timer_inv [OF inv [unfolded sv]] sv' show ?thesis by simp
    next
      case False
      from so_handle_quiet [OF h False] inv sv sv' show ?thesis by (auto simp: ss_inv_cases)
    qed
  next
    case (SS_Selector ev)
    with assms(3) have quiet: "\<not> vl_touches so_sender ev" by simp
    from SS_Selector step sv have sv': "sv' = (s, fst (vl_handle fl q t ev v))" "ls = snd (vl_handle fl q t ev v)"
      by (auto simp: case_prod_beta)
    show ?thesis
    proof (cases "so_mode s")
      case SO_PASS
      with vl_handle_untouched [OF _ quiet, of v fl q t] inv sv sv' show ?thesis by (simp add: ss_inv_cases)
    next
      case SO_STOP
      with inv sv obtain l where l: "vl_holds so_sender l v" "vl_max_velocity l = Fin 0" "vl_below fl 0 (vls_hardest_limit v)"
        by (auto simp: ss_inv_cases vl_holds_def)
      from vl_handle_holds [OF l(1,2) quiet, of fl q t] vl_handle_hardest [OF l(1,2) quiet l(3), of q t] l(2) sv sv' SO_STOP
      show ?thesis by (auto simp: ss_inv_cases vl_holds_def)
    qed
  qed
qed

lemma ss_run_Cons:
  assumes "ss_run fl q param lib (e # es) sv = Some (sv', ls)"
  obtains sv1 l1 l2 where "ss_step fl q param lib e sv = Some (sv1, l1)"
    "ss_run fl q param lib es sv1 = Some (sv', l2)" "ls = l1 @ l2"
  using assms by (cases "ss_step fl q param lib e sv") (auto simp: case_prod_beta)

lemma ss_run_inv:
  assumes "ss_inv fl sv" and "ss_run fl q param lib es sv = Some (sv', ls)" and "\<forall>(t, e) \<in> set es. ss_foreign e"
  shows "ss_inv fl sv'"
  using assms
proof (induction es arbitrary: sv ls)
  case (Cons e es)
  obtain t ev where e: "e = (t, ev)" by fastforce
  from Cons.prems(2) obtain sv1 l1 l2 where step: "ss_step fl q param lib (t, ev) sv = Some (sv1, l1)"
    and run: "ss_run fl q param lib es sv1 = Some (sv', l2)"
    unfolding e by (rule ss_run_Cons)
  from ss_step_inv [OF Cons.prems(1) step] Cons.prems(3) e have "ss_inv fl sv1" by simp
  with Cons.IH run Cons.prems(3) show ?case by auto
qed simp

lemma ss_inv_init: "ss_inv fl (so_new, vl_init)"
  by (simp add: ss_inv_cases so_new_def vl_init_def)

section \<open>The vehicle is kept standing\<close>

lemma so_onTimer_buffer [simp]: "so_twist_buffer (fst (so_onTimer param lib t s)) = so_twist_buffer s"
  by (auto simp: so_onTimer_def so_switch_def so_isStopRequired_def Let_def split: so_mode.split prod.split option.split if_splits)

text \<open>The checker is in the mode \<open>STOP\<close> and has found an obstacle at \<open>u\<close> or later.\<close>

definition so_held :: "time \<Rightarrow> so_state \<Rightarrow> bool" where
  "so_held u s \<longleftrightarrow> so_mode s = SO_STOP \<and> (\<exists>t. so_last_obstacle_found_time s = Some t \<and> u \<le> t)"

lemma so_switch_found:
  assumes "so_found (sp_surround_check_distance param) nearest"
    and "sp_surround_check_distance param \<le> sp_surround_check_recover_distance param"
    and "so_switch param u nearest True s = (s', out)"
  shows "so_held u s'"
proof -
  have "so_found (sp_surround_check_recover_distance param) nearest"
    using assms(1,2) by (auto simp: so_found_def split: option.splits)
  with assms(1,3) show ?thesis
    by (cases "so_mode s") (auto simp: so_switch_def so_isStopRequired_def so_held_def)
qed

lemma so_switch_held:
  assumes "so_held u s" and "u \<le> t" and "seconds (t - u) \<le> sp_state_clear_time param"
    and "so_switch param t nearest True s = (s', out)"
  shows "so_held u s'"
proof -
  obtain t0 where t0: "so_mode s = SO_STOP" "so_last_obstacle_found_time s = Some t0" "u \<le> t0"
    using assms(1) by (auto simp: so_held_def)
  have "seconds (t - t0) \<le> seconds (t - u)" using t0(3) by simp
  then have "seconds (t - t0) \<le> sp_state_clear_time param" using assms(3) by linarith
  with t0 assms(2,4) show ?thesis
    by (cases "so_found (sp_surround_check_recover_distance param) nearest")
       (auto simp: so_switch_def so_isStopRequired_def so_held_def)
qed

lemma so_onTimer_held:
  assumes "so_held u s" and "u \<le> t" and "seconds (t - u) \<le> sp_state_clear_time param"
    and "vs_isVehicleStopped 0 t (so_twist_buffer s)" and "so_onTimer param lib t s = (s', out)"
  shows "so_held u s'"
  using assms(5)
proof (cases rule: so_onTimer_cases)
  case idle
  with assms(1) show ?thesis by simp
next
  case (switch out1 r)
  with so_switch_held [OF assms(1-3)] assms(4) show ?thesis by simp
qed

lemma ss_step_held:
  assumes "so_held u (fst sv)" and "ss_step fl q param lib (t, e) sv = Some (sv', ls)"
    and "u \<le> t" and "seconds (t - u) \<le> sp_state_clear_time param"
    and "e = SS_Checker SO_Timer \<longrightarrow> vs_isVehicleStopped 0 t (so_twist_buffer (fst sv))"
  shows "so_held u (fst sv')"
proof -
  obtain s v where sv: "sv = (s, v)" by fastforce
  show ?thesis
  proof (cases e)
    case (SS_Checker ev)
    with assms(2) sv obtain s' out where h: "so_handle param lib t ev s = Some (s', out)" and sv': "fst sv' = s'"
      by (auto simp: case_prod_beta)
    show ?thesis
    proof (cases "ev = SO_Timer")
      case True
      with h SS_Checker sv sv' so_onTimer_held [OF _ assms(3,4)] assms(1,5) show ?thesis by simp
    next
      case False
      from so_handle_quiet [OF h False] assms(1) sv sv' show ?thesis by (simp add: so_held_def)
    qed
  next
    case (SS_Selector ev)
    with assms(1,2) sv show ?thesis by (auto simp: case_prod_beta)
  qed
qed

text \<open>Every tick of a run sees a standing vehicle.\<close>

fun ss_stands ::
  "(real \<Rightarrow> real) \<Rightarrow> vl_param \<Rightarrow> so_param \<Rightarrow> 't so_lib \<Rightarrow> (time \<times> ss_event) list \<Rightarrow> so_state \<times> vl_state \<Rightarrow> bool" where
  "ss_stands fl q param lib [] sv = True"
| "ss_stands fl q param lib ((t, e) # es) sv =
     ((e = SS_Checker SO_Timer \<longrightarrow> vs_isVehicleStopped 0 t (so_twist_buffer (fst sv))) \<and>
      (case ss_step fl q param lib (t, e) sv of None \<Rightarrow> True | Some (sv1, _) \<Rightarrow> ss_stands fl q param lib es sv1))"

lemma ss_run_held:
  assumes "so_held u (fst sv)" and "ss_inv fl sv" and "ss_run fl q param lib es sv = Some (sv', ls)"
    and "ss_stands fl q param lib es sv"
    and "\<forall>(t, e) \<in> set es. ss_foreign e \<and> u \<le> t \<and> seconds (t - u) \<le> sp_state_clear_time param"
  shows "so_held u (fst sv') \<and> ss_inv fl sv' \<and> (\<forall>l \<in> set ls. vl_below fl 0 l)"
  using assms
proof (induction es arbitrary: sv ls)
  case (Cons e es)
  obtain t ev where e: "e = (t, ev)" by fastforce
  from Cons.prems(3) obtain sv1 l1 l2 where step: "ss_step fl q param lib (t, ev) sv = Some (sv1, l1)"
    and run: "ss_run fl q param lib es sv1 = Some (sv', l2)" "ls = l1 @ l2"
    unfolding e by (rule ss_run_Cons)
  have held: "so_held u (fst sv1)"
    using ss_step_held [OF Cons.prems(1) step] Cons.prems(4,5) e by simp
  have inv: "ss_inv fl sv1" and below: "\<forall>l \<in> set l1. vl_below fl 0 l"
    using ss_step_inv [OF Cons.prems(2) step] Cons.prems(5) e held by (simp_all add: so_held_def)
  have "ss_stands fl q param lib es sv1" using Cons.prems(4) e step by simp
  from Cons.IH [OF held inv run(1) this] Cons.prems(5) below run(2) show ?case by auto
qed simp

text \<open>C21: A standing vehicle with an obstacle near it is kept standing. Suppose that, after any run of the checker and the
  velocity limit selector in which nobody else uses the name of the checker, the timer of the checker ticks while the vehicle stands and the
  nearest obstacle is nearer than the check distance. From then on, for the time after which the stop is
  cleared and as long as every tick sees the vehicle standing, every limit the selector publishes, whatever limits
  other modules and the API set and clear and wherever the obstacle goes, is at most zero, and so is the limit in force at the end.\<close>

theorem so_keeps_standing:
  assumes "ss_run fl q param lib pre (so_new, vl_init) = Some ((s, v), ls0)"
    and "\<forall>(t, e) \<in> set pre. ss_foreign e"
    and "so_ready param s" and "vs_isVehicleStopped 0 u (so_twist_buffer s)"
    and "so_getNearestObstacle param lib s = Some (d, p)" and "d < sp_surround_check_distance param"
    and "sp_surround_check_distance param \<le> sp_surround_check_recover_distance param"
    and "ss_run fl q param lib ((u, SS_Checker SO_Timer) # post) (s, v) = Some ((s', v'), ls)"
    and "ss_stands fl q param lib ((u, SS_Checker SO_Timer) # post) (s, v)"
    and "\<forall>(t, e) \<in> set post. ss_foreign e \<and> u \<le> t \<and> seconds (t - u) \<le> sp_state_clear_time param"
    and "l \<in> insert (vls_hardest_limit v') (set ls)"
  shows "\<exists>w \<le> 0. vl_max_velocity l = Fin (fl w)"
proof -
  have inv: "ss_inv fl (s, v)" by (rule ss_run_inv [OF ss_inv_init assms(1,2)])
  obtain sv1 l1 l2 where step: "ss_step fl q param lib (u, SS_Checker SO_Timer) (s, v) = Some (sv1, l1)"
    and run: "ss_run fl q param lib post sv1 = Some ((s', v'), l2)" "ls = l1 @ l2"
    using assms(8) by (rule ss_run_Cons)
  obtain s1 out where onTimer: "so_onTimer param lib u s = (s1, out)" by fastforce
  with step have tick: "so_onTimer param lib u s = (s1, out)" "fst sv1 = s1" by (auto simp: case_prod_beta)
  from tick(1) have held: "so_held u (fst sv1)"
  proof (cases rule: so_onTimer_cases)
    case idle
    with assms(3) show ?thesis by simp
  next
    case (switch out1 r)
    have found: "so_found (sp_surround_check_distance param) (Some (d, p))" using assms(6) by (simp add: so_found_def)
    have "so_switch param u (Some (d, p)) True s = (s1, out1)" using switch(3) assms(4,5) by simp
    from so_switch_found [OF found assms(7) this] tick(2) show ?thesis by simp
  qed
  have inv1: "ss_inv fl sv1" and below: "\<forall>l \<in> set l1. vl_below fl 0 l"
    using ss_step_inv [OF inv step] held by (simp_all add: so_held_def)
  have "ss_stands fl q param lib post sv1" using assms(9) step by simp
  from ss_run_held [OF held inv1 run(1) this assms(10)]
  have end_held: "so_held u s'" and "ss_inv fl (s', v')" and "\<forall>l \<in> set l2. vl_below fl 0 l" by simp_all
  then have "vl_below fl 0 (vls_hardest_limit v')" by (simp add: so_held_def ss_inv_cases)
  with below \<open>\<forall>l \<in> set l2. vl_below fl 0 l\<close> assms(11) run(2) show ?thesis by (auto simp: vl_below_def)
qed

text \<open>An example: one point half a metre away, an odometry sample of a standing vehicle.\<close>

definition so_ex_param :: so_param where
  "so_ex_param =
     \<lparr>sp_use_pointcloud = True, sp_use_dynamic_object = False, sp_surround_check_recover_distance = 8 / 10,
      sp_surround_check_distance = 6 / 10, sp_state_clear_time = 2,
      sp_vehicle_info = \<lparr>vi_max_longitudinal_offset = 4, vi_min_longitudinal_offset = - 1,
        vi_max_lateral_offset = 1, vi_min_lateral_offset = - 1\<rparr>\<rparr>"

definition so_ex_lib :: "unit so_lib" where
  "so_ex_lib =
     \<lparr>sl_lookup = (\<lambda>_ _ _. Some ()), sl_transform = (\<lambda>_ p. p), sl_relative_pose = (\<lambda>_ p. p),
      sl_transform_polygon = (\<lambda>_ p. p), sl_correct = (\<lambda>p. p),
      sl_distance_point = (\<lambda>_ p. \<bar>fst p - 4\<bar>), sl_distance_polygon = (\<lambda>_ _. 0)\<rparr>"

definition so_ex_pre :: "(time \<times> ss_event) list" where
  "so_ex_pre =
     [(0, SS_Checker (SO_StopCheckerOdom \<lparr>tw_stamp = 0, tw_x = 0, tw_y = 0, tw_z = 0\<rparr>)),
      (0, SS_Checker (SO_PointCloud \<lparr>sa_frame = ''lidar'', sa_stamp = 0,
         sa_data = [\<lparr>pt_x = 9 / 2, pt_y = 0, pt_z = 0\<rparr>]\<rparr>))]"

definition so_ex_post :: "(time \<times> ss_event) list" where
  "so_ex_post =
     [(1, SS_Selector (VL_FromAPI (velocity_limit_new\<lparr>vl_max_velocity := Fin 10\<rparr>))), (2, SS_Checker SO_Timer)]"

definition so_ex_state :: so_state where
  "so_ex_state = so_new
     \<lparr>so_twist_buffer := [\<lparr>tw_stamp = 0, tw_x = 0, tw_y = 0, tw_z = 0\<rparr>],
      so_pointcloud := Some \<lparr>sa_frame = ''lidar'', sa_stamp = 0, sa_data = [\<lparr>pt_x = 9 / 2, pt_y = 0, pt_z = 0\<rparr>]\<rparr>\<rparr>"

lemma so_ex_first: "ss_run (\<lambda>x. x) vl_ex_param so_ex_param so_ex_lib so_ex_pre (so_new, vl_init) = Some ((so_ex_state, vl_init), [])"
  by (simp add: so_ex_pre_def so_onStopCheckerOdom_def so_onPointCloud_def so_new_def so_ex_state_def vs_addTwist_def
      vs_drop_old.simps)

lemma so_dbl_max_large: "10 < so_dbl_max"
proof -
  have "(10 :: real) < 2 ^ 10" by simp
  also have "\<dots> \<le> 2 ^ 1023" by (rule power_increasing) simp_all
  also have "\<dots> \<le> so_dbl_max" by (simp add: so_dbl_max_def)
  finally show ?thesis .
qed

lemma so_ex_nearest:
  "so_pointcloud s = so_pointcloud so_ex_state \<Longrightarrow>
     so_getNearestObstacle so_ex_param so_ex_lib s = Some (1 / 2, \<lparr>pt_x = 9 / 2, pt_y = 0, pt_z = 0\<rparr>)"
  using so_dbl_max_large
  by (simp add: so_getNearestObstacle_def so_ex_param_def so_ex_state_def so_ex_lib_def
      so_getNearestObstacleByPointCloud_def so_nearer_def)

lemma so_ex_stopped: "0 \<le> t \<Longrightarrow> so_twist_buffer s = so_twist_buffer so_ex_state \<Longrightarrow> vs_isVehicleStopped 0 t (so_twist_buffer s)"
  by (simp add: so_ex_state_def vs_isVehicleStopped_def vs_slow_def seconds_def)

theorem so_keeps_standing_witness:
  "\<exists>s' v' ls. ss_run (\<lambda>x. x) vl_ex_param so_ex_param so_ex_lib ((0, SS_Checker SO_Timer) # so_ex_post) (so_ex_state, vl_init) =
       Some ((s', v'), ls) \<and> (\<exists>w \<le> 0. vl_max_velocity (vls_hardest_limit v') = Fin w)"
proof -
  let ?run = "ss_run (\<lambda>x. x) vl_ex_param so_ex_param so_ex_lib"
  let ?es = "(0, SS_Checker SO_Timer) # so_ex_post"
  have run: "\<exists>s' v' ls. ?run ?es (so_ex_state, vl_init) = Some ((s', v'), ls)"
    by (simp add: so_ex_post_def case_prod_beta)
  have stands: "ss_stands (\<lambda>x. x) vl_ex_param so_ex_param so_ex_lib ?es (so_ex_state, vl_init)"
    by (simp add: so_ex_post_def case_prod_beta so_ex_stopped)
  obtain s' v' ls where r: "?run ?es (so_ex_state, vl_init) = Some ((s', v'), ls)" using run by blast
  have "\<exists>w \<le> 0. vl_max_velocity (vls_hardest_limit v') = Fin ((\<lambda>x. x) w)"
    by (rule so_keeps_standing [OF so_ex_first _ _ so_ex_stopped so_ex_nearest _ _ r stands, where l = "vls_hardest_limit v'"])
       (simp_all add: so_ready_def so_ex_pre_def so_ex_post_def so_ex_param_def so_ex_state_def so_sender_def seconds_def)
  with r show ?thesis by auto
qed

section \<open>What else the code does\<close>

text \<open>
  A transformation that is not available counts as clear surroundings: in the mode \<open>PASS\<close> the standing vehicle is not
  kept from starting, and in the mode \<open>STOP\<close> the limit is withdrawn after the clear time although the obstacle is still there.
\<close>

lemma so_lost_transform_no_obstacle:
  assumes "\<And>a b t. sl_lookup lib a b t = None"
  shows "so_getNearestObstacle param lib s = None"
  using assms
  by (auto simp: so_getNearestObstacle_def so_getNearestObstacleByPointCloud_def
      so_getNearestObstacleByDynamicObject_def split: Option.bind_split option.splits)

lemma so_lost_transform_releases:
  assumes "\<And>a b t. sl_lookup lib a b t = None" and "so_ready param s" and "so_mode s = SO_STOP"
    and "so_last_obstacle_found_time s = Some u" and "sp_state_clear_time param < seconds (t - u)"
  shows "\<exists>s'. so_onTimer param lib t s = (s', [SO_ClearVelocityLimit \<lparr>vk_stamp = t, vk_command = True, vk_sender = so_sender\<rparr>,
    SO_NoStartReason None]) \<and> so_mode s' = SO_PASS"
  using assms so_lost_transform_no_obstacle [OF assms(1), of param s]
  by (auto simp: so_onTimer_def so_ready_def so_switch_def so_isStopRequired_def so_found_def)

text \<open>A standstill is required in the mode \<open>STOP\<close> too: one sample of a millimetre per second withdraws the limit.\<close>

lemma so_creeping_releases:
  assumes "so_ready param s" and "so_mode s = SO_STOP" and "\<not> vs_isVehicleStopped 0 t (so_twist_buffer s)"
  shows "\<exists>s' r. so_onTimer param lib t s = (s', [SO_ClearVelocityLimit \<lparr>vk_stamp = t, vk_command = True, vk_sender = so_sender\<rparr>, r]) \<and>
    so_mode s' = SO_PASS"
  using assms by (auto simp: so_onTimer_def so_ready_def so_switch_def so_isStopRequired_def)

end
