(* ===== verification/Perception_Objects.thy ===== *)
theory Perception_Objects
  imports AW_Msgs Flt_Arith Trajectory_Geometry
begin

text \<open>
  What common/perception_utils and common/tier4_autoware_utils compute on detected and tracked objects: the most likely
  class, areas, outlines and overlaps.  The functions on polygons of boost and the transformation of a pose of tf2 are
  parameters.  A detected and a tracked object have the same type; of its covariance and twist only what the trackers
  read is kept.
\<close>

section \<open>Objects\<close>

record object_classification =
  cl_label :: nat
  cl_probability :: real

record object_shape =
  sh_type :: shape_type
  sh_dim_x :: real
  sh_dim_y :: real
  sh_footprint :: "(real \<times> real) list"

text \<open>The covariance holds the entries \<open>X_X\<close>, \<open>X_Y\<close>, \<open>Y_X\<close> and \<open>Y_Y\<close>.\<close>

record perception_object =
  pb_existence_probability :: real
  pb_classification :: "object_classification list"
  pb_pose :: pose
  pb_covariance :: "real \<times> real \<times> real \<times> real"
  pb_has_twist :: bool
  pb_twist_x :: real
  pb_shape :: object_shape

abbreviation (input) "Label_UNKNOWN \<equiv> 0 :: nat"
abbreviation (input) "Label_CAR \<equiv> 1 :: nat"
abbreviation (input) "Label_TRUCK \<equiv> 2 :: nat"
abbreviation (input) "Label_BUS \<equiv> 3 :: nat"
abbreviation (input) "Label_TRAILER \<equiv> 4 :: nat"
abbreviation (input) "Label_MOTORCYCLE \<equiv> 5 :: nat"
abbreviation (input) "Label_BICYCLE \<equiv> 6 :: nat"
abbreviation (input) "Label_PEDESTRIAN \<equiv> 7 :: nat"

text \<open>\<open>std::max_element\<close> gives the first of the greatest elements.\<close>

fun getHighestProbClassification :: "object_classification list \<Rightarrow> object_classification" where
  "getHighestProbClassification [] = \<lparr>cl_label = 0, cl_probability = 0\<rparr>"
| "getHighestProbClassification (c # cs) =
     fold (\<lambda>c best. if cl_probability best < cl_probability c then c else best) cs c"

definition getHighestProbLabel :: "object_classification list \<Rightarrow> nat" where
  "getHighestProbLabel classification = cl_label (getHighestProbClassification classification)"

definition isVehicle :: "nat \<Rightarrow> bool" where
  "isVehicle label \<longleftrightarrow>
     label = Label_BICYCLE \<or> label = Label_BUS \<or> label = Label_CAR \<or> label = Label_MOTORCYCLE \<or>
     label = Label_TRAILER \<or> label = Label_TRUCK"

definition isCarLikeVehicle :: "nat \<Rightarrow> bool" where
  "isCarLikeVehicle label \<longleftrightarrow>
     label = Label_BUS \<or> label = Label_CAR \<or> label = Label_TRAILER \<or> label = Label_TRUCK"

definition isLargeVehicle :: "nat \<Rightarrow> bool" where
  "isLargeVehicle label \<longleftrightarrow> label = Label_BUS \<or> label = Label_TRAILER \<or> label = Label_TRUCK"

text \<open>The name of a class; \<open>toLabel\<close> throws for any other text.\<close>

definition toLabel :: "string \<Rightarrow> nat option" where
  "toLabel class_name =
     (if class_name = ''UNKNOWN'' then Some Label_UNKNOWN
      else if class_name = ''CAR'' then Some Label_CAR
      else if class_name = ''TRUCK'' then Some Label_TRUCK
      else if class_name = ''BUS'' then Some Label_BUS
      else if class_name = ''TRAILER'' then Some Label_TRAILER
      else if class_name = ''MOTORCYCLE'' then Some Label_MOTORCYCLE
      else if class_name = ''BICYCLE'' then Some Label_BICYCLE
      else if class_name = ''PEDESTRIAN'' then Some Label_PEDESTRIAN
      else None)"

definition convertLabelToString :: "nat \<Rightarrow> string" where
  "convertLabelToString label =
     (if label = Label_UNKNOWN then ''UNKNOWN''
      else if label = Label_CAR then ''CAR''
      else if label = Label_TRUCK then ''TRUCK''
      else if label = Label_BUS then ''BUS''
      else if label = Label_TRAILER then ''TRAILER''
      else if label = Label_MOTORCYCLE then ''MOTORCYCLE''
      else if label = Label_BICYCLE then ''BICYCLE''
      else if label = Label_PEDESTRIAN then ''PEDESTRIAN''
      else ''UNKNOWN'')"

lemma label_names:
  "toLabel name = Some label \<Longrightarrow> convertLabelToString label = name"
  "label \<le> 7 \<Longrightarrow> toLabel (convertLabelToString label) = Some label"
proof -
  show "convertLabelToString label = name" if "toLabel name = Some label"
    using that by (auto simp: toLabel_def convertLabelToString_def split: if_splits)
  assume "label \<le> 7"
  then have "label \<in> {0, 1, 2, 3, 4, 5, 6, 7}" by auto
  then show "toLabel (convertLabelToString label) = Some label"
    by (elim insertE emptyE) (simp_all add: toLabel_def convertLabelToString_def)
qed

lemma fold_first_max:
  fixes f :: "'a \<Rightarrow> real"
  defines "r \<equiv> \<lambda>cs. fold (\<lambda>c best. if f best < f c then c else best) cs"
  shows "r cs b \<in> set (b # cs) \<and> (\<forall>c \<in> set (b # cs). f c \<le> f (r cs b))"
proof (induction cs arbitrary: b)
  case Nil
  then show ?case by (simp add: r_def)
next
  case (Cons c cs)
  let ?b = "if f b < f c then c else b"
  have step: "r (c # cs) b = r cs ?b" by (simp add: r_def)
  have "f b \<le> f ?b" "f c \<le> f ?b" by simp_all
  then have "f b \<le> f (r cs ?b)" "f c \<le> f (r cs ?b)" using Cons.IH [of ?b] by force+
  moreover have "r cs ?b \<in> set (b # c # cs)" using Cons.IH [of ?b] by (auto split: if_splits)
  ultimately show ?case unfolding step using Cons.IH [of ?b] by auto
qed

lemma getHighestProb_max:
  assumes "classification \<noteq> []"
  shows "getHighestProbClassification classification \<in> set classification"
    and "\<forall>c \<in> set classification.
      cl_probability c \<le> cl_probability (getHighestProbClassification classification)"
proof -
  obtain c cs where "classification = c # cs" using assms by (cases classification) auto
  then show "getHighestProbClassification classification \<in> set classification"
    and "\<forall>c \<in> set classification.
      cl_probability c \<le> cl_probability (getHighestProbClassification classification)"
    unfolding \<open>classification = c # cs\<close> getHighestProbClassification.simps
    using fold_first_max [of cl_probability cs c] by blast+
qed

section \<open>Areas\<close>

datatype perception_error = PE_OutOfRange | PE_LogicError | PE_NotANumber

text \<open>The area is positive when the points run anticlockwise.\<close>

definition getPolygonArea :: "(real \<times> real) list \<Rightarrow> real" where
  "getPolygonArea points =
     fold (\<lambda>i area. let (xi, yi) = points ! i; (xj, yj) = points ! ((i + 1) mod length points)
                    in area + 5 / 10 * (xi * yj - xj * yi)) [0..<length points] 0"

definition getRectangleArea :: "object_shape \<Rightarrow> real" where
  "getRectangleArea shape = sh_dim_x shape * sh_dim_y shape"

definition getCircleArea :: "object_shape \<Rightarrow> real" where
  "getCircleArea shape = sh_dim_x shape / 2 * (sh_dim_x shape / 2) * pi"

definition getArea :: "object_shape \<Rightarrow> perception_error + real" where
  "getArea shape =
     (case sh_type shape of
        Shape_BOUNDING_BOX \<Rightarrow> Inr (getRectangleArea shape)
      | Shape_CYLINDER \<Rightarrow> Inr (getCircleArea shape)
      | Shape_POLYGON \<Rightarrow> Inr (getPolygonArea (sh_footprint shape))
      | _ \<Rightarrow> Inl PE_LogicError)"

section \<open>Outlines\<close>

type_synonym object_polygon = "(real \<times> real) list"

text \<open>
  The libraries: the position at an offset from a pose (tf2), intersection, union, convex hull and area of polygons
  (boost).
\<close>

record object_lib =
  ol_offset_position :: "pose \<Rightarrow> real \<Rightarrow> real \<Rightarrow> real \<times> real"
  ol_intersection :: "object_polygon \<Rightarrow> object_polygon \<Rightarrow> object_polygon list"
  ol_union :: "object_polygon \<Rightarrow> object_polygon \<Rightarrow> object_polygon list"
  ol_convex_hull :: "object_polygon list \<Rightarrow> object_polygon"
  ol_area :: "object_polygon \<Rightarrow> real"

text \<open>\<open>polygon.outer().at(0)\<close> throws for a polygon without points.\<close>

definition polygon_isClockwise :: "object_polygon \<Rightarrow> perception_error + bool" where
  "polygon_isClockwise polygon =
     (case polygon of
        [] \<Rightarrow> Inl PE_OutOfRange
      | (x_offset, y_offset) # _ \<Rightarrow>
          let n = length polygon
          in Inr (fold (\<lambda>i sum. let (xi, yi) = polygon ! i; (xj, yj) = polygon ! ((i + 1) mod n)
               in sum + ((xi - x_offset) * (yj - y_offset) - (yi - y_offset) * (xj - x_offset))) [0..<n] 0 < 0))"

definition polygon_inverseClockwise :: "object_polygon \<Rightarrow> object_polygon" where
  "polygon_inverseClockwise polygon = rev polygon"

definition rotatePolygon :: "object_polygon \<Rightarrow> real \<Rightarrow> object_polygon" where
  "rotatePolygon polygon angle =
     map (\<lambda>(x, y). (cos angle * x - sin angle * y, sin angle * x + cos angle * y)) polygon"

definition shape_points :: "object_lib \<Rightarrow> pose \<Rightarrow> object_shape \<Rightarrow> perception_error + object_polygon" where
  "shape_points lib pose shape =
     (case sh_type shape of
        Shape_BOUNDING_BOX \<Rightarrow>
          let x = sh_dim_x shape / 2; y = sh_dim_y shape / 2
          in Inr [ol_offset_position lib pose x y, ol_offset_position lib pose (- x) y,
                  ol_offset_position lib pose (- x) (- y), ol_offset_position lib pose x (- y)]
      | Shape_CYLINDER \<Rightarrow>
          let radius = sh_dim_x shape / 2; angle = (\<lambda>i. real i / 6 * 2 * pi + pi / 6)
          in Inr (map (\<lambda>i. (cos (angle i) * radius + pt_x pose, sin (angle i) * radius + pt_y pose)) [0..<6])
      | Shape_POLYGON \<Rightarrow>
          Inr (map (\<lambda>(x, y). (pt_x pose + x, pt_y pose + y)) (rotatePolygon (sh_footprint shape) (po_yaw pose)))
      | _ \<Rightarrow> Inl PE_LogicError)"

definition toPolygon2d :: "object_lib \<Rightarrow> pose \<Rightarrow> object_shape \<Rightarrow> perception_error + object_polygon" where
  "toPolygon2d lib pose shape =
     err_bind (shape_points lib pose shape) (\<lambda>polygon.
       let closed = (if polygon = [] then polygon else polygon @ [hd polygon])
       in err_bind (polygon_isClockwise closed) (\<lambda>cw. Inr (if cw then closed else polygon_inverseClockwise closed)))"

definition object_outline :: "object_lib \<Rightarrow> perception_object \<Rightarrow> perception_error + object_polygon" where
  "object_outline lib object = toPolygon2d lib (pb_pose object) (pb_shape object)"

section \<open>Overlaps\<close>

definition getSumArea :: "object_lib \<Rightarrow> object_polygon list \<Rightarrow> real" where
  "getSumArea lib polygons = fold (\<lambda>p acc. acc + ol_area lib p) polygons 0"

definition getIntersectionArea :: "object_lib \<Rightarrow> object_polygon \<Rightarrow> object_polygon \<Rightarrow> real" where
  "getIntersectionArea lib source target = getSumArea lib (ol_intersection lib source target)"

definition getUnionArea :: "object_lib \<Rightarrow> object_polygon \<Rightarrow> object_polygon \<Rightarrow> real" where
  "getUnionArea lib source target = getSumArea lib (ol_union lib source target)"

definition getConvexShapeArea :: "object_lib \<Rightarrow> object_polygon \<Rightarrow> object_polygon \<Rightarrow> real" where
  "getConvexShapeArea lib source target = ol_area lib (ol_convex_hull lib (ol_union lib source target))"

text \<open>Quotients are computed as doubles; the callers give a positive \<open>min_union_area\<close>.\<close>

definition iou_ratio :: "object_lib \<Rightarrow> object_polygon \<Rightarrow> object_polygon \<Rightarrow> real \<Rightarrow> flt" where
  "iou_ratio lib source target min_union_area =
     (let intersection_area = getIntersectionArea lib source target; union_area = getUnionArea lib source target
      in if union_area < min_union_area then Fin 0 else std_min (Fin 1) (flt_div intersection_area union_area))"

definition get2dIoU ::
  "object_lib \<Rightarrow> perception_object \<Rightarrow> perception_object \<Rightarrow> real \<Rightarrow> perception_error + flt" where
  "get2dIoU lib source_object target_object min_union_area =
     err_bind (object_outline lib source_object) (\<lambda>source.
     err_bind (object_outline lib target_object) (\<lambda>target.
       if getIntersectionArea lib source target = 0 then Inr (Fin 0)
       else Inr (iou_ratio lib source target min_union_area)))"

definition get2dGeneralizedIoU ::
  "object_lib \<Rightarrow> perception_object \<Rightarrow> perception_object \<Rightarrow> perception_error + flt" where
  "get2dGeneralizedIoU lib source_object target_object =
     err_bind (object_outline lib source_object) (\<lambda>source.
     err_bind (object_outline lib target_object) (\<lambda>target.
       let union_area = getUnionArea lib source target; convex_shape_area = getConvexShapeArea lib source target
       in Inr (flt_sub (iou_ratio lib source target (1 / 100))
            (flt_div (convex_shape_area - union_area) convex_shape_area))))"

definition get2dPrecision ::
  "object_lib \<Rightarrow> perception_object \<Rightarrow> perception_object \<Rightarrow> perception_error + flt" where
  "get2dPrecision lib source_object target_object =
     err_bind (object_outline lib source_object) (\<lambda>source.
     err_bind (object_outline lib target_object) (\<lambda>target.
       let intersection_area = getIntersectionArea lib source target
       in Inr (if intersection_area = 0 then Fin 0 else std_min (Fin 1) (flt_div intersection_area (ol_area lib source)))))"

definition get2dRecall ::
  "object_lib \<Rightarrow> perception_object \<Rightarrow> perception_object \<Rightarrow> perception_error + flt" where
  "get2dRecall lib source_object target_object =
     err_bind (object_outline lib source_object) (\<lambda>source.
     err_bind (object_outline lib target_object) (\<lambda>target.
       let intersection_area = getIntersectionArea lib source target
       in Inr (if intersection_area = 0 then Fin 0 else std_min (Fin 1) (flt_div intersection_area (ol_area lib target)))))"

text \<open>The outline is closed: its first point is also the last one.\<close>

lemma toPolygon2d_closed:
  assumes "toPolygon2d lib pose shape = Inr polygon"
  shows "2 \<le> length polygon \<and> hd polygon = last polygon"
proof -
  obtain ps where ps: "shape_points lib pose shape = Inr ps" using assms by (auto simp: toPolygon2d_def)
  define points where "points = (if ps = [] then ps else ps @ [hd ps])"
  obtain cw where cw: "polygon_isClockwise points = Inr cw" and closed: "polygon = (if cw then points else rev points)"
    using assms by (auto simp: toPolygon2d_def ps Let_def polygon_inverseClockwise_def points_def [symmetric])
  note points = points_def cw
  have "ps \<noteq> []" using points by (auto simp: polygon_isClockwise_def)
  then have "2 \<le> length points" "hd points = last points" "points \<noteq> []" using points(1) by (cases ps; simp)+
  with closed show ?thesis by (auto simp: hd_rev last_rev)
qed

end
