(* ===== verification/Successive_Shortest_Path.thy ===== *)
theory Successive_Shortest_Path
  imports AW_Prelude "HOL-Library.Product_Lexorder"
begin

text \<open>
  The solver SSP of perception/multi_object_tracker (the same file is in perception/object_merger): it assigns tasks to
  agents with the greatest total score by successive shortest paths in a residual graph, with Dijkstra's search over
  costs reduced by potentials.  Doubles are real numbers.  The assertions of the code are part of the
  model, so that a result means that none fails.  Vectors are read with \<open>!\<close> where the index is a node or an edge
  of the graph itself, which is in range (\<open>ssp_net\<close>); the other accesses may throw.
\<close>

section \<open>The residual graph\<close>

record residual_edge =
  re_dst :: nat
  re_capacity :: int
  re_cost :: real
  re_flow :: int
  re_reverse :: nat

type_synonym residual_graph = "residual_edge list list"

datatype ssp_error = SSP_OutOfRange | SSP_AssertionFailed

definition vec_at :: "'a list \<Rightarrow> nat \<Rightarrow> ssp_error + 'a" where
  "vec_at xs i = (if i < length xs then Inr (xs ! i) else Inl SSP_OutOfRange)"

definition MAX_COST :: real where "MAX_COST = 10"

definition INF_DIST :: real where "INF_DIST = 10000000"

definition EPS :: real where "EPS = 1 / 100000"

definition ssp_emplace_back :: "nat \<Rightarrow> residual_edge \<Rightarrow> residual_graph \<Rightarrow> residual_graph" where
  "ssp_emplace_back v e adj = adj[v := adj ! v @ [e]]"

text \<open>An edge of capacity 1 and its reverse edge, as each of the loops below adds them.\<close>

definition ssp_add_edge :: "nat \<Rightarrow> nat \<Rightarrow> real \<Rightarrow> residual_graph \<Rightarrow> residual_graph" where
  "ssp_add_edge u v c adj =
     (let adj1 = ssp_emplace_back u
            \<lparr>re_dst = v, re_capacity = 1, re_cost = c, re_flow = 0, re_reverse = length (adj ! v)\<rparr> adj
      in ssp_emplace_back v
            \<lparr>re_dst = u, re_capacity = 0, re_cost = - c, re_flow = 0, re_reverse = length (adj1 ! u) - 1\<rparr> adj1)"

text \<open>
  The nodes: the source 0, the agents from 1, the tasks from \<open>n_agents + 1\<close>, the sink, and a dummy for each agent.
\<close>

definition ssp_sink :: "nat \<Rightarrow> nat \<Rightarrow> nat" where
  "ssp_sink n_agents n_tasks = n_agents + n_tasks + 1"

definition ssp_n_nodes :: "nat \<Rightarrow> nat \<Rightarrow> nat" where
  "ssp_n_nodes n_agents n_tasks = n_agents + n_tasks + n_agents + 2"

definition ssp_build :: "real list list \<Rightarrow> ssp_error + residual_graph" where
  "ssp_build cost =
     (let n_agents = length cost; n_tasks = length (cost ! 0); sink = ssp_sink n_agents n_tasks;
          adj0 = replicate (ssp_n_nodes n_agents n_tasks) [];
          adj1 = fold (\<lambda>agent. ssp_add_edge 0 (agent + 1) 0) [0..<n_agents] adj0
      in err_bind
           (err_fold (\<lambda>agent. err_fold (\<lambda>task adj.
                err_bind (vec_at cost agent) (\<lambda>row.
                err_bind (vec_at row task) (\<lambda>score.
                  Inr (if EPS < score then ssp_add_edge (agent + 1) (task + n_agents + 1) (MAX_COST - score) adj
                       else adj)))) [0..<n_tasks]) [0..<n_agents] adj1)
           (\<lambda>adj2.
              let adj3 = fold (\<lambda>task. ssp_add_edge (task + n_agents + 1) sink 0) [0..<n_tasks] adj2
              in Inr (fold (\<lambda>agent adj.
                   ssp_add_edge (agent + n_agents + n_tasks + 2) sink 0
                     (ssp_add_edge (agent + 1) (agent + n_agents + n_tasks + 2) MAX_COST adj)) [0..<n_agents] adj3)))"

section \<open>The search for a shortest path\<close>

text \<open>The queue holds pairs of a distance and a node, the least pair first.\<close>

record ssp_search =
  sd_potentials :: "real list"
  sd_distances :: "real list"
  sd_visited :: "bool list"
  sd_prev :: "(nat \<times> nat) list"
  sd_queue :: "(real \<times> nat) list"

definition ssp_relax :: "nat \<Rightarrow> nat \<times> residual_edge \<Rightarrow> ssp_search \<Rightarrow> ssp_error + ssp_search" where
  "ssp_relax cur_node = (\<lambda>(j, e) s.
     if \<not> sd_visited s ! re_dst e \<and> 0 < re_capacity e then
       let reduced_cost = re_cost e + sd_potentials s ! cur_node - sd_potentials s ! re_dst e
       in if reduced_cost < 0 then Inl SSP_AssertionFailed
          else if reduced_cost < sd_distances s ! re_dst e
          then Inr (s\<lparr>sd_distances := (sd_distances s)[re_dst e := reduced_cost],
                      sd_prev := (sd_prev s)[re_dst e := (cur_node, j)],
                      sd_queue := insort (reduced_cost, re_dst e) (sd_queue s)\<rparr>)
          else Inr s
     else Inr s)"

definition ssp_visit :: "nat \<Rightarrow> real \<Rightarrow> ssp_search \<Rightarrow> ssp_search" where
  "ssp_visit cur_node cur_node_dist s =
     s\<lparr>sd_visited := (sd_visited s)[cur_node := True],
       sd_potentials := (sd_potentials s)[cur_node := sd_potentials s ! cur_node + cur_node_dist]\<rparr>"

lemma err_bind_cong [fundef_cong]:
  "r = r' \<Longrightarrow> (\<And>x. r' = Inr x \<Longrightarrow> f x = g x) \<Longrightarrow> err_bind r f = err_bind r' g"
  by (cases r') auto

lemma ssp_relax_visited: "ssp_relax u je s = Inr s' \<Longrightarrow> sd_visited s' = sd_visited s"
  by (auto simp: ssp_relax_def Let_def split: prod.splits if_splits)

lemma ssp_relax_all_visited: "err_fold (ssp_relax u) jes s = Inr s' \<Longrightarrow> sd_visited s' = sd_visited s"
proof (induction jes arbitrary: s)
  case (Cons je jes)
  then obtain s1 where "ssp_relax u je s = Inr s1" "err_fold (ssp_relax u) jes s1 = Inr s'" by auto
  with Cons.IH ssp_relax_visited show ?case by metis
qed simp

definition ssp_unvisited :: "ssp_search \<Rightarrow> nat" where
  "ssp_unvisited s = length (filter Not (sd_visited s))"

lemma ssp_unvisited_less:
  assumes "v < length xs" and "\<not> xs ! v"
  shows "length (filter Not (xs[v := True])) < length (filter Not xs)"
proof -
  have split: "xs = take v xs @ False # drop (Suc v) xs" using assms id_take_nth_drop [of v xs] by simp
  have "length (filter Not (xs[v := True])) = length (filter Not (take v xs)) + length (filter Not (drop (Suc v) xs))"
    using assms(1) by (simp add: upd_conv_take_nth_drop)
  moreover have "length (filter Not xs) = Suc (length (filter Not (take v xs)) + length (filter Not (drop (Suc v) xs)))"
    by (subst split) simp
  ultimately show ?thesis by simp
qed

text \<open>The loop over the queue.  It is left when the sink is visited.\<close>

function ssp_dijkstra :: "residual_graph \<Rightarrow> nat \<Rightarrow> ssp_search \<Rightarrow> ssp_error + ssp_search" where
  "ssp_dijkstra adj sink s =
     (case sd_queue s of
        [] \<Rightarrow> Inr s
      | (cur_node_dist, cur_node) # rest \<Rightarrow>
          let s1 = s\<lparr>sd_queue := rest\<rparr>
          in err_bind (vec_at (sd_visited s1) cur_node) (\<lambda>is_visited.
               if is_visited then ssp_dijkstra adj sink s1
               else if cur_node_dist \<noteq> sd_distances s1 ! cur_node then Inl SSP_AssertionFailed
               else
                 let s2 = ssp_visit cur_node cur_node_dist s1
                 in if cur_node = sink then Inr s2
                    else err_bind (err_fold (ssp_relax cur_node) (List.enumerate 0 (adj ! cur_node)) s2)
                           (ssp_dijkstra adj sink)))"
  by pat_completeness auto
termination
proof (relation "measures [\<lambda>(adj, sink, s). ssp_unvisited s, \<lambda>(adj, sink, s). length (sd_queue s)]", goal_cases)
  case (2 adj sink s a rest d v s1 x)
  then show ?case by (simp add: ssp_unvisited_def)
next
  case (3 adj sink s a rest d v s1 x s2 s3)
  have "sd_visited s3 = (sd_visited s)[v := True]"
    using 3 ssp_relax_all_visited [of v "List.enumerate 0 (adj ! v)" s2 s3] by (simp add: ssp_visit_def)
  with 3 ssp_unvisited_less [of v "sd_visited s"] show ?case
    by (simp add: ssp_unvisited_def vec_at_def split: if_splits)
qed simp

declare ssp_dijkstra.simps [simp del]

section \<open>Augmentation\<close>

definition ssp_set_edge :: "nat \<Rightarrow> nat \<Rightarrow> residual_edge \<Rightarrow> residual_graph \<Rightarrow> residual_graph" where
  "ssp_set_edge u j e adj = adj[u := (adj ! u)[j := e]]"

text \<open>
  One turn of the loop from the sink back to the source, with the assertions before the update (those after it
  repeat what it does); the result is the node before \<open>v\<close>.
\<close>

definition ssp_augment_step ::
  "(nat \<times> nat) list \<Rightarrow> nat \<Rightarrow> residual_graph \<Rightarrow> ssp_error + nat \<times> residual_graph" where
  "ssp_augment_step prev_values v adj =
     (let (u, j) = prev_values ! v; e_forward = adj ! u ! j
      in if re_dst e_forward \<noteq> v then Inl SSP_AssertionFailed
         else
           let e_backward = adj ! v ! re_reverse e_forward; prev_v = re_dst e_backward
           in if re_flow e_backward = 0 then
                if re_capacity e_forward \<noteq> 1 \<or> re_flow e_forward \<noteq> 0 \<or> re_capacity e_backward \<noteq> 0
                then Inl SSP_AssertionFailed
                else Inr (prev_v,
                  ssp_set_edge v (re_reverse e_forward) (e_backward\<lparr>re_capacity := re_capacity e_backward + 1\<rparr>)
                    (ssp_set_edge u j
                      (e_forward\<lparr>re_capacity := re_capacity e_forward - 1, re_flow := re_flow e_forward + 1\<rparr>) adj))
              else
                if re_capacity e_forward \<noteq> 1 \<or> re_flow e_forward \<noteq> 0 \<or> re_capacity e_backward \<noteq> 0 \<or>
                   re_flow e_backward \<noteq> 1
                then Inl SSP_AssertionFailed
                else Inr (prev_v,
                  ssp_set_edge v (re_reverse e_forward)
                    (e_backward\<lparr>re_capacity := re_capacity e_backward + 1, re_flow := re_flow e_backward - 1\<rparr>)
                    (ssp_set_edge u j (e_forward\<lparr>re_capacity := re_capacity e_forward - 1\<rparr>) adj)))"

partial_function (option) ssp_augment ::
  "(nat \<times> nat) list \<Rightarrow> nat \<Rightarrow> residual_graph \<Rightarrow> (ssp_error + residual_graph) option" where
  "ssp_augment prev_values v adj =
     (if v = 0 then Some (Inr adj)
      else case ssp_augment_step prev_values v adj of
          Inl e \<Rightarrow> Some (Inl e)
        | Inr (prev_v, adj1) \<Rightarrow> ssp_augment prev_values prev_v adj1)"

declare ssp_augment.simps [code]

section \<open>The solver\<close>

definition ssp_feasible :: "residual_graph \<Rightarrow> real list \<Rightarrow> bool" where
  "ssp_feasible adj potentials \<longleftrightarrow>
     (\<forall>v < length adj. \<forall>e \<in> set (adj ! v). 0 < re_capacity e \<longrightarrow>
        0 \<le> re_cost e + potentials ! v - potentials ! re_dst e)"

definition ssp_start_search :: "nat \<Rightarrow> real list \<Rightarrow> (nat \<times> nat) list \<Rightarrow> ssp_search" where
  "ssp_start_search n_nodes potentials prev_values =
     \<lparr>sd_potentials = potentials, sd_distances = (replicate n_nodes INF_DIST)[0 := 0],
      sd_visited = replicate n_nodes False, sd_prev = prev_values, sd_queue = [(0, 0)]\<rparr>"

definition ssp_shift_unvisited :: "nat \<Rightarrow> ssp_search \<Rightarrow> real list" where
  "ssp_shift_unvisited sink s =
     map (\<lambda>v. if \<not> sd_visited s ! v then sd_potentials s ! v + sd_distances s ! sink else sd_potentials s ! v)
       [0..<length (sd_potentials s)]"

text \<open>The loop over the units of flow; its first argument is how many turns are left.\<close>

fun ssp_flow ::
  "nat \<Rightarrow> nat \<Rightarrow> residual_graph \<Rightarrow> real list \<Rightarrow> (nat \<times> nat) list \<Rightarrow> (ssp_error + residual_graph) option" where
  "ssp_flow 0 sink adj potentials prev_values = Some (Inr adj)"
| "ssp_flow (Suc n) sink adj potentials prev_values =
     (case ssp_dijkstra adj sink (ssp_start_search (length adj) potentials prev_values) of
        Inl e \<Rightarrow> Some (Inl e)
      | Inr s \<Rightarrow>
          if MAX_COST \<le> sd_potentials s ! sink then Some (Inr adj)
          else
            let potentials1 = ssp_shift_unvisited sink s
            in case ssp_augment (sd_prev s) sink adj of
                 None \<Rightarrow> None
               | Some (Inl e) \<Rightarrow> Some (Inl e)
               | Some (Inr adj1) \<Rightarrow>
                   if \<not> ssp_feasible adj1 potentials1 then Some (Inl SSP_AssertionFailed)
                   else ssp_flow n sink adj1 potentials1 (sd_prev s))"

text \<open>The assignments are maps; the code writes into the two maps it is given.\<close>

type_synonym assignment = "nat \<rightharpoonup> nat"

definition ssp_output_agent ::
  "nat \<Rightarrow> nat \<Rightarrow> residual_graph \<Rightarrow> nat \<Rightarrow> assignment \<times> assignment \<Rightarrow> assignment \<times> assignment" where
  "ssp_output_agent n_agents n_tasks adj agent = (\<lambda>(direct, rev_assignment).
     (case find (\<lambda>e. re_flow e = 1 \<and> n_agents + 1 \<le> re_dst e \<and> re_dst e - (n_agents + 1) < n_tasks)
             (adj ! (agent + 1)) of
        None \<Rightarrow> (direct, rev_assignment)
      | Some e \<Rightarrow>
          let task = re_dst e - (n_agents + 1)
          in (direct(agent \<mapsto> task), rev_assignment(task \<mapsto> agent))))"

definition ssp_valid :: "nat \<Rightarrow> assignment \<Rightarrow> assignment \<Rightarrow> bool" where
  "ssp_valid n_agents direct rev_assignment \<longleftrightarrow>
     (\<forall>agent < n_agents. case direct agent of None \<Rightarrow> True | Some task \<Rightarrow> rev_assignment task = Some agent)"

definition ssp_maximizeLinearAssignment ::
  "real list list \<Rightarrow> assignment \<Rightarrow> assignment \<Rightarrow> (ssp_error + assignment \<times> assignment) option" where
  "ssp_maximizeLinearAssignment cost direct rev_assignment =
     (if cost = [] \<or> cost ! 0 = [] then Some (Inr (direct, rev_assignment))
      else
        let n_agents = length cost; n_tasks = length (cost ! 0); n_nodes = ssp_n_nodes n_agents n_tasks;
            sink = ssp_sink n_agents n_tasks
        in case ssp_build cost of
             Inl e \<Rightarrow> Some (Inl e)
           | Inr adj \<Rightarrow>
               (case ssp_flow (min n_agents n_tasks) sink adj (replicate n_nodes 0) (replicate n_nodes (0, 0)) of
                  None \<Rightarrow> None
                | Some (Inl e) \<Rightarrow> Some (Inl e)
                | Some (Inr adj1) \<Rightarrow>
                    let (direct1, rev1) =
                          fold (ssp_output_agent n_agents n_tasks adj1) [0..<n_agents] (direct, rev_assignment)
                    in if ssp_valid n_agents direct1 rev1 then Some (Inr (direct1, rev1))
                       else Some (Inl SSP_AssertionFailed)))"

section \<open>What the search finds\<close>

abbreviation sd_D :: "ssp_search \<Rightarrow> nat \<Rightarrow> real" where
  "sd_D s v \<equiv> sd_distances s ! v"

abbreviation sd_vis :: "ssp_search \<Rightarrow> nat \<Rightarrow> bool" where
  "sd_vis s v \<equiv> sd_visited s ! v"

definition ssp_graph :: "residual_graph \<Rightarrow> bool" where
  "ssp_graph adj \<longleftrightarrow> (\<forall>u < length adj. \<forall>e \<in> set (adj ! u). re_dst e < length adj)"

text \<open>The edge through which a node was reached: it has capacity, and the distance is the reduced cost through it.\<close>

definition dj_parent :: "residual_graph \<Rightarrow> real list \<Rightarrow> ssp_search \<Rightarrow> nat \<Rightarrow> bool" where
  "dj_parent adj p0 s v \<longleftrightarrow>
     (let (u, j) = sd_prev s ! v in u < length adj \<and> sd_vis s u \<and> j < length (adj ! u) \<and>
        0 < re_capacity (adj ! u ! j) \<and> re_dst (adj ! u ! j) = v \<and>
        sd_D s v = re_cost (adj ! u ! j) + sd_potentials s ! u - p0 ! v)"

text \<open>
  The invariant of the search; the edges that satisfy \<open>ready\<close> have been relaxed, and the nodes are visited in
  the order of \<open>rank\<close>.
\<close>

definition dj_core ::
  "residual_graph \<Rightarrow> real list \<Rightarrow> (nat \<Rightarrow> residual_edge \<Rightarrow> bool) \<Rightarrow> (nat \<Rightarrow> nat) \<Rightarrow> ssp_search \<Rightarrow> bool" where
  "dj_core adj p0 ready rank s \<longleftrightarrow>
     (length (sd_potentials s) = length adj \<and> length (sd_distances s) = length adj \<and>
      length (sd_visited s) = length adj \<and> length (sd_prev s) = length adj) \<and>
     (0 < length adj \<and> sd_vis s 0 \<and> sd_D s 0 = 0) \<and>
     (\<forall>v < length adj. 0 \<le> sd_D s v \<and> sd_D s v \<le> INF_DIST \<and> (sd_vis s v \<longrightarrow> sd_D s v < INF_DIST) \<and>
        sd_potentials s ! v = p0 ! v + (if sd_vis s v then sd_D s v else 0)) \<and>
     (\<forall>(d, v) \<in> set (sd_queue s). v < length adj \<and> sd_D s v \<le> d \<and> d < INF_DIST \<and>
        (\<forall>u < length adj. sd_vis s u \<longrightarrow> sd_D s u \<le> d)) \<and>
     sorted (sd_queue s) \<and>
     (\<forall>v < length adj. \<not> sd_vis s v \<and> sd_D s v < INF_DIST \<longrightarrow> (sd_D s v, v) \<in> set (sd_queue s)) \<and>
     (\<forall>u < length adj. sd_vis s u \<longrightarrow> (\<forall>e \<in> set (adj ! u). ready u e \<and> 0 < re_capacity e \<longrightarrow>
        sd_D s (re_dst e) \<le> re_cost e + sd_potentials s ! u - p0 ! re_dst e)) \<and>
     (\<forall>v < length adj. v \<noteq> 0 \<and> sd_D s v < INF_DIST \<longrightarrow> dj_parent adj p0 s v) \<and>
     (\<forall>v < length adj. v \<noteq> 0 \<and> sd_vis s v \<longrightarrow> rank (fst (sd_prev s ! v)) < rank v)"

lemma dj_core_lengths:
  assumes "dj_core adj p0 ready rank s"
  shows "length (sd_potentials s) = length adj" "length (sd_distances s) = length adj"
    "length (sd_visited s) = length adj" "length (sd_prev s) = length adj" "0 < length adj" "sd_vis s 0" "sd_D s 0 = 0"
    "sorted (sd_queue s)"
  using assms by (simp_all add: dj_core_def)

lemma dj_core_node:
  assumes "dj_core adj p0 ready rank s" and "v < length adj"
  shows "0 \<le> sd_D s v" "sd_D s v \<le> INF_DIST" "sd_vis s v \<Longrightarrow> sd_D s v < INF_DIST"
    "sd_potentials s ! v = p0 ! v + (if sd_vis s v then sd_D s v else 0)"
    "\<not> sd_vis s v \<Longrightarrow> sd_D s v < INF_DIST \<Longrightarrow> (sd_D s v, v) \<in> set (sd_queue s)"
    "v \<noteq> 0 \<Longrightarrow> sd_D s v < INF_DIST \<Longrightarrow> dj_parent adj p0 s v"
    "v \<noteq> 0 \<Longrightarrow> sd_vis s v \<Longrightarrow> rank (fst (sd_prev s ! v)) < rank v"
  using assms by (simp_all add: dj_core_def)

lemma dj_core_queue:
  assumes "dj_core adj p0 ready rank s" and "(d, v) \<in> set (sd_queue s)"
  shows "v < length adj" "sd_D s v \<le> d" "d < INF_DIST" "u < length adj \<Longrightarrow> sd_vis s u \<Longrightarrow> sd_D s u \<le> d"
  using assms by (auto simp: dj_core_def)

lemma dj_core_relaxed:
  assumes "dj_core adj p0 ready rank s" and "u < length adj" and "sd_vis s u" and "e \<in> set (adj ! u)" and "ready u e"
    and "0 < re_capacity e"
  shows "sd_D s (re_dst e) \<le> re_cost e + sd_potentials s ! u - p0 ! re_dst e"
  using assms by (auto simp: dj_core_def)

lemma ssp_feasibleD:
  "ssp_feasible adj p \<Longrightarrow> u < length adj \<Longrightarrow> e \<in> set (adj ! u) \<Longrightarrow> 0 < re_capacity e \<Longrightarrow>
     0 \<le> re_cost e + p ! u - p ! re_dst e"
  by (simp add: ssp_feasible_def)

text \<open>Relaxing one edge of the node just visited, which is the farthest of those visited.\<close>

lemma ssp_relax_ok:
  assumes core: "dj_core adj p0 ready rank s" and feas: "ssp_feasible adj p0" and graph: "ssp_graph adj"
    and u: "u < length adj" "sd_vis s u" "\<forall>w < length adj. sd_vis s w \<longrightarrow> sd_D s w \<le> sd_D s u"
    and j: "j < length (adj ! u)"
  shows "\<exists>s'. ssp_relax u (j, adj ! u ! j) s = Inr s' \<and> sd_visited s' = sd_visited s \<and>
    (\<forall>w < length adj. sd_vis s w \<longrightarrow> sd_D s' w = sd_D s w) \<and>
    dj_core adj p0 (\<lambda>x e. ready x e \<or> x = u \<and> e = adj ! u ! j) rank s'"
proof -
  define e where "e = adj ! u ! j"
  define v where "v = re_dst e"
  have e_in: "e \<in> set (adj ! u)" using j by (simp add: e_def)
  have v: "v < length adj" using graph u(1) e_in by (simp add: ssp_graph_def v_def)
  note lens = dj_core_lengths [OF core]
  note node = dj_core_node [OF core]
  have pu: "sd_potentials s ! u = p0 ! u + sd_D s u" using node(4) [OF u(1)] u(2) by simp
  show ?thesis
  proof (cases "\<not> sd_vis s v \<and> 0 < re_capacity e")
    case False
    have "sd_D s v \<le> re_cost e + sd_potentials s ! u - p0 ! v" if "0 < re_capacity e"
    proof -
      have "sd_D s v \<le> sd_D s u" using False that v u(3) by simp
      then show ?thesis using ssp_feasibleD [OF feas u(1) e_in that] pu by (simp add: v_def)
    qed
    then have "dj_core adj p0 (\<lambda>x e'. ready x e' \<or> x = u \<and> e' = e) rank s"
      using core unfolding dj_core_def v_def by auto
    then show ?thesis using False by (intro exI [of _ s]) (auto simp: ssp_relax_def e_def v_def)
  next
    case True
    define rc where "rc = re_cost e + sd_potentials s ! u - sd_potentials s ! v"
    have pv: "sd_potentials s ! v = p0 ! v" using node(4) [OF v] True by simp
    have rc: "sd_D s u \<le> rc" using ssp_feasibleD [OF feas u(1) e_in] True pu pv by (simp add: rc_def v_def)
    then have nonneg: "\<not> rc < 0" using node(1) [OF u(1)] by linarith
    show ?thesis
    proof (cases "rc < sd_D s v")
      case False
      then have "dj_core adj p0 (\<lambda>x e'. ready x e' \<or> x = u \<and> e' = e) rank s"
        using core pv unfolding dj_core_def v_def rc_def by auto
      then show ?thesis
        using True False nonneg by (intro exI [of _ s]) (auto simp: ssp_relax_def e_def v_def rc_def Let_def)
    next
      case less: True
      let ?s' = "s\<lparr>sd_distances := (sd_distances s)[v := rc], sd_prev := (sd_prev s)[v := (u, j)],
          sd_queue := insort (rc, v) (sd_queue s)\<rparr>"
      have v0: "v \<noteq> 0" using True lens(6) by metis
      have D': "sd_D ?s' w = (if w = v then rc else sd_D s w)" if "w < length adj" for w
        using that lens(2) v by (simp add: nth_list_update)
      have prev': "sd_prev ?s' ! w = (if w = v then (u, j) else sd_prev s ! w)" if "w < length adj" for w
        using that lens(4) v by (simp add: nth_list_update)
      have "rc < INF_DIST" using less node(2) [OF v] by linarith
      have parent: "dj_parent adj p0 ?s' w" if "w < length adj" "w \<noteq> 0" "sd_D ?s' w < INF_DIST" for w
      proof (cases "w = v")
        case True
        with prev' D' v u j \<open>\<not> sd_vis s v \<and> 0 < re_capacity e\<close> pv show ?thesis
          by (simp add: dj_parent_def e_def [symmetric] v_def [symmetric] rc_def)
      next
        case False
        with that D' node(6) [of w] prev' show ?thesis by (simp add: dj_parent_def)
      qed
      have queue: "x < length adj \<and> sd_D ?s' x \<le> d \<and> d < INF_DIST \<and>
          (\<forall>w < length adj. sd_vis s w \<longrightarrow> sd_D ?s' w \<le> d)" if "(d, x) \<in> set (insort (rc, v) (sd_queue s))" for d x
      proof (cases "(d, x) = (rc, v)")
        case True
        with D' v u(3) rc \<open>\<not> sd_vis s v \<and> _\<close> \<open>rc < INF_DIST\<close> show ?thesis by fastforce
      next
        case False
        then have in_q: "(d, x) \<in> set (sd_queue s)" using that by (auto simp: set_insort_key)
        note q = dj_core_queue [OF core in_q]
        have "sd_D ?s' x \<le> d" using D' [OF q(1)] q(2) less by auto
        moreover have "sd_D ?s' w \<le> d" if "w < length adj" "sd_vis s w" for w
          using D' [OF that(1)] q(4) [OF that] True that(2) by auto
        ultimately show ?thesis using q(1,3) by blast
      qed
      have in_queue: "(sd_D ?s' w, w) \<in> set (sd_queue ?s')" if "w < length adj" "\<not> sd_vis s w" "sd_D ?s' w < INF_DIST" for w
        using that D' [OF that(1)] node(5) [OF that(1)] by (cases "w = v") (simp_all add: set_insort_key)
      have relaxed: "sd_D ?s' (re_dst e') \<le> re_cost e' + sd_potentials s ! w - p0 ! re_dst e'"
        if "w < length adj" "sd_vis s w" "e' \<in> set (adj ! w)" "ready w e' \<or> w = u \<and> e' = e" "0 < re_capacity e'" for w e'
      proof (cases "w = u \<and> e' = e")
        case True
        then show ?thesis using D' [OF v] pv by (simp add: v_def rc_def)
      next
        case False
        have dst: "re_dst e' < length adj" using graph that(1,3) by (simp add: ssp_graph_def)
        have "sd_D s (re_dst e') \<le> re_cost e' + sd_potentials s ! w - p0 ! re_dst e'"
          using dj_core_relaxed [OF core that(1,2,3) _ that(5)] that(4) False by blast
        moreover have "sd_D ?s' (re_dst e') \<le> sd_D s (re_dst e')" using D' [OF dst] less by (simp split: if_splits)
        ultimately show ?thesis by linarith
      qed
      have "dj_core adj p0 (\<lambda>x e'. ready x e' \<or> x = u \<and> e' = e) rank ?s'"
      proof -
        have nodes: "0 \<le> sd_D ?s' w \<and> sd_D ?s' w \<le> INF_DIST \<and> (sd_vis s w \<longrightarrow> sd_D ?s' w < INF_DIST) \<and>
            sd_potentials s ! w = p0 ! w + (if sd_vis s w then sd_D ?s' w else 0)" if "w < length adj" for w
          using D' [OF that] node(1-4) [OF that] True nonneg \<open>rc < INF_DIST\<close> by (auto split: if_splits)
        have ranks: "rank (fst (sd_prev ?s' ! w)) < rank w" if "w < length adj" "w \<noteq> 0" "sd_vis s w" for w
          using prev' [OF that(1)] node(7) [OF that] True that(3) by auto
        have source: "sd_D ?s' 0 = 0" using D' [OF lens(5)] v0 lens(7) by simp
        show ?thesis unfolding dj_core_def
          using lens(1-6) source nodes queue in_queue relaxed parent ranks
          by (auto simp: sorted_insort lens(8))
      qed
      moreover have "\<forall>w < length adj. sd_vis s w \<longrightarrow> sd_D ?s' w = sd_D s w" using D' True by simp
      moreover have "ssp_relax u (j, e) s = Inr ?s'"
        using True less nonneg by (simp add: ssp_relax_def v_def [symmetric] rc_def [symmetric])
      ultimately show ?thesis unfolding e_def [symmetric] by (intro exI [of _ ?s']) simp
    qed
  qed
qed

lemma ssp_relax_all_ok:
  assumes "dj_core adj p0 ready rank s" and feas: "ssp_feasible adj p0" and graph: "ssp_graph adj"
    and u: "u < length adj" and "sd_vis s u" and "\<forall>w < length adj. sd_vis s w \<longrightarrow> sd_D s w \<le> sd_D s u"
    and "i + k = length (adj ! u)"
  shows "\<exists>s'. err_fold (ssp_relax u) (List.enumerate i (drop i (adj ! u))) s = Inr s' \<and> sd_visited s' = sd_visited s \<and>
    dj_core adj p0 (\<lambda>x e. ready x e \<or> x = u \<and> e \<in> set (drop i (adj ! u))) rank s'"
  using assms(1,5,6,7)
proof (induction k arbitrary: i s ready)
  case (Suc k)
  then have i: "i < length (adj ! u)" by simp
  then have drop: "drop i (adj ! u) = adj ! u ! i # drop (Suc i) (adj ! u)" by (rule Cons_nth_drop_Suc [symmetric])
  let ?ready = "\<lambda>x e. ready x e \<or> x = u \<and> e = adj ! u ! i"
  from ssp_relax_ok [OF Suc.prems(1) feas graph u Suc.prems(2,3) i]
  obtain s1 where s1: "ssp_relax u (i, adj ! u ! i) s = Inr s1" "sd_visited s1 = sd_visited s"
    "\<forall>w < length adj. sd_vis s w \<longrightarrow> sd_D s1 w = sd_D s w" "dj_core adj p0 ?ready rank s1"
    by blast
  have far: "\<forall>w < length adj. sd_vis s1 w \<longrightarrow> sd_D s1 w \<le> sd_D s1 u"
    using Suc.prems(2,3) s1(2,3) u by simp
  have vis: "sd_vis s1 u" using Suc.prems(2) s1(2) by simp
  have k: "Suc i + k = length (adj ! u)" using Suc.prems(4) by simp
  from Suc.IH [OF s1(4) vis far k]
  obtain s2 where "err_fold (ssp_relax u) (List.enumerate (Suc i) (drop (Suc i) (adj ! u))) s1 = Inr s2"
    "sd_visited s2 = sd_visited s1"
    "dj_core adj p0 (\<lambda>x e. ?ready x e \<or> x = u \<and> e \<in> set (drop (Suc i) (adj ! u))) rank s2"
    by blast
  moreover have "(\<lambda>x e. ?ready x e \<or> x = u \<and> e \<in> set (drop (Suc i) (adj ! u))) =
      (\<lambda>x e. ready x e \<or> x = u \<and> e \<in> set (drop i (adj ! u)))"
    unfolding drop by auto
  ultimately show ?case using s1(1,2) by (simp add: drop)
qed auto

text \<open>The invariant of the loop over the queue: all visited nodes have been relaxed, and the sink is not visited.\<close>

definition dj_inv :: "residual_graph \<Rightarrow> real list \<Rightarrow> nat \<Rightarrow> ssp_search \<Rightarrow> bool" where
  "dj_inv adj p0 sink s \<longleftrightarrow> \<not> sd_vis s sink \<and>
     (\<exists>rank k. dj_core adj p0 (\<lambda>x e. True) rank s \<and> (\<forall>v < length adj. sd_vis s v \<longrightarrow> rank v < k))"

text \<open>Visiting the first node of the queue; its own edges are relaxed next.\<close>

lemma ssp_visit_ok:
  assumes core: "dj_core adj p0 (\<lambda>x e. True) rank s" and bound: "\<forall>v < length adj. sd_vis s v \<longrightarrow> rank v < k"
    and q: "sd_queue s = (d, u) # rest" and vis: "\<not> sd_vis s u"
  shows "u < length adj \<and> d = sd_D s u \<and>
    dj_core adj p0 (\<lambda>x e. x \<noteq> u) (rank(u := k)) (ssp_visit u d (s\<lparr>sd_queue := rest\<rparr>)) \<and>
    (\<forall>w < length adj. sd_vis (ssp_visit u d (s\<lparr>sd_queue := rest\<rparr>)) w \<longrightarrow> sd_D s w \<le> sd_D s u)"
proof -
  let ?s' = "ssp_visit u d (s\<lparr>sd_queue := rest\<rparr>)"
  note lens = dj_core_lengths [OF core]
  note node = dj_core_node [OF core]
  have head: "(d, u) \<in> set (sd_queue s)" using q by simp
  note h = dj_core_queue [OF core head]
  have u: "u < length adj" by (rule h(1))
  have "sd_D s u < INF_DIST" using h(2,3) by linarith
  then have "(sd_D s u, u) \<in> set (sd_queue s)" using node(5) [OF u vis] by simp
  then have "(d, u) \<le> (sd_D s u, u)" using lens(8) q by auto
  then have d: "d = sd_D s u" using h(2) by simp
  have vis': "sd_vis ?s' w = (sd_vis s w \<or> w = u)" if "w < length adj" for w
    using that lens(3) u by (simp add: ssp_visit_def nth_list_update)
  have pot': "sd_potentials ?s' ! w = sd_potentials s ! w + (if w = u then d else 0)" if "w < length adj" for w
    using that lens(1) u by (simp add: ssp_visit_def nth_list_update)
  have same: "sd_distances ?s' = sd_distances s" "sd_prev ?s' = sd_prev s" "sd_queue ?s' = rest"
    "length (sd_potentials ?s') = length (sd_potentials s)" "length (sd_visited ?s') = length (sd_visited s)"
    by (simp_all add: ssp_visit_def)
  have far: "sd_D s w \<le> sd_D s u" if "w < length adj" "sd_vis ?s' w" for w
    using h(4) [OF that(1)] that vis' [OF that(1)] d by auto
  have parent: "dj_parent adj p0 ?s' v" if "v < length adj" "v \<noteq> 0" "sd_D s v < INF_DIST" for v
  proof -
    obtain x j where x: "sd_prev s ! v = (x, j)" by fastforce
    have "x < length adj" "sd_vis s x" "x \<noteq> u" using node(6) [OF that] x vis by (auto simp: dj_parent_def)
    with node(6) [OF that] x vis' pot' show ?thesis by (simp add: dj_parent_def same)
  qed
  have nodes: "0 \<le> sd_D s v \<and> sd_D s v \<le> INF_DIST \<and> (sd_vis ?s' v \<longrightarrow> sd_D s v < INF_DIST) \<and>
      sd_potentials ?s' ! v = p0 ! v + (if sd_vis ?s' v then sd_D s v else 0)" if "v < length adj" for v
    using node(1-4) [OF that] vis' [OF that] pot' [OF that] d vis \<open>sd_D s u < INF_DIST\<close> by (auto split: if_splits)
  have queue: "v < length adj \<and> sd_D s v \<le> e \<and> e < INF_DIST \<and> (\<forall>w < length adj. sd_vis ?s' w \<longrightarrow> sd_D s w \<le> e)"
    if "(e, v) \<in> set rest" for e v
  proof -
    have in_q: "(e, v) \<in> set (sd_queue s)" using that q by simp
    have "d \<le> e" using lens(8) q that by force
    with dj_core_queue [OF core in_q] vis' d show ?thesis by auto
  qed
  have in_queue: "(sd_D s v, v) \<in> set rest" if "v < length adj" "\<not> sd_vis ?s' v" "sd_D s v < INF_DIST" for v
    using node(5) [OF that(1) _ that(3)] that vis' [OF that(1)] q by auto
  have relaxed: "sd_D s (re_dst e) \<le> re_cost e + sd_potentials ?s' ! x - p0 ! re_dst e"
    if "x < length adj" "sd_vis ?s' x" "e \<in> set (adj ! x)" "x \<noteq> u" "0 < re_capacity e" for x e
    using dj_core_relaxed [OF core that(1) _ that(3) _ that(5)] that vis' [OF that(1)] pot' [OF that(1)] by simp
  have ranks: "(rank(u := k)) (fst (sd_prev s ! v)) < (rank(u := k)) v" if "v < length adj" "v \<noteq> 0" "sd_vis ?s' v" for v
  proof -
    have "sd_D s v < INF_DIST" using nodes [OF that(1)] that(3) by simp
    then have x: "fst (sd_prev s ! v) < length adj" "sd_vis s (fst (sd_prev s ! v))"
      using node(6) [OF that(1,2)] by (auto simp: dj_parent_def)
    then have "fst (sd_prev s ! v) \<noteq> u" using vis by metis
    then show ?thesis
      using x bound node(7) [OF that(1,2)] that vis' [OF that(1)] by (cases "v = u") auto
  qed
  have "dj_core adj p0 (\<lambda>x e. x \<noteq> u) (rank(u := k)) ?s'"
    unfolding dj_core_def same
    using lens vis' [OF lens(5)] nodes queue in_queue relaxed parent ranks sorted_wrt.simps(2) [of "(\<le>)"] q
    by (intro conjI allI ballI impI) (auto simp: same)
  with u d far show ?thesis by blast
qed

lemma dj_skip:
  assumes "dj_core adj p0 ready rank s" and "sd_queue s = (d, u) # rest" and "sd_vis s u"
  shows "dj_core adj p0 ready rank (s\<lparr>sd_queue := rest\<rparr>)"
  using assms unfolding dj_core_def by (auto simp: dj_parent_def)

text \<open>
  The loop ends with the sink visited, if a path leads to it that is short enough to be seen; \<open>short\<close> says so by
  a set of nodes that is not closed under edges of small reduced cost.
\<close>

definition dj_found :: "residual_graph \<Rightarrow> real list \<Rightarrow> nat \<Rightarrow> ssp_search \<Rightarrow> bool" where
  "dj_found adj p0 sink s \<longleftrightarrow> sd_vis s sink \<and>
     (\<exists>rank. dj_core adj p0 (\<lambda>x e. x \<noteq> sink) rank s) \<and>
     (\<forall>v < length adj. sd_vis s v \<longrightarrow> sd_D s v \<le> sd_D s sink) \<and>
     (\<forall>v < length adj. \<not> sd_vis s v \<longrightarrow> sd_D s sink \<le> sd_D s v)"

lemma dj_core_mono:
  "dj_core adj p0 ready rank s \<Longrightarrow>
     (\<And>u e. u < length adj \<Longrightarrow> sd_vis s u \<Longrightarrow> e \<in> set (adj ! u) \<Longrightarrow> ready' u e \<Longrightarrow> ready u e) \<Longrightarrow>
   dj_core adj p0 ready' rank s"
  unfolding dj_core_def by (elim conjE) (intro conjI; (assumption | blast))

lemma ssp_dijkstra_ok:
  assumes "ssp_feasible adj p0" and "ssp_graph adj" and "dj_inv adj p0 sink s" and "sink < length adj"
  shows "\<exists>s'. ssp_dijkstra adj sink s = Inr s' \<and>
    (dj_found adj p0 sink s' \<or> dj_inv adj p0 sink s' \<and> sd_queue s' = [])"
  using assms
proof (induction adj sink s rule: ssp_dijkstra.induct)
  case (1 adj sink s)
  note feas = "1.prems"(1) and graph = "1.prems"(2) and sink = "1.prems"(4)
  obtain rank k where core: "dj_core adj p0 (\<lambda>x e. True) rank s" and bound: "\<forall>v < length adj. sd_vis s v \<longrightarrow> rank v < k"
    and unseen: "\<not> sd_vis s sink"
    using "1.prems"(3) by (auto simp: dj_inv_def)
  note lens = dj_core_lengths [OF core]
  show ?case
  proof (cases "sd_queue s")
    case Nil
    with "1.prems"(3) show ?thesis by (simp add: ssp_dijkstra.simps [of adj sink s])
  next
    case (Cons du rest)
    obtain d u where du: "du = (d, u)" by fastforce
    let ?s1 = "s\<lparr>sd_queue := rest\<rparr>"
    have q: "sd_queue s = (d, u) # rest" using Cons du by simp
    have in_q: "(d, u) \<in> set (sd_queue s)" using q by simp
    have u: "u < length adj" using dj_core_queue(1) [OF core in_q] .
    have at: "vec_at (sd_visited ?s1) u = Inr (sd_vis s u)" using u lens(3) by (simp add: vec_at_def)
    show ?thesis
    proof (cases "sd_vis s u")
      case True
      have "dj_inv adj p0 sink ?s1"
        using dj_skip [OF core q True] unseen bound unfolding dj_inv_def by auto
      from "1.IH"(1) [OF Cons du [symmetric] refl at True feas graph this sink] show ?thesis
        using q at True by (simp add: ssp_dijkstra.simps [of adj sink s])
    next
      case False
      let ?s2 = "ssp_visit u d ?s1"
      note v = ssp_visit_ok [OF core bound q False]
      have d: "d = sd_D ?s1 u" using v by simp
      then have d': "\<not> d \<noteq> sd_D ?s1 u" by blast
      have core2: "dj_core adj p0 (\<lambda>x e. x \<noteq> u) (rank(u := k)) ?s2" using v by blast
      have vis2: "sd_vis ?s2 u" and same: "sd_distances ?s2 = sd_distances s" "sd_visited ?s2 = (sd_visited s)[u := True]"
        using u lens(3) by (simp_all add: ssp_visit_def)
      have far: "\<forall>w < length adj. sd_vis ?s2 w \<longrightarrow> sd_D ?s2 w \<le> sd_D ?s2 u" using v same(1) by simp
      show ?thesis
      proof (cases "u = sink")
        case True
        have "sd_D ?s2 sink \<le> sd_D ?s2 w" if "w < length adj" "\<not> sd_vis ?s2 w" for w
        proof (cases "sd_D s w < INF_DIST")
          case lt: True
          have "\<not> sd_vis s w" "w \<noteq> u" using that same(2) lens(3) u by (auto simp: nth_list_update split: if_splits)
          then have "(sd_D s w, w) \<in> set rest" using dj_core_node(5) [OF core that(1) _ lt] q by auto
          then have "d \<le> sd_D s w" using lens(8) q by force
          then show ?thesis using d True same(1) by simp
        next
          case ge: False
          have "sd_D s u \<le> INF_DIST" by (rule dj_core_node(2) [OF core u])
          with ge True same(1) show ?thesis by simp
        qed
        with core2 vis2 far True have "dj_found adj p0 sink ?s2" unfolding dj_found_def by blast
        then show ?thesis using q at False d True by (simp add: ssp_dijkstra.simps [of adj sink s])
      next
        case not_sink: False
        from ssp_relax_all_ok [where i = 0, OF core2 feas graph u vis2 far] obtain s3 where
          s3: "err_fold (ssp_relax u) (List.enumerate 0 (adj ! u)) ?s2 = Inr s3" "sd_visited s3 = sd_visited ?s2"
          "dj_core adj p0 (\<lambda>x e. x \<noteq> u \<or> x = u \<and> e \<in> set (adj ! u)) (rank(u := k)) s3"
          by auto
        have "dj_core adj p0 (\<lambda>x e. True) (rank(u := k)) s3" by (rule dj_core_mono [OF s3(3)]) blast
        moreover have "\<not> sd_vis s3 sink" using unseen not_sink s3(2) same(2) by simp
        moreover have "\<forall>w < length adj. sd_vis s3 w \<longrightarrow> (rank(u := k)) w < Suc k"
          using bound s3(2) same(2) lens(3) by (auto simp: nth_list_update less_Suc_eq split: if_splits)
        ultimately have "dj_inv adj p0 sink s3" unfolding dj_inv_def by blast
        from "1.IH"(2) [OF Cons du [symmetric] refl at False d' refl not_sink s3(1) feas graph this sink]
        show ?thesis using q at False d not_sink s3(1) by (simp add: ssp_dijkstra.simps [of adj sink s])
      qed
    qed
  qed
qed

lemma ssp_search_ok:
  assumes feas: "ssp_feasible adj p0" and graph: "ssp_graph adj" and sink: "sink < length adj" "sink \<noteq> 0"
    and len: "length p0 = length adj" "length prev = length adj"
  shows "\<exists>s'. ssp_dijkstra adj sink (ssp_start_search (length adj) p0 prev) = Inr s' \<and>
    (dj_found adj p0 sink s' \<or> dj_inv adj p0 sink s' \<and> sd_queue s' = [])"
proof -
  let ?s = "ssp_start_search (length adj) p0 prev"
  let ?s2 = "ssp_visit 0 0 (?s\<lparr>sd_queue := []\<rparr>)"
  have n: "0 < length adj" using sink(1) by linarith
  have vis: "sd_vis ?s2 v = (v = 0)" if "v < length adj" for v
    using that n by (cases "v = 0") (simp_all add: ssp_visit_def ssp_start_search_def)
  have D: "sd_D ?s2 v = (if v = 0 then 0 else INF_DIST)" if "v < length adj" for v
    using that n by (cases "v = 0") (simp_all add: ssp_visit_def ssp_start_search_def)
  have pot: "sd_potentials ?s2 ! v = p0 ! v" for v
    by (cases "v = 0") (simp_all add: ssp_visit_def ssp_start_search_def nth_list_update)
  have q: "sd_queue ?s2 = []" by (simp add: ssp_visit_def)
  have core: "dj_core adj p0 (\<lambda>x e. x \<noteq> 0) (\<lambda>_. 0) ?s2"
    unfolding dj_core_def using n vis D pot q len
    by (auto simp: ssp_visit_def ssp_start_search_def INF_DIST_def)
  have far: "\<forall>w < length adj. sd_vis ?s2 w \<longrightarrow> sd_D ?s2 w \<le> sd_D ?s2 0" using vis by simp
  from ssp_relax_all_ok [where i = 0, OF core feas graph n _ far] vis [OF n] obtain s3 where
    s3: "err_fold (ssp_relax 0) (List.enumerate 0 (adj ! 0)) ?s2 = Inr s3" "sd_visited s3 = sd_visited ?s2"
    "dj_core adj p0 (\<lambda>x e. x \<noteq> 0 \<or> x = 0 \<and> e \<in> set (adj ! 0)) (\<lambda>_. 0) s3"
    by auto
  have "dj_core adj p0 (\<lambda>x e. True) (\<lambda>_. 0) s3" by (rule dj_core_mono [OF s3(3)]) auto
  then have "dj_inv adj p0 sink s3" using vis [OF sink(1)] sink(2) s3(2) unfolding dj_inv_def by auto
  moreover have "ssp_dijkstra adj sink ?s = ssp_dijkstra adj sink s3"
  proof -
    have "sd_queue ?s = [(0, 0)]" "vec_at (sd_visited (?s\<lparr>sd_queue := []\<rparr>)) 0 = Inr False"
      "sd_distances (?s\<lparr>sd_queue := []\<rparr>) ! 0 = 0"
      using n by (simp_all add: ssp_start_search_def vec_at_def)
    then show ?thesis using s3(1) sink(2) by (simp add: ssp_dijkstra.simps [of adj sink ?s])
  qed
  ultimately show ?thesis using ssp_dijkstra_ok [OF feas graph _ sink(1)] by simp
qed

lemma dj_closed:
  assumes "dj_inv adj p0 sink s" and "sd_queue s = []" and "ssp_graph adj" and "u < length adj" and "sd_vis s u"
    and "e \<in> set (adj ! u)" and "0 < re_capacity e"
    and "re_cost e + sd_potentials s ! u - p0 ! re_dst e < INF_DIST"
  shows "sd_vis s (re_dst e)" and "sd_D s (re_dst e) \<le> re_cost e + sd_potentials s ! u - p0 ! re_dst e"
proof -
  obtain rank where core: "dj_core adj p0 (\<lambda>x e. True) rank s" using assms(1) by (auto simp: dj_inv_def)
  show le: "sd_D s (re_dst e) \<le> re_cost e + sd_potentials s ! u - p0 ! re_dst e"
    by (rule dj_core_relaxed [OF core assms(4,5,6) TrueI assms(7)])
  have "re_dst e < length adj" using assms(3,4,6) by (simp add: ssp_graph_def)
  from dj_core_node(5) [OF core this] le assms(2,8) show "sd_vis s (re_dst e)" by auto
qed

text \<open>The result of a successful search: new potentials, and a tree of edges without reduced cost.\<close>

definition ssp_tree ::
  "residual_graph \<Rightarrow> real list \<Rightarrow> (nat \<times> nat) list \<Rightarrow> nat set \<Rightarrow> (nat \<Rightarrow> nat) \<Rightarrow> bool" where
  "ssp_tree adj p prev V rank \<longleftrightarrow>
     (\<forall>v \<in> V. v < length adj \<and> (v \<noteq> 0 \<longrightarrow>
        (let (u, j) = prev ! v in u \<in> V \<and> j < length (adj ! u) \<and> 0 < re_capacity (adj ! u ! j) \<and>
           re_dst (adj ! u ! j) = v \<and> re_cost (adj ! u ! j) + p ! u - p ! v = 0 \<and> rank u < rank v)))"

lemma ssp_found_potentials:
  assumes found: "dj_found adj p0 sink s" and feas: "ssp_feasible adj p0" and graph: "ssp_graph adj"
    and sink: "sink < length adj"
  defines "p \<equiv> ssp_shift_unvisited sink s"
  shows "length p = length adj" and "p ! 0 = p0 ! 0" and "p ! sink = sd_potentials s ! sink"
    and "\<forall>v < length adj. p0 ! v \<le> p ! v" and "ssp_feasible adj p"
    and "\<exists>V rank. sink \<in> V \<and> ssp_tree adj p (sd_prev s) V rank"
proof -
  obtain rank where core: "dj_core adj p0 (\<lambda>x e. x \<noteq> sink) rank s" and vis: "sd_vis s sink"
    and near: "\<forall>v < length adj. sd_vis s v \<longrightarrow> sd_D s v \<le> sd_D s sink"
    and far: "\<forall>v < length adj. \<not> sd_vis s v \<longrightarrow> sd_D s sink \<le> sd_D s v"
    using found by (auto simp: dj_found_def)
  note lens = dj_core_lengths [OF core]
  note node = dj_core_node [OF core]
  show len: "length p = length adj" using lens(1) by (simp add: p_def ssp_shift_unvisited_def)
  have p: "p ! v = p0 ! v + (if sd_vis s v then sd_D s v else sd_D s sink)" if "v < length adj" for v
    using that lens(1) node(4) [OF that] by (simp add: p_def ssp_shift_unvisited_def)
  show "p ! 0 = p0 ! 0" using p [OF lens(5)] lens(6,7) by simp
  show "p ! sink = sd_potentials s ! sink" using p [OF sink] node(4) [OF sink] vis by simp
  show "\<forall>v < length adj. p0 ! v \<le> p ! v" using p node(1) sink by auto
  show "ssp_feasible adj p"
    unfolding ssp_feasible_def
  proof (intro allI impI ballI)
    fix u e assume u: "u < length adj" and e: "e \<in> set (adj ! u)" and cap: "0 < re_capacity e"
    have v: "re_dst e < length adj" using graph u e by (simp add: ssp_graph_def)
    have old: "0 \<le> re_cost e + p0 ! u - p0 ! re_dst e" by (rule ssp_feasibleD [OF feas u e cap])
    have near_all: "p ! re_dst e \<le> p0 ! re_dst e + sd_D s sink" using p [OF v] near v by simp
    show "0 \<le> re_cost e + p ! u - p ! re_dst e"
    proof (cases "sd_vis s u \<and> u \<noteq> sink")
      case False
      then have "p ! u = p0 ! u + sd_D s sink" using p [OF u] by auto
      with old near_all show ?thesis by linarith
    next
      case True
      then have "sd_D s (re_dst e) \<le> re_cost e + p ! u - p0 ! re_dst e"
        using dj_core_relaxed [OF core u _ e _ cap] p [OF u] node(4) [OF u] by simp
      moreover have "p ! re_dst e \<le> p0 ! re_dst e + sd_D s (re_dst e)" using p [OF v] far v by simp
      ultimately show ?thesis by linarith
    qed
  qed
  have "ssp_tree adj p (sd_prev s) {v. v < length adj \<and> sd_vis s v} rank"
    unfolding ssp_tree_def
  proof (intro ballI conjI impI)
    fix v assume v: "v \<in> {v. v < length adj \<and> sd_vis s v}"
    then show "v < length adj" by simp
    assume v0: "v \<noteq> 0"
    obtain u j where uj: "sd_prev s ! v = (u, j)" by fastforce
    have parent: "dj_parent adj p0 s v" and less: "rank u < rank v"
      using node(3,6,7) [of v] v v0 uj by simp_all
    then have u: "u < length adj" "sd_vis s u" "j < length (adj ! u)" "0 < re_capacity (adj ! u ! j)"
      "re_dst (adj ! u ! j) = v" "sd_D s v = re_cost (adj ! u ! j) + sd_potentials s ! u - p0 ! v"
      using uj by (simp_all add: dj_parent_def)
    have "p ! u = sd_potentials s ! u" "p ! v = p0 ! v + sd_D s v" using p u v node(4) by simp_all
    then have tight: "re_cost (adj ! u ! j) + p ! u - p ! v = 0" using u(6) by linarith
    show "let (u, j) = sd_prev s ! v in u \<in> {v. v < length adj \<and> sd_vis s v} \<and>
        j < length (adj ! u) \<and> 0 < re_capacity (adj ! u ! j) \<and> re_dst (adj ! u ! j) = v \<and>
        re_cost (adj ! u ! j) + p ! u - p ! v = 0 \<and> rank u < rank v"
      unfolding uj by (simp only: Let_def case_prod_conv mem_Collect_eq) (intro conjI u(1-5) tight less)
  qed
  with sink vis show "\<exists>V rank. sink \<in> V \<and> ssp_tree adj p (sd_prev s) V rank"
    by (intro exI [of _ "{v. v < length adj \<and> sd_vis s v}"] exI [of _ rank]) simp
qed

end
