(* ===== verification/Residual_Network.thy ===== *)
theory Residual_Network
  imports Successive_Shortest_Path
begin

text \<open>
  The residual graph of the solver SSP (theory \<open>Successive_Shortest_Path\<close>) as a list of arcs and the set of those
  that carry flow: the graph built from a matrix of scores is such a graph without flow, and augmentation along a
  tree of edges without reduced cost changes the flow of the arcs on the way, and keeps the potentials feasible.
\<close>

section \<open>The residual graph as arcs and flow\<close>

type_synonym arc = "nat \<times> nat \<times> real"

definition arc_touches :: "arc list \<Rightarrow> nat \<Rightarrow> nat \<Rightarrow> bool" where
  "arc_touches L x k = (case L ! k of (u, v, c) \<Rightarrow> x = u \<or> x = v)"

definition arc_incident :: "arc list \<Rightarrow> nat \<Rightarrow> nat list" where
  "arc_incident L x = filter (arc_touches L x) [0..<length L]"

definition arc_position :: "arc list \<Rightarrow> nat \<Rightarrow> nat \<Rightarrow> nat" where
  "arc_position L x k = length (filter (arc_touches L x) [0..<k])"

definition arc_edge :: "arc list \<Rightarrow> arc set \<Rightarrow> nat \<Rightarrow> nat \<Rightarrow> residual_edge" where
  "arc_edge L F x k =
     (case L ! k of (u, v, c) \<Rightarrow>
        if x = u
        then \<lparr>re_dst = v, re_capacity = (if L ! k \<in> F then 0 else 1), re_cost = c,
              re_flow = (if L ! k \<in> F then 1 else 0), re_reverse = arc_position L v k\<rparr>
        else \<lparr>re_dst = u, re_capacity = (if L ! k \<in> F then 1 else 0), re_cost = - c, re_flow = 0,
              re_reverse = arc_position L u k\<rparr>)"

definition ssp_net :: "nat \<Rightarrow> arc list \<Rightarrow> arc set \<Rightarrow> residual_graph" where
  "ssp_net n L F = map (\<lambda>x. map (arc_edge L F x) (arc_incident L x)) [0..<n]"

definition arcs_ok :: "nat \<Rightarrow> arc list \<Rightarrow> bool" where
  "arcs_ok n L \<longleftrightarrow> distinct L \<and> (\<forall>(u, v, c) \<in> set L. u < n \<and> v < n \<and> u \<noteq> v)"

lemma length_ssp_net [simp]: "length (ssp_net n L F) = n"
  by (simp add: ssp_net_def)

lemma ssp_net_nth [simp]: "x < n \<Longrightarrow> ssp_net n L F ! x = map (arc_edge L F x) (arc_incident L x)"
  by (simp add: ssp_net_def)

lemma arc_incident_set: "k \<in> set (arc_incident L x) \<longleftrightarrow> k < length L \<and> arc_touches L x k"
  by (auto simp: arc_incident_def)

lemma distinct_arc_incident: "distinct (arc_incident L x)"
  by (simp add: arc_incident_def)

lemma filter_upt_position:
  assumes "k < n" and "P k"
  shows "length (filter P [0..<k]) < length (filter P [0..<n])"
    and "filter P [0..<n] ! length (filter P [0..<k]) = k"
proof -
  have "[0..<n] = [0..<k] @ k # [Suc k..<n]" 
    using upt_add_eq_append [of 0 k "n - k"] upt_conv_Cons [of k n] assms(1) by simp
  then have "filter P [0..<n] = filter P [0..<k] @ k # filter P [Suc k..<n]" using assms(2) by simp
  then show "length (filter P [0..<k]) < length (filter P [0..<n])"
    and "filter P [0..<n] ! length (filter P [0..<k]) = k"
    by (simp_all add: nth_append)
qed

lemma arc_position_ok:
  assumes "k < length L" and "arc_touches L x k"
  shows "arc_position L x k < length (arc_incident L x)" and "arc_incident L x ! arc_position L x k = k"
  using filter_upt_position [of k "length L" "arc_touches L x"] assms
  by (simp_all add: arc_position_def arc_incident_def)

lemma arc_incident_snoc:
  "arc_incident (L @ [(u, v, c)]) x = arc_incident L x @ (if x = u \<or> x = v then [length L] else [])"
  by (auto simp: arc_incident_def arc_touches_def nth_append intro!: filter_cong)

lemma arc_position_snoc: "k \<le> length L \<Longrightarrow> arc_position (L @ [a]) x k = arc_position L x k"
  by (auto simp: arc_position_def arc_touches_def nth_append intro!: arg_cong [where f = length] filter_cong)

lemma arc_edge_snoc: "k < length L \<Longrightarrow> arc_edge (L @ [a]) F x k = arc_edge L F x k"
  by (simp add: arc_edge_def nth_append arc_position_snoc split: prod.split)

lemma ssp_add_edge_net:
  assumes "u < n" and "v < n" and "u \<noteq> v"
  shows "ssp_add_edge u v c (ssp_net n L {}) = ssp_net n (L @ [(u, v, c)]) {}"
proof (rule nth_equalityI)
  show "length (ssp_add_edge u v c (ssp_net n L {})) = length (ssp_net n (L @ [(u, v, c)]) {})"
    by (simp add: ssp_add_edge_def ssp_emplace_back_def Let_def)
  fix x assume "x < length (ssp_add_edge u v c (ssp_net n L {}))"
  then have x: "x < n" by (simp add: ssp_add_edge_def ssp_emplace_back_def Let_def)
  have old: "map (arc_edge (L @ [(u, v, c)]) {} x) (arc_incident L x) = map (arc_edge L {} x) (arc_incident L x)"
    by (rule map_cong [OF refl]) (simp add: arc_incident_set arc_edge_snoc)
  have pos: "arc_position (L @ [(u, v, c)]) y (length L) = length (arc_incident L y)" for y
    by (simp add: arc_position_snoc) (simp add: arc_position_def arc_incident_def)
  have new: "arc_edge (L @ [(u, v, c)]) {} u (length L) =
      \<lparr>re_dst = v, re_capacity = 1, re_cost = c, re_flow = 0, re_reverse = length (arc_incident L v)\<rparr>"
    "arc_edge (L @ [(u, v, c)]) {} v (length L) =
      \<lparr>re_dst = u, re_capacity = 0, re_cost = - c, re_flow = 0, re_reverse = length (arc_incident L u)\<rparr>"
    using assms(3) by (simp_all add: arc_edge_def pos)
  consider "x = u" | "x = v" | "x \<noteq> u" "x \<noteq> v" by blast
  then show "ssp_add_edge u v c (ssp_net n L {}) ! x = ssp_net n (L @ [(u, v, c)]) {} ! x"
    using x assms old new
    by cases (simp_all add: ssp_add_edge_def ssp_emplace_back_def Let_def arc_incident_snoc nth_list_update)
qed

text \<open>Loops that add edges append their arcs.\<close>

definition ssp_add_arcs :: "arc list \<Rightarrow> residual_graph \<Rightarrow> residual_graph" where
  "ssp_add_arcs as = fold (\<lambda>(u, v, c). ssp_add_edge u v c) as"

lemma ssp_add_arcs_net:
  "\<forall>(u, v, c) \<in> set as. u < n \<and> v < n \<and> u \<noteq> v \<Longrightarrow>
     ssp_add_arcs as (ssp_net n L {}) = ssp_net n (L @ as) {}"
  by (induction as arbitrary: L) (auto simp: ssp_add_arcs_def ssp_add_edge_net)

lemma fold_add_arcs: "fold (\<lambda>x. ssp_add_arcs (g x)) xs adj = ssp_add_arcs (concat (map g xs)) adj"
  by (induction xs arbitrary: adj) (simp_all add: ssp_add_arcs_def)

lemma err_fold_Inr: "(\<And>x s. x \<in> set xs \<Longrightarrow> f x s = Inr (g x s)) \<Longrightarrow> err_fold f xs s = Inr (fold g xs s)"
  by (induction xs arbitrary: s) simp_all

section \<open>The arcs of a matrix of scores\<close>

text \<open>The matrix is rectangular, and no score is greater than the cost of a dummy.\<close>

definition ssp_scores :: "real list list \<Rightarrow> bool" where
  "ssp_scores cost \<longleftrightarrow> (\<forall>row \<in> set cost. length row = length (cost ! 0) \<and> (\<forall>s \<in> set row. s \<le> MAX_COST))"

definition ssp_score_arcs :: "real list list \<Rightarrow> nat \<Rightarrow> arc list" where
  "ssp_score_arcs cost agent =
     concat (map (\<lambda>task.
       if EPS < cost ! agent ! task
       then [(agent + 1, task + length cost + 1, MAX_COST - cost ! agent ! task)] else [])
       [0..<length (cost ! 0)])"

definition ssp_arcs :: "real list list \<Rightarrow> arc list" where
  "ssp_arcs cost =
     (let n_agents = length cost; n_tasks = length (cost ! 0); sink = ssp_sink n_agents n_tasks
      in map (\<lambda>agent. (0, agent + 1, 0)) [0..<n_agents] @
         concat (map (ssp_score_arcs cost) [0..<n_agents]) @
         map (\<lambda>task. (task + n_agents + 1, sink, 0)) [0..<n_tasks] @
         concat (map (\<lambda>agent. [(agent + 1, agent + n_agents + n_tasks + 2, MAX_COST),
           (agent + n_agents + n_tasks + 2, sink, 0)]) [0..<n_agents]))"

lemma ssp_arcs_set:
  "(u, v, c) \<in> set (ssp_arcs cost) \<longleftrightarrow>
     (\<exists>a < length cost. u = 0 \<and> v = a + 1 \<and> c = 0) \<or>
     (\<exists>a < length cost. \<exists>t < length (cost ! 0). EPS < cost ! a ! t \<and> u = a + 1 \<and> v = t + length cost + 1 \<and>
        c = MAX_COST - cost ! a ! t) \<or>
     (\<exists>t < length (cost ! 0). u = t + length cost + 1 \<and> v = ssp_sink (length cost) (length (cost ! 0)) \<and> c = 0) \<or>
     (\<exists>a < length cost. u = a + 1 \<and> v = a + length cost + length (cost ! 0) + 2 \<and> c = MAX_COST) \<or>
     (\<exists>a < length cost. u = a + length cost + length (cost ! 0) + 2 \<and>
        v = ssp_sink (length cost) (length (cost ! 0)) \<and> c = 0)"
  by (auto simp: ssp_arcs_def ssp_score_arcs_def Let_def)

lemma distinct_concat_map:
  "distinct xs \<Longrightarrow> (\<And>x. x \<in> set xs \<Longrightarrow> distinct (f x)) \<Longrightarrow>
     (\<And>x y. x \<in> set xs \<Longrightarrow> y \<in> set xs \<Longrightarrow> x \<noteq> y \<Longrightarrow> set (f x) \<inter> set (f y) = {}) \<Longrightarrow>
   distinct (concat (map f xs))"
  by (induction xs) auto

lemma ssp_arcs_ok: "arcs_ok (ssp_n_nodes (length cost) (length (cost ! 0))) (ssp_arcs cost)"
proof -
  have "distinct (ssp_score_arcs cost a)" for a
    unfolding ssp_score_arcs_def by (rule distinct_concat_map) auto
  then have "distinct (concat (map (ssp_score_arcs cost) [0..<length cost]))"
    by (intro distinct_concat_map) (auto simp: ssp_score_arcs_def)
  moreover have "distinct (concat (map (\<lambda>a. [(a + 1, a + length cost + length (cost ! 0) + 2, MAX_COST),
      (a + length cost + length (cost ! 0) + 2, ssp_sink (length cost) (length (cost ! 0)), 0 :: real)]) [0..<length cost]))"
    by (intro distinct_concat_map) (auto simp: ssp_sink_def)
  ultimately have "distinct (ssp_arcs cost)"
    by (auto simp: ssp_arcs_def ssp_score_arcs_def Let_def ssp_sink_def distinct_map inj_on_def)
  moreover have "\<forall>(u, v, c) \<in> set (ssp_arcs cost). u < ssp_n_nodes (length cost) (length (cost ! 0)) \<and>
      v < ssp_n_nodes (length cost) (length (cost ! 0)) \<and> u \<noteq> v"
    by (auto simp: ssp_arcs_set ssp_n_nodes_def ssp_sink_def)
  ultimately show ?thesis by (simp add: arcs_ok_def)
qed

lemma ssp_build_ok:
  assumes "ssp_scores cost"
  shows "ssp_build cost = Inr (ssp_net (ssp_n_nodes (length cost) (length (cost ! 0))) (ssp_arcs cost) {})"
proof -
  let ?nA = "length cost" and ?nT = "length (cost ! 0)"
  let ?sink = "ssp_sink ?nA ?nT" and ?n = "ssp_n_nodes ?nA ?nT"
  have empty: "replicate ?n [] = ssp_net ?n [] {}"
    by (rule nth_equalityI) (simp_all add: arc_incident_def)
  have one: "fold (\<lambda>a. ssp_add_edge 0 (a + 1) 0) [0..<?nA] = ssp_add_arcs (map (\<lambda>a. (0, a + 1, 0)) [0..<?nA])"
    by (rule ext) (simp add: ssp_add_arcs_def fold_map comp_def)
  have three: "fold (\<lambda>t. ssp_add_edge (t + ?nA + 1) ?sink 0) [0..<?nT] =
      ssp_add_arcs (map (\<lambda>t. (t + ?nA + 1, ?sink, 0)) [0..<?nT])"
    by (rule ext) (simp add: ssp_add_arcs_def fold_map comp_def)
  have four: "fold (\<lambda>a adj. ssp_add_edge (a + ?nA + ?nT + 2) ?sink 0
        (ssp_add_edge (a + 1) (a + ?nA + ?nT + 2) MAX_COST adj)) [0..<?nA] adj =
      ssp_add_arcs (concat (map (\<lambda>a. [(a + 1, a + ?nA + ?nT + 2, MAX_COST), (a + ?nA + ?nT + 2, ?sink, 0)]) [0..<?nA])) adj" for adj
    unfolding fold_add_arcs [symmetric] by (simp add: ssp_add_arcs_def comp_def)
  have inner: "err_fold (\<lambda>t adj. err_bind (vec_at cost a) (\<lambda>row. err_bind (vec_at row t) (\<lambda>s.
        Inr (if EPS < s then ssp_add_edge (a + 1) (t + ?nA + 1) (MAX_COST - s) adj else adj)))) [0..<?nT] adj =
      Inr (ssp_add_arcs (ssp_score_arcs cost a) adj)" if "a < ?nA" for a adj
  proof -
    have "length (cost ! a) = ?nT" using assms that by (simp add: ssp_scores_def)
    then have "err_fold (\<lambda>t adj. err_bind (vec_at cost a) (\<lambda>row. err_bind (vec_at row t) (\<lambda>s.
          Inr (if EPS < s then ssp_add_edge (a + 1) (t + ?nA + 1) (MAX_COST - s) adj else adj)))) [0..<?nT] adj =
        Inr (fold (\<lambda>t. ssp_add_arcs (if EPS < cost ! a ! t then [(a + 1, t + ?nA + 1, MAX_COST - cost ! a ! t)] else []))
          [0..<?nT] adj)"
      using that by (intro err_fold_Inr) (simp add: vec_at_def ssp_add_arcs_def)
    then show ?thesis unfolding fold_add_arcs ssp_score_arcs_def .
  qed
  have two: "err_fold (\<lambda>a. err_fold (\<lambda>t adj. err_bind (vec_at cost a) (\<lambda>row. err_bind (vec_at row t) (\<lambda>s.
        Inr (if EPS < s then ssp_add_edge (a + 1) (t + ?nA + 1) (MAX_COST - s) adj else adj)))) [0..<?nT]) [0..<?nA] adj =
      Inr (ssp_add_arcs (concat (map (ssp_score_arcs cost) [0..<?nA])) adj)" for adj
    unfolding fold_add_arcs [symmetric] by (rule err_fold_Inr) (simp add: inner)
  have all: "\<forall>(u, v, c) \<in> set (ssp_arcs cost). u < ?n \<and> v < ?n \<and> u \<noteq> v"
    using ssp_arcs_ok [of cost] by (simp add: arcs_ok_def)
  have "ssp_build cost = Inr (ssp_add_arcs (ssp_arcs cost) (ssp_net ?n [] {}))"
    unfolding ssp_build_def Let_def one two three four empty err_bind.simps
    by (simp add: ssp_arcs_def Let_def ssp_add_arcs_def)
  then show ?thesis using ssp_add_arcs_net [OF all, of "[]"] by simp
qed

section \<open>Residual edges\<close>

lemma arcs_ok_nth:
  assumes "arcs_ok n L" and "k < length L" and "L ! k = (u, v, c)"
  shows "u < n" "v < n" "u \<noteq> v"
proof -
  have "(u, v, c) \<in> set L" using assms(2,3) nth_mem [of k L] by simp
  with assms(1) show "u < n" "v < n" "u \<noteq> v" by (auto simp: arcs_ok_def)
qed

lemma ssp_net_graph:
  assumes "arcs_ok n L"
  shows "ssp_graph (ssp_net n L F)"
  unfolding ssp_graph_def
proof (intro allI impI ballI)
  fix x e assume "x < length (ssp_net n L F)" and "e \<in> set (ssp_net n L F ! x)"
  then obtain k where k: "k < length L" "e = arc_edge L F x k" by (auto simp: arc_incident_set)
  obtain u v c where a: "L ! k = (u, v, c)" by (cases "L ! k") auto
  show "re_dst e < length (ssp_net n L F)" using arcs_ok_nth [OF assms k(1) a] k(2) a by (simp add: arc_edge_def)
qed

text \<open>An arc is in the graph in both directions; the direction with capacity depends on its flow.\<close>

lemma ssp_net_arc:
  assumes "arcs_ok n L" and "(u, v, c) \<in> set L"
  shows "\<exists>e \<in> set (ssp_net n L F ! u). re_dst e = v \<and> re_cost e = c \<and> re_capacity e = (if (u, v, c) \<in> F then 0 else 1)"
    and "\<exists>e \<in> set (ssp_net n L F ! v). re_dst e = u \<and> re_cost e = - c \<and> re_capacity e = (if (u, v, c) \<in> F then 1 else 0)"
proof -
  obtain k where k: "k < length L" "L ! k = (u, v, c)" using assms(2) by (auto simp: in_set_conv_nth)
  have uv: "u < n" "v < n" "u \<noteq> v" using assms by (auto simp: arcs_ok_def)
  have "k \<in> set (arc_incident L u)" "k \<in> set (arc_incident L v)"
    using k by (simp_all add: arc_incident_set arc_touches_def)
  then have "arc_edge L F u k \<in> set (ssp_net n L F ! u)" "arc_edge L F v k \<in> set (ssp_net n L F ! v)"
    using uv by simp_all
  moreover have "re_dst (arc_edge L F u k) = v" "re_cost (arc_edge L F u k) = c"
    "re_capacity (arc_edge L F u k) = (if (u, v, c) \<in> F then 0 else 1)"
    "re_dst (arc_edge L F v k) = u" "re_cost (arc_edge L F v k) = - c"
    "re_capacity (arc_edge L F v k) = (if (u, v, c) \<in> F then 1 else 0)"
    using k(2) uv(3) by (simp_all add: arc_edge_def)
  ultimately show "\<exists>e \<in> set (ssp_net n L F ! u). re_dst e = v \<and> re_cost e = c \<and> re_capacity e = (if (u, v, c) \<in> F then 0 else 1)"
    and "\<exists>e \<in> set (ssp_net n L F ! v). re_dst e = u \<and> re_cost e = - c \<and> re_capacity e = (if (u, v, c) \<in> F then 1 else 0)"
    by blast+
qed

definition arcs_feasible :: "arc list \<Rightarrow> arc set \<Rightarrow> real list \<Rightarrow> bool" where
  "arcs_feasible L F p \<longleftrightarrow> (\<forall>(u, v, c) \<in> set L.
     if (u, v, c) \<in> F then 0 \<le> - c + p ! v - p ! u else 0 \<le> c + p ! u - p ! v)"

lemma ssp_feasible_iff:
  assumes "arcs_ok n L"
  shows "ssp_feasible (ssp_net n L F) p \<longleftrightarrow> arcs_feasible L F p"
proof
  assume feas: "ssp_feasible (ssp_net n L F) p"
  show "arcs_feasible L F p"
    unfolding arcs_feasible_def
  proof (intro ballI, clarify)
    fix u v c assume a: "(u, v, c) \<in> set L"
    have uv: "u < n" "v < n" using assms a by (auto simp: arcs_ok_def)
    obtain e e' where e: "e \<in> set (ssp_net n L F ! u)" "re_dst e = v" "re_cost e = c"
        "re_capacity e = (if (u, v, c) \<in> F then 0 else 1)"
      and e': "e' \<in> set (ssp_net n L F ! v)" "re_dst e' = u" "re_cost e' = - c"
        "re_capacity e' = (if (u, v, c) \<in> F then 1 else 0)"
      using ssp_net_arc [OF assms a, of F] by blast
    show "if (u, v, c) \<in> F then 0 \<le> - c + p ! v - p ! u else 0 \<le> c + p ! u - p ! v"
      using ssp_feasibleD [OF feas _ e(1)] ssp_feasibleD [OF feas _ e'(1)] uv e(2-4) e'(2-4) by simp
  qed
next
  assume feas: "arcs_feasible L F p"
  show "ssp_feasible (ssp_net n L F) p"
    unfolding ssp_feasible_def
  proof (intro allI impI ballI)
    fix x e assume x: "x < length (ssp_net n L F)" and e: "e \<in> set (ssp_net n L F ! x)" and cap: "0 < re_capacity e"
    obtain k where k: "k < length L" "arc_touches L x k" "e = arc_edge L F x k"
      using x e by (auto simp: arc_incident_set)
    obtain u v c where a: "L ! k = (u, v, c)" by (cases "L ! k") auto
    have "(u, v, c) \<in> set L" using k(1) a by (metis nth_mem)
    with feas have "if (u, v, c) \<in> F then 0 \<le> - c + p ! v - p ! u else 0 \<le> c + p ! u - p ! v"
      by (auto simp: arcs_feasible_def)
    with k a cap show "0 \<le> re_cost e + p ! x - p ! re_dst e"
      by (auto simp: arc_edge_def arc_touches_def split: if_splits)
  qed
qed

section \<open>Augmentation\<close>

definition arc_toggle :: "arc set \<Rightarrow> arc \<Rightarrow> arc set" where
  "arc_toggle F a = (if a \<in> F then F - {a} else insert a F)"

text \<open>Flow into a node minus flow out of it.\<close>

definition arc_excess :: "arc set \<Rightarrow> nat \<Rightarrow> int" where
  "arc_excess F x = int (card {a \<in> F. fst (snd a) = x}) - int (card {a \<in> F. fst a = x})"

lemma card_filter_insert:
  "finite F \<Longrightarrow> a \<notin> F \<Longrightarrow> int (card {b \<in> insert a F. P b}) = int (card {b \<in> F. P b}) + (if P a then 1 else 0)"
proof -
  assume "finite F" "a \<notin> F"
  moreover have "{b \<in> insert a F. P b} = (if P a then insert a {b \<in> F. P b} else {b \<in> F. P b})" by auto
  ultimately show ?thesis by simp
qed

lemma arc_excess_insert:
  assumes "finite F" and "(u, v, c) \<notin> F"
  shows "arc_excess (insert (u, v, c) F) x = arc_excess F x + (if x = v then 1 else 0) - (if x = u then 1 else 0)"
  using card_filter_insert [OF assms, of "\<lambda>a. fst (snd a) = x"] card_filter_insert [OF assms, of "\<lambda>a. fst a = x"]
  by (auto simp: arc_excess_def)

lemma arc_excess_remove:
  assumes "finite F" and "(u, v, c) \<in> F"
  shows "arc_excess (F - {(u, v, c)}) x = arc_excess F x - (if x = v then 1 else 0) + (if x = u then 1 else 0)"
  using arc_excess_insert [of "F - {(u, v, c)}" u v c x] assms by (simp add: insert_absorb)

text \<open>The arc behind a residual edge, and what following it does to the flow.\<close>

lemma ssp_net_edge:
  assumes ok: "arcs_ok n L" and u: "u < n" and j: "j < length (ssp_net n L F ! u)"
    and cap: "0 < re_capacity (ssp_net n L F ! u ! j)" and v: "re_dst (ssp_net n L F ! u ! j) = v"
  defines "a \<equiv> L ! (arc_incident L u ! j)"
  shows "a \<in> set L" and "a = (u, v, re_cost (ssp_net n L F ! u ! j)) \<and> a \<notin> F \<or>
    a = (v, u, - re_cost (ssp_net n L F ! u ! j)) \<and> a \<in> F"
proof -
  have k: "arc_incident L u ! j \<in> set (arc_incident L u)" using u j by simp
  then show "a \<in> set L" by (simp add: a_def arc_incident_set)
  obtain x y c where xyc: "a = (x, y, c)" by (cases a) auto
  then have La: "L ! (arc_incident L u ! j) = (x, y, c)" by (simp add: a_def)
  have "x = u \<or> y = u" using k La by (auto simp: arc_incident_set arc_touches_def)
  moreover have edge: "ssp_net n L F ! u ! j =
      (if u = x
       then \<lparr>re_dst = y, re_capacity = (if (x, y, c) \<in> F then 0 else 1), re_cost = c,
             re_flow = (if (x, y, c) \<in> F then 1 else 0), re_reverse = arc_position L y (arc_incident L u ! j)\<rparr>
       else \<lparr>re_dst = x, re_capacity = (if (x, y, c) \<in> F then 1 else 0), re_cost = - c, re_flow = 0,
             re_reverse = arc_position L x (arc_incident L u ! j)\<rparr>)"
  proof -
    have "j < length (arc_incident L u)" using u j by simp
    then have "ssp_net n L F ! u ! j = arc_edge L F u (arc_incident L u ! j)" using u by simp
    then show ?thesis by (simp only: arc_edge_def La prod.case)
  qed
  ultimately show "a = (u, v, re_cost (ssp_net n L F ! u ! j)) \<and> a \<notin> F \<or>
      a = (v, u, - re_cost (ssp_net n L F ! u ! j)) \<and> a \<in> F"
    using cap v unfolding xyc edge by (auto split: if_splits)
qed

lemma arc_excess_toggle:
  assumes "finite F" and "a = (u, v, c) \<and> a \<notin> F \<or> a = (v, u, d) \<and> a \<in> F"
  shows "arc_excess (arc_toggle F a) x = arc_excess F x + (if x = v then 1 else 0) - (if x = u then 1 else 0)"
  using assms arc_excess_insert [of F u v c x] arc_excess_remove [of F v u d x]
  by (auto simp: arc_toggle_def)

lemma ssp_set_edge_nth:
  "x < length adj \<Longrightarrow> ssp_set_edge u j e adj ! x = (if x = u then (adj ! u)[j := e] else adj ! x)"
  by (simp add: ssp_set_edge_def nth_list_update)

lemma length_ssp_set_edge [simp]: "length (ssp_set_edge u j e adj) = length adj"
  by (simp add: ssp_set_edge_def)

text \<open>Changing the flow of one arc changes its two edges.\<close>

lemma ssp_net_toggle:
  assumes ok: "arcs_ok n L" and k: "k < length L" and a: "L ! k = (u, v, c)"
    and F': "\<And>b. b \<noteq> L ! k \<Longrightarrow> b \<in> F' \<longleftrightarrow> b \<in> F"
  shows "ssp_net n L F' =
    ssp_set_edge v (arc_position L v k) (arc_edge L F' v k) (ssp_set_edge u (arc_position L u k) (arc_edge L F' u k) (ssp_net n L F))"
    (is "?new = ?old")
proof (rule nth_equalityI)
  show "length ?new = length ?old" by simp
  fix x assume "x < length ?new"
  then have x: "x < n" by simp
  note uv = arcs_ok_nth [OF ok k a]
  have other: "arc_edge L F' y i = arc_edge L F y i" if "i < length L" "i \<noteq> k" for y i
  proof -
    have "L ! i \<noteq> L ! k" using ok that k by (simp add: arcs_ok_def nth_eq_iff_index_eq)
    then show ?thesis using F' by (simp add: arc_edge_def split: prod.split)
  qed
  have row: "map (arc_edge L F' y) (arc_incident L y) =
      (map (arc_edge L F y) (arc_incident L y))[arc_position L y k := arc_edge L F' y k]" if "arc_touches L y k" for y
  proof (rule nth_equalityI)
    fix i assume "i < length (map (arc_edge L F' y) (arc_incident L y))"
    then have i: "i < length (arc_incident L y)" by simp
    note pos = arc_position_ok [OF k that]
    have "arc_incident L y ! i \<noteq> k" if "i \<noteq> arc_position L y k"
      using that pos i distinct_arc_incident [of L y] by (metis nth_eq_iff_index_eq)
    moreover have "arc_incident L y ! i < length L" using i by (metis arc_incident_set nth_mem)
    ultimately show "map (arc_edge L F' y) (arc_incident L y) ! i =
        (map (arc_edge L F y) (arc_incident L y))[arc_position L y k := arc_edge L F' y k] ! i"
      using i pos other by (cases "i = arc_position L y k") simp_all
  qed simp
  have same: "map (arc_edge L F' x) (arc_incident L x) = map (arc_edge L F x) (arc_incident L x)" if "x \<noteq> u" "x \<noteq> v"
  proof (rule map_cong [OF refl])
    fix i assume "i \<in> set (arc_incident L x)"
    then have "i < length L" "i \<noteq> k" using that a by (auto simp: arc_incident_set arc_touches_def)
    then show "arc_edge L F' x i = arc_edge L F x i" by (rule other)
  qed
  have "arc_touches L u k" "arc_touches L v k" using a by (simp_all add: arc_touches_def)
  with row same x uv show "?new ! x = ?old ! x"
    by (auto simp: ssp_set_edge_nth)
qed

lemma ssp_set_edge_commute:
  "u \<noteq> v \<Longrightarrow> ssp_set_edge u i d (ssp_set_edge v j e adj) = ssp_set_edge v j e (ssp_set_edge u i d adj)"
  by (simp add: ssp_set_edge_def list_update_swap)

lemma ssp_augment_step_net:
  assumes ok: "arcs_ok n L" and prev: "prev ! v = (u, j)" and u: "u < n" and j: "j < length (ssp_net n L F ! u)"
    and cap: "0 < re_capacity (ssp_net n L F ! u ! j)" and v: "re_dst (ssp_net n L F ! u ! j) = v"
  shows "ssp_augment_step prev v (ssp_net n L F) = Inr (u, ssp_net n L (arc_toggle F (L ! (arc_incident L u ! j))))"
proof -
  define k where "k = arc_incident L u ! j"
  define a where "a = L ! k"
  have in_u: "k \<in> set (arc_incident L u)" using u j by (simp add: k_def)
  then have k: "k < length L" "arc_touches L u k" by (simp_all add: arc_incident_set)
  have "arc_incident L u ! arc_position L u k = k" "arc_position L u k < length (arc_incident L u)"
    using arc_position_ok [OF k] by simp_all
  then have jpos: "j = arc_position L u k"
    using u j distinct_arc_incident [of L u] by (simp add: k_def nth_eq_iff_index_eq)
  have forward: "ssp_net n L F ! u ! j = arc_edge L F u k" using u j by (simp add: k_def)
  obtain c where cases: "a = (u, v, c) \<and> a \<notin> F \<or> a = (v, u, c) \<and> a \<in> F"
    using ssp_net_edge(2) [OF ok u j cap v] by (auto simp: a_def k_def)
  then show ?thesis
  proof
    assume a: "a = (u, v, c) \<and> a \<notin> F"
    then have Lk: "L ! k = (u, v, c)" by (simp add: a_def)
    note uv = arcs_ok_nth [OF ok k(1) Lk]
    have tv: "arc_touches L v k" by (simp add: arc_touches_def Lk)
    have backward: "ssp_net n L F ! v ! arc_position L v k = arc_edge L F v k"
      using arc_position_ok [OF k(1) tv] uv by simp
    have F': "arc_toggle F a = insert a F" using a unfolding arc_toggle_def by auto
    have F: "(u, v, c) \<notin> F" using a by auto
    have edges: "arc_edge L F u k = \<lparr>re_dst = v, re_capacity = 1, re_cost = c, re_flow = 0, re_reverse = arc_position L v k\<rparr>"
      "arc_edge L F v k = \<lparr>re_dst = u, re_capacity = 0, re_cost = - c, re_flow = 0, re_reverse = j\<rparr>"
      "arc_edge L (insert a F) u k = \<lparr>re_dst = v, re_capacity = 0, re_cost = c, re_flow = 1, re_reverse = arc_position L v k\<rparr>"
      "arc_edge L (insert a F) v k = \<lparr>re_dst = u, re_capacity = 1, re_cost = - c, re_flow = 0, re_reverse = j\<rparr>"
      using a uv F by (simp_all add: arc_edge_def Lk jpos)
    have "ssp_net n L (insert a F) = ssp_set_edge v (arc_position L v k) (arc_edge L (insert a F) v k)
        (ssp_set_edge u j (arc_edge L (insert a F) u k) (ssp_net n L F))"
      unfolding jpos by (rule ssp_net_toggle [OF ok k(1) Lk]) (simp add: a_def)
    then show ?thesis
      unfolding k_def [symmetric] a_def [symmetric] F'
      by (simp add: ssp_augment_step_def prev forward edges backward Let_def del: ssp_net_nth)
  next
    assume a: "a = (v, u, c) \<and> a \<in> F"
    then have Lk: "L ! k = (v, u, c)" by (simp add: a_def)
    note uv = arcs_ok_nth [OF ok k(1) Lk]
    have tv: "arc_touches L v k" by (simp add: arc_touches_def Lk)
    have backward: "ssp_net n L F ! v ! arc_position L v k = arc_edge L F v k"
      using arc_position_ok [OF k(1) tv] uv by simp
    have F': "arc_toggle F a = F - {a}" using a unfolding arc_toggle_def by auto
    have F: "(v, u, c) \<in> F" using a by auto
    have edges: "arc_edge L F u k = \<lparr>re_dst = v, re_capacity = 1, re_cost = - c, re_flow = 0, re_reverse = arc_position L v k\<rparr>"
      "arc_edge L F v k = \<lparr>re_dst = u, re_capacity = 0, re_cost = c, re_flow = 1, re_reverse = j\<rparr>"
      "arc_edge L (F - {a}) u k = \<lparr>re_dst = v, re_capacity = 0, re_cost = - c, re_flow = 0, re_reverse = arc_position L v k\<rparr>"
      "arc_edge L (F - {a}) v k = \<lparr>re_dst = u, re_capacity = 1, re_cost = c, re_flow = 0, re_reverse = j\<rparr>"
      using a uv F by (simp_all add: arc_edge_def Lk jpos)
    have "ssp_net n L (F - {a}) = ssp_set_edge u j (arc_edge L (F - {a}) u k)
        (ssp_set_edge v (arc_position L v k) (arc_edge L (F - {a}) v k) (ssp_net n L F))"
      unfolding jpos by (rule ssp_net_toggle [OF ok k(1) Lk]) (simp add: a_def)
    then have "ssp_net n L (F - {a}) = ssp_set_edge v (arc_position L v k) (arc_edge L (F - {a}) v k)
        (ssp_set_edge u j (arc_edge L (F - {a}) u k) (ssp_net n L F))"
      using ssp_set_edge_commute uv(3) by metis
    then show ?thesis
      unfolding k_def [symmetric] a_def [symmetric] F'
      by (simp add: ssp_augment_step_def prev forward edges backward Let_def del: ssp_net_nth)
  qed
qed

lemma arcs_feasible_toggle:
  assumes "arcs_feasible L F p" and "a = (u, v, c) \<and> a \<notin> F \<or> a = (v, u, - c) \<and> a \<in> F" and "c + p ! u - p ! v = 0"
  shows "arcs_feasible L (arc_toggle F a) p"
  using assms by (fastforce simp: arcs_feasible_def arc_toggle_def)

definition tree_arc :: "arc list \<Rightarrow> (nat \<times> nat) list \<Rightarrow> nat \<Rightarrow> arc" where
  "tree_arc L prev w = L ! (arc_incident L (fst (prev ! w)) ! snd (prev ! w))"

lemma ssp_treeD:
  assumes "ssp_tree adj p prev V rank" and "w \<in> V" and "w \<noteq> 0" and "prev ! w = (x, i)"
  shows "x \<in> V \<and> x < length adj \<and> i < length (adj ! x) \<and> 0 < re_capacity (adj ! x ! i) \<and>
    re_dst (adj ! x ! i) = w \<and> re_cost (adj ! x ! i) + p ! x - p ! w = 0 \<and> rank x < rank w"
proof -
  have all: "\<And>v. v \<in> V \<Longrightarrow> v < length adj" using assms(1) unfolding ssp_tree_def by blast
  have "let (u, j) = prev ! w in u \<in> V \<and> j < length (adj ! u) \<and> 0 < re_capacity (adj ! u ! j) \<and>
      re_dst (adj ! u ! j) = w \<and> re_cost (adj ! u ! j) + p ! u - p ! w = 0 \<and> rank u < rank w"
    using assms(1-3) unfolding ssp_tree_def by blast
  then show ?thesis using all unfolding assms(4) Let_def prod.case by blast
qed

lemma ssp_augment_net:
  assumes ok: "arcs_ok n L" and tree: "ssp_tree (ssp_net n L F) p prev V rank"
  shows "v \<in> V \<Longrightarrow> F' \<subseteq> set L \<Longrightarrow> arcs_feasible L F' p \<Longrightarrow>
    \<forall>w \<in> V. w \<noteq> 0 \<and> rank w \<le> rank v \<longrightarrow> (tree_arc L prev w \<in> F' \<longleftrightarrow> tree_arc L prev w \<in> F) \<Longrightarrow>
    \<exists>F''. ssp_augment prev v (ssp_net n L F') = Some (Inr (ssp_net n L F'')) \<and> F'' \<subseteq> set L \<and> arcs_feasible L F'' p \<and>
      (\<forall>x. arc_excess F'' x = arc_excess F' x + (if x = v then 1 else 0) - (if x = 0 then 1 else 0))"
proof (induction "rank v" arbitrary: v F' rule: less_induct)
  case less
  show ?case
  proof (cases "v = 0")
    case True
    with less.prems(2,3) show ?thesis
      by (intro exI [of _ F']) (simp add: ssp_augment.simps [of prev 0])
  next
    case v0: False
    note node = ssp_treeD [OF tree, unfolded length_ssp_net]
    obtain u j where uj: "prev ! v = (u, j)" by fastforce
    note nv = node [OF less.prems(1) v0 uj]
    define a where "a = tree_arc L prev v"
    have a_eq: "a = L ! (arc_incident L u ! j)" by (simp add: a_def tree_arc_def uj)
    have same: "a \<in> F' \<longleftrightarrow> a \<in> F" using less.prems(1,4) v0 by (simp add: a_def)
    have j: "j < length (arc_incident L u)" using nv by auto
    have u: "u \<in> V" "u < n" "rank u < rank v" using nv by blast+
    have edge: "ssp_net n L F' ! u ! j = ssp_net n L F ! u ! j"
      using u j same a_eq by (simp add: arc_edge_def split: prod.split)
    have e: "j < length (ssp_net n L F' ! u)" using u j by simp
    have e': "0 < re_capacity (ssp_net n L F' ! u ! j)" "re_dst (ssp_net n L F' ! u ! j) = v"
      "re_cost (ssp_net n L F' ! u ! j) + p ! u - p ! v = 0"
      unfolding edge using nv by blast+
    note e = e e'
    let ?c = "re_cost (ssp_net n L F' ! u ! j)"
    have arc: "a \<in> set L" "a = (u, v, ?c) \<and> a \<notin> F' \<or> a = (v, u, - ?c) \<and> a \<in> F'"
      using ssp_net_edge [OF ok u(2) e(1-3)] by (simp_all only: a_eq)
    let ?F = "arc_toggle F' a"
    have step: "ssp_augment_step prev v (ssp_net n L F') = Inr (u, ssp_net n L ?F)"
      unfolding a_eq by (rule ssp_augment_step_net [OF ok uj u(2) e(1-3)])
    have sub: "?F \<subseteq> set L" using less.prems(2) arc(1) by (auto simp: arc_toggle_def)
    have feas: "arcs_feasible L ?F p" by (rule arcs_feasible_toggle [OF less.prems(3) arc(2) e(4)])
    have fin: "finite F'" using less.prems(2) by (rule finite_subset) simp
    have agree: "\<forall>w \<in> V. w \<noteq> 0 \<and> rank w \<le> rank u \<longrightarrow> (tree_arc L prev w \<in> ?F \<longleftrightarrow> tree_arc L prev w \<in> F)"
    proof (intro ballI impI)
      fix w assume w: "w \<in> V" "w \<noteq> 0 \<and> rank w \<le> rank u"
      obtain x i where xi: "prev ! w = (x, i)" by fastforce
      have nw: "x \<in> V \<and> x < n \<and> i < length (ssp_net n L F ! x) \<and> 0 < re_capacity (ssp_net n L F ! x ! i) \<and>
        re_dst (ssp_net n L F ! x ! i) = w \<and> rank x < rank w" using node [OF w(1) _ xi] w(2) by blast
      have "tree_arc L prev w = (x, w, re_cost (ssp_net n L F ! x ! i)) \<and> tree_arc L prev w \<notin> F \<or>
          tree_arc L prev w = (w, x, - re_cost (ssp_net n L F ! x ! i)) \<and> tree_arc L prev w \<in> F"
        unfolding tree_arc_def xi fst_conv snd_conv by (rule ssp_net_edge(2) [OF ok]) (use nw in blast)+
      then obtain d where "tree_arc L prev w = (x, w, d) \<or> tree_arc L prev w = (w, x, d)" by blast
      then have "tree_arc L prev w \<noteq> a" using arc(2) nw w(2) u(3) by auto
      then show "tree_arc L prev w \<in> ?F \<longleftrightarrow> tree_arc L prev w \<in> F"
        using less.prems(4) w u(3) by (auto simp: arc_toggle_def)
    qed
    obtain F'' where F'': "ssp_augment prev u (ssp_net n L ?F) = Some (Inr (ssp_net n L F''))" "F'' \<subseteq> set L"
      "arcs_feasible L F'' p"
      "\<forall>x. arc_excess F'' x = arc_excess ?F x + (if x = u then 1 else 0) - (if x = 0 then 1 else 0)"
      using less.hyps [OF u(3,1) sub feas agree] by blast
    have "ssp_augment prev v (ssp_net n L F') = ssp_augment prev u (ssp_net n L ?F)"
      using v0 step by (simp add: ssp_augment.simps [of prev v])
    moreover have "arc_excess ?F x = arc_excess F' x + (if x = v then 1 else 0) - (if x = u then 1 else 0)" for x
      by (rule arc_excess_toggle [OF fin arc(2)])
    ultimately show ?thesis using F'' by (intro exI [of _ F'']) simp
  qed
qed

end
