(* ===== verification/Assignment_Optimal.thy ===== *)
theory Assignment_Optimal
  imports Residual_Network
begin

text \<open>
  What the solver SSP computes (theory \<open>Successive_Shortest_Path\<close>): every turn of its loop adds a unit of flow at the
  least cost, and the flow it ends with is an assignment with the greatest total score.
\<close>

section \<open>The flow through the nodes\<close>

abbreviation n_tasks_of :: "real list list \<Rightarrow> nat" where
  "n_tasks_of cost \<equiv> length (cost ! 0)"

abbreviation sink_of :: "real list list \<Rightarrow> nat" where
  "sink_of cost \<equiv> ssp_sink (length cost) (n_tasks_of cost)"

abbreviation n_nodes_of :: "real list list \<Rightarrow> nat" where
  "n_nodes_of cost \<equiv> ssp_n_nodes (length cost) (n_tasks_of cost)"

abbreviation task_node :: "real list list \<Rightarrow> nat \<Rightarrow> nat" where
  "task_node cost t \<equiv> t + length cost + 1"

abbreviation dummy_node :: "real list list \<Rightarrow> nat \<Rightarrow> nat" where
  "dummy_node cost a \<equiv> a + length cost + n_tasks_of cost + 2"

definition flow_pair :: "real list list \<Rightarrow> arc set \<Rightarrow> nat \<Rightarrow> nat \<Rightarrow> bool" where
  "flow_pair cost F a t \<longleftrightarrow> a < length cost \<and> t < n_tasks_of cost \<and> EPS < cost ! a ! t \<and>
     (a + 1, task_node cost t, MAX_COST - cost ! a ! t) \<in> F"

definition flow_tasks :: "real list list \<Rightarrow> arc set \<Rightarrow> nat \<Rightarrow> nat set" where
  "flow_tasks cost F a = {t. t < n_tasks_of cost \<and> flow_pair cost F a t}"

definition flow_agents :: "real list list \<Rightarrow> arc set \<Rightarrow> nat \<Rightarrow> nat set" where
  "flow_agents cost F t = {a. a < length cost \<and> flow_pair cost F a t}"

lemma finite_flow_tasks [simp]: "finite (flow_tasks cost F a)"
  by (simp add: flow_tasks_def)

lemma finite_flow_agents [simp]: "finite (flow_agents cost F t)"
  by (simp add: flow_agents_def)

lemma flow_arcs: "F \<subseteq> set (ssp_arcs cost) \<Longrightarrow> {b \<in> F. P b} = {b \<in> set (ssp_arcs cost). P b \<and> b \<in> F}"
  by blast

lemma excess_source:
  assumes "F \<subseteq> set (ssp_arcs cost)"
  shows "arc_excess F 0 = - int (card {a. a < length cost \<and> (0, a + 1, 0) \<in> F})"
proof -
  have "{b \<in> F. fst (snd b) = 0} = {}" unfolding flow_arcs [OF assms] by (auto simp: ssp_arcs_set ssp_sink_def)
  moreover have "{b \<in> F. fst b = 0} = (\<lambda>a. (0, a + 1, 0)) ` {a. a < length cost \<and> (0, a + 1, 0) \<in> F}"
    unfolding flow_arcs [OF assms(1)] by (auto simp: ssp_arcs_set ssp_sink_def)
  ultimately show ?thesis unfolding arc_excess_def by (simp only:) (simp add: card_image inj_on_def)
qed

lemma excess_agent:
  assumes "F \<subseteq> set (ssp_arcs cost)" and "a < length cost"
  shows "arc_excess F (a + 1) = (if (0, a + 1, 0) \<in> F then 1 else 0) - int (card (flow_tasks cost F a)) -
    (if (a + 1, dummy_node cost a, MAX_COST) \<in> F then 1 else 0)"
proof -
  have "{b \<in> F. fst (snd b) = a + 1} = {b. b = (0, a + 1, 0) \<and> (0, a + 1, 0) \<in> F}"
    using assms(2-) unfolding flow_arcs [OF assms(1)] by (auto simp: ssp_arcs_set ssp_sink_def)
  moreover have "{b \<in> F. fst b = a + 1} =
      (\<lambda>t. (a + 1, task_node cost t, MAX_COST - cost ! a ! t)) ` flow_tasks cost F a \<union>
      {b. b = (a + 1, dummy_node cost a, MAX_COST) \<and> (a + 1, dummy_node cost a, MAX_COST) \<in> F}"
    (is "_ = ?T \<union> ?D")
    using assms(2-) unfolding flow_arcs [OF assms(1)] by (auto simp: ssp_arcs_set ssp_sink_def flow_tasks_def flow_pair_def)
  moreover have "card (?T \<union> ?D) = card ?T + card ?D"
    by (rule card_Un_disjoint) (auto simp: flow_tasks_def)
  moreover have "card ?T = card (flow_tasks cost F a)" by (rule card_image) (simp add: inj_on_def)
  ultimately show ?thesis by (simp add: arc_excess_def)
qed

lemma excess_task:
  assumes "F \<subseteq> set (ssp_arcs cost)" and "t < n_tasks_of cost"
  shows "arc_excess F (task_node cost t) = int (card (flow_agents cost F t)) -
    (if (task_node cost t, sink_of cost, 0) \<in> F then 1 else 0)"
proof -
  have "{b \<in> F. fst b = task_node cost t} =
      {b. b = (task_node cost t, sink_of cost, 0) \<and> (task_node cost t, sink_of cost, 0) \<in> F}"
    using assms(2-) unfolding flow_arcs [OF assms(1)] by (auto simp: ssp_arcs_set ssp_sink_def)
  moreover have "{b \<in> F. fst (snd b) = task_node cost t} =
      (\<lambda>a. (a + 1, task_node cost t, MAX_COST - cost ! a ! t)) ` flow_agents cost F t"
    using assms(2-) unfolding flow_arcs [OF assms(1)] by (auto simp: ssp_arcs_set ssp_sink_def flow_agents_def flow_pair_def)
  moreover have "card ((\<lambda>a. (a + 1, task_node cost t, MAX_COST - cost ! a ! t)) ` flow_agents cost F t) =
      card (flow_agents cost F t)" by (rule card_image) (simp add: inj_on_def)
  ultimately show ?thesis by (simp add: arc_excess_def)
qed

lemma excess_dummy:
  assumes "F \<subseteq> set (ssp_arcs cost)" and "a < length cost"
  shows "arc_excess F (dummy_node cost a) = (if (a + 1, dummy_node cost a, MAX_COST) \<in> F then 1 else 0) -
    (if (dummy_node cost a, sink_of cost, 0) \<in> F then 1 else 0)"
proof -
  have "{b \<in> F. fst b = dummy_node cost a} =
      {b. b = (dummy_node cost a, sink_of cost, 0) \<and> (dummy_node cost a, sink_of cost, 0) \<in> F}"
    using assms(2-) unfolding flow_arcs [OF assms(1)] by (auto simp: ssp_arcs_set ssp_sink_def)
  moreover have "{b \<in> F. fst (snd b) = dummy_node cost a} =
      {b. b = (a + 1, dummy_node cost a, MAX_COST) \<and> (a + 1, dummy_node cost a, MAX_COST) \<in> F}"
    using assms(2-) unfolding flow_arcs [OF assms(1)] by (auto simp: ssp_arcs_set ssp_sink_def)
  ultimately show ?thesis by (simp add: arc_excess_def)
qed

section \<open>The loop over the units of flow\<close>

text \<open>
  After \<open>i\<close> turns: \<open>i\<close> units leave the source and reach the sink, none of them through a dummy, and the potentials
  are feasible.
\<close>

definition flow_inv :: "real list list \<Rightarrow> nat \<Rightarrow> arc set \<Rightarrow> real list \<Rightarrow> bool" where
  "flow_inv cost i F p \<longleftrightarrow>
     F \<subseteq> set (ssp_arcs cost) \<and> length p = n_nodes_of cost \<and> p ! 0 = 0 \<and> (\<forall>v < n_nodes_of cost. 0 \<le> p ! v) \<and>
     arcs_feasible (ssp_arcs cost) F p \<and>
     arc_excess F 0 = - int i \<and> (\<forall>x. x \<noteq> 0 \<and> x \<noteq> sink_of cost \<longrightarrow> arc_excess F x = 0) \<and>
     (\<forall>a < length cost. (a + 1, dummy_node cost a, MAX_COST) \<notin> F)"

lemma flow_invD:
  assumes "flow_inv cost i F p"
  shows "F \<subseteq> set (ssp_arcs cost)" "length p = n_nodes_of cost" "p ! 0 = 0" "v < n_nodes_of cost \<Longrightarrow> 0 \<le> p ! v"
    "arcs_feasible (ssp_arcs cost) F p" "arc_excess F 0 = - int i"
    "x \<noteq> 0 \<Longrightarrow> x \<noteq> sink_of cost \<Longrightarrow> arc_excess F x = 0"
    "a < length cost \<Longrightarrow> (a + 1, dummy_node cost a, MAX_COST) \<notin> F"
  using assms by (simp_all add: flow_inv_def)

lemma arcs_feasibleD:
  assumes "arcs_feasible L F p" and "(u, v, c) \<in> set L"
  shows "(u, v, c) \<in> F \<Longrightarrow> p ! u + c \<le> p ! v" "(u, v, c) \<notin> F \<Longrightarrow> p ! v \<le> p ! u + c"
  using assms by (auto simp: arcs_feasible_def split: if_splits)

lemma flow_no_dummy:
  assumes "flow_inv cost i F p" and "a < length cost"
  shows "(dummy_node cost a, sink_of cost, 0) \<notin> F"
  using excess_dummy [OF flow_invD(1) [OF assms(1)] assms(2)] flow_invD(7) [OF assms(1), of "dummy_node cost a"]
    flow_invD(8) [OF assms] by (auto simp: ssp_sink_def split: if_splits)

text \<open>While an agent is free, the search finds the sink: the way through the dummy of the agent is open.\<close>

lemma search_finds_sink:
  assumes inv: "flow_inv cost i F p" and i: "i < length cost"
    and fail: "dj_inv (ssp_net (n_nodes_of cost) (ssp_arcs cost) F) p (sink_of cost) s" and q: "sd_queue s = []"
  shows False
proof -
  let ?n = "n_nodes_of cost" and ?L = "ssp_arcs cost"
  let ?adj = "ssp_net ?n ?L F"
  note ok = ssp_arcs_ok [of cost]
  note I = flow_invD [OF inv]
  have "\<exists>a < length cost. (0, a + 1, 0) \<notin> F"
  proof (rule ccontr)
    assume "\<not> (\<exists>a < length cost. (0, a + 1, 0) \<notin> F)"
    then have "{a. a < length cost \<and> (0, a + 1, 0) \<in> F} = {..<length cost}" by auto
    with excess_source [OF I(1)] I(6) i show False by simp
  qed
  then obtain a where a: "a < length cost" "(0, a + 1, 0) \<notin> F" by blast
  obtain rank where core: "dj_core ?adj p (\<lambda>x e. True) rank s" and unseen: "\<not> sd_vis s (sink_of cost)"
    using fail by (auto simp: dj_inv_def)
  have reach: "sd_vis s v \<and> sd_potentials s ! v \<le> c + sd_potentials s ! u"
    if arc: "(u, v, c) \<in> set ?L" "(u, v, c) \<notin> F" and vis: "sd_vis s u" and "sd_potentials s ! u \<le> d" "c + d < INF_DIST"
    for u v c d
  proof -
    have uv: "u < ?n" "v < ?n" using ok arc(1) by (auto simp: arcs_ok_def)
    obtain e where e: "e \<in> set (?adj ! u)" "re_dst e = v" "re_cost e = c" "re_capacity e = 1"
      using ssp_net_arc(1) [OF ok arc(1), of F] arc(2) by auto
    have small: "re_cost e + sd_potentials s ! u - p ! re_dst e < INF_DIST"
      using e that I(4) [OF uv(2)] by simp
    have "sd_vis s (re_dst e)" "sd_D s (re_dst e) \<le> re_cost e + sd_potentials s ! u - p ! re_dst e"
      by (rule dj_closed [OF fail q ssp_net_graph [OF ok] _ vis e(1) _ small]; use uv e in simp)+
    then show ?thesis using dj_core_node(4) [OF core, of v] uv(2) e by simp
  qed
  have "sd_vis s 0" "sd_potentials s ! 0 = 0"
    using dj_core_lengths [OF core] dj_core_node(4) [OF core, of 0] I(3) by simp_all
  then have one: "sd_vis s (a + 1)" "sd_potentials s ! (a + 1) \<le> 0"
    using reach [of 0 "a + 1" 0 0] a by (simp_all add: ssp_arcs_set INF_DIST_def)
  then have two: "sd_vis s (dummy_node cost a)" "sd_potentials s ! dummy_node cost a \<le> MAX_COST"
    using reach [of "a + 1" "dummy_node cost a" MAX_COST 0] I(8) [OF a(1)] a(1)
    by (simp_all add: ssp_arcs_set INF_DIST_def MAX_COST_def)
  then have "sd_vis s (sink_of cost)"
    using reach [of "dummy_node cost a" "sink_of cost" 0 MAX_COST] flow_no_dummy [OF inv a(1)] a(1)
    by (auto simp: ssp_arcs_set INF_DIST_def MAX_COST_def)
  with unseen show False ..
qed

lemma ssp_flow_net:
  assumes "flow_inv cost i F p" and "length prev = n_nodes_of cost" and "i + m \<le> length cost"
  shows "\<exists>i' F' p'. ssp_flow m (sink_of cost) (ssp_net (n_nodes_of cost) (ssp_arcs cost) F) p prev =
      Some (Inr (ssp_net (n_nodes_of cost) (ssp_arcs cost) F')) \<and>
    flow_inv cost i' F' p' \<and> (MAX_COST \<le> p' ! sink_of cost \<or> i' = i + m)"
  using assms
proof (induction m arbitrary: i F p prev)
  case 0
  then show ?case by (intro exI [of _ i] exI [of _ F] exI [of _ p]) simp
next
  case (Suc m)
  let ?n = "n_nodes_of cost" and ?L = "ssp_arcs cost" and ?sink = "sink_of cost"
  let ?adj = "ssp_net ?n ?L F"
  note ok = ssp_arcs_ok [of cost]
  note I = flow_invD [OF Suc.prems(1)]
  have feas: "ssp_feasible ?adj p" using I(5) by (simp add: ssp_feasible_iff [OF ok])
  have sink: "?sink < length ?adj" "?sink \<noteq> 0" by (simp_all add: ssp_sink_def ssp_n_nodes_def)
  obtain s where s: "ssp_dijkstra ?adj ?sink (ssp_start_search (length ?adj) p prev) = Inr s"
    and found: "dj_found ?adj p ?sink s"
    using ssp_search_ok [OF feas ssp_net_graph [OF ok] sink, of prev] I(2) Suc.prems
      search_finds_sink [OF Suc.prems(1)] by auto
  define p1 where "p1 = ssp_shift_unvisited ?sink s"
  note P = ssp_found_potentials [OF found feas ssp_net_graph [OF ok] sink(1), folded p1_def]
  obtain V rank where V: "?sink \<in> V" and tree: "ssp_tree ?adj p1 (sd_prev s) V rank" using P(6) by blast
  have feas1: "arcs_feasible ?L F p1" using P(5) by (simp add: ssp_feasible_iff [OF ok])
  have nonneg: "\<forall>v < ?n. 0 \<le> p1 ! v" using P(4) I(4) by fastforce
  show ?case
  proof (cases "MAX_COST \<le> p1 ! ?sink")
    case True
    have "flow_inv cost i F p1"
      unfolding flow_inv_def using I P(1,2) feas1 nonneg by auto
    moreover have "ssp_flow (Suc m) ?sink ?adj p prev = Some (Inr ?adj)" using s True P(3) by simp
    ultimately show ?thesis using True by blast
  next
    case False
    obtain F2 where F2: "ssp_augment (sd_prev s) ?sink ?adj = Some (Inr (ssp_net ?n ?L F2))" "F2 \<subseteq> set ?L"
      "arcs_feasible ?L F2 p1"
      "\<And>x. arc_excess F2 x = arc_excess F x + (if x = ?sink then 1 else 0) - (if x = 0 then 1 else 0)"
      using ssp_augment_net [OF ok tree V I(1) feas1] by auto
    have no_dummy: "(a + 1, dummy_node cost a, MAX_COST) \<notin> F2" if a: "a < length cost" for a
    proof
      assume in_F2: "(a + 1, dummy_node cost a, MAX_COST) \<in> F2"
      have "arc_excess F2 (dummy_node cost a) = 0" using F2(4) I(7) by (simp add: ssp_sink_def)
      then have "(dummy_node cost a, ?sink, 0) \<in> F2"
        using excess_dummy [OF F2(2) a] in_F2 by (simp split: if_splits)
      then have "p1 ! dummy_node cost a \<le> p1 ! ?sink"
        using arcs_feasibleD(1) [OF F2(3), of "dummy_node cost a" ?sink 0] F2(2) by auto
      moreover have "p1 ! (a + 1) + MAX_COST \<le> p1 ! dummy_node cost a"
        using arcs_feasibleD(1) [OF F2(3) _ in_F2] F2(2) in_F2 by auto
      moreover have "0 \<le> p1 ! (a + 1)" using nonneg a by (simp add: ssp_n_nodes_def)
      ultimately show False using False by linarith
    qed
    have inv2: "flow_inv cost (Suc i) F2 p1"
      unfolding flow_inv_def using I(3,6,7) P(1,2) nonneg F2(2-4) no_dummy by (auto simp: ssp_sink_def)
    have "length (sd_prev s) = ?n" using found by (auto simp: dj_found_def dj_core_def)
    then obtain i' F' p' where IH: "ssp_flow m ?sink (ssp_net ?n ?L F2) p1 (sd_prev s) = Some (Inr (ssp_net ?n ?L F'))"
      "flow_inv cost i' F' p'" "MAX_COST \<le> p' ! ?sink \<or> i' = Suc i + m"
      using Suc.IH [OF inv2, of "sd_prev s"] Suc.prems(3) by auto
    have "ssp_flow (Suc m) ?sink ?adj p prev = Some (Inr (ssp_net ?n ?L F'))"
      using s False P(3) F2(1,3) IH(1) by (simp add: p1_def [symmetric] ssp_feasible_iff [OF ok])
    with IH(2,3) show ?thesis by auto
  qed
qed

section \<open>The assignment that a flow carries\<close>

lemma agent_flow:
  assumes "flow_inv cost i F p" and "a < length cost"
  shows "card (flow_tasks cost F a) = (if (0, a + 1, 0) \<in> F then 1 else 0)"
  using excess_agent [OF flow_invD(1) [OF assms(1)] assms(2)] flow_invD(7) [OF assms(1), of "a + 1"]
    flow_invD(8) [OF assms] assms(2) by (simp add: ssp_sink_def split: if_splits)

lemma task_flow:
  assumes "flow_inv cost i F p" and "t < n_tasks_of cost"
  shows "card (flow_agents cost F t) = (if (task_node cost t, sink_of cost, 0) \<in> F then 1 else 0)"
  using excess_task [OF flow_invD(1) [OF assms(1)] assms(2)] flow_invD(7) [OF assms(1), of "task_node cost t"]
    assms(2) by (simp add: ssp_sink_def split: if_splits)

lemma card_le_1_unique: "finite A \<Longrightarrow> card A = (if P then 1 else 0) \<Longrightarrow> x \<in> A \<Longrightarrow> y \<in> A \<Longrightarrow> x = y"
  by (auto split: if_splits simp: card_1_singleton_iff)

lemma flow_pair_unique:
  assumes "flow_inv cost i F p"
  shows "flow_pair cost F a t \<Longrightarrow> flow_pair cost F a t' \<Longrightarrow> t = t'"
    and "flow_pair cost F a t \<Longrightarrow> flow_pair cost F a' t \<Longrightarrow> a = a'"
proof -
  show "t = t'" if "flow_pair cost F a t" "flow_pair cost F a t'"
    using card_le_1_unique [OF finite_flow_tasks agent_flow [OF assms], of a t t'] that
    by (auto simp: flow_tasks_def flow_pair_def)
  show "a = a'" if "flow_pair cost F a t" "flow_pair cost F a' t"
    using card_le_1_unique [OF finite_flow_agents task_flow [OF assms], of t a a'] that
    by (auto simp: flow_agents_def flow_pair_def)
qed

lemma agent_matched:
  assumes "flow_inv cost i F p" and "a < length cost"
  shows "(0, a + 1, 0) \<in> F \<longleftrightarrow> (\<exists>t. flow_pair cost F a t)"
proof -
  have "(0, a + 1, 0) \<in> F \<longleftrightarrow> flow_tasks cost F a \<noteq> {}"
    using agent_flow [OF assms] by (metis card_0_eq finite_flow_tasks zero_neq_one)
  then show ?thesis by (auto simp: flow_tasks_def flow_pair_def)
qed

lemma task_matched:
  assumes "flow_inv cost i F p" and "t < n_tasks_of cost"
  shows "(task_node cost t, sink_of cost, 0) \<in> F \<longleftrightarrow> (\<exists>a. flow_pair cost F a t)"
proof -
  have "(task_node cost t, sink_of cost, 0) \<in> F \<longleftrightarrow> flow_agents cost F t \<noteq> {}"
    using task_flow [OF assms] by (metis card_0_eq finite_flow_agents zero_neq_one)
  then show ?thesis by (auto simp: flow_agents_def flow_pair_def)
qed

lemma card_sum_of_bool: "card {x. x < (n :: nat) \<and> P x} = (\<Sum>x < n. of_bool (P x))"
proof -
  have "{x. x < n \<and> P x} = {..<n} \<inter> {x. P x}" by auto
  then show ?thesis by (simp only: sum_of_bool_eq finite_lessThan of_nat_id)
qed

text \<open>With all turns made, every agent or every task is matched.\<close>

lemma flow_pairs_full:
  assumes inv: "flow_inv cost (min (length cost) (n_tasks_of cost)) F p"
  shows "(\<forall>a < length cost. \<exists>t. flow_pair cost F a t) \<or> (\<forall>t < n_tasks_of cost. \<exists>a. flow_pair cost F a t)"
proof -
  let ?m = "min (length cost) (n_tasks_of cost)"
  have agents: "card {a. a < length cost \<and> (0, a + 1, 0) \<in> F} = ?m"
    using excess_source [OF flow_invD(1) [OF inv]] flow_invD(6) [OF inv] by simp
  have full: "\<forall>x < n. P x" if "card {x. x < (n :: nat) \<and> P x} = n" for n P
  proof -
    have "{x. x < n \<and> P x} = {..<n}" by (rule card_subset_eq) (use that in auto)
    then show ?thesis by auto
  qed
  show ?thesis
  proof (cases "length cost \<le> n_tasks_of cost")
    case True
    then have "card {a. a < length cost \<and> (0, a + 1, 0) \<in> F} = length cost" using agents by (simp only: min_absorb1)
    then have "\<forall>a < length cost. (0, a + 1, 0) \<in> F" by (rule full)
    then show ?thesis using agent_matched [OF inv] by blast
  next
    case False
    have "card {t. t < n_tasks_of cost \<and> (task_node cost t, sink_of cost, 0) \<in> F} =
        (\<Sum>t < n_tasks_of cost. card (flow_agents cost F t))"
      unfolding card_sum_of_bool using task_flow [OF inv] by (intro sum.cong) auto
    also have "\<dots> = (\<Sum>t < n_tasks_of cost. \<Sum>a < length cost. of_bool (flow_pair cost F a t))"
      unfolding flow_agents_def card_sum_of_bool ..
    also have "\<dots> = (\<Sum>a < length cost. card (flow_tasks cost F a))"
      unfolding flow_tasks_def card_sum_of_bool by (rule sum.swap)
    also have "\<dots> = card {a. a < length cost \<and> (0, a + 1, 0) \<in> F}"
      unfolding card_sum_of_bool using agent_flow [OF inv] by (intro sum.cong) auto
    finally have "card {t. t < n_tasks_of cost \<and> (task_node cost t, sink_of cost, 0) \<in> F} = n_tasks_of cost"
      using agents False by simp
    then have "\<forall>t < n_tasks_of cost. (task_node cost t, sink_of cost, 0) \<in> F" by (rule full)
    then show ?thesis using task_matched [OF inv] by blast
  qed
qed

section \<open>Optimality\<close>

text \<open>An assignment of tasks to agents, one to one, by pairs with a score that counts, and its total score.\<close>

definition assignment_ok :: "real list list \<Rightarrow> assignment \<Rightarrow> bool" where
  "assignment_ok cost f \<longleftrightarrow> inj_on f (dom f) \<and>
     (\<forall>a t. f a = Some t \<longrightarrow> a < length cost \<and> t < n_tasks_of cost \<and> EPS < cost ! a ! t)"

definition total_score :: "real list list \<Rightarrow> assignment \<Rightarrow> real" where
  "total_score cost f = (\<Sum>a \<in> dom f. cost ! a ! the (f a))"

lemma assignment_okD:
  assumes "assignment_ok cost f"
  shows "finite (dom f)" "inj_on (\<lambda>a. the (f a)) (dom f)"
proof -
  have "dom f \<subseteq> {..<length cost}" using assms by (auto simp: assignment_ok_def)
  then show "finite (dom f)" by (rule finite_subset) simp
  have "inj_on f (dom f)" using assms by (simp add: assignment_ok_def)
  then show "inj_on (\<lambda>a. the (f a)) (dom f)" unfolding inj_on_def by (metis domIff option.expand)
qed

text \<open>Prices of agents and tasks that prove an assignment the best one.\<close>

lemma prices_optimal:
  fixes u v :: "nat \<Rightarrow> real"
  assumes f: "assignment_ok cost f" and g: "assignment_ok cost g"
    and tight: "\<And>a t. g a = Some t \<Longrightarrow> u a + v t \<le> cost ! a ! t"
    and cover: "\<And>a t. f a = Some t \<Longrightarrow> g a \<noteq> Some t \<Longrightarrow> cost ! a ! t \<le> u a + v t"
    and agents: "\<And>a. a \<in> dom g \<Longrightarrow> 0 \<le> u a" "\<And>a. a \<in> dom f \<Longrightarrow> a \<notin> dom g \<Longrightarrow> u a \<le> 0"
    and tasks: "\<And>t. t \<in> ran g \<Longrightarrow> 0 \<le> v t" "\<And>t. t \<in> ran f \<Longrightarrow> t \<notin> ran g \<Longrightarrow> v t \<le> 0"
  shows "total_score cost f \<le> total_score cost g"
proof -
  define w where "w a = (case g a of Some t \<Rightarrow> cost ! a ! t - v t | None \<Rightarrow> u a)" for a
  have above: "u a \<le> w a" for a using tight [of a] by (auto simp: w_def split: option.split)
  have ran: "ran h = (\<lambda>a. the (h a)) ` dom h" for h :: assignment by (force simp: ran_def)
  have by_tasks: "(\<Sum>a \<in> dom h. v (the (h a))) = sum v (ran h)" if "assignment_ok cost h" for h
    unfolding ran by (simp add: sum.reindex [OF assignment_okD(2) [OF that]] comp_def)
  have mono: "sum x A \<le> sum x B" if "finite A" "finite B" "\<And>y. y \<in> B \<Longrightarrow> 0 \<le> x y" "\<And>y. y \<in> A \<Longrightarrow> y \<notin> B \<Longrightarrow> x y \<le> 0"
    for x :: "nat \<Rightarrow> real" and A B
  proof -
    have "sum x A = sum x (A \<inter> B) + sum x (A - B)" using that(1) by (rule sum.Int_Diff)
    moreover have "sum x (A - B) \<le> 0" using that by (intro sum_nonpos) auto
    moreover have "sum x (A \<inter> B) \<le> sum x B" using that by (intro sum_mono2) auto
    ultimately show ?thesis by linarith
  qed
  have "total_score cost f \<le> (\<Sum>a \<in> dom f. w a + v (the (f a)))"
    unfolding total_score_def
  proof (rule sum_mono)
    fix a assume "a \<in> dom f"
    then obtain t where t: "f a = Some t" by blast
    show "cost ! a ! the (f a) \<le> w a + v (the (f a))"
      using cover [OF t] above [of a] t by (cases "g a = Some t") (auto simp: w_def)
  qed
  also have "\<dots> = sum w (dom f) + sum v (ran f)" by (simp add: sum.distrib by_tasks [OF f])
  also have "\<dots> \<le> sum w (dom g) + sum v (ran g)"
  proof (rule add_mono; rule mono)
    show "0 \<le> w a" if "a \<in> dom g" for a using agents(1) [OF that] above [of a] by linarith
    show "w a \<le> 0" if "a \<in> dom f" "a \<notin> dom g" for a using agents(2) [OF that] that by (auto simp: w_def split: option.split)
    show "finite (ran f)" "finite (ran g)" using assignment_okD(1) [OF f] assignment_okD(1) [OF g] by (simp_all add: finite_ran)
  qed (use assignment_okD(1) [OF f] assignment_okD(1) [OF g] tasks in auto)
  also have "\<dots> = (\<Sum>a \<in> dom g. w a + v (the (g a)))" by (simp add: sum.distrib by_tasks [OF g])
  also have "\<dots> = total_score cost g"
    unfolding total_score_def by (rule sum.cong) (auto simp: w_def)
  finally show ?thesis .
qed

lemma flow_assignment_ok:
  assumes "flow_inv cost i F p" and "\<And>a t. g a = Some t \<longleftrightarrow> flow_pair cost F a t"
  shows "assignment_ok cost g"
  unfolding assignment_ok_def
proof (intro conjI allI impI)
  show "inj_on g (dom g)"
    using flow_pair_unique(2) [OF assms(1)] assms(2) unfolding inj_on_def by (metis domD)
qed (use assms(2) in \<open>simp_all add: flow_pair_def\<close>)

text \<open>The potentials at the end are prices for the assignment of the flow.\<close>

lemma flow_optimal:
  assumes inv: "flow_inv cost i F p" and stop: "MAX_COST \<le> p ! sink_of cost \<or> i = min (length cost) (n_tasks_of cost)"
    and g: "\<And>a t. g a = Some t \<longleftrightarrow> flow_pair cost F a t" and f: "assignment_ok cost f"
  shows "total_score cost f \<le> total_score cost g"
proof -
  define q where "q = p ! sink_of cost"
  note I = flow_invD [OF inv]
  note feas = arcs_feasibleD [OF I(5)]
  have agent: "0 \<le> p ! (a + 1)" "g a = None \<Longrightarrow> p ! (a + 1) \<le> 0" "q \<le> MAX_COST + p ! (a + 1)" if a: "a < length cost" for a
  proof -
    show "0 \<le> p ! (a + 1)" using I(4) a by (simp add: ssp_n_nodes_def)
    show "p ! (a + 1) \<le> 0" if "g a = None"
    proof -
      have "\<not> (\<exists>t. flow_pair cost F a t)" using that g by (metis option.distinct(1))
      then have "(0, a + 1, 0) \<notin> F" using agent_matched [OF inv a] by blast
      then show ?thesis using feas(2) [of 0 "a + 1" 0] a I(3) by (auto simp: ssp_arcs_set)
    qed
    have "q \<le> p ! dummy_node cost a" using feas(2) [OF _ flow_no_dummy [OF inv a]] a by (auto simp: ssp_arcs_set q_def)
    moreover have "p ! dummy_node cost a \<le> p ! (a + 1) + MAX_COST"
      using feas(2) [OF _ I(8) [OF a]] a by (auto simp: ssp_arcs_set)
    ultimately show "q \<le> MAX_COST + p ! (a + 1)" by linarith
  qed
  have task: "t \<in> ran g \<Longrightarrow> p ! task_node cost t \<le> q" "t \<notin> ran g \<Longrightarrow> q \<le> p ! task_node cost t"
    if t: "t < n_tasks_of cost" for t
  proof -
    have in_ran: "t \<in> ran g \<longleftrightarrow> (task_node cost t, sink_of cost, 0) \<in> F"
      using task_matched [OF inv t] g by (auto simp: ran_def)
    have arc: "(task_node cost t, sink_of cost, 0) \<in> set (ssp_arcs cost)" using t by (auto simp: ssp_arcs_set)
    show "t \<in> ran g \<Longrightarrow> p ! task_node cost t \<le> q" "t \<notin> ran g \<Longrightarrow> q \<le> p ! task_node cost t"
      using feas [OF arc] unfolding in_ran q_def by simp_all
  qed
  have pair_arc: "(a + 1, task_node cost t, MAX_COST - cost ! a ! t) \<in> set (ssp_arcs cost)"
    if "a < length cost" "t < n_tasks_of cost" "EPS < cost ! a ! t" for a t
    using that by (auto simp: ssp_arcs_set)
  have matched: "a < length cost \<and> t < n_tasks_of cost \<and> p ! (a + 1) + (MAX_COST - cost ! a ! t) \<le> p ! task_node cost t"
    if "g a = Some t" for a t
    using that feas(1) [OF pair_arc] g by (simp add: flow_pair_def)
  have other: "a < length cost \<and> t < n_tasks_of cost \<and> p ! task_node cost t \<le> p ! (a + 1) + (MAX_COST - cost ! a ! t)"
    if "f a = Some t" "g a \<noteq> Some t" for a t
  proof -
    have *: "a < length cost" "t < n_tasks_of cost" "EPS < cost ! a ! t" using f that(1) by (auto simp: assignment_ok_def)
    moreover have "(a + 1, task_node cost t, MAX_COST - cost ! a ! t) \<notin> F"
      using that(2) g * by (auto simp: flow_pair_def)
    ultimately show ?thesis using feas(2) [OF pair_arc] by simp
  qed
  have dom_f: "a < length cost" if "a \<in> dom f" for a using f that by (auto simp: assignment_ok_def)
  have ran_f: "t < n_tasks_of cost" if "t \<in> ran f" for t using f that by (auto simp: assignment_ok_def ran_def)
  have dom_g: "a < length cost" if "a \<in> dom g" for a using matched that by auto
  have ran_g: "t < n_tasks_of cost" if "t \<in> ran g" for t using matched that by (auto simp: ran_def)
  note ok = f flow_assignment_ok [OF inv g]
  show ?thesis
  proof (cases "MAX_COST \<le> q \<or> (\<forall>a < length cost. g a \<noteq> None)")
    case True
    show ?thesis
    proof (rule prices_optimal [OF ok, where u = "\<lambda>a. MAX_COST - q + p ! (a + 1)" and v = "\<lambda>t. q - p ! task_node cost t"])
      show "MAX_COST - q + p ! (a + 1) + (q - p ! task_node cost t) \<le> cost ! a ! t" if "g a = Some t" for a t
        using matched [OF that] by linarith
      show "cost ! a ! t \<le> MAX_COST - q + p ! (a + 1) + (q - p ! task_node cost t)" if "f a = Some t" "g a \<noteq> Some t" for a t
        using other [OF that] by linarith
      show "0 \<le> MAX_COST - q + p ! (a + 1)" if "a \<in> dom g" for a using agent(3) [OF dom_g [OF that]] by linarith
      show "MAX_COST - q + p ! (a + 1) \<le> 0" if "a \<in> dom f" "a \<notin> dom g" for a
      proof -
        have "g a = None" using that(2) by blast
        with True agent(2) [OF dom_f [OF that(1)]] dom_f [OF that(1)] show ?thesis by auto
      qed
      show "0 \<le> q - p ! task_node cost t" if "t \<in> ran g" for t using task(1) [OF ran_g [OF that] that] by simp
      show "q - p ! task_node cost t \<le> 0" if "t \<in> ran f" "t \<notin> ran g" for t using task(2) [OF ran_f [OF that(1)] that(2)] by simp
    qed
  next
    case False
    then obtain b where b: "b < length cost" "g b = None" by blast
    have "i = min (length cost) (n_tasks_of cost)" using stop False by (simp add: q_def)
    then have "\<forall>t < n_tasks_of cost. \<exists>a. flow_pair cost F a t"
      using flow_pairs_full [of cost F p] inv b g by (metis option.distinct(1))
    then have all: "t \<in> ran g" if "t < n_tasks_of cost" for t using g that by (auto simp: ran_def)
    have q: "q < MAX_COST" using False by auto
    show ?thesis
    proof (rule prices_optimal [OF ok, where u = "\<lambda>a. p ! (a + 1)" and v = "\<lambda>t. MAX_COST - p ! task_node cost t"])
      show "p ! (a + 1) + (MAX_COST - p ! task_node cost t) \<le> cost ! a ! t" if "g a = Some t" for a t
        using matched [OF that] by linarith
      show "cost ! a ! t \<le> p ! (a + 1) + (MAX_COST - p ! task_node cost t)" if "f a = Some t" "g a \<noteq> Some t" for a t
        using other [OF that] by linarith
      show "0 \<le> p ! (a + 1)" if "a \<in> dom g" for a using agent(1) [OF dom_g [OF that]] .
      show "p ! (a + 1) \<le> 0" if "a \<in> dom f" "a \<notin> dom g" for a
        using agent(2) [OF dom_f [OF that(1)]] that(2) by auto
      show "0 \<le> MAX_COST - p ! task_node cost t" if "t \<in> ran g" for t using task(1) [OF ran_g [OF that] that] q by simp
      show "MAX_COST - p ! task_node cost t \<le> 0" if "t \<in> ran f" "t \<notin> ran g" for t using all [OF ran_f [OF that(1)]] that(2) by simp
    qed
  qed
qed

section \<open>The output of the solver\<close>

lemma ssp_output_find:
  assumes inv: "flow_inv cost i F p" and a: "a < length cost"
  defines "row \<equiv> ssp_net (n_nodes_of cost) (ssp_arcs cost) F ! (a + 1)"
  shows "case find (\<lambda>e. re_flow e = 1 \<and> length cost + 1 \<le> re_dst e \<and> re_dst e - (length cost + 1) < n_tasks_of cost) row of
      None \<Rightarrow> \<forall>t. \<not> flow_pair cost F a t
    | Some e \<Rightarrow> flow_pair cost F a (re_dst e - (length cost + 1))"
proof -
  let ?P = "\<lambda>e. re_flow e = 1 \<and> length cost + 1 \<le> re_dst e \<and> re_dst e - (length cost + 1) < n_tasks_of cost"
  note ok = ssp_arcs_ok [of cost]
  have n: "a + 1 < n_nodes_of cost" using a by (simp add: ssp_n_nodes_def)
  have row: "e \<in> set row \<longleftrightarrow> (\<exists>k < length (ssp_arcs cost). arc_touches (ssp_arcs cost) (a + 1) k \<and>
      e = arc_edge (ssp_arcs cost) F (a + 1) k)" for e
    using n by (auto simp: row_def arc_incident_set)
  have found: "flow_pair cost F a (re_dst e - (length cost + 1))" if e: "e \<in> set row" "?P e" for e
  proof -
    obtain k where k: "k < length (ssp_arcs cost)" "e = arc_edge (ssp_arcs cost) F (a + 1) k" using e(1) row by blast
    obtain u v c where uvc: "ssp_arcs cost ! k = (u, v, c)" by (cases "ssp_arcs cost ! k") auto
    have "(u, v, c) \<in> set (ssp_arcs cost)" using k(1) uvc by (metis nth_mem)
    moreover have "u = a + 1" "(u, v, c) \<in> F" "re_dst e = v"
      using e(2) unfolding k(2) arc_edge_def uvc by (auto split: if_splits)
    ultimately show ?thesis using e(2) flow_invD(8) [OF inv a] by (auto simp: ssp_arcs_set ssp_sink_def flow_pair_def)
  qed
  have edge: "\<exists>e \<in> set row. ?P e" if pair: "flow_pair cost F a t" for t
  proof -
    have arc: "(a + 1, task_node cost t, MAX_COST - cost ! a ! t) \<in> set (ssp_arcs cost)"
      using flow_invD(1) [OF inv] pair by (auto simp: flow_pair_def)
    then obtain k where k: "k < length (ssp_arcs cost)" "ssp_arcs cost ! k = (a + 1, task_node cost t, MAX_COST - cost ! a ! t)"
      by (auto simp: in_set_conv_nth)
    have "?P (arc_edge (ssp_arcs cost) F (a + 1) k)" using pair by (simp add: arc_edge_def k(2) flow_pair_def)
    moreover have "arc_edge (ssp_arcs cost) F (a + 1) k \<in> set row" using k row by (auto simp: arc_touches_def)
    ultimately show ?thesis by blast
  qed
  show ?thesis
  proof (cases "find ?P row")
    case None
    then have "\<not> (\<exists>e. e \<in> set row \<and> ?P e)" by (simp only: find_None_iff simp_thms)
    then show ?thesis using None edge by auto
  next
    case (Some e)
    then have "\<exists>k < length row. ?P (row ! k) \<and> e = row ! k" unfolding find_Some_iff by blast
    then have "e \<in> set row" "?P e" by auto
    then show ?thesis using Some found by simp
  qed
qed

lemma ssp_output_flow:
  assumes inv: "flow_inv cost i F p" and "k \<le> length cost"
  shows "\<exists>direct rev_assignment. fold (ssp_output_agent (length cost) (n_tasks_of cost)
        (ssp_net (n_nodes_of cost) (ssp_arcs cost) F)) [0..<k] (Map.empty, Map.empty) = (direct, rev_assignment) \<and>
    (\<forall>a t. direct a = Some t \<longleftrightarrow> a < k \<and> flow_pair cost F a t) \<and>
    (\<forall>a t. rev_assignment t = Some a \<longleftrightarrow> a < k \<and> flow_pair cost F a t)"
  using assms(2)
proof (induction k)
  case 0
  then show ?case by simp
next
  case (Suc k)
  then obtain d r where IH: "fold (ssp_output_agent (length cost) (n_tasks_of cost)
        (ssp_net (n_nodes_of cost) (ssp_arcs cost) F)) [0..<k] (Map.empty, Map.empty) = (d, r)"
    "\<And>a t. d a = Some t \<longleftrightarrow> a < k \<and> flow_pair cost F a t" "\<And>a t. r t = Some a \<longleftrightarrow> a < k \<and> flow_pair cost F a t"
    by auto
  note step = ssp_output_find [OF inv, of k]
  note uniq = flow_pair_unique [OF inv]
  show ?case
  proof (cases "find (\<lambda>e. re_flow e = 1 \<and> length cost + 1 \<le> re_dst e \<and> re_dst e - (length cost + 1) < n_tasks_of cost)
      (ssp_net (n_nodes_of cost) (ssp_arcs cost) F ! (k + 1))")
    case None
    then have "\<forall>t. \<not> flow_pair cost F k t" using step Suc.prems by simp
    then have "a < k \<and> flow_pair cost F a t \<longleftrightarrow> a < Suc k \<and> flow_pair cost F a t" for a t by (auto simp: less_Suc_eq)
    moreover have "ssp_output_agent (length cost) (n_tasks_of cost) (ssp_net (n_nodes_of cost) (ssp_arcs cost) F) k (d, r) =
        (d, r)"
      using None by (simp add: ssp_output_agent_def)
    ultimately show ?thesis using IH by (intro exI [of _ d] exI [of _ r]) simp
  next
    case (Some e)
    define t0 where "t0 = re_dst e - (length cost + 1)"
    have pair: "flow_pair cost F k t0" using step Suc.prems Some by (simp add: t0_def)
    have "ssp_output_agent (length cost) (n_tasks_of cost) (ssp_net (n_nodes_of cost) (ssp_arcs cost) F) k (d, r) =
        (d(k \<mapsto> t0), r(t0 \<mapsto> k))"
      using Some by (simp add: ssp_output_agent_def t0_def Let_def)
    moreover have "(d(k \<mapsto> t0)) a = Some t \<longleftrightarrow> a < Suc k \<and> flow_pair cost F a t" for a t
      using IH(2) pair uniq(1) by (auto simp: less_Suc_eq)
    moreover have "(r(t0 \<mapsto> k)) t = Some a \<longleftrightarrow> a < Suc k \<and> flow_pair cost F a t" for a t
    proof (cases "t = t0")
      case True
      then show ?thesis using pair uniq(2) by auto
    next
      case False
      then have "\<not> flow_pair cost F k t" using pair uniq(1) by blast
      then have "a < k \<and> flow_pair cost F a t \<longleftrightarrow> a < Suc k \<and> flow_pair cost F a t" by (metis less_Suc_eq)
      then show ?thesis using False IH(3) by simp
    qed
    ultimately show ?thesis using IH(1) by (intro exI [of _ "d(k \<mapsto> t0)"] exI [of _ "r(t0 \<mapsto> k)"]) (simp del: fun_upd_apply)
  qed
qed

text \<open>The contract of the solver.\<close>

lemma ssp_solution:
  assumes "ssp_scores cost"
  shows "\<exists>direct rev_assignment.
    ssp_maximizeLinearAssignment cost Map.empty Map.empty = Some (Inr (direct, rev_assignment)) \<and>
    assignment_ok cost direct \<and> (\<forall>a t. direct a = Some t \<longleftrightarrow> rev_assignment t = Some a) \<and>
    (\<forall>other. assignment_ok cost other \<longrightarrow> total_score cost other \<le> total_score cost direct)"
proof (cases "cost = [] \<or> cost ! 0 = []")
  case True
  have none: "other a = None" if "assignment_ok cost other" for other a
  proof (rule ccontr)
    assume "other a \<noteq> None"
    then obtain t where "other a = Some t" by blast
    with that have "a < length cost" "t < n_tasks_of cost" unfolding assignment_ok_def by blast+
    with True show False by auto
  qed
  have "total_score cost other = 0" if "assignment_ok cost other" for other
    using none [OF that] by (simp add: total_score_def dom_def)
  moreover have "assignment_ok cost Map.empty" by (simp add: assignment_ok_def)
  moreover have "ssp_maximizeLinearAssignment cost Map.empty Map.empty = Some (Inr (Map.empty, Map.empty))"
    using True by (simp add: ssp_maximizeLinearAssignment_def)
  ultimately show ?thesis
    by (intro exI [of _ Map.empty] conjI) (simp_all del: fun_upd_apply)
next
  case False
  let ?m = "min (length cost) (n_tasks_of cost)" and ?n = "n_nodes_of cost"
  have n: "0 < ?n" by (simp add: ssp_n_nodes_def)
  have "u < ?n \<and> v < ?n \<and> 0 \<le> c" if arc: "(u, v, c) \<in> set (ssp_arcs cost)" for u v c
  proof -
    have "0 \<le> MAX_COST - cost ! a ! t" if "a < length cost" "t < n_tasks_of cost" for a t
    proof -
      have "cost ! a \<in> set cost" "length (cost ! a) = n_tasks_of cost" using assms that by (simp_all add: ssp_scores_def)
      then have "cost ! a ! t \<in> set (cost ! a)" "cost ! a \<in> set cost" using that(2) by simp_all
      then have "cost ! a ! t \<le> MAX_COST" using assms unfolding ssp_scores_def by blast
      then show ?thesis by simp
    qed
    then have "0 \<le> c" using arc unfolding ssp_arcs_set by (auto simp: MAX_COST_def)
    then show ?thesis using ssp_arcs_ok [of cost] arc by (auto simp: arcs_ok_def)
  qed
  then have "arcs_feasible (ssp_arcs cost) {} (replicate ?n 0)" by (auto simp: arcs_feasible_def)
  then have "flow_inv cost 0 {} (replicate ?n 0)" using n by (simp add: flow_inv_def arc_excess_def)
  then obtain i F p where flow: "ssp_flow ?m (sink_of cost) (ssp_net ?n (ssp_arcs cost) {}) (replicate ?n 0) (replicate ?n (0, 0)) =
      Some (Inr (ssp_net ?n (ssp_arcs cost) F))"
    and inv: "flow_inv cost i F p" and stop: "MAX_COST \<le> p ! sink_of cost \<or> i = ?m"
    using ssp_flow_net [of cost 0 "{}" "replicate ?n 0" "replicate ?n (0, 0)" ?m] by auto
  obtain direct r where out: "fold (ssp_output_agent (length cost) (n_tasks_of cost) (ssp_net ?n (ssp_arcs cost) F))
      [0..<length cost] (Map.empty, Map.empty) = (direct, r)"
    and d': "\<forall>a t. direct a = Some t \<longleftrightarrow> a < length cost \<and> flow_pair cost F a t"
    and r': "\<forall>a t. r t = Some a \<longleftrightarrow> a < length cost \<and> flow_pair cost F a t"
    using ssp_output_flow [OF inv le_refl] by blast
  have d: "direct a = Some t \<longleftrightarrow> flow_pair cost F a t" and r: "r t = Some a \<longleftrightarrow> flow_pair cost F a t" for a t
    using d' r' by (auto simp: flow_pair_def)
  have "ssp_valid (length cost) direct r" using d r by (simp add: ssp_valid_def split: option.split)
  then have "ssp_maximizeLinearAssignment cost Map.empty Map.empty = Some (Inr (direct, r))"
    using False flow out by (simp add: ssp_maximizeLinearAssignment_def ssp_build_ok [OF assms] Let_def)
  moreover have "assignment_ok cost direct" by (rule flow_assignment_ok [OF inv d])
  ultimately show ?thesis using d r flow_optimal [OF inv stop d] by blast
qed

text \<open>C22: on a rectangular matrix of scores up to 10 the solver returns (no assertion fails and no access is out of
  range); its two maps are inverse to each other, they pair agents and tasks with a score that counts, and no other
  one to one assignment by such pairs has a greater total score.
\<close>

theorem ssp_assignment_optimal:
  assumes "ssp_scores cost"
  shows "\<exists>direct rev_assignment.
    ssp_maximizeLinearAssignment cost Map.empty Map.empty = Some (Inr (direct, rev_assignment)) \<and>
    assignment_ok cost direct \<and> (\<forall>a t. direct a = Some t \<longleftrightarrow> rev_assignment t = Some a) \<and>
    (\<forall>other. assignment_ok cost other \<longrightarrow> total_score cost other \<le> total_score cost direct)"
  by (rule ssp_solution [OF assms])

text \<open>Taking the best task for the first agent would leave a total of 1/2 here.\<close>

theorem ssp_assignment_optimal_witness:
  "\<exists>direct rev_assignment.
    ssp_maximizeLinearAssignment [[1 / 2, 1 / 5], [2 / 5, 0]] Map.empty Map.empty = Some (Inr (direct, rev_assignment)) \<and>
    3 / 5 \<le> total_score [[1 / 2, 1 / 5], [2 / 5, 0]] direct"
proof -
  define cost :: "real list list" where "cost = [[1 / 2, 1 / 5], [2 / 5, 0]]"
  define other :: assignment where "other = [0 \<mapsto> 1, 1 \<mapsto> 0]"
  have "ssp_scores cost" by (simp add: cost_def ssp_scores_def MAX_COST_def)
  from ssp_assignment_optimal [OF this] obtain direct r where
    d: "ssp_maximizeLinearAssignment cost Map.empty Map.empty = Some (Inr (direct, r))"
    "\<forall>f. assignment_ok cost f \<longrightarrow> total_score cost f \<le> total_score cost direct"
    by blast
  have "inj_on other (dom other)" by (auto simp: other_def inj_on_def split: if_splits)
  then have "assignment_ok cost other"
    by (auto simp: assignment_ok_def other_def cost_def EPS_def split: if_splits)
  moreover have "total_score cost other = 3 / 5" by (simp add: total_score_def other_def cost_def)
  ultimately show ?thesis
    unfolding cost_def [symmetric] using d by (intro exI [of _ direct] exI [of _ r]) auto
qed

end
