(* ===== verification/Data_Association.thy ===== *)
theory Data_Association
  imports Perception_Objects Assignment_Optimal
begin

text \<open>
  The data association of perception/multi_object_tracker and of perception/object_merger: a matrix of scores from the
  distances of the pairs that pass every gate, and the assignment a solver finds for it.  The two versions differ in
  their gates only.  The solver is used through an interface, the locale \<open>gnn_solver\<close>; the
  solver SSP provides it.  The inverse of a matrix (Eigen) is a parameter.
\<close>

section \<open>Parameter matrices\<close>

text \<open>
  A square matrix is given row by row; its size is the square root of the number of entries, rounded down.  An access
  out of range is undefined in the code (Eigen checks it in debug builds).
\<close>

record 'a param_matrix =
  pm_size :: nat
  pm_data :: "'a list"

definition int_sqrt :: "nat \<Rightarrow> nat" where
  "int_sqrt n = last (filter (\<lambda>m. m * m \<le> n) [0..<Suc n])"

definition param_matrix_new :: "'a list \<Rightarrow> 'a param_matrix" where
  "param_matrix_new data = \<lparr>pm_size = int_sqrt (length data), pm_data = data\<rparr>"

definition matrix_at :: "'a param_matrix \<Rightarrow> nat \<Rightarrow> nat \<Rightarrow> perception_error + 'a" where
  "matrix_at m row col =
     (if row < pm_size m \<and> col < pm_size m then Inr (pm_data m ! (row * pm_size m + col)) else Inl PE_OutOfRange)"

lemma sorted_le_last: "sorted xs \<Longrightarrow> x \<in> set xs \<Longrightarrow> x \<le> last xs"
  by (induction xs) auto

lemma int_sqrt_square: "int_sqrt n * int_sqrt n \<le> n" "n < Suc (int_sqrt n) * Suc (int_sqrt n)"
proof -
  let ?ms = "filter (\<lambda>m. m * m \<le> n) [0..<Suc n]"
  have "0 \<in> set ?ms" by (simp del: upt_Suc)
  then have ne: "?ms \<noteq> []" by (metis empty_iff list.set(1))
  then have "int_sqrt n \<in> set ?ms" unfolding int_sqrt_def by (rule last_in_set)
  then show le: "int_sqrt n * int_sqrt n \<le> n" by (simp del: upt_Suc)
  have sorted: "sorted ?ms" by (rule sorted_wrt_filter) (rule sorted_upt)
  have "m \<le> int_sqrt n" if "m * m \<le> n" for m
  proof -
    have "m \<le> m * m" by simp
    then have "m < Suc n" using that by linarith
    then have "m \<in> set ?ms" using that by (simp del: upt_Suc)
    then show ?thesis unfolding int_sqrt_def by (rule sorted_le_last [OF sorted])
  qed
  from this [of "Suc (int_sqrt n)"] show "n < Suc (int_sqrt n) * Suc (int_sqrt n)" by (meson Suc_n_not_le_n not_less)
qed

lemma matrix_at_total:
  assumes "row < int_sqrt (length data)" and "col < int_sqrt (length data)"
  shows "matrix_at (param_matrix_new data) row col = Inr (data ! (row * int_sqrt (length data) + col))"
    and "row * int_sqrt (length data) + col < length data"
proof -
  let ?n = "int_sqrt (length data)"
  show "matrix_at (param_matrix_new data) row col = Inr (data ! (row * ?n + col))"
    using assms by (simp add: matrix_at_def param_matrix_new_def)
  have "row * ?n + col < Suc row * ?n" using assms(2) by simp
  also have "\<dots> \<le> ?n * ?n" using assms(1) by (intro mult_right_mono) simp_all
  finally show "row * ?n + col < length data" using int_sqrt_square(1) [of "length data"] by linarith
qed

record data_association =
  da_can_assign_matrix :: "int param_matrix"
  da_max_dist_matrix :: "real param_matrix"
  da_max_area_matrix :: "real param_matrix"
  da_min_area_matrix :: "real param_matrix"
  da_max_rad_matrix :: "real param_matrix"
  da_min_iou_matrix :: "real param_matrix"

definition da_new ::
  "int list \<Rightarrow> real list \<Rightarrow> real list \<Rightarrow> real list \<Rightarrow> real list \<Rightarrow> real list \<Rightarrow> data_association" where
  "da_new can_assign max_dist max_area min_area max_rad min_iou =
     \<lparr>da_can_assign_matrix = param_matrix_new can_assign, da_max_dist_matrix = param_matrix_new max_dist,
      da_max_area_matrix = param_matrix_new max_area, da_min_area_matrix = param_matrix_new min_area,
      da_max_rad_matrix = param_matrix_new max_rad, da_min_iou_matrix = param_matrix_new min_iou\<rparr>"

definition score_threshold :: real where "score_threshold = 1 / 100"

section \<open>The difference of two yaw angles\<close>

definition formed_range :: "bool \<Rightarrow> real" where
  "formed_range distinguish_front_or_back = (if distinguish_front_or_back then pi else pi / 2)"

definition formed_step :: "bool \<Rightarrow> real" where
  "formed_step distinguish_front_or_back = (if distinguish_front_or_back then 2 * pi else pi)"

lemma formed_step_range: "formed_step b = 2 * formed_range b" "pi \<le> formed_step b" "0 < formed_range b"
  using pi_gt_zero by (simp_all add: formed_step_def formed_range_def)

lemma nat_ceiling_less:
  fixes x y :: real
  assumes "0 < x" and "y \<le> x - 1"
  shows "nat \<lceil>y\<rceil> < nat \<lceil>x\<rceil>"
proof -
  have "\<lceil>y\<rceil> \<le> \<lceil>x\<rceil> - 1" using ceiling_mono [OF assms(2)] by simp
  then show ?thesis using assms(1) by linarith
qed

function turn_up :: "bool \<Rightarrow> real \<Rightarrow> real \<Rightarrow> real" where
  "turn_up b tracker_yaw yaw =
     (if formed_range b \<le> tracker_yaw - yaw then turn_up b tracker_yaw (yaw + formed_step b) else yaw)"
  by pat_completeness auto
termination
proof (relation "measure (\<lambda>(b, t, y). nat \<lceil>(t - y) / pi\<rceil>)", goal_cases)
  case (2 b t y)
  have "0 < (t - y) / pi" using 2 formed_step_range(3) [of b] by (intro divide_pos_pos) (linarith, simp)
  moreover have "(t - (y + formed_step b)) / pi \<le> (t - y) / pi - 1"
    using formed_step_range(2) [of b] by (simp add: field_simps)
  ultimately show ?case unfolding in_measure prod.case by (rule nat_ceiling_less)
qed simp

function turn_down :: "bool \<Rightarrow> real \<Rightarrow> real \<Rightarrow> real" where
  "turn_down b tracker_yaw yaw =
     (if formed_range b \<le> yaw - tracker_yaw then turn_down b tracker_yaw (yaw - formed_step b) else yaw)"
  by pat_completeness auto
termination
proof (relation "measure (\<lambda>(b, t, y). nat \<lceil>(y - t) / pi\<rceil>)", goal_cases)
  case (2 b t y)
  have "0 < (y - t) / pi" using 2 formed_step_range(3) [of b] by (intro divide_pos_pos) (linarith, simp)
  moreover have "(y - formed_step b - t) / pi \<le> (y - t) / pi - 1"
    using formed_step_range(2) [of b] by (simp add: field_simps)
  ultimately show ?case unfolding in_measure prod.case by (rule nat_ceiling_less)
qed simp

declare turn_up.simps [simp del] turn_down.simps [simp del]

definition getFormedYawAngle :: "real \<Rightarrow> real \<Rightarrow> bool \<Rightarrow> real" where
  "getFormedYawAngle measurement_quat_yaw tracker_quat_yaw distinguish_front_or_back =
     (let measurement_yaw = normalizeRadian measurement_quat_yaw; tracker_yaw = normalizeRadian tracker_quat_yaw;
          up = turn_up distinguish_front_or_back tracker_yaw measurement_yaw
      in \<bar>turn_down distinguish_front_or_back tracker_yaw up - tracker_yaw\<bar>)"

lemma turn_up_below: "t - turn_up b t y < formed_range b"
  by (induction b t y rule: turn_up.induct) (simp add: turn_up.simps)

lemma turn_down_between:
  "t - y \<le> formed_range b \<Longrightarrow> \<bar>turn_down b t y - t\<bar> \<le> formed_range b"
proof (induction b t y rule: turn_down.induct)
  case (1 b t y)
  show ?case
  proof (cases "formed_range b \<le> y - t")
    case True
    then have "t - (y - formed_step b) \<le> formed_range b" using formed_step_range(1) [of b] by linarith
    with 1 True show ?thesis by (simp add: turn_down.simps [of b t y])
  next
    case False
    with "1.prems" show ?thesis by (simp add: turn_down.simps [of b t y] abs_le_iff)
  qed
qed

text \<open>The angle is one between two directions, or between two axes.\<close>

lemma getFormedYawAngle_bounds: "getFormedYawAngle m t b \<le> formed_range b"
  unfolding getFormedYawAngle_def Let_def by (intro turn_down_between less_imp_le turn_up_below)

section \<open>Gates and scores\<close>

definition err_and :: "'e + bool \<Rightarrow> 'e + bool \<Rightarrow> 'e + bool" where
  "err_and gate others = err_bind gate (\<lambda>passed. if passed then others else Inr False)"

definition dist_gate :: "real \<Rightarrow> real \<Rightarrow> bool" where
  "dist_gate max_dist d \<longleftrightarrow> \<not> max_dist < d"

definition area_gate :: "data_association \<Rightarrow> nat \<Rightarrow> nat \<Rightarrow> object_shape \<Rightarrow> perception_error + bool" where
  "area_gate da tracker_label measurement_label shape =
     err_bind (matrix_at (da_max_area_matrix da) tracker_label measurement_label) (\<lambda>max_area.
     err_bind (matrix_at (da_min_area_matrix da) tracker_label measurement_label) (\<lambda>min_area.
     err_bind (getArea shape) (\<lambda>area. Inr (\<not> (area < min_area \<or> max_area < area)))))"

definition angle_gate :: "data_association \<Rightarrow> nat \<Rightarrow> nat \<Rightarrow> real \<Rightarrow> real \<Rightarrow> perception_error + bool" where
  "angle_gate da label1 label0 yaw0 yaw1 =
     err_bind (matrix_at (da_max_rad_matrix da) label1 label0) (\<lambda>max_rad.
       let angle = getFormedYawAngle yaw0 yaw1 False
       in Inr (\<not> (\<bar>max_rad\<bar> < pi \<and> \<bar>max_rad\<bar> < \<bar>angle\<bar>)))"

definition iou_gate ::
  "data_association \<Rightarrow> object_lib \<Rightarrow> nat \<Rightarrow> nat \<Rightarrow> perception_object \<Rightarrow> perception_object \<Rightarrow> perception_error + bool" where
  "iou_gate da lib label1 label0 object0 object1 =
     err_bind (matrix_at (da_min_iou_matrix da) label1 label0) (\<lambda>min_iou.
     err_bind (get2dIoU lib object0 object1 (1 / 100)) (\<lambda>iou. Inr (\<not> flt_less iou (Fin min_iou))))"

text \<open>The root of a double is NaN for a negative one.\<close>

fun flt_sqrt :: "flt \<Rightarrow> flt" where
  "flt_sqrt (Fin x) = (if x < 0 then NaN else Fin (sqrt x))"
| "flt_sqrt PInf = PInf"
| "flt_sqrt NInf = NaN"
| "flt_sqrt NaN = NaN"

type_synonym covariance_inverse = "real \<times> real \<times> real \<times> real \<Rightarrow> flt \<times> flt \<times> flt \<times> flt"

definition getMahalanobisDistance ::
  "covariance_inverse \<Rightarrow> pose \<Rightarrow> pose \<Rightarrow> real \<times> real \<times> real \<times> real \<Rightarrow> flt" where
  "getMahalanobisDistance inverse2 measurement tracker covariance =
     (let dx = pt_x measurement - pt_x tracker; dy = pt_y measurement - pt_y tracker;
          (i00, i01, i10, i11) = inverse2 covariance;
          r0 = flt_add (flt_scale dx i00) (flt_scale dy i10); r1 = flt_add (flt_scale dx i01) (flt_scale dy i11)
      in flt_sqrt (flt_add (flt_scale dx r0) (flt_scale dy r1)))"

definition mahalanobis_gate :: "flt \<Rightarrow> bool" where
  "mahalanobis_gate mahalanobis_dist \<longleftrightarrow>
     \<not> (flt_less (Fin (2448 / 1000)) mahalanobis_dist \<or> mahalanobis_dist = Fin (2448 / 1000))"

text \<open>The score of a pair that passes; with a maximum of zero it would be NaN.\<close>

definition distance_score :: "real \<Rightarrow> real \<Rightarrow> perception_error + real" where
  "distance_score max_dist d =
     (if max_dist = 0 then Inl PE_NotANumber
      else let score = (max_dist - min d max_dist) / max_dist
           in Inr (if score < score_threshold then 0 else score))"

text \<open>The two versions of the score of a pair: of a tracker and a measurement, and of two detected objects.\<close>

definition tracker_score ::
  "data_association \<Rightarrow> object_lib \<Rightarrow> covariance_inverse \<Rightarrow> nat \<Rightarrow> perception_object \<Rightarrow> perception_object \<Rightarrow>
     perception_error + real" where
  "tracker_score da lib inverse2 tracker_label tracked measurement =
     (let measurement_label = getHighestProbLabel (pb_classification measurement)
      in err_bind (matrix_at (da_can_assign_matrix da) tracker_label measurement_label) (\<lambda>can_assign.
         if can_assign = 0 then Inr 0
         else err_bind (matrix_at (da_max_dist_matrix da) tracker_label measurement_label) (\<lambda>max_dist.
           let d = calcDistance2d (pb_pose measurement) (pb_pose tracked)
           in err_bind
                (err_and (Inr (dist_gate max_dist d))
                (err_and (area_gate da tracker_label measurement_label (pb_shape measurement))
                (err_and (angle_gate da tracker_label measurement_label (po_yaw (pb_pose measurement))
                    (po_yaw (pb_pose tracked)))
                (err_and (Inr (mahalanobis_gate (getMahalanobisDistance inverse2 (pb_pose measurement) (pb_pose tracked)
                    (pb_covariance tracked))))
                 (iou_gate da lib tracker_label measurement_label measurement tracked)))))
                (\<lambda>passed_gate. if passed_gate then distance_score max_dist d else Inr 0))))"

definition merger_score ::
  "data_association \<Rightarrow> object_lib \<Rightarrow> perception_object \<Rightarrow> perception_object \<Rightarrow> perception_error + real" where
  "merger_score da lib object1 object0 =
     (let object1_label = getHighestProbLabel (pb_classification object1);
          object0_label = getHighestProbLabel (pb_classification object0)
      in err_bind (matrix_at (da_can_assign_matrix da) object1_label object0_label) (\<lambda>can_assign.
         if can_assign = 0 then Inr 0
         else err_bind (matrix_at (da_max_dist_matrix da) object1_label object0_label) (\<lambda>max_dist.
           let d = calcDistance2d (pb_pose object0) (pb_pose object1)
           in err_bind
                (err_and (Inr (dist_gate max_dist d))
                (err_and (angle_gate da object1_label object0_label (po_yaw (pb_pose object0)) (po_yaw (pb_pose object1)))
                 (iou_gate da lib object1_label object0_label object0 object1)))
                (\<lambda>passed_gate. if passed_gate then distance_score max_dist d else Inr 0))))"

text \<open>The rows of the matrix, from the items of the rows and those of the columns.\<close>

definition score_matrix :: "('a \<Rightarrow> 'b \<Rightarrow> perception_error + real) \<Rightarrow> 'a list \<Rightarrow> 'b list \<Rightarrow> perception_error + real list list" where
  "score_matrix score rows cols = err_map (\<lambda>row. err_map (score row) cols) rows"

lemma score_matrix_nth:
  assumes "score_matrix score rows cols = Inr src"
  shows "length src = length rows" "i < length rows \<Longrightarrow> length (src ! i) = length cols"
    "i < length rows \<Longrightarrow> j < length cols \<Longrightarrow> score (rows ! i) (cols ! j) = Inr (src ! i ! j)"
  using assms by (auto simp: score_matrix_def err_map_Inr_iff list_all2_conv_all_nth)

section \<open>The solver's interface\<close>

text \<open>
  What the nodes rely on: for a rectangular matrix with scores up to 10, the pairs are within it, and the two maps are
  inverse to each other.
\<close>

locale gnn_solver =
  fixes solve :: "real list list \<Rightarrow> assignment \<times> assignment"
  assumes solve_range: "ssp_scores cost \<Longrightarrow> solve cost = (direct, rev_assignment) \<Longrightarrow> direct a = Some t \<Longrightarrow>
      a < length cost \<and> t < length (cost ! 0)"
    and solve_inverse: "ssp_scores cost \<Longrightarrow> solve cost = (direct, rev_assignment) \<Longrightarrow>
      direct a = Some t \<longleftrightarrow> rev_assignment t = Some a"

text \<open>The assignment without the pairs below the threshold.\<close>

definition da_assign ::
  "(real list list \<Rightarrow> assignment \<times> assignment) \<Rightarrow> real list list \<Rightarrow> assignment \<times> assignment" where
  "da_assign solve src =
     (case solve src of (direct, rev_assignment) \<Rightarrow>
        (\<lambda>a. case direct a of None \<Rightarrow> None | Some t \<Rightarrow> if src ! a ! t < score_threshold then None else Some t,
         \<lambda>t. case rev_assignment t of None \<Rightarrow> None | Some a \<Rightarrow> if src ! a ! t < score_threshold then None else Some a))"

context gnn_solver
begin

lemma assign_pairs:
  assumes "ssp_scores src" and "da_assign solve src = (direct, rev_assignment)"
  shows "direct a = Some t \<longleftrightarrow> rev_assignment t = Some a"
    and "direct a = Some t \<Longrightarrow> a < length src \<and> t < length (src ! 0) \<and> score_threshold \<le> src ! a ! t"
proof -
  obtain d r where dr: "solve src = (d, r)" by fastforce
  have direct: "direct a = Some t \<longleftrightarrow> d a = Some t \<and> score_threshold \<le> src ! a ! t" for a t
    using assms(2) dr by (auto simp: da_assign_def not_less split: option.splits if_splits)
  have reverse: "rev_assignment t = Some a \<longleftrightarrow> r t = Some a \<and> score_threshold \<le> src ! a ! t" for a t
    using assms(2) dr by (auto simp: da_assign_def not_less split: option.splits if_splits)
  show "direct a = Some t \<longleftrightarrow> rev_assignment t = Some a"
    unfolding direct reverse using solve_inverse [OF assms(1) dr] by blast
  show "direct a = Some t \<Longrightarrow> a < length src \<and> t < length (src ! 0) \<and> score_threshold \<le> src ! a ! t"
    unfolding direct using solve_range [OF assms(1) dr] by blast
qed

end

text \<open>The solver SSP behind the interface.\<close>

definition ssp_solve :: "real list list \<Rightarrow> assignment \<times> assignment" where
  "ssp_solve cost =
     (case ssp_maximizeLinearAssignment cost Map.empty Map.empty of
        Some (Inr assignments) \<Rightarrow> assignments
      | _ \<Rightarrow> (Map.empty, Map.empty))"

interpretation ssp: gnn_solver ssp_solve
proof
  fix cost direct rev_assignment a t
  assume scores: "ssp_scores cost" and solve: "ssp_solve cost = (direct, rev_assignment)"
  obtain d r where dr: "ssp_maximizeLinearAssignment cost Map.empty Map.empty = Some (Inr (d, r))"
    "assignment_ok cost d" "\<forall>a t. d a = Some t \<longleftrightarrow> r t = Some a"
    using ssp_solution [OF scores] by blast
  then have eq: "d = direct" "r = rev_assignment" using solve by (simp_all add: ssp_solve_def)
  show "direct a = Some t \<longleftrightarrow> rev_assignment t = Some a" using dr(3) eq by blast
  show "a < length cost \<and> t < length (cost ! 0)" if "direct a = Some t"
    using dr(2) that unfolding eq assignment_ok_def by blast
qed

section \<open>Bounds of the scores\<close>

lemma distance_score_bounds:
  assumes "0 \<le> d" and "dist_gate max_dist d" and "distance_score max_dist d = Inr score"
  shows "0 \<le> score \<and> score \<le> 1"
proof -
  have "0 < max_dist" "d \<le> max_dist" using assms by (auto simp: dist_gate_def distance_score_def split: if_splits)
  then have "0 \<le> (max_dist - min d max_dist) / max_dist" "(max_dist - min d max_dist) / max_dist \<le> 1"
    using assms(1) by simp_all
  then show ?thesis using assms(3) \<open>0 < max_dist\<close> by (auto simp: distance_score_def Let_def split: if_splits)
qed

lemma err_and_True [simp]: "err_and g h = Inr True \<longleftrightarrow> g = Inr True \<and> h = Inr True"
  by (cases g) (auto simp: err_and_def)

text \<open>A pair with a score has passed every gate.\<close>

definition gates_passed ::
  "data_association \<Rightarrow> object_lib \<Rightarrow> covariance_inverse \<Rightarrow> nat \<Rightarrow> perception_object \<Rightarrow> perception_object \<Rightarrow> bool" where
  "gates_passed da lib inverse2 tracker_label tracked m \<longleftrightarrow>
     (let label = getHighestProbLabel (pb_classification m)
      in (\<exists>can_assign. matrix_at (da_can_assign_matrix da) tracker_label label = Inr can_assign \<and> can_assign \<noteq> 0) \<and>
         (\<exists>max_dist. matrix_at (da_max_dist_matrix da) tracker_label label = Inr max_dist \<and>
            calcDistance2d (pb_pose m) (pb_pose tracked) \<le> max_dist) \<and>
         area_gate da tracker_label label (pb_shape m) = Inr True \<and>
         angle_gate da tracker_label label (po_yaw (pb_pose m)) (po_yaw (pb_pose tracked)) = Inr True \<and>
         mahalanobis_gate (getMahalanobisDistance inverse2 (pb_pose m) (pb_pose tracked) (pb_covariance tracked)) \<and>
         iou_gate da lib tracker_label label m tracked = Inr True)"

lemma tracker_score_gates:
  assumes "tracker_score da lib inverse2 label tracked m = Inr score"
  shows "0 \<le> score \<and> score \<le> 1" and "score \<noteq> 0 \<Longrightarrow> gates_passed da lib inverse2 label tracked m"
proof -
  note score = distance_score_bounds [OF calcDistance2d_nonneg [of "pb_pose m" "pb_pose tracked"]]
  show "0 \<le> score \<and> score \<le> 1"
    using assms score by (auto simp: tracker_score_def Let_def split: if_splits)
  show "gates_passed da lib inverse2 label tracked m" if "score \<noteq> 0"
    using assms that by (auto simp: tracker_score_def gates_passed_def Let_def dist_gate_def split: if_splits)
qed

lemma merger_score_gates:
  assumes "merger_score da lib object1 object0 = Inr score"
  shows "0 \<le> score \<and> score \<le> 1"
  using assms distance_score_bounds [OF calcDistance2d_nonneg [of "pb_pose object0" "pb_pose object1"]]
  by (auto simp: merger_score_def Let_def split: if_splits)

lemma score_matrix_scores:
  assumes "score_matrix score rows cols = Inr src" and "\<And>r c s. score r c = Inr s \<Longrightarrow> s \<le> 1"
  shows "ssp_scores src"
  unfolding ssp_scores_def
proof (intro ballI conjI)
  fix row assume "row \<in> set src"
  then obtain i where i: "i < length rows" "src ! i = row"
    using score_matrix_nth(1) [OF assms(1)] by (auto simp: in_set_conv_nth)
  then have "0 < length rows" by linarith
  then show "length row = length (src ! 0)" using score_matrix_nth(2) [OF assms(1)] i by metis
  fix s assume "s \<in> set row"
  then obtain j where j: "j < length cols" "src ! i ! j = s"
    using score_matrix_nth(2) [OF assms(1) i(1)] i(2) by (auto simp: in_set_conv_nth)
  then have "s \<le> 1" using assms(2) score_matrix_nth(3) [OF assms(1) i(1) j(1)] by metis
  then show "s \<le> MAX_COST" by (simp add: MAX_COST_def)
qed

section \<open>Examples of the libraries, of a solver and of objects\<close>

definition da_ex_lib :: object_lib where
  "da_ex_lib =
     \<lparr>ol_offset_position = (\<lambda>p x y. (pt_x p + x, pt_y p + y)), ol_intersection = (\<lambda>p q. [[(0, 0)]]),
      ol_union = (\<lambda>p q. [[(0, 0)]]), ol_convex_hull = (\<lambda>ps. [(0, 0)]), ol_area = (\<lambda>p. 1)\<rparr>"

text \<open>A solver that pairs the first two.\<close>

definition da_ex_solve :: "real list list \<Rightarrow> assignment \<times> assignment" where
  "da_ex_solve cost = (if cost = [] \<or> cost ! 0 = [] then (Map.empty, Map.empty) else ([0 \<mapsto> 0], [0 \<mapsto> 0]))"

lemma da_ex_solver: "gnn_solver da_ex_solve"
  by unfold_locales (auto simp: da_ex_solve_def split: if_splits)

definition da_ex_object :: "real \<Rightarrow> perception_object" where
  "da_ex_object x =
     \<lparr>pb_existence_probability = 0, pb_classification = [\<lparr>cl_label = 0, cl_probability = 1\<rparr>],
      pb_pose = \<lparr>pt_x = x, pt_y = 0, pt_z = 0, po_pitch = 0, po_yaw = 0\<rparr>, pb_covariance = (0, 0, 0, 0),
      pb_has_twist = False, pb_twist_x = 0,
      pb_shape = \<lparr>sh_type = Shape_BOUNDING_BOX, sh_dim_x = 2, sh_dim_y = 2, sh_footprint = []\<rparr>\<rparr>"

lemma da_ex_outline:
  assumes "pb_pose object = pb_pose (da_ex_object x)" and "pb_shape object = pb_shape (da_ex_object x)"
  shows "object_outline da_ex_lib object = Inr [(x + 1, 1), (x + 1, - 1), (x - 1, - 1), (x - 1, 1), (x + 1, 1)]"
proof -
  have "polygon_isClockwise [(x + 1, 1), (x - 1, 1), (x - 1, - 1), (x + 1, - 1), (x + 1, 1)] = Inr False"
    by (simp add: polygon_isClockwise_def Let_def nth_Cons_numeral)
  moreover have "shape_points da_ex_lib (pb_pose (da_ex_object x)) (pb_shape (da_ex_object x)) =
      Inr [(x + 1, 1), (x - 1, 1), (x - 1, - 1), (x + 1, - 1)]"
    by (simp add: shape_points_def da_ex_lib_def da_ex_object_def)
  ultimately show ?thesis
    by (simp add: object_outline_def toPolygon2d_def polygon_inverseClockwise_def Let_def assms del: err_bind_Inr_iff)
qed

lemma da_ex_iou:
  assumes "pb_pose object0 = pb_pose (da_ex_object x)" and "pb_shape object0 = pb_shape (da_ex_object x)"
    and "pb_pose object1 = pb_pose (da_ex_object y)" and "pb_shape object1 = pb_shape (da_ex_object y)"
  shows "get2dIoU da_ex_lib object0 object1 (1 / 100) = Inr (Fin 1)"
  using da_ex_outline [OF assms(1,2)] da_ex_outline [OF assms(3,4)]
  by (simp add: get2dIoU_def iou_ratio_def getIntersectionArea_def getUnionArea_def getSumArea_def da_ex_lib_def flt_div_def
      del: err_bind_Inr_iff)

lemma matrix_at_single: "matrix_at (param_matrix_new [y]) 0 0 = Inr y"
  using matrix_at_total(1) [of 0 "[y]" 0] by (simp add: int_sqrt_def)

end
