(* ===== verification/Multi_Object_Tracker.thy ===== *)
theory Multi_Object_Tracker
  imports Data_Association
begin

text \<open>
  perception/multi_object_tracker: the node, the base class of its trackers, and the trackers that need no filter.  The
  virtual functions of the trackers are an interface (\<open>tracker_model\<close>): the Kalman filters behind the others are not
  modelled.  Looking up and applying transformations (tf2) gives an argument of the callbacks.  Identifiers
  are left out.
\<close>

section \<open>Trackers\<close>

datatype tracker_kind =
    BicycleTracker | BigVehicleTracker | MultipleVehicleTracker | NormalVehicleTracker | PassThroughTracker
  | PedestrianAndBicycleTracker | PedestrianTracker | UnknownTracker

text \<open>
  The members of a concrete tracker have type \<open>'m\<close>, transformations have type \<open>'x\<close>.  A measurement may set the
  classification, a member of the base class.
\<close>

type_synonym classification = "object_classification list"

record ('m, 'x) tracker_model =
  tm_new :: "tracker_kind \<Rightarrow> time \<Rightarrow> perception_object \<Rightarrow> 'x \<Rightarrow> 'm"
  tm_predict :: "time \<Rightarrow> 'm \<Rightarrow> 'm"
  tm_measure :: "perception_object \<Rightarrow> time \<Rightarrow> 'x \<Rightarrow> classification \<times> 'm \<Rightarrow> classification \<times> 'm"
  tm_object :: "time \<Rightarrow> classification \<Rightarrow> 'm \<Rightarrow> perception_object"

record 'm tracker =
  tr_classification :: classification
  tr_no_measurement_count :: int
  tr_total_no_measurement_count :: int
  tr_total_measurement_count :: int
  tr_last_update_with_measurement_time :: time
  tr_members :: 'm

definition tr_new ::
  "('m, 'x) tracker_model \<Rightarrow> tracker_kind \<Rightarrow> time \<Rightarrow> perception_object \<Rightarrow> 'x \<Rightarrow> 'm tracker" where
  "tr_new model kind time object self_transform =
     \<lparr>tr_classification = pb_classification object, tr_no_measurement_count = 0, tr_total_no_measurement_count = 0,
      tr_total_measurement_count = 1, tr_last_update_with_measurement_time = time,
      tr_members = tm_new model kind time object self_transform\<rparr>"

definition tr_predict :: "('m, 'x) tracker_model \<Rightarrow> time \<Rightarrow> 'm tracker \<Rightarrow> 'm tracker" where
  "tr_predict model time t = t\<lparr>tr_members := tm_predict model time (tr_members t)\<rparr>"

definition tr_updateWithMeasurement ::
  "('m, 'x) tracker_model \<Rightarrow> perception_object \<Rightarrow> time \<Rightarrow> 'x \<Rightarrow> 'm tracker \<Rightarrow> 'm tracker" where
  "tr_updateWithMeasurement model object measurement_time self_transform t =
     (let (classification, members) =
            tm_measure model object measurement_time self_transform (tr_classification t, tr_members t)
      in t\<lparr>tr_no_measurement_count := 0, tr_total_measurement_count := tr_total_measurement_count t + 1,
           tr_last_update_with_measurement_time := measurement_time,
           tr_classification := classification, tr_members := members\<rparr>)"

definition tr_updateWithoutMeasurement :: "'m tracker \<Rightarrow> 'm tracker" where
  "tr_updateWithoutMeasurement t =
     t\<lparr>tr_no_measurement_count := tr_no_measurement_count t + 1,
       tr_total_no_measurement_count := tr_total_no_measurement_count t + 1\<rparr>"

definition tr_getHighestProbLabel :: "'m tracker \<Rightarrow> nat" where
  "tr_getHighestProbLabel t = getHighestProbLabel (tr_classification t)"

definition tr_getElapsedTimeFromLastUpdate :: "time \<Rightarrow> 'm tracker \<Rightarrow> real" where
  "tr_getElapsedTimeFromLastUpdate current_time t = seconds (current_time - tr_last_update_with_measurement_time t)"

definition tr_getTrackedObject :: "('m, 'x) tracker_model \<Rightarrow> time \<Rightarrow> 'm tracker \<Rightarrow> perception_object" where
  "tr_getTrackedObject model time t = tm_object model time (tr_classification t) (tr_members t)"

section \<open>Two concrete trackers\<close>

text \<open>\<open>PassThroughTracker\<close> keeps the last object.\<close>

record pass_through =
  pt_object :: perception_object
  pt_prev_observed_object :: perception_object
  pt_last_update_time :: time

definition pt_new :: "time \<Rightarrow> perception_object \<Rightarrow> 'x \<Rightarrow> pass_through" where
  "pt_new time object self_transform =
     \<lparr>pt_object = object, pt_prev_observed_object = object, pt_last_update_time = time\<rparr>"

definition pt_measure ::
  "perception_object \<Rightarrow> time \<Rightarrow> 'x \<Rightarrow> classification \<times> pass_through \<Rightarrow> classification \<times> pass_through" where
  "pt_measure object time self_transform = (\<lambda>(classification, p).
     let prev = pt_object p; dt = seconds (time - pt_last_update_time p);
         dx = pt_x (pb_pose object) - pt_x (pb_pose prev); dy = pt_y (pb_pose object) - pt_y (pb_pose prev);
         object1 = (if \<not> pb_has_twist object \<and> 1 / 1000000 < dt
                    then object\<lparr>pb_twist_x := std_hypot dx dy / dt\<rparr> else object)
     in (classification, \<lparr>pt_object = object1, pt_prev_observed_object = prev, pt_last_update_time = time\<rparr>))"

definition pt_getTrackedObject :: "time \<Rightarrow> classification \<Rightarrow> pass_through \<Rightarrow> perception_object" where
  "pt_getTrackedObject time classification p =
     (pt_object p)\<lparr>pb_classification := classification, pb_covariance := (0, 0, 0, 0)\<rparr>"

definition pass_through_model :: "(pass_through, 'x) tracker_model" where
  "pass_through_model =
     \<lparr>tm_new = (\<lambda>kind. pt_new), tm_predict = (\<lambda>time p. p), tm_measure = pt_measure, tm_object = pt_getTrackedObject\<rparr>"

text \<open>
  \<open>MultipleVehicleTracker\<close> runs two trackers, each with a classification of its own, and shows the one that its own
  class asks for; \<open>PedestrianAndBicycleTracker\<close> is built in the same way.
\<close>

type_synonym 'm pair_members = "(classification \<times> 'm) \<times> (classification \<times> 'm)"

definition pair_predict :: "('m, 'x) tracker_model \<Rightarrow> time \<Rightarrow> 'm pair_members \<Rightarrow> 'm pair_members" where
  "pair_predict model time = (\<lambda>((c1, m1), (c2, m2)). ((c1, tm_predict model time m1), (c2, tm_predict model time m2)))"

definition pair_measure ::
  "('m, 'x) tracker_model \<Rightarrow> perception_object \<Rightarrow> time \<Rightarrow> 'x \<Rightarrow> classification \<times> 'm pair_members \<Rightarrow>
     classification \<times> 'm pair_members" where
  "pair_measure model object time self_transform = (\<lambda>(classification, (t1, t2)).
     (if getHighestProbLabel (pb_classification object) \<noteq> Label_UNKNOWN then pb_classification object else classification,
      (tm_measure model object time self_transform t1, tm_measure model object time self_transform t2)))"

definition object_default :: perception_object where
  "object_default =
     \<lparr>pb_existence_probability = 0, pb_classification = [],
      pb_pose = \<lparr>pt_x = 0, pt_y = 0, pt_z = 0, po_pitch = 0, po_yaw = 0\<rparr>, pb_covariance = (0, 0, 0, 0),
      pb_has_twist = False, pb_twist_x = 0,
      pb_shape = \<lparr>sh_type = Shape_BOUNDING_BOX, sh_dim_x = 0, sh_dim_y = 0, sh_footprint = []\<rparr>\<rparr>"

definition isLargeVehicleLabel :: "nat \<Rightarrow> bool" where
  "isLargeVehicleLabel label \<longleftrightarrow> label = Label_BUS \<or> label = Label_TRUCK \<or> label = Label_TRAILER"

definition multiple_vehicle_object ::
  "('m, 'x) tracker_model \<Rightarrow> time \<Rightarrow> classification \<Rightarrow> 'm pair_members \<Rightarrow> perception_object" where
  "multiple_vehicle_object model time classification = (\<lambda>((c_normal, normal), (c_big, big)).
     let label = getHighestProbLabel classification;
         object = (if label = Label_CAR then tm_object model time c_normal normal
                   else if isLargeVehicleLabel label then tm_object model time c_big big
                   else object_default)
     in object\<lparr>pb_classification := classification\<rparr>)"

definition pedestrian_and_bicycle_object ::
  "('m, 'x) tracker_model \<Rightarrow> time \<Rightarrow> classification \<Rightarrow> 'm pair_members \<Rightarrow> perception_object" where
  "pedestrian_and_bicycle_object model time classification = (\<lambda>((c_pedestrian, pedestrian), (c_bicycle, bicycle)).
     let label = getHighestProbLabel classification;
         object = (if label = Label_PEDESTRIAN then tm_object model time c_pedestrian pedestrian
                   else if label = Label_BICYCLE \<or> label = Label_MOTORCYCLE then tm_object model time c_bicycle bicycle
                   else object_default)
     in object\<lparr>pb_classification := classification\<rparr>)"

section \<open>The node\<close>

text \<open>
  An iterator of the list may be decremented at the beginning; the list behaves as a circular one then (as it does in
  libstdc++), but the standard leaves it undefined: \<open>mt_before_begin\<close> says that it has happened.
\<close>

record 'm mt_state =
  mt_list_tracker :: "'m tracker list"
  mt_before_begin :: bool

record ('m, 'x) mt_config =
  mc_tracker_map :: "nat \<rightharpoonup> string"
  mc_data_association :: data_association
  mc_enable_delay_compensation :: bool
  mc_model :: "('m, 'x) tracker_model"
  mc_lib :: object_lib
  mc_inverse2 :: covariance_inverse
  mc_solve :: "real list list \<Rightarrow> assignment \<times> assignment"

definition mt_new :: "'m mt_state" where
  "mt_new = \<lparr>mt_list_tracker = [], mt_before_begin = False\<rparr>"

definition mt_tracker_map ::
  "string \<Rightarrow> string \<Rightarrow> string \<Rightarrow> string \<Rightarrow> string \<Rightarrow> string \<Rightarrow> string \<Rightarrow> nat \<rightharpoonup> string" where
  "mt_tracker_map car truck bus trailer pedestrian bicycle motorcycle =
     [Label_CAR \<mapsto> car, Label_TRUCK \<mapsto> truck, Label_BUS \<mapsto> bus, Label_TRAILER \<mapsto> trailer,
      Label_PEDESTRIAN \<mapsto> pedestrian, Label_BICYCLE \<mapsto> bicycle, Label_MOTORCYCLE \<mapsto> motorcycle]"

definition mt_tracker_kind :: "(nat \<rightharpoonup> string) \<Rightarrow> nat \<Rightarrow> tracker_kind" where
  "mt_tracker_kind tracker_map label =
     (case tracker_map label of
        None \<Rightarrow> UnknownTracker
      | Some tracker \<Rightarrow>
          if tracker = ''bicycle_tracker'' then BicycleTracker
          else if tracker = ''big_vehicle_tracker'' then BigVehicleTracker
          else if tracker = ''multi_vehicle_tracker'' then MultipleVehicleTracker
          else if tracker = ''normal_vehicle_tracker'' then NormalVehicleTracker
          else if tracker = ''pass_through_tracker'' then PassThroughTracker
          else if tracker = ''pedestrian_and_bicycle_tracker'' then PedestrianAndBicycleTracker
          else if tracker = ''pedestrian_tracker'' then PedestrianTracker
          else UnknownTracker)"

definition mt_createNewTracker ::
  "('m, 'x) mt_config \<Rightarrow> perception_object \<Rightarrow> time \<Rightarrow> 'x \<Rightarrow> 'm tracker" where
  "mt_createNewTracker cfg object time self_transform =
     tr_new (mc_model cfg) (mt_tracker_kind (mc_tracker_map cfg) (getHighestProbLabel (pb_classification object)))
       time object self_transform"

text \<open>
  Both loops over the list have the trackers passed as their first argument; the second result says whether an iterator
  was decremented at the beginning.
\<close>

definition mt_is_old :: "time \<Rightarrow> 'm tracker \<Rightarrow> bool" where
  "mt_is_old time t \<longleftrightarrow> 1 < tr_getElapsedTimeFromLastUpdate time t"

fun mt_checkTrackerLifeCycle :: "time \<Rightarrow> 'm tracker list \<Rightarrow> 'm tracker list \<Rightarrow> 'm tracker list \<times> bool" where
  "mt_checkTrackerLifeCycle time passed [] = (passed, False)"
| "mt_checkTrackerLifeCycle time passed (itr # rest) =
     (if mt_is_old time itr
      then (let (list_tracker, before_begin) = mt_checkTrackerLifeCycle time passed rest
            in (list_tracker, passed = [] \<or> before_begin))
      else mt_checkTrackerLifeCycle time (passed @ [itr]) rest)"

datatype mt_delete = Delete_none | Delete_tracker1 | Delete_tracker2

text \<open>The thresholds are the single precision values next to 0.1 and 0.001.\<close>

definition mt_min_iou :: real where "mt_min_iou = 13421773 / 134217728"

definition mt_min_iou_for_unknown_object :: real where "mt_min_iou_for_unknown_object = 8589935 / 8589934592"

definition mt_collision ::
  "('m, 'x) mt_config \<Rightarrow> time \<Rightarrow> 'm tracker \<Rightarrow> 'm tracker \<Rightarrow> perception_error + mt_delete" where
  "mt_collision cfg time itr1 itr2 =
     (let object1 = tr_getTrackedObject (mc_model cfg) time itr1; object2 = tr_getTrackedObject (mc_model cfg) time itr2;
          d = std_hypot (pt_x (pb_pose object1) - pt_x (pb_pose object2)) (pt_y (pb_pose object1) - pt_y (pb_pose object2))
      in if 5 < d then Inr Delete_none
         else err_bind (get2dIoU (mc_lib cfg) object1 object2 (1 / 100)) (\<lambda>iou.
           let label1 = tr_getHighestProbLabel itr1; label2 = tr_getHighestProbLabel itr2;
               by_count = (if tr_total_measurement_count itr1 < tr_total_measurement_count itr2
                           then Delete_tracker1 else Delete_tracker2)
           in Inr
                (if label1 = Label_UNKNOWN \<or> label2 = Label_UNKNOWN then
                   if flt_less (Fin mt_min_iou_for_unknown_object) iou then
                     if label1 = Label_UNKNOWN \<and> label2 = Label_UNKNOWN then by_count
                     else if label1 = Label_UNKNOWN then Delete_tracker1
                     else Delete_tracker2
                   else Delete_none
                 else if flt_less (Fin mt_min_iou) iou then by_count
                 else Delete_none)))"

text \<open>The inner loop: whether the first tracker is deleted, and the trackers behind it.\<close>

fun mt_sanitize_against ::
  "('m, 'x) mt_config \<Rightarrow> time \<Rightarrow> 'm tracker \<Rightarrow> 'm tracker list \<Rightarrow> 'm tracker list \<Rightarrow>
     perception_error + bool \<times> 'm tracker list" where
  "mt_sanitize_against cfg time itr1 kept [] = Inr (False, kept)"
| "mt_sanitize_against cfg time itr1 kept (itr2 # rest) =
     err_bind (mt_collision cfg time itr1 itr2) (\<lambda>deletion.
       case deletion of
         Delete_none \<Rightarrow> mt_sanitize_against cfg time itr1 (kept @ [itr2]) rest
       | Delete_tracker1 \<Rightarrow> Inr (True, kept @ itr2 # rest)
       | Delete_tracker2 \<Rightarrow> mt_sanitize_against cfg time itr1 kept rest)"

lemma mt_sanitize_against_length:
  "mt_sanitize_against cfg time itr1 kept rest = Inr (deleted, kept') \<Longrightarrow> length kept' \<le> length kept + length rest"
proof (induction rest arbitrary: kept)
  case (Cons t rest)
  then obtain deletion where "mt_collision cfg time itr1 t = Inr deletion" by auto
  with Cons show ?case by (cases deletion) fastforce+
qed simp

function mt_sanitizeTracker ::
  "('m, 'x) mt_config \<Rightarrow> time \<Rightarrow> 'm tracker list \<Rightarrow> 'm tracker list \<Rightarrow>
     perception_error + 'm tracker list \<times> bool" where
  "mt_sanitizeTracker cfg time passed [] = Inr (passed, False)"
| "mt_sanitizeTracker cfg time passed (itr1 # rest) =
     (case mt_sanitize_against cfg time itr1 [] rest of
        Inl e \<Rightarrow> Inl e
      | Inr (True, rest1) \<Rightarrow>
          err_bind (mt_sanitizeTracker cfg time passed rest1) (\<lambda>(list_tracker, before_begin).
            Inr (list_tracker, passed = [] \<or> before_begin))
      | Inr (False, rest1) \<Rightarrow> mt_sanitizeTracker cfg time (passed @ [itr1]) rest1)"
  by pat_completeness auto
termination
  by (relation "measure (\<lambda>(cfg, time, passed, rest). length rest)")
    (auto dest!: mt_sanitize_against_length)

definition mt_shouldTrackerPublish :: "'m tracker \<Rightarrow> bool" where
  "mt_shouldTrackerPublish t \<longleftrightarrow> \<not> tr_total_measurement_count t < 3"

text \<open>The messages published.\<close>

definition mt_publish ::
  "('m, 'x) mt_config \<Rightarrow> time \<Rightarrow> nat \<Rightarrow> 'm mt_state \<Rightarrow> perception_object list list" where
  "mt_publish cfg time subscriber_count s =
     (if subscriber_count < 1 then []
      else [map (tr_getTrackedObject (mc_model cfg) time) (filter mt_shouldTrackerPublish (mt_list_tracker s))])"

definition mt_scores ::
  "('m, 'x) mt_config \<Rightarrow> time \<Rightarrow> perception_object list \<Rightarrow> 'm tracker list \<Rightarrow> perception_error + real list list" where
  "mt_scores cfg time objects trackers =
     score_matrix (\<lambda>t. tracker_score (mc_data_association cfg) (mc_lib cfg) (mc_inverse2 cfg)
       (tr_getHighestProbLabel t) (tr_getTrackedObject (mc_model cfg) time t)) trackers objects"

definition mt_update ::
  "('m, 'x) mt_config \<Rightarrow> time \<Rightarrow> 'x \<Rightarrow> perception_object list \<Rightarrow> assignment \<Rightarrow> nat \<times> 'm tracker \<Rightarrow>
     perception_error + 'm tracker" where
  "mt_update cfg time self_transform objects direct = (\<lambda>(tracker_idx, t).
     case direct tracker_idx of
       Some j \<Rightarrow>
         if j < length objects
         then Inr (tr_updateWithMeasurement (mc_model cfg) (objects ! j) time self_transform t)
         else Inl PE_OutOfRange
     | None \<Rightarrow> Inr (tr_updateWithoutMeasurement t))"

definition mt_clean ::
  "('m, 'x) mt_config \<Rightarrow> time \<Rightarrow> 'm mt_state \<Rightarrow> perception_error + 'm mt_state" where
  "mt_clean cfg time s =
     (let (alive, before_begin1) = mt_checkTrackerLifeCycle time [] (mt_list_tracker s)
      in err_bind (mt_sanitizeTracker cfg time [] alive) (\<lambda>(sane, before_begin2).
           Inr \<lparr>mt_list_tracker = sane, mt_before_begin = mt_before_begin s \<or> before_begin1 \<or> before_begin2\<rparr>))"

definition mt_onMeasurement ::
  "('m, 'x) mt_config \<Rightarrow> 'x option \<Rightarrow> perception_object list option \<Rightarrow> time \<Rightarrow> nat \<Rightarrow> 'm mt_state \<Rightarrow>
     perception_error + 'm mt_state \<times> perception_object list list" where
  "mt_onMeasurement cfg self_transform transformed_objects measurement_time subscriber_count s =
     (case (self_transform, transformed_objects) of
        (Some self, Some objects) \<Rightarrow>
          let predicted = map (tr_predict (mc_model cfg) measurement_time) (mt_list_tracker s)
          in err_bind (mt_scores cfg measurement_time objects predicted) (\<lambda>src.
             let (direct, rev_assignment) = da_assign (mc_solve cfg) src
             in err_bind (err_map (mt_update cfg measurement_time self objects direct) (List.enumerate 0 predicted)) (\<lambda>updated.
                err_bind (mt_clean cfg measurement_time (s\<lparr>mt_list_tracker := updated\<rparr>)) (\<lambda>s1.
                let new_trackers = map (\<lambda>i. mt_createNewTracker cfg (objects ! i) measurement_time self)
                      (filter (\<lambda>i. rev_assignment i = None) [0..<length objects]);
                    s2 = s1\<lparr>mt_list_tracker := mt_list_tracker s1 @ new_trackers\<rparr>
                in Inr (s2, if mc_enable_delay_compensation cfg then []
                            else mt_publish cfg measurement_time subscriber_count s2))))
      | _ \<Rightarrow> Inr (s, []))"

definition mt_onTimer ::
  "('m, 'x) mt_config \<Rightarrow> 'x option \<Rightarrow> time \<Rightarrow> nat \<Rightarrow> 'm mt_state \<Rightarrow>
     perception_error + 'm mt_state \<times> perception_object list list" where
  "mt_onTimer cfg self_transform current_time subscriber_count s =
     (case self_transform of
        None \<Rightarrow> Inr (s, [])
      | Some _ \<Rightarrow> err_bind (mt_clean cfg current_time s) (\<lambda>s1. Inr (s1, mt_publish cfg current_time subscriber_count s1)))"

datatype 'x mt_event =
    MT_Measurement "'x option" "perception_object list option" time nat
  | MT_Timer "'x option" time nat

fun mt_event_time :: "'x mt_event \<Rightarrow> time" where
  "mt_event_time (MT_Measurement _ _ t _) = t"
| "mt_event_time (MT_Timer _ t _) = t"

fun mt_handle ::
  "('m, 'x) mt_config \<Rightarrow> 'x mt_event \<Rightarrow> 'm mt_state \<Rightarrow> perception_error + 'm mt_state \<times> perception_object list list" where
  "mt_handle cfg (MT_Measurement tf objects t n) s = mt_onMeasurement cfg tf objects t n s"
| "mt_handle cfg (MT_Timer tf t n) s = mt_onTimer cfg tf t n s"


section \<open>The life cycle of the trackers\<close>

lemma mt_checkTrackerLifeCycle_passed:
  "mt_checkTrackerLifeCycle time passed ts =
     (passed @ filter (\<lambda>t. \<not> mt_is_old time t) ts, passed = [] \<and> ts \<noteq> [] \<and> mt_is_old time (hd ts))"
proof (induction ts arbitrary: passed)
  case (Cons t ts)
  then show ?case by (cases "passed = []") auto
qed simp

text \<open>Two trackers that may stay together: far from each other, or without an overlap that counts.\<close>

definition mt_apart :: "('m, 'x) mt_config \<Rightarrow> time \<Rightarrow> 'm tracker \<Rightarrow> 'm tracker \<Rightarrow> bool" where
  "mt_apart cfg time t1 t2 \<longleftrightarrow> mt_collision cfg time t1 t2 = Inr Delete_none"

lemma mt_sanitize_against_ok:
  assumes "mt_sanitize_against cfg time t1 kept rest = Inr (deleted, rest1)" and "\<forall>t \<in> set kept. mt_apart cfg time t1 t"
  shows "set rest1 \<subseteq> set kept \<union> set rest" and "\<not> deleted \<Longrightarrow> \<forall>t \<in> set rest1. mt_apart cfg time t1 t"
proof -
  have "set rest1 \<subseteq> set kept \<union> set rest \<and> (\<not> deleted \<longrightarrow> (\<forall>t \<in> set rest1. mt_apart cfg time t1 t))"
    using assms
  proof (induction rest arbitrary: kept)
    case Nil
    then show ?case by simp
  next
    case (Cons t rest)
    then obtain deletion where d: "mt_collision cfg time t1 t = Inr deletion" by auto
    show ?case
    proof (cases deletion)
      case Delete_none
      with Cons.prems d have "mt_sanitize_against cfg time t1 (kept @ [t]) rest = Inr (deleted, rest1)"
        "\<forall>t' \<in> set (kept @ [t]). mt_apart cfg time t1 t'" by (auto simp: mt_apart_def)
      from Cons.IH [OF this] show ?thesis by auto
    next
      case Delete_tracker1
      with Cons.prems d show ?thesis by auto
    next
      case Delete_tracker2
      with Cons.prems(1) d have "mt_sanitize_against cfg time t1 kept rest = Inr (deleted, rest1)" by simp
      from Cons.IH [OF this Cons.prems(2)] show ?thesis by auto
    qed
  qed
  then show "set rest1 \<subseteq> set kept \<union> set rest" and "\<not> deleted \<Longrightarrow> \<forall>t \<in> set rest1. mt_apart cfg time t1 t" by blast+
qed

lemma mt_sanitizeTracker_ok:
  assumes "mt_sanitizeTracker cfg time passed rest = Inr (ts, before_begin)"
    and "sorted_wrt (mt_apart cfg time) passed" and "\<forall>p \<in> set passed. \<forall>t \<in> set rest. mt_apart cfg time p t"
  shows "set ts \<subseteq> set passed \<union> set rest \<and> sorted_wrt (mt_apart cfg time) ts"
  using assms
proof (induction cfg time passed rest arbitrary: before_begin rule: mt_sanitizeTracker.induct)
  case (1 cfg time passed)
  then show ?case by simp
next
  case (2 cfg time passed t1 rest)
  from "2.prems"(1) obtain deleted rest1 where inner: "mt_sanitize_against cfg time t1 [] rest = Inr (deleted, rest1)"
    by (cases "mt_sanitize_against cfg time t1 [] rest") auto
  note ok = mt_sanitize_against_ok [OF inner]
  have sub: "set rest1 \<subseteq> set rest" using ok(1) by simp
  show ?case
  proof (cases deleted)
    case True
    then obtain b where "mt_sanitizeTracker cfg time passed rest1 = Inr (ts, b)" using "2.prems"(1) inner by auto
    moreover have "\<forall>p \<in> set passed. \<forall>t \<in> set rest1. mt_apart cfg time p t" using "2.prems"(3) sub by auto
    ultimately show ?thesis using "2.IH"(1) [OF inner refl, of b] True "2.prems"(2) sub by auto
  next
    case False
    then have "mt_sanitizeTracker cfg time (passed @ [t1]) rest1 = Inr (ts, before_begin)" using "2.prems"(1) inner by simp
    moreover have "sorted_wrt (mt_apart cfg time) (passed @ [t1])"
      using "2.prems"(2,3) by (simp add: sorted_wrt_append)
    moreover have "\<forall>p \<in> set (passed @ [t1]). \<forall>t \<in> set rest1. mt_apart cfg time p t"
      using "2.prems"(3) sub ok(2) False by auto
    ultimately have "set ts \<subseteq> set (passed @ [t1]) \<union> set rest1 \<and> sorted_wrt (mt_apart cfg time) ts"
      using "2.IH"(2) [OF inner refl, of before_begin] False by blast
    with sub show ?thesis by auto
  qed
qed

lemma mt_clean_ok:
  assumes "mt_clean cfg time s = Inr s1"
  shows "set (mt_list_tracker s1) \<subseteq> {t \<in> set (mt_list_tracker s). \<not> mt_is_old time t}"
    and "sorted_wrt (mt_apart cfg time) (mt_list_tracker s1)"
proof -
  obtain b where "mt_sanitizeTracker cfg time [] (filter (\<lambda>t. \<not> mt_is_old time t) (mt_list_tracker s)) =
      Inr (mt_list_tracker s1, b)"
    using assms by (auto simp: mt_clean_def mt_checkTrackerLifeCycle_passed)
  from mt_sanitizeTracker_ok [OF this] show
    "set (mt_list_tracker s1) \<subseteq> {t \<in> set (mt_list_tracker s). \<not> mt_is_old time t}"
    "sorted_wrt (mt_apart cfg time) (mt_list_tracker s1)" by auto
qed

lemma mt_publish_in: "objects \<in> set (mt_publish cfg time n s) \<Longrightarrow>
    objects = map (tr_getTrackedObject (mc_model cfg) time) (filter mt_shouldTrackerPublish (mt_list_tracker s))"
  by (auto simp: mt_publish_def split: if_splits)

lemma new_tracker_silent: "filter mt_shouldTrackerPublish (map (\<lambda>i. mt_createNewTracker cfg (f i) time tf) is) = []"
  by (simp add: filter_empty_conv mt_shouldTrackerPublish_def mt_createNewTracker_def tr_new_def)

lemma mt_clean_published:
  assumes "mt_clean cfg time s = Inr s1" and "filter mt_shouldTrackerPublish new = []"
  defines "ts \<equiv> filter mt_shouldTrackerPublish (mt_list_tracker s1 @ new)"
  shows "set ts \<subseteq> set (mt_list_tracker s1) \<and> sorted_wrt (mt_apart cfg time) ts \<and>
    (\<forall>t \<in> set ts. \<not> mt_is_old time t \<and> 3 \<le> tr_total_measurement_count t)"
  using mt_clean_ok [OF assms(1)] sorted_wrt_filter [of "mt_apart cfg time" "mt_list_tracker s1" mt_shouldTrackerPublish]
  by (auto simp: ts_def assms(2) mt_shouldTrackerPublish_def not_less)

lemma mt_onMeasurement_steps:
  assumes "mt_onMeasurement cfg (Some self) (Some objects) time n s = Inr (s', out)"
  obtains src direct rev_assignment updated s1 where
    "mt_scores cfg time objects (map (tr_predict (mc_model cfg) time) (mt_list_tracker s)) = Inr src"
    "da_assign (mc_solve cfg) src = (direct, rev_assignment)"
    "err_map (mt_update cfg time self objects direct)
       (List.enumerate 0 (map (tr_predict (mc_model cfg) time) (mt_list_tracker s))) = Inr updated"
    "mt_clean cfg time (s\<lparr>mt_list_tracker := updated\<rparr>) = Inr s1"
    "s' = s1\<lparr>mt_list_tracker := mt_list_tracker s1 @ map (\<lambda>i. mt_createNewTracker cfg (objects ! i) time self)
       (filter (\<lambda>i. rev_assignment i = None) [0..<length objects])\<rparr>"
    "out = (if mc_enable_delay_compensation cfg then [] else mt_publish cfg time n s')"
proof -
  obtain src where src: "mt_scores cfg time objects (map (tr_predict (mc_model cfg) time) (mt_list_tracker s)) = Inr src"
    using assms by (auto simp: mt_onMeasurement_def Let_def)
  obtain direct r where dr: "da_assign (mc_solve cfg) src = (direct, r)" by fastforce
  show thesis
    using assms that [OF src dr] by (auto simp: mt_onMeasurement_def Let_def src dr)
qed

text \<open>C23: whatever a callback of the tracker node publishes shows trackers that were measured at least three times and
  within the last second, and no two of them overlap: two objects at most 5 m apart have an intersection over union of at
  most 0.1, or of at most 0.001 if one of them is of unknown class.  This holds for every state and every
  implementation of the trackers, and also when the message comes right after new trackers were made.\<close>

theorem mt_published_apart:
  assumes "mt_handle cfg event s = Inr (s', out)" and "objects \<in> set out"
  shows "\<exists>ts. objects = map (tr_getTrackedObject (mc_model cfg) (mt_event_time event)) ts \<and>
    set ts \<subseteq> set (mt_list_tracker s') \<and>
    (\<forall>t \<in> set ts. tr_getElapsedTimeFromLastUpdate (mt_event_time event) t \<le> 1 \<and> 3 \<le> tr_total_measurement_count t) \<and>
    sorted_wrt (\<lambda>t1 t2.
      let object1 = tr_getTrackedObject (mc_model cfg) (mt_event_time event) t1;
          object2 = tr_getTrackedObject (mc_model cfg) (mt_event_time event) t2
      in 5 < calcDistance2d (pb_pose object1) (pb_pose object2) \<or>
         (\<exists>iou. get2dIoU (mc_lib cfg) object1 object2 (1 / 100) = Inr iou \<and>
            \<not> flt_less (Fin (if tr_getHighestProbLabel t1 = Label_UNKNOWN \<or> tr_getHighestProbLabel t2 = Label_UNKNOWN
                       then mt_min_iou_for_unknown_object else mt_min_iou)) iou)) ts"
proof -
  let ?time = "mt_event_time event"
  obtain s0 s1 new where clean: "mt_clean cfg ?time s0 = Inr s1" and new: "filter mt_shouldTrackerPublish new = []"
    and s': "mt_list_tracker s' = mt_list_tracker s1 @ new"
    and out: "objects \<in> set (mt_publish cfg ?time (case event of MT_Measurement _ _ _ n \<Rightarrow> n | MT_Timer _ _ n \<Rightarrow> n) s')"
  proof (cases event)
    case (MT_Measurement tf objs t n)
    with assms obtain self objs1 where some: "tf = Some self" "objs = Some objs1"
      by (cases tf; cases objs) (auto simp: mt_onMeasurement_def)
    with MT_Measurement assms(1) have run: "mt_onMeasurement cfg (Some self) (Some objs1) t n s = Inr (s', out)" by simp
    show ?thesis
      by (rule mt_onMeasurement_steps [OF run], rule that [OF _ new_tracker_silent])
        (use assms(2) MT_Measurement in \<open>auto split: if_splits\<close>)
  next
    case (MT_Timer tf t n)
    with assms show ?thesis
      by (auto simp: mt_onTimer_def split: option.splits intro!: that [where new = "[]"])
  qed
  define ts where "ts = filter mt_shouldTrackerPublish (mt_list_tracker s')"
  have objects: "objects = map (tr_getTrackedObject (mc_model cfg) ?time) ts"
    using mt_publish_in [OF out] by (simp add: ts_def)
  have ok: "set ts \<subseteq> set (mt_list_tracker s1)" "sorted_wrt (mt_apart cfg ?time) ts"
    "\<forall>t \<in> set ts. \<not> mt_is_old ?time t \<and> 3 \<le> tr_total_measurement_count t"
    using mt_clean_published [OF clean new] by (simp_all add: ts_def s')
  have apart: "5 < calcDistance2d (pb_pose (tr_getTrackedObject (mc_model cfg) ?time t1))
        (pb_pose (tr_getTrackedObject (mc_model cfg) ?time t2)) \<or>
      (\<exists>iou. get2dIoU (mc_lib cfg) (tr_getTrackedObject (mc_model cfg) ?time t1)
            (tr_getTrackedObject (mc_model cfg) ?time t2) (1 / 100) = Inr iou \<and>
         \<not> flt_less (Fin (if tr_getHighestProbLabel t1 = Label_UNKNOWN \<or> tr_getHighestProbLabel t2 = Label_UNKNOWN
                    then mt_min_iou_for_unknown_object else mt_min_iou)) iou)"
    if "mt_apart cfg ?time t1 t2" for t1 t2
    using that by (auto simp: mt_apart_def mt_collision_def calcDistance2d_def Let_def split: if_splits)
  show ?thesis
    using objects ok s' by (intro exI [of _ ts] conjI sorted_wrt_mono_rel [OF _ ok(2)])
      (auto simp: mt_is_old_def not_less Let_def dest: apart)
qed

section \<open>Every measurement is used once\<close>

text \<open>C24: whatever solver with the contract \<open>gnn_solver\<close> is used, a measurement message is used up exactly: every tracker
  is updated with the object assigned to it, or without measurement; no object is assigned twice; an assigned object has
  passed every gate of its tracker; and every object that is not assigned, and no other, makes a new tracker behind
  those that remain.\<close>

theorem mt_measurement_used_once:
  assumes "gnn_solver (mc_solve cfg)"
    and "mt_onMeasurement cfg (Some self) (Some objects) time n s = Inr (s', out)"
  defines "trackers \<equiv> map (tr_predict (mc_model cfg) time) (mt_list_tracker s)"
  shows "\<exists>direct updated kept.
    length updated = length trackers \<and>
    (\<forall>k < length trackers. updated ! k =
       (case direct k of
          None \<Rightarrow> tr_updateWithoutMeasurement (trackers ! k)
        | Some j \<Rightarrow> tr_updateWithMeasurement (mc_model cfg) (objects ! j) time self (trackers ! k))) \<and>
    inj_on direct (dom direct) \<and>
    (\<forall>k j. direct k = Some j \<longrightarrow> k < length trackers \<and> j < length objects \<and>
       gates_passed (mc_data_association cfg) (mc_lib cfg) (mc_inverse2 cfg) (tr_getHighestProbLabel (trackers ! k))
         (tr_getTrackedObject (mc_model cfg) time (trackers ! k)) (objects ! j)) \<and>
    set kept \<subseteq> set updated \<and>
    mt_list_tracker s' = kept @ map (\<lambda>j. mt_createNewTracker cfg (objects ! j) time self)
      (filter (\<lambda>j. j \<notin> ran direct) [0..<length objects])"
proof -
  from assms(2) obtain src direct r updated s1 where
    src: "mt_scores cfg time objects trackers = Inr src" and dr: "da_assign (mc_solve cfg) src = (direct, r)"
    and updated: "err_map (mt_update cfg time self objects direct) (List.enumerate 0 trackers) = Inr updated"
    and clean: "mt_clean cfg time (s\<lparr>mt_list_tracker := updated\<rparr>) = Inr s1"
    and s': "s' = s1\<lparr>mt_list_tracker := mt_list_tracker s1 @ map (\<lambda>i. mt_createNewTracker cfg (objects ! i) time self)
       (filter (\<lambda>i. r i = None) [0..<length objects])\<rparr>"
    unfolding trackers_def by (rule mt_onMeasurement_steps)
  have scores: "ssp_scores src"
    by (rule score_matrix_scores [OF src [unfolded mt_scores_def]]) (simp add: tracker_score_gates)
  note pairs = gnn_solver.assign_pairs [OF assms(1) scores dr]
  note nth = score_matrix_nth [OF src [unfolded mt_scores_def]]
  have pair: "k < length trackers \<and> j < length objects \<and>
      gates_passed (mc_data_association cfg) (mc_lib cfg) (mc_inverse2 cfg) (tr_getHighestProbLabel (trackers ! k))
        (tr_getTrackedObject (mc_model cfg) time (trackers ! k)) (objects ! j)" if "direct k = Some j" for k j
  proof -
    have k: "k < length trackers" and j: "j < length (src ! 0)" and score: "score_threshold \<le> src ! k ! j"
      using pairs(2) [OF that] nth(1) by simp_all
    have "0 < length trackers" using k by linarith
    then have j': "j < length objects" using j nth(2) by simp
    have "src ! k ! j \<noteq> 0" using score by (auto simp: score_threshold_def)
    with tracker_score_gates(2) [OF nth(3) [OF k j']] k j' show ?thesis by blast
  qed
  have unassigned: "r j = None \<longleftrightarrow> j \<notin> ran direct" for j
  proof -
    have "r j = None \<longleftrightarrow> (\<forall>k. r j \<noteq> Some k)" by (cases "r j") auto
    then show ?thesis using pairs(1) by (auto simp: ran_def)
  qed
  have inj: "inj_on direct (dom direct)"
    using pairs(1) unfolding inj_on_def by (metis domD option.inject)
  have all: "list_all2 (\<lambda>x y. mt_update cfg time self objects direct x = Inr y) (List.enumerate 0 trackers) updated"
    using updated by (simp add: err_map_Inr_iff)
  have len: "length updated = length trackers" using list_all2_lengthD [OF all] by simp
  have upd: "updated ! k =
       (case direct k of
          None \<Rightarrow> tr_updateWithoutMeasurement (trackers ! k)
        | Some j \<Rightarrow> tr_updateWithMeasurement (mc_model cfg) (objects ! j) time self (trackers ! k))"
    if "k < length trackers" for k
    using list_all2_nthD [OF all, of k] that
    by (auto simp: nth_enumerate_eq mt_update_def split: option.splits if_splits)
  have "set (mt_list_tracker s1) \<subseteq> set updated" using mt_clean_ok(1) [OF clean] by auto
  then show ?thesis
    using len upd inj pair s' by (intro exI [of _ direct] exI [of _ updated] exI [of _ "mt_list_tracker s1"])
      (simp add: unassigned)
qed

text \<open>C25: the life cycle check keeps exactly the trackers updated with a measurement in the last second, in their order; it
  decrements an iterator at the beginning of the list, which the standard leaves undefined, if and only if the first
  tracker is too old.\<close>

theorem mt_life_cycle:
  "mt_checkTrackerLifeCycle time [] ts =
     (filter (\<lambda>t. tr_getElapsedTimeFromLastUpdate time t \<le> 1) ts,
      ts \<noteq> [] \<and> 1 < tr_getElapsedTimeFromLastUpdate time (hd ts))"
  by (simp add: mt_checkTrackerLifeCycle_passed mt_is_old_def not_less)

section \<open>An example\<close>

definition mt_ex_cfg :: "(pass_through, unit) mt_config" where
  "mt_ex_cfg =
     \<lparr>mc_tracker_map = Map.empty,
      mc_data_association = da_new [1] [4] [100] [0] [4] [- 1],
      mc_enable_delay_compensation = False, mc_model = pass_through_model, mc_lib = da_ex_lib,
      mc_inverse2 = (\<lambda>c. (NaN, NaN, NaN, NaN)), mc_solve = da_ex_solve\<rparr>"

definition mt_ex_tracker :: "real \<Rightarrow> int \<Rightarrow> pass_through tracker" where
  "mt_ex_tracker x count =
     (tr_new pass_through_model UnknownTracker 0 (da_ex_object x) ())\<lparr>tr_total_measurement_count := count\<rparr>"

abbreviation mt_ex_model :: "(pass_through, unit) tracker_model" where
  "mt_ex_model \<equiv> pass_through_model"

lemma mt_ex_shown [simp]:
  "pb_pose (tr_getTrackedObject mt_ex_model time (mt_ex_tracker x c)) = pb_pose (da_ex_object x)"
  "pb_shape (tr_getTrackedObject mt_ex_model time (mt_ex_tracker x c)) = pb_shape (da_ex_object x)"
  "tr_getHighestProbLabel (mt_ex_tracker x c) = 0"
  "tr_total_measurement_count (mt_ex_tracker x c) = c"
  "getHighestProbLabel (pb_classification (da_ex_object x)) = 0"
  by (simp_all add: tr_getTrackedObject_def pass_through_model_def pt_getTrackedObject_def mt_ex_tracker_def tr_new_def
      pt_new_def tr_getHighestProbLabel_def getHighestProbLabel_def da_ex_object_def)

lemma mt_ex_cfg_simps [simp]:
  "mc_model mt_ex_cfg = mt_ex_model" "mc_lib mt_ex_cfg = da_ex_lib" "mc_solve mt_ex_cfg = da_ex_solve"
  "mc_enable_delay_compensation mt_ex_cfg = False" "mc_inverse2 mt_ex_cfg c = (NaN, NaN, NaN, NaN)"
  "mc_data_association mt_ex_cfg = da_new [1] [4] [100] [0] [4] [- 1]"
  by (simp_all add: mt_ex_cfg_def)

text \<open>Of two overlapping trackers the one measured more often is published.\<close>

theorem mt_published_apart_witness:
  "\<exists>s' ts. mt_handle mt_ex_cfg (MT_Timer (Some ()) 0 1) \<lparr>mt_list_tracker = [mt_ex_tracker 0 3, mt_ex_tracker 1 4], mt_before_begin = False\<rparr> =
      Inr (s', [map (tr_getTrackedObject mt_ex_model 0) ts]) \<and>
    set ts \<subseteq> set (mt_list_tracker s') \<and> s' = \<lparr>mt_list_tracker = [mt_ex_tracker 1 4], mt_before_begin = True\<rparr>"
proof -
  let ?t0 = "mt_ex_tracker 0 3" and ?t1 = "mt_ex_tracker 1 4"
  have "get2dIoU da_ex_lib (tr_getTrackedObject mt_ex_model 0 ?t0) (tr_getTrackedObject mt_ex_model 0 ?t1) (1 / 100) =
      Inr (Fin 1)" by (rule da_ex_iou [of _ 0 _ 1]) simp_all
  then have collision: "mt_collision mt_ex_cfg 0 ?t0 ?t1 = Inr Delete_tracker1"
    by (simp add: mt_collision_def std_hypot_def mt_min_iou_for_unknown_object_def Let_def da_ex_object_def
        del: err_bind_Inr_iff)
  have old: "\<not> mt_is_old 0 (mt_ex_tracker x c)" for x c
    by (simp add: mt_is_old_def tr_getElapsedTimeFromLastUpdate_def mt_ex_tracker_def tr_new_def)
  have run: "mt_handle mt_ex_cfg (MT_Timer (Some ()) 0 1) \<lparr>mt_list_tracker = [?t0, ?t1], mt_before_begin = False\<rparr> =
      Inr (\<lparr>mt_list_tracker = [?t1], mt_before_begin = True\<rparr>, [map (tr_getTrackedObject mt_ex_model 0) [?t1]])"
    by (simp add: mt_onTimer_def mt_clean_def old collision mt_publish_def mt_shouldTrackerPublish_def del: err_bind_Inr_iff)
  have "map (tr_getTrackedObject mt_ex_model 0) [?t1] \<in> set [map (tr_getTrackedObject mt_ex_model 0) [?t1]]" by simp
  from mt_published_apart [OF run this] have "\<exists>ts. map (tr_getTrackedObject mt_ex_model 0) [?t1] =
      map (tr_getTrackedObject (mc_model mt_ex_cfg) (mt_event_time (MT_Timer (Some ()) 0 1))) ts \<and>
    set ts \<subseteq> set (mt_list_tracker \<lparr>mt_list_tracker = [?t1], mt_before_begin = True\<rparr>)"
    by (elim exE conjE, intro exI conjI)
  then obtain ts where ts: "map (tr_getTrackedObject mt_ex_model 0) [?t1] = map (tr_getTrackedObject mt_ex_model 0) ts"
    "set ts \<subseteq> set (mt_list_tracker \<lparr>mt_list_tracker = [?t1], mt_before_begin = True\<rparr>)"
    unfolding mt_ex_cfg_simps mt_event_time.simps by blast
  show ?thesis using run ts(2) unfolding ts(1) by blast
qed

lemma mt_ex_score:
  assumes "0 \<le> x"
  shows "tracker_score (da_new [1] [4] [100] [0] [4] [- 1]) da_ex_lib (\<lambda>c. (NaN, NaN, NaN, NaN)) 0
      (tr_getTrackedObject mt_ex_model time (mt_ex_tracker 0 c)) (da_ex_object x) =
    (if 4 < x then Inr 0 else distance_score 4 x)"
proof -
  let ?da = "da_new [1] [4] [100] [0] [4] [- 1]"
  let ?shown = "tr_getTrackedObject mt_ex_model time (mt_ex_tracker 0 c)"
  have matrices: "matrix_at (da_can_assign_matrix ?da) 0 0 = Inr 1" "matrix_at (da_max_dist_matrix ?da) 0 0 = Inr 4"
    "matrix_at (da_max_area_matrix ?da) 0 0 = Inr 100" "matrix_at (da_min_area_matrix ?da) 0 0 = Inr 0"
    "matrix_at (da_max_rad_matrix ?da) 0 0 = Inr 4" "matrix_at (da_min_iou_matrix ?da) 0 0 = Inr (- 1)"
    by (simp_all add: da_new_def matrix_at_single)
  have d: "calcDistance2d (pb_pose (da_ex_object x)) (pb_pose (da_ex_object 0)) = x"
    using assms by (simp add: calcDistance2d_def std_hypot_def da_ex_object_def)
  have area: "area_gate ?da 0 0 (pb_shape (da_ex_object x)) = Inr True"
    by (simp add: area_gate_def matrices getArea_def getRectangleArea_def da_ex_object_def del: err_bind_Inr_iff)
  have angle: "angle_gate ?da 0 0 y z = Inr True" for y z
    using pi_less_4 by (simp add: angle_gate_def matrices Let_def del: err_bind_Inr_iff)
  have gap: "mahalanobis_gate (getMahalanobisDistance (\<lambda>c. (NaN, NaN, NaN, NaN)) p q c)" for p q c
    by (simp add: mahalanobis_gate_def getMahalanobisDistance_def Let_def)
  have "get2dIoU da_ex_lib (da_ex_object x) ?shown (1 / 100) = Inr (Fin 1)" by (rule da_ex_iou [of _ x _ 0]) simp_all
  then have iou: "iou_gate ?da da_ex_lib 0 0 (da_ex_object x) ?shown = Inr True"
    by (simp add: iou_gate_def matrices del: err_bind_Inr_iff)
  show ?thesis
    by (simp add: tracker_score_def matrices d dist_gate_def err_and_def area angle gap iou Let_def del: err_bind_Inr_iff)
qed

text \<open>An object near the tracker updates it, one far away makes a new tracker.\<close>

theorem mt_measurement_used_once_witness:
  "\<exists>s' out (direct :: assignment) kept.
    mt_onMeasurement mt_ex_cfg (Some ()) (Some [da_ex_object 1, da_ex_object 50]) 0 1
      \<lparr>mt_list_tracker = [mt_ex_tracker 0 1], mt_before_begin = False\<rparr> = Inr (s', out) \<and>
    inj_on direct (dom direct) \<and>
    mt_list_tracker s' = kept @ map (\<lambda>j. mt_createNewTracker mt_ex_cfg ([da_ex_object 1, da_ex_object 50] ! j) 0 ())
      (filter (\<lambda>j. j \<notin> ran direct) [0..<2]) \<and>
    length (mt_list_tracker s') = 2"
proof -
  let ?s = "\<lparr>mt_list_tracker = [mt_ex_tracker 0 1], mt_before_begin = False\<rparr>"
  let ?objects = "[da_ex_object 1, da_ex_object 50]"
  define updated where "updated = tr_updateWithMeasurement mt_ex_model (da_ex_object 1) 0 () (mt_ex_tracker 0 1)"
  have predicted: "tr_predict mt_ex_model 0 (mt_ex_tracker 0 1) = mt_ex_tracker 0 1"
    by (simp add: tr_predict_def pass_through_model_def)
  have "distance_score 4 1 = Inr (3 / 4)" by (simp add: distance_score_def score_threshold_def Let_def)
  then have scores: "mt_scores mt_ex_cfg 0 ?objects [mt_ex_tracker 0 1] = Inr [[3 / 4, 0]]"
    by (simp add: mt_scores_def score_matrix_def mt_ex_cfg_def mt_ex_score del: err_bind_Inr_iff)
  have assign: "da_assign da_ex_solve [[3 / 4, 0]] = ([0 \<mapsto> 0], [0 \<mapsto> 0])"
    by (auto simp: da_assign_def da_ex_solve_def score_threshold_def fun_eq_iff split: option.splits)
  have "\<not> mt_is_old 0 updated"
    by (simp add: updated_def mt_is_old_def tr_getElapsedTimeFromLastUpdate_def tr_updateWithMeasurement_def split_beta)
  then have clean: "mt_clean mt_ex_cfg 0 (?s\<lparr>mt_list_tracker := [updated]\<rparr>) = Inr \<lparr>mt_list_tracker = [updated], mt_before_begin = False\<rparr>"
    by (simp add: mt_clean_def)
  have upd: "err_map (mt_update mt_ex_cfg 0 () ?objects [0 \<mapsto> 0]) (List.enumerate 0 [mt_ex_tracker 0 1]) = Inr [updated]"
    by (simp add: mt_update_def updated_def del: err_bind_Inr_iff)
  have free: "filter (\<lambda>i. ([0 \<mapsto> 0] :: assignment) i = None) [0..<length ?objects] = [1]" by simp
  define s' where "s' = \<lparr>mt_list_tracker = [updated, mt_createNewTracker mt_ex_cfg (da_ex_object 50) 0 ()], mt_before_begin = False\<rparr>"
  have run: "mt_onMeasurement mt_ex_cfg (Some ()) (Some ?objects) 0 1 ?s = Inr (s', mt_publish mt_ex_cfg 0 1 s')"
    unfolding mt_onMeasurement_def prod.case option.case mt_state.select_convs list.map mt_ex_cfg_simps predicted scores
      err_bind.simps assign Let_def upd clean free s'_def
    by simp
  have two: "mt_list_tracker s' = [updated, mt_createNewTracker mt_ex_cfg (da_ex_object 50) 0 ()]" by (simp add: s'_def)
  have "gnn_solver (mc_solve mt_ex_cfg)" using da_ex_solver by simp
  from mt_measurement_used_once [OF this run] have "\<exists>(direct :: assignment) kept. inj_on direct (dom direct) \<and>
      mt_list_tracker s' = kept @ map (\<lambda>j. mt_createNewTracker mt_ex_cfg (?objects ! j) 0 ())
        (filter (\<lambda>j. j \<notin> ran direct) [0..<length ?objects])"
    by (elim exE conjE, intro exI conjI)
  moreover have "length ?objects = 2" "length (mt_list_tracker s') = 2" using two by simp_all
  ultimately show ?thesis using run by metis
qed

end
