(* ===== verification/Object_Merger.thy ===== *)
theory Object_Merger
  imports Data_Association
begin

text \<open>
  perception/object_merger: the node that merges the detected objects of two messages by the data association of theory
  \<open>Data_Association\<close>, and then leaves out objects of unknown class that overlap another one.  Applying
  transformations (tf2) gives an argument of the callback.
\<close>

section \<open>The node\<close>

datatype oj_priority_mode = PriorityMode_Object0 | PriorityMode_Object1 | PriorityMode_Confidence | PriorityMode_raw int

text \<open>The mode is cast from an integer parameter.\<close>

definition oj_priority_mode_of :: "int \<Rightarrow> oj_priority_mode" where
  "oj_priority_mode_of n =
     (if n = 0 then PriorityMode_Object0 else if n = 1 then PriorityMode_Object1
      else if n = 2 then PriorityMode_Confidence else PriorityMode_raw n)"

record oj_config =
  oj_priority_mode :: oj_priority_mode
  oj_remove_overlapped_unknown_objects :: bool
  oj_precision_threshold :: real
  oj_recall_threshold :: real
  oj_generalized_iou_threshold :: real
  oj_distance_threshold_map :: "nat \<rightharpoonup> real"
  oj_data_association :: data_association
  oj_lib :: object_lib
  oj_solve :: "real list list \<Rightarrow> assignment \<times> assignment"

definition oj_convertListToClassMap :: "real list \<Rightarrow> nat \<rightharpoonup> real" where
  "oj_convertListToClassMap thresholds =
     fold (\<lambda>(class_label, t) m. m(class_label \<mapsto> t)) (List.enumerate 0 thresholds) Map.empty"

definition oj_isUnknownObjectOverlapped ::
  "oj_config \<Rightarrow> perception_object \<Rightarrow> perception_object \<Rightarrow> perception_error + bool" where
  "oj_isUnknownObjectOverlapped cfg unknown_object known_object =
     (case oj_distance_threshold_map cfg (getHighestProbLabel (pb_classification known_object)) of
        None \<Rightarrow> Inl PE_OutOfRange
      | Some distance_threshold \<Rightarrow>
          let sq_distance = calcSquaredDistance2d (pb_pose unknown_object) (pb_pose known_object)
          in if distance_threshold\<^sup>2 < sq_distance then Inr False
             else err_bind (get2dPrecision (oj_lib cfg) unknown_object known_object) (\<lambda>precision.
               err_bind (get2dRecall (oj_lib cfg) unknown_object known_object) (\<lambda>recall.
               err_bind (get2dGeneralizedIoU (oj_lib cfg) unknown_object known_object) (\<lambda>generalized_iou.
                 Inr (flt_less (Fin (oj_precision_threshold cfg)) precision \<or>
                      flt_less (Fin (oj_recall_threshold cfg)) recall \<or>
                      flt_less (Fin (oj_generalized_iou_threshold cfg)) generalized_iou)))))"

text \<open>The loop over the known objects ends with the first that overlaps.\<close>

fun oj_is_overlapped ::
  "oj_config \<Rightarrow> perception_object \<Rightarrow> perception_object list \<Rightarrow> perception_error + bool" where
  "oj_is_overlapped cfg unknown_object [] = Inr False"
| "oj_is_overlapped cfg unknown_object (known_object # rest) =
     err_bind (oj_isUnknownObjectOverlapped cfg unknown_object known_object) (\<lambda>overlapped.
       if overlapped then Inr True else oj_is_overlapped cfg unknown_object rest)"

definition oj_is_unknown :: "perception_object \<Rightarrow> bool" where
  "oj_is_unknown object \<longleftrightarrow> getHighestProbLabel (pb_classification object) = Label_UNKNOWN"

definition oj_remove_overlapped ::
  "oj_config \<Rightarrow> perception_object list \<Rightarrow> perception_error + perception_object list" where
  "oj_remove_overlapped cfg objects =
     (let unknown_objects = filter oj_is_unknown objects; known_objects = filter (\<lambda>b. \<not> oj_is_unknown b) objects
      in err_fold (\<lambda>unknown_object out.
           err_bind (oj_is_overlapped cfg unknown_object known_objects) (\<lambda>is_overlapped.
             Inr (if is_overlapped then out else out @ [unknown_object]))) unknown_objects known_objects)"

text \<open>What a pair of merged objects adds to the output; nothing when the mode is none of the three.\<close>

fun oj_merge_pair :: "oj_priority_mode \<Rightarrow> perception_object \<Rightarrow> perception_object \<Rightarrow> perception_object list" where
  "oj_merge_pair PriorityMode_Object0 object0 object1 = [object0]"
| "oj_merge_pair PriorityMode_Object1 object0 object1 = [object1]"
| "oj_merge_pair PriorityMode_Confidence object0 object1 =
     (if pb_existence_probability object1 \<le> pb_existence_probability object0 then [object0] else [object1])"
| "oj_merge_pair (PriorityMode_raw n) object0 object1 = []"

definition oj_merge ::
  "oj_config \<Rightarrow> assignment \<times> assignment \<Rightarrow> perception_object list \<Rightarrow> perception_object list \<Rightarrow>
     perception_error + perception_object list" where
  "oj_merge cfg = (\<lambda>(direct, rev_assignment) objects0 objects1.
     err_bind (err_fold (\<lambda>i out.
         case direct i of
           None \<Rightarrow> Inr (out @ [objects0 ! i])
         | Some j \<Rightarrow>
             if j < length objects1
             then Inr (out @ oj_merge_pair (oj_priority_mode cfg) (objects0 ! i) (objects1 ! j))
             else Inl PE_OutOfRange) [0..<length objects0] [])
       (\<lambda>out. Inr (out @ map (\<lambda>j. objects1 ! j) (filter (\<lambda>j. rev_assignment j = None) [0..<length objects1]))))"

text \<open>The callback; its result is what it publishes, if anything.\<close>

definition oj_objectsCallback ::
  "oj_config \<Rightarrow> nat \<Rightarrow> perception_object list option \<Rightarrow> perception_object list option \<Rightarrow>
     perception_error + perception_object list option" where
  "oj_objectsCallback cfg subscription_count transformed_objects0 transformed_objects1 =
     (if subscription_count < 1 then Inr None
      else case (transformed_objects0, transformed_objects1) of
        (Some objects0, Some objects1) \<Rightarrow>
          err_bind (score_matrix (merger_score (oj_data_association cfg) (oj_lib cfg)) objects0 objects1) (\<lambda>src.
          err_bind (oj_merge cfg (da_assign (oj_solve cfg) src) objects0 objects1) (\<lambda>merged.
          err_bind (if oj_remove_overlapped_unknown_objects cfg then oj_remove_overlapped cfg merged else Inr merged) (\<lambda>out.
            Inr (Some out))))
      | _ \<Rightarrow> Inr None)"

section \<open>What it publishes\<close>

lemma oj_convertListToClassMap_at:
  "oj_convertListToClassMap thresholds label = (if label < length thresholds then Some (thresholds ! label) else None)"
proof -
  have "fold (\<lambda>(class_label, t) m. m(class_label \<mapsto> t)) (List.enumerate k thresholds) m label =
      (if k \<le> label \<and> label < k + length thresholds then Some (thresholds ! (label - k)) else m label)" for k m
  proof (induction thresholds arbitrary: k m)
    case (Cons t ts)
    show ?case by (simp del: fun_upd_apply add: Cons.IH) (auto simp: nth_Cons' Suc_le_eq)
  next
    case Nil
    show ?case by auto
  qed
  from this [of 0 Map.empty] show ?thesis by (simp add: oj_convertListToClassMap_def)
qed

lemma oj_is_overlapped_iff:
  "oj_is_overlapped cfg u ks = Inr b \<Longrightarrow>
     b \<longleftrightarrow> (\<exists>k \<in> set ks. oj_isUnknownObjectOverlapped cfg u k = Inr True)"
  by (induction ks arbitrary: b) (auto split: if_splits)

text \<open>A loop whose body appends to the output.\<close>

lemma err_fold_concat:
  assumes "\<And>x out out'. x \<in> set xs \<Longrightarrow> f x out = Inr out' \<Longrightarrow> out' = out @ h x" and "err_fold f xs acc = Inr out"
  shows "out = acc @ concat (map h xs)"
  using assms
proof (induction xs arbitrary: acc)
  case (Cons x xs)
  from Cons.prems(2) obtain out1 where out1: "f x acc = Inr out1" "err_fold f xs out1 = Inr out" by auto
  have "out1 = acc @ h x" using Cons.prems(1) out1(1) by simp
  moreover have "out = out1 @ concat (map h xs)" using Cons.IH [OF _ out1(2)] Cons.prems(1) by simp
  ultimately show ?case by simp
qed simp

lemma concat_map_filter: "concat (map (\<lambda>x. if P x then [] else [x]) xs) = filter (\<lambda>x. \<not> P x) xs"
  by (induction xs) auto

lemma oj_remove_overlapped_eq:
  assumes "oj_remove_overlapped cfg objects = Inr out"
  shows "out = filter (\<lambda>b. \<not> oj_is_unknown b) objects @
    filter (\<lambda>u. oj_is_unknown u \<and> \<not> (\<exists>k \<in> set objects. \<not> oj_is_unknown k \<and> oj_isUnknownObjectOverlapped cfg u k = Inr True)) objects"
proof -
  let ?known = "filter (\<lambda>b. \<not> oj_is_unknown b) objects"
  let ?over = "\<lambda>u. \<exists>k \<in> set ?known. oj_isUnknownObjectOverlapped cfg u k = Inr True"
  have "out = ?known @ concat (map (\<lambda>u. if ?over u then [] else [u]) (filter oj_is_unknown objects))"
    by (rule err_fold_concat [OF _ assms [unfolded oj_remove_overlapped_def Let_def]])
      (use oj_is_overlapped_iff in \<open>fastforce split: if_splits\<close>)
  also have "concat (map (\<lambda>u. if ?over u then [] else [u]) (filter oj_is_unknown objects)) =
      filter (\<lambda>u. \<not> ?over u) (filter oj_is_unknown objects)"
    by (rule concat_map_filter)
  also have "\<dots> = filter (\<lambda>u. oj_is_unknown u \<and>
      \<not> (\<exists>k \<in> set objects. \<not> oj_is_unknown k \<and> oj_isUnknownObjectOverlapped cfg u k = Inr True)) objects"
    unfolding filter_filter by (rule filter_cong) auto
  finally show ?thesis .
qed

lemma oj_merge_eq:
  assumes "oj_merge cfg (direct, r) objects0 objects1 = Inr merged"
  shows "merged = concat (map (\<lambda>i. case direct i of None \<Rightarrow> [objects0 ! i]
      | Some j \<Rightarrow> oj_merge_pair (oj_priority_mode cfg) (objects0 ! i) (objects1 ! j)) [0..<length objects0]) @
    map (\<lambda>j. objects1 ! j) (filter (\<lambda>j. r j = None) [0..<length objects1])"
proof -
  obtain out where loop: "err_fold (\<lambda>i out.
         case direct i of
           None \<Rightarrow> Inr (out @ [objects0 ! i])
         | Some j \<Rightarrow>
             if j < length objects1
             then Inr (out @ oj_merge_pair (oj_priority_mode cfg) (objects0 ! i) (objects1 ! j))
             else Inl PE_OutOfRange) [0..<length objects0] [] = Inr out"
    and merged: "merged = out @ map (\<lambda>j. objects1 ! j) (filter (\<lambda>j. r j = None) [0..<length objects1])"
    using assms by (auto simp: oj_merge_def)
  have "out = [] @ concat (map (\<lambda>i. case direct i of None \<Rightarrow> [objects0 ! i]
      | Some j \<Rightarrow> oj_merge_pair (oj_priority_mode cfg) (objects0 ! i) (objects1 ! j)) [0..<length objects0])"
    by (rule err_fold_concat [OF _ loop]) (auto split: option.splits if_splits)
  with merged show ?thesis by simp
qed

text \<open>C26: what the merger publishes: the objects of the first message in order, each replaced by the one its priority
  mode chooses when it is assigned an object of the second message, then the objects of the second message that are
  not assigned; no object is assigned twice, so with a valid priority mode the merged list has as many objects as
  both messages less one for each pair.  When overlapped objects are removed, those of known class come first, all
  of them, and an object of unknown class is left out if and only if it overlaps one of them.\<close>

theorem oj_published:
  assumes "gnn_solver (oj_solve cfg)"
    and "oj_objectsCallback cfg n (Some objects0) (Some objects1) = Inr (Some out)"
  shows "\<exists>direct merged. inj_on direct (dom direct) \<and>
    dom direct \<subseteq> {..<length objects0} \<and> ran direct \<subseteq> {..<length objects1} \<and>
    merged = concat (map (\<lambda>i. case direct i of None \<Rightarrow> [objects0 ! i]
      | Some j \<Rightarrow> oj_merge_pair (oj_priority_mode cfg) (objects0 ! i) (objects1 ! j)) [0..<length objects0]) @
      map (\<lambda>j. objects1 ! j) (filter (\<lambda>j. j \<notin> ran direct) [0..<length objects1]) \<and>
    ((\<exists>k. oj_priority_mode cfg = PriorityMode_raw k) \<or>
       length merged + card (dom direct) = length objects0 + length objects1) \<and>
    out = (if oj_remove_overlapped_unknown_objects cfg
           then filter (\<lambda>b. \<not> oj_is_unknown b) merged @ filter (\<lambda>u. oj_is_unknown u \<and>
             \<not> (\<exists>k \<in> set merged. \<not> oj_is_unknown k \<and> oj_isUnknownObjectOverlapped cfg u k = Inr True)) merged
           else merged)"
proof -
  obtain src direct r merged where
    src: "score_matrix (merger_score (oj_data_association cfg) (oj_lib cfg)) objects0 objects1 = Inr src"
    and dr: "da_assign (oj_solve cfg) src = (direct, r)" and merge: "oj_merge cfg (direct, r) objects0 objects1 = Inr merged"
    and out: "(if oj_remove_overlapped_unknown_objects cfg then oj_remove_overlapped cfg merged else Inr merged) = Inr out"
  proof -
    obtain src merged where "score_matrix (merger_score (oj_data_association cfg) (oj_lib cfg)) objects0 objects1 = Inr src"
      "oj_merge cfg (da_assign (oj_solve cfg) src) objects0 objects1 = Inr merged"
      "(if oj_remove_overlapped_unknown_objects cfg then oj_remove_overlapped cfg merged else Inr merged) = Inr out"
      using assms(2) by (auto simp: oj_objectsCallback_def simp del: if_split split: if_split_asm)
    then show thesis using that by (cases "da_assign (oj_solve cfg) src") simp
  qed
  note nth = score_matrix_nth [OF src]
  have scores: "ssp_scores src" by (rule score_matrix_scores [OF src]) (simp add: merger_score_gates)
  note pairs = gnn_solver.assign_pairs [OF assms(1) scores dr]
  have range: "i < length objects0 \<and> j < length objects1" if "direct i = Some j" for i j
  proof -
    have "i < length objects0" "j < length (src ! 0)" using pairs(2) [OF that] nth(1) by simp_all
    moreover from this have "0 < length objects0" by linarith
    ultimately show ?thesis using nth(2) by simp
  qed
  have unassigned: "r j = None \<longleftrightarrow> j \<notin> ran direct" for j
  proof -
    have "r j = None \<longleftrightarrow> (\<forall>k. r j \<noteq> Some k)" by (cases "r j") auto
    then show ?thesis using pairs(1) by (auto simp: ran_def)
  qed
  have inj: "inj_on direct (dom direct)" using pairs(1) unfolding inj_on_def by (metis domD option.inject)
  have dom: "dom direct \<subseteq> {..<length objects0}" and ran: "ran direct \<subseteq> {..<length objects1}"
    using range by (auto simp: ran_def)
  note merged = oj_merge_eq [OF merge, unfolded unassigned]
  have count: "length merged + card (dom direct) = length objects0 + length objects1"
    if "\<not> (\<exists>k. oj_priority_mode cfg = PriorityMode_raw k)"
  proof -
    have one: "length (oj_merge_pair (oj_priority_mode cfg) a b) = 1" for a b
      using that by (cases "oj_priority_mode cfg") auto
    have "length (concat (map (\<lambda>i. case direct i of None \<Rightarrow> [objects0 ! i]
        | Some j \<Rightarrow> oj_merge_pair (oj_priority_mode cfg) (objects0 ! i) (objects1 ! j)) is)) = length is" for "is"
      by (induction "is") (auto simp: one split: option.split)
    moreover have "length (filter (\<lambda>j. j \<notin> ran direct) [0..<length objects1]) + card (ran direct) = length objects1"
    proof -
      have "length (filter (\<lambda>j. j \<notin> ran direct) [0..<length objects1]) = card ({..<length objects1} - ran direct)"
        by (subst distinct_card [symmetric]) (auto intro: arg_cong [where f = card])
      then show ?thesis using ran card_mono [OF _ ran] by (simp add: card_Diff_subset finite_subset)
    qed
    moreover have "card (ran direct) = card (dom direct)"
    proof -
      have eq: "ran direct = (\<lambda>i. the (direct i)) ` dom direct" by (force simp: ran_def)
      have "inj_on (\<lambda>i. the (direct i)) (dom direct)" using inj unfolding inj_on_def by (metis domIff option.expand)
      then show ?thesis unfolding eq by (rule card_image)
    qed
    ultimately show ?thesis by (simp add: merged)
  qed
  have "out = (if oj_remove_overlapped_unknown_objects cfg
           then filter (\<lambda>b. \<not> oj_is_unknown b) merged @ filter (\<lambda>u. oj_is_unknown u \<and>
             \<not> (\<exists>k \<in> set merged. \<not> oj_is_unknown k \<and> oj_isUnknownObjectOverlapped cfg u k = Inr True)) merged
           else merged)"
    using out oj_remove_overlapped_eq [of cfg merged out] by (auto split: if_split_asm)
  with inj dom ran merged count show ?thesis by (intro exI [of _ direct] exI [of _ merged] conjI) blast+
qed

section \<open>An example\<close>

definition oj_ex_cfg :: oj_config where
  "oj_ex_cfg =
     \<lparr>oj_priority_mode = oj_priority_mode_of 0, oj_remove_overlapped_unknown_objects = True, oj_precision_threshold = 0,
      oj_recall_threshold = 1 / 2, oj_generalized_iou_threshold = - 1 / 10,
      oj_distance_threshold_map = oj_convertListToClassMap [9, 9],
      oj_data_association = da_new [1, 0, 0, 0] [4, 4, 4, 4] [] [] [4, 4, 4, 4] [- 1, - 1, - 1, - 1],
      oj_lib = da_ex_lib, oj_solve = da_ex_solve\<rparr>"

definition oj_ex_car :: perception_object where
  "oj_ex_car = (da_ex_object 100)\<lparr>pb_classification := [\<lparr>cl_label = Label_CAR, cl_probability = 1\<rparr>]\<rparr>"

text \<open>Two objects of unknown class are merged, and a car far away comes first in the output.\<close>

theorem oj_published_witness:
  "\<exists>(direct :: assignment) merged. oj_objectsCallback oj_ex_cfg 1 (Some [da_ex_object 0]) (Some [da_ex_object 1, oj_ex_car]) =
      Inr (Some [oj_ex_car, da_ex_object 0]) \<and>
    inj_on direct (dom direct) \<and> length merged + card (dom direct) = 3 \<and>
    [oj_ex_car, da_ex_object 0] = filter (\<lambda>b. \<not> oj_is_unknown b) merged @ filter (\<lambda>u. oj_is_unknown u \<and>
      \<not> (\<exists>k \<in> set merged. \<not> oj_is_unknown k \<and> oj_isUnknownObjectOverlapped oj_ex_cfg u k = Inr True)) merged"
proof -
  let ?objects0 = "[da_ex_object 0]" and ?objects1 = "[da_ex_object 1, oj_ex_car]"
  let ?da = "oj_data_association oj_ex_cfg"
  have size: "int_sqrt (Suc (Suc (Suc (Suc 0)))) = 2" by (simp add: int_sqrt_def)
  have labels: "getHighestProbLabel (pb_classification (da_ex_object x)) = 0"
    "getHighestProbLabel (pb_classification oj_ex_car) = 1" for x
    by (simp_all add: getHighestProbLabel_def da_ex_object_def oj_ex_car_def)
  have matrices: "matrix_at (da_can_assign_matrix ?da) 0 0 = Inr 1" "matrix_at (da_can_assign_matrix ?da) 0 1 = Inr 0"
    "matrix_at (da_max_dist_matrix ?da) 0 0 = Inr 4" "matrix_at (da_max_rad_matrix ?da) 0 0 = Inr 4"
    "matrix_at (da_min_iou_matrix ?da) 0 0 = Inr (- 1)"
    by (simp_all add: oj_ex_cfg_def da_new_def param_matrix_new_def matrix_at_def size)
  have d: "calcDistance2d (pb_pose (da_ex_object 1)) (pb_pose (da_ex_object 0)) = 1"
    by (simp add: calcDistance2d_def std_hypot_def da_ex_object_def)
  have angle: "angle_gate ?da 0 0 y z = Inr True" for y z
    using pi_less_4 by (simp add: angle_gate_def matrices Let_def del: err_bind_Inr_iff)
  have "get2dIoU da_ex_lib (da_ex_object 1) (da_ex_object 0) (1 / 100) = Inr (Fin 1)"
    by (rule da_ex_iou [of _ 1 _ 0]) simp_all
  then have iou: "iou_gate ?da da_ex_lib 0 0 (da_ex_object 1) (da_ex_object 0) = Inr True"
    by (simp add: iou_gate_def matrices del: err_bind_Inr_iff)
  have "merger_score ?da da_ex_lib (da_ex_object 0) (da_ex_object 1) = Inr (3 / 4)"
    by (simp add: merger_score_def labels matrices d dist_gate_def err_and_def angle iou distance_score_def score_threshold_def
        Let_def del: err_bind_Inr_iff)
  moreover have "merger_score ?da da_ex_lib (da_ex_object 0) oj_ex_car = Inr 0"
    using matrices(2) by (simp add: merger_score_def labels Let_def del: err_bind_Inr_iff)
  ultimately have src: "score_matrix (merger_score ?da (oj_lib oj_ex_cfg)) ?objects0 ?objects1 = Inr [[3 / 4, 0]]"
    by (simp add: score_matrix_def oj_ex_cfg_def del: err_bind_Inr_iff)
  have assign: "da_assign (oj_solve oj_ex_cfg) [[3 / 4, 0]] = ([0 \<mapsto> 0], [0 \<mapsto> 0])"
    by (auto simp: oj_ex_cfg_def da_assign_def da_ex_solve_def score_threshold_def fun_eq_iff split: option.splits)
  have merge: "oj_merge oj_ex_cfg ([0 \<mapsto> 0], [0 \<mapsto> 0]) ?objects0 ?objects1 = Inr [da_ex_object 0, oj_ex_car]"
    by (simp add: oj_merge_def oj_ex_cfg_def oj_priority_mode_of_def del: err_bind_Inr_iff)
  have unknown: "oj_is_unknown (da_ex_object 0)" "\<not> oj_is_unknown oj_ex_car" by (simp_all add: oj_is_unknown_def labels)
  have "oj_isUnknownObjectOverlapped oj_ex_cfg (da_ex_object 0) oj_ex_car = Inr False"
    by (simp add: oj_isUnknownObjectOverlapped_def getHighestProbLabel_def oj_ex_cfg_def oj_convertListToClassMap_at calcSquaredDistance2d_def
        da_ex_object_def oj_ex_car_def Let_def)
  then have remove: "oj_remove_overlapped oj_ex_cfg [da_ex_object 0, oj_ex_car] = Inr [oj_ex_car, da_ex_object 0]"
    by (simp add: oj_remove_overlapped_def unknown del: err_bind_Inr_iff)
  have removes: "oj_remove_overlapped_unknown_objects oj_ex_cfg" by (simp add: oj_ex_cfg_def)
  have run: "oj_objectsCallback oj_ex_cfg 1 (Some ?objects0) (Some ?objects1) = Inr (Some [oj_ex_car, da_ex_object 0])"
    unfolding oj_objectsCallback_def prod.case option.case src err_bind.simps assign merge using removes remove by simp
  have solver: "gnn_solver (oj_solve oj_ex_cfg)" using da_ex_solver by (simp add: oj_ex_cfg_def)
  have mode: "\<not> (\<exists>k. oj_priority_mode oj_ex_cfg = PriorityMode_raw k)" by (simp add: oj_ex_cfg_def oj_priority_mode_of_def)
  from oj_published [OF solver run] obtain direct :: assignment and merged where "inj_on direct (dom direct)"
    "(\<exists>k. oj_priority_mode oj_ex_cfg = PriorityMode_raw k) \<or>
       length merged + card (dom direct) = length ?objects0 + length ?objects1"
    "[oj_ex_car, da_ex_object 0] = (if oj_remove_overlapped_unknown_objects oj_ex_cfg
       then filter (\<lambda>b. \<not> oj_is_unknown b) merged @ filter (\<lambda>u. oj_is_unknown u \<and>
         \<not> (\<exists>k \<in> set merged. \<not> oj_is_unknown k \<and> oj_isUnknownObjectOverlapped oj_ex_cfg u k = Inr True)) merged
       else merged)"
    by (elim exE conjE) (rule that; assumption)
  moreover have "length ?objects0 + length ?objects1 = 3" by simp
  ultimately show ?thesis using run mode removes by (intro exI [of _ direct] exI [of _ merged] conjI) auto
qed

end
