(* ===== verification/Spec2Isabelle.thy ===== *)
theory Spec2Isabelle
  imports Fault_To_Vehicle Operation_Mode Ad_Motion
    Autonomous_Availability Rtc_Interface Velocity_Limit_Selector Spline_Points_2d Raw_Vehicle_Cmd
    Trajectory_Edit Decel_Distance Trajectory_Follower Planning_Validator
    Ad_Planning Shift_Decider External_Cmd_Selector Scenario_Selector Freespace_Planner Emergency_Braking
    Planner_Manager Surround_Obstacle_Checker Multi_Object_Tracker Object_Merger
begin

text \<open>
  \<^bold>\<open>Autoware Universe: safety, control and planning nodes.\<close>

  The repository is a set of ROS 2 nodes that exchange messages. A node is modelled as a record of the
  members its callbacks read and write, one definition per callback or member function (from the state and the
  message to the new state and the messages published), a function \<open>.._handle\<close> over the events of the
  node, and the states reachable from its constructor. What a callback publishes is a list of outputs in
  the order of the code. Exceptions, failing \<open>at()\<close> and undefined behaviour are values of a sum or option
  type. ROS time is an integer number of nanoseconds; the clock reading of a callback is an argument.
  Doubles are real numbers, except where the code tests for NaN or infinity or may divide by zero (type
  \<open>flt\<close>); where it stores a double in a 32-bit field, the rounding is an argument \<open>fl\<close>. Log
  messages, debug topics and markers are left out throughout.

  \<^bold>\<open>Theories and the code they model\<close> (paths under src/)

  \<^item> AW_Prelude, AW_Msgs, Flt_Arith, Registry, Change_Publisher, Watchdog: shared lemmas (buffers, first
    match, code that may throw), the message types, floating-point values with infinities and NaN, and three
    interfaces as locales: a table of entries, a publisher that publishes on change, and an input with a timeout.
  \<^item> System_Error_Monitor with Diagnostics_Filter: system/system_error_monitor. Loading of the required
    modules, the diagnostics buffer, judgement of every module, holding of an emergency, timeouts.
  \<^item> Emergency_Handler, Mrm_Operators, Mrm_System: system/emergency_handler (MRM state machine, choice and
    switching of behaviours), system/mrm_comfortable_stop_operator, system/mrm_emergency_stop_operator, and the three
    with every interleaving of their callbacks (step relation \<open>ys_step\<close>).
  \<^item> Vehicle_Cmd_Filter, Vehicle_Cmd_Gate: control/vehicle_cmd_gate: the limiter, the pause interface, sources,
    heartbeats, external emergency stop.
  \<^item> Fault_To_Vehicle: the four nodes above one after the other, from a fault to the command for the vehicle.
  \<^item> Operation_Mode: control/operation_mode_transition_manager.
  \<^item> Ad_Api, Ad_Motion, Ad_Planning: system/default_ad_api and the vehicle stop and arrival checkers of
    common/motion_utils (Vehicle_Stop_Checker).
  \<^item> Topic_State_Monitor, Component_State_Monitor, Autonomous_Availability: system/topic_state_monitor,
    system/component_state_monitor, and both with the AD API node that asks them whether autonomous mode is available.
  \<^item> Rtc_Interface: planning/rtc_interface, rtc_auto_mode_manager, rtc_replayer. Velocity_Limit_Selector:
    planning/external_velocity_limit_selector. Scenario_Selector: planning/scenario_selector. Shift_Decider and
    External_Cmd_Selector: the nodes of these names under control/.
  \<^item> Interpolation, Spline_Interpolation, Spline_Points_2d: common/interpolation.
  \<^item> Trajectory_Geometry, Trajectory_Utils, Trajectory_Edit, Decel_Distance: trajectory.hpp and distance.cpp of
    common/motion_utils and what they use of common/tier4_autoware_utils.
  \<^item> Raw_Vehicle_Cmd: vehicle/raw_vehicle_cmd_converter: tables read from CSV, look-ups, PID with anti-windup.
  \<^item> Longitudinal_Utils, Longitudinal_Controller, Longitudinal_Safety, Trajectory_Follower:
    control/pid_longitudinal_controller and the controller node of control/trajectory_follower_node.
  \<^item> Planning_Validator: planning/planning_validator.
  \<^item> Freespace_Algorithm, Astar_Search, Freespace_Planner: planning/freespace_planning_algorithms (the map, the
    footprint, collisions, hybrid A*) and the node planning/freespace_planner on top of it.
  \<^item> Emergency_Braking: control/autonomous_emergency_braking.
  \<^item> Surround_Obstacle_Checker: planning/surround_obstacle_checker, with the selector it sends its limits to.
  \<^item> Planner_Manager: planning/behavior_path_planner (new architecture): the planner manager, the managers and the
    base class of its scene modules, on top of Rtc_Interface.
  \<^item> Successive_Shortest_Path, Residual_Network, Assignment_Optimal: the assignment solver SSP of
    perception/multi_object_tracker and perception/object_merger.
  \<^item> Perception_Objects, Data_Association, Multi_Object_Tracker, Object_Merger: common/perception_utils, the two data
    associations, and the nodes perception/multi_object_tracker (its trackers behind an interface) and
    perception/object_merger.

  \<^bold>\<open>How the parts are connected.\<close> The system error monitor turns diagnostics into a hazard status; the
  emergency handler turns it into an MRM state and calls one of the two operators; the comfortable stop operator asks
  the velocity limit selector for velocity zero, the emergency stop operator publishes control commands itself; the
  gate selects between these, the commands of the trajectory follower and those of a remote operator. The
  operation mode transition manager and the AD API change modes; the scenario selector switches between
  lane driving and the free-space planner, whose completion message it listens to; the planning validator stands
  between planning and the trajectory follower.

  \<^bold>\<open>Interfaces.\<close> Where one part relies on another, what it uses is a locale, interpreted on the model of
  the provider in the provider's theory: \<open>mrm_operator\<close> (both operators), \<open>watchdog\<close> (inputs with a timeout),
  \<open>std_priority_queue\<close> (the queue of A*), \<open>parking_algorithm\<close> (what the parking node asks of its algorithm,
  interpreted on hybrid A*), \<open>module_sort\<close> (the sort by priority of the planner manager), and those of Registry and Change_Publisher. Libraries outside the repository (tf2, lanelet2,
  the order in which a priority queue gives out equal elements, the Reeds-Shepp distance) are parameters with the laws
  that are used of them as named hypotheses.

  \<^bold>\<open>What the lemmas show.\<close> For each node: its well-formed states and that every callback keeps them (so that
  no exception is thrown, or exactly which), what it publishes in every case, and the safety, bounds and liveness
  properties stated as theorems with a text block before them. Executable examples (\<open>.._ex\<close>) show that the
  hypotheses can hold. Lemmas named in the findings of the manifest state what the code does where a comment, a
  document or the purpose of the code says otherwise.

  \<^bold>\<open>Bounds and fuel.\<close> The search of A* has fuel; more than width * height * theta_size is enough
  (theorem \<open>as_makePlan_correct\<close>), since every turn closes a key of a free cell. The loops whose end depends
  on floating-point steps (\<open>fs_range\<close>, the partial sums of arc lengths) are partial functions, with lemmas that they
  have a value for positive steps; so is the loop of the planner manager, whose end theorem
  \<open>pm_cycles_return\<close> is about. All other loops are recursions over data.

  \<^bold>\<open>Not modelled.\<close> Perception (neural networks, PCL, OpenCV), localization filters and scan matching, map
  loading, the scene modules of behavior_path_planner and behavior_velocity_planner (lanelet2 geometry), the optimisation-based planners and
  the MPC controller (OSQP, Eigen), RRT* and the Reeds-Shepp curves, sensing drivers, simulators, user interface and
  launch files: they are pure input and output, numerical kernels of third-party libraries, or planned for later. The
  manifest lists every package.
\<close>

end
